(* ===== verification/Prelude.thy ===== *)
theory Prelude
  imports Main "HOL-Library.Word" "HOL-Library.Monad_Syntax"
begin

text \<open>
  Shared vocabulary of the development: machine words and their memory images, C strings held in
  byte buffers, and the list lemmas the component theories rely on.

  Conventions.
  \<^item> A byte is an 8 bit word; memory is a list of bytes in address order.
  \<^item> The target is a little-endian machine (the x86-64 and ARM builds of the repository's CI):
    \<open>mem16\<close> and \<open>mem32\<close> are the bytes a store of an integer leaves in memory, and \<open>htons\<close>,
    \<open>htonl\<close> swap bytes.  \<open>net16\<close>, \<open>net32\<close>, \<open>net64\<close> are the big-endian images the protocols
    put on the wire; \<open>mem16_htons\<close> and \<open>mem32_htonl\<close> relate the two.
  \<^item> A C string in a buffer is the list of its bytes before the terminating zero (\<open>cstr\<close>).
  \<^item> A function that may touch memory outside a live object has an \<open>option\<close> result: \<open>None\<close> is
    the undefined behaviour of a null, dangling or out-of-bounds access, so its absence is a
    theorem (\<open>f x = Some y\<close>), never an assumption.
\<close>

unbundle bit_operations_syntax

type_synonym byte = "8 word"
type_synonym u16 = "16 word"
type_synonym u32 = "32 word"
type_synonym u64 = "64 word"
type_synonym bytes = "byte list"

named_theorems wire_simps \<open>reading back what was written on the wire\<close>
named_theorems mem_simps \<open>evaluation of buffer accesses\<close>

subsection \<open>Byte order\<close>

definition net16 :: "u16 \<Rightarrow> bytes" where
  "net16 x = [ucast (drop_bit 8 x), ucast x]"

definition net32 :: "u32 \<Rightarrow> bytes" where
  "net32 x = [ucast (drop_bit 24 x), ucast (drop_bit 16 x), ucast (drop_bit 8 x), ucast x]"

definition net64 :: "u64 \<Rightarrow> bytes" where
  "net64 x = net32 (ucast (drop_bit 32 x)) @ net32 (ucast x)"

definition rd16 :: "bytes \<Rightarrow> u16" where
  "rd16 bs = push_bit 8 (ucast (bs ! 0)) OR ucast (bs ! 1)"

definition rd32 :: "bytes \<Rightarrow> u32" where
  "rd32 bs = push_bit 24 (ucast (bs ! 0)) OR push_bit 16 (ucast (bs ! 1))
     OR push_bit 8 (ucast (bs ! 2)) OR ucast (bs ! 3)"

definition rd64 :: "bytes \<Rightarrow> u64" where
  "rd64 bs = push_bit 32 (ucast (rd32 bs)) OR ucast (rd32 (drop 4 bs))"

definition htons :: "u16 \<Rightarrow> u16" where
  "htons x = push_bit 8 x OR drop_bit 8 x"

definition htonl :: "u32 \<Rightarrow> u32" where
  "htonl x = push_bit 24 x OR (push_bit 8 x AND 0xFF0000) OR (drop_bit 8 x AND 0xFF00) OR drop_bit 24 x"

definition mem16 :: "u16 \<Rightarrow> bytes" where
  "mem16 x = [ucast x, ucast (drop_bit 8 x)]"

definition mem32 :: "u32 \<Rightarrow> bytes" where
  "mem32 x = [ucast x, ucast (drop_bit 8 x), ucast (drop_bit 16 x), ucast (drop_bit 24 x)]"

lemma length_net [simp]:
  "length (net16 x) = 2" "length (net32 y) = 4" "length (net64 z) = 8"
  by (simp_all add: net16_def net32_def net64_def)

lemma net_nonempty [simp]: "net16 x \<noteq> []" "net32 y \<noteq> []" "net64 z \<noteq> []"
  by (simp_all add: net16_def net32_def net64_def)

lemma length_mem [simp]: "length (mem16 x) = 2" "length (mem32 y) = 4"
  by (simp_all add: mem16_def mem32_def)

lemma rd16_net16 [wire_simps, simp]: "rd16 (net16 x @ bs) = x"
  unfolding rd16_def net16_def
  by (simp, rule bit_word_eqI) (auto simp: bit_simps)

lemma rd32_net32 [wire_simps, simp]: "rd32 (net32 x @ bs) = x"
  unfolding rd32_def net32_def
proof (simp add: numeral_2_eq_2 numeral_3_eq_3, rule bit_word_eqI)
  fix n :: nat
  assume "n < LENGTH(32)"
  consider "n < 8" | "8 \<le> n" "n < 16" | "16 \<le> n" "n < 24" | "24 \<le> n" by linarith
  then show "bit (push_bit 24 (ucast (ucast (drop_bit 24 x) :: byte)) OR push_bit 16 (ucast (ucast (drop_bit 16 x) :: byte))
      OR push_bit 8 (ucast (ucast (drop_bit 8 x) :: byte)) OR ucast (ucast x :: byte) :: u32) n = bit x n"
    using \<open>n < LENGTH(32)\<close> by cases (auto simp: bit_simps)
qed

lemma rd64_net64 [wire_simps, simp]: "rd64 (net64 x @ bs) = x"
proof -
  have "rd64 (net64 x @ bs) = push_bit 32 (ucast (ucast (drop_bit 32 x) :: u32)) OR ucast (ucast x :: u32)"
    by (simp add: rd64_def net64_def)
  also have "\<dots> = x"
    by (rule bit_word_eqI) (auto simp: bit_simps)
  finally show ?thesis .
qed

lemmas rd_net_all [simp] =
  rd16_net16 [where bs = "[]", simplified] rd32_net32 [where bs = "[]", simplified]
  rd64_net64 [where bs = "[]", simplified]

lemma mem16_htons: "mem16 (htons x) = net16 x"
  unfolding mem16_def htons_def net16_def
  by simp (intro conjI; rule bit_word_eqI; auto simp: bit_simps)

lemma mem32_htonl: "mem32 (htonl x) = net32 x"
proof -
  have m: "(0xFF0000 :: u32) = push_bit 16 (mask 8)" "(0xFF00 :: u32) = push_bit 8 (mask 8)"
    by (simp_all add: mask_eq_exp_minus_1)
  show ?thesis
    unfolding mem32_def htonl_def net32_def m list.inject
    by (intro conjI refl; rule bit_word_eqI; auto simp: bit_simps)
qed

lemma htons_htons [simp]: "htons (htons x) = x"
  unfolding htons_def by (rule bit_word_eqI) (auto simp: bit_simps)

subsection \<open>Masks\<close>

lemma and_low_bits:
  "x AND 1 = take_bit 1 x" "x AND 0x03 = take_bit 2 x" "x AND 0x07 = take_bit 3 x" "x AND 0x0F = take_bit 4 x"
  "x AND 0x3F = take_bit 6 x" "x AND 0xFF = take_bit 8 x" for x :: "'a::len word"
  by (simp_all add: take_bit_eq_mask mask_eq_exp_minus_1)

subsection \<open>Bytes bit by bit\<close>

lemma byte_bits_eqI:
  assumes "bit x 0 = bit y 0" "bit x 1 = bit y 1" "bit x 2 = bit y 2" "bit x 3 = bit y 3"
    "bit x 4 = bit y 4" "bit x 5 = bit y 5" "bit x 6 = bit y 6" "bit x 7 = bit y 7"
  shows "x = (y :: byte)"
proof (rule bit_word_eqI)
  fix n :: nat
  assume "n < LENGTH(8)"
  then have "n = 0 \<or> n = 1 \<or> n = 2 \<or> n = 3 \<or> n = 4 \<or> n = 5 \<or> n = 6 \<or> n = 7" by simp presburger
  then show "bit x n = bit y n" using assms by (elim disjE) simp_all
qed

lemma byte_bit_ge [simp]: "8 \<le> n \<Longrightarrow> \<not> bit (a :: byte) n"
  using bit_imp_le_length [of a n] by auto

subsection \<open>C strings\<close>

definition cstr :: "bytes \<Rightarrow> bytes" where
  "cstr buf = takeWhile (\<lambda>c. c \<noteq> 0) buf"

lemma cstr_append_0: "0 \<notin> set s \<Longrightarrow> cstr (s @ 0 # r) = s"
  by (simp add: cstr_def) (metis (mono_tags, lifting) append_Nil2 takeWhile_append2 takeWhile.simps(2))

lemma cstr_nul_free [simp]: "0 \<notin> set (cstr buf)"
  using set_takeWhileD by (fastforce simp: cstr_def)

lemma cstr_length: "length (cstr buf) \<le> length buf"
  by (simp add: cstr_def length_takeWhile_le)

text \<open>What \<^verbatim>\<open>snprintf(buf, size, ...)\<close> of a text leaves: its return value and the bytes it writes.\<close>

definition snprintf :: "nat \<Rightarrow> bytes \<Rightarrow> int \<times> bytes" where
  "snprintf sz txt = (int (length txt), if sz = 0 then [] else take (sz - 1) txt @ [0])"

lemma snprintf_fits:
  "length (snd (snprintf sz txt)) \<le> sz" "0 < sz \<Longrightarrow> last (snd (snprintf sz txt)) = 0"
  by (auto simp: snprintf_def)

lemma snprintf_whole: "length txt < sz \<Longrightarrow> snprintf sz txt = (int (length txt), txt @ [0])"
  by (simp add: snprintf_def)

text \<open>The bytes of a string literal.\<close>

definition str_bytes :: "string \<Rightarrow> bytes" where
  "str_bytes cs = map of_char cs"

subsection \<open>Buffers\<close>

text \<open>\<open>buf_write buf i bs\<close> is the buffer after a copy of \<open>bs\<close> to its index \<open>i\<close>.\<close>

definition buf_write :: "bytes \<Rightarrow> nat \<Rightarrow> bytes \<Rightarrow> bytes" where
  "buf_write buf i bs = take i buf @ bs @ drop (i + length bs) buf"

lemma length_buf_write [simp]: "i + length bs \<le> length buf \<Longrightarrow> length (buf_write buf i bs) = length buf"
  by (simp add: buf_write_def)

lemma take_buf_write: "i + length bs \<le> length buf \<Longrightarrow> take (i + length bs) (buf_write buf i bs) = take i buf @ bs"
  by (simp add: buf_write_def)

text \<open>Checked loads: \<open>None\<close> when the access is not within the buffer.  The multi-byte loads convert from
  network order, as the code does with \<^verbatim>\<open>ntohs\<close> and \<^verbatim>\<open>ntohl\<close>.\<close>

definition ld :: "bytes \<Rightarrow> nat \<Rightarrow> nat \<Rightarrow> bytes option" where
  "ld buf i n = (if i + n \<le> length buf then Some (take n (drop i buf)) else None)"

definition ld8 :: "bytes \<Rightarrow> nat \<Rightarrow> byte option" where
  "ld8 buf i = (if i < length buf then Some (buf ! i) else None)"

definition ld16 :: "bytes \<Rightarrow> nat \<Rightarrow> u16 option" where "ld16 buf i = map_option rd16 (ld buf i 2)"
definition ld32 :: "bytes \<Rightarrow> nat \<Rightarrow> u32 option" where "ld32 buf i = map_option rd32 (ld buf i 4)"
definition ld64 :: "bytes \<Rightarrow> nat \<Rightarrow> u64 option" where "ld64 buf i = map_option rd64 (ld buf i 8)"

lemmas ld_defs = ld_def ld8_def ld16_def ld32_def ld64_def

lemma ld_in: "i + n \<le> length buf \<Longrightarrow> ld buf i n = Some (take n (drop i buf))"
  by (simp add: ld_def)

lemma ld_eq_SomeD: "ld buf i n = Some v \<Longrightarrow> length v = n \<and> i + n \<le> length buf"
  by (auto simp: ld_def split: if_splits)

lemma ld_safe [mem_simps]:
  "i < length buf \<Longrightarrow> \<exists>v. ld8 buf i = Some v" "i + 2 \<le> length buf \<Longrightarrow> \<exists>v. ld16 buf i = Some v"
  "i + 4 \<le> length buf \<Longrightarrow> \<exists>v. ld32 buf i = Some v" "i + 8 \<le> length buf \<Longrightarrow> \<exists>v. ld64 buf i = Some v"
  "i + n \<le> length buf \<Longrightarrow> \<exists>v. ld buf i n = Some v"
  by (simp_all add: ld_defs)

subsection \<open>Loops\<close>

text \<open>A loop over indices whose body may fail.\<close>

fun each :: "nat list \<Rightarrow> (nat \<Rightarrow> 's \<Rightarrow> 's option) \<Rightarrow> 's \<Rightarrow> 's option" where
  "each [] f s = Some s"
| "each (i # is) f s = do { s' \<leftarrow> f i s; each is f s' }"

lemma bind_SomeE:
  assumes "Option.bind m f = Some y"
  obtains x where "m = Some x" and "f x = Some y"
  using assms by (auto simp: bind_eq_Some_conv)

lemma each_inv:
  assumes "each is f s = Some s'" and "I s" and "\<And>i s s'. i \<in> set is \<Longrightarrow> I s \<Longrightarrow> f i s = Some s' \<Longrightarrow> I s'"
  shows "I s'"
  using assms
proof (induction "is" arbitrary: s)
  case (Cons i "is")
  then obtain t where "f i s = Some t" "each is f t = Some s'" by (auto elim!: bind_SomeE)
  then show ?case using Cons by auto
qed simp

text \<open>A loop that comes to an index whose body fails.\<close>

lemma each_fails:
  assumes "i \<in> set is" and "I s" and "\<And>j s s'. I s \<Longrightarrow> f j s = Some s' \<Longrightarrow> I s'" and "\<And>s. I s \<Longrightarrow> f i s = None"
  shows "each is f s = None"
  using assms(1,2)
proof (induction "is" arbitrary: s)
  case (Cons j "is")
  show ?case
  proof (cases "f j s")
    case (Some t)
    then have "i \<in> set is" using Cons.prems assms(4) [OF Cons.prems(2)] by (cases "i = j") auto
    then show ?thesis using Cons.IH assms(3) [OF Cons.prems(2) Some] Some by simp
  qed simp
qed simp

text \<open>What loops keep of a reflexive and transitive relation.\<close>

locale step_frame =
  fixes frame :: "'s \<Rightarrow> 's \<Rightarrow> bool"
  assumes frame_refl: "frame s s"
    and frame_trans: "frame s t \<Longrightarrow> frame t u \<Longrightarrow> frame s u"
begin

lemma each_frame:
  assumes "\<And>i s s'. f i s = Some s' \<Longrightarrow> frame s s'"
  shows "each is f s = Some s' \<Longrightarrow> frame s s'"
proof (induction "is" arbitrary: s)
  case Nil
  then show ?case using frame_refl by simp
next
  case (Cons i "is")
  then obtain t where "f i s = Some t" "each is f t = Some s'" by (auto simp: bind_eq_Some_conv)
  then show ?case using assms Cons.IH frame_trans by blast
qed

lemma fold_frame:
  assumes "\<And>x s. frame s (f x s)"
  shows "frame s (fold f xs s)"
proof (induction xs arbitrary: s)
  case (Cons x xs)
  then show ?case using assms frame_trans by simp blast
qed (simp add: frame_refl)

lemma bind_frame:
  assumes "Option.bind m f = Some r" "\<And>s'. m = Some s' \<Longrightarrow> frame s s'" "\<And>s'. m = Some s' \<Longrightarrow> f s' = Some r \<Longrightarrow> frame s' (g r)"
  shows "frame s (g r)"
  using assms frame_trans by (auto simp: bind_eq_Some_conv)

end

end
