(* ===== verification/Callback_Queue.thy ===== *)
theory Callback_Queue
  imports Prelude
begin

text \<open>
  The singly linked event queues of \<^verbatim>\<open>cpp/src/datachannel.c\<close>: a chain of malloc'ed nodes with a
  head pointer and an end pointer.  The file keeps two of them, \<open>callback_results\<close> and
  \<open>datachannel_callbacks\<close>, with textually identical pointer code; the node type is a parameter here.
  The pointer operations are refined to a FIFO list, and that contract is the locale
  \<open>event_queue\<close>, interpreted on the pointer code itself.
\<close>

subsection \<open>Nodes, pointers and the three operations\<close>

record 'a node =
  nval :: 'a
  nnext :: "nat option"

record 'a lqueue =
  heap :: "nat \<rightharpoonup> 'a node"
  qhead :: "nat option"
  qend :: "nat option"
  brk :: nat

definition lqueue_init :: "'a lqueue" where
  "lqueue_init = \<lparr>heap = Map.empty, qhead = None, qend = None, brk = 0\<rparr>"

text \<open>\<open>node_malloc\<close> is a \<^verbatim>\<open>malloc\<close> that succeeds: a block at an address that no live block has, with
  contents that are not determined, the \<^verbatim>\<open>next\<close> field included (\<open>u\<close>).\<close>

definition node_malloc :: "'a node \<Rightarrow> 'a lqueue \<Rightarrow> nat \<times> 'a lqueue" where
  "node_malloc u q = (brk q, q\<lparr>heap := (heap q)(brk q \<mapsto> u), brk := Suc (brk q)\<rparr>)"

definition set_next :: "nat \<Rightarrow> nat option \<Rightarrow> 'a lqueue \<Rightarrow> 'a lqueue option" where
  "set_next a p q = do { n \<leftarrow> heap q a; Some (q\<lparr>heap := (heap q)(a \<mapsto> n\<lparr>nnext := p\<rparr>)\<rparr>) }"

definition set_val :: "nat \<Rightarrow> 'a \<Rightarrow> 'a lqueue \<Rightarrow> 'a lqueue option" where
  "set_val a v q = do { n \<leftarrow> heap q a; Some (q\<lparr>heap := (heap q)(a \<mapsto> n\<lparr>nval := v\<rparr>)\<rparr>) }"

definition queue_alloc :: "'a node \<Rightarrow> 'a lqueue \<Rightarrow> (nat \<times> 'a lqueue) option" where
  "queue_alloc u q =
     (case qend q of
        None \<Rightarrow>
          (let (a, q1) = node_malloc u q
           in do { q2 \<leftarrow> set_next a None (q1\<lparr>qend := Some a, qhead := Some a\<rparr>); Some (a, q2) })
      | Some e \<Rightarrow>
          (let (a, q1) = node_malloc u q
           in do { q2 \<leftarrow> set_next e (Some a) q1;
                   q3 \<leftarrow> set_next a None (q2\<lparr>qend := Some a\<rparr>);
                   Some (a, q3) }))"

definition queue_take :: "'a lqueue \<Rightarrow> (nat option \<times> 'a lqueue) option" where
  "queue_take q =
     (case qhead q of
        None \<Rightarrow> Some (None, q)
      | Some a \<Rightarrow>
          do { n \<leftarrow> heap q a;
               Some (Some a, if nnext n = None then q\<lparr>qhead := nnext n, qend := None\<rparr>
                             else q\<lparr>qhead := nnext n\<rparr>) })"

definition queue_free :: "nat \<Rightarrow> 'a lqueue \<Rightarrow> 'a lqueue option" where
  "queue_free a q = (if heap q a = None then None else Some (q\<lparr>heap := (heap q)(a := None)\<rparr>))"

text \<open>A producer allocates a node and fills it in; the consumer unlinks the first node, reads it and
  frees it.\<close>

definition queue_push :: "'a node \<Rightarrow> 'a \<Rightarrow> 'a lqueue \<Rightarrow> 'a lqueue option" where
  "queue_push u v q = do { (a, q1) \<leftarrow> queue_alloc u q; set_val a v q1 }"

definition queue_pop :: "'a lqueue \<Rightarrow> ('a option \<times> 'a lqueue) option" where
  "queue_pop q =
     do { (r, q1) \<leftarrow> queue_take q;
          case r of None \<Rightarrow> Some (None, q1)
          | Some a \<Rightarrow> do { n \<leftarrow> heap q1 a; q2 \<leftarrow> queue_free a q1; Some (Some (nval n), q2) } }"

subsection \<open>Chains of nodes\<close>

fun chain :: "(nat \<rightharpoonup> 'a node) \<Rightarrow> nat option \<Rightarrow> nat list \<Rightarrow> bool" where
  "chain h p [] \<longleftrightarrow> p = None"
| "chain h p (a # as) \<longleftrightarrow> p = Some a \<and> (\<exists>n. h a = Some n \<and> chain h (nnext n) as)"

definition vals :: "(nat \<rightharpoonup> 'a node) \<Rightarrow> nat list \<Rightarrow> 'a list" where
  "vals h as = map (\<lambda>a. nval (the (h a))) as"

text \<open>\<open>queue_repr X q as\<close>: the chain from the head is \<open>as\<close>, the end pointer is its last node, and the
  live nodes are those of the chain and the nodes \<open>X\<close> that were unlinked and are still in use.\<close>

definition queue_repr :: "nat set \<Rightarrow> 'a lqueue \<Rightarrow> nat list \<Rightarrow> bool" where
  "queue_repr X q as \<longleftrightarrow> chain (heap q) (qhead q) as \<and> distinct as \<and> set as \<inter> X = {}
     \<and> dom (heap q) = set as \<union> X \<and> qend q = (if as = [] then None else Some (last as))
     \<and> (\<forall>a \<in> set as \<union> X. a < brk q)"

definition queue_inv :: "nat set \<Rightarrow> 'a lqueue \<Rightarrow> bool" where
  "queue_inv X q \<longleftrightarrow> (\<exists>as. queue_repr X q as)"

text \<open>The abstraction walks the chain; \<open>brk\<close> bounds its length (\<open>walk_chain\<close>).\<close>

fun walk :: "nat \<Rightarrow> (nat \<rightharpoonup> 'a node) \<Rightarrow> nat option \<Rightarrow> 'a list" where
  "walk (Suc k) h (Some a) = (case h a of None \<Rightarrow> [] | Some n \<Rightarrow> nval n # walk k h (nnext n))"
| "walk k h p = []"

definition queue_list :: "'a lqueue \<Rightarrow> 'a list" where
  "queue_list q = walk (brk q) (heap q) (qhead q)"

lemma node_written [simp]:
  "u\<lparr>nval := v, nnext := p\<rparr> = \<lparr>nval = v, nnext = p\<rparr>" "u\<lparr>nnext := p, nval := v\<rparr> = \<lparr>nval = v, nnext = p\<rparr>"
  for u :: "'a node"
  by (cases u, simp)+

lemma chain_upd [simp]: "a \<notin> set as \<Longrightarrow> chain (h(a := x)) p as = chain h p as"
  by (induction as arbitrary: p) auto

lemma vals_upd [simp]: "a \<notin> set as \<Longrightarrow> vals (h(a := x)) as = vals h as"
  by (auto simp: vals_def)

lemma chain_live: "chain h p as \<Longrightarrow> a \<in> set as \<Longrightarrow> \<exists>n. h a = Some n"
  by (induction as arbitrary: p) auto

lemma chain_snoc:
  assumes "chain h p (as @ [e])" and "distinct (as @ [e])" and "h e = Some n" and "b \<notin> set (as @ [e])"
  shows "chain (h(e \<mapsto> n\<lparr>nnext := Some b\<rparr>, b \<mapsto> \<lparr>nval = v, nnext = None\<rparr>)) p (as @ [e, b])"
  using assms by (induction as arbitrary: p) auto

lemma walk_chain: "chain h p as \<Longrightarrow> length as \<le> k \<Longrightarrow> walk k h p = vals h as"
proof (induction as arbitrary: p k)
  case Nil
  then show ?case by (cases k) (auto simp: vals_def)
next
  case (Cons a as)
  then obtain k' where "k = Suc k'" by (cases k) auto
  with Cons show ?case by (auto simp: vals_def)
qed

lemma repr_length: "queue_repr X q as \<Longrightarrow> length as \<le> brk q"
proof -
  assume r: "queue_repr X q as"
  then have "set as \<subseteq> {..<brk q}" by (auto simp: queue_repr_def)
  then have "card (set as) \<le> card {..<brk q}" by (intro card_mono) auto
  with r show ?thesis by (simp add: queue_repr_def distinct_card)
qed

lemma queue_list_repr: "queue_repr X q as \<Longrightarrow> queue_list q = vals (heap q) as"
  using repr_length [of X q as] walk_chain [of "heap q" "qhead q" as "brk q"]
  by (simp add: queue_list_def queue_repr_def)

lemma queue_list_Nil: "queue_repr X q as \<Longrightarrow> queue_list q = [] \<longleftrightarrow> as = []"
  by (auto simp: queue_list_repr vals_def)

subsection \<open>Refinement to a FIFO list\<close>

lemma queue_push_repr:
  assumes r: "queue_repr X q as"
  shows "\<exists>q'. queue_push u v q = Some q' \<and> queue_repr X q' (as @ [brk q])
    \<and> vals (heap q') (as @ [brk q]) = vals (heap q) as @ [v] \<and> (\<forall>a \<in> X. heap q' a = heap q a)"
proof (cases as rule: rev_cases)
  case Nil
  with r show ?thesis
    by (auto simp: queue_repr_def queue_push_def queue_alloc_def node_malloc_def set_next_def set_val_def
        vals_def less_Suc_eq)
next
  case (snoc bs e)
  with r have fresh: "brk q \<notin> set as" "brk q \<notin> X" and ne: "brk q \<noteq> e" by (auto simp: queue_repr_def)
  from r snoc have "chain (heap q) (qhead q) (bs @ [e])" by (simp add: queue_repr_def)
  then obtain n where n: "heap q e = Some n" using chain_live by fastforce
  let ?h = "(heap q)(e \<mapsto> n\<lparr>nnext := Some (brk q)\<rparr>, brk q \<mapsto> \<lparr>nval = v, nnext = None\<rparr>)"
  have push: "queue_push u v q = Some (q\<lparr>heap := ?h, qend := Some (brk q), brk := Suc (brk q)\<rparr>)"
    using r snoc n ne
    by (simp add: queue_repr_def queue_push_def queue_alloc_def node_malloc_def set_next_def set_val_def
        fun_upd_twist)
  have ch: "chain ?h (qhead q) (as @ [brk q])"
    using chain_snoc [of "heap q" "qhead q" bs e n "brk q" v] r snoc n fresh
    by (simp add: queue_repr_def)
  have vs: "vals ?h (as @ [brk q]) = vals (heap q) as @ [v]"
    using n fresh snoc by (auto simp: vals_def)
  show ?thesis
    using push ch vs r snoc n fresh by (auto simp: queue_repr_def less_Suc_eq dom_def)
qed

lemma queue_take_empty:
  assumes "queue_repr X q []" shows "queue_take q = Some (None, q)"
  using assms by (simp add: queue_repr_def queue_take_def)

lemma queue_take_repr:
  assumes r: "queue_repr X q (a # as)"
  shows "\<exists>q' n. queue_take q = Some (Some a, q') \<and> heap q a = Some n \<and> heap q' = heap q
    \<and> queue_repr (insert a X) q' as"
proof -
  from r obtain n where n: "heap q a = Some n" and ch: "chain (heap q) (nnext n) as"
    by (auto simp: queue_repr_def)
  have nx: "nnext n = None \<longleftrightarrow> as = []" using ch by (cases as) auto
  let ?q = "q\<lparr>qhead := nnext n, qend := (if as = [] then None else qend q)\<rparr>"
  have "queue_take q = Some (Some a, ?q)"
    using r n nx by (cases as) (simp_all add: queue_repr_def queue_take_def)
  moreover have "queue_repr (insert a X) ?q as"
    using r n ch by (auto simp: queue_repr_def)
  ultimately show ?thesis using n by auto
qed

lemma queue_free_repr:
  assumes r: "queue_repr X q as" and a: "a \<in> X"
  shows "\<exists>q'. queue_free a q = Some q' \<and> queue_repr (X - {a}) q' as \<and> vals (heap q') as = vals (heap q) as
    \<and> brk q' = brk q"
proof -
  have "a \<in> dom (heap q)" "a \<notin> set as" using r a by (auto simp: queue_repr_def)
  then show ?thesis using r by (auto simp: queue_free_def queue_repr_def dom_def)
qed

lemma queue_push_list:
  assumes "queue_inv X q"
  shows "\<exists>q'. queue_push u v q = Some q' \<and> queue_inv X q' \<and> queue_list q' = queue_list q @ [v]
    \<and> (\<forall>a \<in> X. heap q' a = heap q a)"
proof -
  from assms obtain as where r: "queue_repr X q as" by (auto simp: queue_inv_def)
  from queue_push_repr [OF r, of u v] obtain q' where
    "queue_push u v q = Some q'" "queue_repr X q' (as @ [brk q])" "\<forall>a \<in> X. heap q' a = heap q a"
    "vals (heap q') (as @ [brk q]) = vals (heap q) as @ [v]" by blast
  then show ?thesis using r by (auto simp: queue_inv_def queue_list_repr)
qed

lemma queue_take_Nil:
  assumes "queue_inv X q" and "queue_list q = []" shows "queue_take q = Some (None, q)"
  using assms queue_take_empty [of X q] by (auto simp: queue_inv_def queue_list_Nil)

lemma queue_take_list:
  assumes "queue_inv X q" and "queue_list q = v # vs"
  shows "\<exists>a q' n. queue_take q = Some (Some a, q') \<and> a \<notin> X \<and> heap q' a = Some n \<and> nval n = v
    \<and> queue_inv (insert a X) q' \<and> queue_list q' = vs"
proof -
  from assms(1) obtain as where r: "queue_repr X q as" by (auto simp: queue_inv_def)
  with assms(2) obtain a as' where as: "as = a # as'" by (cases as) (auto simp: queue_list_repr vals_def)
  from queue_take_repr [of X q a as'] r as obtain q' n where
    q': "queue_take q = Some (Some a, q')" "heap q a = Some n" "heap q' = heap q"
    "queue_repr (insert a X) q' as'" by blast
  have "a \<notin> X" using r as by (auto simp: queue_repr_def)
  moreover have "nval n = v" "queue_list q' = vs"
    using assms(2) queue_list_repr [OF r] queue_list_repr [OF q'(4)] q' as by (auto simp: vals_def)
  ultimately show ?thesis using q' by (auto simp: queue_inv_def)
qed

lemma queue_free_list:
  assumes "queue_inv X q" and "a \<in> X"
  shows "\<exists>q'. queue_free a q = Some q' \<and> queue_inv (X - {a}) q' \<and> queue_list q' = queue_list q"
proof -
  from assms(1) obtain as where r: "queue_repr X q as" by (auto simp: queue_inv_def)
  from queue_free_repr [OF r assms(2)] show ?thesis
    using r by (auto simp: queue_inv_def queue_list_repr)
qed

lemma queue_pop_list:
  assumes "queue_inv X q"
  shows "\<exists>q'. queue_pop q = Some (case queue_list q of [] \<Rightarrow> None | v # _ \<Rightarrow> Some v, q')
    \<and> queue_inv X q' \<and> queue_list q' = tl (queue_list q)"
proof (cases "queue_list q")
  case Nil
  with assms show ?thesis by (simp add: queue_pop_def queue_take_Nil)
next
  case (Cons v vs)
  from queue_take_list [OF assms Cons] obtain a q1 n where
    q1: "queue_take q = Some (Some a, q1)" "a \<notin> X" "heap q1 a = Some n" "nval n = v"
    "queue_inv (insert a X) q1" "queue_list q1 = vs" by blast
  from queue_free_list [OF q1(5), of a] q1(2) obtain q2 where
    "queue_free a q1 = Some q2" "queue_inv X q2" "queue_list q2 = queue_list q1" by auto
  with q1 Cons show ?thesis by (simp add: queue_pop_def)
qed

lemma queue_init [simp]: "queue_inv {} lqueue_init" "queue_list lqueue_init = []"
  by (auto simp: queue_inv_def queue_repr_def lqueue_init_def queue_list_def intro: exI [of _ "[]"])

text \<open>A drained queue holds no node: nothing is leaked.\<close>

lemma queue_inv_empty_heap: "queue_inv {} q \<Longrightarrow> queue_list q = [] \<Longrightarrow> heap q = Map.empty"
  by (auto simp: queue_inv_def queue_list_Nil) (simp add: queue_repr_def)

subsection \<open>The queue contract\<close>

text \<open>A sequence of operations; with each push comes what \<^verbatim>\<open>malloc\<close> left in the block it returned.\<close>

datatype ('w, 'a) qop = Push 'w 'a | Pop

fun run_ops :: "('w \<Rightarrow> 'a \<Rightarrow> 'q \<Rightarrow> 'q option) \<Rightarrow> ('q \<Rightarrow> ('a option \<times> 'q) option) \<Rightarrow> ('w, 'a) qop list \<Rightarrow> 'q
    \<Rightarrow> ('a option list \<times> 'q) option" where
  "run_ops enq deq [] q = Some ([], q)"
| "run_ops enq deq (Push u v # ops) q = do { q' \<leftarrow> enq u v q; run_ops enq deq ops q' }"
| "run_ops enq deq (Pop # ops) q =
     do { (r, q') \<leftarrow> deq q; (rs, q'') \<leftarrow> run_ops enq deq ops q'; Some (r # rs, q'') }"

text \<open>The reference queue: a list, appended at its end and consumed from its front.\<close>

fun fifo_ops :: "('w, 'a) qop list \<Rightarrow> 'a list \<Rightarrow> 'a option list \<times> 'a list" where
  "fifo_ops [] xs = ([], xs)"
| "fifo_ops (Push u v # ops) xs = fifo_ops ops (xs @ [v])"
| "fifo_ops (Pop # ops) xs =
     (let (rs, ys) = fifo_ops ops (tl xs) in ((case xs of [] \<Rightarrow> None | v # _ \<Rightarrow> Some v) # rs, ys))"

locale event_queue =
  fixes enq :: "'w \<Rightarrow> 'a \<Rightarrow> 'q \<Rightarrow> 'q option"
    and deq :: "'q \<Rightarrow> ('a option \<times> 'q) option"
    and contents :: "'q \<Rightarrow> 'a list"
    and wf :: "'q \<Rightarrow> bool"
  assumes enq_ok: "wf q \<Longrightarrow> \<exists>q'. enq u v q = Some q' \<and> wf q' \<and> contents q' = contents q @ [v]"
    and deq_ok: "wf q \<Longrightarrow> \<exists>q'. deq q = Some (case contents q of [] \<Rightarrow> None | v # _ \<Rightarrow> Some v, q')
      \<and> wf q' \<and> contents q' = tl (contents q)"
begin

lemma deq_empty: "wf q \<Longrightarrow> contents q = [] \<Longrightarrow> \<exists>q'. deq q = Some (None, q') \<and> wf q' \<and> contents q' = []"
  using deq_ok [of q] by auto

lemma deq_Cons:
  "wf q \<Longrightarrow> contents q = v # vs \<Longrightarrow> \<exists>q'. deq q = Some (Some v, q') \<and> wf q' \<and> contents q' = vs"
  using deq_ok [of q] by auto

lemma run_refines:
  "wf q \<Longrightarrow> \<exists>q'. run_ops enq deq ops q = Some (fst (fifo_ops ops (contents q)), q') \<and> wf q'
     \<and> contents q' = snd (fifo_ops ops (contents q))"
proof (induction ops arbitrary: q)
  case Nil
  then show ?case by simp
next
  case (Cons op ops)
  show ?case
  proof (cases op)
    case (Push u v)
    from enq_ok [OF Cons.prems, of u v] obtain q' where
      "enq u v q = Some q'" "wf q'" "contents q' = contents q @ [v]" by blast
    with Push Cons.IH [of q'] show ?thesis by simp
  next
    case Pop
    from deq_ok [OF Cons.prems] obtain q' where
      "deq q = Some (case contents q of [] \<Rightarrow> None | v # _ \<Rightarrow> Some v, q')" "wf q'"
      "contents q' = tl (contents q)" by blast
    with Pop Cons.IH [of q'] show ?thesis by (auto simp: Let_def case_prod_beta)
  qed
qed

end

interpretation linked: event_queue queue_push queue_pop queue_list "queue_inv X"
proof unfold_locales
  fix q :: "'a lqueue" and u v
  assume "queue_inv X q"
  then show "\<exists>q'. queue_push u v q = Some q' \<and> queue_inv X q' \<and> queue_list q' = queue_list q @ [v]"
    using queue_push_list [of X q u v] by blast
qed (rule queue_pop_list)

end
