(* ===== verification/HL_Binding.thy ===== *)
theory HL_Binding
  imports Callback_Queue
begin

text \<open>
  The HashLink extension \<^verbatim>\<open>cpp/src/datachannel.c\<close>: the objects it hands to Haxe code, the callbacks
  that libdatachannel threads run (each queues an event under a mutex and posts a semaphore), the
  primitives Haxe code calls, and \<open>process_events\<close>, which delivers the queued events on the
  application's thread.

  What is outside the file is explicit.  Calls into libdatachannel are appended to \<open>rtc\<close> in program
  order and what such a call returned is an argument of the definition.  Calls of Haxe closures are
  appended to \<open>calls\<close>; their effect on the extension is the parameter \<open>ucall\<close>.  The HashLink runtime's
  garbage collector owns the objects: \<open>gc_collect_pc\<close> and \<open>gc_collect_dc\<close> run the finalizer and
  reclaim the memory.
\<close>

subsection \<open>Objects and events\<close>

type_synonym closure = nat

record hl_rtc_peerconnection =
  pc_id :: int
  descCb :: "closure option"
  candidateCb :: "closure option"
  stateCb :: "closure option"
  gatheringStateCb :: "closure option"
  datachannelCb :: "closure option"

record hl_rtc_datachannel =
  dc_id :: int
  openCb :: "closure option"
  closedCb :: "closure option"
  errCb :: "closure option"
  msgCb :: "closure option"
  bufferLowCb :: "closure option"

datatype pc_slot = DescCb | CandidateCb | StateCb | GatheringStateCb | DatachannelCb
datatype dc_slot = OpenCb | ClosedCb | ErrCb | MsgCb | BufferLowCb

text \<open>The address of a closure field of an object, as \<^verbatim>\<open>&hlpc->descCb\<close>.\<close>

datatype slot = PcSlot nat pc_slot | DcSlot nat dc_slot

datatype root = RSlot slot | RMutex | RSemaphore | RDcSemaphore

datatype vdynamic = VUninit | VBytes bytes | VI32 int | VPtr nat

record callback_result =
  cr_closure :: "slot option"
  cr_arg1 :: vdynamic
  cr_arg2 :: vdynamic
  cr_args :: int
  cr_arg1Size :: int
  cr_arg2Size :: int
  callback_name :: string

record datachannel_callback =
  dcb_dc :: int
  dcb_pc :: nat

subsection \<open>libdatachannel as the extension calls it\<close>

datatype rtc_callback = DescriptionCallback | CandidateCallback | StateChangeCallback
  | GatheringStateCallback | OpenCallback | ClosedCallback | ErrorCallback | MessageCallback
  | BufferedAmountLowCallback | DataChannelCallback

record rtcConfiguration =
  iceServers :: "bytes list"
  iceServersCount :: int
  bindAddress :: bytes
  portRangeBegin :: u16
  portRangeEnd :: u16
  mtu :: int
  maxMessageSize :: int

record rtcReliability =
  unordered :: bool
  unreliable :: bool
  maxPacketLifeTime :: u32
  maxRetransmits :: u32

datatype rtc_call =
    RtcSetLocalDescriptionCallback int "rtc_callback option"
  | RtcSetLocalCandidateCallback int "rtc_callback option"
  | RtcSetStateChangeCallback int "rtc_callback option"
  | RtcSetGatheringStateChangeCallback int "rtc_callback option"
  | RtcSetDataChannelCallback int "rtc_callback option"
  | RtcSetOpenCallback int "rtc_callback option"
  | RtcSetClosedCallback int "rtc_callback option"
  | RtcSetErrorCallback int "rtc_callback option"
  | RtcSetMessageCallback int "rtc_callback option"
  | RtcSetBufferedAmountLowCallback int "rtc_callback option"
  | RtcSetUserPointer int nat
  | RtcCreatePeerConnection rtcConfiguration
  | RtcClosePeerConnection int
  | RtcDeletePeerConnection int
  | RtcDeleteDataChannel int
  | RtcSetRemoteDescription int bytes bytes
  | RtcAddRemoteCandidate int bytes "bytes option"
  | RtcCreateDataChannel int bytes
  | RtcCreateDataChannelEx int bytes rtcReliability
  | RtcSendMessage int bytes int
  | RtcGetDataChannelReliability int
  | RtcGetDataChannelLabel int
  | RtcGetLocalAddress int
  | RtcGetRemoteAddress int
  | RtcGetBufferedAmount int
  | RtcSetBufferedAmountLowThreshold int int

subsection \<open>The extension's state\<close>

text \<open>\<open>mutex\<close> tells whether \<open>callback_result_mutex\<close> is allocated; a semaphore is \<open>None\<close> while its
  pointer is NULL and otherwise its count.\<close>

record hl_state =
  mutex :: bool
  sem :: "nat option"
  dcsem :: "nat option"
  results :: "callback_result lqueue"
  dccbs :: "datachannel_callback lqueue"
  pcs :: "nat \<rightharpoonup> hl_rtc_peerconnection"
  dcs :: "nat \<rightharpoonup> hl_rtc_datachannel"
  gcbrk :: nat
  roots :: "root set"
  rtc :: "rtc_call list"
  calls :: "(closure \<times> vdynamic list) list"

definition hl_init :: hl_state where
  "hl_init = \<lparr>mutex = False, sem = None, dcsem = None, results = lqueue_init, dccbs = lqueue_init,
     pcs = Map.empty, dcs = Map.empty, gcbrk = 0, roots = {}, rtc = [], calls = []\<rparr>"

definition rtc_do :: "rtc_call list \<Rightarrow> hl_state \<Rightarrow> hl_state" where
  "rtc_do cs s = s\<lparr>rtc := rtc s @ cs\<rparr>"

definition read_slot :: "slot \<Rightarrow> hl_state \<Rightarrow> closure option option" where
  "read_slot sl s =
     (case sl of
        PcSlot a f \<Rightarrow>
          do { ob \<leftarrow> pcs s a;
               Some (case f of DescCb \<Rightarrow> descCb ob | CandidateCb \<Rightarrow> candidateCb ob | StateCb \<Rightarrow> stateCb ob
                     | GatheringStateCb \<Rightarrow> gatheringStateCb ob | DatachannelCb \<Rightarrow> datachannelCb ob) }
      | DcSlot a f \<Rightarrow>
          do { ob \<leftarrow> dcs s a;
               Some (case f of OpenCb \<Rightarrow> openCb ob | ClosedCb \<Rightarrow> closedCb ob | ErrCb \<Rightarrow> errCb ob
                     | MsgCb \<Rightarrow> msgCb ob | BufferLowCb \<Rightarrow> bufferLowCb ob) })"

subsection \<open>Queue allocation\<close>

definition callback_result_alloc ::
  "callback_result node \<Rightarrow> callback_result lqueue \<Rightarrow> (nat \<times> callback_result lqueue) option" where
  "callback_result_alloc u q = queue_alloc u q"

definition datachannel_callback_alloc ::
  "datachannel_callback node \<Rightarrow> datachannel_callback lqueue \<Rightarrow> (nat \<times> datachannel_callback lqueue) option" where
  "datachannel_callback_alloc u q = queue_alloc u q"

subsection \<open>Finalizers and construction\<close>

definition pc_slots :: "pc_slot list" where
  "pc_slots = [CandidateCb, DatachannelCb, DescCb, GatheringStateCb, StateCb]"

definition dc_slots :: "dc_slot list" where
  "dc_slots = [BufferLowCb, ClosedCb, ErrCb, MsgCb, OpenCb]"

definition pc_roots :: "nat \<Rightarrow> root set" where
  "pc_roots a = (\<lambda>f. RSlot (PcSlot a f)) ` set pc_slots"

definition dc_roots :: "nat \<Rightarrow> root set" where
  "dc_roots a = (\<lambda>f. RSlot (DcSlot a f)) ` set dc_slots"

definition hl_rtc_peerconnection_finalize :: "nat \<Rightarrow> hl_state \<Rightarrow> hl_state option" where
  "hl_rtc_peerconnection_finalize a s =
     do { ob \<leftarrow> pcs s a;
          let s1 = rtc_do
            [RtcSetLocalCandidateCallback (pc_id ob) None,
             RtcSetLocalDescriptionCallback (pc_id ob) None,
             RtcSetStateChangeCallback (pc_id ob) None,
             RtcSetGatheringStateChangeCallback (pc_id ob) None,
             RtcSetDataChannelCallback (pc_id ob) None,
             RtcDeletePeerConnection (pc_id ob)] s;
          Some (s1\<lparr>roots := roots s1 - pc_roots a\<rparr>) }"

definition hl_rtc_datachannel_finalize :: "nat \<Rightarrow> hl_state \<Rightarrow> hl_state option" where
  "hl_rtc_datachannel_finalize a s =
     do { ob \<leftarrow> dcs s a;
          let s1 = rtc_do
            [RtcSetOpenCallback (dc_id ob) None,
             RtcSetClosedCallback (dc_id ob) None,
             RtcSetErrorCallback (dc_id ob) None,
             RtcSetMessageCallback (dc_id ob) None,
             RtcSetBufferedAmountLowCallback (dc_id ob) None,
             RtcDeleteDataChannel (dc_id ob)] s;
          Some (s1\<lparr>roots := roots s1 - dc_roots a\<rparr>) }"

definition gc_collect_pc :: "nat \<Rightarrow> hl_state \<Rightarrow> hl_state option" where
  "gc_collect_pc a s = do { s1 \<leftarrow> hl_rtc_peerconnection_finalize a s; Some (s1\<lparr>pcs := (pcs s1)(a := None)\<rparr>) }"

definition gc_collect_dc :: "nat \<Rightarrow> hl_state \<Rightarrow> hl_state option" where
  "gc_collect_dc a s = do { s1 \<leftarrow> hl_rtc_datachannel_finalize a s; Some (s1\<lparr>dcs := (dcs s1)(a := None)\<rparr>) }"

definition hl_rtc_make_datachannel :: "int \<Rightarrow> hl_state \<Rightarrow> nat \<times> hl_state" where
  "hl_rtc_make_datachannel dc s =
     (let a = gcbrk s;
          s1 = s\<lparr>gcbrk := Suc a,
                 dcs := (dcs s)(a \<mapsto> \<lparr>dc_id = dc, openCb = None, closedCb = None, errCb = None,
                                      msgCb = None, bufferLowCb = None\<rparr>),
                 roots := roots s \<union> dc_roots a\<rparr>
      in (a, rtc_do
            [RtcSetUserPointer dc a,
             RtcSetOpenCallback dc (Some OpenCallback),
             RtcSetClosedCallback dc (Some ClosedCallback),
             RtcSetErrorCallback dc (Some ErrorCallback),
             RtcSetMessageCallback dc (Some MessageCallback),
             RtcSetBufferedAmountLowCallback dc (Some BufferedAmountLowCallback)] s1))"

subsection \<open>Primitives called from Haxe\<close>

definition initialize :: "hl_state \<Rightarrow> hl_state" where
  "initialize s =
     (let s1 = (if \<not> mutex s then s\<lparr>mutex := True, roots := insert RMutex (roots s)\<rparr> else s);
          s2 = (if sem s1 = None then s1\<lparr>sem := Some 0, roots := insert RSemaphore (roots s1)\<rparr> else s1)
      in if dcsem s2 = None then s2\<lparr>dcsem := Some 0, roots := insert RDcSemaphore (roots s2)\<rparr> else s2)"

definition finalize :: "hl_state \<Rightarrow> hl_state" where
  "finalize s =
     (let s1 = (if mutex s then s\<lparr>roots := roots s - {RMutex}, mutex := False\<rparr> else s);
          s2 = (if sem s1 \<noteq> None then s1\<lparr>roots := roots s1 - {RSemaphore}, sem := None\<rparr> else s1)
      in if dcsem s2 \<noteq> None then s2\<lparr>roots := roots s2 - {RDcSemaphore}, dcsem := None\<rparr> else s2)"

text \<open>\<open>ret\<close> is what \<^verbatim>\<open>rtcCreatePeerConnection\<close> returned.  The two port bounds are C \<^verbatim>\<open>int\<close>s stored in
  \<^verbatim>\<open>uint16_t\<close> fields.\<close>

definition create_peer_connection ::
  "int \<Rightarrow> bytes list \<Rightarrow> bytes \<Rightarrow> int \<Rightarrow> int \<Rightarrow> int \<Rightarrow> int \<Rightarrow> hl_state \<Rightarrow> nat \<times> hl_state" where
  "create_peer_connection ret servers baddr portBegin portEnd mt mms s =
     (let conf = \<lparr>iceServers = servers, iceServersCount = int (length servers), bindAddress = baddr,
                  portRangeBegin = word_of_int portBegin, portRangeEnd = word_of_int portEnd,
                  mtu = mt, maxMessageSize = mms\<rparr>;
          s1 = rtc_do [RtcCreatePeerConnection conf] s;
          a = gcbrk s1;
          s2 = s1\<lparr>gcbrk := Suc a,
                  pcs := (pcs s1)(a \<mapsto> \<lparr>pc_id = ret, descCb = None, candidateCb = None, stateCb = None,
                                       gatheringStateCb = None, datachannelCb = None\<rparr>),
                  roots := roots s1 \<union> pc_roots a\<rparr>
      in (a, rtc_do
            [RtcSetUserPointer ret a,
             RtcSetLocalDescriptionCallback ret (Some DescriptionCallback),
             RtcSetLocalCandidateCallback ret (Some CandidateCallback),
             RtcSetStateChangeCallback ret (Some StateChangeCallback),
             RtcSetGatheringStateChangeCallback ret (Some GatheringStateCallback)] s2))"

definition close_peer_connection :: "nat \<Rightarrow> hl_state \<Rightarrow> hl_state option" where
  "close_peer_connection a s = do { ob \<leftarrow> pcs s a; Some (rtc_do [RtcClosePeerConnection (pc_id ob)] s) }"

definition set_peer_connection_callbacks ::
  "nat \<Rightarrow> closure option \<Rightarrow> closure option \<Rightarrow> closure option \<Rightarrow> closure option \<Rightarrow> hl_state \<Rightarrow> hl_state option" where
  "set_peer_connection_callbacks a d c st g s =
     do { ob \<leftarrow> pcs s a;
          Some (s\<lparr>pcs := (pcs s)(a \<mapsto> ob\<lparr>descCb := d, candidateCb := c, stateCb := st, gatheringStateCb := g\<rparr>)\<rparr>) }"

definition set_remote_description :: "nat \<Rightarrow> bytes \<Rightarrow> bytes \<Rightarrow> hl_state \<Rightarrow> hl_state option" where
  "set_remote_description a desc typestr s =
     do { s1 \<leftarrow> (if typestr = str_bytes ''offer''
                 then do { ob \<leftarrow> pcs s a;
                           Some (rtc_do [RtcSetRemoteDescription (pc_id ob) desc (str_bytes ''offer'')] s) }
                 else Some s);
          if typestr = str_bytes ''answer''
          then do { ob \<leftarrow> pcs s1 a;
                    Some (rtc_do [RtcSetRemoteDescription (pc_id ob) desc (str_bytes ''answer'')] s1) }
          else Some s1 }"

definition add_remote_candidate :: "nat \<Rightarrow> bytes \<Rightarrow> hl_state \<Rightarrow> hl_state option" where
  "add_remote_candidate a cand s =
     do { ob \<leftarrow> pcs s a; Some (rtc_do [RtcAddRemoteCandidate (pc_id ob) cand None] s) }"

definition create_datachannel :: "int \<Rightarrow> nat \<Rightarrow> bytes \<Rightarrow> hl_state \<Rightarrow> (nat \<times> hl_state) option" where
  "create_datachannel ret a name s =
     do { ob \<leftarrow> pcs s a;
          Some (hl_rtc_make_datachannel ret (rtc_do [RtcCreateDataChannel (pc_id ob) name] s)) }"

definition create_datachannel_ex ::
  "int \<Rightarrow> nat \<Rightarrow> bytes \<Rightarrow> bool \<Rightarrow> int \<Rightarrow> int \<Rightarrow> hl_state \<Rightarrow> (nat \<times> hl_state) option" where
  "create_datachannel_ex ret a name unord maxRetr maxLifetime s =
     do { ob \<leftarrow> pcs s a;
          let rel = \<lparr>unordered = unord, unreliable = (maxLifetime \<noteq> 0 \<or> maxRetr \<noteq> 0),
                     maxPacketLifeTime = word_of_int maxLifetime, maxRetransmits = word_of_int maxRetr\<rparr>;
          Some (hl_rtc_make_datachannel ret (rtc_do [RtcCreateDataChannelEx (pc_id ob) name rel] s)) }"

definition set_peerconnection_datachannel_cb :: "nat \<Rightarrow> closure option \<Rightarrow> hl_state \<Rightarrow> hl_state option" where
  "set_peerconnection_datachannel_cb a cb s =
     do { ob \<leftarrow> pcs s a;
          let s1 = rtc_do [RtcSetDataChannelCallback (pc_id ob) (Some DataChannelCallback)] s;
          Some (s1\<lparr>pcs := (pcs s1)(a \<mapsto> ob\<lparr>datachannelCb := cb\<rparr>)\<rparr>) }"

definition set_datachannel_callbacks ::
  "nat \<Rightarrow> closure option \<Rightarrow> closure option \<Rightarrow> closure option \<Rightarrow> closure option \<Rightarrow> closure option
    \<Rightarrow> hl_state \<Rightarrow> hl_state option" where
  "set_datachannel_callbacks a op cl er ms bl s =
     do { ob \<leftarrow> dcs s a;
          Some (s\<lparr>dcs := (dcs s)(a \<mapsto> ob\<lparr>openCb := op, closedCb := cl, errCb := er, msgCb := ms,
                                        bufferLowCb := bl\<rparr>)\<rparr>) }"

definition datachannel_send_message :: "nat \<Rightarrow> bytes \<Rightarrow> int \<Rightarrow> hl_state \<Rightarrow> hl_state option" where
  "datachannel_send_message a b len s =
     do { ob \<leftarrow> dcs s a; Some (rtc_do [RtcSendMessage (dc_id ob) b len] s) }"

text \<open>\<open>r\<close> is what \<^verbatim>\<open>rtcGetDataChannelReliability\<close> left in the local struct; the result is the dynamic
  object as an association of field names and 32 bit values.\<close>

definition get_datachannel_reliability ::
  "rtcReliability \<Rightarrow> nat \<Rightarrow> hl_state \<Rightarrow> ((string \<times> u32) list \<times> hl_state) option" where
  "get_datachannel_reliability r a s =
     do { ob \<leftarrow> dcs s a;
          Some ([(''unordered'', of_bool (unordered r)), (''maxRetransmits'', maxRetransmits r),
                 (''maxLifetime'', maxPacketLifeTime r)],
                rtc_do [RtcGetDataChannelReliability (dc_id ob)] s) }"

text \<open>\<open>(n, buf)\<close> is the length \<^verbatim>\<open>rtcGetLocalAddress\<close> returned and the 256 byte buffer it filled.
  Copying more than the buffer holds is undefined.\<close>

definition copy_address :: "int \<times> bytes \<Rightarrow> bytes option option" where
  "copy_address r =
     (case r of (n, buf) \<Rightarrow>
        if n > 0 then (if nat n \<le> length buf then Some (Some (take (nat n) buf)) else None)
        else Some None)"

definition get_local_address :: "int \<times> bytes \<Rightarrow> nat \<Rightarrow> hl_state \<Rightarrow> (bytes option \<times> hl_state) option" where
  "get_local_address r a s =
     do { ob \<leftarrow> pcs s a; b \<leftarrow> copy_address r; Some (b, rtc_do [RtcGetLocalAddress (pc_id ob)] s) }"

definition get_remote_address :: "int \<times> bytes \<Rightarrow> nat \<Rightarrow> hl_state \<Rightarrow> (bytes option \<times> hl_state) option" where
  "get_remote_address r a s =
     do { ob \<leftarrow> pcs s a; b \<leftarrow> copy_address r; Some (b, rtc_do [RtcGetRemoteAddress (pc_id ob)] s) }"

definition get_buffered_amount :: "int \<Rightarrow> nat \<Rightarrow> hl_state \<Rightarrow> (int \<times> hl_state) option" where
  "get_buffered_amount ret a s = do { ob \<leftarrow> dcs s a; Some (ret, rtc_do [RtcGetBufferedAmount (dc_id ob)] s) }"

definition set_buffered_amount_low_threshold :: "nat \<Rightarrow> int \<Rightarrow> hl_state \<Rightarrow> hl_state option" where
  "set_buffered_amount_low_threshold a amt s =
     do { ob \<leftarrow> dcs s a; Some (rtc_do [RtcSetBufferedAmountLowThreshold (dc_id ob) amt] s) }"

subsection \<open>Callbacks run by libdatachannel\<close>

text \<open>
  Every callback queues its event between \<^verbatim>\<open>hl_mutex_acquire\<close> and \<^verbatim>\<open>hl_mutex_release\<close>
  (\<open>enqueue_result\<close>) and then posts the semaphore (\<open>semaphore_release\<close>).  A node fresh from
  \<open>callback_result_alloc\<close> has undetermined contents \<open>u\<close>; the fields a callback does not assign keep them.
  A string argument is the C string's bytes before its terminator.
\<close>

definition enqueue_result ::
  "callback_result node \<Rightarrow> (callback_result \<Rightarrow> callback_result) \<Rightarrow> hl_state \<Rightarrow> hl_state option" where
  "enqueue_result u f s =
     (if \<not> mutex s then None
      else do { (a, q1) \<leftarrow> callback_result_alloc u (results s);
                n \<leftarrow> heap q1 a;
                q2 \<leftarrow> set_val a (f (nval n)) q1;
                Some (s\<lparr>results := q2\<rparr>) })"

definition semaphore_release :: "hl_state \<Rightarrow> hl_state option" where
  "semaphore_release s = do { n \<leftarrow> sem s; Some (s\<lparr>sem := Some (Suc n)\<rparr>) }"

definition post_result ::
  "callback_result node \<Rightarrow> (callback_result \<Rightarrow> callback_result) \<Rightarrow> hl_state \<Rightarrow> hl_state option" where
  "post_result u f s = do { s1 \<leftarrow> enqueue_result u f s; semaphore_release s1 }"

definition descriptionCallback ::
  "callback_result node \<Rightarrow> bytes \<Rightarrow> bytes \<Rightarrow> nat \<Rightarrow> hl_state \<Rightarrow> hl_state option" where
  "descriptionCallback u sdp typ ptr s =
     post_result u (\<lambda>r. r\<lparr>cr_arg1 := VBytes (sdp @ [0]), cr_arg2 := VBytes (typ @ [0]),
       cr_closure := Some (PcSlot ptr DescCb), cr_args := 2,
       cr_arg1Size := int (length sdp) + 1, cr_arg2Size := int (length typ) + 1,
       callback_name := ''onDescription''\<rparr>) s"

definition candidateCallback ::
  "callback_result node \<Rightarrow> bytes \<Rightarrow> nat \<Rightarrow> hl_state \<Rightarrow> hl_state option" where
  "candidateCallback u cand ptr s =
     post_result u (\<lambda>r. r\<lparr>cr_arg1 := VBytes (cand @ [0]), cr_closure := Some (PcSlot ptr CandidateCb),
       cr_args := 1, cr_arg1Size := int (length cand) + 1, callback_name := ''onCandidate''\<rparr>) s"

definition stateChangeCallback :: "callback_result node \<Rightarrow> int \<Rightarrow> nat \<Rightarrow> hl_state \<Rightarrow> hl_state option" where
  "stateChangeCallback u st ptr s =
     post_result u (\<lambda>r. r\<lparr>cr_arg1 := VI32 st, cr_closure := Some (PcSlot ptr StateCb), cr_args := 1,
       callback_name := ''onStateChange''\<rparr>) s"

definition gatheringStateCallback :: "callback_result node \<Rightarrow> int \<Rightarrow> nat \<Rightarrow> hl_state \<Rightarrow> hl_state option" where
  "gatheringStateCallback u st ptr s =
     post_result u (\<lambda>r. r\<lparr>cr_arg1 := VI32 st, cr_closure := Some (PcSlot ptr GatheringStateCb), cr_args := 1,
       callback_name := ''onGatheringStateChange''\<rparr>) s"

definition unnamed :: bytes where
  "unnamed = str_bytes ''unnamed'' @ [0]"

text \<open>\<open>(n, buf)\<close>: what \<^verbatim>\<open>rtcGetDataChannelLabel\<close> returned and the 256 byte buffer.\<close>

definition openCallback ::
  "callback_result node \<Rightarrow> int \<times> bytes \<Rightarrow> nat \<Rightarrow> hl_state \<Rightarrow> hl_state option" where
  "openCallback u lbl ptr s =
     do { ob \<leftarrow> dcs s ptr;
          if openCb ob = None then Some s
          else let s1 = rtc_do [RtcGetDataChannelLabel (dc_id ob)] s in
            if fst lbl \<ge> 0
            then post_result u (\<lambda>r. r\<lparr>cr_arg1 := VBytes (snd lbl), cr_arg1Size := 256,
                   cr_closure := Some (DcSlot ptr OpenCb), cr_args := 1, callback_name := ''onOpen''\<rparr>) s1
            else post_result u (\<lambda>r. r\<lparr>cr_arg1 := VBytes unnamed, cr_arg1Size := 8,
                   cr_closure := Some (DcSlot ptr OpenCb), cr_args := 1, callback_name := ''onOpen''\<rparr>) s1 }"

definition closedCallback :: "callback_result node \<Rightarrow> nat \<Rightarrow> hl_state \<Rightarrow> hl_state option" where
  "closedCallback u ptr s =
     post_result u (\<lambda>r. r\<lparr>cr_closure := Some (DcSlot ptr ClosedCb), cr_args := 0,
       callback_name := ''onClose''\<rparr>) s"

definition errorCallback :: "callback_result node \<Rightarrow> bytes \<Rightarrow> nat \<Rightarrow> hl_state \<Rightarrow> hl_state option" where
  "errorCallback u err ptr s =
     post_result u (\<lambda>r. r\<lparr>cr_arg1 := VBytes (err @ [0]), cr_arg1Size := int (length err) + 1,
       cr_closure := Some (DcSlot ptr ErrCb), cr_args := 1, callback_name := ''onError''\<rparr>) s"

text \<open>A negative \<open>sz\<close> (\<^verbatim>\<open>size\<close>) announces a C string, of which \<open>message\<close> is then the bytes before the
  terminator; otherwise \<open>message\<close> holds at least \<open>sz\<close> bytes.\<close>

definition messageCallback ::
  "callback_result node \<Rightarrow> bytes \<Rightarrow> int \<Rightarrow> nat \<Rightarrow> hl_state \<Rightarrow> hl_state option" where
  "messageCallback u message sz ptr s =
     (if sz < 0
      then post_result u (\<lambda>r. r\<lparr>cr_arg1 := VBytes (message @ [0]), cr_arg1Size := int (length message) + 1,
             cr_arg2 := VI32 (int (length message) + 1), cr_closure := Some (DcSlot ptr MsgCb),
             cr_args := 2, callback_name := ''onMessage''\<rparr>) s
      else if nat sz > length message then None
      else post_result u (\<lambda>r. r\<lparr>cr_arg1 := VBytes (take (nat sz) message), cr_arg1Size := sz,
             cr_arg2 := VI32 sz, cr_closure := Some (DcSlot ptr MsgCb),
             cr_args := 2, callback_name := ''onMessage''\<rparr>) s)"

definition bufferedAmountLowCallback :: "callback_result node \<Rightarrow> nat \<Rightarrow> hl_state \<Rightarrow> hl_state option" where
  "bufferedAmountLowCallback u ptr s =
     post_result u (\<lambda>r. r\<lparr>cr_closure := Some (DcSlot ptr BufferLowCb), cr_args := 0,
       callback_name := ''onBufferLow''\<rparr>) s"

definition dataChannelCallback ::
  "datachannel_callback node \<Rightarrow> int \<Rightarrow> nat \<Rightarrow> hl_state \<Rightarrow> hl_state option" where
  "dataChannelCallback u dc ptr s =
     (if \<not> mutex s then None
      else do { (a, q1) \<leftarrow> datachannel_callback_alloc u (dccbs s);
                n \<leftarrow> heap q1 a;
                q2 \<leftarrow> set_val a ((nval n)\<lparr>dcb_dc := dc, dcb_pc := ptr\<rparr>) q1;
                Some (s\<lparr>dccbs := q2\<rparr>) })"

subsection \<open>Delivering events\<close>

definition hl_dyn_call ::
  "(closure \<Rightarrow> vdynamic list \<Rightarrow> hl_state \<Rightarrow> hl_state) \<Rightarrow> closure option \<Rightarrow> vdynamic list \<Rightarrow> hl_state
    \<Rightarrow> hl_state option" where
  "hl_dyn_call ucall c args s =
     do { f \<leftarrow> c; Some (ucall f args (s\<lparr>calls := calls s @ [(f, args)]\<rparr>)) }"

text \<open>The body of the first loop of \<open>process_events\<close>, on the unlinked node \<open>res\<close>; \<open>label\<close> is what
  \<^verbatim>\<open>rtcGetDataChannelLabel\<close> answers.\<close>

definition deliver_datachannel ::
  "(closure \<Rightarrow> vdynamic list \<Rightarrow> hl_state \<Rightarrow> hl_state) \<Rightarrow> (int \<Rightarrow> int \<times> bytes) \<Rightarrow> nat \<Rightarrow> hl_state
    \<Rightarrow> hl_state option" where
  "deliver_datachannel ucall label res s =
     do { n \<leftarrow> heap (dccbs s) res;
          let (hldc, s1) = hl_rtc_make_datachannel (dcb_dc (nval n)) s;
          cb \<leftarrow> read_slot (PcSlot (dcb_pc (nval n)) DatachannelCb) s1;
          let s2 = rtc_do [RtcGetDataChannelLabel (dcb_dc (nval n))] s1;
          let lbl = label (dcb_dc (nval n));
          s3 \<leftarrow> (if fst lbl \<ge> 0
                 then hl_dyn_call ucall cb [VPtr hldc, VBytes (snd lbl)] s2
                 else hl_dyn_call ucall cb [VPtr hldc, VBytes unnamed] s2);
          q \<leftarrow> queue_free res (dccbs s3);
          Some (s3\<lparr>dccbs := q\<rparr>) }"

partial_function (option) process_datachannels ::
  "(closure \<Rightarrow> vdynamic list \<Rightarrow> hl_state \<Rightarrow> hl_state) \<Rightarrow> (int \<Rightarrow> int \<times> bytes) \<Rightarrow> hl_state \<Rightarrow> hl_state option" where
  "process_datachannels ucall label s =
     (if \<not> mutex s then None
      else do { (r, q) \<leftarrow> queue_take (dccbs s);
                case r of
                  None \<Rightarrow> Some (s\<lparr>dccbs := q\<rparr>)
                | Some res \<Rightarrow> do { s' \<leftarrow> deliver_datachannel ucall label res (s\<lparr>dccbs := q\<rparr>);
                                   process_datachannels ucall label s' } })"

text \<open>A byte argument is copied into garbage-collected memory before the call: \<open>sz\<close> bytes of it.\<close>

definition gc_copy :: "vdynamic \<Rightarrow> int \<Rightarrow> vdynamic option" where
  "gc_copy v sz =
     (case v of VBytes b \<Rightarrow> if 0 \<le> sz \<and> nat sz \<le> length b then Some (VBytes (take (nat sz) b)) else None
      | _ \<Rightarrow> Some v)"

text \<open>The body of the second loop: the call (\<open>call_result\<close>), then \<^verbatim>\<open>free(res)\<close>.\<close>

definition call_result ::
  "(closure \<Rightarrow> vdynamic list \<Rightarrow> hl_state \<Rightarrow> hl_state) \<Rightarrow> nat \<Rightarrow> hl_state \<Rightarrow> hl_state option" where
  "call_result ucall res s =
     do { n \<leftarrow> heap (results s) res;
          let r = nval n;
          arg1 \<leftarrow> (if cr_args r \<ge> 1 then gc_copy (cr_arg1 r) (cr_arg1Size r) else Some (cr_arg1 r));
          arg2 \<leftarrow> (if cr_args r \<ge> 2 then gc_copy (cr_arg2 r) (cr_arg2Size r) else Some (cr_arg2 r));
          case cr_closure r of
            None \<Rightarrow> Some s
          | Some sl \<Rightarrow>
              if cr_args r = 0 then do { c \<leftarrow> read_slot sl s; hl_dyn_call ucall c [] s }
              else if cr_args r = 1 then do { c \<leftarrow> read_slot sl s; hl_dyn_call ucall c [arg1] s }
              else if cr_args r = 2 then do { c \<leftarrow> read_slot sl s; hl_dyn_call ucall c [arg1, arg2] s }
              else Some s }"

definition free_result :: "nat \<Rightarrow> hl_state \<Rightarrow> hl_state option" where
  "free_result res s = do { q \<leftarrow> queue_free res (results s); Some (s\<lparr>results := q\<rparr>) }"

definition deliver_result ::
  "(closure \<Rightarrow> vdynamic list \<Rightarrow> hl_state \<Rightarrow> hl_state) \<Rightarrow> nat \<Rightarrow> hl_state \<Rightarrow> hl_state option" where
  "deliver_result ucall res s = do { s1 \<leftarrow> call_result ucall res s; free_result res s1 }"

partial_function (option) process_results ::
  "(closure \<Rightarrow> vdynamic list \<Rightarrow> hl_state \<Rightarrow> hl_state) \<Rightarrow> hl_state \<Rightarrow> hl_state option" where
  "process_results ucall s =
     do { k \<leftarrow> sem s;
          case k of
            0 \<Rightarrow> Some s
          | Suc k' \<Rightarrow>
              (if \<not> mutex s then None
               else do { (r, q) \<leftarrow> queue_take (results s);
                         case r of
                           None \<Rightarrow> Some (s\<lparr>sem := Some k', results := q\<rparr>)
                         | Some res \<Rightarrow> do { s' \<leftarrow> deliver_result ucall res (s\<lparr>sem := Some k', results := q\<rparr>);
                                            process_results ucall s' } }) }"

definition process_events ::
  "(closure \<Rightarrow> vdynamic list \<Rightarrow> hl_state \<Rightarrow> hl_state) \<Rightarrow> (int \<Rightarrow> int \<times> bytes) \<Rightarrow> hl_state \<Rightarrow> hl_state option" where
  "process_events ucall label s =
     do { s1 \<leftarrow> process_datachannels ucall label s; process_results ucall s1 }"

end
