(* ===== verification/HL_Events.thy ===== *)
theory HL_Events
  imports HL_Binding
begin

text \<open>
  What the event machinery of the extension guarantees when it runs undisturbed: \<open>process_events\<close>
  terminates and delivers every queued event once and in order, a message arrives with its bytes, and
  the queues are FIFO queues whatever memory \<^verbatim>\<open>malloc\<close> returns.
\<close>

subsection \<open>Producers\<close>

lemma enqueue_result_eq:
  "mutex s \<Longrightarrow> enqueue_result u f s = map_option (\<lambda>q. s\<lparr>results := q\<rparr>) (queue_push u (f (nval u)) (results s))"
  by (auto simp: enqueue_result_def callback_result_alloc_def queue_push_def queue_alloc_def node_malloc_def
      set_next_def set_val_def Let_def split: option.splits bind_splits)

lemma enqueue_result_Some: "enqueue_result u f s = Some s' \<Longrightarrow> mutex s \<and> (\<exists>q. s' = s\<lparr>results := q\<rparr>)"
  by (auto simp: enqueue_result_def bind_eq_Some_conv split: if_splits)

lemma enqueue_result_ok:
  assumes "mutex s" and "queue_inv X (results s)"
  shows "\<exists>q. enqueue_result u f s = Some (s\<lparr>results := q\<rparr>) \<and> queue_inv X q
    \<and> queue_list q = queue_list (results s) @ [f (nval u)] \<and> (\<forall>a \<in> X. heap q a = heap (results s) a)"
  using queue_push_list [OF assms(2), of u "f (nval u)"] assms(1) by (auto simp: enqueue_result_eq)

lemma post_result_ok:
  assumes "mutex s" and "queue_inv X (results s)" and "sem s = Some k"
  shows "\<exists>q. post_result u f s = Some (s\<lparr>results := q, sem := Some (Suc k)\<rparr>) \<and> queue_inv X q
    \<and> queue_list q = queue_list (results s) @ [f (nval u)]"
proof -
  from enqueue_result_ok [OF assms(1,2), of u f] obtain q where
    "enqueue_result u f s = Some (s\<lparr>results := q\<rparr>)" "queue_inv X q"
    "queue_list q = queue_list (results s) @ [f (nval u)]" by blast
  with assms(3) show ?thesis
    by (intro exI [of _ q]) (simp add: post_result_def semaphore_release_def)
qed

lemma dataChannelCallback_eq:
  "mutex s \<Longrightarrow> dataChannelCallback u dc a s
     = map_option (\<lambda>q. s\<lparr>dccbs := q\<rparr>) (queue_push u ((nval u)\<lparr>dcb_dc := dc, dcb_pc := a\<rparr>) (dccbs s))"
  by (auto simp: dataChannelCallback_def datachannel_callback_alloc_def queue_push_def queue_alloc_def
      node_malloc_def set_next_def set_val_def Let_def split: option.splits bind_splits)

lemma dataChannelCallback_ok:
  assumes "mutex s" and "queue_inv X (dccbs s)"
  shows "\<exists>q. dataChannelCallback u dc a s = Some (s\<lparr>dccbs := q\<rparr>) \<and> queue_inv X q
    \<and> queue_list q = queue_list (dccbs s) @ [(nval u)\<lparr>dcb_dc := dc, dcb_pc := a\<rparr>]"
  using queue_push_list [OF assms(2), of u "(nval u)\<lparr>dcb_dc := dc, dcb_pc := a\<rparr>"] assms(1)
  by (auto simp: dataChannelCallback_eq)

subsection \<open>The call an event stands for\<close>

text \<open>The Haxe call that delivering an event makes in a state; \<open>None\<close> where delivering it would be
  undefined (a reclaimed object, a closure that was never set, a size beyond the buffer).\<close>

definition event_call :: "hl_state \<Rightarrow> callback_result \<Rightarrow> (closure \<times> vdynamic list) option" where
  "event_call s r =
     do { sl \<leftarrow> cr_closure r;
          c \<leftarrow> read_slot sl s;
          f \<leftarrow> c;
          if cr_args r = 0 then Some (f, [])
          else if cr_args r = 1 then do { v \<leftarrow> gc_copy (cr_arg1 r) (cr_arg1Size r); Some (f, [v]) }
          else if cr_args r = 2 then do { v \<leftarrow> gc_copy (cr_arg1 r) (cr_arg1Size r);
                                          w \<leftarrow> gc_copy (cr_arg2 r) (cr_arg2Size r); Some (f, [v, w]) }
          else None }"

definition deliverable :: "hl_state \<Rightarrow> callback_result \<Rightarrow> bool" where
  "deliverable s r \<longleftrightarrow> (case event_call s r of None \<Rightarrow> False
     | Some (f, args) \<Rightarrow> \<not> list_ex (\<lambda>v. case v of VPtr _ \<Rightarrow> True | _ \<Rightarrow> False) args)"

definition channel_call :: "(int \<Rightarrow> int \<times> bytes) \<Rightarrow> hl_state \<Rightarrow> datachannel_callback \<Rightarrow> nat
    \<Rightarrow> (closure \<times> vdynamic list) option" where
  "channel_call label s e a =
     do { c \<leftarrow> read_slot (PcSlot (dcb_pc e) DatachannelCb) s;
          f \<leftarrow> c;
          Some (f, [VPtr a, VBytes (if fst (label (dcb_dc e)) \<ge> 0 then snd (label (dcb_dc e)) else unnamed)]) }"

definition gc_wf :: "hl_state \<Rightarrow> bool" where
  "gc_wf s \<longleftrightarrow> dom (pcs s) \<union> dom (dcs s) \<subseteq> {..<gcbrk s}"

text \<open>A Haxe handler is well behaved if it leaves the queues, the mutex and the semaphore alone and
  changes closures only of the channel objects it was given.\<close>

definition well_behaved :: "(closure \<Rightarrow> vdynamic list \<Rightarrow> hl_state \<Rightarrow> hl_state) \<Rightarrow> bool" where
  "well_behaved ucall \<longleftrightarrow> (\<forall>f args s. let s' = ucall f args s in
     results s' = results s \<and> dccbs s' = dccbs s \<and> mutex s' = mutex s \<and> sem s' = sem s \<and> calls s' = calls s
     \<and> (gc_wf s \<longrightarrow> gc_wf s' \<and> gcbrk s \<le> gcbrk s')
     \<and> (\<forall>sl c. read_slot sl s = Some c \<longrightarrow> (\<forall>a d. sl = DcSlot a d \<longrightarrow> VPtr a \<notin> set args)
          \<longrightarrow> read_slot sl s' = Some c))"

lemma well_behavedD:
  assumes "well_behaved ucall"
  shows "results (ucall f args s) = results s" "dccbs (ucall f args s) = dccbs s"
    "mutex (ucall f args s) = mutex s" "sem (ucall f args s) = sem s" "calls (ucall f args s) = calls s"
    "gc_wf s \<Longrightarrow> gc_wf (ucall f args s)" "gc_wf s \<Longrightarrow> gcbrk s \<le> gcbrk (ucall f args s)"
  using assms by (auto simp: well_behaved_def Let_def)

lemma well_behaved_slot:
  assumes "well_behaved ucall" and "read_slot sl s = Some c" and "\<And>a d. sl = DcSlot a d \<Longrightarrow> VPtr a \<notin> set args"
  shows "read_slot sl (ucall f args s) = Some c"
proof -
  from assms(3) have "\<forall>a d. sl = DcSlot a d \<longrightarrow> VPtr a \<notin> set args" by blast
  with assms(1,2) show ?thesis unfolding well_behaved_def Let_def by blast
qed

lemma read_slot_cong: "pcs s = pcs t \<Longrightarrow> dcs s = dcs t \<Longrightarrow> read_slot sl s = read_slot sl t"
  by (cases sl) (simp_all add: read_slot_def)

lemma read_slot_upd [simp]:
  "read_slot sl (s\<lparr>results := q\<rparr>) = read_slot sl s" "read_slot sl (s\<lparr>dccbs := q'\<rparr>) = read_slot sl s"
  "read_slot sl (s\<lparr>calls := cs\<rparr>) = read_slot sl s" "read_slot sl (s\<lparr>sem := k\<rparr>) = read_slot sl s"
  "read_slot sl (rtc_do xs s) = read_slot sl s"
  by (rule read_slot_cong; simp add: rtc_do_def)+

lemma gc_wf_upd [simp]:
  "gc_wf (s\<lparr>results := q\<rparr>) = gc_wf s" "gc_wf (s\<lparr>dccbs := q'\<rparr>) = gc_wf s"
  "gc_wf (s\<lparr>calls := cs\<rparr>) = gc_wf s" "gc_wf (s\<lparr>sem := k\<rparr>) = gc_wf s" "gc_wf (rtc_do xs s) = gc_wf s"
  by (simp_all add: gc_wf_def rtc_do_def)

lemma event_call_upd [simp]:
  "event_call (s\<lparr>results := q\<rparr>) = event_call s" "event_call (s\<lparr>sem := k\<rparr>) = event_call s"
  by (simp_all add: event_call_def fun_eq_iff)

lemma event_call_mono:
  assumes "\<And>sl c. read_slot sl s = Some c \<Longrightarrow> read_slot sl t = Some c" and "event_call s r = Some x"
  shows "event_call t r = Some x"
  using assms by (auto simp: event_call_def split: bind_splits)

lemma call_result_eq:
  assumes "heap (results s) res = Some n" and "event_call s (nval n) = Some (f, args)"
  shows "call_result ucall res s = Some (ucall f args (s\<lparr>calls := calls s @ [(f, args)]\<rparr>))"
  using assms
  by (auto simp: event_call_def call_result_def hl_dyn_call_def split: bind_splits if_splits)

subsection \<open>Delivery\<close>

definition slots_kept :: "hl_state \<Rightarrow> hl_state \<Rightarrow> bool" where
  "slots_kept s t \<longleftrightarrow> (\<forall>sl c. read_slot sl s = Some c \<longrightarrow> read_slot sl t = Some c)"

lemma slots_kept_refl [simp]: "slots_kept s s" by (simp add: slots_kept_def)

lemma slots_kept_trans: "slots_kept s t \<Longrightarrow> slots_kept t u \<Longrightarrow> slots_kept s u"
  by (auto simp: slots_kept_def)

lemma slots_kept_event: "slots_kept s t \<Longrightarrow> event_call s r = Some x \<Longrightarrow> event_call t r = Some x"
  by (auto simp: slots_kept_def elim!: event_call_mono [rotated])

lemma slots_kept_deliverable: "slots_kept s t \<Longrightarrow> deliverable s r \<Longrightarrow> deliverable t r"
  by (auto simp: deliverable_def slots_kept_event split: option.splits dest: slots_kept_event)

lemma slots_kept_same: "slots_kept s t \<Longrightarrow> deliverable s r \<Longrightarrow> event_call t r = event_call s r"
  by (auto simp: deliverable_def split: option.splits dest: slots_kept_event)

lemma deliverable_args: "deliverable s r \<Longrightarrow> event_call s r = Some (f, args) \<Longrightarrow> VPtr a \<notin> set args"
  by (auto simp: deliverable_def list_ex_iff split: vdynamic.splits)

lemma deliver_result_ok:
  assumes wb: "well_behaved ucall" and n: "heap (results s) res = Some n"
    and ev: "event_call s (nval n) = Some (f, args)" and dl: "deliverable s (nval n)"
    and q: "queue_inv {res} (results s)" and gc: "gc_wf s"
  shows "\<exists>s'. deliver_result ucall res s = Some s' \<and> queue_inv {} (results s')
    \<and> queue_list (results s') = queue_list (results s) \<and> calls s' = calls s @ [(f, args)]
    \<and> mutex s' = mutex s \<and> sem s' = sem s \<and> dccbs s' = dccbs s \<and> gc_wf s' \<and> slots_kept s s'"
proof -
  let ?s1 = "ucall f args (s\<lparr>calls := calls s @ [(f, args)]\<rparr>)"
  have res: "results ?s1 = results s" using well_behavedD [OF wb] by simp
  from queue_free_list [OF q, of res] obtain q2 where
    q2: "queue_free res (results s) = Some q2" "queue_inv {} q2" "queue_list q2 = queue_list (results s)"
    by auto
  have "deliver_result ucall res s = Some (?s1\<lparr>results := q2\<rparr>)"
    using call_result_eq [OF n ev] res q2 by (simp add: deliver_result_def free_result_def)
  moreover have "slots_kept s ?s1"
    using well_behaved_slot [OF wb, of _ "s\<lparr>calls := calls s @ [(f, args)]\<rparr>"] deliverable_args [OF dl ev]
    by (auto simp: slots_kept_def)
  ultimately show ?thesis
    using q2 well_behavedD [OF wb, where f = f and args = args and s = "s\<lparr>calls := calls s @ [(f, args)]\<rparr>"] gc
    by (auto simp: slots_kept_def)
qed

lemma process_results_ok:
  assumes wb: "well_behaved ucall"
  shows "queue_list (results s) = rs \<Longrightarrow> queue_inv {} (results s) \<Longrightarrow> mutex s \<Longrightarrow> gc_wf s
    \<Longrightarrow> sem s = Some (length rs) \<Longrightarrow> \<forall>r \<in> set rs. deliverable s r
    \<Longrightarrow> \<exists>s'. process_results ucall s = Some s' \<and> calls s' = calls s @ map (\<lambda>r. the (event_call s r)) rs
      \<and> queue_list (results s') = [] \<and> queue_inv {} (results s') \<and> sem s' = Some 0 \<and> dccbs s' = dccbs s
      \<and> mutex s'"
proof (induction rs arbitrary: s)
  case Nil
  then show ?case by (subst process_results.simps) simp
next
  case (Cons r rs)
  from queue_take_list [OF Cons.prems(2,1)] obtain res q n where
    t: "queue_take (results s) = Some (Some res, q)" "heap q res = Some n" "nval n = r"
    "queue_inv {res} q" "queue_list q = rs" by auto
  let ?s1 = "s\<lparr>sem := Some (length rs), results := q\<rparr>"
  have dl: "deliverable s r" using Cons.prems(6) by simp
  then obtain f args where ev: "event_call s r = Some (f, args)"
    by (auto simp: deliverable_def split: option.splits)
  have dl1: "deliverable ?s1 (nval n)" using dl t(3) by (simp add: deliverable_def)
  from deliver_result_ok [OF wb _ _ dl1, of res f args] t ev Cons.prems obtain s2 where
    s2: "deliver_result ucall res ?s1 = Some s2" "queue_inv {} (results s2)" "queue_list (results s2) = rs"
    "calls s2 = calls s @ [(f, args)]" "mutex s2" "sem s2 = Some (length rs)" "dccbs s2 = dccbs s"
    "gc_wf s2" "slots_kept ?s1 s2" by auto
  have keep: "slots_kept s s2" using s2(9) by (simp add: slots_kept_def)
  from Cons.prems(6) keep have "\<forall>x \<in> set rs. deliverable s2 x"
    by (auto intro: slots_kept_deliverable)
  from Cons.IH [OF s2(3,2,5,8,6) this] obtain s' where
    s': "process_results ucall s2 = Some s'"
    "calls s' = calls s2 @ map (\<lambda>r. the (event_call s2 r)) rs" "queue_list (results s') = []"
    "queue_inv {} (results s')" "sem s' = Some 0" "dccbs s' = dccbs s2" "mutex s'" by blast
  have same: "map (\<lambda>r. the (event_call s2 r)) rs = map (\<lambda>r. the (event_call s r)) rs"
    using Cons.prems(6) keep by (simp add: slots_kept_same)
  have "process_results ucall s = Some s'"
    using Cons.prems t s2(1) s'(1) by (subst process_results.simps) simp
  then show ?case using s' s2 ev same by simp
qed

lemma make_datachannel_slots:
  assumes "gc_wf s" and "hl_rtc_make_datachannel dc s = (a, t)"
  shows "a = gcbrk s" "gcbrk t = Suc (gcbrk s)" "gc_wf t" "slots_kept s t" "results t = results s"
    "dccbs t = dccbs s" "mutex t = mutex s" "sem t = sem s" "calls t = calls s"
proof -
  let ?ob = "\<lparr>dc_id = dc, openCb = None, closedCb = None, errCb = None, msgCb = None, bufferLowCb = None\<rparr>"
  have t: "a = gcbrk s" "gcbrk t = Suc (gcbrk s)" "pcs t = pcs s" "dcs t = (dcs s)(gcbrk s \<mapsto> ?ob)"
    using assms(2) by (auto simp: hl_rtc_make_datachannel_def rtc_do_def Let_def)
  then show "a = gcbrk s" "gcbrk t = Suc (gcbrk s)" by simp_all
  show "gc_wf t" using assms(1) t by (auto simp: gc_wf_def)
  have "dcs s (gcbrk s) = None" using assms(1) by (auto simp: gc_wf_def)
  then show "slots_kept s t"
    using t by (auto simp: slots_kept_def read_slot_def split: slot.splits bind_splits)
  show "results t = results s" "dccbs t = dccbs s" "mutex t = mutex s" "sem t = sem s" "calls t = calls s"
    using assms(2) by (auto simp: hl_rtc_make_datachannel_def rtc_do_def Let_def)
qed

lemma rtc_do_sel [simp]:
  "results (rtc_do cs s) = results s" "dccbs (rtc_do cs s) = dccbs s" "mutex (rtc_do cs s) = mutex s"
  "sem (rtc_do cs s) = sem s" "calls (rtc_do cs s) = calls s" "gcbrk (rtc_do cs s) = gcbrk s"
  "pcs (rtc_do cs s) = pcs s" "dcs (rtc_do cs s) = dcs s" "roots (rtc_do cs s) = roots s"
  by (simp_all add: rtc_do_def)

lemma deliver_datachannel_ok:
  assumes wb: "well_behaved ucall" and n: "heap (dccbs s) res = Some n"
    and ch: "channel_call label s (nval n) (gcbrk s) = Some (f, args)"
    and q: "queue_inv {res} (dccbs s)" and gc: "gc_wf s"
  shows "\<exists>s'. deliver_datachannel ucall label res s = Some s' \<and> queue_inv {} (dccbs s')
    \<and> queue_list (dccbs s') = queue_list (dccbs s) \<and> calls s' = calls s @ [(f, args)]
    \<and> mutex s' = mutex s \<and> sem s' = sem s \<and> results s' = results s \<and> gc_wf s' \<and> gcbrk s < gcbrk s'
    \<and> slots_kept s s'"
proof -
  obtain a s1 where mk: "hl_rtc_make_datachannel (dcb_dc (nval n)) s = (a, s1)" by fastforce
  note m = make_datachannel_slots [OF gc mk]
  let ?s2 = "rtc_do [RtcGetDataChannelLabel (dcb_dc (nval n))] s1"
  let ?s3 = "ucall f args (?s2\<lparr>calls := calls s @ [(f, args)]\<rparr>)"
  note w = well_behavedD [OF wb, where f = f and args = args and s = "?s2\<lparr>calls := calls s @ [(f, args)]\<rparr>"]
  from ch have cb: "read_slot (PcSlot (dcb_pc (nval n)) DatachannelCb) s1 = Some (Some f)"
    and args: "args = [VPtr a, VBytes (if fst (label (dcb_dc (nval n))) \<ge> 0
      then snd (label (dcb_dc (nval n))) else unnamed)]"
    using m(1,4) by (auto simp: channel_call_def slots_kept_def split: bind_splits)
  from queue_free_list [OF q, of res] obtain q2 where
    q2: "queue_free res (dccbs s) = Some q2" "queue_inv {} q2" "queue_list q2 = queue_list (dccbs s)"
    by auto
  have call: "(if fst (label (dcb_dc (nval n))) \<ge> 0
      then hl_dyn_call ucall (Some f) [VPtr a, VBytes (snd (label (dcb_dc (nval n))))] ?s2
      else hl_dyn_call ucall (Some f) [VPtr a, VBytes unnamed] ?s2) = Some ?s3"
    using args m(9) by (simp add: hl_dyn_call_def)
  have "dccbs ?s3 = dccbs s" using w(2) m(6) by simp
  then have eq: "deliver_datachannel ucall label res s = Some (?s3\<lparr>dccbs := q2\<rparr>)"
    using n mk cb call q2(1) by (simp add: deliver_datachannel_def Let_def split del: if_split)
  have "slots_kept s ?s3"
    unfolding slots_kept_def
  proof (intro allI impI)
    fix sl c
    assume r: "read_slot sl s = Some c"
    have "b \<noteq> a" if "sl = DcSlot b d" for b d
      using r that gc m(1) by (auto simp: read_slot_def gc_wf_def split: bind_splits)
    then show "read_slot sl ?s3 = Some c"
      using r m(4) args by (intro well_behaved_slot [OF wb]) (auto simp: slots_kept_def)
  qed
  then show ?thesis
    using eq q2 w m by (auto simp: slots_kept_def)
qed

lemma process_datachannels_ok:
  assumes wb: "well_behaved ucall"
  shows "queue_list (dccbs s) = es \<Longrightarrow> queue_inv {} (dccbs s) \<Longrightarrow> mutex s \<Longrightarrow> gc_wf s
    \<Longrightarrow> \<forall>e \<in> set es. channel_call label s e 0 \<noteq> None
    \<Longrightarrow> \<exists>s' as. process_datachannels ucall label s = Some s' \<and> length as = length es \<and> sorted_wrt (<) as
      \<and> (\<forall>a \<in> set as. gcbrk s \<le> a)
      \<and> calls s' = calls s @ map2 (\<lambda>e a. the (channel_call label s e a)) es as
      \<and> queue_list (dccbs s') = [] \<and> queue_inv {} (dccbs s') \<and> sem s' = sem s \<and> results s' = results s
      \<and> mutex s' \<and> gc_wf s' \<and> slots_kept s s'"
proof (induction es arbitrary: s)
  case Nil
  then show ?case
    by (intro exI [of _ s] exI [of _ "[]"]) (simp add: process_datachannels.simps queue_take_Nil)
next
  case (Cons e es)
  from queue_take_list [OF Cons.prems(2,1)] obtain res q n where
    t: "queue_take (dccbs s) = Some (Some res, q)" "heap q res = Some n" "nval n = e"
    "queue_inv {res} q" "queue_list q = es" by auto
  let ?s1 = "s\<lparr>dccbs := q\<rparr>"
  from Cons.prems(5) obtain f where f: "read_slot (PcSlot (dcb_pc e) DatachannelCb) s = Some (Some f)"
    by (auto simp: channel_call_def split: bind_splits)
  then obtain args where ch: "channel_call label s e (gcbrk s) = Some (f, args)"
    by (simp add: channel_call_def)
  have ch1: "channel_call label ?s1 (nval n) (gcbrk ?s1) = Some (f, args)"
    using ch t(3) by (simp add: channel_call_def)
  from deliver_datachannel_ok [OF wb _ ch1, of res] t Cons.prems obtain s2 where
    s2: "deliver_datachannel ucall label res ?s1 = Some s2" "queue_inv {} (dccbs s2)"
    "queue_list (dccbs s2) = es" "calls s2 = calls s @ [(f, args)]" "mutex s2" "sem s2 = sem s"
    "results s2 = results s" "gc_wf s2" "gcbrk s < gcbrk s2" "slots_kept s s2"
    by (auto simp: slots_kept_def)
  have ch2: "channel_call label s2 e' a = channel_call label s e' a" if "e' \<in> set es" for e' a
    using Cons.prems(5) that s2(10) by (fastforce simp: channel_call_def slots_kept_def split: bind_splits)
  with Cons.prems(5) have "\<forall>e' \<in> set es. channel_call label s2 e' 0 \<noteq> None" by simp
  from Cons.IH [OF s2(3,2,5,8) this] obtain s' as where
    s': "process_datachannels ucall label s2 = Some s'" "length as = length es" "sorted_wrt (<) as"
    "\<forall>a \<in> set as. gcbrk s2 \<le> a" "calls s' = calls s2 @ map2 (\<lambda>e a. the (channel_call label s2 e a)) es as"
    "queue_list (dccbs s') = []" "queue_inv {} (dccbs s')" "sem s' = sem s2" "results s' = results s2"
    "mutex s'" "gc_wf s'" "slots_kept s2 s'" by blast
  have eq: "map2 (\<lambda>e a. the (channel_call label s2 e a)) es as = map2 (\<lambda>e a. the (channel_call label s e a)) es as"
    using ch2 by (auto dest: set_zip_leftD)
  have "process_datachannels ucall label s = Some s'"
    using Cons.prems t s2(1) s'(1) by (subst process_datachannels.simps) simp
  moreover have "slots_kept s s'" using s2(10) s'(12) by (rule slots_kept_trans)
  ultimately show ?case
    using s' s2 ch eq by (intro exI [of _ s'] exI [of _ "gcbrk s # as"]) force
qed

lemma process_events_ok:
  assumes wb: "well_behaved ucall" and mx: "mutex s" and gc: "gc_wf s"
    and qd: "queue_inv {} (dccbs s)" and qr: "queue_inv {} (results s)"
    and tok: "sem s = Some (length (queue_list (results s)))"
    and chans: "\<forall>e \<in> set (queue_list (dccbs s)). channel_call label s e 0 \<noteq> None"
    and evs: "\<forall>r \<in> set (queue_list (results s)). deliverable s r"
  shows "\<exists>s' as. process_events ucall label s = Some s'
    \<and> length as = length (queue_list (dccbs s)) \<and> sorted_wrt (<) as \<and> (\<forall>a \<in> set as. gcbrk s \<le> a)
    \<and> calls s' = calls s @ map2 (\<lambda>e a. the (channel_call label s e a)) (queue_list (dccbs s)) as
        @ map (\<lambda>r. the (event_call s r)) (queue_list (results s))
    \<and> heap (dccbs s') = Map.empty \<and> heap (results s') = Map.empty \<and> sem s' = Some 0"
proof -
  from process_datachannels_ok [OF wb refl qd mx gc chans] obtain s1 as where
    s1: "process_datachannels ucall label s = Some s1" "length as = length (queue_list (dccbs s))"
    "sorted_wrt (<) as" "\<forall>a \<in> set as. gcbrk s \<le> a"
    "calls s1 = calls s @ map2 (\<lambda>e a. the (channel_call label s e a)) (queue_list (dccbs s)) as"
    "queue_list (dccbs s1) = []" "queue_inv {} (dccbs s1)" "sem s1 = sem s" "results s1 = results s"
    "mutex s1" "gc_wf s1" "slots_kept s s1" by blast
  have evs1: "\<forall>r \<in> set (queue_list (results s)). deliverable s1 r"
    using evs s1(12) by (auto intro: slots_kept_deliverable)
  from process_results_ok [OF wb, of s1 "queue_list (results s)"] s1 qr tok evs1 obtain s' where
    s': "process_results ucall s1 = Some s'"
    "calls s' = calls s1 @ map (\<lambda>r. the (event_call s1 r)) (queue_list (results s))"
    "queue_list (results s') = []" "queue_inv {} (results s')" "sem s' = Some 0" "dccbs s' = dccbs s1" by auto
  have "map (\<lambda>r. the (event_call s1 r)) (queue_list (results s))
      = map (\<lambda>r. the (event_call s r)) (queue_list (results s))"
    using evs s1(12) by (simp add: slots_kept_same)
  then show ?thesis
    using s1 s' queue_inv_empty_heap [of "dccbs s'"] queue_inv_empty_heap [of "results s'"]
    by (intro exI [of _ s'] exI [of _ as]) (simp add: process_events_def)
qed

text \<open>(C1) \<^verbatim>\<open>process_events\<close> returns and delivers everything that was queued, once and in order: first one
  call of the peer connection's channel closure per announced data channel, each with a freshly created
  channel object and the channel's label (\<^verbatim>\<open>"unnamed"\<close> if it has none), then one call per queued event
  with the closure and the arguments it was queued with.  Afterwards both queues are empty, every node
  is freed and the semaphore is zero.
\<close>

theorem process_events_delivers:
  assumes wb: "well_behaved ucall" and mx: "mutex s" and gc: "gc_wf s"
    and qd: "queue_inv {} (dccbs s)" and qr: "queue_inv {} (results s)"
    and tok: "sem s = Some (length (queue_list (results s)))"
    and chans: "\<forall>e \<in> set (queue_list (dccbs s)). channel_call label s e 0 \<noteq> None"
    and evs: "\<forall>r \<in> set (queue_list (results s)). deliverable s r"
  shows "\<exists>s' as. process_events ucall label s = Some s'
    \<and> length as = length (queue_list (dccbs s)) \<and> sorted_wrt (<) as \<and> (\<forall>a \<in> set as. gcbrk s \<le> a)
    \<and> calls s' = calls s @ map2 (\<lambda>e a. the (channel_call label s e a)) (queue_list (dccbs s)) as
        @ map (\<lambda>r. the (event_call s r)) (queue_list (results s))
    \<and> heap (dccbs s') = Map.empty \<and> heap (results s') = Map.empty \<and> sem s' = Some 0"
  using assms by (rule process_events_ok)

text \<open>A concrete run: a peer connection with all closures set, an announced channel and a queued
  state change; the channel handler installs callbacks on the object it receives, as the Haxe class does.\<close>

definition demo_handler :: "closure \<Rightarrow> vdynamic list \<Rightarrow> hl_state \<Rightarrow> hl_state" where
  "demo_handler f args s =
     (case args of
        [VPtr a, VBytes _] \<Rightarrow>
          (case set_datachannel_callbacks a (Some 20) (Some 21) (Some 22) (Some 23) (Some 24) s of
             Some s' \<Rightarrow> s' | None \<Rightarrow> s)
      | _ \<Rightarrow> s)"

definition demo_state :: hl_state where
  "demo_state =
     hl_init\<lparr>mutex := True, sem := Some 1, dcsem := Some 0, gcbrk := 1,
       pcs := [0 \<mapsto> \<lparr>pc_id = 5, descCb = Some 10, candidateCb = Some 11, stateCb = Some 12,
                     gatheringStateCb = Some 13, datachannelCb = Some 14\<rparr>],
       dccbs := \<lparr>heap = [0 \<mapsto> \<lparr>nval = \<lparr>dcb_dc = 7, dcb_pc = 0\<rparr>, nnext = None\<rparr>],
                 qhead = Some 0, qend = Some 0, brk = 1\<rparr>,
       results := \<lparr>heap = [0 \<mapsto> \<lparr>nval = \<lparr>cr_closure = Some (PcSlot 0 StateCb), cr_arg1 = VI32 2,
                     cr_arg2 = VUninit, cr_args = 1, cr_arg1Size = 0, cr_arg2Size = 0,
                     callback_name = ''onStateChange''\<rparr>, nnext = None\<rparr>],
                   qhead = Some 0, qend = Some 0, brk = 1\<rparr>\<rparr>"

lemma set_datachannel_callbacks_frame:
  assumes "set_datachannel_callbacks a c1 c2 c3 c4 c5 s = Some s'"
  shows "results s' = results s" "dccbs s' = dccbs s" "mutex s' = mutex s" "sem s' = sem s" "calls s' = calls s"
    "gcbrk s' = gcbrk s" "pcs s' = pcs s" "b \<noteq> a \<Longrightarrow> dcs s' b = dcs s b" "dom (dcs s') = dom (dcs s)"
  using assms by (auto simp: set_datachannel_callbacks_def split: bind_splits if_splits)

lemma demo_handler_ok: "well_behaved demo_handler"
  unfolding well_behaved_def Let_def
proof (intro allI)
  fix f args and s :: hl_state
  have "demo_handler f args s = s \<or> (\<exists>a b s'. args = [VPtr a, VBytes b] \<and> demo_handler f args s = s'
      \<and> set_datachannel_callbacks a (Some 20) (Some 21) (Some 22) (Some 23) (Some 24) s = Some s')"
    by (auto simp: demo_handler_def split: list.splits vdynamic.splits option.splits)
  then show "results (demo_handler f args s) = results s \<and> dccbs (demo_handler f args s) = dccbs s
     \<and> mutex (demo_handler f args s) = mutex s \<and> sem (demo_handler f args s) = sem s
     \<and> calls (demo_handler f args s) = calls s
     \<and> (gc_wf s \<longrightarrow> gc_wf (demo_handler f args s) \<and> gcbrk s \<le> gcbrk (demo_handler f args s))
     \<and> (\<forall>sl c. read_slot sl s = Some c \<longrightarrow> (\<forall>a d. sl = DcSlot a d \<longrightarrow> VPtr a \<notin> set args)
          \<longrightarrow> read_slot sl (demo_handler f args s) = Some c)"
  proof (elim disjE exE conjE)
    fix a b s'
    assume e: "args = [VPtr a, VBytes b]" "demo_handler f args s = s'"
      "set_datachannel_callbacks a (Some 20) (Some 21) (Some 22) (Some 23) (Some 24) s = Some s'"
    note fr = set_datachannel_callbacks_frame [OF e(3)]
    show ?thesis using e fr by (auto simp: gc_wf_def read_slot_def split: slot.splits)
  qed simp
qed

lemma demo_queue:
  "queue_inv {} (dccbs demo_state)" "queue_inv {} (results demo_state)"
  by (auto simp: queue_inv_def queue_repr_def demo_state_def intro!: exI [of _ "[0]"])

theorem process_events_delivers_witness:
  "\<exists>s'. process_events demo_handler (\<lambda>_. (-1, [])) demo_state = Some s'
     \<and> (\<exists>a. calls s' = [(14, [VPtr a, VBytes unnamed]), (12, [VI32 2])]) \<and> sem s' = Some 0"
proof -
  have l: "queue_list (dccbs demo_state) = [\<lparr>dcb_dc = 7, dcb_pc = 0\<rparr>]"
    "queue_list (results demo_state) = [\<lparr>cr_closure = Some (PcSlot 0 StateCb), cr_arg1 = VI32 2,
       cr_arg2 = VUninit, cr_args = 1, cr_arg1Size = 0, cr_arg2Size = 0, callback_name = ''onStateChange''\<rparr>]"
    by (simp_all add: queue_list_def demo_state_def)
  have s: "mutex demo_state" "gc_wf demo_state" "sem demo_state = Some 1" "calls demo_state = []"
    by (auto simp: demo_state_def gc_wf_def hl_init_def split: if_splits)
  have c: "channel_call (\<lambda>_. (-1, [])) demo_state \<lparr>dcb_dc = 7, dcb_pc = 0\<rparr> a = Some (14, [VPtr a, VBytes unnamed])" for a
    by (simp add: channel_call_def read_slot_def demo_state_def)
  have e: "event_call demo_state \<lparr>cr_closure = Some (PcSlot 0 StateCb), cr_arg1 = VI32 2,
       cr_arg2 = VUninit, cr_args = 1, cr_arg1Size = 0, cr_arg2Size = 0, callback_name = ''onStateChange''\<rparr>
      = Some (12, [VI32 2])"
    by (simp add: event_call_def read_slot_def demo_state_def gc_copy_def)
  have h: "sem demo_state = Some (length (queue_list (results demo_state)))"
    "\<forall>e \<in> set (queue_list (dccbs demo_state)). channel_call (\<lambda>_. (-1, [])) demo_state e 0 \<noteq> None"
    "\<forall>r \<in> set (queue_list (results demo_state)). deliverable demo_state r"
    using l s c e by (simp_all add: deliverable_def)
  from process_events_delivers [OF demo_handler_ok s(1,2) demo_queue h]
  obtain s' as where p: "process_events demo_handler (\<lambda>_. (-1, [])) demo_state = Some s'"
    "length as = 1" "calls s' = calls demo_state
        @ map2 (\<lambda>e a. the (channel_call (\<lambda>_. (-1, [])) demo_state e a)) (queue_list (dccbs demo_state)) as
        @ map (\<lambda>r. the (event_call demo_state r)) (queue_list (results demo_state))" "sem s' = Some 0"
    using l by auto
  then obtain a where "as = [a]" by (auto simp: length_Suc_conv)
  with p l c e s show ?thesis by auto
qed

text \<open>(C5) A message that arrives while nothing else goes on, whatever was queued before it, is handed to the
  channel's message closure by the next \<^verbatim>\<open>process_events\<close>, as one call, after all that was queued
  before: a binary message of \<open>n\<close> bytes as exactly those bytes and the length \<open>n\<close>; a text message (negative
  size) as its bytes followed by the terminating zero, with that zero counted in the length.
\<close>

theorem message_delivery:
  assumes wb: "well_behaved ucall" and s: "mutex s" "gc_wf s" "queue_inv {} (dccbs s)" "queue_inv {} (results s)"
    "sem s = Some (length (queue_list (results s)))"
    and chans: "\<forall>e \<in> set (queue_list (dccbs s)). channel_call label s e 0 \<noteq> None"
    and evs: "\<forall>r \<in> set (queue_list (results s)). deliverable s r"
    and ob: "dcs s a = Some ob" "msgCb ob = Some f" and n: "nat n \<le> length m"
  shows "\<exists>s1 s2 cs. messageCallback u m n a s = Some s1 \<and> process_events ucall label s1 = Some s2
    \<and> length cs = length (queue_list (dccbs s)) + length (queue_list (results s))
    \<and> calls s2 = calls s @ cs @ [(f, if n < 0 then [VBytes (m @ [0]), VI32 (int (length m) + 1)]
                                     else [VBytes (take (nat n) m), VI32 n])]"
proof -
  let ?g = "\<lambda>r. if n < 0
      then r\<lparr>cr_arg1 := VBytes (m @ [0]), cr_arg1Size := int (length m) + 1,
             cr_arg2 := VI32 (int (length m) + 1), cr_closure := Some (DcSlot a MsgCb),
             cr_args := 2, callback_name := ''onMessage''\<rparr>
      else r\<lparr>cr_arg1 := VBytes (take (nat n) m), cr_arg1Size := n, cr_arg2 := VI32 n,
             cr_closure := Some (DcSlot a MsgCb), cr_args := 2, callback_name := ''onMessage''\<rparr>"
  let ?r = "?g (nval u)" and ?k = "Suc (length (queue_list (results s)))"
  let ?args = "if n < 0 then [VBytes (m @ [0]), VI32 (int (length m) + 1)] else [VBytes (take (nat n) m), VI32 n]"
  have m: "messageCallback u m n a s = post_result u ?g s"
    using n by (simp add: messageCallback_def)
  from post_result_ok [OF s(1,4,5), of u ?g] obtain q where
    q: "post_result u ?g s = Some (s\<lparr>results := q, sem := Some ?k\<rparr>)" "queue_inv {} q"
    "queue_list q = queue_list (results s) @ [?r]" by blast
  let ?s1 = "s\<lparr>results := q, sem := Some ?k\<rparr>"
  have ev: "event_call ?s1 ?r = Some (f, ?args)"
    using ob n by (simp add: event_call_def read_slot_def gc_copy_def nat_add_distrib)
  have evs1: "\<forall>r \<in> set (queue_list (results ?s1)). deliverable ?s1 r"
    using evs q(3) ev by (auto simp: deliverable_def)
  have chans1: "\<forall>e \<in> set (queue_list (dccbs ?s1)). channel_call label ?s1 e 0 \<noteq> None"
    using chans by (simp add: channel_call_def)
  have pre: "mutex ?s1" "gc_wf ?s1" "queue_inv {} (dccbs ?s1)" "queue_inv {} (results ?s1)"
    "sem ?s1 = Some (length (queue_list (results ?s1)))"
    using s q by simp_all
  from process_events_ok [OF wb pre chans1 evs1] obtain s2 as where
    s2: "process_events ucall label ?s1 = Some s2" "length as = length (queue_list (dccbs s))"
    "calls s2 = calls s @ map2 (\<lambda>e a. the (channel_call label ?s1 e a)) (queue_list (dccbs s)) as
       @ map (\<lambda>r. the (event_call ?s1 r)) (queue_list (results s) @ [?r])"
    using q(3) by auto
  let ?cs = "map2 (\<lambda>e a. the (channel_call label ?s1 e a)) (queue_list (dccbs s)) as
    @ map (\<lambda>r. the (event_call ?s1 r)) (queue_list (results s))"
  have "calls s2 = calls s @ ?cs @ [(f, ?args)]"
    using s2(3) ev by simp
  moreover have "length ?cs = length (queue_list (dccbs s)) + length (queue_list (results s))"
    using s2(2) by simp
  moreover have "messageCallback u m n a s = Some ?s1" using m q(1) by (rule trans)
  ultimately show ?thesis using s2(1) by (intro exI conjI)
qed

theorem message_delivery_witness:
  "\<exists>s1 s2 c d. messageCallback undefined [104, 105] (-1) 1
        (demo_state\<lparr>gcbrk := 2,
          dcs := [1 \<mapsto> \<lparr>dc_id = 1, openCb = None, closedCb = None, errCb = None, msgCb = Some 4,
                        bufferLowCb = None\<rparr>]\<rparr>) = Some s1
     \<and> process_events demo_handler (\<lambda>_. (-1, [])) s1 = Some s2
     \<and> calls s2 = [c, d, (4, [VBytes [104, 105, 0], VI32 3])]"
proof -
  let ?ob = "\<lparr>dc_id = 1, openCb = None, closedCb = None, errCb = None, msgCb = Some 4, bufferLowCb = None\<rparr>"
  let ?s = "demo_state\<lparr>gcbrk := 2, dcs := [1 \<mapsto> ?ob]\<rparr>"
  have l: "queue_list (dccbs ?s) = [\<lparr>dcb_dc = 7, dcb_pc = 0\<rparr>]"
    "queue_list (results ?s) = [\<lparr>cr_closure = Some (PcSlot 0 StateCb), cr_arg1 = VI32 2,
       cr_arg2 = VUninit, cr_args = 1, cr_arg1Size = 0, cr_arg2Size = 0, callback_name = ''onStateChange''\<rparr>]"
    by (simp_all add: queue_list_def demo_state_def)
  have h: "mutex ?s" "gc_wf ?s" "queue_inv {} (dccbs ?s)" "queue_inv {} (results ?s)"
    "sem ?s = Some (length (queue_list (results ?s)))"
    "\<forall>e \<in> set (queue_list (dccbs ?s)). channel_call (\<lambda>_. (-1, [])) ?s e 0 \<noteq> None"
    "\<forall>r \<in> set (queue_list (results ?s)). deliverable ?s r"
    "dcs ?s 1 = Some ?ob" "msgCb ?ob = Some 4" "calls ?s = []"
    unfolding l using demo_queue
    by (auto simp: demo_state_def gc_wf_def hl_init_def channel_call_def read_slot_def deliverable_def
        event_call_def gc_copy_def split: if_splits)
  from message_delivery [OF demo_handler_ok h(1-9), of "-1" "[104, 105]" undefined] h(10) l obtain s1 s2 cs where
    r: "messageCallback undefined [104, 105] (-1) 1 ?s = Some s1"
    "process_events demo_handler (\<lambda>_. (-1, [])) s1 = Some s2" "length cs = Suc (Suc 0)"
    "calls s2 = cs @ [(4, [VBytes [104, 105, 0], VI32 3])]" by auto
  then obtain c d where "cs = [c, d]" by (auto simp: length_Suc_conv)
  with r show ?thesis by auto
qed

text \<open>(C3) Both event queues of the extension are FIFO queues: any sequence of producer and consumer
  operations on the pointer structure, started empty and whatever \<^verbatim>\<open>malloc\<close> leaves in each new block
  (with each push in \<open>ops\<close>), runs without touching an invalid pointer and returns exactly what a list
  would, appended at its end and consumed from its front; the live nodes are then those of the chain.
\<close>

theorem event_queue_fifo:
  "\<exists>q'. run_ops queue_push queue_pop ops lqueue_init = Some (fst (fifo_ops ops []), q')
     \<and> queue_list q' = snd (fifo_ops ops []) \<and> queue_inv {} q'"
  using linked.run_refines [of "{}" lqueue_init ops] by auto

end
