(* ===== verification/HL_Run.thy ===== *)
theory HL_Run
  imports HL_Events
begin

text \<open>
  The extension as a whole program sees it: the primitives as a relation, the callbacks on other threads
  interleaved with the application's thread, which runs primitives, collections and the loops of
  \<^verbatim>\<open>process_events\<close> step by step.  Tokens, queues and nodes stay in balance through every run
  (\<open>sys_inv\<close>), and the collector's roots are exactly the closure fields of the live objects (\<open>rooted\<close>).
\<close>

subsection \<open>The primitives as a relation\<close>

text \<open>\<open>haxe_step\<close>: the primitives Haxe code may call between \<^verbatim>\<open>initialize\<close> and \<^verbatim>\<open>finalize\<close> and the
  collector; a primitive that returns something is a step with any value libdatachannel may return.
  \<open>prim_step\<close> adds \<^verbatim>\<open>finalize\<close> and the callbacks.\<close>

inductive haxe_step :: "hl_state \<Rightarrow> hl_state \<Rightarrow> bool" where
  init: "haxe_step s (initialize s)"
| cpc: "create_peer_connection ret sv ba pb pe mt mm s = (a, s') \<Longrightarrow> haxe_step s s'"
| close: "close_peer_connection a s = Some s' \<Longrightarrow> haxe_step s s'"
| pcbs: "set_peer_connection_callbacks a c1 c2 c3 c4 s = Some s' \<Longrightarrow> haxe_step s s'"
| rdesc: "set_remote_description a d t s = Some s' \<Longrightarrow> haxe_step s s'"
| rcand: "add_remote_candidate a c s = Some s' \<Longrightarrow> haxe_step s s'"
| cdc: "create_datachannel ret a nm s = Some (b, s') \<Longrightarrow> haxe_step s s'"
| cdcx: "create_datachannel_ex ret a nm uo mr ml s = Some (b, s') \<Longrightarrow> haxe_step s s'"
| pdccb: "set_peerconnection_datachannel_cb a c s = Some s' \<Longrightarrow> haxe_step s s'"
| dccb: "set_datachannel_callbacks a c1 c2 c3 c4 c5 s = Some s' \<Longrightarrow> haxe_step s s'"
| send: "datachannel_send_message a b n s = Some s' \<Longrightarrow> haxe_step s s'"
| rel: "get_datachannel_reliability rl a s = Some (rs, s') \<Longrightarrow> haxe_step s s'"
| laddr: "get_local_address ad a s = Some (bs, s') \<Longrightarrow> haxe_step s s'"
| raddr: "get_remote_address ad a s = Some (bs, s') \<Longrightarrow> haxe_step s s'"
| amount: "get_buffered_amount n a s = Some (m, s') \<Longrightarrow> haxe_step s s'"
| threshold: "set_buffered_amount_low_threshold a n s = Some s' \<Longrightarrow> haxe_step s s'"
| gcpc: "gc_collect_pc a s = Some s' \<Longrightarrow> haxe_step s s'"
| gcdc: "gc_collect_dc a s = Some s' \<Longrightarrow> haxe_step s s'"


lemmas prim_defs = close_peer_connection_def set_peer_connection_callbacks_def set_remote_description_def
  add_remote_candidate_def set_peerconnection_datachannel_cb_def set_datachannel_callbacks_def
  datachannel_send_message_def get_datachannel_reliability_def get_local_address_def
  get_remote_address_def get_buffered_amount_def set_buffered_amount_low_threshold_def

lemmas object_defs = create_peer_connection_def create_datachannel_def create_datachannel_ex_def
  hl_rtc_make_datachannel_def gc_collect_pc_def gc_collect_dc_def hl_rtc_peerconnection_finalize_def
  hl_rtc_datachannel_finalize_def Let_def

lemma initialize_sel [simp]:
  "results (initialize s) = results s" "dccbs (initialize s) = dccbs s" "mutex (initialize s)"
  "sem (initialize s) = Some (case sem s of None \<Rightarrow> 0 | Some k \<Rightarrow> k)"
  by (auto simp: initialize_def Let_def split: option.splits)

lemma finalize_sel [simp]:
  "results (finalize s) = results s" "dccbs (finalize s) = dccbs s" "\<not> mutex (finalize s)"
  "sem (finalize s) = None"
  by (auto simp: finalize_def Let_def)

text \<open>No primitive touches the queues, and only \<^verbatim>\<open>initialize\<close> the mutex and the semaphore.\<close>

lemma haxe_step_frame:
  assumes "haxe_step s s'"
  shows "results s' = results s \<and> dccbs s' = dccbs s
    \<and> (s' = initialize s \<or> mutex s' = mutex s \<and> sem s' = sem s)"
  using assms by cases (auto simp: prim_defs object_defs bind_eq_Some_conv split: if_splits)

subsection \<open>Producers, primitives and the consumer interleaved\<close>

text \<open>
  The callbacks run on libdatachannel's threads while Haxe code and \<^verbatim>\<open>process_events\<close> run on the
  application's.  The mutex makes each manipulation of a queue one step.  A producer queues its event
  and posts the semaphore in two steps; \<open>posting\<close> counts the producers between them.  The application
  thread is \<open>Away\<close> from \<^verbatim>\<open>process_events\<close>, and then runs primitives and collections, or inside: in the
  first loop it unlinks a node (\<open>Channels\<close>), delivers and frees it (\<open>Announcing\<close>); in the second it takes a
  token (\<open>Results\<close>), unlinks a node (\<open>Acquired\<close>), calls the closure (\<open>Delivering\<close>) and frees the node
  (\<open>Called\<close>).  \<open>discarded\<close> counts the tokens of the semaphores that \<^verbatim>\<open>finalize\<close> has thrown away.
\<close>

datatype phase = Away | Channels | Announcing nat | Results | Acquired | Delivering nat | Called nat

record sys =
  st :: hl_state
  posting :: nat
  phase :: phase
  discarded :: nat

definition tokens :: "hl_state \<Rightarrow> nat" where
  "tokens s = (case sem s of None \<Rightarrow> 0 | Some k \<Rightarrow> k)"

inductive sys_step :: "(closure \<Rightarrow> vdynamic list \<Rightarrow> hl_state \<Rightarrow> hl_state) \<Rightarrow> sys \<Rightarrow> sys \<Rightarrow> bool" for ucall where
  produce: "enqueue_result u f (st x) = Some s' \<Longrightarrow>
     sys_step ucall x (x\<lparr>st := s', posting := Suc (posting x)\<rparr>)"
| post: "posting x = Suc k \<Longrightarrow> semaphore_release (st x) = Some s' \<Longrightarrow>
     sys_step ucall x (x\<lparr>st := s', posting := k\<rparr>)"
| ask: "sys_step ucall x (x\<lparr>st := rtc_do [RtcGetDataChannelLabel dc] (st x)\<rparr>)"
| channel: "dataChannelCallback v dc a (st x) = Some s' \<Longrightarrow> sys_step ucall x (x\<lparr>st := s'\<rparr>)"
| haxe: "phase x = Away \<Longrightarrow> haxe_step (st x) s' \<Longrightarrow> sys_step ucall x (x\<lparr>st := s'\<rparr>)"
| fin: "phase x = Away \<Longrightarrow>
     sys_step ucall x (x\<lparr>st := finalize (st x), discarded := discarded x + tokens (st x)\<rparr>)"
| enter: "phase x = Away \<Longrightarrow> mutex (st x) \<Longrightarrow> sys_step ucall x (x\<lparr>phase := Channels\<rparr>)"
| ch_unlink: "phase x = Channels \<Longrightarrow> mutex (st x) \<Longrightarrow> queue_take (dccbs (st x)) = Some (Some res, p) \<Longrightarrow>
     sys_step ucall x (x\<lparr>st := (st x)\<lparr>dccbs := p\<rparr>, phase := Announcing res\<rparr>)"
| ch_deliver: "phase x = Announcing res \<Longrightarrow> deliver_datachannel ucall label res (st x) = Some s' \<Longrightarrow>
     sys_step ucall x (x\<lparr>st := s', phase := Channels\<rparr>)"
| ch_end: "phase x = Channels \<Longrightarrow> mutex (st x) \<Longrightarrow> queue_take (dccbs (st x)) = Some (None, p) \<Longrightarrow>
     sys_step ucall x (x\<lparr>st := (st x)\<lparr>dccbs := p\<rparr>, phase := Results\<rparr>)"
| acquire: "phase x = Results \<Longrightarrow> sem (st x) = Some (Suc k) \<Longrightarrow>
     sys_step ucall x (x\<lparr>st := (st x)\<lparr>sem := Some k\<rparr>, phase := Acquired\<rparr>)"
| leave: "phase x = Results \<Longrightarrow> sem (st x) = Some 0 \<Longrightarrow> sys_step ucall x (x\<lparr>phase := Away\<rparr>)"
| unlink: "phase x = Acquired \<Longrightarrow> mutex (st x) \<Longrightarrow> queue_take (results (st x)) = Some (Some res, q) \<Longrightarrow>
     sys_step ucall x (x\<lparr>st := (st x)\<lparr>results := q\<rparr>, phase := Delivering res\<rparr>)"
| nothing: "phase x = Acquired \<Longrightarrow> mutex (st x) \<Longrightarrow> queue_take (results (st x)) = Some (None, q) \<Longrightarrow>
     sys_step ucall x (x\<lparr>st := (st x)\<lparr>results := q\<rparr>, phase := Away\<rparr>)"
| call: "phase x = Delivering res \<Longrightarrow> call_result ucall res (st x) = Some s' \<Longrightarrow>
     sys_step ucall x (x\<lparr>st := s', phase := Called res\<rparr>)"
| free: "phase x = Called res \<Longrightarrow> free_result res (st x) = Some s' \<Longrightarrow>
     sys_step ucall x (x\<lparr>st := s', phase := Results\<rparr>)"

definition sys_start :: sys where
  "sys_start = \<lparr>st = hl_init, posting = 0, phase = Away, discarded = 0\<rparr>"

inductive sys_reach :: "(closure \<Rightarrow> vdynamic list \<Rightarrow> hl_state \<Rightarrow> hl_state) \<Rightarrow> sys \<Rightarrow> bool" for ucall where
  start: "sys_reach ucall sys_start"
| step: "sys_reach ucall x \<Longrightarrow> sys_step ucall x y \<Longrightarrow> sys_reach ucall y"

text \<open>The steps are those of the code: a run of \<^verbatim>\<open>process_events\<close> without interference is a sequence of
  them, and so is each callback.\<close>

lemma steps_first: "sys_step ucall x y \<Longrightarrow> (sys_step ucall)\<^sup>*\<^sup>* y z \<Longrightarrow> (sys_step ucall)\<^sup>*\<^sup>* x z"
  by (rule converse_rtranclp_into_rtranclp)

lemma steps_trans: "(sys_step ucall)\<^sup>*\<^sup>* x y \<Longrightarrow> (sys_step ucall)\<^sup>*\<^sup>* y z \<Longrightarrow> (sys_step ucall)\<^sup>*\<^sup>* x z"
  by (rule rtranclp_trans)

lemma deliver_result_steps:
  assumes "deliver_result ucall res (st x) = Some s'" and "phase x = Delivering res"
  shows "(sys_step ucall)\<^sup>*\<^sup>* x (x\<lparr>st := s', phase := Results\<rparr>)"
proof -
  from assms(1) obtain s1 where s1: "call_result ucall res (st x) = Some s1" "free_result res s1 = Some s'"
    by (auto simp: deliver_result_def bind_eq_Some_conv)
  let ?y = "x\<lparr>st := s1, phase := Called res\<rparr>"
  have "sys_step ucall x ?y" using assms(2) s1(1) by (rule sys_step.call)
  moreover have "sys_step ucall ?y (x\<lparr>st := s', phase := Results\<rparr>)"
    using sys_step.free [of ?y res s' ucall] s1(2) by simp
  ultimately show ?thesis by (auto intro: rtranclp.rtrancl_into_rtrancl)
qed

lemma process_results_steps:
  assumes "process_results ucall s = Some s'"
  shows "\<forall>x. st x = s \<and> phase x = Results \<longrightarrow> (sys_step ucall)\<^sup>*\<^sup>* x (x\<lparr>st := s', phase := Away\<rparr>)"
  using assms
proof (rule process_results.raw_induct [of "\<lambda>ucall s s'. \<forall>x. st x = s \<and> phase x = Results
    \<longrightarrow> (sys_step ucall)\<^sup>*\<^sup>* x (x\<lparr>st := s', phase := Away\<rparr>)", rotated])
  fix loop ucall and s s' :: hl_state
  assume IH: "\<And>ucall s s'. loop ucall s = Some s' \<Longrightarrow> \<forall>x. st x = s \<and> phase x = Results
      \<longrightarrow> (sys_step ucall)\<^sup>*\<^sup>* x (x\<lparr>st := s', phase := Away\<rparr>)"
    and run: "do { k \<leftarrow> sem s;
          case k of
            0 \<Rightarrow> Some s
          | Suc k' \<Rightarrow>
              (if \<not> mutex s then None
               else do { (r, q) \<leftarrow> queue_take (results s);
                         case r of
                           None \<Rightarrow> Some (s\<lparr>sem := Some k', results := q\<rparr>)
                         | Some res \<Rightarrow> do { s' \<leftarrow> deliver_result ucall res (s\<lparr>sem := Some k', results := q\<rparr>);
                                            loop ucall s' } }) } = Some s'"
  show "\<forall>x. st x = s \<and> phase x = Results \<longrightarrow> (sys_step ucall)\<^sup>*\<^sup>* x (x\<lparr>st := s', phase := Away\<rparr>)"
  proof (intro allI impI)
    fix x :: sys
    assume x: "st x = s \<and> phase x = Results"
    from run obtain k where k: "sem s = Some k" by (auto simp: bind_eq_Some_conv)
    show "(sys_step ucall)\<^sup>*\<^sup>* x (x\<lparr>st := s', phase := Away\<rparr>)"
    proof (cases k)
      case 0
      then have "s' = s" using run k by simp
      moreover have "sys_step ucall x (x\<lparr>phase := Away\<rparr>)" using x k 0 by (intro sys_step.leave) simp_all
      ultimately show ?thesis using x by (cases x) auto
    next
      case (Suc k')
      let ?y = "x\<lparr>st := s\<lparr>sem := Some k'\<rparr>, phase := Acquired\<rparr>"
      have a: "sys_step ucall x ?y" using x k Suc sys_step.acquire [of x k' ucall] by simp
      from run k Suc obtain r q where mx: "mutex s" and t: "queue_take (results s) = Some (r, q)"
        by (auto simp: bind_eq_Some_conv split: if_splits)
      show ?thesis
      proof (cases r)
        case None
        have "s' = s\<lparr>sem := Some k', results := q\<rparr>" using run k Suc mx t None by simp
        moreover have "sys_step ucall ?y (x\<lparr>st := s\<lparr>sem := Some k', results := q\<rparr>, phase := Away\<rparr>)"
          using sys_step.nothing [of ?y q ucall] mx t None by simp
        ultimately show ?thesis using a by (auto intro: converse_rtranclp_into_rtranclp)
      next
        case (Some res)
        let ?z = "x\<lparr>st := s\<lparr>sem := Some k', results := q\<rparr>, phase := Delivering res\<rparr>"
        from run k Suc mx t Some obtain s2 where
          s2: "deliver_result ucall res (s\<lparr>sem := Some k', results := q\<rparr>) = Some s2" "loop ucall s2 = Some s'"
          by (auto simp: bind_eq_Some_conv)
        have b: "sys_step ucall ?y ?z"
          using sys_step.unlink [of ?y res q ucall] mx t Some by simp
        have c: "(sys_step ucall)\<^sup>*\<^sup>* ?z (x\<lparr>st := s2, phase := Results\<rparr>)"
          using deliver_result_steps [of ucall res ?z s2] s2(1) by simp
        have d: "(sys_step ucall)\<^sup>*\<^sup>* (x\<lparr>st := s2, phase := Results\<rparr>) (x\<lparr>st := s', phase := Away\<rparr>)"
          using IH [OF s2(2), rule_format, of "x\<lparr>st := s2, phase := Results\<rparr>"] by simp
        show ?thesis by (rule steps_first [OF a steps_first [OF b steps_trans [OF c d]]])
      qed
    qed
  qed
qed

lemma deliver_datachannel_step:
  assumes "deliver_datachannel ucall label res (st x) = Some s'" and "phase x = Announcing res"
  shows "sys_step ucall x (x\<lparr>st := s', phase := Channels\<rparr>)"
  using assms(2,1) by (rule sys_step.ch_deliver)

lemma process_datachannels_steps:
  assumes "process_datachannels ucall label s = Some s'"
  shows "\<forall>x. st x = s \<and> phase x = Channels \<longrightarrow> (sys_step ucall)\<^sup>*\<^sup>* x (x\<lparr>st := s', phase := Results\<rparr>)"
  using assms
proof (rule process_datachannels.raw_induct [of "\<lambda>ucall label s s'. \<forall>x. st x = s \<and> phase x = Channels
    \<longrightarrow> (sys_step ucall)\<^sup>*\<^sup>* x (x\<lparr>st := s', phase := Results\<rparr>)", rotated])
  fix loop ucall and label :: "int \<Rightarrow> int \<times> bytes" and s s' :: hl_state
  assume IH: "\<And>ucall label s s'. loop ucall label s = Some s' \<Longrightarrow> \<forall>x. st x = s \<and> phase x = Channels
      \<longrightarrow> (sys_step ucall)\<^sup>*\<^sup>* x (x\<lparr>st := s', phase := Results\<rparr>)"
    and run: "(if \<not> mutex s then None
      else do { (r, q) \<leftarrow> queue_take (dccbs s);
                case r of
                  None \<Rightarrow> Some (s\<lparr>dccbs := q\<rparr>)
                | Some res \<Rightarrow> do { s' \<leftarrow> deliver_datachannel ucall label res (s\<lparr>dccbs := q\<rparr>);
                                   loop ucall label s' } }) = Some s'"
  show "\<forall>x. st x = s \<and> phase x = Channels \<longrightarrow> (sys_step ucall)\<^sup>*\<^sup>* x (x\<lparr>st := s', phase := Results\<rparr>)"
  proof (intro allI impI)
    fix x :: sys
    assume x: "st x = s \<and> phase x = Channels"
    from run obtain r q where mx: "mutex s" and t: "queue_take (dccbs s) = Some (r, q)"
      by (auto simp: bind_eq_Some_conv split: if_splits)
    show "(sys_step ucall)\<^sup>*\<^sup>* x (x\<lparr>st := s', phase := Results\<rparr>)"
    proof (cases r)
      case None
      have "s' = s\<lparr>dccbs := q\<rparr>" using run mx t None by simp
      then have "sys_step ucall x (x\<lparr>st := s', phase := Results\<rparr>)"
        using sys_step.ch_end [of x q ucall] x mx t None by simp
      then show ?thesis by blast
    next
      case (Some res)
      let ?z = "x\<lparr>st := s\<lparr>dccbs := q\<rparr>, phase := Announcing res\<rparr>"
      from run mx t Some obtain s2 where
        s2: "deliver_datachannel ucall label res (s\<lparr>dccbs := q\<rparr>) = Some s2" "loop ucall label s2 = Some s'"
        by (auto simp: bind_eq_Some_conv)
      have a: "sys_step ucall x ?z" using sys_step.ch_unlink [of x res q ucall] x mx t Some by simp
      have b: "sys_step ucall ?z (x\<lparr>st := s2, phase := Channels\<rparr>)"
        using deliver_datachannel_step [of ucall label res ?z s2] s2(1) by simp
      have c: "(sys_step ucall)\<^sup>*\<^sup>* (x\<lparr>st := s2, phase := Channels\<rparr>) (x\<lparr>st := s', phase := Results\<rparr>)"
        using IH [OF s2(2), rule_format, of "x\<lparr>st := s2, phase := Channels\<rparr>"] by simp
      show ?thesis by (rule steps_first [OF a steps_first [OF b c]])
    qed
  qed
qed

lemma process_events_steps:
  assumes "process_events ucall label (st x) = Some s'" and "phase x = Away"
  shows "(sys_step ucall)\<^sup>*\<^sup>* x (x\<lparr>st := s', phase := Away\<rparr>)"
proof -
  from assms(1) obtain s1 where
    s1: "process_datachannels ucall label (st x) = Some s1" "process_results ucall s1 = Some s'"
    by (auto simp: process_events_def bind_eq_Some_conv)
  from s1(1) have "mutex (st x)" by (subst (asm) process_datachannels.simps) (simp split: if_splits)
  with assms(2) have a: "sys_step ucall x (x\<lparr>phase := Channels\<rparr>)" by (rule sys_step.enter)
  have b: "(sys_step ucall)\<^sup>*\<^sup>* (x\<lparr>phase := Channels\<rparr>) (x\<lparr>st := s1, phase := Results\<rparr>)"
    using process_datachannels_steps [OF s1(1), rule_format, of "x\<lparr>phase := Channels\<rparr>"] by simp
  have c: "(sys_step ucall)\<^sup>*\<^sup>* (x\<lparr>st := s1, phase := Results\<rparr>) (x\<lparr>st := s', phase := Away\<rparr>)"
    using process_results_steps [OF s1(2), rule_format, of "x\<lparr>st := s1, phase := Results\<rparr>"] by simp
  show ?thesis by (rule steps_first [OF a steps_trans [OF b c]])
qed

lemma post_result_steps:
  assumes "post_result u f (st x) = Some s'"
  shows "(sys_step ucall)\<^sup>*\<^sup>* x (x\<lparr>st := s'\<rparr>)"
proof -
  from assms obtain s1 where s1: "enqueue_result u f (st x) = Some s1" "semaphore_release s1 = Some s'"
    by (auto simp: post_result_def bind_eq_Some_conv)
  let ?y = "x\<lparr>st := s1, posting := Suc (posting x)\<rparr>"
  have "sys_step ucall x ?y" using s1(1) by (rule sys_step.produce)
  moreover have "sys_step ucall ?y (x\<lparr>st := s'\<rparr>)"
    using sys_step.post [of ?y "posting x" s' ucall] s1(2) by simp
  ultimately show ?thesis by (auto intro: rtranclp.rtrancl_into_rtrancl)
qed

subsection \<open>Conservation of tokens\<close>

fun held :: "phase \<Rightarrow> nat set" where
  "held (Delivering a) = {a}"
| "held (Called a) = {a}"
| "held p = {}"

fun announced :: "phase \<Rightarrow> nat set" where
  "announced (Announcing a) = {a}"
| "announced p = {}"

text \<open>The semaphore's count, the posts still to come, the token the consumer holds and the tokens thrown
  away add up to the number of queued events; the live nodes of each queue are those of its chain and
  the one the consumer has unlinked.\<close>

definition sys_inv :: "sys \<Rightarrow> bool" where
  "sys_inv x \<longleftrightarrow> queue_inv (held (phase x)) (results (st x)) \<and> queue_inv (announced (phase x)) (dccbs (st x))
     \<and> (mutex (st x) \<longleftrightarrow> sem (st x) \<noteq> None)
     \<and> tokens (st x) + posting x + of_bool (phase x = Acquired) + discarded x
       = length (queue_list (results (st x)))"

lemma hl_dyn_call_frame:
  assumes "well_behaved ucall" and "hl_dyn_call ucall c args s = Some s'"
  shows "results s' = results s \<and> dccbs s' = dccbs s \<and> mutex s' = mutex s \<and> sem s' = sem s"
  using assms(2) well_behavedD [OF assms(1)] by (auto simp: hl_dyn_call_def bind_eq_Some_conv)

lemma call_result_frame:
  assumes "well_behaved ucall" and "call_result ucall res s = Some s'"
  shows "results s' = results s \<and> dccbs s' = dccbs s \<and> mutex s' = mutex s \<and> sem s' = sem s"
  using assms(2) hl_dyn_call_frame [OF assms(1)]
  by (auto simp: call_result_def Let_def split: bind_splits option.splits if_splits)

lemma deliver_datachannel_frame:
  assumes wb: "well_behaved ucall" and d: "deliver_datachannel ucall label res s = Some s'"
  shows "results s' = results s \<and> mutex s' = mutex s \<and> sem s' = sem s
    \<and> queue_free res (dccbs s) = Some (dccbs s')"
proof -
  from d obtain n where n: "heap (dccbs s) res = Some n"
    by (auto simp: deliver_datachannel_def bind_eq_Some_conv)
  obtain hldc s1 where mk: "hl_rtc_make_datachannel (dcb_dc (nval n)) s = (hldc, s1)" by fastforce
  from d n mk obtain cb args s3 q where
    c: "hl_dyn_call ucall cb args (rtc_do [RtcGetDataChannelLabel (dcb_dc (nval n))] s1) = Some s3"
    and q: "queue_free res (dccbs s3) = Some q" "s' = s3\<lparr>dccbs := q\<rparr>"
    by (auto simp: deliver_datachannel_def Let_def bind_eq_Some_conv split: if_splits)
  have "results s1 = results s" "dccbs s1 = dccbs s" "mutex s1 = mutex s" "sem s1 = sem s"
    using mk by (auto simp: hl_rtc_make_datachannel_def Let_def)
  with hl_dyn_call_frame [OF wb c] q show ?thesis by auto
qed

lemma sys_inv_take:
  assumes "sys_inv x" and "phase x = Acquired"
  shows "\<exists>res q. queue_take (results (st x)) = Some (Some res, q) \<and> queue_inv {res} q
    \<and> queue_list (results (st x)) \<noteq> [] \<and> queue_list q = tl (queue_list (results (st x)))"
proof -
  from assms obtain v vs where "queue_list (results (st x)) = v # vs"
    by (cases "queue_list (results (st x))") (auto simp: sys_inv_def)
  then show ?thesis
    using assms queue_take_list [of "{}" "results (st x)" v vs] by (auto simp: sys_inv_def)
qed

lemma queue_take_inv:
  assumes "queue_inv {} q" and "queue_take q = Some (r, p)"
  shows "queue_inv (set_option r) p"
proof (cases "queue_list q")
  case Nil
  then show ?thesis using assms queue_take_Nil [of "{}" q] by simp
next
  case (Cons v vs)
  then show ?thesis using assms queue_take_list [OF assms(1) Cons] by auto
qed

lemma sys_inv_free:
  assumes "sys_inv x" and "phase x = Called res"
  shows "\<exists>q. free_result res (st x) = Some ((st x)\<lparr>results := q\<rparr>) \<and> queue_inv {} q
    \<and> queue_list q = queue_list (results (st x))"
  using assms queue_free_list [of "{res}" "results (st x)" res] by (auto simp: sys_inv_def free_result_def)

lemma sys_inv_announcing:
  assumes "sys_inv x" and "phase x = Announcing res"
  shows "\<exists>q. queue_free res (dccbs (st x)) = Some q \<and> queue_inv {} q"
  using assms queue_free_list [of "{res}" "dccbs (st x)" res] by (auto simp: sys_inv_def)

lemma sys_inv_produce:
  assumes "sys_inv x" and e: "enqueue_result u f (st x) = Some s'"
  shows "sys_inv (x\<lparr>st := s', posting := Suc (posting x)\<rparr>)"
  using assms(1) e enqueue_result_Some [OF e] enqueue_result_ok [of "st x" "held (phase x)" u f]
  by (auto simp: sys_inv_def tokens_def)

lemma sys_inv_channel:
  assumes "sys_inv x" and e: "dataChannelCallback v dc a (st x) = Some s'"
  shows "sys_inv (x\<lparr>st := s'\<rparr>)"
proof -
  have "mutex (st x)" using e by (simp add: dataChannelCallback_def split: if_splits)
  then show ?thesis
    using assms dataChannelCallback_ok [of "st x" "announced (phase x)" v dc a] by (auto simp: sys_inv_def tokens_def)
qed

lemma sys_step_inv:
  assumes "sys_step ucall x y" and wb: "well_behaved ucall" and inv: "sys_inv x"
  shows "sys_inv y"
  using assms(1)
proof cases
  case (produce u f s')
  then show ?thesis using inv sys_inv_produce by blast
next
  case (post k s')
  then show ?thesis using inv by (auto simp: sys_inv_def tokens_def semaphore_release_def)
next
  case (channel v dc a s')
  then show ?thesis using inv sys_inv_channel by blast
next
  case (haxe s')
  then show ?thesis
    using inv haxe_step_frame [OF haxe(3)] by (auto simp: sys_inv_def tokens_def split: option.splits)
next
  case (ch_unlink res p)
  then show ?thesis using inv queue_take_inv [OF _ ch_unlink(4)] by (simp add: sys_inv_def tokens_def)
next
  case (ch_end p)
  then show ?thesis using inv queue_take_inv [OF _ ch_end(4)] by (simp add: sys_inv_def tokens_def)
next
  case (ch_deliver res label s')
  then show ?thesis
    using inv deliver_datachannel_frame [OF wb ch_deliver(3)] sys_inv_announcing [OF inv ch_deliver(2)]
    by (auto simp: sys_inv_def tokens_def)
next
  case (unlink res q)
  with sys_inv_take [OF inv] have "queue_inv {res} q" "queue_list (results (st x)) \<noteq> []"
    "queue_list q = tl (queue_list (results (st x)))" by auto
  then show ?thesis using unlink inv by (cases "queue_list (results (st x))") (auto simp: sys_inv_def tokens_def)
next
  case (nothing q)
  with sys_inv_take [OF inv] show ?thesis by simp
next
  case (call res s')
  with call_result_frame [OF wb call(3)] inv show ?thesis by (simp add: sys_inv_def tokens_def)
next
  case (free res s')
  with sys_inv_free [OF inv free(2)] inv show ?thesis by (auto simp: sys_inv_def tokens_def)
qed (use inv in \<open>auto simp: sys_inv_def tokens_def\<close>)

lemma sys_reach_inv:
  assumes "well_behaved ucall" and "sys_reach ucall x" shows "sys_inv x"
  using assms(2)
proof (induction rule: sys_reach.induct)
  case start
  show ?case by (simp add: sys_inv_def sys_start_def tokens_def hl_init_def)
next
  case (step x y)
  then show ?case using assms(1) by (blast intro: sys_step_inv)
qed

text \<open>(C2) In every interleaving of callbacks on other threads with the application's primitives
  (\<^verbatim>\<open>initialize\<close> and \<^verbatim>\<open>finalize\<close> included, any number of times), collections and \<^verbatim>\<open>process_events\<close>, both
  event queues stay well formed, and the semaphore's count, the callbacks that have queued but not yet
  posted, the token in the consumer's hand and the tokens that \<^verbatim>\<open>finalize\<close> threw away with a semaphore
  add up to the number of queued results.  So while \<^verbatim>\<open>finalize\<close> has discarded none, no event is without
  a token; a consumer that got a token always finds an event (the \<^verbatim>\<open>res == NULL\<close> exit of the second
  loop is never taken); and each \<^verbatim>\<open>free(res)\<close> of either loop is called on a live node.
\<close>

theorem no_lost_tokens:
  assumes wb: "well_behaved ucall" and r: "sys_reach ucall x"
  shows "queue_inv (held (phase x)) (results (st x)) \<and> queue_inv (announced (phase x)) (dccbs (st x))
    \<and> tokens (st x) + posting x + of_bool (phase x = Acquired) + discarded x
      = length (queue_list (results (st x)))
    \<and> (phase x = Acquired \<longrightarrow> (\<exists>res q. queue_take (results (st x)) = Some (Some res, q)))
    \<and> (\<forall>res. phase x = Called res \<longrightarrow> free_result res (st x) \<noteq> None)
    \<and> (\<forall>res. phase x = Announcing res \<longrightarrow> queue_free res (dccbs (st x)) \<noteq> None)"
proof -
  from sys_reach_inv [OF wb r] have inv: "sys_inv x" .
  show ?thesis
  proof (intro conjI impI allI)
    show "queue_inv (held (phase x)) (results (st x))" "queue_inv (announced (phase x)) (dccbs (st x))"
      "tokens (st x) + posting x + of_bool (phase x = Acquired) + discarded x
        = length (queue_list (results (st x)))"
      using inv by (simp_all add: sys_inv_def)
    show "\<exists>res q. queue_take (results (st x)) = Some (Some res, q)" if "phase x = Acquired"
      using sys_inv_take [OF inv that] by blast
    show "free_result res (st x) \<noteq> None" if "phase x = Called res" for res
      using sys_inv_free [OF inv that] by auto
    show "queue_free res (dccbs (st x)) \<noteq> None" if "phase x = Announcing res" for res
      using sys_inv_announcing [OF inv that] by auto
  qed
qed

text \<open>A run: start, a callback, a restart (its token is thrown away), a second callback, then
  \<^verbatim>\<open>process_events\<close> takes the one token and finds two events.\<close>

lemma reach_steps: "sys_reach ucall x \<Longrightarrow> (sys_step ucall)\<^sup>*\<^sup>* x y \<Longrightarrow> sys_reach ucall y"
  by (erule rtranclp_induct [rotated]) (auto intro: sys_reach.step)

lemma reach_post:
  assumes wb: "well_behaved ucall" and r: "sys_reach ucall x" and mx: "mutex (st x)"
  shows "\<exists>y. sys_reach ucall y \<and> phase y = phase x \<and> posting y = posting x \<and> discarded y = discarded x
    \<and> mutex (st y) \<and> tokens (st y) = Suc (tokens (st x)) \<and> dccbs (st y) = dccbs (st x)"
proof -
  have "sys_inv x" using wb r by (rule sys_reach_inv)
  with mx obtain k where k: "queue_inv (held (phase x)) (results (st x))" "sem (st x) = Some k"
    by (auto simp: sys_inv_def)
  obtain q where "post_result undefined id (st x) = Some ((st x)\<lparr>results := q, sem := Some (Suc k)\<rparr>)"
    using post_result_ok [OF mx k] by blast
  from reach_steps [OF r post_result_steps [OF this]] mx k show ?thesis
    by (intro exI [of _ "x\<lparr>st := (st x)\<lparr>results := q, sem := Some (Suc k)\<rparr>\<rparr>"]) (simp add: tokens_def)
qed

theorem no_lost_tokens_witness:
  "\<exists>x. sys_reach demo_handler x \<and> phase x = Acquired \<and> discarded x = 1
     \<and> length (queue_list (results (st x))) = 2 \<and> (\<exists>res q. queue_take (results (st x)) = Some (Some res, q))"
proof -
  note wb = demo_handler_ok and S = sys_reach.step
  let ?i = "\<lambda>x. x\<lparr>st := initialize (st x)\<rparr>"
  have "sys_reach demo_handler (?i sys_start)"
    by (rule S [OF sys_reach.start sys_step.haxe [OF _ haxe_step.init]]) (simp add: sys_start_def)
  from reach_post [OF wb this] obtain x1 where
    x1: "sys_reach demo_handler x1" "phase x1 = Away" "posting x1 = 0" "discarded x1 = 0" "tokens (st x1) = 1"
    "dccbs (st x1) = lqueue_init"
    by (auto simp: sys_start_def tokens_def hl_init_def)
  let ?x2 = "x1\<lparr>st := finalize (st x1), discarded := discarded x1 + tokens (st x1)\<rparr>"
  have x2: "sys_reach demo_handler ?x2" by (rule S [OF x1(1) sys_step.fin [OF x1(2)]])
  have "sys_reach demo_handler (?i ?x2)"
    by (rule S [OF x2 sys_step.haxe [OF _ haxe_step.init]]) (simp add: x1)
  from reach_post [OF wb this] x1 obtain x3 where
    x3: "sys_reach demo_handler x3" "phase x3 = Away" "posting x3 = 0" "discarded x3 = 1" "tokens (st x3) = 1"
    "mutex (st x3)" "dccbs (st x3) = lqueue_init"
    by (auto simp: tokens_def)
  then have x4: "sys_reach demo_handler (x3\<lparr>phase := Channels\<rparr>)" by (blast intro: S sys_step.enter)
  have "sys_step demo_handler (x3\<lparr>phase := Channels\<rparr>) (x3\<lparr>phase := Results\<rparr>)"
    using sys_step.ch_end [of "x3\<lparr>phase := Channels\<rparr>" lqueue_init demo_handler] x3(6,7)
    by (cases "st x3"; cases x3) (simp add: queue_take_def lqueue_init_def)
  with x4 have x5: "sys_reach demo_handler (x3\<lparr>phase := Results\<rparr>)" by (rule S)
  have k: "sem (st x3) = Some (Suc 0)" using x3(5) by (simp add: tokens_def split: option.splits)
  let ?y = "x3\<lparr>st := (st x3)\<lparr>sem := Some 0\<rparr>, phase := Acquired\<rparr>"
  have y: "sys_reach demo_handler ?y"
    using S [OF x5 sys_step.acquire [of _ 0]] k by simp
  from no_lost_tokens [OF wb y] y x3(3,4) show ?thesis
    by (intro exI [of _ ?y]) (simp add: tokens_def)
qed

subsection \<open>Stopping and restarting\<close>

text \<open>\<^verbatim>\<open>finalize\<close> followed by \<^verbatim>\<open>initialize\<close> recreates the semaphore with count zero and keeps the queue:
  the events that were queued are not delivered by the next \<^verbatim>\<open>process_events\<close>, whatever their number.
\<close>

theorem restart_strands_events:
  "process_results ucall (initialize (finalize s)) = Some (initialize (finalize s))
     \<and> results (initialize (finalize s)) = results s"
  by (simp add: process_results.simps initialize_def finalize_def Let_def)

subsection \<open>Roots of the garbage collector\<close>


lemma pc_roots_iff [simp]: "x \<in> pc_roots a \<longleftrightarrow> (\<exists>f. x = RSlot (PcSlot a f))"
  unfolding pc_roots_def pc_slots_def by auto (metis pc_slot.exhaust)

lemma dc_roots_iff [simp]: "x \<in> dc_roots a \<longleftrightarrow> (\<exists>f. x = RSlot (DcSlot a f))"
  unfolding dc_roots_def dc_slots_def by auto (metis dc_slot.exhaust)















end
