(* ===== verification/Const_Time.thy ===== *)
theory Const_Time
  imports Prelude
begin

text \<open>
  \<^verbatim>\<open>libjuice/src/const_time.c\<close>: comparisons that look at every byte whatever they find, used for message
  authentication codes.  A read past the end of an argument is \<open>None\<close>.
\<close>

fun memcmp_acc :: "byte \<Rightarrow> bytes \<Rightarrow> bytes \<Rightarrow> nat \<Rightarrow> byte option" where
  "memcmp_acc x ca cb 0 = Some x"
| "memcmp_acc x (a # ca) (b # cb) (Suc n) = memcmp_acc (x OR (a XOR b)) ca cb n"
| "memcmp_acc x ca cb (Suc n) = None"

definition const_time_memcmp :: "bytes \<Rightarrow> bytes \<Rightarrow> nat \<Rightarrow> byte option" where
  "const_time_memcmp a b len = memcmp_acc 0 a b len"

fun strcmp_acc :: "byte \<Rightarrow> bytes \<Rightarrow> bytes \<Rightarrow> byte option" where
  "strcmp_acc x (a # ca) (b # cb) =
     (let x' = x OR (a XOR b) in if a = 0 \<or> b = 0 then Some x' else strcmp_acc x' ca cb)"
| "strcmp_acc x ca cb = None"

definition const_time_strcmp :: "bytes \<Rightarrow> bytes \<Rightarrow> byte option" where
  "const_time_strcmp a b = strcmp_acc 0 a b"

lemma or_eq_0: "x OR y = 0 \<longleftrightarrow> x = 0 \<and> y = 0" for x y :: "'a::len word"
  by (metis or_eq_0_iff)

lemma xor_eq_0: "x XOR y = 0 \<longleftrightarrow> x = y" for x y :: "'a::len word"
  by (metis xor.right_neutral xor_self_eq xor.assoc)

lemma memcmp_acc_eq:
  "n \<le> length a \<Longrightarrow> n \<le> length b \<Longrightarrow>
     \<exists>r. memcmp_acc x a b n = Some r \<and> (r = 0 \<longleftrightarrow> x = 0 \<and> take n a = take n b)"
proof (induction x a b n rule: memcmp_acc.induct)
  case (2 x a ca b cb n)
  then show ?case by (auto simp: or_eq_0 xor_eq_0)
qed auto

text \<open>The constant-time comparison is exact: on buffers of at least \<open>n\<close> bytes it returns zero if and
  only if the first \<open>n\<close> bytes agree, so a forged authentication code is never accepted and a correct one
  never refused by the comparison.
\<close>

theorem const_time_memcmp_exact:
  assumes "n \<le> length a" and "n \<le> length b"
  shows "\<exists>r. const_time_memcmp a b n = Some r \<and> (r = 0 \<longleftrightarrow> take n a = take n b)"
  using memcmp_acc_eq [OF assms, of 0] by (simp add: const_time_memcmp_def)

theorem const_time_memcmp_exact_witness:
  "\<exists>r. const_time_memcmp [1, 2, 3] [1, 2, 4] 3 = Some r \<and> r \<noteq> 0"
  using const_time_memcmp_exact [of 3 "[1, 2, 3]" "[1, 2, 4]"] by auto

lemma strcmp_acc_eq:
  "0 \<notin> set a \<Longrightarrow> 0 \<notin> set b \<Longrightarrow>
     \<exists>r. strcmp_acc x (a @ [0]) (b @ [0]) = Some r \<and> (r = 0 \<longleftrightarrow> x = 0 \<and> a = b)"
proof (induction a arbitrary: b x)
  case Nil
  then show ?case by (cases b) (auto simp: or_eq_0 xor_eq_0 Let_def)
next
  case IH: (Cons c a)
  show ?case
  proof (cases b)
    case Nil
    with IH.prems show ?thesis by (auto simp: or_eq_0 xor_eq_0 Let_def)
  next
    case (Cons d b')
    with IH.prems IH.IH [of b' "x OR (c XOR d)"] show ?thesis by (auto simp: or_eq_0 xor_eq_0 Let_def)
  qed
qed

lemma const_time_strcmp_exact:
  assumes "0 \<notin> set a" and "0 \<notin> set b"
  shows "\<exists>r. const_time_strcmp (a @ [0]) (b @ [0]) = Some r \<and> (r = 0 \<longleftrightarrow> a = b)"
  using strcmp_acc_eq [OF assms, of 0] by (simp add: const_time_strcmp_def)

end
