(* ===== verification/Addr.thy ===== *)
theory Addr
  imports Prelude
begin

text \<open>
  \<^verbatim>\<open>libjuice/src/addr.c\<close>: socket addresses.  A \<^verbatim>\<open>sockaddr\<close> is an IPv4 or IPv6 socket address or one of
  another family.  The port is the raw field of the structure, in network byte order, and addresses
  are the bytes in memory.  \<^verbatim>\<open>sin_zero\<close>, which nothing reads, is left out.

  The resolver is outside: what \<^verbatim>\<open>getaddrinfo\<close> and \<^verbatim>\<open>getnameinfo\<close> answer are parameters.  The contract
  between comparison and hashing that the hash tables of \<^verbatim>\<open>turn.c\<close> rely on is the locale \<open>hashed_key\<close>.
\<close>

datatype sockaddr =
    Sin (sin_port: u16) (sin_addr: bytes)
  | Sin6 (sin6_port: u16) (sin6_flowinfo: u32) (sin6_addr: bytes) (sin6_scope_id: u32)
  | SaOther u16

definition AF_INET :: u16 where "AF_INET = 2"
definition AF_INET6 :: u16 where "AF_INET6 = 10"

definition sa_family :: "sockaddr \<Rightarrow> u16" where
  "sa_family sa = (case sa of Sin _ _ \<Rightarrow> AF_INET | Sin6 _ _ _ _ \<Rightarrow> AF_INET6 | SaOther f \<Rightarrow> f)"

text \<open>The sizes of the address fields, and that the third constructor is for other families.\<close>

definition addr_wf :: "sockaddr \<Rightarrow> bool" where
  "addr_wf sa = (case sa of Sin _ a \<Rightarrow> length a = 4 | Sin6 _ _ a _ \<Rightarrow> length a = 16
     | SaOther f \<Rightarrow> f \<noteq> AF_INET \<and> f \<noteq> AF_INET6)"

definition sizeof_sockaddr_in :: nat where "sizeof_sockaddr_in = 16"
definition sizeof_sockaddr_in6 :: nat where "sizeof_sockaddr_in6 = 28"

fun addr_get_len :: "sockaddr \<Rightarrow> nat" where
  "addr_get_len (Sin _ _) = sizeof_sockaddr_in"
| "addr_get_len (Sin6 _ _ _ _) = sizeof_sockaddr_in6"
| "addr_get_len (SaOther _) = 0"

fun addr_get_port :: "sockaddr \<Rightarrow> u16" where
  "addr_get_port (Sin p _) = htons p"
| "addr_get_port (Sin6 p _ _ _) = htons p"
| "addr_get_port (SaOther _) = 0"

fun addr_set_port :: "sockaddr \<Rightarrow> u16 \<Rightarrow> int \<times> sockaddr" where
  "addr_set_port (Sin _ a) port = (0, Sin (htons port) a)"
| "addr_set_port (Sin6 _ f a s) port = (0, Sin6 (htons port) f a s)"
| "addr_set_port (SaOther f) port = (-1, SaOther f)"

definition in6_is_addr_v4mapped :: "bytes \<Rightarrow> bool" where
  "in6_is_addr_v4mapped a \<longleftrightarrow> take 12 a = replicate 10 0 @ [0xFF, 0xFF]"

definition in6_is_addr_loopback :: "bytes \<Rightarrow> bool" where
  "in6_is_addr_loopback a \<longleftrightarrow> a = replicate 15 0 @ [1]"

definition in6_is_addr_linklocal :: "bytes \<Rightarrow> bool" where
  "in6_is_addr_linklocal a \<longleftrightarrow> a ! 0 = 0xFE \<and> a ! 1 AND 0xC0 = 0x80"

fun addr_is_any :: "sockaddr \<Rightarrow> bool" where
  "addr_is_any (Sin _ a) = list_all (\<lambda>b. b = 0) (take 4 a)"
| "addr_is_any (Sin6 _ _ a _) =
     (if in6_is_addr_v4mapped a then list_all (\<lambda>b. b = 0) (take 4 (drop 12 a))
      else list_all (\<lambda>b. b = 0) (take 16 a))"
| "addr_is_any (SaOther _) = False"

fun addr_is_local :: "sockaddr \<Rightarrow> bool" where
  "addr_is_local (Sin _ a) = (if a ! 0 = 127 then True else if a ! 0 = 169 \<and> a ! 1 = 254 then True else False)"
| "addr_is_local (Sin6 _ _ a _) =
     (if in6_is_addr_loopback a then True
      else if in6_is_addr_linklocal a then True
      else if in6_is_addr_v4mapped a
      then (let b = drop 12 a in if b ! 0 = 127 then True else if b ! 0 = 169 \<and> b ! 1 = 254 then True else False)
      else False)"
| "addr_is_local (SaOther _) = False"

text \<open>The conversions return whether they converted, the address and the length.\<close>

definition addr_unmap_inet6_v4mapped :: "sockaddr \<Rightarrow> nat \<Rightarrow> bool \<times> sockaddr \<times> nat" where
  "addr_unmap_inet6_v4mapped sa len =
     (case sa of
        Sin6 p _ a _ \<Rightarrow>
          (if \<not> in6_is_addr_v4mapped a then (False, sa, len)
           else (True, Sin p (take 4 (drop 12 a)), sizeof_sockaddr_in))
      | _ \<Rightarrow> (False, sa, len))"

definition addr_map_inet6_v4mapped :: "sockaddr \<Rightarrow> nat \<Rightarrow> bool \<times> sockaddr \<times> nat" where
  "addr_map_inet6_v4mapped ss len =
     (case ss of
        Sin p a \<Rightarrow> (True, Sin6 p 0 (replicate 10 0 @ replicate 2 0xFF @ take 4 a) 0, sizeof_sockaddr_in6)
      | _ \<Rightarrow> (False, ss, len))"

fun addr_is_equal :: "sockaddr \<Rightarrow> sockaddr \<Rightarrow> bool \<Rightarrow> bool" where
  "addr_is_equal (Sin p a) (Sin q b) compare_ports =
     (if take 4 a \<noteq> take 4 b then False else if compare_ports \<and> p \<noteq> q then False else True)"
| "addr_is_equal (Sin6 p _ a _) (Sin6 q _ b _) compare_ports =
     (if take 16 a \<noteq> take 16 b then False else if compare_ports \<and> p \<noteq> q then False else True)"
| "addr_is_equal _ _ compare_ports = False"

text \<open>\<open>getnameinfo\<close> is the numeric host and service, or \<open>None\<close> for its failure; the result is the
  return value and the bytes written to \<^verbatim>\<open>buffer\<close>.\<close>

definition addr_to_string :: "(sockaddr \<Rightarrow> (bytes \<times> bytes) option) \<Rightarrow> sockaddr \<Rightarrow> nat \<Rightarrow> int \<times> bytes" where
  "addr_to_string getnameinfo sa sz =
     (let error = (-1, snd (snprintf sz [0x3F])) in
      if addr_get_len sa = 0 then error
      else case getnameinfo sa of
             None \<Rightarrow> error
           | Some (host, service) \<Rightarrow>
               (let (len, out) = snprintf sz (host @ [0x3A] @ service) in
                if len < 0 \<or> nat len \<ge> sz then error else (len, out)))"

definition DJB2_INIT :: u64 where "DJB2_INIT = 5381"

definition djb2 :: "u64 \<Rightarrow> u64 \<Rightarrow> u64" where
  "djb2 h i = push_bit 5 h + h + i"

fun djb2_bytes :: "u64 \<Rightarrow> bytes \<Rightarrow> u64" where
  "djb2_bytes h [] = h"
| "djb2_bytes h (b # bs) = djb2_bytes (djb2 h (ucast b)) bs"

definition djb2_port :: "bool \<Rightarrow> u16 \<Rightarrow> u64 \<Rightarrow> u64" where
  "djb2_port with_port p h = (if with_port then djb2 (djb2 h (ucast (drop_bit 8 p))) (ucast (p AND 0xFF)) else h)"

definition addr_hash :: "sockaddr \<Rightarrow> bool \<Rightarrow> u64" where
  "addr_hash sa with_port =
     (let h = djb2 DJB2_INIT (ucast (sa_family sa)) in
      case sa of
        Sin p a \<Rightarrow> djb2_port with_port p (djb2_bytes h (take 4 a))
      | Sin6 p _ a _ \<Rightarrow> djb2_port with_port p (djb2_bytes h (take 16 a))
      | SaOther _ \<Rightarrow> h)"

subsection \<open>Records\<close>

definition SOCK_STREAM :: int where "SOCK_STREAM = 1"
definition SOCK_DGRAM :: int where "SOCK_DGRAM = 2"

record addr_record =
  ar_addr :: sockaddr
  ar_len :: nat
  ar_socktype :: int

text \<open>\<open>ais\<close> is the answer of \<^verbatim>\<open>getaddrinfo\<close>: \<open>None\<close> for its failure, else the addresses with their lengths.\<close>

fun resolve_loop :: "int \<Rightarrow> nat \<Rightarrow> (sockaddr \<times> nat) list \<Rightarrow> int \<Rightarrow> addr_record list \<Rightarrow> int \<times> addr_record list" where
  "resolve_loop socktype cnt [] ret rs = (ret, rs)"
| "resolve_loop socktype cnt ((sa, l) # ais) ret rs =
     (if sa_family sa = AF_INET \<or> sa_family sa = AF_INET6
      then if length rs \<noteq> cnt
           then resolve_loop socktype cnt ais (ret + 1) (rs @ [\<lparr>ar_addr = sa, ar_len = l, ar_socktype = socktype\<rparr>])
           else resolve_loop socktype cnt ais (ret + 1) rs
      else resolve_loop socktype cnt ais ret rs)"

definition addr_resolve :: "(sockaddr \<times> nat) list option \<Rightarrow> int \<Rightarrow> nat \<Rightarrow> int \<times> addr_record list" where
  "addr_resolve ais socktype cnt =
     (case ais of None \<Rightarrow> (-1, []) | Some l \<Rightarrow> resolve_loop socktype cnt l 0 [])"

definition addr_is_numeric_hostname :: "(sockaddr \<times> nat) list option \<Rightarrow> bool" where
  "addr_is_numeric_hostname ais = (case ais of None \<Rightarrow> False | Some _ \<Rightarrow> True)"

definition addr_record_is_equal :: "addr_record \<Rightarrow> addr_record \<Rightarrow> bool \<Rightarrow> bool" where
  "addr_record_is_equal a b compare_ports \<longleftrightarrow>
     addr_is_equal (ar_addr a) (ar_addr b) compare_ports \<and> ar_socktype a = ar_socktype b"

definition addr_record_to_string ::
  "(sockaddr \<Rightarrow> (bytes \<times> bytes) option) \<Rightarrow> addr_record \<Rightarrow> nat \<Rightarrow> int \<times> bytes" where
  "addr_record_to_string getnameinfo r sz = addr_to_string getnameinfo (ar_addr r) sz"

definition addr_record_hash :: "addr_record \<Rightarrow> bool \<Rightarrow> u64" where
  "addr_record_hash r with_port =
     addr_hash (ar_addr r) with_port + (if ar_socktype r = SOCK_DGRAM then 0 else 1)"

subsection \<open>Comparison and hashing\<close>

text \<open>A key with a comparison and a hash: a partial equivalence that the hash respects.\<close>

locale hashed_key =
  fixes eq :: "'k \<Rightarrow> 'k \<Rightarrow> bool"
    and hash :: "'k \<Rightarrow> u64"
    and valid :: "'k \<Rightarrow> bool"
  assumes eq_refl: "valid a \<Longrightarrow> eq a a"
    and eq_sym: "eq a b \<Longrightarrow> eq b a"
    and eq_trans: "eq a b \<Longrightarrow> eq b c \<Longrightarrow> eq a c"
    and eq_hash: "eq a b \<Longrightarrow> hash a = hash b"
begin

lemma slot_agrees: "eq a b \<Longrightarrow> unat (hash a) mod n = unat (hash b) mod n"
  by (simp add: eq_hash)

lemma eq_class: "eq a b \<Longrightarrow> eq a c \<longleftrightarrow> eq b c"
  using eq_sym eq_trans by blast

end

definition inet_family :: "sockaddr \<Rightarrow> bool" where
  "inet_family sa \<longleftrightarrow> (case sa of SaOther _ \<Rightarrow> False | _ \<Rightarrow> True)"

lemma addr_is_equal_iff:
  "addr_is_equal a b cp \<longleftrightarrow>
     (\<exists>p q x y. a = Sin p x \<and> b = Sin q y \<and> take 4 x = take 4 y \<and> (cp \<longrightarrow> p = q))
   \<or> (\<exists>p q f g x y s t. a = Sin6 p f x s \<and> b = Sin6 q g y t \<and> take 16 x = take 16 y \<and> (cp \<longrightarrow> p = q))"
  by (cases a; cases b) auto

lemma addr_hash_eq: "addr_is_equal a b wp \<Longrightarrow> addr_hash a wp = addr_hash b wp"
  unfolding addr_is_equal_iff
  by (auto simp: addr_hash_def sa_family_def djb2_port_def Let_def split: if_splits)

interpretation addr_key: hashed_key "\<lambda>a b. addr_is_equal a b cp" "\<lambda>a. addr_hash a cp" inet_family
  for cp
  by unfold_locales
    (auto simp: addr_is_equal_iff inet_family_def addr_hash_eq split: sockaddr.splits dest: sym)

interpretation record_key: hashed_key "\<lambda>a b. addr_record_is_equal a b cp" "\<lambda>a. addr_record_hash a cp"
  "\<lambda>r. inet_family (ar_addr r)"
  for cp
  by unfold_locales
    (auto simp: addr_record_is_equal_def addr_record_hash_def intro: addr_key.eq_refl addr_key.eq_sym
      addr_key.eq_trans dest: addr_hash_eq)

text \<open>(C13) Record comparison and record hashing fit together: equality, with or without ports, is symmetric
  and transitive, records equal under it have the same hash (so a hash table finds a key under any
  equal record), and equality with ports is finer than equality without them.\<close>

theorem record_equality_hash:
  assumes "addr_record_is_equal a b cp"
  shows "addr_record_is_equal b a cp \<and> addr_record_hash a cp = addr_record_hash b cp
    \<and> addr_record_is_equal a b False \<and> (cp \<longrightarrow> addr_get_port (ar_addr a) = addr_get_port (ar_addr b))
    \<and> (\<forall>c. addr_record_is_equal a c cp = addr_record_is_equal b c cp)"
proof (intro conjI allI)
  show "addr_record_is_equal b a cp" using assms by (rule record_key.eq_sym)
  show "addr_record_hash a cp = addr_record_hash b cp" using assms by (rule record_key.eq_hash)
  show "addr_record_is_equal a b False" "cp \<longrightarrow> addr_get_port (ar_addr a) = addr_get_port (ar_addr b)"
    using assms by (auto simp: addr_record_is_equal_def addr_is_equal_iff)
  show "addr_record_is_equal a c cp = addr_record_is_equal b c cp" for c
    using assms by (rule record_key.eq_class)
qed

theorem record_equality_hash_witness:
  "addr_record_hash \<lparr>ar_addr = Sin6 5 1 (replicate 16 9) 2, ar_len = 28, ar_socktype = 2\<rparr> True
   = addr_record_hash \<lparr>ar_addr = Sin6 5 7 (replicate 16 9) 3, ar_len = 28, ar_socktype = 2\<rparr> True"
proof -
  have "addr_record_is_equal \<lparr>ar_addr = Sin6 5 1 (replicate 16 9) 2, ar_len = 28, ar_socktype = 2\<rparr>
      \<lparr>ar_addr = Sin6 5 7 (replicate 16 9) 3, ar_len = 28, ar_socktype = 2\<rparr> True"
    by (simp add: addr_record_is_equal_def)
  from record_equality_hash [OF this] show ?thesis by blast
qed

subsection \<open>IPv4-mapped addresses\<close>

lemma mapped_bytes:
  "replicate 10 0 @ replicate 2 0xFF @ take 4 a = [0, 0, 0, 0, 0, 0, 0, 0, 0, 0, 0xFF, 0xFF] @ take 4 (a :: bytes)"
  "replicate 10 0 @ [0xFF, 0xFF] = ([0, 0, 0, 0, 0, 0, 0, 0, 0, 0, 0xFF, 0xFF] :: bytes)"
  "replicate 15 0 @ [1] = ([0, 0, 0, 0, 0, 0, 0, 0, 0, 0, 0, 0, 0, 0, 0, 1] :: bytes)"
  by (simp_all add: eval_nat_numeral)

lemma mapped_prefix:
  assumes "length a = 4"
  shows "in6_is_addr_v4mapped (replicate 10 0 @ replicate 2 0xFF @ take 4 a)"
    "take 4 (drop 12 (replicate 10 0 @ replicate 2 0xFF @ take 4 a)) = a"
    "drop 12 (replicate 10 0 @ replicate 2 0xFF @ take 4 a) = a"
    "\<not> in6_is_addr_loopback (replicate 10 0 @ replicate 2 0xFF @ take 4 a)"
    "\<not> in6_is_addr_linklocal (replicate 10 0 @ replicate 2 0xFF @ take 4 a)"
    "length (replicate 10 0 @ replicate 2 0xFF @ take 4 a) = 16"
  unfolding in6_is_addr_v4mapped_def in6_is_addr_loopback_def in6_is_addr_linklocal_def mapped_bytes
  using assms by simp_all

text \<open>Mapping an IPv4 socket address to an IPv4-mapped IPv6 one and back gives the address again; the
  lengths reported are those of the structures, and the mapped address has the same port and the same
  answer to whether it is the wildcard address and whether it is local.\<close>

theorem v4mapped_roundtrip:
  assumes "addr_wf (Sin p a)" and "addr_map_inet6_v4mapped (Sin p a) len = (ok, m, len')"
  shows "ok \<and> len' = addr_get_len m \<and> addr_wf m
    \<and> addr_unmap_inet6_v4mapped m len' = (True, Sin p a, addr_get_len (Sin p a))
    \<and> addr_get_port m = addr_get_port (Sin p a)
    \<and> addr_is_any m = addr_is_any (Sin p a) \<and> addr_is_local m = addr_is_local (Sin p a)"
proof -
  from assms(1) have len: "length a = 4" by (simp add: addr_wf_def)
  note pre = mapped_prefix [OF len]
  from assms(2) have m: "ok" "m = Sin6 p 0 (replicate 10 0 @ replicate 2 0xFF @ take 4 a) 0" "len' = sizeof_sockaddr_in6"
    by (auto simp: addr_map_inet6_v4mapped_def)
  show ?thesis unfolding m
    by (simp only: addr_unmap_inet6_v4mapped_def addr_is_any.simps addr_is_local.simps sockaddr.case pre
        addr_wf_def addr_get_len.simps addr_get_port.simps m(1) Let_def not_True_eq_False if_False if_True simp_thms)
      (simp add: len)
qed

theorem v4mapped_roundtrip_witness:
  "fst (addr_unmap_inet6_v4mapped (fst (snd (addr_map_inet6_v4mapped (Sin 80 [127, 0, 0, 1]) 16))) 28)
   \<and> addr_is_local (fst (snd (addr_map_inet6_v4mapped (Sin 80 [127, 0, 0, 1]) 16)))"
proof -
  have wf: "addr_wf (Sin 80 [127, 0, 0, 1])" by (simp add: addr_wf_def)
  have map: "addr_map_inet6_v4mapped (Sin 80 [127, 0, 0, 1]) 16
      = (True, fst (snd (addr_map_inet6_v4mapped (Sin 80 [127, 0, 0, 1]) 16)), 28)"
    by (simp add: addr_map_inet6_v4mapped_def sizeof_sockaddr_in6_def)
  from v4mapped_roundtrip [OF wf map] show ?thesis by simp
qed

end
