(* ===== verification/Base64.thy ===== *)
theory Base64
  imports Prelude
begin

text \<open>
  \<^verbatim>\<open>libjuice/src/base64.c\<close>, used for the security feature bits of STUN nonces.  The encoder and the
  decoder write into caller-supplied buffers: the encoder's result is the return value and the bytes
  written; the decoder's is \<open>None\<close> where it writes past the end of the output buffer.
\<close>

definition b64_tab :: bytes where
  "b64_tab = map of_char ''ABCDEFGHIJKLMNOPQRSTUVWXYZabcdefghijklmnopqrstuvwxyz0123456789+/''"

definition tab :: "byte \<Rightarrow> byte" where
  "tab i = b64_tab ! unat i"

definition eq_sign :: byte where "eq_sign = 0x3D"

fun encode_loop :: "bytes \<Rightarrow> bytes" where
  "encode_loop (a # b # c # r) =
     tab (drop_bit 2 a)
     # tab (push_bit 4 (a AND 0x03) OR drop_bit 4 b)
     # tab (push_bit 2 (b AND 0x0F) OR drop_bit 6 c)
     # tab (c AND 0x3F)
     # encode_loop r"
| "encode_loop [a, b] =
     [tab (drop_bit 2 a), tab (push_bit 4 (a AND 0x03) OR drop_bit 4 b), tab (push_bit 2 (b AND 0x0F)), eq_sign]"
| "encode_loop [a] = [tab (drop_bit 2 a), tab (push_bit 4 (a AND 0x03)), eq_sign, eq_sign]"
| "encode_loop [] = []"

definition juice_base64_encode :: "bytes \<Rightarrow> nat \<Rightarrow> int \<times> bytes" where
  "juice_base64_encode data out_size =
     (if out_size < 4 * ((length data + 2) div 3) + 1 then (-1, [])
      else (int (length (encode_loop data)), encode_loop data @ [0]))"

definition isspace :: "byte \<Rightarrow> bool" where
  "isspace c \<longleftrightarrow> c = 0x20 \<or> (0x09 \<le> c \<and> c \<le> 0x0D)"

definition sextet :: "byte \<Rightarrow> byte option" where
  "sextet c =
     (if 0x41 \<le> c \<and> c \<le> 0x5A then Some (c - 0x41)
      else if 0x61 \<le> c \<and> c \<le> 0x7A then Some (c + 26 - 0x61)
      else if 0x30 \<le> c \<and> c \<le> 0x39 then Some (c + 52 - 0x30)
      else if c = 0x2B \<or> c = 0x2D then Some 62
      else if c = 0x2F \<or> c = 0x5F then Some 63
      else None)"

text \<open>The inner loop: up to four sextets, in \<open>acc\<close>; \<open>None\<close> is the return of \<^verbatim>\<open>-1\<close> for an invalid character.
  The argument is the C string before its terminator.\<close>

fun read_quantum :: "bytes \<Rightarrow> bytes \<Rightarrow> (bytes \<times> bytes) option" where
  "read_quantum [] acc = Some ([], acc)"
| "read_quantum (c # cs) acc =
     (if length acc \<ge> 4 then Some (c # cs, acc)
      else if isspace c then read_quantum cs acc
      else if c = eq_sign then Some (cs, acc)
      else case sextet c of None \<Rightarrow> None | Some v \<Rightarrow> read_quantum cs (acc @ [v]))"

lemma read_quantum_length:
  "read_quantum cs acc = Some (rest, ts) \<Longrightarrow> length rest \<le> length cs"
  by (induction cs acc rule: read_quantum.induct) (auto split: if_splits option.splits)

lemma read_quantum_shrinks:
  "read_quantum (c # cs) [] = Some (rest, ts) \<Longrightarrow> length rest < Suc (length cs)"
  by (auto split: if_splits option.splits dest!: read_quantum_length)

text \<open>The bytes the outer loop writes for the sextets of one quantum (\<^verbatim>\<open>tab\<close> is zero-initialised).\<close>

definition quantum_bytes :: "bytes \<Rightarrow> bytes" where
  "quantum_bytes ts =
     (let t = ts @ [0, 0, 0, 0]
      in [push_bit 2 (t ! 0) OR drop_bit 4 (t ! 1)]
         @ (if length ts > 1 then [push_bit 4 (t ! 1) OR drop_bit 2 (t ! 2)] else [])
         @ (if length ts > 2 then [push_bit 6 (t ! 2) OR t ! 3] else []))"

text \<open>\<open>cap\<close> is the real capacity of the output buffer, \<open>out_size\<close> the code's running count, \<open>w\<close> what was
  written so far.\<close>

function decode_loop :: "nat \<Rightarrow> bytes \<Rightarrow> nat \<Rightarrow> bytes \<Rightarrow> (int \<times> bytes) option" where
  "decode_loop cap cs out_size w =
     (if cs = [] \<or> hd cs = eq_sign then Some (int (length w), w)
      else case read_quantum cs [] of
             None \<Rightarrow> Some (-1, w)
           | Some (rest, ts) \<Rightarrow>
               if length ts > 0
               then if out_size < length ts - 1 then Some (-1, w)
                    else if cap < length w + length (quantum_bytes ts) then None
                    else decode_loop cap rest (out_size - (length ts - 1)) (w @ quantum_bytes ts)
               else decode_loop cap rest out_size w)"
  by pat_completeness auto
termination
proof (relation "measure (\<lambda>(cap, cs, out_size, w). length cs)"; clarsimp)
  fix cs rest ts
  assume "cs \<noteq> []" "read_quantum cs [] = Some (rest, ts)"
  then show "length rest < length cs" by (cases cs) (auto dest: read_quantum_shrinks simp del: read_quantum.simps)
next
  fix cs rest
  assume "cs \<noteq> []" "read_quantum cs [] = Some (rest, [])"
  then show "length rest < length cs" by (cases cs) (auto dest: read_quantum_shrinks simp del: read_quantum.simps)
qed

declare decode_loop.simps [simp del]

definition juice_base64_decode :: "bytes \<Rightarrow> nat \<Rightarrow> (int \<times> bytes) option" where
  "juice_base64_decode str out_size = decode_loop out_size str out_size []"

subsection \<open>Round trip\<close>

lemma b64_tab_list: "b64_tab = [65, 66, 67, 68, 69, 70, 71, 72, 73, 74, 75, 76, 77, 78, 79, 80, 81, 82, 83, 84, 85, 86,
    87, 88, 89, 90, 97, 98, 99, 100, 101, 102, 103, 104, 105, 106, 107, 108, 109, 110, 111, 112, 113,
    114, 115, 116, 117, 118, 119, 120, 121, 122, 48, 49, 50, 51, 52, 53, 54, 55, 56, 57, 43, 47]"
  by (simp add: b64_tab_def)

lemma sextet_tab: "map sextet b64_tab = map Some [0, 1, 2, 3, 4, 5, 6, 7, 8, 9, 10, 11, 12, 13, 14, 15, 16, 17, 18, 19,
    20, 21, 22, 23, 24, 25, 26, 27, 28, 29, 30, 31, 32, 33, 34, 35, 36, 37, 38, 39, 40, 41, 42, 43, 44,
    45, 46, 47, 48, 49, 50, 51, 52, 53, 54, 55, 56, 57, 58, 59, 60, 61, 62, 63]"
  unfolding b64_tab_list by (simp add: sextet_def)

lemma upt_64: "map of_nat [0..<64] = ([0, 1, 2, 3, 4, 5, 6, 7, 8, 9, 10, 11, 12, 13, 14, 15, 16, 17, 18, 19, 20,
    21, 22, 23, 24, 25, 26, 27, 28, 29, 30, 31, 32, 33, 34, 35, 36, 37, 38, 39, 40, 41, 42, 43, 44, 45,
    46, 47, 48, 49, 50, 51, 52, 53, 54, 55, 56, 57, 58, 59, 60, 61, 62, 63] :: byte list)"
  by (simp add: upt_rec)

lemma tab_plain: "list_all (\<lambda>c. \<not> isspace c \<and> c \<noteq> eq_sign) b64_tab"
  unfolding b64_tab_list by (simp add: isspace_def eq_sign_def)

lemma tab_decodes:
  assumes "unat v < 64"
  shows "sextet (tab v) = Some v" "\<not> isspace (tab v)" "tab v \<noteq> eq_sign"
proof -
  have len: "length b64_tab = 64" by (simp add: b64_tab_def)
  have "sextet (tab v) = map sextet b64_tab ! unat v" using assms len by (simp add: tab_def)
  also have "\<dots> = Some (map of_nat [0..<64] ! unat v)"
    unfolding sextet_tab upt_64 [symmetric] using assms by (subst nth_map) simp_all
  also have "map of_nat [0..<64] ! unat v = v" using assms by simp
  finally show "sextet (tab v) = Some v" .
  show "\<not> isspace (tab v)" "tab v \<noteq> eq_sign"
    using tab_plain assms len by (simp_all add: list_all_length tab_def)
qed

lemma word_lt_64: "take_bit 6 v = v \<Longrightarrow> unat v < 64" for v :: byte
proof -
  assume "take_bit 6 v = v"
  then have "unat v = take_bit 6 (unat v)" by (metis unsigned_take_bit_eq)
  then show ?thesis using take_bit_nat_less_exp [of 6 "unat v"] by simp
qed

text \<open>The four sextets of the encoder's quantum, named so that rewriting leaves them alone.\<close>

definition sx0 :: "byte \<Rightarrow> byte" where "sx0 a = drop_bit 2 a"
definition sx1 :: "byte \<Rightarrow> byte \<Rightarrow> byte" where "sx1 a b = push_bit 4 (a AND 0x03) OR drop_bit 4 b"
definition sx2 :: "byte \<Rightarrow> byte \<Rightarrow> byte" where "sx2 b c = push_bit 2 (b AND 0x0F) OR drop_bit 6 c"
definition sx3 :: "byte \<Rightarrow> byte" where "sx3 c = c AND 0x3F"

lemmas sx_defs = sx0_def sx1_def sx2_def sx3_def

lemma encode_loop_sx:
  "encode_loop (a # b # c # r) = tab (sx0 a) # tab (sx1 a b) # tab (sx2 b c) # tab (sx3 c) # encode_loop r"
  "encode_loop [a, b] = [tab (sx0 a), tab (sx1 a b), tab (sx2 b 0), eq_sign]"
  "encode_loop [a] = [tab (sx0 a), tab (sx1 a 0), eq_sign, eq_sign]"
  by (simp_all add: sx_defs)

lemma six_bits:
  "unat (sx0 a) < 64" "unat (sx1 a b) < 64" "unat (sx2 b c) < 64" "unat (sx3 c) < 64"
  unfolding sx_defs by (rule word_lt_64, rule byte_bits_eqI; simp add: bit_simps and_low_bits)+

lemmas tab_sx [simp] = six_bits [THEN tab_decodes(1)] six_bits [THEN tab_decodes(2)]
  six_bits [THEN tab_decodes(3)]

lemma quantum_bytes_sx:
  "quantum_bytes [sx0 a, sx1 a b, sx2 b c, sx3 c] = [a, b, c]"
  "quantum_bytes [sx0 a, sx1 a b, sx2 b 0] = [a, b, 0]"
  "quantum_bytes [sx0 a, sx1 a 0] = [a, 0]"
  unfolding quantum_bytes_def sx_defs
  by (simp_all add: Let_def) (intro conjI | rule byte_bits_eqI; simp add: bit_simps and_low_bits)+

lemma eq_sign_not_space [simp]: "\<not> isspace eq_sign"
  by (simp add: isspace_def eq_sign_def)

lemma read_quantum_sx:
  "read_quantum (encode_loop (a # b # c # r)) [] = Some (encode_loop r, [sx0 a, sx1 a b, sx2 b c, sx3 c])"
  "read_quantum (encode_loop [a, b]) [] = Some ([], [sx0 a, sx1 a b, sx2 b 0])"
  "read_quantum (encode_loop [a]) [] = Some ([eq_sign], [sx0 a, sx1 a 0])"
  unfolding encode_loop_sx by (cases "encode_loop r"; simp)+

lemma encode_loop_head:
  "encode_loop (a # r) \<noteq> []" "hd (encode_loop (a # r)) \<noteq> eq_sign"
  by (cases "(a # r)" rule: encode_loop.cases; auto simp: encode_loop_sx simp del: encode_loop.simps)+

lemma decode_end [simp]:
  "decode_loop cap [] out_size w = Some (int (length w), w)"
  "decode_loop cap [eq_sign] out_size w = Some (int (length w), w)"
  by (subst decode_loop.simps; simp)+

lemma decode_step:
  "read_quantum (encode_loop (a # r)) [] = Some (rest, t # ts) \<Longrightarrow>
   decode_loop cap (encode_loop (a # r)) out_size w =
     (if out_size < length ts then Some (-1, w)
      else if cap < length w + length (quantum_bytes (t # ts)) then None
      else decode_loop cap rest (out_size - length ts) (w @ quantum_bytes (t # ts)))"
  by (subst decode_loop.simps) (simp add: encode_loop_head)

lemma decode_encode_loop:
  "length data \<le> out_size \<Longrightarrow> out_size + length w = cap \<Longrightarrow>
     decode_loop cap (encode_loop data) out_size w =
       (if length data mod 3 = 0 then Some (int (length w + length data), w @ data)
        else if length data < out_size then Some (int (length w + length data) + 1, w @ data @ [0])
        else None)"
proof (induction data arbitrary: out_size w rule: encode_loop.induct)
  case (1 a b c r)
  from 1 have "decode_loop cap (encode_loop r) (out_size - 3) (w @ [a, b, c]) =
       (if length r mod 3 = 0 then Some (int (length (w @ [a, b, c]) + length r), (w @ [a, b, c]) @ r)
        else if length r < out_size - 3 then Some (int (length (w @ [a, b, c]) + length r) + 1, (w @ [a, b, c]) @ r @ [0])
        else None)" by (intro "1.IH") auto
  moreover have "decode_loop cap (encode_loop (a # b # c # r)) out_size w
      = decode_loop cap (encode_loop r) (out_size - 3) (w @ [a, b, c])"
    using 1 by (simp add: decode_step [OF read_quantum_sx(1)] quantum_bytes_sx del: encode_loop.simps)
  moreover have "length (a # b # c # r) mod 3 = length r mod 3"
    by (simp only: list.size) presburger
  moreover have "length (a # b # c # r) < out_size \<longleftrightarrow> length r < out_size - 3" by auto
  ultimately show ?case by (simp del: encode_loop.simps)
next
  case (2 a b)
  then show ?case
    by (auto simp: decode_step [OF read_quantum_sx(2)] quantum_bytes_sx simp del: encode_loop.simps)
next
  case (3 a)
  then show ?case
    by (auto simp: decode_step [OF read_quantum_sx(3)] quantum_bytes_sx simp del: encode_loop.simps)
qed simp

lemma encode_length: "length (encode_loop data) = 4 * ((length data + 2) div 3)"
proof (induction data rule: encode_loop.induct)
  case (1 a b c r)
  have "(length (a # b # c # r) + 2) div 3 = Suc ((length r + 2) div 3)" by simp
  with 1 show ?case by simp
qed simp_all

lemma encode_nonzero: "0 \<notin> set (encode_loop data)"
proof -
  have "list_all (\<lambda>c. c \<noteq> 0) b64_tab" unfolding b64_tab_list by simp
  then have nz: "tab v \<noteq> 0" if "unat v < 64" for v
    using that by (simp add: list_all_length tab_def b64_tab_def)
  note tab_nz = nz [OF six_bits(1)] nz [OF six_bits(2)] nz [OF six_bits(3)] nz [OF six_bits(4)]
  note tab_nz' = tab_nz [symmetric]
  show ?thesis
  proof (induction data rule: encode_loop.induct)
    case 4
    show ?case by simp
  qed (simp_all only: encode_loop_sx set_simps insert_iff tab_nz' simp_thms empty_iff, simp_all add: eq_sign_def)
qed

text \<open>(C7) Base64 round trip, on every input and every output capacity that holds the data.  The encoder
  writes exactly \<open>4 * ceil(n / 3)\<close> characters and a terminator inside its buffer; decoding its string
  gives the data back when the length is a multiple of three.  For every other length the decoder
  writes one byte too many: it reports \<open>n + 1\<close> bytes with a zero appended, and with a buffer of exactly
  \<open>n\<close> bytes it writes past its end (\<open>None\<close>), because its budget counts \<^verbatim>\<open>size - 1\<close> bytes for a quantum for
  which it stores \<^verbatim>\<open>size\<close>.\<close>

theorem base64_roundtrip:
  assumes "juice_base64_encode data n = (r, out)" and "0 \<le> r" and "length data \<le> cap"
  shows "r = 4 * ((int (length data) + 2) div 3) \<and> length out = nat r + 1 \<and> length out \<le> n
    \<and> juice_base64_decode (cstr out) cap =
       (if length data mod 3 = 0 then Some (int (length data), data)
        else if length data < cap then Some (int (length data) + 1, data @ [0])
        else None)"
proof -
  from assms(1,2) have n: "4 * ((length data + 2) div 3) + 1 \<le> n"
    and out: "out = encode_loop data @ [0]" and r: "r = int (length (encode_loop data))"
    by (auto simp: juice_base64_encode_def split: if_splits)
  have "cstr out = encode_loop data" using encode_nonzero [of data] by (simp add: out cstr_append_0)
  moreover have "decode_loop cap (encode_loop data) cap [] =
       (if length data mod 3 = 0 then Some (int (length data), data)
        else if length data < cap then Some (int (length data) + 1, data @ [0])
        else None)"
    using decode_encode_loop [of data cap "[]" cap] assms(3) by simp
  moreover have "int (4 * ((length data + 2) div 3)) = 4 * ((int (length data) + 2) div 3)"
    by (simp add: zdiv_int)
  ultimately show ?thesis using n
    by (simp add: juice_base64_decode_def out r encode_length del: of_nat_mult of_nat_add)
qed

theorem base64_roundtrip_witness:
  "juice_base64_decode (cstr (snd (juice_base64_encode [1, 2, 3, 4, 5, 6] 9))) 6 = Some (6, [1, 2, 3, 4, 5, 6])
   \<and> juice_base64_decode (cstr (snd (juice_base64_encode [0xDB] 5))) 1 = None"
proof -
  have "juice_base64_encode [1, 2, 3, 4, 5, 6] 9 = (8, snd (juice_base64_encode [1, 2, 3, 4, 5, 6] 9))"
    "juice_base64_encode [0xDB] 5 = (4, snd (juice_base64_encode [0xDB] 5))"
    by (simp_all add: juice_base64_encode_def)
  from this [THEN base64_roundtrip] show ?thesis
    by (fastforce simp: juice_base64_encode_def)
qed

end
