(* ===== verification/Crc32.thy ===== *)
theory Crc32
  imports Prelude
begin

text \<open>
  \<^verbatim>\<open>libjuice/src/crc32.c\<close>: the table-driven CRC-32 of STUN fingerprints, with its lazily initialised
  static table, shown equal to the bit-serial definition of the code.
\<close>

definition CRC32_REVERSED_POLY :: u32 where "CRC32_REVERSED_POLY = 0xEDB88320"
definition CRC32_INIT :: u32 where "CRC32_INIT = 0xFFFFFFFF"
definition CRC32_XOR :: u32 where "CRC32_XOR = 0xFFFFFFFF"

definition crc_shift :: "u32 \<Rightarrow> u32" where
  "crc_shift crc = (if crc AND 1 \<noteq> 0 then drop_bit 1 crc XOR CRC32_REVERSED_POLY else drop_bit 1 crc)"

definition crc32_byte :: "u32 \<Rightarrow> u32" where
  "crc32_byte crc = (crc_shift ^^ 8) crc"

text \<open>The table index is a byte, hence within the table's 256 entries.\<close>

fun crc32_loop :: "u32 list \<Rightarrow> u32 \<Rightarrow> bytes \<Rightarrow> u32" where
  "crc32_loop table crc [] = crc"
| "crc32_loop table crc (p # ps) =
     crc32_loop table (table ! unat (ucast (crc AND 0xFF) XOR p) XOR drop_bit 8 crc) ps"

definition crc32_table :: "bytes \<Rightarrow> u32 list \<Rightarrow> u32" where
  "crc32_table p table = crc32_loop table CRC32_INIT p XOR CRC32_XOR"

text \<open>\<open>table\<close> is the static array before the call; the result carries it afterwards.\<close>

definition juice_crc32 :: "bytes \<Rightarrow> u32 list \<Rightarrow> u32 \<times> u32 list" where
  "juice_crc32 data table =
     (let table' = (if table ! 255 = 0 then map (\<lambda>i. crc32_byte (of_nat i)) [0..<256] else table)
      in (crc32_table data table', table'))"

text \<open>The macro \<^verbatim>\<open>CRC32\<close>: the value of a call on the static table, from its initial zeros; by
  \<open>juice_crc32_serial\<close> every later call gives the same value.\<close>

definition CRC32 :: "bytes \<Rightarrow> u32" where
  "CRC32 data = fst (juice_crc32 data (replicate 256 0))"

subsection \<open>The bit-serial reference\<close>

definition crc32_serial :: "bytes \<Rightarrow> u32" where
  "crc32_serial data = foldl (\<lambda>crc p. (crc_shift ^^ 8) (crc XOR ucast p)) CRC32_INIT data XOR CRC32_XOR"

lemma and_1_iff: "x AND 1 \<noteq> 0 \<longleftrightarrow> bit x 0" for x :: "'a::len word"
  by (simp add: and_one_eq mod2_eq_if bit_0)

lemma crc_shift_xor: "crc_shift (x XOR y) = crc_shift x XOR crc_shift y"
  unfolding crc_shift_def and_1_iff
  by (rule bit_word_eqI) (auto simp: bit_simps)

lemma crc_shift_funpow_xor: "(crc_shift ^^ n) (x XOR y) = (crc_shift ^^ n) x XOR (crc_shift ^^ n) y"
  by (induction n) (simp_all add: crc_shift_xor)

lemma crc_shift_zeros: "take_bit n x = 0 \<Longrightarrow> (crc_shift ^^ n) x = drop_bit n x"
proof (induction n arbitrary: x)
  case 0
  then show ?case by simp
next
  case (Suc n)
  have "\<not> bit x 0"
    using Suc.prems by (metis bit_take_bit_iff bit_0_eq bot_apply bot_bool_def zero_less_Suc)
  then have "crc_shift x = drop_bit 1 x" by (simp add: crc_shift_def and_1_iff)
  moreover have "take_bit n (drop_bit 1 x) = 0"
    using Suc.prems by (simp add: take_bit_drop_bit)
  ultimately show ?case
    using Suc.IH [of "drop_bit 1 x"] by (simp add: funpow_swap1)
qed

lemma crc_step_split: "crc32_byte x = crc32_byte (x AND 0xFF) XOR drop_bit 8 x"
proof -
  let ?h = "push_bit 8 (drop_bit 8 x)"
  have "x = (x AND 0xFF) XOR ?h"
    by (rule bit_word_eqI) (auto simp: bit_simps and_low_bits)
  moreover have "(crc_shift ^^ 8) ?h = drop_bit 8 x"
  proof (subst crc_shift_zeros)
    show "drop_bit 8 ?h = drop_bit 8 x"
      using bit_imp_le_length [of x "8 + n" for n] by (auto intro!: bit_word_eqI simp: bit_simps)
  qed (auto intro!: bit_word_eqI simp: bit_simps)
  ultimately show ?thesis
    unfolding crc32_byte_def by (metis crc_shift_funpow_xor)
qed

definition full_table :: "u32 list" where
  "full_table = map (\<lambda>i. crc32_byte (of_nat i)) [0..<256]"

lemma full_table_nth: "full_table ! unat (b :: byte) = crc32_byte (ucast b)"
proof -
  have "unat b < 256" using unsigned_less [of b] by simp
  then show ?thesis by (simp add: full_table_def)
qed

lemma crc_index: "ucast (ucast (crc AND 0xFF) XOR p :: byte) = (crc XOR ucast p) AND (0xFF :: u32)" for crc :: u32
  by (rule bit_word_eqI) (auto simp: bit_simps and_low_bits dest: bit_imp_le_length)

lemma crc32_loop_serial:
  "crc32_loop full_table crc ps = foldl (\<lambda>crc p. (crc_shift ^^ 8) (crc XOR ucast p)) crc ps"
proof (induction ps arbitrary: crc)
  case Nil
  then show ?case by simp
next
  case (Cons p ps)
  have d: "drop_bit 8 (crc XOR ucast p) = drop_bit 8 crc"
    by (rule bit_word_eqI) (auto simp: bit_simps dest: bit_imp_le_length)
  have "full_table ! unat (ucast (crc AND 0xFF) XOR p) XOR drop_bit 8 crc = crc32_byte (crc XOR ucast p)"
    using crc_step_split [of "crc XOR ucast p"] d by (simp add: full_table_nth crc_index)
  then show ?case using Cons.IH by (simp add: crc32_byte_def)
qed

lemma full_table_last: "full_table ! 255 = 0x2D02EF8D"
proof -
  have "full_table ! 255 = crc32_byte 255" by (simp add: full_table_def)
  also have "\<dots> = 0x2D02EF8D" by code_simp
  finally show ?thesis .
qed

text \<open>(C6) The CRC-32 with the lookup table equals the bit-serial CRC-32, from the zeroed static table (the
  first call) as from the table an earlier call left behind; and every call leaves the complete table.
\<close>

theorem juice_crc32_serial:
  assumes "table = replicate 256 0 \<or> (\<exists>d t. table = snd (juice_crc32 d t) \<and> t = replicate 256 0)"
  shows "fst (juice_crc32 data table) = crc32_serial data
    \<and> snd (juice_crc32 data table) = map (\<lambda>i. crc32_byte (of_nat i)) [0..<256]"
proof -
  have z: "replicate 256 (0::u32) ! 255 = 0" by (subst nth_replicate) simp_all
  have "table = full_table \<or> table ! 255 = 0 \<and> table \<noteq> full_table"
    using assms z full_table_last by (auto simp: juice_crc32_def Let_def full_table_def [symmetric])
  then have "juice_crc32 data table = (crc32_table data full_table, full_table)"
    using full_table_last by (auto simp: juice_crc32_def Let_def full_table_def [symmetric])
  then have "fst (juice_crc32 data table) = crc32_serial data" "snd (juice_crc32 data table) = full_table"
    by (simp_all add: crc32_table_def crc32_loop_serial crc32_serial_def)
  then show ?thesis by (simp only: full_table_def simp_thms)
qed

theorem juice_crc32_serial_witness:
  "fst (juice_crc32 [0x61] (replicate 256 0)) = 0xE8B7BE43"
proof -
  have "crc32_serial [0x61] = 0xE8B7BE43" by code_simp
  with juice_crc32_serial [OF disjI1 [OF refl], of "[0x61]"]
  show ?thesis by metis
qed

end
