(* ===== verification/Picohash.thy ===== *)
theory Picohash
  imports Prelude
begin

text \<open>
  \<^verbatim>\<open>libjuice/src/picohash.h\<close> with its users \<^verbatim>\<open>hash.c\<close> and \<^verbatim>\<open>hmac.c\<close>: MD5, SHA-1, SHA-256 and SHA-224 as
  streaming contexts, and HMAC over them.  \<^verbatim>\<open>uint_fast32_t\<close>, the type of the MD5 state, has 64 bits on the
  64 bit glibc targets, so the MD5 code runs on 64 bit words whose upper halves carry rubbish.

  A context starts as undetermined stack memory: the init functions take it as an argument and assign
  only the fields the code assigns.  
\<close>

subsection \<open>MD5\<close>

record md5_ctx =
  md5_lo :: u64
  md5_hi :: u64
  md5_abcd :: "u64 \<times> u64 \<times> u64 \<times> u64"
  md5_buffer :: bytes

definition md5_F :: "u64 \<Rightarrow> u64 \<Rightarrow> u64 \<Rightarrow> u64" where "md5_F x y z = z XOR (x AND (y XOR z))"
definition md5_G :: "u64 \<Rightarrow> u64 \<Rightarrow> u64 \<Rightarrow> u64" where "md5_G x y z = y XOR (z AND (x XOR y))"
definition md5_H :: "u64 \<Rightarrow> u64 \<Rightarrow> u64 \<Rightarrow> u64" where "md5_H x y z = x XOR y XOR z"
definition md5_I :: "u64 \<Rightarrow> u64 \<Rightarrow> u64 \<Rightarrow> u64" where "md5_I x y z = y XOR (x OR NOT z)"

text \<open>The step macro updates its first variable; the next step's variables are rotated by one.\<close>

definition md5_step ::
  "(u64 \<Rightarrow> u64 \<Rightarrow> u64 \<Rightarrow> u64) \<Rightarrow> u64 list \<Rightarrow> nat \<times> u64 \<times> nat \<Rightarrow> u64 \<times> u64 \<times> u64 \<times> u64 \<Rightarrow> u64 \<times> u64 \<times> u64 \<times> u64" where
  "md5_step f block kts abcd =
     (case (kts, abcd) of ((k, t, s), (a, b, c, d)) \<Rightarrow>
        let a1 = a + (f b c d + block ! k + t);
            a2 = push_bit s a1 OR drop_bit (32 - s) (a1 AND 0xffffffff);
            a3 = a2 + b
        in (d, a3, b, c))"

definition md5_round1 :: "(nat \<times> u64 \<times> nat) list" where
  "md5_round1 = [
    (0, 0xd76aa478, 7), (1, 0xe8c7b756, 12), (2, 0x242070db, 17), (3, 0xc1bdceee, 22),
    (4, 0xf57c0faf, 7), (5, 0x4787c62a, 12), (6, 0xa8304613, 17), (7, 0xfd469501, 22),
    (8, 0x698098d8, 7), (9, 0x8b44f7af, 12), (10, 0xffff5bb1, 17), (11, 0x895cd7be, 22),
    (12, 0x6b901122, 7), (13, 0xfd987193, 12), (14, 0xa679438e, 17), (15, 0x49b40821, 22)]"

definition md5_round2 :: "(nat \<times> u64 \<times> nat) list" where
  "md5_round2 = [
    (1, 0xf61e2562, 5), (6, 0xc040b340, 9), (11, 0x265e5a51, 14), (0, 0xe9b6c7aa, 20),
    (5, 0xd62f105d, 5), (10, 0x02441453, 9), (15, 0xd8a1e681, 14), (4, 0xe7d3fbc8, 20),
    (9, 0x21e1cde6, 5), (14, 0xc33707d6, 9), (3, 0xf4d50d87, 14), (8, 0x455a14ed, 20),
    (13, 0xa9e3e905, 5), (2, 0xfcefa3f8, 9), (7, 0x676f02d9, 14), (12, 0x8d2a4c8a, 20)]"

definition md5_round3 :: "(nat \<times> u64 \<times> nat) list" where
  "md5_round3 = [
    (5, 0xfffa3942, 4), (8, 0x8771f681, 11), (11, 0x6d9d6122, 16), (14, 0xfde5380c, 23),
    (1, 0xa4beea44, 4), (4, 0x4bdecfa9, 11), (7, 0xf6bb4b60, 16), (10, 0xbebfbc70, 23),
    (13, 0x289b7ec6, 4), (0, 0xeaa127fa, 11), (3, 0xd4ef3085, 16), (6, 0x04881d05, 23),
    (9, 0xd9d4d039, 4), (12, 0xe6db99e5, 11), (15, 0x1fa27cf8, 16), (2, 0xc4ac5665, 23)]"

definition md5_round4 :: "(nat \<times> u64 \<times> nat) list" where
  "md5_round4 = [
    (0, 0xf4292244, 6), (7, 0x432aff97, 10), (14, 0xab9423a7, 15), (5, 0xfc93a039, 21),
    (12, 0x655b59c3, 6), (3, 0x8f0ccc92, 10), (10, 0xffeff47d, 15), (1, 0x85845dd1, 21),
    (8, 0x6fa87e4f, 6), (15, 0xfe2ce6e0, 10), (6, 0xa3014314, 15), (13, 0x4e0811a1, 21),
    (4, 0xf7537e82, 6), (11, 0xbd3af235, 10), (2, 0x2ad7d2bb, 15), (9, 0xeb86d391, 21)]"

definition md5_set :: "bytes \<Rightarrow> nat \<Rightarrow> u64" where
  "md5_set ptr n = ucast (ptr ! (n * 4)) OR push_bit 8 (ucast (ptr ! (n * 4 + 1)))
     OR push_bit 16 (ucast (ptr ! (n * 4 + 2))) OR push_bit 24 (ucast (ptr ! (n * 4 + 3)))"

definition md5_block :: "bytes \<Rightarrow> u64 \<times> u64 \<times> u64 \<times> u64 \<Rightarrow> u64 \<times> u64 \<times> u64 \<times> u64" where
  "md5_block ptr saved =
     (let block = map (md5_set ptr) [0..<16];
          r1 = fold (md5_step md5_F block) md5_round1 saved;
          r2 = fold (md5_step md5_G block) md5_round2 r1;
          r3 = fold (md5_step md5_H block) md5_round3 r2;
          r4 = fold (md5_step md5_I block) md5_round4 r3
      in case (r4, saved) of ((a, b, c, d), (sa, sb, sc, sd)) \<Rightarrow> (a + sa, b + sb, c + sc, d + sd))"

text \<open>\<open>data\<close> is the region of \<^verbatim>\<open>size\<close> bytes, a positive multiple of 64.\<close>

fun md5_body :: "bytes \<Rightarrow> u64 \<times> u64 \<times> u64 \<times> u64 \<Rightarrow> u64 \<times> u64 \<times> u64 \<times> u64" where
  "md5_body data abcd =
     (let abcd' = md5_block (take 64 data) abcd
      in if length data \<le> 64 then abcd' else md5_body (drop 64 data) abcd')"

declare md5_body.simps [simp del]

definition md5_init :: "md5_ctx \<Rightarrow> md5_ctx" where
  "md5_init ctx = ctx\<lparr>md5_abcd := (0x67452301, 0xefcdab89, 0x98badcfe, 0x10325476), md5_lo := 0, md5_hi := 0\<rparr>"

definition md5_update_tail :: "bytes \<Rightarrow> md5_ctx \<Rightarrow> md5_ctx" where
  "md5_update_tail data ctx =
     (let k = length data - length data mod 64;
          ctx1 = (if length data \<ge> 64 then ctx\<lparr>md5_abcd := md5_body (take k data) (md5_abcd ctx)\<rparr> else ctx);
          rest = (if length data \<ge> 64 then drop k data else data)
      in ctx1\<lparr>md5_buffer := buf_write (md5_buffer ctx1) 0 rest\<rparr>)"

definition md5_update :: "md5_ctx \<Rightarrow> bytes \<Rightarrow> md5_ctx" where
  "md5_update ctx data =
     (let saved_lo = md5_lo ctx;
          sz = of_nat (length data) :: u64;
          lo = (saved_lo + sz) AND 0x1fffffff;
          hi = (if lo < saved_lo then md5_hi ctx + 1 else md5_hi ctx) + drop_bit 29 sz;
          ctx1 = ctx\<lparr>md5_lo := lo, md5_hi := hi\<rparr>;
          used = unat (saved_lo AND 0x3f);
          free = 64 - used
      in if used \<noteq> 0
         then if length data < free then ctx1\<lparr>md5_buffer := buf_write (md5_buffer ctx1) used data\<rparr>
              else let buf = buf_write (md5_buffer ctx1) used (take free data);
                       ctx2 = ctx1\<lparr>md5_buffer := buf, md5_abcd := md5_body buf (md5_abcd ctx1)\<rparr>
                   in md5_update_tail (drop free data) ctx2
         else md5_update_tail data ctx1)"

definition md5_word_out :: "u64 \<Rightarrow> bytes" where
  "md5_word_out x = [ucast x, ucast (drop_bit 8 x), ucast (drop_bit 16 x), ucast (drop_bit 24 x)]"

definition md5_final :: "md5_ctx \<Rightarrow> bytes" where
  "md5_final ctx =
     (let used = unat (md5_lo ctx AND 0x3f);
          buf1 = buf_write (md5_buffer ctx) used [0x80];
          used1 = used + 1;
          free = 64 - used1;
          (abcd, buf2, used2, free2) =
            (if free < 8
             then let b = buf_write buf1 used1 (replicate free 0)
                  in (md5_body b (md5_abcd ctx), b, 0, 64)
             else (md5_abcd ctx, buf1, used1, free));
          buf3 = buf_write buf2 used2 (replicate (free2 - 8) 0);
          lo = push_bit 3 (md5_lo ctx);
          buf4 = buf_write buf3 56 (md5_word_out lo @ md5_word_out (md5_hi ctx));
          (a, b, c, d) = md5_body buf4 abcd
      in md5_word_out a @ md5_word_out b @ md5_word_out c @ md5_word_out d)"

subsection \<open>SHA-1\<close>

record sha1_ctx =
  sha1_buffer :: "u32 list"
  sha1_state :: "u32 \<times> u32 \<times> u32 \<times> u32 \<times> u32"
  sha1_byteCount :: u64
  sha1_bufferOffset :: byte

definition sha1_rol32 :: "u32 \<Rightarrow> nat \<Rightarrow> u32" where
  "sha1_rol32 number bits = push_bit bits number OR drop_bit (32 - bits) number"

definition sha1_f :: "nat \<Rightarrow> u32 \<Rightarrow> u32 \<Rightarrow> u32 \<Rightarrow> u32" where
  "sha1_f i b c d =
     (if i < 20 then (d XOR (b AND (c XOR d))) + 0x5a827999
      else if i < 40 then (b XOR c XOR d) + 0x6ed9eba1
      else if i < 60 then ((b AND c) OR (d AND (b OR c))) + 0x8f1bbcdc
      else (b XOR c XOR d) + 0xca62c1d6)"

definition sha1_iter ::
  "nat \<Rightarrow> u32 list \<times> u32 \<times> u32 \<times> u32 \<times> u32 \<times> u32 \<Rightarrow> u32 list \<times> u32 \<times> u32 \<times> u32 \<times> u32 \<times> u32" where
  "sha1_iter i st =
     (case st of (buf, a, b, c, d, e) \<Rightarrow>
        let buf' = (if i \<ge> 16
                    then buf[i mod 16 := sha1_rol32 (buf ! ((i + 13) mod 16) XOR buf ! ((i + 8) mod 16)
                                                      XOR buf ! ((i + 2) mod 16) XOR buf ! (i mod 16)) 1]
                    else buf);
            t = sha1_f i b c d + (sha1_rol32 a 5 + e + buf' ! (i mod 16))
        in (buf', t, a, sha1_rol32 b 30, c, d))"

definition sha1_hash_block :: "sha1_ctx \<Rightarrow> sha1_ctx" where
  "sha1_hash_block s =
     (case (sha1_state s, fold sha1_iter [0..<80] (sha1_buffer s, sha1_state s)) of
        ((a0, b0, c0, d0, e0), (buf, a, b, c, d, e)) \<Rightarrow>
          s\<lparr>sha1_buffer := buf, sha1_state := (a0 + a, b0 + b, c0 + c, d0 + d, e0 + e)\<rparr>)"

text \<open>Byte \<open>j\<close> of the little-endian word array.\<close>

definition put_byte :: "u32 list \<Rightarrow> nat \<Rightarrow> byte \<Rightarrow> u32 list" where
  "put_byte ws j v =
     (let k = 8 * (j mod 4); w = ws ! (j div 4)
      in ws[j div 4 := (w AND NOT (push_bit k 0xFF)) OR push_bit k (ucast v)])"

definition sha1_add_uncounted :: "sha1_ctx \<Rightarrow> byte \<Rightarrow> sha1_ctx" where
  "sha1_add_uncounted s v =
     (let s1 = s\<lparr>sha1_buffer := put_byte (sha1_buffer s) (unat (sha1_bufferOffset s XOR 3)) v,
                 sha1_bufferOffset := sha1_bufferOffset s + 1\<rparr>
      in if sha1_bufferOffset s1 = 64 then (sha1_hash_block s1)\<lparr>sha1_bufferOffset := 0\<rparr> else s1)"

definition sha1_init :: "sha1_ctx \<Rightarrow> sha1_ctx" where
  "sha1_init s = s\<lparr>sha1_state := (0x67452301, 0xefcdab89, 0x98badcfe, 0x10325476, 0xc3d2e1f0),
     sha1_byteCount := 0, sha1_bufferOffset := 0\<rparr>"

definition sha1_update_byte :: "byte \<Rightarrow> sha1_ctx \<Rightarrow> sha1_ctx" where
  "sha1_update_byte v s = sha1_add_uncounted (s\<lparr>sha1_byteCount := sha1_byteCount s + 1\<rparr>) v"

definition sha1_update :: "sha1_ctx \<Rightarrow> bytes \<Rightarrow> sha1_ctx" where
  "sha1_update s data = fold sha1_update_byte data s"

text \<open>The padding loop; its measure is the distance of the offset to 56, through a reset at 64 or a wrap
  of the 8 bit offset.\<close>

lemma sha1_add_offset:
  "sha1_bufferOffset (sha1_add_uncounted s v) = (if sha1_bufferOffset s = 63 then 0 else sha1_bufferOffset s + 1)"
proof -
  have "sha1_bufferOffset s + 1 = 64 \<longleftrightarrow> sha1_bufferOffset s = 63"
    using eq_diff_eq [of "sha1_bufferOffset s" 64 1] by simp
  then show ?thesis by (simp add: sha1_add_uncounted_def Let_def sha1_hash_block_def split: prod.splits)
qed

definition pad_distance :: "byte \<Rightarrow> nat" where
  "pad_distance off = (if unat off \<le> 56 then 56 - unat off else if unat off < 64 then 121 - unat off else 400 - unat off)"

lemma pad_distance_decreases:
  assumes "off \<noteq> 56"
  shows "pad_distance (if off = 63 then 0 else off + 1) < pad_distance off"
proof -
  have "unat off \<noteq> 56" using assms by (simp add: word_unat_eq_iff)
  moreover have "off = 63 \<longleftrightarrow> unat off = 63" by (simp add: word_unat_eq_iff)
  moreover have "unat off < 256" using unsigned_less [of off] by simp
  moreover have "unat (off + 1) = (if unat off = 255 then 0 else unat off + 1)"
    by (simp add: unat_word_ariths) (use calculation(3) in auto)
  ultimately show ?thesis by (auto simp: pad_distance_def)
qed

function sha1_pad_loop :: "sha1_ctx \<Rightarrow> sha1_ctx" where
  "sha1_pad_loop s = (if sha1_bufferOffset s \<noteq> 56 then sha1_pad_loop (sha1_add_uncounted s 0) else s)"
  by pat_completeness auto
termination
  by (relation "measure (\<lambda>s. pad_distance (sha1_bufferOffset s))")
    (simp_all add: sha1_add_offset pad_distance_decreases)

declare sha1_pad_loop.simps [simp del]

definition sha1_count_bytes :: "u64 \<Rightarrow> bytes" where
  "sha1_count_bytes n = [ucast (drop_bit 53 n), ucast (drop_bit 45 n), ucast (drop_bit 37 n), ucast (drop_bit 29 n),
     ucast (drop_bit 21 n), ucast (drop_bit 13 n), ucast (drop_bit 5 n), ucast (push_bit 3 n)]"

definition sha1_swap :: "u32 \<Rightarrow> u32" where
  "sha1_swap x = (push_bit 24 x AND 0xff000000) OR (push_bit 8 x AND 0x00ff0000)
     OR (drop_bit 8 x AND 0x0000ff00) OR (drop_bit 24 x AND 0x000000ff)"

definition sha1_final :: "sha1_ctx \<Rightarrow> bytes" where
  "sha1_final s =
     (let s1 = sha1_pad_loop (sha1_add_uncounted s 0x80);
          s2 = fold (\<lambda>v t. sha1_add_uncounted t v) (sha1_count_bytes (sha1_byteCount s1)) s1;
          (a, b, c, d, e) = sha1_state s2
      in concat (map (\<lambda>x. mem32 (sha1_swap x)) [a, b, c, d, e]))"

subsection \<open>SHA-256 and SHA-224\<close>

record sha256_ctx =
  sha256_length :: u64
  sha256_state :: "u32 list"
  sha256_curlen :: nat
  sha256_buf :: bytes

definition sha256_ch :: "u32 \<Rightarrow> u32 \<Rightarrow> u32 \<Rightarrow> u32" where "sha256_ch x y z = z XOR (x AND (y XOR z))"
definition sha256_maj :: "u32 \<Rightarrow> u32 \<Rightarrow> u32 \<Rightarrow> u32" where "sha256_maj x y z = ((x OR y) AND z) OR (x AND y)"
definition sha256_s :: "u32 \<Rightarrow> nat \<Rightarrow> u32" where "sha256_s x y = drop_bit y x OR push_bit (32 - y) x"
definition sha256_sigma0 :: "u32 \<Rightarrow> u32" where "sha256_sigma0 x = sha256_s x 2 XOR sha256_s x 13 XOR sha256_s x 22"
definition sha256_sigma1 :: "u32 \<Rightarrow> u32" where "sha256_sigma1 x = sha256_s x 6 XOR sha256_s x 11 XOR sha256_s x 25"
definition sha256_gamma0 :: "u32 \<Rightarrow> u32" where "sha256_gamma0 x = sha256_s x 7 XOR sha256_s x 18 XOR drop_bit 3 x"
definition sha256_gamma1 :: "u32 \<Rightarrow> u32" where "sha256_gamma1 x = sha256_s x 17 XOR sha256_s x 19 XOR drop_bit 10 x"

definition sha256_K :: "u32 list" where
  "sha256_K = concat [
    [0x428a2f98, 0x71374491, 0xb5c0fbcf, 0xe9b5dba5, 0x3956c25b, 0x59f111f1, 0x923f82a4, 0xab1c5ed5],
    [0xd807aa98, 0x12835b01, 0x243185be, 0x550c7dc3, 0x72be5d74, 0x80deb1fe, 0x9bdc06a7, 0xc19bf174],
    [0xe49b69c1, 0xefbe4786, 0x0fc19dc6, 0x240ca1cc, 0x2de92c6f, 0x4a7484aa, 0x5cb0a9dc, 0x76f988da],
    [0x983e5152, 0xa831c66d, 0xb00327c8, 0xbf597fc7, 0xc6e00bf3, 0xd5a79147, 0x06ca6351, 0x14292967],
    [0x27b70a85, 0x2e1b2138, 0x4d2c6dfc, 0x53380d13, 0x650a7354, 0x766a0abb, 0x81c2c92e, 0x92722c85],
    [0xa2bfe8a1, 0xa81a664b, 0xc24b8b70, 0xc76c51a3, 0xd192e819, 0xd6990624, 0xf40e3585, 0x106aa070],
    [0x19a4c116, 0x1e376c08, 0x2748774c, 0x34b0bcb5, 0x391c0cb3, 0x4ed8aa4a, 0x5b9cca4f, 0x682e6ff3],
    [0x748f82ee, 0x78a5636f, 0x84c87814, 0x8cc70208, 0x90befffa, 0xa4506ceb, 0xbef9a3f7, 0xc67178f2]]"

definition sha256_W0 :: "bytes \<Rightarrow> u32 list" where
  "sha256_W0 buf = map (\<lambda>i. rd32 (drop (4 * i) buf)) [0..<16]"

text \<open>\<open>W\<close> grows by one word per iteration.\<close>

definition sha256_extend :: "nat \<Rightarrow> u32 list \<Rightarrow> u32 list" where
  "sha256_extend i W =
     W @ [sha256_gamma1 (W ! (i - 2)) + W ! (i - 7) + sha256_gamma0 (W ! (i - 15)) + W ! (i - 16)]"

fun sha256_rnd :: "u32 \<times> u32 \<Rightarrow> u32 list \<Rightarrow> u32 list" where
  "sha256_rnd (k, w) [a, b, c, d, e, f, g, h] =
     (let t0 = h + sha256_sigma1 e + sha256_ch e f g + k + w;
          t1 = sha256_sigma0 a + sha256_maj a b c
      in [t0 + t1, a, b, c, d + t0, e, f, g])"
| "sha256_rnd _ S = S"

definition sha256_compress :: "bytes \<Rightarrow> u32 list \<Rightarrow> u32 list" where
  "sha256_compress buf state =
     (let W = fold sha256_extend [16..<64] (sha256_W0 buf);
          S = fold sha256_rnd (zip sha256_K W) state
      in map2 (+) state S)"

definition sha256_init :: "sha256_ctx \<Rightarrow> sha256_ctx" where
  "sha256_init ctx = ctx\<lparr>sha256_curlen := 0, sha256_length := 0,
     sha256_state := [0x6A09E667, 0xBB67AE85, 0x3C6EF372, 0xA54FF53A, 0x510E527F, 0x9B05688C, 0x1F83D9AB, 0x5BE0CD19]\<rparr>"

definition sha224_init :: "sha256_ctx \<Rightarrow> sha256_ctx" where
  "sha224_init ctx = ctx\<lparr>sha256_curlen := 0, sha256_length := 0,
     sha256_state := [0xc1059ed8, 0x367cd507, 0x3070dd17, 0xf70e5939, 0xffc00b31, 0x68581511, 0x64f98fa7, 0xbefa4fa4]\<rparr>"

text \<open>\<^verbatim>\<open>curlen\<close> and \<open>n\<close> are unsigned: were the buffer over-full, \<open>64 - curlen\<close> would wrap to more than \<^verbatim>\<open>len\<close>.\<close>

function sha256_update :: "sha256_ctx \<Rightarrow> bytes \<Rightarrow> sha256_ctx" where
  "sha256_update ctx data =
     (if data = [] then ctx
      else if sha256_curlen ctx = 0 \<and> length data \<ge> 64
      then sha256_update (ctx\<lparr>sha256_state := sha256_compress (take 64 data) (sha256_state ctx),
                              sha256_length := sha256_length ctx + 64 * 8\<rparr>) (drop 64 data)
      else let n = (if sha256_curlen ctx > 64 \<or> 64 - sha256_curlen ctx > length data then length data
                    else 64 - sha256_curlen ctx);
               ctx1 = ctx\<lparr>sha256_buf := buf_write (sha256_buf ctx) (sha256_curlen ctx) (take n data),
                          sha256_curlen := sha256_curlen ctx + n\<rparr>;
               ctx2 = (if sha256_curlen ctx1 = 64
                       then ctx1\<lparr>sha256_state := sha256_compress (sha256_buf ctx1) (sha256_state ctx1),
                                 sha256_length := sha256_length ctx1 + 8 * 64, sha256_curlen := 0\<rparr>
                       else ctx1)
           in sha256_update ctx2 (drop n data))"
  by pat_completeness auto
termination
  by (relation "measure (\<lambda>(ctx, data). 2 * length data + (if sha256_curlen ctx = 64 then 1 else 0))")
    (auto split: if_splits)

declare sha256_update.simps [simp del]

definition sha256_do_final :: "sha256_ctx \<Rightarrow> nat \<Rightarrow> bytes" where
  "sha256_do_final ctx len =
     (let total = sha256_length ctx + of_nat (sha256_curlen ctx * 8);
          buf1 = buf_write (sha256_buf ctx) (sha256_curlen ctx) [0x80];
          cur1 = sha256_curlen ctx + 1;
          (state2, buf2, cur2) =
            (if cur1 > 56
             then let b = buf_write buf1 cur1 (replicate (64 - cur1) 0)
                  in (sha256_compress b (sha256_state ctx), b, 0)
             else (sha256_state ctx, buf1, cur1));
          buf3 = buf_write buf2 cur2 (replicate (56 - cur2) 0);
          buf4 = buf_write buf3 56 (net64 total);
          state4 = sha256_compress buf4 state2
      in concat (map net32 (take (len div 4) state4)))"

definition sha256_final :: "sha256_ctx \<Rightarrow> bytes" where "sha256_final ctx = sha256_do_final ctx 32"
definition sha224_final :: "sha256_ctx \<Rightarrow> bytes" where "sha224_final ctx = sha256_do_final ctx 28"

subsection \<open>HMAC\<close>

text \<open>\<open>initf\<close>, \<open>update\<close> and \<open>final\<close> are the function pointers of the context; all block lengths are 64.\<close>

definition hmac_key_block :: "('c \<Rightarrow> 'c) \<Rightarrow> ('c \<Rightarrow> bytes \<Rightarrow> 'c) \<Rightarrow> ('c \<Rightarrow> bytes) \<Rightarrow> 'c \<Rightarrow> bytes \<Rightarrow> bytes" where
  "hmac_key_block initf update final u key =
     (if length key > 64 then buf_write (replicate 64 0) 0 (final (update (initf u) key))
      else buf_write (replicate 64 0) 0 key)"

definition hmac_apply_key :: "('c \<Rightarrow> bytes \<Rightarrow> 'c) \<Rightarrow> bytes \<Rightarrow> byte \<Rightarrow> 'c \<Rightarrow> 'c" where
  "hmac_apply_key update key delta ctx = update ctx (map (\<lambda>b. b XOR delta) key)"

definition picohash_hmac ::
  "('c \<Rightarrow> 'c) \<Rightarrow> ('c \<Rightarrow> bytes \<Rightarrow> 'c) \<Rightarrow> ('c \<Rightarrow> bytes) \<Rightarrow> 'c \<Rightarrow> bytes \<Rightarrow> bytes \<Rightarrow> bytes" where
  "picohash_hmac initf update final u key message =
     (let k = hmac_key_block initf update final u key;
          ctx = hmac_apply_key update k 0x36 (initf u);
          inner_digest = final (update ctx message);
          ctx2 = hmac_apply_key update k 0x5c (initf u)
      in final (update ctx2 inner_digest))"

subsection \<open>The entry points\<close>

text \<open>Stack memory before initialisation.\<close>

definition md5_stack :: md5_ctx where
  "md5_stack = \<lparr>md5_lo = 0, md5_hi = 0, md5_abcd = (0, 0, 0, 0), md5_buffer = replicate 64 0\<rparr>"
definition sha1_stack :: sha1_ctx where
  "sha1_stack = \<lparr>sha1_buffer = replicate 16 0, sha1_state = (0, 0, 0, 0, 0), sha1_byteCount = 0, sha1_bufferOffset = 0\<rparr>"
definition sha256_stack :: sha256_ctx where
  "sha256_stack = \<lparr>sha256_length = 0, sha256_state = replicate 8 0, sha256_curlen = 0, sha256_buf = replicate 64 0\<rparr>"

definition juice_hash_md5 :: "bytes \<Rightarrow> bytes" where
  "juice_hash_md5 message = md5_final (md5_update (md5_init md5_stack) message)"
definition juice_hash_sha1 :: "bytes \<Rightarrow> bytes" where
  "juice_hash_sha1 message = sha1_final (sha1_update (sha1_init sha1_stack) message)"
definition juice_hash_sha256 :: "bytes \<Rightarrow> bytes" where
  "juice_hash_sha256 message = sha256_final (sha256_update (sha256_init sha256_stack) message)"
definition hmac_sha1 :: "bytes \<Rightarrow> bytes \<Rightarrow> bytes" where
  "hmac_sha1 message key = picohash_hmac sha1_init sha1_update sha1_final sha1_stack key message"
definition hmac_sha256 :: "bytes \<Rightarrow> bytes \<Rightarrow> bytes" where
  "hmac_sha256 message key = picohash_hmac sha256_init sha256_update sha256_final sha256_stack key message"

subsection \<open>Digest lengths\<close>

lemma length_md5 [simp]: "length (juice_hash_md5 m) = 16"
  by (simp add: juice_hash_md5_def md5_final_def Let_def md5_word_out_def split: prod.split)

lemma length_sha1_final [simp]: "length (sha1_final s) = 20"
  by (simp add: sha1_final_def Let_def split: prod.split)

lemma length_hmac_sha1 [simp]: "length (hmac_sha1 m k) = 20"
  by (simp add: hmac_sha1_def picohash_hmac_def Let_def)

lemma sha256_rnd_length: "length S = 8 \<Longrightarrow> length (sha256_rnd kw S) = 8"
  by (cases "(kw, S)" rule: sha256_rnd.cases) (auto simp: Let_def)

lemma sha256_compress_length [simp]: "length S = 8 \<Longrightarrow> length (sha256_compress buf S) = 8"
proof -
  have "length S = 8 \<Longrightarrow> length (fold sha256_rnd kws S) = 8" for kws
    by (induction kws arbitrary: S) (simp_all add: sha256_rnd_length)
  then show "length S = 8 \<Longrightarrow> length (sha256_compress buf S) = 8" by (simp add: sha256_compress_def Let_def)
qed

lemma sha256_update_length:
  "length (sha256_state ctx) = 8 \<Longrightarrow> length (sha256_state (sha256_update ctx data)) = 8"
proof (induction ctx data rule: sha256_update.induct)
  case (1 ctx data)
  show ?case
    using 1 by (subst sha256_update.simps) (simp add: Let_def)
qed

lemma length_sha256_final [simp]: "length (sha256_state ctx) = 8 \<Longrightarrow> length (sha256_final ctx) = 32"
proof -
  have "length (concat (map net32 xs)) = 4 * length xs" for xs by (induction xs) simp_all
  then show "length (sha256_state ctx) = 8 \<Longrightarrow> length (sha256_final ctx) = 32"
    by (simp add: sha256_final_def sha256_do_final_def Let_def)
qed

lemma sha256_init_length [simp]: "length (sha256_state (sha256_init u)) = 8"
  by (simp add: sha256_init_def)

lemma length_sha256 [simp]: "length (juice_hash_sha256 m) = 32"
  by (simp add: juice_hash_sha256_def sha256_update_length)

lemma length_hmac_sha256 [simp]: "length (hmac_sha256 m k) = 32"
  by (simp add: hmac_sha256_def picohash_hmac_def Let_def hmac_apply_key_def sha256_update_length)

end
