(* ===== verification/Stun.thy ===== *)
theory Stun
  imports Addr Base64 Crc32 Const_Time Picohash
begin

text \<open>
  \<^verbatim>\<open>libjuice/src/stun.h\<close> and the writing half of \<^verbatim>\<open>stun.c\<close>: STUN messages, their credentials and how
  \<open>stun_write\<close> lays them out.  \<open>Stun_Read\<close> has the reading half, \<open>Stun_Props\<close> the theorems.

  Numeric enumerations are the 16 bit words on the wire.  A character array that holds a C string is
  the string's bytes before its terminator.  A buffer is the list of its bytes, a pointer into it an
  offset; \<open>None\<close> is an access outside the buffer.  An \<^verbatim>\<open>int\<close> assigned to a \<^verbatim>\<open>size_t\<close> is converted as C
  converts it, since \<open>stun_write\<close> tests such a value.
\<close>

subsection \<open>Constants\<close>

definition STUN_CLASS_REQUEST :: u16 where "STUN_CLASS_REQUEST = 0x0000"
definition STUN_CLASS_INDICATION :: u16 where "STUN_CLASS_INDICATION = 0x0010"
definition STUN_CLASS_RESP_SUCCESS :: u16 where "STUN_CLASS_RESP_SUCCESS = 0x0100"
definition STUN_CLASS_RESP_ERROR :: u16 where "STUN_CLASS_RESP_ERROR = 0x0110"
definition STUN_METHOD_BINDING :: u16 where "STUN_METHOD_BINDING = 0x0001"
definition STUN_METHOD_ALLOCATE :: u16 where "STUN_METHOD_ALLOCATE = 0x003"
definition STUN_METHOD_REFRESH :: u16 where "STUN_METHOD_REFRESH = 0x004"
definition STUN_METHOD_SEND :: u16 where "STUN_METHOD_SEND = 0x006"
definition STUN_METHOD_DATA :: u16 where "STUN_METHOD_DATA = 0x007"
definition STUN_METHOD_CREATE_PERMISSION :: u16 where "STUN_METHOD_CREATE_PERMISSION = 0x008"
definition STUN_METHOD_CHANNEL_BIND :: u16 where "STUN_METHOD_CHANNEL_BIND = 0x009"
definition STUN_ATTR_MAPPED_ADDRESS :: u16 where "STUN_ATTR_MAPPED_ADDRESS = 0x0001"
definition STUN_ATTR_USERNAME :: u16 where "STUN_ATTR_USERNAME = 0x0006"
definition STUN_ATTR_MESSAGE_INTEGRITY :: u16 where "STUN_ATTR_MESSAGE_INTEGRITY = 0x0008"
definition STUN_ATTR_ERROR_CODE :: u16 where "STUN_ATTR_ERROR_CODE = 0x0009"
definition STUN_ATTR_UNKNOWN_ATTRIBUTES :: u16 where "STUN_ATTR_UNKNOWN_ATTRIBUTES = 0x000A"
definition STUN_ATTR_REALM :: u16 where "STUN_ATTR_REALM = 0x0014"
definition STUN_ATTR_NONCE :: u16 where "STUN_ATTR_NONCE = 0x0015"
definition STUN_ATTR_MESSAGE_INTEGRITY_SHA256 :: u16 where "STUN_ATTR_MESSAGE_INTEGRITY_SHA256 = 0x001C"
definition STUN_ATTR_PASSWORD_ALGORITHM :: u16 where "STUN_ATTR_PASSWORD_ALGORITHM = 0x001D"
definition STUN_ATTR_USERHASH :: u16 where "STUN_ATTR_USERHASH = 0x001E"
definition STUN_ATTR_XOR_MAPPED_ADDRESS :: u16 where "STUN_ATTR_XOR_MAPPED_ADDRESS = 0x0020"
definition STUN_ATTR_PRIORITY :: u16 where "STUN_ATTR_PRIORITY = 0x0024"
definition STUN_ATTR_USE_CANDIDATE :: u16 where "STUN_ATTR_USE_CANDIDATE = 0x0025"
definition STUN_ATTR_PASSWORD_ALGORITHMS :: u16 where "STUN_ATTR_PASSWORD_ALGORITHMS = 0x8002"
definition STUN_ATTR_ALTERNATE_DOMAIN :: u16 where "STUN_ATTR_ALTERNATE_DOMAIN = 0x8003"
definition STUN_ATTR_SOFTWARE :: u16 where "STUN_ATTR_SOFTWARE = 0x8022"
definition STUN_ATTR_ALTERNATE_SERVER :: u16 where "STUN_ATTR_ALTERNATE_SERVER = 0x8023"
definition STUN_ATTR_FINGERPRINT :: u16 where "STUN_ATTR_FINGERPRINT = 0x8028"
definition STUN_ATTR_ICE_CONTROLLED :: u16 where "STUN_ATTR_ICE_CONTROLLED = 0x8029"
definition STUN_ATTR_ICE_CONTROLLING :: u16 where "STUN_ATTR_ICE_CONTROLLING = 0x802A"
definition STUN_ATTR_CHANNEL_NUMBER :: u16 where "STUN_ATTR_CHANNEL_NUMBER = 0x000C"
definition STUN_ATTR_LIFETIME :: u16 where "STUN_ATTR_LIFETIME = 0x000D"
definition STUN_ATTR_XOR_PEER_ADDRESS :: u16 where "STUN_ATTR_XOR_PEER_ADDRESS = 0x0012"
definition STUN_ATTR_DATA :: u16 where "STUN_ATTR_DATA = 0x0013"
definition STUN_ATTR_XOR_RELAYED_ADDRESS :: u16 where "STUN_ATTR_XOR_RELAYED_ADDRESS = 0x0016"
definition STUN_ATTR_EVEN_PORT :: u16 where "STUN_ATTR_EVEN_PORT = 0x0018"
definition STUN_ATTR_REQUESTED_TRANSPORT :: u16 where "STUN_ATTR_REQUESTED_TRANSPORT = 0x0019"
definition STUN_ATTR_DONT_FRAGMENT :: u16 where "STUN_ATTR_DONT_FRAGMENT = 0x001A"
definition STUN_ATTR_RESERVATION_TOKEN :: u16 where "STUN_ATTR_RESERVATION_TOKEN = 0x0022"
definition STUN_PASSWORD_ALGORITHM_UNSET :: u16 where "STUN_PASSWORD_ALGORITHM_UNSET = 0x0000"
definition STUN_PASSWORD_ALGORITHM_MD5 :: u16 where "STUN_PASSWORD_ALGORITHM_MD5 = 0x0001"
definition STUN_PASSWORD_ALGORITHM_SHA256 :: u16 where "STUN_PASSWORD_ALGORITHM_SHA256 = 0x0002"

lemmas stun_consts =
  STUN_CLASS_REQUEST_def STUN_CLASS_INDICATION_def STUN_CLASS_RESP_SUCCESS_def
  STUN_CLASS_RESP_ERROR_def STUN_METHOD_BINDING_def STUN_METHOD_ALLOCATE_def
  STUN_METHOD_REFRESH_def STUN_METHOD_SEND_def STUN_METHOD_DATA_def
  STUN_METHOD_CREATE_PERMISSION_def STUN_METHOD_CHANNEL_BIND_def STUN_ATTR_MAPPED_ADDRESS_def
  STUN_ATTR_USERNAME_def STUN_ATTR_MESSAGE_INTEGRITY_def STUN_ATTR_ERROR_CODE_def
  STUN_ATTR_UNKNOWN_ATTRIBUTES_def STUN_ATTR_REALM_def STUN_ATTR_NONCE_def
  STUN_ATTR_MESSAGE_INTEGRITY_SHA256_def STUN_ATTR_PASSWORD_ALGORITHM_def STUN_ATTR_USERHASH_def
  STUN_ATTR_XOR_MAPPED_ADDRESS_def STUN_ATTR_PRIORITY_def STUN_ATTR_USE_CANDIDATE_def
  STUN_ATTR_PASSWORD_ALGORITHMS_def STUN_ATTR_ALTERNATE_DOMAIN_def STUN_ATTR_SOFTWARE_def
  STUN_ATTR_ALTERNATE_SERVER_def STUN_ATTR_FINGERPRINT_def STUN_ATTR_ICE_CONTROLLED_def
  STUN_ATTR_ICE_CONTROLLING_def STUN_ATTR_CHANNEL_NUMBER_def STUN_ATTR_LIFETIME_def
  STUN_ATTR_XOR_PEER_ADDRESS_def STUN_ATTR_DATA_def STUN_ATTR_XOR_RELAYED_ADDRESS_def
  STUN_ATTR_EVEN_PORT_def STUN_ATTR_REQUESTED_TRANSPORT_def STUN_ATTR_DONT_FRAGMENT_def
  STUN_ATTR_RESERVATION_TOKEN_def STUN_PASSWORD_ALGORITHM_UNSET_def STUN_PASSWORD_ALGORITHM_MD5_def
  STUN_PASSWORD_ALGORITHM_SHA256_def

definition STUN_MAGIC :: u32 where "STUN_MAGIC = 0x2112A442"
definition STUN_FINGERPRINT_XOR :: u32 where "STUN_FINGERPRINT_XOR = 0x5354554E"
definition STUN_CLASS_MASK :: u16 where "STUN_CLASS_MASK = 0x0110"
definition STUN_TRANSACTION_ID_SIZE :: nat where "STUN_TRANSACTION_ID_SIZE = 12"
definition STUN_HEADER_SIZE :: nat where "STUN_HEADER_SIZE = 20"
definition STUN_ATTR_SIZE :: nat where "STUN_ATTR_SIZE = 4"
definition STUN_MAX_USERNAME_LEN :: nat where "STUN_MAX_USERNAME_LEN = 513 + 1"
definition STUN_MAX_REALM_LEN :: nat where "STUN_MAX_REALM_LEN = 763 + 1"
definition STUN_MAX_NONCE_LEN :: nat where "STUN_MAX_NONCE_LEN = 763 + 1"
definition STUN_MAX_SOFTWARE_LEN :: nat where "STUN_MAX_SOFTWARE_LEN = 763 + 1"
definition STUN_MAX_PASSWORD_LEN :: nat where "STUN_MAX_PASSWORD_LEN = STUN_MAX_USERNAME_LEN"
definition STUN_MAX_PASSWORD_ALGORITHMS_VALUE_SIZE :: nat where "STUN_MAX_PASSWORD_ALGORITHMS_VALUE_SIZE = 256"
definition STUN_MAX_PEER_ADDRESSES :: nat where "STUN_MAX_PEER_ADDRESSES = 8"
definition STUN_ERROR_INTERNAL_VALIDATION_FAILED :: u32 where "STUN_ERROR_INTERNAL_VALIDATION_FAILED = 599"
definition MAX_HMAC_KEY_LEN :: nat where "MAX_HMAC_KEY_LEN = STUN_MAX_PASSWORD_LEN"
definition MAX_HMAC_INPUT_LEN :: nat where
  "MAX_HMAC_INPUT_LEN = STUN_MAX_USERNAME_LEN + STUN_MAX_REALM_LEN + STUN_MAX_PASSWORD_LEN + 2"
definition MAX_USERHASH_INPUT_LEN :: nat where "MAX_USERHASH_INPUT_LEN = STUN_MAX_USERNAME_LEN + STUN_MAX_REALM_LEN + 1"
definition HMAC_SHA1_SIZE :: nat where "HMAC_SHA1_SIZE = 20"
definition HMAC_SHA256_SIZE :: nat where "HMAC_SHA256_SIZE = 32"
definition USERHASH_SIZE :: nat where "USERHASH_SIZE = 32"

lemmas stun_sizes = STUN_TRANSACTION_ID_SIZE_def STUN_HEADER_SIZE_def STUN_ATTR_SIZE_def STUN_MAX_USERNAME_LEN_def
  STUN_MAX_REALM_LEN_def STUN_MAX_NONCE_LEN_def STUN_MAX_SOFTWARE_LEN_def STUN_MAX_PASSWORD_LEN_def
  STUN_MAX_PASSWORD_ALGORITHMS_VALUE_SIZE_def STUN_MAX_PEER_ADDRESSES_def MAX_HMAC_KEY_LEN_def MAX_HMAC_INPUT_LEN_def
  MAX_USERHASH_INPUT_LEN_def HMAC_SHA1_SIZE_def HMAC_SHA256_SIZE_def USERHASH_SIZE_def

definition STUN_IS_RESPONSE :: "u16 \<Rightarrow> bool" where
  "STUN_IS_RESPONSE msg_class \<longleftrightarrow> msg_class AND 0x0100 \<noteq> 0"

subsection \<open>Messages\<close>

record stun_credentials =
  username :: bytes
  realm :: bytes
  nonce :: bytes
  userhash :: bytes
  enable_userhash :: bool
  password_algorithm :: u16
  password_algorithms_value :: bytes

record stun_message =
  msg_class :: u16
  msg_method :: u16
  transaction_id :: bytes
  error_code :: u32
  priority :: u32
  ice_controlling :: u64
  ice_controlled :: u64
  use_candidate :: bool
  mapped :: addr_record
  credentials :: stun_credentials
  has_integrity :: bool
  has_fingerprint :: bool
  peers :: "addr_record list"
  relayed :: addr_record
  alternate_server :: addr_record
  msg_data :: "bytes option"
  lifetime :: u32
  channel_number :: u16
  lifetime_set :: bool
  even_port :: bool
  next_port :: bool
  dont_fragment :: bool
  requested_transport :: bool
  reservation_token :: u64

definition zero_record :: addr_record where
  "zero_record = \<lparr>ar_addr = SaOther 0, ar_len = 0, ar_socktype = 0\<rparr>"

definition zero_credentials :: stun_credentials where
  "zero_credentials = \<lparr>username = [], realm = [], nonce = [], userhash = replicate 32 0, enable_userhash = False,
     password_algorithm = 0, password_algorithms_value = []\<rparr>"

text \<open>The message after \<^verbatim>\<open>memset(msg, 0, sizeof(*msg))\<close>.\<close>

definition zero_message :: stun_message where
  "zero_message = \<lparr>msg_class = 0, msg_method = 0, transaction_id = replicate 12 0, error_code = 0, priority = 0,
     ice_controlling = 0, ice_controlled = 0, use_candidate = False, mapped = zero_record,
     credentials = zero_credentials, has_integrity = False, has_fingerprint = False, peers = [],
     relayed = zero_record, alternate_server = zero_record, msg_data = None, lifetime = 0, channel_number = 0,
     lifetime_set = False, even_port = False, next_port = False, dont_fragment = False,
     requested_transport = False, reservation_token = 0\<rparr>"

subsection \<open>Helpers\<close>

function align32 :: "nat \<Rightarrow> nat" where
  "align32 len = (if len mod 4 \<noteq> 0 then align32 (Suc len) else len)"
  by pat_completeness auto
termination by (relation "measure (\<lambda>len. (4 - len mod 4) mod 4)") (auto simp: mod_Suc split: if_splits)

declare align32.simps [simp del]

definition generate_mask :: "bytes \<Rightarrow> bytes" where
  "generate_mask tid = mem32 (htonl STUN_MAGIC) @ take 12 tid"

text \<open>The key; \<open>password\<close> is \<open>None\<close> for a null pointer.\<close>

definition generate_hmac_key :: "stun_message \<Rightarrow> bytes option \<Rightarrow> bytes" where
  "generate_hmac_key msg password =
     (let c = credentials msg; pw = (case password of None \<Rightarrow> [] | Some p \<Rightarrow> p) in
      if realm c \<noteq> []
      then let input = take (MAX_HMAC_INPUT_LEN - 1) (username c @ [0x3A] @ realm c @ [0x3A] @ pw)
           in if password_algorithm c = STUN_PASSWORD_ALGORITHM_SHA256 then juice_hash_sha256 input
              else juice_hash_md5 input
      else take (MAX_HMAC_KEY_LEN - 1) pw)"

definition generate_password_algorithms_attr :: bytes where
  "generate_password_algorithms_attr =
     mem16 (htons STUN_PASSWORD_ALGORITHM_SHA256) @ mem16 0 @ mem16 (htons STUN_PASSWORD_ALGORITHM_MD5) @ mem16 0"

definition stun_get_error_reason :: "u32 \<Rightarrow> bytes" where
  "stun_get_error_reason code =
     (if code = 0 then []
      else if code = 300 then str_bytes ''Try Alternate''
      else if code = 400 then str_bytes ''Bad Request''
      else if code = 401 then str_bytes ''Unauthenticated''
      else if code = 403 then str_bytes ''Forbidden''
      else if code = 420 then str_bytes ''Unknown Attribute''
      else if code = 437 then str_bytes ''Allocation Mismatch''
      else if code = 438 then str_bytes ''Stale Nonce''
      else if code = 440 then str_bytes ''Address Family not Supported''
      else if code = 441 then str_bytes ''Wrong credentials''
      else if code = 442 then str_bytes ''Unsupported Transport Protocol''
      else if code = 443 then str_bytes ''Peer Address Family Mismatch''
      else if code = 486 then str_bytes ''Allocation Quota Reached''
      else if code = 500 then str_bytes ''Server Error''
      else if code = 508 then str_bytes ''Insufficient Capacity''
      else str_bytes ''Error'')"

definition stun_compute_userhash :: "bytes \<Rightarrow> bytes \<Rightarrow> bytes" where
  "stun_compute_userhash user rlm = juice_hash_sha256 (take (MAX_USERHASH_INPUT_LEN - 1) (user @ [0x3A] @ rlm))"

definition stun_process_credentials :: "stun_credentials \<Rightarrow> stun_credentials \<Rightarrow> stun_credentials" where
  "stun_process_credentials cred dst =
     (let dst1 = cred\<lparr>username := username dst\<rparr>
      in if enable_userhash cred then dst1\<lparr>userhash := stun_compute_userhash (username dst) (realm cred)\<rparr> else dst1)"

definition STUN_NONCE_COOKIE :: bytes where "STUN_NONCE_COOKIE = str_bytes ''obMatJos2''"

definition STUN_SECURITY_PASSWORD_ALGORITHMS_BIT :: u32 where "STUN_SECURITY_PASSWORD_ALGORITHMS_BIT = 0x01"
definition STUN_SECURITY_USERNAME_ANONYMITY_BIT :: u32 where "STUN_SECURITY_USERNAME_ANONYMITY_BIT = 0x02"

text \<open>The nonce string after the call.\<close>

definition stun_prepend_nonce_cookie :: "bytes \<Rightarrow> bytes" where
  "stun_prepend_nonce_cookie nnc =
     (let bits = mem32 (htonl (STUN_SECURITY_PASSWORD_ALGORITHMS_BIT OR STUN_SECURITY_USERNAME_ANONYMITY_BIT));
          enc = cstr (snd (juice_base64_encode (take 3 (drop 1 bits)) 5))
      in take (STUN_MAX_NONCE_LEN - 1)
           (STUN_NONCE_COOKIE @ enc @ take (STUN_MAX_NONCE_LEN - (length STUN_NONCE_COOKIE + 5)) nnc))"

subsection \<open>Writing headers, attributes and addresses\<close>

definition stun_header_bytes :: "u16 \<Rightarrow> u16 \<Rightarrow> bytes \<Rightarrow> bytes" where
  "stun_header_bytes class method tid =
     mem16 (htons (class OR method)) @ mem16 (htons 0) @ mem32 (htonl STUN_MAGIC) @ take 12 tid"

text \<open>The result is the return value and the buffer; \<open>sz\<close> is the size argument, \<open>pos\<close> the offset of the
  pointer argument in the whole buffer.\<close>

definition stun_write_header :: "bytes \<Rightarrow> nat \<Rightarrow> nat \<Rightarrow> u16 \<Rightarrow> u16 \<Rightarrow> bytes \<Rightarrow> (int \<times> bytes) option" where
  "stun_write_header buf pos sz class method tid =
     (if sz < STUN_HEADER_SIZE then Some (-1, buf)
      else if pos + STUN_HEADER_SIZE > length buf then None
      else Some (int STUN_HEADER_SIZE, buf_write buf pos (stun_header_bytes class method tid)))"

text \<open>Returns the previous length as well; it touches the bytes 2 and 3 of the buffer.\<close>

definition stun_update_header_length :: "bytes \<Rightarrow> u64 \<Rightarrow> (u64 \<times> bytes) option" where
  "stun_update_header_length buf len =
     (if length buf < 4 then None
      else Some (ucast (rd16 (drop 2 buf)), buf_write buf 2 (mem16 (htons (ucast len)))))"

definition attr_pad :: "nat \<Rightarrow> bytes" where
  "attr_pad len = replicate (align32 len - len) 0"

definition attr_bytes :: "u16 \<Rightarrow> bytes \<Rightarrow> bytes" where
  "attr_bytes type val = mem16 (htons type) @ mem16 (htons (of_nat (length val))) @ val @ attr_pad (length val)"

definition stun_write_attr :: "bytes \<Rightarrow> nat \<Rightarrow> nat \<Rightarrow> u16 \<Rightarrow> bytes \<Rightarrow> (int \<times> bytes) option" where
  "stun_write_attr buf pos sz type val =
     (if sz < STUN_ATTR_SIZE + length val then Some (-1, buf)
      else if pos + length (attr_bytes type val) > length buf then None
      else Some (int (STUN_ATTR_SIZE + align32 (length val)), buf_write buf pos (attr_bytes type val)))"

definition xor_bytes :: "bytes \<Rightarrow> bytes \<Rightarrow> bytes" where
  "xor_bytes xs msk = map2 (XOR) xs msk"

text \<open>The 16 bit word in memory at the start of a buffer.\<close>

definition ld_mem16 :: "bytes \<Rightarrow> u16" where
  "ld_mem16 bs = ucast (bs ! 0) OR push_bit 8 (ucast (bs ! 1))"

definition stun_write_value_mapped_address :: "nat \<Rightarrow> sockaddr \<Rightarrow> nat \<Rightarrow> bytes \<Rightarrow> int \<times> bytes" where
  "stun_write_value_mapped_address sz addr addrlen msk =
     (if sz < 4 then (-1, [])
      else case addr of
        Sin p a \<Rightarrow>
          (if sz < 4 + 4 then (-1, [0, 0x01])
           else if addrlen < sizeof_sockaddr_in then (-1, [0, 0x01])
           else (8, [0, 0x01] @ mem16 (p XOR ld_mem16 msk) @ xor_bytes (take 4 a) (take 4 msk)))
      | Sin6 p _ a _ \<Rightarrow>
          (if sz < 4 + 16 then (-1, [0, 0x02])
           else if addrlen < sizeof_sockaddr_in6 then (-1, [0, 0x02])
           else (20, [0, 0x02] @ mem16 (p XOR ld_mem16 msk) @ xor_bytes (take 16 a) (take 16 msk)))
      | SaOther _ \<Rightarrow> (-1, [0]))"

subsection \<open>Writing a message\<close>

text \<open>The attributes that \<open>stun_write\<close> writes before the integrity attributes, in its order: one definition
  per group of \<^verbatim>\<open>if\<close> statements, a list of types and values.  \<open>junk\<close> is the uninitialised parameters
  length of the PASSWORD-ALGORITHM value.\<close>

definition attrs_error_code :: "stun_message \<Rightarrow> (u16 \<times> bytes) list" where
  "attrs_error_code msg =
     (if error_code msg \<noteq> 0
      then [(STUN_ATTR_ERROR_CODE,
             [0, 0, ucast (error_code msg div 100) AND 0x07, ucast (error_code msg mod 100)]
             @ stun_get_error_reason (error_code msg))]
      else [])"

definition attrs_address :: "u16 \<Rightarrow> bytes \<Rightarrow> addr_record \<Rightarrow> (u16 \<times> bytes) list" where
  "attrs_address type tid r =
     (if ar_len r \<noteq> 0
      then let (n, v) = stun_write_value_mapped_address 32 (ar_addr r) (ar_len r) (generate_mask tid)
           in if n > 0 then [(type, v)] else []
      else [])"

definition attrs_ice :: "stun_message \<Rightarrow> (u16 \<times> bytes) list" where
  "attrs_ice msg =
     (if priority msg \<noteq> 0 then [(STUN_ATTR_PRIORITY, mem32 (htonl (priority msg)))] else [])
     @ (if use_candidate msg then [(STUN_ATTR_USE_CANDIDATE, [])] else [])
     @ (if ice_controlling msg \<noteq> 0 then [(STUN_ATTR_ICE_CONTROLLING, net64 (ice_controlling msg))] else [])
     @ (if ice_controlled msg \<noteq> 0 then [(STUN_ATTR_ICE_CONTROLLED, net64 (ice_controlled msg))] else [])"

definition attrs_channel_lifetime :: "stun_message \<Rightarrow> (u16 \<times> bytes) list" where
  "attrs_channel_lifetime msg =
     (if channel_number msg \<noteq> 0
      then [(STUN_ATTR_CHANNEL_NUMBER, mem16 (htons (channel_number msg)) @ [0, 0])] else [])
     @ (if lifetime_set msg \<or> lifetime msg \<noteq> 0
        then [(STUN_ATTR_LIFETIME, mem32 (htonl (lifetime msg)))] else [])"

definition attrs_peers :: "stun_message \<Rightarrow> (u16 \<times> bytes) list" where
  "attrs_peers msg = concat (map (attrs_address STUN_ATTR_XOR_PEER_ADDRESS (transaction_id msg)) (peers msg))"

definition attrs_turn :: "stun_message \<Rightarrow> (u16 \<times> bytes) list" where
  "attrs_turn msg =
     (case msg_data msg of None \<Rightarrow> [] | Some d \<Rightarrow> [(STUN_ATTR_DATA, d)])
     @ (if even_port msg
        then [(STUN_ATTR_CHANNEL_NUMBER, [if next_port msg then 0 OR 0x80 else 0])] else [])
     @ (if requested_transport msg then [(STUN_ATTR_REQUESTED_TRANSPORT, [17, 0, 0, 0])] else [])
     @ (if dont_fragment msg then [(STUN_ATTR_DONT_FRAGMENT, [])] else [])
     @ (if reservation_token msg \<noteq> 0
        then [(STUN_ATTR_RESERVATION_TOKEN, net64 (reservation_token msg))] else [])"

definition attrs_software :: "(u16 \<times> bytes) list" where
  "attrs_software = [(STUN_ATTR_SOFTWARE, str_bytes ''libjuice'')]"

definition attrs_user :: "stun_message \<Rightarrow> (u16 \<times> bytes) list" where
  "attrs_user msg =
     (if msg_class msg = STUN_CLASS_REQUEST
      then if enable_userhash (credentials msg) then [(STUN_ATTR_USERHASH, userhash (credentials msg))]
           else if username (credentials msg) \<noteq> [] then [(STUN_ATTR_USERNAME, username (credentials msg))]
           else []
      else [])"

definition attrs_nonce :: "u16 \<Rightarrow> stun_message \<Rightarrow> (u16 \<times> bytes) list" where
  "attrs_nonce junk msg =
     (let c = credentials msg in
      if nonce c \<noteq> []
      then [(STUN_ATTR_NONCE, nonce c)]
           @ (if password_algorithm c > 0
              then [(STUN_ATTR_PASSWORD_ALGORITHMS, password_algorithms_value c)]
              else if msg_class msg \<noteq> STUN_CLASS_REQUEST
              then [(STUN_ATTR_PASSWORD_ALGORITHMS, generate_password_algorithms_attr)]
              else [])
           @ (if msg_class msg = STUN_CLASS_REQUEST \<and> password_algorithm c \<noteq> STUN_PASSWORD_ALGORITHM_UNSET
              then [(STUN_ATTR_PASSWORD_ALGORITHM, mem16 (htons (password_algorithm c)) @ mem16 junk)]
              else [])
      else [])"

definition attrs_realm :: "u16 \<Rightarrow> stun_message \<Rightarrow> (u16 \<times> bytes) list" where
  "attrs_realm junk msg =
     (if msg_class msg = STUN_CLASS_REQUEST
         \<or> (msg_class msg = STUN_CLASS_RESP_ERROR \<and> (error_code msg = 401 \<or> error_code msg = 438))
      then (if realm (credentials msg) \<noteq> [] then [(STUN_ATTR_REALM, realm (credentials msg))] else [])
           @ attrs_nonce junk msg
      else [])"

definition body_attrs :: "u16 \<Rightarrow> stun_message \<Rightarrow> (u16 \<times> bytes) list" where
  "body_attrs junk msg =
     attrs_error_code msg
     @ attrs_address STUN_ATTR_XOR_MAPPED_ADDRESS (transaction_id msg) (mapped msg)
     @ attrs_ice msg
     @ attrs_channel_lifetime msg
     @ attrs_peers msg
     @ attrs_address STUN_ATTR_XOR_RELAYED_ADDRESS (transaction_id msg) (relayed msg)
     @ attrs_turn msg
     @ attrs_software
     @ attrs_user msg
     @ attrs_realm junk msg"

text \<open>The writer's state is the buffer and the offset of \<^verbatim>\<open>pos\<close>; a step ends in undefined behaviour
  (\<open>None\<close>), a return (\<open>Inl\<close>) or the next state.  \<open>put_attr\<close> is the repeated fragment
  \<^verbatim>\<open>len = stun_write_attr(...); if (len <= 0) goto overflow; pos += len;\<close> with \<^verbatim>\<open>size_t len\<close>.\<close>

definition put_attr :: "u16 \<times> bytes \<Rightarrow> bytes \<times> nat \<Rightarrow> (int + bytes \<times> nat) option" where
  "put_attr a st =
     (case st of (buf, pos) \<Rightarrow>
        do { (n, buf1) \<leftarrow> stun_write_attr buf pos (unat (of_nat (length buf) - of_nat pos :: u64)) (fst a) (snd a);
             let len = (of_int n :: u64);
             if len \<le> 0 then Some (Inl (-1)) else Some (Inr (buf1, unat (of_nat pos + len))) })"

definition wbind :: "(int + 's) option \<Rightarrow> ('s \<Rightarrow> (int + 't) option) \<Rightarrow> (int + 't) option" where
  "wbind r k = (case r of None \<Rightarrow> None | Some (Inl e) \<Rightarrow> Some (Inl e) | Some (Inr st) \<Rightarrow> k st)"

fun put_attrs :: "(u16 \<times> bytes) list \<Rightarrow> bytes \<times> nat \<Rightarrow> (int + bytes \<times> nat) option" where
  "put_attrs [] st = Some (Inr st)"
| "put_attrs (a # as) st = wbind (put_attr a st) (put_attrs as)"

text \<open>One integrity attribute: the header length is set to end after it, then the MAC is appended.\<close>

definition put_mac :: "u16 \<Rightarrow> (bytes \<Rightarrow> bytes) \<Rightarrow> nat \<Rightarrow> nat \<Rightarrow> bytes \<times> nat \<Rightarrow> (int + bytes \<times> nat) option" where
  "put_mac type mac sz attr_begin st =
     (case st of (buf, pos) \<Rightarrow>
        do { let tmp_length = of_nat pos - of_nat attr_begin + of_nat STUN_ATTR_SIZE + of_nat sz;
             (_, buf1) \<leftarrow> stun_update_header_length buf tmp_length;
             put_attr (type, mac (take pos buf1)) (buf1, pos) })"

definition put_integrity :: "stun_message \<Rightarrow> bytes option \<Rightarrow> nat \<Rightarrow> bytes \<times> nat \<Rightarrow> (int + bytes \<times> nat) option" where
  "put_integrity msg password attr_begin st =
     (if msg_class msg \<noteq> STUN_CLASS_INDICATION \<and> password \<noteq> None
      then let key = generate_hmac_key msg password in
           wbind (put_mac STUN_ATTR_MESSAGE_INTEGRITY (\<lambda>m. hmac_sha1 m key) HMAC_SHA1_SIZE attr_begin st)
             (\<lambda>st1. if password_algorithm (credentials msg) \<noteq> STUN_PASSWORD_ALGORITHM_UNSET
                    then put_mac STUN_ATTR_MESSAGE_INTEGRITY_SHA256 (\<lambda>m. hmac_sha256 m key) HMAC_SHA256_SIZE
                           attr_begin st1
                    else Some (Inr st1))
      else Some (Inr st))"

definition put_fingerprint :: "nat \<Rightarrow> bytes \<times> nat \<Rightarrow> (int + bytes \<times> nat) option" where
  "put_fingerprint attr_begin st =
     (case st of (buf, pos) \<Rightarrow>
        (let len = of_nat pos - of_nat attr_begin + of_nat STUN_ATTR_SIZE + 4 :: u64 in
         if len AND 0x03 \<noteq> 0 then Some (Inl (-1))
         else do { (_, buf1) \<leftarrow> stun_update_header_length buf len;
                   let fingerprint = htonl (CRC32 (take pos buf1) XOR STUN_FINGERPRINT_XOR);
                   put_attr (STUN_ATTR_FINGERPRINT, mem32 fingerprint) (buf1, pos) }))"

text \<open>\<open>stun_write junk buf msg password\<close>: the return value, and the buffer after a call that did not fail.\<close>

definition stun_write_steps :: "u16 \<Rightarrow> bytes \<Rightarrow> stun_message \<Rightarrow> bytes option \<Rightarrow> (int + bytes \<times> nat) option" where
  "stun_write_steps junk buf msg password =
     do { (n, buf1) \<leftarrow> stun_write_header buf 0 (length buf) (msg_class msg) (msg_method msg) (transaction_id msg);
          let len = (of_int n :: u64);
          if len \<le> 0 then Some (Inl (-1))
          else let attr_begin = unat len in
               wbind (put_attrs (body_attrs junk msg) (buf1, attr_begin))
                 (\<lambda>st1. wbind (put_integrity msg password attr_begin st1) (put_fingerprint attr_begin)) }"

definition stun_write :: "u16 \<Rightarrow> bytes \<Rightarrow> stun_message \<Rightarrow> bytes option \<Rightarrow> (int \<times> bytes) option" where
  "stun_write junk buf msg password =
     (case stun_write_steps junk buf msg password of
        None \<Rightarrow> None
      | Some (Inl e) \<Rightarrow> Some (e, [])
      | Some (Inr (buf', pos)) \<Rightarrow> Some (int pos, buf'))"

end
