(* ===== verification/Stun_Read.thy ===== *)
theory Stun_Read
  imports Stun
begin

text \<open>
  The reading half of \<^verbatim>\<open>libjuice/src/stun.c\<close>.  The datagram is hostile input, so every read of it is a
  checked load: \<open>None\<close> is a read outside the datagram (or outside the attribute's value).  A result
  \<open>Some None\<close> is the return of \<^verbatim>\<open>-1\<close>.

  The reader sets the header's length field for a moment to compute a fingerprint or a MAC and restores
  it; the model computes on the modified copy.
\<close>

subsection \<open>Recognising a datagram\<close>

definition is_stun_datagram :: "bytes \<Rightarrow> bool option" where
  "is_stun_datagram data =
     (if data = [] then Some False
      else do { b \<leftarrow> ld8 data 0;
                if b AND 0xC0 \<noteq> 0 then Some False
                else if length data < STUN_HEADER_SIZE then Some False
                else do { magic \<leftarrow> ld32 data 4;
                          if magic \<noteq> STUN_MAGIC then Some False
                          else do { len \<leftarrow> ld16 data 2;
                                    if len AND 0x03 \<noteq> 0 then Some False
                                    else if length data \<noteq> STUN_HEADER_SIZE + unat len then Some False
                                    else Some True } } })"

subsection \<open>Addresses\<close>

text \<open>An IPv6 address is stored over what the structure held before: the flow label and scope stay, and the
  flow label shares its bytes with an earlier IPv4 address.\<close>

definition old_flowinfo :: "sockaddr \<Rightarrow> u32" where
  "old_flowinfo sa = (case sa of Sin _ a \<Rightarrow> htonl (rd32 a) | Sin6 _ f _ _ \<Rightarrow> f | SaOther _ \<Rightarrow> 0)"

definition old_scope_id :: "sockaddr \<Rightarrow> u32" where
  "old_scope_id sa = (case sa of Sin6 _ _ _ s \<Rightarrow> s | _ \<Rightarrow> 0)"

definition stun_read_value_mapped_address :: "bytes \<Rightarrow> addr_record \<Rightarrow> bytes \<Rightarrow> (int \<times> addr_record) option" where
  "stun_read_value_mapped_address data r msk =
     (if length data < 4 then Some (-1, r)
      else do { family \<leftarrow> ld8 data 1;
        if family = 0x01
        then if length data < 8 then Some (-1, r)
             else do { p \<leftarrow> ld data 2 2; a \<leftarrow> ld data 4 4;
                       Some (8, r\<lparr>ar_len := sizeof_sockaddr_in, ar_socktype := SOCK_DGRAM,
                                  ar_addr := Sin (ld_mem16 p XOR ld_mem16 msk) (xor_bytes a (take 4 msk))\<rparr>) }
        else if family = 0x02
        then if length data < 20 then Some (-1, r)
             else do { p \<leftarrow> ld data 2 2; a \<leftarrow> ld data 4 16;
                       Some (20, r\<lparr>ar_len := sizeof_sockaddr_in6, ar_socktype := SOCK_DGRAM,
                                   ar_addr := Sin6 (ld_mem16 p XOR ld_mem16 msk) (old_flowinfo (ar_addr r))
                                     (xor_bytes a (take 16 msk)) (old_scope_id (ar_addr r))\<rparr>) }
        else Some (int (length data), r) })"

subsection \<open>The cases of the attribute switch\<close>

text \<open>Each takes the attribute's value and the message.\<close>

definition zero_mask :: bytes where "zero_mask = replicate 16 0"

definition read_mapped_address :: "bytes \<Rightarrow> bytes \<Rightarrow> stun_message \<Rightarrow> stun_message option option" where
  "read_mapped_address msk val msg =
     do { (n, r) \<leftarrow> stun_read_value_mapped_address val (mapped msg) msk;
          Some (if n < 0 then None else Some (msg\<lparr>mapped := r\<rparr>)) }"

definition read_alternate_server :: "bytes \<Rightarrow> stun_message \<Rightarrow> stun_message option option" where
  "read_alternate_server val msg =
     do { (n, r) \<leftarrow> stun_read_value_mapped_address val (alternate_server msg) zero_mask;
          Some (if n < 0 then None else Some (msg\<lparr>alternate_server := r\<rparr>)) }"

definition read_relayed_address :: "bytes \<Rightarrow> stun_message \<Rightarrow> stun_message option option" where
  "read_relayed_address val msg =
     do { (n, r) \<leftarrow> stun_read_value_mapped_address val (relayed msg) (generate_mask (transaction_id msg));
          Some (if n < 0 then None else Some (msg\<lparr>relayed := r\<rparr>)) }"

definition read_peer_address :: "bytes \<Rightarrow> stun_message \<Rightarrow> stun_message option option" where
  "read_peer_address val msg =
     (if length (peers msg) < STUN_MAX_PEER_ADDRESSES
      then do { (n, r) \<leftarrow> stun_read_value_mapped_address val zero_record (generate_mask (transaction_id msg));
                Some (if n < 0 then None
                      else if ar_len r \<noteq> 0 then Some (msg\<lparr>peers := peers msg @ [r]\<rparr>) else Some msg) }
      else Some (Some msg))"

definition read_error_code :: "bytes \<Rightarrow> stun_message \<Rightarrow> stun_message option option" where
  "read_error_code val msg =
     (if length val < 4 then Some None
      else do { cl \<leftarrow> ld8 val 2; nr \<leftarrow> ld8 val 3;
                Some (Some (msg\<lparr>error_code := ucast (cl AND 0x07) * 100 + ucast nr\<rparr>)) })"

text \<open>Only logs the listed types, but reads them.\<close>

fun read_u16s :: "bytes \<Rightarrow> nat \<Rightarrow> nat \<Rightarrow> unit option" where
  "read_u16s val i 0 = Some ()"
| "read_u16s val i (Suc n) = do { _ \<leftarrow> ld16 val (2 * i); read_u16s val (Suc i) n }"

definition read_unknown_attributes :: "bytes \<Rightarrow> stun_message \<Rightarrow> stun_message option option" where
  "read_unknown_attributes val msg = do { _ \<leftarrow> read_u16s val 0 (length val div 2); Some (Some msg) }"

definition read_username :: "bytes \<Rightarrow> stun_message \<Rightarrow> stun_message option option" where
  "read_username val msg =
     (if length val + 1 > STUN_MAX_USERNAME_LEN then Some None
      else Some (Some (msg\<lparr>credentials := (credentials msg)\<lparr>username := cstr (val @ [0])\<rparr>\<rparr>)))"

definition read_integrity :: "nat \<Rightarrow> bytes \<Rightarrow> stun_message \<Rightarrow> stun_message option option" where
  "read_integrity sz val msg = (if length val \<noteq> sz then Some None else Some (Some (msg\<lparr>has_integrity := True\<rparr>)))"

definition read_fingerprint :: "bytes \<Rightarrow> nat \<Rightarrow> bytes \<Rightarrow> stun_message \<Rightarrow> stun_message option option" where
  "read_fingerprint buf pos val msg =
     (if length val \<noteq> 4 then Some None
      else do { let tmp_length = of_nat (pos - STUN_HEADER_SIZE + STUN_ATTR_SIZE + 4);
                (prev_length, buf1) \<leftarrow> stun_update_header_length buf tmp_length;
                let expected = CRC32 (take pos buf1) XOR STUN_FINGERPRINT_XOR;
                fingerprint \<leftarrow> ld32 val 0;
                Some (if fingerprint \<noteq> expected then None else Some (msg\<lparr>has_fingerprint := True\<rparr>)) })"

definition read_realm :: "bytes \<Rightarrow> stun_message \<Rightarrow> stun_message option option" where
  "read_realm val msg =
     (if length val + 1 > STUN_MAX_REALM_LEN then Some None
      else Some (Some (msg\<lparr>credentials := (credentials msg)\<lparr>realm := cstr (val @ [0])\<rparr>\<rparr>)))"

text \<open>The nonce sets the message's nonce and, in a response with the nonce cookie, the security bits; the
  assignment on the error path clears the pointer, not the bits.  \<open>None\<close> is also a write past the three
  bytes of the decoder's output.\<close>

definition nonce_security_bits :: "u16 \<Rightarrow> bytes \<Rightarrow> u32 \<Rightarrow> u32 option" where
  "nonce_security_bits cls nnc security_bits =
     (if STUN_IS_RESPONSE cls \<and> length nnc > length STUN_NONCE_COOKIE + 4
         \<and> take (length STUN_NONCE_COOKIE) nnc = STUN_NONCE_COOKIE
      then do { (len, bs) \<leftarrow> juice_base64_decode (take 4 (drop (length STUN_NONCE_COOKIE) nnc)) 3;
                if len = 3 then Some (rd32 (0 # bs)) else Some security_bits }
      else Some security_bits)"

definition read_nonce :: "bytes \<Rightarrow> stun_message \<Rightarrow> u32 \<Rightarrow> (stun_message \<times> u32) option option" where
  "read_nonce val msg security_bits =
     (if length val + 1 > STUN_MAX_NONCE_LEN then Some None
      else do { let msg1 = msg\<lparr>credentials := (credentials msg)\<lparr>nonce := cstr (val @ [0])\<rparr>\<rparr>;
                sb \<leftarrow> nonce_security_bits (msg_class msg) (nonce (credentials msg1)) security_bits;
                Some (Some (msg1, sb)) })"

definition known_algorithm :: "u16 \<Rightarrow> bool" where
  "known_algorithm alg \<longleftrightarrow> alg = STUN_PASSWORD_ALGORITHM_MD5 \<or> alg = STUN_PASSWORD_ALGORITHM_SHA256"

definition read_password_algorithm :: "bytes \<Rightarrow> stun_message \<Rightarrow> stun_message option option" where
  "read_password_algorithm val msg =
     (if length val < 4 then Some None
      else if \<not> STUN_IS_RESPONSE (msg_class msg)
      then do { alg \<leftarrow> ld16 val 0;
                Some (Some (if known_algorithm alg
                            then msg\<lparr>credentials := (credentials msg)\<lparr>password_algorithm := alg\<rparr>\<rparr> else msg)) }
      else Some (Some msg))"

text \<open>The loop over the list: the first known algorithm, if any.\<close>

function algorithms_loop :: "bytes \<Rightarrow> u16 option option option" where
  "algorithms_loop v =
     (if v = [] then Some (Some None)
      else if length v < 4 then Some None
      else do { alg \<leftarrow> ld16 v 0; plen \<leftarrow> ld16 v 2;
                let padded = align32 (unat plen);
                let v1 = drop 4 v;
                if length v1 < padded then Some None
                else if known_algorithm alg then Some (Some (Some alg))
                else algorithms_loop (drop padded v1) })"
  by pat_completeness auto
termination by (relation "measure length") auto

declare algorithms_loop.simps [simp del]

definition read_password_algorithms :: "bytes \<Rightarrow> stun_message \<Rightarrow> stun_message option option" where
  "read_password_algorithms val msg =
     (if length val < 4 then Some None
      else if length val > STUN_MAX_PASSWORD_ALGORITHMS_VALUE_SIZE then Some None
      else let msg1 = msg\<lparr>credentials := (credentials msg)\<lparr>password_algorithms_value := val\<rparr>\<rparr> in
           if \<not> STUN_IS_RESPONSE (msg_class msg)
           then do { r \<leftarrow> algorithms_loop val;
                     Some (case r of None \<Rightarrow> None
                           | Some None \<Rightarrow> Some msg1
                           | Some (Some alg) \<Rightarrow>
                               Some (msg1\<lparr>credentials := (credentials msg1)\<lparr>password_algorithm := alg\<rparr>\<rparr>)) }
           else Some (Some msg1))"

definition read_userhash :: "bytes \<Rightarrow> stun_message \<Rightarrow> stun_message option option" where
  "read_userhash val msg =
     (if length val \<noteq> USERHASH_SIZE then Some None
      else Some (Some (msg\<lparr>credentials := (credentials msg)\<lparr>userhash := val, enable_userhash := True\<rparr>\<rparr>)))"

definition read_software :: "bytes \<Rightarrow> stun_message \<Rightarrow> stun_message option option" where
  "read_software val msg = (if length val + 1 > STUN_MAX_SOFTWARE_LEN then Some None else Some (Some msg))"

definition read_priority :: "bytes \<Rightarrow> stun_message \<Rightarrow> stun_message option option" where
  "read_priority val msg =
     (if length val \<noteq> 4 then Some None else do { p \<leftarrow> ld32 val 0; Some (Some (msg\<lparr>priority := p\<rparr>)) })"

definition read_ice_controlling :: "bytes \<Rightarrow> stun_message \<Rightarrow> stun_message option option" where
  "read_ice_controlling val msg =
     (if length val \<noteq> 8 then Some None else do { x \<leftarrow> ld64 val 0; Some (Some (msg\<lparr>ice_controlling := x\<rparr>)) })"

definition read_ice_controlled :: "bytes \<Rightarrow> stun_message \<Rightarrow> stun_message option option" where
  "read_ice_controlled val msg =
     (if length val \<noteq> 8 then Some None else do { x \<leftarrow> ld64 val 0; Some (Some (msg\<lparr>ice_controlled := x\<rparr>)) })"

definition read_channel_number :: "bytes \<Rightarrow> stun_message \<Rightarrow> stun_message option option" where
  "read_channel_number val msg =
     (if length val < 4 then Some None else do { c \<leftarrow> ld16 val 0; Some (Some (msg\<lparr>channel_number := c\<rparr>)) })"

definition read_lifetime :: "bytes \<Rightarrow> stun_message \<Rightarrow> stun_message option option" where
  "read_lifetime val msg =
     (if length val \<noteq> 4 then Some None
      else do { x \<leftarrow> ld32 val 0; Some (Some (msg\<lparr>lifetime := x, lifetime_set := True\<rparr>)) })"

definition read_even_port :: "bytes \<Rightarrow> stun_message \<Rightarrow> stun_message option option" where
  "read_even_port val msg =
     (if length val < 1 then Some None
      else do { r \<leftarrow> ld8 val 0; Some (Some (msg\<lparr>even_port := True, next_port := (r AND 0x80 \<noteq> 0)\<rparr>)) })"

definition read_requested_transport :: "bytes \<Rightarrow> stun_message \<Rightarrow> stun_message option option" where
  "read_requested_transport val msg =
     (if length val < 4 then Some None
      else do { p \<leftarrow> ld8 val 0;
                Some (if p \<noteq> 17 then None else Some (msg\<lparr>requested_transport := True\<rparr>)) })"

definition read_reservation_token :: "bytes \<Rightarrow> stun_message \<Rightarrow> stun_message option option" where
  "read_reservation_token val msg =
     (if length val \<noteq> 8 then Some None else do { x \<leftarrow> ld64 val 0; Some (Some (msg\<lparr>reservation_token := x\<rparr>)) })"

subsection \<open>Reading an attribute\<close>

definition keep_bits :: "u32 \<Rightarrow> stun_message option option \<Rightarrow> (stun_message \<times> u32) option option" where
  "keep_bits sb r = map_option (map_option (\<lambda>m. (m, sb))) r"

text \<open>The switch; \<open>pos\<close> is the offset of the attribute in the datagram \<open>buf\<close>.\<close>

definition read_attr_value ::
  "bytes \<Rightarrow> nat \<Rightarrow> u16 \<Rightarrow> bytes \<Rightarrow> stun_message \<Rightarrow> u32 \<Rightarrow> (stun_message \<times> u32) option option" where
  "read_attr_value buf pos type val msg sb =
     (if type = STUN_ATTR_NONCE then read_nonce val msg sb
      else keep_bits sb
       (if type = STUN_ATTR_MAPPED_ADDRESS then read_mapped_address zero_mask val msg
        else if type = STUN_ATTR_XOR_MAPPED_ADDRESS
        then read_mapped_address (generate_mask (transaction_id msg)) val msg
        else if type = STUN_ATTR_ALTERNATE_SERVER then read_alternate_server val msg
        else if type = STUN_ATTR_ERROR_CODE then read_error_code val msg
        else if type = STUN_ATTR_UNKNOWN_ATTRIBUTES then read_unknown_attributes val msg
        else if type = STUN_ATTR_USERNAME then read_username val msg
        else if type = STUN_ATTR_MESSAGE_INTEGRITY then read_integrity HMAC_SHA1_SIZE val msg
        else if type = STUN_ATTR_MESSAGE_INTEGRITY_SHA256 then read_integrity HMAC_SHA256_SIZE val msg
        else if type = STUN_ATTR_FINGERPRINT then read_fingerprint buf pos val msg
        else if type = STUN_ATTR_REALM then read_realm val msg
        else if type = STUN_ATTR_PASSWORD_ALGORITHM then read_password_algorithm val msg
        else if type = STUN_ATTR_PASSWORD_ALGORITHMS then read_password_algorithms val msg
        else if type = STUN_ATTR_USERHASH then read_userhash val msg
        else if type = STUN_ATTR_SOFTWARE then read_software val msg
        else if type = STUN_ATTR_PRIORITY then read_priority val msg
        else if type = STUN_ATTR_USE_CANDIDATE then Some (Some (msg\<lparr>use_candidate := True\<rparr>))
        else if type = STUN_ATTR_ICE_CONTROLLING then read_ice_controlling val msg
        else if type = STUN_ATTR_ICE_CONTROLLED then read_ice_controlled val msg
        else if type = STUN_ATTR_CHANNEL_NUMBER then read_channel_number val msg
        else if type = STUN_ATTR_LIFETIME then read_lifetime val msg
        else if type = STUN_ATTR_XOR_PEER_ADDRESS then read_peer_address val msg
        else if type = STUN_ATTR_XOR_RELAYED_ADDRESS then read_relayed_address val msg
        else if type = STUN_ATTR_DATA then Some (Some (msg\<lparr>msg_data := Some val\<rparr>))
        else if type = STUN_ATTR_EVEN_PORT then read_even_port val msg
        else if type = STUN_ATTR_REQUESTED_TRANSPORT then read_requested_transport val msg
        else if type = STUN_ATTR_DONT_FRAGMENT then Some (Some (msg\<lparr>dont_fragment := True\<rparr>))
        else if type = STUN_ATTR_RESERVATION_TOKEN then read_reservation_token val msg
        else Some (Some msg)))"

definition integrity_type :: "u16 \<Rightarrow> bool" where
  "integrity_type type \<longleftrightarrow> type = STUN_ATTR_MESSAGE_INTEGRITY \<or> type = STUN_ATTR_MESSAGE_INTEGRITY_SHA256
     \<or> type = STUN_ATTR_FINGERPRINT"

text \<open>The result is the return value with the message and security bits, \<open>Some None\<close> the return of \<^verbatim>\<open>-1\<close>.\<close>

definition stun_read_attr ::
  "bytes \<Rightarrow> nat \<Rightarrow> nat \<Rightarrow> stun_message \<Rightarrow> u32 \<Rightarrow> (nat \<times> stun_message \<times> u32) option option" where
  "stun_read_attr buf pos sz msg sb =
     (if has_fingerprint msg then Some None
      else if sz < STUN_ATTR_SIZE then Some None
      else do { len16 \<leftarrow> ld16 buf (pos + 2);
                type \<leftarrow> ld16 buf pos;
                let len = unat len16;
                if sz < STUN_ATTR_SIZE + len then Some None
                else if has_integrity msg \<and> \<not> integrity_type type
                then Some (Some (STUN_ATTR_SIZE + align32 len, msg, sb))
                else do { val \<leftarrow> ld buf (pos + STUN_ATTR_SIZE) len;
                          r \<leftarrow> read_attr_value buf pos type val msg sb;
                          Some (case r of None \<Rightarrow> None
                                | Some (msg', sb') \<Rightarrow> Some (STUN_ATTR_SIZE + align32 len, msg', sb')) } })"

lemma stun_read_attr_progress:
  "stun_read_attr buf pos sz msg sb = Some (Some (n, msg', sb')) \<Longrightarrow> 4 \<le> n"
  by (auto simp: stun_read_attr_def stun_sizes Let_def bind_eq_Some_conv split: if_splits option.splits)

subsection \<open>Reading a message\<close>

function stun_read_loop :: "bytes \<Rightarrow> nat \<Rightarrow> nat \<Rightarrow> stun_message \<Rightarrow> u32 \<Rightarrow> (stun_message \<times> u32) option option" where
  "stun_read_loop buf fin pos msg sb =
     (if pos < fin
      then (case stun_read_attr buf pos (fin - pos) msg sb of
              None \<Rightarrow> None
            | Some None \<Rightarrow> Some None
            | Some (Some (ret, msg', sb')) \<Rightarrow>
                if ret = 0 then Some None else stun_read_loop buf fin (pos + ret) msg' sb')
      else Some (Some (msg, sb)))"
  by pat_completeness auto
termination by (relation "measure (\<lambda>(buf, fin, pos, msg, sb). fin - pos)") auto

declare stun_read_loop.simps [simp del]

definition check_error_response :: "u32 \<Rightarrow> stun_message \<Rightarrow> stun_message" where
  "check_error_response sb msg =
     (if msg_class msg = STUN_CLASS_RESP_ERROR \<and> (error_code msg = 401 \<or> error_code msg = 438)
         \<and> sb AND STUN_SECURITY_PASSWORD_ALGORITHMS_BIT \<noteq> 0
         \<and> password_algorithms_value (credentials msg) = []
      then msg\<lparr>error_code := STUN_ERROR_INTERNAL_VALIDATION_FAILED\<rparr> else msg)"

definition check_request_algorithms :: "stun_message \<Rightarrow> stun_message" where
  "check_request_algorithms msg =
     (let c = credentials msg in
      if \<not> STUN_IS_RESPONSE (msg_class msg)
      then if password_algorithms_value c = [] \<and> password_algorithm c = STUN_PASSWORD_ALGORITHM_UNSET
           then msg\<lparr>credentials := c\<lparr>password_algorithm := STUN_PASSWORD_ALGORITHM_MD5\<rparr>\<rparr>
           else if password_algorithm c = STUN_PASSWORD_ALGORITHM_UNSET
           then msg\<lparr>error_code := STUN_ERROR_INTERNAL_VALIDATION_FAILED\<rparr>
           else if password_algorithms_value c = []
           then msg\<lparr>error_code := STUN_ERROR_INTERNAL_VALIDATION_FAILED\<rparr>
           else if password_algorithms_value c \<noteq> generate_password_algorithms_attr
           then msg\<lparr>error_code := STUN_ERROR_INTERNAL_VALIDATION_FAILED\<rparr>
           else msg
      else msg)"

definition check_anonymity :: "u32 \<Rightarrow> stun_message \<Rightarrow> stun_message" where
  "check_anonymity sb msg =
     (if sb AND STUN_SECURITY_USERNAME_ANONYMITY_BIT \<noteq> 0
      then msg\<lparr>credentials := (credentials msg)\<lparr>enable_userhash := True\<rparr>\<rparr> else msg)"

definition read_header :: "u16 \<Rightarrow> bytes \<Rightarrow> stun_message" where
  "read_header type tid =
     zero_message\<lparr>msg_class := type AND STUN_CLASS_MASK, msg_method := type AND NOT STUN_CLASS_MASK,
       transaction_id := tid\<rparr>"

definition stun_read :: "bytes \<Rightarrow> (nat \<times> stun_message) option option" where
  "stun_read data =
     (if length data < STUN_HEADER_SIZE then Some None
      else do { len16 \<leftarrow> ld16 data 2;
                let len = unat len16;
                if length data < STUN_HEADER_SIZE + len then Some None
                else do { type \<leftarrow> ld16 data 0;
                          tid \<leftarrow> ld data 8 STUN_TRANSACTION_ID_SIZE;
                          r \<leftarrow> stun_read_loop data (STUN_HEADER_SIZE + len) STUN_HEADER_SIZE (read_header type tid) 0;
                          Some (case r of None \<Rightarrow> None
                                | Some (msg, sb) \<Rightarrow>
                                    Some (STUN_HEADER_SIZE + len,
                                      check_anonymity sb (check_request_algorithms (check_error_response sb msg)))) } })"

subsection \<open>Checking integrity\<close>

text \<open>One integrity attribute: whether its MAC is that of the message up to it.\<close>

definition check_mac :: "(bytes \<Rightarrow> bytes) \<Rightarrow> nat \<Rightarrow> bytes \<Rightarrow> nat \<Rightarrow> bool option" where
  "check_mac mac sz buf pos =
     do { let tmp_length = of_nat (pos - STUN_HEADER_SIZE + STUN_ATTR_SIZE + sz);
          (prev_length, buf1) \<leftarrow> stun_update_header_length buf tmp_length;
          x \<leftarrow> const_time_memcmp (mac (take pos buf1)) (drop (pos + STUN_ATTR_SIZE) buf) sz;
          Some (x = 0) }"

function integrity_loop :: "bytes \<Rightarrow> bytes \<Rightarrow> nat \<Rightarrow> nat \<Rightarrow> bool \<Rightarrow> bool option" where
  "integrity_loop key buf fin pos success =
     (if pos < fin
      then do { len16 \<leftarrow> ld16 buf (pos + 2);
                let len = unat len16;
                if length buf < STUN_ATTR_SIZE + len then Some False
                else do { type \<leftarrow> ld16 buf pos;
                          if type = STUN_ATTR_MESSAGE_INTEGRITY
                          then if len \<noteq> HMAC_SHA1_SIZE then Some False
                               else do { ok \<leftarrow> check_mac (\<lambda>m. hmac_sha1 m key) HMAC_SHA1_SIZE buf pos;
                                         if ok then integrity_loop key buf fin (pos + STUN_ATTR_SIZE + align32 len) True
                                         else Some False }
                          else if type = STUN_ATTR_MESSAGE_INTEGRITY_SHA256
                          then if len \<noteq> HMAC_SHA256_SIZE then Some False
                               else do { ok \<leftarrow> check_mac (\<lambda>m. hmac_sha256 m key) HMAC_SHA256_SIZE buf pos;
                                         if ok then integrity_loop key buf fin (pos + STUN_ATTR_SIZE + align32 len) True
                                         else Some False }
                          else integrity_loop key buf fin (pos + STUN_ATTR_SIZE + align32 len) success } }
      else Some success)"
  by pat_completeness auto
termination by (relation "measure (\<lambda>(key, buf, fin, pos, success). fin - pos)") (auto simp: stun_sizes)

declare integrity_loop.simps [simp del]

definition stun_check_integrity :: "bytes \<Rightarrow> stun_message \<Rightarrow> bytes option \<Rightarrow> bool option" where
  "stun_check_integrity buf msg password =
     (if \<not> has_integrity msg then Some False
      else do { len16 \<leftarrow> ld16 buf 2;
                let len = unat len16;
                if length buf < STUN_HEADER_SIZE + len then Some False
                else integrity_loop (generate_hmac_key msg password) buf (STUN_HEADER_SIZE + len) STUN_HEADER_SIZE False })"

end
