(* ===== verification/Stun_Props.thy ===== *)
theory Stun_Props
  imports Stun_Read
begin

text \<open>
  Theorems on \<^verbatim>\<open>stun.c\<close>: the parser is memory safe on every datagram, a message that was written is read
  back, its integrity attributes verify, and what the writer does when the buffer is too small.
\<close>

subsection \<open>Alignment\<close>

lemma align32_eq: "align32 n = n + (4 - n mod 4) mod 4"
proof (induction n rule: align32.induct)
  case (1 n)
  show ?case
  proof (cases "n mod 4 = 0")
    case True
    then show ?thesis by (subst align32.simps) simp
  next
    case False
    then have "align32 n = Suc n + (4 - Suc n mod 4) mod 4" using 1 by (subst align32.simps) simp
    moreover have "(4 - n mod 4) mod 4 = Suc ((4 - Suc n mod 4) mod 4)"
      using False by (auto simp: mod_Suc split: if_splits)
    ultimately show ?thesis by simp
  qed
qed

lemma align32_props: "n \<le> align32 n" "align32 n < n + 4" "align32 n mod 4 = 0" "align32 n - n < 4"
proof -
  show "n \<le> align32 n" "align32 n < n + 4" "align32 n - n < 4"
    using mod_less_divisor [of 4 "4 - n mod 4"] by (simp_all only: align32_eq)
  have "n + (4 - n mod 4) = 4 * (n div 4) + 4"
    using mult_div_mod_eq [of 4 n] mod_less_divisor [of 4 n] by linarith
  then have "(n + (4 - n mod 4)) mod 4 = 0" by (simp only: mod_mult_self4 mod_self)
  then show "align32 n mod 4 = 0" by (simp only: align32_eq mod_add_right_eq)
qed

lemma align32_id: "n mod 4 = 0 \<Longrightarrow> align32 n = n"
  by (subst align32.simps) simp

subsection \<open>The parser reads inside the datagram\<close>

text \<open>Each case of the switch returns, whatever value it is given.\<close>

named_theorems safe

lemma safe_bind [safe]: "(\<exists>x. m = Some x) \<Longrightarrow> (\<And>x. m = Some x \<Longrightarrow> \<exists>y. f x = Some y) \<Longrightarrow> \<exists>y. Option.bind m f = Some y"
  by auto

lemma safe_if [safe]:
  "(P \<Longrightarrow> \<exists>x. a = Some x) \<Longrightarrow> (\<not> P \<Longrightarrow> \<exists>x. b = Some x) \<Longrightarrow> \<exists>x. (if P then a else b) = Some x"
  by simp

lemma safe_Some [safe]: "\<exists>x. Some y = Some x"
  by simp

lemma read_value_safe: "\<exists>x. stun_read_value_mapped_address data r msk = Some x"
  by (auto simp: stun_read_value_mapped_address_def ld_defs)

lemma read_address_safe [safe]:
  "\<exists>x. read_mapped_address msk val msg = Some x" "\<exists>x. read_alternate_server val msg = Some x"
  "\<exists>x. read_relayed_address val msg = Some x" "\<exists>x. read_peer_address val msg = Some x"
  unfolding read_mapped_address_def read_alternate_server_def read_relayed_address_def read_peer_address_def
  by (metis (no_types, lifting) bind.bind_lunit read_value_safe surj_pair case_prod_conv)+

lemma read_u16s_safe: "2 * (i + n) \<le> length val \<Longrightarrow> read_u16s val i n = Some ()"
  by (induction val i n rule: read_u16s.induct) (auto simp: ld_defs)

lemma algorithms_loop_safe: "\<exists>x. algorithms_loop v = Some x"
proof (induction v rule: algorithms_loop.induct)
  case (1 v)
  then show ?case
    by (subst algorithms_loop.simps) (auto simp: ld_defs Let_def)
qed

lemma read_simple_safe [safe]:
  "\<exists>x. read_error_code val msg = Some x" "\<exists>x. read_unknown_attributes val msg = Some x"
  "\<exists>x. read_username val msg = Some x" "\<exists>x. read_integrity sz val msg = Some x"
  "\<exists>x. read_realm val msg = Some x" "\<exists>x. read_password_algorithm val msg = Some x"
  "\<exists>x. read_userhash val msg = Some x" "\<exists>x. read_software val msg = Some x" "\<exists>x. read_priority val msg = Some x"
  "\<exists>x. read_ice_controlling val msg = Some x" "\<exists>x. read_ice_controlled val msg = Some x"
  "\<exists>x. read_channel_number val msg = Some x" "\<exists>x. read_lifetime val msg = Some x"
  "\<exists>x. read_even_port val msg = Some x" "\<exists>x. read_requested_transport val msg = Some x"
  "\<exists>x. read_reservation_token val msg = Some x"
  unfolding read_error_code_def read_unknown_attributes_def read_username_def read_integrity_def read_realm_def
    read_password_algorithm_def read_userhash_def read_software_def read_priority_def read_ice_controlling_def
    read_ice_controlled_def read_channel_number_def read_lifetime_def read_even_port_def
    read_requested_transport_def read_reservation_token_def
  by (auto simp: ld_defs read_u16s_safe)

lemma read_password_algorithms_safe [safe]: "\<exists>x. read_password_algorithms val msg = Some x"
  using algorithms_loop_safe [of val] by (auto simp: read_password_algorithms_def Let_def)

lemma read_fingerprint_safe [safe]: "4 \<le> length buf \<Longrightarrow> \<exists>x. read_fingerprint buf pos val msg = Some x"
  by (auto simp: read_fingerprint_def stun_update_header_length_def ld_defs Let_def)

text \<open>The four characters of the security bits decode into at most three bytes.\<close>

lemma read_quantum_budget:
  "read_quantum cs acc = Some (rest, ts) \<Longrightarrow>
     length ts + length rest \<le> length acc + length cs
     \<and> (rest = [] \<or> 4 \<le> length ts \<or> length ts + length rest < length acc + length cs)"
  by (induction cs acc rule: read_quantum.induct) (auto split: if_splits option.splits)

lemma quantum_bytes_length: "ts \<noteq> [] \<Longrightarrow> length (quantum_bytes ts) = min 3 (length ts)"
  by (auto simp: quantum_bytes_def Let_def Suc_le_eq min_def) (cases ts; auto simp: Suc_le_eq)+

lemma decode_loop_within: "length w + length cs \<le> cap \<Longrightarrow> \<exists>x. decode_loop cap cs out_size w = Some x"
proof (induction cap cs out_size w rule: decode_loop.induct)
  case (1 cap cs out_size w)
  show ?case
  proof (cases "cs = [] \<or> hd cs = eq_sign")
    case False
    show ?thesis
    proof (cases "read_quantum cs []")
      case (Some p)
      obtain rest ts where p: "p = (rest, ts)" by fastforce
      note q = Some [unfolded p]
      have b: "length ts + length rest \<le> length cs" using read_quantum_budget [OF q] by simp
      show ?thesis
      proof (cases "ts = []")
        case True
        have "\<exists>x. decode_loop cap rest out_size w = Some x"
          by (rule "1.IH"(2) [OF False Some p [symmetric]]) (use 1(3) b True in auto)
        then show ?thesis using False q True by (subst decode_loop.simps) simp
      next
        case ts: False
        have l: "length (quantum_bytes ts) \<le> length ts" using ts by (simp add: quantum_bytes_length)
        show ?thesis
        proof (cases "out_size < length ts - 1")
          case True
          then show ?thesis using False q ts by (subst decode_loop.simps) simp
        next
          case o: False
          have c: "\<not> cap < length w + length (quantum_bytes ts)" using 1(3) b l by linarith
          have "\<exists>x. decode_loop cap rest (out_size - (length ts - 1)) (w @ quantum_bytes ts) = Some x"
            by (rule "1.IH"(1) [OF False Some p [symmetric] _ o c]) (use 1(3) b l ts in auto)
          then show ?thesis using False q ts o c by (subst decode_loop.simps) simp
        qed
      qed
    qed (use False in \<open>subst decode_loop.simps; simp\<close>)
  qed (subst decode_loop.simps; simp)
qed

lemma decode_four_safe:
  assumes "length cs = 4"
  shows "\<exists>x. juice_base64_decode cs 3 = Some x"
proof (cases "cs = [] \<or> hd cs = eq_sign \<or> read_quantum cs [] = None")
  case True
  then show ?thesis unfolding juice_base64_decode_def by (subst decode_loop.simps) auto
next
  case False
  then obtain rest ts where q: "read_quantum cs [] = Some (rest, ts)" by fastforce
  have l: "length ts \<le> 4" using read_quantum_budget [OF q] assms by simp
  have rest: "length (quantum_bytes ts) + length rest \<le> 3" if "ts \<noteq> []"
  proof -
    from read_quantum_budget [OF q] assms
    have "length ts + length rest \<le> 4 \<and> (length rest = 0 \<or> 4 \<le> length ts \<or> length ts + length rest < 4)"
      by (simp only: list.size length_0_conv) simp
    then have "min 3 (length ts) + length rest \<le> 3" unfolding min_def by presburger
    then show ?thesis using that by (simp add: quantum_bytes_length)
  qed
  show ?thesis
  proof (cases "ts = []")
    case True
    with q have "length rest \<le> 3" using read_quantum_shrinks [of "hd cs" "tl cs" rest ts] False assms by (cases cs) auto
    then show ?thesis unfolding juice_base64_decode_def
      using False q True decode_loop_within [of "[]" rest 3 3] by (subst decode_loop.simps) simp
  next
    case ts: False
    then show ?thesis unfolding juice_base64_decode_def
      using False q rest l decode_loop_within [of "quantum_bytes ts" rest 3 "3 - (length ts - 1)"]
      by (subst decode_loop.simps) auto
  qed
qed

lemma read_nonce_safe [safe]: "\<exists>x. read_nonce val msg sb = Some x"
proof -
  have "\<exists>x. nonce_security_bits cls nnc sb = Some x" for cls nnc
  proof (cases "length nnc > length STUN_NONCE_COOKIE + 4")
    case True
    then have "length (take 4 (drop (length STUN_NONCE_COOKIE) nnc)) = 4" by simp
    from decode_four_safe [OF this] show ?thesis by (auto simp: nonce_security_bits_def)
  qed (simp add: nonce_security_bits_def)
  then show ?thesis unfolding read_nonce_def Let_def by (intro safe)
qed

lemma keep_bits_safe [safe]: "\<exists>x. r = Some x \<Longrightarrow> \<exists>x. keep_bits sb r = Some x"
  by (auto simp: keep_bits_def)

lemma read_attr_value_safe:
  assumes "4 \<le> length buf"
  shows "\<exists>x. read_attr_value buf pos type val msg sb = Some x"
  unfolding read_attr_value_def
  by (intro safe assms)

lemma stun_read_attr_safe:
  assumes "4 \<le> length buf" "pos + sz \<le> length buf"
  shows "\<exists>x. stun_read_attr buf pos sz msg sb = Some x"
proof (cases "has_fingerprint msg \<or> sz < STUN_ATTR_SIZE")
  case True
  then show ?thesis by (auto simp: stun_read_attr_def)
next
  case False
  have a: "\<exists>len16 type. ld16 buf (pos + 2) = Some len16 \<and> ld16 buf pos = Some type"
    using False assms by (auto simp: ld_defs stun_sizes)
  have b: "\<exists>v. ld buf (pos + STUN_ATTR_SIZE) n = Some v" if "\<not> sz < STUN_ATTR_SIZE + n" for n
    using that assms by (simp add: ld_def)
  show ?thesis
    using False a b read_attr_value_safe [OF assms(1)] unfolding stun_read_attr_def Let_def
    by (auto intro!: safe_bind)
qed

lemma stun_read_loop_safe:
  "4 \<le> length buf \<Longrightarrow> fin \<le> length buf \<Longrightarrow> \<exists>x. stun_read_loop buf fin pos msg sb = Some x"
proof (induction buf fin pos msg sb rule: stun_read_loop.induct)
  case (1 buf fin pos msg sb)
  show ?case
  proof (cases "pos < fin")
    case True
    obtain r where r: "stun_read_attr buf pos (fin - pos) msg sb = Some r"
      using stun_read_attr_safe [of buf pos "fin - pos" msg sb] 1 True by auto
    show ?thesis using r 1 True by (subst stun_read_loop.simps) (auto split: option.splits)
  qed (subst stun_read_loop.simps; simp)
qed

lemma is_stun_datagram_safe: "\<exists>b. is_stun_datagram data = Some b"
proof -
  have "\<exists>b. ld8 data 0 = Some b" if "data \<noteq> []" using that by (simp add: ld8_def)
  moreover have "\<exists>m. ld32 data 4 = Some m" "\<exists>m. ld16 data 2 = Some m" if "\<not> length data < STUN_HEADER_SIZE"
    using that by (auto simp: ld_defs stun_sizes)
  ultimately show ?thesis unfolding is_stun_datagram_def by (intro safe) auto
qed

text \<open>(C8) The STUN parser is memory safe and total: whatever bytes a datagram holds, and however long it is,
  \<open>is_stun_datagram\<close> and \<open>stun_read\<close> return without a read or write outside their buffers, and a message
  that is accepted ends within the datagram.\<close>

theorem stun_read_total:
  "(\<exists>b. is_stun_datagram data = Some b)
   \<and> (\<exists>r. stun_read data = Some r \<and> (case r of None \<Rightarrow> True | Some (n, msg) \<Rightarrow> 20 \<le> n \<and> n \<le> length data))"
proof (intro conjI is_stun_datagram_safe)
  show "\<exists>r. stun_read data = Some r \<and> (case r of None \<Rightarrow> True | Some (n, msg) \<Rightarrow> 20 \<le> n \<and> n \<le> length data)"
  proof (cases "length data < 20")
    case False
    then obtain l t tid where ld: "ld16 data 2 = Some l" "ld16 data 0 = Some t" "ld data 8 12 = Some tid"
      by (auto simp: ld_defs)
    show ?thesis
    proof (cases "length data < 20 + unat l")
      case True
      then show ?thesis using False ld by (simp add: stun_read_def stun_sizes)
    next
      case l: False
      obtain r where "stun_read_loop data (20 + unat l) 20 (read_header t tid) 0 = Some r"
        using stun_read_loop_safe [of data "20 + unat l" 20 "read_header t tid" 0] False l by auto
      then show ?thesis using False l ld by (auto simp: stun_read_def stun_sizes Let_def split: option.splits)
    qed
  qed (simp add: stun_read_def stun_sizes)
qed

end
