(* ===== verification/Stun_Wire.thy ===== *)
theory Stun_Wire
  imports Stun_Props
begin

text \<open>
  The wire format of a STUN message as a list of bytes, the lemmas that \<open>stun_write\<close> produces it in
  every buffer that is large enough, and what the reading loop does on it.
\<close>

subsection \<open>The wire format\<close>

definition hdr :: "stun_message \<Rightarrow> nat \<Rightarrow> bytes" where
  "hdr msg n = net16 (msg_class msg OR msg_method msg) @ net16 (of_nat n) @ net32 STUN_MAGIC @ transaction_id msg"

definition enc :: "u16 \<times> bytes \<Rightarrow> bytes" where
  "enc a = net16 (fst a) @ net16 (of_nat (length (snd a))) @ snd a @ attr_pad (length (snd a))"

definition encs :: "(u16 \<times> bytes) list \<Rightarrow> bytes" where
  "encs as = concat (map enc as)"

text \<open>The integrity attributes after the encoded body \<open>b\<close>, and the whole message.\<close>

definition mac_attrs :: "stun_message \<Rightarrow> bytes option \<Rightarrow> bytes \<Rightarrow> (u16 \<times> bytes) list" where
  "mac_attrs msg password b =
     (if msg_class msg \<noteq> STUN_CLASS_INDICATION \<and> password \<noteq> None
      then let key = generate_hmac_key msg password;
               a1 = (STUN_ATTR_MESSAGE_INTEGRITY, hmac_sha1 (hdr msg (length b + 24) @ b) key);
               b1 = b @ enc a1
           in if password_algorithm (credentials msg) \<noteq> STUN_PASSWORD_ALGORITHM_UNSET
              then [a1, (STUN_ATTR_MESSAGE_INTEGRITY_SHA256, hmac_sha256 (hdr msg (length b1 + 36) @ b1) key)]
              else [a1]
      else [])"

definition signed_body :: "u16 \<Rightarrow> stun_message \<Rightarrow> bytes option \<Rightarrow> bytes" where
  "signed_body junk msg password =
     (let b = encs (body_attrs junk msg) in b @ encs (mac_attrs msg password b))"

definition fingerprint_attr :: "stun_message \<Rightarrow> bytes \<Rightarrow> u16 \<times> bytes" where
  "fingerprint_attr msg b = (STUN_ATTR_FINGERPRINT, net32 (CRC32 (hdr msg (length b + 8) @ b) XOR STUN_FINGERPRINT_XOR))"

definition wire :: "u16 \<Rightarrow> stun_message \<Rightarrow> bytes option \<Rightarrow> bytes" where
  "wire junk msg password =
     (let b = signed_body junk msg password in hdr msg (length b + 8) @ b @ enc (fingerprint_attr msg b))"

lemma attr_bytes_enc: "attr_bytes t v = enc (t, v)"
  by (simp add: attr_bytes_def enc_def mem16_htons)

lemma length_enc: "length (enc a) = 4 + align32 (length (snd a))"
  using align32_props(1) [of "length (snd a)"] by (simp add: enc_def attr_pad_def)

lemma length_enc_mod4: "length (enc a) mod 4 = 0"
  using align32_props(3) [of "length (snd a)"] by (simp add: length_enc mod_add_eq [symmetric])

lemma encs_simps [simp]: "encs [] = []" "encs (a # as) = enc a @ encs as" "encs (as @ bs) = encs as @ encs bs"
  by (simp_all add: encs_def)

lemma length_encs_mod4: "length (encs as) mod 4 = 0"
proof (induction as)
  case (Cons a as)
  then show ?case using length_enc_mod4 [of a] by (simp add: mod_add_eq [symmetric, of "length (enc a)"])
qed simp

lemma length_hdr: "length (transaction_id msg) = 12 \<Longrightarrow> length (hdr msg n) = 20"
  by (simp add: hdr_def)

lemma header_bytes_hdr: "length (transaction_id msg) = 12 \<Longrightarrow>
    stun_header_bytes (msg_class msg) (msg_method msg) (transaction_id msg) = hdr msg 0"
  by (simp add: stun_header_bytes_def hdr_def mem16_htons mem32_htonl)

lemma update_hdr:
  assumes "stun_update_header_length (hdr msg n @ rest) l = Some r" "length (transaction_id msg) = 12"
  shows "snd r = hdr msg (unat l) @ rest"
proof -
  have "(of_nat (unat l) :: u16) = ucast l" by simp
  then show ?thesis using assms
    by (auto simp: stun_update_header_length_def hdr_def buf_write_def mem16_htons net16_def split: if_splits)
qed

subsection \<open>The writer\<close>

text \<open>The buffer starts with what was written so far.\<close>

definition wrote :: "nat \<Rightarrow> bytes \<Rightarrow> bytes \<times> nat \<Rightarrow> bool" where
  "wrote cap pre st \<longleftrightarrow> length (fst st) = cap \<and> snd st = length pre \<and> length pre \<le> cap \<and> take (length pre) (fst st) = pre"

lemma unat_diff_u64: "n \<le> m \<Longrightarrow> m < 2 ^ 64 \<Longrightarrow> unat (of_nat m - of_nat n :: u64) = m - n"
  by (simp add: of_nat_diff [symmetric] unat_of_nat take_bit_nat_eq_self del: of_nat_diff)

lemma put_attr_wrote:
  assumes w: "wrote cap pre st" and fit: "length (pre @ enc a) \<le> cap" and cap: "cap < 2 ^ 63"
  shows "\<exists>st'. put_attr a st = Some (Inr st') \<and> wrote cap (pre @ enc a) st'"
proof -
  obtain buf where st: "st = (buf, length pre)" "length buf = cap" "take (length pre) buf = pre" "length pre \<le> cap"
    using w by (cases st) (auto simp: wrote_def)
  let ?n = "4 + align32 (length (snd a))"
  have le: "4 + length (snd a) \<le> ?n" using align32_props(1) by simp
  have fit': "length pre + ?n \<le> cap" using fit by (simp add: length_enc)
  have sz: "unat (of_nat cap - of_nat (length pre) :: u64) = cap - length pre"
    using st(4) cap by (intro unat_diff_u64) auto
  have wr: "stun_write_attr buf (length pre) (cap - length pre) (fst a) (snd a)
      = Some (int ?n, buf_write buf (length pre) (enc a))"
    using fit' le st(2) by (auto simp: stun_write_attr_def stun_sizes attr_bytes_enc length_enc)
  have n: "unat (of_int (int ?n) :: u64) = ?n" "unat (of_nat (length pre) + of_int (int ?n) :: u64) = length pre + ?n"
  proof -
    show "unat (of_int (int ?n) :: u64) = ?n"
      unfolding of_int_of_nat_eq using fit' cap by (simp only: unat_of_nat) (simp add: take_bit_nat_eq_self)
    have "of_nat (length pre) + of_int (int ?n) = (of_nat (length pre + ?n) :: u64)" by simp
    then show "unat (of_nat (length pre) + of_int (int ?n) :: u64) = length pre + ?n"
      using fit' cap by (simp only: unat_of_nat) (simp add: take_bit_nat_eq_self)
  qed
  then have pos: "\<not> (of_int (int ?n) :: u64) \<le> 0" by (simp only: word_le_nat_alt unat_0)
  have "wrote cap (pre @ enc a) (buf_write buf (length pre) (enc a), length pre + ?n)"
    using st fit' take_buf_write [of "length pre" "enc a" buf] by (simp add: wrote_def length_enc)
  then show ?thesis using wr pos n(2) sz st by (simp add: put_attr_def Let_def)
qed

lemma put_attrs_wrote:
  "wrote cap pre st \<Longrightarrow> length (pre @ encs as) \<le> cap \<Longrightarrow> cap < 2 ^ 63 \<Longrightarrow>
    \<exists>st'. put_attrs as st = Some (Inr st') \<and> wrote cap (pre @ encs as) st'"
proof (induction as arbitrary: pre st)
  case (Cons a as)
  obtain st1 where st1: "put_attr a st = Some (Inr st1)" "wrote cap (pre @ enc a) st1"
    using put_attr_wrote [OF Cons.prems(1), of a] Cons.prems(2,3) by auto
  then show ?case using Cons.IH [OF st1(2)] Cons.prems(2,3) by (simp add: wbind_def)
qed simp

lemma wrote_update:
  assumes "wrote cap (hdr msg n @ b) st" "length (transaction_id msg) = 12"
  obtains p where "stun_update_header_length (fst st) l = Some (p, hdr msg (unat l) @ b @ drop (20 + length b) (fst st))"
    and "wrote cap (hdr msg (unat l) @ b) (hdr msg (unat l) @ b @ drop (20 + length b) (fst st), snd st)"
proof -
  have h: "length (hdr msg k) = 20" for k using assms(2) by (rule length_hdr)
  have eq: "fst st = hdr msg n @ b @ drop (20 + length b) (fst st)"
    using assms(1) append_take_drop_id [of "20 + length b" "fst st"] by (simp add: wrote_def h del: append_take_drop_id)
  obtain r where r: "stun_update_header_length (fst st) l = Some r"
    using assms(1) by (auto simp: stun_update_header_length_def wrote_def h)
  have "snd r = hdr msg (unat l) @ b @ drop (20 + length b) (fst st)"
    using update_hdr [OF _ assms(2)] r eq by metis
  then show ?thesis using that [of "fst r"] r assms(1) by (cases r) (simp add: wrote_def h)
qed

lemma put_mac_wrote:
  assumes w: "wrote cap (hdr msg n @ b) st" and tid: "length (transaction_id msg) = 12"
    and mac: "length (mac (hdr msg (length b + 4 + sz) @ b)) = sz"
    and fit: "20 + length b + 4 + align32 sz \<le> cap" and cap: "cap < 2 ^ 31"
  shows "\<exists>st'. put_mac type mac sz 20 st = Some (Inr st')
    \<and> wrote cap (hdr msg (length b + 4 + sz) @ b @ enc (type, mac (hdr msg (length b + 4 + sz) @ b))) st'"
proof -
  have h: "length (hdr msg k) = 20" for k using tid by (rule length_hdr)
  have sn: "snd st = 20 + length b" using w by (simp add: wrote_def h)
  let ?l = "of_nat (20 + length b) - of_nat 20 + of_nat STUN_ATTR_SIZE + of_nat sz :: u64"
  have l: "?l = of_nat (length b + 4 + sz)" by (simp add: stun_sizes)
  have "length b + 4 + sz < 2 ^ 64" using fit cap align32_props(1) [of sz] by simp
  then have ul: "unat ?l = length b + 4 + sz" unfolding l by (simp only: unat_of_nat) (simp add: take_bit_nat_eq_self)
  obtain p where p: "stun_update_header_length (fst st) ?l
      = Some (p, hdr msg (length b + 4 + sz) @ b @ drop (20 + length b) (fst st))"
    "wrote cap (hdr msg (length b + 4 + sz) @ b) (hdr msg (length b + 4 + sz) @ b @ drop (20 + length b) (fst st), snd st)"
    using wrote_update [OF w tid, of ?l] ul by metis
  have tk: "take (20 + length b) (hdr msg (length b + 4 + sz) @ b @ drop (20 + length b) (fst st))
      = hdr msg (length b + 4 + sz) @ b"
    using p(2) by (simp add: wrote_def h)
  let ?a = "(type, mac (hdr msg (length b + 4 + sz) @ b))"
  obtain st' where "put_attr ?a (hdr msg (length b + 4 + sz) @ b @ drop (20 + length b) (fst st), snd st) = Some (Inr st')"
    "wrote cap ((hdr msg (length b + 4 + sz) @ b) @ enc ?a) st'"
    using put_attr_wrote [OF p(2), of ?a] fit cap mac by (auto simp: length_enc h)
  then show ?thesis using p(1) sn tk by (cases st) (simp add: put_mac_def Let_def)
qed

lemma put_integrity_wrote:
  assumes w: "wrote cap (hdr msg n @ b) st" and tid: "length (transaction_id msg) = 12"
    and fit: "20 + length b + length (encs (mac_attrs msg password b)) \<le> cap" and cap: "cap < 2 ^ 31"
  shows "\<exists>st' n'. put_integrity msg password 20 st = Some (Inr st')
    \<and> wrote cap (hdr msg n' @ b @ encs (mac_attrs msg password b)) st'"
proof (cases "msg_class msg \<noteq> STUN_CLASS_INDICATION \<and> password \<noteq> None")
  case False
  then show ?thesis using w by (cases st) (auto simp: put_integrity_def mac_attrs_def)
next
  case True
  define key where "key = generate_hmac_key msg password"
  define a1 where "a1 = (STUN_ATTR_MESSAGE_INTEGRITY, hmac_sha1 (hdr msg (length b + 24) @ b) key)"
  have la: "align32 20 = 20" "align32 32 = 32" by (simp_all add: align32_id)
  have ma: "mac_attrs msg password b = (if password_algorithm (credentials msg) \<noteq> STUN_PASSWORD_ALGORITHM_UNSET
      then [a1, (STUN_ATTR_MESSAGE_INTEGRITY_SHA256, hmac_sha256 (hdr msg (length (b @ enc a1) + 36) @ b @ enc a1) key)]
      else [a1])"
    using True by (simp add: mac_attrs_def Let_def a1_def key_def)
  have la1: "length (enc a1) = 24" by (simp add: length_enc a1_def la)
  obtain st1 where st1: "put_mac STUN_ATTR_MESSAGE_INTEGRITY (\<lambda>m. hmac_sha1 m key) 20 20 st = Some (Inr st1)"
    "wrote cap (hdr msg (length b + 24) @ b @ enc a1) st1"
  proof -
    have "length b + 4 + 20 = length b + 24" by simp
    note mac = put_mac_wrote [OF w tid, of "\<lambda>m. hmac_sha1 m key" 20 STUN_ATTR_MESSAGE_INTEGRITY, unfolded this a1_def [symmetric]]
    have "44 + length b \<le> cap" using fit by (simp add: ma la1 split: if_splits)
    then show ?thesis using mac cap that by (fastforce simp: la)
  qed
  show ?thesis
  proof (cases "password_algorithm (credentials msg) = STUN_PASSWORD_ALGORITHM_UNSET")
    case alg: True
    then show ?thesis using st1 True
      by (auto simp: put_integrity_def Let_def key_def [symmetric] stun_sizes wbind_def ma)
  next
    case alg: False
    have "length b + 80 \<le> cap" using fit alg by (simp add: ma la1) (simp add: length_enc la)
    then obtain st2 where st2:
      "put_mac STUN_ATTR_MESSAGE_INTEGRITY_SHA256 (\<lambda>m. hmac_sha256 m key) 32 20 st1 = Some (Inr st2)"
      "wrote cap (hdr msg (length (b @ enc a1) + 36) @ (b @ enc a1) @ enc (STUN_ATTR_MESSAGE_INTEGRITY_SHA256,
         hmac_sha256 (hdr msg (length (b @ enc a1) + 36) @ b @ enc a1) key)) st2"
    proof -
      assume c: "length b + 80 \<le> cap"
      have "length (b @ enc a1) + 4 + 32 = length (b @ enc a1) + 36" by simp
      note mac = put_mac_wrote [OF st1(2) tid, of "\<lambda>m. hmac_sha256 m key" 32 STUN_ATTR_MESSAGE_INTEGRITY_SHA256, unfolded this]
      show ?thesis using mac c cap that by (fastforce simp: la la1)
    qed
    show ?thesis using st1(1) st2 True alg
      by (intro exI [of _ st2] exI [of _ "length (b @ enc a1) + 36"])
        (simp add: put_integrity_def Let_def key_def [symmetric] stun_sizes wbind_def ma)
  qed
qed

lemma length_signed_body_mod4: "length (signed_body junk msg password) mod 4 = 0"
  using length_encs_mod4 by (simp add: signed_body_def Let_def mod_add_eq [symmetric])

lemma put_fingerprint_wrote:
  assumes w: "wrote cap (hdr msg n @ b) st" and tid: "length (transaction_id msg) = 12"
    and mod4: "length b mod 4 = 0" and fit: "28 + length b \<le> cap" and cap: "cap < 2 ^ 31"
  shows "\<exists>st'. put_fingerprint 20 st = Some (Inr st')
    \<and> wrote cap (hdr msg (length b + 8) @ b @ enc (fingerprint_attr msg b)) st'"
proof -
  have h: "length (hdr msg k) = 20" for k using tid by (rule length_hdr)
  define lw where "lw = (of_nat (20 + length b) - of_nat 20 + of_nat STUN_ATTR_SIZE + 4 :: u64)"
  have l: "lw = of_nat (length b + 8)" by (simp add: stun_sizes lw_def)
  have ul: "unat lw = length b + 8" unfolding l using fit cap by (simp only: unat_of_nat) (simp add: take_bit_nat_eq_self)
  have "unat (lw AND 3) = (length b + 8) mod 4"
    unfolding and_low_bits(2) unsigned_take_bit_eq ul by (simp add: take_bit_eq_mod)
  also have "\<dots> = 0" using mod4 by presburger
  finally have l3: "lw AND 3 = 0" by (simp only: unat_eq_0)
  have sn: "snd st = 20 + length b" using w by (simp add: wrote_def h)
  obtain p where p: "stun_update_header_length (fst st) lw
      = Some (p, hdr msg (length b + 8) @ b @ drop (20 + length b) (fst st))"
    "wrote cap (hdr msg (length b + 8) @ b) (hdr msg (length b + 8) @ b @ drop (20 + length b) (fst st), snd st)"
    using wrote_update [OF w tid, of lw] ul by metis
  have tk: "take (20 + length b) (hdr msg (length b + 8) @ b @ drop (20 + length b) (fst st)) = hdr msg (length b + 8) @ b"
    using p(2) by (simp add: wrote_def h)
  have "length (enc (fingerprint_attr msg b)) = 8" by (simp add: length_enc fingerprint_attr_def align32_id)
  then obtain st' where "put_attr (fingerprint_attr msg b)
      (hdr msg (length b + 8) @ b @ drop (20 + length b) (fst st), snd st) = Some (Inr st')"
    "wrote cap ((hdr msg (length b + 8) @ b) @ enc (fingerprint_attr msg b)) st'"
    using put_attr_wrote [OF p(2), of "fingerprint_attr msg b"] fit cap by (auto simp: h)
  moreover have "put_fingerprint 20 (fst st, 20 + length b) = put_attr (fingerprint_attr msg b)
      (hdr msg (length b + 8) @ b @ drop (20 + length b) (fst st), 20 + length b)"
    unfolding put_fingerprint_def prod.case lw_def [symmetric] Let_def l3 p(1) bind.bind_lunit tk fingerprint_attr_def mem32_htonl
    by simp
  ultimately show ?thesis using sn by (cases st) simp
qed

text \<open>Up to the fingerprint.\<close>

lemma stun_write_prefix:
  assumes tid: "length (transaction_id msg) = 12" and cap: "length buf < 2 ^ 31"
    and fit: "20 + length (signed_body junk msg password) \<le> length buf"
  obtains st n where "stun_write_steps junk buf msg password = put_fingerprint 20 st"
    "wrote (length buf) (hdr msg n @ signed_body junk msg password) st"
proof -
  have h: "length (hdr msg k) = 20" for k using tid by (rule length_hdr)
  define b where "b = encs (body_attrs junk msg)"
  define sb where "sb = signed_body junk msg password"
  have sb: "sb = b @ encs (mac_attrs msg password b)" by (simp add: sb_def b_def signed_body_def Let_def)
  have n: "20 + length sb \<le> length buf" using fit by (simp add: sb_def)
  have "wrote (length buf) (hdr msg 0) (buf_write buf 0 (hdr msg 0), 20)"
    using n by (simp add: wrote_def h buf_write_def)
  from put_attrs_wrote [OF this, of "body_attrs junk msg"] n cap
  obtain st1 where st1: "put_attrs (body_attrs junk msg) (buf_write buf 0 (hdr msg 0), 20) = Some (Inr st1)"
    "wrote (length buf) (hdr msg 0 @ b) st1" by (auto simp: b_def h sb)
  from put_integrity_wrote [OF st1(2) tid, of password] n cap
  obtain st2 n2 where st2: "put_integrity msg password 20 st1 = Some (Inr st2)" "wrote (length buf) (hdr msg n2 @ sb) st2"
    by (auto simp: sb)
  have hd: "stun_write_header buf 0 (length buf) (msg_class msg) (msg_method msg) (transaction_id msg)
      = Some (20, buf_write buf 0 (hdr msg 0))"
    using n header_bytes_hdr [OF tid] by (simp add: stun_write_header_def stun_sizes)
  have "stun_write_steps junk buf msg password = put_fingerprint 20 st2"
    using hd st1 st2 by (simp add: stun_write_steps_def Let_def wbind_def)
  then show ?thesis using that st2(2) by (simp add: sb_def)
qed

lemma stun_write_wire':
  assumes tid: "length (transaction_id msg) = 12"
    and fit: "length (wire junk msg password) \<le> length buf" and cap: "length buf < 2 ^ 31"
  shows "\<exists>buf'. stun_write junk buf msg password = Some (int (length (wire junk msg password)), buf')
    \<and> length buf' = length buf \<and> take (length (wire junk msg password)) buf' = wire junk msg password"
proof -
  define sb where "sb = signed_body junk msg password"
  have lf: "length (enc (fingerprint_attr msg sb)) = 8" by (simp add: length_enc fingerprint_attr_def align32_id)
  have lw: "wire junk msg password = hdr msg (length sb + 8) @ sb @ enc (fingerprint_attr msg sb)"
    by (simp add: wire_def Let_def sb_def)
  have n: "28 + length sb \<le> length buf" using fit by (simp add: lw lf length_hdr [OF tid])
  then obtain st2 n2 where st2: "stun_write_steps junk buf msg password = put_fingerprint 20 st2"
    "wrote (length buf) (hdr msg n2 @ sb) st2"
    using stun_write_prefix [OF tid cap, of junk password] by (auto simp: sb_def)
  from put_fingerprint_wrote [OF st2(2) tid] length_signed_body_mod4 [of junk msg password] n cap
  obtain st3 where st3: "put_fingerprint 20 st2 = Some (Inr st3)" "wrote (length buf) (wire junk msg password) st3"
    by (auto simp: lw sb_def [symmetric])
  then show ?thesis using st2(1) by (cases st3) (simp add: stun_write_def wrote_def)
qed

text \<open>(C12) \<open>stun_write\<close> is the wire format: in every buffer that is large enough it writes exactly the header, the
  attributes the message asks for in the code's order, the MACs over the message before them with the
  header length set to end after them, and the fingerprint, and it returns the number of bytes.\<close>

theorem stun_write_wire:
  assumes "length (transaction_id msg) = 12"
    and "length (wire junk msg password) \<le> length buf" and "length buf < 2 ^ 31"
  shows "\<exists>buf'. stun_write junk buf msg password = Some (int (length (wire junk msg password)), buf')
    \<and> length buf' = length buf \<and> take (length (wire junk msg password)) buf' = wire junk msg password"
  using assms by (rule stun_write_wire')

theorem stun_write_wire_witness:
  "\<exists>buf'. stun_write 0 (replicate 64 0) (zero_message\<lparr>msg_class := STUN_CLASS_INDICATION\<rparr>) None = Some (40, buf')"
proof -
  let ?m = "zero_message\<lparr>msg_class := STUN_CLASS_INDICATION\<rparr>"
  have tid: "length (transaction_id ?m) = 12" by (simp add: zero_message_def)
  have "length (encs (body_attrs 0 ?m)) = 12"
    by (simp add: body_attrs_def attrs_error_code_def attrs_address_def attrs_ice_def attrs_channel_lifetime_def
        attrs_peers_def attrs_turn_def attrs_software_def attrs_user_def attrs_realm_def zero_message_def
        zero_record_def stun_consts length_enc align32_id str_bytes_def)
  then have "length (wire 0 ?m None) = 40"
    using tid by (simp add: wire_def signed_body_def Let_def mac_attrs_def length_hdr length_enc fingerprint_attr_def align32_id)
  then show ?thesis using stun_write_wire [OF tid, of 0 None "replicate 64 0"] by auto
qed

end
