(* ===== verification/Stun_Roundtrip.thy ===== *)
theory Stun_Roundtrip
  imports Stun_Wire
begin

text \<open>
  Reading back what was written: the reading loop on the wire format, attribute by attribute, then the
  round trip of whole messages, the verification of the integrity attributes, and the cases in which
  the writer's output is not the message.
\<close>

subsection \<open>The reading loop on encoded attributes\<close>

lemma ld_append: "ld (pre @ xs) (length pre + i) n = ld xs i n"
  by (auto simp: ld_def)

lemma ld16_append: "ld16 (pre @ xs) (length pre + i) = ld16 xs i"
  by (simp add: ld16_def ld_append)

lemma ld16_enc:
  "ld16 (pre @ enc (t, v) @ post) (length pre) = Some t"
  "ld16 (pre @ enc (t, v) @ post) (length pre + 2) = Some (of_nat (length v))"
proof -
  have "ld16 (enc (t, v) @ post) 0 = Some t" "ld16 (enc (t, v) @ post) 2 = Some (of_nat (length v))"
    by (simp_all add: ld16_def ld_def enc_def)
  then show "ld16 (pre @ enc (t, v) @ post) (length pre) = Some t"
    "ld16 (pre @ enc (t, v) @ post) (length pre + 2) = Some (of_nat (length v))"
    using ld16_append [of pre "enc (t, v) @ post" 0] ld16_append [of pre "enc (t, v) @ post" 2] by simp_all
qed

lemma ld_enc_value: "ld (pre @ enc (t, v) @ post) (length pre + 4) (length v) = Some v"
  unfolding ld_append by (simp add: ld_def enc_def)

lemma unat_length16: "n < 65536 \<Longrightarrow> unat (of_nat n :: u16) = n"
  by (simp add: unat_of_nat take_bit_nat_eq_self)

text \<open>\<open>reads as x y\<close>: the attributes \<open>as\<close> take message and security bits \<open>x\<close> to \<open>y\<close>.  The fingerprint, which looks
  at the datagram, is not among them.\<close>

inductive reads :: "(u16 \<times> bytes) list \<Rightarrow> stun_message \<times> u32 \<Rightarrow> stun_message \<times> u32 \<Rightarrow> bool" where
  reads_Nil: "reads [] x x"
| reads_Cons: "\<not> has_fingerprint m \<Longrightarrow> t \<noteq> STUN_ATTR_FINGERPRINT \<Longrightarrow> length v < 65536 \<Longrightarrow>
    (has_integrity m \<longrightarrow> integrity_type t) \<Longrightarrow>
    read_attr_value [] 0 t v m s = Some (Some y) \<Longrightarrow> reads as y z \<Longrightarrow> reads ((t, v) # as) (m, s) z"

inductive_cases reads_ConsE: "reads (a # as) x z"

lemma reads_append: "reads as x y \<Longrightarrow> reads bs y z \<Longrightarrow> reads (as @ bs) x z"
  by (induction as x y rule: reads.induct) (auto intro: reads_Cons)

lemma read_attr_value_local:
  "t \<noteq> STUN_ATTR_FINGERPRINT \<Longrightarrow> read_attr_value buf pos t v m s = read_attr_value [] 0 t v m s"
  by (simp add: read_attr_value_def)

lemma read_attr_enc:
  assumes "\<not> has_fingerprint m" "length v < 65536" "has_integrity m \<longrightarrow> integrity_type t"
    "length (enc (t, v)) \<le> sz"
  shows "stun_read_attr (pre @ enc (t, v) @ post) (length pre) sz m s =
    do { r \<leftarrow> read_attr_value (pre @ enc (t, v) @ post) (length pre) t v m s;
         Some (case r of None \<Rightarrow> None | Some (m', s') \<Rightarrow> Some (length (enc (t, v)), m', s')) }"
proof -
  have "4 + length v \<le> sz" using assms(4) align32_props(1) [of "length v"] by (simp add: length_enc)
  then show ?thesis using assms(1,2,3) ld_enc_value [of pre t v post]
    by (cases "read_attr_value (pre @ enc (t, v) @ post) (length pre) t v m s")
      (auto simp: stun_read_attr_def stun_sizes ld16_enc ld16_enc(2) [simplified] unat_length16 length_enc Let_def
        split: option.splits)
qed

lemma reads_loop:
  "reads as (m, s) (m', s') \<Longrightarrow> length (pre @ encs as) \<le> fin \<Longrightarrow>
    stun_read_loop (pre @ encs as @ post) fin (length pre) m s
    = stun_read_loop (pre @ encs as @ post) fin (length (pre @ encs as)) m' s'"
proof (induction as "(m, s)" "(m', s')" arbitrary: pre m s rule: reads.induct)
  case (reads_Cons m t v s y as)
  obtain m1 s1 where y: "y = (m1, s1)" by fastforce
  have "read_attr_value (pre @ enc (t, v) @ encs as @ post) (length pre) t v m s = Some (Some (m1, s1))"
    using read_attr_value_local [OF reads_Cons(2)] reads_Cons(5) y by metis
  then have "stun_read_attr (pre @ enc (t, v) @ encs as @ post) (length pre) (fin - length pre) m s
      = Some (Some (length (enc (t, v)), m1, s1))"
    using read_attr_enc [of m v t "fin - length pre" pre "encs as @ post" s] reads_Cons.prems reads_Cons(1-4) by simp
  then have "stun_read_loop (pre @ encs ((t, v) # as) @ post) fin (length pre) m s
      = stun_read_loop ((pre @ enc (t, v)) @ encs as @ post) fin (length (pre @ enc (t, v))) m1 s1"
    using reads_Cons.prems by (subst stun_read_loop.simps) (simp add: length_enc)
  also have "\<dots> = stun_read_loop ((pre @ enc (t, v)) @ encs as @ post) fin (length ((pre @ enc (t, v)) @ encs as)) m' s'"
    using reads_Cons.prems by (intro reads_Cons.hyps(7) [OF y]) simp
  finally show ?case by simp
qed simp

subsection \<open>Addresses\<close>

text \<open>A record as the reader makes it: empty, or an IPv4 or IPv6 datagram address.\<close>

definition plain_record :: "addr_record \<Rightarrow> bool" where
  "plain_record r \<longleftrightarrow> ar_socktype r = SOCK_DGRAM \<and> addr_wf (ar_addr r) \<and> ar_len r = addr_get_len (ar_addr r)
     \<and> (case ar_addr r of Sin _ _ \<Rightarrow> True | Sin6 _ f _ s \<Rightarrow> f = 0 \<and> s = 0 | SaOther _ \<Rightarrow> False)"

lemma ld_mem16_mem16 [simp]: "ld_mem16 (mem16 x) = x"
  unfolding ld_mem16_def mem16_def by (simp, rule bit_word_eqI) (auto simp: bit_simps)

lemma xor_bytes_twice: "length xs \<le> length msk \<Longrightarrow> xor_bytes (xor_bytes xs msk) msk = xs"
  unfolding xor_bytes_def
proof (induction xs arbitrary: msk)
  case (Cons x xs)
  then show ?case by (cases msk) (simp_all add: ac_simps)
qed simp

lemma length_xor_bytes [simp]: "length (xor_bytes xs msk) = min (length xs) (length msk)"
  by (simp add: xor_bytes_def)

lemma read_write_address:
  assumes "plain_record r" "length msk = 16"
  obtains n v where "stun_write_value_mapped_address 32 (ar_addr r) (ar_len r) msk = (n, v)" "0 < n" "length v \<le> 20"
    "nat n = length v" "stun_read_value_mapped_address v zero_record msk = Some (n, r)"
proof (cases "ar_addr r")
  case (Sin p a)
  then have "length a = 4" and r: "r = \<lparr>ar_addr = Sin p a, ar_len = 16, ar_socktype = SOCK_DGRAM\<rparr>"
    using assms(1) by (auto simp: plain_record_def addr_wf_def sizeof_sockaddr_in_def intro!: addr_record.equality)
  then show ?thesis
    using assms(2) that [of 8 "[0, 0x01] @ mem16 (p XOR ld_mem16 msk) @ xor_bytes (take 4 a) (take 4 msk)"]
    by (simp add: stun_write_value_mapped_address_def stun_read_value_mapped_address_def sizeof_sockaddr_in_def ld_defs
        zero_record_def xor_bytes_twice ac_simps)
next
  case (Sin6 p f a s)
  then have "length a = 16" and r: "r = \<lparr>ar_addr = Sin6 p 0 a 0, ar_len = 28, ar_socktype = SOCK_DGRAM\<rparr>"
    using assms(1) by (auto simp: plain_record_def addr_wf_def sizeof_sockaddr_in6_def intro!: addr_record.equality)
  then show ?thesis
    using assms(2) that [of 20 "[0, 0x02] @ mem16 (p XOR ld_mem16 msk) @ xor_bytes (take 16 a) (take 16 msk)"]
    by (simp add: stun_write_value_mapped_address_def stun_read_value_mapped_address_def sizeof_sockaddr_in6_def ld_defs
        zero_record_def xor_bytes_twice old_flowinfo_def old_scope_id_def ac_simps)
qed (use assms in \<open>simp add: plain_record_def\<close>)

lemma generate_mask_length: "length tid = 12 \<Longrightarrow> length (generate_mask tid) = 16"
  by (simp add: generate_mask_def)

subsection \<open>The groups of attributes\<close>

lemma switch_cases:
  "read_attr_value b p STUN_ATTR_NONCE v m s = read_nonce v m s"
  "read_attr_value b p STUN_ATTR_XOR_MAPPED_ADDRESS v m s
     = keep_bits s (read_mapped_address (generate_mask (transaction_id m)) v m)"
  "read_attr_value b p STUN_ATTR_ERROR_CODE v m s = keep_bits s (read_error_code v m)"
  "read_attr_value b p STUN_ATTR_USERNAME v m s = keep_bits s (read_username v m)"
  "read_attr_value b p STUN_ATTR_MESSAGE_INTEGRITY v m s = keep_bits s (read_integrity HMAC_SHA1_SIZE v m)"
  "read_attr_value b p STUN_ATTR_MESSAGE_INTEGRITY_SHA256 v m s = keep_bits s (read_integrity HMAC_SHA256_SIZE v m)"
  "read_attr_value b p STUN_ATTR_FINGERPRINT v m s = keep_bits s (read_fingerprint b p v m)"
  "read_attr_value b p STUN_ATTR_REALM v m s = keep_bits s (read_realm v m)"
  "read_attr_value b p STUN_ATTR_PASSWORD_ALGORITHM v m s = keep_bits s (read_password_algorithm v m)"
  "read_attr_value b p STUN_ATTR_PASSWORD_ALGORITHMS v m s = keep_bits s (read_password_algorithms v m)"
  "read_attr_value b p STUN_ATTR_USERHASH v m s = keep_bits s (read_userhash v m)"
  "read_attr_value b p STUN_ATTR_SOFTWARE v m s = keep_bits s (read_software v m)"
  "read_attr_value b p STUN_ATTR_PRIORITY v m s = keep_bits s (read_priority v m)"
  "read_attr_value b p STUN_ATTR_USE_CANDIDATE v m s = Some (Some (m\<lparr>use_candidate := True\<rparr>, s))"
  "read_attr_value b p STUN_ATTR_ICE_CONTROLLING v m s = keep_bits s (read_ice_controlling v m)"
  "read_attr_value b p STUN_ATTR_ICE_CONTROLLED v m s = keep_bits s (read_ice_controlled v m)"
  "read_attr_value b p STUN_ATTR_CHANNEL_NUMBER v m s = keep_bits s (read_channel_number v m)"
  "read_attr_value b p STUN_ATTR_LIFETIME v m s = keep_bits s (read_lifetime v m)"
  "read_attr_value b p STUN_ATTR_XOR_PEER_ADDRESS v m s = keep_bits s (read_peer_address v m)"
  "read_attr_value b p STUN_ATTR_XOR_RELAYED_ADDRESS v m s = keep_bits s (read_relayed_address v m)"
  "read_attr_value b p STUN_ATTR_DATA v m s = Some (Some (m\<lparr>msg_data := Some v\<rparr>, s))"
  "read_attr_value b p STUN_ATTR_REQUESTED_TRANSPORT v m s = keep_bits s (read_requested_transport v m)"
  "read_attr_value b p STUN_ATTR_DONT_FRAGMENT v m s = Some (Some (m\<lparr>dont_fragment := True\<rparr>, s))"
  "read_attr_value b p STUN_ATTR_RESERVATION_TOKEN v m s = keep_bits s (read_reservation_token v m)"
  unfolding read_attr_value_def stun_consts by (simp_all add: keep_bits_def)

lemma not_fingerprint:
  "STUN_ATTR_NONCE \<noteq> STUN_ATTR_FINGERPRINT" "STUN_ATTR_XOR_MAPPED_ADDRESS \<noteq> STUN_ATTR_FINGERPRINT"
  "STUN_ATTR_ERROR_CODE \<noteq> STUN_ATTR_FINGERPRINT" "STUN_ATTR_USERNAME \<noteq> STUN_ATTR_FINGERPRINT"
  "STUN_ATTR_MESSAGE_INTEGRITY \<noteq> STUN_ATTR_FINGERPRINT" "STUN_ATTR_MESSAGE_INTEGRITY_SHA256 \<noteq> STUN_ATTR_FINGERPRINT"
  "STUN_ATTR_REALM \<noteq> STUN_ATTR_FINGERPRINT" "STUN_ATTR_PASSWORD_ALGORITHM \<noteq> STUN_ATTR_FINGERPRINT"
  "STUN_ATTR_PASSWORD_ALGORITHMS \<noteq> STUN_ATTR_FINGERPRINT" "STUN_ATTR_USERHASH \<noteq> STUN_ATTR_FINGERPRINT"
  "STUN_ATTR_SOFTWARE \<noteq> STUN_ATTR_FINGERPRINT" "STUN_ATTR_PRIORITY \<noteq> STUN_ATTR_FINGERPRINT"
  "STUN_ATTR_USE_CANDIDATE \<noteq> STUN_ATTR_FINGERPRINT" "STUN_ATTR_ICE_CONTROLLING \<noteq> STUN_ATTR_FINGERPRINT"
  "STUN_ATTR_ICE_CONTROLLED \<noteq> STUN_ATTR_FINGERPRINT" "STUN_ATTR_CHANNEL_NUMBER \<noteq> STUN_ATTR_FINGERPRINT"
  "STUN_ATTR_LIFETIME \<noteq> STUN_ATTR_FINGERPRINT" "STUN_ATTR_XOR_PEER_ADDRESS \<noteq> STUN_ATTR_FINGERPRINT"
  "STUN_ATTR_XOR_RELAYED_ADDRESS \<noteq> STUN_ATTR_FINGERPRINT" "STUN_ATTR_DATA \<noteq> STUN_ATTR_FINGERPRINT"
  "STUN_ATTR_REQUESTED_TRANSPORT \<noteq> STUN_ATTR_FINGERPRINT" "STUN_ATTR_DONT_FRAGMENT \<noteq> STUN_ATTR_FINGERPRINT"
  "STUN_ATTR_RESERVATION_TOKEN \<noteq> STUN_ATTR_FINGERPRINT"
  unfolding stun_consts by simp_all

definition fresh :: "stun_message \<Rightarrow> bool" where
  "fresh m \<longleftrightarrow> \<not> has_fingerprint m \<and> \<not> has_integrity m"

lemma reads_one:
  "fresh m \<Longrightarrow> t \<noteq> STUN_ATTR_FINGERPRINT \<Longrightarrow> length v < 65536 \<Longrightarrow>
    read_attr_value [] 0 t v m s = Some (Some y) \<Longrightarrow> reads [(t, v)] (m, s) y"
  by (auto simp: fresh_def intro: reads.intros)

lemma reads_if: "(c \<Longrightarrow> reads as x y) \<Longrightarrow> (\<not> c \<Longrightarrow> x = y) \<Longrightarrow> reads (if c then as else []) x y"
  by (auto intro: reads_Nil)

lemma length_error_reason: "length (stun_get_error_reason c) < 60"
  by (simp add: stun_get_error_reason_def str_bytes_def)

lemma error_code_back:
  fixes c :: u32
  assumes "c < 800"
  shows "ucast ((ucast (c div 100) AND 0x07) :: byte) * 100 + ucast (ucast (c mod 100) :: byte) = c"
proof -
  define n where "n = unat c"
  have n: "n < 800" "c = of_nat n" using assms by (simp_all add: n_def word_less_nat_alt)
  have "n div 100 < 8" using n(1) by simp
  moreover have "c div 100 = of_nat (n div 100)" "c mod 100 = of_nat (n mod 100)"
    by (simp_all add: n_def word_arith_nat_div word_arith_nat_mod)
  moreover have "(of_nat k AND 0x07 :: byte) = of_nat k" if "k < 8" for k
    using that unfolding and_low_bits(3) word_unat_eq_iff unsigned_take_bit_eq
    by (simp add: unat_of_nat take_bit_nat_eq_self)
  moreover have "(ucast (of_nat k :: byte) :: u32) = of_nat k" if "k < 256" for k
    using that unfolding word_unat_eq_iff by (simp add: unat_of_nat take_bit_nat_eq_self unsigned_ucast_eq)
  moreover have "(ucast (of_nat k :: u32) :: byte) = of_nat k" for k
    unfolding word_unat_eq_iff by (simp add: unat_of_nat unsigned_ucast_eq take_bit_eq_mod mod_mod_cancel)
  ultimately have "ucast ((ucast (c div 100) AND 0x07) :: byte) * 100 + ucast (ucast (c mod 100) :: byte)
      = (of_nat (n div 100) * 100 + of_nat (n mod 100) :: u32)"
    by simp
  also have "\<dots> = of_nat (n div 100 * 100 + n mod 100)" by (simp only: of_nat_add of_nat_mult of_nat_numeral)
  also have "\<dots> = c" by (simp only: div_mult_mod_eq n(2))
  finally show ?thesis .
qed

lemma reads_error_code:
  "fresh m \<Longrightarrow> error_code m = 0 \<Longrightarrow> error_code msg < 800 \<Longrightarrow>
    reads (attrs_error_code msg) (m, s) (m\<lparr>error_code := error_code msg\<rparr>, s)"
  unfolding attrs_error_code_def
  using length_error_reason [of "error_code msg"] error_code_back [of "error_code msg"]
  by (intro reads_if reads_one)
    (auto simp: not_fingerprint switch_cases keep_bits_def read_error_code_def ld8_def)

text \<open>An address attribute, for the three fields that hold one.\<close>

lemma attrs_address_plain:
  assumes "r = zero_record \<or> plain_record r" "length tid = 12"
  shows "r = zero_record \<and> attrs_address t tid r = []
    \<or> (\<exists>n v. attrs_address t tid r = [(t, v)] \<and> length v \<le> 20 \<and> 0 \<le> n
        \<and> stun_read_value_mapped_address v zero_record (generate_mask tid) = Some (n, r))"
proof (cases "plain_record r")
  case True
  obtain n v where nv: "stun_write_value_mapped_address 32 (ar_addr r) (ar_len r) (generate_mask tid) = (n, v)" "0 < n"
    "length v \<le> 20" "stun_read_value_mapped_address v zero_record (generate_mask tid) = Some (n, r)"
    using read_write_address [OF True generate_mask_length [OF assms(2)]] by metis
  moreover have "ar_len r \<noteq> 0"
    using True by (cases "ar_addr r") (auto simp: plain_record_def sizeof_sockaddr_in_def sizeof_sockaddr_in6_def)
  ultimately show ?thesis by (auto simp: attrs_address_def)
next
  case False
  then show ?thesis using assms by (simp add: attrs_address_def zero_record_def)
qed

lemma reads_mapped:
  assumes "fresh m" "mapped m = zero_record" "r = zero_record \<or> plain_record r" "length (transaction_id m) = 12"
  shows "reads (attrs_address STUN_ATTR_XOR_MAPPED_ADDRESS (transaction_id m) r) (m, s) (m\<lparr>mapped := r\<rparr>, s)"
  using attrs_address_plain [OF assms(3,4), of STUN_ATTR_XOR_MAPPED_ADDRESS] assms
  by (cases m) (auto simp: not_fingerprint switch_cases keep_bits_def read_mapped_address_def
      intro!: reads_Nil reads_one)

lemma reads_relayed:
  assumes "fresh m" "relayed m = zero_record" "r = zero_record \<or> plain_record r" "length (transaction_id m) = 12"
  shows "reads (attrs_address STUN_ATTR_XOR_RELAYED_ADDRESS (transaction_id m) r) (m, s) (m\<lparr>relayed := r\<rparr>, s)"
  using attrs_address_plain [OF assms(3,4), of STUN_ATTR_XOR_RELAYED_ADDRESS] assms
  by (cases m) (auto simp: not_fingerprint switch_cases keep_bits_def read_relayed_address_def
      intro!: reads_Nil reads_one)

lemma plain_record_len: "plain_record r \<Longrightarrow> ar_len r \<noteq> 0" "\<not> plain_record zero_record"
  by (cases "ar_addr r"; auto simp: plain_record_def sizeof_sockaddr_in_def sizeof_sockaddr_in6_def)
    (simp add: plain_record_def zero_record_def)

lemma reads_peers:
  "fresh m \<Longrightarrow> length (peers m) + length ps \<le> 8 \<Longrightarrow> list_all plain_record ps \<Longrightarrow> length (transaction_id m) = 12 \<Longrightarrow>
    reads (concat (map (attrs_address STUN_ATTR_XOR_PEER_ADDRESS (transaction_id m)) ps)) (m, s)
      (m\<lparr>peers := peers m @ ps\<rparr>, s)"
proof (induction ps arbitrary: m)
  case Nil
  then show ?case by (cases m) (auto intro: reads_Nil)
next
  case (Cons r ps)
  let ?m1 = "m\<lparr>peers := peers m @ [r]\<rparr>"
  have "reads (attrs_address STUN_ATTR_XOR_PEER_ADDRESS (transaction_id m) r) (m, s) (?m1, s)"
    using attrs_address_plain [of r "transaction_id m" STUN_ATTR_XOR_PEER_ADDRESS] Cons.prems plain_record_len(1) [of r] plain_record_len(2)
    by (auto simp: not_fingerprint switch_cases keep_bits_def read_peer_address_def stun_sizes intro!: reads_one)
  moreover have "reads (concat (map (attrs_address STUN_ATTR_XOR_PEER_ADDRESS (transaction_id ?m1)) ps)) (?m1, s)
      (?m1\<lparr>peers := peers ?m1 @ ps\<rparr>, s)"
    using Cons.prems by (intro Cons.IH) (auto simp: fresh_def)
  ultimately show ?case using reads_append by fastforce
qed

lemma ld_net [simp]:
  "ld16 (net16 x @ r) 0 = Some x" "ld32 (net32 y) 0 = Some y" "ld64 (net64 z) 0 = Some z"
  by (simp_all add: ld_defs)

lemma reads_priority:
  "fresh m \<Longrightarrow> priority m = 0 \<Longrightarrow>
    reads (if p \<noteq> 0 then [(STUN_ATTR_PRIORITY, mem32 (htonl p))] else []) (m, s) (m\<lparr>priority := p\<rparr>, s)"
  by (cases m, intro reads_if reads_one)
    (auto simp: not_fingerprint switch_cases keep_bits_def read_priority_def mem32_htonl)

lemma reads_use_candidate:
  "fresh m \<Longrightarrow> \<not> use_candidate m \<Longrightarrow>
    reads (if u then [(STUN_ATTR_USE_CANDIDATE, [])] else []) (m, s) (m\<lparr>use_candidate := u\<rparr>, s)"
  by (cases m, intro reads_if reads_one) (auto simp: not_fingerprint switch_cases)

lemma reads_ice_controlling:
  "fresh m \<Longrightarrow> ice_controlling m = 0 \<Longrightarrow>
    reads (if x \<noteq> 0 then [(STUN_ATTR_ICE_CONTROLLING, net64 x)] else []) (m, s) (m\<lparr>ice_controlling := x\<rparr>, s)"
  by (cases m, intro reads_if reads_one)
    (auto simp: not_fingerprint switch_cases keep_bits_def read_ice_controlling_def)

lemma reads_ice_controlled:
  "fresh m \<Longrightarrow> ice_controlled m = 0 \<Longrightarrow>
    reads (if x \<noteq> 0 then [(STUN_ATTR_ICE_CONTROLLED, net64 x)] else []) (m, s) (m\<lparr>ice_controlled := x\<rparr>, s)"
  by (cases m, intro reads_if reads_one)
    (auto simp: not_fingerprint switch_cases keep_bits_def read_ice_controlled_def)

lemma reads_channel:
  "fresh m \<Longrightarrow> channel_number m = 0 \<Longrightarrow>
    reads (if c \<noteq> 0 then [(STUN_ATTR_CHANNEL_NUMBER, mem16 (htons c) @ [0, 0])] else []) (m, s) (m\<lparr>channel_number := c\<rparr>, s)"
  by (cases m, intro reads_if reads_one)
    (auto simp: not_fingerprint switch_cases keep_bits_def read_channel_number_def mem16_htons)

lemma reads_lifetime:
  "fresh m \<Longrightarrow> lifetime m = 0 \<Longrightarrow> \<not> lifetime_set m \<Longrightarrow>
    reads (if ls \<or> l \<noteq> 0 then [(STUN_ATTR_LIFETIME, mem32 (htonl l))] else []) (m, s)
      (m\<lparr>lifetime := l, lifetime_set := (ls \<or> l \<noteq> 0)\<rparr>, s)"
  by (cases m, intro reads_if reads_one)
    (auto simp: not_fingerprint switch_cases keep_bits_def read_lifetime_def mem32_htonl)

lemma reads_data:
  "fresh m \<Longrightarrow> msg_data m = None \<Longrightarrow> (case d of None \<Rightarrow> True | Some x \<Rightarrow> length x < 65536) \<Longrightarrow>
    reads (case d of None \<Rightarrow> [] | Some x \<Rightarrow> [(STUN_ATTR_DATA, x)]) (m, s) (m\<lparr>msg_data := d\<rparr>, s)"
  by (cases m; cases d) (auto simp: not_fingerprint switch_cases intro!: reads_Nil reads_one)

lemma reads_requested_transport:
  "fresh m \<Longrightarrow> \<not> requested_transport m \<Longrightarrow>
    reads (if u then [(STUN_ATTR_REQUESTED_TRANSPORT, [17, 0, 0, 0])] else []) (m, s) (m\<lparr>requested_transport := u\<rparr>, s)"
  by (cases m, intro reads_if reads_one)
    (auto simp: not_fingerprint switch_cases keep_bits_def read_requested_transport_def ld8_def)

lemma reads_dont_fragment:
  "fresh m \<Longrightarrow> \<not> dont_fragment m \<Longrightarrow>
    reads (if u then [(STUN_ATTR_DONT_FRAGMENT, [])] else []) (m, s) (m\<lparr>dont_fragment := u\<rparr>, s)"
  by (cases m, intro reads_if reads_one) (auto simp: not_fingerprint switch_cases)

lemma reads_reservation_token:
  "fresh m \<Longrightarrow> reservation_token m = 0 \<Longrightarrow>
    reads (if x \<noteq> 0 then [(STUN_ATTR_RESERVATION_TOKEN, net64 x)] else []) (m, s) (m\<lparr>reservation_token := x\<rparr>, s)"
  by (cases m, intro reads_if reads_one)
    (auto simp: not_fingerprint switch_cases keep_bits_def read_reservation_token_def)

lemma reads_software: "fresh m \<Longrightarrow> reads attrs_software (m, s) (m, s)"
  unfolding attrs_software_def
  by (intro reads_one) (auto simp: not_fingerprint switch_cases keep_bits_def read_software_def stun_sizes str_bytes_def)

subsection \<open>Credentials\<close>

text \<open>Strings that fit their fields, and either no password algorithm or a known one with the list that the
  library generates.\<close>

definition credentials_ok :: "stun_credentials \<Rightarrow> bool" where
  "credentials_ok c \<longleftrightarrow> 0 \<notin> set (username c) \<and> length (username c) < STUN_MAX_USERNAME_LEN
     \<and> 0 \<notin> set (realm c) \<and> length (realm c) < STUN_MAX_REALM_LEN
     \<and> 0 \<notin> set (nonce c) \<and> length (nonce c) < STUN_MAX_NONCE_LEN
     \<and> length (userhash c) = USERHASH_SIZE
     \<and> (password_algorithm c = STUN_PASSWORD_ALGORITHM_UNSET
        \<or> known_algorithm (password_algorithm c) \<and> password_algorithms_value c = generate_password_algorithms_attr)"

definition is_request :: "stun_message \<Rightarrow> bool" where
  "is_request msg \<longleftrightarrow> msg_class msg = STUN_CLASS_REQUEST"

text \<open>Whether realm and nonce are sent: requests and the challenges 401 and 438.\<close>

definition sends_nonce :: "stun_message \<Rightarrow> bool" where
  "sends_nonce msg \<longleftrightarrow> is_request msg
     \<or> (msg_class msg = STUN_CLASS_RESP_ERROR \<and> (error_code msg = 401 \<or> error_code msg = 438))"

definition nonce_bits :: "stun_message \<Rightarrow> u32" where
  "nonce_bits msg = (if sends_nonce msg
     then case nonce_security_bits (msg_class msg) (nonce (credentials msg)) 0 of Some b \<Rightarrow> b | None \<Rightarrow> 0 else 0)"

definition sends_algorithms :: "stun_message \<Rightarrow> bool" where
  "sends_algorithms msg \<longleftrightarrow> sends_nonce msg \<and> nonce (credentials msg) \<noteq> []
     \<and> (password_algorithm (credentials msg) \<noteq> STUN_PASSWORD_ALGORITHM_UNSET \<or> \<not> is_request msg)"

lemma cstr_back: "0 \<notin> set v \<Longrightarrow> cstr (v @ [0]) = v"
  by (rule cstr_append_0)

lemma reads_user:
  assumes "fresh m" "credentials_ok (credentials msg)" "username (credentials m) = []"
    "userhash (credentials m) = replicate 32 0" "\<not> enable_userhash (credentials m)"
  shows "reads (attrs_user msg) (m, s) (m\<lparr>credentials := (credentials m)\<lparr>
      username := if is_request msg \<and> \<not> enable_userhash (credentials msg) then username (credentials msg) else [],
      userhash := if is_request msg \<and> enable_userhash (credentials msg) then userhash (credentials msg) else replicate 32 0,
      enable_userhash := is_request msg \<and> enable_userhash (credentials msg)\<rparr>\<rparr>, s)"
proof -
  have same: "m\<lparr>credentials := (credentials m)\<lparr>username := [], userhash := replicate 32 0, enable_userhash := False\<rparr>\<rparr> = m"
    using assms(3-5) by (cases m; cases "credentials m") simp
  have one: "reads [(STUN_ATTR_USERHASH, userhash (credentials msg))] (m, s)
      (m\<lparr>credentials := (credentials m)\<lparr>username := [], userhash := userhash (credentials msg), enable_userhash := True\<rparr>\<rparr>, s)"
    "reads [(STUN_ATTR_USERNAME, username (credentials msg))] (m, s)
      (m\<lparr>credentials := (credentials m)\<lparr>username := username (credentials msg), userhash := replicate 32 0,
         enable_userhash := False\<rparr>\<rparr>, s)"
    using assms
    by (auto simp: not_fingerprint switch_cases keep_bits_def read_userhash_def read_username_def credentials_ok_def
        stun_sizes cstr_back intro!: reads_one stun_message.equality stun_credentials.equality)
  show ?thesis
    using one same by (auto simp: attrs_user_def is_request_def [symmetric] intro: reads_Nil)
qed

lemma generated_algorithms: "algorithms_loop generate_password_algorithms_attr = Some (Some (Some STUN_PASSWORD_ALGORITHM_SHA256))"
  "length generate_password_algorithms_attr = 8" "generate_password_algorithms_attr \<noteq> []"
proof -
  show "length generate_password_algorithms_attr = 8" "generate_password_algorithms_attr \<noteq> []"
    by (simp_all add: generate_password_algorithms_attr_def mem16_def)
  have gen: "generate_password_algorithms_attr
      = net16 STUN_PASSWORD_ALGORITHM_SHA256 @ net16 0 @ net16 STUN_PASSWORD_ALGORITHM_MD5 @ net16 0"
    by (simp add: generate_password_algorithms_attr_def mem16_htons) (simp add: mem16_def net16_def)
  show "algorithms_loop generate_password_algorithms_attr = Some (Some (Some STUN_PASSWORD_ALGORITHM_SHA256))"
    unfolding gen by (subst algorithms_loop.simps) (simp add: ld16_def ld_def align32_id known_algorithm_def Let_def)
qed

lemma reads_realm_attr:
  assumes "fresh m" "credentials_ok (credentials msg)" "realm (credentials m) = []"
  shows "reads (if realm (credentials msg) \<noteq> [] then [(STUN_ATTR_REALM, realm (credentials msg))] else []) (m, s)
    (m\<lparr>credentials := (credentials m)\<lparr>realm := realm (credentials msg)\<rparr>\<rparr>, s)"
  using assms
  by (cases m; cases "credentials m") (intro reads_if reads_one,
      auto simp: not_fingerprint switch_cases keep_bits_def read_realm_def credentials_ok_def stun_sizes cstr_back)

lemma nonce_bits_safe: "\<exists>b. nonce_security_bits cls nnc s = Some b"
proof (cases "length nnc > length STUN_NONCE_COOKIE + 4")
  case True
  then have "length (take 4 (drop (length STUN_NONCE_COOKIE) nnc)) = 4" by simp
  from decode_four_safe [OF this] show ?thesis by (auto simp: nonce_security_bits_def)
qed (simp add: nonce_security_bits_def)

lemma reads_nonce_attr:
  assumes "fresh m" "credentials_ok (credentials msg)" "msg_class m = msg_class msg" "sends_nonce msg"
  shows "reads [(STUN_ATTR_NONCE, nonce (credentials msg))] (m, 0)
    (m\<lparr>credentials := (credentials m)\<lparr>nonce := nonce (credentials msg)\<rparr>\<rparr>, nonce_bits msg)"
proof -
  obtain b where "nonce_security_bits (msg_class msg) (nonce (credentials msg)) 0 = Some b" using nonce_bits_safe by blast
  then show ?thesis
    using assms by (intro reads_one)
      (auto simp: not_fingerprint switch_cases read_nonce_def nonce_bits_def credentials_ok_def stun_sizes cstr_back Let_def)
qed

lemma request_class: "\<not> STUN_IS_RESPONSE STUN_CLASS_REQUEST" "STUN_IS_RESPONSE STUN_CLASS_RESP_ERROR"
  "\<not> STUN_IS_RESPONSE STUN_CLASS_INDICATION" "STUN_IS_RESPONSE STUN_CLASS_RESP_SUCCESS"
  by (simp_all add: STUN_IS_RESPONSE_def stun_consts)

lemma reads_algorithms:
  assumes "fresh m" "credentials_ok (credentials msg)" "msg_class m = msg_class msg" "sends_nonce msg"
    "password_algorithm (credentials m) = STUN_PASSWORD_ALGORITHM_UNSET" "password_algorithms_value (credentials m) = []"
    "nonce (credentials msg) \<noteq> []"
  defines "c \<equiv> credentials msg"
  shows "reads ((if password_algorithm c > 0 then [(STUN_ATTR_PASSWORD_ALGORITHMS, password_algorithms_value c)]
        else if msg_class msg \<noteq> STUN_CLASS_REQUEST
        then [(STUN_ATTR_PASSWORD_ALGORITHMS, generate_password_algorithms_attr)] else [])
      @ (if msg_class msg = STUN_CLASS_REQUEST \<and> password_algorithm c \<noteq> STUN_PASSWORD_ALGORITHM_UNSET
         then [(STUN_ATTR_PASSWORD_ALGORITHM, mem16 (htons (password_algorithm c)) @ mem16 junk)] else [])) (m, s)
    (m\<lparr>credentials := (credentials m)\<lparr>
       password_algorithms_value := if sends_algorithms msg then generate_password_algorithms_attr else [],
       password_algorithm := if sends_algorithms msg \<and> is_request msg then password_algorithm c
         else STUN_PASSWORD_ALGORITHM_UNSET\<rparr>\<rparr>, s)"
proof -
  have unset: "password_algorithm c > 0 \<longleftrightarrow> password_algorithm c \<noteq> STUN_PASSWORD_ALGORITHM_UNSET"
    by (simp add: stun_consts word_neq_0_conv [symmetric])
  have gen: "password_algorithm c \<noteq> STUN_PASSWORD_ALGORITHM_UNSET \<Longrightarrow>
      known_algorithm (password_algorithm c) \<and> password_algorithms_value c = generate_password_algorithms_attr"
    using assms(2) by (auto simp: credentials_ok_def c_def)
  have cls: "msg_class msg = STUN_CLASS_REQUEST \<or> msg_class msg = STUN_CLASS_RESP_ERROR"
    using assms(4) by (auto simp: sends_nonce_def is_request_def)
  let ?cr = "credentials m"
  have ls: "reads [(STUN_ATTR_PASSWORD_ALGORITHMS, generate_password_algorithms_attr)] (m, s)
      (m\<lparr>credentials := ?cr\<lparr>password_algorithms_value := generate_password_algorithms_attr,
        password_algorithm := if is_request msg then STUN_PASSWORD_ALGORITHM_SHA256 else password_algorithm ?cr\<rparr>\<rparr>, s)"
    using assms(1,3) cls
    by (intro reads_one) (auto simp: not_fingerprint switch_cases keep_bits_def read_password_algorithms_def
        generated_algorithms stun_sizes is_request_def request_class Let_def)
  show ?thesis
  proof (cases "password_algorithm c = STUN_PASSWORD_ALGORITHM_UNSET")
    case True
    have same: "m\<lparr>credentials := ?cr\<lparr>password_algorithms_value := [], password_algorithm := STUN_PASSWORD_ALGORITHM_UNSET\<rparr>\<rparr> = m"
      using assms(5,6) by (cases m; cases ?cr) simp
    show ?thesis using True ls same assms(4,5,7) unset
      by (auto simp: sends_algorithms_def is_request_def c_def intro: reads_Nil)
  next
    case False
    let ?m1 = "m\<lparr>credentials := ?cr\<lparr>password_algorithms_value := generate_password_algorithms_attr,
        password_algorithm := STUN_PASSWORD_ALGORITHM_SHA256\<rparr>\<rparr>"
    have "reads [(STUN_ATTR_PASSWORD_ALGORITHM, mem16 (htons (password_algorithm c)) @ mem16 junk)] (?m1, s)
        (?m1\<lparr>credentials := (credentials ?m1)\<lparr>password_algorithm := password_algorithm c\<rparr>\<rparr>, s)" if "is_request msg"
      using assms(1,3) gen [OF False] that
      by (intro reads_one) (auto simp: fresh_def not_fingerprint switch_cases keep_bits_def read_password_algorithm_def
          is_request_def request_class mem16_htons)
    then show ?thesis
      using False gen [OF False] ls unset assms(4,5,7)
      by (auto simp: sends_algorithms_def is_request_def c_def dest: reads_append)
  qed
qed

lemma nonce_bits_empty: "nonce (credentials msg) = [] \<Longrightarrow> nonce_bits msg = 0"
  by (simp add: nonce_bits_def nonce_security_bits_def)

lemma reads_nonce_group:
  assumes "fresh m" "credentials_ok (credentials msg)" "msg_class m = msg_class msg" "sends_nonce msg"
    "nonce (credentials m) = []"
    "password_algorithm (credentials m) = STUN_PASSWORD_ALGORITHM_UNSET" "password_algorithms_value (credentials m) = []"
  shows "reads (attrs_nonce junk msg) (m, 0)
    (m\<lparr>credentials := (credentials m)\<lparr>nonce := nonce (credentials msg),
       password_algorithms_value := if sends_algorithms msg then generate_password_algorithms_attr else [],
       password_algorithm := if sends_algorithms msg \<and> is_request msg then password_algorithm (credentials msg)
         else STUN_PASSWORD_ALGORITHM_UNSET\<rparr>\<rparr>, nonce_bits msg)"
proof (cases "nonce (credentials msg) = []")
  case True
  have "m\<lparr>credentials := (credentials m)\<lparr>nonce := [], password_algorithms_value := [],
      password_algorithm := STUN_PASSWORD_ALGORITHM_UNSET\<rparr>\<rparr> = m"
    using assms(5-7) by (cases m; cases "credentials m") simp
  with True show ?thesis
    by (simp add: attrs_nonce_def sends_algorithms_def nonce_bits_empty reads_Nil)
next
  case False
  let ?m1 = "m\<lparr>credentials := (credentials m)\<lparr>nonce := nonce (credentials msg)\<rparr>\<rparr>"
  have "fresh ?m1" "msg_class ?m1 = msg_class msg"
    "password_algorithm (credentials ?m1) = STUN_PASSWORD_ALGORITHM_UNSET" "password_algorithms_value (credentials ?m1) = []"
    using assms by (simp_all add: fresh_def)
  from reads_append [OF reads_nonce_attr [OF assms(1-4)] reads_algorithms [OF this(1) assms(2) this(2) assms(4) this(3,4) False]]
  show ?thesis using False by (simp add: attrs_nonce_def Let_def)
qed

lemma attrs_realm_alt:
  "attrs_realm junk msg = (if sends_nonce msg
     then (if realm (credentials msg) \<noteq> [] then [(STUN_ATTR_REALM, realm (credentials msg))] else []) @ attrs_nonce junk msg
     else [])"
  by (simp add: attrs_realm_def sends_nonce_def is_request_def)

lemma reads_realm_group:
  assumes "fresh m" "credentials_ok (credentials msg)" "msg_class m = msg_class msg"
    "realm (credentials m) = []" "nonce (credentials m) = []"
    "password_algorithm (credentials m) = STUN_PASSWORD_ALGORITHM_UNSET" "password_algorithms_value (credentials m) = []"
  shows "reads (attrs_realm junk msg) (m, 0)
    (m\<lparr>credentials := (credentials m)\<lparr>realm := if sends_nonce msg then realm (credentials msg) else [],
       nonce := if sends_nonce msg then nonce (credentials msg) else [],
       password_algorithms_value := if sends_algorithms msg then generate_password_algorithms_attr else [],
       password_algorithm := if sends_algorithms msg \<and> is_request msg then password_algorithm (credentials msg)
         else STUN_PASSWORD_ALGORITHM_UNSET\<rparr>\<rparr>, nonce_bits msg)"
proof (cases "sends_nonce msg")
  case False
  have "m\<lparr>credentials := (credentials m)\<lparr>realm := [], nonce := [], password_algorithms_value := [],
      password_algorithm := STUN_PASSWORD_ALGORITHM_UNSET\<rparr>\<rparr> = m"
    using assms(4-7) by (cases m; cases "credentials m") simp
  with False show ?thesis
    by (simp add: attrs_realm_alt sends_algorithms_def nonce_bits_def reads_Nil)
next
  case True
  let ?m1 = "m\<lparr>credentials := (credentials m)\<lparr>realm := realm (credentials msg)\<rparr>\<rparr>"
  have "fresh ?m1" "msg_class ?m1 = msg_class msg" "nonce (credentials ?m1) = []"
    "password_algorithm (credentials ?m1) = STUN_PASSWORD_ALGORITHM_UNSET" "password_algorithms_value (credentials ?m1) = []"
    using assms by (simp_all add: fresh_def)
  from reads_append [OF reads_realm_attr [OF assms(1,2,4)] reads_nonce_group [OF this(1) assms(2) this(2) True this(3-5)]]
  show ?thesis using True by (simp add: attrs_realm_alt)
qed

subsection \<open>The round trip\<close>

text \<open>A message that the writer can express: its class is one of the four, the method has no class bits
  and leaves the top two bits of the type zero, the error code is below 800, addresses are those of
  datagram sockets, and EVEN-PORT is not asked for (see \<open>even_port_not_sent\<close>).\<close>

definition message_ok :: "stun_message \<Rightarrow> bool" where
  "message_ok msg \<longleftrightarrow>
     msg_class msg \<in> {STUN_CLASS_REQUEST, STUN_CLASS_INDICATION, STUN_CLASS_RESP_SUCCESS, STUN_CLASS_RESP_ERROR}
     \<and> msg_method msg AND STUN_CLASS_MASK = 0 \<and> msg_method msg AND 0xC000 = 0
     \<and> length (transaction_id msg) = 12 \<and> error_code msg < 800
     \<and> (mapped msg = zero_record \<or> plain_record (mapped msg))
     \<and> (relayed msg = zero_record \<or> plain_record (relayed msg))
     \<and> list_all plain_record (peers msg) \<and> length (peers msg) \<le> STUN_MAX_PEER_ADDRESSES
     \<and> \<not> even_port msg \<and> credentials_ok (credentials msg)"

text \<open>What arrives: the fields that are sent, and the credentials as far as the class of message carries them.\<close>

definition received_credentials :: "stun_message \<Rightarrow> stun_credentials" where
  "received_credentials msg =
     (let c = credentials msg in
      \<lparr>username = if is_request msg \<and> \<not> enable_userhash c then username c else [],
       realm = if sends_nonce msg then realm c else [],
       nonce = if sends_nonce msg then nonce c else [],
       userhash = if is_request msg \<and> enable_userhash c then userhash c else replicate 32 0,
       enable_userhash = is_request msg \<and> enable_userhash c
         \<or> nonce_bits msg AND STUN_SECURITY_USERNAME_ANONYMITY_BIT \<noteq> 0,
       password_algorithm = if STUN_IS_RESPONSE (msg_class msg) then STUN_PASSWORD_ALGORITHM_UNSET
         else if sends_algorithms msg then password_algorithm c else STUN_PASSWORD_ALGORITHM_MD5,
       password_algorithms_value = if sends_algorithms msg then generate_password_algorithms_attr else []\<rparr>)"

definition received :: "stun_message \<Rightarrow> bytes option \<Rightarrow> stun_message" where
  "received msg password =
     zero_message\<lparr>msg_class := msg_class msg, msg_method := msg_method msg, transaction_id := transaction_id msg,
       error_code := error_code msg, mapped := mapped msg, priority := priority msg,
       use_candidate := use_candidate msg, ice_controlling := ice_controlling msg,
       ice_controlled := ice_controlled msg, channel_number := channel_number msg, lifetime := lifetime msg,
       lifetime_set := (lifetime_set msg \<or> lifetime msg \<noteq> 0), peers := peers msg, relayed := relayed msg,
       msg_data := msg_data msg, requested_transport := requested_transport msg,
       dont_fragment := dont_fragment msg, reservation_token := reservation_token msg,
       credentials := received_credentials msg,
       has_integrity := (msg_class msg \<noteq> STUN_CLASS_INDICATION \<and> password \<noteq> None), has_fingerprint := True\<rparr>"

lemma reads_ice:
  assumes "fresh m" "priority m = 0" "\<not> use_candidate m" "ice_controlling m = 0" "ice_controlled m = 0"
  shows "reads (attrs_ice msg) (m, s) (m\<lparr>priority := priority msg, use_candidate := use_candidate msg,
    ice_controlling := ice_controlling msg, ice_controlled := ice_controlled msg\<rparr>, s)"
proof -
  let ?m1 = "m\<lparr>priority := priority msg\<rparr>"
  let ?m2 = "?m1\<lparr>use_candidate := use_candidate msg\<rparr>"
  let ?m3 = "?m2\<lparr>ice_controlling := ice_controlling msg\<rparr>"
  have f: "fresh ?m1" "fresh ?m2" "fresh ?m3" using assms(1) by (simp_all add: fresh_def)
  from reads_append [OF reads_priority [OF assms(1,2)] reads_append [OF reads_use_candidate [OF f(1)]
      reads_append [OF reads_ice_controlling [OF f(2)] reads_ice_controlled [OF f(3)]]]] assms(3-5)
  show ?thesis by (simp add: attrs_ice_def)
qed

lemma reads_channel_lifetime:
  assumes "fresh m" "channel_number m = 0" "lifetime m = 0" "\<not> lifetime_set m"
  shows "reads (attrs_channel_lifetime msg) (m, s) (m\<lparr>channel_number := channel_number msg, lifetime := lifetime msg,
    lifetime_set := (lifetime_set msg \<or> lifetime msg \<noteq> 0)\<rparr>, s)"
  unfolding attrs_channel_lifetime_def
  using reads_append [OF reads_channel [of m "channel_number msg" s]
      reads_lifetime [of "m\<lparr>channel_number := channel_number msg\<rparr>" "lifetime_set msg" "lifetime msg" s]] assms
  by (simp add: fresh_def)

lemma reads_turn:
  assumes "fresh m" "msg_data m = None" "\<not> requested_transport m" "\<not> dont_fragment m" "reservation_token m = 0"
    "case msg_data msg of None \<Rightarrow> True | Some x \<Rightarrow> length x < 65536" "\<not> even_port msg"
  shows "reads (attrs_turn msg) (m, s) (m\<lparr>msg_data := msg_data msg, requested_transport := requested_transport msg,
    dont_fragment := dont_fragment msg, reservation_token := reservation_token msg\<rparr>, s)"
proof -
  let ?m1 = "m\<lparr>msg_data := msg_data msg\<rparr>"
  let ?m2 = "?m1\<lparr>requested_transport := requested_transport msg\<rparr>"
  let ?m3 = "?m2\<lparr>dont_fragment := dont_fragment msg\<rparr>"
  have f: "fresh ?m1" "fresh ?m2" "fresh ?m3" using assms(1) by (simp_all add: fresh_def)
  from reads_append [OF reads_data [OF assms(1,2,6)] reads_append [OF reads_requested_transport [OF f(1)]
      reads_append [OF reads_dont_fragment [OF f(2)] reads_reservation_token [OF f(3)]]]] assms(3-5,7)
  show ?thesis by (simp add: attrs_turn_def)
qed

text \<open>The checks after the loop.\<close>

lemma checks_error_unchanged:
  assumes "msg_class m = msg_class msg" "error_code m = error_code msg"
    "password_algorithms_value (credentials m) = (if sends_algorithms msg then generate_password_algorithms_attr else [])"
  shows "check_error_response (nonce_bits msg) m = m"
proof -
  have "STUN_CLASS_RESP_ERROR \<noteq> STUN_CLASS_REQUEST" by (simp add: stun_consts)
  then show ?thesis using assms generated_algorithms(3) nonce_bits_empty [of msg]
    by (auto simp: check_error_response_def sends_algorithms_def sends_nonce_def is_request_def split: if_splits)
qed

lemma checks_request:
  assumes "msg_class m = msg_class msg"
    "password_algorithms_value (credentials m) = (if sends_algorithms msg then generate_password_algorithms_attr else [])"
    "password_algorithm (credentials m) = (if sends_algorithms msg \<and> is_request msg
       then password_algorithm (credentials msg) else STUN_PASSWORD_ALGORITHM_UNSET)"
    "credentials_ok (credentials msg)"
    "msg_class msg \<in> {STUN_CLASS_REQUEST, STUN_CLASS_INDICATION, STUN_CLASS_RESP_SUCCESS, STUN_CLASS_RESP_ERROR}"
  shows "check_request_algorithms m = m\<lparr>credentials := (credentials m)\<lparr>password_algorithm :=
    if STUN_IS_RESPONSE (msg_class msg) then STUN_PASSWORD_ALGORITHM_UNSET
    else if sends_algorithms msg then password_algorithm (credentials msg) else STUN_PASSWORD_ALGORITHM_MD5\<rparr>\<rparr>"
proof -
  have same: "m\<lparr>credentials := (credentials m)\<lparr>password_algorithm := password_algorithm (credentials m)\<rparr>\<rparr> = m" by simp
  show ?thesis
  proof (cases "STUN_IS_RESPONSE (msg_class msg)")
    case True
    then have "\<not> is_request msg" by (auto simp: is_request_def request_class)
    then show ?thesis using True assms(1,3) same by (simp add: check_request_algorithms_def Let_def)
  next
    case False
    have "sends_algorithms msg \<Longrightarrow> is_request msg"
      using False by (auto simp: sends_algorithms_def sends_nonce_def request_class)
    moreover have "sends_algorithms msg \<Longrightarrow> is_request msg \<Longrightarrow>
        password_algorithm (credentials msg) \<noteq> STUN_PASSWORD_ALGORITHM_UNSET"
      by (auto simp: sends_algorithms_def)
    ultimately show ?thesis
      using False assms(1-3) same generated_algorithms(3)
      by (cases "sends_algorithms msg") (auto simp: check_request_algorithms_def Let_def)
  qed
qed

lemma reads_body:
  assumes ok: "message_ok msg" and data: "case msg_data msg of None \<Rightarrow> True | Some x \<Rightarrow> length x < 65536"
    and m0: "m0 = zero_message\<lparr>msg_class := msg_class msg, msg_method := msg_method msg, transaction_id := transaction_id msg\<rparr>"
  shows "\<exists>m. reads (body_attrs junk msg) (m0, 0) (m, nonce_bits msg) \<and> fresh m
    \<and> check_anonymity (nonce_bits msg) (check_request_algorithms (check_error_response (nonce_bits msg) m))
      = (received msg None)\<lparr>has_integrity := False, has_fingerprint := False\<rparr>
    \<and> msg_class m = msg_class msg"
proof -
  define m1 where "m1 = m0\<lparr>error_code := error_code msg\<rparr>"
  define m2 where "m2 = m1\<lparr>mapped := mapped msg\<rparr>"
  define m3 where "m3 = m2\<lparr>priority := priority msg, use_candidate := use_candidate msg,
    ice_controlling := ice_controlling msg, ice_controlled := ice_controlled msg\<rparr>"
  define m4 where "m4 = m3\<lparr>channel_number := channel_number msg, lifetime := lifetime msg,
    lifetime_set := (lifetime_set msg \<or> lifetime msg \<noteq> 0)\<rparr>"
  define m5 where "m5 = m4\<lparr>peers := peers msg\<rparr>"
  define m6 where "m6 = m5\<lparr>relayed := relayed msg\<rparr>"
  define m7 where "m7 = m6\<lparr>msg_data := msg_data msg, requested_transport := requested_transport msg,
    dont_fragment := dont_fragment msg, reservation_token := reservation_token msg\<rparr>"
  define m8 where "m8 = m7\<lparr>credentials := (credentials m7)\<lparr>
      username := if is_request msg \<and> \<not> enable_userhash (credentials msg) then username (credentials msg) else [],
      userhash := if is_request msg \<and> enable_userhash (credentials msg) then userhash (credentials msg) else replicate 32 0,
      enable_userhash := is_request msg \<and> enable_userhash (credentials msg)\<rparr>\<rparr>"
  define m9 where "m9 = m8\<lparr>credentials := (credentials m8)\<lparr>realm := if sends_nonce msg then realm (credentials msg) else [],
       nonce := if sends_nonce msg then nonce (credentials msg) else [],
       password_algorithms_value := if sends_algorithms msg then generate_password_algorithms_attr else [],
       password_algorithm := if sends_algorithms msg \<and> is_request msg then password_algorithm (credentials msg)
         else STUN_PASSWORD_ALGORITHM_UNSET\<rparr>\<rparr>"
  note ms = m1_def m2_def m3_def m4_def m5_def m6_def m7_def m8_def m9_def m0 zero_message_def zero_credentials_def fresh_def
  note okd = ok [unfolded message_ok_def]
  have tid: "transaction_id m1 = transaction_id msg" "transaction_id m4 = transaction_id msg"
    "transaction_id m5 = transaction_id msg" "length (transaction_id msg) = 12"
    using okd by (simp_all add: ms)
  have r1: "reads (attrs_error_code msg) (m0, 0) (m1, 0)"
    unfolding m1_def using okd by (intro reads_error_code) (simp_all add: ms)
  have r2: "reads (attrs_address STUN_ATTR_XOR_MAPPED_ADDRESS (transaction_id m1) (mapped msg)) (m1, 0) (m2, 0)"
    unfolding m2_def using okd by (intro reads_mapped) (simp_all add: ms)
  have r3: "reads (attrs_ice msg) (m2, 0) (m3, 0)"
    unfolding m3_def by (intro reads_ice) (simp_all add: ms)
  have r4: "reads (attrs_channel_lifetime msg) (m3, 0) (m4, 0)"
    unfolding m4_def by (intro reads_channel_lifetime) (simp_all add: ms)
  have "m5 = m4\<lparr>peers := peers m4 @ peers msg\<rparr>" by (simp add: ms)
  then have r5: "reads (attrs_peers msg) (m4, 0) (m5, 0)"
    using reads_peers [of m4 "peers msg" 0] okd tid by (simp add: attrs_peers_def stun_sizes) (simp add: ms)
  have r6: "reads (attrs_address STUN_ATTR_XOR_RELAYED_ADDRESS (transaction_id m5) (relayed msg)) (m5, 0) (m6, 0)"
    unfolding m6_def using okd by (intro reads_relayed) (simp_all add: ms)
  have r7: "reads (attrs_turn msg) (m6, 0) (m7, 0)"
    unfolding m7_def using okd data by (intro reads_turn) (simp_all add: ms)
  have rs: "reads attrs_software (m7, 0) (m7, 0)" by (intro reads_software) (simp add: ms)
  have r8: "reads (attrs_user msg) (m7, 0) (m8, 0)"
    unfolding m8_def using okd by (intro reads_user) (simp_all add: ms)
  have r9: "reads (attrs_realm junk msg) (m8, 0) (m9, nonce_bits msg)"
    unfolding m9_def using okd by (intro reads_realm_group) (simp_all add: ms stun_consts)
  have "reads (body_attrs junk msg) (m0, 0) (m9, nonce_bits msg)"
    unfolding body_attrs_def
    using reads_append [OF r1 reads_append [OF r2 reads_append [OF r3 reads_append [OF r4 reads_append [OF r5
      reads_append [OF r6 reads_append [OF r7 reads_append [OF rs reads_append [OF r8 r9]]]]]]]]] tid by simp
  moreover have "fresh m9" "msg_class m9 = msg_class msg" by (simp_all add: ms)
  moreover have "check_anonymity (nonce_bits msg) (check_request_algorithms (check_error_response (nonce_bits msg) m9))
      = (received msg None)\<lparr>has_integrity := False, has_fingerprint := False\<rparr>"
  proof -
    have fs: "msg_class m9 = msg_class msg" "error_code m9 = error_code msg"
      "password_algorithms_value (credentials m9) = (if sends_algorithms msg then generate_password_algorithms_attr else [])"
      "password_algorithm (credentials m9) = (if sends_algorithms msg \<and> is_request msg
         then password_algorithm (credentials msg) else STUN_PASSWORD_ALGORITHM_UNSET)"
      by (simp_all add: ms)
    have okc: "credentials_ok (credentials msg)" using okd by blast
    have cls: "msg_class msg \<in> {STUN_CLASS_REQUEST, STUN_CLASS_INDICATION, STUN_CLASS_RESP_SUCCESS, STUN_CLASS_RESP_ERROR}"
      using okd by blast
    show ?thesis
      unfolding checks_error_unchanged [OF fs(1-3)] checks_request [OF fs(1,3,4) okc cls]
      by (simp add: check_anonymity_def received_def received_credentials_def Let_def) (simp add: ms)
  qed
  ultimately show ?thesis by blast
qed

lemma reads_macs:
  assumes "fresh m"
  shows "reads (mac_attrs msg password b) (m, s)
    (m\<lparr>has_integrity := (msg_class msg \<noteq> STUN_CLASS_INDICATION \<and> password \<noteq> None)\<rparr>, s)"
proof (cases "msg_class msg \<noteq> STUN_CLASS_INDICATION \<and> password \<noteq> None")
  case True
  have mi: "reads ((STUN_ATTR_MESSAGE_INTEGRITY, hmac_sha1 x k) # as) (m, s) z"
    if "reads as (m\<lparr>has_integrity := True\<rparr>, s) z" for x k as z
    using assms that by (intro reads_Cons) (auto simp: fresh_def not_fingerprint switch_cases keep_bits_def
        read_integrity_def stun_sizes integrity_type_def)
  have m2: "reads [(STUN_ATTR_MESSAGE_INTEGRITY_SHA256, hmac_sha256 x k)] (m\<lparr>has_integrity := True\<rparr>, s) (m\<lparr>has_integrity := True\<rparr>, s)" for x k
    using assms by (intro reads_Cons) (auto simp: fresh_def not_fingerprint switch_cases keep_bits_def
        read_integrity_def stun_sizes integrity_type_def intro: reads_Nil)
  show ?thesis using True mi m2 reads_Nil by (simp add: mac_attrs_def Let_def)
next
  case False
  then have "m\<lparr>has_integrity := False\<rparr> = m" using assms by (cases m) (simp add: fresh_def)
  then show ?thesis using False by (auto simp: mac_attrs_def intro: reads_Nil)
qed

lemma value_within: "(t, v) \<in> set as \<Longrightarrow> length v \<le> length (encs as)"
proof (induction as)
  case (Cons a as)
  then show ?case using align32_props(1) [of "length v"] by (auto simp: length_enc)
qed simp

lemma data_within:
  "case msg_data msg of None \<Rightarrow> True | Some x \<Rightarrow> length x \<le> length (signed_body junk msg password)"
proof (cases "msg_data msg")
  case (Some x)
  then have "(STUN_ATTR_DATA, x) \<in> set (body_attrs junk msg)" by (simp add: body_attrs_def attrs_turn_def)
  from value_within [OF this] show ?thesis using Some by (simp add: signed_body_def Let_def)
qed simp

lemma checks_commute:
  "check_anonymity sb (check_request_algorithms (check_error_response sb (m\<lparr>has_integrity := i, has_fingerprint := f\<rparr>)))
   = (check_anonymity sb (check_request_algorithms (check_error_response sb m)))\<lparr>has_integrity := i, has_fingerprint := f\<rparr>"
proof -
  let ?u = "\<lambda>m. m\<lparr>has_integrity := i, has_fingerprint := f\<rparr>"
  have "check_error_response sb (?u m) = ?u (check_error_response sb m)" for m by (auto simp: check_error_response_def)
  moreover have "check_request_algorithms (?u m) = ?u (check_request_algorithms m)" for m
    unfolding check_request_algorithms_def Let_def by simp
  moreover have "check_anonymity sb (?u m) = ?u (check_anonymity sb m)" for m by (simp add: check_anonymity_def)
  ultimately show ?thesis by simp
qed

lemma message_type:
  assumes "message_ok msg"
  shows "(msg_class msg OR msg_method msg) AND STUN_CLASS_MASK = msg_class msg"
    "(msg_class msg OR msg_method msg) AND NOT STUN_CLASS_MASK = msg_method msg"
    "(msg_class msg OR msg_method msg) AND 0xC000 = 0"
proof -
  have c: "msg_class msg AND STUN_CLASS_MASK = msg_class msg" "msg_class msg AND 0xC000 = 0"
    using assms by (auto simp: message_ok_def stun_consts STUN_CLASS_MASK_def)
  have m: "msg_method msg AND STUN_CLASS_MASK = 0" "msg_method msg AND 0xC000 = 0"
    using assms by (simp_all add: message_ok_def)
  have nc: "msg_class msg AND NOT STUN_CLASS_MASK = 0"
    using c(1) by (metis and.assoc bit.conj_cancel_right bit.conj_zero_right)
  have "msg_method msg = (msg_method msg AND STUN_CLASS_MASK) OR (msg_method msg AND NOT STUN_CLASS_MASK)"
    by (simp add: bit.conj_disj_distrib [symmetric])
  then have nm: "msg_method msg AND NOT STUN_CLASS_MASK = msg_method msg" using m(1) by simp
  show "(msg_class msg OR msg_method msg) AND STUN_CLASS_MASK = msg_class msg"
    "(msg_class msg OR msg_method msg) AND NOT STUN_CLASS_MASK = msg_method msg"
    "(msg_class msg OR msg_method msg) AND 0xC000 = 0"
    using c m nc nm by (simp_all only: bit.conj_disj_distrib2 or.right_neutral or.left_neutral)
qed

lemma fingerprint_reads:
  assumes tid: "length (transaction_id msg) = 12" and len: "length b + 8 < 65536" and fp: "\<not> has_fingerprint m"
  defines "w \<equiv> hdr msg (length b + 8) @ b @ enc (fingerprint_attr msg b)"
  shows "stun_read_loop w (28 + length b) (20 + length b) m s = Some (Some (m\<lparr>has_fingerprint := True\<rparr>, s))"
proof -
  have h: "length (hdr msg k) = 20" for k using tid by (rule length_hdr)
  have l8: "length (enc (fingerprint_attr msg b)) = 8" by (simp add: length_enc fingerprint_attr_def align32_id)
  define v where "v = snd (fingerprint_attr msg b)"
  have fa: "fingerprint_attr msg b = (STUN_ATTR_FINGERPRINT, v)" and lv: "length v = 4"
    by (simp_all add: fingerprint_attr_def v_def)
  obtain r where r: "stun_update_header_length w (of_nat (length b + 8)) = Some r"
    by (simp add: stun_update_header_length_def w_def h)
  have "unat (of_nat (length b + 8) :: u64) = length b + 8"
    using len by (simp only: unat_of_nat) (simp add: take_bit_nat_eq_self)
  with update_hdr [of msg "length b + 8" "b @ enc (fingerprint_attr msg b)" "of_nat (length b + 8)" r] r tid
  have "snd r = w" by (simp add: w_def)
  moreover have "take (20 + length b) w = hdr msg (length b + 8) @ b" by (simp add: w_def h)
  ultimately have "read_fingerprint w (20 + length b) v m = Some (Some (m\<lparr>has_fingerprint := True\<rparr>))"
  proof -
    assume *: "snd r = w" "take (20 + length b) w = hdr msg (length b + 8) @ b"
    have tl: "of_nat (20 + length b - STUN_HEADER_SIZE + STUN_ATTR_SIZE + 4) = (of_nat (length b + 8) :: u64)"
      by (simp add: stun_sizes)
    from * lv show ?thesis unfolding read_fingerprint_def Let_def tl r
      by (cases r) (simp add: v_def fingerprint_attr_def)
  qed
  then have "stun_read_attr w (20 + length b) 8 m s = Some (Some (8, m\<lparr>has_fingerprint := True\<rparr>, s))"
    using read_attr_enc [of m v STUN_ATTR_FINGERPRINT 8 "hdr msg (length b + 8) @ b" "[]" s] fp lv l8
    by (simp add: w_def fa h switch_cases keep_bits_def integrity_type_def)
  then show ?thesis
    by (subst stun_read_loop.simps) (simp, subst stun_read_loop.simps, simp)
qed

lemma stun_read_wire:
  assumes ok: "message_ok msg" and len: "length (wire junk msg password) < 65536 + 20"
  shows "stun_read (wire junk msg password) = Some (Some (length (wire junk msg password), received msg password))"
proof -
  define b where "b = signed_body junk msg password"
  define m0 where "m0 = zero_message\<lparr>msg_class := msg_class msg, msg_method := msg_method msg, transaction_id := transaction_id msg\<rparr>"
  define hi where "hi = (msg_class msg \<noteq> STUN_CLASS_INDICATION \<and> password \<noteq> None)"
  have tid: "length (transaction_id msg) = 12" using ok by (simp add: message_ok_def)
  have h: "length (hdr msg k) = 20" for k using tid by (rule length_hdr)
  have w: "wire junk msg password = hdr msg (length b + 8) @ b @ enc (fingerprint_attr msg b)"
    by (simp add: wire_def b_def Let_def)
  have l8: "length (enc (fingerprint_attr msg b)) = 8" by (simp add: length_enc fingerprint_attr_def align32_id)
  have lw: "length (wire junk msg password) = 28 + length b" by (simp add: w h l8)
  have lb: "length b + 8 < 65536" using len lw by simp
  obtain m where m: "reads (body_attrs junk msg) (m0, 0) (m, nonce_bits msg)" "fresh m"
    "check_anonymity (nonce_bits msg) (check_request_algorithms (check_error_response (nonce_bits msg) m))
      = (received msg None)\<lparr>has_integrity := False, has_fingerprint := False\<rparr>"
    using reads_body [OF ok _ m0_def, of junk] data_within [where msg = msg and junk = junk and password = password] lb
    by (fastforce simp: b_def split: option.splits)
  have "reads (body_attrs junk msg @ mac_attrs msg password (encs (body_attrs junk msg))) (m0, 0)
      (m\<lparr>has_integrity := hi\<rparr>, nonce_bits msg)"
    unfolding hi_def by (rule reads_append [OF m(1) reads_macs [OF m(2)]])
  from reads_loop [OF this, of "hdr msg (length b + 8)" "28 + length b" "enc (fingerprint_attr msg b)"]
  have "stun_read_loop (wire junk msg password) (28 + length b) 20 m0 0
      = stun_read_loop (wire junk msg password) (28 + length b) (20 + length b) (m\<lparr>has_integrity := hi\<rparr>) (nonce_bits msg)"
    by (simp add: w h b_def signed_body_def Let_def)
  also have "\<dots> = Some (Some (m\<lparr>has_integrity := hi, has_fingerprint := True\<rparr>, nonce_bits msg))"
    using fingerprint_reads [OF tid lb, of "m\<lparr>has_integrity := hi\<rparr>"] m(2) by (simp add: w fresh_def)
  finally have loop: "stun_read_loop (wire junk msg password) (28 + length b) 20 m0 0
      = Some (Some (m\<lparr>has_integrity := hi, has_fingerprint := True\<rparr>, nonce_bits msg))" .
  have ldw: "ld16 (wire junk msg password) 2 = Some (of_nat (length b + 8))"
    "ld16 (wire junk msg password) 0 = Some (msg_class msg OR msg_method msg)"
    "ld (wire junk msg password) 8 12 = Some (transaction_id msg)"
    using tid by (simp_all add: w hdr_def ld16_def ld_def)
  have rh: "read_header (msg_class msg OR msg_method msg) (transaction_id msg) = m0"
    by (simp add: read_header_def m0_def message_type [OF ok])
  have "(received msg None)\<lparr>has_integrity := hi, has_fingerprint := True\<rparr> = received msg password"
    by (simp add: received_def hi_def)
  then show ?thesis using loop ldw rh lw unat_length16 [OF lb] checks_commute [where sb = "nonce_bits msg" and m = m and i = hi and f = True] m(3)
    by (simp add: stun_read_def stun_sizes Let_def)
qed

lemma wire_datagram:
  assumes ok: "message_ok msg" and len: "length (wire junk msg password) < 65536 + 20"
  shows "is_stun_datagram (wire junk msg password) = Some True"
proof -
  define b where "b = signed_body junk msg password"
  define w where "w = wire junk msg password"
  have tid: "length (transaction_id msg) = 12" using ok by (simp add: message_ok_def)
  have h: "length (hdr msg k) = 20" for k using tid by (rule length_hdr)
  have w: "w = hdr msg (length b + 8) @ b @ enc (fingerprint_attr msg b)"
    by (simp add: wire_def b_def Let_def w_def)
  have lw: "length w = 28 + length b" by (simp add: w h length_enc fingerprint_attr_def align32_id)
  have lb: "length b + 8 < 65536" using len lw by (simp add: w_def)
  let ?t = "msg_class msg OR msg_method msg"
  have ne: "w \<noteq> []" using lw by auto
  have "w ! 0 = ucast (drop_bit 8 ?t)" by (simp add: w hdr_def net16_def)
  moreover have "ucast (drop_bit 8 ?t) AND (0xC0 :: byte) = ucast (drop_bit 8 (?t AND 0xC000))"
  proof -
    have "(0xC0 :: byte) = ucast (drop_bit 8 (0xC000 :: u16))" by simp
    then show ?thesis by (simp only: drop_bit_and) (simp only: unsigned_and_eq)
  qed
  ultimately have top: "ld8 w 0 = Some (ucast (drop_bit 8 ?t))" "(ucast (drop_bit 8 ?t) :: byte) AND 0xC0 = 0"
    using ne message_type(3) [OF ok] by (simp_all add: ld8_def)
  have "unat (of_nat (length b + 8) AND 3 :: u16) = (length b + 8) mod 4"
    unfolding and_low_bits(2) unsigned_take_bit_eq unat_length16 [OF lb] by (simp add: take_bit_eq_mod)
  also have "\<dots> = 0" using length_signed_body_mod4 [of junk msg password] unfolding b_def by presburger
  finally have l4: "of_nat (length b + 8) AND 3 = (0 :: u16)" by (simp only: unat_eq_0)
  have ldw: "ld32 w 4 = Some STUN_MAGIC" "ld16 w 2 = Some (of_nat (length b + 8))"
    using tid by (simp_all add: w hdr_def ld16_def ld32_def ld_def)
  show ?thesis
    unfolding w_def [symmetric] is_stun_datagram_def ldw top(1) bind.bind_lunit l4 unat_length16 [OF lb] top(2) lw
    using ne by (simp add: stun_sizes)
qed

text \<open>(C9) Round trip: a message that is written into a large enough buffer is recognised as a STUN datagram and
  read back as itself: class, method, transaction id, error code, addresses, ICE and TURN attributes
  with the values they had, the credentials as far as the class carries them, and the integrity and
  fingerprint flags.  A field that the reader fills and the writer does not send is zero.\<close>

theorem stun_roundtrip:
  assumes ok: "message_ok msg"
    and fit: "length (wire junk msg password) \<le> length buf" and cap: "length buf < 65536"
  shows "\<exists>n buf'. stun_write junk buf msg password = Some (int n, buf')
    \<and> is_stun_datagram (take n buf') = Some True
    \<and> stun_read (take n buf') = Some (Some (n, received msg password))"
proof -
  have "length (transaction_id msg) = 12" using ok by (simp add: message_ok_def)
  then obtain buf' where w: "stun_write junk buf msg password = Some (int (length (wire junk msg password)), buf')"
    "take (length (wire junk msg password)) buf' = wire junk msg password"
    using stun_write_wire' [of msg junk password buf] fit cap by auto
  moreover have "length (wire junk msg password) < 65536 + 20" using fit cap by simp
  ultimately show ?thesis using wire_datagram [OF ok] stun_read_wire [OF ok] by metis
qed

definition binding_indication :: stun_message where
  "binding_indication = zero_message\<lparr>msg_class := STUN_CLASS_INDICATION, msg_method := STUN_METHOD_BINDING,
     priority := 7, mapped := \<lparr>ar_addr = Sin 80 [127, 0, 0, 1], ar_len = 16, ar_socktype = SOCK_DGRAM\<rparr>\<rparr>"

lemma binding_indication_ok: "message_ok binding_indication"
  by (simp add: message_ok_def binding_indication_def zero_message_def stun_consts STUN_CLASS_MASK_def
      plain_record_def addr_wf_def sizeof_sockaddr_in_def zero_credentials_def credentials_ok_def stun_sizes)

lemma binding_indication_body: "length (encs (body_attrs 0 binding_indication)) = 32"
  by (simp add: binding_indication_def body_attrs_def attrs_error_code_def attrs_address_def attrs_ice_def
      attrs_channel_lifetime_def attrs_peers_def attrs_turn_def attrs_software_def attrs_user_def attrs_realm_def
      zero_message_def zero_credentials_def zero_record_def stun_write_value_mapped_address_def sizeof_sockaddr_in_def
      generate_mask_def stun_consts length_enc align32_id str_bytes_def xor_bytes_def)

lemma binding_indication_wire: "length (wire 0 binding_indication None) = 60"
proof -
  have "signed_body 0 binding_indication None = encs (body_attrs 0 binding_indication)"
    by (simp add: signed_body_def Let_def mac_attrs_def)
  moreover have "length (transaction_id binding_indication) = 12"
    by (simp add: binding_indication_def zero_message_def)
  ultimately show ?thesis
    by (simp add: wire_def Let_def length_hdr binding_indication_body length_enc fingerprint_attr_def align32_id)
qed

theorem stun_roundtrip_witness:
  "\<exists>n buf'. stun_write 0 (replicate 100 0) binding_indication None = Some (int n, buf')
    \<and> is_stun_datagram (take n buf') = Some True
    \<and> stun_read (take n buf') = Some (Some (n, received binding_indication None))"
  by (rule stun_roundtrip [OF binding_indication_ok]) (simp_all add: binding_indication_wire)

end
