(* ===== verification/Stun_Security.thy ===== *)
theory Stun_Security
  imports Stun_Roundtrip
begin

text \<open>
  Integrity of STUN messages: what a successful \<open>stun_check_integrity\<close> means, that it accepts what
  \<open>stun_write\<close> signed and that it stays inside the datagrams \<open>stun_read\<close> accepted; the nonce cookie; and
  the cases in which the writer goes wrong.
\<close>

subsection \<open>What a successful check means\<close>

text \<open>The message before offset \<open>p\<close> with its header length set to end after an attribute of \<open>sz\<close> bytes there.\<close>

definition mac_input :: "bytes \<Rightarrow> nat \<Rightarrow> nat \<Rightarrow> bytes" where
  "mac_input buf p sz = take p (buf_write buf 2 (net16 (of_nat (p - 20 + 4 + sz))))"

definition authentic_at :: "bytes \<Rightarrow> bytes \<Rightarrow> nat \<Rightarrow> bool" where
  "authentic_at key buf p \<longleftrightarrow>
     ld16 buf p = Some STUN_ATTR_MESSAGE_INTEGRITY \<and> ld buf (p + 4) 20 = Some (hmac_sha1 (mac_input buf p 20) key)
   \<or> ld16 buf p = Some STUN_ATTR_MESSAGE_INTEGRITY_SHA256 \<and> ld buf (p + 4) 32 = Some (hmac_sha256 (mac_input buf p 32) key)"

lemma memcmp_SomeD: "memcmp_acc x a b n = Some r \<Longrightarrow> n \<le> length a \<and> n \<le> length b"
  by (induction x a b n rule: memcmp_acc.induct) auto

lemma update_header_mac_input:
  "stun_update_header_length buf (of_nat k) = (if length buf < 4 then None
     else Some (ucast (rd16 (drop 2 buf)), buf_write buf 2 (net16 (of_nat k))))"
proof -
  have "(ucast (of_nat k :: u64) :: u16) = of_nat k"
    unfolding word_unat_eq_iff by (simp add: unat_of_nat unsigned_ucast_eq take_bit_eq_mod mod_mod_cancel)
  then show ?thesis by (simp add: stun_update_header_length_def mem16_htons)
qed

lemma check_mac_eq:
  assumes "length (mac (mac_input buf p sz)) = sz" "20 \<le> length buf" "0 < sz"
  shows "check_mac mac sz buf p =
    (case ld buf (p + 4) sz of None \<Rightarrow> None | Some v \<Rightarrow> Some (v = mac (mac_input buf p sz)))"
proof -
  let ?m = "mac (mac_input buf p sz)"
  have c: "check_mac mac sz buf p =
      do { x \<leftarrow> const_time_memcmp ?m (drop (p + 4) buf) sz; Some (x = 0) }"
    using assms(2) unfolding check_mac_def Let_def stun_sizes update_header_mac_input mac_input_def by simp
  show ?thesis
  proof (cases "sz \<le> length (drop (p + 4) buf)")
    case True
    then obtain r where r: "const_time_memcmp ?m (drop (p + 4) buf) sz = Some r"
      "r = 0 \<longleftrightarrow> take sz ?m = take sz (drop (p + 4) buf)"
      using memcmp_acc_eq [of sz ?m "drop (p + 4) buf" 0] assms(1) by (auto simp: const_time_memcmp_def)
    have "p + 4 + sz \<le> length buf" using True assms(3) by auto
    then show ?thesis using r c assms(1) by (auto simp: ld_def)
  next
    case False
    then have "const_time_memcmp ?m (drop (p + 4) buf) sz = None"
      using memcmp_SomeD [of 0 ?m "drop (p + 4) buf" sz] by (cases "memcmp_acc 0 ?m (drop (p + 4) buf) sz")
        (auto simp: const_time_memcmp_def)
    moreover have "ld buf (p + 4) sz = None" using False by (simp add: ld_def)
    ultimately show ?thesis using c by simp
  qed
qed

lemma integrity_loop_sound:
  "integrity_loop key buf fin pos success = Some True \<Longrightarrow> 20 \<le> length buf \<Longrightarrow>
    success \<or> (\<exists>p. pos \<le> p \<and> p < fin \<and> authentic_at key buf p)"
proof (induction key buf fin pos success rule: integrity_loop.induct)
  case (1 key buf fin pos success)
  show ?case
  proof (cases "pos < fin")
    case False
    then show ?thesis using 1(4) by (subst (asm) integrity_loop.simps) simp
  next
    case True
    from 1(4) True obtain len16 type where ld: "ld16 buf (pos + 2) = Some len16" "ld16 buf pos = Some type"
      and len: "\<not> length buf < STUN_ATTR_SIZE + unat len16"
      by (subst (asm) integrity_loop.simps) (auto simp: Let_def bind_eq_Some_conv split: if_splits)
    show ?thesis
    proof (cases "type = STUN_ATTR_MESSAGE_INTEGRITY \<or> type = STUN_ATTR_MESSAGE_INTEGRITY_SHA256")
      case True
      note t = True
      have "authentic_at key buf pos"
      proof (cases "type = STUN_ATTR_MESSAGE_INTEGRITY")
        case True
        then have "check_mac (\<lambda>m. hmac_sha1 m key) 20 buf pos = Some True"
          using 1(4) \<open>pos < fin\<close> ld len
          by (subst (asm) integrity_loop.simps) (auto simp: Let_def bind_eq_Some_conv stun_sizes split: if_splits)
        then show ?thesis using check_mac_eq [of "\<lambda>m. hmac_sha1 m key" buf pos 20] 1(5) True ld
          by (auto simp: authentic_at_def split: option.splits)
      next
        case False
        then have ty: "type = STUN_ATTR_MESSAGE_INTEGRITY_SHA256" using t by simp
        then have "check_mac (\<lambda>m. hmac_sha256 m key) 32 buf pos = Some True"
          using 1(4) \<open>pos < fin\<close> ld len False
          by (subst (asm) integrity_loop.simps) (auto simp: Let_def bind_eq_Some_conv stun_sizes split: if_splits)
        then show ?thesis using check_mac_eq [of "\<lambda>m. hmac_sha256 m key" buf pos 32] 1(5) ty ld
          by (auto simp: authentic_at_def split: option.splits)
      qed
      then show ?thesis using \<open>pos < fin\<close> by auto
    next
      case False
      then have "integrity_loop key buf fin (pos + STUN_ATTR_SIZE + align32 (unat len16)) success = Some True"
        using 1(4) True ld len by (subst (asm) integrity_loop.simps) (simp add: Let_def)
      from 1(3) [OF True ld(1) refl len ld(2) _ _ this 1(5)] False
      show ?thesis by auto
    qed
  qed
qed

text \<open>(C10) Soundness of the integrity check: a datagram is accepted only if it carries a MESSAGE-INTEGRITY or
  MESSAGE-INTEGRITY-SHA256 attribute inside the message whose value is the HMAC, under the key derived
  from the password, of everything before it with the length field adjusted to end there.\<close>

theorem integrity_sound:
  assumes "stun_check_integrity buf msg password = Some True"
  shows "has_integrity msg \<and> (\<exists>p len. ld16 buf 2 = Some len \<and> 20 \<le> p \<and> p < 20 + unat len
    \<and> authentic_at (generate_hmac_key msg password) buf p)"
proof -
  from assms obtain len where len: "has_integrity msg" "ld16 buf 2 = Some len" "20 + unat len \<le> length buf"
    "integrity_loop (generate_hmac_key msg password) buf (20 + unat len) 20 False = Some True"
    by (auto simp: stun_check_integrity_def bind_eq_Some_conv Let_def stun_sizes split: if_splits)
  from integrity_loop_sound [OF len(4)] len(3) have "\<exists>p. 20 \<le> p \<and> p < 20 + unat len
      \<and> authentic_at (generate_hmac_key msg password) buf p" by auto
  with len show ?thesis by blast
qed

subsection \<open>Checking inside accepted datagrams\<close>

lemma read_attr_value_at:
  "stun_read_attr buf pos sz m s = Some (Some (n, m', s')) \<Longrightarrow>
    \<exists>len16 type. ld16 buf (pos + 2) = Some len16 \<and> ld16 buf pos = Some type \<and> 4 + unat len16 \<le> sz
      \<and> n = 4 + align32 (unat len16)"
  by (auto simp: stun_read_attr_def Let_def bind_eq_Some_conv stun_sizes split: if_splits option.splits)

lemma integrity_loop_safe:
  "stun_read_loop buf fin pos m s = Some (Some y) \<Longrightarrow> 20 \<le> length buf \<Longrightarrow> fin \<le> length buf \<Longrightarrow>
    \<exists>b. integrity_loop key buf fin pos success = Some b"
proof (induction buf fin pos m s arbitrary: success rule: stun_read_loop.induct)
  case (1 buf fin pos m s)
  show ?case
  proof (cases "pos < fin")
    case False
    then show ?thesis by (subst integrity_loop.simps) simp
  next
    case True
    with 1(2) obtain n m' s' where a: "stun_read_attr buf pos (fin - pos) m s = Some (Some (n, m', s'))" "n \<noteq> 0"
      "stun_read_loop buf fin (pos + n) m' s' = Some (Some y)"
      by (subst (asm) stun_read_loop.simps) (auto split: option.splits if_splits)
    obtain len16 type where l: "ld16 buf (pos + 2) = Some len16" "ld16 buf pos = Some type"
      "4 + unat len16 \<le> fin - pos" "n = 4 + align32 (unat len16)"
      using read_attr_value_at [OF a(1)] by blast
    have IH: "\<exists>b. integrity_loop key buf fin (pos + STUN_ATTR_SIZE + align32 (unat len16)) su = Some b" for su
      using 1(1) [OF True a(1) refl refl refl a(2,3) 1(3,4)] by (simp add: l(4) stun_sizes add.assoc)
    have c1: "\<exists>b. check_mac (\<lambda>m. hmac_sha1 m key) 20 buf pos = Some b" if "unat len16 = 20"
      using check_mac_eq [of "\<lambda>m. hmac_sha1 m key" buf pos 20] 1(3,4) that l(3) True by (simp add: ld_def)
    have c2: "\<exists>b. check_mac (\<lambda>m. hmac_sha256 m key) 32 buf pos = Some b" if "unat len16 = 32"
      using check_mac_eq [of "\<lambda>m. hmac_sha256 m key" buf pos 32] 1(3,4) that l(3) True by (simp add: ld_def)
    show ?thesis
      using c1 c2 unfolding integrity_loop.simps [of key buf fin pos]
      by (simp only: True if_True l(1,2) bind.bind_lunit Let_def HMAC_SHA1_SIZE_def HMAC_SHA256_SIZE_def) (intro safe IH; simp)
  qed
qed

text \<open>The integrity check is memory safe on every datagram that \<open>stun_read\<close> accepted, for every password and
  every message structure: its own length test, which compares with the size of the whole datagram, is
  never what keeps it inside.\<close>

theorem integrity_check_safe:
  assumes "stun_read buf = Some (Some (n, m))"
  shows "\<exists>b. stun_check_integrity buf msg password = Some b"
proof -
  from assms obtain len type tid y where r: "20 \<le> length buf" "ld16 buf 2 = Some len" "20 + unat len \<le> length buf"
    "stun_read_loop buf (20 + unat len) 20 (read_header type tid) 0 = Some (Some y)"
    by (auto simp: stun_read_def bind_eq_Some_conv Let_def stun_sizes split: if_splits option.splits)
  from integrity_loop_safe [OF r(4) r(1) r(3)] r show ?thesis
    by (auto simp: stun_check_integrity_def Let_def stun_sizes)
qed

subsection \<open>What was signed is accepted\<close>

text \<open>The loop passes over attributes of other types.\<close>

definition no_mac :: "(u16 \<times> bytes) list \<Rightarrow> bool" where
  "no_mac as = list_all (\<lambda>(t, v). t \<noteq> STUN_ATTR_MESSAGE_INTEGRITY \<and> t \<noteq> STUN_ATTR_MESSAGE_INTEGRITY_SHA256) as"

lemma integrity_loop_skip:
  "no_mac as \<Longrightarrow> length (pre @ encs as) \<le> fin \<Longrightarrow> fin \<le> length (pre @ encs as @ post) \<Longrightarrow> fin < 65536 \<Longrightarrow>
    integrity_loop key (pre @ encs as @ post) fin (length pre) su
    = integrity_loop key (pre @ encs as @ post) fin (length (pre @ encs as)) su"
proof (induction as arbitrary: pre)
  case (Cons a as)
  obtain t v where a: "a = (t, v)" by fastforce
  have lv: "4 + length v \<le> length (enc a)" using align32_props(1) [of "length v"] by (simp add: a length_enc)
  have v: "length v < 65536" using lv Cons.prems(2,4) by simp
  have "integrity_loop key (pre @ encs (a # as) @ post) fin (length pre) su
      = integrity_loop key ((pre @ enc a) @ encs as @ post) fin (length (pre @ enc a)) su"
    using Cons.prems lv v ld16_enc [of pre t v "encs as @ post"]
    by (subst integrity_loop.simps) (simp add: a no_mac_def Let_def stun_sizes unat_length16 length_enc add.assoc)
  also have "\<dots> = integrity_loop key ((pre @ enc a) @ encs as @ post) fin (length ((pre @ enc a) @ encs as)) su"
    using Cons.prems by (intro Cons.IH) (auto simp: no_mac_def)
  finally show ?case by simp
qed simp

lemma write_hdr: "buf_write (hdr msg n @ rest) 2 (net16 (of_nat k)) = hdr msg k @ rest"
  by (simp add: buf_write_def hdr_def net16_def)

lemma integrity_loop_mac:
  fixes b post :: bytes
  assumes tid: "length (transaction_id msg) = 12" and n: "n = length (b @ enc (t, v) @ post)" "n < 65516"
    and t: "t = STUN_ATTR_MESSAGE_INTEGRITY \<and> v = hmac_sha1 (hdr msg (length b + 24) @ b) key
      \<or> t = STUN_ATTR_MESSAGE_INTEGRITY_SHA256 \<and> v = hmac_sha256 (hdr msg (length b + 36) @ b) key"
  defines "buf \<equiv> hdr msg n @ b @ enc (t, v) @ post"
  shows "integrity_loop key buf (20 + n) (20 + length b) su = integrity_loop key buf (20 + n) (20 + length (b @ enc (t, v))) True"
proof -
  have h: "length (hdr msg k) = 20" for k using tid by (rule length_hdr)
  have lb: "length buf = 20 + n" by (simp add: buf_def h n(1))
  have mi: "mac_input buf (20 + length b) sz = hdr msg (length b + 4 + sz) @ b" for sz
  proof -
    have "20 + length b - 20 + 4 + sz = length b + 4 + sz" by simp
    then show ?thesis unfolding mac_input_def buf_def by (simp only: write_hdr) (simp add: h)
  qed
  have l: "ld16 buf (20 + length b) = Some t" "ld16 buf (20 + length b + 2) = Some (of_nat (length v))"
    "ld buf (20 + length b + 4) (length v) = Some v"
    using ld16_enc [of "hdr msg n @ b" t v post] ld_enc_value [of "hdr msg n @ b" t v post] by (simp_all add: buf_def h)
  have lt: "20 + length b < 20 + n" using n(1) by (simp add: length_enc)
  have ne: "STUN_ATTR_MESSAGE_INTEGRITY_SHA256 \<noteq> STUN_ATTR_MESSAGE_INTEGRITY" by (simp add: stun_consts)
  from t show ?thesis
  proof
    assume t: "t = STUN_ATTR_MESSAGE_INTEGRITY \<and> v = hmac_sha1 (hdr msg (length b + 24) @ b) key"
    then have lv: "length v = 20" by simp
    have "check_mac (\<lambda>m. hmac_sha1 m key) 20 buf (20 + length b) = Some True"
      using check_mac_eq [of "\<lambda>m. hmac_sha1 m key" buf "20 + length b" 20] l(3) lb mi [of 20] t by (simp add: add.commute)
    then show ?thesis using l(1,2) lt lb n t lv
      by (subst integrity_loop.simps) (simp add: Let_def stun_sizes unat_length16 length_enc add.assoc align32_id)
  next
    assume t: "t = STUN_ATTR_MESSAGE_INTEGRITY_SHA256 \<and> v = hmac_sha256 (hdr msg (length b + 36) @ b) key"
    then have lv: "length v = 32" by simp
    have "check_mac (\<lambda>m. hmac_sha256 m key) 32 buf (20 + length b) = Some True"
      using check_mac_eq [of "\<lambda>m. hmac_sha256 m key" buf "20 + length b" 32] l(3) lb mi [of 32] t by (simp add: add.commute)
    then show ?thesis using l(1,2) lt lb n t lv ne
      by (subst integrity_loop.simps) (simp add: Let_def stun_sizes unat_length16 length_enc add.assoc align32_id)
  qed
qed

lemma no_mac_append: "no_mac (as @ bs) \<longleftrightarrow> no_mac as \<and> no_mac bs"
  by (simp add: no_mac_def)

lemma no_mac_address: "t = STUN_ATTR_XOR_MAPPED_ADDRESS \<or> t = STUN_ATTR_XOR_PEER_ADDRESS \<or> t = STUN_ATTR_XOR_RELAYED_ADDRESS \<Longrightarrow>
    no_mac (attrs_address t tid r)"
  by (auto simp: no_mac_def attrs_address_def stun_consts Let_def split: prod.splits)

lemma no_mac_groups:
  "no_mac (attrs_error_code msg)" "no_mac (attrs_ice msg)" "no_mac (attrs_channel_lifetime msg)"
  "no_mac (attrs_turn msg)" "no_mac attrs_software" "no_mac (attrs_user msg)"
  unfolding attrs_error_code_def attrs_ice_def attrs_channel_lifetime_def attrs_turn_def attrs_software_def attrs_user_def
    no_mac_append
  by (simp_all add: no_mac_def stun_consts split: option.splits)

lemma no_mac_nonce: "no_mac (attrs_nonce junk msg)"
  unfolding attrs_nonce_def Let_def by (simp add: no_mac_append) (simp add: no_mac_def stun_consts)

lemma no_mac_realm: "no_mac (attrs_realm junk msg)"
  using no_mac_nonce by (simp add: attrs_realm_alt no_mac_append) (simp add: no_mac_def stun_consts)

lemma body_no_mac: "no_mac (body_attrs junk msg)"
proof -
  have "no_mac (attrs_peers msg)"
    using no_mac_address [of STUN_ATTR_XOR_PEER_ADDRESS] by (auto simp: attrs_peers_def no_mac_def list_all_iff)
  then show ?thesis
    by (simp add: body_attrs_def no_mac_append no_mac_groups no_mac_realm no_mac_address)
qed

lemma integrity_complete':
  assumes tid: "length (transaction_id msg) = 12" and len: "length (wire junk msg password) < 65536"
    and signed: "msg_class msg \<noteq> STUN_CLASS_INDICATION" "password \<noteq> None"
    and recv: "has_integrity rcv" "generate_hmac_key rcv pw = generate_hmac_key msg password"
  shows "stun_check_integrity (wire junk msg password) rcv pw = Some True"
proof -
  define key where "key = generate_hmac_key msg password"
  define b where "b = encs (body_attrs junk msg)"
  define a1 where "a1 = (STUN_ATTR_MESSAGE_INTEGRITY, hmac_sha1 (hdr msg (length b + 24) @ b) key)"
  define a2 where "a2 = (STUN_ATTR_MESSAGE_INTEGRITY_SHA256, hmac_sha256 (hdr msg (length (b @ enc a1) + 36) @ b @ enc a1) key)"
  define two where "two = (if password_algorithm (credentials msg) \<noteq> STUN_PASSWORD_ALGORITHM_UNSET then [a2] else [])"
  define fp where "fp = fingerprint_attr msg (signed_body junk msg password)"
  define n where "n = length (b @ enc a1 @ encs two @ enc fp)"
  define buf where "buf = wire junk msg password"
  have h: "length (hdr msg k) = 20" for k using tid by (rule length_hdr)
  have sb: "signed_body junk msg password = b @ enc a1 @ encs two"
    using signed by (simp add: signed_body_def mac_attrs_def Let_def b_def a1_def a2_def two_def key_def)
  have l8: "length (enc fp) = 8" by (simp add: fp_def fingerprint_attr_def length_enc align32_id)
  have w: "buf = hdr msg n @ b @ enc a1 @ encs two @ enc fp"
    using l8 by (simp add: buf_def wire_def Let_def sb fp_def [symmetric] n_def) (simp add: fp_def sb add.assoc)
  have n: "n < 65516" using len by (simp add: buf_def [symmetric] w h n_def)
  have lb: "length buf = 20 + n" by (simp add: w h n_def)
  have s1: "integrity_loop key buf (20 + n) 20 False = integrity_loop key buf (20 + n) (20 + length b) False"
    using integrity_loop_skip [OF body_no_mac, of "hdr msg n" junk msg "20 + n" "enc a1 @ encs two @ enc fp" key False] n
    by (simp add: b_def [symmetric] w [symmetric] h) (simp add: n_def lb)
  have s2: "\<dots> = integrity_loop key buf (20 + n) (20 + length (b @ enc a1)) True"
    using integrity_loop_mac [OF tid, of n b STUN_ATTR_MESSAGE_INTEGRITY "snd a1" "encs two @ enc fp" key False] n
    by (simp add: a1_def n_def w)
  have s3: "\<dots> = integrity_loop key buf (20 + n) (20 + length (b @ enc a1 @ encs two)) True"
  proof (cases "two = []")
    case False
    then have "two = [a2]" by (simp add: two_def split: if_splits)
    then show ?thesis
      using integrity_loop_mac [OF tid, of n "b @ enc a1" STUN_ATTR_MESSAGE_INTEGRITY_SHA256 "snd a2" "enc fp" key True] n
      by (simp add: a2_def n_def w)
  qed simp
  have "no_mac [fp]" by (simp add: no_mac_def fp_def fingerprint_attr_def stun_consts)
  then have s4: "integrity_loop key buf (20 + n) (20 + length (b @ enc a1 @ encs two)) True = integrity_loop key buf (20 + n) (20 + n) True"
    using integrity_loop_skip [of "[fp]" "hdr msg n @ b @ enc a1 @ encs two" "20 + n" "[]" key True] n
    by (simp add: w h) (simp add: n_def)
  have s5: "\<dots> = Some True" by (subst integrity_loop.simps) simp
  have "ld16 buf 2 = Some (of_nat n)" by (simp add: w hdr_def ld16_def ld_def)
  then show ?thesis
    using recv s1 s2 s3 s4 s5 lb n unfolding buf_def [symmetric] stun_check_integrity_def Let_def key_def [symmetric]
    by (simp add: stun_sizes unat_length16)
qed

text \<open>(C11) Completeness of the integrity check: what \<open>stun_write\<close> writes for a message that is not an
  indication, with a password and into any buffer with room for it, passes the check of every receiver
  that derives the same key from its own credentials and password, both with MESSAGE-INTEGRITY alone
  and together with MESSAGE-INTEGRITY-SHA256.\<close>

theorem integrity_complete:
  assumes "length (transaction_id msg) = 12" and "msg_class msg \<noteq> STUN_CLASS_INDICATION" and "password \<noteq> None"
    and "length (wire junk msg password) \<le> length buf" and "length (wire junk msg password) < 65536"
    and "length buf < 2 ^ 31"
    and "has_integrity rcv" and "generate_hmac_key rcv pw = generate_hmac_key msg password"
  shows "\<exists>n buf'. stun_write junk buf msg password = Some (int n, buf') \<and> n \<le> length buf'
    \<and> stun_check_integrity (take n buf') rcv pw = Some True"
proof -
  from stun_write_wire' [OF assms(1,4,6)] obtain buf' where
    "stun_write junk buf msg password = Some (int (length (wire junk msg password)), buf')"
    "length buf' = length buf" "take (length (wire junk msg password)) buf' = wire junk msg password" by blast
  moreover have "stun_check_integrity (wire junk msg password) rcv pw = Some True"
    using assms by (intro integrity_complete')
  ultimately show ?thesis
    using assms(4) by (intro exI [of _ "length (wire junk msg password)"] exI [of _ buf']) simp
qed

text \<open>A signed Binding request, for the witnesses.\<close>

definition binding_request :: stun_message where
  "binding_request = zero_message\<lparr>msg_class := STUN_CLASS_REQUEST, msg_method := STUN_METHOD_BINDING\<rparr>"

lemma binding_request_ok: "message_ok binding_request"
  by (simp add: message_ok_def binding_request_def zero_message_def stun_consts STUN_CLASS_MASK_def
      zero_credentials_def credentials_ok_def stun_sizes)

lemma binding_request_wire: "length (wire 0 binding_request (Some pw)) = 64"
proof -
  have "length (encs (body_attrs 0 binding_request)) = 12"
    by (simp add: binding_request_def body_attrs_def attrs_error_code_def attrs_address_def attrs_ice_def
        attrs_channel_lifetime_def attrs_peers_def attrs_turn_def attrs_software_def attrs_user_def attrs_realm_def
        attrs_nonce_def zero_message_def zero_credentials_def zero_record_def stun_consts length_enc align32_id str_bytes_def)
  moreover have "length (transaction_id binding_request) = 12" "msg_class binding_request \<noteq> STUN_CLASS_INDICATION"
    "password_algorithm (credentials binding_request) = STUN_PASSWORD_ALGORITHM_UNSET"
    by (simp_all add: binding_request_def zero_message_def zero_credentials_def stun_consts)
  ultimately show ?thesis
    by (simp add: wire_def signed_body_def mac_attrs_def Let_def length_hdr length_enc fingerprint_attr_def align32_id)
qed

lemma binding_request_facts:
  "length (transaction_id binding_request) = 12" "msg_class binding_request \<noteq> STUN_CLASS_INDICATION"
  "has_integrity (received binding_request (Some pw))"
  "generate_hmac_key (received binding_request (Some pw)) (Some pw) = generate_hmac_key binding_request (Some pw)"
  by (simp_all add: binding_request_def zero_message_def zero_credentials_def stun_consts received_def
      received_credentials_def generate_hmac_key_def is_request_def sends_nonce_def Let_def)

theorem integrity_complete_witness:
  "\<exists>n buf'. stun_write 0 (replicate 100 0) binding_request (Some [112, 119]) = Some (int n, buf') \<and> n \<le> length buf'
    \<and> stun_check_integrity (take n buf') (received binding_request (Some [112, 119])) (Some [112, 119]) = Some True"
  by (rule integrity_complete) (simp_all add: binding_request_facts binding_request_wire)

theorem integrity_sound_witness:
  "\<exists>p. authentic_at (generate_hmac_key (received binding_request (Some [112, 119])) (Some [112, 119]))
    (wire 0 binding_request (Some [112, 119])) p"
proof -
  have "stun_check_integrity (wire 0 binding_request (Some [112, 119])) (received binding_request (Some [112, 119])) (Some [112, 119])
      = Some True"
    by (rule integrity_complete') (simp_all add: binding_request_facts binding_request_wire)
  from integrity_sound [OF this] show ?thesis by blast
qed

theorem integrity_check_safe_witness:
  "\<exists>b. stun_check_integrity (wire 0 binding_request (Some [112, 119])) zero_message None = Some b"
proof -
  have "length (wire 0 binding_request (Some [112, 119])) < 65536 + 20" by (simp add: binding_request_wire)
  from integrity_check_safe [OF stun_read_wire [OF binding_request_ok this]] show ?thesis .
qed

subsection \<open>The nonce cookie\<close>

lemma security_bits_encoded: "cstr (snd (juice_base64_encode [0, 0, 3] 5)) = encode_loop [0, 0, 3]"
  using encode_nonzero [of "[0, 0, 3]"] encode_length [of "[0, 0, 3]"]
  by (simp add: juice_base64_encode_def cstr_append_0 del: encode_loop.simps)

text \<open>The nonce cookie round trip: a server's nonce with the cookie prepended still fits the nonce field with
  its terminator, keeps the nonce up to 750 bytes behind the 13 characters of the cookie, and a client
  that reads it in a response decodes exactly the two security feature bits the server announced.\<close>

theorem nonce_cookie_roundtrip:
  assumes "0 \<notin> set nnc" and "nnc \<noteq> []" and "STUN_IS_RESPONSE cls"
  shows "length (stun_prepend_nonce_cookie nnc) < STUN_MAX_NONCE_LEN \<and> 0 \<notin> set (stun_prepend_nonce_cookie nnc)
    \<and> drop 13 (stun_prepend_nonce_cookie nnc) = take 750 nnc
    \<and> nonce_security_bits cls (stun_prepend_nonce_cookie nnc) sb
      = Some (STUN_SECURITY_PASSWORD_ALGORITHMS_BIT OR STUN_SECURITY_USERNAME_ANONYMITY_BIT)"
proof -
  let ?e = "encode_loop [0, 0, 3]"
  have c: "length STUN_NONCE_COOKIE = 9" "0 \<notin> set STUN_NONCE_COOKIE"
    by (simp_all add: STUN_NONCE_COOKIE_def str_bytes_def)
  have e: "length ?e = 4" using encode_length [of "[0, 0, 3]"] by (simp del: encode_loop.simps)
  have bits: "take 3 (drop 1 (mem32 (htonl (STUN_SECURITY_PASSWORD_ALGORITHMS_BIT OR STUN_SECURITY_USERNAME_ANONYMITY_BIT)))) = [0, 0, 3]"
    by (simp add: mem32_htonl net32_def STUN_SECURITY_PASSWORD_ALGORITHMS_BIT_def STUN_SECURITY_USERNAME_ANONYMITY_BIT_def)
  have p: "stun_prepend_nonce_cookie nnc = STUN_NONCE_COOKIE @ ?e @ take 750 nnc"
    unfolding stun_prepend_nonce_cookie_def Let_def bits security_bits_encoded
    by (simp add: stun_sizes c e del: encode_loop.simps)
  have "decode_loop 3 ?e 3 [] = Some (3, [0, 0, 3])"
    using decode_encode_loop [of "[0, 0, 3]" 3 "[]" 3] by (simp del: encode_loop.simps)
  then have "nonce_security_bits cls (STUN_NONCE_COOKIE @ ?e @ take 750 nnc) sb = Some (rd32 [0, 0, 0, 3])"
    using assms c e by (simp add: nonce_security_bits_def juice_base64_decode_def del: encode_loop.simps)
  moreover have "rd32 [0, 0, 0, 3] = STUN_SECURITY_PASSWORD_ALGORITHMS_BIT OR STUN_SECURITY_USERNAME_ANONYMITY_BIT"
    by (simp add: rd32_def STUN_SECURITY_PASSWORD_ALGORITHMS_BIT_def STUN_SECURITY_USERNAME_ANONYMITY_BIT_def)
  ultimately show ?thesis
    using assms c e encode_nonzero [of "[0, 0, 3]"]
    by (auto simp: p stun_sizes dest: in_set_takeD simp del: encode_loop.simps)
qed

theorem nonce_cookie_roundtrip_witness:
  "nonce_security_bits STUN_CLASS_RESP_ERROR (stun_prepend_nonce_cookie [120]) 0
    = Some (STUN_SECURITY_PASSWORD_ALGORITHMS_BIT OR STUN_SECURITY_USERNAME_ANONYMITY_BIT)"
  using nonce_cookie_roundtrip [of "[120]" STUN_CLASS_RESP_ERROR 0] by (simp add: request_class)

subsection \<open>Where the writer goes wrong\<close>

lemma put_attr_overflow:
  assumes "wrote cap pre st" "cap < length pre + 4 + length v" "0 < length pre" "cap < 2 ^ 63"
  shows "put_attr (t, v) st = Some (Inr (fst st, length pre - 1))"
proof -
  obtain buf where st: "st = (buf, length pre)" "length buf = cap" "length pre \<le> cap"
    using assms(1) by (cases st) (auto simp: wrote_def)
  have sz: "unat (of_nat cap - of_nat (length pre) :: u64) = cap - length pre"
    using st(3) assms(4) by (intro unat_diff_u64) auto
  have "of_nat (length pre) + (of_int (- 1) :: u64) = of_nat (length pre - 1)"
    using assms(3) by (cases "length pre") simp_all
  moreover have "unat (of_nat (length pre - 1) :: u64) = length pre - 1"
    using st(3) assms(4) by (simp only: unat_of_nat) (simp add: take_bit_nat_eq_self)
  moreover have "cap - length pre < 4 + length v" using assms(2) st(3) by linarith
  ultimately show ?thesis using st sz
    by (simp add: put_attr_def stun_write_attr_def stun_sizes Let_def)
qed

text \<open>\<open>stun_write\<close> misses a buffer that is too small: the \<^verbatim>\<open>int\<close> result \<^verbatim>\<open>-1\<close> of \<open>stun_write_attr\<close> is stored in a
  \<^verbatim>\<open>size_t\<close>, so the test \<^verbatim>\<open>len <= 0\<close> never holds and the position moves back by one.  In every buffer that has
  room for the message but not for its fingerprint, the function returns a positive size, one less than
  what was written, for a message whose header announces eight bytes that are not there.\<close>

theorem stun_write_misses_overflow:
  assumes "length (transaction_id msg) = 12"
    and "20 + length (signed_body junk msg password) \<le> length buf"
    and "length buf < 28 + length (signed_body junk msg password)" and "length buf < 2 ^ 31"
  shows "\<exists>buf'. stun_write junk buf msg password = Some (int (length (signed_body junk msg password)) + 19, buf')"
proof -
  define sb where "sb = signed_body junk msg password"
  have h: "length (hdr msg k) = 20" for k using assms(1) by (rule length_hdr)
  obtain st n where st: "stun_write_steps junk buf msg password = put_fingerprint 20 st"
    "wrote (length buf) (hdr msg n @ sb) st"
    using stun_write_prefix [OF assms(1,4,2)] by (auto simp: sb_def)
  define lw where "lw = (of_nat (20 + length sb) - of_nat 20 + of_nat STUN_ATTR_SIZE + 4 :: u64)"
  have l: "lw = of_nat (length sb + 8)" by (simp add: stun_sizes lw_def)
  have ul: "unat lw = length sb + 8" unfolding l using assms(2,4) by (simp only: unat_of_nat) (simp add: take_bit_nat_eq_self sb_def)
  have "unat (lw AND 3) = (length sb + 8) mod 4"
    unfolding and_low_bits(2) unsigned_take_bit_eq ul by (simp add: take_bit_eq_mod)
  also have "\<dots> = 0" using length_signed_body_mod4 [of junk msg password] unfolding sb_def by presburger
  finally have l3: "lw AND 3 = 0" by (simp only: unat_eq_0)
  obtain p where p: "stun_update_header_length (fst st) lw
      = Some (p, hdr msg (length sb + 8) @ sb @ drop (20 + length sb) (fst st))"
    "wrote (length buf) (hdr msg (length sb + 8) @ sb)
       (hdr msg (length sb + 8) @ sb @ drop (20 + length sb) (fst st), snd st)"
    using wrote_update [OF st(2) assms(1), of lw] ul by metis
  have sn: "snd st = 20 + length sb" using st(2) by (simp add: wrote_def h)
  have "put_attr (STUN_ATTR_FINGERPRINT, mem32 x) (hdr msg (length sb + 8) @ sb @ drop (20 + length sb) (fst st), snd st)
      = Some (Inr (hdr msg (length sb + 8) @ sb @ drop (20 + length sb) (fst st), 19 + length sb))" for x
    using put_attr_overflow [OF p(2)] assms(3,4) by (simp add: h sb_def)
  then have "put_fingerprint 20 (fst st, 20 + length sb)
      = Some (Inr (hdr msg (length sb + 8) @ sb @ drop (20 + length sb) (fst st), 19 + length sb))"
    unfolding put_fingerprint_def prod.case lw_def [symmetric] Let_def l3 p(1) bind.bind_lunit sn by simp
  then show ?thesis using st(1) sn by (cases st) (simp add: stun_write_def sb_def)
qed

theorem stun_write_misses_overflow_witness:
  "\<exists>buf'. stun_write 0 (replicate 52 0) binding_indication None = Some (51, buf')"
proof -
  have "length (signed_body 0 binding_indication None) = 32"
    using binding_indication_body by (simp add: signed_body_def Let_def mac_attrs_def)
  with stun_write_misses_overflow [of binding_indication 0 None "replicate 52 0"]
  show ?thesis by (simp add: binding_indication_def zero_message_def)
qed

text \<open>EVEN-PORT is never sent: a message that asks for it gets a one-byte CHANNEL-NUMBER attribute instead,
  which no reader accepts, whatever message it has read so far.\<close>

theorem even_port_not_sent:
  assumes "even_port msg"
  shows "(\<exists>v. (STUN_ATTR_CHANNEL_NUMBER, v) \<in> set (body_attrs junk msg) \<and> length v = 1
      \<and> (\<forall>buf pos m sb. read_attr_value buf pos STUN_ATTR_CHANNEL_NUMBER v m sb = Some None))
    \<and> (\<forall>v. (STUN_ATTR_EVEN_PORT, v) \<notin> set (attrs_turn msg))"
proof
  show "\<exists>v. (STUN_ATTR_CHANNEL_NUMBER, v) \<in> set (body_attrs junk msg) \<and> length v = 1
      \<and> (\<forall>buf pos m sb. read_attr_value buf pos STUN_ATTR_CHANNEL_NUMBER v m sb = Some None)"
    using assms by (intro exI [of _ "[if next_port msg then 0 OR 0x80 else 0]"])
      (simp add: body_attrs_def attrs_turn_def switch_cases keep_bits_def read_channel_number_def)
  show "\<forall>v. (STUN_ATTR_EVEN_PORT, v) \<notin> set (attrs_turn msg)"
    by (auto simp: attrs_turn_def stun_consts split: option.splits if_splits)
qed

theorem even_port_not_sent_witness:
  "\<forall>v. (STUN_ATTR_EVEN_PORT, v) \<notin> set (attrs_turn (zero_message\<lparr>even_port := True, next_port := True\<rparr>))"
  using even_port_not_sent [of "zero_message\<lparr>even_port := True, next_port := True\<rparr>"] by simp

end
