(* ===== verification/Turn.thy ===== *)
theory Turn
  imports Stun
begin

text \<open>
  \<^verbatim>\<open>libjuice/src/turn.c\<close>: ChannelData framing and the TURN state map, a hash table of permissions and channel
  bindings with two sorted arrays of pointers into it, one by channel number and one by transaction id.

  A pointer into the table is its index.  The arrays \<^verbatim>\<open>ordered_channels\<close> and \<^verbatim>\<open>ordered_transaction_ids\<close> are
  the lists of their used prefixes, so \<^verbatim>\<open>channels_count\<close> and \<^verbatim>\<open>transaction_ids_count\<close> are list lengths; both have
  room for \<^verbatim>\<open>map_size\<close> pointers, and an insertion beyond that is the undefined behaviour \<open>None\<close>, as is a
  read of an unused slot.  An operation returns its result with the map after it; \<open>now\<close> is the answer of
  \<^verbatim>\<open>current_timestamp\<close>, and what \<^verbatim>\<open>juice_random\<close> delivers is an argument.
\<close>

subsection \<open>Helpers and ChannelData\<close>

definition memory_is_zero :: "bytes \<Rightarrow> bool" where
  "memory_is_zero data \<longleftrightarrow> list_all (\<lambda>b. b = 0) data"

text \<open>\<^verbatim>\<open>memcmp\<close> on two arrays of the same size.\<close>

fun memcmp :: "bytes \<Rightarrow> bytes \<Rightarrow> int" where
  "memcmp (a # as) (b # bs) = (if a < b then -1 else if b < a then 1 else memcmp as bs)"
| "memcmp _ _ = 0"

definition random_channel_number :: "u16 \<Rightarrow> u16" where
  "random_channel_number r = 0x4000 OR (r AND 0x0FFF)"

definition is_channel_data :: "bytes \<Rightarrow> bool" where
  "is_channel_data data = (case data of [] \<Rightarrow> False | b # _ \<Rightarrow> 64 \<le> b \<and> b \<le> 79)"

definition is_valid_channel :: "u16 \<Rightarrow> bool" where
  "is_valid_channel channel \<longleftrightarrow> channel \<ge> 0x4000"

definition turn_wrap_channel_data :: "bytes \<Rightarrow> bytes \<Rightarrow> u16 \<Rightarrow> int \<times> bytes" where
  "turn_wrap_channel_data buffer data channel =
     (if \<not> is_valid_channel channel then (-1, buffer)
      else if length data \<ge> 65536 then (-1, buffer)
      else if length buffer < 4 + length data then (-1, buffer)
      else (4 + int (length data),
            buf_write (buf_write buffer 4 data) 0
              (mem16 (htons channel) @ mem16 (htons (of_nat (length data))))))"

subsection \<open>The map\<close>

datatype turn_entry_type =
  TURN_ENTRY_TYPE_EMPTY | TURN_ENTRY_TYPE_DELETED | TURN_ENTRY_TYPE_PERMISSION | TURN_ENTRY_TYPE_CHANNEL

fun type_int :: "turn_entry_type \<Rightarrow> u64" where
  "type_int TURN_ENTRY_TYPE_EMPTY = 0"
| "type_int TURN_ENTRY_TYPE_DELETED = 1"
| "type_int TURN_ENTRY_TYPE_PERMISSION = 2"
| "type_int TURN_ENTRY_TYPE_CHANNEL = 3"

record turn_entry =
  te_type :: turn_entry_type
  te_timestamp :: int
  te_record :: addr_record
  te_transaction_id :: bytes
  te_channel :: u16
  te_fresh_transaction_id :: bool

record turn_map =
  tm_map :: "turn_entry list"
  tm_ordered_channels :: "nat list"
  tm_ordered_transaction_ids :: "nat list"

definition zero_entry :: turn_entry where
  "zero_entry = \<lparr>te_type = TURN_ENTRY_TYPE_EMPTY, te_timestamp = 0, te_record = zero_record,
     te_transaction_id = replicate 12 0, te_channel = 0, te_fresh_transaction_id = False\<rparr>"

definition map_size :: "turn_map \<Rightarrow> nat" where
  "map_size m = length (tm_map m)"

definition upd_entry :: "nat \<Rightarrow> (turn_entry \<Rightarrow> turn_entry) \<Rightarrow> turn_map \<Rightarrow> turn_map" where
  "upd_entry i f m = m\<lparr>tm_map := (tm_map m)[i := f (tm_map m ! i)]\<rparr>"

text \<open>The entry behind a pointer of one of the ordered arrays.\<close>

definition deref :: "turn_entry list \<Rightarrow> nat list \<Rightarrow> nat \<Rightarrow> turn_entry option" where
  "deref es arr p = (if p < length arr \<and> arr ! p < length es then Some (es ! (arr ! p)) else None)"

function find_ordered_channel_rec :: "turn_entry list \<Rightarrow> nat list \<Rightarrow> u16 \<Rightarrow> nat \<Rightarrow> nat \<Rightarrow> nat option" where
  "find_ordered_channel_rec es arr channel begin fin =
     (if fin \<le> begin then Some begin
      else let pivot = begin + (fin - begin) div 2 in
           do { entry \<leftarrow> deref es arr pivot;
                if channel < te_channel entry then find_ordered_channel_rec es arr channel begin pivot
                else if channel > te_channel entry then find_ordered_channel_rec es arr channel (pivot + 1) fin
                else Some pivot })"
  by pat_completeness auto
termination by (relation "measure (\<lambda>(es, arr, c, begin, fin). fin - begin)") auto

definition find_ordered_channel :: "turn_map \<Rightarrow> u16 \<Rightarrow> nat option" where
  "find_ordered_channel m channel =
     find_ordered_channel_rec (tm_map m) (tm_ordered_channels m) channel 0 (length (tm_ordered_channels m))"

function find_ordered_transaction_id_rec :: "turn_entry list \<Rightarrow> nat list \<Rightarrow> bytes \<Rightarrow> nat \<Rightarrow> nat \<Rightarrow> nat option" where
  "find_ordered_transaction_id_rec es arr tid begin fin =
     (if fin \<le> begin then Some begin
      else let pivot = begin + (fin - begin) div 2 in
           do { entry \<leftarrow> deref es arr pivot;
                let ret = memcmp tid (te_transaction_id entry);
                if ret < 0 then find_ordered_transaction_id_rec es arr tid begin pivot
                else if ret > 0 then find_ordered_transaction_id_rec es arr tid (pivot + 1) fin
                else Some pivot })"
  by pat_completeness auto
termination by (relation "measure (\<lambda>(es, arr, c, begin, fin). fin - begin)") auto

declare find_ordered_channel_rec.simps [simp del] find_ordered_transaction_id_rec.simps [simp del]

definition find_ordered_transaction_id :: "turn_map \<Rightarrow> bytes \<Rightarrow> nat option" where
  "find_ordered_transaction_id m tid =
     find_ordered_transaction_id_rec (tm_map m) (tm_ordered_transaction_ids m) tid 0
       (length (tm_ordered_transaction_ids m))"

text \<open>The \<^verbatim>\<open>memmove\<close>s on the arrays.\<close>

definition remove_at :: "nat \<Rightarrow> nat list \<Rightarrow> nat list" where
  "remove_at p arr = take p arr @ drop (p + 1) arr"

definition insert_at :: "nat \<Rightarrow> nat \<Rightarrow> nat \<Rightarrow> nat list \<Rightarrow> nat list option" where
  "insert_at cap p x arr = (if length arr < cap \<and> p \<le> length arr then Some (take p arr @ x # drop p arr) else None)"

definition remove_ordered_transaction_id :: "turn_map \<Rightarrow> bytes \<Rightarrow> turn_map option" where
  "remove_ordered_transaction_id m tid =
     do { pos \<leftarrow> find_ordered_transaction_id m tid;
          if pos < length (tm_ordered_transaction_ids m)
          then Some (m\<lparr>tm_ordered_transaction_ids := remove_at pos (tm_ordered_transaction_ids m)\<rparr>)
          else Some m }"

subsection \<open>The hash table\<close>

definition entry_stops :: "addr_record \<Rightarrow> turn_entry_type \<Rightarrow> bool \<Rightarrow> turn_entry \<Rightarrow> bool" where
  "entry_stops record type allow_deleted entry \<longleftrightarrow>
     te_type entry = TURN_ENTRY_TYPE_EMPTY
     \<or> (te_type entry = type \<and> addr_record_is_equal (te_record entry) record False)
     \<or> (allow_deleted \<and> te_type entry = TURN_ENTRY_TYPE_DELETED)"

text \<open>The probing loop that \<^verbatim>\<open>find_entry\<close> and \<^verbatim>\<open>find_allocation\<close> of \<^verbatim>\<open>server.c\<close> share.\<close>

function find_entry_loop :: "'a list \<Rightarrow> ('a \<Rightarrow> bool) \<Rightarrow> nat \<Rightarrow> nat \<Rightarrow> nat option option" where
  "find_entry_loop es stops key pos =
     (if pos < length es \<and> key < length es
      then if stops (es ! pos) then Some (Some pos)
           else let pos' = (pos + 1) mod length es
                in if pos' = key then Some None else find_entry_loop es stops key pos'
      else None)"
  by pat_completeness auto
termination
  by (relation "measure (\<lambda>(es, stops, key, pos). if key \<le> pos then length es - pos + key else key - pos)")
    (auto simp: mod_Suc)

declare find_entry_loop.simps [simp del]

text \<open>\<open>Some None\<close> is the \<^verbatim>\<open>NULL\<close> of a full table; \<open>None\<close> the division by a \<^verbatim>\<open>map_size\<close> of zero.\<close>

definition hash_slot :: "nat \<Rightarrow> addr_record \<Rightarrow> turn_entry_type \<Rightarrow> nat" where
  "hash_slot n record type = unat (addr_record_hash record False + type_int type) mod n"

definition find_entry :: "turn_map \<Rightarrow> addr_record \<Rightarrow> turn_entry_type \<Rightarrow> bool \<Rightarrow> nat option option" where
  "find_entry m record type allow_deleted =
     (if map_size m = 0 then None
      else let key = hash_slot (map_size m) record type
           in find_entry_loop (tm_map m) (entry_stops record type allow_deleted) key key)"

definition update_timestamp ::
  "int \<Rightarrow> turn_map \<Rightarrow> turn_entry_type \<Rightarrow> bytes \<Rightarrow> addr_record option \<Rightarrow> int \<Rightarrow> (bool \<times> turn_map) option" where
  "update_timestamp now m type tid record duration =
     (let stamp = (\<lambda>e. e\<lparr>te_timestamp := now + duration, te_fresh_transaction_id := False\<rparr>) in
      case record of
        Some r \<Rightarrow>
          do { ent \<leftarrow> find_entry m r type True;
               case ent of
                 None \<Rightarrow> Some (False, m)
               | Some i \<Rightarrow>
                   if te_type (tm_map m ! i) = type \<and> memcmp (te_transaction_id (tm_map m ! i)) tid = 0
                   then Some (True, m)
                   else do { let m1 = (if te_type (tm_map m ! i) = type then m
                                       else upd_entry i (\<lambda>e. e\<lparr>te_type := type, te_record := r\<rparr>) m);
                             let old = te_transaction_id (tm_map m1 ! i);
                             m2 \<leftarrow> (if memory_is_zero old then Some m1 else remove_ordered_transaction_id m1 old);
                             Some (True, upd_entry i (stamp \<circ> (\<lambda>e. e\<lparr>te_transaction_id := tid\<rparr>)) m2) } }
      | None \<Rightarrow>
          do { pos \<leftarrow> find_ordered_transaction_id m tid;
               if pos = length (tm_ordered_transaction_ids m) then Some (False, m)
               else do { entry \<leftarrow> deref (tm_map m) (tm_ordered_transaction_ids m) pos;
                         if te_type entry \<noteq> type \<or> memcmp (te_transaction_id entry) tid \<noteq> 0
                         then Some (False, m)
                         else Some (True, upd_entry (tm_ordered_transaction_ids m ! pos) stamp m) } })"

subsection \<open>Operations\<close>

text \<open>\<^verbatim>\<open>turn_init_map\<close> when its allocations succeed; \<^verbatim>\<open>turn_destroy_map\<close> only frees.\<close>

definition turn_init_map :: "nat \<Rightarrow> turn_map" where
  "turn_init_map sz = \<lparr>tm_map = replicate (sz * 2) zero_entry, tm_ordered_channels = [],
     tm_ordered_transaction_ids = []\<rparr>"

definition turn_set_permission ::
  "int \<Rightarrow> turn_map \<Rightarrow> bytes \<Rightarrow> addr_record option \<Rightarrow> int \<Rightarrow> (bool \<times> turn_map) option" where
  "turn_set_permission now m tid record duration =
     update_timestamp now m TURN_ENTRY_TYPE_PERMISSION tid record duration"

definition turn_has_permission :: "int \<Rightarrow> turn_map \<Rightarrow> addr_record \<Rightarrow> bool option" where
  "turn_has_permission now m record =
     do { ent \<leftarrow> find_entry m record TURN_ENTRY_TYPE_PERMISSION False;
          Some (case ent of
                  None \<Rightarrow> False
                | Some i \<Rightarrow> te_type (tm_map m ! i) = TURN_ENTRY_TYPE_PERMISSION
                             \<and> now < te_timestamp (tm_map m ! i)) }"

definition turn_bind_channel ::
  "int \<Rightarrow> turn_map \<Rightarrow> addr_record option \<Rightarrow> bytes option \<Rightarrow> u16 \<Rightarrow> int \<Rightarrow> (bool \<times> turn_map) option" where
  "turn_bind_channel now m record tid channel duration =
     (case record of
        None \<Rightarrow> Some (False, m)
      | Some r \<Rightarrow>
          if \<not> is_valid_channel channel then Some (False, m)
          else do { ent \<leftarrow> find_entry m r TURN_ENTRY_TYPE_CHANNEL True;
                    case ent of
                      None \<Rightarrow> Some (False, m)
                    | Some i \<Rightarrow>
                        let e = tm_map m ! i in
                        if te_type e = TURN_ENTRY_TYPE_CHANNEL \<and> te_channel e \<noteq> 0
                        then if te_channel e \<noteq> channel then Some (False, m)
                             else Some (True, upd_entry i (\<lambda>e. e\<lparr>te_timestamp := now + duration\<rparr>) m)
                        else do { pos \<leftarrow> find_ordered_channel m channel;
                                  taken \<leftarrow> (if pos < length (tm_ordered_channels m)
                                           then map_option (\<lambda>other. te_channel other = channel)
                                                  (deref (tm_map m) (tm_ordered_channels m) pos)
                                           else Some False);
                                  if taken then Some (False, m)
                                  else do { arr \<leftarrow> insert_at (map_size m) pos i (tm_ordered_channels m);
                                            let m1 = (if te_type e \<noteq> TURN_ENTRY_TYPE_CHANNEL
                                                      then upd_entry i (\<lambda>e. e\<lparr>te_type := TURN_ENTRY_TYPE_CHANNEL, te_record := r\<rparr>) m
                                                      else m);
                                            let m2 = upd_entry i (\<lambda>e. e\<lparr>te_channel := channel, te_timestamp := now + duration\<rparr>)
                                                       (m1\<lparr>tm_ordered_channels := arr\<rparr>);
                                            Some (True, case tid of
                                                          None \<Rightarrow> m2
                                                        | Some t \<Rightarrow> upd_entry i (\<lambda>e. e\<lparr>te_transaction_id := t,
                                                                       te_fresh_transaction_id := True\<rparr>) m2) } } })"

definition turn_find_channel :: "turn_map \<Rightarrow> u16 \<Rightarrow> addr_record option option" where
  "turn_find_channel m channel =
     (if \<not> is_valid_channel channel then Some None
      else do { pos \<leftarrow> find_ordered_channel m channel;
                if pos = length (tm_ordered_channels m) then Some None
                else do { entry \<leftarrow> deref (tm_map m) (tm_ordered_channels m) pos;
                          Some (if te_channel entry \<noteq> channel then None else Some (te_record entry)) } })"

definition turn_find_bound_channel :: "int \<Rightarrow> turn_map \<Rightarrow> u16 \<Rightarrow> addr_record option option" where
  "turn_find_bound_channel now m channel =
     (if \<not> is_valid_channel channel then Some None
      else do { pos \<leftarrow> find_ordered_channel m channel;
                if pos = length (tm_ordered_channels m) then Some None
                else do { entry \<leftarrow> deref (tm_map m) (tm_ordered_channels m) pos;
                          Some (if te_channel entry \<noteq> channel \<or> now \<ge> te_timestamp entry then None
                                else Some (te_record entry)) } })"

text \<open>The loops that draw until a number is unused take the list of draws; \<open>Some None\<close> says that the loop is
  still running when the list ends.\<close>

fun draw_channel :: "turn_map \<Rightarrow> u16 list \<Rightarrow> u16 option option" where
  "draw_channel m [] = Some None"
| "draw_channel m (r # rs) =
     do { found \<leftarrow> turn_find_channel m (random_channel_number r);
          if found \<noteq> None then draw_channel m rs else Some (Some (random_channel_number r)) }"

definition turn_bind_random_channel ::
  "int \<Rightarrow> turn_map \<Rightarrow> addr_record option \<Rightarrow> int \<Rightarrow> u16 list \<Rightarrow> (u16 option \<times> turn_map) option option" where
  "turn_bind_random_channel now m record duration rs =
     do { c \<leftarrow> draw_channel m rs;
          case c of
            None \<Rightarrow> Some None
          | Some c \<Rightarrow> do { (ok, m') \<leftarrow> turn_bind_channel now m record None c duration;
                           Some (Some (if ok then Some c else None, m')) } }"

definition turn_bind_current_channel ::
  "int \<Rightarrow> turn_map \<Rightarrow> bytes \<Rightarrow> addr_record option \<Rightarrow> int \<Rightarrow> (bool \<times> turn_map) option" where
  "turn_bind_current_channel now m tid record duration =
     update_timestamp now m TURN_ENTRY_TYPE_CHANNEL tid record duration"

definition turn_get_channel :: "turn_map \<Rightarrow> addr_record \<Rightarrow> u16 option option" where
  "turn_get_channel m record =
     do { ent \<leftarrow> find_entry m record TURN_ENTRY_TYPE_CHANNEL False;
          Some (case ent of
                  None \<Rightarrow> None
                | Some i \<Rightarrow> if te_type (tm_map m ! i) \<noteq> TURN_ENTRY_TYPE_CHANNEL then None
                             else Some (te_channel (tm_map m ! i))) }"

definition turn_get_bound_channel :: "int \<Rightarrow> turn_map \<Rightarrow> addr_record \<Rightarrow> u16 option option" where
  "turn_get_bound_channel now m record =
     do { ent \<leftarrow> find_entry m record TURN_ENTRY_TYPE_CHANNEL False;
          Some (case ent of
                  None \<Rightarrow> None
                | Some i \<Rightarrow> if te_type (tm_map m ! i) \<noteq> TURN_ENTRY_TYPE_CHANNEL then None
                             else if te_channel (tm_map m ! i) = 0 \<or> now \<ge> te_timestamp (tm_map m ! i) then None
                             else Some (te_channel (tm_map m ! i))) }"

subsection \<open>Transaction ids\<close>

definition set_transaction_id :: "turn_map \<Rightarrow> turn_entry_type \<Rightarrow> addr_record \<Rightarrow> bytes \<Rightarrow> (bool \<times> turn_map) option" where
  "set_transaction_id m type record tid =
     (if type \<noteq> TURN_ENTRY_TYPE_PERMISSION \<and> type \<noteq> TURN_ENTRY_TYPE_CHANNEL then Some (False, m)
      else do { ent \<leftarrow> find_entry m record type True;
                case ent of
                  None \<Rightarrow> Some (False, m)
                | Some i \<Rightarrow>
                    do { let e = tm_map m ! i;
                         m1 \<leftarrow> (if te_type e = type \<and> \<not> memory_is_zero (te_transaction_id e)
                                then remove_ordered_transaction_id m (te_transaction_id e) else Some m);
                         pos \<leftarrow> find_ordered_transaction_id m1 tid;
                         arr \<leftarrow> insert_at (map_size m1) pos i (tm_ordered_transaction_ids m1);
                         let m2 = m1\<lparr>tm_ordered_transaction_ids := arr\<rparr>;
                         let m3 = (if te_type e \<noteq> type
                                   then upd_entry i (\<lambda>e. e\<lparr>te_type := type, te_record := record\<rparr>) m2 else m2);
                         Some (True, upd_entry i (\<lambda>e. e\<lparr>te_transaction_id := tid, te_fresh_transaction_id := True\<rparr>) m3) } })"

definition find_transaction_id :: "turn_map \<Rightarrow> bytes \<Rightarrow> addr_record option option" where
  "find_transaction_id m tid =
     do { pos \<leftarrow> find_ordered_transaction_id m tid;
          if pos = length (tm_ordered_transaction_ids m) then Some None
          else do { entry \<leftarrow> deref (tm_map m) (tm_ordered_transaction_ids m) pos;
                    Some (if memcmp (te_transaction_id entry) tid \<noteq> 0 then None else Some (te_record entry)) } }"

fun draw_transaction_id :: "turn_map \<Rightarrow> bytes list \<Rightarrow> bytes option option" where
  "draw_transaction_id m [] = Some None"
| "draw_transaction_id m (tid # tids) =
     do { found \<leftarrow> find_transaction_id m tid;
          if found \<noteq> None then draw_transaction_id m tids else Some (Some tid) }"

definition set_drawn_id ::
  "turn_map \<Rightarrow> turn_entry_type \<Rightarrow> addr_record \<Rightarrow> bytes list \<Rightarrow> (bytes option \<times> turn_map) option option" where
  "set_drawn_id m type record tids =
     do { tid \<leftarrow> draw_transaction_id m tids;
          case tid of
            None \<Rightarrow> Some None
          | Some t \<Rightarrow> do { (ok, m') \<leftarrow> set_transaction_id m type record t;
                           Some (Some (if ok then Some t else None, m')) } }"

definition set_random_transaction_id ::
  "turn_map \<Rightarrow> turn_entry_type \<Rightarrow> addr_record \<Rightarrow> bytes list \<Rightarrow> (bytes option \<times> turn_map) option option" where
  "set_random_transaction_id m type record tids =
     do { ent \<leftarrow> find_entry m record type False;
          case ent of
            Some i \<Rightarrow> if te_fresh_transaction_id (tm_map m ! i)
                       then Some (Some (Some (te_transaction_id (tm_map m ! i)), m))
                       else set_drawn_id m type record tids
          | None \<Rightarrow> set_drawn_id m type record tids }"

definition turn_set_permission_transaction_id :: "turn_map \<Rightarrow> addr_record \<Rightarrow> bytes \<Rightarrow> (bool \<times> turn_map) option" where
  "turn_set_permission_transaction_id m record tid = set_transaction_id m TURN_ENTRY_TYPE_PERMISSION record tid"

definition turn_set_channel_transaction_id :: "turn_map \<Rightarrow> addr_record \<Rightarrow> bytes \<Rightarrow> (bool \<times> turn_map) option" where
  "turn_set_channel_transaction_id m record tid = set_transaction_id m TURN_ENTRY_TYPE_CHANNEL record tid"

definition turn_set_random_permission_transaction_id ::
  "turn_map \<Rightarrow> addr_record \<Rightarrow> bytes list \<Rightarrow> (bytes option \<times> turn_map) option option" where
  "turn_set_random_permission_transaction_id m record tids =
     set_random_transaction_id m TURN_ENTRY_TYPE_PERMISSION record tids"

definition turn_set_random_channel_transaction_id ::
  "turn_map \<Rightarrow> addr_record \<Rightarrow> bytes list \<Rightarrow> (bytes option \<times> turn_map) option option" where
  "turn_set_random_channel_transaction_id m record tids =
     set_random_transaction_id m TURN_ENTRY_TYPE_CHANNEL record tids"

definition turn_retrieve_transaction_id :: "turn_map \<Rightarrow> bytes \<Rightarrow> (addr_record option \<times> turn_map) option" where
  "turn_retrieve_transaction_id m tid =
     do { pos \<leftarrow> find_ordered_transaction_id m tid;
          if pos = length (tm_ordered_transaction_ids m) then Some (None, m)
          else do { entry \<leftarrow> deref (tm_map m) (tm_ordered_transaction_ids m) pos;
                    if memcmp (te_transaction_id entry) tid \<noteq> 0 then Some (None, m)
                    else Some (Some (te_record entry),
                               upd_entry (tm_ordered_transaction_ids m ! pos)
                                 (\<lambda>e. e\<lparr>te_fresh_transaction_id := False\<rparr>) m) } }"

end
