(* ===== verification/Turn_Props.thy ===== *)
theory Turn_Props
  imports Turn
begin

text \<open>
  Correctness of the TURN state map: binary search on the ordered arrays (once, in a locale that both
  search functions interpret), probing of the hash table, the invariant that ties the three structures
  together, and what the operations promise to the agent and to the server.
\<close>

subsection \<open>Ordered arrays of pointers\<close>

definition ordered_by :: "('k \<Rightarrow> 'k \<Rightarrow> int) \<Rightarrow> ('k \<Rightarrow> bool) \<Rightarrow> (nat \<Rightarrow> 'k) \<Rightarrow> nat \<Rightarrow> nat list \<Rightarrow> bool" where
  "ordered_by cmp ok key n arr \<longleftrightarrow>
     (\<forall>i\<in>set arr. i < n \<and> ok (key i)) \<and> sorted_wrt (\<lambda>i j. cmp (key i) (key j) < 0) arr"

text \<open>Two searches in the code have this contract: \<open>cmp\<close> orders the keys, \<open>search\<close> halves an interval.\<close>

locale ordered_array =
  fixes cmp :: "'k \<Rightarrow> 'k \<Rightarrow> int"
    and ok :: "'k \<Rightarrow> bool"
    and key :: "nat \<Rightarrow> 'k"
    and n :: nat
    and search :: "nat list \<Rightarrow> 'k \<Rightarrow> nat \<Rightarrow> nat \<Rightarrow> nat option"
  assumes cmp_zero: "ok x \<Longrightarrow> ok y \<Longrightarrow> cmp x y = 0 \<longleftrightarrow> x = y"
    and cmp_neg: "cmp x y < 0 \<longleftrightarrow> cmp y x > 0"
    and cmp_trans: "cmp x y < 0 \<Longrightarrow> cmp y z < 0 \<Longrightarrow> ok x \<Longrightarrow> ok y \<Longrightarrow> ok z \<Longrightarrow> cmp x z < 0"
    and search_step: "search arr k b e =
      (if e \<le> b then Some b
       else if b + (e - b) div 2 < length arr \<and> arr ! (b + (e - b) div 2) < n
       then if cmp k (key (arr ! (b + (e - b) div 2))) < 0 then search arr k b (b + (e - b) div 2)
            else if cmp k (key (arr ! (b + (e - b) div 2))) > 0 then search arr k (b + (e - b) div 2 + 1) e
            else Some (b + (e - b) div 2)
       else None)"
begin

lemma ordered_nth:
  assumes "ordered_by cmp ok key n arr" "i < j" "j < length arr"
  shows "cmp (key (arr ! i)) (key (arr ! j)) < 0"
  using assms by (auto simp: ordered_by_def sorted_wrt_iff_nth_less)

lemma cmp_less_trans:
  assumes "ordered_by cmp ok key n arr" "ok k"
  shows "i < j \<Longrightarrow> j < length arr \<Longrightarrow> cmp (key (arr ! j)) k \<le> 0 \<Longrightarrow> cmp (key (arr ! i)) k < 0"
    and "i < j \<Longrightarrow> j < length arr \<Longrightarrow> cmp k (key (arr ! i)) \<le> 0 \<Longrightarrow> cmp k (key (arr ! j)) < 0"
proof -
  have ok: "l < length arr \<Longrightarrow> ok (key (arr ! l))" for l using assms(1) by (auto simp: ordered_by_def)
  show "i < j \<Longrightarrow> j < length arr \<Longrightarrow> cmp (key (arr ! j)) k \<le> 0 \<Longrightarrow> cmp (key (arr ! i)) k < 0"
    using ordered_nth [OF assms(1), of i j] cmp_trans [of "key (arr ! i)" "key (arr ! j)" k]
      cmp_zero [of "key (arr ! j)" k] ok assms(2) by force
  show "i < j \<Longrightarrow> j < length arr \<Longrightarrow> cmp k (key (arr ! i)) \<le> 0 \<Longrightarrow> cmp k (key (arr ! j)) < 0"
    using ordered_nth [OF assms(1), of i j] cmp_trans [of k "key (arr ! i)" "key (arr ! j)"]
      cmp_zero [of k "key (arr ! i)"] ok assms(2) by force
qed

lemma search_interval:
  assumes "ordered_by cmp ok key n arr" "ok k" "b \<le> e" "e \<le> length arr"
    and "\<And>j. j < b \<Longrightarrow> cmp (key (arr ! j)) k < 0"
    and "\<And>j. e \<le> j \<Longrightarrow> j < length arr \<Longrightarrow> cmp k (key (arr ! j)) < 0"
  shows "\<exists>p. search arr k b e = Some p \<and> p \<le> length arr \<and> (\<forall>j<p. cmp (key (arr ! j)) k < 0)
    \<and> (\<forall>j. p < j \<and> j < length arr \<longrightarrow> cmp k (key (arr ! j)) < 0) \<and> (p < length arr \<longrightarrow> cmp k (key (arr ! p)) \<le> 0)"
  using assms(3-6)
proof (induction "e - b" arbitrary: b e rule: less_induct)
  case less
  show ?case
  proof (cases "e \<le> b")
    case True
    then have "b = e" using less.prems(1) by simp
    then have "search arr k b e = Some b" by (subst search_step) simp
    moreover have "cmp k (key (arr ! b)) \<le> 0" if "b < length arr" using less.prems(4) [of b] that \<open>b = e\<close> by simp
    ultimately show ?thesis using less.prems \<open>b = e\<close> by (intro exI [of _ b]) auto
  next
    case False
    define p where "p = b + (e - b) div 2"
    have p: "b \<le> p" "p < e" "p < length arr" using False less.prems(2) by (auto simp: p_def)
    then have pn: "arr ! p < n" using assms(1) by (auto simp: ordered_by_def)
    consider "cmp k (key (arr ! p)) < 0" | "cmp k (key (arr ! p)) > 0" | "cmp k (key (arr ! p)) = 0" by linarith
    then show ?thesis
    proof cases
      case 1
      then have "search arr k b e = search arr k b p" using False p pn by (subst search_step) (simp add: p_def [symmetric])
      moreover have "cmp k (key (arr ! j)) < 0" if "p \<le> j" "j < length arr" for j
        using cmp_less_trans(2) [OF assms(1,2), of p j] 1 that by (cases "j = p") auto
      ultimately show ?thesis using less.hyps [of p b] p less.prems by auto
    next
      case 2
      then have "search arr k b e = search arr k (p + 1) e"
        using False p pn by (subst search_step) (simp add: p_def [symmetric])
      moreover have "cmp (key (arr ! j)) k < 0" if "j < p + 1" for j
        using cmp_less_trans(1) [OF assms(1,2), of j p] 2 that p cmp_neg [of "key (arr ! p)" k]
        by (cases "j = p") auto
      ultimately show ?thesis using less.hyps [of e "p + 1"] p less.prems by auto
    next
      case 3
      have z: "cmp (key (arr ! p)) k \<le> 0" using 3 cmp_neg [of k "key (arr ! p)"] by simp
      have "search arr k b e = Some p" using False p pn 3 by (subst search_step) (simp add: p_def [symmetric])
      then show ?thesis using cmp_less_trans [OF assms(1,2)] p(3) 3 z by (intro exI [of _ p]) auto
    qed
  qed
qed

lemma search_total:
  assumes "ordered_by cmp ok key n arr" "ok k"
  obtains p where "search arr k 0 (length arr) = Some p" "p \<le> length arr"
    "\<And>j. j < p \<Longrightarrow> cmp (key (arr ! j)) k < 0" "\<And>j. p < j \<Longrightarrow> j < length arr \<Longrightarrow> cmp k (key (arr ! j)) < 0"
    "p < length arr \<Longrightarrow> cmp k (key (arr ! p)) \<le> 0"
  using search_interval [OF assms, of 0 "length arr"] by auto

text \<open>A pointer is found under its own key, at its place.\<close>

lemma search_hit:
  assumes "ordered_by cmp ok key n arr" "i \<in> set arr"
  shows "\<exists>p<length arr. search arr (key i) 0 (length arr) = Some p \<and> arr ! p = i"
proof -
  obtain j where j: "j < length arr" "arr ! j = i" using assms(2) by (auto simp: in_set_conv_nth)
  have ok: "ok (key i)" using assms by (auto simp: ordered_by_def)
  then have zero: "cmp (key i) (key i) = 0" using cmp_zero by blast
  from search_total [OF assms(1) ok] obtain p where p: "search arr (key i) 0 (length arr) = Some p"
    "\<And>l. l < p \<Longrightarrow> cmp (key (arr ! l)) (key i) < 0"
    "\<And>l. p < l \<Longrightarrow> l < length arr \<Longrightarrow> cmp (key i) (key (arr ! l)) < 0" by metis
  have "p = j" using p(2) [of j] p(3) [of j] j zero by (metis less_irrefl linorder_neqE_nat)
  then show ?thesis using p(1) j by blast
qed

lemma search_member:
  assumes "ordered_by cmp ok key n arr" "search arr k 0 (length arr) = Some p" "p < length arr"
  shows "arr ! p \<in> set arr \<and> arr ! p < n \<and> ok (key (arr ! p))"
  using assms by (auto simp: ordered_by_def)

lemma search_position:
  assumes "ordered_by cmp ok key n arr" "ok k"
  obtains p where "search arr k 0 (length arr) = Some p" "p \<le> length arr" "p < length arr \<Longrightarrow> arr ! p < n"
    "(p < length arr \<and> key (arr ! p) = k) \<longleftrightarrow> (\<exists>i\<in>set arr. key i = k)"
proof -
  from search_total [OF assms] obtain p where p: "search arr k 0 (length arr) = Some p" "p \<le> length arr" by metis
  have "p < length arr \<and> key (arr ! p) = k" if "i \<in> set arr" "key i = k" for i
    using search_hit [OF assms(1) that(1)] that(2) p(1) by auto
  then show thesis using that p search_member [OF assms(1) p(1)] nth_mem by metis
qed

text \<open>Inserting a pointer at the position found for a key that no pointer has.\<close>

lemma ordered_insert:
  assumes "ordered_by cmp ok key n arr" "ok k" "search arr k 0 (length arr) = Some p" "i < n" "i \<notin> set arr"
    and new: "\<And>j. j \<in> set arr \<Longrightarrow> key j \<noteq> k" and key': "\<And>j. j \<in> set arr \<Longrightarrow> key' j = key j" "key' i = k"
  shows "p \<le> length arr \<and> ordered_by cmp ok key' n (take p arr @ i # drop p arr)"
proof -
  from search_total [OF assms(1,2)] assms(3) have p: "p \<le> length arr"
    "\<And>j. j < p \<Longrightarrow> cmp (key (arr ! j)) k < 0" "\<And>j. p < j \<Longrightarrow> j < length arr \<Longrightarrow> cmp k (key (arr ! j)) < 0"
    "p < length arr \<Longrightarrow> cmp k (key (arr ! p)) \<le> 0" by (metis option.inject)+
  have strict: "cmp k (key (arr ! p)) < 0" if "p < length arr"
    using p(4) [OF that] new [of "arr ! p"] that cmp_zero [OF assms(2), of "key (arr ! p)"] assms(1)
    by (force simp: ordered_by_def)
  have lo: "cmp (key j) k < 0" if "j \<in> set (take p arr)" for j
    using that p(1,2) by (auto simp: in_set_conv_nth)
  have hi: "cmp k (key j) < 0" if "j \<in> set (drop p arr)" for j
  proof -
    from that obtain l where l: "l < length arr - p" "j = arr ! (p + l)" by (auto simp: in_set_conv_nth)
    then show ?thesis using p(3) [of "p + l"] strict by (cases l) auto
  qed
  have sub: "set (take p arr) \<subseteq> set arr" "set (drop p arr) \<subseteq> set arr" by (simp_all add: set_take_subset set_drop_subset)
  have keys: "j \<in> set (take p arr) \<Longrightarrow> key' j = key j" "j \<in> set (drop p arr) \<Longrightarrow> key' j = key j" for j
    using key'(1) sub by blast+
  have sorted: "sorted_wrt (\<lambda>i j. cmp (key i) (key j) < 0) (take p arr @ drop p arr)"
    using assms(1) by (simp add: ordered_by_def)
  have "\<forall>j\<in>set arr. j < n \<and> ok (key j)" using assms(1) by (simp add: ordered_by_def)
  then have "\<forall>j\<in>set (take p arr @ i # drop p arr). j < n \<and> ok (key' j)"
    using sub keys key' assms(2,4) by auto
  moreover have "sorted_wrt (\<lambda>i j. cmp (key' i) (key' j) < 0) (take p arr @ i # drop p arr)"
    using sorted lo hi keys key'(2) unfolding sorted_wrt_append
    by (auto simp: sorted_wrt_append intro: sorted_wrt_mono_rel [rotated])
  ultimately show ?thesis using p(1) by (simp add: ordered_by_def)
qed

lemma ordered_remove: "ordered_by cmp ok key n arr \<Longrightarrow> ordered_by cmp ok key n (take p arr @ drop (p + 1) arr)"
proof -
  assume a: "ordered_by cmp ok key n arr"
  then have "sorted_wrt (\<lambda>i j. cmp (key i) (key j) < 0) (take p arr @ drop p arr)" by (simp add: ordered_by_def)
  moreover have "set (drop (p + 1) arr) \<subseteq> set (drop p arr)" by (simp add: set_drop_subset_set_drop)
  ultimately have "sorted_wrt (\<lambda>i j. cmp (key i) (key j) < 0) (take p arr @ drop (p + 1) arr)"
    unfolding sorted_wrt_append by (auto intro: sorted_wrt_drop [of _ "drop p arr" 1, simplified])
  moreover have "set (take p arr @ drop (p + 1) arr) \<subseteq> set arr"
    by (auto dest: in_set_takeD in_set_dropD)
  ultimately show ?thesis using a unfolding ordered_by_def by blast
qed

lemma ordered_cong:
  "(\<And>j. j \<in> set arr \<Longrightarrow> key' j = key j) \<Longrightarrow> ordered_by cmp ok key n arr \<Longrightarrow> ordered_by cmp ok key' n arr"
  by (auto simp: ordered_by_def intro: sorted_wrt_mono_rel [rotated])

lemma ordered_distinct: "ordered_by cmp ok key n arr \<Longrightarrow> distinct arr"
proof -
  assume a: "ordered_by cmp ok key n arr"
  have "arr ! i \<noteq> arr ! j" if "i < j" "j < length arr" for i j
  proof
    assume "arr ! i = arr ! j"
    then have "cmp (key (arr ! j)) (key (arr ! j)) < 0" using ordered_nth [OF a that] by simp
    then show False using cmp_neg [of "key (arr ! j)" "key (arr ! j)"] by simp
  qed
  then show ?thesis unfolding distinct_conv_nth by (metis linorder_neqE_nat)
qed

text \<open>Distinct pointers below \<open>n\<close>: one more fits while some pointer is missing.\<close>

lemma ordered_room: "ordered_by cmp ok key n arr \<Longrightarrow> i < n \<Longrightarrow> i \<notin> set arr \<Longrightarrow> length arr < n"
proof -
  assume a: "ordered_by cmp ok key n arr" "i < n" "i \<notin> set arr"
  have "set arr \<subset> {..<n}" using a by (auto simp: ordered_by_def)
  then have "card (set arr) < card {..<n}" by (intro psubset_card_mono) auto
  then show ?thesis using distinct_card [OF ordered_distinct [OF a(1)]] by simp
qed

end

definition cmp_channel :: "u16 \<Rightarrow> u16 \<Rightarrow> int" where
  "cmp_channel a b = (if a < b then -1 else if b < a then 1 else 0)"

interpretation channels: ordered_array cmp_channel "\<lambda>_. True" "\<lambda>i. te_channel (es ! i)" "length es"
  "find_ordered_channel_rec es" for es
proof
  fix arr channel b e
  show "find_ordered_channel_rec es arr channel b e =
      (if e \<le> b then Some b
       else if b + (e - b) div 2 < length arr \<and> arr ! (b + (e - b) div 2) < length es
       then if cmp_channel channel (te_channel (es ! (arr ! (b + (e - b) div 2)))) < 0
            then find_ordered_channel_rec es arr channel b (b + (e - b) div 2)
            else if cmp_channel channel (te_channel (es ! (arr ! (b + (e - b) div 2)))) > 0
            then find_ordered_channel_rec es arr channel (b + (e - b) div 2 + 1) e
            else Some (b + (e - b) div 2)
       else None)"
    by (subst find_ordered_channel_rec.simps) (auto simp: deref_def cmp_channel_def Let_def)
qed (auto simp: cmp_channel_def split: if_splits)

definition tid_ok :: "bytes \<Rightarrow> bool" where
  "tid_ok t \<longleftrightarrow> length t = 12"

lemma memcmp_zero: "length a = length b \<Longrightarrow> memcmp a b = 0 \<longleftrightarrow> a = b"
  by (induction a b rule: list_induct2) auto

lemma memcmp_self [simp]: "memcmp a a = 0"
  by (simp add: memcmp_zero)

lemma memcmp_neg: "memcmp a b < 0 \<longleftrightarrow> memcmp b a > 0"
  by (induction a b rule: memcmp.induct) auto

lemma memcmp_trans:
  "length a = length b \<Longrightarrow> length b = length c \<Longrightarrow> memcmp a b < 0 \<Longrightarrow> memcmp b c < 0 \<Longrightarrow> memcmp a c < 0"
  by (induction a b c rule: list_induct3) (auto split: if_splits)

interpretation tids: ordered_array memcmp tid_ok "\<lambda>i. te_transaction_id (es ! i)" "length es"
  "find_ordered_transaction_id_rec es" for es
proof
  fix arr tid b e
  show "find_ordered_transaction_id_rec es arr tid b e =
      (if e \<le> b then Some b
       else if b + (e - b) div 2 < length arr \<and> arr ! (b + (e - b) div 2) < length es
       then if memcmp tid (te_transaction_id (es ! (arr ! (b + (e - b) div 2)))) < 0
            then find_ordered_transaction_id_rec es arr tid b (b + (e - b) div 2)
            else if memcmp tid (te_transaction_id (es ! (arr ! (b + (e - b) div 2)))) > 0
            then find_ordered_transaction_id_rec es arr tid (b + (e - b) div 2 + 1) e
            else Some (b + (e - b) div 2)
       else None)"
    by (subst find_ordered_transaction_id_rec.simps) (auto simp: deref_def Let_def)
qed (simp add: tid_ok_def memcmp_zero, rule memcmp_neg, metis memcmp_trans tid_ok_def)

subsection \<open>Probing\<close>

text \<open>\<open>probe\<close>: the \<open>i\<close>th slot after \<open>key\<close> is the first one at which the loop stops.\<close>

definition probe :: "'a list \<Rightarrow> ('a \<Rightarrow> bool) \<Rightarrow> nat \<Rightarrow> nat \<Rightarrow> bool" where
  "probe es stops key i \<longleftrightarrow> i < length es \<and> stops (es ! ((key + i) mod length es))
     \<and> (\<forall>j<i. \<not> stops (es ! ((key + j) mod length es)))"

lemma probe_next:
  assumes "key < (n::nat)" "j < n"
  shows "(((key + j) mod n + 1) mod n = key) = (j = n - 1)" "((key + j) mod n + 1) mod n = (key + Suc j) mod n"
proof -
  show e: "((key + j) mod n + 1) mod n = (key + Suc j) mod n" by (simp add: mod_Suc_eq)
  have "(key + Suc j) mod n = key \<longleftrightarrow> j = n - 1"
  proof (cases "key + Suc j < n")
    case False
    then have "(key + Suc j) mod n = key + Suc j - n" using assms by (simp add: mod_if)
    then show ?thesis using False assms by auto
  qed (use assms in auto)
  then show "(((key + j) mod n + 1) mod n = key) = (j = n - 1)" using e by simp
qed

lemma find_entry_loop_from:
  assumes "key < length es" "j < length es" "\<And>i. i < j \<Longrightarrow> \<not> stops (es ! ((key + i) mod length es))"
  shows "(\<exists>i. probe es stops key i \<and> find_entry_loop es stops key ((key + j) mod length es) = Some (Some ((key + i) mod length es)))
    \<or> (find_entry_loop es stops key ((key + j) mod length es) = Some None
       \<and> (\<forall>i<length es. \<not> stops (es ! ((key + i) mod length es))))"
  using assms(2,3)
proof (induction "length es - j" arbitrary: j rule: less_induct)
  case less
  let ?n = "length es"
  have lt: "(key + j) mod ?n < ?n" using assms(1) by (intro mod_less_divisor) linarith
  show ?case
  proof (cases "stops (es ! ((key + j) mod ?n))")
    case True
    then have "find_entry_loop es stops key ((key + j) mod ?n) = Some (Some ((key + j) mod ?n))"
      using lt assms(1) by (subst find_entry_loop.simps) simp
    moreover have "probe es stops key j" using True less.prems by (simp add: probe_def)
    ultimately show ?thesis by blast
  next
    case False
    show ?thesis
    proof (cases "j = ?n - 1")
      case True
      then have "find_entry_loop es stops key ((key + j) mod ?n) = Some None"
        using False lt assms(1) probe_next [OF assms(1) less.prems(1)] by (subst find_entry_loop.simps) (simp add: Let_def)
      moreover have "\<not> stops (es ! ((key + i) mod ?n))" if "i < ?n" for i
        using that less.prems(2) False True by (cases "i = j") auto
      ultimately show ?thesis by blast
    next
      case neq: False
      then have "find_entry_loop es stops key ((key + j) mod ?n) = find_entry_loop es stops key ((key + Suc j) mod ?n)"
        using False lt assms(1) probe_next [OF assms(1) less.prems(1)] by (subst find_entry_loop.simps) (simp add: Let_def)
      moreover have "Suc j < ?n" using neq less.prems(1) by simp
      moreover have "\<not> stops (es ! ((key + i) mod ?n))" if "i < Suc j" for i
        using that less.prems(2) False by (cases "i = j") auto
      ultimately show ?thesis using less.hyps [of "Suc j"] less.prems(1) by auto
    qed
  qed
qed

lemma probe_unique: "probe es stops key i \<Longrightarrow> probe es stops key j \<Longrightarrow> i = j"
  unfolding probe_def by (metis linorder_neqE_nat)

lemma hash_slot_less [simp]: "n \<noteq> 0 \<Longrightarrow> hash_slot n r t < n"
  by (simp add: hash_slot_def)

lemma find_entry_cases:
  assumes "map_size m \<noteq> 0"
  obtains (found) i where "probe (tm_map m) (entry_stops r t a) (hash_slot (map_size m) r t) i"
      "find_entry m r t a = Some (Some ((hash_slot (map_size m) r t + i) mod map_size m))"
    | (full) "find_entry m r t a = Some None" "\<And>e. e \<in> set (tm_map m) \<Longrightarrow> \<not> entry_stops r t a e"
proof -
  let ?k = "hash_slot (map_size m) r t" and ?n = "map_size m"
  have k: "?k < length (tm_map m)" using assms by (simp add: map_size_def flip: map_size_def)
  have n: "0 < length (tm_map m)" using k by linarith
  have all: "\<exists>i<?n. (?k + i) mod ?n = l" if "l < ?n" for l
  proof (cases "?k \<le> l")
    case True
    then show ?thesis using that by (intro exI [of _ "l - ?k"]) auto
  next
    case False
    have "?k + (?n - ?k + l) = ?n + l" using k by (simp add: map_size_def)
    then have "(?k + (?n - ?k + l)) mod ?n = l" using that by simp
    then show ?thesis using that False k by (intro exI [of _ "?n - ?k + l"]) (auto simp: map_size_def)
  qed
  have "(\<exists>i. probe (tm_map m) (entry_stops r t a) ?k i \<and>
        find_entry_loop (tm_map m) (entry_stops r t a) ?k ((?k + 0) mod length (tm_map m)) = Some (Some ((?k + i) mod length (tm_map m))))
    \<or> find_entry_loop (tm_map m) (entry_stops r t a) ?k ((?k + 0) mod length (tm_map m)) = Some None
       \<and> (\<forall>i<length (tm_map m). \<not> entry_stops r t a (tm_map m ! ((?k + i) mod length (tm_map m))))"
    by (rule find_entry_loop_from [OF k n]) simp
  then show thesis
  proof (elim disjE exE conjE)
    fix i
    assume "probe (tm_map m) (entry_stops r t a) ?k i"
      "find_entry_loop (tm_map m) (entry_stops r t a) ?k ((?k + 0) mod length (tm_map m)) = Some (Some ((?k + i) mod length (tm_map m)))"
    then show thesis using found assms k by (simp add: find_entry_def Let_def map_size_def)
  next
    assume f: "find_entry_loop (tm_map m) (entry_stops r t a) ?k ((?k + 0) mod length (tm_map m)) = Some None"
      "\<forall>i<length (tm_map m). \<not> entry_stops r t a (tm_map m ! ((?k + i) mod length (tm_map m)))"
    have "\<not> entry_stops r t a e" if "e \<in> set (tm_map m)" for e
      using that all f(2) unfolding in_set_conv_nth map_size_def by metis
    then show thesis using full assms k f by (simp add: find_entry_def Let_def map_size_def)
  qed
qed

subsection \<open>The table invariant\<close>

definition used :: "turn_entry_type \<Rightarrow> bool" where
  "used t \<longleftrightarrow> t = TURN_ENTRY_TYPE_PERMISSION \<or> t = TURN_ENTRY_TYPE_CHANNEL"

definition entry_ok :: "turn_entry \<Rightarrow> bool" where
  "entry_ok e \<longleftrightarrow> te_type e \<noteq> TURN_ENTRY_TYPE_DELETED \<and> length (te_transaction_id e) = 12
     \<and> (te_type e = TURN_ENTRY_TYPE_EMPTY \<longrightarrow> te_channel e = 0 \<and> memory_is_zero (te_transaction_id e) \<and> \<not> te_fresh_transaction_id e)
     \<and> (used (te_type e) \<longrightarrow> inet_family (ar_addr (te_record e)))"

definition table_ok :: "turn_map \<Rightarrow> bool" where
  "table_ok m \<longleftrightarrow> map_size m \<noteq> 0 \<and> (\<forall>e\<in>set (tm_map m). entry_ok e)
     \<and> (\<forall>i<map_size m. used (te_type (tm_map m ! i))
          \<longrightarrow> find_entry m (te_record (tm_map m ! i)) (te_type (tm_map m ! i)) True = Some (Some i))"

lemma find_entry_loop_cong:
  assumes "length es' = length es" "\<And>i. i < length es \<Longrightarrow> stops' (es' ! i) = stops (es ! i)"
  shows "find_entry_loop es' stops' key pos = find_entry_loop es stops key pos"
  using assms
proof (induction es stops key pos rule: find_entry_loop.induct)
  case (1 es stops key pos)
  show ?case
    unfolding find_entry_loop.simps [of es' stops' key pos] find_entry_loop.simps [of es stops key pos]
    using 1 by (auto simp: Let_def)
qed

lemma find_entry_cong:
  assumes "map_size m' = map_size m" "hash_slot (map_size m) r' t = hash_slot (map_size m) r t"
    and "\<And>i. i < map_size m \<Longrightarrow> entry_stops r' t a' (tm_map m' ! i) = entry_stops r t a (tm_map m ! i)"
  shows "find_entry m' r' t a' = find_entry m r t a"
  using find_entry_loop_cong [of "tm_map m'" "tm_map m" "entry_stops r' t a'" "entry_stops r t a"] assms
  by (simp add: find_entry_def map_size_def Let_def)

lemma entry_stops_no_deleted: "entry_ok e \<Longrightarrow> entry_stops r t a e = entry_stops r t b e"
  by (auto simp: entry_stops_def entry_ok_def)

lemma find_entry_allow: "table_ok m \<Longrightarrow> find_entry m r t a = find_entry m r t True"
  by (intro find_entry_cong entry_stops_no_deleted) (auto simp: table_ok_def map_size_def)

lemma find_entry_equal:
  assumes "addr_record_is_equal r r' False"
  shows "find_entry m r' t a = find_entry m r t a"
proof (rule find_entry_cong)
  show "hash_slot (map_size m) r' t = hash_slot (map_size m) r t"
    using record_key.eq_hash [OF assms] by (simp add: hash_slot_def)
  show "entry_stops r' t a (tm_map m ! i) = entry_stops r t a (tm_map m ! i)" for i
    using record_key.eq_trans [of "te_record (tm_map m ! i)" r False r'] record_key.eq_sym [OF assms]
      record_key.eq_trans [of "te_record (tm_map m ! i)" r' False r] assms by (auto simp: entry_stops_def)
qed simp

text \<open>A lookup ends at the entry of the key, or at a free slot, or finds the table full.\<close>

lemma find_entry_at:
  assumes "table_ok m" "find_entry m r t a = Some (Some i)"
  shows "i < map_size m \<and> (te_type (tm_map m ! i) = TURN_ENTRY_TYPE_EMPTY
    \<or> te_type (tm_map m ! i) = t \<and> addr_record_is_equal (te_record (tm_map m ! i)) r False)"
proof -
  have n: "map_size m \<noteq> 0" using assms(1) by (simp add: table_ok_def)
  from n show ?thesis
  proof (cases rule: find_entry_cases [where r = r and t = t and a = a])
    case (found j)
    then have i: "i = (hash_slot (map_size m) r t + j) mod map_size m" "entry_stops r t a (tm_map m ! i)"
      using assms(2) by (auto simp: probe_def map_size_def)
    have lt: "i < map_size m" using i(1) n by simp
    then have "entry_ok (tm_map m ! i)" using assms(1) by (simp add: table_ok_def map_size_def)
    then show ?thesis using lt i(2) by (auto simp: entry_stops_def entry_ok_def)
  qed (use assms(2) in simp)
qed

lemma find_entry_total: "table_ok m \<Longrightarrow> \<exists>x. find_entry m r t a = Some x"
  using find_entry_cases [of m thesis] by (metis table_ok_def find_entry_cases)

lemma find_entry_lookup:
  assumes "table_ok m" "i < map_size m" "te_type (tm_map m ! i) = t" "used t"
    and "addr_record_is_equal (te_record (tm_map m ! i)) r False"
  shows "find_entry m r t a = Some (Some i)"
  using assms find_entry_equal [OF assms(5), of m t a] find_entry_allow [OF assms(1), of _ t a]
  unfolding table_ok_def by auto

lemma find_entry_used:
  assumes "table_ok m" "find_entry m r t a = Some (Some i)" "te_type (tm_map m ! i) \<noteq> TURN_ENTRY_TYPE_EMPTY"
  shows "te_type (tm_map m ! i) = t \<and> addr_record_is_equal (te_record (tm_map m ! i)) r False"
  using find_entry_at [OF assms(1,2)] assms(3) by simp

text \<open>Writing the slot of a lookup keeps every other entry where it is found.\<close>

lemma find_entry_write:
  assumes "table_ok m" "find_entry m r t True = Some (Some i)" "used t" "inet_family (ar_addr r)"
    and m': "tm_map m' = (tm_map m)[i := e']" "te_type e' = t"
    and rec: "addr_record_is_equal (te_record e') r False"
    and rec': "te_type (tm_map m ! i) = t \<longrightarrow> te_record e' = te_record (tm_map m ! i)"
  shows "find_entry m' r t True = Some (Some i)"
    and "\<And>j. j < map_size m \<Longrightarrow> j \<noteq> i \<Longrightarrow> used (te_type (tm_map m ! j))
      \<Longrightarrow> find_entry m' (te_record (tm_map m ! j)) (te_type (tm_map m ! j)) True = Some (Some j)"
proof -
  have n: "map_size m \<noteq> 0" "map_size m' = map_size m" using assms(1) m' by (simp_all add: table_ok_def map_size_def)
  have i: "i < map_size m" using find_entry_at [OF assms(1,2)] by simp
  have path: "find_entry m' q u True = Some (Some l)"
    if f: "find_entry m q u True = Some (Some l)" and hit: "entry_stops q u True (tm_map m' ! l)"
      and pass: "l \<noteq> i \<Longrightarrow> \<not> entry_stops q u True (tm_map m ! i) \<Longrightarrow> \<not> entry_stops q u True e'" for q u l
  proof -
    let ?k = "hash_slot (map_size m) q u"
    from n(1) obtain j where j: "probe (tm_map m) (entry_stops q u True) ?k j" "l = (?k + j) mod map_size m"
      by (cases rule: find_entry_cases [where r = q and t = u and a = True]) (use f in auto)
    have other: "\<not> entry_stops q u True (tm_map m' ! ((?k + j') mod map_size m))" if "j' < j" for j'
    proof -
      have ns: "\<not> entry_stops q u True (tm_map m ! ((?k + j') mod map_size m))"
        using j(1) that by (simp add: probe_def map_size_def)
      have ln: "(?k + j') mod map_size m \<noteq> l"
        using ns j unfolding probe_def map_size_def by metis
      show ?thesis
      proof (cases "(?k + j') mod map_size m = i")
        case True
        then show ?thesis using ns ln pass i by (simp add: m'(1) map_size_def)
      qed (use ns in \<open>simp add: m'(1)\<close>)
    qed
    have p': "probe (tm_map m') (entry_stops q u True) ?k j"
      using j hit other n(2) by (simp add: probe_def map_size_def)
    have "map_size m' \<noteq> 0" using n by simp
    then show ?thesis
    proof (cases rule: find_entry_cases [where r = q and t = u and a = True])
      case (found j')
      then have "j' = j" using p' n(2) probe_unique by metis
      then show ?thesis using found j n(2) by simp
    next
      case full
      have "tm_map m' ! l \<in> set (tm_map m')" using j(2) n by (simp add: map_size_def)
      then show ?thesis using full hit by blast
    qed
  qed
  show "find_entry m' r t True = Some (Some i)"
    using path [OF assms(2)] i m' rec by (simp add: entry_stops_def map_size_def)
  fix j
  assume j: "j < map_size m" "j \<noteq> i" "used (te_type (tm_map m ! j))"
  have "entry_ok (tm_map m ! j)" using j assms(1) by (simp add: table_ok_def map_size_def)
  then have "entry_stops (te_record (tm_map m ! j)) (te_type (tm_map m ! j)) True (tm_map m' ! j)"
    using j m'(1) by (simp add: entry_stops_def entry_ok_def record_key.eq_refl)
  moreover have "\<not> entry_stops q u True e'" if "\<not> entry_stops q u True (tm_map m ! i)" for q u
    using that find_entry_at [OF assms(1,2)] assms(3) m'(2) rec' by (auto simp: entry_stops_def used_def)
  ultimately show "find_entry m' (te_record (tm_map m ! j)) (te_type (tm_map m ! j)) True = Some (Some j)"
    using path [of "te_record (tm_map m ! j)" "te_type (tm_map m ! j)" j] j assms(1) by (auto simp: table_ok_def)
qed

lemma table_ok_write:
  assumes "table_ok m" "find_entry m r t True = Some (Some i)" "used t" "inet_family (ar_addr r)"
    and "tm_map m' = (tm_map m)[i := e']" "te_type e' = t" "length (te_transaction_id e') = 12"
    and "te_record e' = (if te_type (tm_map m ! i) = t then te_record (tm_map m ! i) else r)"
  shows "table_ok m'"
proof -
  have at: "i < map_size m" "te_type (tm_map m ! i) = t \<Longrightarrow> addr_record_is_equal (te_record (tm_map m ! i)) r False"
    using find_entry_at [OF assms(1,2)] assms(3) by (auto simp: used_def)
  have rec: "addr_record_is_equal (te_record e') r False"
    using at assms(4,8) record_key.eq_refl by (cases "te_type (tm_map m ! i) = t") auto
  note w = find_entry_write [OF assms(1-6) rec, OF impI, OF if_P [THEN trans [OF assms(8)]]]
  have "inet_family (ar_addr (te_record e'))"
    using rec by (auto simp: addr_record_is_equal_def addr_is_equal_iff inet_family_def)
  then have "entry_ok e'" using assms(3,6,7) by (auto simp: entry_ok_def used_def)
  then have "\<forall>e\<in>set (tm_map m'). entry_ok e"
    using assms(1,5) set_update_subset_insert [of "tm_map m" i e'] by (auto simp: table_ok_def)
  moreover have "find_entry m' (te_record e') t True = Some (Some i)"
    using w(1) find_entry_equal [OF rec, of m' t True] by simp
  ultimately show ?thesis
    using assms(1,5,6) w(2) at(1) unfolding table_ok_def by (auto simp: map_size_def nth_list_update)
qed

text \<open>Writing a used entry without touching its type and record.\<close>

lemma table_ok_touch:
  assumes "table_ok m" "i < map_size m" "used (te_type (tm_map m ! i))" "tm_map m' = (tm_map m)[i := e']"
    and "te_type e' = te_type (tm_map m ! i)" "te_record e' = te_record (tm_map m ! i)"
    and "length (te_transaction_id e') = 12"
  shows "table_ok m'"
proof (rule table_ok_write [OF assms(1) _ assms(3) _ assms(4,5,7)])
  show "find_entry m (te_record (tm_map m ! i)) (te_type (tm_map m ! i)) True = Some (Some i)"
    using assms(1-3) by (simp add: table_ok_def)
  have "entry_ok (tm_map m ! i)" using assms(1,2) by (simp add: table_ok_def map_size_def)
  then show "inet_family (ar_addr (te_record (tm_map m ! i)))" using assms(3) by (simp add: entry_ok_def)
qed (use assms(6) in simp)

subsection \<open>The map invariant\<close>

definition channels_ok :: "turn_map \<Rightarrow> bool" where
  "channels_ok m \<longleftrightarrow>
     ordered_by cmp_channel (\<lambda>_. True) (\<lambda>i. te_channel (tm_map m ! i)) (map_size m) (tm_ordered_channels m)
     \<and> (\<forall>i<map_size m. i \<in> set (tm_ordered_channels m)
          \<longleftrightarrow> te_type (tm_map m ! i) = TURN_ENTRY_TYPE_CHANNEL \<and> te_channel (tm_map m ! i) \<noteq> 0)
     \<and> (\<forall>i\<in>set (tm_ordered_channels m). is_valid_channel (te_channel (tm_map m ! i)))"

text \<open>In the agent every transaction id in use is in the ordered array; in the server that array is empty.\<close>

definition tids_ok :: "turn_map \<Rightarrow> bool" where
  "tids_ok m \<longleftrightarrow>
     ordered_by memcmp tid_ok (\<lambda>i. te_transaction_id (tm_map m ! i)) (map_size m) (tm_ordered_transaction_ids m)
     \<and> (\<forall>i<map_size m. i \<in> set (tm_ordered_transaction_ids m)
          \<longleftrightarrow> used (te_type (tm_map m ! i)) \<and> \<not> memory_is_zero (te_transaction_id (tm_map m ! i)))"

definition turn_ok :: "turn_map \<Rightarrow> bool" where
  "turn_ok m \<longleftrightarrow> table_ok m \<and> channels_ok m"

lemma valid_channel_nonzero: "is_valid_channel c \<Longrightarrow> c \<noteq> 0"
  by (auto simp: is_valid_channel_def)

lemma channel_position:
  assumes "channels_ok m" "is_valid_channel c"
  obtains p where "find_ordered_channel m c = Some p" "p \<le> length (tm_ordered_channels m)"
    "p < length (tm_ordered_channels m) \<Longrightarrow>
       deref (tm_map m) (tm_ordered_channels m) p = Some (tm_map m ! (tm_ordered_channels m ! p))"
    "(p < length (tm_ordered_channels m) \<and> te_channel (tm_map m ! (tm_ordered_channels m ! p)) = c) \<longleftrightarrow>
       (\<exists>i<map_size m. te_type (tm_map m ! i) = TURN_ENTRY_TYPE_CHANNEL \<and> te_channel (tm_map m ! i) = c)"
proof -
  have o: "ordered_by cmp_channel (\<lambda>_. True) (\<lambda>i. te_channel (tm_map m ! i)) (length (tm_map m)) (tm_ordered_channels m)"
    using assms(1) by (simp add: channels_ok_def map_size_def)
  from channels.search_position [OF o TrueI, of c] obtain p where
    p: "find_ordered_channel m c = Some p" "p \<le> length (tm_ordered_channels m)"
    "p < length (tm_ordered_channels m) \<Longrightarrow> tm_ordered_channels m ! p < length (tm_map m)"
    "(p < length (tm_ordered_channels m) \<and> te_channel (tm_map m ! (tm_ordered_channels m ! p)) = c)
      \<longleftrightarrow> (\<exists>i\<in>set (tm_ordered_channels m). te_channel (tm_map m ! i) = c)"
    unfolding find_ordered_channel_def by metis
  have "(\<exists>i\<in>set (tm_ordered_channels m). te_channel (tm_map m ! i) = c) \<longleftrightarrow>
      (\<exists>i<map_size m. te_type (tm_map m ! i) = TURN_ENTRY_TYPE_CHANNEL \<and> te_channel (tm_map m ! i) = c)"
    using assms o valid_channel_nonzero unfolding channels_ok_def ordered_by_def map_size_def by blast
  with p show thesis using that by (simp add: deref_def)
qed

lemma tid_position:
  assumes "tids_ok m" "length tid = 12"
  obtains p where "find_ordered_transaction_id m tid = Some p" "p \<le> length (tm_ordered_transaction_ids m)"
    "p < length (tm_ordered_transaction_ids m) \<Longrightarrow>
       deref (tm_map m) (tm_ordered_transaction_ids m) p = Some (tm_map m ! (tm_ordered_transaction_ids m ! p))
       \<and> length (te_transaction_id (tm_map m ! (tm_ordered_transaction_ids m ! p))) = 12
       \<and> tm_ordered_transaction_ids m ! p < map_size m
       \<and> used (te_type (tm_map m ! (tm_ordered_transaction_ids m ! p)))"
    "(p < length (tm_ordered_transaction_ids m) \<and> te_transaction_id (tm_map m ! (tm_ordered_transaction_ids m ! p)) = tid)
      \<longleftrightarrow> (\<exists>i\<in>set (tm_ordered_transaction_ids m). te_transaction_id (tm_map m ! i) = tid)"
proof -
  have o: "ordered_by memcmp tid_ok (\<lambda>i. te_transaction_id (tm_map m ! i)) (length (tm_map m)) (tm_ordered_transaction_ids m)"
    using assms(1) by (simp add: tids_ok_def map_size_def)
  have tid: "tid_ok tid" using assms(2) by (simp add: tid_ok_def)
  from tids.search_position [OF o tid] obtain p where
    p: "find_ordered_transaction_id m tid = Some p" "p \<le> length (tm_ordered_transaction_ids m)"
    "p < length (tm_ordered_transaction_ids m) \<Longrightarrow> tm_ordered_transaction_ids m ! p < length (tm_map m)"
    "(p < length (tm_ordered_transaction_ids m) \<and> te_transaction_id (tm_map m ! (tm_ordered_transaction_ids m ! p)) = tid)
      \<longleftrightarrow> (\<exists>i\<in>set (tm_ordered_transaction_ids m). te_transaction_id (tm_map m ! i) = tid)"
    unfolding find_ordered_transaction_id_def by metis
  moreover have "length (te_transaction_id (tm_map m ! (tm_ordered_transaction_ids m ! p))) = 12
      \<and> used (te_type (tm_map m ! (tm_ordered_transaction_ids m ! p)))"
    if "p < length (tm_ordered_transaction_ids m)"
    using that assms(1) p(3) unfolding tids_ok_def ordered_by_def tid_ok_def map_size_def by auto
  ultimately show thesis using that by (simp add: deref_def map_size_def)
qed

text \<open>Lookups of channels, read off the entries.\<close>

lemma find_channel_iff:
  assumes "channels_ok m"
  shows "\<exists>x. turn_find_channel m c = Some x"
    and "turn_find_channel m c = Some (Some r) \<Longrightarrow> is_valid_channel c
      \<and> (\<exists>i<map_size m. te_type (tm_map m ! i) = TURN_ENTRY_TYPE_CHANNEL \<and> te_channel (tm_map m ! i) = c
           \<and> te_record (tm_map m ! i) = r)"
    and "turn_find_channel m c = Some None \<Longrightarrow> is_valid_channel c
      \<Longrightarrow> \<not> (\<exists>i<map_size m. te_type (tm_map m ! i) = TURN_ENTRY_TYPE_CHANNEL \<and> te_channel (tm_map m ! i) = c)"
proof -
  have idx: "p < length (tm_ordered_channels m) \<Longrightarrow> tm_ordered_channels m ! p < map_size m
      \<and> te_type (tm_map m ! (tm_ordered_channels m ! p)) = TURN_ENTRY_TYPE_CHANNEL" for p
    using assms nth_mem [of p "tm_ordered_channels m"] unfolding channels_ok_def ordered_by_def by blast
  show "\<exists>x. turn_find_channel m c = Some x"
    by (cases "is_valid_channel c", rule channel_position [OF assms, of c]) (auto simp: turn_find_channel_def)
  show "is_valid_channel c \<and> (\<exists>i<map_size m. te_type (tm_map m ! i) = TURN_ENTRY_TYPE_CHANNEL
      \<and> te_channel (tm_map m ! i) = c \<and> te_record (tm_map m ! i) = r)" if "turn_find_channel m c = Some (Some r)"
  proof -
    have v: "is_valid_channel c" using that by (auto simp: turn_find_channel_def split: if_splits)
    from channel_position [OF assms v] obtain p where p: "find_ordered_channel m c = Some p"
      "p \<le> length (tm_ordered_channels m)" "p < length (tm_ordered_channels m) \<Longrightarrow>
         deref (tm_map m) (tm_ordered_channels m) p = Some (tm_map m ! (tm_ordered_channels m ! p))" by metis
    then have "p < length (tm_ordered_channels m) \<and> te_channel (tm_map m ! (tm_ordered_channels m ! p)) = c
        \<and> te_record (tm_map m ! (tm_ordered_channels m ! p)) = r"
      using that v by (cases "p = length (tm_ordered_channels m)") (auto simp: turn_find_channel_def split: if_splits)
    then show ?thesis using v idx by blast
  qed
  show "\<not> (\<exists>i<map_size m. te_type (tm_map m ! i) = TURN_ENTRY_TYPE_CHANNEL \<and> te_channel (tm_map m ! i) = c)"
    if "turn_find_channel m c = Some None" "is_valid_channel c"
    by (rule channel_position [OF assms that(2)]) (use that in \<open>auto simp: turn_find_channel_def split: if_splits\<close>)
qed

lemma channel_unique:
  assumes "channels_ok m" "i < map_size m" "j < map_size m" "te_channel (tm_map m ! i) = te_channel (tm_map m ! j)"
    and "te_channel (tm_map m ! j) \<noteq> 0" "te_type (tm_map m ! i) = TURN_ENTRY_TYPE_CHANNEL" "te_type (tm_map m ! j) = TURN_ENTRY_TYPE_CHANNEL"
  shows "i = j"
proof -
  have "ordered_by cmp_channel (\<lambda>_. True) (\<lambda>i. te_channel (tm_map m ! i)) (length (tm_map m)) (tm_ordered_channels m)"
    using assms(1) by (simp add: channels_ok_def map_size_def)
  note hit = channels.search_hit [OF this]
  have "i \<in> set (tm_ordered_channels m)" "j \<in> set (tm_ordered_channels m)"
    using assms unfolding channels_ok_def by metis+
  from hit [OF this(1)] hit [OF this(2)] show ?thesis unfolding assms(4) by auto
qed

end
