(* ===== verification/Turn_Map.thy ===== *)
theory Turn_Map
  imports Turn_Props
begin

text \<open>
  The operations of the TURN state map: each one in normal form under the invariant, preservation of the
  invariant along every run of the agent and of the server, and the contracts that the two rely on.
\<close>

subsection \<open>Writing an entry\<close>

definition assign_entry :: "turn_entry_type \<Rightarrow> addr_record \<Rightarrow> turn_entry \<Rightarrow> turn_entry" where
  "assign_entry t r e = e\<lparr>te_type := t, te_record := (if te_type e = t then te_record e else r)\<rparr>"

lemma assign_entry_simps [simp]:
  "te_type (assign_entry t r e) = t" "te_transaction_id (assign_entry t r e) = te_transaction_id e"
  "te_channel (assign_entry t r e) = te_channel e" "te_timestamp (assign_entry t r e) = te_timestamp e"
  "te_fresh_transaction_id (assign_entry t r e) = te_fresh_transaction_id e"
  "te_record (assign_entry t r e) = (if te_type e = t then te_record e else r)"
  by (simp_all add: assign_entry_def)

lemma assign_entry_cases:
  "te_type e = t \<Longrightarrow> assign_entry t r e = e" "te_type e \<noteq> t \<Longrightarrow> assign_entry t r e = e\<lparr>te_type := t, te_record := r\<rparr>"
  by (simp_all add: assign_entry_def)

lemma set_insert_at: "set (take p xs @ x # drop p xs) = insert x (set xs)"
  by (metis Un_insert_right append_take_drop_id list.simps(15) set_append)

lemma set_remove_at: "distinct xs \<Longrightarrow> p < length xs \<Longrightarrow> set (take p xs @ drop (p + 1) xs) = set xs - {xs ! p}"
proof -
  assume a: "distinct xs" "p < length xs"
  then have "xs = take p xs @ xs ! p # drop (p + 1) xs" by (simp add: id_take_nth_drop)
  then show ?thesis using a(1) by (metis Diff_insert_absorb Un_insert_right distinct.simps(2) distinct_append
        insert_iff list.simps(15) set_append Un_iff disjoint_iff)
qed

lemma map_size_update [simp]: "map_size (upd_entry i f m) = map_size m"
  by (simp add: map_size_def upd_entry_def)

lemma upd_entry_simps [simp]:
  "tm_map (upd_entry i f m) = (tm_map m)[i := f (tm_map m ! i)]"
  "tm_ordered_channels (upd_entry i f m) = tm_ordered_channels m"
  "tm_ordered_transaction_ids (upd_entry i f m) = tm_ordered_transaction_ids m"
  by (simp_all add: upd_entry_def)

lemma channels_ok_keep:
  assumes "channels_ok m" "i < map_size m" "tm_map m' = (tm_map m)[i := e']"
    and "tm_ordered_channels m' = tm_ordered_channels m" "te_channel e' = te_channel (tm_map m ! i)"
    and "te_type e' = te_type (tm_map m ! i) \<or> te_channel (tm_map m ! i) = 0"
  shows "channels_ok m'"
proof -
  have key: "te_channel (tm_map m' ! j) = te_channel (tm_map m ! j)" for j
    using assms by (cases "j = i") (auto simp: map_size_def)
  have n: "map_size m' = map_size m" using assms(3) by (simp add: map_size_def)
  have "te_type (tm_map m' ! j) = te_type (tm_map m ! j) \<or> te_channel (tm_map m ! j) = 0" for j
    using assms by (cases "j = i") (auto simp: map_size_def)
  then have mem: "(te_type (tm_map m' ! j) = TURN_ENTRY_TYPE_CHANNEL \<and> te_channel (tm_map m ! j) \<noteq> 0)
      = (te_type (tm_map m ! j) = TURN_ENTRY_TYPE_CHANNEL \<and> te_channel (tm_map m ! j) \<noteq> 0)" for j by metis
  show ?thesis using assms(1) unfolding channels_ok_def key n assms(4) mem .
qed

lemma tids_ok_keep:
  assumes "tids_ok m" "i < map_size m" "tm_map m' = (tm_map m)[i := e']"
    and "tm_ordered_transaction_ids m' = tm_ordered_transaction_ids m"
    and "te_transaction_id e' = te_transaction_id (tm_map m ! i)"
    and "te_type e' = te_type (tm_map m ! i) \<or> memory_is_zero (te_transaction_id (tm_map m ! i))"
  shows "tids_ok m'"
proof -
  have key: "te_transaction_id (tm_map m' ! j) = te_transaction_id (tm_map m ! j)" for j
    using assms by (cases "j = i") (auto simp: map_size_def)
  have n: "map_size m' = map_size m" using assms(3) by (simp add: map_size_def)
  have "te_type (tm_map m' ! j) = te_type (tm_map m ! j) \<or> memory_is_zero (te_transaction_id (tm_map m ! j))" for j
    using assms by (cases "j = i") (auto simp: map_size_def)
  then have mem: "(used (te_type (tm_map m' ! j)) \<and> \<not> memory_is_zero (te_transaction_id (tm_map m ! j)))
      = (used (te_type (tm_map m ! j)) \<and> \<not> memory_is_zero (te_transaction_id (tm_map m ! j)))" for j by metis
  show ?thesis using assms(1) unfolding tids_ok_def key n assms(4) mem .
qed

text \<open>An entry found for a key either has the key, or is free and then has no channel and no transaction id.\<close>

lemma found_entry:
  assumes "table_ok m" "find_entry m r t a = Some (Some i)" "used t"
  shows "i < map_size m" "length (te_transaction_id (tm_map m ! i)) = 12"
    "te_type (tm_map m ! i) = t \<and> addr_record_is_equal (te_record (tm_map m ! i)) r False
     \<or> te_type (tm_map m ! i) = TURN_ENTRY_TYPE_EMPTY \<and> te_channel (tm_map m ! i) = 0
       \<and> memory_is_zero (te_transaction_id (tm_map m ! i)) \<and> \<not> te_fresh_transaction_id (tm_map m ! i)"
proof -
  note at = find_entry_at [OF assms(1,2)]
  show "i < map_size m" using at by simp
  then have "entry_ok (tm_map m ! i)" using assms(1) by (simp add: table_ok_def map_size_def)
  then show "length (te_transaction_id (tm_map m ! i)) = 12"
    "te_type (tm_map m ! i) = t \<and> addr_record_is_equal (te_record (tm_map m ! i)) r False
     \<or> te_type (tm_map m ! i) = TURN_ENTRY_TYPE_EMPTY \<and> te_channel (tm_map m ! i) = 0
       \<and> memory_is_zero (te_transaction_id (tm_map m ! i)) \<and> \<not> te_fresh_transaction_id (tm_map m ! i)"
    using at by (auto simp: entry_ok_def)
qed

subsection \<open>Time stamps\<close>

text \<open>With a record, in the server: the array of transaction ids is empty and stays so.\<close>

lemma find_tid_empty: "tm_ordered_transaction_ids m = [] \<Longrightarrow> find_ordered_transaction_id m tid = Some 0"
  by (simp add: find_ordered_transaction_id_def find_ordered_transaction_id_rec.simps)

lemma update_timestamp_record:
  assumes "turn_ok m" "tm_ordered_transaction_ids m = []" "used t" "inet_family (ar_addr r)" "length tid = 12"
  shows "update_timestamp now m t tid (Some r) d =
      (case find_entry m r t True of
         None \<Rightarrow> None
       | Some None \<Rightarrow> Some (False, m)
       | Some (Some i) \<Rightarrow>
           if te_type (tm_map m ! i) = t \<and> te_transaction_id (tm_map m ! i) = tid then Some (True, m)
           else Some (True, upd_entry i (\<lambda>e. (assign_entry t r e)\<lparr>te_transaction_id := tid, te_timestamp := now + d,
                                               te_fresh_transaction_id := False\<rparr>) m))"
proof (cases "find_entry m r t True")
  case (Some ent)
  show ?thesis
  proof (cases ent)
    case None
    then show ?thesis using Some by (simp add: update_timestamp_def Let_def)
  next
    case (Some i)
    with \<open>find_entry m r t True = Some ent\<close> have f: "find_entry m r t True = Some (Some i)" by simp
    have ok: "table_ok m" using assms(1) by (simp add: turn_ok_def)
    note fe = found_entry [OF ok f assms(3)]
    have i: "i < length (tm_map m)" using fe(1) by (simp add: map_size_def)
    have z: "memcmp (te_transaction_id (tm_map m ! i)) tid = 0 \<longleftrightarrow> te_transaction_id (tm_map m ! i) = tid"
      using fe(2) assms(5) by (simp add: memcmp_zero)
    define m1 where "m1 = (if te_type (tm_map m ! i) = t then m
        else upd_entry i (\<lambda>e. e\<lparr>te_type := t, te_record := r\<rparr>) m)"
    have m1: "tm_ordered_transaction_ids m1 = []" "tm_map m1 = (tm_map m)[i := assign_entry t r (tm_map m ! i)]"
      "tm_ordered_channels m1 = tm_ordered_channels m"
      using assms(2) i by (auto simp: m1_def assign_entry_cases)
    have eq: "upd_entry i (\<lambda>e. g (assign_entry t r e)) m = upd_entry i g m1" for g
      using m1 i assms(2) by (simp add: upd_entry_def)
    have rm: "remove_ordered_transaction_id m1 old = Some m1" for old
      using m1(1) find_tid_empty [of m1] by (simp add: remove_ordered_transaction_id_def)
    show ?thesis
      unfolding update_timestamp_def Let_def option.case f bind.bind_lunit m1_def [symmetric] z
      by (simp add: rm comp_def eq [of "\<lambda>e. e\<lparr>te_transaction_id := tid, te_timestamp := now + d, te_fresh_transaction_id := False\<rparr>"])
  qed
qed (simp add: update_timestamp_def Let_def)

text \<open>Without a record, in the agent: the entry of the transaction id gets the new time stamp.\<close>

lemma update_timestamp_id:
  assumes "tids_ok m" "length tid = 12"
  shows "update_timestamp now m t tid None d = Some (False, m)
      \<and> \<not> (\<exists>i\<in>set (tm_ordered_transaction_ids m). te_transaction_id (tm_map m ! i) = tid \<and> te_type (tm_map m ! i) = t)
    \<or> (\<exists>i\<in>set (tm_ordered_transaction_ids m). te_transaction_id (tm_map m ! i) = tid \<and> te_type (tm_map m ! i) = t
        \<and> update_timestamp now m t tid None d
          = Some (True, upd_entry i (\<lambda>e. e\<lparr>te_timestamp := now + d, te_fresh_transaction_id := False\<rparr>) m))"
proof -
  let ?arr = "tm_ordered_transaction_ids m"
  obtain p where p: "find_ordered_transaction_id m tid = Some p" "p \<le> length ?arr"
    "p < length ?arr \<Longrightarrow> deref (tm_map m) ?arr p = Some (tm_map m ! (?arr ! p)) \<and> length (te_transaction_id (tm_map m ! (?arr ! p))) = 12"
    "(p < length ?arr \<and> te_transaction_id (tm_map m ! (?arr ! p)) = tid)
      \<longleftrightarrow> (\<exists>i\<in>set ?arr. te_transaction_id (tm_map m ! i) = tid)"
    using tid_position [OF assms] by metis
  have uniq: "i = ?arr ! p" if "i \<in> set ?arr" "te_transaction_id (tm_map m ! i) = tid" for i
  proof -
    have "ordered_by memcmp tid_ok (\<lambda>i. te_transaction_id (tm_map m ! i)) (length (tm_map m)) ?arr"
      using assms(1) by (simp add: tids_ok_def map_size_def)
    from tids.search_hit [OF this that(1)] show ?thesis using that(2) p(1) by (auto simp: find_ordered_transaction_id_def)
  qed
  show ?thesis
  proof (cases "p < length ?arr \<and> te_transaction_id (tm_map m ! (?arr ! p)) = tid")
    case True
    then have u: "update_timestamp now m t tid None d = (if te_type (tm_map m ! (?arr ! p)) \<noteq> t then Some (False, m)
        else Some (True, upd_entry (?arr ! p) (\<lambda>e. e\<lparr>te_timestamp := now + d, te_fresh_transaction_id := False\<rparr>) m))"
      using p by (simp add: update_timestamp_def Let_def)
    show ?thesis
    proof (cases "te_type (tm_map m ! (?arr ! p)) = t")
      case True
      then show ?thesis using u \<open>p < _ \<and> _\<close> nth_mem [of p ?arr] by (intro disjI2 bexI [of _ "?arr ! p"]) auto
    next
      case False
      then show ?thesis using u uniq by auto
    qed
  next
    case False
    then have "update_timestamp now m t tid None d = Some (False, m)"
      using p assms(2) by (cases "p = length ?arr") (auto simp: update_timestamp_def Let_def memcmp_zero)
    then show ?thesis using p(4) False by blast
  qed
qed

subsection \<open>Binding a channel\<close>

definition bound_entry :: "int \<Rightarrow> addr_record \<Rightarrow> bytes option \<Rightarrow> u16 \<Rightarrow> turn_entry \<Rightarrow> turn_entry" where
  "bound_entry stamp r tid c e =
     (let e1 = (assign_entry TURN_ENTRY_TYPE_CHANNEL r e)\<lparr>te_channel := c, te_timestamp := stamp\<rparr>
      in case tid of None \<Rightarrow> e1 | Some t \<Rightarrow> e1\<lparr>te_transaction_id := t, te_fresh_transaction_id := True\<rparr>)"

lemma bound_entry_simps [simp]:
  "te_type (bound_entry stamp r tid c e) = TURN_ENTRY_TYPE_CHANNEL" "te_channel (bound_entry stamp r tid c e) = c"
  "te_timestamp (bound_entry stamp r tid c e) = stamp"
  "te_record (bound_entry stamp r tid c e) = (if te_type e = TURN_ENTRY_TYPE_CHANNEL then te_record e else r)"
  "te_transaction_id (bound_entry stamp r tid c e) = (case tid of None \<Rightarrow> te_transaction_id e | Some t \<Rightarrow> t)"
  by (simp_all add: bound_entry_def Let_def split: option.split)

definition channel_in_use :: "turn_map \<Rightarrow> u16 \<Rightarrow> bool" where
  "channel_in_use m c \<longleftrightarrow>
     (\<exists>i<map_size m. te_type (tm_map m ! i) = TURN_ENTRY_TYPE_CHANNEL \<and> te_channel (tm_map m ! i) = c)"

text \<open>What a successful call does to the map, when the channel is new for the record.\<close>

lemma bind_channel_fresh:
  assumes ok: "turn_ok m" and "inet_family (ar_addr r)" "is_valid_channel c"
    and f: "find_entry m r TURN_ENTRY_TYPE_CHANNEL True = Some (Some i)"
    and fresh: "\<not> (te_type (tm_map m ! i) = TURN_ENTRY_TYPE_CHANNEL \<and> te_channel (tm_map m ! i) \<noteq> 0)"
    and free: "\<not> channel_in_use m c" and tid: "\<forall>t. tid = Some t \<longrightarrow> length t = 12"
  shows "\<exists>m'. turn_bind_channel now m (Some r) tid c d = Some (True, m')
    \<and> tm_map m' = (tm_map m)[i := bound_entry (now + d) r tid c (tm_map m ! i)]
    \<and> tm_ordered_transaction_ids m' = tm_ordered_transaction_ids m \<and> turn_ok m'"
proof -
  let ?arr = "tm_ordered_channels m" and ?e = "tm_map m ! i" and ?T = TURN_ENTRY_TYPE_CHANNEL
  have tab: "table_ok m" and ch: "channels_ok m" using ok by (simp_all add: turn_ok_def)
  have ut: "used ?T" by (simp add: used_def)
  note fe = found_entry [OF tab f ut]
  have i: "i < length (tm_map m)" using fe(1) by (simp add: map_size_def)
  obtain p where p: "find_ordered_channel m c = Some p" "p \<le> length ?arr"
    "p < length ?arr \<Longrightarrow> deref (tm_map m) ?arr p = Some (tm_map m ! (?arr ! p))"
    "\<not> (p < length ?arr \<and> te_channel (tm_map m ! (?arr ! p)) = c)"
    using channel_position [OF ch assms(3)] free unfolding channel_in_use_def by metis
  have ord: "ordered_by cmp_channel (\<lambda>_. True) (\<lambda>j. te_channel (tm_map m ! j)) (length (tm_map m)) ?arr"
    using ch by (simp add: channels_ok_def map_size_def)
  have mem: "j < length (tm_map m) \<Longrightarrow> j \<in> set ?arr \<longleftrightarrow> te_type (tm_map m ! j) = ?T \<and> te_channel (tm_map m ! j) \<noteq> 0" for j
    using ch by (simp add: channels_ok_def map_size_def)
  have notin: "i \<notin> set ?arr" using mem [OF i] fresh by blast
  have room: "length ?arr < map_size m" using channels.ordered_room [OF ord i notin] by (simp add: map_size_def)
  define arr where "arr = take p ?arr @ i # drop p ?arr"
  have ins: "insert_at (map_size m) p i ?arr = Some arr" using room p(2) by (simp add: insert_at_def arr_def)
  define e' where "e' = bound_entry (now + d) r tid c ?e"
  define m' where "m' = m\<lparr>tm_map := (tm_map m)[i := e'], tm_ordered_channels := arr\<rparr>"
  have e': "te_type e' = ?T" "te_channel e' = c" "length (te_transaction_id e') = 12"
    "te_record e' = (if te_type ?e = ?T then te_record ?e else r)"
    using tid fe(2) by (auto simp: e'_def split: option.split)
  have taken: "(if p < length ?arr then map_option (\<lambda>other. te_channel other = c) (deref (tm_map m) ?arr p)
      else Some False) = Some False"
    using p(3,4) by auto
  have call: "turn_bind_channel now m (Some r) tid c d = Some (True, m')"
    using assms(3) f fresh p(1) taken ins i
    by (auto simp: turn_bind_channel_def Let_def e'_def bound_entry_def m'_def upd_entry_def assign_entry_cases
        split: option.split)
  have key': "j \<in> set ?arr \<Longrightarrow> te_channel (tm_map m' ! j) = te_channel (tm_map m ! j)" for j
    using notin by (cases "j = i") (auto simp: m'_def)
  have "te_channel (tm_map m' ! i) = c" using i e' by (simp add: m'_def)
  moreover have "te_channel (tm_map m ! j) \<noteq> c" if "j \<in> set ?arr" for j
    using that mem [of j] ord free unfolding ordered_by_def channel_in_use_def map_size_def by blast
  ultimately have ord': "ordered_by cmp_channel (\<lambda>_. True) (\<lambda>j. te_channel (tm_map m' ! j)) (map_size m') arr"
    using channels.ordered_insert [OF ord TrueI, of c p i "\<lambda>j. te_channel (tm_map m' ! j)"] p(1) i notin key'
    by (simp add: find_ordered_channel_def arr_def m'_def map_size_def)
  have setarr: "set arr = insert i (set ?arr)" by (simp only: arr_def set_insert_at)
  have "j \<in> set arr \<longleftrightarrow> te_type (tm_map m' ! j) = ?T \<and> te_channel (tm_map m' ! j) \<noteq> 0" if "j < map_size m'" for j
    using that mem [of j] e' i valid_channel_nonzero [OF assms(3)] unfolding setarr
    by (cases "j = i") (auto simp: m'_def map_size_def)
  moreover have "is_valid_channel (te_channel (tm_map m' ! j))" if "j \<in> set arr" for j
    using that ch key' assms(3) e' i notin unfolding setarr channels_ok_def by (cases "j = i") (auto simp: m'_def)
  ultimately have "channels_ok m'" using ord' unfolding channels_ok_def by (simp add: m'_def)
  moreover have "table_ok m'"
    by (rule table_ok_write [OF tab f ut assms(2) _ e'(1,3,4)]) (simp add: m'_def)
  ultimately show ?thesis using call by (intro exI [of _ m']) (simp add: turn_ok_def m'_def e'_def)
qed

text \<open>All outcomes of a call.\<close>

lemma bind_channel_cases:
  assumes ok: "turn_ok m" and "inet_family (ar_addr r)" and tid: "\<forall>t. tid = Some t \<longrightarrow> length t = 12"
  obtains (refused) "turn_bind_channel now m (Some r) tid c d = Some (False, m)"
      "is_valid_channel c \<longrightarrow> (case find_entry m r TURN_ENTRY_TYPE_CHANNEL True of
           Some (Some i) \<Rightarrow> if te_type (tm_map m ! i) = TURN_ENTRY_TYPE_CHANNEL \<and> te_channel (tm_map m ! i) \<noteq> 0
                            then te_channel (tm_map m ! i) \<noteq> c else channel_in_use m c
         | _ \<Rightarrow> True)"
  | (refreshed) i where "find_entry m r TURN_ENTRY_TYPE_CHANNEL True = Some (Some i)"
      "te_type (tm_map m ! i) = TURN_ENTRY_TYPE_CHANNEL" "te_channel (tm_map m ! i) = c" "is_valid_channel c"
      "turn_bind_channel now m (Some r) tid c d = Some (True, upd_entry i (\<lambda>e. e\<lparr>te_timestamp := now + d\<rparr>) m)"
  | (bound) i m' where "find_entry m r TURN_ENTRY_TYPE_CHANNEL True = Some (Some i)" "is_valid_channel c"
      "\<not> channel_in_use m c" "\<not> (te_type (tm_map m ! i) = TURN_ENTRY_TYPE_CHANNEL \<and> te_channel (tm_map m ! i) \<noteq> 0)"
      "turn_bind_channel now m (Some r) tid c d = Some (True, m')"
      "tm_map m' = (tm_map m)[i := bound_entry (now + d) r tid c (tm_map m ! i)]"
      "tm_ordered_transaction_ids m' = tm_ordered_transaction_ids m" "turn_ok m'"
proof (cases "is_valid_channel c")
  case True
  have tab: "table_ok m" and ch: "channels_ok m" using ok by (simp_all add: turn_ok_def)
  obtain ent where ent: "find_entry m r TURN_ENTRY_TYPE_CHANNEL True = Some ent" using find_entry_total [OF tab] by blast
  show thesis
  proof (cases ent)
    case None
    then show thesis using refused ent True by (simp add: turn_bind_channel_def)
  next
    case (Some i)
    with ent have f: "find_entry m r TURN_ENTRY_TYPE_CHANNEL True = Some (Some i)" by simp
    show thesis
    proof (cases "te_type (tm_map m ! i) = TURN_ENTRY_TYPE_CHANNEL \<and> te_channel (tm_map m ! i) \<noteq> 0")
      case bnd: True
      show thesis
      proof (cases "te_channel (tm_map m ! i) = c")
        case eq: True
        show thesis by (rule refreshed [OF f]) (use bnd eq True f in \<open>simp_all add: turn_bind_channel_def Let_def\<close>)
      next
        case False
        then show thesis using refused bnd True f by (simp add: turn_bind_channel_def Let_def)
      qed
    next
      case nb: False
      show thesis
      proof (cases "channel_in_use m c")
        case use: True
        obtain p where "find_ordered_channel m c = Some p"
          "p < length (tm_ordered_channels m) \<and> te_channel (tm_map m ! (tm_ordered_channels m ! p)) = c
           \<and> deref (tm_map m) (tm_ordered_channels m) p = Some (tm_map m ! (tm_ordered_channels m ! p))"
          using channel_position [OF ch True] use unfolding channel_in_use_def by metis
        then have "turn_bind_channel now m (Some r) tid c d = Some (False, m)"
          using nb True f by (auto simp: turn_bind_channel_def Let_def)
        then show thesis using refused nb use f by auto
      next
        case False
        from bind_channel_fresh [OF ok assms(2) True f nb False tid] show thesis using bound [OF f True False nb] by blast
      qed
    qed
  qed
qed (use refused in \<open>simp add: turn_bind_channel_def\<close>)

subsection \<open>Transaction ids in the agent\<close>

definition tid_in_use :: "turn_map \<Rightarrow> bytes \<Rightarrow> bool" where
  "tid_in_use m tid \<longleftrightarrow> (\<exists>i\<in>set (tm_ordered_transaction_ids m). te_transaction_id (tm_map m ! i) = tid)"

definition with_tid :: "turn_entry_type \<Rightarrow> addr_record \<Rightarrow> bytes \<Rightarrow> turn_entry \<Rightarrow> turn_entry" where
  "with_tid t r tid e = (assign_entry t r e)\<lparr>te_transaction_id := tid, te_fresh_transaction_id := True\<rparr>"

lemma with_tid_simps [simp]:
  "te_type (with_tid t r tid e) = t" "te_transaction_id (with_tid t r tid e) = tid"
  "te_channel (with_tid t r tid e) = te_channel e" "te_timestamp (with_tid t r tid e) = te_timestamp e"
  "te_fresh_transaction_id (with_tid t r tid e)"
  "te_record (with_tid t r tid e) = (if te_type e = t then te_record e else r)"
  by (simp_all add: with_tid_def)

text \<open>The pointer of an entry that has an id is removed, that of any other is not there.\<close>

lemma drop_old_tid:
  assumes tab: "table_ok m" and tids: "tids_ok m" and f: "find_entry m r t True = Some (Some i)" and "used t"
  shows "\<exists>arr. (if te_type (tm_map m ! i) = t \<and> \<not> memory_is_zero (te_transaction_id (tm_map m ! i))
        then remove_ordered_transaction_id m (te_transaction_id (tm_map m ! i)) else Some m)
      = Some (m\<lparr>tm_ordered_transaction_ids := arr\<rparr>)
    \<and> ordered_by memcmp tid_ok (\<lambda>j. te_transaction_id (tm_map m ! j)) (length (tm_map m)) arr
    \<and> set arr = set (tm_ordered_transaction_ids m) - {i}"
proof -
  let ?arr = "tm_ordered_transaction_ids m" and ?e = "tm_map m ! i"
  note fe = found_entry [OF tab f assms(4)]
  have o: "ordered_by memcmp tid_ok (\<lambda>j. te_transaction_id (tm_map m ! j)) (length (tm_map m)) ?arr"
    using tids by (simp add: tids_ok_def map_size_def)
  have mem: "i \<in> set ?arr \<longleftrightarrow> te_type ?e = t \<and> \<not> memory_is_zero (te_transaction_id ?e)"
    using tids fe(1,3) assms(4) by (auto simp: tids_ok_def used_def)
  show ?thesis
  proof (cases "i \<in> set ?arr")
    case True
    from tids.search_hit [OF o this] obtain p where p: "p < length ?arr" "?arr ! p = i"
      "find_ordered_transaction_id m (te_transaction_id ?e) = Some p"
      by (auto simp: find_ordered_transaction_id_def)
    have "set (remove_at p ?arr) = set ?arr - {i}"
      using set_remove_at [OF tids.ordered_distinct [OF o] p(1)] p(2) by (simp add: remove_at_def)
    then show ?thesis using True mem p tids.ordered_remove [OF o, of p]
      by (intro exI [of _ "remove_at p ?arr"]) (simp add: remove_ordered_transaction_id_def remove_at_def)
  next
    case False
    then have "(if te_type ?e = t \<and> \<not> memory_is_zero (te_transaction_id ?e)
        then remove_ordered_transaction_id m (te_transaction_id ?e) else Some m) = Some m" using mem by auto
    then show ?thesis using False o by (intro exI [of _ ?arr]) simp
  qed
qed

lemma set_transaction_id_ok:
  assumes ok: "turn_ok m" and tids: "tids_ok m" and t: "used t" and r: "inet_family (ar_addr r)"
    and tid: "length tid = 12" "\<not> memory_is_zero tid" "\<not> tid_in_use m tid"
    and f: "find_entry m r t True = Some (Some i)"
  shows "\<exists>m'. set_transaction_id m t r tid = Some (True, m') \<and> tm_map m' = (tm_map m)[i := with_tid t r tid (tm_map m ! i)]
    \<and> tm_ordered_channels m' = tm_ordered_channels m \<and> i \<in> set (tm_ordered_transaction_ids m')
    \<and> turn_ok m' \<and> tids_ok m'"
proof -
  let ?e = "tm_map m ! i" and ?e' = "with_tid t r tid (tm_map m ! i)"
  have tab: "table_ok m" using ok by (simp add: turn_ok_def)
  note fe = found_entry [OF tab f t]
  have i: "i < length (tm_map m)" using fe(1) by (simp add: map_size_def)
  obtain arr where arr: "(if te_type ?e = t \<and> \<not> memory_is_zero (te_transaction_id ?e)
        then remove_ordered_transaction_id m (te_transaction_id ?e) else Some m) = Some (m\<lparr>tm_ordered_transaction_ids := arr\<rparr>)"
    "ordered_by memcmp tid_ok (\<lambda>j. te_transaction_id (tm_map m ! j)) (length (tm_map m)) arr"
    "set arr = set (tm_ordered_transaction_ids m) - {i}"
    using drop_old_tid [OF tab tids f t] by metis
  have tidok: "tid_ok tid" using tid(1) by (simp add: tid_ok_def)
  obtain p where s: "find_ordered_transaction_id_rec (tm_map m) arr tid 0 (length arr) = Some p"
    using tids.search_total [OF arr(2) tidok] by metis
  then have p: "find_ordered_transaction_id (m\<lparr>tm_ordered_transaction_ids := arr\<rparr>) tid = Some p"
    by (simp add: find_ordered_transaction_id_def)
  define m' where "m' = m\<lparr>tm_map := (tm_map m)[i := ?e'], tm_ordered_transaction_ids := take p arr @ i # drop p arr\<rparr>"
  have notin: "i \<notin> set arr" using arr(3) by simp
  have key': "j \<in> set arr \<Longrightarrow> te_transaction_id (tm_map m' ! j) = te_transaction_id (tm_map m ! j)" for j
    using notin by (cases "j = i") (auto simp: m'_def)
  have "te_transaction_id (tm_map m' ! i) = tid" using i by (simp add: m'_def)
  moreover have "te_transaction_id (tm_map m ! j) \<noteq> tid" if "j \<in> set arr" for j
    using that arr(3) tid(3) unfolding tid_in_use_def by blast
  ultimately have ins: "p \<le> length arr \<and> ordered_by memcmp tid_ok (\<lambda>j. te_transaction_id (tm_map m' ! j)) (length (tm_map m)) (take p arr @ i # drop p arr)"
    using tids.ordered_insert [OF arr(2) tidok s i notin, of "\<lambda>j. te_transaction_id (tm_map m' ! j)"] key' by simp
  have room: "length arr < map_size m" using tids.ordered_room [OF arr(2) i notin] by (simp add: map_size_def)
  have call: "set_transaction_id m t r tid = Some (True, m')"
    using t f arr(1) p ins room i
    by (auto simp: set_transaction_id_def Let_def insert_at_def used_def m'_def with_tid_def upd_entry_def map_size_def
        assign_entry_cases)
  have "table_ok m'" by (rule table_ok_write [OF tab f t r, of m' ?e']) (simp_all add: m'_def tid(1))
  moreover have "channels_ok m'"
    by (rule channels_ok_keep [of m i m' ?e']) (use ok fe i in \<open>auto simp: m'_def turn_ok_def map_size_def\<close>)
  moreover have "j \<in> set (take p arr @ i # drop p arr) \<longleftrightarrow>
      used (te_type (tm_map m' ! j)) \<and> \<not> memory_is_zero (te_transaction_id (tm_map m' ! j))" if "j < length (tm_map m)" for j
    using that tids i arr(3) t tid(2) unfolding set_insert_at
    by (cases "j = i") (auto simp: tids_ok_def m'_def map_size_def)
  then have "tids_ok m'" using ins by (simp add: tids_ok_def map_size_def m'_def del: set_append)
  ultimately show ?thesis using call by (intro exI [of _ m']) (simp add: turn_ok_def m'_def set_insert_at del: set_append)
qed

end
