(* ===== verification/Turn_Run.thy ===== *)
theory Turn_Run
  imports Turn_Map
begin

text \<open>
  Runs of the TURN state map.  The agent grants permissions and binds channels by the transaction id of a
  request it sent; the server does so for the record of a request it received.  Both start from
  \<open>turn_init_map\<close>; every state they reach satisfies the invariant of \<open>Turn_Props\<close>, which gives the
  contracts below.
\<close>

subsection \<open>Reachable maps\<close>

definition good_tid :: "bytes \<Rightarrow> bool" where
  "good_tid tid \<longleftrightarrow> length tid = 12 \<and> \<not> memory_is_zero tid"

inductive agent_reach :: "turn_map \<Rightarrow> bool" where
  agent_init: "sz \<noteq> 0 \<Longrightarrow> agent_reach (turn_init_map sz)"
| agent_set_permission: "agent_reach m \<Longrightarrow> length tid = 12 \<Longrightarrow> turn_set_permission now m tid None d = Some (b, m')
    \<Longrightarrow> agent_reach m'"
| agent_bind_current: "agent_reach m \<Longrightarrow> length tid = 12 \<Longrightarrow> turn_bind_current_channel now m tid None d = Some (b, m')
    \<Longrightarrow> agent_reach m'"
| agent_retrieve: "agent_reach m \<Longrightarrow> length tid = 12 \<Longrightarrow> turn_retrieve_transaction_id m tid = Some (x, m')
    \<Longrightarrow> agent_reach m'"
| agent_bind_random: "agent_reach m \<Longrightarrow> inet_family (ar_addr r) \<Longrightarrow>
    turn_bind_random_channel now m (Some r) d rs = Some (Some (x, m')) \<Longrightarrow> agent_reach m'"
| agent_permission_id: "agent_reach m \<Longrightarrow> inet_family (ar_addr r) \<Longrightarrow> list_all good_tid tids \<Longrightarrow>
    turn_set_random_permission_transaction_id m r tids = Some (Some (y, m')) \<Longrightarrow> agent_reach m'"
| agent_channel_id: "agent_reach m \<Longrightarrow> inet_family (ar_addr r) \<Longrightarrow> list_all good_tid tids \<Longrightarrow>
    turn_set_random_channel_transaction_id m r tids = Some (Some (y, m')) \<Longrightarrow> agent_reach m'"

inductive server_reach :: "turn_map \<Rightarrow> bool" where
  server_init: "sz \<noteq> 0 \<Longrightarrow> server_reach (turn_init_map sz)"
| server_set_permission: "server_reach m \<Longrightarrow> inet_family (ar_addr r) \<Longrightarrow> length tid = 12 \<Longrightarrow>
    turn_set_permission now m tid (Some r) d = Some (b, m') \<Longrightarrow> server_reach m'"
| server_bind_channel: "server_reach m \<Longrightarrow> inet_family (ar_addr r) \<Longrightarrow> length tid = 12 \<Longrightarrow>
    turn_bind_channel now m (Some r) (Some tid) c d = Some (b, m') \<Longrightarrow> server_reach m'"

lemma init_ok: "sz \<noteq> 0 \<Longrightarrow> turn_ok (turn_init_map sz) \<and> tids_ok (turn_init_map sz)"
  by (auto simp: turn_ok_def table_ok_def channels_ok_def tids_ok_def turn_init_map_def map_size_def ordered_by_def
      entry_ok_def zero_entry_def used_def memory_is_zero_def list_all_iff)

lemma used_types [simp]: "used TURN_ENTRY_TYPE_PERMISSION" "used TURN_ENTRY_TYPE_CHANNEL"
  by (simp_all add: used_def)

lemma touch_ok:
  assumes "turn_ok m" "i < map_size m" "used (te_type (tm_map m ! i))"
    and f: "\<And>e. te_type (f e) = te_type e" "\<And>e. te_record (f e) = te_record e"
      "\<And>e. te_transaction_id (f e) = te_transaction_id e" "\<And>e. te_channel (f e) = te_channel e"
  shows "turn_ok (upd_entry i f m)" "tids_ok m \<Longrightarrow> tids_ok (upd_entry i f m)"
proof -
  have "entry_ok (tm_map m ! i)" using assms(1,2) by (simp add: turn_ok_def table_ok_def map_size_def)
  then show "turn_ok (upd_entry i f m)"
    using assms table_ok_touch [of m i "upd_entry i f m" "f (tm_map m ! i)"]
      channels_ok_keep [of m i "upd_entry i f m" "f (tm_map m ! i)"]
    by (simp add: turn_ok_def entry_ok_def)
  show "tids_ok m \<Longrightarrow> tids_ok (upd_entry i f m)"
    using assms tids_ok_keep [of m i "upd_entry i f m" "f (tm_map m ! i)"] by simp
qed

lemma tid_member: "tids_ok m \<Longrightarrow> i \<in> set (tm_ordered_transaction_ids m) \<Longrightarrow> i < map_size m \<and> used (te_type (tm_map m ! i))"
  by (auto simp: tids_ok_def ordered_by_def)

lemma update_timestamp_id_ok:
  assumes "turn_ok m" "tids_ok m" "length tid = 12" "update_timestamp now m t tid None d = Some (b, m')"
  shows "turn_ok m' \<and> tids_ok m'"
  using update_timestamp_id [OF assms(2,3), of now t d]
proof
  assume "\<exists>i\<in>set (tm_ordered_transaction_ids m). te_transaction_id (tm_map m ! i) = tid \<and> te_type (tm_map m ! i) = t
      \<and> update_timestamp now m t tid None d
        = Some (True, upd_entry i (\<lambda>e. e\<lparr>te_timestamp := now + d, te_fresh_transaction_id := False\<rparr>) m)"
  then show ?thesis using tid_member [OF assms(2)] assms touch_ok by auto
qed (use assms in simp)

lemma retrieve_cases:
  assumes "tids_ok m" "length tid = 12"
  shows "turn_retrieve_transaction_id m tid = Some (None, m) \<and> \<not> tid_in_use m tid
    \<or> (\<exists>i\<in>set (tm_ordered_transaction_ids m). te_transaction_id (tm_map m ! i) = tid
        \<and> turn_retrieve_transaction_id m tid
          = Some (Some (te_record (tm_map m ! i)), upd_entry i (\<lambda>e. e\<lparr>te_fresh_transaction_id := False\<rparr>) m))"
  by (rule tid_position [OF assms], cases "tid_in_use m tid")
    (auto simp: turn_retrieve_transaction_id_def tid_in_use_def memcmp_zero assms(2) intro!: bexI [OF _ nth_mem])

lemma find_transaction_id_iff:
  assumes "tids_ok m" "length tid = 12"
  shows "\<exists>x. find_transaction_id m tid = Some x \<and> (x \<noteq> None \<longleftrightarrow> tid_in_use m tid)"
  by (rule tid_position [OF assms], cases "tid_in_use m tid")
    (auto simp: find_transaction_id_def tid_in_use_def memcmp_zero assms(2))

lemma draw_transaction_id_ok:
  assumes "tids_ok m"
  shows "list_all good_tid tids \<Longrightarrow> \<exists>x. draw_transaction_id m tids = Some x
    \<and> (case x of None \<Rightarrow> \<forall>t\<in>set tids. tid_in_use m t | Some t \<Rightarrow> good_tid t \<and> \<not> tid_in_use m t \<and> t \<in> set tids)"
proof (induction tids)
  case (Cons tid tids)
  then have "length tid = 12" by (simp add: good_tid_def)
  from find_transaction_id_iff [OF assms this] obtain x where x: "find_transaction_id m tid = Some x"
    "x \<noteq> None \<longleftrightarrow> tid_in_use m tid" by blast
  from Cons obtain y where y: "draw_transaction_id m tids = Some y"
    "case y of None \<Rightarrow> \<forall>t\<in>set tids. tid_in_use m t | Some t \<Rightarrow> good_tid t \<and> \<not> tid_in_use m t \<and> t \<in> set tids" by auto
  show ?case
  proof (cases x)
    case None
    then show ?thesis using x Cons.prems by simp
  next
    case (Some z)
    then show ?thesis using x y by (cases y) simp_all
  qed
qed simp

lemma random_channel_range: "0x4000 \<le> random_channel_number r \<and> random_channel_number r < 0x5000"
proof -
  have m: "(0x0FFF :: u16) = mask 12" by (simp add: mask_eq_exp_minus_1)
  have "(0x4000 :: u16) AND mask 12 = 0" by (simp add: mask_eq_exp_minus_1)
  then have "0x4000 AND (r AND mask 12) = 0" by (metis and.left_commute and_zero_eq)
  then have "random_channel_number r = 0x4000 + take_bit 12 r"
    unfolding random_channel_number_def m take_bit_eq_mask by (simp add: disjunctive_add_eq_or)
  moreover have "unat (take_bit 12 r) < 2 ^ 12"
    using take_bit_nat_less_exp [of 12 "unat r"] by (simp add: unsigned_take_bit_eq)
  ultimately show ?thesis by (simp add: word_le_nat_alt word_less_nat_alt unat_word_ariths)
qed

lemma random_channel_valid [simp]: "is_valid_channel (random_channel_number r)"
  using random_channel_range by (simp add: is_valid_channel_def)

lemma draw_channel_ok:
  assumes "channels_ok m"
  shows "\<exists>x. draw_channel m rs = Some x \<and> (case x of
      None \<Rightarrow> \<forall>r\<in>set rs. channel_in_use m (random_channel_number r)
    | Some c \<Rightarrow> is_valid_channel c \<and> \<not> channel_in_use m c \<and> c \<in> random_channel_number ` set rs)"
proof (induction rs)
  case (Cons r rs)
  obtain x where x: "turn_find_channel m (random_channel_number r) = Some x" using find_channel_iff(1) [OF assms] by blast
  from Cons obtain y where y: "draw_channel m rs = Some y" "case y of
      None \<Rightarrow> \<forall>r\<in>set rs. channel_in_use m (random_channel_number r)
    | Some c \<Rightarrow> is_valid_channel c \<and> \<not> channel_in_use m c \<and> c \<in> random_channel_number ` set rs" by auto
  show ?case
  proof (cases x)
    case None
    then show ?thesis using x find_channel_iff(3) [OF assms, of "random_channel_number r"]
      by (simp add: channel_in_use_def)
  next
    case (Some z)
    then have "channel_in_use m (random_channel_number r)"
      using x find_channel_iff(2) [OF assms, of "random_channel_number r" z] unfolding channel_in_use_def by blast
    then show ?thesis using Some x y by (cases y) simp_all
  qed
qed simp

subsection \<open>The invariant along runs\<close>

lemma bind_channel_ok:
  assumes "turn_ok m" "inet_family (ar_addr r)" "\<forall>t. tid = Some t \<longrightarrow> length t = 12"
    and "turn_bind_channel now m (Some r) tid c d = Some (b, m')"
  shows "turn_ok m' \<and> tm_ordered_transaction_ids m' = tm_ordered_transaction_ids m
    \<and> (tids_ok m \<and> tid = None \<longrightarrow> tids_ok m')"
  using assms(1-3)
proof (cases rule: bind_channel_cases [where now = now and c = c and d = d])
  case refused
  then show ?thesis using assms(1,4) by simp
next
  case (refreshed i)
  have m': "m' = upd_entry i (\<lambda>e. e\<lparr>te_timestamp := now + d\<rparr>) m" using refreshed(5) assms(4) by simp
  have tab: "table_ok m" using assms(1) by (simp add: turn_ok_def)
  have i: "i < map_size m" using found_entry(1) [OF tab refreshed(1)] by simp
  show ?thesis unfolding m' using touch_ok [OF assms(1) i, of "\<lambda>e. e\<lparr>te_timestamp := now + d\<rparr>"] refreshed(2) by simp
next
  case (bound i m'')
  have m': "m' = m''" using bound(5) assms(4) by simp
  have tab: "table_ok m" using assms(1) by (simp add: turn_ok_def)
  note fe = found_entry [OF tab bound(1) used_types(2)]
  have "tids_ok m'" if "tids_ok m" "tid = None"
    by (rule tids_ok_keep [OF that(1) fe(1) bound(6) [folded m'] bound(7) [folded m']]) (use that(2) fe(3) in auto)
  then show ?thesis using bound m' by blast
qed

lemma set_drawn_id_ok:
  assumes "turn_ok m" "tids_ok m" "used t" "inet_family (ar_addr r)" "list_all good_tid tids"
  shows "\<exists>x. set_drawn_id m t r tids = Some x \<and> (case x of
      None \<Rightarrow> \<forall>tid\<in>set tids. tid_in_use m tid
    | Some (y, m') \<Rightarrow> turn_ok m' \<and> tids_ok m' \<and> (case y of
        None \<Rightarrow> m' = m \<and> find_entry m r t True = Some None
      | Some tid \<Rightarrow> good_tid tid \<and> (\<exists>i. find_entry m r t True = Some (Some i) \<and> i \<in> set (tm_ordered_transaction_ids m')
          \<and> tm_map m' = (tm_map m)[i := with_tid t r tid (tm_map m ! i)] \<and> tm_ordered_channels m' = tm_ordered_channels m)))"
proof -
  obtain x where x: "draw_transaction_id m tids = Some x"
    "case x of None \<Rightarrow> \<forall>t\<in>set tids. tid_in_use m t | Some t \<Rightarrow> good_tid t \<and> \<not> tid_in_use m t \<and> t \<in> set tids"
    using draw_transaction_id_ok [OF assms(2,5)] by blast
  show ?thesis
  proof (cases x)
    case None
    then show ?thesis using x by (simp add: set_drawn_id_def)
  next
    case (Some tid)
    have tid: "good_tid tid" "length tid = 12" "\<not> memory_is_zero tid" "\<not> tid_in_use m tid"
      using x(2) Some by (auto simp: good_tid_def)
    have tab: "table_ok m" using assms(1) by (simp add: turn_ok_def)
    obtain ent where ent: "find_entry m r t True = Some ent" using find_entry_total [OF tab] by blast
    show ?thesis
    proof (cases ent)
      case None
      then have "set_transaction_id m t r tid = Some (False, m)"
        using ent assms(3) by (auto simp: set_transaction_id_def used_def)
      then show ?thesis using x(1) \<open>x = Some tid\<close> None ent assms(1,2) by (simp add: set_drawn_id_def)
    next
      case (Some i)
      then have "find_entry m r t True = Some (Some i)" using ent by simp
      from set_transaction_id_ok [OF assms(1-4) tid(2-4) this] this show ?thesis
        using x(1) \<open>x = Some tid\<close> tid(1) by (auto simp: set_drawn_id_def)
    qed
  qed
qed

lemma set_random_ok:
  assumes "turn_ok m" "tids_ok m" "used t" "inet_family (ar_addr r)" "list_all good_tid tids"
  shows "\<exists>x. set_random_transaction_id m t r tids = Some x \<and> (\<forall>y m'. x = Some (y, m') \<longrightarrow> turn_ok m' \<and> tids_ok m')
    \<and> (x = None \<longrightarrow> (\<forall>tid\<in>set tids. tid_in_use m tid))"
proof -
  have tab: "table_ok m" using assms(1) by (simp add: turn_ok_def)
  obtain ent where ent: "find_entry m r t False = Some ent" using find_entry_total [OF tab] by blast
  obtain x where "set_drawn_id m t r tids = Some x" "\<forall>y m'. x = Some (y, m') \<longrightarrow> turn_ok m' \<and> tids_ok m'"
    "x = None \<longrightarrow> (\<forall>tid\<in>set tids. tid_in_use m tid)"
    using set_drawn_id_ok [OF assms] by (force split: option.splits prod.splits)
  then show ?thesis using ent assms(1,2) by (cases ent) (simp_all add: set_random_transaction_id_def)
qed

lemma bind_random_ok:
  assumes "turn_ok m" "inet_family (ar_addr r)"
  shows "\<exists>x. turn_bind_random_channel now m (Some r) d rs = Some x
    \<and> (\<forall>y m'. x = Some (y, m') \<longrightarrow> turn_ok m' \<and> (tids_ok m \<longrightarrow> tids_ok m'))
    \<and> (x = None \<longleftrightarrow> (\<forall>n\<in>set rs. channel_in_use m (random_channel_number n)))"
proof -
  have ch: "channels_ok m" using assms(1) by (simp add: turn_ok_def)
  have none: "\<forall>t. None = Some t \<longrightarrow> length (t :: bytes) = 12" by simp
  obtain x where x: "draw_channel m rs = Some x" "case x of
      None \<Rightarrow> \<forall>r\<in>set rs. channel_in_use m (random_channel_number r)
    | Some c \<Rightarrow> is_valid_channel c \<and> \<not> channel_in_use m c \<and> c \<in> random_channel_number ` set rs"
    using draw_channel_ok [OF ch] by blast
  show ?thesis
  proof (cases x)
    case (Some c)
    have "\<exists>b m'. turn_bind_channel now m (Some r) None c d = Some (b, m')"
      by (cases rule: bind_channel_cases [OF assms none, of now c d]) auto
    then show ?thesis using x Some bind_channel_ok [OF assms none, of now c d]
      by (auto simp: turn_bind_random_channel_def)
  qed (use x in \<open>simp add: turn_bind_random_channel_def\<close>)
qed

lemma agent_ok: "agent_reach m \<Longrightarrow> turn_ok m \<and> tids_ok m"
proof (induction rule: agent_reach.induct)
  case (agent_init sz)
  then show ?case by (rule init_ok)
next
  case (agent_set_permission m tid now d b m')
  then show ?case unfolding turn_set_permission_def using update_timestamp_id_ok by blast
next
  case (agent_bind_current m tid now d b m')
  then show ?case unfolding turn_bind_current_channel_def using update_timestamp_id_ok by blast
next
  case (agent_retrieve m tid x m')
  then have ok: "turn_ok m" "tids_ok m" by simp_all
  from retrieve_cases [OF ok(2) agent_retrieve(2)] show ?case
  proof
    assume "\<exists>i\<in>set (tm_ordered_transaction_ids m). te_transaction_id (tm_map m ! i) = tid
        \<and> turn_retrieve_transaction_id m tid
          = Some (Some (te_record (tm_map m ! i)), upd_entry i (\<lambda>e. e\<lparr>te_fresh_transaction_id := False\<rparr>) m)"
    then show ?thesis using tid_member [OF ok(2)] agent_retrieve(3) touch_ok [OF ok(1)] ok(2) by auto
  qed (use agent_retrieve(3) ok in simp)
next
  case (agent_bind_random m r now d rs x m')
  then show ?case using bind_random_ok [of m r now d rs] by auto
next
  case (agent_permission_id m r tids y m')
  then show ?case using set_random_ok [of m TURN_ENTRY_TYPE_PERMISSION r tids]
    by (auto simp: turn_set_random_permission_transaction_id_def)
next
  case (agent_channel_id m r tids y m')
  then show ?case using set_random_ok [of m TURN_ENTRY_TYPE_CHANNEL r tids]
    by (auto simp: turn_set_random_channel_transaction_id_def)
qed

lemma server_ok: "server_reach m \<Longrightarrow> turn_ok m \<and> tm_ordered_transaction_ids m = []"
proof (induction rule: server_reach.induct)
  case (server_init sz)
  then show ?case using init_ok by (simp add: turn_init_map_def)
next
  case (server_set_permission m r tid now d b m')
  then have ok: "turn_ok m" "tm_ordered_transaction_ids m = []" "table_ok m" by (simp_all add: turn_ok_def)
  note u = update_timestamp_record [OF ok(1,2) used_types(1) server_set_permission(2,3), of now d]
  show ?case
  proof (cases "m' = m")
    case False
    then obtain i where f: "find_entry m r TURN_ENTRY_TYPE_PERMISSION True = Some (Some i)"
      "m' = upd_entry i (\<lambda>e. (assign_entry TURN_ENTRY_TYPE_PERMISSION r e)\<lparr>te_transaction_id := tid,
         te_timestamp := now + d, te_fresh_transaction_id := False\<rparr>) m"
      using server_set_permission(4) u unfolding turn_set_permission_def by (auto split: option.splits if_splits)
    note fe = found_entry [OF ok(3) f(1) used_types(1)]
    define e' where "e' = (assign_entry TURN_ENTRY_TYPE_PERMISSION r (tm_map m ! i))\<lparr>te_transaction_id := tid,
         te_timestamp := now + d, te_fresh_transaction_id := False\<rparr>"
    have m': "tm_map m' = (tm_map m)[i := e']" using f(2) by (simp add: e'_def)
    have "table_ok m'"
      by (rule table_ok_write [OF ok(3) f(1) used_types(1) server_set_permission(2) m'])
        (simp_all add: e'_def server_set_permission(3))
    moreover have "channels_ok m'"
      by (rule channels_ok_keep [OF _ fe(1) m']) (use ok fe(3) f(2) in \<open>auto simp: turn_ok_def e'_def\<close>)
    ultimately show ?thesis using ok f(2) by (simp add: turn_ok_def)
  qed (use ok in simp)
next
  case (server_bind_channel m r tid now c d b m')
  then show ?case using bind_channel_ok [of m r "Some tid" now c d b m'] by simp
qed

subsection \<open>Memory safety of the agent's map\<close>

text \<open>Fewer slots than numbers to draw from: some number is unused.\<close>

lemma unused_value:
  assumes "inj_on f {..<N}" and "k < N"
  shows "\<exists>n<N. \<forall>i<k. g i \<noteq> f (n :: nat)"
proof (rule ccontr)
  assume "\<not> ?thesis"
  then have "f ` {..<N} \<subseteq> g ` {..<k}" by (auto simp: image_iff) (metis lessThan_iff)
  then have "card (f ` {..<N}) \<le> card (g ` {..<k})" by (intro card_mono) auto
  then show False using card_image [OF assms(1)] card_image_le [of "{..<k}" g] assms(2) by simp
qed

lemma random_channel_inj: "inj_on (\<lambda>n. random_channel_number (of_nat n)) {..<4096}"
proof (rule inj_on_inverseI [where g = "\<lambda>c. unat (c AND 0x0FFF)"])
  fix n :: nat assume "n \<in> {..<4096}"
  then have n: "n < 2 ^ 12" by simp
  have m: "(0x0FFF :: u16) = mask 12" by (simp add: mask_eq_exp_minus_1)
  have "(0x4000 :: u16) AND mask 12 = 0" by (simp add: mask_eq_exp_minus_1)
  then have "random_channel_number (of_nat n) AND 0x0FFF = of_nat n AND mask 12"
    unfolding random_channel_number_def m by (simp add: bit.conj_disj_distrib2 and.assoc)
  also have "\<dots> = take_bit 12 (of_nat n)" by (simp add: take_bit_eq_mask)
  also have "unat \<dots> = n" using n by (simp add: unsigned_take_bit_eq unsigned_of_nat take_bit_nat_eq_self)
  finally show "unat (random_channel_number (of_nat n) AND 0x0FFF) = n" .
qed

lemma unused_channel:
  assumes "map_size m < 4096"
  shows "\<exists>n. \<not> channel_in_use m (random_channel_number n)"
  using unused_value [OF random_channel_inj assms, of "\<lambda>i. te_channel (tm_map m ! i)"] unfolding channel_in_use_def by blast

lemma unused_tid:
  assumes "tids_ok m" "map_size m < 4096"
  shows "\<exists>t. good_tid t \<and> \<not> tid_in_use m t"
proof -
  define f :: "nat \<Rightarrow> bytes" where "f n = net16 (of_nat n) @ replicate 10 7" for n
  have inj: "inj_on f {..<4096}"
  proof (rule inj_on_inverseI [where g = "\<lambda>t. unat (rd16 t)"])
    fix n :: nat assume "n \<in> {..<4096}"
    then show "unat (rd16 (f n)) = n" by (simp add: f_def unsigned_of_nat take_bit_nat_eq_self)
  qed
  obtain n where "\<forall>i<map_size m. te_transaction_id (tm_map m ! i) \<noteq> f n" 
    using unused_value [OF inj assms(2), of "\<lambda>i. te_transaction_id (tm_map m ! i)"] by blast
  then have "\<not> tid_in_use m (f n)" by (auto simp: tid_in_use_def dest: tid_member [OF assms(1)])
  moreover have "good_tid (f n)" by (simp add: good_tid_def f_def memory_is_zero_def list_all_iff)
  ultimately show ?thesis by blast
qed

text \<open>(C14) In every state of the agent's TURN map the invariant holds (hash table, channel array and transaction id
  array agree), and every operation the agent uses is free of memory errors and of endless probes: no pointer outside the
  table, no insertion beyond the arrays.  All operations return, up to the two loops that draw random numbers: the one
  for channels is still running after the draws \<open>rs\<close> exactly if all of them are in use, so that it never ends once all 4096 channel numbers
  of its range are bound; the one for transaction ids only if all its draws are in use.  In a map with fewer than 4096 slots
  (the one of the agent has 40) there always are unused numbers, so that the loops end with the first one drawn.  The
  transaction ids drawn must not be all zero, which the map takes for no id.\<close>

theorem agent_turn_map_safe:
  assumes "agent_reach m" "length tid = 12" "inet_family (ar_addr r)" "list_all good_tid tids"
  shows "turn_ok m \<and> tids_ok m
    \<and> (\<exists>x. turn_set_permission now m tid None d = Some x) \<and> (\<exists>x. turn_bind_current_channel now m tid None d = Some x)
    \<and> (\<exists>x. turn_retrieve_transaction_id m tid = Some x)
    \<and> (\<exists>x. turn_bind_random_channel now m (Some r) d rs = Some x
         \<and> (x = None \<longleftrightarrow> (\<forall>n\<in>set rs. channel_in_use m (random_channel_number n))))
    \<and> (\<exists>x. turn_set_random_permission_transaction_id m r tids = Some x \<and> (x = None \<longrightarrow> (\<forall>t\<in>set tids. tid_in_use m t)))
    \<and> (\<exists>x. turn_set_random_channel_transaction_id m r tids = Some x \<and> (x = None \<longrightarrow> (\<forall>t\<in>set tids. tid_in_use m t)))
    \<and> (map_size m < 4096 \<longrightarrow> (\<exists>n. \<not> channel_in_use m (random_channel_number n)) \<and> (\<exists>t. good_tid t \<and> \<not> tid_in_use m t))
    \<and> (\<exists>x. turn_has_permission now m r = Some x) \<and> (\<exists>x. turn_get_channel m r = Some x)
    \<and> (\<exists>x. turn_get_bound_channel now m r = Some x) \<and> (\<exists>x. turn_find_channel m c = Some x)"
proof -
  have ok: "turn_ok m" "tids_ok m" "table_ok m" "channels_ok m" using agent_ok [OF assms(1)] by (simp_all add: turn_ok_def)
  note find = find_entry_total [OF ok(3)]
  have upd: "\<exists>x. update_timestamp now m t tid None d = Some x" for t
    using update_timestamp_id [OF ok(2) assms(2), of now t d] by auto
  have retrieve: "\<exists>x. turn_retrieve_transaction_id m tid = Some x" using retrieve_cases [OF ok(2) assms(2)] by auto
  have channel: "\<exists>x. turn_bind_random_channel now m (Some r) d rs = Some x
      \<and> (x = None \<longleftrightarrow> (\<forall>n\<in>set rs. channel_in_use m (random_channel_number n)))"
    using bind_random_ok [OF ok(1) assms(3)] by blast
  have tids: "\<exists>x. set_random_transaction_id m t r tids = Some x \<and> (x = None \<longrightarrow> (\<forall>t\<in>set tids. tid_in_use m t))"
    if "used t" for t
    using set_random_ok [OF ok(1,2) that assms(3,4)] by blast
  have lookups: "\<exists>x. turn_has_permission now m r = Some x" "\<exists>x. turn_get_channel m r = Some x"
    "\<exists>x. turn_get_bound_channel now m r = Some x"
    using find [of r TURN_ENTRY_TYPE_PERMISSION False] find [of r TURN_ENTRY_TYPE_CHANNEL False]
    by (auto simp: turn_has_permission_def turn_get_channel_def turn_get_bound_channel_def)
  have unused: "map_size m < 4096 \<longrightarrow> (\<exists>n. \<not> channel_in_use m (random_channel_number n)) \<and> (\<exists>t. good_tid t \<and> \<not> tid_in_use m t)"
    using unused_channel unused_tid [OF ok(2)] by blast
  show ?thesis
    unfolding turn_set_permission_def turn_bind_current_channel_def turn_set_random_permission_transaction_id_def
      turn_set_random_channel_transaction_id_def
    using ok(1,2) upd retrieve channel tids [OF used_types(1)] tids [OF used_types(2)] unused lookups find_channel_iff(1) [OF ok(4)]
    by (intro conjI) (fact | fast)+
qed

text \<open>A peer, for the witnesses.\<close>

definition some_peer :: "u16 \<Rightarrow> addr_record" where
  "some_peer port = \<lparr>ar_addr = Sin port [192, 0, 2, 1], ar_len = 16, ar_socktype = 2\<rparr>"

lemma some_peer_inet [simp]: "inet_family (ar_addr (some_peer p))"
  by (simp add: some_peer_def inet_family_def)

lemma some_tid [simp]: "length (replicate 12 (7 :: byte)) = 12" "good_tid (replicate 12 7)"
  by (simp_all add: good_tid_def memory_is_zero_def list_all_iff)

lemma no_tid_in_init: "\<not> tid_in_use (turn_init_map sz) t"
  by (simp add: tid_in_use_def turn_init_map_def)

text \<open>One draw is enough in an empty map: the transaction id is set, and the channel loop ends.\<close>

theorem agent_turn_map_safe_witness:
  "\<exists>y m' z m''. turn_set_random_permission_transaction_id (turn_init_map 2) (some_peer 80) [replicate 12 7] = Some (Some (y, m'))
     \<and> turn_bind_random_channel 0 (turn_init_map 2) (Some (some_peer 80)) 600 [5] = Some (Some (z, m''))"
proof -
  have "\<not> channel_in_use (turn_init_map 2) (random_channel_number 5)"
    using random_channel_valid [of 5] by (auto simp: channel_in_use_def turn_init_map_def zero_entry_def map_size_def)
  then show ?thesis
    using agent_turn_map_safe [OF agent_init, of 2 "replicate 12 7" "some_peer 80" "[replicate 12 7]" 0 600 "[5]" 0] no_tid_in_init
    by auto
qed

subsection \<open>Permissions\<close>

lemma permission_iff:
  assumes "table_ok m"
  shows "turn_has_permission now m r = Some True \<longleftrightarrow>
    (\<exists>i<map_size m. te_type (tm_map m ! i) = TURN_ENTRY_TYPE_PERMISSION
       \<and> addr_record_is_equal (te_record (tm_map m ! i)) r False \<and> now < te_timestamp (tm_map m ! i))"
proof
  assume "turn_has_permission now m r = Some True"
  then obtain i where i: "find_entry m r TURN_ENTRY_TYPE_PERMISSION False = Some (Some i)"
    "te_type (tm_map m ! i) = TURN_ENTRY_TYPE_PERMISSION" "now < te_timestamp (tm_map m ! i)"
    by (auto simp: turn_has_permission_def bind_eq_Some_conv split: option.splits)
  then show "\<exists>i<map_size m. te_type (tm_map m ! i) = TURN_ENTRY_TYPE_PERMISSION
       \<and> addr_record_is_equal (te_record (tm_map m ! i)) r False \<and> now < te_timestamp (tm_map m ! i)"
    using found_entry [OF assms i(1)] by auto
next
  assume "\<exists>i<map_size m. te_type (tm_map m ! i) = TURN_ENTRY_TYPE_PERMISSION
       \<and> addr_record_is_equal (te_record (tm_map m ! i)) r False \<and> now < te_timestamp (tm_map m ! i)"
  then show "turn_has_permission now m r = Some True"
    using find_entry_lookup [OF assms, of _ TURN_ENTRY_TYPE_PERMISSION r False] by (auto simp: turn_has_permission_def)
qed

lemma permission_cong:
  assumes "table_ok m" "table_ok m'" "map_size m' = map_size m" "i < map_size m"
    and "\<And>j. j \<noteq> i \<Longrightarrow> tm_map m' ! j = tm_map m ! j"
    and "te_type (tm_map m ! i) = TURN_ENTRY_TYPE_PERMISSION \<Longrightarrow> \<not> addr_record_is_equal (te_record (tm_map m ! i)) r False"
    and "te_type (tm_map m' ! i) = TURN_ENTRY_TYPE_PERMISSION \<Longrightarrow> \<not> addr_record_is_equal (te_record (tm_map m' ! i)) r False"
  shows "turn_has_permission now m' r = turn_has_permission now m r"
proof -
  have "turn_has_permission now m' r = Some True \<longleftrightarrow> turn_has_permission now m r = Some True"
    unfolding permission_iff [OF assms(1)] permission_iff [OF assms(2)] assms(3) using assms(5-7) by metis
  moreover have "\<exists>b. turn_has_permission now m r = Some b" "\<exists>b. turn_has_permission now m' r = Some b"
    using find_entry_total [OF assms(1), of r TURN_ENTRY_TYPE_PERMISSION False]
      find_entry_total [OF assms(2), of r TURN_ENTRY_TYPE_PERMISSION False] by (auto simp: turn_has_permission_def)
  ultimately show ?thesis by (metis (full_types))
qed

text \<open>(C16) Permissions in the server: a successful call grants the permission to every peer with the address of the record,
  whatever its port, until exactly the end of the duration, unless the permission of that address was last granted with the same
  transaction id: that is a retransmission, or the same address again in one request, and leaves the map and the time as they
  are.  The other addresses keep what they had, and an unsuccessful call, which means a full table, changes nothing.\<close>

theorem server_permission:
  assumes reach: "server_reach m" and r: "inet_family (ar_addr r)" and tid: "length tid = 12"
    and call: "turn_set_permission now m tid (Some r) d = Some (b, m')"
  shows "(if \<exists>e\<in>set (tm_map m). te_type e = TURN_ENTRY_TYPE_PERMISSION \<and> addr_record_is_equal (te_record e) r False
              \<and> te_transaction_id e = tid
          then b \<and> m' = m
          else b \<longrightarrow> (\<forall>t q. addr_record_is_equal r q False \<longrightarrow> turn_has_permission t m' q = Some (t < now + d)))
    \<and> (\<forall>t q. \<not> addr_record_is_equal r q False \<longrightarrow> turn_has_permission t m' q = turn_has_permission t m q)
    \<and> (\<not> b \<longrightarrow> m' = m \<and> find_entry m r TURN_ENTRY_TYPE_PERMISSION True = Some None)"
proof -
  let ?P = TURN_ENTRY_TYPE_PERMISSION
  have ok: "turn_ok m" "tm_ordered_transaction_ids m = []" "table_ok m" using server_ok [OF reach] by (simp_all add: turn_ok_def)
  have ok': "table_ok m'" using server_ok [OF server_set_permission [OF reach r tid call]] by (simp add: turn_ok_def)
  note u = update_timestamp_record [OF ok(1,2) used_types(1) r tid, of now d]
  obtain ent where ent: "find_entry m r ?P True = Some ent" using find_entry_total [OF ok(3)] by blast
  have own: "ent = Some j" if "j < length (tm_map m)" "te_type (tm_map m ! j) = ?P"
    "addr_record_is_equal (te_record (tm_map m ! j)) r False" for j
    using find_entry_lookup [OF ok(3) _ that(2) used_types(1) that(3)] that(1) ent by (simp add: map_size_def)
  show ?thesis
  proof (cases "\<exists>e\<in>set (tm_map m). te_type e = ?P \<and> addr_record_is_equal (te_record e) r False \<and> te_transaction_id e = tid")
    case True
    then obtain j where j: "j < length (tm_map m)" "te_type (tm_map m ! j) = ?P"
      "addr_record_is_equal (te_record (tm_map m ! j)) r False" "te_transaction_id (tm_map m ! j) = tid"
      by (auto simp: in_set_conv_nth)
    then have "b \<and> m' = m" using u call ent own [OF j(1-3)] by (simp add: turn_set_permission_def)
    then show ?thesis unfolding if_P [OF True] by simp
  next
    case other: False
    show ?thesis
    proof (cases ent)
      case None
      then have "\<not> b \<and> m' = m" using u call ent by (simp add: turn_set_permission_def)
      then show ?thesis using None ent unfolding if_not_P [OF other] by simp
    next
      case (Some i)
      then have f: "find_entry m r ?P True = Some (Some i)" using ent by simp
      note fe = found_entry [OF ok(3) f used_types(1)]
      have i: "i < length (tm_map m)" using fe(1) by (simp add: map_size_def)
      have new: "\<not> (te_type (tm_map m ! i) = ?P \<and> te_transaction_id (tm_map m ! i) = tid)"
        using other fe(3) nth_mem [OF i] by auto
      have m': "b" "m' = upd_entry i (\<lambda>e. (assign_entry ?P r e)\<lparr>te_transaction_id := tid, te_timestamp := now + d,
           te_fresh_transaction_id := False\<rparr>) m"
        using u [unfolded f, simplified if_not_P [OF new] option.case] call by (simp_all add: turn_set_permission_def)
      have e': "te_type (tm_map m' ! i) = ?P" "te_timestamp (tm_map m' ! i) = now + d"
        "addr_record_is_equal (te_record (tm_map m' ! i)) r False"
        using i fe(3) record_key.eq_refl [OF r] by (auto simp: m'(2))
      have "turn_has_permission t m' q = Some (t < now + d)" if q: "addr_record_is_equal r q False" for t q
      proof -
        have "addr_record_is_equal (te_record (tm_map m' ! i)) q False" using e'(3) q by (rule record_key.eq_trans)
        then have "find_entry m' q ?P False = Some (Some i)"
          using find_entry_lookup [OF ok' _ e'(1)] fe(1) by (simp add: m'(2))
        then show ?thesis using e' by (simp add: turn_has_permission_def)
      qed
      moreover have "turn_has_permission t m' q = turn_has_permission t m q" if q: "\<not> addr_record_is_equal r q False" for t q
      proof (rule permission_cong [OF ok(3) ok' _ fe(1)])
        show "te_type (tm_map m ! i) = ?P \<Longrightarrow> \<not> addr_record_is_equal (te_record (tm_map m ! i)) q False"
          using fe(3) q record_key.eq_sym record_key.eq_trans by (metis turn_entry_type.distinct(3))
        show "te_type (tm_map m' ! i) = ?P \<Longrightarrow> \<not> addr_record_is_equal (te_record (tm_map m' ! i)) q False"
          using e'(3) q record_key.eq_sym record_key.eq_trans by metis
      qed (simp_all add: m'(2))
      ultimately show ?thesis using m'(1) unfolding if_not_P [OF other] by blast
    qed
  qed
qed

text \<open>In the initial map the first slot that is probed is free.\<close>

lemma find_entry_init:
  assumes "sz \<noteq> 0"
  shows "find_entry (turn_init_map sz) r t a = Some (Some (hash_slot (sz * 2) r t))"
proof -
  have k: "hash_slot (sz * 2) r t < sz * 2" using assms by simp
  then show ?thesis
    using assms by (simp add: find_entry_def map_size_def turn_init_map_def Let_def find_entry_loop.simps [of _ _ _ "hash_slot (sz * 2) r t"]
        entry_stops_def zero_entry_def)
qed

lemma init_entry: "sz \<noteq> 0 \<Longrightarrow> tm_map (turn_init_map sz) ! hash_slot (sz * 2) r t = zero_entry"
  using hash_slot_less [of "sz * 2" r t] by (simp add: turn_init_map_def)

theorem server_permission_witness:
  "\<exists>m'. turn_set_permission 0 (turn_init_map 2) (replicate 12 7) (Some (some_peer 80)) 300 = Some (True, m')
     \<and> turn_has_permission 299 m' (some_peer 81) = Some True"
proof -
  have reach: "server_reach (turn_init_map 2)" by (rule server_init) simp
  have ok: "turn_ok (turn_init_map 2)" "tm_ordered_transaction_ids (turn_init_map 2) = []"
    using server_ok [OF reach] by simp_all
  obtain m' where c: "turn_set_permission 0 (turn_init_map 2) (replicate 12 7) (Some (some_peer 80)) 300 = Some (True, m')"
    using update_timestamp_record [OF ok used_types(1), of "some_peer 80" "replicate 12 7" 0 300]
      find_entry_init [of 2 "some_peer 80" TURN_ENTRY_TYPE_PERMISSION True]
      init_entry [of 2 "some_peer 80" TURN_ENTRY_TYPE_PERMISSION]
    by (simp add: turn_set_permission_def zero_entry_def)
  have "\<not> (\<exists>e\<in>set (tm_map (turn_init_map 2)). te_type e = TURN_ENTRY_TYPE_PERMISSION
      \<and> addr_record_is_equal (te_record e) (some_peer 80) False \<and> te_transaction_id e = replicate 12 7)"
    by (simp add: turn_init_map_def zero_entry_def)
  note new = this
  from server_permission [OF reach some_peer_inet some_tid(1) c] c show ?thesis
    unfolding if_not_P [OF new] by (simp add: some_peer_def addr_record_is_equal_def)
qed

text \<open>Permissions in the agent: when a CreatePermission request was given a transaction id, the response with that
  id grants the permission to the address of the request, and no other response does.\<close>

theorem agent_permission:
  assumes reach: "agent_reach m" and r: "inet_family (ar_addr r)" and tids: "list_all good_tid tids"
    and stale: "\<forall>i. find_entry m r TURN_ENTRY_TYPE_PERMISSION True = Some (Some i) \<longrightarrow> \<not> te_fresh_transaction_id (tm_map m ! i)"
    and sent: "turn_set_random_permission_transaction_id m r tids = Some (Some (Some tid, m1))"
  shows "(\<exists>m2. turn_set_permission now m1 tid None d = Some (True, m2)
      \<and> (\<forall>t. turn_has_permission t m2 r = Some (t < now + d)))
    \<and> (\<forall>tid'. length tid' = 12 \<and> \<not> tid_in_use m1 tid' \<longrightarrow> turn_set_permission now m1 tid' None d = Some (False, m1))"
proof -
  let ?P = TURN_ENTRY_TYPE_PERMISSION
  have ok: "turn_ok m" "tids_ok m" "table_ok m" using agent_ok [OF reach] by (simp_all add: turn_ok_def)
  have reach1: "agent_reach m1" using agent_permission_id [OF reach r tids sent] .
  have ok1: "turn_ok m1" "tids_ok m1" using agent_ok [OF reach1] by simp_all
  obtain ent where "find_entry m r ?P False = Some ent" "find_entry m r ?P True = Some ent"
    using find_entry_total [OF ok(3)] find_entry_allow [OF ok(3)] by metis
  then have "set_drawn_id m ?P r tids = Some (Some (Some tid, m1))"
    using sent stale by (auto simp: turn_set_random_permission_transaction_id_def set_random_transaction_id_def
        split: option.splits if_splits)
  then obtain i where i: "good_tid tid" "find_entry m r ?P True = Some (Some i)" "i \<in> set (tm_ordered_transaction_ids m1)"
    "tm_map m1 = (tm_map m)[i := with_tid ?P r tid (tm_map m ! i)]"
    using set_drawn_id_ok [OF ok(1,2) used_types(1) r tids] by auto
  note fe = found_entry [OF ok(3) i(2) used_types(1)]
  have il: "i < length (tm_map m)" using fe(1) by (simp add: map_size_def)
  have e1: "te_type (tm_map m1 ! i) = ?P" "te_transaction_id (tm_map m1 ! i) = tid"
    "addr_record_is_equal (te_record (tm_map m1 ! i)) r False"
    using il fe(3) record_key.eq_refl [OF r] by (auto simp: i(4))
  have len: "length tid = 12" using i(1) by (simp add: good_tid_def)
  from update_timestamp_id [OF ok1(2) len, of now ?P d] obtain j where
    j: "j \<in> set (tm_ordered_transaction_ids m1)" "te_transaction_id (tm_map m1 ! j) = tid"
    "update_timestamp now m1 ?P tid None d
      = Some (True, upd_entry j (\<lambda>e. e\<lparr>te_timestamp := now + d, te_fresh_transaction_id := False\<rparr>) m1)"
    using i(3) e1 by blast
  have "ordered_by memcmp tid_ok (\<lambda>i. te_transaction_id (tm_map m1 ! i)) (length (tm_map m1)) (tm_ordered_transaction_ids m1)"
    using ok1(2) by (simp add: tids_ok_def map_size_def)
  from tids.search_hit [OF this i(3)] tids.search_hit [OF this j(1)] have ji: "j = i" using e1(2) j(2) by auto
  define m2 where "m2 = upd_entry i (\<lambda>e. e\<lparr>te_timestamp := now + d, te_fresh_transaction_id := False\<rparr>) m1"
  have c2: "turn_set_permission now m1 tid None d = Some (True, m2)"
    using j(3) ji by (simp add: turn_set_permission_def m2_def)
  have tab2: "table_ok m2" using agent_ok [OF agent_set_permission [OF reach1 len c2]] by (simp add: turn_ok_def)
  have i2: "i < map_size m2" "i < length (tm_map m1)" using il by (simp_all add: m2_def map_size_def i(4))
  then have "find_entry m2 r ?P False = Some (Some i)"
    using find_entry_lookup [OF tab2 i2(1)] e1 by (simp add: m2_def)
  then have "turn_has_permission t m2 r = Some (t < now + d)" for t
    using e1 i2(2) by (simp add: turn_has_permission_def m2_def)
  moreover have "turn_set_permission now m1 tid' None d = Some (False, m1)" if "length tid' = 12" "\<not> tid_in_use m1 tid'" for tid'
    using update_timestamp_id [OF ok1(2) that(1), of now ?P d] that(2) by (auto simp: tid_in_use_def turn_set_permission_def)
  ultimately show ?thesis using c2 by blast
qed

lemma first_permission_id:
  "\<exists>m1. turn_set_random_permission_transaction_id (turn_init_map 2) (some_peer 80) [replicate 12 7]
      = Some (Some (Some (replicate 12 7), m1))"
proof -
  have ok: "turn_ok (turn_init_map 2)" "tids_ok (turn_init_map 2)" using init_ok [of 2] by simp_all
  have arr: "tm_ordered_transaction_ids (turn_init_map 2) = []" by (simp add: turn_init_map_def)
  have free: "\<not> tid_in_use (turn_init_map 2) (replicate 12 7)" by (simp add: tid_in_use_def arr)
  have "find_transaction_id (turn_init_map 2) (replicate 12 7) = Some None"
    using find_tid_empty [OF arr] arr by (simp add: find_transaction_id_def)
  moreover obtain m1 where "set_transaction_id (turn_init_map 2) TURN_ENTRY_TYPE_PERMISSION (some_peer 80) (replicate 12 7) = Some (True, m1)"
    using set_transaction_id_ok [OF ok used_types(1) some_peer_inet some_tid(1) _ free find_entry_init] some_tid(2)
    by (auto simp: good_tid_def)
  ultimately show ?thesis
    using find_entry_init [of 2 "some_peer 80" TURN_ENTRY_TYPE_PERMISSION False] init_entry [of 2 "some_peer 80" TURN_ENTRY_TYPE_PERMISSION]
    by (simp add: turn_set_random_permission_transaction_id_def set_random_transaction_id_def set_drawn_id_def zero_entry_def)
qed

theorem agent_permission_witness:
  "\<exists>m1 m2. turn_set_permission 5 m1 (replicate 12 7) None 300 = Some (True, m2)
     \<and> turn_has_permission 304 m2 (some_peer 80) = Some True"
proof -
  have reach: "agent_reach (turn_init_map 2)" by (rule agent_init) simp
  obtain m1 where "turn_set_random_permission_transaction_id (turn_init_map 2) (some_peer 80) [replicate 12 7]
      = Some (Some (Some (replicate 12 7), m1))" using first_permission_id by blast
  from agent_permission [OF reach some_peer_inet _ _ this, of 5 300] show ?thesis
    using find_entry_init [of 2 "some_peer 80" TURN_ENTRY_TYPE_PERMISSION True] init_entry [of 2 "some_peer 80" TURN_ENTRY_TYPE_PERMISSION]
    by (force simp: zero_entry_def)
qed

subsection \<open>Channels\<close>

lemma get_channel_iff:
  assumes "table_ok m"
  shows "turn_get_channel m r = Some (Some c) \<longleftrightarrow>
    (\<exists>i<map_size m. te_type (tm_map m ! i) = TURN_ENTRY_TYPE_CHANNEL
       \<and> addr_record_is_equal (te_record (tm_map m ! i)) r False \<and> te_channel (tm_map m ! i) = c)"
proof
  assume "turn_get_channel m r = Some (Some c)"
  then obtain i where i: "find_entry m r TURN_ENTRY_TYPE_CHANNEL False = Some (Some i)"
    "te_type (tm_map m ! i) = TURN_ENTRY_TYPE_CHANNEL" "te_channel (tm_map m ! i) = c"
    by (auto simp: turn_get_channel_def bind_eq_Some_conv split: option.splits if_splits)
  then show "\<exists>i<map_size m. te_type (tm_map m ! i) = TURN_ENTRY_TYPE_CHANNEL
       \<and> addr_record_is_equal (te_record (tm_map m ! i)) r False \<and> te_channel (tm_map m ! i) = c"
    using found_entry [OF assms i(1)] by auto
next
  assume "\<exists>i<map_size m. te_type (tm_map m ! i) = TURN_ENTRY_TYPE_CHANNEL
       \<and> addr_record_is_equal (te_record (tm_map m ! i)) r False \<and> te_channel (tm_map m ! i) = c"
  then show "turn_get_channel m r = Some (Some c)"
    using find_entry_lookup [OF assms, of _ TURN_ENTRY_TYPE_CHANNEL r False] by (auto simp: turn_get_channel_def)
qed

text \<open>(C15) Channel numbers and peers are in one-to-one correspondence in every map of the agent and of the server: the
  record found for a channel has that channel, and the channel of a record leads back to a record with
  the same address.\<close>

theorem channel_bijection:
  assumes "agent_reach m \<or> server_reach m" "inet_family (ar_addr r)"
  shows "(turn_find_channel m c = Some (Some r) \<longrightarrow> turn_get_channel m r = Some (Some c))
    \<and> (turn_get_channel m r = Some (Some c) \<and> c \<noteq> 0 \<longrightarrow>
        (\<exists>q. turn_find_channel m c = Some (Some q) \<and> addr_record_is_equal q r False))"
proof -
  have ok: "table_ok m" "channels_ok m" using assms(1) agent_ok server_ok by (auto simp: turn_ok_def)
  have "turn_get_channel m r = Some (Some c)" if "turn_find_channel m c = Some (Some r)"
    using find_channel_iff(2) [OF ok(2) that] get_channel_iff [OF ok(1)] record_key.eq_refl [OF assms(2)] by blast
  moreover have "\<exists>q. turn_find_channel m c = Some (Some q) \<and> addr_record_is_equal q r False"
    if g: "turn_get_channel m r = Some (Some c)" "c \<noteq> 0"
  proof -
    from get_channel_iff [OF ok(1)] g(1) obtain i where i: "i < map_size m" "te_type (tm_map m ! i) = TURN_ENTRY_TYPE_CHANNEL"
      "addr_record_is_equal (te_record (tm_map m ! i)) r False" "te_channel (tm_map m ! i) = c" by blast
    then have "i \<in> set (tm_ordered_channels m)" using ok(2) g(2) by (simp add: channels_ok_def)
    then have v: "is_valid_channel c" using ok(2) i(4) by (auto simp: channels_ok_def)
    obtain x where x: "turn_find_channel m c = Some x" using find_channel_iff(1) [OF ok(2)] by blast
    show ?thesis
    proof (cases x)
      case None
      then show ?thesis using find_channel_iff(3) [OF ok(2) _ v] x i by blast
    next
      case (Some q)
      then obtain k where k: "k < map_size m" "te_type (tm_map m ! k) = TURN_ENTRY_TYPE_CHANNEL"
        "te_channel (tm_map m ! k) = c" "te_record (tm_map m ! k) = q" using find_channel_iff(2) [OF ok(2)] x by blast
      then have "k = i" using channel_unique [OF ok(2), of k i] i g(2) by simp
      then show ?thesis using x Some i(3) k(4) by auto
    qed
  qed
  ultimately show ?thesis by blast
qed

lemma first_channel:
  "\<exists>m'. turn_bind_channel 0 (turn_init_map 2) (Some (some_peer 80)) (Some (replicate 12 7)) 0x4001 300 = Some (True, m')
     \<and> server_reach m' \<and> turn_get_channel m' (some_peer 80) = Some (Some 0x4001)"
proof -
  let ?m = "turn_init_map 2" and ?r = "some_peer 80" and ?i = "hash_slot (2 * 2) (some_peer 80) TURN_ENTRY_TYPE_CHANNEL"
  have reach: "server_reach ?m" by (rule server_init) simp
  have ok: "turn_ok ?m" using init_ok [of 2] by simp
  have two: "(2::nat) \<noteq> 0" by simp
  have i: "?i < map_size ?m" using hash_slot_less [of 4 ?r] by (simp add: turn_init_map_def map_size_def)
  have "te_type (tm_map ?m ! j) = TURN_ENTRY_TYPE_EMPTY" if "j < map_size ?m" for j
    using that by (simp add: turn_init_map_def map_size_def zero_entry_def)
  then have free: "\<not> channel_in_use ?m 0x4001" by (auto simp: channel_in_use_def)
  have valid: "is_valid_channel 0x4001" by (simp add: is_valid_channel_def)
  have empty: "\<not> (te_type (tm_map ?m ! ?i) = TURN_ENTRY_TYPE_CHANNEL \<and> te_channel (tm_map ?m ! ?i) \<noteq> 0)"
    using init_entry [OF two, of ?r] by (simp add: zero_entry_def)
  obtain m' where m': "turn_bind_channel 0 ?m (Some ?r) (Some (replicate 12 7)) 0x4001 300 = Some (True, m')"
    "tm_map m' = (tm_map ?m)[?i := bound_entry (0 + 300) ?r (Some (replicate 12 7)) 0x4001 (tm_map ?m ! ?i)]" "turn_ok m'"
    using bind_channel_fresh [OF ok some_peer_inet valid find_entry_init [OF two] empty free, of "Some (replicate 12 7)" 0 300]
    by auto
  have "te_type (tm_map m' ! ?i) = TURN_ENTRY_TYPE_CHANNEL" "te_record (tm_map m' ! ?i) = ?r" "te_channel (tm_map m' ! ?i) = 0x4001"
    "?i < map_size m'"
    using i init_entry [OF two, of ?r] by (simp_all add: m'(2) map_size_def zero_entry_def)
  then have "turn_get_channel m' ?r = Some (Some 0x4001)"
    using get_channel_iff [of m' ?r] m'(3) record_key.eq_refl [OF some_peer_inet] by (metis turn_ok_def)
  then show ?thesis using m'(1) server_bind_channel [OF reach some_peer_inet some_tid(1) m'(1)] by blast
qed

theorem channel_bijection_witness:
  "\<exists>m q. turn_get_channel m (some_peer 80) = Some (Some 0x4001) \<and> turn_find_channel m 0x4001 = Some (Some q)"
proof -
  obtain m' where m': "server_reach m'" "turn_get_channel m' (some_peer 80) = Some (Some 0x4001)" using first_channel by blast
  from channel_bijection [of m' "some_peer 80" "0x4001"] m' show ?thesis by auto
qed

lemma channel_cong:
  assumes "table_ok m" "table_ok m'" "map_size m' = map_size m"
    and "\<And>j. j \<noteq> i \<Longrightarrow> tm_map m' ! j = tm_map m ! j"
    and "te_type (tm_map m ! i) = TURN_ENTRY_TYPE_CHANNEL \<Longrightarrow> \<not> addr_record_is_equal (te_record (tm_map m ! i)) r False"
    and "te_type (tm_map m' ! i) = TURN_ENTRY_TYPE_CHANNEL \<Longrightarrow> \<not> addr_record_is_equal (te_record (tm_map m' ! i)) r False"
  shows "turn_get_channel m' r = turn_get_channel m r"
proof -
  have "turn_get_channel m' r = Some (Some c) \<longleftrightarrow> turn_get_channel m r = Some (Some c)" for c
    unfolding get_channel_iff [OF assms(1)] get_channel_iff [OF assms(2)] assms(3) using assms(4-6) by metis
  moreover have "\<exists>x. turn_get_channel m r = Some x" "\<exists>x. turn_get_channel m' r = Some x"
    using find_entry_total [OF assms(1), of r TURN_ENTRY_TYPE_CHANNEL False]
      find_entry_total [OF assms(2), of r TURN_ENTRY_TYPE_CHANNEL False] by (auto simp: turn_get_channel_def)
  ultimately show ?thesis by (metis option.exhaust)
qed

lemma bound_slot:
  assumes tab: "table_ok m" "table_ok m'" and n: "map_size m' = map_size m" and r: "inet_family (ar_addr r)"
    and f: "find_entry m r TURN_ENTRY_TYPE_CHANNEL True = Some (Some i)"
    and same: "\<And>j. j \<noteq> i \<Longrightarrow> tm_map m' ! j = tm_map m ! j"
    and e': "te_type (tm_map m' ! i) = TURN_ENTRY_TYPE_CHANNEL" "te_channel (tm_map m' ! i) = c" "c \<noteq> 0"
      "te_timestamp (tm_map m' ! i) = stamp" "addr_record_is_equal (te_record (tm_map m' ! i)) r False"
  shows "addr_record_is_equal r q False \<Longrightarrow> turn_get_bound_channel t m' q = Some (if t < stamp then Some c else None)"
    and "\<not> addr_record_is_equal r q False \<Longrightarrow> turn_get_channel m' q = turn_get_channel m q"
proof -
  note fe = found_entry [OF tab(1) f used_types(2)]
  show "turn_get_bound_channel t m' q = Some (if t < stamp then Some c else None)" if q: "addr_record_is_equal r q False"
  proof -
    have "addr_record_is_equal (te_record (tm_map m' ! i)) q False" using e'(5) q by (rule record_key.eq_trans)
    then have "find_entry m' q TURN_ENTRY_TYPE_CHANNEL False = Some (Some i)"
      using find_entry_lookup [OF tab(2) _ e'(1)] fe(1) n by simp
    then show ?thesis using e' by (simp add: turn_get_bound_channel_def)
  qed
  show "turn_get_channel m' q = turn_get_channel m q" if q: "\<not> addr_record_is_equal r q False"
  proof (rule channel_cong [OF tab n same])
    show "te_type (tm_map m ! i) = TURN_ENTRY_TYPE_CHANNEL \<Longrightarrow> \<not> addr_record_is_equal (te_record (tm_map m ! i)) q False"
      using fe(3) q record_key.eq_sym record_key.eq_trans by (metis turn_entry_type.distinct(5))
    show "te_type (tm_map m' ! i) = TURN_ENTRY_TYPE_CHANNEL \<Longrightarrow> \<not> addr_record_is_equal (te_record (tm_map m' ! i)) q False"
      using e'(5) q record_key.eq_sym record_key.eq_trans by metis
  qed
qed

text \<open>The condition under which a binding is accepted, in terms of the lookups.\<close>

lemma bind_condition:
  assumes "turn_ok m" "is_valid_channel c"
  shows "(turn_get_channel m r = Some (Some c)
      \<or> turn_get_channel m r \<in> {Some None, Some (Some 0)} \<and> turn_find_channel m c = Some None
        \<and> find_entry m r TURN_ENTRY_TYPE_CHANNEL True \<noteq> Some None)
    \<longleftrightarrow> \<not> (case find_entry m r TURN_ENTRY_TYPE_CHANNEL True of
           Some (Some i) \<Rightarrow> if te_type (tm_map m ! i) = TURN_ENTRY_TYPE_CHANNEL \<and> te_channel (tm_map m ! i) \<noteq> 0
                            then te_channel (tm_map m ! i) \<noteq> c else channel_in_use m c
         | _ \<Rightarrow> True)"
proof -
  have ok: "table_ok m" "channels_ok m" using assms(1) by (simp_all add: turn_ok_def)
  have use: "turn_find_channel m c = Some None \<longleftrightarrow> \<not> channel_in_use m c"
    using find_channel_iff [OF ok(2), of c] assms(2) unfolding channel_in_use_def by (metis option.exhaust)
  obtain ent where "find_entry m r TURN_ENTRY_TYPE_CHANNEL True = Some ent" "find_entry m r TURN_ENTRY_TYPE_CHANNEL False = Some ent"
    using find_entry_total [OF ok(1)] find_entry_allow [OF ok(1)] by metis
  then show ?thesis unfolding use using valid_channel_nonzero [OF assms(2)]
    by (cases ent) (auto simp: turn_get_channel_def)
qed

text \<open>(C17) Binding a channel in the server: a successful call gives the channel to the address of the record until
  exactly the end of the duration, to every record with that address, even one with another port; other
  addresses keep their channels.  A refused call changes nothing, and it is refused exactly when the
  number is below 0x4000, the table is full, the address has another channel, or the channel is taken.\<close>

theorem server_bind_channel_contract:
  assumes reach: "server_reach m" and r: "inet_family (ar_addr r)" and tid: "length tid = 12"
    and call: "turn_bind_channel now m (Some r) (Some tid) c d = Some (b, m')"
  shows "(b \<longrightarrow> (\<forall>t q. addr_record_is_equal r q False \<longrightarrow>
            turn_get_bound_channel t m' q = Some (if t < now + d then Some c else None)))
    \<and> (\<forall>q. \<not> addr_record_is_equal r q False \<longrightarrow> turn_get_channel m' q = turn_get_channel m q)
    \<and> (\<not> b \<longrightarrow> m' = m)
    \<and> (b \<longleftrightarrow> is_valid_channel c \<and> (turn_get_channel m r = Some (Some c)
          \<or> turn_get_channel m r \<in> {Some None, Some (Some 0)} \<and> turn_find_channel m c = Some None
            \<and> find_entry m r TURN_ENTRY_TYPE_CHANNEL True \<noteq> Some None))"
proof -
  have ok: "turn_ok m" "table_ok m" using server_ok [OF reach] by (simp_all add: turn_ok_def)
  have ok': "table_ok m'" using server_ok [OF server_bind_channel [OF reach r tid call]] by (simp add: turn_ok_def)
  have tid': "\<forall>t. Some tid = Some t \<longrightarrow> length t = 12" using tid by simp
  from ok(1) r tid' show ?thesis
  proof (cases rule: bind_channel_cases [where now = now and c = c and d = d])
    case refused
    then show ?thesis using call bind_condition [OF ok(1), of c r] by auto
  next
    case (refreshed i)
    have m': "b" "m' = upd_entry i (\<lambda>e. e\<lparr>te_timestamp := now + d\<rparr>) m" using refreshed(5) call by simp_all
    note fe = found_entry [OF ok(2) refreshed(1) used_types(2)]
    have i: "i < length (tm_map m)" using fe(1) by (simp add: map_size_def)
    have e': "te_type (tm_map m' ! i) = TURN_ENTRY_TYPE_CHANNEL" "te_channel (tm_map m' ! i) = c" "c \<noteq> 0"
      "te_timestamp (tm_map m' ! i) = now + d" "addr_record_is_equal (te_record (tm_map m' ! i)) r False"
      using i refreshed(2,3) fe(3) valid_channel_nonzero [OF refreshed(4)] by (auto simp: m'(2))
    have same: "map_size m' = map_size m" "\<And>j. j \<noteq> i \<Longrightarrow> tm_map m' ! j = tm_map m ! j" by (simp_all add: m'(2))
    note bs = bound_slot [OF ok(2) ok' same(1) r refreshed(1) same(2) e']
    have "is_valid_channel c \<and> turn_get_channel m r = Some (Some c)"
      using refreshed find_entry_allow [OF ok(2), of r _ False] by (simp add: turn_get_channel_def)
    then show ?thesis using bs m'(1) by blast
  next
    case (bound i m'')
    have m': "b" "tm_map m' = (tm_map m)[i := bound_entry (now + d) r (Some tid) c (tm_map m ! i)]" using bound(5,6) call by simp_all
    note fe = found_entry [OF ok(2) bound(1) used_types(2)]
    have i: "i < length (tm_map m)" using fe(1) by (simp add: map_size_def)
    have e': "te_type (tm_map m' ! i) = TURN_ENTRY_TYPE_CHANNEL" "te_channel (tm_map m' ! i) = c" "c \<noteq> 0"
      "te_timestamp (tm_map m' ! i) = now + d" "addr_record_is_equal (te_record (tm_map m' ! i)) r False"
      using i fe(3) valid_channel_nonzero [OF bound(2)] record_key.eq_refl [OF r] by (auto simp: m'(2))
    have same: "map_size m' = map_size m" "\<And>j. j \<noteq> i \<Longrightarrow> tm_map m' ! j = tm_map m ! j" by (simp_all add: m'(2) map_size_def)
    note bs = bound_slot [OF ok(2) ok' same(1) r bound(1) same(2) e']
    have cond: "turn_get_channel m r = Some (Some c)
      \<or> turn_get_channel m r \<in> {Some None, Some (Some 0)} \<and> turn_find_channel m c = Some None
        \<and> find_entry m r TURN_ENTRY_TYPE_CHANNEL True \<noteq> Some None"
      unfolding bind_condition [OF ok(1) bound(2), of r] using bound(1,3,4) by auto
    then show ?thesis using bs m'(1) bound(2) by blast
  qed
qed

theorem server_bind_channel_contract_witness:
  "\<exists>m'. turn_get_bound_channel 299 m' (some_peer 81) = Some (Some 0x4001)"
proof -
  have reach: "server_reach (turn_init_map 2)" by (rule server_init) simp
  obtain m' where "turn_bind_channel 0 (turn_init_map 2) (Some (some_peer 80)) (Some (replicate 12 7)) 0x4001 300 = Some (True, m')"
    using first_channel by blast
  from server_bind_channel_contract [OF reach some_peer_inet some_tid(1) this] show ?thesis
    by (auto simp: some_peer_def addr_record_is_equal_def intro!: exI [of _ m'])
qed

subsection \<open>ChannelData\<close>

lemma net16_first: "hd (net16 c) = ucast (drop_bit 8 c)"
  by (simp add: net16_def)

text \<open>(C18) ChannelData framing: in a buffer that is large enough the message is the channel number, the length and the
  data, the receiver's loads give both back, and it is recognised as ChannelData exactly when the channel
  is below 0x5000; a reserved number, which \<open>is_valid_channel\<close> accepts, yields a message that is not.
  Every number the agent draws is recognised.\<close>

theorem channel_data_framing:
  assumes "is_valid_channel c" "length data < 65536" "4 + length data \<le> length buffer"
  shows "\<exists>out. turn_wrap_channel_data buffer data c = (4 + int (length data), out)
      \<and> length out = length buffer \<and> take (4 + length data) out = net16 c @ net16 (of_nat (length data)) @ data
      \<and> ld16 out 0 = Some c \<and> map_option unat (ld16 out 2) = Some (length data)
      \<and> (is_channel_data out \<longleftrightarrow> c < 0x5000)
      \<and> is_valid_channel (random_channel_number r) \<and> random_channel_number r < 0x5000"
proof -
  define out where "out = buf_write (buf_write buffer 4 data) 0 (mem16 (htons c) @ mem16 (htons (of_nat (length data))))"
  have out: "out = net16 c @ net16 (of_nat (length data)) @ data @ drop (4 + length data) buffer"
    using assms(3) by (simp add: out_def buf_write_def mem16_htons)
  have "take (4 + length data) out = net16 c @ net16 (of_nat (length data)) @ data" "length out = length buffer"
    using assms(3) by (simp_all add: out)
  moreover have "ld16 out 0 = Some c" "ld16 out 2 = Some (of_nat (length data))"
    by (simp_all add: out ld_defs)
  moreover have "unat (of_nat (length data) :: u16) = length data" using assms(2) by (simp add: unsigned_of_nat take_bit_nat_eq_self)
  moreover have "is_channel_data out \<longleftrightarrow> 64 \<le> (ucast (drop_bit 8 c) :: byte) \<and> (ucast (drop_bit 8 c) :: byte) \<le> 79"
    by (simp add: out is_channel_data_def net16_def)
  moreover have "64 \<le> (ucast (drop_bit 8 c) :: byte) \<and> (ucast (drop_bit 8 c) :: byte) \<le> 79 \<longleftrightarrow> c < 0x5000"
  proof -
    have c: "unat c < 65536" "0x4000 \<le> unat c" using unsigned_less [of c] assms(1) by (simp_all add: is_valid_channel_def word_le_nat_alt)
    have "unat (ucast (drop_bit 8 c) :: byte) = unat c div 256"
      using c(1) by (simp add: unsigned_ucast_eq unat_div_distrib drop_bit_eq_div take_bit_eq_mod)
    then show ?thesis using c by (auto simp: word_le_nat_alt word_less_nat_alt)
  qed
  ultimately show ?thesis using assms random_channel_range [of r]
    by (intro exI [of _ out]) (simp add: turn_wrap_channel_data_def out_def)
qed

theorem channel_data_framing_witness:
  "\<exists>out. turn_wrap_channel_data (replicate 10 0) [1, 2, 3] 0x4001 = (7, out) \<and> is_channel_data out"
  using channel_data_framing [of "0x4001" "[1, 2, 3]" "replicate 10 0"] by (auto simp: is_valid_channel_def)

subsection \<open>Removing an id that is not there\<close>

text \<open>\<open>remove_ordered_transaction_id\<close> does not compare the id at the position it finds: for an id that is not in the
  array it takes out the next larger one, so that another entry loses its transaction.  (The agent never
  calls it that way: there, every id of an entry is in the array.)\<close>

theorem remove_absent_id:
  assumes "tids_ok m" "length tid = 12" "\<not> tid_in_use m tid"
    and "i \<in> set (tm_ordered_transaction_ids m)" "memcmp tid (te_transaction_id (tm_map m ! i)) < 0"
  shows "\<exists>m' j. remove_ordered_transaction_id m tid = Some m' \<and> j \<in> set (tm_ordered_transaction_ids m)
    \<and> te_transaction_id (tm_map m ! j) \<noteq> tid \<and> set (tm_ordered_transaction_ids m') = set (tm_ordered_transaction_ids m) - {j}"
proof -
  let ?arr = "tm_ordered_transaction_ids m"
  have o: "ordered_by memcmp tid_ok (\<lambda>i. te_transaction_id (tm_map m ! i)) (length (tm_map m)) ?arr"
    using assms(1) by (simp add: tids_ok_def map_size_def)
  have tid: "tid_ok tid" using assms(2) by (simp add: tid_ok_def)
  obtain p where p: "find_ordered_transaction_id m tid = Some p" "p \<le> length ?arr"
    "\<And>j. j < p \<Longrightarrow> memcmp (te_transaction_id (tm_map m ! (?arr ! j))) tid < 0"
    using tids.search_total [OF o tid] unfolding find_ordered_transaction_id_def by metis
  obtain k where k: "k < length ?arr" "?arr ! k = i" using assms(4) by (auto simp: in_set_conv_nth)
  have "p < length ?arr"
  proof (rule ccontr)
    assume "\<not> p < length ?arr"
    then have "memcmp (te_transaction_id (tm_map m ! i)) tid < 0" using p(2) p(3) [of k] k by simp
    then show False using assms(5) memcmp_neg [of tid "te_transaction_id (tm_map m ! i)"] by simp
  qed
  moreover from this have "?arr ! p \<in> set ?arr" by simp
  moreover from this have "te_transaction_id (tm_map m ! (?arr ! p)) \<noteq> tid" using assms(3) by (auto simp: tid_in_use_def)
  ultimately show ?thesis using p(1) set_remove_at [OF tids.ordered_distinct [OF o], of p]
    by (intro exI [of _ "m\<lparr>tm_ordered_transaction_ids := remove_at p ?arr\<rparr>"] exI [of _ "?arr ! p"])
      (simp add: remove_ordered_transaction_id_def remove_at_def)
qed

theorem remove_absent_id_witness:
  "\<exists>m m'. remove_ordered_transaction_id m (replicate 12 6) = Some m' \<and> tm_ordered_transaction_ids m \<noteq> []
     \<and> set (tm_ordered_transaction_ids m') \<subset> set (tm_ordered_transaction_ids m)"
proof -
  have reach: "agent_reach (turn_init_map 2)" by (rule agent_init) simp
  obtain m1 where m1: "turn_set_random_permission_transaction_id (turn_init_map 2) (some_peer 80) [replicate 12 7]
      = Some (Some (Some (replicate 12 7), m1))" using first_permission_id by blast
  have ok: "turn_ok (turn_init_map 2)" "tids_ok (turn_init_map 2)" using init_ok [of 2] by simp_all
  have "list_all good_tid [replicate 12 7]" by simp
  note drawn = set_drawn_id_ok [OF ok used_types(1) some_peer_inet [of 80] this]
  have "set_drawn_id (turn_init_map 2) TURN_ENTRY_TYPE_PERMISSION (some_peer 80) [replicate 12 7] = Some (Some (Some (replicate 12 7), m1))"
    using m1 find_entry_init [of 2 "some_peer 80" TURN_ENTRY_TYPE_PERMISSION False] init_entry [of 2 "some_peer 80" TURN_ENTRY_TYPE_PERMISSION]
    by (simp add: turn_set_random_permission_transaction_id_def set_random_transaction_id_def zero_entry_def)
  with drawn obtain i where i: "tids_ok m1" "i \<in> set (tm_ordered_transaction_ids m1)"
    "find_entry (turn_init_map 2) (some_peer 80) TURN_ENTRY_TYPE_PERMISSION True = Some (Some i)"
    "tm_map m1 = (tm_map (turn_init_map 2))[i := with_tid TURN_ENTRY_TYPE_PERMISSION (some_peer 80) (replicate 12 7) (tm_map (turn_init_map 2) ! i)]"
    by auto
  have n: "length (tm_map m1) = 4" by (simp add: i(4) turn_init_map_def)
  have il: "i < 4" using i(1,2) n tid_member [of m1 i] by (simp add: map_size_def)
  have t7: "te_transaction_id (tm_map m1 ! i) = replicate 12 7" using il by (simp add: i(4) turn_init_map_def)
  have other: "te_transaction_id (tm_map m1 ! j) \<noteq> replicate 12 6" if "j < 4" for j
    using that t7 by (cases "j = i") (simp_all add: i(4) turn_init_map_def zero_entry_def replicate_eq_replicate)
  then have free: "\<not> tid_in_use m1 (replicate 12 6)"
    using tid_member [OF i(1)] n by (auto simp: tid_in_use_def map_size_def)
  have r12: "replicate 12 (x :: byte) = x # replicate 11 x" for x by (simp add: numeral_eq_Suc)
  have "memcmp (replicate 12 6) (te_transaction_id (tm_map m1 ! i)) < 0" unfolding t7 r12 by simp
  from remove_absent_id [OF i(1) _ free i(2) this] obtain m' j where
    "remove_ordered_transaction_id m1 (replicate 12 6) = Some m'" "j \<in> set (tm_ordered_transaction_ids m1)"
    "set (tm_ordered_transaction_ids m') = set (tm_ordered_transaction_ids m1) - {j}" by (metis length_replicate)
  then show ?thesis using i(2) by (intro exI [of _ m1] exI [of _ m'] conjI) (assumption, fastforce, blast)
qed

end
