(* ===== verification/Ice.thy ===== *)
theory Ice
  imports Addr Base64
begin

text \<open>
  \<^verbatim>\<open>libjuice/src/ice.c\<close>: ICE candidates, descriptions and candidate pairs, their priorities, and the SDP lines
  that carry them.  Strings are byte lists without the terminating zero.  \<^verbatim>\<open>getaddrinfo\<close> and \<^verbatim>\<open>getnameinfo\<close> are
  parameters.
\<close>

subsection \<open>Data\<close>

definition ICE_MAX_CANDIDATES_COUNT :: nat where "ICE_MAX_CANDIDATES_COUNT = 30"
definition BUFFER_SIZE :: nat where "BUFFER_SIZE = 1024"

datatype ice_candidate_type =
  ICE_CANDIDATE_TYPE_UNKNOWN | ICE_CANDIDATE_TYPE_HOST | ICE_CANDIDATE_TYPE_SERVER_REFLEXIVE
| ICE_CANDIDATE_TYPE_PEER_REFLEXIVE | ICE_CANDIDATE_TYPE_RELAYED

datatype ice_candidate_transport =
  ICE_CANDIDATE_TRANSPORT_UDP | ICE_CANDIDATE_TRANSPORT_TCP_TYPE_ACTIVE
| ICE_CANDIDATE_TRANSPORT_TCP_TYPE_PASSIVE | ICE_CANDIDATE_TRANSPORT_TCP_TYPE_SO

text \<open>The component is a signed \<^verbatim>\<open>int\<close>.\<close>

record ice_candidate =
  cand_type :: ice_candidate_type
  cand_priority :: u32
  cand_component :: int
  cand_foundation :: bytes
  cand_transport :: ice_candidate_transport
  cand_hostname :: bytes
  cand_service :: bytes
  cand_resolved :: addr_record

record ice_description =
  ice_ufrag :: bytes
  ice_pwd :: bytes
  ice_lite :: bool
  candidates :: "ice_candidate list"
  ice_finished :: bool

datatype ice_candidate_pair_state =
  ICE_CANDIDATE_PAIR_STATE_PENDING | ICE_CANDIDATE_PAIR_STATE_SUCCEEDED
| ICE_CANDIDATE_PAIR_STATE_FAILED | ICE_CANDIDATE_PAIR_STATE_FROZEN

definition ICE_PARSE_ERROR :: int where "ICE_PARSE_ERROR = -1"
definition ICE_PARSE_IGNORED :: int where "ICE_PARSE_IGNORED = -2"
definition ICE_PARSE_MISSING_UFRAG :: int where "ICE_PARSE_MISSING_UFRAG = -3"
definition ICE_PARSE_MISSING_PWD :: int where "ICE_PARSE_MISSING_PWD = -4"

lemmas ice_codes = ICE_PARSE_ERROR_def ICE_PARSE_IGNORED_def ICE_PARSE_MISSING_UFRAG_def ICE_PARSE_MISSING_PWD_def

definition empty_record :: addr_record where
  "empty_record = \<lparr>ar_addr = SaOther 0, ar_len = 0, ar_socktype = 0\<rparr>"

text \<open>A candidate and a description after \<^verbatim>\<open>memset\<close>.\<close>

definition zero_candidate :: ice_candidate where
  "zero_candidate = \<lparr>cand_type = ICE_CANDIDATE_TYPE_UNKNOWN, cand_priority = 0, cand_component = 0, cand_foundation = [],
     cand_transport = ICE_CANDIDATE_TRANSPORT_UDP, cand_hostname = [], cand_service = [], cand_resolved = empty_record\<rparr>"

definition zero_description :: ice_description where
  "zero_description = \<lparr>ice_ufrag = [], ice_pwd = [], ice_lite = False, candidates = [], ice_finished = False\<rparr>"

subsection \<open>Priorities\<close>

definition clamp :: "int \<Rightarrow> int \<Rightarrow> int \<Rightarrow> int" where
  "clamp x low high = (if x > high then high else if x < low then low else x)"

fun type_preference :: "ice_candidate_type \<Rightarrow> u32" where
  "type_preference ICE_CANDIDATE_TYPE_HOST = 126"
| "type_preference ICE_CANDIDATE_TYPE_PEER_REFLEXIVE = 110"
| "type_preference ICE_CANDIDATE_TYPE_SERVER_REFLEXIVE = 100"
| "type_preference ICE_CANDIDATE_TYPE_RELAYED = 0"
| "type_preference ICE_CANDIDATE_TYPE_UNKNOWN = 0"

fun direction_preference :: "ice_candidate_transport \<Rightarrow> u32" where
  "direction_preference ICE_CANDIDATE_TRANSPORT_TCP_TYPE_ACTIVE = 6"
| "direction_preference ICE_CANDIDATE_TRANSPORT_TCP_TYPE_PASSIVE = 4"
| "direction_preference ICE_CANDIDATE_TRANSPORT_TCP_TYPE_SO = 2"
| "direction_preference ICE_CANDIDATE_TRANSPORT_UDP = 0"

definition family_preference :: "u16 \<Rightarrow> u32" where
  "family_preference family = (if family = AF_INET6 then 8191 else if family = AF_INET then 4095 else 0)"

definition ice_compute_priority ::
  "ice_candidate_type \<Rightarrow> u16 \<Rightarrow> int \<Rightarrow> int \<Rightarrow> ice_candidate_transport \<Rightarrow> u32" where
  "ice_compute_priority type family component index transport =
     (let p0 = type_preference type;
          p1 = (if transport \<noteq> ICE_CANDIDATE_TRANSPORT_UDP then if p0 \<ge> 50 then p0 - 50 else 0 else p0);
          p2 = push_bit 16 p1;
          local0 = push_bit 13 (direction_preference transport);
          local1 = local0 + family_preference family;
          local2 = local1 - of_int (clamp index 0 4095);
          p3 = push_bit 8 (p2 + local2)
      in p3 + of_int (256 - clamp component 1 256))"

subsection \<open>Candidate pairs\<close>

text \<open>The candidates of a pair are pointers, either of which may be null.\<close>

record ice_candidate_pair =
  pair_local :: "ice_candidate option"
  pair_remote :: "ice_candidate option"
  pair_priority :: u64
  pair_state :: ice_candidate_pair_state
  pair_nominated :: bool
  pair_nomination_requested :: bool
  pair_consent_expiry :: int

text \<open>The priority of an end of the pair, given the candidate at the other end.\<close>

definition end_priority :: "ice_candidate option \<Rightarrow> ice_candidate option \<Rightarrow> u32" where
  "end_priority this other =
     (case this of
        Some c \<Rightarrow> cand_priority c
      | None \<Rightarrow> (case other of
                  Some c \<Rightarrow> ice_compute_priority ICE_CANDIDATE_TYPE_HOST (sa_family (ar_addr (cand_resolved c)))
                              (cand_component c) 0 (cand_transport c)
                | None \<Rightarrow> 0))"

definition ice_update_candidate_pair :: "ice_candidate_pair \<Rightarrow> bool \<Rightarrow> ice_candidate_pair" where
  "ice_update_candidate_pair pair is_controlling =
     (if pair_local pair = None \<and> pair_remote pair = None then pair
      else let local_priority = ucast (end_priority (pair_local pair) (pair_remote pair)) :: u64;
               remote_priority = ucast (end_priority (pair_remote pair) (pair_local pair)) :: u64;
               g = (if is_controlling then local_priority else remote_priority);
               d = (if is_controlling then remote_priority else local_priority);
               mn = (if g < d then g else d);
               mx = (if g > d then g else d)
           in pair\<lparr>pair_priority := push_bit 32 mn + push_bit 1 mx + (if g > d then 1 else 0)\<rparr>)"

text \<open>\<open>None\<close> is the return of \<^verbatim>\<open>-1\<close>.\<close>

definition ice_create_candidate_pair ::
  "ice_candidate option \<Rightarrow> ice_candidate option \<Rightarrow> bool \<Rightarrow> ice_candidate_pair option" where
  "ice_create_candidate_pair local remote is_controlling =
     (case (local, remote) of
        (Some l, Some r) \<Rightarrow>
          if sa_family (ar_addr (cand_resolved l)) \<noteq> sa_family (ar_addr (cand_resolved r)) then None
          else Some (ice_update_candidate_pair
                 \<lparr>pair_local = local, pair_remote = remote, pair_priority = 0, pair_state = ICE_CANDIDATE_PAIR_STATE_FROZEN,
                  pair_nominated = False, pair_nomination_requested = False, pair_consent_expiry = 0\<rparr> is_controlling)
      | _ \<Rightarrow> Some (ice_update_candidate_pair
                 \<lparr>pair_local = local, pair_remote = remote, pair_priority = 0, pair_state = ICE_CANDIDATE_PAIR_STATE_FROZEN,
                  pair_nominated = False, pair_nomination_requested = False, pair_consent_expiry = 0\<rparr> is_controlling))"

subsection \<open>Descriptions\<close>

text \<open>The decimal digits that \<^verbatim>\<open>%u\<close> prints.\<close>

fun dec :: "nat \<Rightarrow> bytes" where
  "dec n = (if n < 10 then [0x30 + of_nat n] else dec (n div 10) @ [0x30 + of_nat (n mod 10)])"

declare dec.simps [simp del]

text \<open>The result is the candidate, whose foundation the function completes, and the description.\<close>

definition ice_add_candidate :: "ice_candidate \<Rightarrow> ice_description \<Rightarrow> int \<times> ice_candidate \<times> ice_description" where
  "ice_add_candidate candidate description =
     (if cand_type candidate = ICE_CANDIDATE_TYPE_UNKNOWN then (-1, candidate, description)
      else if length (candidates description) \<ge> ICE_MAX_CANDIDATES_COUNT then (-1, candidate, description)
      else let c = (if cand_foundation candidate = [0x2D]
                    then candidate\<lparr>cand_foundation := dec (length (candidates description) + 1)\<rparr> else candidate)
           in (0, c, description\<lparr>candidates := candidates description @ [c]\<rparr>))"

text \<open>The in-place insertion sort: \<open>sort_shift\<close> is the inner loop, with \<open>j\<close> the index of \<^verbatim>\<open>prev + 1\<close>.\<close>

fun sort_shift :: "u32 \<Rightarrow> ice_candidate list \<Rightarrow> nat \<Rightarrow> ice_candidate list \<times> nat" where
  "sort_shift priority arr 0 = (arr, 0)"
| "sort_shift priority arr (Suc j) =
     (if cand_priority (arr ! j) < priority then sort_shift priority (arr[Suc j := arr ! j]) j else (arr, Suc j))"

definition sort_step :: "ice_candidate list \<Rightarrow> nat \<Rightarrow> ice_candidate list" where
  "sort_step arr cur =
     (let tmp = arr ! cur; (arr', j) = sort_shift (cand_priority tmp) arr cur
      in if j \<noteq> cur then arr'[j := tmp] else arr')"

function sort_loop :: "ice_candidate list \<Rightarrow> nat \<Rightarrow> ice_candidate list" where
  "sort_loop arr cur = (if cur < length arr then sort_loop (sort_step arr cur) (cur + 1) else arr)"
  by pat_completeness auto

lemma sort_shift_length [simp]: "length (fst (sort_shift p arr j)) = length arr"
  by (induction p arr j rule: sort_shift.induct) auto

lemma sort_step_length [simp]: "length (sort_step arr cur) = length arr"
  using sort_shift_length [of "cand_priority (arr ! cur)" arr cur]
  by (cases "sort_shift (cand_priority (arr ! cur)) arr cur") (simp add: sort_step_def Let_def)

termination sort_loop
  by (relation "measure (\<lambda>(arr, cur). length arr - cur)") auto

declare sort_loop.simps [simp del]

definition ice_sort_candidates :: "ice_description \<Rightarrow> ice_description" where
  "ice_sort_candidates description = description\<lparr>candidates := sort_loop (candidates description) 1\<rparr>"

fun find_candidate :: "ice_candidate list \<Rightarrow> addr_record \<Rightarrow> ice_candidate_type \<Rightarrow> nat option" where
  "find_candidate [] record type = None"
| "find_candidate (c # cs) record type =
     (if (type = ICE_CANDIDATE_TYPE_UNKNOWN \<or> cand_type c = type)
         \<and> addr_is_equal (ar_addr record) (ar_addr (cand_resolved c)) True
      then Some 0 else map_option Suc (find_candidate cs record type))"

definition ice_find_candidate_from_addr :: "ice_description \<Rightarrow> addr_record \<Rightarrow> ice_candidate_type \<Rightarrow> nat option" where
  "ice_find_candidate_from_addr description record type = find_candidate (candidates description) record type"

definition ice_candidates_count :: "ice_description \<Rightarrow> ice_candidate_type \<Rightarrow> nat" where
  "ice_candidates_count description type = length (filter (\<lambda>c. cand_type c = type) (candidates description))"

text \<open>\<open>draws\<close> are the bytes of \<^verbatim>\<open>juice_random_str64\<close>, which indexes the base64 alphabet with six bits of each.\<close>

definition random_str64 :: "bytes \<Rightarrow> bytes" where
  "random_str64 draws = map (\<lambda>b. tab (b AND 0x3F)) draws"

definition ice_create_local_description :: "bytes \<Rightarrow> bytes \<Rightarrow> ice_description" where
  "ice_create_local_description ufrag_draws pwd_draws =
     zero_description\<lparr>ice_ufrag := random_str64 (take 4 ufrag_draws), ice_pwd := random_str64 (take 22 pwd_draws)\<rparr>"

definition ice_create_local_candidate ::
  "(sockaddr \<Rightarrow> (bytes \<times> bytes) option) \<Rightarrow> ice_candidate_type \<Rightarrow> int \<Rightarrow> int \<Rightarrow> addr_record \<Rightarrow> ice_candidate_transport
   \<Rightarrow> ice_candidate option" where
  "ice_create_local_candidate getnameinfo type component index record transport =
     (let socktype = (if transport = ICE_CANDIDATE_TRANSPORT_UDP then SOCK_DGRAM else SOCK_STREAM);
          c = zero_candidate\<lparr>cand_type := type, cand_component := component,
                cand_resolved := record\<lparr>ar_socktype := socktype\<rparr>, cand_transport := transport, cand_foundation := [0x2D],
                cand_priority := ice_compute_priority type (sa_family (ar_addr record)) component index transport\<rparr>
      in case getnameinfo (ar_addr record) of
           None \<Rightarrow> None
         | Some (host, service) \<Rightarrow> Some (c\<lparr>cand_hostname := host, cand_service := service\<rparr>))"

text \<open>\<open>getaddrinfo\<close> gets host, service and whether the hints ask for a stream socket and allow a name lookup;
  it answers with the addresses, their lengths and socket types.\<close>

type_synonym resolver = "bytes \<Rightarrow> bytes \<Rightarrow> bool \<Rightarrow> bool \<Rightarrow> (sockaddr \<times> nat \<times> int) list option"

definition ice_resolve_candidate :: "resolver \<Rightarrow> ice_candidate \<Rightarrow> bool \<Rightarrow> int \<times> ice_candidate" where
  "ice_resolve_candidate getaddrinfo candidate lookup =
     (case getaddrinfo (cand_hostname candidate) (cand_service candidate)
             (cand_transport candidate \<noteq> ICE_CANDIDATE_TRANSPORT_UDP) lookup of
        None \<Rightarrow> (-1, candidate\<lparr>cand_resolved := (cand_resolved candidate)\<lparr>ar_len := 0\<rparr>\<rparr>)
      | Some ais \<Rightarrow>
          (0, case find (\<lambda>(sa, _, _). sa_family sa = AF_INET \<or> sa_family sa = AF_INET6) ais of
                None \<Rightarrow> candidate
              | Some (sa, l, st) \<Rightarrow> candidate\<lparr>cand_resolved := \<lparr>ar_addr = sa, ar_len = l, ar_socktype = st\<rparr>\<rparr>))"

end
