(* ===== verification/Ice_Sdp.thy ===== *)
theory Ice_Sdp
  imports Ice
begin

text \<open>
  The SDP half of \<^verbatim>\<open>libjuice/src/ice.c\<close>: printing and parsing candidates and descriptions.  The \<^verbatim>\<open>sscanf\<close> directives the
  code uses (\<^verbatim>\<open>%Ns\<close>, \<^verbatim>\<open>%d\<close>, \<^verbatim>\<open>%u\<close>, white space and literal text) are small functions on the rest of the input.
\<close>

subsection \<open>Prefixes\<close>

definition skip_prefix :: "bytes \<Rightarrow> bytes \<Rightarrow> bytes" where
  "skip_prefix str pre = (if take (length pre) str = pre then drop (length pre) str else str)"

text \<open>The rest after the prefix, when it matches; comparing the pointers is comparing what is left.\<close>

definition match_prefix :: "bytes \<Rightarrow> bytes \<Rightarrow> bytes option" where
  "match_prefix str pre =
     (let e = skip_prefix str pre in if e \<noteq> str \<or> pre = [] then Some e else None)"

subsection \<open>Scanning\<close>

definition skip_space :: "bytes \<Rightarrow> bytes" where
  "skip_space s = dropWhile isspace s"

text \<open>\<^verbatim>\<open>%Ns\<close>: \<open>None\<close> when no character is left.\<close>

definition scan_string :: "nat \<Rightarrow> bytes \<Rightarrow> (bytes \<times> bytes) option" where
  "scan_string n s =
     (let s' = skip_space s; tok = take n (takeWhile (\<lambda>c. \<not> isspace c) s')
      in if tok = [] then None else Some (tok, drop (length tok) s'))"

definition isdigit :: "byte \<Rightarrow> bool" where
  "isdigit c \<longleftrightarrow> 0x30 \<le> c \<and> c \<le> 0x39"

definition digits_value :: "bytes \<Rightarrow> nat" where
  "digits_value ds = foldl (\<lambda>a d. a * 10 + unat (d - 0x30)) 0 ds"

text \<open>Optional sign and at least one digit: whether it is negative, the magnitude, the rest.\<close>

definition scan_number :: "bytes \<Rightarrow> (bool \<times> nat \<times> bytes) option" where
  "scan_number s =
     (let s1 = skip_space s;
          neg = (s1 \<noteq> [] \<and> hd s1 = 0x2D);
          s2 = (if s1 \<noteq> [] \<and> (hd s1 = 0x2D \<or> hd s1 = 0x2B) then tl s1 else s1);
          ds = takeWhile isdigit s2
      in if ds = [] then None else Some (neg, digits_value ds, drop (length ds) s2))"

text \<open>\<^verbatim>\<open>%d\<close> and \<^verbatim>\<open>%u\<close> convert as \<^verbatim>\<open>strtol\<close> and \<^verbatim>\<open>strtoul\<close> do, which saturate at 64 bits, and store 32 bits.\<close>

definition scan_d :: "bytes \<Rightarrow> (int \<times> bytes) option" where
  "scan_d s =
     map_option (\<lambda>(neg, v, rest).
       (sint (of_int (if neg then max (- int v) (- (2 ^ 63)) else min (int v) (2 ^ 63 - 1)) :: u32), rest)) (scan_number s)"

definition scan_u :: "bytes \<Rightarrow> (u32 \<times> bytes) option" where
  "scan_u s =
     map_option (\<lambda>(neg, v, rest).
       (of_int (if v \<ge> 2 ^ 64 then 2 ^ 64 - 1 else if neg then - int v else int v), rest)) (scan_number s)"

text \<open>A literal word of the format, after white space.\<close>

definition scan_word :: "bytes \<Rightarrow> bytes \<Rightarrow> bytes option" where
  "scan_word w s = (let s' = skip_space s in if take (length w) s' = w then Some (drop (length w) s') else None)"

subsection \<open>Candidates\<close>

definition toupper :: "byte \<Rightarrow> byte" where
  "toupper c = (if 0x61 \<le> c \<and> c \<le> 0x7A then c - 0x20 else c)"

definition tolower :: "byte \<Rightarrow> byte" where
  "tolower c = (if 0x41 \<le> c \<and> c \<le> 0x5A then c + 0x20 else c)"

text \<open>The fields of the scan; the last is the second extension, empty when there is none.  \<open>None\<close> when the
  number of fields is neither seven nor nine.\<close>

definition scan_extension :: "bytes \<Rightarrow> bytes option" where
  "scan_extension s =
     (case scan_string 7 s of
        None \<Rightarrow> Some []
      | Some (_, s1) \<Rightarrow> (case scan_string 7 s1 of None \<Rightarrow> None | Some (tcp_type, _) \<Rightarrow> Some tcp_type))"

definition scan_candidate ::
  "bytes \<Rightarrow> (bytes \<times> int \<times> bytes \<times> u32 \<times> bytes \<times> bytes \<times> bytes \<times> bytes) option" where
  "scan_candidate line =
     do { (foundation, s1) \<leftarrow> scan_string 32 line;
          (component, s2) \<leftarrow> scan_d s1;
          (transport, s3) \<leftarrow> scan_string 32 s2;
          (priority, s4) \<leftarrow> scan_u s3;
          (hostname, s5) \<leftarrow> scan_string 256 s4;
          (service, s6) \<leftarrow> scan_string 32 s5;
          s7 \<leftarrow> scan_word (str_bytes ''typ'') s6;
          (type, s8) \<leftarrow> scan_string 32 s7;
          tcp_type \<leftarrow> scan_extension s8;
          Some (foundation, component, transport, priority, hostname, service, type, tcp_type) }"

definition parse_type :: "bytes \<Rightarrow> ice_candidate_type option" where
  "parse_type type =
     (if type = str_bytes ''host'' then Some ICE_CANDIDATE_TYPE_HOST
      else if type = str_bytes ''srflx'' then Some ICE_CANDIDATE_TYPE_SERVER_REFLEXIVE
      else if type = str_bytes ''relay'' then Some ICE_CANDIDATE_TYPE_RELAYED
      else None)"

definition parse_transport :: "bytes \<Rightarrow> bytes \<Rightarrow> ice_candidate_transport option" where
  "parse_transport transport tcp_type =
     (if transport = str_bytes ''TCP''
      then if tcp_type = str_bytes ''active'' then Some ICE_CANDIDATE_TRANSPORT_TCP_TYPE_ACTIVE
           else if tcp_type = str_bytes ''passive'' then Some ICE_CANDIDATE_TRANSPORT_TCP_TYPE_PASSIVE
           else if tcp_type = str_bytes ''so'' then Some ICE_CANDIDATE_TRANSPORT_TCP_TYPE_SO
           else None
      else if transport = str_bytes ''UDP'' then Some ICE_CANDIDATE_TRANSPORT_UDP
      else None)"

definition parse_sdp_candidate :: "bytes \<Rightarrow> int + ice_candidate" where
  "parse_sdp_candidate line =
     (let line' = skip_prefix (skip_prefix line (str_bytes ''a='')) (str_bytes ''candidate:'') in
      case scan_candidate line' of
        None \<Rightarrow> Inl ICE_PARSE_ERROR
      | Some (foundation, component, transport, priority, hostname, service, type, tcp_type) \<Rightarrow>
          (case parse_type (map tolower type) of
             None \<Rightarrow> Inl ICE_PARSE_IGNORED
           | Some ty \<Rightarrow>
               (case parse_transport (map toupper transport) tcp_type of
                  None \<Rightarrow> Inl ICE_PARSE_IGNORED
                | Some tr \<Rightarrow> Inr (zero_candidate\<lparr>cand_foundation := foundation, cand_component := component,
                     cand_priority := priority, cand_hostname := hostname, cand_service := service,
                     cand_type := ty, cand_transport := tr\<rparr>))))"

definition ice_parse_candidate_sdp :: "resolver \<Rightarrow> bytes \<Rightarrow> int + ice_candidate" where
  "ice_parse_candidate_sdp getaddrinfo line =
     (case match_prefix line (str_bytes ''a=candidate:'') of
        None \<Rightarrow> Inl ICE_PARSE_ERROR
      | Some _ \<Rightarrow> (case parse_sdp_candidate line of
                    Inl ret \<Rightarrow> Inl ret
                  | Inr candidate \<Rightarrow> Inr (snd (ice_resolve_candidate getaddrinfo candidate False))))"

subsection \<open>Descriptions\<close>

text \<open>\<^verbatim>\<open>sscanf(arg, "%256s", field)\<close> leaves the field when there is no text.\<close>

definition scan_field :: "bytes \<Rightarrow> bytes \<Rightarrow> bytes" where
  "scan_field arg old = (case scan_string 256 arg of None \<Rightarrow> old | Some (tok, _) \<Rightarrow> tok)"

definition parse_sdp_line :: "resolver \<Rightarrow> bytes \<Rightarrow> ice_description \<Rightarrow> int \<times> ice_description" where
  "parse_sdp_line getaddrinfo line d =
     (case match_prefix line (str_bytes ''a=ice-ufrag:'') of
        Some arg \<Rightarrow> (0, d\<lparr>ice_ufrag := scan_field arg (ice_ufrag d)\<rparr>)
      | None \<Rightarrow>
     (case match_prefix line (str_bytes ''a=ice-pwd:'') of
        Some arg \<Rightarrow> (0, d\<lparr>ice_pwd := scan_field arg (ice_pwd d)\<rparr>)
      | None \<Rightarrow>
     (case match_prefix line (str_bytes ''a=ice-lite'') of
        Some _ \<Rightarrow> (0, d\<lparr>ice_lite := True\<rparr>)
      | None \<Rightarrow>
     (case match_prefix line (str_bytes ''a=end-of-candidates'') of
        Some _ \<Rightarrow> (0, d\<lparr>ice_finished := True\<rparr>)
      | None \<Rightarrow>
     (case ice_parse_candidate_sdp getaddrinfo line of
        Inr candidate \<Rightarrow> (0, snd (snd (ice_add_candidate candidate d)))
      | Inl _ \<Rightarrow> (ICE_PARSE_IGNORED, d))))))"

text \<open>The loop over the characters; \<open>buffer\<close> is what the line buffer holds.\<close>

fun parse_sdp_loop :: "resolver \<Rightarrow> bytes \<Rightarrow> bytes \<Rightarrow> ice_description \<Rightarrow> int + ice_description" where
  "parse_sdp_loop getaddrinfo [] buffer d = Inr d"
| "parse_sdp_loop getaddrinfo (c # sdp) buffer d =
     (if c = 0x0A
      then if buffer \<noteq> []
           then (let (ret, d') = parse_sdp_line getaddrinfo buffer d
                 in if ret = ICE_PARSE_ERROR then Inl ICE_PARSE_ERROR else parse_sdp_loop getaddrinfo sdp [] d')
           else parse_sdp_loop getaddrinfo sdp buffer d
      else if c \<noteq> 0x0D \<and> length buffer + 1 < BUFFER_SIZE then parse_sdp_loop getaddrinfo sdp (buffer @ [c]) d
      else parse_sdp_loop getaddrinfo sdp buffer d)"

definition ice_parse_sdp :: "resolver \<Rightarrow> bytes \<Rightarrow> int \<times> ice_description" where
  "ice_parse_sdp getaddrinfo sdp =
     (case parse_sdp_loop getaddrinfo sdp [] zero_description of
        Inl e \<Rightarrow> (e, zero_description)
      | Inr d0 \<Rightarrow>
          let d = ice_sort_candidates d0
          in (if ice_ufrag d = [] then ICE_PARSE_MISSING_UFRAG
              else if ice_pwd d = [] then ICE_PARSE_MISSING_PWD else 0, d))"

subsection \<open>Printing\<close>

text \<open>The text of \<^verbatim>\<open>ice_generate_candidate_sdp\<close>, \<open>None\<close> for the return of \<^verbatim>\<open>-1\<close>; \<^verbatim>\<open>%u\<close> prints the component as an
  unsigned 32 bit number.\<close>

definition type_text :: "ice_candidate_type \<Rightarrow> (bytes \<times> bytes option) option" where
  "type_text ty =
     (case ty of
        ICE_CANDIDATE_TYPE_HOST \<Rightarrow> Some (str_bytes ''host'', None)
      | ICE_CANDIDATE_TYPE_PEER_REFLEXIVE \<Rightarrow> Some (str_bytes ''prflx'', None)
      | ICE_CANDIDATE_TYPE_SERVER_REFLEXIVE \<Rightarrow> Some (str_bytes ''srflx'', Some (str_bytes ''raddr 0.0.0.0 rport 0''))
      | ICE_CANDIDATE_TYPE_RELAYED \<Rightarrow> Some (str_bytes ''relay'', Some (str_bytes ''raddr 0.0.0.0 rport 0''))
      | ICE_CANDIDATE_TYPE_UNKNOWN \<Rightarrow> None)"

definition transport_text :: "ice_candidate_transport \<Rightarrow> bytes option \<Rightarrow> (bytes \<times> bytes option) option" where
  "transport_text tr suffix =
     (case tr of
        ICE_CANDIDATE_TRANSPORT_UDP \<Rightarrow> Some (str_bytes ''UDP'', suffix)
      | ICE_CANDIDATE_TRANSPORT_TCP_TYPE_ACTIVE \<Rightarrow> Some (str_bytes ''TCP'', Some (str_bytes ''tcptype active''))
      | _ \<Rightarrow> None)"

definition candidate_text :: "ice_candidate \<Rightarrow> bytes option" where
  "candidate_text c =
     do { (type, suffix) \<leftarrow> type_text (cand_type c);
          (transport, suffix') \<leftarrow> transport_text (cand_transport c) suffix;
          Some (str_bytes ''a=candidate:'' @ cand_foundation c @ [0x20] @ dec (unat (of_int (cand_component c) :: u32)) @ [0x20]
                @ transport @ [0x20] @ dec (unat (cand_priority c)) @ [0x20] @ cand_hostname c @ [0x20] @ cand_service c
                @ str_bytes '' typ '' @ type @ (case suffix' of None \<Rightarrow> [] | Some sf \<Rightarrow> [0x20] @ sf)) }"

definition ice_generate_candidate_sdp :: "ice_candidate \<Rightarrow> nat \<Rightarrow> int \<times> bytes" where
  "ice_generate_candidate_sdp c sz =
     (case candidate_text c of None \<Rightarrow> (-1, []) | Some txt \<Rightarrow> snprintf sz txt)"

text \<open>One round of the loop of \<^verbatim>\<open>ice_generate_sdp\<close> that prints \<open>txt\<close>: \<open>pos\<close> is \<^verbatim>\<open>begin\<close>, \<open>buf\<close> the buffer.\<close>

definition print_round :: "bytes \<Rightarrow> int \<times> nat \<times> bytes \<Rightarrow> int \<times> nat \<times> bytes" where
  "print_round txt st =
     (case st of (len, pos, buf) \<Rightarrow>
        (let (ret, out) = snprintf (length buf - pos) txt;
             pos' = (if pos < length buf
                     then if ret \<ge> int (length buf - pos) then pos + (length buf - pos - 1) else pos + nat ret
                     else pos)
         in (len + ret, pos', buf_write buf pos out)))"

text \<open>The first round prints the credentials, and over them, for a lite agent, the lite attribute.\<close>

definition credentials_text :: "ice_description \<Rightarrow> bytes" where
  "credentials_text d = str_bytes ''a=ice-ufrag:'' @ ice_ufrag d @ [0x0D, 0x0A] @ str_bytes ''a=ice-pwd:'' @ ice_pwd d @ [0x0D, 0x0A]"

definition lite_text :: bytes where
  "lite_text = str_bytes ''a=ice-lite'' @ [0x0D, 0x0A]"

definition print_first :: "ice_description \<Rightarrow> int \<times> nat \<times> bytes \<Rightarrow> int \<times> nat \<times> bytes" where
  "print_first d st =
     (if ice_lite d
      then case st of (len, pos, buf) \<Rightarrow>
             print_round lite_text (len, pos, buf_write buf pos (snd (snprintf (length buf - pos) (credentials_text d))))
      else print_round (credentials_text d) st)"

definition print_candidate :: "ice_candidate \<Rightarrow> int \<times> nat \<times> bytes \<Rightarrow> int \<times> nat \<times> bytes" where
  "print_candidate c st =
     (if cand_type c = ICE_CANDIDATE_TYPE_UNKNOWN \<or> cand_type c = ICE_CANDIDATE_TYPE_PEER_REFLEXIVE then st
      else let (ret, tmp) = ice_generate_candidate_sdp c BUFFER_SIZE
           in if ret < 0 then st else print_round (cstr tmp @ [0x0D, 0x0A]) st)"

definition options_text :: "ice_description \<Rightarrow> bytes" where
  "options_text d =
     (if ice_finished d
      then str_bytes ''a=end-of-candidates'' @ [0x0D, 0x0A] @ str_bytes ''a=ice-options:ice2'' @ [0x0D, 0x0A]
      else str_bytes ''a=ice-options:ice2,trickle'' @ [0x0D, 0x0A])"

definition ice_generate_sdp :: "ice_description \<Rightarrow> bytes \<Rightarrow> int \<times> bytes" where
  "ice_generate_sdp d buf =
     (if ice_ufrag d = [] \<or> ice_pwd d = [] then (-1, buf)
      else case print_round (options_text d) (fold print_candidate (candidates d) (print_first d (0, 0, buf))) of
             (len, _, buf') \<Rightarrow> (len, buf'))"

text \<open>\<^verbatim>\<open>isalpha\<close> in the C locale; a byte above 127 is a negative \<^verbatim>\<open>char\<close>.\<close>

definition ice_is_valid_string :: "bytes option \<Rightarrow> bool" where
  "ice_is_valid_string str =
     (case str of
        None \<Rightarrow> False
      | Some s \<Rightarrow> list_all (\<lambda>c. (0x41 \<le> c \<and> c \<le> 0x5A) \<or> (0x61 \<le> c \<and> c \<le> 0x7A) \<or> isdigit c \<or> c = 0x2B \<or> c = 0x2F) s)"

end
