(* ===== verification/Ice_Props.thy ===== *)
theory Ice_Props
  imports Ice "HOL-Library.Multiset"
begin

text \<open>
  The candidate lists and priorities of \<open>Ice\<close>: the in-place insertion sort is a stable sort, priorities
  keep to the fields that RFC 8445 gives them, and the two agents of a session rank a pair alike.
\<close>

subsection \<open>Sorting\<close>

definition rank :: "ice_candidate \<Rightarrow> int" where
  "rank c = - int (unat (cand_priority c))"

text \<open>The inner loop moves a block of smaller candidates up by one and stops behind the last that is not.\<close>

lemma sort_shift_block:
  "j < length arr \<Longrightarrow> sort_shift p arr j = (arr', k) \<Longrightarrow>
     k \<le> j \<and> (\<forall>i. k \<le> i \<and> i < j \<longrightarrow> cand_priority (arr ! i) < p)
     \<and> (k > 0 \<longrightarrow> \<not> cand_priority (arr ! (k - 1)) < p)
     \<and> arr'[k := x] = take k arr @ x # drop k (take j arr) @ drop (Suc j) arr
     \<and> (k = j \<longrightarrow> arr' = arr)"
proof (induction j arbitrary: arr)
  case 0
  then show ?case by (auto simp: list_update_append1 upd_conv_take_nth_drop)
next
  case (Suc j)
  show ?case
  proof (cases "cand_priority (arr ! j) < p")
    case False
    then show ?thesis using Suc.prems by (auto simp: upd_conv_take_nth_drop)
  next
    case True
    let ?arr1 = "arr[Suc j := arr ! j]"
    have step: "sort_shift p ?arr1 j = (arr', k)" using Suc.prems True by simp
    have jl: "j < length ?arr1" using Suc.prems by simp
    note ih = Suc.IH [OF jl step]
    have k: "k \<le> j" using ih by simp
    have same: "i \<le> j \<Longrightarrow> ?arr1 ! i = arr ! i" for i by simp
    have "drop k (take j ?arr1) @ drop (Suc j) ?arr1 = drop k (take (Suc j) arr) @ drop (Suc (Suc j)) arr"
      using Suc.prems(1) k
      by (simp add: take_Suc_conv_app_nth drop_update_swap upd_conv_take_nth_drop Cons_nth_drop_Suc [symmetric])
    moreover have "take k ?arr1 = take k arr" using k by simp
    moreover have "cand_priority (arr ! i) < p" if "k \<le> i" "i < Suc j" for i
      using ih same [of i] that True by (cases "i = j") auto
    moreover have "k > 0 \<longrightarrow> \<not> cand_priority (arr ! (k - 1)) < p" using ih k same [of "k - 1"] by auto
    ultimately show ?thesis using ih k by auto
  qed
qed

lemma sort_step_block:
  assumes "cur < length arr"
  obtains k where "k \<le> cur"
    "sort_step arr cur = take k arr @ arr ! cur # drop k (take cur arr) @ drop (Suc cur) arr"
    "\<And>i. k \<le> i \<Longrightarrow> i < cur \<Longrightarrow> cand_priority (arr ! i) < cand_priority (arr ! cur)"
    "k > 0 \<Longrightarrow> \<not> cand_priority (arr ! (k - 1)) < cand_priority (arr ! cur)"
proof -
  obtain arr' k where s: "sort_shift (cand_priority (arr ! cur)) arr cur = (arr', k)" by (metis prod.exhaust)
  note b = sort_shift_block [OF assms s, of "arr ! cur"]
  have "sort_step arr cur = take k arr @ arr ! cur # drop k (take cur arr) @ drop (Suc cur) arr"
  proof (cases "k = cur")
    case True
    then show ?thesis using b s assms by (simp add: sort_step_def id_take_nth_drop)
  next
    case False
    then show ?thesis using b s by (simp add: sort_step_def)
  qed
  with b that show thesis by blast
qed

lemma rank_less: "rank b < rank a \<longleftrightarrow> cand_priority a < cand_priority b"
  by (simp add: rank_def word_less_def)

text \<open>One round: the prefix stays sorted, and neither the elements nor the order of equals change.\<close>

lemma sort_step_sorts:
  assumes "cur < length arr" and sorted: "sorted (map rank (take cur arr))"
  shows "sorted (map rank (take (Suc cur) (sort_step arr cur)))" "mset (sort_step arr cur) = mset arr"
    "filter (\<lambda>c. rank x = rank c) (sort_step arr cur) = filter (\<lambda>c. rank x = rank c) arr"
proof -
  let ?t = "arr ! cur"
  obtain k where k: "k \<le> cur" "sort_step arr cur = take k arr @ ?t # drop k (take cur arr) @ drop (Suc cur) arr"
    "\<And>i. k \<le> i \<Longrightarrow> i < cur \<Longrightarrow> cand_priority (arr ! i) < cand_priority ?t"
    "k > 0 \<Longrightarrow> \<not> cand_priority (arr ! (k - 1)) < cand_priority ?t"
    using sort_step_block [OF assms(1)] by metis
  have split: "take cur arr = take k arr @ drop k (take cur arr)"
    using k(1) by (metis append_take_drop_id min.absorb1 take_take)
  have arr: "arr = take k arr @ drop k (take cur arr) @ ?t # drop (Suc cur) arr"
    using split assms(1) by (metis append.assoc id_take_nth_drop)
  have hi: "rank ?t < rank c" if "c \<in> set (drop k (take cur arr))" for c
    using that k(1,3) assms(1) by (auto simp: in_set_conv_nth rank_less)
  have lo: "rank c \<le> rank ?t" if "c \<in> set (take k arr)" for c
  proof -
    from that obtain i where i: "i < k" "c = arr ! i" using k(1) assms(1) by (auto simp: in_set_conv_nth)
    have "rank (arr ! i) \<le> rank (arr ! (k - 1))"
      using sorted_nth_mono [OF sorted, of i "k - 1"] i(1) k(1) assms(1) by simp
    also have "\<dots> \<le> rank ?t" using k(4) i(1) rank_less [of ?t "arr ! (k - 1)"] by simp
    finally show ?thesis using i(2) by simp
  qed
  have tk: "take (Suc cur) (sort_step arr cur) = take k arr @ ?t # drop k (take cur arr)"
    using k(1,2) assms(1) by (simp add: Suc_diff_le)
  have "sorted (map rank (take k arr) @ map rank (drop k (take cur arr)))" using sorted split by (metis map_append)
  then show "sorted (map rank (take (Suc cur) (sort_step arr cur)))"
    unfolding tk using lo hi by (auto simp: sorted_append less_imp_le)
  show "mset (sort_step arr cur) = mset arr" unfolding k(2) by (subst (5) arr) simp
  have "filter (\<lambda>c. rank x = rank c) (?t # drop k (take cur arr)) = filter (\<lambda>c. rank x = rank c) (drop k (take cur arr) @ [?t])"
  proof (cases "rank x = rank ?t")
    case True
    have "filter (\<lambda>c. rank ?t = rank c) (drop k (take cur arr)) = []" using hi by (force simp: filter_empty_conv)
    then show ?thesis unfolding True by simp
  qed simp
  then show "filter (\<lambda>c. rank x = rank c) (sort_step arr cur) = filter (\<lambda>c. rank x = rank c) arr"
    unfolding k(2) by (subst (5) arr) (simp split: if_splits)
qed

lemma sort_loop_sorts:
  "cur \<le> length arr \<Longrightarrow> sorted (map rank (take cur arr)) \<Longrightarrow>
     sorted (map rank (sort_loop arr cur)) \<and> mset (sort_loop arr cur) = mset arr
     \<and> filter (\<lambda>c. rank x = rank c) (sort_loop arr cur) = filter (\<lambda>c. rank x = rank c) arr"
proof (induction arr cur rule: sort_loop.induct)
  case (1 arr cur)
  show ?case
  proof (cases "cur < length arr")
    case True
    then show ?thesis using 1 sort_step_sorts [OF True 1(3)] by (subst (1 2 3) sort_loop.simps) simp
  next
    case False
    then show ?thesis using 1(2,3) by (subst (1 2 3) sort_loop.simps) simp
  qed
qed

text \<open>(C19) \<open>ice_sort_candidates\<close> is the stable sort by descending priority: the in-place insertion sort computes what
  the library's sorting function specifies.\<close>

theorem ice_sort_is_sort_key:
  "candidates (ice_sort_candidates d) = sort_key rank (candidates d)"
proof (cases "candidates d = []")
  case True
  then show ?thesis by (simp add: ice_sort_candidates_def sort_loop.simps)
next
  case False
  then have l: "1 \<le> length (candidates d)" by (simp add: Suc_le_eq)
  have one: "sorted (map rank (take 1 (candidates d)))" by (cases "candidates d") simp_all
  note s = sort_loop_sorts [OF l one]
  have "sort_key rank (candidates d) = sort_loop (candidates d) 1"
  proof (rule properties_for_sort_key)
    show "mset (sort_loop (candidates d) 1) = mset (candidates d)" using s by blast
    show "\<And>k. k \<in> set (sort_loop (candidates d) 1) \<Longrightarrow>
        filter (\<lambda>x. rank k = rank x) (sort_loop (candidates d) 1) = filter (\<lambda>x. rank k = rank x) (candidates d)"
      using s by blast
    show "sorted (map rank (sort_loop (candidates d) 1))" using s by blast
  qed
  then show ?thesis by (simp add: ice_sort_candidates_def)
qed

subsection \<open>Priorities\<close>

definition effective_preference :: "ice_candidate_type \<Rightarrow> ice_candidate_transport \<Rightarrow> nat" where
  "effective_preference type transport =
     unat (type_preference type) - (if transport = ICE_CANDIDATE_TRANSPORT_UDP then 0 else 50)"

definition local_preference :: "u16 \<Rightarrow> int \<Rightarrow> ice_candidate_transport \<Rightarrow> nat" where
  "local_preference family index transport =
     2 ^ 13 * unat (direction_preference transport) + unat (family_preference family) - nat (clamp index 0 4095)"

lemma unat_compose:
  assumes "unat a < 128" "unat b < 65536" "unat c < 256"
  shows "unat (push_bit 8 (push_bit 16 a + b) + c :: u32) = unat a * 2 ^ 24 + unat b * 2 ^ 8 + unat c"
  using assms by (simp add: push_bit_eq_mult unat_word_ariths)

lemma unat_type_penalty:
  "unat (if tr \<noteq> ICE_CANDIDATE_TRANSPORT_UDP
         then if type_preference ty \<ge> 50 then type_preference ty - 50 else 0 else type_preference ty)
   = effective_preference ty tr"
  by (cases ty) (auto simp: effective_preference_def)

lemma effective_preference_bound: "effective_preference ty tr \<le> 126"
  by (cases ty) (auto simp: effective_preference_def)

lemma clamp_range: "low \<le> high \<Longrightarrow> low \<le> clamp x low high \<and> clamp x low high \<le> high"
  by (auto simp: clamp_def)

lemma unat_local:
  assumes "family = AF_INET \<or> family = AF_INET6"
  shows "unat (push_bit 13 (direction_preference tr) + family_preference family - of_int (clamp i 0 4095))
      = local_preference family i tr" "local_preference family i tr < 65536"
proof -
  define ix where "ix = nat (clamp i 0 4095)"
  have ix: "ix \<le> 4095" "(of_int (clamp i 0 4095) :: u32) = of_nat ix"
    using clamp_range [of 0 4095 i] by (auto simp: ix_def)
  have u: "unat (of_nat ix :: u32) = ix" using ix(1) by (simp add: unsigned_of_nat take_bit_nat_eq_self)
  define b where "b = push_bit 13 (direction_preference tr) + family_preference family"
  have fam: "unat (family_preference family) = 4095 \<or> unat (family_preference family) = 8191"
    using assms by (auto simp: family_preference_def AF_INET_def AF_INET6_def)
  have dir: "unat (direction_preference tr) \<le> 6" by (cases tr) auto
  have b: "unat b = 2 ^ 13 * unat (direction_preference tr) + unat (family_preference family)"
    using fam dir by (auto simp: b_def push_bit_eq_mult unat_word_ariths)
  have "of_nat ix \<le> b" using b fam ix(1) u by (auto simp: word_le_nat_alt)
  then have "unat (b - of_nat ix) = unat b - ix" by (simp add: unat_sub u)
  then show "unat (push_bit 13 (direction_preference tr) + family_preference family - of_int (clamp i 0 4095))
      = local_preference family i tr" using b by (simp add: local_preference_def ix b_def ix_def)
  show "local_preference family i tr < 65536" using fam dir by (auto simp: local_preference_def)
qed

lemma priority_value:
  assumes "family = AF_INET \<or> family = AF_INET6"
  shows "unat (ice_compute_priority ty family cid i tr)
    = effective_preference ty tr * 2 ^ 24 + local_preference family i tr * 2 ^ 8 + nat (256 - clamp cid 1 256)"
proof -
  define k where "k = 256 - clamp cid 1 256"
  define c :: u32 where "c = of_int k"
  have "0 \<le> k" "k \<le> 255" using clamp_range [of 1 256 cid] by (simp_all add: k_def)
  then have c: "unat c = nat k" "unat c < 256"
    by (auto simp: c_def unsigned_of_int take_bit_int_eq_self)
  note l = unat_local [OF assms, where i = i and tr = tr]
  show ?thesis
    unfolding ice_compute_priority_def Let_def k_def [symmetric] c_def [symmetric]
    using unat_compose [of "if tr \<noteq> ICE_CANDIDATE_TRANSPORT_UDP
         then if type_preference ty \<ge> 50 then type_preference ty - 50 else 0 else type_preference ty"
        "push_bit 13 (direction_preference tr) + family_preference family - of_int (clamp i 0 4095)" c]
      unat_type_penalty [of tr ty] effective_preference_bound [of ty tr] l c by simp
qed

text \<open>Priorities of internet candidates: the computation on 32 bit words does not wrap, it puts type, local and
  component preference into disjoint fields below \<open>2 ^ 31\<close> as RFC 8445 asks, and hence a candidate with the
  better type preference wins whatever its address family, index and component.\<close>

theorem ice_priority_fields:
  assumes "family = AF_INET \<or> family = AF_INET6" and "family' = AF_INET \<or> family' = AF_INET6"
  shows "unat (ice_compute_priority ty family cid i tr) div 2 ^ 24 = effective_preference ty tr
    \<and> unat (ice_compute_priority ty family cid i tr) div 2 ^ 8 mod 2 ^ 16 = local_preference family i tr
    \<and> int (unat (ice_compute_priority ty family cid i tr) mod 2 ^ 8) = 256 - clamp cid 1 256
    \<and> unat (ice_compute_priority ty family cid i tr) < 2 ^ 31
    \<and> (effective_preference ty tr < effective_preference ty' tr' \<longrightarrow>
        ice_compute_priority ty family cid i tr < ice_compute_priority ty' family' cid' i' tr')"
proof -
  have decompose: "(e * 2 ^ 24 + l * 2 ^ 8 + k) div 2 ^ 24 = e \<and> (e * 2 ^ 24 + l * 2 ^ 8 + k) div 2 ^ 8 mod 2 ^ 16 = l
      \<and> (e * 2 ^ 24 + l * 2 ^ 8 + k) mod 2 ^ 8 = k" if "l < 65536" "k < 256" for e l k :: nat
  proof -
    have "e * 2 ^ 24 + l * 2 ^ 8 + k = (e * 2 ^ 16 + l) * 2 ^ 8 + k" by simp
    moreover have "((e * 2 ^ 16 + l) * 2 ^ 8 + k) div 2 ^ 8 = e * 2 ^ 16 + l" using that(2) by simp
    moreover have "((e * 2 ^ 16 + l) * 2 ^ 8 + k) mod 2 ^ 8 = k" using that(2) mod_mult_self3 [of "e * 2 ^ 16 + l" "2 ^ 8" k] by simp
    moreover have "(e * 2 ^ 24 + l * 2 ^ 8 + k) div 2 ^ 24 = e" using that by auto
    moreover have "(e * 2 ^ 16 + l) mod 2 ^ 16 = l" using that(1) by simp
    ultimately show ?thesis by metis
  qed
  have c: "0 \<le> 256 - clamp x 1 256" "nat (256 - clamp x 1 256) < 256" for x
    using clamp_range [of 1 256 x] by auto
  note v = priority_value [OF assms(1), where ty = ty and cid = cid and i = i and tr = tr]
    priority_value [OF assms(2), where ty = ty' and cid = cid' and i = i' and tr = tr']
  note l = unat_local(2) [OF assms(1), where i = i and tr = tr] unat_local(2) [OF assms(2), where i = i' and tr = tr']
  note e = effective_preference_bound [of ty tr]
  have dominate: "e * 2 ^ 24 + l * 2 ^ 8 + k < e' * 2 ^ 24 + l' * 2 ^ 8 + k'"
    if "e < e'" "l < 65536" "k < 256" for e e' l l' k k' :: nat
    using that mult_le_mono1 [of "Suc e" e' "2 ^ 24"] by simp
  have "ice_compute_priority ty family cid i tr < ice_compute_priority ty' family' cid' i' tr'"
    if "effective_preference ty tr < effective_preference ty' tr'"
    unfolding word_less_nat_alt v by (rule dominate [OF that l(1) c(2)])
  moreover have "unat (ice_compute_priority ty family cid i tr) < 2 ^ 31"
    unfolding v(1) using e l(1) c(2) [of cid] by simp
  ultimately show ?thesis
    using decompose [OF l(1) c(2), of "effective_preference ty tr" cid] c(1) [of cid] unfolding v(1) by simp
qed

theorem ice_priority_fields_witness:
  "ice_compute_priority ICE_CANDIDATE_TYPE_SERVER_REFLEXIVE AF_INET6 1 0 ICE_CANDIDATE_TRANSPORT_UDP
   < ice_compute_priority ICE_CANDIDATE_TYPE_HOST AF_INET 1 20 ICE_CANDIDATE_TRANSPORT_UDP"
  using ice_priority_fields [of AF_INET6 AF_INET ICE_CANDIDATE_TYPE_SERVER_REFLEXIVE 1 0 ICE_CANDIDATE_TRANSPORT_UDP
      ICE_CANDIDATE_TYPE_HOST ICE_CANDIDATE_TRANSPORT_UDP 1 20] by (simp add: effective_preference_def)

subsection \<open>Pairs\<close>

definition mirror :: "ice_candidate_pair \<Rightarrow> ice_candidate_pair" where
  "mirror p = p\<lparr>pair_local := pair_remote p, pair_remote := pair_local p\<rparr>"

text \<open>The two agents of a session give a pair the same priority: what the controlling one computes with local and
  remote candidate is what the controlled one computes with the two swapped.  For priorities below \<open>2 ^ 31\<close>
  the 64 bit sum does not wrap and is the formula of RFC 8445.\<close>

theorem pair_priority_agreed:
  assumes "pair_local p \<noteq> None \<or> pair_remote p \<noteq> None"
  shows "pair_priority (ice_update_candidate_pair p True) = pair_priority (ice_update_candidate_pair (mirror p) False)
    \<and> (\<forall>g d. g = unat (end_priority (pair_local p) (pair_remote p)) \<and> d = unat (end_priority (pair_remote p) (pair_local p))
        \<and> g < 2 ^ 31 \<and> d < 2 ^ 31 \<longrightarrow>
        unat (pair_priority (ice_update_candidate_pair p True)) = 2 ^ 32 * min g d + 2 * max g d + (if g > d then 1 else 0))"
proof -
  have "unat (pair_priority (ice_update_candidate_pair p True)) = 2 ^ 32 * min g d + 2 * max g d + (if g > d then 1 else 0)"
    if gd: "g = unat (end_priority (pair_local p) (pair_remote p))" "d = unat (end_priority (pair_remote p) (pair_local p))"
      "g < 2 ^ 31" "d < 2 ^ 31" for g d
  proof -
    define G D :: u64 where "G = ucast (end_priority (pair_local p) (pair_remote p))"
      and "D = ucast (end_priority (pair_remote p) (pair_local p))"
    have u: "unat G = g" "unat D = d" using gd by (simp_all add: G_def D_def unsigned_ucast_eq take_bit_nat_eq_self)
    have "unat (push_bit 32 x + push_bit 1 y + z) = 2 ^ 32 * unat x + 2 * unat y + unat z"
      if "unat x < 2 ^ 31" "unat y < 2 ^ 31" "unat z \<le> 1" for x y z :: u64
      using that by (simp add: push_bit_eq_mult unat_word_ariths)
    from this [of "if G < D then G else D" "if G > D then G else D" "if G > D then 1 else 0"] u gd(3,4) assms
    show ?thesis
      by (auto simp: ice_update_candidate_pair_def Let_def G_def [symmetric] D_def [symmetric] word_less_nat_alt)
  qed
  moreover have "pair_priority (ice_update_candidate_pair p True) = pair_priority (ice_update_candidate_pair (mirror p) False)"
    using assms by (auto simp: ice_update_candidate_pair_def mirror_def Let_def)
  ultimately show ?thesis by blast
qed

theorem pair_priority_agreed_witness:
  "\<exists>p. pair_local p \<noteq> None \<and> pair_priority (ice_update_candidate_pair p True) = pair_priority (ice_update_candidate_pair (mirror p) False)"
proof -
  let ?p = "\<lparr>pair_local = Some (zero_candidate\<lparr>cand_priority := 7\<rparr>), pair_remote = Some zero_candidate, pair_priority = 0,
    pair_state = ICE_CANDIDATE_PAIR_STATE_FROZEN, pair_nominated = False, pair_nomination_requested = False, pair_consent_expiry = 0\<rparr>"
  from pair_priority_agreed [of ?p] show ?thesis by (intro exI [of _ ?p]) simp
qed

end
