(* ===== verification/Ice_Roundtrip.thy ===== *)
theory Ice_Roundtrip
  imports Ice_Sdp Ice_Props
begin

text \<open>
  Printing and parsing fit together: a candidate line and a whole description are read back as what was
  printed, and printing never leaves its buffer.
\<close>

subsection \<open>Tokens and numbers\<close>

definition word_ok :: "nat \<Rightarrow> bytes \<Rightarrow> bool" where
  "word_ok n w \<longleftrightarrow> w \<noteq> [] \<and> length w \<le> n \<and> list_all (\<lambda>c. \<not> isspace c \<and> c \<noteq> 0) w"

definition at_space :: "bytes \<Rightarrow> bool" where
  "at_space s \<longleftrightarrow> s = [] \<or> isspace (hd s)"

lemma space_isspace [simp]: "isspace 0x20" "isspace 0x0D" "isspace 0x0A"
  by (simp_all add: isspace_def)

lemma at_space_simps [simp]: "at_space []" "at_space (0x20 # s)"
  by (simp_all add: at_space_def)

lemma takeWhile_token:
  assumes "list_all P w" "s = [] \<or> \<not> P (hd s)"
  shows "takeWhile P (w @ s) = w"
  using assms by (induction w) (cases s; auto)+

lemma scan_string_token:
  assumes "word_ok n w" "at_space s"
  shows "scan_string n (w @ s) = Some (w, s)" "scan_string n (0x20 # w @ s) = Some (w, s)"
proof -
  have w: "w \<noteq> []" "length w \<le> n" "list_all (\<lambda>c. \<not> isspace c) w" using assms(1) by (auto simp: word_ok_def list_all_iff)
  have "\<not> isspace (hd w)" using w(1,3) by (cases w) auto
  then have skip: "skip_space (w @ s) = w @ s" "skip_space (0x20 # w @ s) = w @ s"
    using w(1) by (cases w; simp add: skip_space_def)+
  have "takeWhile (\<lambda>c. \<not> isspace c) (w @ s) = w"
    using takeWhile_token [OF w(3)] assms(2) by (simp add: at_space_def)
  then show "scan_string n (w @ s) = Some (w, s)" "scan_string n (0x20 # w @ s) = Some (w, s)"
    using w by (cases n; simp add: scan_string_def skip Let_def)+
qed

lemma scan_string_end: "scan_string n [] = None"
  by (simp add: scan_string_def skip_space_def Let_def)

lemma digit_value:
  assumes "n < 10"
  shows "isdigit (0x30 + of_nat n)" "unat (0x30 + of_nat n - 0x30 :: byte) = n"
proof -
  have u: "unat (0x30 + of_nat n :: byte) = 48 + n" "unat (of_nat n :: byte) = n"
    using assms by (simp_all add: unat_word_ariths unsigned_of_nat take_bit_nat_eq_self)
  show "isdigit (0x30 + of_nat n)" using assms u by (simp add: isdigit_def word_le_nat_alt)
  show "unat (0x30 + of_nat n - 0x30 :: byte) = n" using u by simp
qed

lemma dec_digits: "dec n \<noteq> [] \<and> list_all isdigit (dec n)"
proof (induction n rule: dec.induct)
  case (1 n)
  then show ?case by (subst (1 2) dec.simps) (auto simp: digit_value)
qed

lemma dec_value: "digits_value (dec n) = n"
proof (induction n rule: dec.induct)
  case (1 n)
  have "unat (of_nat m :: byte) = m" if "m < 10" for m
    using that by (simp add: unsigned_of_nat take_bit_nat_eq_self)
  then show ?case using 1 by (subst dec.simps) (auto simp: digits_value_def)
qed

lemma digit_not_special:
  assumes "isdigit c"
  shows "\<not> isspace c" "c \<noteq> 0x2D" "c \<noteq> 0x2B" "c \<noteq> 0" "c \<noteq> 0x0A" "c \<noteq> 0x0D"
proof -
  have "0x30 \<le> c" using assms by (simp add: isdigit_def)
  then show "\<not> isspace c" "c \<noteq> 0x2D" "c \<noteq> 0x2B" "c \<noteq> 0" "c \<noteq> 0x0A" "c \<noteq> 0x0D"
    by (auto simp: isspace_def word_le_nat_alt)
qed

lemma scan_number_dec:
  assumes "at_space s"
  shows "scan_number (0x20 # dec n @ s) = Some (False, n, s)"
proof -
  obtain c ds where d: "dec n = c # ds" using dec_digits [of n] by (cases "dec n") auto
  have c: "isdigit c" using dec_digits [of n] d by simp
  note special = digit_not_special [OF c]
  have skip: "skip_space (0x20 # dec n @ s) = dec n @ s" using special by (simp add: skip_space_def d)
  have "\<not> isdigit (hd s)" if "s \<noteq> []" using assms that digit_not_special(1) by (auto simp: at_space_def)
  then have "takeWhile isdigit (dec n @ s) = dec n" using takeWhile_token [of isdigit "dec n" s] dec_digits [of n] by blast
  then show ?thesis unfolding scan_number_def skip Let_def using special dec_value [of n] by (simp add: d)
qed

lemma scan_d_dec: "at_space s \<Longrightarrow> n < 2 ^ 31 \<Longrightarrow> scan_d (0x20 # dec n @ s) = Some (int n, s)"
  by (simp add: scan_d_def scan_number_dec signed_of_int signed_take_bit_int_eq_self min_def)

lemma scan_u_dec: 
  assumes "at_space s"
  shows "scan_u (0x20 # dec (unat (p :: u32)) @ s) = Some (p, s)"
proof -
  have "unat p < 2 ^ 32" using unsigned_less [of p] by simp
  then show ?thesis using assms by (simp add: scan_u_def scan_number_dec)
qed

subsection \<open>Candidates\<close>

text \<open>What the fields of a candidate that fits the C structure look like: the strings are non-empty words that fit
  their arrays, the type and the transport are among those that are signalled.\<close>

definition candidate_ok :: "ice_candidate \<Rightarrow> bool" where
  "candidate_ok c \<longleftrightarrow>
     cand_type c \<in> {ICE_CANDIDATE_TYPE_HOST, ICE_CANDIDATE_TYPE_SERVER_REFLEXIVE, ICE_CANDIDATE_TYPE_RELAYED}
     \<and> cand_transport c \<in> {ICE_CANDIDATE_TRANSPORT_UDP, ICE_CANDIDATE_TRANSPORT_TCP_TYPE_ACTIVE}
     \<and> 0 \<le> cand_component c \<and> cand_component c < 2 ^ 31
     \<and> word_ok 32 (cand_foundation c) \<and> word_ok 256 (cand_hostname c) \<and> word_ok 32 (cand_service c)"

lemma skip_prefix_append [simp]: "skip_prefix (p @ s) p = s"
  by (simp add: skip_prefix_def)

lemma word_ok_literals:
  "word_ok 32 (str_bytes ''UDP'')" "word_ok 32 (str_bytes ''TCP'')"
  "word_ok 32 (str_bytes ''host'')" "word_ok 32 (str_bytes ''srflx'')" "word_ok 32 (str_bytes ''relay'')"
  by code_simp+

lemma scan_extension_suffix:
  "scan_extension [] = Some []"
  "scan_extension (0x20 # str_bytes ''raddr 0.0.0.0 rport 0'') = Some (str_bytes ''0.0.0.0'')"
  "scan_extension (0x20 # str_bytes ''tcptype active'') = Some (str_bytes ''active'')"
  by code_simp+

lemma scan_typ: "scan_word (str_bytes ''typ'') (str_bytes '' typ '' @ s) = Some (0x20 # s)"
  by (simp add: scan_word_def skip_space_def str_bytes_def isspace_def)

lemma scan_candidate_fields:
  assumes ok: "word_ok 32 f" "n < 2 ^ 31" "word_ok 32 tr" "word_ok 256 h" "word_ok 32 sv" "word_ok 32 ty"
    and ext: "at_space s" "scan_extension s = Some e"
  shows "scan_candidate (f @ [0x20] @ dec n @ [0x20] @ tr @ [0x20] @ dec (unat p) @ [0x20] @ h @ [0x20] @ sv
           @ str_bytes '' typ '' @ ty @ s) = Some (f, int n, tr, p, h, sv, ty, e)"
proof -
  have tsp: "at_space (str_bytes '' typ '' @ ty @ s)" by (simp add: str_bytes_def)
  show ?thesis
    using scan_string_token(1) [OF ok(1), of "0x20 # dec n @ 0x20 # tr @ 0x20 # dec (unat p) @ 0x20 # h @ 0x20 # sv @ str_bytes '' typ '' @ ty @ s"]
      scan_d_dec [OF _ ok(2), of "0x20 # tr @ 0x20 # dec (unat p) @ 0x20 # h @ 0x20 # sv @ str_bytes '' typ '' @ ty @ s"]
      scan_string_token(2) [OF ok(3), of "0x20 # dec (unat p) @ 0x20 # h @ 0x20 # sv @ str_bytes '' typ '' @ ty @ s"]
      scan_u_dec [of "0x20 # h @ 0x20 # sv @ str_bytes '' typ '' @ ty @ s" p]
      scan_string_token(2) [OF ok(4), of "0x20 # sv @ str_bytes '' typ '' @ ty @ s"]
      scan_string_token(2) [OF ok(5) tsp] scan_string_token(2) [OF ok(6) ext(1)] ext(2)
    by (simp add: scan_candidate_def scan_typ)
qed

lemma parse_type_text:
  assumes "cand_type c \<in> {ICE_CANDIDATE_TYPE_HOST, ICE_CANDIDATE_TYPE_SERVER_REFLEXIVE, ICE_CANDIDATE_TYPE_RELAYED}"
  obtains ty sf where "type_text (cand_type c) = Some (ty, sf)" "word_ok 32 ty"
    "parse_type (map tolower ty) = Some (cand_type c)" "sf = None \<or> sf = Some (str_bytes ''raddr 0.0.0.0 rport 0'')"
proof -
  have "parse_type (map tolower (str_bytes ''host'')) = Some ICE_CANDIDATE_TYPE_HOST"
    "parse_type (map tolower (str_bytes ''srflx'')) = Some ICE_CANDIDATE_TYPE_SERVER_REFLEXIVE"
    "parse_type (map tolower (str_bytes ''relay'')) = Some ICE_CANDIDATE_TYPE_RELAYED"
    by code_simp+
  then show ?thesis using assms that word_ok_literals by (auto simp: type_text_def)
qed

lemma parse_transport_text:
  assumes "cand_transport c \<in> {ICE_CANDIDATE_TRANSPORT_UDP, ICE_CANDIDATE_TRANSPORT_TCP_TYPE_ACTIVE}"
    and "sf = None \<or> sf = Some (str_bytes ''raddr 0.0.0.0 rport 0'')"
  obtains tr sf' e where "transport_text (cand_transport c) sf = Some (tr, sf')" "word_ok 32 tr"
    "scan_extension (case sf' of None \<Rightarrow> [] | Some s \<Rightarrow> [0x20] @ s) = Some e"
    "parse_transport (map toupper tr) e = Some (cand_transport c)"
proof -
  have "parse_transport (map toupper (str_bytes ''UDP'')) [] = Some ICE_CANDIDATE_TRANSPORT_UDP"
    "parse_transport (map toupper (str_bytes ''UDP'')) (str_bytes ''0.0.0.0'') = Some ICE_CANDIDATE_TRANSPORT_UDP"
    "parse_transport (map toupper (str_bytes ''TCP'')) (str_bytes ''active'') = Some ICE_CANDIDATE_TRANSPORT_TCP_TYPE_ACTIVE"
    by code_simp+
  then show ?thesis
    using assms that scan_extension_suffix word_ok_literals by (auto simp: transport_text_def)
qed

lemma candidate_text_parses:
  assumes "candidate_ok c"
  shows "\<exists>body. candidate_text c = Some (str_bytes ''a=candidate:'' @ body)
    \<and> parse_sdp_candidate (str_bytes ''a=candidate:'' @ body) = Inr (c\<lparr>cand_resolved := empty_record\<rparr>)"
proof -
  note ok = assms [unfolded candidate_ok_def]
  obtain ty sf where ty: "type_text (cand_type c) = Some (ty, sf)" "word_ok 32 ty"
    "parse_type (map tolower ty) = Some (cand_type c)" "sf = None \<or> sf = Some (str_bytes ''raddr 0.0.0.0 rport 0'')"
    using parse_type_text ok by blast
  obtain tr sf' e where tr: "transport_text (cand_transport c) sf = Some (tr, sf')" "word_ok 32 tr"
    "scan_extension (case sf' of None \<Rightarrow> [] | Some s \<Rightarrow> [0x20] @ s) = Some e"
    "parse_transport (map toupper tr) e = Some (cand_transport c)"
    using parse_transport_text ok ty(4) by blast
  have n: "nat (cand_component c) < 2 ^ 31" "unat (of_int (cand_component c) :: u32) = nat (cand_component c)"
    using ok by (auto simp: nat_less_iff unsigned_of_int take_bit_int_eq_self)
  have sp: "at_space (case sf' of None \<Rightarrow> [] | Some s \<Rightarrow> [0x20] @ s)" by (simp split: option.split)
  let ?body = "cand_foundation c @ [0x20] @ dec (nat (cand_component c)) @ [0x20] @ tr @ [0x20] @ dec (unat (cand_priority c))
    @ [0x20] @ cand_hostname c @ [0x20] @ cand_service c @ str_bytes '' typ '' @ ty @ (case sf' of None \<Rightarrow> [] | Some s \<Rightarrow> [0x20] @ s)"
  have text_eq: "candidate_text c = Some (str_bytes ''a=candidate:'' @ ?body)"
    by (simp add: candidate_text_def ty(1) tr(1) n(2))
  have "str_bytes ''a=candidate:'' = str_bytes ''a='' @ str_bytes ''candidate:''" by (simp add: str_bytes_def)
  then have "parse_sdp_candidate (str_bytes ''a=candidate:'' @ ?body) = Inr (c\<lparr>cand_resolved := empty_record\<rparr>)"
    using scan_candidate_fields [OF _ n(1) tr(2) _ _ ty(2) sp tr(3), of "cand_foundation c" "cand_hostname c" "cand_service c" "cand_priority c"]
      ok ty(3) tr(4)
    by (simp add: parse_sdp_candidate_def Let_def zero_candidate_def)
  with text_eq show ?thesis by blast
qed

text \<open>A line of SDP: something printable without line breaks that fits the line buffer.\<close>

definition line_ok :: "bytes \<Rightarrow> bool" where
  "line_ok l \<longleftrightarrow> l \<noteq> [] \<and> length l < BUFFER_SIZE \<and> list_all (\<lambda>c. c \<noteq> 0 \<and> c \<noteq> 0x0A \<and> c \<noteq> 0x0D) l"

lemma word_plain:
  assumes "word_ok n w"
  shows "list_all (\<lambda>c. c \<noteq> 0 \<and> c \<noteq> 0x0A \<and> c \<noteq> 0x0D) w" "length w \<le> n"
  using assms by (auto simp: word_ok_def list_all_iff)

lemma dec_plain: "list_all (\<lambda>c. c \<noteq> 0 \<and> c \<noteq> 0x0A \<and> c \<noteq> 0x0D) (dec n)"
  using dec_digits [of n] digit_not_special by (auto simp: list_all_iff)

lemma dec_length: "n < 10 ^ k \<Longrightarrow> 0 < k \<Longrightarrow> length (dec n) \<le> k"
proof (induction n arbitrary: k rule: dec.induct)
  case (1 n)
  show ?case
  proof (cases "n < 10")
    case True
    then show ?thesis using 1(3) by (subst dec.simps) simp
  next
    case False
    with 1(2,3) obtain j where j: "k = Suc j" "0 < j" by (cases k; cases "k - 1") auto
    have "n div 10 < 10 ^ j" using 1(2) j by (simp add: div_less_iff_less_mult mult.commute)
    with 1(1) [OF False] j have "length (dec (n div 10)) \<le> j" by blast
    then show ?thesis using False j by (subst dec.simps) simp
  qed
qed

lemma literal_plain:
  "list_all (\<lambda>c. c \<noteq> 0 \<and> c \<noteq> 0x0A \<and> c \<noteq> 0x0D) (str_bytes ''a=candidate:'')"
  "list_all (\<lambda>c. c \<noteq> 0 \<and> c \<noteq> 0x0A \<and> c \<noteq> 0x0D) (str_bytes '' typ '')"
  "list_all (\<lambda>c. c \<noteq> 0 \<and> c \<noteq> 0x0A \<and> c \<noteq> 0x0D) (str_bytes ''raddr 0.0.0.0 rport 0'')"
  "list_all (\<lambda>c. c \<noteq> 0 \<and> c \<noteq> 0x0A \<and> c \<noteq> 0x0D) (str_bytes ''tcptype active'')"
  by code_simp+

lemma literal_length:
  "length (str_bytes ''a=candidate:'') = 12" "length (str_bytes '' typ '') = 5"
  "length (str_bytes ''raddr 0.0.0.0 rport 0'') = 21" "length (str_bytes ''tcptype active'') = 14"
  by code_simp+

lemma type_text_plain:
  "type_text t = Some (ty, sf) \<Longrightarrow> list_all (\<lambda>c. c \<noteq> 0 \<and> c \<noteq> 0x0A \<and> c \<noteq> 0x0D) ty \<and> length ty \<le> 5
     \<and> (sf = None \<or> sf = Some (str_bytes ''raddr 0.0.0.0 rport 0''))"
  by (auto simp: type_text_def str_bytes_def split: ice_candidate_type.splits)

lemma transport_text_plain:
  "transport_text t sf = Some (tr, sf') \<Longrightarrow> list_all (\<lambda>c. c \<noteq> 0 \<and> c \<noteq> 0x0A \<and> c \<noteq> 0x0D) tr \<and> length tr = 3
     \<and> (sf' = sf \<or> sf' = Some (str_bytes ''tcptype active''))"
  by (auto simp: transport_text_def str_bytes_def split: ice_candidate_transport.splits)

lemma candidate_line_ok:
  assumes "candidate_ok c" "candidate_text c = Some l"
  shows "line_ok l"
proof -
  note ok = assms(1) [unfolded candidate_ok_def]
  from assms(2) obtain ty sf tr sf' where
    ty: "type_text (cand_type c) = Some (ty, sf)" and tr: "transport_text (cand_transport c) sf = Some (tr, sf')"
    and l: "l = str_bytes ''a=candidate:'' @ cand_foundation c @ [0x20] @ dec (unat (of_int (cand_component c) :: u32)) @ [0x20]
                @ tr @ [0x20] @ dec (unat (cand_priority c)) @ [0x20] @ cand_hostname c @ [0x20] @ cand_service c
                @ str_bytes '' typ '' @ ty @ (case sf' of None \<Rightarrow> [] | Some sf \<Rightarrow> [0x20] @ sf)"
    by (auto simp: candidate_text_def bind_eq_Some_conv)
  have words: "word_ok 32 (cand_foundation c)" "word_ok 256 (cand_hostname c)" "word_ok 32 (cand_service c)" using ok by auto
  have digits: "length (dec (unat (w :: u32))) \<le> 10" for w
  proof -
    have "unat w < 2 ^ 32" using unsigned_less [of w] by simp
    then show ?thesis using dec_length [of "unat w" 10] by simp
  qed
  have sf: "sf' = None \<or> sf' = Some (str_bytes ''raddr 0.0.0.0 rport 0'') \<or> sf' = Some (str_bytes ''tcptype active'')"
    using type_text_plain [OF ty] transport_text_plain [OF tr] by auto
  have "list_all (\<lambda>c. c \<noteq> 0 \<and> c \<noteq> 0x0A \<and> c \<noteq> 0x0D) l"
    using sf type_text_plain [OF ty] transport_text_plain [OF tr] words [THEN word_plain(1)] dec_plain literal_plain
    by (auto simp: l)
  moreover have "length l < BUFFER_SIZE"
    using sf type_text_plain [OF ty] transport_text_plain [OF tr] words [THEN word_plain(2)]
      digits [of "of_int (cand_component c)"] digits [of "cand_priority c"]
    by (auto simp: l literal_length BUFFER_SIZE_def)
  moreover have "l \<noteq> []" by (simp add: l str_bytes_def)
  ultimately show ?thesis by (simp add: line_ok_def)
qed

lemma str_bytes_Cons_not_Nil [simp]: "str_bytes (x # xs) \<noteq> []"
  by (simp add: str_bytes_def)

lemma match_prefix_append [simp]: "p \<noteq> [] \<Longrightarrow> match_prefix (p @ s) p = Some s"
  by (simp add: match_prefix_def Let_def)

lemma candidate_line_parses:
  assumes "candidate_ok c" "candidate_text c = Some l"
  shows "ice_parse_candidate_sdp g l = Inr (snd (ice_resolve_candidate g (c\<lparr>cand_resolved := empty_record\<rparr>) False))"
  using candidate_text_parses [OF assms(1)] assms(2) by (auto simp: ice_parse_candidate_sdp_def)

lemma line_cstr: "line_ok l \<Longrightarrow> cstr (l @ 0 # r) = l" "line_ok l \<Longrightarrow> snprintf BUFFER_SIZE l = (int (length l), l @ [0])"
  by (auto simp: line_ok_def list_all_iff cstr_append_0 snprintf_whole)

text \<open>(C20) A candidate the agent signals is read back by the other side: the printed line fits the line buffer, and
  parsing it gives type, transport, priority, component, foundation, host and service unchanged, with the address
  resolved anew from host and service.\<close>

theorem candidate_sdp_roundtrip:
  assumes "candidate_ok c"
  shows "\<exists>l. ice_generate_candidate_sdp c BUFFER_SIZE = (int (length l), l @ [0]) \<and> line_ok l
    \<and> ice_parse_candidate_sdp getaddrinfo (cstr (snd (ice_generate_candidate_sdp c BUFFER_SIZE)))
      = Inr (snd (ice_resolve_candidate getaddrinfo (c\<lparr>cand_resolved := empty_record\<rparr>) False))"
proof -
  obtain l where l: "candidate_text c = Some l" using candidate_text_parses [OF assms] by blast
  note ok = candidate_line_ok [OF assms l]
  have "ice_generate_candidate_sdp c BUFFER_SIZE = (int (length l), l @ [0])"
    by (simp add: ice_generate_candidate_sdp_def l line_cstr(2) [OF ok])
  then show ?thesis using ok candidate_line_parses [OF assms l] line_cstr(1) [OF ok] by simp
qed

definition sample_candidate :: ice_candidate where
  "sample_candidate = zero_candidate\<lparr>cand_type := ICE_CANDIDATE_TYPE_SERVER_REFLEXIVE, cand_priority := 1686052607,
     cand_component := 1, cand_foundation := str_bytes ''2'', cand_hostname := str_bytes ''192.0.2.7'',
     cand_service := str_bytes ''50000''\<rparr>"

lemma sample_candidate_ok: "candidate_ok sample_candidate"
  by code_simp

theorem candidate_sdp_roundtrip_witness:
  "\<exists>l. ice_generate_candidate_sdp sample_candidate BUFFER_SIZE = (int (length l), l @ [0]) \<and> line_ok l
    \<and> ice_parse_candidate_sdp (\<lambda>_ _ _ _. None) (cstr (snd (ice_generate_candidate_sdp sample_candidate BUFFER_SIZE)))
      = Inr (snd (ice_resolve_candidate (\<lambda>_ _ _ _. None) (sample_candidate\<lparr>cand_resolved := empty_record\<rparr>) False))"
  by (rule candidate_sdp_roundtrip [OF sample_candidate_ok])

subsection \<open>Printing a description\<close>

definition candidate_line :: "ice_candidate \<Rightarrow> bytes" where
  "candidate_line c =
     (if cand_type c = ICE_CANDIDATE_TYPE_UNKNOWN \<or> cand_type c = ICE_CANDIDATE_TYPE_PEER_REFLEXIVE then []
      else case candidate_text c of None \<Rightarrow> [] | Some t \<Rightarrow> cstr (snd (snprintf BUFFER_SIZE t)) @ [0x0D, 0x0A])"

definition sdp_text :: "ice_description \<Rightarrow> bytes" where
  "sdp_text d = (if ice_lite d then lite_text else credentials_text d)
     @ concat (map candidate_line (candidates d)) @ options_text d"

text \<open>What the rounds of the printing loop keep: the buffer holds as much of the text so far as fits.\<close>

definition printed :: "nat \<Rightarrow> bytes \<Rightarrow> int \<times> nat \<times> bytes \<Rightarrow> bool" where
  "printed n t st \<longleftrightarrow> (case st of (len, pos, buf) \<Rightarrow>
     len = int (length t) \<and> length buf = n \<and> pos = min (length t) (n - 1) \<and> take pos buf = take pos t)"

lemma print_round_printed:
  assumes "printed n t st"
  shows "printed n (t @ x) (print_round x st)
    \<and> (0 < n \<longrightarrow> take (Suc (min (length (t @ x)) (n - 1))) (snd (snd (print_round x st))) = take (n - 1) (t @ x) @ [0])"
proof -
  obtain len pos buf where st: "st = (len, pos, buf)" by (cases st)
  note p = assms [unfolded printed_def st, simplified]
  show ?thesis
  proof (cases "n = 0")
    case True
    then show ?thesis using p by (simp add: st printed_def print_round_def snprintf_def Let_def buf_write_def)
  next
    case False
    let ?out = "take (n - pos - 1) x @ [0]"
    have pos: "pos < n" "pos = min (length t) (n - 1)" using p False by auto
    have fits: "pos + length ?out \<le> length buf" using pos p by auto
    have ends: "pos + length (take (n - pos - 1) x) = min (length (t @ x)) (n - 1)" using pos by (auto simp: min_def)
    have round: "print_round x st = (len + int (length x), pos + length (take (n - pos - 1) x), buf_write buf pos ?out)"
    proof -
      have "length buf = n" using p by simp
      moreover have "(if int (length x) \<ge> int (n - pos) then pos + (n - pos - 1) else pos + nat (int (length x)))
        = pos + length (take (n - pos - 1) x)"
      proof (cases "length x < n - pos")
        case True
        then have "\<not> int (length x) \<ge> int (n - pos)" by linarith
        then show ?thesis using True by (simp only: if_False) simp
      next
        case False
        then have "min (length x) (n - pos - 1) = n - pos - 1" by simp
        then show ?thesis using False by simp
      qed
      ultimately show ?thesis using pos(1) by (simp add: st print_round_def snprintf_def Let_def)
    qed
    have whole: "take pos t @ take (n - pos - 1) x = take (n - 1) (t @ x)" using pos by (cases "length t \<le> n - 1") auto
    have "pos + length ?out = Suc (min (length (t @ x)) (n - 1))" using ends by simp
    moreover have "take pos buf @ ?out = take (n - 1) (t @ x) @ [0]"
      unfolding whole [symmetric] using p by (metis append.assoc)
    ultimately have written: "take (Suc (min (length (t @ x)) (n - 1))) (buf_write buf pos ?out) = take (n - 1) (t @ x) @ [0]"
      using take_buf_write [OF fits] by simp
    have prefix: "take (min (length y) k) b = take (min (length y) k) y"
      if "take (Suc (min (length y) k)) b = take k y @ [0]" for k and b y :: bytes
    proof -
      have "take (min (length y) k) b = take (min (length y) k) (take k y @ [0])" by (simp flip: that)
      also have "\<dots> = take (min (length y) k) y" by (simp add: min_def)
      finally show ?thesis .
    qed
    have len: "len + int (length x) = int (length (t @ x))" "length (buf_write buf pos ?out) = n"
      using p fits by (simp_all only: length_buf_write length_append of_nat_add)
    show ?thesis
      unfolding round printed_def prod.case snd_conv ends using prefix [OF written] written len by blast
  qed
qed

lemma print_candidate_printed: "printed n t st \<Longrightarrow> printed n (t @ candidate_line c) (print_candidate c st)"
  using print_round_printed [of n t st] 
  by (auto simp: print_candidate_def candidate_line_def ice_generate_candidate_sdp_def snprintf_def Let_def split: option.split)

lemma print_candidates_printed:
  "printed n t st \<Longrightarrow> printed n (t @ concat (map candidate_line cs)) (fold print_candidate cs st)"
proof (induction cs arbitrary: t st)
  case (Cons c cs)
  from Cons.IH [OF print_candidate_printed [OF Cons.prems, of c]] show ?case by simp
qed simp

lemma print_first_printed:
  "printed (length buf) (if ice_lite d then lite_text else credentials_text d) (print_first d (0, 0, buf))"
proof -
  have start: "printed (length b) [] (0, 0, b)" for b by (simp add: printed_def)
  have "length (buf_write buf 0 (snd (snprintf (length buf) (credentials_text d)))) = length buf"
    using snprintf_fits(1) [of "length buf" "credentials_text d"] by simp
  then show ?thesis using start print_round_printed [of "length buf" "[]"] by (auto simp: print_first_def) metis+
qed

lemma generate_sdp_whole:
  assumes "ice_ufrag d \<noteq> []" "ice_pwd d \<noteq> []"
  obtains out where "ice_generate_sdp d buf = (int (length (sdp_text d)), out)" "length out = length buf"
    "buf \<noteq> [] \<Longrightarrow> take (Suc (min (length (sdp_text d)) (length buf - 1))) out = take (length buf - 1) (sdp_text d) @ [0]"
proof -
  let ?st = "fold print_candidate (candidates d) (print_first d (0, 0, buf))"
  have "printed (length buf) ((if ice_lite d then lite_text else credentials_text d) @ concat (map candidate_line (candidates d))) ?st"
    by (rule print_candidates_printed [OF print_first_printed])
  from print_round_printed [OF this, of "options_text d"]
  have fin: "printed (length buf) (sdp_text d) (print_round (options_text d) ?st)"
    "0 < length buf \<longrightarrow> take (Suc (min (length (sdp_text d)) (length buf - 1))) (snd (snd (print_round (options_text d) ?st)))
      = take (length buf - 1) (sdp_text d) @ [0]"
    by (simp_all add: sdp_text_def)
  obtain len pos out where out: "print_round (options_text d) ?st = (len, pos, out)" by (cases "print_round (options_text d) ?st")
  then have "ice_generate_sdp d buf = (len, out)" using assms by (auto simp: ice_generate_sdp_def)
  then show ?thesis using fin unfolding out by (intro that [of out]) (auto simp: printed_def)
qed

text \<open>(C21) Printing a description piece by piece is one bounded \<^verbatim>\<open>snprintf\<close> of the whole text: for every buffer size
  the result is the length of the whole text, the buffer keeps its length, and what it holds is the longest prefix of
  the text that leaves room for the terminating zero, then that zero.\<close>

theorem ice_generate_sdp_is_snprintf:
  "ice_generate_sdp d buf = (-1, buf) \<and> (ice_ufrag d = [] \<or> ice_pwd d = [])
    \<or> (\<exists>out. ice_generate_sdp d buf = (fst (snprintf (length buf) (sdp_text d)), out) \<and> length out = length buf
        \<and> (buf = [] \<or> take (Suc (min (length (sdp_text d)) (length buf - 1))) out = snd (snprintf (length buf) (sdp_text d))))"
proof (cases "ice_ufrag d = [] \<or> ice_pwd d = []")
  case True
  then show ?thesis by (simp add: ice_generate_sdp_def)
next
  case False
  then obtain out where "ice_generate_sdp d buf = (int (length (sdp_text d)), out)" "length out = length buf"
    "buf \<noteq> [] \<Longrightarrow> take (Suc (min (length (sdp_text d)) (length buf - 1))) out = take (length buf - 1) (sdp_text d) @ [0]"
    using generate_sdp_whole [of d buf] by blast
  then show ?thesis by (cases "buf = []") (auto simp: snprintf_def)
qed

subsection \<open>Reading a description back\<close>

lemma parse_sdp_line_never_fails: "fst (parse_sdp_line g l d) \<noteq> ICE_PARSE_ERROR"
  by (simp add: parse_sdp_line_def ice_codes split: option.split sum.split)

lemma parse_sdp_loop_buffer:
  assumes "list_all (\<lambda>c. c \<noteq> 0 \<and> c \<noteq> 0x0A \<and> c \<noteq> 0x0D) l" "length (buffer @ l) < BUFFER_SIZE"
  shows "parse_sdp_loop g (l @ rest) buffer d = parse_sdp_loop g rest (buffer @ l) d"
  using assms by (induction l arbitrary: buffer) auto

lemma parse_sdp_loop_line:
  assumes "line_ok l"
  shows "parse_sdp_loop g (l @ 0x0D # 0x0A # rest) [] d = parse_sdp_loop g rest [] (snd (parse_sdp_line g l d))"
proof -
  obtain ret d' where r: "parse_sdp_line g l d = (ret, d')" by (cases "parse_sdp_line g l d")
  then have "ret \<noteq> ICE_PARSE_ERROR" using parse_sdp_line_never_fails [of g l d] by simp
  then show ?thesis using assms parse_sdp_loop_buffer [of l "[]"] r by (simp add: line_ok_def)
qed

lemma parse_sdp_loop_lines:
  assumes "list_all line_ok ls"
  shows "parse_sdp_loop g (concat (map (\<lambda>l. l @ [0x0D, 0x0A]) ls)) [] d = Inr (fold (\<lambda>l d. snd (parse_sdp_line g l d)) ls d)"
  using assms by (induction ls arbitrary: d) (simp_all add: parse_sdp_loop_line)

text \<open>A description that can be signalled: credentials that fit, at most thirty candidates, those that are printed well formed and numbered.\<close>

definition signalled :: "ice_candidate \<Rightarrow> bool" where
  "signalled c \<longleftrightarrow> cand_type c \<noteq> ICE_CANDIDATE_TYPE_UNKNOWN \<and> cand_type c \<noteq> ICE_CANDIDATE_TYPE_PEER_REFLEXIVE"

definition description_ok :: "ice_description \<Rightarrow> bool" where
  "description_ok d \<longleftrightarrow> word_ok 256 (ice_ufrag d) \<and> word_ok 256 (ice_pwd d) \<and> length (candidates d) \<le> ICE_MAX_CANDIDATES_COUNT
     \<and> list_all (\<lambda>c. candidate_ok c \<and> cand_foundation c \<noteq> [0x2D]) (filter signalled (candidates d))"

definition description_lines :: "ice_description \<Rightarrow> bytes list" where
  "description_lines d =
     (if ice_lite d then [str_bytes ''a=ice-lite''] else [str_bytes ''a=ice-ufrag:'' @ ice_ufrag d, str_bytes ''a=ice-pwd:'' @ ice_pwd d])
     @ map (\<lambda>c. the (candidate_text c)) (filter signalled (candidates d))
     @ (if ice_finished d then [str_bytes ''a=end-of-candidates'', str_bytes ''a=ice-options:ice2'']
        else [str_bytes ''a=ice-options:ice2,trickle''])"

lemma candidate_lines_text:
  "list_all candidate_ok (filter signalled cs) \<Longrightarrow> concat (map candidate_line cs)
     = concat (map (\<lambda>l. l @ [0x0D, 0x0A]) (map (\<lambda>c. the (candidate_text c)) (filter signalled cs)))"
proof (induction cs)
  case (Cons c cs)
  show ?case
  proof (cases "signalled c")
    case True
    with Cons.prems have ok: "candidate_ok c" by simp
    then obtain l where l: "candidate_text c = Some l" using candidate_text_parses by blast
    note lc = line_cstr [OF candidate_line_ok [OF ok l]]
    have "candidate_line c = l @ [0x0D, 0x0A]" using True l lc by (simp add: candidate_line_def signalled_def)
    then show ?thesis using Cons True l by simp
  next
    case False
    then have "candidate_line c = []" by (auto simp: candidate_line_def signalled_def)
    then show ?thesis using Cons False by simp
  qed
qed simp

lemma description_text:
  "description_ok d \<Longrightarrow> sdp_text d = concat (map (\<lambda>l. l @ [0x0D, 0x0A]) (description_lines d))"
  using candidate_lines_text [of "candidates d"]
  by (auto simp: sdp_text_def description_lines_def description_ok_def lite_text_def credentials_text_def options_text_def list_all_iff)

lemma fixed_lines_ok:
  "line_ok (str_bytes ''a=ice-lite'')" "line_ok (str_bytes ''a=end-of-candidates'')"
  "line_ok (str_bytes ''a=ice-options:ice2'')" "line_ok (str_bytes ''a=ice-options:ice2,trickle'')"
  by code_simp+

lemma field_lines_ok:
  assumes "word_ok 256 w"
  shows "line_ok (str_bytes ''a=ice-ufrag:'' @ w)" "line_ok (str_bytes ''a=ice-pwd:'' @ w)"
  using word_plain [OF assms] by (simp_all add: line_ok_def str_bytes_def BUFFER_SIZE_def)

lemma description_lines_ok:
  assumes "description_ok d"
  shows "list_all line_ok (description_lines d)"
proof -
  have "line_ok (the (candidate_text c))" if "candidate_ok c" for c
    using candidate_line_ok [OF that] candidate_text_parses [OF that] by auto
  then show ?thesis using assms fixed_lines_ok field_lines_ok
    by (auto simp: description_lines_def description_ok_def list_all_iff)
qed

lemma parse_fixed_lines:
  "snd (parse_sdp_line g (str_bytes ''a=ice-lite'') d) = d\<lparr>ice_lite := True\<rparr>"
  "snd (parse_sdp_line g (str_bytes ''a=end-of-candidates'') d) = d\<lparr>ice_finished := True\<rparr>"
  "snd (parse_sdp_line g (str_bytes ''a=ice-options:ice2'') d) = d"
  "snd (parse_sdp_line g (str_bytes ''a=ice-options:ice2,trickle'') d) = d"
  by (simp_all add: parse_sdp_line_def ice_parse_candidate_sdp_def match_prefix_def skip_prefix_def str_bytes_def Let_def)

lemma parse_field_lines:
  assumes "word_ok 256 w"
  shows "snd (parse_sdp_line g (str_bytes ''a=ice-ufrag:'' @ w) d) = d\<lparr>ice_ufrag := w\<rparr>"
    "snd (parse_sdp_line g (str_bytes ''a=ice-pwd:'' @ w) d) = d\<lparr>ice_pwd := w\<rparr>"
  using scan_string_token(1) [OF assms, of "[]"]
  by (simp_all add: parse_sdp_line_def match_prefix_def skip_prefix_def str_bytes_def Let_def scan_field_def)

definition received :: "resolver \<Rightarrow> ice_candidate \<Rightarrow> ice_candidate" where
  "received getaddrinfo c = snd (ice_resolve_candidate getaddrinfo (c\<lparr>cand_resolved := empty_record\<rparr>) False)"

lemma received_same [simp]:
  "cand_type (received g c) = cand_type c" "cand_foundation (received g c) = cand_foundation c"
  "cand_priority (received g c) = cand_priority c"
  by (simp_all add: received_def ice_resolve_candidate_def split: option.split)

lemma parse_candidate_line:
  assumes "candidate_ok c" "cand_foundation c \<noteq> [0x2D]" "length (candidates d) < ICE_MAX_CANDIDATES_COUNT"
  shows "snd (parse_sdp_line g (the (candidate_text c)) d) = d\<lparr>candidates := candidates d @ [received g c]\<rparr>"
proof -
  obtain body where l: "candidate_text c = Some (str_bytes ''a=candidate:'' @ body)"
    using candidate_text_parses [OF assms(1)] by blast
  have "cand_type c \<noteq> ICE_CANDIDATE_TYPE_UNKNOWN" using assms(1) by (auto simp: candidate_ok_def)
  then have "snd (snd (ice_add_candidate (received g c) d)) = d\<lparr>candidates := candidates d @ [received g c]\<rparr>"
    using assms(2,3) by (simp add: ice_add_candidate_def Let_def)
  moreover have "match_prefix (str_bytes ''a=candidate:'' @ body) p = None"
    if "p \<in> {str_bytes ''a=ice-ufrag:'', str_bytes ''a=ice-pwd:'', str_bytes ''a=ice-lite'', str_bytes ''a=end-of-candidates''}" for p
    using that by (auto simp: match_prefix_def skip_prefix_def str_bytes_def Let_def)
  ultimately show ?thesis
    using candidate_line_parses [OF assms(1) l, of g, folded received_def] by (simp add: parse_sdp_line_def l)
qed

lemma parse_candidate_lines:
  assumes "list_all (\<lambda>c. candidate_ok c \<and> cand_foundation c \<noteq> [0x2D]) cs" "length (candidates d) + length cs \<le> ICE_MAX_CANDIDATES_COUNT"
  shows "fold (\<lambda>l d. snd (parse_sdp_line g l d)) (map (\<lambda>c. the (candidate_text c)) cs) d = d\<lparr>candidates := candidates d @ map (received g) cs\<rparr>"
  using assms by (induction cs arbitrary: d) (simp_all add: parse_candidate_line)

lemma parse_description_text:
  assumes "description_ok d"
  shows "parse_sdp_loop g (sdp_text d) [] zero_description
    = Inr (zero_description\<lparr>ice_ufrag := if ice_lite d then [] else ice_ufrag d, ice_pwd := if ice_lite d then [] else ice_pwd d,
        ice_lite := ice_lite d, candidates := map (received g) (filter signalled (candidates d)), ice_finished := ice_finished d\<rparr>)"
proof -
  have cs: "list_all (\<lambda>c. candidate_ok c \<and> cand_foundation c \<noteq> [0x2D]) (filter signalled (candidates d))"
    "length (filter signalled (candidates d)) \<le> ICE_MAX_CANDIDATES_COUNT"
    and w: "word_ok 256 (ice_ufrag d)" "word_ok 256 (ice_pwd d)"
    using assms order_trans [OF length_filter_le [of signalled "candidates d"]] unfolding description_ok_def by blast+
  let ?first = "if ice_lite d then zero_description\<lparr>ice_lite := True\<rparr> else zero_description\<lparr>ice_ufrag := ice_ufrag d, ice_pwd := ice_pwd d\<rparr>"
  have "candidates ?first = []" by (simp add: zero_description_def)
  then have "fold (\<lambda>l d. snd (parse_sdp_line g l d)) (map (\<lambda>c. the (candidate_text c)) (filter signalled (candidates d))) ?first
    = ?first\<lparr>candidates := map (received g) (filter signalled (candidates d))\<rparr>"
    using parse_candidate_lines [OF cs(1), of ?first g] cs(2) by simp
  then show ?thesis
    using parse_sdp_loop_lines [OF description_lines_ok [OF assms], of g zero_description] w
    by (auto simp: description_text [OF assms] description_lines_def parse_fixed_lines parse_field_lines zero_description_def)
qed

lemma description_ok_credentials: "description_ok d \<Longrightarrow> ice_ufrag d \<noteq> [] \<and> ice_pwd d \<noteq> []"
  by (simp add: description_ok_def word_ok_def)

lemma generate_sdp_length:
  assumes "description_ok d"
  shows "fst (ice_generate_sdp d buf) = int (length (sdp_text d))"
proof -
  obtain out where "ice_generate_sdp d buf = (int (length (sdp_text d)), out)"
    using generate_sdp_whole [of d buf] description_ok_credentials [OF assms] by blast
  then show ?thesis by simp
qed

lemma generate_sdp_cstr:
  assumes "description_ok d" "length (sdp_text d) < length buf"
  shows "cstr (snd (ice_generate_sdp d buf)) = sdp_text d"
proof -
  obtain out where out: "ice_generate_sdp d buf = (int (length (sdp_text d)), out)"
    and t: "take (Suc (min (length (sdp_text d)) (length buf - 1))) out = take (length buf - 1) (sdp_text d) @ [0]"
    using generate_sdp_whole [of d buf] description_ok_credentials [OF assms(1)] assms(2) by (metis length_0_conv not_less_zero)
  have fits: "length (sdp_text d) \<le> length buf - 1" using assms(2) by simp
  have t: "take (Suc (length (sdp_text d))) out = sdp_text d @ [0]"
    using t unfolding min_absorb1 [OF fits] take_all [OF fits] .
  have "0 \<notin> set (sdp_text d)"
    using description_lines_ok [OF assms(1)] by (auto simp: description_text [OF assms(1)] list_all_iff line_ok_def)
  moreover have "out = sdp_text d @ 0 # drop (Suc (length (sdp_text d))) out"
    using append_take_drop_id [of "Suc (length (sdp_text d))" out] unfolding t by simp
  ultimately show ?thesis using cstr_append_0 out by (metis snd_conv)
qed

text \<open>(C22) A whole description is read back: printed into a buffer it fits and parsed, it gives the same
  credentials, the same end mark and the signalled candidates in order of priority.\<close>

theorem description_sdp_roundtrip:
  assumes "description_ok d" "\<not> ice_lite d" "length (sdp_text d) < length buf"
  shows "ice_parse_sdp getaddrinfo (cstr (snd (ice_generate_sdp d buf)))
    = (0, ice_sort_candidates \<lparr>ice_ufrag = ice_ufrag d, ice_pwd = ice_pwd d, ice_lite = False,
          candidates = map (received getaddrinfo) (filter signalled (candidates d)), ice_finished = ice_finished d\<rparr>)"
proof -
  have "cstr (snd (ice_generate_sdp d buf)) = sdp_text d" by (rule generate_sdp_cstr [OF assms(1,3)])
  then show ?thesis
    using parse_description_text [OF assms(1), of getaddrinfo] assms(2) description_ok_credentials [OF assms(1)]
    by (simp add: ice_parse_sdp_def ice_sort_candidates_def zero_description_def)
qed

definition sample_description :: ice_description where
  "sample_description = \<lparr>ice_ufrag = str_bytes ''h4kD'', ice_pwd = str_bytes ''Xv2pQ9bT0sLmN4rK8wYzAe'', ice_lite = False,
     candidates = [sample_candidate], ice_finished = True\<rparr>"

lemma sample_candidate_text:
  "candidate_text sample_candidate = Some (str_bytes ''a=candidate:2 1 UDP 1686052607 192.0.2.7 50000 typ srflx raddr 0.0.0.0 rport 0'')"
  by (simp add: candidate_text_def sample_candidate_def zero_candidate_def type_text_def transport_text_def str_bytes_def dec.simps)

lemma sample_description_ok:
  "description_ok sample_description" "description_ok (sample_description\<lparr>ice_lite := True\<rparr>)"
  "filter signalled [sample_candidate] = [sample_candidate]"
  by code_simp+

lemma sample_not_lite: "sample_description = sample_description\<lparr>ice_lite := False\<rparr>"
  by (simp add: sample_description_def)

lemma sample_description_length:
  "length (sdp_text (sample_description\<lparr>ice_lite := b\<rparr>)) < length (replicate 400 (0 :: byte))"
proof -
  have "description_ok (sample_description\<lparr>ice_lite := b\<rparr>)" using sample_description_ok by (cases b) (simp_all add: sample_description_def)
  moreover have "description_lines (sample_description\<lparr>ice_lite := b\<rparr>) =
      (if b then [str_bytes ''a=ice-lite''] else [str_bytes ''a=ice-ufrag:h4kD'', str_bytes ''a=ice-pwd:Xv2pQ9bT0sLmN4rK8wYzAe''])
      @ [str_bytes ''a=candidate:2 1 UDP 1686052607 192.0.2.7 50000 typ srflx raddr 0.0.0.0 rport 0'', str_bytes ''a=end-of-candidates'', str_bytes ''a=ice-options:ice2'']"
    using sample_description_ok(3) sample_candidate_text
    by (simp add: description_lines_def sample_description_def) (simp add: str_bytes_def)
  ultimately show ?thesis by (simp add: description_text str_bytes_def)
qed

theorem description_sdp_roundtrip_witness:
  "ice_parse_sdp (\<lambda>_ _ _ _. None) (cstr (snd (ice_generate_sdp sample_description (replicate 400 0))))
    = (0, ice_sort_candidates (sample_description\<lparr>candidates := [received (\<lambda>_ _ _ _. None) sample_candidate]\<rparr>))"
  using description_sdp_roundtrip [OF sample_description_ok(1) _ sample_description_length [of False, folded sample_not_lite],
      of "\<lambda>_ _ _ _. None"] sample_description_ok(3)
  by (simp add: sample_description_def)

text \<open>The description of a lite agent cannot be used by its peer: the lite attribute is printed over the
  credentials, so that what is sent, whatever the credentials are, is parsed as a description without a user fragment.\<close>

theorem lite_description_loses_credentials:
  assumes "description_ok d" "ice_lite d" "length (sdp_text d) < length buf"
  shows "fst (ice_generate_sdp d buf) > 0
    \<and> fst (ice_parse_sdp getaddrinfo (cstr (snd (ice_generate_sdp d buf)))) = ICE_PARSE_MISSING_UFRAG"
proof -
  have "cstr (snd (ice_generate_sdp d buf)) = sdp_text d" by (rule generate_sdp_cstr [OF assms(1,3)])
  moreover have "fst (ice_generate_sdp d buf) = int (length (sdp_text d))" by (rule generate_sdp_length [OF assms(1)])
  moreover have "sdp_text d \<noteq> []" using assms(2) by (simp add: sdp_text_def lite_text_def)
  ultimately show ?thesis
    using parse_description_text [OF assms(1), of getaddrinfo] assms(2)
    by (simp add: ice_parse_sdp_def ice_sort_candidates_def zero_description_def)
qed

theorem lite_description_loses_credentials_witness:
  "fst (ice_generate_sdp (sample_description\<lparr>ice_lite := True\<rparr>) (replicate 400 0)) > 0
    \<and> fst (ice_parse_sdp (\<lambda>_ _ _ _. None) (cstr (snd (ice_generate_sdp (sample_description\<lparr>ice_lite := True\<rparr>) (replicate 400 0)))))
      = ICE_PARSE_MISSING_UFRAG"
  by (rule lite_description_loses_credentials [OF sample_description_ok(2) _ sample_description_length]) simp

end
