(* ===== verification/Agent.thy ===== *)
theory Agent
  imports Turn Ice_Sdp Stun_Read
begin

text \<open>
  \<^verbatim>\<open>libjuice/src/agent.c\<close>, first part: the state of the ICE agent, the world it acts on, timers, candidate pairs and
  look-up.  Pointers into the arrays of the agent are indices.  What the agent gets from outside (random bytes, the
  clock, the result of \<^verbatim>\<open>conn_send\<close>) is read from functions of the number of the call; what it does outside
  (datagrams, callbacks, wake-ups) is appended to a trace.  \<open>None\<close> is an access outside an array or through a null pointer,
  or a loop that does not end.  Timestamps are integers.
\<close>

subsection \<open>Constants\<close>

definition MIN_STUN_RETRANSMISSION_TIMEOUT :: int where "MIN_STUN_RETRANSMISSION_TIMEOUT = 500"
definition LAST_STUN_RETRANSMISSION_TIMEOUT :: int where
  "LAST_STUN_RETRANSMISSION_TIMEOUT = MIN_STUN_RETRANSMISSION_TIMEOUT * 16"
definition MAX_STUN_CHECK_RETRANSMISSION_COUNT :: int where "MAX_STUN_CHECK_RETRANSMISSION_COUNT = 6"
definition MAX_STUN_SERVER_RETRANSMISSION_COUNT :: int where "MAX_STUN_SERVER_RETRANSMISSION_COUNT = 5"
definition STUN_TCP_TIMEOUT :: int where "STUN_TCP_TIMEOUT = LAST_STUN_RETRANSMISSION_TIMEOUT"
definition STUN_PACING_TIME :: int where "STUN_PACING_TIME = 50"
definition STUN_KEEPALIVE_PERIOD :: int where "STUN_KEEPALIVE_PERIOD = 15000"
definition ICE_PAC_TIMEOUT :: int where "ICE_PAC_TIMEOUT = 39500"
definition CONSENT_TIMEOUT :: int where "CONSENT_TIMEOUT = 30000"
definition MIN_CONSENT_CHECK_PERIOD :: int where "MIN_CONSENT_CHECK_PERIOD = 4000"
definition MAX_CONSENT_CHECK_PERIOD :: int where "MAX_CONSENT_CHECK_PERIOD = 6000"
definition NOMINATION_TIMEOUT :: int where "NOMINATION_TIMEOUT = 2000"
definition TURN_LIFETIME :: int where "TURN_LIFETIME = 600000"
definition TURN_REFRESH_PERIOD :: int where "TURN_REFRESH_PERIOD = TURN_LIFETIME - 60000"
definition MAX_SERVER_ENTRIES_COUNT :: nat where "MAX_SERVER_ENTRIES_COUNT = 2"
definition MAX_RELAY_ENTRIES_COUNT :: nat where "MAX_RELAY_ENTRIES_COUNT = 2"
definition MAX_TURN_REDIRECTIONS :: nat where "MAX_TURN_REDIRECTIONS = 1"
definition MAX_STUN_SERVER_RECORDS_COUNT :: nat where "MAX_STUN_SERVER_RECORDS_COUNT = MAX_SERVER_ENTRIES_COUNT"
definition MAX_HOST_CANDIDATES_COUNT :: nat where
  "MAX_HOST_CANDIDATES_COUNT = (ICE_MAX_CANDIDATES_COUNT - MAX_STUN_SERVER_RECORDS_COUNT) div 2"
definition MAX_PEER_REFLEXIVE_CANDIDATES_COUNT :: nat where "MAX_PEER_REFLEXIVE_CANDIDATES_COUNT = MAX_HOST_CANDIDATES_COUNT"
definition MAX_CANDIDATE_PAIRS_COUNT :: nat where
  "MAX_CANDIDATE_PAIRS_COUNT = ICE_MAX_CANDIDATES_COUNT * (1 + MAX_RELAY_ENTRIES_COUNT)"
definition MAX_STUN_ENTRIES_COUNT :: nat where
  "MAX_STUN_ENTRIES_COUNT = MAX_CANDIDATE_PAIRS_COUNT + MAX_STUN_SERVER_RECORDS_COUNT"
definition AGENT_TURN_MAP_SIZE :: nat where "AGENT_TURN_MAP_SIZE = ICE_MAX_CANDIDATES_COUNT"
definition PERMISSION_LIFETIME :: int where "PERMISSION_LIFETIME = 300000"
definition BIND_LIFETIME :: int where "BIND_LIFETIME = 600000"
definition AGENT_BUFFER_SIZE :: nat where "AGENT_BUFFER_SIZE = 4096"
definition DEFAULT_MAX_RECORDS_COUNT :: nat where "DEFAULT_MAX_RECORDS_COUNT = 8"

lemmas agent_times = MIN_STUN_RETRANSMISSION_TIMEOUT_def LAST_STUN_RETRANSMISSION_TIMEOUT_def
  MAX_STUN_CHECK_RETRANSMISSION_COUNT_def MAX_STUN_SERVER_RETRANSMISSION_COUNT_def STUN_TCP_TIMEOUT_def
  STUN_PACING_TIME_def STUN_KEEPALIVE_PERIOD_def ICE_PAC_TIMEOUT_def CONSENT_TIMEOUT_def MIN_CONSENT_CHECK_PERIOD_def
  MAX_CONSENT_CHECK_PERIOD_def NOMINATION_TIMEOUT_def TURN_LIFETIME_def TURN_REFRESH_PERIOD_def PERMISSION_LIFETIME_def
  BIND_LIFETIME_def

lemmas agent_sizes = MAX_SERVER_ENTRIES_COUNT_def MAX_RELAY_ENTRIES_COUNT_def MAX_TURN_REDIRECTIONS_def
  MAX_STUN_SERVER_RECORDS_COUNT_def MAX_HOST_CANDIDATES_COUNT_def MAX_PEER_REFLEXIVE_CANDIDATES_COUNT_def
  MAX_CANDIDATE_PAIRS_COUNT_def MAX_STUN_ENTRIES_COUNT_def AGENT_TURN_MAP_SIZE_def ICE_MAX_CANDIDATES_COUNT_def
  AGENT_BUFFER_SIZE_def DEFAULT_MAX_RECORDS_COUNT_def

subsection \<open>Data\<close>

datatype juice_state =
  JUICE_STATE_DISCONNECTED | JUICE_STATE_GATHERING | JUICE_STATE_CONNECTING | JUICE_STATE_CONNECTED
| JUICE_STATE_COMPLETED | JUICE_STATE_FAILED

datatype agent_mode = AGENT_MODE_UNKNOWN | AGENT_MODE_CONTROLLED | AGENT_MODE_CONTROLLING

datatype juice_ice_tcp_mode = JUICE_ICE_TCP_MODE_NONE | JUICE_ICE_TCP_MODE_ACTIVE

datatype juice_concurrency_mode = JUICE_CONCURRENCY_MODE_POLL | JUICE_CONCURRENCY_MODE_MUX | JUICE_CONCURRENCY_MODE_THREAD

datatype tcp_state = TCP_STATE_DISCONNECTED | TCP_STATE_CONNECTING | TCP_STATE_CONNECTED | TCP_STATE_FAILED

datatype agent_stun_entry_type =
  AGENT_STUN_ENTRY_TYPE_EMPTY | AGENT_STUN_ENTRY_TYPE_SERVER | AGENT_STUN_ENTRY_TYPE_RELAY | AGENT_STUN_ENTRY_TYPE_CHECK

datatype agent_stun_entry_state =
  AGENT_STUN_ENTRY_STATE_PENDING | AGENT_STUN_ENTRY_STATE_CANCELLED | AGENT_STUN_ENTRY_STATE_FAILED
| AGENT_STUN_ENTRY_STATE_SUCCEEDED | AGENT_STUN_ENTRY_STATE_SUCCEEDED_KEEPALIVE | AGENT_STUN_ENTRY_STATE_IDLE

record agent_turn_state =
  ts_map :: turn_map
  ts_credentials :: stun_credentials
  ts_password :: "bytes option"

record agent_stun_entry =
  en_type :: agent_stun_entry_type
  en_state :: agent_stun_entry_state
  en_mode :: agent_mode
  en_pair :: "nat option"
  en_record :: addr_record
  en_relayed :: addr_record
  en_transaction_id :: bytes
  en_next_transmission :: int
  en_retransmission_timeout :: int
  en_retransmissions :: int
  en_transaction_id_expired :: bool
  en_tcp_state :: tcp_state
  en_turn :: "agent_turn_state option"
  en_turn_redirections :: nat
  en_relay_entry :: "nat option"

text \<open>A candidate pair of the agent: \<^verbatim>\<open>local\<close> and \<^verbatim>\<open>remote\<close> point into the arrays of the two descriptions.\<close>

record agent_pair =
  pr_local :: "nat option"
  pr_remote :: nat
  pr_priority :: u64
  pr_state :: ice_candidate_pair_state
  pr_nominated :: bool
  pr_nomination_requested :: bool
  pr_consent_expiry :: int

record juice_turn_server =
  srv_host :: "bytes option"
  srv_username :: "bytes option"
  srv_password :: "bytes option"
  srv_port :: u16

record juice_config =
  cfg_concurrency_mode :: juice_concurrency_mode
  cfg_stun_server_host :: "bytes option"
  cfg_stun_server_port :: u16
  cfg_turn_servers :: "juice_turn_server list"

text \<open>What the agent does to the outside world.\<close>

datatype agent_output =
  Conn_send addr_record bytes int
| Conn_interrupt
| Conn_tcp_connect addr_record
| Cb_state_changed juice_state
| Cb_candidate bytes
| Cb_gathering_done
| Cb_recv bytes

text \<open>The outside world: byte \<open>i\<close> of the \<open>k\<close>-th random draw, the \<open>k\<close>-th reading of the clock, the result of the
  \<open>k\<close>-th send, name services, a junk value for uninitialised memory, and whether the backend is free to open a TCP connection.\<close>

record agent_env =
  env_random :: "nat \<Rightarrow> nat \<Rightarrow> byte"
  env_draws :: nat
  env_clock :: "nat \<Rightarrow> int"
  env_ticks :: nat
  env_send_result :: "nat \<Rightarrow> int"
  env_sends :: nat
  env_getaddrinfo :: resolver
  env_getnameinfo :: "sockaddr \<Rightarrow> (bytes \<times> bytes) option"
  env_junk :: u16
  env_tcp_connecting :: bool
  env_out :: "agent_output list"

record juice_agent =
  ag_config :: juice_config
  ag_state :: juice_state
  ag_mode :: agent_mode
  ag_ice_tcp_mode :: juice_ice_tcp_mode
  ag_local :: ice_description
  ag_remote :: ice_description
  ag_pairs :: "agent_pair list"
  ag_ordered_pairs :: "nat list"
  ag_selected_pair :: "nat option"
  ag_entries :: "agent_stun_entry list"
  ag_selected_entry :: "nat option"
  ag_ice_tiebreaker :: u64
  ag_pac_timestamp :: int
  ag_nomination_timestamp :: int
  ag_gathering_done :: bool
  ag_conn_impl :: bool
  ag_env :: agent_env

text \<open>An entry as \<^verbatim>\<open>calloc\<close> leaves it.\<close>

definition zero_stun_entry :: agent_stun_entry where
  "zero_stun_entry = \<lparr>en_type = AGENT_STUN_ENTRY_TYPE_EMPTY, en_state = AGENT_STUN_ENTRY_STATE_PENDING,
     en_mode = AGENT_MODE_UNKNOWN, en_pair = None, en_record = zero_record, en_relayed = zero_record,
     en_transaction_id = replicate 12 0, en_next_transmission = 0, en_retransmission_timeout = 0, en_retransmissions = 0,
     en_transaction_id_expired = False, en_tcp_state = TCP_STATE_DISCONNECTED, en_turn = None, en_turn_redirections = 0,
     en_relay_entry = None\<rparr>"

subsection \<open>The world\<close>

definition emit :: "agent_output \<Rightarrow> juice_agent \<Rightarrow> juice_agent" where
  "emit x a = a\<lparr>ag_env := (ag_env a)\<lparr>env_out := env_out (ag_env a) @ [x]\<rparr>\<rparr>"

definition current_timestamp :: "juice_agent \<Rightarrow> int \<times> juice_agent" where
  "current_timestamp a =
     (env_clock (ag_env a) (env_ticks (ag_env a)), a\<lparr>ag_env := (ag_env a)\<lparr>env_ticks := Suc (env_ticks (ag_env a))\<rparr>\<rparr>)"

definition juice_random :: "nat \<Rightarrow> juice_agent \<Rightarrow> bytes \<times> juice_agent" where
  "juice_random n a =
     (map (env_random (ag_env a) (env_draws (ag_env a))) [0..<n],
      a\<lparr>ag_env := (ag_env a)\<lparr>env_draws := Suc (env_draws (ag_env a))\<rparr>\<rparr>)"

text \<open>The draws offered to a loop that draws until a value is new.\<close>

definition DRAWS :: nat where "DRAWS = 64"

definition random_draws :: "nat \<Rightarrow> juice_agent \<Rightarrow> bytes list \<times> juice_agent" where
  "random_draws n a =
     (map (\<lambda>k. map (env_random (ag_env a) (env_draws (ag_env a) + k)) [0..<n]) [0..<DRAWS],
      a\<lparr>ag_env := (ag_env a)\<lparr>env_draws := env_draws (ag_env a) + DRAWS\<rparr>\<rparr>)"

definition conn_send :: "addr_record \<Rightarrow> bytes \<Rightarrow> int \<Rightarrow> juice_agent \<Rightarrow> int \<times> juice_agent" where
  "conn_send dst data ds a =
     (if \<not> ag_conn_impl a then (-1, a)
      else (env_send_result (ag_env a) (env_sends (ag_env a)),
            emit (Conn_send dst data ds) (a\<lparr>ag_env := (ag_env a)\<lparr>env_sends := Suc (env_sends (ag_env a))\<rparr>\<rparr>)))"

definition conn_interrupt :: "juice_agent \<Rightarrow> juice_agent" where
  "conn_interrupt a = (if ag_conn_impl a then emit Conn_interrupt a else a)"

definition upd_ent :: "nat \<Rightarrow> (agent_stun_entry \<Rightarrow> agent_stun_entry) \<Rightarrow> juice_agent \<Rightarrow> juice_agent" where
  "upd_ent i f a = a\<lparr>ag_entries := (ag_entries a)[i := f (ag_entries a ! i)]\<rparr>"

definition upd_turn :: "nat \<Rightarrow> (agent_turn_state \<Rightarrow> agent_turn_state) \<Rightarrow> juice_agent \<Rightarrow> juice_agent" where
  "upd_turn i f a = upd_ent i (\<lambda>e. e\<lparr>en_turn := map_option f (en_turn e)\<rparr>) a"

definition upd_pair :: "nat \<Rightarrow> (agent_pair \<Rightarrow> agent_pair) \<Rightarrow> juice_agent \<Rightarrow> juice_agent" where
  "upd_pair i f a = a\<lparr>ag_pairs := (ag_pairs a)[i := f (ag_pairs a ! i)]\<rparr>"

text \<open>The first index that satisfies a condition.\<close>

definition first_index :: "(nat \<Rightarrow> bool) \<Rightarrow> nat \<Rightarrow> nat option" where
  "first_index P n = find P [0..<n]"

text \<open>Dereferencing the candidates of a pair; array slots that are not in use are zero.\<close>

definition candidate_at :: "ice_description \<Rightarrow> nat \<Rightarrow> ice_candidate" where
  "candidate_at d i = (if i < length (candidates d) then candidates d ! i else zero_candidate)"

definition remote_of :: "juice_agent \<Rightarrow> agent_pair \<Rightarrow> ice_candidate" where
  "remote_of a p = candidate_at (ag_remote a) (pr_remote p)"

definition local_of :: "juice_agent \<Rightarrow> agent_pair \<Rightarrow> ice_candidate option" where
  "local_of a p = map_option (candidate_at (ag_local a)) (pr_local p)"

definition entry_pair :: "juice_agent \<Rightarrow> agent_stun_entry \<Rightarrow> agent_pair option" where
  "entry_pair a e = map_option (\<lambda>p. ag_pairs a ! p) (en_pair e)"

subsection \<open>Timers\<close>

definition entry_is_tcp :: "juice_agent \<Rightarrow> agent_stun_entry \<Rightarrow> bool" where
  "entry_is_tcp a e =
     (case entry_pair a e of
        None \<Rightarrow> False
      | Some p \<Rightarrow> cand_transport (remote_of a p) \<noteq> ICE_CANDIDATE_TRANSPORT_UDP)"

definition agent_change_state :: "juice_state \<Rightarrow> juice_agent \<Rightarrow> juice_agent" where
  "agent_change_state st a = (if st \<noteq> ag_state a then emit (Cb_state_changed st) (a\<lparr>ag_state := st\<rparr>) else a)"

text \<open>The loop that looks for a time slot: \<open>i\<close> is the entry, \<open>j\<close> is \<^verbatim>\<open>other\<close>, \<open>t\<close> the transmission time of the entry.
  The difference is cut to an \<^verbatim>\<open>int\<close>, and \<^verbatim>\<open>abs\<close> of the smallest one is undefined.\<close>

definition slot_distance :: "int \<Rightarrow> int option" where
  "slot_distance timediff =
     (let d = sint (of_int timediff :: u32) in if d = - (2 ^ 31) then None else Some \<bar>d\<bar>)"

partial_function (option) slot_loop :: "agent_stun_entry list \<Rightarrow> nat \<Rightarrow> nat \<Rightarrow> int \<Rightarrow> int option" where
  "slot_loop es i j t =
     (if j < length es
      then if j \<noteq> i \<and> en_next_transmission (es ! j) \<noteq> 0
           then Option.bind (slot_distance (t - en_next_transmission (es ! j)))
                  (\<lambda>d. if d < STUN_PACING_TIME
                       then slot_loop es i 0 (en_next_transmission (es ! j) + STUN_PACING_TIME)
                       else slot_loop es i (j + 1) t)
           else slot_loop es i (j + 1) t
      else Some t)"

text \<open>The entry armed, before the search for a slot.\<close>

definition armed_entry :: "juice_agent \<Rightarrow> agent_stun_entry \<Rightarrow> int \<Rightarrow> agent_stun_entry" where
  "armed_entry a e t =
     (let e1 = (if en_state e \<noteq> AGENT_STUN_ENTRY_STATE_SUCCEEDED_KEEPALIVE
                then e\<lparr>en_state := AGENT_STUN_ENTRY_STATE_PENDING\<rparr> else e);
          e2 = e1\<lparr>en_next_transmission := t\<rparr>
      in if en_state e2 = AGENT_STUN_ENTRY_STATE_PENDING
         then if entry_is_tcp a e2
              then e2\<lparr>en_retransmission_timeout := STUN_TCP_TIMEOUT, en_retransmissions := 0\<rparr>
              else e2\<lparr>en_retransmission_timeout := MIN_STUN_RETRANSMISSION_TIMEOUT,
                      en_retransmissions := (if en_type e2 = AGENT_STUN_ENTRY_TYPE_CHECK
                                             then MAX_STUN_CHECK_RETRANSMISSION_COUNT
                                             else MAX_STUN_SERVER_RETRANSMISSION_COUNT)\<rparr>
         else e2)"

definition agent_arm_transmission :: "nat \<Rightarrow> int \<Rightarrow> juice_agent \<Rightarrow> juice_agent option" where
  "agent_arm_transmission i delay a =
     (let (now, a1) = current_timestamp a;
          a2 = upd_ent i (\<lambda>e. armed_entry a1 e (now + delay)) a1
      in do { t \<leftarrow> slot_loop (ag_entries a2) i 0 (en_next_transmission (ag_entries a2 ! i));
              Some (upd_ent i (\<lambda>e. e\<lparr>en_next_transmission := t\<rparr>) a2) })"

definition juice_rand32 :: "juice_agent \<Rightarrow> u32 \<times> juice_agent" where
  "juice_rand32 a = (let (bs, a') = juice_random 4 a in (htonl (rd32 bs), a'))"

definition keepalive_period :: "nat \<Rightarrow> juice_agent \<Rightarrow> int \<times> juice_agent" where
  "keepalive_period i a =
     (case en_type (ag_entries a ! i) of
        AGENT_STUN_ENTRY_TYPE_RELAY \<Rightarrow>
          (if candidates (ag_remote a) \<noteq> [] then TURN_REFRESH_PERIOD else STUN_KEEPALIVE_PERIOD, a)
      | AGENT_STUN_ENTRY_TYPE_SERVER \<Rightarrow> (STUN_KEEPALIVE_PERIOD, a)
      | _ \<Rightarrow> (let (r, a') = juice_rand32 a
              in (MIN_CONSENT_CHECK_PERIOD + uint r mod (MAX_CONSENT_CHECK_PERIOD - MIN_CONSENT_CHECK_PERIOD + 1), a')))"

definition agent_arm_keepalive :: "nat \<Rightarrow> juice_agent \<Rightarrow> juice_agent option" where
  "agent_arm_keepalive i a =
     (let a1 = (if en_state (ag_entries a ! i) = AGENT_STUN_ENTRY_STATE_SUCCEEDED
                then upd_ent i (\<lambda>e. e\<lparr>en_state := AGENT_STUN_ENTRY_STATE_SUCCEEDED_KEEPALIVE\<rparr>) a else a)
      in if en_state (ag_entries a1 ! i) \<noteq> AGENT_STUN_ENTRY_STATE_SUCCEEDED_KEEPALIVE then Some a1
         else let (period, a2) = keepalive_period i a1
              in agent_arm_transmission i period (upd_ent i (\<lambda>e. e\<lparr>en_transaction_id_expired := True\<rparr>) a2))"

definition agent_update_pac_timer :: "juice_agent \<Rightarrow> juice_agent" where
  "agent_update_pac_timer a =
     (if ag_pac_timestamp a \<noteq> 0 then a
      else if ice_ufrag (ag_remote a) \<noteq> [] \<and> ag_gathering_done a
      then let (now, a1) = current_timestamp a in a1\<lparr>ag_pac_timestamp := now + ICE_PAC_TIMEOUT\<rparr>
      else a)"

definition agent_update_gathering_done :: "juice_agent \<Rightarrow> juice_agent" where
  "agent_update_gathering_done a =
     (if list_ex (\<lambda>e. en_type e \<noteq> AGENT_STUN_ENTRY_TYPE_CHECK \<and> en_state e = AGENT_STUN_ENTRY_STATE_PENDING) (ag_entries a)
      then a
      else if \<not> ag_gathering_done a
      then emit Cb_gathering_done
             (agent_update_pac_timer (a\<lparr>ag_local := (ag_local a)\<lparr>ice_finished := True\<rparr>, ag_gathering_done := True\<rparr>))
      else a)"

subsection \<open>Candidate pairs\<close>

text \<open>The pair that \<^verbatim>\<open>ice.c\<close> sees behind the pointers.\<close>

definition deref_pair :: "juice_agent \<Rightarrow> agent_pair \<Rightarrow> ice_candidate_pair" where
  "deref_pair a p = \<lparr>pair_local = local_of a p, pair_remote = Some (remote_of a p), pair_priority = pr_priority p,
     pair_state = pr_state p, pair_nominated = pr_nominated p, pair_nomination_requested = pr_nomination_requested p,
     pair_consent_expiry = pr_consent_expiry p\<rparr>"

text \<open>One round of \<^verbatim>\<open>agent_update_ordered_pairs\<close>: \<open>order_shift\<close> is its inner loop.\<close>

fun order_shift :: "agent_pair list \<Rightarrow> u64 \<Rightarrow> nat list \<Rightarrow> nat \<Rightarrow> nat list \<times> nat" where
  "order_shift pairs prio arr 0 = (arr, 0)"
| "order_shift pairs prio arr (Suc j) =
     (if pr_priority (pairs ! (arr ! j)) < prio then order_shift pairs prio (arr[Suc j := arr ! j]) j
      else (arr, Suc j))"

definition order_step :: "agent_pair list \<Rightarrow> nat \<Rightarrow> nat list \<Rightarrow> nat list" where
  "order_step pairs i arr =
     (let (arr', j) = order_shift pairs (pr_priority (pairs ! i)) arr i in arr'[j := i])"

definition agent_update_ordered_pairs :: "juice_agent \<Rightarrow> juice_agent" where
  "agent_update_ordered_pairs a =
     (let n = length (ag_pairs a);
          arr = take n (ag_ordered_pairs a) @ replicate (n - length (ag_ordered_pairs a)) 0
      in a\<lparr>ag_ordered_pairs := fold (order_step (ag_pairs a)) [0..<n] arr\<rparr>)"

definition agent_update_candidate_pairs :: "juice_agent \<Rightarrow> juice_agent" where
  "agent_update_candidate_pairs a =
     (let is_controlling = (ag_mode a = AGENT_MODE_CONTROLLING);
          pairs = map (\<lambda>p. p\<lparr>pr_priority := pair_priority (ice_update_candidate_pair (deref_pair a p) is_controlling)\<rparr>) (ag_pairs a);
          a1 = agent_update_ordered_pairs (a\<lparr>ag_pairs := pairs\<rparr>)
      in a1\<lparr>ag_entries := map (\<lambda>e. if en_type e = AGENT_STUN_ENTRY_TYPE_CHECK then e\<lparr>en_transaction_id_expired := True\<rparr> else e)
             (ag_entries a1)\<rparr>)"

text \<open>A slot of the array of entries is claimed; past its end there is none.  \<^verbatim>\<open>agent_translate_host_candidate_entry\<close>,
  which registration calls, does nothing as the library is built (\<^verbatim>\<open>JUICE_ENABLE_LOCAL_ADDRESS_TRANSLATION\<close> is off).\<close>

definition add_entry :: "agent_stun_entry \<Rightarrow> juice_agent \<Rightarrow> juice_agent option" where
  "add_entry e a =
     (if length (ag_entries a) < MAX_STUN_ENTRIES_COUNT then Some (a\<lparr>ag_entries := ag_entries a @ [e]\<rparr>) else None)"

definition agent_register_entry_for_candidate_pair :: "nat \<Rightarrow> nat option \<Rightarrow> juice_agent \<Rightarrow> juice_agent option" where
  "agent_register_entry_for_candidate_pair p relay_entry a =
     (let (tid, a1) = juice_random STUN_TRANSACTION_ID_SIZE a
      in add_entry (zero_stun_entry\<lparr>en_type := AGENT_STUN_ENTRY_TYPE_CHECK, en_state := AGENT_STUN_ENTRY_STATE_IDLE,
           en_mode := AGENT_MODE_UNKNOWN, en_pair := Some p, en_record := cand_resolved (remote_of a (ag_pairs a ! p)),
           en_relay_entry := relay_entry, en_transaction_id := tid, en_transaction_id_expired := False\<rparr>) a1)"

definition agent_unfreeze_candidate_pair :: "nat \<Rightarrow> juice_agent \<Rightarrow> (int \<times> juice_agent) option" where
  "agent_unfreeze_candidate_pair p a =
     (if pr_state (ag_pairs a ! p) \<noteq> ICE_CANDIDATE_PAIR_STATE_FROZEN then Some (0, a)
      else case first_index (\<lambda>i. en_pair (ag_entries a ! i) = Some p) (length (ag_entries a)) of
             None \<Rightarrow> Some (-1, a)
           | Some i \<Rightarrow>
               do { a1 \<leftarrow> agent_arm_transmission i 0
                            (upd_ent i (\<lambda>e. e\<lparr>en_state := AGENT_STUN_ENTRY_STATE_PENDING\<rparr>)
                              (upd_pair p (\<lambda>q. q\<lparr>pr_state := ICE_CANDIDATE_PAIR_STATE_PENDING\<rparr>) a));
                    Some (0, a1) })"

text \<open>Whether a remote TCP candidate is left out: ICE-TCP is off, the candidate cannot be connected to, or there is a
  pair with a TCP candidate of its address family.\<close>

definition ignored_tcp :: "juice_agent \<Rightarrow> ice_candidate \<Rightarrow> bool" where
  "ignored_tcp a remote \<longleftrightarrow> cand_transport remote \<noteq> ICE_CANDIDATE_TRANSPORT_UDP \<and>
     (ag_ice_tcp_mode a \<noteq> JUICE_ICE_TCP_MODE_ACTIVE
      \<or> (cand_transport remote \<noteq> ICE_CANDIDATE_TRANSPORT_TCP_TYPE_PASSIVE
         \<and> cand_transport remote \<noteq> ICE_CANDIDATE_TRANSPORT_TCP_TYPE_SO)
      \<or> list_ex (\<lambda>p. cand_transport (remote_of a p) \<noteq> ICE_CANDIDATE_TRANSPORT_UDP
              \<and> sa_family (ar_addr (cand_resolved (remote_of a p))) = sa_family (ar_addr (cand_resolved remote))) (ag_pairs a))"

definition find_relay_entry :: "juice_agent \<Rightarrow> ice_candidate \<Rightarrow> nat option" where
  "find_relay_entry a local =
     first_index (\<lambda>i. en_type (ag_entries a ! i) = AGENT_STUN_ENTRY_TYPE_RELAY
        \<and> addr_record_is_equal (en_relayed (ag_entries a ! i)) (cand_resolved local) True) (length (ag_entries a))"

text \<open>A controlling agent leaves a new pair frozen when a pair before it in the order has succeeded.\<close>

definition has_better_pair :: "juice_agent \<Rightarrow> nat \<Rightarrow> bool" where
  "has_better_pair a p \<longleftrightarrow> ag_mode a = AGENT_MODE_CONTROLLING
     \<and> list_ex (\<lambda>q. pr_state (ag_pairs a ! q) = ICE_CANDIDATE_PAIR_STATE_SUCCEEDED)
         (takeWhile (\<lambda>q. q \<noteq> p) (ag_ordered_pairs a))"

definition agent_add_candidate_pair :: "nat option \<Rightarrow> nat \<Rightarrow> juice_agent \<Rightarrow> (int \<times> juice_agent) option" where
  "agent_add_candidate_pair local remote a =
     (let l = map_option (candidate_at (ag_local a)) local; r = candidate_at (ag_remote a) remote in
      case ice_create_candidate_pair l (Some r) (ag_mode a = AGENT_MODE_CONTROLLING) of
        None \<Rightarrow> Some (-1, a)
      | Some pair \<Rightarrow>
          if length (ag_pairs a) \<ge> MAX_CANDIDATE_PAIRS_COUNT then Some (-1, a)
          else if ignored_tcp a r then Some (0, a)
          else let pos = length (ag_pairs a);
                   new = \<lparr>pr_local = local, pr_remote = remote, pr_priority = pair_priority pair, pr_state = pair_state pair,
                          pr_nominated = False, pr_nomination_requested = False, pr_consent_expiry = 0\<rparr>;
                   a1 = agent_update_ordered_pairs (a\<lparr>ag_pairs := ag_pairs a @ [new]\<rparr>)
               in if length (ag_entries a1) = MAX_STUN_ENTRIES_COUNT then Some (-1, a1)
                  else let is_relayed = (case l of None \<Rightarrow> False | Some c \<Rightarrow> cand_type c = ICE_CANDIDATE_TYPE_RELAYED);
                           relay_entry = (if is_relayed then find_relay_entry a1 (the l) else None)
                       in if is_relayed \<and> relay_entry = None then Some (-1, a1)
                          else do { a2 \<leftarrow> agent_register_entry_for_candidate_pair pos relay_entry a1;
                                    if has_better_pair a2 pos then Some (0, a2)
                                    else if ice_ufrag (ag_remote a2) \<noteq> []
                                            \<and> (case ag_selected_pair a2 of None \<Rightarrow> True | Some q \<Rightarrow> \<not> pr_nominated (ag_pairs a2 ! q))
                                    then do { (_, a3) \<leftarrow> agent_unfreeze_candidate_pair pos a2; Some (0, a3) }
                                    else Some (0, a2) })"

text \<open>The loop over the local relayed candidates stops at the first failure.\<close>

fun add_relayed_pairs :: "nat list \<Rightarrow> nat \<Rightarrow> juice_agent \<Rightarrow> (int \<times> juice_agent) option" where
  "add_relayed_pairs [] remote a = Some (0, a)"
| "add_relayed_pairs (i # is) remote a =
     (let l = candidate_at (ag_local a) i; r = candidate_at (ag_remote a) remote in
      if cand_type l = ICE_CANDIDATE_TYPE_RELAYED
         \<and> sa_family (ar_addr (cand_resolved l)) = sa_family (ar_addr (cand_resolved r))
      then do { (ret, a1) \<leftarrow> agent_add_candidate_pair (Some i) remote a;
                if ret \<noteq> 0 then Some (-1, a1) else add_relayed_pairs is remote a1 }
      else add_relayed_pairs is remote a)"

definition agent_add_candidate_pairs_for_remote :: "nat \<Rightarrow> juice_agent \<Rightarrow> (int \<times> juice_agent) option" where
  "agent_add_candidate_pairs_for_remote remote a =
     do { (ret, a1) \<leftarrow> agent_add_candidate_pair None remote a;
          if ret \<noteq> 0 then Some (-1, a1)
          else add_relayed_pairs [0..<length (candidates (ag_local a1))] remote a1 }"

subsection \<open>Candidates\<close>

definition new_candidate ::
  "ice_candidate_type \<Rightarrow> addr_record \<Rightarrow> ice_candidate_transport \<Rightarrow> juice_agent \<Rightarrow> ice_candidate option" where
  "new_candidate type record transport a =
     ice_create_local_candidate (env_getnameinfo (ag_env a)) type 1 (int (length (candidates (ag_local a)))) record transport"

text \<open>The new local candidate is matched with every remote candidate of its family; failures are not looked at.\<close>

definition match_relayed :: "nat \<Rightarrow> nat \<Rightarrow> juice_agent \<Rightarrow> juice_agent option" where
  "match_relayed local remote a =
     (if sa_family (ar_addr (cand_resolved (candidate_at (ag_local a) local)))
         = sa_family (ar_addr (cand_resolved (candidate_at (ag_remote a) remote)))
      then do { (_, a1) \<leftarrow> agent_add_candidate_pair (Some local) remote a; Some a1 }
      else Some a)"

definition agent_add_local_relayed_candidate :: "addr_record \<Rightarrow> juice_agent \<Rightarrow> (int \<times> juice_agent) option" where
  "agent_add_local_relayed_candidate record a =
     (if ice_find_candidate_from_addr (ag_local a) record ICE_CANDIDATE_TYPE_RELAYED \<noteq> None then Some (0, a)
      else case new_candidate ICE_CANDIDATE_TYPE_RELAYED record ICE_CANDIDATE_TRANSPORT_UDP a of
             None \<Rightarrow> Some (-1, a)
           | Some candidate \<Rightarrow>
               let (ret, c, d) = ice_add_candidate candidate (ag_local a);
                   a1 = a\<lparr>ag_local := d\<rparr>
               in if ret \<noteq> 0 then Some (-1, a)
                  else let (len, buffer) = ice_generate_candidate_sdp c AGENT_BUFFER_SIZE
                       in if len < 0 then Some (-1, a1)
                          else do { a2 \<leftarrow> each [0..<length (candidates (ag_remote a1))]
                                          (match_relayed (length (candidates (ag_local a1)) - 1)) a1;
                                    Some (0, emit (Cb_candidate (cstr buffer)) a2) })"

definition agent_add_local_reflexive_candidate ::
  "ice_candidate_type \<Rightarrow> addr_record \<Rightarrow> juice_agent \<Rightarrow> int \<times> juice_agent" where
  "agent_add_local_reflexive_candidate type record a =
     (if type \<noteq> ICE_CANDIDATE_TYPE_SERVER_REFLEXIVE \<and> type \<noteq> ICE_CANDIDATE_TYPE_PEER_REFLEXIVE then (-1, a)
      else if ice_find_candidate_from_addr (ag_local a) record
                (if sa_family (ar_addr record) = AF_INET6 then ICE_CANDIDATE_TYPE_UNKNOWN else type) \<noteq> None then (0, a)
      else case new_candidate type record ICE_CANDIDATE_TRANSPORT_UDP a of
             None \<Rightarrow> (-1, a)
           | Some candidate \<Rightarrow>
               if cand_type candidate = ICE_CANDIDATE_TYPE_PEER_REFLEXIVE
                  \<and> ice_candidates_count (ag_local a) ICE_CANDIDATE_TYPE_PEER_REFLEXIVE \<ge> MAX_PEER_REFLEXIVE_CANDIDATES_COUNT
               then (0, a)
               else let (ret, c, d) = ice_add_candidate candidate (ag_local a);
                        a1 = a\<lparr>ag_local := d\<rparr>
                    in if ret \<noteq> 0 then (-1, a)
                       else let (len, buffer) = ice_generate_candidate_sdp c AGENT_BUFFER_SIZE
                            in if len < 0 then (-1, a1)
                               else (0, if type \<noteq> ICE_CANDIDATE_TYPE_PEER_REFLEXIVE
                                        then emit (Cb_candidate (cstr buffer)) a1 else a1))"

definition agent_add_remote_reflexive_candidate ::
  "ice_candidate_type \<Rightarrow> u32 \<Rightarrow> addr_record \<Rightarrow> juice_agent \<Rightarrow> (int \<times> juice_agent) option" where
  "agent_add_remote_reflexive_candidate type prio record a =
     (if type \<noteq> ICE_CANDIDATE_TYPE_PEER_REFLEXIVE then Some (-1, a)
      else if ice_find_candidate_from_addr (ag_remote a) record ICE_CANDIDATE_TYPE_UNKNOWN \<noteq> None then Some (0, a)
      else case new_candidate type record ICE_CANDIDATE_TRANSPORT_UDP a of
             None \<Rightarrow> Some (-1, a)
           | Some candidate \<Rightarrow>
               if ice_candidates_count (ag_remote a) ICE_CANDIDATE_TYPE_PEER_REFLEXIVE \<ge> MAX_PEER_REFLEXIVE_CANDIDATES_COUNT
               then Some (0, a)
               else let (ret, c, d) = ice_add_candidate candidate (ag_remote a) in
                    if ret \<noteq> 0 then Some (-1, a)
                    else let i = length (candidates d) - 1;
                             d' = d\<lparr>candidates := (candidates d)[i := (candidates d ! i)\<lparr>cand_priority := prio\<rparr>]\<rparr>
                         in agent_add_candidate_pairs_for_remote i (a\<lparr>ag_remote := d'\<rparr>))"

definition agent_add_local_tcp_active_candidate :: "addr_record \<Rightarrow> juice_agent \<Rightarrow> int \<times> juice_agent" where
  "agent_add_local_tcp_active_candidate record a =
     (case new_candidate ICE_CANDIDATE_TYPE_HOST record ICE_CANDIDATE_TRANSPORT_TCP_TYPE_ACTIVE a of
        None \<Rightarrow> (-1, a)
      | Some candidate \<Rightarrow>
          let (ret, _, d) = ice_add_candidate candidate (ag_local a)
          in if ret \<noteq> 0 then (-1, a) else (0, a\<lparr>ag_local := d\<rparr>))"

subsection \<open>Look-up of entries\<close>

definition pair_is_relayed :: "juice_agent \<Rightarrow> agent_pair \<Rightarrow> bool" where
  "pair_is_relayed a p = (case local_of a p of None \<Rightarrow> False | Some l \<Rightarrow> cand_type l = ICE_CANDIDATE_TYPE_RELAYED)"

definition entry_is_relayed :: "juice_agent \<Rightarrow> agent_stun_entry \<Rightarrow> bool" where
  "entry_is_relayed a e = (case entry_pair a e of None \<Rightarrow> False | Some p \<Rightarrow> pair_is_relayed a p)"

text \<open>\<^verbatim>\<open>turn_retrieve_transaction_id\<close> marks the id it finds as used.\<close>

fun find_by_id :: "nat list \<Rightarrow> bytes \<Rightarrow> juice_agent \<Rightarrow> (nat option \<times> juice_agent) option" where
  "find_by_id [] tid a = Some (None, a)"
| "find_by_id (i # is) tid a =
     (if memcmp tid (en_transaction_id (ag_entries a ! i)) = 0 then Some (Some i, a)
      else case en_turn (ag_entries a ! i) of
             None \<Rightarrow> find_by_id is tid a
           | Some t \<Rightarrow>
               do { (found, m) \<leftarrow> turn_retrieve_transaction_id (ts_map t) tid;
                    let a1 = upd_turn i (\<lambda>t. t\<lparr>ts_map := m\<rparr>) a;
                    if found \<noteq> None then Some (Some i, a1) else find_by_id is tid a1 })"

definition agent_find_entry_from_transaction_id :: "bytes \<Rightarrow> juice_agent \<Rightarrow> (nat option \<times> juice_agent) option" where
  "agent_find_entry_from_transaction_id tid a = find_by_id [0..<length (ag_entries a)] tid a"

text \<open>An entry that checks a relayed pair through the relayed address \<open>via\<close>, or one that is not relayed.\<close>

definition relayed_entry_matches :: "juice_agent \<Rightarrow> addr_record \<Rightarrow> addr_record \<Rightarrow> agent_stun_entry \<Rightarrow> bool" where
  "relayed_entry_matches a record via e \<longleftrightarrow>
     entry_is_relayed a e
     \<and> (case entry_pair a e of None \<Rightarrow> False | Some p \<Rightarrow>
          (case local_of a p of None \<Rightarrow> False | Some l \<Rightarrow> addr_record_is_equal (cand_resolved l) via True))
     \<and> addr_record_is_equal (en_record e) record True"

definition direct_entry_matches :: "juice_agent \<Rightarrow> addr_record \<Rightarrow> agent_stun_entry \<Rightarrow> bool" where
  "direct_entry_matches a record e \<longleftrightarrow> \<not> entry_is_relayed a e \<and> addr_record_is_equal (en_record e) record True"

definition entry_matches :: "juice_agent \<Rightarrow> addr_record \<Rightarrow> addr_record option \<Rightarrow> agent_stun_entry \<Rightarrow> bool" where
  "entry_matches a record via e =
     (case via of None \<Rightarrow> direct_entry_matches a record e | Some v \<Rightarrow> relayed_entry_matches a record v e)"

text \<open>The selected entry comes first, once its pair is nominated.\<close>

definition selected_matches :: "juice_agent \<Rightarrow> addr_record \<Rightarrow> addr_record option \<Rightarrow> bool" where
  "selected_matches a record via \<longleftrightarrow>
     (case ag_selected_entry a of
        None \<Rightarrow> False
      | Some i \<Rightarrow> (case entry_pair a (ag_entries a ! i) of
                     None \<Rightarrow> False
                   | Some p \<Rightarrow> pr_nominated p \<and> entry_matches a record via (ag_entries a ! i)))"

definition matching_pair :: "juice_agent \<Rightarrow> addr_record \<Rightarrow> nat option" where
  "matching_pair a record =
     find (\<lambda>p. \<not> pair_is_relayed a (ag_pairs a ! p)
            \<and> addr_record_is_equal (cand_resolved (remote_of a (ag_pairs a ! p))) record True) (ag_ordered_pairs a)"

definition agent_find_entry_from_record :: "addr_record \<Rightarrow> addr_record option \<Rightarrow> juice_agent \<Rightarrow> nat option" where
  "agent_find_entry_from_record record via a =
     (let n = length (ag_entries a) in
      if selected_matches a record via then ag_selected_entry a
      else case via of
             Some _ \<Rightarrow> first_index (\<lambda>i. entry_matches a record via (ag_entries a ! i)) n
           | None \<Rightarrow>
               (case (case matching_pair a record of
                        None \<Rightarrow> None
                      | Some p \<Rightarrow> first_index (\<lambda>i. en_pair (ag_entries a ! i) = Some p) n) of
                  Some i \<Rightarrow> Some i
                | None \<Rightarrow> first_index (\<lambda>i. entry_matches a record via (ag_entries a ! i)) n))"

end
