(* ===== verification/Agent_Msg.thy ===== *)
theory Agent_Msg
  imports Agent
begin

text \<open>
  \<^verbatim>\<open>libjuice/src/agent.c\<close>, second part: the messages the agent sends to its peer and its servers.  Every message is
  composed in a buffer on the stack, of which only the bytes written by \<^verbatim>\<open>stun_write\<close> or \<^verbatim>\<open>turn_wrap_channel_data\<close> are sent.
\<close>

subsection \<open>Datagrams\<close>

definition stack_buffer :: bytes where
  "stack_buffer = replicate AGENT_BUFFER_SIZE 0"

definition agent_direct_send :: "addr_record \<Rightarrow> bytes \<Rightarrow> int \<Rightarrow> juice_agent \<Rightarrow> int \<times> juice_agent" where
  "agent_direct_send dst data ds a = conn_send dst data ds a"

text \<open>Write a message and send it to the record of the entry; the results are those of the callers.\<close>

definition send_message :: "addr_record \<Rightarrow> stun_message \<Rightarrow> bytes option \<Rightarrow> int \<Rightarrow> juice_agent \<Rightarrow> (int \<times> juice_agent) option" where
  "send_message dst msg password ds a =
     do { (sz, buffer) \<leftarrow> stun_write (env_junk (ag_env a)) stack_buffer msg password;
          if sz \<le> 0 then Some (-1, a)
          else let (ret, a1) = agent_direct_send dst (take (nat sz) buffer) ds a
               in Some (if ret < 0 then -1 else 0, a1) }"

subsection \<open>TURN requests\<close>

definition agent_send_turn_allocate_request :: "nat \<Rightarrow> u16 \<Rightarrow> juice_agent \<Rightarrow> (int \<times> juice_agent) option" where
  "agent_send_turn_allocate_request i method a =
     (let e = ag_entries a ! i in
      if method \<noteq> STUN_METHOD_ALLOCATE \<and> method \<noteq> STUN_METHOD_REFRESH then Some (-1, a)
      else if en_type e \<noteq> AGENT_STUN_ENTRY_TYPE_RELAY then Some (-1, a)
      else case en_turn e of
             None \<Rightarrow> Some (-1, a)
           | Some t \<Rightarrow>
               let m0 = zero_message\<lparr>msg_class := STUN_CLASS_REQUEST, msg_method := method,
                          transaction_id := en_transaction_id e, lifetime := of_int (TURN_LIFETIME div 1000)\<rparr>;
                   m1 = (if method = STUN_METHOD_ALLOCATE then m0\<lparr>requested_transport := True\<rparr> else m0);
                   auth = (nonce (ts_credentials t) \<noteq> []);
                   msg = (if auth then m1\<lparr>credentials := ts_credentials t\<rparr> else m1)
               in send_message (en_record e) msg (if auth then ts_password t else None) 0 a)"

text \<open>The random values drawn for a transaction id or a channel number; a draw loop that is still running has no result.\<close>

definition agent_send_turn_create_permission_request ::
  "nat \<Rightarrow> addr_record \<Rightarrow> int \<Rightarrow> juice_agent \<Rightarrow> (int \<times> juice_agent) option" where
  "agent_send_turn_create_permission_request i record ds a =
     (let e = ag_entries a ! i in
      if en_type e \<noteq> AGENT_STUN_ENTRY_TYPE_RELAY then Some (-1, a)
      else case en_turn e of
             None \<Rightarrow> Some (-1, a)
           | Some t \<Rightarrow>
               if realm (ts_credentials t) = [] \<or> nonce (ts_credentials t) = [] then Some (-1, a)
               else let (draws, a1) = random_draws STUN_TRANSACTION_ID_SIZE a in
                    do { r \<leftarrow> turn_set_random_permission_transaction_id (ts_map t) record draws;
                         (tid, m) \<leftarrow> r;
                         let a2 = upd_turn i (\<lambda>t. t\<lparr>ts_map := m\<rparr>) a1;
                         case tid of
                           None \<Rightarrow> Some (-1, a2)
                         | Some tx \<Rightarrow>
                             send_message (en_record e)
                               (zero_message\<lparr>msg_class := STUN_CLASS_REQUEST, msg_method := STUN_METHOD_CREATE_PERMISSION,
                                  transaction_id := tx, credentials := ts_credentials t, peers := [record]\<rparr>)
                               (ts_password t) ds a2 })"

text \<open>The channel of a record: the one it has, or a new random one.\<close>

definition channel_for ::
  "turn_map \<Rightarrow> addr_record \<Rightarrow> juice_agent \<Rightarrow> (u16 option \<times> turn_map \<times> juice_agent) option" where
  "channel_for m record a =
     do { have \<leftarrow> turn_get_channel m record;
          case have of
            Some c \<Rightarrow> Some (Some c, m, a)
          | None \<Rightarrow> (let (draws, a1) = random_draws 2 a; (now, a2) = current_timestamp a1 in
                     do { r \<leftarrow> turn_bind_random_channel now m (Some record) 0 (map ld_mem16 draws);
                          (c, m') \<leftarrow> r;
                          Some (c, m', a2) }) }"

definition agent_send_turn_channel_bind_request ::
  "nat \<Rightarrow> addr_record \<Rightarrow> int \<Rightarrow> juice_agent \<Rightarrow> (int \<times> u16 option \<times> juice_agent) option" where
  "agent_send_turn_channel_bind_request i record ds a =
     (let e = ag_entries a ! i in
      if en_type e \<noteq> AGENT_STUN_ENTRY_TYPE_RELAY then Some (-1, None, a)
      else case en_turn e of
             None \<Rightarrow> Some (-1, None, a)
           | Some t \<Rightarrow>
               if realm (ts_credentials t) = [] \<or> nonce (ts_credentials t) = [] then Some (-1, None, a)
               else do { (chan, m, a1) \<leftarrow> channel_for (ts_map t) record a;
                         case chan of
                           None \<Rightarrow> Some (-1, None, upd_turn i (\<lambda>t. t\<lparr>ts_map := m\<rparr>) a1)
                         | Some c \<Rightarrow>
                             let (draws, a2) = random_draws STUN_TRANSACTION_ID_SIZE a1 in
                             do { r \<leftarrow> turn_set_random_channel_transaction_id m record draws;
                                  (tid, m') \<leftarrow> r;
                                  let a3 = upd_turn i (\<lambda>t. t\<lparr>ts_map := m'\<rparr>) a2;
                                  case tid of
                                    None \<Rightarrow> Some (-1, None, a3)
                                  | Some tx \<Rightarrow>
                                      do { (ret, a4) \<leftarrow> send_message (en_record e)
                                             (zero_message\<lparr>msg_class := STUN_CLASS_REQUEST, msg_method := STUN_METHOD_CHANNEL_BIND,
                                                transaction_id := tx, credentials := ts_credentials t, channel_number := c,
                                                peers := [record]\<rparr>) (ts_password t) ds a3;
                                           Some (ret, Some c, a4) } } })"

subsection \<open>Data through a relay\<close>

text \<open>\<open>size\<close> is a \<^verbatim>\<open>size_t\<close>: an error of \<^verbatim>\<open>stun_write\<close> is a huge size, and sending that many bytes of the buffer reads past it.\<close>

definition agent_relay_send :: "nat \<Rightarrow> addr_record \<Rightarrow> bytes \<Rightarrow> int \<Rightarrow> juice_agent \<Rightarrow> (int \<times> juice_agent) option" where
  "agent_relay_send i dst data ds a =
     (case en_turn (ag_entries a ! i) of
        None \<Rightarrow> Some (-1, a)
      | Some t \<Rightarrow>
          let (now, a0) = current_timestamp a in
          do { allowed \<leftarrow> turn_has_permission now (ts_map t) dst;
               (ret, a1) \<leftarrow> (if allowed then Some (0, a0) else agent_send_turn_create_permission_request i dst ds a0);
               if ret \<noteq> 0 then Some (-1, a1)
               else let (tx, a2) = juice_random STUN_TRANSACTION_ID_SIZE a1 in
                    do { (ret, buffer) \<leftarrow> stun_write (env_junk (ag_env a2)) stack_buffer
                           (zero_message\<lparr>msg_class := STUN_CLASS_INDICATION, msg_method := STUN_METHOD_SEND,
                              transaction_id := tx, peers := [dst], msg_data := Some data\<rparr>) None;
                         let sz = (of_int ret :: u64);
                         if sz = 0 then Some (-1, a2)
                         else if unat sz > length buffer then None
                         else Some (agent_direct_send (en_record (ag_entries a2 ! i)) (take (unat sz) buffer) ds a2) } })"

definition agent_channel_send :: "nat \<Rightarrow> addr_record \<Rightarrow> bytes \<Rightarrow> int \<Rightarrow> juice_agent \<Rightarrow> (int \<times> juice_agent) option" where
  "agent_channel_send i record data ds a =
     (case en_turn (ag_entries a ! i) of
        None \<Rightarrow> Some (-1, a)
      | Some t \<Rightarrow>
          let (now, a0) = current_timestamp a in
          do { bound \<leftarrow> turn_get_bound_channel now (ts_map t) record;
               (ret, chan, a1) \<leftarrow> (case bound of
                                     Some c \<Rightarrow> Some (0, Some c, a0)
                                   | None \<Rightarrow> agent_send_turn_channel_bind_request i record ds a0);
               if ret < 0 then Some (-1, a1)
               else do { c \<leftarrow> chan;
                         let (len, buffer) = turn_wrap_channel_data stack_buffer data c;
                         if len \<le> 0 then Some (-1, a1)
                         else Some (agent_direct_send (en_record (ag_entries a1 ! i)) (take (nat len) buffer) ds a1) } })"

definition agent_send :: "bytes \<Rightarrow> int \<Rightarrow> juice_agent \<Rightarrow> (int \<times> juice_agent) option" where
  "agent_send data ds a =
     (case ag_selected_entry a of
        None \<Rightarrow> Some (-1, a)
      | Some s \<Rightarrow>
          (case en_relay_entry (ag_entries a ! s) of
             Some r \<Rightarrow> agent_channel_send r (en_record (ag_entries a ! s)) data ds a
           | None \<Rightarrow> Some (agent_direct_send (en_record (ag_entries a ! s)) data ds a)))"

subsection \<open>Binding messages\<close>

text \<open>The parts of a connectivity check that depend on the state of the agent.\<close>

definition check_request :: "juice_agent \<Rightarrow> agent_stun_entry \<Rightarrow> stun_message \<Rightarrow> stun_message" where
  "check_request a e m =
     m\<lparr>credentials := (credentials m)\<lparr>username := cstr (snd (snprintf STUN_MAX_USERNAME_LEN
            (ice_ufrag (ag_remote a) @ [0x3A] @ ice_ufrag (ag_local a))))\<rparr>,
       ice_controlling := (if ag_mode a = AGENT_MODE_CONTROLLING then ag_ice_tiebreaker a else 0),
       ice_controlled := (if ag_mode a = AGENT_MODE_CONTROLLED then ag_ice_tiebreaker a else 0),
       priority := ice_compute_priority ICE_CANDIDATE_TYPE_PEER_REFLEXIVE (sa_family (ar_addr (en_record e))) 1
         (case entry_pair a e of None \<Rightarrow> 0 | Some p \<Rightarrow> (case pr_local p of None \<Rightarrow> 0 | Some l \<Rightarrow> int l))
         ICE_CANDIDATE_TRANSPORT_UDP,
       use_candidate := (ag_mode a = AGENT_MODE_CONTROLLING
         \<and> (case entry_pair a e of None \<Rightarrow> False | Some p \<Rightarrow> pr_nomination_requested p \<and> \<not> pr_nominated p))\<rparr>"

text \<open>The message that is written, its password and the agent after composing it; \<open>Inl\<close> is an early return.\<close>

definition compose_binding ::
  "nat \<Rightarrow> u16 \<Rightarrow> u32 \<Rightarrow> bytes option \<Rightarrow> addr_record option \<Rightarrow> juice_agent
   \<Rightarrow> (int + stun_message \<times> bytes option) \<times> juice_agent" where
  "compose_binding i cls code tid map_addr a =
     (let e = ag_entries a ! i;
          m0 = zero_message\<lparr>msg_class := cls, msg_method := STUN_METHOD_BINDING\<rparr>
      in if (cls = STUN_CLASS_RESP_SUCCESS \<or> cls = STUN_CLASS_RESP_ERROR) \<and> tid = None then (Inl (-1), a)
         else let (tx, a1) = (case tid of
                                Some t \<Rightarrow> (t, a)
                              | None \<Rightarrow> if cls = STUN_CLASS_INDICATION then juice_random STUN_TRANSACTION_ID_SIZE a
                                        else (en_transaction_id e, a));
                  m1 = m0\<lparr>transaction_id := tx\<rparr>
              in if en_type e \<noteq> AGENT_STUN_ENTRY_TYPE_CHECK then (Inr (m1, None), a1)
                 else if cls = STUN_CLASS_REQUEST
                 then if ice_ufrag (ag_remote a1) = [] \<or> ice_pwd (ag_remote a1) = [] then (Inl 0, a1)
                      else (Inr (check_request a1 e m1, Some (ice_pwd (ag_remote a1))),
                            upd_ent i (\<lambda>e. e\<lparr>en_mode := ag_mode a1\<rparr>) a1)
                 else if cls = STUN_CLASS_RESP_SUCCESS \<or> cls = STUN_CLASS_RESP_ERROR
                 then (Inr (m1\<lparr>error_code := code, mapped := (case map_addr of None \<Rightarrow> mapped m1 | Some r \<Rightarrow> r)\<rparr>,
                            Some (ice_pwd (ag_local a1))), a1)
                 else (Inr (m1, None), a1))"

definition agent_send_stun_binding ::
  "nat \<Rightarrow> u16 \<Rightarrow> u32 \<Rightarrow> bytes option \<Rightarrow> addr_record option \<Rightarrow> juice_agent \<Rightarrow> (int \<times> juice_agent) option" where
  "agent_send_stun_binding i cls code tid map_addr a =
     (case compose_binding i cls code tid map_addr a of
        (Inl ret, a1) \<Rightarrow> Some (ret, a1)
      | (Inr (msg, password), a1) \<Rightarrow>
          let e = ag_entries a1 ! i in
          (case en_relay_entry e of
             None \<Rightarrow> send_message (en_record e) msg password 0 a1
           | Some r \<Rightarrow>
               do { (sz, buffer) \<leftarrow> stun_write (env_junk (ag_env a1)) stack_buffer msg password;
                    if sz \<le> 0 then Some (-1, a1)
                    else do { (ret, a2) \<leftarrow> (if (case entry_pair a1 e of None \<Rightarrow> False | Some p \<Rightarrow> pr_nominated p)
                                            then agent_channel_send r (en_record e) (take (nat sz) buffer) 0 a1
                                            else agent_relay_send r (en_record e) (take (nat sz) buffer) 0 a1);
                              Some (if ret < 0 then -1 else 0, a2) } }))"

end
