(* ===== verification/Agent_Recv.thy ===== *)
theory Agent_Recv
  imports Agent_Msg
begin

text \<open>
  \<^verbatim>\<open>libjuice/src/agent.c\<close>, third part: what the agent does with a datagram.  Callbacks the application did not set are in the
  trace all the same.
\<close>

subsection \<open>Verification\<close>

definition split_username :: "bytes \<Rightarrow> (bytes \<times> bytes) option" where
  "split_username u =
     (if 0x3A \<in> set u then Some (takeWhile (\<lambda>c. c \<noteq> 0x3A) u, tl (dropWhile (\<lambda>c. c \<noteq> 0x3A) u)) else None)"

definition username_accepted :: "juice_agent \<Rightarrow> bytes \<Rightarrow> bool" where
  "username_accepted a u =
     (case split_username u of
        None \<Rightarrow> False
      | Some (local_ufrag, remote_ufrag) \<Rightarrow>
          local_ufrag = ice_ufrag (ag_local a)
          \<and> (ice_ufrag (ag_remote a) = [] \<or> remote_ufrag = ice_ufrag (ag_remote a)))"

definition agent_verify_stun_binding :: "bytes \<Rightarrow> stun_message \<Rightarrow> juice_agent \<Rightarrow> int option" where
  "agent_verify_stun_binding buf msg a =
     (if msg_method msg \<noteq> STUN_METHOD_BINDING then Some (-1)
      else if msg_class msg = STUN_CLASS_INDICATION \<or> msg_class msg = STUN_CLASS_RESP_ERROR then Some 0
      else if \<not> has_integrity msg then Some (-1)
      else if msg_class msg = STUN_CLASS_REQUEST \<and> \<not> username_accepted a (username (credentials msg)) then Some (-1)
      else let password = (if msg_class msg = STUN_CLASS_REQUEST then ice_pwd (ag_local a) else ice_pwd (ag_remote a))
           in if password = [] then Some (-1)
              else do { ok \<leftarrow> stun_check_integrity buf msg (Some password); Some (if ok then 0 else -1) })"

text \<open>The message comes back with the credentials of the entry.\<close>

definition agent_verify_credentials :: "agent_stun_entry \<Rightarrow> bytes \<Rightarrow> stun_message \<Rightarrow> (int \<times> stun_message) option" where
  "agent_verify_credentials e buf msg =
     (if msg_class msg = STUN_CLASS_INDICATION \<or> (msg_class msg = STUN_CLASS_RESP_ERROR \<and> error_code msg \<noteq> 400)
      then Some (0, msg)
      else if \<not> has_integrity msg then Some (-1, msg)
      else case en_turn e of
             None \<Rightarrow> Some (-1, msg)
           | Some t \<Rightarrow>
               let c = ts_credentials t;
                   msg' = msg\<lparr>credentials := (credentials msg)\<lparr>realm := realm c, nonce := nonce c, username := username c\<rparr>\<rparr>
               in do { ok \<leftarrow> stun_check_integrity buf msg' (ts_password t); Some (if ok then 0 else -1, msg') })"

subsection \<open>Binding messages\<close>

definition note_nomination :: "nat \<Rightarrow> juice_agent \<Rightarrow> juice_agent option" where
  "note_nomination i a =
     do { p \<leftarrow> en_pair (ag_entries a ! i);
          Some (upd_pair p (\<lambda>q. if pr_state q = ICE_CANDIDATE_PAIR_STATE_SUCCEEDED then q\<lparr>pr_nominated := True\<rparr>
                                else q\<lparr>pr_nomination_requested := True\<rparr>) a) }"

definition triggered_check :: "nat \<Rightarrow> juice_agent \<Rightarrow> juice_agent option" where
  "triggered_check i a =
     do { p \<leftarrow> en_pair (ag_entries a ! i);
          if pr_state (ag_pairs a ! p) \<noteq> ICE_CANDIDATE_PAIR_STATE_SUCCEEDED \<and> ice_ufrag (ag_remote a) \<noteq> []
          then agent_arm_transmission i STUN_PACING_TIME
                 (upd_ent i (\<lambda>e. e\<lparr>en_state := AGENT_STUN_ENTRY_STATE_PENDING\<rparr>)
                   (upd_pair p (\<lambda>q. q\<lparr>pr_state := ICE_CANDIDATE_PAIR_STATE_PENDING\<rparr>) a))
          else Some a }"

definition reply_error :: "nat \<Rightarrow> u32 \<Rightarrow> stun_message \<Rightarrow> int \<Rightarrow> juice_agent \<Rightarrow> (int \<times> juice_agent) option" where
  "reply_error i code msg ret a =
     do { (_, a1) \<leftarrow> agent_send_stun_binding i STUN_CLASS_RESP_ERROR code (Some (transaction_id msg)) None a; Some (ret, a1) }"

definition switch_role :: "agent_mode \<Rightarrow> juice_agent \<Rightarrow> juice_agent" where
  "switch_role mode a = agent_update_candidate_pairs (a\<lparr>ag_mode := mode\<rparr>)"

text \<open>The second comparison of tiebreakers is with \<^verbatim>\<open>ice_controlling\<close>, as in the code.\<close>

definition process_binding_request :: "nat \<Rightarrow> stun_message \<Rightarrow> addr_record \<Rightarrow> juice_agent \<Rightarrow> (int \<times> juice_agent) option" where
  "process_binding_request i msg src a =
     (if en_type (ag_entries a ! i) \<noteq> AGENT_STUN_ENTRY_TYPE_CHECK then Some (-1, a)
      else if ice_controlling msg = ice_controlled msg then reply_error i 400 msg (-1) a
      else if ag_mode a = AGENT_MODE_CONTROLLING \<and> ice_controlling msg \<noteq> 0
      then if ag_ice_tiebreaker a \<ge> ice_controlling msg then reply_error i 487 msg 0 a
           else Some (0, switch_role AGENT_MODE_CONTROLLED a)
      else if ag_mode a = AGENT_MODE_CONTROLLED \<and> ice_controlled msg \<noteq> 0
      then if ag_ice_tiebreaker a \<ge> ice_controlling msg then Some (0, switch_role AGENT_MODE_CONTROLLING a)
           else reply_error i 487 msg 0 a
      else if use_candidate msg \<and> ice_controlling msg = 0 then reply_error i 400 msg (-1) a
      else do { a1 \<leftarrow> (if use_candidate msg then note_nomination i a else Some a);
                (ret, a2) \<leftarrow> agent_send_stun_binding i STUN_CLASS_RESP_SUCCESS 0 (Some (transaction_id msg)) (Some src) a1;
                if ret \<noteq> 0 then Some (-1, a2)
                else do { a3 \<leftarrow> triggered_check i a2; Some (0, a3) } })"

text \<open>Whether the session has settled for a pair.\<close>

definition has_nominated_selection :: "juice_agent \<Rightarrow> bool" where
  "has_nominated_selection a = (case ag_selected_pair a of None \<Rightarrow> False | Some p \<Rightarrow> pr_nominated (ag_pairs a ! p))"

definition fail_check :: "nat \<Rightarrow> nat option \<Rightarrow> juice_agent \<Rightarrow> juice_agent" where
  "fail_check i p a =
     (let a1 = upd_ent i (\<lambda>e. e\<lparr>en_state := AGENT_STUN_ENTRY_STATE_FAILED, en_next_transmission := 0\<rparr>) a
      in case p of None \<Rightarrow> a1 | Some p \<Rightarrow> upd_pair p (\<lambda>q. q\<lparr>pr_state := ICE_CANDIDATE_PAIR_STATE_FAILED\<rparr>) a1)"

text \<open>The entry is done and, as long as no pair is nominated, kept alive.\<close>

definition entry_succeeded :: "nat \<Rightarrow> juice_agent \<Rightarrow> juice_agent option" where
  "entry_succeeded i a =
     (let a1 = (if en_state (ag_entries a ! i) \<noteq> AGENT_STUN_ENTRY_STATE_SUCCEEDED_KEEPALIVE
                then upd_ent i (\<lambda>e. e\<lparr>en_state := AGENT_STUN_ENTRY_STATE_SUCCEEDED, en_next_transmission := 0\<rparr>) a else a)
      in if \<not> has_nominated_selection a1
         then agent_arm_keepalive i (upd_ent i (\<lambda>e. e\<lparr>en_state := AGENT_STUN_ENTRY_STATE_SUCCEEDED_KEEPALIVE\<rparr>) a1)
         else Some a1)"

definition pair_succeeded :: "nat \<Rightarrow> stun_message \<Rightarrow> juice_agent \<Rightarrow> juice_agent" where
  "pair_succeeded p msg a =
     (let a1 = upd_pair p (\<lambda>q. q\<lparr>pr_state := ICE_CANDIDATE_PAIR_STATE_SUCCEEDED\<rparr>) a;
          a2 = (if pr_local (ag_pairs a1 ! p) = None \<and> ar_len (mapped msg) \<noteq> 0
                then upd_pair p (\<lambda>q. q\<lparr>pr_local := ice_find_candidate_from_addr (ag_local a1) (mapped msg)
                                                     ICE_CANDIDATE_TYPE_UNKNOWN\<rparr>) a1 else a1);
          (now, a3) = current_timestamp a2
      in upd_pair p (\<lambda>q. q\<lparr>pr_consent_expiry := now + CONSENT_TIMEOUT,
                            pr_nominated := pr_nominated q \<or> pr_nomination_requested q\<rparr>) a3)"

definition process_binding_success ::
  "nat \<Rightarrow> stun_message \<Rightarrow> addr_record \<Rightarrow> addr_record option \<Rightarrow> juice_agent \<Rightarrow> (int \<times> juice_agent) option" where
  "process_binding_success i msg src via a =
     do { a1 \<leftarrow> entry_succeeded i a;
          let type = en_type (ag_entries a1 ! i);
          let a2 = (if ar_len (mapped msg) \<noteq> 0 \<and> via = None
                    then snd (agent_add_local_reflexive_candidate
                           (if type = AGENT_STUN_ENTRY_TYPE_CHECK then ICE_CANDIDATE_TYPE_PEER_REFLEXIVE
                            else ICE_CANDIDATE_TYPE_SERVER_REFLEXIVE) (mapped msg) a1) else a1);
          if type = AGENT_STUN_ENTRY_TYPE_CHECK
          then Some (case en_pair (ag_entries a2 ! i) of
                       None \<Rightarrow> (-1, a2)
                     | Some p \<Rightarrow>
                         if pr_state (ag_pairs a2 ! p) \<noteq> ICE_CANDIDATE_PAIR_STATE_SUCCEEDED
                            \<and> \<not> addr_record_is_equal src (en_record (ag_entries a2 ! i)) True
                         then (0, fail_check i (Some p) a2)
                         else (0, pair_succeeded p msg a2))
          else if type = AGENT_STUN_ENTRY_TYPE_SERVER then Some (0, agent_update_gathering_done a2)
          else Some (0, a2) }"

definition other_role :: "agent_mode \<Rightarrow> agent_mode" where
  "other_role m = (if m = AGENT_MODE_CONTROLLING then AGENT_MODE_CONTROLLED else AGENT_MODE_CONTROLLING)"

definition process_binding_error :: "nat \<Rightarrow> stun_message \<Rightarrow> juice_agent \<Rightarrow> (int \<times> juice_agent) option" where
  "process_binding_error i msg a =
     (let e = ag_entries a ! i in
      if en_type e = AGENT_STUN_ENTRY_TYPE_CHECK
      then if error_code msg = 487
           then if en_mode e = ag_mode a
                then let (bs, a1) = juice_random 8 (a\<lparr>ag_mode := other_role (en_mode e)\<rparr>);
                         a2 = agent_update_candidate_pairs (a1\<lparr>ag_ice_tiebreaker := rd64 (rev bs)\<rparr>)
                     in if en_state (ag_entries a2 ! i) \<noteq> AGENT_STUN_ENTRY_STATE_IDLE
                        then do { a3 \<leftarrow> agent_arm_transmission i 0
                                         (upd_ent i (\<lambda>e. e\<lparr>en_state := AGENT_STUN_ENTRY_STATE_PENDING\<rparr>) a2);
                                  Some (0, a3) }
                        else Some (0, a2)
                else Some (0, a)
           else Some (0, fail_check i (en_pair e) a)
      else if en_type e = AGENT_STUN_ENTRY_TYPE_SERVER
      then Some (0, agent_update_gathering_done (upd_ent i (\<lambda>e. e\<lparr>en_state := AGENT_STUN_ENTRY_STATE_FAILED\<rparr>) a))
      else Some (0, a))"

definition agent_process_stun_binding ::
  "nat \<Rightarrow> stun_message \<Rightarrow> addr_record \<Rightarrow> addr_record option \<Rightarrow> juice_agent \<Rightarrow> (int \<times> juice_agent) option" where
  "agent_process_stun_binding i msg src via a =
     (if msg_class msg = STUN_CLASS_REQUEST then process_binding_request i msg src a
      else if msg_class msg = STUN_CLASS_RESP_SUCCESS then process_binding_success i msg src via a
      else if msg_class msg = STUN_CLASS_RESP_ERROR then process_binding_error i msg a
      else if msg_class msg = STUN_CLASS_INDICATION then Some (0, a)
      else Some (-1, a))"

subsection \<open>TURN messages\<close>

definition fail_allocation :: "nat \<Rightarrow> juice_agent \<Rightarrow> juice_agent" where
  "fail_allocation i a = agent_update_gathering_done (upd_ent i (\<lambda>e. e\<lparr>en_state := AGENT_STUN_ENTRY_STATE_FAILED\<rparr>) a)"

text \<open>Take over realm and nonce and send the request again; without them the allocation has failed.\<close>

definition retry_with_credentials :: "nat \<Rightarrow> stun_message \<Rightarrow> juice_agent \<Rightarrow> (int \<times> juice_agent) option" where
  "retry_with_credentials i msg a =
     (if realm (credentials msg) = [] \<or> nonce (credentials msg) = [] then Some (-1, fail_allocation i a)
      else do { a1 \<leftarrow> agent_arm_transmission i 0
                        (upd_turn i (\<lambda>t. t\<lparr>ts_credentials := stun_process_credentials (credentials msg) (ts_credentials t)\<rparr>) a);
                Some (0, a1) })"

definition process_allocate_success :: "nat \<Rightarrow> stun_message \<Rightarrow> juice_agent \<Rightarrow> (int \<times> juice_agent) option" where
  "process_allocate_success i msg a =
     (if msg_method msg = STUN_METHOD_REFRESH then Some (0, a)
      else if ar_len (relayed msg) = 0
      then Some (-1, upd_ent i (\<lambda>e. e\<lparr>en_state := AGENT_STUN_ENTRY_STATE_FAILED\<rparr>) a)
      else do { a1 \<leftarrow> entry_succeeded i a;
                let a2 = (if ar_len (mapped msg) \<noteq> 0
                          then snd (agent_add_local_reflexive_candidate ICE_CANDIDATE_TYPE_SERVER_REFLEXIVE (mapped msg) a1)
                          else a1);
                (ret, a3) \<leftarrow> agent_add_local_relayed_candidate (relayed msg) (upd_ent i (\<lambda>e. e\<lparr>en_relayed := relayed msg\<rparr>) a2);
                if ret \<noteq> 0 then Some (-1, a3) else Some (0, agent_update_gathering_done a3) })"

definition process_allocate_error :: "nat \<Rightarrow> agent_turn_state \<Rightarrow> stun_message \<Rightarrow> juice_agent \<Rightarrow> (int \<times> juice_agent) option" where
  "process_allocate_error i t msg a =
     (if error_code msg = 401
      then if realm (ts_credentials t) \<noteq> [] then Some (-1, fail_allocation i a) else retry_with_credentials i msg a
      else if error_code msg = 438 then retry_with_credentials i msg a
      else if msg_method msg = STUN_METHOD_ALLOCATE \<and> error_code msg = 300
      then if ar_len (alternate_server msg) = 0
              \<or> addr_record_is_equal (alternate_server msg) (en_record (ag_entries a ! i)) True
              \<or> en_turn_redirections (ag_entries a ! i) \<ge> MAX_TURN_REDIRECTIONS
           then Some (-1, fail_allocation i a)
           else do { a1 \<leftarrow> agent_arm_transmission i 0
                             (upd_ent i (\<lambda>e. e\<lparr>en_turn_redirections := Suc (en_turn_redirections e),
                                               en_record := alternate_server msg\<rparr>) a);
                     Some (0, a1) }
      else Some (0, fail_allocation i a))"

definition agent_process_turn_allocate :: "nat \<Rightarrow> stun_message \<Rightarrow> juice_agent \<Rightarrow> (int \<times> juice_agent) option" where
  "agent_process_turn_allocate i msg a =
     (if msg_method msg \<noteq> STUN_METHOD_ALLOCATE \<and> msg_method msg \<noteq> STUN_METHOD_REFRESH then Some (-1, a)
      else if en_type (ag_entries a ! i) \<noteq> AGENT_STUN_ENTRY_TYPE_RELAY then Some (-1, a)
      else case en_turn (ag_entries a ! i) of
             None \<Rightarrow> Some (-1, a)
           | Some t \<Rightarrow>
               if msg_class msg = STUN_CLASS_RESP_SUCCESS then process_allocate_success i msg a
               else if msg_class msg = STUN_CLASS_RESP_ERROR then process_allocate_error i t msg a
               else Some (-1, a))"

text \<open>The two responses that concern a record of the TURN map are treated alike: \<open>confirm\<close> is the update of the map
  on success, \<open>resend\<close> the request that is repeated with the new nonce.\<close>

definition process_turn_response ::
  "(int \<Rightarrow> turn_map \<Rightarrow> bytes \<Rightarrow> (bool \<times> turn_map) option) \<Rightarrow> (addr_record \<Rightarrow> juice_agent \<Rightarrow> juice_agent option)
   \<Rightarrow> nat \<Rightarrow> stun_message \<Rightarrow> juice_agent \<Rightarrow> (int \<times> juice_agent) option" where
  "process_turn_response confirm resend i msg a =
     (if en_type (ag_entries a ! i) \<noteq> AGENT_STUN_ENTRY_TYPE_RELAY then Some (-1, a)
      else case en_turn (ag_entries a ! i) of
             None \<Rightarrow> Some (-1, a)
           | Some t \<Rightarrow>
               if msg_class msg = STUN_CLASS_RESP_SUCCESS
               then let (now, a1) = current_timestamp a in
                    do { (_, m) \<leftarrow> confirm now (ts_map t) (transaction_id msg);
                         Some (0, upd_turn i (\<lambda>t. t\<lparr>ts_map := m\<rparr>) a1) }
               else if msg_class msg = STUN_CLASS_RESP_ERROR
               then if error_code msg = 438
                    then if realm (credentials msg) = [] \<or> nonce (credentials msg) = [] then Some (-1, a)
                         else do { (found, m) \<leftarrow> turn_retrieve_transaction_id (ts_map t) (transaction_id msg);
                                   let a1 = upd_turn i (\<lambda>t. t\<lparr>ts_credentials := stun_process_credentials (credentials msg) (ts_credentials t),
                                                               ts_map := m\<rparr>) a;
                                   case found of
                                     None \<Rightarrow> Some (0, a1)
                                   | Some record \<Rightarrow> do { a2 \<leftarrow> resend record a1; Some (0, a2) } }
                    else Some (0, a)
               else Some (-1, a))"

definition agent_process_turn_create_permission :: "nat \<Rightarrow> stun_message \<Rightarrow> juice_agent \<Rightarrow> (int \<times> juice_agent) option" where
  "agent_process_turn_create_permission i msg a =
     process_turn_response (\<lambda>now m tid. turn_set_permission now m tid None (PERMISSION_LIFETIME div 2))
       (\<lambda>record a. map_option snd (agent_send_turn_create_permission_request i record 0 a)) i msg a"

definition agent_process_turn_channel_bind :: "nat \<Rightarrow> stun_message \<Rightarrow> juice_agent \<Rightarrow> (int \<times> juice_agent) option" where
  "agent_process_turn_channel_bind i msg a =
     process_turn_response (\<lambda>now m tid. turn_bind_current_channel now m tid None (BIND_LIFETIME div 2))
       (\<lambda>record a. map_option (snd \<circ> snd) (agent_send_turn_channel_bind_request i record 0 a)) i msg a"

subsection \<open>Datagrams\<close>

text \<open>A datagram that came through a relay is handed to \<open>input\<close>, with the address of its sender and the relayed
  address it was sent to.\<close>

type_synonym input = "bytes \<Rightarrow> addr_record \<Rightarrow> addr_record option \<Rightarrow> juice_agent \<Rightarrow> (int \<times> juice_agent) option"

definition agent_process_turn_data :: "input \<Rightarrow> nat \<Rightarrow> stun_message \<Rightarrow> juice_agent \<Rightarrow> (int \<times> juice_agent) option" where
  "agent_process_turn_data input i msg a =
     (if en_type (ag_entries a ! i) \<noteq> AGENT_STUN_ENTRY_TYPE_RELAY then Some (-1, a)
      else if msg_class msg \<noteq> STUN_CLASS_INDICATION then Some (-1, a)
      else case msg_data msg of
             None \<Rightarrow> Some (-1, a)
           | Some data \<Rightarrow>
               (case peers msg of
                  [] \<Rightarrow> Some (-1, a)
                | peer # _ \<Rightarrow> input data peer (Some (en_relayed (ag_entries a ! i))) a))"

definition agent_process_channel_data :: "input \<Rightarrow> nat \<Rightarrow> bytes \<Rightarrow> juice_agent \<Rightarrow> (int \<times> juice_agent) option" where
  "agent_process_channel_data input i buf a =
     (if length buf < 4 then Some (-1, a)
      else let channel = rd16 buf; len = unat (rd16 (drop 2 buf)) in
           if len > length buf - 4 then Some (-1, a)
           else do { t \<leftarrow> en_turn (ag_entries a ! i);
                     src \<leftarrow> turn_find_channel (ts_map t) channel;
                     case src of
                       None \<Rightarrow> Some (-1, a)
                     | Some r \<Rightarrow> input (take len (drop 4 buf)) r (Some (en_relayed (ag_entries a ! i))) a })"

text \<open>A binding message with integrity is verified first, and its sender becomes a remote candidate; \<open>Some None\<close> is a
  message that is dropped.\<close>

definition admit_binding :: "bytes \<Rightarrow> stun_message \<Rightarrow> addr_record \<Rightarrow> juice_agent \<Rightarrow> juice_agent option option" where
  "admit_binding buf msg src a =
     (if msg_method msg = STUN_METHOD_BINDING \<and> has_integrity msg
      then do { ret \<leftarrow> agent_verify_stun_binding buf msg a;
                if ret \<noteq> 0 then Some None
                else do { (_, a1) \<leftarrow> agent_add_remote_reflexive_candidate ICE_CANDIDATE_TYPE_PEER_REFLEXIVE (priority msg) src a;
                          Some (Some a1) } }
      else Some (Some a))"

text \<open>The entry a message is for; a message without one ends with the given result.\<close>

definition route_stun :: "stun_message \<Rightarrow> addr_record \<Rightarrow> addr_record option \<Rightarrow> juice_agent \<Rightarrow> ((int + nat) \<times> juice_agent) option" where
  "route_stun msg src via a =
     (if STUN_IS_RESPONSE (msg_class msg)
      then do { (found, a1) \<leftarrow> agent_find_entry_from_transaction_id (transaction_id msg) a;
                Some (case found of None \<Rightarrow> (Inl (-1), a1) | Some i \<Rightarrow> (Inr i, a1)) }
      else Some (case agent_find_entry_from_record src via a of None \<Rightarrow> (Inl 0, a) | Some i \<Rightarrow> (Inr i, a)))"

definition with_credentials ::
  "(nat \<Rightarrow> stun_message \<Rightarrow> juice_agent \<Rightarrow> (int \<times> juice_agent) option)
   \<Rightarrow> nat \<Rightarrow> bytes \<Rightarrow> stun_message \<Rightarrow> juice_agent \<Rightarrow> (int \<times> juice_agent) option" where
  "with_credentials process i buf msg a =
     do { (ret, msg') \<leftarrow> agent_verify_credentials (ag_entries a ! i) buf msg;
          if ret \<noteq> 0 then Some (-1, a) else process i msg' a }"

definition handle_stun ::
  "input \<Rightarrow> nat \<Rightarrow> bytes \<Rightarrow> stun_message \<Rightarrow> addr_record \<Rightarrow> addr_record option \<Rightarrow> juice_agent \<Rightarrow> (int \<times> juice_agent) option" where
  "handle_stun input i buf msg src via a =
     (let method = msg_method msg in
      if method = STUN_METHOD_BINDING
      then if en_type (ag_entries a ! i) = AGENT_STUN_ENTRY_TYPE_CHECK \<and> \<not> has_integrity msg
              \<and> (msg_class msg = STUN_CLASS_REQUEST \<or> msg_class msg = STUN_CLASS_RESP_SUCCESS) then Some (-1, a)
           else agent_process_stun_binding i msg src via a
      else if method = STUN_METHOD_ALLOCATE \<or> method = STUN_METHOD_REFRESH
      then with_credentials agent_process_turn_allocate i buf msg a
      else if method = STUN_METHOD_CREATE_PERMISSION then with_credentials agent_process_turn_create_permission i buf msg a
      else if method = STUN_METHOD_CHANNEL_BIND then with_credentials agent_process_turn_channel_bind i buf msg a
      else if method = STUN_METHOD_DATA then agent_process_turn_data input i msg a
      else Some (-1, a))"

definition agent_dispatch_stun ::
  "input \<Rightarrow> bytes \<Rightarrow> stun_message \<Rightarrow> addr_record \<Rightarrow> addr_record option \<Rightarrow> juice_agent \<Rightarrow> (int \<times> juice_agent) option" where
  "agent_dispatch_stun input buf msg src via a =
     do { admitted \<leftarrow> admit_binding buf msg src a;
          case admitted of
            None \<Rightarrow> Some (-1, a)
          | Some a1 \<Rightarrow>
              do { (target, a2) \<leftarrow> route_stun msg src via a1;
                   case target of
                     Inl ret \<Rightarrow> Some (ret, a2)
                   | Inr i \<Rightarrow> handle_stun input i buf msg src via a2 } }"

definition agent_input_with :: "input \<Rightarrow> input" where
  "agent_input_with input buf src via a =
     (if ag_state a = JUICE_STATE_DISCONNECTED \<or> ag_state a = JUICE_STATE_GATHERING then Some (0, a)
      else do { stun \<leftarrow> is_stun_datagram buf;
                if stun
                then do { r \<leftarrow> stun_read buf;
                          case r of
                            None \<Rightarrow> Some (-1, a)
                          | Some (_, msg) \<Rightarrow> agent_dispatch_stun input buf msg src via a }
                else case agent_find_entry_from_record src via a of
                       None \<Rightarrow> Some (-1, a)
                     | Some i \<Rightarrow>
                         (case en_type (ag_entries a ! i) of
                            AGENT_STUN_ENTRY_TYPE_RELAY \<Rightarrow>
                              if is_channel_data buf then agent_process_channel_data input i buf a else Some (-1, a)
                          | AGENT_STUN_ENTRY_TYPE_CHECK \<Rightarrow> Some (0, emit (Cb_recv buf) a)
                          | _ \<Rightarrow> Some (-1, a)) })"

text \<open>A datagram inside a datagram is shorter, so that its length bounds the depth of the recursion.\<close>

fun input_depth :: "nat \<Rightarrow> input" where
  "input_depth 0 = (\<lambda>buf src via a. None)"
| "input_depth (Suc n) = agent_input_with (input_depth n)"

definition agent_input :: input where
  "agent_input buf src via a = input_depth (Suc (length buf)) buf src via a"

definition agent_conn_recv :: "bytes \<Rightarrow> addr_record \<Rightarrow> juice_agent \<Rightarrow> (int \<times> juice_agent) option" where
  "agent_conn_recv buf src a = do { (_, a1) \<leftarrow> agent_input buf src None a; Some (0, a1) }"

end
