(* ===== verification/Agent_Loop.thy ===== *)
theory Agent_Loop
  imports Agent_Recv
begin

text \<open>
  \<^verbatim>\<open>libjuice/src/agent.c\<close>, fourth part: the periodic work of the agent (retransmission, consent, selection and nomination of a
  pair, the next wake-up), as the library is built, with consent freshness.
\<close>

subsection \<open>TCP\<close>

definition agent_conn_tcp_state :: "addr_record \<Rightarrow> tcp_state \<Rightarrow> juice_agent \<Rightarrow> (int \<times> juice_agent) option" where
  "agent_conn_tcp_state dst st a =
     (case first_index (\<lambda>i. entry_is_tcp a (ag_entries a ! i) \<and> addr_record_is_equal (en_record (ag_entries a ! i)) dst True)
             (length (ag_entries a)) of
        None \<Rightarrow> Some (-1, a)
      | Some i \<Rightarrow>
          let a1 = upd_ent i (\<lambda>e. e\<lparr>en_tcp_state := st\<rparr>) a in
          (case st of
             TCP_STATE_CONNECTED \<Rightarrow> do { a2 \<leftarrow> agent_arm_transmission i 0 a1; Some (0, a2) }
           | TCP_STATE_CONNECTING \<Rightarrow> Some (0, a1)
           | _ \<Rightarrow> Some (0, conn_interrupt (fail_check i (en_pair (ag_entries a1 ! i)) a1))))"

text \<open>The polling backend opens one connection and reports at once that it is connecting.\<close>

definition conn_tcp_connect :: "addr_record \<Rightarrow> juice_agent \<Rightarrow> juice_agent option" where
  "conn_tcp_connect dst a =
     (if \<not> ag_conn_impl a then Some a
      else let a1 = emit (Conn_tcp_connect dst) a
           in if env_tcp_connecting (ag_env a) then map_option snd (agent_conn_tcp_state dst TCP_STATE_CONNECTING a1) else Some a1)"

subsection \<open>Transmissions\<close>

definition fresh_transaction :: "nat \<Rightarrow> juice_agent \<Rightarrow> juice_agent" where
  "fresh_transaction i a =
     (let (tx, a1) = juice_random STUN_TRANSACTION_ID_SIZE a
      in upd_ent i (\<lambda>e. e\<lparr>en_transaction_id := tx, en_transaction_id_expired := False\<rparr>) a1)"

definition send_request :: "nat \<Rightarrow> u16 \<Rightarrow> juice_agent \<Rightarrow> (int \<times> juice_agent) option" where
  "send_request i method a =
     (if en_type (ag_entries a ! i) = AGENT_STUN_ENTRY_TYPE_RELAY then agent_send_turn_allocate_request i method a
      else agent_send_stun_binding i STUN_CLASS_REQUEST 0 None None a)"

definition transmission_failed :: "nat \<Rightarrow> juice_agent \<Rightarrow> juice_agent" where
  "transmission_failed i a =
     (let a1 = upd_ent i (\<lambda>e. e\<lparr>en_state := AGENT_STUN_ENTRY_STATE_FAILED, en_next_transmission := 0\<rparr>) a in
      case en_type (ag_entries a1 ! i) of
        AGENT_STUN_ENTRY_TYPE_RELAY \<Rightarrow> agent_update_gathering_done a1
      | AGENT_STUN_ENTRY_TYPE_SERVER \<Rightarrow> agent_update_gathering_done a1
      | _ \<Rightarrow> (case en_pair (ag_entries a1 ! i) of
                None \<Rightarrow> a1
              | Some p \<Rightarrow> upd_pair p (\<lambda>q. q\<lparr>pr_state := ICE_CANDIDATE_PAIR_STATE_FAILED\<rparr>) a1))"

text \<open>The next transmission after a request was sent: the timeout doubles, and the last one is fixed.\<close>

definition schedule_retransmission :: "int \<Rightarrow> agent_stun_entry \<Rightarrow> agent_stun_entry" where
  "schedule_retransmission now e =
     (let e1 = e\<lparr>en_retransmissions := en_retransmissions e - 1\<rparr>
      in if en_retransmissions e1 < 0 then e1\<lparr>en_next_transmission := now + LAST_STUN_RETRANSMISSION_TIMEOUT\<rparr>
         else e1\<lparr>en_next_transmission := now + en_retransmission_timeout e1,
                  en_retransmission_timeout := en_retransmission_timeout e1 * 2\<rparr>)"

definition transmit :: "int \<Rightarrow> nat \<Rightarrow> juice_agent \<Rightarrow> juice_agent option" where
  "transmit now i a =
     (if en_retransmissions (ag_entries a ! i) \<ge> 0
      then do { let a1 = (if en_transaction_id_expired (ag_entries a ! i) then fresh_transaction i a else a);
                (ret, a2) \<leftarrow> send_request i STUN_METHOD_ALLOCATE a1;
                Some (if ret \<ge> 0 then upd_ent i (schedule_retransmission now) a2 else transmission_failed i a2) }
      else Some (transmission_failed i a))"

definition serve_pending :: "int \<Rightarrow> nat \<Rightarrow> juice_agent \<Rightarrow> juice_agent option" where
  "serve_pending now i a =
     (if en_next_transmission (ag_entries a ! i) > now then Some a
      else if entry_is_tcp a (ag_entries a ! i)
      then do { a1 \<leftarrow> (if en_tcp_state (ag_entries a ! i) = TCP_STATE_DISCONNECTED
                        then conn_tcp_connect (en_record (ag_entries a ! i)) a else Some a);
                if en_tcp_state (ag_entries a1 ! i) \<noteq> TCP_STATE_CONNECTED then Some a1 else transmit now i a1 }
      else transmit now i a)"

definition serve_keepalive :: "int \<Rightarrow> nat \<Rightarrow> juice_agent \<Rightarrow> juice_agent option" where
  "serve_keepalive now i a =
     (let e = ag_entries a ! i in
      if (case entry_pair a e of None \<Rightarrow> False | Some p \<Rightarrow> pr_consent_expiry p \<le> now)
      then Some (fail_check i (en_pair e) a)
      else if en_next_transmission e > now then Some a
      else do { (ret, a1) \<leftarrow> send_request i STUN_METHOD_REFRESH (fresh_transaction i a);
                if ret < 0 then agent_arm_transmission i STUN_KEEPALIVE_PERIOD a1 else agent_arm_keepalive i a1 })"

definition serve_entry :: "int \<Rightarrow> nat \<Rightarrow> juice_agent \<Rightarrow> juice_agent option" where
  "serve_entry now i a =
     (case en_state (ag_entries a ! i) of
        AGENT_STUN_ENTRY_STATE_PENDING \<Rightarrow> serve_pending now i a
      | AGENT_STUN_ENTRY_STATE_SUCCEEDED_KEEPALIVE \<Rightarrow> serve_keepalive now i a
      | _ \<Rightarrow> Some (upd_ent i (\<lambda>e. e\<lparr>en_next_transmission := 0\<rparr>) a))"

subsection \<open>Choosing a pair\<close>

text \<open>The loop over the pairs in order: the count of pending pairs, the nominated and the selected pair so far.\<close>

definition scan_pair :: "nat \<Rightarrow> nat \<times> nat option \<times> nat option \<times> juice_agent \<Rightarrow> nat \<times> nat option \<times> nat option \<times> juice_agent" where
  "scan_pair p st =
     (case st of (pending, nominated, selected, a) \<Rightarrow>
        let q = ag_pairs a ! p in
        if pr_nominated q
        then if nominated = None then (pending, Some p, Some p, a) else st
        else if pr_state q = ICE_CANDIDATE_PAIR_STATE_SUCCEEDED
        then if selected = None then (pending, nominated, Some p, a) else st
        else if pr_state q = ICE_CANDIDATE_PAIR_STATE_PENDING
        then if ag_mode a = AGENT_MODE_CONTROLLING \<and> selected \<noteq> None
             then (pending, nominated, selected, upd_pair p (\<lambda>q. q\<lparr>pr_state := ICE_CANDIDATE_PAIR_STATE_FROZEN\<rparr>) a)
             else (pending + 1, nominated, selected, a)
        else st)"

text \<open>A controlling agent with a nominated pair checks no other.\<close>

definition freeze_others :: "nat \<Rightarrow> juice_agent \<Rightarrow> juice_agent" where
  "freeze_others n a =
     fold (\<lambda>p a. if p \<noteq> n \<and> pr_state (ag_pairs a ! p) = ICE_CANDIDATE_PAIR_STATE_PENDING
                 then upd_pair p (\<lambda>q. q\<lparr>pr_state := ICE_CANDIDATE_PAIR_STATE_FROZEN\<rparr>) a else a) (ag_ordered_pairs a) a"

definition scan_pairs :: "juice_agent \<Rightarrow> nat \<times> nat option \<times> nat option \<times> juice_agent" where
  "scan_pairs a =
     (case fold scan_pair (ag_ordered_pairs a) (0, None, None, a) of (pending, nominated, selected, a1) \<Rightarrow>
        if ag_mode a1 = AGENT_MODE_CONTROLLING \<and> nominated \<noteq> None
        then (0, nominated, selected, freeze_others (the nominated) a1)
        else (pending, nominated, selected, a1))"

definition cancel_frozen :: "juice_agent \<Rightarrow> juice_agent" where
  "cancel_frozen a =
     a\<lparr>ag_entries := map (\<lambda>e.
         if (case entry_pair a e of None \<Rightarrow> False | Some p \<Rightarrow> pr_state p = ICE_CANDIDATE_PAIR_STATE_FROZEN)
            \<and> en_state e \<noteq> AGENT_STUN_ENTRY_STATE_IDLE \<and> en_state e \<noteq> AGENT_STUN_ENTRY_STATE_CANCELLED
         then e\<lparr>en_state := AGENT_STUN_ENTRY_STATE_CANCELLED, en_next_transmission := 0\<rparr> else e) (ag_entries a)\<rparr>"

definition fail_session :: "juice_agent \<Rightarrow> juice_agent" where
  "fail_session a = (agent_change_state JUICE_STATE_FAILED a)\<lparr>ag_selected_entry := None\<rparr>"

definition entry_of_pair :: "nat \<Rightarrow> juice_agent \<Rightarrow> nat option" where
  "entry_of_pair p a = first_index (\<lambda>i. en_pair (ag_entries a ! i) = Some p) (length (ag_entries a))"

definition select_pair :: "int \<Rightarrow> nat \<Rightarrow> juice_agent \<Rightarrow> juice_agent" where
  "select_pair now p a =
     (if ag_selected_pair a = Some p then a
      else let a1 = a\<lparr>ag_selected_pair := Some p\<rparr>;
               a2 = (if ag_mode a1 = AGENT_MODE_CONTROLLING
                     then a1\<lparr>ag_nomination_timestamp := now + NOMINATION_TIMEOUT\<rparr> else a1)
           in case entry_of_pair p a2 of None \<Rightarrow> a2 | Some i \<Rightarrow> a2\<lparr>ag_selected_entry := Some i\<rparr>)"

definition keep_alive :: "nat \<Rightarrow> juice_agent \<Rightarrow> juice_agent option" where
  "keep_alive i a =
     (if en_state (ag_entries a ! i) \<noteq> AGENT_STUN_ENTRY_STATE_SUCCEEDED_KEEPALIVE
      then agent_arm_keepalive i (upd_ent i (\<lambda>e. e\<lparr>en_state := AGENT_STUN_ENTRY_STATE_SUCCEEDED_KEEPALIVE\<rparr>) a)
      else Some a)"

text \<open>A pair is nominated: the session is complete, and only its entry and the relay it uses are kept alive.\<close>

definition complete_session :: "nat \<Rightarrow> juice_agent \<Rightarrow> juice_agent option" where
  "complete_session n a =
     (let a1 = (if ag_state a = JUICE_STATE_CONNECTING then agent_change_state JUICE_STATE_CONNECTED a else a);
          a2 = agent_change_state JUICE_STATE_COMPLETED a1;
          nominated_entry = entry_of_pair n a2;
          relay_entry = Option.bind nominated_entry (\<lambda>i. en_relay_entry (ag_entries a2 ! i))
      in do { a3 \<leftarrow> (case nominated_entry of
                        None \<Rightarrow> Some a2
                      | Some i \<Rightarrow>
                          if en_state (ag_entries a2 ! i) \<noteq> AGENT_STUN_ENTRY_STATE_SUCCEEDED_KEEPALIVE
                          then do { b \<leftarrow> keep_alive i a2; Some (b\<lparr>ag_selected_entry := Some i\<rparr>) } else Some a2);
              a4 \<leftarrow> (case relay_entry of None \<Rightarrow> Some a3 | Some r \<Rightarrow> keep_alive r a3);
              Some (a4\<lparr>ag_entries := map (\<lambda>(i, e).
                 if Some i \<noteq> nominated_entry \<and> Some i \<noteq> relay_entry
                    \<and> en_state e = AGENT_STUN_ENTRY_STATE_SUCCEEDED_KEEPALIVE
                 then e\<lparr>en_state := AGENT_STUN_ENTRY_STATE_SUCCEEDED\<rparr> else e) (enumerate 0 (ag_entries a4))\<rparr>) })"

text \<open>No pair is nominated yet; \<open>next\<close> is the time of the next wake-up.\<close>

definition pursue_nomination :: "int \<Rightarrow> nat \<Rightarrow> nat \<Rightarrow> int \<Rightarrow> juice_agent \<Rightarrow> (int \<times> juice_agent) option" where
  "pursue_nomination now pending p next a =
     (let a1 = agent_change_state JUICE_STATE_CONNECTED a; nt = ag_nomination_timestamp a1 in
      if ag_mode a1 = AGENT_MODE_CONTROLLING \<and> \<not> pr_nomination_requested (ag_pairs a1 ! p)
      then if pending = 0 \<or> (nt \<noteq> 0 \<and> now \<ge> nt)
           then let a2 = upd_pair p (\<lambda>q. q\<lparr>pr_nomination_requested := True\<rparr>) a1 in
                (case entry_of_pair p a2 of
                   None \<Rightarrow> Some (next, a2)
                 | Some i \<Rightarrow>
                     do { a3 \<leftarrow> agent_arm_transmission i 0
                                 (upd_ent i (\<lambda>e. e\<lparr>en_state := AGENT_STUN_ENTRY_STATE_PENDING, en_transaction_id_expired := True\<rparr>) a2);
                          Some (next, a3) })
           else Some (if nt \<noteq> 0 \<and> next > nt then nt else next, a1)
      else Some (next, a1))"

text \<open>The last loop lowers the wake-up to the next transmission or expiry; for the expiry of any kept-alive pair it stores
  that of the selected pair, which must exist.\<close>

fun next_wakeup :: "int option \<Rightarrow> juice_agent \<Rightarrow> agent_stun_entry list \<Rightarrow> int \<Rightarrow> int option" where
  "next_wakeup expiry a [] next = Some next"
| "next_wakeup expiry a (e # es) next =
     (let n1 = (if en_next_transmission e \<noteq> 0 \<and> next > en_next_transmission e then en_next_transmission e else next) in
      if en_state e = AGENT_STUN_ENTRY_STATE_SUCCEEDED_KEEPALIVE
         \<and> (case entry_pair a e of None \<Rightarrow> False | Some p \<Rightarrow> n1 > pr_consent_expiry p)
      then do { t \<leftarrow> expiry; next_wakeup expiry a es t }
      else next_wakeup expiry a es n1)"

text \<open>The outcome: the wake-up, whether the function has returned early, and the agent.\<close>

definition settle :: "int \<Rightarrow> nat \<Rightarrow> nat option \<Rightarrow> nat option \<Rightarrow> int \<Rightarrow> juice_agent \<Rightarrow> (int \<times> bool \<times> juice_agent) option" where
  "settle now pending nominated selected next a =
     (if (case nominated of None \<Rightarrow> False | Some n \<Rightarrow> pr_state (ag_pairs a ! n) = ICE_CANDIDATE_PAIR_STATE_FAILED)
      then Some (next, True, fail_session a)
      else case selected of
             Some p \<Rightarrow>
               let a1 = select_pair now p a in
               (case nominated of
                  Some n \<Rightarrow> do { a2 \<leftarrow> complete_session n a1; Some (next, False, a2) }
                | None \<Rightarrow> do { (next', a2) \<leftarrow> pursue_nomination now pending p next a1; Some (next', False, a2) })
           | None \<Rightarrow>
               if pending = 0 \<and> ag_pac_timestamp a \<noteq> 0
               then if now \<ge> ag_pac_timestamp a then Some (next, True, fail_session a)
                    else Some (if next > ag_pac_timestamp a then ag_pac_timestamp a else next, False, a)
               else Some (next, False, a))"

definition agent_bookkeeping :: "juice_agent \<Rightarrow> (int \<times> juice_agent) option" where
  "agent_bookkeeping a =
     (let (now, a0) = current_timestamp a; next = now + 6000000 in
      if ag_state a0 = JUICE_STATE_DISCONNECTED \<or> ag_state a0 = JUICE_STATE_GATHERING then Some (next, a0)
      else do { a1 \<leftarrow> each [0..<length (ag_entries a0)] (serve_entry now) a0;
                let (pending, nominated, selected, a2) = scan_pairs a1;
                (next1, returned, a3) \<leftarrow> settle now pending nominated selected next (cancel_frozen a2);
                if returned then Some (next1, a3)
                else do { next2 \<leftarrow> next_wakeup (map_option (\<lambda>p. pr_consent_expiry (ag_pairs a3 ! p)) selected) a3
                                    (ag_entries a3) next1;
                          Some (next2, a3) } })"

definition agent_conn_update :: "juice_agent \<Rightarrow> (int \<times> juice_agent) option" where
  "agent_conn_update a = agent_bookkeeping a"

definition agent_conn_fail :: "juice_agent \<Rightarrow> juice_agent" where
  "agent_conn_fail a = fail_session a"

end
