(* ===== verification/Udp.thy ===== *)
theory Udp
  imports Addr
begin

text \<open>
  \<^verbatim>\<open>libjuice/src/udp.c\<close>, as built for Linux: choosing a port, opening a socket, receiving and the addresses of a socket.
  The system is outside: what \<^verbatim>\<open>socket\<close>, \<^verbatim>\<open>ioctl\<close>, \<^verbatim>\<open>bind\<close>, \<^verbatim>\<open>recvfrom\<close>, \<^verbatim>\<open>sendto\<close>, \<^verbatim>\<open>getsockname\<close>,
  \<^verbatim>\<open>getaddrinfo\<close> and \<^verbatim>\<open>getifaddrs\<close> answer are parameters.
\<close>

definition AF_UNSPEC :: u16 where "AF_UNSPEC = 0"
definition INVALID_SOCKET :: int where "INVALID_SOCKET = -1"

text \<open>The error numbers of Linux that the code tests; \<^verbatim>\<open>EWOULDBLOCK\<close> is \<^verbatim>\<open>EAGAIN\<close>.\<close>

definition SEAGAIN :: int where "SEAGAIN = 11"
definition SEMSGSIZE :: int where "SEMSGSIZE = 90"

record udp_socket_config =
  bind_address :: "bytes option"
  port_begin :: u16
  port_end :: u16

subsection \<open>Opening a socket\<close>

text \<open>An entry of the list that \<^verbatim>\<open>getaddrinfo\<close> answers with.\<close>

record addrinfo =
  ai_addr :: sockaddr
  ai_addrlen :: nat

definition find_family :: "addrinfo list \<Rightarrow> u16 \<Rightarrow> addrinfo option" where
  "find_family ai_list family = find (\<lambda>ai. sa_family (ai_addr ai) = family) ai_list"

text \<open>\<open>cnt\<close> is the static counter, \<open>seed\<close> the random number it starts from; the result is the port and the counter.\<close>

definition get_next_port_in_range :: "u16 \<Rightarrow> u16 \<Rightarrow> u32 \<Rightarrow> u32 \<Rightarrow> u16 \<times> u32" where
  "get_next_port_in_range b e cnt seed =
     (let begin = (if b = 0 then 1024 else b); fin = (if e = 0 then 0xFFFF else e) in
      if begin = fin then (begin, cnt)
      else let cnt1 = (if cnt = 0 then seed else cnt);
               diff = (if fin > begin then ucast fin - ucast begin else 0 :: u32)
           in (ucast (ucast begin + cnt1 mod (diff + 1)), cnt1 + 1))"

datatype bind_result = Bind_ok | Bind_in_use | Bind_denied | Bind_error

text \<open>The loop over the ports of a range.  \<open>bnd k sa\<close> is the answer to the \<open>k\<close>-th call of \<^verbatim>\<open>bind\<close>;
  \<open>retries\<close> is the counter of the \<^verbatim>\<open>do\<close> loop.  The result is the address that was bound, if one was, and the counter.\<close>

function bind_loop ::
  "(nat \<Rightarrow> sockaddr \<Rightarrow> bind_result) \<Rightarrow> u16 \<Rightarrow> u16 \<Rightarrow> u32 \<Rightarrow> sockaddr \<Rightarrow> nat \<Rightarrow> int \<Rightarrow> u32 \<Rightarrow> sockaddr option \<times> u32" where
  "bind_loop bnd b e seed sa k retries cnt =
     (let (port, cnt1) = get_next_port_in_range b e cnt seed;
          sa1 = snd (addr_set_port sa port)
      in case bnd k sa1 of
           Bind_ok \<Rightarrow> (Some sa1, cnt1)
         | Bind_error \<Rightarrow> (None, cnt1)
         | _ \<Rightarrow> if retries > 0 then bind_loop bnd b e seed sa1 (Suc k) (retries - 1) cnt1 else (None, cnt1))"
  by pat_completeness auto
termination by (relation "measure (\<lambda>(bnd, b, e, seed, sa, k, retries, cnt). nat retries)") auto

declare bind_loop.simps [simp del]

text \<open>The system calls of an attempt to open a socket.\<close>

record udp_system =
  sys_socket :: int
  sys_nonblocking :: bool
  sys_bind :: "nat \<Rightarrow> sockaddr \<Rightarrow> bind_result"
  sys_seed :: u32

text \<open>The socket, the address it is bound to and the counter.\<close>

definition create_socket_for_addrinfo ::
  "udp_system \<Rightarrow> udp_socket_config \<Rightarrow> addrinfo \<Rightarrow> u32 \<Rightarrow> int \<times> sockaddr option \<times> u32" where
  "create_socket_for_addrinfo sys config ai cnt =
     (if sys_socket sys = INVALID_SOCKET then (INVALID_SOCKET, None, cnt)
      else if \<not> sys_nonblocking sys then (INVALID_SOCKET, None, cnt)
      else if port_begin config = 0 \<and> port_end config = 0
      then if sys_bind sys 0 (ai_addr ai) = Bind_ok then (sys_socket sys, Some (ai_addr ai), cnt)
           else (INVALID_SOCKET, None, cnt)
      else if port_begin config = port_end config
      then let sa = snd (addr_set_port (ai_addr ai) (port_begin config))
           in if sys_bind sys 0 sa = Bind_ok then (sys_socket sys, Some sa, cnt) else (INVALID_SOCKET, None, cnt)
      else let retries = uint (port_end config) - uint (port_begin config);
               (bound, cnt1) = bind_loop (sys_bind sys) (port_begin config) (port_end config) (sys_seed sys) (ai_addr ai) 0 retries cnt
           in (if bound = None then INVALID_SOCKET else sys_socket sys, bound, cnt1))"

text \<open>\<open>ais\<close> is the answer of \<^verbatim>\<open>getaddrinfo\<close> for the address to bind; \<open>sys6\<close> and \<open>sys4\<close> serve the two families.\<close>

definition udp_create_socket ::
  "udp_system \<Rightarrow> udp_system \<Rightarrow> addrinfo list option \<Rightarrow> udp_socket_config \<Rightarrow> u32 \<Rightarrow> int \<times> sockaddr option \<times> u32" where
  "udp_create_socket sys6 sys4 ais config cnt =
     (case ais of
        None \<Rightarrow> (INVALID_SOCKET, None, cnt)
      | Some ai_list \<Rightarrow>
          let r6 = (case find_family ai_list AF_INET6 of
                      None \<Rightarrow> (INVALID_SOCKET, None, cnt)
                    | Some ai \<Rightarrow> create_socket_for_addrinfo sys6 config ai cnt)
          in if fst r6 \<noteq> INVALID_SOCKET then r6
             else case find_family ai_list AF_INET of
                    None \<Rightarrow> (INVALID_SOCKET, None, snd (snd r6))
                  | Some ai \<Rightarrow> create_socket_for_addrinfo sys4 config ai (snd (snd r6)))"

subsection \<open>Receiving\<close>

datatype recvfrom_result = Datagram bytes sockaddr nat | Would_block | Peer_reset | Recv_error

text \<open>\<open>rs\<close> is what \<^verbatim>\<open>recvfrom\<close> will answer, with a socket that has nothing left at its end: the datagram and its source,
  or whether the error is one of \<^verbatim>\<open>EAGAIN\<close> and \<^verbatim>\<open>EWOULDBLOCK\<close>, and what is left.  A datagram is cut to the size of the buffer.\<close>

datatype udp_received = Received bytes addr_record | Again | Failed

fun udp_recvfrom :: "nat \<Rightarrow> recvfrom_result list \<Rightarrow> udp_received \<times> recvfrom_result list" where
  "udp_recvfrom sz [] = (Again, [])"
| "udp_recvfrom sz (Peer_reset # rs) = udp_recvfrom sz rs"
| "udp_recvfrom sz (Would_block # rs) = (Again, rs)"
| "udp_recvfrom sz (Recv_error # rs) = (Failed, rs)"
| "udp_recvfrom sz (Datagram data sa len # rs) =
     (let (_, sa', len') = addr_unmap_inet6_v4mapped sa len
      in (Received (take sz data) \<lparr>ar_addr = sa', ar_len = len', ar_socktype = SOCK_DGRAM\<rparr>, rs))"

text \<open>The callers unmap the source once more.\<close>

definition unmap_record :: "addr_record \<Rightarrow> addr_record" where
  "unmap_record record =
     (let (_, sa, len) = addr_unmap_inet6_v4mapped (ar_addr record) (ar_len record) in record\<lparr>ar_addr := sa, ar_len := len\<rparr>)"

lemma udp_recvfrom_shorter: "udp_recvfrom sz rs = (Received data src, rs') \<Longrightarrow> length rs' < length rs"
  by (induction sz rs rule: udp_recvfrom.induct) (auto split: prod.splits)

subsection \<open>Addresses of a socket\<close>

text \<open>\<open>name\<close> is the answer of \<^verbatim>\<open>getsockname\<close>, \<open>None\<close> for its failure.\<close>

definition udp_get_bound_addr :: "(sockaddr \<times> nat) option \<Rightarrow> addr_record option" where
  "udp_get_bound_addr name = map_option (\<lambda>(sa, len). \<lparr>ar_addr = sa, ar_len = len, ar_socktype = SOCK_DGRAM\<rparr>) name"

definition udp_get_port :: "(sockaddr \<times> nat) option \<Rightarrow> u16" where
  "udp_get_port name = (case udp_get_bound_addr name of None \<Rightarrow> 0 | Some record \<Rightarrow> addr_get_port (ar_addr record))"

definition map_record :: "addr_record \<Rightarrow> addr_record" where
  "map_record record =
     (let (_, sa, len) = addr_map_inet6_v4mapped (ar_addr record) (ar_len record) in record\<lparr>ar_addr := sa, ar_len := len\<rparr>)"

definition localhost :: "sockaddr \<Rightarrow> sockaddr" where
  "localhost sa =
     (case sa of
        Sin p _ \<Rightarrow> Sin p [127, 0, 0, 1]
      | Sin6 p f _ s \<Rightarrow> Sin6 p f (replicate 15 0 @ [1]) s
      | SaOther f \<Rightarrow> SaOther f)"

definition udp_get_local_addr :: "(sockaddr \<times> nat) option \<Rightarrow> u16 \<Rightarrow> addr_record option" where
  "udp_get_local_addr name family_hint =
     (case udp_get_bound_addr name of
        None \<Rightarrow> None
      | Some record \<Rightarrow>
          if \<not> addr_is_any (ar_addr record)
          then Some (if sa_family (ar_addr record) = AF_INET \<and> family_hint = AF_INET6 then map_record record else record)
          else let to_inet = (sa_family (ar_addr record) = AF_INET6 \<and> family_hint = AF_INET);
                   port = addr_get_port (ar_addr record)
               in if to_inet \<and> port = 0 then None
                  else let record1 = (if to_inet
                                      then \<lparr>ar_addr = Sin (htons port) (replicate 4 0), ar_len = sizeof_sockaddr_in,
                                            ar_socktype = SOCK_DGRAM\<rparr>
                                      else record);
                           record2 = record1\<lparr>ar_addr := localhost (ar_addr record1)\<rparr>
                       in Some (if sa_family (ar_addr record2) = AF_INET \<and> family_hint = AF_INET6
                                then map_record record2 else record2))"

text \<open>\<open>send\<close> is the answer of \<^verbatim>\<open>sendto\<close> for a destination; the result also lists the destinations tried.\<close>

definition udp_sendto_self :: "(sockaddr \<times> nat) option \<Rightarrow> (addr_record \<Rightarrow> int) \<Rightarrow> int \<times> addr_record list" where
  "udp_sendto_self name send =
     (case udp_get_local_addr name AF_UNSPEC of
        None \<Rightarrow> (-1, [])
      | Some l \<Rightarrow>
          if send l \<ge> 0 \<or> sa_family (ar_addr l) \<noteq> AF_INET6 then (send l, [l])
          else case udp_get_local_addr name AF_INET of
                 None \<Rightarrow> (-1, [l])
               | Some l4 \<Rightarrow> (send l4, [l, l4]))"

definition udp_set_diffserv :: "(sockaddr \<times> nat) option \<Rightarrow> bool \<Rightarrow> bool \<Rightarrow> int" where
  "udp_set_diffserv name ip_tos ipv6_tclass =
     (case udp_get_bound_addr name of
        None \<Rightarrow> -1
      | Some record \<Rightarrow>
          if sa_family (ar_addr record) = AF_INET then if ip_tos then 0 else -1
          else if sa_family (ar_addr record) = AF_INET6 then if ipv6_tclass then 0 else -1
          else -1)"

text \<open>IPv4 addresses are compared as a whole, IPv6 addresses by their network part.\<close>

definition same_host :: "sockaddr \<Rightarrow> sockaddr \<Rightarrow> bool" where
  "same_host addr other =
     (case (addr, other) of
        (Sin _ a, Sin _ b) \<Rightarrow> take 4 a = take 4 b
      | (Sin6 _ _ a _, Sin6 _ _ b _) \<Rightarrow> take 8 a = take 8 b
      | _ \<Rightarrow> False)"

definition has_duplicate_addr :: "sockaddr \<Rightarrow> addr_record list \<Rightarrow> bool" where
  "has_duplicate_addr addr records = list_ex (\<lambda>record. same_host addr (ar_addr record)) records"

record ifaddr =
  ifa_up :: bool
  ifa_loopback :: bool
  ifa_name :: bytes
  ifa_addr :: "sockaddr option"

text \<open>Whether an interface is listed, and with which address.\<close>

definition listed_interface :: "u16 \<Rightarrow> ifaddr \<Rightarrow> sockaddr option" where
  "listed_interface family ifa =
     (if \<not> ifa_up ifa \<or> ifa_loopback ifa then None
      else if ifa_name ifa = str_bytes ''docker0'' then None
      else case ifa_addr ifa of
             None \<Rightarrow> None
           | Some sa \<Rightarrow>
               if (sa_family sa = AF_INET \<or> (sa_family sa = AF_INET6 \<and> family = AF_INET6)) \<and> \<not> addr_is_local sa
                  \<and> addr_get_len sa > 0
               then Some sa else None)"

fun interfaces_loop :: "u16 \<Rightarrow> u16 \<Rightarrow> nat \<Rightarrow> ifaddr list \<Rightarrow> int \<Rightarrow> addr_record list \<Rightarrow> int \<times> addr_record list" where
  "interfaces_loop family port cnt [] ret records = (ret, records)"
| "interfaces_loop family port cnt (ifa # ifas) ret records =
     (case listed_interface family ifa of
        None \<Rightarrow> interfaces_loop family port cnt ifas ret records
      | Some sa \<Rightarrow>
          if has_duplicate_addr sa records then interfaces_loop family port cnt ifas ret records
          else if length records \<noteq> cnt
          then interfaces_loop family port cnt ifas (ret + 1)
                 (records @ [\<lparr>ar_addr = snd (addr_set_port sa port), ar_len = addr_get_len sa, ar_socktype = SOCK_DGRAM\<rparr>])
          else interfaces_loop family port cnt ifas (ret + 1) records)"

definition udp_get_addrs :: "(sockaddr \<times> nat) option \<Rightarrow> ifaddr list option \<Rightarrow> nat \<Rightarrow> int \<times> addr_record list" where
  "udp_get_addrs name ifas cnt =
     (case udp_get_bound_addr name of
        None \<Rightarrow> (-1, [])
      | Some bound \<Rightarrow>
          if \<not> addr_is_any (ar_addr bound) then (1, if cnt > 0 then [bound] else [])
          else case ifas of
                 None \<Rightarrow> (-1, [])
               | Some l \<Rightarrow> interfaces_loop (sa_family (ar_addr bound)) (addr_get_port (ar_addr bound)) cnt l 0 [])"

end
