(* ===== verification/Agent_Api.thy ===== *)
theory Agent_Api
  imports Agent_Loop Udp
begin

text \<open>
  \<^verbatim>\<open>libjuice/src/agent.c\<close>, last part: what the application calls.  Locking and the resolver thread are left out; the parts
  of \<^verbatim>\<open>agent_resolve_servers\<close> between which the lock is released are separate operations.
\<close>

definition JUICE_ERR_SUCCESS :: int where "JUICE_ERR_SUCCESS = 0"
definition JUICE_ERR_INVALID :: int where "JUICE_ERR_INVALID = -1"
definition JUICE_ERR_FAILED :: int where "JUICE_ERR_FAILED = -2"
definition JUICE_ERR_NOT_AVAIL :: int where "JUICE_ERR_NOT_AVAIL = -3"
definition JUICE_ERR_IGNORED :: int where "JUICE_ERR_IGNORED = -4"
definition JUICE_ERR_AGAIN :: int where "JUICE_ERR_AGAIN = -5"
definition JUICE_ERR_TOO_LARGE :: int where "JUICE_ERR_TOO_LARGE = -6"

lemmas juice_errors = JUICE_ERR_SUCCESS_def JUICE_ERR_INVALID_def JUICE_ERR_FAILED_def JUICE_ERR_NOT_AVAIL_def
  JUICE_ERR_IGNORED_def JUICE_ERR_AGAIN_def JUICE_ERR_TOO_LARGE_def

subsection \<open>Creation and configuration\<close>

text \<open>The agent after \<^verbatim>\<open>calloc\<close>.\<close>

definition zero_agent :: "juice_config \<Rightarrow> agent_env \<Rightarrow> juice_agent" where
  "zero_agent config env = \<lparr>ag_config = config, ag_state = JUICE_STATE_DISCONNECTED, ag_mode = AGENT_MODE_UNKNOWN,
     ag_ice_tcp_mode = JUICE_ICE_TCP_MODE_NONE, ag_local = zero_description, ag_remote = zero_description, ag_pairs = [],
     ag_ordered_pairs = [], ag_selected_pair = None, ag_entries = [], ag_selected_entry = None, ag_ice_tiebreaker = 0,
     ag_pac_timestamp = 0, ag_nomination_timestamp = 0, ag_gathering_done = False, ag_conn_impl = False, ag_env = env\<rparr>"

text \<open>The one-byte draws of a random string.\<close>

fun draw_bytes :: "nat \<Rightarrow> juice_agent \<Rightarrow> bytes \<times> juice_agent" where
  "draw_bytes 0 a = ([], a)"
| "draw_bytes (Suc n) a = (let (b, a1) = juice_random 1 a; (bs, a2) = draw_bytes n a1 in (b @ bs, a2))"

definition agent_create :: "juice_config \<Rightarrow> agent_env \<Rightarrow> juice_agent" where
  "agent_create config env =
     (let (u, a1) = draw_bytes 4 (zero_agent config env);
          (p, a2) = draw_bytes 22 a1;
          (t, a3) = juice_random 8 (a2\<lparr>ag_local := ice_create_local_description u p\<rparr>)
      in a3\<lparr>ag_ice_tiebreaker := rd64 (rev t)\<rparr>)"

definition agent_set_local_ice_attributes :: "bytes \<Rightarrow> bytes \<Rightarrow> juice_agent \<Rightarrow> int \<times> juice_agent" where
  "agent_set_local_ice_attributes ufrag pwd a =
     (if ag_conn_impl a then (JUICE_ERR_FAILED, a)
      else if length ufrag < 4 \<or> length pwd < 22 \<or> \<not> ice_is_valid_string (Some ufrag) \<or> \<not> ice_is_valid_string (Some pwd)
      then (JUICE_ERR_INVALID, a)
      else (JUICE_ERR_SUCCESS, a\<lparr>ag_local := (ag_local a)\<lparr>ice_ufrag := cstr (snd (snprintf 257 ufrag)),
              ice_pwd := cstr (snd (snprintf 257 pwd))\<rparr>\<rparr>))"

definition agent_add_turn_server :: "juice_turn_server \<Rightarrow> juice_agent \<Rightarrow> int \<times> juice_agent" where
  "agent_add_turn_server server a =
     (if ag_conn_impl a then (-1, a)
      else (0, a\<lparr>ag_config := (ag_config a)\<lparr>cfg_turn_servers := cfg_turn_servers (ag_config a) @ [server]\<rparr>\<rparr>))"

definition agent_set_ice_tcp_mode :: "juice_ice_tcp_mode \<Rightarrow> juice_agent \<Rightarrow> int \<times> juice_agent" where
  "agent_set_ice_tcp_mode mode a =
     (if ag_conn_impl a then (JUICE_ERR_FAILED, a) else (JUICE_ERR_SUCCESS, a\<lparr>ag_ice_tcp_mode := mode\<rparr>))"

subsection \<open>Descriptions\<close>

definition agent_get_local_description :: "bytes \<Rightarrow> juice_agent \<Rightarrow> int \<times> bytes \<times> juice_agent" where
  "agent_get_local_description buffer a =
     (let (len, out) = ice_generate_sdp (ag_local a) buffer in
      if len < 0 then (-1, out, a)
      else (0, out, if ag_mode a = AGENT_MODE_UNKNOWN then a\<lparr>ag_mode := AGENT_MODE_CONTROLLING\<rparr> else a))"

definition agent_set_remote_description :: "bytes \<Rightarrow> juice_agent \<Rightarrow> (int \<times> juice_agent) option" where
  "agent_set_remote_description sdp a =
     (let (ret, desc) = ice_parse_sdp (env_getaddrinfo (ag_env a)) sdp in
      if ret < 0 then Some (JUICE_ERR_INVALID, a)
      else if ice_ufrag (ag_remote a) \<noteq> []
      then if ice_ufrag (ag_remote a) = ice_ufrag desc \<and> ice_pwd (ag_remote a) = ice_pwd desc
           then Some (JUICE_ERR_SUCCESS, a) else Some (JUICE_ERR_FAILED, a)
      else let a1 = agent_update_pac_timer (a\<lparr>ag_remote := desc\<rparr>);
               a2 = (if ice_lite (ag_remote a1) \<and> ag_mode a1 \<noteq> AGENT_MODE_CONTROLLING then a1\<lparr>ag_mode := AGENT_MODE_CONTROLLING\<rparr>
                     else if ag_mode a1 = AGENT_MODE_UNKNOWN then a1\<lparr>ag_mode := AGENT_MODE_CONTROLLED\<rparr> else a1)
           in do { a3 \<leftarrow> each [0..<length (ag_pairs a2)] (\<lambda>p a. map_option snd (agent_unfreeze_candidate_pair p a)) a2;
                   a4 \<leftarrow> each [0..<length (candidates (ag_remote a3))]
                          (\<lambda>r a. map_option snd (agent_add_candidate_pairs_for_remote r a)) a3;
                   Some (JUICE_ERR_SUCCESS, conn_interrupt a4) })"

definition agent_add_remote_candidate :: "bytes \<Rightarrow> juice_agent \<Rightarrow> (int \<times> juice_agent) option" where
  "agent_add_remote_candidate sdp a =
     (if ice_finished (ag_remote a) then Some (JUICE_ERR_FAILED, a)
      else case ice_parse_candidate_sdp (env_getaddrinfo (ag_env a)) sdp of
             Inl ret \<Rightarrow> Some (if ret = ICE_PARSE_IGNORED then JUICE_ERR_IGNORED else JUICE_ERR_INVALID, a)
           | Inr candidate \<Rightarrow>
               let (ret, _, d) = ice_add_candidate candidate (ag_remote a) in
               if ret \<noteq> 0 then Some (JUICE_ERR_FAILED, a)
               else do { (ret, a1) \<leftarrow> agent_add_candidate_pairs_for_remote (length (candidates d) - 1) (a\<lparr>ag_remote := d\<rparr>);
                         if ret \<noteq> 0 then Some (JUICE_ERR_FAILED, a1) else Some (JUICE_ERR_SUCCESS, conn_interrupt a1) })"

definition agent_set_remote_gathering_done :: "juice_agent \<Rightarrow> int \<times> juice_agent" where
  "agent_set_remote_gathering_done a = (0, conn_interrupt (a\<lparr>ag_remote := (ag_remote a)\<lparr>ice_finished := True\<rparr>\<rparr>))"

definition agent_get_state :: "juice_agent \<Rightarrow> juice_state" where
  "agent_get_state a = ag_state a"

definition agent_get_selected_candidate_pair :: "juice_agent \<Rightarrow> (ice_candidate \<times> ice_candidate) option" where
  "agent_get_selected_candidate_pair a =
     (case ag_selected_pair a of
        None \<Rightarrow> None
      | Some p \<Rightarrow> Some (case local_of a (ag_pairs a ! p) of Some l \<Rightarrow> l | None \<Rightarrow> candidate_at (ag_local a) 0,
                        remote_of a (ag_pairs a ! p)))"

subsection \<open>Gathering\<close>

text \<open>\<open>None\<close> for the count below zero that \<^verbatim>\<open>conn_get_addrs\<close> reports on failure.\<close>

fun add_host_candidates :: "addr_record list \<Rightarrow> juice_agent \<Rightarrow> juice_agent" where
  "add_host_candidates [] a = a"
| "add_host_candidates (r # rs) a =
     (case new_candidate ICE_CANDIDATE_TYPE_HOST r ICE_CANDIDATE_TRANSPORT_UDP a of
        None \<Rightarrow> add_host_candidates rs a
      | Some c \<Rightarrow>
          if length (candidates (ag_local a)) \<ge> MAX_HOST_CANDIDATES_COUNT then a
          else let (ret, _, d) = ice_add_candidate c (ag_local a)
               in add_host_candidates rs (if ret \<noteq> 0 then a else a\<lparr>ag_local := d\<rparr>))"

text \<open>One active TCP candidate per address family, IPv6 first, with the discard port.\<close>

definition add_tcp_candidate :: "addr_record list \<Rightarrow> u16 \<Rightarrow> juice_agent \<Rightarrow> juice_agent" where
  "add_tcp_candidate records family a =
     (case find (\<lambda>r. sa_family (ar_addr r) = family) records of
        None \<Rightarrow> a
      | Some r \<Rightarrow> snd (agent_add_local_tcp_active_candidate
                    (r\<lparr>ar_socktype := SOCK_STREAM, ar_addr := snd (addr_set_port (ar_addr r) 9)\<rparr>) a))"

definition announce_host :: "ice_candidate \<Rightarrow> juice_agent \<Rightarrow> juice_agent" where
  "announce_host c a =
     (if cand_type c \<noteq> ICE_CANDIDATE_TYPE_HOST then a
      else let (len, buffer) = ice_generate_candidate_sdp c AGENT_BUFFER_SIZE
           in if len < 0 then a else emit (Cb_candidate (cstr buffer)) a)"

text \<open>Up to the resolution of the servers: \<open>conn_ok\<close> is the success of \<^verbatim>\<open>conn_create\<close>, \<open>addrs\<close> the answer of \<^verbatim>\<open>conn_get_addrs\<close>.
  The result is \<open>Inl\<close> of a return value, or \<open>Inr\<close> of the agent that goes on to resolve its servers.\<close>

definition agent_gather_hosts :: "bool \<Rightarrow> addr_record list option \<Rightarrow> juice_agent \<Rightarrow> (int + unit) \<times> juice_agent" where
  "agent_gather_hosts conn_ok addrs a =
     (if ag_conn_impl a then (Inl 0, a)
      else let a0 = (if ag_mode a = AGENT_MODE_UNKNOWN then a\<lparr>ag_mode := AGENT_MODE_CONTROLLING\<rparr> else a);
               a1 = agent_change_state JUICE_STATE_GATHERING a0
           in if \<not> conn_ok then (Inl (-1), a1)
              else let records = take (ICE_MAX_CANDIDATES_COUNT - 1) (case addrs of None \<Rightarrow> [] | Some rs \<Rightarrow> rs);
                       a2 = add_host_candidates records (a1\<lparr>ag_conn_impl := True\<rparr>);
                       a3 = (if ag_ice_tcp_mode a2 = JUICE_ICE_TCP_MODE_ACTIVE
                             then add_tcp_candidate records AF_INET (add_tcp_candidate records AF_INET6 a2) else a2);
                       a4 = a3\<lparr>ag_local := ice_sort_candidates (ag_local a3)\<rparr>;
                       a5 = fold announce_host (candidates (ag_local a4)) a4
                   in (Inr (), conn_interrupt (agent_change_state JUICE_STATE_CONNECTING a5)))"

text \<open>The record a TURN server is reached at: the first IPv4 one, else the first IPv6 one.\<close>

definition preferred_record :: "addr_record list \<Rightarrow> addr_record option" where
  "preferred_record records =
     (case find (\<lambda>r. sa_family (ar_addr r) = AF_INET) records of
        Some r \<Rightarrow> Some r
      | None \<Rightarrow> find (\<lambda>r. sa_family (ar_addr r) = AF_INET6) records)"

text \<open>One TURN server once its name is resolved: \<open>i\<close> is its number, \<open>count\<close> the number of relays so far.\<close>

definition register_relay :: "nat \<Rightarrow> juice_turn_server \<Rightarrow> addr_record list \<Rightarrow> nat \<times> juice_agent \<Rightarrow> (nat \<times> juice_agent) option" where
  "register_relay i server records st =
     (case st of (count, a) \<Rightarrow>
      (case preferred_record records of
         None \<Rightarrow> Some st
       | Some r \<Rightarrow>
           if list_ex (\<lambda>e. en_type e = AGENT_STUN_ENTRY_TYPE_RELAY \<and> addr_record_is_equal (en_record e) r True) (ag_entries a)
           then Some st
           else do { user \<leftarrow> srv_username server;
                     let (tx, a1) = juice_random STUN_TRANSACTION_ID_SIZE a;
                     a2 \<leftarrow> add_entry (zero_stun_entry\<lparr>en_type := AGENT_STUN_ENTRY_TYPE_RELAY,
                            en_state := AGENT_STUN_ENTRY_STATE_PENDING, en_pair := None, en_record := r,
                            en_turn_redirections := 0,
                            en_turn := Some \<lparr>ts_map = turn_init_map AGENT_TURN_MAP_SIZE,
                              ts_credentials = zero_credentials\<lparr>username := cstr (snd (snprintf STUN_MAX_USERNAME_LEN user))\<rparr>,
                              ts_password = srv_password server\<rparr>,
                            en_transaction_id := tx, en_transaction_id_expired := False\<rparr>) a1;
                     a3 \<leftarrow> agent_arm_transmission (length (ag_entries a2) - 1) (STUN_PACING_TIME * int i) a2;
                     Some (count + 1, a3) }))"

text \<open>One record of the STUN server.\<close>

definition register_server :: "nat \<Rightarrow> addr_record \<Rightarrow> juice_agent \<Rightarrow> juice_agent option" where
  "register_server i r a =
     (let (tx, a1) = juice_random STUN_TRANSACTION_ID_SIZE a in
      do { a2 \<leftarrow> add_entry (zero_stun_entry\<lparr>en_type := AGENT_STUN_ENTRY_TYPE_SERVER,
                  en_state := AGENT_STUN_ENTRY_STATE_PENDING, en_pair := None, en_record := r,
                  en_transaction_id := tx, en_transaction_id_expired := False\<rparr>) a1;
           agent_arm_transmission (length (ag_entries a2) - 1) (STUN_PACING_TIME * int i) a2 })"

definition register_servers :: "addr_record list \<Rightarrow> juice_agent \<Rightarrow> juice_agent option" where
  "register_servers records a =
     each [0..<min (length records) MAX_SERVER_ENTRIES_COUNT] (\<lambda>i. register_server i (records ! i)) a"

text \<open>\<open>resolve\<close> answers a host name and a port.  The default port is written back to the configuration.\<close>

definition default_port :: "u16 \<Rightarrow> u16" where
  "default_port p = (if p = 0 then 3478 else p)"

definition set_turn_port :: "nat \<Rightarrow> juice_agent \<Rightarrow> juice_agent" where
  "set_turn_port i a =
     a\<lparr>ag_config := (ag_config a)\<lparr>cfg_turn_servers := (cfg_turn_servers (ag_config a))
          [i := (cfg_turn_servers (ag_config a) ! i)\<lparr>srv_port := default_port (srv_port (cfg_turn_servers (ag_config a) ! i))\<rparr>]\<rparr>\<rparr>"

fun resolve_relays ::
  "(bytes \<Rightarrow> u16 \<Rightarrow> addr_record list) \<Rightarrow> nat \<Rightarrow> juice_turn_server list \<Rightarrow> nat \<times> juice_agent \<Rightarrow> (nat \<times> juice_agent) option" where
  "resolve_relays resolve i [] st = Some st"
| "resolve_relays resolve i (server # servers) st =
     (if fst st \<ge> MAX_RELAY_ENTRIES_COUNT then Some st
      else case srv_host server of
             None \<Rightarrow> resolve_relays resolve (i + 1) servers st
           | Some host \<Rightarrow>
               do { st' \<leftarrow> register_relay i server
                            (take DEFAULT_MAX_RECORDS_COUNT (resolve (take 255 host) (default_port (srv_port server))))
                            (fst st, set_turn_port i (snd st));
                    resolve_relays resolve (i + 1) servers st' })"

definition agent_resolve_servers :: "(bytes \<Rightarrow> u16 \<Rightarrow> addr_record list) \<Rightarrow> juice_agent \<Rightarrow> (int \<times> juice_agent) option" where
  "agent_resolve_servers resolve a =
     do { a1 \<leftarrow> (if cfg_concurrency_mode (ag_config a) = JUICE_CONCURRENCY_MODE_MUX then Some a
                 else map_option snd (resolve_relays resolve 0 (cfg_turn_servers (ag_config a)) (0, a)));
          a2 \<leftarrow> (case cfg_stun_server_host (ag_config a1) of
                   None \<Rightarrow> Some a1
                 | Some host \<Rightarrow>
                     let port = default_port (cfg_stun_server_port (ag_config a1)) in
                     register_servers (take MAX_STUN_SERVER_RECORDS_COUNT (resolve (take 255 host) port))
                       (a1\<lparr>ag_config := (ag_config a1)\<lparr>cfg_stun_server_port := port\<rparr>\<rparr>));
          Some (0, conn_interrupt (agent_update_gathering_done a2)) }"

definition has_nonnumeric_server_hostnames :: "(bytes \<Rightarrow> bool) \<Rightarrow> juice_config \<Rightarrow> bool" where
  "has_nonnumeric_server_hostnames numeric config \<longleftrightarrow>
     (case cfg_stun_server_host config of None \<Rightarrow> False | Some h \<Rightarrow> \<not> numeric h)
     \<or> list_ex (\<lambda>s. case srv_host s of None \<Rightarrow> False | Some h \<Rightarrow> \<not> numeric h) (cfg_turn_servers config)"

text \<open>\<open>numeric\<close> is \<^verbatim>\<open>addr_is_numeric_hostname\<close>.  With other host names \<^verbatim>\<open>agent_resolve_servers\<close> is left to a thread, whose
  start may fail.\<close>

definition agent_gather_candidates ::
  "bool \<Rightarrow> addr_record list option \<Rightarrow> (bytes \<Rightarrow> bool) \<Rightarrow> bool \<Rightarrow> (bytes \<Rightarrow> u16 \<Rightarrow> addr_record list) \<Rightarrow> juice_agent
   \<Rightarrow> (int \<times> juice_agent) option" where
  "agent_gather_candidates conn_ok addrs numeric thread_ok resolve a =
     (case agent_gather_hosts conn_ok addrs a of
        (Inl ret, a1) \<Rightarrow> Some (ret, a1)
      | (Inr _, a1) \<Rightarrow>
          if has_nonnumeric_server_hostnames numeric (ag_config a1)
          then Some (if thread_ok then (0, a1) else (-1, agent_update_gathering_done a1))
          else do { (ret, a2) \<leftarrow> agent_resolve_servers resolve a1; Some (if ret < 0 then -1 else 0, a2) })"

subsection \<open>The public interface\<close>

definition juice_send_diffserv :: "bytes \<Rightarrow> int \<Rightarrow> juice_agent \<Rightarrow> (int \<times> juice_agent) option" where
  "juice_send_diffserv data ds a =
     do { (ret, a1) \<leftarrow> agent_send data ds a;
          Some (if ret \<ge> 0 then JUICE_ERR_SUCCESS
                else if ret = - SEAGAIN then JUICE_ERR_AGAIN
                else if ret = - SEMSGSIZE then JUICE_ERR_TOO_LARGE
                else JUICE_ERR_FAILED, a1) }"

text \<open>The buffers are given by their sizes; a size of zero asks for nothing.\<close>

definition juice_get_selected_candidates :: "nat \<Rightarrow> nat \<Rightarrow> juice_agent \<Rightarrow> int \<times> bytes \<times> bytes" where
  "juice_get_selected_candidates local_size remote_size a =
     (case agent_get_selected_candidate_pair a of
        None \<Rightarrow> (JUICE_ERR_NOT_AVAIL, [], [])
      | Some (l, r) \<Rightarrow>
          let (ret, local) = (if local_size = 0 then (0, []) else ice_generate_candidate_sdp l local_size) in
          if ret < 0 then (JUICE_ERR_FAILED, [], [])
          else let (ret', remote) = (if remote_size = 0 then (0, []) else ice_generate_candidate_sdp r remote_size) in
               if ret' < 0 then (JUICE_ERR_FAILED, local, []) else (JUICE_ERR_SUCCESS, local, remote))"

fun juice_state_to_string :: "juice_state \<Rightarrow> string" where
  "juice_state_to_string JUICE_STATE_DISCONNECTED = ''disconnected''"
| "juice_state_to_string JUICE_STATE_GATHERING = ''gathering''"
| "juice_state_to_string JUICE_STATE_CONNECTING = ''connecting''"
| "juice_state_to_string JUICE_STATE_CONNECTED = ''connected''"
| "juice_state_to_string JUICE_STATE_COMPLETED = ''completed''"
| "juice_state_to_string JUICE_STATE_FAILED = ''failed''"

text \<open>A world for examples: the clock stands at one second, names do not resolve.\<close>

definition still_world :: agent_env where
  "still_world = \<lparr>env_random = (\<lambda>k i. of_nat (7 * k + i)), env_draws = 0, env_clock = (\<lambda>k. 1000), env_ticks = 0, env_send_result = (\<lambda>k. 0),
     env_sends = 0, env_getaddrinfo = (\<lambda>h s st lk. None), env_getnameinfo = (\<lambda>a. None), env_junk = 0, env_tcp_connecting = False, env_out = []\<rparr>"

definition plain_config :: juice_config where
  "plain_config = \<lparr>cfg_concurrency_mode = JUICE_CONCURRENCY_MODE_POLL, cfg_stun_server_host = None, cfg_stun_server_port = 0,
     cfg_turn_servers = []\<rparr>"

end
