(* ===== verification/Agent_Timing.thy ===== *)
theory Agent_Timing
  imports Agent_Api Stun_Wire
begin

text \<open>
  Timing and roles: the search for a free time slot ends with the first one; the services of the book-keeping send a check at most
  seven times and give it up no earlier than the protocol grants, unless a request cannot be sent; and what the agents make of
  a conflict of their roles.
\<close>

subsection \<open>Time slots\<close>

text \<open>A time at which no other entry is to transmit.\<close>

definition free_slot :: "agent_stun_entry list \<Rightarrow> nat \<Rightarrow> int \<Rightarrow> bool" where
  "free_slot es i t \<longleftrightarrow> (\<forall>j < length es. j \<noteq> i \<longrightarrow> en_next_transmission (es ! j) \<noteq> 0 \<longrightarrow>
     STUN_PACING_TIME \<le> \<bar>t - en_next_transmission (es ! j)\<bar>)"

lemma slot_distance_small: "\<bar>d\<bar> < 2 ^ 31 \<Longrightarrow> slot_distance d = Some \<bar>d\<bar>"
  by (simp add: slot_distance_def signed_of_int take_bit_eq_mod signed_take_bit_int_eq_self)

text \<open>The slots of the other entries lie in a window that an \<^verbatim>\<open>int\<close> can span.\<close>

definition slot_window :: "agent_stun_entry list \<Rightarrow> nat \<Rightarrow> int \<Rightarrow> int \<Rightarrow> bool" where
  "slot_window es i lo hi \<longleftrightarrow> hi + STUN_PACING_TIME - lo < 2 ^ 31
     \<and> (\<forall>j < length es. j \<noteq> i \<longrightarrow> en_next_transmission (es ! j) \<noteq> 0 \<longrightarrow>
          lo \<le> en_next_transmission (es ! j) \<and> en_next_transmission (es ! j) \<le> hi)"

lemma slot_loop_first_free:
  assumes "slot_window es i lo hi" "lo \<le> t" "t \<le> hi + STUN_PACING_TIME"
    and "\<And>k. k < j \<Longrightarrow> k < length es \<Longrightarrow> k \<noteq> i \<Longrightarrow> en_next_transmission (es ! k) \<noteq> 0 \<Longrightarrow>
      STUN_PACING_TIME \<le> \<bar>t - en_next_transmission (es ! k)\<bar>"
  shows "\<exists>t'. slot_loop es i j t = Some t' \<and> t \<le> t' \<and> free_slot es i t' \<and> (\<forall>s. t \<le> s \<and> s < t' \<longrightarrow> \<not> free_slot es i s)"
  using assms(2-)
proof (induction "nat (hi + STUN_PACING_TIME - t) * Suc (length es) + (length es - j)" arbitrary: t j rule: less_induct)
  case less
  let ?n = "\<lambda>j. en_next_transmission (es ! j)"
  show ?case
  proof (cases "j < length es")
    case False
    then have "free_slot es i t" using less.prems(3) by (simp add: free_slot_def)
    then show ?thesis using False by (subst slot_loop.simps) auto
  next
    case j: True
    have "nat (hi + STUN_PACING_TIME - t) * Suc (length es) + (length es - (j + 1))
      < nat (hi + STUN_PACING_TIME - t) * Suc (length es) + (length es - j)" using j by simp
    note next_entry = less.hyps [OF this less.prems(1,2)]
    consider (skip) "j = i \<or> ?n j = 0" | (far) "j \<noteq> i" "?n j \<noteq> 0" "STUN_PACING_TIME \<le> \<bar>t - ?n j\<bar>"
      | (near) "j \<noteq> i" "?n j \<noteq> 0" "\<bar>t - ?n j\<bar> < STUN_PACING_TIME" by linarith
    then show ?thesis
    proof cases
      case near
      have w: "lo \<le> ?n j" "?n j \<le> hi" using assms(1) near j by (auto simp: slot_window_def)
      let ?t = "?n j + STUN_PACING_TIME"
      have t: "t < ?t" "?t \<le> hi + STUN_PACING_TIME" using near w by linarith+
      have "nat (hi + STUN_PACING_TIME - ?t) < nat (hi + STUN_PACING_TIME - t)" using t by linarith
      then have "Suc (nat (hi + STUN_PACING_TIME - ?t)) * Suc (length es) \<le> nat (hi + STUN_PACING_TIME - t) * Suc (length es)"
        by (intro mult_le_mono1 Suc_leI)
      then have m: "nat (hi + STUN_PACING_TIME - ?t) * Suc (length es) + (length es - 0)
          < nat (hi + STUN_PACING_TIME - t) * Suc (length es) + (length es - j)" by simp
      obtain t' where t': "slot_loop es i 0 ?t = Some t'" "?t \<le> t'" "free_slot es i t'" "\<forall>s. ?t \<le> s \<and> s < t' \<longrightarrow> \<not> free_slot es i s"
        using less.hyps [OF m] t w less.prems(1) by force
      have "\<not> free_slot es i s" if "t \<le> s" "s < ?t" for s
      proof -
        have "\<not> STUN_PACING_TIME \<le> \<bar>s - ?n j\<bar>" using that near by linarith
        then show ?thesis using near j by (auto simp: free_slot_def)
      qed
      then have "\<forall>s. t \<le> s \<and> s < t' \<longrightarrow> \<not> free_slot es i s" using t'(4) by (meson linorder_not_le)
      moreover have "slot_loop es i j t = Some t'"
        using near j t'(1) slot_distance_small [of "t - ?n j"] by (subst slot_loop.simps) (simp add: agent_times)
      ultimately show ?thesis using t' t by force
    next
      case skip
      have "slot_loop es i j t = slot_loop es i (j + 1) t" using skip j by (subst slot_loop.simps) auto
      moreover have "STUN_PACING_TIME \<le> \<bar>t - ?n k\<bar>" if "k < j + 1" "k < length es" "k \<noteq> i" "?n k \<noteq> 0" for k
        using that skip less.prems(3) [of k] by (cases "k = j") auto
      ultimately show ?thesis using next_entry by simp
    next
      case far
      have w: "lo \<le> ?n j" "?n j \<le> hi" "hi + STUN_PACING_TIME - lo < 2 ^ 31" using assms(1) far j by (auto simp: slot_window_def)
      then have "\<bar>t - ?n j\<bar> < 2 ^ 31" using less.prems(1,2) unfolding agent_times by linarith
      then have "slot_loop es i j t = slot_loop es i (j + 1) t"
        using far j slot_distance_small [of "t - ?n j"] by (subst slot_loop.simps) simp
      moreover have "STUN_PACING_TIME \<le> \<bar>t - ?n k\<bar>" if "k < j + 1" "k < length es" "k \<noteq> i" "?n k \<noteq> 0" for k
        using that far less.prems(3) [of k] by (cases "k = j") auto
      ultimately show ?thesis using next_entry by simp
    qed
  qed
qed

text \<open>(C24) \<^verbatim>\<open>agent_arm_transmission\<close> always ends, and arms the entry for the first time, from the requested one on, that is 50 ms away from
  every other transmission; the other entries are as before.  The timestamps of the entries must lie within what an \<^verbatim>\<open>int\<close>
  spans, since the code compares differences cut to an \<^verbatim>\<open>int\<close>.
\<close>

theorem arm_transmission_first_free:
  assumes "i < length (ag_entries a)" "t = fst (current_timestamp a) + delay"
    and "slot_window (ag_entries a) i lo hi" "lo \<le> t" "t \<le> hi + STUN_PACING_TIME"
  shows "\<exists>b t'. agent_arm_transmission i delay a = Some b \<and> length (ag_entries b) = length (ag_entries a)
    \<and> en_next_transmission (ag_entries b ! i) = t' \<and> t \<le> t' \<and> free_slot (ag_entries a) i t'
    \<and> (\<forall>s. t \<le> s \<and> s < t' \<longrightarrow> \<not> free_slot (ag_entries a) i s)
    \<and> (\<forall>j < length (ag_entries a). j \<noteq> i \<longrightarrow> ag_entries b ! j = ag_entries a ! j)"
proof -
  let ?a1 = "snd (current_timestamp a)"
  let ?a2 = "upd_ent i (\<lambda>e. armed_entry ?a1 e t) ?a1"
  have e: "length (ag_entries ?a2) = length (ag_entries a)" "\<And>j. j \<noteq> i \<Longrightarrow> ag_entries ?a2 ! j = ag_entries a ! j"
    "en_next_transmission (ag_entries ?a2 ! i) = t"
    using assms(1) by (simp_all add: upd_ent_def current_timestamp_def armed_entry_def Let_def)
  have w: "slot_window (ag_entries ?a2) i lo hi" "\<And>s. free_slot (ag_entries ?a2) i s \<longleftrightarrow> free_slot (ag_entries a) i s"
    using assms(3) by (simp_all add: slot_window_def free_slot_def e)
  obtain t' where t': "slot_loop (ag_entries ?a2) i 0 t = Some t'" "t \<le> t'" "free_slot (ag_entries a) i t'"
    "\<forall>s. t \<le> s \<and> s < t' \<longrightarrow> \<not> free_slot (ag_entries a) i s"
    using slot_loop_first_free [OF w(1) assms(4,5), of 0] unfolding w(2) by auto
  have b: "agent_arm_transmission i delay a = Some (upd_ent i (\<lambda>e. e\<lparr>en_next_transmission := t'\<rparr>) ?a2)"
    unfolding agent_arm_transmission_def Let_def case_prod_unfold assms(2) [symmetric] e(3) t'(1) by simp
  have l: "i < length (ag_entries ?a2)" using e(1) assms(1) by simp
  show ?thesis
    unfolding b using t' e l by (intro exI [of _ "upd_ent i (\<lambda>e. e\<lparr>en_next_transmission := t'\<rparr>) ?a2"] exI [of _ t'])
      (simp add: upd_ent_def [of i _ ?a2])
qed

definition two_entries :: juice_agent where
  "two_entries = (zero_agent plain_config still_world)\<lparr>ag_entries := [zero_stun_entry\<lparr>en_next_transmission := 1020\<rparr>, zero_stun_entry]\<rparr>"

theorem arm_transmission_first_free_witness:
  "\<exists>b t'. agent_arm_transmission 1 0 two_entries = Some b \<and> length (ag_entries b) = length (ag_entries two_entries)
    \<and> en_next_transmission (ag_entries b ! 1) = t' \<and> 1000 \<le> t' \<and> free_slot (ag_entries two_entries) 1 t'
    \<and> (\<forall>s. 1000 \<le> s \<and> s < t' \<longrightarrow> \<not> free_slot (ag_entries two_entries) 1 s)
    \<and> (\<forall>j < length (ag_entries two_entries). j \<noteq> 1 \<longrightarrow> ag_entries b ! j = ag_entries two_entries ! j)"
  by (rule arm_transmission_first_free [of 1 two_entries 1000 0 1000 1020])
    (auto simp: two_entries_def current_timestamp_def zero_agent_def still_world_def slot_window_def agent_times less_Suc_eq zero_stun_entry_def)

subsection \<open>Retransmissions\<close>

text \<open>A check that is not relayed and not over TCP, and what concerns its transmissions.\<close>

definition check_times :: "agent_stun_entry \<Rightarrow> agent_stun_entry_state \<times> int \<times> int \<times> int" where
  "check_times e = (en_state e, en_next_transmission e, en_retransmission_timeout e, en_retransmissions e)"

definition direct_check :: "nat \<Rightarrow> juice_agent \<Rightarrow> bool" where
  "direct_check i a \<longleftrightarrow> i < length (ag_entries a) \<and> en_type (ag_entries a ! i) = AGENT_STUN_ENTRY_TYPE_CHECK
     \<and> en_relay_entry (ag_entries a ! i) = None \<and> \<not> entry_is_tcp a (ag_entries a ! i)"

text \<open>Whatever else the agent does between two rounds of book-keeping without touching the check: no response to it
  arrives, and it is not armed again or cancelled.\<close>

definition same_check :: "nat \<Rightarrow> juice_agent \<Rightarrow> juice_agent \<Rightarrow> bool" where
  "same_check i a b \<longleftrightarrow> direct_check i b \<and> check_times (ag_entries b ! i) = check_times (ag_entries a ! i)"

text \<open>\<open>serviced i a k b\<close>: from \<open>a\<close> to \<open>b\<close> the book-keeping has served entry \<open>i\<close> any number of times, at any times, and sent \<open>k\<close>
  datagrams for it.\<close>

definition sent_between :: "juice_agent \<Rightarrow> juice_agent \<Rightarrow> nat" where
  "sent_between a b = env_sends (ag_env b) - env_sends (ag_env a)"

inductive serviced :: "nat \<Rightarrow> juice_agent \<Rightarrow> nat \<Rightarrow> juice_agent \<Rightarrow> bool" for i a where
  armed: "serviced i a 0 a"
| other: "serviced i a k b \<Longrightarrow> same_check i b c \<Longrightarrow> serviced i a k c"
| serve: "serviced i a k b \<Longrightarrow> serve_entry now i b = Some c \<Longrightarrow> serviced i a (k + sent_between b c) c"

text \<open>The request of a pending check cannot be sent.\<close>

definition send_fails :: "nat \<Rightarrow> juice_agent \<Rightarrow> bool" where
  "send_fails i a \<longleftrightarrow> (\<exists>ret b. send_request i STUN_METHOD_ALLOCATE
     (if en_transaction_id_expired (ag_entries a ! i) then fresh_transaction i a else a) = Some (ret, b) \<and> ret < 0)"

lemma entry_is_tcp_upd_pair:
  assumes "\<And>q. pr_remote (f q) = pr_remote q" and "en_pair e' = en_pair e"
  shows "entry_is_tcp (upd_pair p f a) e' = entry_is_tcp a e"
proof -
  have "pr_remote ((ag_pairs a)[p := f (ag_pairs a ! p)] ! q) = pr_remote (ag_pairs a ! q)" for q
    by (cases "p < length (ag_pairs a)") (auto simp: nth_list_update assms(1) list_update_beyond)
  then show ?thesis
    by (simp add: entry_is_tcp_def entry_pair_def upd_pair_def remote_of_def assms(2) split: option.split)
qed

lemma entry_is_tcp_cong:
  "ag_pairs b = ag_pairs a \<Longrightarrow> ag_remote b = ag_remote a \<Longrightarrow> en_pair e' = en_pair e \<Longrightarrow> entry_is_tcp b e' = entry_is_tcp a e"
  by (simp add: entry_is_tcp_def entry_pair_def remote_of_def split: option.split)

text \<open>Sending the request of a direct check: at most one datagram, and only the mode of the entry changes.\<close>

lemma send_message_effect:
  assumes "send_message dst msg password ds a = Some (ret, b)"
  shows "ag_entries b = ag_entries a \<and> ag_pairs b = ag_pairs a \<and> ag_remote b = ag_remote a
    \<and> sent_between a b \<le> 1"
proof -
  obtain sz buffer where w: "stun_write (env_junk (ag_env a)) stack_buffer msg password = Some (sz, buffer)"
    using assms by (cases "stun_write (env_junk (ag_env a)) stack_buffer msg password") (auto simp: send_message_def)
  have "b = a \<or> b = snd (conn_send dst (take (nat sz) buffer) ds a)"
    using assms by (auto simp: send_message_def w agent_direct_send_def Let_def split: if_splits prod.splits)
  then show ?thesis by (auto simp: conn_send_def emit_def sent_between_def)
qed

lemma send_check_effect:
  assumes d: "direct_check i a" and "send_request i STUN_METHOD_ALLOCATE a = Some (ret, b)"
  shows "direct_check i b \<and> check_times (ag_entries b ! i) = check_times (ag_entries a ! i)
    \<and> en_pair (ag_entries b ! i) = en_pair (ag_entries a ! i) \<and> sent_between a b \<le> 1"
proof -
  have i: "i < length (ag_entries a)" and ty: "en_type (ag_entries a ! i) = AGENT_STUN_ENTRY_TYPE_CHECK"
    and nr: "en_relay_entry (ag_entries a ! i) = None" and nt: "\<not> entry_is_tcp a (ag_entries a ! i)"
    using d by (simp_all add: direct_check_def)
  let ?a1 = "upd_ent i (\<lambda>e. e\<lparr>en_mode := ag_mode a\<rparr>) a"
  have e1: "ag_entries ?a1 ! i = (ag_entries a ! i)\<lparr>en_mode := ag_mode a\<rparr>" using i by (simp add: upd_ent_def)
  have d1: "direct_check i ?a1" "check_times (ag_entries ?a1 ! i) = check_times (ag_entries a ! i)"
    "en_pair (ag_entries ?a1 ! i) = en_pair (ag_entries a ! i)" "sent_between ?a1 b = sent_between a b"
    using i ty nr nt entry_is_tcp_cong [of ?a1 a "ag_entries ?a1 ! i" "ag_entries a ! i"] unfolding e1
    by (simp_all add: direct_check_def check_times_def sent_between_def e1) (simp_all add: upd_ent_def)
  consider "b = a" | msg password where "send_message (en_record (ag_entries ?a1 ! i)) msg password 0 ?a1 = Some (ret, b)"
    using assms(2) ty nr e1
    by (auto simp: send_request_def agent_send_stun_binding_def compose_binding_def Let_def STUN_CLASS_REQUEST_def
        STUN_CLASS_RESP_SUCCESS_def STUN_CLASS_RESP_ERROR_def STUN_CLASS_INDICATION_def split: if_splits)
  then show ?thesis
  proof cases
    case 1
    then show ?thesis using d by (simp add: sent_between_def)
  next
    case 2
    note f = send_message_effect [OF 2]
    have "direct_check i b"
      using d1(1) f entry_is_tcp_cong [of b ?a1 "ag_entries b ! i" "ag_entries ?a1 ! i"] by (simp add: direct_check_def)
    then show ?thesis using f d1(2-4) by simp
  qed
qed

lemma transmission_failed_effect:
  assumes "direct_check i a"
  shows "direct_check i (transmission_failed i a)" "sent_between b (transmission_failed i a) = sent_between b a"
    "en_state (ag_entries (transmission_failed i a) ! i) = AGENT_STUN_ENTRY_STATE_FAILED"
proof -
  let ?a1 = "upd_ent i (\<lambda>e. e\<lparr>en_state := AGENT_STUN_ENTRY_STATE_FAILED, en_next_transmission := 0\<rparr>) a"
  have i: "i < length (ag_entries a)" and ty: "en_type (ag_entries a ! i) = AGENT_STUN_ENTRY_TYPE_CHECK"
    using assms by (simp_all add: direct_check_def)
  have e1: "ag_entries ?a1 ! i = (ag_entries a ! i)\<lparr>en_state := AGENT_STUN_ENTRY_STATE_FAILED, en_next_transmission := 0\<rparr>"
    using i by (simp add: upd_ent_def)
  have t: "transmission_failed i a = (case en_pair (ag_entries ?a1 ! i) of None \<Rightarrow> ?a1
      | Some p \<Rightarrow> upd_pair p (\<lambda>q. q\<lparr>pr_state := ICE_CANDIDATE_PAIR_STATE_FAILED\<rparr>) ?a1)"
    unfolding transmission_failed_def Let_def e1 using ty by simp
  have tcp: "\<not> entry_is_tcp ?a1 (ag_entries ?a1 ! i)"
    using assms entry_is_tcp_cong [of ?a1 a "ag_entries ?a1 ! i" "ag_entries a ! i"]
    by (simp add: e1 direct_check_def) (simp add: upd_ent_def)
  have tcp2: "\<not> entry_is_tcp (upd_pair p (\<lambda>q. q\<lparr>pr_state := ICE_CANDIDATE_PAIR_STATE_FAILED\<rparr>) ?a1) (ag_entries ?a1 ! i)" for p
    using tcp by (subst entry_is_tcp_upd_pair [of _ _ "ag_entries ?a1 ! i"]) simp_all
  have l: "length (ag_entries ?a1) = length (ag_entries a)" by (simp add: upd_ent_def)
  have pe: "ag_entries (upd_pair p f ?a1) = ag_entries ?a1" "ag_env (upd_pair p f ?a1) = ag_env ?a1" for p f
    by (simp_all add: upd_pair_def)
  have env: "ag_env ?a1 = ag_env a" by (simp add: upd_ent_def)
  show "direct_check i (transmission_failed i a)"
    using assms tcp tcp2 unfolding t by (auto simp: direct_check_def pe l e1 split: option.split)
  show "sent_between b (transmission_failed i a) = sent_between b a"
    unfolding t by (simp add: sent_between_def pe env split: option.split)
  show "en_state (ag_entries (transmission_failed i a) ! i) = AGENT_STUN_ENTRY_STATE_FAILED"
    unfolding t by (simp add: pe e1 split: option.split)
qed

lemma fresh_transaction_effect:
  assumes "direct_check i a"
  shows "direct_check i (fresh_transaction i a)" "sent_between (fresh_transaction i a) b = sent_between a b"
    "check_times (ag_entries (fresh_transaction i a) ! i) = check_times (ag_entries a ! i)"
proof -
  let ?f = "\<lambda>e. e\<lparr>en_transaction_id := fst (juice_random STUN_TRANSACTION_ID_SIZE a), en_transaction_id_expired := False\<rparr>"
  have i: "i < length (ag_entries a)" using assms by (simp add: direct_check_def)
  have e: "ag_entries (fresh_transaction i a) = (ag_entries a)[i := ?f (ag_entries a ! i)]"
    "ag_pairs (fresh_transaction i a) = ag_pairs a" "ag_remote (fresh_transaction i a) = ag_remote a"
    "env_sends (ag_env (fresh_transaction i a)) = env_sends (ag_env a)"
    by (simp_all add: fresh_transaction_def juice_random_def upd_ent_def)
  show "direct_check i (fresh_transaction i a)"
    using assms i entry_is_tcp_cong [OF e(2,3), of "ag_entries (fresh_transaction i a) ! i" "ag_entries a ! i"]
    by (simp add: direct_check_def e(1))
  show "sent_between (fresh_transaction i a) b = sent_between a b" by (simp add: sent_between_def e(4))
  show "check_times (ag_entries (fresh_transaction i a) ! i) = check_times (ag_entries a ! i)"
    using i by (simp add: check_times_def e(1))
qed

text \<open>One service of a pending check: it waits, sends and schedules the next transmission, or gives up.\<close>

lemma serve_check:
  assumes d: "direct_check i b" and pend: "en_state (ag_entries b ! i) = AGENT_STUN_ENTRY_STATE_PENDING"
    and s: "serve_entry now i b = Some c"
  obtains (waits) "c = b"
  | (sends) "en_next_transmission (ag_entries b ! i) \<le> now" "0 \<le> en_retransmissions (ag_entries b ! i)"
      "check_times (ag_entries c ! i) = check_times (schedule_retransmission now (ag_entries b ! i))"
      "direct_check i c" "sent_between b c \<le> 1"
  | (fails) "en_next_transmission (ag_entries b ! i) \<le> now" "direct_check i c"
      "en_state (ag_entries c ! i) = AGENT_STUN_ENTRY_STATE_FAILED"
      "en_retransmissions (ag_entries b ! i) < 0 \<and> sent_between b c = 0
       \<or> 0 \<le> en_retransmissions (ag_entries b ! i) \<and> send_fails i b \<and> sent_between b c \<le> 1"
proof -
  let ?e = "ag_entries b ! i"
  have tcp: "\<not> entry_is_tcp b ?e" using d by (simp add: direct_check_def)
  consider (w) "c = b" | (t) "en_next_transmission ?e \<le> now" "transmit now i b = Some c"
    using s pend tcp by (auto simp: serve_entry_def serve_pending_def split: if_splits)
  then show thesis
  proof cases
    case w
    then show thesis by (rule waits)
  next
    case t
    show thesis
    proof (cases "en_retransmissions ?e \<ge> 0")
      case False
      then have "c = transmission_failed i b" using t(2) by (simp add: transmit_def)
      then show thesis
        using False t(1) transmission_failed_effect(1,3) [OF d] transmission_failed_effect(2) [OF d, of b]
          by (intro fails) (simp_all add: sent_between_def)
    next
      case True
      let ?a1 = "if en_transaction_id_expired ?e then fresh_transaction i b else b"
      have a1: "direct_check i ?a1" "sent_between ?a1 x = sent_between b x"
        "check_times (ag_entries ?a1 ! i) = check_times ?e" for x
        using d fresh_transaction_effect [OF d] by simp_all
      obtain ret a2 where a2: "send_request i STUN_METHOD_ALLOCATE ?a1 = Some (ret, a2)"
        and c: "c = (if ret \<ge> 0 then upd_ent i (schedule_retransmission now) a2 else transmission_failed i a2)"
        using t(2) True by (auto simp: transmit_def Let_def bind_eq_Some_conv)
      note f = send_check_effect [OF a1(1) a2, unfolded a1(2,3)]
      have i: "i < length (ag_entries a2)" using f by (simp add: direct_check_def)
      show thesis
      proof (cases "ret \<ge> 0")
        case False
        then have "send_fails i b" using a2 by (auto simp: send_fails_def)
        then show thesis
          using c False True f t(1) transmission_failed_effect(1,3) [of i a2] transmission_failed_effect(2) [of i a2 b]
          by (intro fails) auto
      next
        case ret: True
        let ?s = "schedule_retransmission now (ag_entries a2 ! i)"
        have cs: "c = upd_ent i (schedule_retransmission now) a2" using c ret by simp
        have ce: "ag_entries c ! i = ?s" "length (ag_entries c) = length (ag_entries a2)" "ag_env c = ag_env a2"
          "ag_pairs c = ag_pairs a2" "ag_remote c = ag_remote a2"
          using i by (simp_all add: cs upd_ent_def)
        have keep: "en_pair ?s = en_pair (ag_entries a2 ! i)" "en_type ?s = en_type (ag_entries a2 ! i)"
          "en_relay_entry ?s = en_relay_entry (ag_entries a2 ! i)"
          by (simp_all add: schedule_retransmission_def Let_def)
        have "check_times ?s = check_times (schedule_retransmission now ?e)"
          using f by (auto simp: check_times_def schedule_retransmission_def Let_def)
        moreover have "direct_check i c"
          using f entry_is_tcp_cong [OF ce(4,5) keep(1)] by (simp add: direct_check_def ce keep)
        ultimately show thesis
          using f t(1) True ce(3) by (intro sends) (simp_all add: ce sent_between_def)
      qed
    qed
  qed
qed

text \<open>A connectivity check always fits the buffer.\<close>

lemma check_request_fits:
  assumes "length tid = 12"
  shows "length (wire junk (check_request a e (zero_message\<lparr>msg_class := STUN_CLASS_REQUEST, msg_method := STUN_METHOD_BINDING,
    transaction_id := tid\<rparr>)) (Some pwd)) \<le> 1000"
proof -
  define msg where "msg = check_request a e (zero_message\<lparr>msg_class := STUN_CLASS_REQUEST, msg_method := STUN_METHOD_BINDING,
    transaction_id := tid\<rparr>)"
  have f: "error_code msg = 0" "ar_len (mapped msg) = 0" "channel_number msg = 0" "\<not> lifetime_set msg" "lifetime msg = 0"
    "peers msg = []" "ar_len (relayed msg) = 0" "msg_data msg = None" "\<not> even_port msg" "\<not> requested_transport msg"
    "\<not> dont_fragment msg" "reservation_token msg = 0" "msg_class msg = STUN_CLASS_REQUEST" "\<not> enable_userhash (credentials msg)"
    "realm (credentials msg) = []" "nonce (credentials msg) = []" "transaction_id msg = tid"
    "password_algorithm (credentials msg) = STUN_PASSWORD_ALGORITHM_UNSET"
    by (simp_all add: msg_def check_request_def zero_message_def zero_credentials_def zero_record_def stun_consts)
  have u: "length (username (credentials msg)) \<le> 514"
  proof -
    have "length (cstr (snd (snprintf STUN_MAX_USERNAME_LEN t))) \<le> STUN_MAX_USERNAME_LEN" for t
      using cstr_length snprintf_fits(1) order_trans by blast
    then show ?thesis by (simp add: msg_def check_request_def stun_sizes)
  qed
  have "length (encs (attrs_ice msg)) \<le> 36"
    by (simp add: attrs_ice_def length_enc align32_id)
  moreover have "length (encs attrs_software) = 12"
    by (simp add: attrs_software_def length_enc align32_id str_bytes_def)
  moreover have "length (encs (attrs_user msg)) \<le> 521"
    using u align32_props(2) [of "length (username (credentials msg))"] by (simp add: attrs_user_def f length_enc)
  moreover have "length (encs (body_attrs junk msg)) = length (encs (attrs_ice msg)) + length (encs attrs_software) + length (encs (attrs_user msg))"
    by (simp add: body_attrs_def f attrs_error_code_def attrs_address_def attrs_channel_lifetime_def attrs_peers_def attrs_turn_def
        attrs_realm_def attrs_nonce_def)
  ultimately have b: "length (encs (body_attrs junk msg)) \<le> 569" by linarith
  have "length (encs (mac_attrs msg (Some pwd) x)) = 24" for x
    by (simp add: mac_attrs_def f Let_def length_enc align32_id stun_consts)
  then have "length (signed_body junk msg (Some pwd)) \<le> 600" using b by (simp add: signed_body_def Let_def)
  then show ?thesis
    using assms f by (simp add: msg_def [symmetric] wire_def Let_def length_hdr length_enc fingerprint_attr_def align32_id)
qed
text \<open>A check that is due is sent when its credentials are known and the backend takes the datagram.\<close>

lemma check_sent:
  assumes d: "direct_check i a" and pend: "en_state (ag_entries a ! i) = AGENT_STUN_ENTRY_STATE_PENDING"
    and due: "en_next_transmission (ag_entries a ! i) \<le> now" "0 \<le> en_retransmissions (ag_entries a ! i)"
    and tid: "length (en_transaction_id (ag_entries a ! i)) = 12" "\<not> en_transaction_id_expired (ag_entries a ! i)"
    and peer: "ice_ufrag (ag_remote a) \<noteq> []" "ice_pwd (ag_remote a) \<noteq> []"
    and net: "ag_conn_impl a" "0 \<le> env_send_result (ag_env a) (env_sends (ag_env a))"
  shows "\<exists>c. serve_entry now i a = Some c \<and> sent_between a c = 1 \<and> direct_check i c
    \<and> check_times (ag_entries c ! i) = check_times (schedule_retransmission now (ag_entries a ! i))"
proof -
  let ?e = "ag_entries a ! i"
  let ?m = "check_request a ?e (zero_message\<lparr>msg_class := STUN_CLASS_REQUEST, msg_method := STUN_METHOD_BINDING,
    transaction_id := en_transaction_id ?e\<rparr>)"
  let ?a1 = "upd_ent i (\<lambda>e. e\<lparr>en_mode := ag_mode a\<rparr>) a"
  have i: "i < length (ag_entries a)" and ty: "en_type ?e = AGENT_STUN_ENTRY_TYPE_CHECK" and nr: "en_relay_entry ?e = None"
    and nt: "\<not> entry_is_tcp a ?e" using d by (simp_all add: direct_check_def)
  have e1: "ag_entries ?a1 ! i = ?e\<lparr>en_mode := ag_mode a\<rparr>" "ag_env ?a1 = ag_env a" "ag_conn_impl ?a1 = ag_conn_impl a"
    using i by (simp_all add: upd_ent_def)
  have tid': "length (transaction_id ?m) = 12" using tid(1) by (simp add: check_request_def)
  have fit: "length (wire (env_junk (ag_env a)) ?m (Some (ice_pwd (ag_remote a)))) \<le> length stack_buffer" "length stack_buffer < 2 ^ 31"
    using check_request_fits [OF tid(1), of "env_junk (ag_env a)" a ?e "ice_pwd (ag_remote a)"]
    by (simp_all add: stack_buffer_def agent_times AGENT_BUFFER_SIZE_def)
  from stun_write_wire' [OF tid' fit] obtain buf' where
    w: "stun_write (env_junk (ag_env a)) stack_buffer ?m (Some (ice_pwd (ag_remote a)))
      = Some (int (length (wire (env_junk (ag_env a)) ?m (Some (ice_pwd (ag_remote a))))), buf')" by blast
  have pos: "0 < length (wire (env_junk (ag_env a)) ?m (Some (ice_pwd (ag_remote a))))"
    by (simp add: wire_def Let_def length_hdr [OF tid'])
  obtain b where b: "send_message (en_record ?e) ?m (Some (ice_pwd (ag_remote a))) 0 ?a1 = Some (0, b)" "sent_between a b = 1"
    using w pos net by (auto simp: send_message_def e1 agent_direct_send_def conn_send_def emit_def sent_between_def)
  have s: "send_request i STUN_METHOD_ALLOCATE a = Some (0, b)"
    using b(1) ty nr peer e1(1) by (simp add: send_request_def agent_send_stun_binding_def compose_binding_def Let_def
        STUN_CLASS_REQUEST_def STUN_CLASS_RESP_SUCCESS_def STUN_CLASS_RESP_ERROR_def STUN_CLASS_INDICATION_def)
  define c where "c = upd_ent i (schedule_retransmission now) b"
  have v: "serve_entry now i a = Some c"
    using pend due tid(2) nt s by (simp add: serve_entry_def serve_pending_def transmit_def c_def)
  have sc: "sent_between a c = 1" using b(2) by (simp add: c_def sent_between_def upd_ent_def)
  from d pend v show ?thesis
  proof (cases rule: serve_check)
    case sends
    then show ?thesis using v sc by blast
  next
    case fails
    have "\<not> send_fails i a" using s tid(2) by (simp add: send_fails_def)
    then show ?thesis using fails(4) due(2) by simp
  qed (use sc in \<open>simp add: sent_between_def\<close>)
qed

text \<open>The state of a check that was armed for time \<open>t\<close> and has been transmitted \<open>m\<close> times.\<close>

definition attempts_made :: "int \<Rightarrow> nat \<Rightarrow> agent_stun_entry \<Rightarrow> bool" where
  "attempts_made t m e \<longleftrightarrow> en_retransmissions e = 6 - int m
     \<and> (m \<le> 6 \<longrightarrow> en_retransmission_timeout e = 500 * 2 ^ m \<and> t + 500 * (2 ^ m - 1) \<le> en_next_transmission e)
     \<and> (m = 7 \<longrightarrow> t + ICE_PAC_TIMEOUT \<le> en_next_transmission e) \<and> m \<le> 7"

lemma attempts_made_cong: "check_times e' = check_times e \<Longrightarrow> attempts_made t m e' = attempts_made t m e"
  by (simp add: check_times_def attempts_made_def)

lemma attempts_made_schedule:
  assumes "attempts_made t m e" "en_next_transmission e \<le> now" "0 \<le> en_retransmissions e"
  shows "attempts_made t (Suc m) (schedule_retransmission now e)"
proof (cases "m = 6")
  case True
  then show ?thesis using assms by (simp add: attempts_made_def schedule_retransmission_def Let_def agent_times)
next
  case False
  then have "m < 6" using assms by (auto simp: attempts_made_def)
  then show ?thesis using assms
    by (auto simp: attempts_made_def schedule_retransmission_def Let_def)
qed

definition check_inv :: "int \<Rightarrow> nat \<Rightarrow> nat \<Rightarrow> juice_agent \<Rightarrow> bool" where
  "check_inv t i k b \<longleftrightarrow> direct_check i b \<and> k \<le> 7
     \<and> en_state (ag_entries b ! i) \<noteq> AGENT_STUN_ENTRY_STATE_SUCCEEDED_KEEPALIVE
     \<and> (en_state (ag_entries b ! i) = AGENT_STUN_ENTRY_STATE_PENDING \<longrightarrow> (\<exists>m. attempts_made t m (ag_entries b ! i) \<and> k \<le> m))"

lemma check_inv_serve:
  assumes inv: "check_inv t i k b" and s: "serve_entry now i b = Some c"
  shows "check_inv t i (k + sent_between b c) c"
proof (cases "en_state (ag_entries b ! i) = AGENT_STUN_ENTRY_STATE_PENDING")
  case False
  then have "c = upd_ent i (\<lambda>e. e\<lparr>en_next_transmission := 0\<rparr>) b"
    using inv s by (auto simp: serve_entry_def check_inv_def split: agent_stun_entry_state.splits)
  then show ?thesis
    using inv False entry_is_tcp_cong [of c b "ag_entries c ! i" "ag_entries b ! i"]
    by (auto simp: check_inv_def direct_check_def upd_ent_def sent_between_def)
next
  case True
  have d: "direct_check i b" using inv by (simp add: check_inv_def)
  obtain m where m: "attempts_made t m (ag_entries b ! i)" "k \<le> m" "m \<le> 7"
    using inv True by (auto simp: check_inv_def attempts_made_def)
  from d True s show ?thesis
  proof (cases rule: serve_check)
    case waits
    then show ?thesis using inv by (simp add: sent_between_def)
  next
    case sends
    have st: "en_state (ag_entries c ! i) = AGENT_STUN_ENTRY_STATE_PENDING"
      using sends(3) True by (simp add: check_times_def schedule_retransmission_def Let_def split: if_splits)
    have a: "attempts_made t (Suc m) (ag_entries c ! i)"
      using attempts_made_schedule [OF m(1) sends(1,2)] attempts_made_cong [OF sends(3)] by simp
    then have "Suc m \<le> 7" by (simp add: attempts_made_def)
    moreover have "k + sent_between b c \<le> Suc m" using m(2) sends(5) by simp
    ultimately show ?thesis using a sends(4) st unfolding check_inv_def by auto
  next
    case fails
    have "k + sent_between b c \<le> 7"
      using fails(4) m by (auto simp: attempts_made_def)
    then show ?thesis using fails(2,3) by (simp add: check_inv_def)
  qed
qed

lemma serviced_inv:
  assumes "serviced i a k b" "check_inv t i 0 a"
  shows "check_inv t i k b"
  using assms
proof (induction rule: serviced.induct)
  case (other k b c)
  then have same: "direct_check i c" "check_times (ag_entries c ! i) = check_times (ag_entries b ! i)"
    by (simp_all add: same_check_def)
  show ?case
    using other.IH [OF other.prems] same attempts_made_cong [OF same(2)] by (simp add: check_inv_def check_times_def)
next
  case (serve k b now c)
  then show ?case by (blast intro: check_inv_serve)
qed simp

lemma armed_inv:
  assumes d: "direct_check i a0" and k: "en_state (ag_entries a0 ! i) \<noteq> AGENT_STUN_ENTRY_STATE_SUCCEEDED_KEEPALIVE"
    and arm: "agent_arm_transmission i delay a0 = Some a"
  shows "check_inv (en_next_transmission (ag_entries a ! i)) i 0 a"
proof -
  let ?a1 = "snd (current_timestamp a0)" and ?t = "fst (current_timestamp a0) + delay"
  let ?e = "armed_entry ?a1 (ag_entries a0 ! i) ?t"
  have i: "i < length (ag_entries a0)" and ty: "en_type (ag_entries a0 ! i) = AGENT_STUN_ENTRY_TYPE_CHECK"
    and tcp: "\<not> entry_is_tcp a0 (ag_entries a0 ! i)" using d by (simp_all add: direct_check_def)
  obtain t where t: "a = upd_ent i (\<lambda>e. e\<lparr>en_next_transmission := t\<rparr>) (upd_ent i (\<lambda>e. armed_entry ?a1 e ?t) ?a1)"
    using arm by (auto simp: agent_arm_transmission_def Let_def case_prod_unfold bind_eq_Some_conv)
  have e: "ag_entries a ! i = ?e\<lparr>en_next_transmission := t\<rparr>" "length (ag_entries a) = length (ag_entries a0)"
    "ag_pairs a = ag_pairs a0" "ag_remote a = ag_remote a0"
    using i by (simp_all add: t upd_ent_def current_timestamp_def)
  have tcp1: "\<not> entry_is_tcp ?a1 ((ag_entries a0 ! i)\<lparr>en_state := AGENT_STUN_ENTRY_STATE_PENDING, en_next_transmission := ?t\<rparr>)"
    using tcp entry_is_tcp_cong [of ?a1 a0 "(ag_entries a0 ! i)\<lparr>en_state := AGENT_STUN_ENTRY_STATE_PENDING, en_next_transmission := ?t\<rparr>"
        "ag_entries a0 ! i"] by (simp add: current_timestamp_def)
  have f: "en_state ?e = AGENT_STUN_ENTRY_STATE_PENDING" "en_retransmissions ?e = 6" "en_retransmission_timeout ?e = 500"
    "en_type ?e = AGENT_STUN_ENTRY_TYPE_CHECK" "en_pair ?e = en_pair (ag_entries a0 ! i)"
    "en_relay_entry ?e = en_relay_entry (ag_entries a0 ! i)"
    using ty k tcp1 by (simp_all add: armed_entry_def Let_def agent_times)
  have "direct_check i a"
    using d entry_is_tcp_cong [OF e(3,4), of "ag_entries a ! i" "ag_entries a0 ! i"] f by (simp add: direct_check_def e)
  moreover have "attempts_made t 0 (ag_entries a ! i)" by (simp add: attempts_made_def e f)
  ultimately show ?thesis unfolding check_inv_def by (auto simp: e f)
qed

text \<open>(C25) A direct check over UDP, once armed, is sent at most seven times, however often and whenever the book-keeping serves
  its entry and whatever else the agent does that does not touch the check.  When a service gives the check
  up, then because its request could not be sent, or because no answer came for at least 39.5 seconds since
  the time it was armed for, which is what the timer for patiently awaiting connectivity grants; and a
  check that is served before it is due is left alone.
\<close>

theorem check_retransmissions:
  assumes "direct_check i a0" and "en_state (ag_entries a0 ! i) \<noteq> AGENT_STUN_ENTRY_STATE_SUCCEEDED_KEEPALIVE"
    and "agent_arm_transmission i delay a0 = Some a" and "serviced i a k b"
  shows "k \<le> 7
    \<and> (\<forall>now c. en_state (ag_entries b ! i) = AGENT_STUN_ENTRY_STATE_PENDING \<and> serve_entry now i b = Some c
         \<and> en_state (ag_entries c ! i) \<noteq> AGENT_STUN_ENTRY_STATE_PENDING
        \<longrightarrow> send_fails i b \<or> en_next_transmission (ag_entries a ! i) + ICE_PAC_TIMEOUT \<le> now)
    \<and> (\<forall>now. en_state (ag_entries b ! i) = AGENT_STUN_ENTRY_STATE_PENDING
         \<and> now < en_next_transmission (ag_entries b ! i) \<longrightarrow> serve_entry now i b = Some b)"
proof -
  let ?t = "en_next_transmission (ag_entries a ! i)"
  have inv: "check_inv ?t i k b" using serviced_inv [OF assms(4) armed_inv [OF assms(1-3)]] .
  have d: "direct_check i b" using inv by (simp add: check_inv_def)
  have "send_fails i b \<or> ?t + ICE_PAC_TIMEOUT \<le> now"
    if p: "en_state (ag_entries b ! i) = AGENT_STUN_ENTRY_STATE_PENDING" and s: "serve_entry now i b = Some c"
      and "en_state (ag_entries c ! i) \<noteq> AGENT_STUN_ENTRY_STATE_PENDING" for now c
    using d p s
  proof (cases rule: serve_check)
    case waits
    then show ?thesis using p that(3) by simp
  next
    case sends
    then show ?thesis using p that(3) by (simp add: check_times_def schedule_retransmission_def Let_def split: if_splits)
  next
    case fails
    obtain m where m: "attempts_made ?t m (ag_entries b ! i)" using inv p by (auto simp: check_inv_def)
    show ?thesis
    proof (cases "en_retransmissions (ag_entries b ! i) < 0")
      case True
      then have "m = 7" using m by (auto simp: attempts_made_def)
      then show ?thesis using m fails(1) by (simp add: attempts_made_def)
    qed (use fails(4) in auto)
  qed
  moreover have "serve_entry now i b = Some b"
    if "en_state (ag_entries b ! i) = AGENT_STUN_ENTRY_STATE_PENDING" "now < en_next_transmission (ag_entries b ! i)" for now
    using that by (simp add: serve_entry_def serve_pending_def)
  ultimately show ?thesis using inv unfolding check_inv_def by blast
qed

text \<open>A check that was armed at time 1000 and sent then: the service at 1400 waits.\<close>

definition checking_agent :: juice_agent where
  "checking_agent = (zero_agent plain_config still_world)\<lparr>
     ag_entries := [zero_stun_entry\<lparr>en_type := AGENT_STUN_ENTRY_TYPE_CHECK, en_state := AGENT_STUN_ENTRY_STATE_IDLE\<rparr>],
     ag_remote := zero_description\<lparr>ice_ufrag := [97], ice_pwd := [98]\<rparr>, ag_conn_impl := True\<rparr>"

theorem check_retransmissions_witness:
  "\<exists>a b. agent_arm_transmission 0 0 checking_agent = Some a \<and> serviced 0 a 1 b \<and> (1 :: nat) \<le> 7
     \<and> en_next_transmission (ag_entries b ! 0) = 1500 \<and> serve_entry 1400 0 b = Some b"
proof -
  have d0: "direct_check 0 checking_agent" "en_state (ag_entries checking_agent ! 0) \<noteq> AGENT_STUN_ENTRY_STATE_SUCCEEDED_KEEPALIVE"
    by (simp_all add: direct_check_def checking_agent_def zero_stun_entry_def entry_is_tcp_def entry_pair_def)
  let ?c = "checking_agent\<lparr>ag_env := still_world\<lparr>env_ticks := 1\<rparr>\<rparr>"
  let ?a = "upd_ent 0 (\<lambda>e. armed_entry ?c e 1000) ?c"
  have sl: "slot_loop [e] 0 0 t = Some t" for e t
    by (subst slot_loop.simps, simp, subst slot_loop.simps, simp)
  have ae: "armed_entry ?c (ag_entries checking_agent ! 0) 1000 = zero_stun_entry\<lparr>en_type := AGENT_STUN_ENTRY_TYPE_CHECK,
      en_state := AGENT_STUN_ENTRY_STATE_PENDING, en_next_transmission := 1000, en_retransmission_timeout := 500,
      en_retransmissions := 6\<rparr>"
    by (simp add: armed_entry_def Let_def checking_agent_def zero_stun_entry_def entry_is_tcp_def entry_pair_def agent_times)
  have arm: "agent_arm_transmission 0 0 checking_agent = Some ?a"
    by (simp add: agent_arm_transmission_def current_timestamp_def checking_agent_def zero_agent_def still_world_def upd_ent_def sl
        armed_entry_def Let_def)
  have ea: "ag_entries ?a ! 0 = zero_stun_entry\<lparr>en_type := AGENT_STUN_ENTRY_TYPE_CHECK,
      en_state := AGENT_STUN_ENTRY_STATE_PENDING, en_next_transmission := 1000, en_retransmission_timeout := 500,
      en_retransmissions := 6\<rparr>"
    using ae by (simp add: upd_ent_def checking_agent_def)
  have da: "direct_check 0 ?a" using armed_inv [OF d0 arm] by (simp add: check_inv_def)
  define a where "a = ?a"
  have f: "ag_conn_impl a" "0 \<le> env_send_result (ag_env a) (env_sends (ag_env a))" "ice_ufrag (ag_remote a) \<noteq> []"
    "ice_pwd (ag_remote a) \<noteq> []"
    by (simp_all add: a_def upd_ent_def checking_agent_def still_world_def)
  have e: "ag_entries a ! 0 = zero_stun_entry\<lparr>en_type := AGENT_STUN_ENTRY_TYPE_CHECK,
      en_state := AGENT_STUN_ENTRY_STATE_PENDING, en_next_transmission := 1000, en_retransmission_timeout := 500,
      en_retransmissions := 6\<rparr>" using ea by (simp add: a_def)
  have "\<exists>c. serve_entry 1000 0 a = Some c \<and> sent_between a c = 1 \<and> direct_check 0 c
    \<and> check_times (ag_entries c ! 0) = check_times (schedule_retransmission 1000 (ag_entries a ! 0))"
    by (rule check_sent) (use da f in \<open>simp_all add: e, simp_all add: a_def zero_stun_entry_def\<close>)
  then obtain b where b: "serve_entry 1000 0 a = Some b" "sent_between a b = 1"
    "check_times (ag_entries b ! 0) = check_times (schedule_retransmission 1000 (ag_entries a ! 0))" by blast
  have r: "serviced 0 a 1 b" using serviced.serve [OF serviced.armed b(1)] b(2) by simp
  have p: "en_state (ag_entries b ! 0) = AGENT_STUN_ENTRY_STATE_PENDING" "en_next_transmission (ag_entries b ! 0) = 1500"
    using b(3) by (simp_all add: e check_times_def schedule_retransmission_def Let_def)
  have arm': "agent_arm_transmission 0 0 checking_agent = Some a" using arm by (simp add: a_def)
  from check_retransmissions [OF d0 arm' r] arm' r p show ?thesis
    by (intro exI [of _ a] exI [of _ b]) simp
qed

subsection \<open>Role conflicts\<close>

lemma switch_role_mode [simp]: "ag_mode (switch_role mode a) = mode"
  by (simp add: switch_role_def agent_update_candidate_pairs_def agent_update_ordered_pairs_def Let_def)

text \<open>(C26) What agent \<open>b\<close> does with a check of agent \<open>a\<close> when both have the same role.  Two controlling agents are told apart by their
  tiebreakers: the smaller one gives way, the other one answers with error 487.  A controlled agent always becomes
  controlling, whatever the tiebreakers, because the code compares its own with the absent \<^verbatim>\<open>ICE-CONTROLLING\<close> attribute: two
  controlled agents both switch, and are in conflict again.
\<close>

theorem role_conflict:
  assumes "en_type (ag_entries b ! j) = AGENT_STUN_ENTRY_TYPE_CHECK" "ag_ice_tiebreaker a \<noteq> 0" "ag_mode a = ag_mode b"
    and "ag_mode b = AGENT_MODE_CONTROLLING \<or> ag_mode b = AGENT_MODE_CONTROLLED"
  shows "process_binding_request j (check_request a e m) src b =
      (if ag_mode b = AGENT_MODE_CONTROLLED then Some (0, switch_role AGENT_MODE_CONTROLLING b)
       else if ag_ice_tiebreaker a \<le> ag_ice_tiebreaker b then reply_error j 487 (check_request a e m) 0 b
       else Some (0, switch_role AGENT_MODE_CONTROLLED b))"
  using assms by (auto simp: process_binding_request_def check_request_def)

theorem role_conflict_witness:
  "let a = (zero_agent plain_config still_world)\<lparr>ag_mode := AGENT_MODE_CONTROLLED, ag_ice_tiebreaker := 9\<rparr>;
       b = (zero_agent plain_config still_world)\<lparr>ag_mode := AGENT_MODE_CONTROLLED, ag_ice_tiebreaker := 5,
              ag_entries := [zero_stun_entry\<lparr>en_type := AGENT_STUN_ENTRY_TYPE_CHECK\<rparr>]\<rparr>
   in process_binding_request 0 (check_request a zero_stun_entry zero_message) zero_record b
      = Some (0, switch_role AGENT_MODE_CONTROLLING b)"
  unfolding Let_def by (subst role_conflict) (simp_all add: zero_agent_def)

end
