(* ===== verification/Agent_Frame.thy ===== *)
theory Agent_Frame
  imports Agent_Api
begin

text \<open>
  What the operations of the agent leave alone.  The relation \<open>keeps\<close> between two states says that entries and pairs
  are only added, that an entry keeps its type, its pair and the address it checks, that no pair becomes valid
  or nominated, and that the selection and the credentials of the peer do not change.  All operations but the
  processing of a success response, the choice of a pair and the setting of a description stay within it.
\<close>

subsection \<open>The frame of the agent\<close>

definition valid_pair :: "agent_pair \<Rightarrow> bool" where
  "valid_pair q \<longleftrightarrow> pr_state q = ICE_CANDIDATE_PAIR_STATE_SUCCEEDED \<or> pr_nominated q"

definition entry_ok :: "agent_stun_entry \<Rightarrow> bool" where
  "entry_ok e \<longleftrightarrow> (en_type e = AGENT_STUN_ENTRY_TYPE_CHECK \<longrightarrow> en_turn e = None)
     \<and> (en_type e \<noteq> AGENT_STUN_ENTRY_TYPE_CHECK \<longrightarrow> en_pair e = None)"

definition entry_frame :: "agent_stun_entry \<Rightarrow> agent_stun_entry \<Rightarrow> bool" where
  "entry_frame e e' \<longleftrightarrow> en_pair e' = en_pair e \<and> en_type e' = en_type e
     \<and> (en_type e = AGENT_STUN_ENTRY_TYPE_CHECK \<longrightarrow> en_record e' = en_record e)
     \<and> (en_turn e = None \<longrightarrow> en_turn e' = None) \<and> en_relay_entry e' = en_relay_entry e"

definition entries_frame :: "agent_stun_entry list \<Rightarrow> agent_stun_entry list \<Rightarrow> bool" where
  "entries_frame es es' \<longleftrightarrow> length es \<le> length es' \<and> (\<forall>i < length es. entry_frame (es ! i) (es' ! i))
     \<and> (\<forall>i < length es'. length es \<le> i \<longrightarrow> entry_ok (es' ! i))"

definition pairs_frame :: "agent_pair list \<Rightarrow> agent_pair list \<Rightarrow> bool" where
  "pairs_frame ps ps' \<longleftrightarrow> length ps \<le> length ps'
     \<and> (\<forall>p < length ps'. valid_pair (ps' ! p) \<longrightarrow> p < length ps \<and> valid_pair (ps ! p))"

text \<open>No two entries check the same pair.\<close>

definition paired :: "agent_stun_entry list \<Rightarrow> agent_pair list \<Rightarrow> bool" where
  "paired es ps \<longleftrightarrow> (let qs = filter (\<lambda>q. q \<noteq> None) (map en_pair es) in distinct qs \<and> (\<forall>p. Some p \<in> set qs \<longrightarrow> p < length ps))"

definition keeps :: "juice_agent \<Rightarrow> juice_agent \<Rightarrow> bool" where
  "keeps a b \<longleftrightarrow> entries_frame (ag_entries a) (ag_entries b) \<and> pairs_frame (ag_pairs a) (ag_pairs b)
     \<and> ag_selected_entry b = ag_selected_entry a \<and> ag_selected_pair b = ag_selected_pair a
     \<and> ice_ufrag (ag_remote b) = ice_ufrag (ag_remote a) \<and> ice_pwd (ag_remote b) = ice_pwd (ag_remote a)
     \<and> (paired (ag_entries a) (ag_pairs a) \<longrightarrow> paired (ag_entries b) (ag_pairs b))"

lemma entry_frame_refl [simp]: "entry_frame e e"
  by (simp add: entry_frame_def)

lemma entry_frame_fields [simp]:
  "entry_frame d (e\<lparr>en_state := x1\<rparr>) = entry_frame d e" "entry_frame d (e\<lparr>en_mode := x2\<rparr>) = entry_frame d e"
  "entry_frame d (e\<lparr>en_relayed := x3\<rparr>) = entry_frame d e" "entry_frame d (e\<lparr>en_transaction_id := x4\<rparr>) = entry_frame d e"
  "entry_frame d (e\<lparr>en_next_transmission := x5\<rparr>) = entry_frame d e"
  "entry_frame d (e\<lparr>en_retransmission_timeout := x6\<rparr>) = entry_frame d e"
  "entry_frame d (e\<lparr>en_retransmissions := x7\<rparr>) = entry_frame d e"
  "entry_frame d (e\<lparr>en_transaction_id_expired := x8\<rparr>) = entry_frame d e"
  "entry_frame d (e\<lparr>en_tcp_state := x9\<rparr>) = entry_frame d e" "entry_frame d (e\<lparr>en_turn_redirections := x10\<rparr>) = entry_frame d e"
  by (simp_all add: entry_frame_def)

lemma valid_pair_fields [simp]:
  "valid_pair (q\<lparr>pr_local := x1\<rparr>) = valid_pair q" "valid_pair (q\<lparr>pr_priority := x2\<rparr>) = valid_pair q"
  "valid_pair (q\<lparr>pr_nomination_requested := x3\<rparr>) = valid_pair q" "valid_pair (q\<lparr>pr_consent_expiry := x4\<rparr>) = valid_pair q"
  "valid_pair (q\<lparr>pr_state := ICE_CANDIDATE_PAIR_STATE_PENDING\<rparr>) = pr_nominated q"
  "valid_pair (q\<lparr>pr_state := ICE_CANDIDATE_PAIR_STATE_FAILED\<rparr>) = pr_nominated q"
  "valid_pair (q\<lparr>pr_state := ICE_CANDIDATE_PAIR_STATE_FROZEN\<rparr>) = pr_nominated q"
  by (simp_all add: valid_pair_def)

lemma nominated_valid: "pr_nominated q \<Longrightarrow> valid_pair q"
  by (simp add: valid_pair_def)

lemma entry_frame_trans: "entry_frame d e \<Longrightarrow> entry_frame e f \<Longrightarrow> entry_frame d f"
  by (auto simp: entry_frame_def)

lemma entry_frame_ok: "entry_frame e e' \<Longrightarrow> entry_ok e \<Longrightarrow> entry_ok e'"
  by (auto simp: entry_frame_def entry_ok_def)

lemma entries_frame_refl [simp]: "entries_frame es es"
  by (simp add: entries_frame_def)

lemma entries_frame_trans:
  assumes "entries_frame es fs" "entries_frame fs gs"
  shows "entries_frame es gs"
proof -
  have "entry_ok (gs ! i)" if "i < length gs" "length es \<le> i" for i
    using assms that entry_frame_ok unfolding entries_frame_def by (cases "i < length fs") auto
  then show ?thesis using assms entry_frame_trans unfolding entries_frame_def by fastforce
qed

lemma pairs_frame_trans: "pairs_frame ps qs \<Longrightarrow> pairs_frame qs rs \<Longrightarrow> pairs_frame ps rs"
  by (auto simp: pairs_frame_def)

lemma keeps_refl [simp]: "keeps a a"
  by (simp add: keeps_def pairs_frame_def)

lemma keeps_trans: "keeps a b \<Longrightarrow> keeps b c \<Longrightarrow> keeps a c"
  unfolding keeps_def using entries_frame_trans pairs_frame_trans by auto

interpretation keeps: step_frame keeps
  using keeps_trans by unfold_locales auto

lemma entries_frame_update:
  assumes "\<And>e. entry_frame e (f e)"
  shows "entries_frame es (es[i := f (es ! i)])"
  using assms by (cases "i < length es") (auto simp: entries_frame_def nth_list_update)

lemma entries_frame_map:
  assumes "\<And>e. entry_frame e (f e)"
  shows "entries_frame es (map f es)"
  using assms by (auto simp: entries_frame_def)

lemma entries_frame_append: "entry_ok e \<Longrightarrow> entries_frame es (es @ [e])"
  by (auto simp: entries_frame_def nth_append)

lemma pairs_frame_update:
  assumes "\<And>q. valid_pair (f q) \<Longrightarrow> valid_pair q"
  shows "pairs_frame ps (ps[i := f (ps ! i)])"
  using assms by (cases "i < length ps") (auto simp: pairs_frame_def nth_list_update split: if_splits)

lemma pairs_frame_map:
  assumes "\<And>q. valid_pair (f q) \<Longrightarrow> valid_pair q"
  shows "pairs_frame ps (map f ps)"
  using assms by (auto simp: pairs_frame_def)

lemma pairs_frame_append: "\<not> valid_pair q \<Longrightarrow> pairs_frame ps (ps @ [q])"
  by (auto simp: pairs_frame_def nth_append)

lemma pairs_frame_refl [simp]: "pairs_frame ps ps"
  by (simp add: pairs_frame_def)

lemma paired_frame:
  assumes "paired es ps" "entries_frame es fs" "length fs = length es" "length ps \<le> length qs"
  shows "paired fs qs"
proof -
  have "map en_pair fs = map en_pair es"
    using assms(2,3) by (auto intro!: nth_equalityI simp: entries_frame_def entry_frame_def)
  then show ?thesis using assms(1,4) unfolding paired_def Let_def by fastforce
qed

lemma paired_append:
  assumes "paired es ps" "length ps \<le> length qs"
    and "en_pair e = None \<or> en_pair e = Some (length ps) \<and> length ps < length qs"
  shows "paired (es @ [e]) qs"
  using assms by (fastforce simp: paired_def Let_def)

lemma paired_unique:
  assumes "paired es ps" "i < length es" "j < length es" "en_pair (es ! i) = Some p" "en_pair (es ! j) = Some p"
  shows "i = j"
proof (rule ccontr)
  assume "i \<noteq> j"
  have "\<not> distinct (filter (\<lambda>q. q \<noteq> None) (map en_pair es))" if "i < j" "i < length es" "j < length es"
    "en_pair (es ! i) = Some p" "en_pair (es ! j) = Some p" for i j
  proof -
    have "map en_pair es = map en_pair (take j es) @ Some p # map en_pair (drop (Suc j) es)"
      using that id_take_nth_drop [of j "map en_pair es"] by (simp add: take_map drop_map)
    moreover have "Some p \<in> set (map en_pair (take j es))"
      using that by (auto simp: in_set_conv_nth intro!: exI [of _ i] rev_image_eqI [of "es ! i"])
    ultimately show ?thesis by simp
  qed
  from this [of i j] this [of j i] show False using assms \<open>i \<noteq> j\<close> by (auto simp: paired_def Let_def neq_iff)
qed

subsection \<open>Primitives\<close>

lemma keeps_upd_ent: "(\<And>e. entry_frame e (f e)) \<Longrightarrow> keeps a (upd_ent i f a)"
  using paired_frame [OF _ entries_frame_update [of f "ag_entries a" i]] by (simp add: keeps_def upd_ent_def entries_frame_update)

lemma keeps_upd_pair: "(\<And>q. valid_pair (f q) \<Longrightarrow> valid_pair q) \<Longrightarrow> keeps a (upd_pair i f a)"
  by (simp add: keeps_def upd_pair_def pairs_frame_update paired_def)

text \<open>Changes of other parts of the state, which \<open>keeps\<close> does not look at.\<close>

lemma keeps_world:
  "keeps a (emit x a)" "keeps a (snd (current_timestamp a))" "keeps a (snd (juice_random n a))"
  "keeps a (snd (random_draws n a))" "keeps a (snd (conn_send dst data ds a))" "keeps a (conn_interrupt a)"
  "keeps a (a\<lparr>ag_state := st\<rparr>)" "keeps a (a\<lparr>ag_mode := m\<rparr>)" "keeps a (a\<lparr>ag_local := l\<rparr>)" "keeps a (a\<lparr>ag_ordered_pairs := os\<rparr>)"
  "keeps a (a\<lparr>ag_pac_timestamp := t\<rparr>)" "keeps a (a\<lparr>ag_nomination_timestamp := t\<rparr>)" "keeps a (a\<lparr>ag_ice_tiebreaker := tb\<rparr>)"
  "keeps a (a\<lparr>ag_gathering_done := g\<rparr>)" "keeps a (a\<lparr>ag_conn_impl := c\<rparr>)" "keeps a (a\<lparr>ag_config := cf\<rparr>)"
  by (simp_all add: keeps_def emit_def current_timestamp_def juice_random_def random_draws_def conn_send_def conn_interrupt_def)

lemma keeps_pairs: "pairs_frame (ag_pairs a) ps \<Longrightarrow> keeps a (a\<lparr>ag_pairs := ps\<rparr>)"
  using paired_frame [of "ag_entries a" "ag_pairs a" "ag_entries a" ps] by (simp add: keeps_def pairs_frame_def)

lemma keeps_entries:
  "entries_frame (ag_entries a) es \<Longrightarrow> length es = length (ag_entries a) \<Longrightarrow> keeps a (a\<lparr>ag_entries := es\<rparr>)"
  using paired_frame by (auto simp: keeps_def)

lemma keeps_remote:
  "ice_ufrag d = ice_ufrag (ag_remote a) \<Longrightarrow> ice_pwd d = ice_pwd (ag_remote a) \<Longrightarrow> keeps a (a\<lparr>ag_remote := d\<rparr>)"
  by (simp add: keeps_def)

lemma keeps_tuple:
  "current_timestamp a = (t, b) \<Longrightarrow> keeps a b" "juice_random n a = (bs, b) \<Longrightarrow> keeps a b"
  "random_draws n a = (ds, b) \<Longrightarrow> keeps a b" "conn_send dst data d a = (r, b) \<Longrightarrow> keeps a b"
  by (auto simp: keeps_def current_timestamp_def juice_random_def random_draws_def conn_send_def emit_def split: if_splits)

text \<open>The same as introduction rules, for nests of updates.\<close>

named_theorems frame_intros \<open>updates that stay within the frame\<close>

lemma keeps_after [frame_intros]:
  "keeps a b \<Longrightarrow> keeps a (emit x b)" "keeps a b \<Longrightarrow> keeps a (conn_interrupt b)"
  "keeps a b \<Longrightarrow> keeps a (b\<lparr>ag_state := st\<rparr>)" "keeps a b \<Longrightarrow> keeps a (b\<lparr>ag_mode := m\<rparr>)"
  "keeps a b \<Longrightarrow> keeps a (b\<lparr>ag_local := l\<rparr>)" "keeps a b \<Longrightarrow> keeps a (b\<lparr>ag_ordered_pairs := os\<rparr>)"
  "keeps a b \<Longrightarrow> keeps a (b\<lparr>ag_pac_timestamp := t\<rparr>)" "keeps a b \<Longrightarrow> keeps a (b\<lparr>ag_nomination_timestamp := t\<rparr>)"
  "keeps a b \<Longrightarrow> keeps a (b\<lparr>ag_ice_tiebreaker := tb\<rparr>)" "keeps a b \<Longrightarrow> keeps a (b\<lparr>ag_gathering_done := g\<rparr>)"
  "keeps a b \<Longrightarrow> keeps a (b\<lparr>ag_conn_impl := c\<rparr>)" "keeps a b \<Longrightarrow> keeps a (b\<lparr>ag_config := cf\<rparr>)"
  by (rule keeps_trans, assumption, rule keeps_world)+

lemma keeps_snd_after [frame_intros]:
  "keeps a b \<Longrightarrow> keeps a (snd (current_timestamp b))" "keeps a b \<Longrightarrow> keeps a (snd (juice_random n b))"
  "keeps a b \<Longrightarrow> keeps a (snd (random_draws n b))" "keeps a b \<Longrightarrow> keeps a (snd (conn_send dst data ds b))"
  by (rule keeps_trans, assumption, rule keeps_world)+

lemma keeps_upd_ent_after [frame_intros]: "keeps a b \<Longrightarrow> (\<And>e. entry_frame e (f e)) \<Longrightarrow> keeps a (upd_ent i f b)"
  using keeps_trans keeps_upd_ent by blast

lemma keeps_upd_pair_after [frame_intros]: "keeps a b \<Longrightarrow> (\<And>q. valid_pair (f q) \<Longrightarrow> valid_pair q) \<Longrightarrow> keeps a (upd_pair i f b)"
  using keeps_trans keeps_upd_pair by blast

subsection \<open>Timers and pairs\<close>

lemma entry_frame_armed: "entry_frame e (armed_entry a e t)"
  by (simp add: armed_entry_def Let_def)

lemma keeps_arm_transmission: "agent_arm_transmission i delay a = Some b \<Longrightarrow> keeps a b"
  unfolding agent_arm_transmission_def
  by (auto simp: Let_def bind_eq_Some_conv entry_frame_armed split: prod.splits
      intro!: frame_intros dest!: keeps_tuple)

lemma keeps_keepalive_period: "keepalive_period i a = (t, b) \<Longrightarrow> keeps a b"
  by (auto simp: keepalive_period_def juice_rand32_def split: agent_stun_entry_type.splits prod.splits dest!: keeps_tuple)

lemma keeps_arm_keepalive:
  assumes "agent_arm_keepalive i a = Some b"
  shows "keeps a b"
proof -
  define a1 where "a1 = (if en_state (ag_entries a ! i) = AGENT_STUN_ENTRY_STATE_SUCCEEDED
    then upd_ent i (\<lambda>e. e\<lparr>en_state := AGENT_STUN_ENTRY_STATE_SUCCEEDED_KEEPALIVE\<rparr>) a else a)"
  have 1: "keeps a a1" unfolding a1_def by (auto intro!: frame_intros)
  obtain t a2 where p: "keepalive_period i a1 = (t, a2)" by (cases "keepalive_period i a1")
  have 2: "keeps a (upd_ent i (\<lambda>e. e\<lparr>en_transaction_id_expired := True\<rparr>) a2)"
    using keeps_trans [OF 1 keeps_keepalive_period [OF p]] by (auto intro!: frame_intros)
  show ?thesis
    using assms 1 keeps_trans [OF 2 keeps_arm_transmission] p
    by (auto simp: agent_arm_keepalive_def Let_def a1_def [symmetric] split: if_splits)
qed

lemma keeps_update_pac_timer [frame_intros]: "keeps a b \<Longrightarrow> keeps a (agent_update_pac_timer b)"
  by (auto simp: agent_update_pac_timer_def split: prod.splits intro!: frame_intros intro: keeps_trans dest!: keeps_tuple)

lemma keeps_update_gathering_done [frame_intros]: "keeps a b \<Longrightarrow> keeps a (agent_update_gathering_done b)"
  by (auto simp: agent_update_gathering_done_def intro!: frame_intros)

lemma keeps_change_state [frame_intros]: "keeps a b \<Longrightarrow> keeps a (agent_change_state st b)"
  by (auto simp: agent_change_state_def intro!: frame_intros)

lemma keeps_update_ordered_pairs [frame_intros]: "keeps a b \<Longrightarrow> keeps a (agent_update_ordered_pairs b)"
  by (auto simp: agent_update_ordered_pairs_def Let_def intro!: frame_intros)

lemma keeps_update_candidate_pairs [frame_intros]:
  assumes "keeps a b"
  shows "keeps a (agent_update_candidate_pairs b)"
proof -
  let ?c = "b\<lparr>ag_pairs := map (\<lambda>p. p\<lparr>pr_priority := pair_priority (ice_update_candidate_pair (deref_pair b p)
      (ag_mode b = AGENT_MODE_CONTROLLING))\<rparr>) (ag_pairs b)\<rparr>"
  have "keeps b ?c" by (rule keeps_pairs [OF pairs_frame_map]) simp
  then have 1: "keeps a (agent_update_ordered_pairs ?c)" using keeps_trans [OF assms] by (intro frame_intros)
  have "keeps c (c\<lparr>ag_entries := map (\<lambda>e. if P e then e\<lparr>en_transaction_id_expired := True\<rparr> else e) (ag_entries c)\<rparr>)" for c P
    by (rule keeps_entries) (auto intro!: entries_frame_map)
  from keeps_trans [OF 1 this] show ?thesis unfolding agent_update_candidate_pairs_def Let_def .
qed

lemma keeps_add_entry: "add_entry e a = Some b \<Longrightarrow> entry_ok e \<Longrightarrow> en_pair e = None \<Longrightarrow> keeps a b"
  by (auto simp: add_entry_def entries_frame_append keeps_def intro: paired_append split: if_splits)

lemma keeps_register_entry:
  assumes "agent_register_entry_for_candidate_pair (length (ag_pairs a)) r a1 = Some b" "keeps a a1"
    and "ag_entries a1 = ag_entries a" "length (ag_pairs a1) = Suc (length (ag_pairs a))"
  shows "keeps a b"
proof -
  obtain e where b: "ag_entries b = ag_entries a1 @ [e]" "ag_pairs b = ag_pairs a1" "ag_remote b = ag_remote a1"
      "ag_selected_pair b = ag_selected_pair a1" "ag_selected_entry b = ag_selected_entry a1"
    and e: "en_pair e = Some (length (ag_pairs a))" "entry_ok e"
    using assms(1) by (auto simp: agent_register_entry_for_candidate_pair_def add_entry_def juice_random_def entry_ok_def
        zero_stun_entry_def split: if_splits)
  have "paired (ag_entries b) (ag_pairs b)" if "paired (ag_entries a) (ag_pairs a)"
    unfolding b assms(3) using e(1) assms(4) by (intro paired_append [OF that]) simp_all
  then show ?thesis
    using assms(2) entries_frame_append [OF e(2), of "ag_entries a"] by (simp add: keeps_def b assms(3))
qed

lemma keeps_arm_after:
  "agent_arm_transmission i delay b = Some c \<Longrightarrow> keeps a b \<Longrightarrow> keeps a c"
  "agent_arm_keepalive i b = Some c \<Longrightarrow> keeps a b \<Longrightarrow> keeps a c"
  using keeps_arm_transmission keeps_arm_keepalive keeps_trans by blast+

lemma keeps_unfreeze: "agent_unfreeze_candidate_pair p a = Some (r, b) \<Longrightarrow> keeps a b"
  by (auto simp: agent_unfreeze_candidate_pair_def bind_eq_Some_conv nominated_valid split: if_splits option.splits
      elim!: keeps_arm_after intro!: frame_intros)

lemma new_pair_invalid: "ice_create_candidate_pair l r c = Some q \<Longrightarrow> pair_state q = ICE_CANDIDATE_PAIR_STATE_FROZEN"
  by (auto simp: ice_create_candidate_pair_def ice_update_candidate_pair_def Let_def split: option.splits if_splits)

lemma keeps_add_candidate_pair:
  assumes "agent_add_candidate_pair l r a = Some (ret, b)"
  shows "keeps a b"
proof (cases "ice_create_candidate_pair (map_option (candidate_at (ag_local a)) l) (Some (candidate_at (ag_remote a) r))
    (ag_mode a = AGENT_MODE_CONTROLLING)")
  case None
  then show ?thesis using assms by (simp add: agent_add_candidate_pair_def)
next
  case (Some pair)
  define new where "new = \<lparr>pr_local = l, pr_remote = r, pr_priority = pair_priority pair, pr_state = pair_state pair,
    pr_nominated = False, pr_nomination_requested = False, pr_consent_expiry = 0\<rparr>"
  define a1 where "a1 = agent_update_ordered_pairs (a\<lparr>ag_pairs := ag_pairs a @ [new]\<rparr>)"
  have "\<not> valid_pair new" using new_pair_invalid [OF Some] by (simp add: new_def valid_pair_def)
  then have 1: "keeps a a1" unfolding a1_def by (intro frame_intros keeps_pairs pairs_frame_append)
  have 2: "keeps a a2" if "agent_register_entry_for_candidate_pair (length (ag_pairs a)) e a1 = Some a2" for e a2
    using keeps_register_entry [OF that 1] by (simp add: a1_def agent_update_ordered_pairs_def Let_def)
  have 3: "keeps a a3" if "agent_register_entry_for_candidate_pair (length (ag_pairs a)) e a1 = Some a2"
    "agent_unfreeze_candidate_pair p' a2 = Some (ret', a3)" for p' e a2 a3 ret'
    using keeps_trans [OF 2 keeps_unfreeze] that by blast
  show ?thesis
    using assms 1 2 3
    by (auto simp: agent_add_candidate_pair_def Some Let_def new_def [symmetric] a1_def [symmetric] bind_eq_Some_conv
        split: if_splits option.splits)
qed

lemma keeps_add_relayed_pairs: "add_relayed_pairs is r a = Some (ret, b) \<Longrightarrow> keeps a b"
proof (induction "is" arbitrary: a)
  case (Cons i "is")
  then show ?case
    by (auto simp: bind_eq_Some_conv Let_def split: if_splits dest!: keeps_add_candidate_pair intro: keeps_trans)
qed simp

lemma keeps_add_pairs_for_remote: "agent_add_candidate_pairs_for_remote r a = Some (ret, b) \<Longrightarrow> keeps a b"
  by (auto simp: agent_add_candidate_pairs_for_remote_def bind_eq_Some_conv split: if_splits
      dest!: keeps_add_candidate_pair keeps_add_relayed_pairs intro: keeps_trans)

subsection \<open>Candidates\<close>

lemma keeps_match_relayed: "match_relayed l r a = Some b \<Longrightarrow> keeps a b"
  by (auto simp: match_relayed_def bind_eq_Some_conv split: if_splits dest!: keeps_add_candidate_pair)

lemma keeps_add_local_relayed: 
  assumes "agent_add_local_relayed_candidate rec a = Some (ret, b)"
  shows "keeps a b"
proof -
  have "keeps a (emit x c)" if "each is (match_relayed l) (a\<lparr>ag_local := d\<rparr>) = Some c" for "is" l d c x
    using keeps_trans [OF keeps_world(9) keeps.each_frame [OF keeps_match_relayed that]] by (intro frame_intros)
  then show ?thesis
    using assms keeps_world(9)
    by (auto simp: agent_add_local_relayed_candidate_def Let_def bind_eq_Some_conv split: if_splits option.splits prod.splits)
qed

lemma keeps_add_local_reflexive [frame_intros]:
  "keeps a b \<Longrightarrow> keeps a (snd (agent_add_local_reflexive_candidate ty rec b))"
  by (auto simp: agent_add_local_reflexive_candidate_def Let_def split: if_splits option.splits prod.splits intro!: frame_intros)

lemma add_candidate_credentials:
  "ice_add_candidate c d = (ret, c', d') \<Longrightarrow> ice_ufrag d' = ice_ufrag d \<and> ice_pwd d' = ice_pwd d"
  by (auto simp: ice_add_candidate_def Let_def split: if_splits)

lemma keeps_add_remote_reflexive:
  assumes "agent_add_remote_reflexive_candidate ty prio rec a = Some (ret, b)"
  shows "keeps a b"
proof -
  have "keeps a c" if "ice_add_candidate cand (ag_remote a) = (r, c', d)"
    "agent_add_candidate_pairs_for_remote i (a\<lparr>ag_remote := d\<lparr>candidates := cs\<rparr>\<rparr>) = Some (ret', c)" for cand r c' d i cs ret' c
    using keeps_trans [OF keeps_remote keeps_add_pairs_for_remote [OF that(2)]] add_candidate_credentials [OF that(1)] by simp
  then show ?thesis
    using assms by (auto simp: agent_add_remote_reflexive_candidate_def Let_def split: if_splits option.splits prod.splits)
qed

subsection \<open>Messages\<close>

lemma keeps_send_message: "send_message dst msg pw ds a = Some (ret, b) \<Longrightarrow> keeps a b"
  by (auto simp: send_message_def bind_eq_Some_conv agent_direct_send_def split: if_splits prod.splits dest!: keeps_tuple)

lemma keeps_send_allocate: "agent_send_turn_allocate_request i m a = Some (ret, b) \<Longrightarrow> keeps a b"
  by (auto simp: agent_send_turn_allocate_request_def Let_def split: if_splits option.splits dest!: keeps_send_message)

lemma keeps_upd_turn [frame_intros]: "keeps a b \<Longrightarrow> keeps a (upd_turn i f b)"
  unfolding upd_turn_def by (rule keeps_upd_ent_after) (auto simp: entry_frame_def)

lemma keeps_send_after: "send_message dst msg pw ds b = Some (ret, c) \<Longrightarrow> keeps a b \<Longrightarrow> keeps a c"
  using keeps_send_message keeps_trans by blast

lemma keeps_tuple_after:
  "current_timestamp b = (t, c) \<Longrightarrow> keeps a b \<Longrightarrow> keeps a c" "juice_random n b = (bs, c) \<Longrightarrow> keeps a b \<Longrightarrow> keeps a c"
  "random_draws n b = (ds, c) \<Longrightarrow> keeps a b \<Longrightarrow> keeps a c" "conn_send dst data d b = (r, c) \<Longrightarrow> keeps a b \<Longrightarrow> keeps a c"
  using keeps_tuple keeps_trans by blast+

lemma keeps_create_permission:
  "agent_send_turn_create_permission_request i rec ds a = Some (ret, b) \<Longrightarrow> keeps a b"
  by (auto simp: agent_send_turn_create_permission_request_def Let_def bind_eq_Some_conv
      split: if_splits option.splits prod.splits dest!: keeps_tuple(3) elim!: keeps_send_after intro!: frame_intros)

lemma keeps_channel_for: "channel_for m rec a = Some (c, m', b) \<Longrightarrow> keeps a b"
  by (auto simp: channel_for_def Let_def bind_eq_Some_conv split: option.splits prod.splits
      dest!: keeps_tuple(3) elim!: keeps_tuple_after)

lemma keeps_channel_bind:
  assumes "agent_send_turn_channel_bind_request i rec ds a = Some (ret, c, b)"
  shows "keeps a b"
proof -
  have "keeps a d" if "channel_for m rec a = Some (Some x, m', a1)"
    "send_message dst msg pw ds (upd_turn i f (snd (random_draws n a1))) = Some (r, d)" for m x m' a1 dst msg pw f n r d
    by (rule keeps_send_after [OF that(2)]) (intro frame_intros keeps_channel_for [OF that(1)])
  moreover have "keeps a (upd_turn i f (snd (random_draws n a1)))" "keeps a (upd_turn i f a1)"
    if "channel_for m rec a = Some (x, m', a1)" for m x m' a1 f n
    by (intro frame_intros keeps_channel_for [OF that])+
  ultimately show ?thesis
    using assms by (auto simp: agent_send_turn_channel_bind_request_def Let_def case_prod_unfold bind_eq_Some_conv
        split: if_splits option.splits)
qed

lemma keeps_relay_send:
  assumes "agent_relay_send i dst data ds a = Some (ret, b)"
  shows "keeps a b"
proof -
  have "keeps a (snd (current_timestamp a))" by (intro frame_intros) simp
  moreover have "keeps a c" if "agent_send_turn_create_permission_request i dst ds (snd (current_timestamp a)) = Some (r, c)" for r c
    using keeps_trans [OF calculation keeps_create_permission [OF that]] .
  ultimately show ?thesis using assms
    by (auto simp: agent_relay_send_def Let_def case_prod_unfold bind_eq_Some_conv agent_direct_send_def prod_eq_iff
        split: if_splits option.splits intro!: frame_intros)
qed

lemma keeps_channel_send:
  assumes "agent_channel_send i rec data ds a = Some (ret, b)"
  shows "keeps a b"
proof -
  have "keeps a (snd (current_timestamp a))" by (intro frame_intros) simp
  moreover have "keeps a c" if "agent_send_turn_channel_bind_request i rec ds (snd (current_timestamp a)) = Some (r, ch, c)" for r ch c
    using keeps_trans [OF calculation keeps_channel_bind [OF that]] .
  ultimately show ?thesis using assms
    by (auto simp: agent_channel_send_def Let_def case_prod_unfold bind_eq_Some_conv agent_direct_send_def prod_eq_iff
        split: if_splits option.splits intro!: frame_intros)
qed

lemma keeps_compose_binding: "compose_binding i cls code tid m a = (x, b) \<Longrightarrow> keeps a b"
  by (auto simp: compose_binding_def Let_def split: if_splits option.splits prod.splits dest!: keeps_tuple(2) intro!: frame_intros)

lemma keeps_send_stun_binding:
  assumes "agent_send_stun_binding i cls code tid m a = Some (ret, b)"
  shows "keeps a b"
proof -
  obtain x a1 where x: "compose_binding i cls code tid m a = (x, a1)" by (cases "compose_binding i cls code tid m a")
  have "keeps a1 b"
    using assms by (auto simp: agent_send_stun_binding_def x Let_def bind_eq_Some_conv split: sum.splits prod.splits option.splits if_splits
        dest!: keeps_send_message keeps_channel_send keeps_relay_send)
  with keeps_compose_binding [OF x] show ?thesis by (rule keeps_trans)
qed

lemma keeps_agent_send: "agent_send data ds a = Some (ret, b) \<Longrightarrow> keeps a b"
  by (auto simp: agent_send_def agent_direct_send_def split: option.splits dest!: keeps_channel_send keeps_tuple(4))

end
