(* ===== verification/Agent_Input.thy ===== *)
theory Agent_Input
  imports Agent_Recv "HOL-Library.Sublist"
begin

text \<open>
  Datagrams inside datagrams.  The payload of a TURN data indication or of channel data is a proper part of
  the datagram that carries it, so that the mutual recursion of \<^verbatim>\<open>agent_input\<close>, \<^verbatim>\<open>agent_dispatch_stun\<close> and
  \<^verbatim>\<open>agent_process_turn_data\<close> ends, and the depth of \<open>agent_input\<close> is never exhausted.
\<close>

subsection \<open>The payload of a message\<close>

lemma take_drop_sublist: "sublist (take n (drop k xs)) xs"
  using sublist_take sublist_drop sublist_order.order_trans by blast

lemma read_data_fields:
  "read_mapped_address msk val msg = Some (Some m) \<Longrightarrow> msg_data m = msg_data msg"
  "read_alternate_server val msg = Some (Some m) \<Longrightarrow> msg_data m = msg_data msg"
  "read_relayed_address val msg = Some (Some m) \<Longrightarrow> msg_data m = msg_data msg"
  "read_peer_address val msg = Some (Some m) \<Longrightarrow> msg_data m = msg_data msg"
  "read_error_code val msg = Some (Some m) \<Longrightarrow> msg_data m = msg_data msg"
  "read_unknown_attributes val msg = Some (Some m) \<Longrightarrow> msg_data m = msg_data msg"
  "read_username val msg = Some (Some m) \<Longrightarrow> msg_data m = msg_data msg"
  "read_integrity sz val msg = Some (Some m) \<Longrightarrow> msg_data m = msg_data msg"
  "read_fingerprint buf pos val msg = Some (Some m) \<Longrightarrow> msg_data m = msg_data msg"
  "read_realm val msg = Some (Some m) \<Longrightarrow> msg_data m = msg_data msg"
  "read_nonce val msg sb = Some (Some (m, sb')) \<Longrightarrow> msg_data m = msg_data msg"
  "read_password_algorithm val msg = Some (Some m) \<Longrightarrow> msg_data m = msg_data msg"
  "read_userhash val msg = Some (Some m) \<Longrightarrow> msg_data m = msg_data msg"
  "read_software val msg = Some (Some m) \<Longrightarrow> msg_data m = msg_data msg"
  "read_priority val msg = Some (Some m) \<Longrightarrow> msg_data m = msg_data msg"
  "read_ice_controlling val msg = Some (Some m) \<Longrightarrow> msg_data m = msg_data msg"
  "read_ice_controlled val msg = Some (Some m) \<Longrightarrow> msg_data m = msg_data msg"
  "read_channel_number val msg = Some (Some m) \<Longrightarrow> msg_data m = msg_data msg"
  "read_lifetime val msg = Some (Some m) \<Longrightarrow> msg_data m = msg_data msg"
  "read_even_port val msg = Some (Some m) \<Longrightarrow> msg_data m = msg_data msg"
  "read_requested_transport val msg = Some (Some m) \<Longrightarrow> msg_data m = msg_data msg"
  "read_reservation_token val msg = Some (Some m) \<Longrightarrow> msg_data m = msg_data msg"
  by (auto simp: read_mapped_address_def read_alternate_server_def read_relayed_address_def read_peer_address_def
      read_error_code_def read_unknown_attributes_def read_username_def read_integrity_def read_fingerprint_def read_realm_def
      read_nonce_def read_password_algorithm_def read_userhash_def read_software_def
      read_priority_def read_ice_controlling_def read_ice_controlled_def read_channel_number_def read_lifetime_def
      read_even_port_def read_requested_transport_def read_reservation_token_def Let_def bind_eq_Some_conv
      split: if_splits option.splits prod.splits)

lemma read_password_algorithms_data: "read_password_algorithms val msg = Some (Some m) \<Longrightarrow> msg_data m = msg_data msg"
  unfolding read_password_algorithms_def Let_def by (fastforce simp: bind_eq_Some_conv split: if_splits option.split_asm)

lemma keep_bits_eq: "keep_bits sb r = Some (Some (m, sb')) \<longleftrightarrow> r = Some (Some m) \<and> sb' = sb"
  by (auto simp: keep_bits_def)

lemma read_attr_value_data:
  assumes "read_attr_value buf pos type val msg sb = Some (Some (m, sb'))"
  shows "msg_data m = msg_data msg \<or> msg_data m = Some val"
  using assms unfolding read_attr_value_def by (auto simp: keep_bits_eq split: if_splits dest: read_data_fields read_password_algorithms_data)

text \<open>The data of a message are a proper part of the datagram.\<close>

definition data_within :: "bytes \<Rightarrow> stun_message \<Rightarrow> bool" where
  "data_within buf msg \<longleftrightarrow> (\<forall>d. msg_data msg = Some d \<longrightarrow> sublist d buf \<and> length d < length buf)"

lemma ld_within: "ld buf k n = Some v \<Longrightarrow> 0 < k \<Longrightarrow> sublist v buf \<and> length v < length buf"
  using take_drop_sublist by (auto simp: ld_def split: if_splits)

lemma read_attr_data:
  assumes "stun_read_attr buf pos sz msg sb = Some (Some (n, m, sb'))" "data_within buf msg"
  shows "data_within buf m"
proof -
  consider "m = msg"
    | len val type where "ld buf (pos + STUN_ATTR_SIZE) len = Some val" "read_attr_value buf pos type val msg sb = Some (Some (m, sb'))"
    using assms(1) by (auto simp: stun_read_attr_def Let_def bind_eq_Some_conv split: if_splits option.splits)
  then show ?thesis
  proof cases
    case 2
    show ?thesis using ld_within [OF 2(1)] read_attr_value_data [OF 2(2)] assms(2) by (auto simp: data_within_def stun_sizes)
  qed (use assms(2) in simp)
qed

lemma read_loop_data:
  "stun_read_loop buf fin pos msg sb = Some (Some (m, sb')) \<Longrightarrow> data_within buf msg \<Longrightarrow> data_within buf m"
proof (induction buf fin pos msg sb rule: stun_read_loop.induct)
  case (1 buf fin pos msg sb)
  show ?case
  proof (cases "pos < fin")
    case True
    with 1(2) obtain n m1 sb1 where r: "stun_read_attr buf pos (fin - pos) msg sb = Some (Some (n, m1, sb1))" "n \<noteq> 0"
      "stun_read_loop buf fin (pos + n) m1 sb1 = Some (Some (m, sb'))"
      by (subst (asm) stun_read_loop.simps) (auto split: option.splits if_splits)
    show ?thesis using 1(1) [OF True r(1) _ _ _ r(2)] r(3) read_attr_data [OF r(1) 1(3)] by simp
  next
    case False
    then show ?thesis using 1(2,3) by (simp add: stun_read_loop.simps)
  qed
qed

lemma stun_read_data:
  assumes "stun_read buf = Some (Some (n, msg))" "msg_data msg = Some d"
  shows "sublist d buf \<and> length d < length buf"
proof -
  have c: "msg_data (check_anonymity sb (check_request_algorithms (check_error_response sb m))) = msg_data m" for sb m
    by (simp add: check_anonymity_def check_request_algorithms_def check_error_response_def Let_def)
  have h: "data_within buf (read_header type tid)" for type tid
    by (simp add: data_within_def read_header_def zero_message_def)
  obtain len type tid m sb where r: "stun_read_loop buf len STUN_HEADER_SIZE (read_header type tid) 0 = Some (Some (m, sb))"
      "msg_data msg = msg_data m"
    using assms(1) by (auto simp: stun_read_def Let_def bind_eq_Some_conv stun_sizes c split: if_splits option.splits)
  show ?thesis using read_loop_data [OF r(1) h] r(2) assms(2) by (simp add: data_within_def)
qed

subsection \<open>The recursion ends\<close>

lemma turn_data_cong:
  assumes "\<And>d src via. length d < length buf \<Longrightarrow> f d src via a = g d src via a" "stun_read buf = Some (Some (n, msg))"
  shows "agent_process_turn_data f i msg a = agent_process_turn_data g i msg a"
  using assms stun_read_data [OF assms(2)] by (auto simp: agent_process_turn_data_def split: option.split list.split)

lemma channel_data_cong:
  assumes "\<And>d src via. length d < length buf \<Longrightarrow> f d src via a = g d src via a"
  shows "agent_process_channel_data f i buf a = agent_process_channel_data g i buf a"
proof (cases "length buf < 4")
  case False
  then have "f (take n (drop 4 buf)) src via a = g (take n (drop 4 buf)) src via a" for n src via by (intro assms) auto
  then show ?thesis by (simp only: agent_process_channel_data_def Let_def)
qed (simp add: agent_process_channel_data_def)

lemma input_with_cong:
  assumes "\<And>d src via a. length d < length buf \<Longrightarrow> f d src via a = g d src via a"
  shows "agent_input_with f buf src via a = agent_input_with g buf src via a"
proof -
  have "agent_dispatch_stun f buf msg src via a = agent_dispatch_stun g buf msg src via a" if "stun_read buf = Some (Some (n, msg))" for n msg
  proof -
    have "handle_stun f i buf msg src via = handle_stun g i buf msg src via" for i
      by (rule ext) (simp only: handle_stun_def turn_data_cong [of buf f _ g, OF assms that])
    then show ?thesis by (simp only: agent_dispatch_stun_def)
  qed
  moreover have "agent_process_channel_data f i buf a = agent_process_channel_data g i buf a" for i
    using channel_data_cong assms by blast
  ultimately show ?thesis
    unfolding agent_input_with_def
    by (intro if_cong refl Option.bind_cong) (auto split: option.split agent_stun_entry_type.split)
qed

lemma input_depth_enough: "length buf < m \<Longrightarrow> length buf < n \<Longrightarrow> input_depth m buf src via a = input_depth n buf src via a"
proof (induction m arbitrary: n buf src via a)
  case (Suc m)
  then obtain n' where n: "n = Suc n'" by (cases n) auto
  have "input_depth m d src via a = input_depth n' d src via a" if "length d < length buf" for d src via a
    using Suc that n by (intro Suc.IH) auto
  then show ?case unfolding n input_depth.simps by (rule input_with_cong)
qed simp

text \<open>Received datagrams are processed in finitely many steps: \<^verbatim>\<open>agent_input\<close> is the function that calls itself for the payload of a
  data indication or of channel data, to any depth.
\<close>

theorem agent_input_recursion: "agent_input buf src via a = agent_input_with agent_input buf src via a"
proof -
  have "input_depth (length buf) d src via a = agent_input d src via a" if "length d < length buf" for d src via a
    unfolding agent_input_def using that by (intro input_depth_enough) auto
  then show ?thesis unfolding agent_input_def input_depth.simps by (rule input_with_cong [unfolded agent_input_def])
qed

end
