(* ===== verification/Agent_Verify.thy ===== *)
theory Agent_Verify
  imports Agent_Frame Agent_Input
begin

text \<open>
  Only an authenticated answer makes a candidate pair valid.  Every operation on a received datagram stays within the
  frame, except for a success response with the integrity of the peer's password, to a request of the pair's own
  entry and from the address that entry checks.
\<close>

subsection \<open>Received messages within the frame\<close>

lemma keeps_switch_role [frame_intros]: "keeps a b \<Longrightarrow> keeps a (switch_role m b)"
  unfolding switch_role_def by (intro frame_intros)

lemma keeps_fail_check [frame_intros]: "keeps a b \<Longrightarrow> keeps a (fail_check i p b)"
  by (auto simp: fail_check_def Let_def nominated_valid split: option.split intro!: frame_intros)

lemma keeps_note_nomination: "note_nomination i a = Some b \<Longrightarrow> keeps a b"
  by (auto simp: note_nomination_def bind_eq_Some_conv valid_pair_def intro!: frame_intros split: if_splits)

lemma keeps_triggered_check: "triggered_check i a = Some b \<Longrightarrow> keeps a b"
  by (auto simp: triggered_check_def bind_eq_Some_conv nominated_valid split: if_splits elim!: keeps_arm_after intro!: frame_intros)

lemma keeps_reply_error: "reply_error i code msg ret a = Some (ret', b) \<Longrightarrow> keeps a b"
  by (auto simp: reply_error_def bind_eq_Some_conv dest!: keeps_send_stun_binding)

lemma keeps_binding_request:
  assumes "process_binding_request i msg src a = Some (ret, b)"
  shows "keeps a b"
proof -
  have "keeps a b" if "agent_send_stun_binding i cls code tid m a1 = Some (r, a2)" "keeps a a1" "b = a2 \<or> triggered_check i a2 = Some b"
    for cls code tid m a1 r a2
    using keeps_trans [OF that(2) keeps_send_stun_binding [OF that(1)]] that(3) keeps_triggered_check keeps_trans by blast
  then show ?thesis
    using assms keeps_reply_error keeps_note_nomination
    by (fastforce simp: process_binding_request_def bind_eq_Some_conv split: if_splits intro!: frame_intros)
qed

lemma keeps_entry_succeeded: "entry_succeeded i a = Some b \<Longrightarrow> keeps a b"
  by (auto simp: entry_succeeded_def Let_def split: if_splits elim!: keeps_arm_after(2) intro!: frame_intros)

lemma keeps_binding_error: "process_binding_error i msg a = Some (ret, b) \<Longrightarrow> keeps a b"
  by (auto simp: process_binding_error_def Let_def case_prod_unfold bind_eq_Some_conv split: if_splits
      elim!: keeps_arm_after(1) intro!: frame_intros)

lemma keeps_fail_allocation [frame_intros]: "keeps a b \<Longrightarrow> keeps a (fail_allocation i b)"
  unfolding fail_allocation_def by (intro frame_intros) simp_all

lemma keeps_retry: "retry_with_credentials i msg a = Some (ret, b) \<Longrightarrow> keeps a b"
  by (auto simp: retry_with_credentials_def bind_eq_Some_conv split: if_splits elim!: keeps_arm_after(1) intro!: frame_intros)

lemma keeps_allocate_success:
  assumes "process_allocate_success i msg a = Some (ret, b)"
  shows "keeps a b"
proof -
  have "keeps a c" if "entry_succeeded i a = Some a1"
    "agent_add_local_relayed_candidate rec (upd_ent i (en_relayed_update f) a2) = Some (r, c)"
    "a2 = a1 \<or> a2 = snd (agent_add_local_reflexive_candidate ty rec' a1)" for a1 rec f a2 ty rec' r c
  proof (rule keeps_trans [OF _ keeps_add_local_relayed [OF that(2)]])
    have "entry_frame e (en_relayed_update f e)" for e by (simp add: entry_frame_def)
    then show "keeps a (upd_ent i (en_relayed_update f) a2)"
      using that(3) keeps_entry_succeeded [OF that(1)] by (auto intro!: frame_intros)
  qed
  then show ?thesis
    using assms by (fastforce simp: process_allocate_success_def Let_def bind_eq_Some_conv split: if_splits intro!: frame_intros)
qed

lemma entry_frame_redirect:
  "en_type e \<noteq> AGENT_STUN_ENTRY_TYPE_CHECK \<Longrightarrow> entry_frame e (e\<lparr>en_turn_redirections := n, en_record := r\<rparr>)"
  by (simp add: entry_frame_def)

lemma keeps_upd_ent_at:
  assumes "entry_frame (ag_entries a ! i) (f (ag_entries a ! i))"
  shows "keeps a (upd_ent i f a)"
  unfolding upd_ent_def
  using assms by (intro keeps_entries) (cases "i < length (ag_entries a)", auto simp: entries_frame_def nth_list_update)

lemma keeps_allocate_error:
  assumes "process_allocate_error i t msg a = Some (ret, b)" "en_type (ag_entries a ! i) = AGENT_STUN_ENTRY_TYPE_RELAY"
  shows "keeps a b"
proof -
  have "keeps a (upd_ent i (\<lambda>e. e\<lparr>en_turn_redirections := Suc (en_turn_redirections e), en_record := r\<rparr>) a)" for r
    by (rule keeps_upd_ent_at) (simp add: entry_frame_def assms(2))
  then show ?thesis
    using assms(1) by (auto simp: process_allocate_error_def bind_eq_Some_conv split: if_splits
        dest!: keeps_retry elim!: keeps_arm_after(1) intro!: keeps_fail_allocation)
qed

lemma keeps_turn_allocate: "agent_process_turn_allocate i msg a = Some (ret, b) \<Longrightarrow> keeps a b"
  by (auto simp: agent_process_turn_allocate_def split: if_splits option.splits
      dest!: keeps_allocate_success keeps_allocate_error)

lemma keeps_turn_response:
  assumes "process_turn_response confirm resend i msg a = Some (ret, b)"
    and "\<And>r c d. resend r c = Some d \<Longrightarrow> keeps c d"
  shows "keeps a b"
proof -
  have "keeps a d" if "resend r (upd_turn i f a) = Some d" for r f d
    by (rule keeps_trans [OF _ assms(2) [OF that]]) (intro frame_intros keeps_refl)
  then show ?thesis
    using assms(1) by (auto simp: process_turn_response_def Let_def case_prod_unfold bind_eq_Some_conv split: if_splits option.splits
        intro!: frame_intros)
qed

lemma keeps_turn_create_permission: "agent_process_turn_create_permission i msg a = Some (ret, b) \<Longrightarrow> keeps a b"
  unfolding agent_process_turn_create_permission_def
  by (erule keeps_turn_response) (auto dest!: keeps_create_permission)

lemma keeps_turn_channel_bind: "agent_process_turn_channel_bind i msg a = Some (ret, b) \<Longrightarrow> keeps a b"
  unfolding agent_process_turn_channel_bind_def
  by (erule keeps_turn_response) (auto dest!: keeps_channel_bind)

lemma keeps_admit: "admit_binding buf msg src a = Some (Some b) \<Longrightarrow> keeps a b"
  by (auto simp: admit_binding_def bind_eq_Some_conv split: if_splits dest!: keeps_add_remote_reflexive)

text \<open>An entry found by its transaction id has that id, or a TURN map that has.\<close>

lemma find_by_id_found:
  assumes "find_by_id is tid a = Some (r, b)"
  shows "keeps a b \<and> (\<forall>i. r = Some i \<longrightarrow> i \<in> set is
    \<and> (memcmp tid (en_transaction_id (ag_entries b ! i)) = 0 \<or> en_turn (ag_entries a ! i) \<noteq> None))"
  using assms
proof (induction "is" arbitrary: a)
  case (Cons i "is")
  show ?case
  proof (cases "memcmp tid (en_transaction_id (ag_entries a ! i)) = 0 \<or> en_turn (ag_entries a ! i) = None")
    case True
    then show ?thesis using Cons by (auto split: if_splits)
  next
    case False
    then obtain t where t: "en_turn (ag_entries a ! i) = Some t" by auto
    with Cons.prems False obtain found m where
      m: "found = (None :: addr_record option) \<or> r = Some i \<and> b = upd_turn i (\<lambda>t. t\<lparr>ts_map := m\<rparr>) a"
        "found \<noteq> None \<or> find_by_id is tid (upd_turn i (\<lambda>t. t\<lparr>ts_map := m\<rparr>) a) = Some (r, b)"
      by (auto simp: bind_eq_Some_conv Let_def split: if_splits)
    let ?c = "upd_turn i (\<lambda>t. t\<lparr>ts_map := m\<rparr>) a"
    have k: "keeps a ?c" by (intro frame_intros) simp
    have n: "en_turn (ag_entries (upd_turn i f a) ! j) = None \<longleftrightarrow> en_turn (ag_entries a ! j) = None" for j f
      by (cases "i < length (ag_entries a)") (auto simp: upd_turn_def upd_ent_def nth_list_update list_update_beyond)
    show ?thesis
    proof (cases found)
      case None
      then have "find_by_id is tid ?c = Some (r, b)" using m(2) by simp
      from Cons.IH [OF this] show ?thesis using keeps_trans [OF k] n by auto
    next
      case (Some x)
      then have "r = Some i" "b = ?c" using m(1) by auto
      then show ?thesis using k t by simp
    qed
  qed
qed auto

subsection \<open>Confirmations\<close>

text \<open>\<open>confirms pwd buf src p b\<close>: the datagram is a success response with the integrity of \<open>pwd\<close>, to the request of an entry
  that checks pair \<open>p\<close>, and came from the address that entry checks.\<close>

definition confirms :: "bytes \<Rightarrow> bytes \<Rightarrow> addr_record \<Rightarrow> nat \<Rightarrow> juice_agent \<Rightarrow> bool" where
  "confirms pwd buf src p b \<longleftrightarrow> (\<exists>n msg i. stun_read buf = Some (Some (n, msg))
     \<and> msg_method msg = STUN_METHOD_BINDING \<and> msg_class msg = STUN_CLASS_RESP_SUCCESS
     \<and> pwd \<noteq> [] \<and> stun_check_integrity buf msg (Some pwd) = Some True
     \<and> i < length (ag_entries b) \<and> en_type (ag_entries b ! i) = AGENT_STUN_ENTRY_TYPE_CHECK \<and> en_pair (ag_entries b ! i) = Some p
     \<and> memcmp (transaction_id msg) (en_transaction_id (ag_entries b ! i)) = 0
     \<and> addr_record_is_equal src (en_record (ag_entries b ! i)) True)"

text \<open>Like \<open>keeps\<close>, but the given pairs may have become valid.\<close>

definition keeps_but :: "nat set \<Rightarrow> juice_agent \<Rightarrow> juice_agent \<Rightarrow> bool" where
  "keeps_but N a b \<longleftrightarrow> entries_frame (ag_entries a) (ag_entries b) \<and> length (ag_pairs a) \<le> length (ag_pairs b)
     \<and> (\<forall>p < length (ag_pairs b). valid_pair (ag_pairs b ! p) \<longrightarrow>
          p \<in> N \<or> p < length (ag_pairs a) \<and> valid_pair (ag_pairs a ! p))
     \<and> ag_selected_entry b = ag_selected_entry a \<and> ag_selected_pair b = ag_selected_pair a
     \<and> ice_ufrag (ag_remote b) = ice_ufrag (ag_remote a) \<and> ice_pwd (ag_remote b) = ice_pwd (ag_remote a)
     \<and> (paired (ag_entries a) (ag_pairs a) \<longrightarrow> paired (ag_entries b) (ag_pairs b))"

lemma keeps_but_empty: "keeps_but {} a b \<longleftrightarrow> keeps a b"
  by (auto simp: keeps_but_def keeps_def pairs_frame_def)

lemma keeps_but_mono: "keeps a b \<Longrightarrow> keeps_but N a b"
  by (auto simp: keeps_but_def keeps_def pairs_frame_def)

lemma keeps_but_trans: "keeps a b \<Longrightarrow> keeps_but N b c \<Longrightarrow> keeps_but N a c"
  using entries_frame_trans [of "ag_entries a" "ag_entries b" "ag_entries c"]
  by (auto simp: keeps_but_def keeps_def pairs_frame_def)

definition entries_ok :: "juice_agent \<Rightarrow> bool" where
  "entries_ok a \<longleftrightarrow> (\<forall>i < length (ag_entries a). entry_ok (ag_entries a ! i))"

lemma entries_ok_frame:
  assumes "entries_frame (ag_entries a) (ag_entries b)" "entries_ok a"
  shows "entries_ok b"
  unfolding entries_ok_def
proof (intro allI impI)
  fix i assume "i < length (ag_entries b)"
  then show "entry_ok (ag_entries b ! i)"
    using assms entry_frame_ok by (cases "i < length (ag_entries a)") (auto simp: entries_frame_def entries_ok_def)
qed

lemma keeps_entries_ok: "keeps a b \<Longrightarrow> entries_ok a \<Longrightarrow> entries_ok b"
  using entries_ok_frame by (auto simp: keeps_def)

text \<open>What a success response leaves of the entries.\<close>

lemma upd_ent_ids:
  assumes "\<And>e. en_transaction_id (f e) = en_transaction_id e"
  shows "map en_transaction_id (ag_entries (upd_ent i f a)) = map en_transaction_id (ag_entries a)"
proof (cases "i < length (ag_entries a)")
  case True
  then show ?thesis using list_update_id [of "map en_transaction_id (ag_entries a)" i] by (simp add: upd_ent_def map_update assms)
qed (simp add: upd_ent_def list_update_beyond)

lemma arm_transmission_ids:
  assumes "agent_arm_transmission i d a = Some b"
  shows "map en_transaction_id (ag_entries b) = map en_transaction_id (ag_entries a)"
proof -
  have "en_transaction_id (armed_entry c e t) = en_transaction_id e" for c e t by (simp add: armed_entry_def Let_def)
  then show ?thesis
    using assms by (auto simp: agent_arm_transmission_def Let_def case_prod_unfold bind_eq_Some_conv upd_ent_ids current_timestamp_def)
qed

lemma keepalive_period_entries: "ag_entries (snd (keepalive_period i a)) = ag_entries a"
  by (auto simp: keepalive_period_def juice_rand32_def juice_random_def Let_def split: agent_stun_entry_type.split)

lemma arm_keepalive_ids:
  "agent_arm_keepalive i a = Some b \<Longrightarrow> map en_transaction_id (ag_entries b) = map en_transaction_id (ag_entries a)"
  by (auto simp: agent_arm_keepalive_def Let_def case_prod_unfold upd_ent_ids keepalive_period_entries
      dest!: arm_transmission_ids split: if_splits)

lemma entry_succeeded_ids:
  "entry_succeeded i a = Some b \<Longrightarrow> map en_transaction_id (ag_entries b) = map en_transaction_id (ag_entries a)"
  by (auto simp: entry_succeeded_def Let_def upd_ent_ids dest!: arm_keepalive_ids split: if_splits)

lemma add_local_reflexive_entries: "ag_entries (snd (agent_add_local_reflexive_candidate ty rec a)) = ag_entries a"
  by (simp add: agent_add_local_reflexive_candidate_def Let_def emit_def split: option.split prod.split)

lemma keeps_but_upd_pair:
  assumes "keeps_but N a b" "p \<in> N"
  shows "keeps_but N a (upd_pair p f b)"
  unfolding keeps_but_def
proof (intro conjI allI impI)
  fix q assume q: "q < length (ag_pairs (upd_pair p f b))" "valid_pair (ag_pairs (upd_pair p f b) ! q)"
  show "q \<in> N \<or> q < length (ag_pairs a) \<and> valid_pair (ag_pairs a ! q)"
  proof (cases "q = p")
    case False
    then show ?thesis using q assms(1) by (auto simp: upd_pair_def keeps_but_def)
  qed (use assms(2) in simp)
qed (use assms(1) in \<open>auto simp: keeps_but_def upd_pair_def paired_def\<close>)

lemma pair_succeeded_frame: "keeps_but {p} a (pair_succeeded p msg a)"
proof -
  have "keeps_but {p} a (snd (current_timestamp b))" if "keeps_but {p} a b" for b
    using that by (simp add: keeps_but_def current_timestamp_def)
  then show ?thesis
    using keeps_but_upd_pair [of "{p}" a _ p] keeps_but_mono [OF keeps_refl, of "{p}" a]
    unfolding pair_succeeded_def Let_def case_prod_unfold by simp
qed

lemma pair_succeeded_entries: "ag_entries (pair_succeeded p msg a) = ag_entries a"
  by (simp add: pair_succeeded_def Let_def current_timestamp_def upd_pair_def)

text \<open>A pair that is valid already stays so.\<close>

lemma pair_succeeded_again:
  assumes "pr_state (ag_pairs a ! p) = ICE_CANDIDATE_PAIR_STATE_SUCCEEDED"
  shows "keeps a (pair_succeeded p msg a)"
proof -
  have "valid_pair (ag_pairs a ! p)" using assms by (simp add: valid_pair_def)
  moreover have "length (ag_pairs (pair_succeeded p msg a)) = length (ag_pairs a)"
    by (simp add: pair_succeeded_def Let_def upd_pair_def current_timestamp_def)
  ultimately show ?thesis using pair_succeeded_frame [of p a msg] by (auto simp: keeps_but_def keeps_def pairs_frame_def)
qed

text \<open>A success response keeps the frame, or makes the pair of its entry valid when it came from the right address.\<close>

lemma binding_success_cases:
  assumes "process_binding_success i msg src via a = Some (ret, b)"
  obtains "keeps a b"
  | p where "keeps_but {p} a b" "en_type (ag_entries b ! i) = AGENT_STUN_ENTRY_TYPE_CHECK" "en_pair (ag_entries b ! i) = Some p"
    "addr_record_is_equal src (en_record (ag_entries b ! i)) True"
    "map en_transaction_id (ag_entries b) = map en_transaction_id (ag_entries a)"
proof -
  obtain a1 where a1: "entry_succeeded i a = Some a1" using assms by (auto simp: process_binding_success_def bind_eq_Some_conv)
  define a2 where "a2 = (if ar_len (mapped msg) \<noteq> 0 \<and> via = None
    then snd (agent_add_local_reflexive_candidate (if en_type (ag_entries a1 ! i) = AGENT_STUN_ENTRY_TYPE_CHECK
      then ICE_CANDIDATE_TYPE_PEER_REFLEXIVE else ICE_CANDIDATE_TYPE_SERVER_REFLEXIVE) (mapped msg) a1) else a1)"
  have k: "keeps a a2" unfolding a2_def using keeps_entry_succeeded [OF a1] by (auto intro!: frame_intros)
  have e: "ag_entries a2 = ag_entries a1" by (simp add: a2_def add_local_reflexive_entries)
  note ids = entry_succeeded_ids [OF a1]
  have b': "(if en_type (ag_entries a1 ! i) = AGENT_STUN_ENTRY_TYPE_CHECK
      then Some (case en_pair (ag_entries a2 ! i) of None \<Rightarrow> (-1, a2)
        | Some p \<Rightarrow> if pr_state (ag_pairs a2 ! p) \<noteq> ICE_CANDIDATE_PAIR_STATE_SUCCEEDED
                     \<and> \<not> addr_record_is_equal src (en_record (ag_entries a2 ! i)) True
                   then (0, fail_check i (Some p) a2) else (0, pair_succeeded p msg a2))
      else if en_type (ag_entries a1 ! i) = AGENT_STUN_ENTRY_TYPE_SERVER then Some (0, agent_update_gathering_done a2)
      else Some (0, a2)) = Some (ret, b)"
    using assms unfolding process_binding_success_def a1 bind.bind_lunit Let_def a2_def .
  show ?thesis
  proof (cases "en_type (ag_entries a2 ! i) = AGENT_STUN_ENTRY_TYPE_CHECK")
    case False
    then have "b = a2 \<or> b = agent_update_gathering_done a2"
      using b' by (auto simp: e split: if_splits)
    then have "keeps a b" using k by (auto intro!: frame_intros)
    then show ?thesis by (rule that(1))
  next
    case check: True
    then have b: "(ret, b) = (case en_pair (ag_entries a2 ! i) of None \<Rightarrow> (-1, a2)
        | Some p \<Rightarrow> if pr_state (ag_pairs a2 ! p) \<noteq> ICE_CANDIDATE_PAIR_STATE_SUCCEEDED
                     \<and> \<not> addr_record_is_equal src (en_record (ag_entries a2 ! i)) True
                   then (0, fail_check i (Some p) a2) else (0, pair_succeeded p msg a2))"
      using b' by (simp add: e)
    show ?thesis
    proof (cases "en_pair (ag_entries a2 ! i)")
      case None
      then show ?thesis using b k that(1) by simp
    next
      case (Some p)
      consider "b = fail_check i (Some p) a2"
        | "b = pair_succeeded p msg a2" "pr_state (ag_pairs a2 ! p) = ICE_CANDIDATE_PAIR_STATE_SUCCEEDED"
        | "b = pair_succeeded p msg a2" "addr_record_is_equal src (en_record (ag_entries a2 ! i)) True"
        using b Some by (auto split: if_splits)
      then show ?thesis
      proof cases
        case 1
        then show ?thesis using that(1) keeps_fail_check [OF k] by blast
      next
        case 2
        then show ?thesis using that(1) keeps_trans [OF k pair_succeeded_again] by blast
      next
        case 3
        then show ?thesis
          using that(2) [of p] keeps_but_trans [OF k pair_succeeded_frame [of p a2 msg]] check Some ids e
          by (simp add: pair_succeeded_entries)
      qed
    qed
  qed
qed

text \<open>\<open>carries a d src via buf src'\<close>: what agent \<open>a\<close> takes the datagram \<open>d\<close> from \<open>src\<close> to bring: itself, or what is in a data
  indication or in channel data that came from one of its relays, whose sender is then the peer that the relay names.\<close>

inductive carries :: "juice_agent \<Rightarrow> bytes \<Rightarrow> addr_record \<Rightarrow> addr_record option \<Rightarrow> bytes \<Rightarrow> addr_record \<Rightarrow> bool" for a where
  whole: "carries a buf src via buf src"
| relayed_data: "carries a buf src via buf' src'"
    if "stun_read buf = Some (Some (n, msg))" "msg_method msg = STUN_METHOD_DATA" "msg_class msg = STUN_CLASS_INDICATION"
      "agent_find_entry_from_record src via a = Some i" "en_type (ag_entries a ! i) = AGENT_STUN_ENTRY_TYPE_RELAY"
      "msg_data msg = Some data" "peers msg = peer # ps"
      "carries a data peer (Some (en_relayed (ag_entries a ! i))) buf' src'"
| channel_data: "carries a buf src via buf' src'"
    if "is_stun_datagram buf = Some False" "is_channel_data buf"
      "agent_find_entry_from_record src via a = Some i" "en_type (ag_entries a ! i) = AGENT_STUN_ENTRY_TYPE_RELAY"
      "4 + unat (rd16 (drop 2 buf)) \<le> length buf"
      "en_turn (ag_entries a ! i) = Some t" "turn_find_channel (ts_map t) (rd16 buf) = Some (Some peer)"
      "carries a (take (unat (rd16 (drop 2 buf))) (drop 4 buf)) peer (Some (en_relayed (ag_entries a ! i))) buf' src'"

text \<open>What a datagram may do to the pairs: nothing, or the confirmation of one of them by what it carries.\<close>

definition confirmed_by :: "bytes \<Rightarrow> addr_record \<Rightarrow> juice_agent \<Rightarrow> juice_agent \<Rightarrow> bool" where
  "confirmed_by buf src a b \<longleftrightarrow> keeps a b \<or> (\<exists>p. confirms (ice_pwd (ag_remote a)) buf src p b \<and> keeps_but {p} a b)"

definition confirmed :: "bytes \<Rightarrow> addr_record \<Rightarrow> addr_record option \<Rightarrow> juice_agent \<Rightarrow> juice_agent \<Rightarrow> bool" where
  "confirmed d src via a b \<longleftrightarrow> (\<exists>buf src'. carries a d src via buf src' \<and> confirmed_by buf src' a b)"

lemma confirmed_direct: "confirmed_by buf src a b \<Longrightarrow> confirmed buf src via a b"
  unfolding confirmed_def using carries.whole by blast

lemma keeps_confirmed_by: "keeps a b \<Longrightarrow> confirmed_by buf src a b"
  by (simp add: confirmed_by_def)

lemma keeps_confirmed: "keeps a b \<Longrightarrow> confirmed buf src via a b"
  by (intro confirmed_direct keeps_confirmed_by)

lemma confirmed_by_after: "keeps a b \<Longrightarrow> confirmed_by buf src b c \<Longrightarrow> confirmed_by buf src a c"
  unfolding confirmed_by_def by (metis keeps_trans keeps_but_trans keeps_def)

lemma find_entry_found:
  assumes "agent_find_entry_from_transaction_id tid a = Some (Some i, b)" "entries_ok a"
  shows "i < length (ag_entries b)
    \<and> (en_type (ag_entries b ! i) = AGENT_STUN_ENTRY_TYPE_CHECK \<longrightarrow> memcmp tid (en_transaction_id (ag_entries b ! i)) = 0)"
proof -
  have f: "find_by_id [0..<length (ag_entries a)] tid a = Some (Some i, b)"
    using assms(1) by (simp add: agent_find_entry_from_transaction_id_def)
  note k = find_by_id_found [OF f]
  then have i: "i < length (ag_entries a)" by auto
  then have "entry_ok (ag_entries a ! i)" "entry_frame (ag_entries a ! i) (ag_entries b ! i)" "length (ag_entries a) \<le> length (ag_entries b)"
    using assms(2) k by (auto simp: entries_ok_def keeps_def entries_frame_def)
  then show ?thesis using i k by (auto simp: entry_ok_def entry_frame_def)
qed

lemma success_confirms:
  assumes "process_binding_success i msg src via a = Some (ret, b)"
    and "stun_read buf = Some (Some (n, msg))" "msg_method msg = STUN_METHOD_BINDING" "msg_class msg = STUN_CLASS_RESP_SUCCESS"
    and "i < length (ag_entries a)"
    and check: "en_type (ag_entries a ! i) = AGENT_STUN_ENTRY_TYPE_CHECK \<Longrightarrow>
      memcmp (transaction_id msg) (en_transaction_id (ag_entries a ! i)) = 0
      \<and> ice_pwd (ag_remote a) \<noteq> [] \<and> stun_check_integrity buf msg (Some (ice_pwd (ag_remote a))) = Some True"
  shows "confirmed_by buf src a b"
  using assms(1)
proof (cases rule: binding_success_cases)
  case 1
  then show ?thesis by (rule keeps_confirmed_by)
next
  case (2 p)
  then have f: "entries_frame (ag_entries a) (ag_entries b)" by (simp add: keeps_but_def)
  then have "en_type (ag_entries a ! i) = AGENT_STUN_ENTRY_TYPE_CHECK" "i < length (ag_entries b)"
    using assms(5) 2(2) by (auto simp: entries_frame_def entry_frame_def)
  moreover have "en_transaction_id (ag_entries b ! i) = en_transaction_id (ag_entries a ! i)"
    using calculation(2) assms(5) arg_cong [OF 2(5), of "\<lambda>l. l ! i"] by simp
  ultimately have "confirms (ice_pwd (ag_remote a)) buf src p b"
    using 2 check assms(2-4) by (auto simp: confirms_def)
  then show ?thesis using 2(1) by (auto simp: confirmed_by_def)
qed

lemmas stun_classes = STUN_CLASS_REQUEST_def STUN_CLASS_INDICATION_def STUN_CLASS_RESP_SUCCESS_def STUN_CLASS_RESP_ERROR_def

lemma admit_checked:
  assumes "admit_binding buf msg src a = Some (Some b)" "msg_method msg = STUN_METHOD_BINDING" "has_integrity msg"
    and "msg_class msg = STUN_CLASS_RESP_SUCCESS"
  shows "ice_pwd (ag_remote a) \<noteq> [] \<and> stun_check_integrity buf msg (Some (ice_pwd (ag_remote a))) = Some True"
  using assms by (auto simp: admit_binding_def agent_verify_stun_binding_def bind_eq_Some_conv Let_def stun_classes split: if_splits)

subsection \<open>Datagrams\<close>

lemma keeps_with_credentials:
  assumes "with_credentials process i buf msg a = Some (ret, b)" "\<And>msg ret b. process i msg a = Some (ret, b) \<Longrightarrow> keeps a b"
  shows "keeps a b"
  using assms by (auto simp: with_credentials_def bind_eq_Some_conv split: if_splits)

lemmas turn_frame = keeps_with_credentials [OF _ keeps_turn_allocate] keeps_with_credentials [OF _ keeps_turn_create_permission]
  keeps_with_credentials [OF _ keeps_turn_channel_bind]

lemma handle_stun_confirms:
  assumes "handle_stun input i buf msg src via a = Some (ret, b)" "stun_read buf = Some (Some (n, msg))"
    and bound: "msg_class msg = STUN_CLASS_RESP_SUCCESS \<Longrightarrow> i < length (ag_entries a)"
    and found: "msg_class msg = STUN_CLASS_RESP_SUCCESS \<Longrightarrow> en_type (ag_entries a ! i) = AGENT_STUN_ENTRY_TYPE_CHECK
      \<Longrightarrow> memcmp (transaction_id msg) (en_transaction_id (ag_entries a ! i)) = 0"
    and checked: "msg_class msg = STUN_CLASS_RESP_SUCCESS \<Longrightarrow> msg_method msg = STUN_METHOD_BINDING \<Longrightarrow> has_integrity msg
      \<Longrightarrow> ice_pwd (ag_remote a) \<noteq> [] \<and> stun_check_integrity buf msg (Some (ice_pwd (ag_remote a))) = Some True"
  shows "confirmed_by buf src a b
    \<or> msg_method msg = STUN_METHOD_DATA \<and> agent_process_turn_data input i msg a = Some (ret, b)"
proof (cases "msg_method msg = STUN_METHOD_BINDING")
  case True
  show ?thesis
  proof (cases "msg_class msg = STUN_CLASS_RESP_SUCCESS")
    case success: True
    show ?thesis
    proof (cases "en_type (ag_entries a ! i) = AGENT_STUN_ENTRY_TYPE_CHECK \<and> \<not> has_integrity msg")
      case False
      then have "process_binding_success i msg src via a = Some (ret, b)"
        using assms(1) True success by (auto simp: handle_stun_def agent_process_stun_binding_def stun_classes)
      then have "confirmed_by buf src a b"
        using False found [OF success] checked [OF success True] by (intro success_confirms [OF _ assms(2) True success bound [OF success]]) auto
      then show ?thesis ..
    qed (use assms(1) True success in \<open>simp add: handle_stun_def keeps_confirmed_by\<close>)
  next
    case False
    then have "keeps a b"
      using assms(1) True keeps_binding_request keeps_binding_error
      by (auto simp: handle_stun_def agent_process_stun_binding_def split: if_splits)
    then show ?thesis by (simp add: keeps_confirmed_by)
  qed
next
  case False
  then consider "keeps a b" | "msg_method msg = STUN_METHOD_DATA" "agent_process_turn_data input i msg a = Some (ret, b)"
    using assms(1) turn_frame by (auto simp: handle_stun_def Let_def split: if_splits)
  then show ?thesis using keeps_confirmed_by by cases blast+
qed

text \<open>A data indication changes nothing by itself: what it carries is processed in the state in which it came.\<close>

lemma turn_data_confirms:
  assumes "agent_process_turn_data input i msg a = Some (ret, b)" "stun_read buf = Some (Some (n, msg))"
    and "msg_method msg = STUN_METHOD_DATA" "agent_find_entry_from_record src via a = Some i"
    and input: "\<And>buf src via r b. input buf src via a = Some (r, b) \<Longrightarrow> confirmed buf src via a b"
  shows "confirmed buf src via a b"
proof (cases "b = a")
  case False
  then obtain data peer ps where d: "en_type (ag_entries a ! i) = AGENT_STUN_ENTRY_TYPE_RELAY" "msg_class msg = STUN_CLASS_INDICATION"
    "msg_data msg = Some data" "peers msg = peer # ps" "input data peer (Some (en_relayed (ag_entries a ! i))) a = Some (ret, b)"
    using assms(1) by (auto simp: agent_process_turn_data_def split: if_splits option.splits list.splits)
  from carries.relayed_data [OF assms(2,3) d(2) assms(4) d(1,3,4)] input [OF d(5)] show ?thesis by (auto simp: confirmed_def)
qed (simp add: keeps_confirmed)

lemma dispatch_confirms:
  assumes "agent_dispatch_stun input buf msg src via a = Some (ret, b)" "entries_ok a" "stun_read buf = Some (Some (n, msg))"
    and input: "\<And>buf src via r b. input buf src via a = Some (r, b) \<Longrightarrow> confirmed buf src via a b"
  shows "confirmed buf src via a b"
proof (cases "admit_binding buf msg src a")
  case (Some ad)
  show ?thesis
  proof (cases ad)
    case None
    then show ?thesis using assms(1) Some by (simp add: agent_dispatch_stun_def keeps_confirmed)
  next
    case a1: (Some a1)
    have k1: "keeps a a1" using keeps_admit Some a1 by simp
    obtain tgt a2 where r: "route_stun msg src via a1 = Some (tgt, a2)"
      using assms(1) Some a1 by (auto simp: agent_dispatch_stun_def bind_eq_Some_conv)
    have k2: "keeps a1 a2"
      using r find_by_id_found by (auto simp: route_stun_def bind_eq_Some_conv agent_find_entry_from_transaction_id_def split: if_splits option.splits)
    note k = keeps_trans [OF k1 k2]
    show ?thesis
    proof (cases tgt)
      case (Inl x)
      then show ?thesis using assms(1) Some a1 r k by (simp add: agent_dispatch_stun_def keeps_confirmed)
    next
      case (Inr i)
      have h: "handle_stun input i buf msg src via a2 = Some (ret, b)"
        using assms(1) Some a1 r Inr by (simp add: agent_dispatch_stun_def)
      have pwd: "ice_pwd (ag_remote a2) = ice_pwd (ag_remote a)" using k by (simp add: keeps_def)
      have "i < length (ag_entries a2)" if "msg_class msg = STUN_CLASS_RESP_SUCCESS"
        using r Inr that find_entry_found [OF _ keeps_entries_ok [OF k1 assms(2)]]
        by (auto simp: route_stun_def bind_eq_Some_conv STUN_IS_RESPONSE_def stun_classes split: option.splits)
      moreover have "memcmp (transaction_id msg) (en_transaction_id (ag_entries a2 ! i)) = 0"
        if "msg_class msg = STUN_CLASS_RESP_SUCCESS" "en_type (ag_entries a2 ! i) = AGENT_STUN_ENTRY_TYPE_CHECK"
        using r Inr that find_entry_found [OF _ keeps_entries_ok [OF k1 assms(2)]]
        by (auto simp: route_stun_def bind_eq_Some_conv STUN_IS_RESPONSE_def stun_classes split: option.splits)
      ultimately consider "confirmed_by buf src a2 b"
        | "msg_method msg = STUN_METHOD_DATA" "agent_process_turn_data input i msg a2 = Some (ret, b)"
        using admit_checked [of buf msg src a a1] Some a1 pwd handle_stun_confirms [OF h assms(3)] by force
      then show ?thesis
      proof cases
        case 1
        then show ?thesis by (intro confirmed_direct confirmed_by_after [OF k])
      next
        case 2
        have same: "a1 = a" using Some a1 2(1) by (simp add: admit_binding_def stun_consts)
        show ?thesis
        proof (cases "STUN_IS_RESPONSE (msg_class msg)")
          case True
          then have "b = a2" using 2(2) by (auto simp: agent_process_turn_data_def STUN_IS_RESPONSE_def stun_classes split: if_splits)
          then show ?thesis using k by (simp add: keeps_confirmed)
        next
          case False
          then have f: "agent_find_entry_from_record src via a = Some i" "a2 = a"
            using r Inr same by (auto simp: route_stun_def split: option.splits)
          show ?thesis by (rule turn_data_confirms [OF 2(2) [unfolded f(2)] assms(3) 2(1) f(1)]) (rule input)
        qed
      qed
    qed
  qed
qed (use assms(1) in \<open>simp add: agent_dispatch_stun_def\<close>)

lemma channel_confirms:
  assumes "agent_process_channel_data input i buf a = Some (ret, b)" "is_stun_datagram buf = Some False" "is_channel_data buf"
    and "agent_find_entry_from_record src via a = Some i" "en_type (ag_entries a ! i) = AGENT_STUN_ENTRY_TYPE_RELAY"
    and input: "\<And>buf src via r b. input buf src via a = Some (r, b) \<Longrightarrow> confirmed buf src via a b"
  shows "confirmed buf src via a b"
proof (cases "b = a")
  case False
  then obtain t peer where c: "4 + unat (rd16 (drop 2 buf)) \<le> length buf" "en_turn (ag_entries a ! i) = Some t"
      "turn_find_channel (ts_map t) (rd16 buf) = Some (Some peer)"
      "input (take (unat (rd16 (drop 2 buf))) (drop 4 buf)) peer (Some (en_relayed (ag_entries a ! i))) a = Some (ret, b)"
    using assms(1) by (auto simp: agent_process_channel_data_def Let_def bind_eq_Some_conv split: if_splits option.splits)
  from carries.channel_data [OF assms(2-5) c(1-3)] input [OF c(4)] show ?thesis by (auto simp: confirmed_def)
qed (simp add: keeps_confirmed)

lemma input_confirms: "input_depth n buf src via a = Some (ret, b) \<Longrightarrow> entries_ok a \<Longrightarrow> confirmed buf src via a b"
proof (induction n arbitrary: buf src via ret b)
  case (Suc n)
  have emit: "confirmed buf src via a (emit (Cb_recv buf) a)" by (simp add: keeps_confirmed keeps_world)
  have same: "confirmed buf src via a a" by (simp add: keeps_confirmed)
  note input = Suc.IH [OF _ Suc.prems(2)]
  show ?case
    using Suc.prems(1) emit same dispatch_confirms [OF _ Suc.prems(2) _ input] channel_confirms [OF _ _ _ _ _ input]
    by (auto simp: agent_input_with_def bind_eq_Some_conv
        split: if_splits option.splits agent_stun_entry_type.splits)
qed simp

lemma conn_recv_confirms: "agent_conn_recv buf src a = Some (ret, b) \<Longrightarrow> entries_ok a \<Longrightarrow> confirmed buf src None a b"
  using input_confirms by (auto simp: agent_conn_recv_def agent_input_def bind_eq_Some_conv simp del: input_depth.simps)

end
