(* ===== verification/Agent_Select.thy ===== *)
theory Agent_Select
  imports Agent_Verify
begin

text \<open>
  The periodic work and the calls of the application.  Transmissions and timers stay within the frame; a selection is
  of an entry whose pair is valid.
\<close>

subsection \<open>Transmissions within the frame\<close>

lemma keeps_conn_tcp_state: "agent_conn_tcp_state dst st a = Some (ret, b) \<Longrightarrow> keeps a b"
  by (auto simp: agent_conn_tcp_state_def Let_def bind_eq_Some_conv split: option.splits tcp_state.splits
      elim!: keeps_arm_after(1) intro!: frame_intros)

lemma keeps_conn_tcp_connect: "conn_tcp_connect dst a = Some b \<Longrightarrow> keeps a b"
  by (auto simp: conn_tcp_connect_def Let_def split: if_splits dest!: keeps_conn_tcp_state intro!: frame_intros
      elim!: keeps_trans [OF keeps_world(1)])

lemma keeps_fresh_transaction [frame_intros]: "keeps a b \<Longrightarrow> keeps a (fresh_transaction i b)"
  by (auto simp: fresh_transaction_def Let_def case_prod_unfold intro!: frame_intros)

lemma keeps_send_request: "send_request i m a = Some (ret, b) \<Longrightarrow> keeps a b"
  by (auto simp: send_request_def split: if_splits dest: keeps_send_allocate keeps_send_stun_binding)

lemma keeps_transmission_failed [frame_intros]: "keeps a b \<Longrightarrow> keeps a (transmission_failed i b)"
  by (auto simp: transmission_failed_def Let_def nominated_valid split: agent_stun_entry_type.split option.split intro!: frame_intros)

lemma entry_frame_schedule: "entry_frame e (schedule_retransmission now e)"
  by (simp add: schedule_retransmission_def Let_def)

lemma keeps_transmit:
  assumes "transmit now i a = Some b"
  shows "keeps a b"
proof -
  have "keeps a a2" if "send_request i m (if x then fresh_transaction i a else a) = Some (ret, a2)" for m x ret a2
    by (rule keeps_trans [OF _ keeps_send_request [OF that]]) (auto intro!: frame_intros)
  then show ?thesis
    using assms entry_frame_schedule
    by (fastforce simp: transmit_def Let_def bind_eq_Some_conv split: if_splits intro!: frame_intros)
qed

lemma keeps_serve_pending: "serve_pending now i a = Some b \<Longrightarrow> keeps a b"
  by (auto simp: serve_pending_def bind_eq_Some_conv split: if_splits dest!: keeps_transmit keeps_conn_tcp_connect
      intro: keeps_trans)

lemma keeps_serve_keepalive:
  assumes "serve_keepalive now i a = Some b"
  shows "keeps a b"
proof -
  have "keeps a a1" if "send_request i m (fresh_transaction i a) = Some (ret, a1)" for m ret a1
    by (rule keeps_trans [OF _ keeps_send_request [OF that]]) (auto intro!: frame_intros)
  then show ?thesis
    using assms by (auto simp: serve_keepalive_def Let_def bind_eq_Some_conv split: if_splits elim!: keeps_arm_after intro!: frame_intros)
qed

lemma keeps_serve_entry: "serve_entry now i a = Some b \<Longrightarrow> keeps a b"
  by (auto simp: serve_entry_def split: agent_stun_entry_state.splits dest: keeps_serve_pending keeps_serve_keepalive
      intro!: frame_intros)

subsection \<open>The scan of the pairs\<close>

lemma keeps_freeze: "pr_state (ag_pairs a ! p) = ICE_CANDIDATE_PAIR_STATE_PENDING \<Longrightarrow>
    keeps a (upd_pair p (\<lambda>q. q\<lparr>pr_state := ICE_CANDIDATE_PAIR_STATE_FROZEN\<rparr>) a)"
  by (intro frame_intros) (simp_all add: nominated_valid)

text \<open>Freezing a pair that is pending does not take a valid pair away.\<close>

lemma freeze_valid:
  assumes "pr_state (ag_pairs a ! p) = ICE_CANDIDATE_PAIR_STATE_PENDING" "valid_pair (ag_pairs a ! q)"
  shows "valid_pair (ag_pairs (upd_pair p (\<lambda>q. q\<lparr>pr_state := ICE_CANDIDATE_PAIR_STATE_FROZEN\<rparr>) a) ! q)"
proof (cases "p < length (ag_pairs a)")
  case True
  then show ?thesis using assms by (auto simp: upd_pair_def valid_pair_def nth_list_update)
qed (use assms(2) in \<open>simp add: upd_pair_def list_update_beyond\<close>)

definition scanned :: "juice_agent \<Rightarrow> nat \<times> nat option \<times> nat option \<times> juice_agent \<Rightarrow> bool" where
  "scanned a st \<longleftrightarrow> (case st of (pending, nominated, selected, b) \<Rightarrow> keeps a b
     \<and> (\<forall>p. nominated = Some p \<or> selected = Some p \<longrightarrow> valid_pair (ag_pairs b ! p)))"

lemma scanned_pair:
  assumes "scanned a st"
  shows "scanned a (scan_pair p st)"
proof -
  obtain pending nominated selected b where st: "st = (pending, nominated, selected, b)" by (cases st)
  have k: "keeps a b" "\<And>p. nominated = Some p \<or> selected = Some p \<Longrightarrow> valid_pair (ag_pairs b ! p)"
    using assms by (auto simp: scanned_def st)
  show ?thesis
    using k keeps_trans [OF k(1) keeps_freeze] freeze_valid [of b p]
    by (auto simp: scanned_def scan_pair_def st Let_def valid_pair_def [of "ag_pairs b ! p"])
qed

lemma scanned_fold: "scanned a st \<Longrightarrow> scanned a (fold scan_pair ps st)"
proof (induction ps arbitrary: st)
  case (Cons p ps)
  then show ?case using scanned_pair by (simp only: fold_simps)
qed simp

lemma scanned_freeze:
  assumes "scanned a (k, nominated, selected, b)"
  shows "scanned a (0, nominated, selected, freeze_others n b)"
proof -
  let ?f = "\<lambda>p a. if p \<noteq> n \<and> pr_state (ag_pairs a ! p) = ICE_CANDIDATE_PAIR_STATE_PENDING
    then upd_pair p (\<lambda>q. q\<lparr>pr_state := ICE_CANDIDATE_PAIR_STATE_FROZEN\<rparr>) a else a"
  have "scanned a (0, nominated, selected, fold ?f ps c)" if "scanned a (0, nominated, selected, c)" for ps c
    using that
  proof (induction ps arbitrary: c)
    case (Cons p ps)
    have "scanned a (0, nominated, selected, ?f p c)"
      using Cons.prems keeps_trans [OF _ keeps_freeze [of c p]] freeze_valid [of c p] by (auto simp: scanned_def)
    then show ?case using Cons.IH by simp
  qed simp
  then show ?thesis using assms unfolding freeze_others_def by (simp add: scanned_def)
qed

lemma scanned_pairs: "scanned a (scan_pairs a)"
proof -
  have "scanned a (fold scan_pair (ag_ordered_pairs a) (0, None, None, a))" by (intro scanned_fold) (simp add: scanned_def)
  then show ?thesis
    unfolding scan_pairs_def using scanned_freeze
    by (cases "fold scan_pair (ag_ordered_pairs a) (0, None, None, a)") auto
qed

lemma keeps_cancel_frozen [frame_intros]: "keeps a b \<Longrightarrow> keeps a (cancel_frozen b)"
  unfolding cancel_frozen_def by (erule keeps_trans) (auto intro!: keeps_entries entries_frame_map)

subsection \<open>Selection\<close>

text \<open>Like \<open>keeps\<close>, but the agent may have selected the entry of a pair that was valid.\<close>

definition selected_valid :: "juice_agent \<Rightarrow> juice_agent \<Rightarrow> bool" where
  "selected_valid a b \<longleftrightarrow> ag_selected_entry b = ag_selected_entry a \<or> ag_selected_entry b = None
     \<or> (\<exists>i p. ag_selected_entry b = Some i \<and> i < length (ag_entries b) \<and> en_pair (ag_entries b ! i) = Some p
         \<and> p < length (ag_pairs a) \<and> valid_pair (ag_pairs a ! p))"

definition selects :: "juice_agent \<Rightarrow> juice_agent \<Rightarrow> bool" where
  "selects a b \<longleftrightarrow> entries_frame (ag_entries a) (ag_entries b) \<and> pairs_frame (ag_pairs a) (ag_pairs b)
     \<and> ice_ufrag (ag_remote b) = ice_ufrag (ag_remote a) \<and> ice_pwd (ag_remote b) = ice_pwd (ag_remote a)
     \<and> (paired (ag_entries a) (ag_pairs a) \<longrightarrow> paired (ag_entries b) (ag_pairs b) \<and> selected_valid a b)"

lemma keeps_selects: "keeps a b \<Longrightarrow> selects a b"
  by (simp add: keeps_def selects_def selected_valid_def)

lemma selects_trans:
  assumes "selects a b" "selects b c"
  shows "selects a c"
proof -
  have f: "entries_frame (ag_entries a) (ag_entries c)" "pairs_frame (ag_pairs a) (ag_pairs c)"
    using assms entries_frame_trans pairs_frame_trans by (auto simp: selects_def)
  have "selected_valid a c" if v: "selected_valid a b" "selected_valid b c"
    using v(2) unfolding selected_valid_def [of b]
  proof (elim disjE exE conjE)
    assume s: "ag_selected_entry c = ag_selected_entry b"
    have "en_pair (ag_entries c ! i) = en_pair (ag_entries b ! i) \<and> i < length (ag_entries c)" if "i < length (ag_entries b)" for i
      using assms(2) that by (auto simp: selects_def entries_frame_def entry_frame_def)
    then show ?thesis using v(1) s by (fastforce simp: selected_valid_def)
  next
    fix i p assume "ag_selected_entry c = Some i" "i < length (ag_entries c)" "en_pair (ag_entries c ! i) = Some p"
      and p: "p < length (ag_pairs b)" "valid_pair (ag_pairs b ! p)"
    moreover have "p < length (ag_pairs a) \<and> valid_pair (ag_pairs a ! p)"
      using assms(1) p by (auto simp: selects_def pairs_frame_def)
    ultimately show ?thesis by (auto simp: selected_valid_def)
  qed (simp add: selected_valid_def)
  then show ?thesis using assms f by (auto simp: selects_def)
qed

interpretation selects: step_frame selects
  using selects_trans keeps_selects [OF keeps_refl] by unfold_locales auto

lemma entry_of_pair_found:
  assumes "entry_of_pair p a = Some i"
  shows "i < length (ag_entries a) \<and> en_pair (ag_entries a ! i) = Some p"
  using assms by (auto simp: entry_of_pair_def first_index_def find_Some_iff)

lemma paired_lt: "paired es ps \<Longrightarrow> i < length es \<Longrightarrow> en_pair (es ! i) = Some p \<Longrightarrow> p < length ps"
  using nth_mem [of i "map en_pair es"] by (auto simp: paired_def Let_def)

lemma selects_entry:
  assumes "entry_of_pair p b = Some i" "valid_pair (ag_pairs b ! p)"
  shows "selects b (b\<lparr>ag_selected_entry := Some i\<rparr>)"
  using entry_of_pair_found [OF assms(1)] assms(2) paired_lt by (auto simp: selects_def selected_valid_def)

lemma selects_after: "selects a b \<Longrightarrow> keeps b c \<Longrightarrow> selects a c" "keeps a b \<Longrightarrow> selects b c \<Longrightarrow> selects a c"
  using selects_trans keeps_selects by blast+

lemma selects_none: "selects a (a\<lparr>ag_selected_entry := None\<rparr>)" "selects a (a\<lparr>ag_selected_pair := x\<rparr>)"
  by (auto simp: selects_def selected_valid_def)

lemma selects_fail_session: "selects a (fail_session a)"
  unfolding fail_session_def by (rule selects_trans [OF keeps_selects selects_none(1)]) (intro frame_intros keeps_refl)

lemma selects_select_pair:
  assumes "valid_pair (ag_pairs a ! p)"
  shows "selects a (select_pair now p a) \<and> ag_pairs (select_pair now p a) = ag_pairs a"
proof -
  define a2 where "a2 = (if ag_mode a = AGENT_MODE_CONTROLLING
    then a\<lparr>ag_selected_pair := Some p, ag_nomination_timestamp := now + NOMINATION_TIMEOUT\<rparr> else a\<lparr>ag_selected_pair := Some p\<rparr>)"
  have a2: "selects a a2" "ag_pairs a2 = ag_pairs a"
    using selects_after(1) [OF selects_none(2) keeps_world(12)] selects_none(2) by (auto simp: a2_def)
  have s: "select_pair now p a = (if ag_selected_pair a = Some p then a
    else case entry_of_pair p a2 of None \<Rightarrow> a2 | Some i \<Rightarrow> a2\<lparr>ag_selected_entry := Some i\<rparr>)"
    by (auto simp: select_pair_def a2_def Let_def split: option.split)
  show ?thesis
    using a2 selects_trans [OF a2(1) selects_entry] assms selects.frame_refl by (auto simp: s split: option.split)
qed

lemma keeps_keep_alive: "keep_alive i a = Some b \<Longrightarrow> keeps a b"
  by (auto simp: keep_alive_def split: if_splits elim!: keeps_arm_after(2) intro!: frame_intros)

lemma arm_transmission_pairs: "agent_arm_transmission i d a = Some b \<Longrightarrow> ag_pairs b = ag_pairs a"
  by (auto simp: agent_arm_transmission_def Let_def case_prod_unfold bind_eq_Some_conv upd_ent_def current_timestamp_def)

lemma keepalive_period_pairs: "ag_pairs (snd (keepalive_period i a)) = ag_pairs a"
  by (auto simp: keepalive_period_def juice_rand32_def juice_random_def Let_def split: agent_stun_entry_type.split)

lemma keep_alive_pairs: "keep_alive i a = Some b \<Longrightarrow> ag_pairs b = ag_pairs a"
  by (auto simp: keep_alive_def agent_arm_keepalive_def Let_def case_prod_unfold upd_ent_def keepalive_period_pairs
      dest!: arm_transmission_pairs split: if_splits)

lemma keeps_enumerate:
  assumes "\<And>i e. entry_frame e (f i e)"
  shows "keeps a (a\<lparr>ag_entries := map (\<lambda>(i, e). f i e) (enumerate 0 (ag_entries a))\<rparr>)"
  using assms by (intro keeps_entries) (auto simp: entries_frame_def nth_enumerate_eq)

lemma change_state_same [simp]:
  "ag_pairs (agent_change_state st a) = ag_pairs a" "ag_entries (agent_change_state st a) = ag_entries a"
  by (simp_all add: agent_change_state_def emit_def)

lemma selects_complete_session:
  assumes "complete_session n a = Some b" "valid_pair (ag_pairs a ! n)"
  shows "selects a b"
proof -
  define a2 where "a2 = agent_change_state JUICE_STATE_COMPLETED
    (if ag_state a = JUICE_STATE_CONNECTING then agent_change_state JUICE_STATE_CONNECTED a else a)"
  have a2: "keeps a a2" "ag_pairs a2 = ag_pairs a" by (auto simp: a2_def intro!: frame_intros)
  have nominated: "selects a c"
    if h: "(case entry_of_pair n a2 of None \<Rightarrow> Some a2
      | Some i \<Rightarrow> if en_state (ag_entries a2 ! i) \<noteq> AGENT_STUN_ENTRY_STATE_SUCCEEDED_KEEPALIVE
                  then do { b \<leftarrow> keep_alive i a2; Some (b\<lparr>ag_selected_entry := Some i\<rparr>) } else Some a2) = Some c" for c
  proof (cases "c = a2")
    case False
    then obtain i b where i: "entry_of_pair n a2 = Some i" "keep_alive i a2 = Some b" "c = b\<lparr>ag_selected_entry := Some i\<rparr>"
      using h by (auto simp: bind_eq_Some_conv split: option.splits if_splits)
    have k: "keeps a b" using keeps_trans [OF a2(1) keeps_keep_alive [OF i(2)]] .
    have "i < length (ag_entries b)" "en_pair (ag_entries b ! i) = Some n"
      using entry_of_pair_found [OF i(1)] keeps_keep_alive [OF i(2)] by (auto simp: keeps_def entries_frame_def entry_frame_def)
    then have "selects b c"
      using paired_lt keep_alive_pairs [OF i(2)] a2(2) assms(2) by (auto simp: i(3) selects_def selected_valid_def)
    then show ?thesis by (rule selects_after(2) [OF k])
  qed (use a2(1) keeps_selects in simp)
  obtain c r d where c: "(case entry_of_pair n a2 of None \<Rightarrow> Some a2
      | Some i \<Rightarrow> if en_state (ag_entries a2 ! i) \<noteq> AGENT_STUN_ENTRY_STATE_SUCCEEDED_KEEPALIVE
                  then do { b \<leftarrow> keep_alive i a2; Some (b\<lparr>ag_selected_entry := Some i\<rparr>) } else Some a2) = Some c"
    and d: "(case r of None \<Rightarrow> Some c | Some r \<Rightarrow> keep_alive r c) = Some d"
    and b: "b = d\<lparr>ag_entries := map (\<lambda>(i, e). if Some i \<noteq> entry_of_pair n a2 \<and> Some i \<noteq> r
                    \<and> en_state e = AGENT_STUN_ENTRY_STATE_SUCCEEDED_KEEPALIVE
                 then e\<lparr>en_state := AGENT_STUN_ENTRY_STATE_SUCCEEDED\<rparr> else e) (enumerate 0 (ag_entries d))\<rparr>"
    using assms(1) unfolding complete_session_def Let_def a2_def [symmetric] by (auto simp: bind_eq_Some_conv)
  have "keeps d b" unfolding b by (rule keeps_enumerate) simp
  moreover have "keeps c d" using d keeps_keep_alive by (auto split: option.splits)
  ultimately show ?thesis using selects_after(1) [OF nominated [OF c] keeps_trans] by blast
qed

lemma keeps_pursue: "pursue_nomination now pending p t a = Some (t', b) \<Longrightarrow> keeps a b"
  by (auto simp: pursue_nomination_def Let_def bind_eq_Some_conv split: if_splits option.splits
      elim!: keeps_arm_after(1) intro!: frame_intros)

lemma selects_settle:
  assumes "settle now pending nominated selected t a = Some (t', returned, b)"
    and "\<And>p. nominated = Some p \<or> selected = Some p \<Longrightarrow> valid_pair (ag_pairs a ! p)"
  shows "selects a b"
proof (cases selected)
  case None
  then show ?thesis
    using assms(1) selects_fail_session selects.frame_refl by (auto simp: settle_def split: if_splits option.splits)
next
  case (Some p)
  note s = selects_select_pair [OF assms(2) [OF disjI2 [OF Some]], of now]
  have "selects a c" if "complete_session n (select_pair now p a) = Some c" "nominated = Some n" for n c
    using selects_trans [OF conjunct1 [OF s] selects_complete_session [OF that(1)]] s assms(2) that(2) by simp
  moreover have "selects a c" if "pursue_nomination now pending p t (select_pair now p a) = Some (t', c)" for t' c
    using selects_after(1) [OF conjunct1 [OF s] keeps_pursue [OF that]] .
  ultimately show ?thesis
    using assms(1) Some selects_fail_session by (auto simp: settle_def Let_def bind_eq_Some_conv split: if_splits option.splits)
qed

lemma cancel_frozen_pairs [simp]: "ag_pairs (cancel_frozen a) = ag_pairs a"
  by (simp add: cancel_frozen_def)

lemma selects_bookkeeping:
  assumes "agent_bookkeeping a = Some (t, b)"
  shows "selects a b"
proof -
  obtain now a0 where n: "current_timestamp a = (now, a0)" by (cases "current_timestamp a")
  have k0: "keeps a a0" by (rule keeps_tuple(1) [OF n])
  have "selects a c" if served: "each is (serve_entry now) a0 = Some a1"
    and scan: "scan_pairs a1 = (pending, nominated, selected, a2)"
    and s: "settle now pending nominated selected t (cancel_frozen a2) = Some (t', r, c)" for "is" a1 pending nominated selected a2 t t' r c
  proof -
    have k: "keeps a a1" using keeps_trans [OF k0 keeps.each_frame [OF keeps_serve_entry served]] .
    have "scanned a1 (pending, nominated, selected, a2)" using scanned_pairs [of a1] scan by simp
    then have "keeps a1 (cancel_frozen a2)"
      and v: "\<And>p. nominated = Some p \<or> selected = Some p \<Longrightarrow> valid_pair (ag_pairs (cancel_frozen a2) ! p)"
      by (auto simp: scanned_def intro!: frame_intros)
    then show ?thesis using selects_after(2) [OF keeps_trans [OF k] selects_settle [OF s v]] by blast
  qed
  note settled = this
  show ?thesis
  proof (cases "ag_state a0 = JUICE_STATE_DISCONNECTED \<or> ag_state a0 = JUICE_STATE_GATHERING")
    case True
    then show ?thesis using assms k0 keeps_selects by (auto simp: agent_bookkeeping_def n)
  next
    case False
    then obtain a1 where a1: "each [0..<length (ag_entries a0)] (serve_entry now) a0 = Some a1"
      using assms by (auto simp: agent_bookkeeping_def n Let_def bind_eq_Some_conv)
    obtain pending nominated selected a2 where scan: "scan_pairs a1 = (pending, nominated, selected, a2)" by (cases "scan_pairs a1")
    have "\<exists>t' r. settle now pending nominated selected (now + 6000000) (cancel_frozen a2) = Some (t', r, b)"
      using assms False by (auto simp: agent_bookkeeping_def n Let_def a1 scan bind_eq_Some_conv split: if_splits)
    then show ?thesis using settled [OF a1 scan] by blast
  qed
qed

end
