(* ===== verification/Agent_Meeting.thy ===== *)
theory Agent_Meeting
  imports Agent_Api Agent_Input Ice_Roundtrip Stun_Security
begin

text \<open>
  A worked example: an agent takes the description of a peer with one host candidate, gathers no candidate of its own, receives
  the success response of the peer to its check and selects the pair.  Every step is a call of the model evaluated by
  the simplifier; the datagram is what \<open>wire\<close> writes for the response with the peer's password.
\<close>

subsection \<open>The description of the peer\<close>

definition meeting_host :: addr_record where
  "meeting_host = \<lparr>ar_addr = Sin 80 [192, 0, 2, 1], ar_len = 16, ar_socktype = 2\<rparr>"

definition meeting_world :: agent_env where
  "meeting_world = still_world\<lparr>env_random := (\<lambda>k i. 7),
     env_getaddrinfo := (\<lambda>h s st lk. Some [(Sin 80 [192, 0, 2, 1], 16, 2)])\<rparr>"

definition meeting_sdp :: bytes where
  "meeting_sdp = concat (map (\<lambda>l. l @ [0x0D, 0x0A])
     [str_bytes ''a=ice-ufrag:peer'', str_bytes ''a=ice-pwd:secret'', str_bytes ''a=candidate:1 1 UDP 9 192.0.2.1 80 typ host''])"

lemmas sdp_scans = scan_candidate_def scan_string_def scan_d_def scan_u_def scan_word_def scan_extension_def isspace_def skip_space_def
  isdigit_def digits_value_def scan_number_def match_prefix_def skip_prefix_def scan_field_def Let_def str_bytes_def

definition meeting_candidate :: ice_candidate where
  "meeting_candidate = zero_candidate\<lparr>cand_foundation := [49], cand_component := 1, cand_priority := 9,
     cand_hostname := [49, 57, 50, 46, 48, 46, 50, 46, 49], cand_service := [56, 48], cand_type := ICE_CANDIDATE_TYPE_HOST,
     cand_transport := ICE_CANDIDATE_TRANSPORT_UDP, cand_resolved := meeting_host\<rparr>"

definition meeting_description :: ice_description where
  "meeting_description = zero_description\<lparr>ice_ufrag := str_bytes ''peer'', ice_pwd := str_bytes ''secret'',
     candidates := [meeting_candidate]\<rparr>"

lemma meeting_line_ufrag: "parse_sdp_line g (str_bytes ''a=ice-ufrag:peer'') d = (0, d\<lparr>ice_ufrag := str_bytes ''peer''\<rparr>)"
  by (simp add: parse_sdp_line_def sdp_scans)

lemma meeting_line_pwd: "parse_sdp_line g (str_bytes ''a=ice-pwd:secret'') d = (0, d\<lparr>ice_pwd := str_bytes ''secret''\<rparr>)"
  by (simp add: parse_sdp_line_def sdp_scans)

lemma meeting_line_candidate:
  "parse_sdp_line (env_getaddrinfo meeting_world) (str_bytes ''a=candidate:1 1 UDP 9 192.0.2.1 80 typ host'') d
    = (0, snd (snd (ice_add_candidate meeting_candidate d)))"
  by (simp add: parse_sdp_line_def sdp_scans ice_parse_candidate_sdp_def parse_sdp_candidate_def parse_type_def parse_transport_def
      toupper_def tolower_def ice_resolve_candidate_def meeting_candidate_def meeting_host_def meeting_world_def zero_candidate_def
      sa_family_def AF_INET_def AF_INET6_def)

lemma meeting_lines:
  "list_all line_ok
     [str_bytes ''a=ice-ufrag:peer'', str_bytes ''a=ice-pwd:secret'', str_bytes ''a=candidate:1 1 UDP 9 192.0.2.1 80 typ host'']"
  by (simp add: line_ok_def str_bytes_def BUFFER_SIZE_def)

lemma meeting_parse: "ice_parse_sdp (env_getaddrinfo meeting_world) meeting_sdp = (0, meeting_description)"
  unfolding ice_parse_sdp_def meeting_sdp_def parse_sdp_loop_lines [OF meeting_lines]
  by (simp add: meeting_line_ufrag meeting_line_pwd meeting_line_candidate ice_add_candidate_def ice_sort_candidates_def
      meeting_description_def zero_description_def meeting_candidate_def ICE_MAX_CANDIDATES_COUNT_def zero_candidate_def Let_def sort_loop.simps)

subsection \<open>The agent created, described and gathered\<close>

definition meeting_agent :: "ice_description \<Rightarrow> u64 \<Rightarrow> nat \<Rightarrow> juice_agent" where
  "meeting_agent l t k = (zero_agent plain_config (meeting_world\<lparr>env_draws := k\<rparr>))\<lparr>ag_local := l, ag_ice_tiebreaker := t\<rparr>"

lemma draw_bytes_meeting: "snd (draw_bytes n a) = a\<lparr>ag_env := (ag_env a)\<lparr>env_draws := env_draws (ag_env a) + n\<rparr>\<rparr>"
  by (induction n arbitrary: a) (simp_all add: juice_random_def Let_def case_prod_unfold)

lemma meeting_start: "\<exists>l t k. agent_create plain_config meeting_world = meeting_agent l t k \<and> candidates l = []"
proof -
  have "\<exists>l t k. agent_create plain_config w
      = (zero_agent plain_config (w\<lparr>env_draws := k\<rparr>))\<lparr>ag_local := l, ag_ice_tiebreaker := t\<rparr> \<and> candidates l = []" for w
    by (simp add: agent_create_def Let_def case_prod_unfold juice_random_def draw_bytes_meeting ice_create_local_description_def
      zero_agent_def zero_description_def) blast
  then show ?thesis unfolding meeting_agent_def .
qed

lemmas agent_eval = agent_add_candidate_pairs_for_remote_def agent_add_candidate_pair_def candidate_at_def
  MAX_CANDIDATE_PAIRS_COUNT_def ignored_tcp_def agent_update_ordered_pairs_def order_step_def MAX_STUN_ENTRIES_COUNT_def
  agent_register_entry_for_candidate_pair_def juice_random_def add_entry_def remote_of_def has_better_pair_def agent_unfreeze_candidate_pair_def
  first_index_def upd_ent_def upd_pair_def agent_arm_transmission_def current_timestamp_def armed_entry_def entry_is_tcp_def entry_pair_def
  conn_interrupt_def emit_def agent_times

lemma slot_single: "slot_loop [e] 0 0 t = Some t"
  by (subst slot_loop.simps, simp, subst slot_loop.simps, simp)

definition meeting_priority :: u64 where
  "meeting_priority = pair_priority (the (ice_create_candidate_pair None (Some meeting_candidate) False))"

lemma meeting_pair_created:
  "ice_create_candidate_pair None (Some meeting_candidate) False =
     Some \<lparr>pair_local = None, pair_remote = Some meeting_candidate, pair_priority = meeting_priority,
       pair_state = ICE_CANDIDATE_PAIR_STATE_FROZEN, pair_nominated = False, pair_nomination_requested = False, pair_consent_expiry = 0\<rparr>"
  by (simp add: meeting_priority_def ice_create_candidate_pair_def ice_update_candidate_pair_def Let_def)

lemma meeting_candidate_fields: "cand_transport meeting_candidate = ICE_CANDIDATE_TRANSPORT_UDP" "cand_resolved meeting_candidate = meeting_host"
  by (simp_all add: meeting_candidate_def)

definition meeting_pair :: "ice_candidate_pair_state \<Rightarrow> int \<Rightarrow> agent_pair" where
  "meeting_pair st t = \<lparr>pr_local = None, pr_remote = 0, pr_priority = meeting_priority, pr_state = st, pr_nominated = False,
     pr_nomination_requested = False, pr_consent_expiry = t\<rparr>"

definition meeting_entry :: agent_stun_entry where
  "meeting_entry = zero_stun_entry\<lparr>en_type := AGENT_STUN_ENTRY_TYPE_CHECK, en_pair := Some 0, en_record := meeting_host,
     en_transaction_id := replicate 12 7, en_next_transmission := 1000, en_retransmission_timeout := 500, en_retransmissions := 6\<rparr>"

definition described_agent :: "ice_description \<Rightarrow> u64 \<Rightarrow> nat \<Rightarrow> juice_agent" where
  "described_agent l t k = (meeting_agent l t k)\<lparr>ag_mode := AGENT_MODE_CONTROLLED, ag_remote := meeting_description,
     ag_pairs := [meeting_pair ICE_CANDIDATE_PAIR_STATE_PENDING 0], ag_ordered_pairs := [0], ag_entries := [meeting_entry],
     ag_env := meeting_world\<lparr>env_draws := Suc k, env_ticks := 1\<rparr>\<rparr>"

lemma meeting_world_fields: "env_clock meeting_world k = 1000" "env_ticks meeting_world = 0" "env_random meeting_world i j = 7"
  by (simp_all add: meeting_world_def still_world_def)

lemma limits_positive: "0 < ICE_MAX_CANDIDATES_COUNT" "0 < MAX_RELAY_ENTRIES_COUNT"
  by (simp_all add: ICE_MAX_CANDIDATES_COUNT_def MAX_RELAY_ENTRIES_COUNT_def)

lemma meeting_tid: "map (env_random meeting_world k) [0..<STUN_TRANSACTION_ID_SIZE] = replicate 12 7"
  by (rule nth_equalityI) (simp_all add: meeting_world_fields stun_sizes)

lemma meeting_described:
  "candidates l = [] \<Longrightarrow> agent_set_remote_description meeting_sdp (meeting_agent l t k) = Some (0, described_agent l t k)"
  by (simp add: agent_set_remote_description_def meeting_agent_def meeting_parse meeting_description_def zero_agent_def
      zero_description_def agent_update_pac_timer_def Let_def case_prod_unfold agent_eval zero_stun_entry_def slot_single
      meeting_pair_created meeting_candidate_fields limits_positive meeting_world_fields meeting_tid
      described_agent_def meeting_pair_def meeting_entry_def JUICE_ERR_SUCCESS_def)

definition gathered_agent :: "ice_description \<Rightarrow> u64 \<Rightarrow> nat \<Rightarrow> juice_agent" where
  "gathered_agent l t k = (described_agent l t k)\<lparr>ag_state := JUICE_STATE_CONNECTING, ag_local := l\<lparr>candidates := [], ice_finished := True\<rparr>,
     ag_pac_timestamp := 40500, ag_gathering_done := True, ag_conn_impl := True,
     ag_env := meeting_world\<lparr>env_draws := Suc k, env_ticks := 2, env_out := env_out meeting_world @
       [Cb_state_changed JUICE_STATE_GATHERING, Cb_state_changed JUICE_STATE_CONNECTING, Conn_interrupt,
        Cb_gathering_done, Conn_interrupt]\<rparr>\<rparr>"

lemma meeting_gathered:
  "candidates l = [] \<Longrightarrow> agent_gather_candidates True None (\<lambda>h. True) True (\<lambda>h p. []) (described_agent l t k)
    = Some (0, gathered_agent l t k)"
  by (simp add: agent_gather_candidates_def agent_gather_hosts_def agent_resolve_servers_def described_agent_def meeting_agent_def
      agent_update_gathering_done_def agent_update_pac_timer_def agent_change_state_def plain_config_def zero_agent_def Let_def
      case_prod_unfold emit_def conn_interrupt_def ice_sort_candidates_def has_nonnumeric_server_hostnames_def sort_loop.simps
      current_timestamp_def meeting_world_fields agent_times meeting_entry_def meeting_description_def gathered_agent_def)

subsection \<open>The answer of the peer\<close>

definition meeting_answer :: stun_message where
  "meeting_answer = zero_message\<lparr>msg_class := STUN_CLASS_RESP_SUCCESS, msg_method := STUN_METHOD_BINDING,
     transaction_id := replicate 12 7\<rparr>"

definition meeting_datagram :: bytes where
  "meeting_datagram = wire 0 meeting_answer (Some (str_bytes ''secret''))"

lemma meeting_answer_ok: "message_ok meeting_answer"
  by (simp add: message_ok_def meeting_answer_def zero_message_def stun_consts STUN_CLASS_MASK_def
      zero_credentials_def credentials_ok_def stun_sizes)

lemma meeting_length: "length meeting_datagram = 64"
proof -
  have "length (encs (body_attrs 0 meeting_answer)) = 12"
    by (simp add: meeting_answer_def body_attrs_def attrs_error_code_def attrs_address_def attrs_ice_def
        attrs_channel_lifetime_def attrs_peers_def attrs_turn_def attrs_software_def attrs_user_def attrs_realm_def
        attrs_nonce_def zero_message_def zero_credentials_def zero_record_def stun_consts length_enc align32_id str_bytes_def)
  moreover have "length (transaction_id meeting_answer) = 12" "msg_class meeting_answer \<noteq> STUN_CLASS_INDICATION"
    "password_algorithm (credentials meeting_answer) = STUN_PASSWORD_ALGORITHM_UNSET"
    by (simp_all add: meeting_answer_def zero_message_def zero_credentials_def stun_consts)
  ultimately show ?thesis
    by (simp add: meeting_datagram_def wire_def signed_body_def mac_attrs_def Let_def length_hdr length_enc
        fingerprint_attr_def align32_id)
qed

abbreviation "meeting_received \<equiv> Stun_Roundtrip.received meeting_answer (Some (str_bytes ''secret''))"

lemma meeting_received_fields:
  "msg_class meeting_received = STUN_CLASS_RESP_SUCCESS" "msg_method meeting_received = STUN_METHOD_BINDING"
  "transaction_id meeting_received = replicate 12 7" "has_integrity meeting_received" "ar_len (mapped meeting_received) = 0"
  by (simp_all add: meeting_answer_def zero_message_def zero_credentials_def stun_consts Stun_Roundtrip.received_def zero_record_def
      received_credentials_def is_request_def sends_nonce_def Let_def)

lemma meeting_read:
  "stun_read meeting_datagram = Some (Some (64, meeting_received))" "is_stun_datagram meeting_datagram = Some True"
  "stun_check_integrity meeting_datagram meeting_received (Some (str_bytes ''secret'')) = Some True"
proof -
  have l: "length (wire 0 meeting_answer (Some (str_bytes ''secret''))) < 65536 + 20" using meeting_length by (simp add: meeting_datagram_def)
  show "stun_read meeting_datagram = Some (Some (64, meeting_received))"
    using stun_read_wire [OF meeting_answer_ok l] meeting_length by (simp add: meeting_datagram_def)
  show "is_stun_datagram meeting_datagram = Some True"
    using wire_datagram [OF meeting_answer_ok l] by (simp add: meeting_datagram_def)
  show "stun_check_integrity meeting_datagram meeting_received (Some (str_bytes ''secret'')) = Some True"
    unfolding meeting_datagram_def
    by (rule integrity_complete') (use meeting_length in \<open>simp_all add: meeting_datagram_def meeting_received_fields,
        simp_all add: meeting_answer_def zero_message_def zero_credentials_def stun_consts Stun_Roundtrip.received_def
          received_credentials_def generate_hmac_key_def is_request_def sends_nonce_def Let_def\<close>)
qed

lemma gathered_fields:
  "ag_state (gathered_agent l t k) = JUICE_STATE_CONNECTING" "ag_remote (gathered_agent l t k) = meeting_description"
  "ag_entries (gathered_agent l t k) = [meeting_entry]" "ag_selected_pair (gathered_agent l t k) = None"
  by (simp_all add: gathered_agent_def described_agent_def meeting_agent_def zero_agent_def)

lemma meeting_words: "str_bytes ''peer'' \<noteq> []" "str_bytes ''secret'' \<noteq> []"
  by (simp_all add: str_bytes_def)

lemma meeting_verified: "agent_verify_stun_binding meeting_datagram meeting_received (gathered_agent l t k) = Some 0"
  by (simp add: agent_verify_stun_binding_def meeting_received_fields stun_consts gathered_fields meeting_read
    meeting_description_def meeting_words Let_def)

lemma meeting_known:
  "agent_add_remote_reflexive_candidate ICE_CANDIDATE_TYPE_PEER_REFLEXIVE p meeting_host (gathered_agent l t k)
    = Some (0, gathered_agent l t k)"
  by (simp add: agent_add_remote_reflexive_candidate_def gathered_fields meeting_description_def ice_find_candidate_from_addr_def
      meeting_candidate_fields meeting_host_def)

lemma meeting_equal:
  "addr_record_is_equal meeting_host meeting_host True" "memcmp (replicate 12 (7 :: byte)) (replicate 12 7) = 0"
  by (simp_all add: addr_record_is_equal_def meeting_host_def memcmp.simps numeral_eq_Suc)

lemma meeting_found: "agent_find_entry_from_transaction_id (replicate 12 7) (gathered_agent l t k) = Some (Some 0, gathered_agent l t k)"
  by (simp add: agent_find_entry_from_transaction_id_def gathered_fields meeting_entry_def meeting_equal)

definition meeting_period :: int where
  "meeting_period = MIN_CONSENT_CHECK_PERIOD
     + uint (htonl (rd32 [7, 7, 7, 7])) mod (MAX_CONSENT_CHECK_PERIOD - MIN_CONSENT_CHECK_PERIOD + 1)"

lemma meeting_period_positive: "0 < meeting_period"
  by (simp add: meeting_period_def agent_times add_pos_nonneg)

definition checked_agent :: "ice_description \<Rightarrow> u64 \<Rightarrow> nat \<Rightarrow> juice_agent" where
  "checked_agent l t k = (gathered_agent l t k)\<lparr>
     ag_pairs := [meeting_pair ICE_CANDIDATE_PAIR_STATE_SUCCEEDED (1000 + CONSENT_TIMEOUT)],
     ag_entries := [meeting_entry\<lparr>en_state := AGENT_STUN_ENTRY_STATE_SUCCEEDED_KEEPALIVE,
       en_next_transmission := 1000 + meeting_period, en_transaction_id_expired := True\<rparr>],
     ag_env := (ag_env (gathered_agent l t k))\<lparr>env_draws := Suc (Suc k), env_ticks := 4\<rparr>\<rparr>"

lemma meeting_draw:
  "map (env_random (meeting_world\<lparr>env_draws := i, env_ticks := j, env_out := out\<rparr>) n) [0..<4] = [7, 7, 7, 7]"
  by (simp add: meeting_world_def still_world_def upt_conv_Cons)

lemma meeting_success:
  "process_binding_success 0 meeting_received meeting_host None (gathered_agent l t k) = Some (0, checked_agent l t k)"
  by (simp add: process_binding_success_def entry_succeeded_def has_nominated_selection_def agent_arm_keepalive_def
      meeting_received_fields keepalive_period_def juice_rand32_def juice_random_def upd_ent_def agent_arm_transmission_def
      slot_single current_timestamp_def Let_def meeting_entry_def zero_stun_entry_def armed_entry_def gathered_agent_def
      described_agent_def meeting_agent_def zero_agent_def meeting_draw meeting_world_fields meeting_period_def [symmetric]
      checked_agent_def pair_succeeded_def upd_pair_def meeting_pair_def upt_conv_Cons meeting_equal)

lemma meeting_received_step:
  "agent_conn_recv meeting_datagram meeting_host (gathered_agent l t k) = Some (0, checked_agent l t k)"
  by (simp add: agent_conn_recv_def agent_input_recursion agent_input_with_def meeting_read agent_dispatch_stun_def
      admit_binding_def meeting_received_fields route_stun_def STUN_IS_RESPONSE_def handle_stun_def
      agent_process_stun_binding_def meeting_verified meeting_known meeting_found gathered_fields stun_consts meeting_success)

subsection \<open>The selection\<close>

lemma meeting_selects: "\<exists>t' b. agent_conn_update (checked_agent l t k) = Some (t', b) \<and> ag_selected_entry b = Some 0"
  using meeting_period_positive
  by (simp add: agent_conn_update_def agent_bookkeeping_def serve_entry_def serve_keepalive_def scan_pairs_def scan_pair_def
      settle_def select_pair_def cancel_frozen_def pursue_nomination_def entry_pair_def checked_agent_def gathered_agent_def
      described_agent_def meeting_agent_def zero_agent_def current_timestamp_def meeting_entry_def meeting_pair_def
      meeting_world_fields Let_def entry_of_pair_def first_index_def zero_stun_entry_def agent_change_state_def emit_def agent_times)

end
