(* ===== verification/Agent_Run.thy ===== *)
theory Agent_Run
  imports Agent_Select Agent_Meeting
begin

text \<open>
  Runs of the agent: the calls of the application, of the connection backend and of the resolver thread in any order, and
  the datagrams received.  The invariant of all runs gives the security of the selection: application data are only
  sent to an address from which a check was answered with the password of the remote description.
\<close>

subsection \<open>Calls of the application within the frame\<close>

lemma keeps_get_local_description: "agent_get_local_description buffer a = (ret, out, b) \<Longrightarrow> keeps a b"
  by (auto simp: agent_get_local_description_def split: prod.splits if_splits intro!: frame_intros)

lemma keeps_settings:
  "agent_set_local_ice_attributes ufrag pwd a = (ret, b) \<Longrightarrow> keeps a b"
  "agent_add_turn_server server a = (ret, b) \<Longrightarrow> keeps a b"
  "agent_set_ice_tcp_mode mode a = (ret, b) \<Longrightarrow> keeps a b"
  by (auto simp: agent_set_local_ice_attributes_def agent_add_turn_server_def agent_set_ice_tcp_mode_def keeps_def split: if_splits)

lemma keeps_remote_gathering_done: "agent_set_remote_gathering_done a = (ret, b) \<Longrightarrow> keeps a b"
  by (auto simp: agent_set_remote_gathering_done_def intro!: keeps_after(2) keeps_remote)

lemma keeps_add_remote_candidate:
  assumes "agent_add_remote_candidate sdp a = Some (ret, b)"
  shows "keeps a b"
proof -
  have "keeps a c" if "ice_add_candidate cand (ag_remote a) = (r, x, d)"
    "agent_add_candidate_pairs_for_remote i (a\<lparr>ag_remote := d\<rparr>) = Some (ret', c)" for cand r x d i ret' c
    using keeps_trans [OF keeps_remote keeps_add_pairs_for_remote [OF that(2)]] add_candidate_credentials [OF that(1)] by simp
  then show ?thesis
    using assms by (auto simp: agent_add_remote_candidate_def bind_eq_Some_conv split: if_splits sum.splits prod.splits intro!: keeps_after(2))
qed

text \<open>A description sets the credentials of the peer, once.\<close>

lemma parse_sdp_loop_error: "parse_sdp_loop g sdp buffer d = Inl ret \<Longrightarrow> ret < 0"
  by (induction g sdp buffer d rule: parse_sdp_loop.induct) (auto simp: ice_codes Let_def split: if_splits prod.splits)

lemma parse_sdp_credentials: "ice_parse_sdp g sdp = (ret, d) \<Longrightarrow> \<not> ret < 0 \<Longrightarrow> ice_ufrag d \<noteq> [] \<and> ice_pwd d \<noteq> []"
  using parse_sdp_loop_error by (fastforce simp: ice_parse_sdp_def Let_def ice_codes split: sum.splits if_splits)

lemma set_remote_description_cases:
  assumes "agent_set_remote_description sdp a = Some (ret, b)"
  shows "keeps a b \<or> ice_ufrag (ag_remote a) = [] \<and> (\<exists>d. ice_ufrag d \<noteq> [] \<and> ice_pwd d \<noteq> [] \<and> keeps (a\<lparr>ag_remote := d\<rparr>) b)"
proof -
  obtain r d where p: "ice_parse_sdp (env_getaddrinfo (ag_env a)) sdp = (r, d)" by (cases "ice_parse_sdp (env_getaddrinfo (ag_env a)) sdp")
  show ?thesis
  proof (cases "r < 0 \<or> ice_ufrag (ag_remote a) \<noteq> []")
    case True
    then show ?thesis using assms by (auto simp: agent_set_remote_description_def p split: if_splits)
  next
    case False
    define a1 where "a1 = agent_update_pac_timer (a\<lparr>ag_remote := d\<rparr>)"
    define a2 where "a2 = (if ice_lite (ag_remote a1) \<and> ag_mode a1 \<noteq> AGENT_MODE_CONTROLLING then a1\<lparr>ag_mode := AGENT_MODE_CONTROLLING\<rparr>
      else if ag_mode a1 = AGENT_MODE_UNKNOWN then a1\<lparr>ag_mode := AGENT_MODE_CONTROLLED\<rparr> else a1)"
    obtain a3 a4 where s: "each [0..<length (ag_pairs a2)] (\<lambda>p a. map_option snd (agent_unfreeze_candidate_pair p a)) a2 = Some a3"
      "each [0..<length (candidates (ag_remote a3))] (\<lambda>r a. map_option snd (agent_add_candidate_pairs_for_remote r a)) a3 = Some a4"
      "b = conn_interrupt a4"
      using assms False unfolding agent_set_remote_description_def p Let_def prod.case a1_def [symmetric] a2_def [symmetric]
      by (auto simp: bind_eq_Some_conv)
    have "keeps (a\<lparr>ag_remote := d\<rparr>) a2" unfolding a2_def a1_def by (auto intro!: frame_intros)
    moreover have "keeps a2 a3" by (rule keeps.each_frame [OF _ s(1)]) (auto dest: keeps_unfreeze)
    moreover have "keeps a3 a4" by (rule keeps.each_frame [OF _ s(2)]) (auto dest: keeps_add_pairs_for_remote)
    ultimately have "keeps (a\<lparr>ag_remote := d\<rparr>) b" unfolding s(3) by (intro frame_intros) (blast intro: keeps_trans)
    then show ?thesis using False parse_sdp_credentials [OF p] by auto
  qed
qed

subsection \<open>Gathering within the frame\<close>

lemma keeps_add_hosts [frame_intros]: "keeps a b \<Longrightarrow> keeps a (add_host_candidates rs b)"
proof (induction rs arbitrary: b)
  case (Cons r rs)
  then show ?case by (auto simp: Let_def split: option.split prod.split intro!: Cons.IH frame_intros)
qed simp

lemma keeps_add_tcp [frame_intros]: "keeps a b \<Longrightarrow> keeps a (add_tcp_candidate rs f b)"
  by (auto simp: add_tcp_candidate_def agent_add_local_tcp_active_candidate_def Let_def split: option.split prod.split
      intro!: frame_intros)

lemma keeps_announce: "keeps a b \<Longrightarrow> keeps a (fold announce_host cs b)"
proof (rule keeps_trans)
  have "keeps a (announce_host c a)" for c a by (auto simp: announce_host_def split: prod.split intro!: frame_intros)
  then show "keeps b (fold announce_host cs b)" by (rule keeps.fold_frame)
qed

lemma keeps_gather_hosts: "agent_gather_hosts ok addrs a = (r, b) \<Longrightarrow> keeps a b"
  by (auto simp: agent_gather_hosts_def Let_def split: if_splits intro!: frame_intros keeps_announce)

lemma keeps_register_relay:
  assumes "register_relay i server rs (n, a) = Some (n', b)"
  shows "keeps a b"
proof -
  have "keeps a b'" if "add_entry e (snd (juice_random k a)) = Some a2" "en_pair e = None" "en_type e = AGENT_STUN_ENTRY_TYPE_RELAY"
    "agent_arm_transmission j t a2 = Some b'" for e k a2 j t b'
    using keeps_trans [OF keeps_world(3) keeps_add_entry [OF that(1)]] keeps_arm_after(1) [OF that(4)] that(2,3)
    by (simp add: entry_ok_def)
  then show ?thesis
    using assms by (auto simp: register_relay_def Let_def case_prod_unfold bind_eq_Some_conv split: option.splits if_splits)
qed

lemma keeps_register_servers:
  assumes "register_servers rs a = Some b"
  shows "keeps a b"
proof -
  have "keeps a b" if "register_server i r a = Some b" for i r a b
  proof -
    have "keeps a b'" if "add_entry e (snd (juice_random k a)) = Some a2" "en_pair e = None" "en_type e = AGENT_STUN_ENTRY_TYPE_SERVER"
      "agent_arm_transmission j t a2 = Some b'" for e k a2 j t b'
      using keeps_trans [OF keeps_world(3) keeps_add_entry [OF that(1)]] keeps_arm_after(1) [OF that(4)] that(2,3)
      by (simp add: entry_ok_def)
    then show ?thesis using that by (auto simp: register_server_def Let_def case_prod_unfold bind_eq_Some_conv zero_stun_entry_def)
  qed
  then show ?thesis using assms keeps.each_frame [of "\<lambda>i. register_server i (rs ! i)"] unfolding register_servers_def by blast
qed

lemma keeps_set_turn_port [frame_intros]: "keeps a b \<Longrightarrow> keeps a (set_turn_port i b)"
  unfolding set_turn_port_def by (intro frame_intros)

lemma keeps_resolve_relays: "resolve_relays f i servers st = Some st' \<Longrightarrow> keeps (snd st) (snd st')"
proof (induction servers arbitrary: i st)
  case (Cons s ss)
  have "keeps (snd st) (snd st1)" if "register_relay i s rs (fst st, set_turn_port i (snd st)) = Some st1" for rs st1
    using that keeps_register_relay keeps_trans [OF keeps_set_turn_port [OF keeps_refl]] by (cases st1) fastforce
  then show ?case
    using Cons by (auto simp: bind_eq_Some_conv split: if_splits option.splits) (metis keeps_trans)
qed simp

lemma keeps_resolve_servers:
  assumes "agent_resolve_servers f a = Some (ret, b)"
  shows "keeps a b"
proof -
  obtain a1 where a1: "(if cfg_concurrency_mode (ag_config a) = JUICE_CONCURRENCY_MODE_MUX then Some a
        else map_option snd (resolve_relays f 0 (cfg_turn_servers (ag_config a)) (0, a))) = Some a1"
    using assms by (auto simp: agent_resolve_servers_def bind_eq_Some_conv simp del: if_split)
  obtain a2 where a2: "a2 = a1 \<or> (\<exists>rs c. register_servers rs (a1\<lparr>ag_config := c\<rparr>) = Some a2)"
    and b: "b = conn_interrupt (agent_update_gathering_done a2)"
    using assms unfolding agent_resolve_servers_def a1 bind.bind_lunit Let_def
    by (cases "cfg_stun_server_host (ag_config a1)") (auto simp: bind_eq_Some_conv)
  have "keeps a a1" using a1 keeps_resolve_relays by (fastforce split: if_splits)
  moreover have "keeps a1 a2" using a2 keeps_trans [OF keeps_world(16) keeps_register_servers] by auto
  ultimately show ?thesis unfolding b by (intro frame_intros) (rule keeps_trans)
qed

lemma keeps_gather_candidates: 
  assumes "agent_gather_candidates ok addrs numeric thread resolve a = Some (ret, b)"
  shows "keeps a b"
proof -
  obtain r a1 where h: "agent_gather_hosts ok addrs a = (r, a1)" by (cases "agent_gather_hosts ok addrs a")
  show ?thesis
    using assms keeps_gather_hosts [OF h] keeps_trans [OF keeps_gather_hosts [OF h] keeps_resolve_servers]
    by (auto simp: agent_gather_candidates_def h bind_eq_Some_conv split: sum.splits if_splits intro!: frame_intros)
qed

subsection \<open>Runs\<close>

datatype agent_event = Received bytes addr_record | Called

inductive agent_step :: "agent_event \<Rightarrow> juice_agent \<Rightarrow> juice_agent \<Rightarrow> bool" where
  recv: "agent_conn_recv d src a = Some (ret, b) \<Longrightarrow> agent_step (Received d src) a b"
| update: "agent_conn_update a = Some (t, b) \<Longrightarrow> agent_step Called a b"
| conn_fail: "agent_step Called a (agent_conn_fail a)"
| tcp_state: "agent_conn_tcp_state dst st a = Some (ret, b) \<Longrightarrow> agent_step Called a b"
| send: "agent_send data ds a = Some (ret, b) \<Longrightarrow> agent_step Called a b"
| local_description: "agent_get_local_description buffer a = (ret, out, b) \<Longrightarrow> agent_step Called a b"
| remote_description: "agent_set_remote_description sdp a = Some (ret, b) \<Longrightarrow> agent_step Called a b"
| remote_candidate: "agent_add_remote_candidate sdp a = Some (ret, b) \<Longrightarrow> agent_step Called a b"
| remote_done: "agent_set_remote_gathering_done a = (ret, b) \<Longrightarrow> agent_step Called a b"
| local_attributes: "agent_set_local_ice_attributes ufrag pwd a = (ret, b) \<Longrightarrow> agent_step Called a b"
| turn_server: "agent_add_turn_server server a = (ret, b) \<Longrightarrow> agent_step Called a b"
| tcp_mode: "agent_set_ice_tcp_mode mode a = (ret, b) \<Longrightarrow> agent_step Called a b"
| gather: "agent_gather_candidates ok addrs numeric thread_ok resolve a = Some (ret, b) \<Longrightarrow> agent_step Called a b"
| turn_port: "agent_step Called a (set_turn_port i a)"
| relay: "register_relay i server records (n, a) = Some (n', b) \<Longrightarrow> agent_step Called a b"
| stun_port: "agent_step Called a (a\<lparr>ag_config := (ag_config a)\<lparr>cfg_stun_server_port := port\<rparr>\<rparr>)"
| servers: "register_servers records a = Some b \<Longrightarrow> agent_step Called a b"
| resolved: "agent_step Called a (conn_interrupt (agent_update_gathering_done a))"
| backend: "agent_step Called a (a\<lparr>ag_env := (ag_env a)\<lparr>env_tcp_connecting := busy\<rparr>\<rparr>)"

text \<open>A run, latest state first.\<close>

inductive agent_run :: "(agent_event \<times> juice_agent) list \<Rightarrow> bool" where
  create: "agent_run [(Called, agent_create config env)]"
| step: "agent_run ((ev, a) # run) \<Longrightarrow> agent_step ev' a b \<Longrightarrow> agent_run ((ev', b) # (ev, a) # run)"

text \<open>Every step keeps the frame up to a confirmation, a selection or the first remote description.\<close>

lemma step_cases:
  assumes "agent_step ev a b" "entries_ok a"
  obtains (select) "selects a b"
  | (confirm) d src p buf src' where "ev = Received d src" "carries a d src None buf src'"
      "confirms (ice_pwd (ag_remote a)) buf src' p b" "keeps_but {p} a b"
  | (describe) d where "ice_ufrag (ag_remote a) = []" "ice_ufrag d \<noteq> []" "ice_pwd d \<noteq> []" "keeps (a\<lparr>ag_remote := d\<rparr>) b"
proof -
  have kept: thesis if "keeps a b" using select [OF keeps_selects [OF that]] .
  show thesis
    using assms(1)
  proof cases
    case (recv d src ret)
    then show thesis using conn_recv_confirms [OF recv(2) assms(2)] kept confirm unfolding confirmed_def confirmed_by_def by blast
  next
    case (update t)
    then show thesis using select [OF selects_bookkeeping] unfolding agent_conn_update_def by blast
  next
    case conn_fail
    then show thesis using select selects_fail_session unfolding agent_conn_fail_def by blast
  next
    case (remote_description sdp ret)
    then show thesis using set_remote_description_cases [OF remote_description(2)] describe kept by blast
  next
    case backend
    then show thesis by (intro kept) (simp add: keeps_def)
  next
    case tcp_state
    then show thesis using kept keeps_conn_tcp_state by blast
  next
    case send
    then show thesis using kept keeps_agent_send by blast
  next
    case local_description
    then show thesis using kept keeps_get_local_description by blast
  next
    case remote_candidate
    then show thesis using kept keeps_add_remote_candidate by blast
  next
    case remote_done
    then show thesis using kept keeps_remote_gathering_done by blast
  next
    case local_attributes
    then show thesis using kept keeps_settings(1) by blast
  next
    case turn_server
    then show thesis using kept keeps_settings(2) by blast
  next
    case tcp_mode
    then show thesis using kept keeps_settings(3) by blast
  next
    case gather
    then show thesis using kept keeps_gather_candidates by blast
  next
    case relay
    then show thesis using kept keeps_register_relay by blast
  next
    case servers
    then show thesis using kept keeps_register_servers by blast
  next
    case turn_port
    show thesis by (rule kept, unfold turn_port) (intro frame_intros keeps_refl)
  next
    case stun_port
    show thesis by (rule kept, unfold stun_port) (intro frame_intros keeps_refl)
  next
    case resolved
    show thesis by (rule kept, unfold resolved) (intro frame_intros keeps_refl)
  qed
qed

subsection \<open>The invariant of runs\<close>

text \<open>\<open>brought run buf src' b\<close>: in the run a datagram was received that carried \<open>buf\<close> from \<open>src'\<close>; it was taken in the
  state before it, and \<open>b\<close> is the one after it.\<close>

definition brought :: "(agent_event \<times> juice_agent) list \<Rightarrow> bytes \<Rightarrow> addr_record \<Rightarrow> juice_agent \<Rightarrow> bool" where
  "brought run buf src' b \<longleftrightarrow> (\<exists>later d src ev a earlier. run = later @ (Received d src, b) # (ev, a) # earlier
     \<and> carries a d src None buf src')"

lemma brought_mono: "brought run buf src' b \<Longrightarrow> brought (x # run) buf src' b"
  unfolding brought_def by (metis append_Cons)

lemma brought_now: "carries a d src None buf src' \<Longrightarrow> brought ((Received d src, b) # (ev, a) # run) buf src' b"
  unfolding brought_def by (metis append_Nil)

lemma brought_member: "brought run buf src' b \<Longrightarrow> \<exists>ev. (ev, b) \<in> set run"
  by (auto simp: brought_def)

definition evidence :: "(agent_event \<times> juice_agent) list \<Rightarrow> bytes \<Rightarrow> nat \<Rightarrow> bool" where
  "evidence run pwd p \<longleftrightarrow> (\<exists>b buf src'. brought run buf src' b \<and> confirms pwd buf src' p b)"

definition run_inv :: "(agent_event \<times> juice_agent) list \<Rightarrow> juice_agent \<Rightarrow> bool" where
  "run_inv run a \<longleftrightarrow> entries_ok a \<and> paired (ag_entries a) (ag_pairs a)
     \<and> (ice_ufrag (ag_remote a) = [] \<longrightarrow> ice_pwd (ag_remote a) = [])
     \<and> (\<forall>p < length (ag_pairs a). valid_pair (ag_pairs a ! p) \<longrightarrow> evidence run (ice_pwd (ag_remote a)) p)
     \<and> (\<forall>i. ag_selected_entry a = Some i \<longrightarrow> i < length (ag_entries a)
          \<and> (\<exists>p. en_pair (ag_entries a ! i) = Some p \<and> evidence run (ice_pwd (ag_remote a)) p))
     \<and> (\<forall>(ev, b) \<in> set run. entries_frame (ag_entries b) (ag_entries a))"

lemma evidence_mono: "evidence run pwd p \<Longrightarrow> evidence (x # run) pwd p"
  unfolding evidence_def using brought_mono by blast

lemma evidence_password: "evidence run pwd p \<Longrightarrow> pwd \<noteq> []"
  by (auto simp: evidence_def confirms_def)

lemma history_frame:
  assumes "\<forall>(ev, b) \<in> set run. entries_frame (ag_entries b) (ag_entries a)" "entries_frame (ag_entries a) (ag_entries c)"
  shows "\<forall>(ev, b) \<in> set ((ev', c) # run). entries_frame (ag_entries b) (ag_entries c)"
  using assms entries_frame_trans by fastforce

lemma run_inv_selects:
  assumes inv: "run_inv run a" and s: "selects a b"
  shows "run_inv ((ev, b) # run) b"
proof -
  have e: "entries_frame (ag_entries a) (ag_entries b)" and pw: "ice_pwd (ag_remote b) = ice_pwd (ag_remote a)"
    "ice_ufrag (ag_remote b) = ice_ufrag (ag_remote a)" and pf: "pairs_frame (ag_pairs a) (ag_pairs b)"
    and pr: "paired (ag_entries b) (ag_pairs b)" and v: "selected_valid a b"
    using s inv by (auto simp: selects_def run_inv_def)
  have valid: "evidence ((ev, b) # run) (ice_pwd (ag_remote b)) p" if "p < length (ag_pairs a)" "valid_pair (ag_pairs a ! p)" for p
    using inv that evidence_mono by (simp add: run_inv_def pw)
  have same: "i < length (ag_entries b) \<and> en_pair (ag_entries b ! i) = en_pair (ag_entries a ! i)" if "i < length (ag_entries a)" for i
    using e that by (auto simp: entries_frame_def entry_frame_def)
  have "i < length (ag_entries b) \<and> (\<exists>p. en_pair (ag_entries b ! i) = Some p \<and> evidence ((ev, b) # run) (ice_pwd (ag_remote b)) p)"
    if i: "ag_selected_entry b = Some i" for i
    using v unfolding selected_valid_def
  proof (elim disjE exE conjE)
    assume "ag_selected_entry b = ag_selected_entry a"
    then show ?thesis using inv i same evidence_mono unfolding run_inv_def pw by metis
  next
    fix j p assume "ag_selected_entry b = Some j" "j < length (ag_entries b)" "en_pair (ag_entries b ! j) = Some p"
      "p < length (ag_pairs a)" "valid_pair (ag_pairs a ! p)"
    then show ?thesis using i valid by simp
  qed (use i in simp)
  moreover have "entries_ok b" using entries_ok_frame [OF e] inv by (simp add: run_inv_def)
  moreover have "\<forall>(ev, c) \<in> set ((ev, b) # run). entries_frame (ag_entries c) (ag_entries b)"
    using inv unfolding run_inv_def by (intro history_frame [OF _ e]) blast
  moreover have "\<forall>p < length (ag_pairs b). valid_pair (ag_pairs b ! p) \<longrightarrow> evidence ((ev, b) # run) (ice_pwd (ag_remote b)) p"
    using pf valid by (auto simp: pairs_frame_def)
  ultimately show ?thesis using inv pr pw unfolding run_inv_def by simp
qed

lemma run_inv_confirm:
  assumes inv: "run_inv ((ev, a) # earlier) a" and k: "keeps_but {p} a b"
    and c: "carries a d src None buf src'" "confirms (ice_pwd (ag_remote a)) buf src' p b"
  shows "run_inv ((Received d src, b) # (ev, a) # earlier) b"
proof -
  let ?old = "(ev, a) # earlier"
  have e: "entries_frame (ag_entries a) (ag_entries b)" and pw: "ice_pwd (ag_remote b) = ice_pwd (ag_remote a)"
    "ice_ufrag (ag_remote b) = ice_ufrag (ag_remote a)" and sel: "ag_selected_entry b = ag_selected_entry a"
    and pr: "paired (ag_entries b) (ag_pairs b)"
    using k inv by (auto simp: keeps_but_def run_inv_def)
  let ?run = "(Received d src, b) # (ev, a) # earlier"
  have "evidence ?run (ice_pwd (ag_remote b)) p" using c brought_now unfolding evidence_def pw by blast
  then have "\<forall>q < length (ag_pairs b). valid_pair (ag_pairs b ! q) \<longrightarrow> evidence ?run (ice_pwd (ag_remote b)) q"
    using k inv evidence_mono unfolding keeps_but_def run_inv_def pw by blast
  moreover have "i < length (ag_entries b) \<and> (\<exists>p. en_pair (ag_entries b ! i) = Some p \<and> evidence ?run (ice_pwd (ag_remote b)) p)"
    if i: "ag_selected_entry b = Some i" for i
  proof -
    obtain q where "i < length (ag_entries a)" "en_pair (ag_entries a ! i) = Some q" "evidence ?old (ice_pwd (ag_remote a)) q"
      using inv i sel by (auto simp: run_inv_def)
    then show ?thesis using e evidence_mono by (auto simp: entries_frame_def entry_frame_def pw)
  qed
  moreover have "entries_ok b" using entries_ok_frame [OF e] inv by (simp add: run_inv_def)
  moreover have "\<forall>(ev, c) \<in> set ?run. entries_frame (ag_entries c) (ag_entries b)"
    using inv unfolding run_inv_def by (intro history_frame [OF _ e]) blast
  ultimately show ?thesis using inv pr pw unfolding run_inv_def by simp
qed

text \<open>Before the first remote description no pair can have been confirmed.\<close>

lemma run_inv_describe:
  assumes inv: "run_inv run a" and "ice_ufrag (ag_remote a) = []" "ice_ufrag d \<noteq> []" "keeps (a\<lparr>ag_remote := d\<rparr>) b"
  shows "run_inv ((ev, b) # run) b"
proof -
  have "\<not> evidence run (ice_pwd (ag_remote a)) p" for p using inv assms(2) evidence_password by (auto simp: run_inv_def)
  then have "run_inv run (a\<lparr>ag_remote := d\<rparr>)" using inv assms(3) by (auto simp: run_inv_def entries_ok_def)
  then show ?thesis using run_inv_selects keeps_selects [OF assms(4)] by blast
qed

lemma draw_bytes_agent: "\<exists>env. snd (draw_bytes n a) = a\<lparr>ag_env := env\<rparr>"
proof (induction n arbitrary: a)
  case 0
  show ?case by (rule exI [of _ "ag_env a"]) simp
next
  case (Suc n)
  obtain env where "snd (draw_bytes n (snd (juice_random 1 a))) = (snd (juice_random 1 a))\<lparr>ag_env := env\<rparr>" using Suc by blast
  then show ?case by (auto simp: case_prod_unfold Let_def juice_random_def)
qed

lemma create_fields:
  "ag_entries (agent_create config env) = []" "ag_pairs (agent_create config env) = []"
  "ag_selected_entry (agent_create config env) = None" "ag_remote (agent_create config env) = zero_description"
proof -
  obtain e1 where 1: "snd (draw_bytes 4 (zero_agent config env)) = (zero_agent config env)\<lparr>ag_env := e1\<rparr>" using draw_bytes_agent by blast
  obtain e2 where 2: "snd (draw_bytes 22 ((zero_agent config env)\<lparr>ag_env := e1\<rparr>)) = (zero_agent config env)\<lparr>ag_env := e2\<rparr>"
    using draw_bytes_agent [of 22 "(zero_agent config env)\<lparr>ag_env := e1\<rparr>"] by auto
  show "ag_entries (agent_create config env) = []" "ag_pairs (agent_create config env) = []"
    "ag_selected_entry (agent_create config env) = None" "ag_remote (agent_create config env) = zero_description"
    by (simp_all add: agent_create_def case_prod_unfold Let_def juice_random_def 1 2) (simp_all add: zero_agent_def)
qed

lemma run_inv_holds: "agent_run run \<Longrightarrow> run_inv run (snd (hd run))"
proof (induction rule: agent_run.induct)
  case (create config env)
  show ?case by (simp add: run_inv_def create_fields entries_ok_def paired_def zero_description_def)
next
  case (step ev a run ev' b)
  then have inv: "run_inv ((ev, a) # run) a" and "entries_ok a" by (simp_all add: run_inv_def)
  from step.hyps(2) this(2) have "run_inv ((ev', b) # (ev, a) # run) b"
    by (cases rule: step_cases) (use inv run_inv_selects run_inv_confirm run_inv_describe in blast)+
  then show ?case by simp
qed

subsection \<open>Application data go to the authenticated peer\<close>

text \<open>Entry \<open>i\<close> has been answered: a datagram of the run was, or carried through a relay, a binding success response with the integrity
  of \<open>pwd\<close>, for the transaction the entry had then, and its sender (the source of the datagram, or the peer that the relay names) is
  the address.\<close>

definition answered :: "(agent_event \<times> juice_agent) list \<Rightarrow> bytes \<Rightarrow> addr_record \<Rightarrow> nat \<Rightarrow> bool" where
  "answered run pwd address i \<longleftrightarrow> (\<exists>b buf src' n msg. brought run buf src' b
     \<and> stun_read buf = Some (Some (n, msg))
     \<and> msg_method msg = STUN_METHOD_BINDING \<and> msg_class msg = STUN_CLASS_RESP_SUCCESS
     \<and> stun_check_integrity buf msg (Some pwd) = Some True
     \<and> i < length (ag_entries b) \<and> memcmp (transaction_id msg) (en_transaction_id (ag_entries b ! i)) = 0
     \<and> addr_record_is_equal src' address True)"

lemma selected_answered:
  assumes "agent_run ((ev, a) # run)" "ag_selected_entry a = Some i"
  shows "i < length (ag_entries a) \<and> ice_pwd (ag_remote a) \<noteq> []
    \<and> answered ((ev, a) # run) (ice_pwd (ag_remote a)) (en_record (ag_entries a ! i)) i"
proof -
  have inv: "run_inv ((ev, a) # run) a" using run_inv_holds [OF assms(1)] by simp
  obtain p where p: "i < length (ag_entries a)" "en_pair (ag_entries a ! i) = Some p"
    "evidence ((ev, a) # run) (ice_pwd (ag_remote a)) p"
    using inv assms(2) unfolding run_inv_def by blast
  obtain b buf src' n msg j where r: "brought ((ev, a) # run) buf src' b"
    and c: "stun_read buf = Some (Some (n, msg))" "msg_method msg = STUN_METHOD_BINDING" "msg_class msg = STUN_CLASS_RESP_SUCCESS"
      "stun_check_integrity buf msg (Some (ice_pwd (ag_remote a))) = Some True"
    and j: "j < length (ag_entries b)" "en_type (ag_entries b ! j) = AGENT_STUN_ENTRY_TYPE_CHECK" "en_pair (ag_entries b ! j) = Some p"
      "memcmp (transaction_id msg) (en_transaction_id (ag_entries b ! j)) = 0"
      "addr_record_is_equal src' (en_record (ag_entries b ! j)) True"
    using p(3) unfolding evidence_def confirms_def by blast
  have "entries_frame (ag_entries b) (ag_entries a)" using inv brought_member [OF r] unfolding run_inv_def by blast
  then have f: "j < length (ag_entries a)" "en_pair (ag_entries a ! j) = Some p" "en_record (ag_entries a ! j) = en_record (ag_entries b ! j)"
    using j by (auto simp: entries_frame_def entry_frame_def)
  have "j = i" using inv paired_unique [OF _ f(1) p(1) f(2) p(2)] unfolding run_inv_def by blast
  then have "answered ((ev, a) # run) (ice_pwd (ag_remote a)) (en_record (ag_entries a ! i)) i"
    unfolding answered_def using r c j f(3)
    by (intro exI [of _ b] exI [of _ buf] exI [of _ src'] exI [of _ n] exI [of _ msg]) simp
  then show ?thesis using p evidence_password by blast
qed

text \<open>(C23) In every run of the agent, whatever the order of calls and whatever the datagrams: \<^verbatim>\<open>agent_send\<close> either fails because no pair is
  selected, or sends (directly, or through the relay of the entry) to the address of a selected entry that was answered from that
  address with the integrity of the password in the remote description.  The answer was in a datagram received from that address, or
  in one that a relay of the agent passed on as sent by that address.
\<close>

theorem application_data_authenticated:
  assumes "agent_run ((ev, a) # run)"
  shows "(ag_selected_entry a = None \<and> agent_send data ds a = Some (-1, a))
    \<or> (\<exists>i < length (ag_entries a). ag_selected_entry a = Some i \<and> ice_pwd (ag_remote a) \<noteq> []
        \<and> answered ((ev, a) # run) (ice_pwd (ag_remote a)) (en_record (ag_entries a ! i)) i
        \<and> agent_send data ds a = (case en_relay_entry (ag_entries a ! i) of
            None \<Rightarrow> Some (agent_direct_send (en_record (ag_entries a ! i)) data ds a)
          | Some r \<Rightarrow> agent_channel_send r (en_record (ag_entries a ! i)) data ds a))"
proof (cases "ag_selected_entry a")
  case None
  then show ?thesis by (simp add: agent_send_def)
next
  case (Some i)
  have "agent_send data ds a = (case en_relay_entry (ag_entries a ! i) of
      None \<Rightarrow> Some (agent_direct_send (en_record (ag_entries a ! i)) data ds a)
    | Some r \<Rightarrow> agent_channel_send r (en_record (ag_entries a ! i)) data ds a)"
    by (simp add: agent_send_def Some split: option.split)
  then show ?thesis using selected_answered [OF assms Some] Some by blast
qed

text \<open>The run of the worked example: its last state has selected the pair of the peer that answered.\<close>

theorem application_data_authenticated_witness:
  "\<exists>run ev a i. agent_run ((ev, a) # run) \<and> ag_selected_entry a = Some i \<and> i < length (ag_entries a)
    \<and> answered ((ev, a) # run) (ice_pwd (ag_remote a)) (en_record (ag_entries a ! i)) i
    \<and> agent_send [1] 0 a = (case en_relay_entry (ag_entries a ! i) of
        None \<Rightarrow> Some (agent_direct_send (en_record (ag_entries a ! i)) [1] 0 a)
      | Some r \<Rightarrow> agent_channel_send r (en_record (ag_entries a ! i)) [1] 0 a)"
proof -
  obtain l t k where start: "agent_create plain_config meeting_world = meeting_agent l t k" "candidates l = []"
    using meeting_start by blast
  obtain t' b where last: "agent_conn_update (checked_agent l t k) = Some (t', b)" "ag_selected_entry b = Some 0"
    using meeting_selects by blast
  have 0: "agent_run [(Called, meeting_agent l t k)]"
    unfolding start(1) [symmetric] by (rule agent_run.create)
  note 1 = agent_run.step [OF 0 agent_step.remote_description [OF meeting_described [OF start(2)]]]
  note 2 = agent_run.step [OF 1 agent_step.gather [OF meeting_gathered [OF start(2)]]]
  note 3 = agent_run.step [OF 2 agent_step.recv [OF meeting_received_step]]
  note 4 = agent_run.step [OF 3 agent_step.update [OF last(1)]]
  from application_data_authenticated [OF 4, of "[1]" 0] 4 last(2) show ?thesis
    by auto
qed

end
