(* ===== verification/Udp_Props.thy ===== *)
theory Udp_Props
  imports Udp
begin

text \<open>
  What \<^verbatim>\<open>udp.c\<close> guarantees: a port range is searched completely, and the addresses listed for a socket may be given to a
  peer.
\<close>

subsection \<open>The ports of a range\<close>

text \<open>The counter an attempt uses.\<close>

definition counter :: "u32 \<Rightarrow> u32 \<Rightarrow> u32" where
  "counter cnt seed = (if cnt = 0 then seed else cnt)"

lemma uint_ucast32 [simp]: "uint (ucast x :: u32) = uint x" for x :: u16
  using uint_bounded [of x] by (simp add: unsigned_ucast_eq take_bit_int_eq_self_iff)

lemma uint_diff32:
  fixes b e :: u16
  assumes "b \<le> e"
  shows "uint (ucast e - ucast b :: u32) = uint e - uint b"
  using assms by (subst uint_sub_if') (auto simp: word_le_def)

lemma uint_port32:
  fixes b e :: u16 and c :: u32
  assumes "b \<le> e"
  shows "uint (ucast b + c mod (ucast e - ucast b + 1)) = uint b + uint c mod (uint e - uint b + 1)"
proof -
  have e: "uint e < 65536" using uint_bounded [of e] by simp
  have b: "0 \<le> uint b" "uint b \<le> uint e" using assms by (auto simp: word_le_def)
  have d: "uint (ucast e - ucast b + 1 :: u32) = uint e - uint b + 1"
  proof (subst uint_add_lem [THEN iffD1])
    have "uint e - uint b < 4294967295" using e uint_ge_0 [of b] by linarith
    then show "uint (ucast e - ucast b :: u32) + uint (1 :: u32) < 2 ^ LENGTH(32)" by (simp add: uint_diff32 assms)
  qed (simp add: uint_diff32 assms)
  have m: "uint (c mod (ucast e - ucast b + 1)) = uint c mod (uint e - uint b + 1)"
    by (simp add: uint_mod d)
  have "uint c mod (uint e - uint b + 1) \<le> uint e - uint b" using b by (smt (verit) pos_mod_bound)
  then show ?thesis using e b by (subst uint_add_lem [THEN iffD1]) (auto simp: m)
qed

lemma get_next_port:
  assumes "b \<noteq> 0" and "b < e"
  shows "get_next_port_in_range b e cnt seed =
     (of_int (uint b + uint (counter cnt seed) mod (uint e - uint b + 1)), counter cnt seed + 1)"
proof -
  have e: "uint e < 65536" using uint_bounded [of e] by simp
  have b: "0 \<le> uint b" "uint b < uint e" using assms by (auto simp: word_less_def)
  have ne: "e \<noteq> 0" using assms(2) by auto
  have p: "ucast (ucast b + c mod (ucast e - ucast b + 1) :: u32) = (of_int (uint b + uint c mod (uint e - uint b + 1)) :: u16)" for c :: u32
    by (simp add: uint_port32 [OF less_imp_le [OF assms(2)], symmetric])
  show ?thesis
    unfolding get_next_port_in_range_def Let_def counter_def
    using assms ne less_imp_neq [OF assms(2)] by (simp add: p del: of_int_add)
qed

text \<open>The port that attempt number \<open>j\<close> takes, counted from the counter \<open>c\<close>.\<close>

definition port_at :: "u16 \<Rightarrow> u16 \<Rightarrow> int \<Rightarrow> u16" where
  "port_at b e c = of_int (uint b + c mod (uint e - uint b + 1))"

lemma set_port_twice [simp]: "snd (addr_set_port (snd (addr_set_port sa p)) q) = snd (addr_set_port sa q)"
  by (cases sa) auto

lemma bind_loop_step:
  assumes "b \<noteq> 0" and "b < e"
  shows "bind_loop bnd b e seed sa k retries cnt =
     (let c = counter cnt seed; sa1 = snd (addr_set_port sa (port_at b e (uint c)))
      in case bnd k sa1 of
           Bind_ok \<Rightarrow> (Some sa1, c + 1)
         | Bind_error \<Rightarrow> (None, c + 1)
         | _ \<Rightarrow> if retries > 0 then bind_loop bnd b e seed sa1 (Suc k) (retries - 1) (c + 1) else (None, c + 1))"
  by (subst bind_loop.simps) (simp add: get_next_port [OF assms] port_at_def Let_def)

lemma counter_next:
  assumes "uint c + 1 < 2 ^ 32"
  shows "uint (counter (c + 1) seed) = uint c + 1"
proof -
  have u: "uint (c + 1) = uint c + 1" using assms by (subst uint_add_lem [THEN iffD1]) auto
  then have "c + 1 \<noteq> 0" using uint_ge_0 [of c] by (metis add.commute add_pos_nonneg less_irrefl uint_0_eq zero_less_one)
  with u show ?thesis by (simp add: counter_def)
qed

lemma bind_loop_finds:
  assumes be: "b \<noteq> 0" "b < e" and err: "\<And>k x. bnd k x \<noteq> Bind_error"
    and "int n \<le> retries" and "uint (counter cnt seed) + int n < 2 ^ 32"
    and "\<And>k. bnd k (snd (addr_set_port sa (port_at b e (uint (counter cnt seed) + int n)))) = Bind_ok"
  shows "\<exists>i cnt'. bind_loop bnd b e seed sa k retries cnt = (Some (snd (addr_set_port sa (port_at b e i))), cnt')"
  using assms(4-)
proof (induction n arbitrary: sa k retries cnt)
  case 0
  then show ?case by (subst bind_loop_step [OF be]) (auto simp: Let_def)
next
  case (Suc n)
  define c where "c = counter cnt seed"
  define sa1 where "sa1 = snd (addr_set_port sa (port_at b e (uint c)))"
  have shift: "uint c + int (Suc n) = uint c + 1 + int n" by simp
  have next_c: "uint (counter (c + 1) seed) = uint c + 1"
    using Suc.prems(2) by (intro counter_next) (simp add: c_def)
  have "\<exists>i cnt'. bind_loop bnd b e seed sa1 (Suc k) (retries - 1) (c + 1)
      = (Some (snd (addr_set_port sa1 (port_at b e i))), cnt')"
    using Suc.prems(1) Suc.prems(2,3) [folded c_def, unfolded shift] by (intro Suc.IH) (auto simp: next_c sa1_def)
  then have rec: "\<exists>i cnt'. bind_loop bnd b e seed sa1 (Suc k) (retries - 1) (c + 1)
      = (Some (snd (addr_set_port sa (port_at b e i))), cnt')"
    by (simp add: sa1_def)
  show ?case
  proof (cases "bnd k sa1")
    case Bind_ok
    then show ?thesis by (subst bind_loop_step [OF be]) (auto simp: Let_def c_def sa1_def)
  next
    case Bind_error
    with err show ?thesis by blast
  qed (use rec Suc.prems(1) in \<open>(subst bind_loop_step [OF be], simp add: Let_def c_def [symmetric] sa1_def [symmetric])+\<close>)
qed

text \<open>Every port of the range is the one of an attempt.\<close>

lemma port_at_covers:
  assumes "b \<le> p" and "p \<le> e"
  shows "\<exists>n. int n \<le> uint e - uint b \<and> port_at b e (c + int n) = p"
proof -
  define m where "m = uint e - uint b + 1"
  define n where "n = nat ((uint p - uint b - c) mod m)"
  have le: "uint b \<le> uint p" "uint p \<le> uint e" using assms by (auto simp: word_le_def)
  then have m: "0 < m" by (simp add: m_def)
  then have n: "int n = (uint p - uint b - c) mod m" by (simp add: n_def)
  have "(c + int n) mod m = (uint p - uint b) mod m" unfolding n by (simp add: mod_simps)
  also have "\<dots> = uint p - uint b" using le by (simp add: m_def)
  finally have "port_at b e (c + int n) = p" by (simp add: port_at_def m_def)
  moreover have "int n \<le> uint e - uint b" using pos_mod_bound [OF m, of "uint p - uint b - c"] by (simp add: n m_def)
  ultimately show ?thesis by blast
qed

lemma port_at_in_range:
  assumes "b \<le> e"
  shows "b \<le> port_at b e c \<and> port_at b e c \<le> e"
proof -
  have e: "uint e < 65536" using uint_bounded [of e] by simp
  have b: "0 \<le> uint b" "uint b \<le> uint e" using assms by (auto simp: word_le_def)
  have "0 \<le> c mod (uint e - uint b + 1)" "c mod (uint e - uint b + 1) \<le> uint e - uint b"
    using b pos_mod_bound [of "uint e - uint b + 1" c] by auto
  then have "uint (port_at b e c) = uint b + c mod (uint e - uint b + 1)"
    using e b unfolding port_at_def uint_word_of_int by (subst mod_pos_pos_trivial) auto
  then show ?thesis using b \<open>0 \<le> c mod _\<close> \<open>c mod _ \<le> _\<close> by (simp add: word_le_def)
qed

text \<open>(C32) A port range is searched to its end: when some port of the range can be bound and the failures of the others are
  \<^verbatim>\<open>EADDRINUSE\<close> or \<^verbatim>\<open>EACCES\<close>, opening the socket succeeds on a port of the range, wherever the
  counter of the attempts stands, as long as it does not wrap around on the way.\<close>

theorem port_range_exhausted:
  assumes "port_begin config \<noteq> 0" and "port_begin config < port_end config"
    and "sys_socket sys \<noteq> INVALID_SOCKET" and "sys_nonblocking sys" and "\<forall>k x. sys_bind sys k x \<noteq> Bind_error"
    and "port_begin config \<le> p" and "p \<le> port_end config"
    and "\<forall>k. sys_bind sys k (snd (addr_set_port (ai_addr ai) p)) = Bind_ok"
    and "uint (if cnt = 0 then sys_seed sys else cnt) + (uint (port_end config) - uint (port_begin config)) < 2 ^ 32"
  shows "\<exists>q cnt'. port_begin config \<le> q \<and> q \<le> port_end config \<and>
    create_socket_for_addrinfo sys config ai cnt = (sys_socket sys, Some (snd (addr_set_port (ai_addr ai) q)), cnt')"
proof -
  let ?b = "port_begin config" and ?e = "port_end config" and ?c = "uint (counter cnt (sys_seed sys))"
  obtain n where n: "int n \<le> uint ?e - uint ?b" "port_at ?b ?e (?c + int n) = p"
    using port_at_covers [OF assms(6,7)] by blast
  have "\<exists>i cnt'. bind_loop (sys_bind sys) ?b ?e (sys_seed sys) (ai_addr ai) 0 (uint ?e - uint ?b) cnt
      = (Some (snd (addr_set_port (ai_addr ai) (port_at ?b ?e i))), cnt')"
    using assms n by (intro bind_loop_finds [of _ _ _ n]) (auto simp: counter_def)
  then obtain i cnt' where "bind_loop (sys_bind sys) ?b ?e (sys_seed sys) (ai_addr ai) 0 (uint ?e - uint ?b) cnt
      = (Some (snd (addr_set_port (ai_addr ai) (port_at ?b ?e i))), cnt')" by blast
  moreover have "?b \<le> port_at ?b ?e i \<and> port_at ?b ?e i \<le> ?e" using assms(2) by (intro port_at_in_range) simp
  ultimately show ?thesis
    using assms(1-4) less_imp_neq [OF assms(2)]
    by (intro exI [of _ "port_at ?b ?e i"] exI [of _ cnt']) (simp add: create_socket_for_addrinfo_def)
qed

theorem port_range_exhausted_witness:
  "\<exists>q cnt'. 40000 \<le> q \<and> q \<le> (40003 :: u16) \<and>
    create_socket_for_addrinfo
      \<lparr>sys_socket = 7, sys_nonblocking = True,
        sys_bind = (\<lambda>k sa. if addr_get_port sa = 40001 then Bind_ok else Bind_in_use), sys_seed = 6\<rparr>
      \<lparr>bind_address = None, port_begin = 40000, port_end = 40003\<rparr>
      \<lparr>ai_addr = Sin 0 (replicate 4 0), ai_addrlen = 16\<rparr> 0 =
    (7, Some (snd (addr_set_port (Sin 0 (replicate 4 0)) q)), cnt')"
proof -
  have "addr_get_port (snd (addr_set_port (Sin 0 (replicate 4 0)) 40001)) = 40001" by code_simp
  then show ?thesis
    using port_range_exhausted [of "\<lparr>bind_address = None, port_begin = 40000, port_end = 40003\<rparr>"
      "\<lparr>sys_socket = 7, sys_nonblocking = True,
        sys_bind = (\<lambda>k sa. if addr_get_port sa = 40001 then Bind_ok else Bind_in_use), sys_seed = 6\<rparr>" 40001
      "\<lparr>ai_addr = Sin 0 (replicate 4 0), ai_addrlen = 16\<rparr>" 0]
    by (simp add: INVALID_SOCKET_def)
qed

text \<open>A range that is open at its end is tried once: the number of retries is computed from the zero that stands for the
  last port.\<close>

lemma open_range_tried_once:
  assumes "port_end config = 0" and "port_begin config \<noteq> 0"
    and "\<forall>sa. sys_bind sys 0 sa \<noteq> Bind_ok"
  shows "fst (create_socket_for_addrinfo sys config ai cnt) = INVALID_SOCKET"
proof -
  have "uint (port_begin config) > 0" using assms(2) by (simp add: word_neq_0_conv word_less_def)
  then show ?thesis
    using assms by (auto simp: create_socket_for_addrinfo_def bind_loop.simps [of _ _ _ _ _ 0] Let_def split: prod.splits bind_result.splits)
qed

subsection \<open>The addresses of an interface list\<close>

text \<open>An address that may be given to a peer.\<close>

definition advertised :: "u16 \<Rightarrow> u16 \<Rightarrow> addr_record \<Rightarrow> bool" where
  "advertised family port r \<longleftrightarrow> inet_family (ar_addr r) \<and> (sa_family (ar_addr r) = AF_INET6 \<longrightarrow> family = AF_INET6)
     \<and> \<not> addr_is_local (ar_addr r) \<and> addr_get_port (ar_addr r) = port \<and> ar_len r = addr_get_len (ar_addr r)
     \<and> ar_socktype r = SOCK_DGRAM"

lemma same_host_set_port [simp]:
  "same_host (snd (addr_set_port sa p)) x = same_host sa x" "same_host x (snd (addr_set_port sa p)) = same_host x sa"
  by (cases sa; cases x; simp add: same_host_def)+

lemma same_host_sym: "same_host x y = same_host y x"
  by (cases x; cases y) (auto simp: same_host_def)

lemma listed_interface_advertised:
  assumes "listed_interface family ifa = Some sa"
  shows "advertised family port \<lparr>ar_addr = snd (addr_set_port sa port), ar_len = addr_get_len sa, ar_socktype = SOCK_DGRAM\<rparr>"
  using assms
  by (cases sa) (auto simp: listed_interface_def advertised_def inet_family_def sa_family_def AF_INET_def AF_INET6_def Let_def
      split: if_splits option.splits)

lemma interfaces_loop_spec:
  assumes "interfaces_loop family port cnt ifas ret records = (n, rs)"
    and "list_all (advertised family port) records"
    and "sorted_wrt (\<lambda>r s. \<not> same_host (ar_addr r) (ar_addr s)) records"
    and "length records \<le> cnt" and "int (length records) = min ret (int cnt)"
  shows "list_all (advertised family port) rs \<and> sorted_wrt (\<lambda>r s. \<not> same_host (ar_addr r) (ar_addr s)) rs
    \<and> int (length rs) = min n (int cnt)"
  using assms
proof (induction family port cnt ifas ret records rule: interfaces_loop.induct)
  case (2 family port cnt ifa ifas ret records)
  show ?case
  proof (cases "listed_interface family ifa")
    case None
    with 2 show ?thesis by simp
  next
    case (Some sa)
    note adv = listed_interface_advertised [OF Some, of port]
    show ?thesis
    proof (cases "has_duplicate_addr sa records")
      case True
      with 2 Some show ?thesis by simp
    next
      case False
      then have "\<forall>r\<in>set records. \<not> same_host (ar_addr r) sa"
        by (auto simp: has_duplicate_addr_def list_ex_iff same_host_sym)
      with 2 Some False adv show ?thesis by (cases "length records = cnt") (auto simp: sorted_wrt_append)
    qed
  qed
qed auto

text \<open>(C33) For a socket bound to the wildcard address \<^verbatim>\<open>udp_get_addrs\<close> lists only addresses of a family the socket
  serves that are neither loopback nor link-local, all with the port of the socket and no two of the same host (for IPv6,
  network); it fills the array with as many as fit of those it counts.\<close>

theorem udp_get_addrs_advertised:
  assumes "udp_get_addrs (Some (sa, len)) (Some ifas) cnt = (n, records)" and "addr_is_any sa"
  shows "list_all (advertised (sa_family sa) (addr_get_port sa)) records
    \<and> sorted_wrt (\<lambda>r s. \<not> same_host (ar_addr r) (ar_addr s)) records \<and> int (length records) = min n (int cnt)"
  using assms interfaces_loop_spec [of "sa_family sa" "addr_get_port sa" cnt ifas 0 "[]" n records]
  by (simp add: udp_get_addrs_def udp_get_bound_addr_def)

theorem udp_get_addrs_advertised_witness:
  "list_all (advertised AF_INET 9)
     [\<lparr>ar_addr = Sin (htons 9) [192, 168, 0, 1], ar_len = 16, ar_socktype = SOCK_DGRAM\<rparr>]"
proof -
  have "udp_get_addrs (Some (Sin (htons 9) (replicate 4 0), 16))
      (Some [\<lparr>ifa_up = True, ifa_loopback = True, ifa_name = str_bytes ''lo'', ifa_addr = Some (Sin 0 [127, 0, 0, 1])\<rparr>,
             \<lparr>ifa_up = True, ifa_loopback = False, ifa_name = str_bytes ''eth0'', ifa_addr = Some (Sin 0 [192, 168, 0, 1])\<rparr>]) 8
      = (1, [\<lparr>ar_addr = Sin (htons 9) [192, 168, 0, 1], ar_len = 16, ar_socktype = SOCK_DGRAM\<rparr>])" by code_simp
  from udp_get_addrs_advertised [OF this] show ?thesis by (simp add: sa_family_def list_all_iff)
qed

end
