(* ===== verification/Server.thy ===== *)
theory Server
  imports Turn Stun_Read Udp Ice
begin

text \<open>
  \<^verbatim>\<open>libjuice/src/server.c\<close>: the STUN and TURN server, first part: its state, the world it acts on, creation, credentials,
  book-keeping and answers.

  A pointer to a node of the list of credentials is the address of the node; \<^verbatim>\<open>malloc\<close> is outside and may hand out an
  address again after it was freed.  A pointer into the table of allocations is an index.  What the server gets from
  outside (random bytes, the clock, memory, sockets, the results of \<^verbatim>\<open>sendto\<close>) is read from functions of the number of the
  call, and what it does outside is appended to a trace.  The mutex is held by the running thread except in \<^verbatim>\<open>poll\<close>;
  a function of the model is what one thread does under it.  \<open>None\<close> is undefined behaviour: an access through a null or
  dangling pointer or outside an array, or a division by zero.  Some branches of the code do not read the clock where the
  model does; the reading is then not used.
\<close>

subsection \<open>Constants\<close>

definition SERVER_DEFAULT_REALM :: bytes where "SERVER_DEFAULT_REALM = str_bytes ''libjuice''"
definition SERVER_DEFAULT_MAX_ALLOCATIONS :: int where "SERVER_DEFAULT_MAX_ALLOCATIONS = 1000"
definition SERVER_DEFAULT_MAX_PEERS :: int where "SERVER_DEFAULT_MAX_PEERS = 16"
definition SERVER_NONCE_KEY_SIZE :: nat where "SERVER_NONCE_KEY_SIZE = 32"
definition SERVER_NONCE_KEY_LIFETIME :: int where "SERVER_NONCE_KEY_LIFETIME = 600 * 1000"
definition ALLOCATION_LIFETIME :: int where "ALLOCATION_LIFETIME = 600000"
definition SERVER_PERMISSION_LIFETIME :: int where "SERVER_PERMISSION_LIFETIME = 300000"
definition SERVER_BIND_LIFETIME :: int where "SERVER_BIND_LIFETIME = 600000"
definition MAX_RELAYED_RECORDS_COUNT :: nat where "MAX_RELAYED_RECORDS_COUNT = 8"
definition SERVER_BUFFER_SIZE :: nat where "SERVER_BUFFER_SIZE = 4096"

subsection \<open>Data\<close>

datatype server_turn_alloc_state = SERVER_TURN_ALLOC_EMPTY | SERVER_TURN_ALLOC_DELETED | SERVER_TURN_ALLOC_FULL

record server_turn_alloc =
  sa_state :: server_turn_alloc_state
  sa_record :: addr_record
  sa_credentials :: "nat option"
  sa_transaction_id :: bytes
  sa_timestamp :: int
  sa_sock :: int
  sa_map :: turn_map

text \<open>Credentials as the application hands them over; a missing string is a null pointer.\<close>

record juice_server_credentials =
  scr_username :: "bytes option"
  scr_password :: "bytes option"
  scr_allocations_quota :: int

text \<open>A node of the list, with its address.\<close>

record juice_credentials_list =
  cl_addr :: nat
  cl_username :: bytes
  cl_password :: bytes
  cl_allocations_quota :: int
  cl_userhash :: bytes
  cl_timestamp :: int

record juice_server_config =
  scfg_credentials :: "juice_server_credentials list"
  scfg_max_allocations :: int
  scfg_max_peers :: int
  scfg_bind_address :: "bytes option"
  scfg_external_address :: "bytes option"
  scfg_port :: u16
  scfg_relay_port_range_begin :: u16
  scfg_relay_port_range_end :: u16
  scfg_realm :: "bytes option"

datatype server_output =
  Udp_sendto int bytes addr_record
| Udp_close int

record server_env =
  se_random :: "nat \<Rightarrow> nat \<Rightarrow> byte"
  se_draws :: nat
  se_clock :: "nat \<Rightarrow> int"
  se_ticks :: nat
  se_malloc :: "nat \<Rightarrow> nat option"
  se_mallocs :: nat
  se_socket :: "nat \<Rightarrow> udp_socket_config \<Rightarrow> int"
  se_sockets :: nat
  se_send_result :: "nat \<Rightarrow> int"
  se_sends :: nat
  se_self_result :: "addr_record \<Rightarrow> int"
  se_self_again :: bool
  se_name :: "int \<Rightarrow> (sockaddr \<times> nat) option"
  se_ifaddrs :: "ifaddr list option"
  se_getaddrinfo :: "bytes \<Rightarrow> bytes \<Rightarrow> (sockaddr \<times> nat) list option"
  se_thread :: int
  se_junk :: u16
  se_out :: "server_output list"

record juice_server =
  sv_max_allocations :: int
  sv_max_peers :: int
  sv_bind_address :: "bytes option"
  sv_external_address :: "bytes option"
  sv_port :: u16
  sv_relay_port_range_begin :: u16
  sv_relay_port_range_end :: u16
  sv_realm :: bytes
  sv_credentials :: "juice_credentials_list list"
  sv_nonce_key :: bytes
  sv_nonce_key_timestamp :: int
  sv_sock :: int
  sv_thread_stopped :: bool
  sv_allocs :: "server_turn_alloc list"
  sv_env :: server_env

text \<open>A map that is freed or was never made: no access to it is defined.\<close>

definition no_map :: turn_map where
  "no_map = \<lparr>tm_map = [], tm_ordered_channels = [], tm_ordered_transaction_ids = []\<rparr>"

definition zero_alloc :: server_turn_alloc where
  "zero_alloc = \<lparr>sa_state = SERVER_TURN_ALLOC_EMPTY, sa_record = zero_record, sa_credentials = None,
     sa_transaction_id = replicate 12 0, sa_timestamp = 0, sa_sock = 0, sa_map = no_map\<rparr>"

subsection \<open>The world\<close>

definition server_emit :: "server_output \<Rightarrow> juice_server \<Rightarrow> juice_server" where
  "server_emit x sv = sv\<lparr>sv_env := (sv_env sv)\<lparr>se_out := se_out (sv_env sv) @ [x]\<rparr>\<rparr>"

definition server_now :: "juice_server \<Rightarrow> int \<times> juice_server" where
  "server_now sv =
     (se_clock (sv_env sv) (se_ticks (sv_env sv)), sv\<lparr>sv_env := (sv_env sv)\<lparr>se_ticks := Suc (se_ticks (sv_env sv))\<rparr>\<rparr>)"

definition server_random :: "nat \<Rightarrow> juice_server \<Rightarrow> bytes \<times> juice_server" where
  "server_random n sv =
     (map (se_random (sv_env sv) (se_draws (sv_env sv))) [0..<n],
      sv\<lparr>sv_env := (sv_env sv)\<lparr>se_draws := Suc (se_draws (sv_env sv))\<rparr>\<rparr>)"

definition server_malloc :: "juice_server \<Rightarrow> nat option \<times> juice_server" where
  "server_malloc sv =
     (se_malloc (sv_env sv) (se_mallocs (sv_env sv)), sv\<lparr>sv_env := (sv_env sv)\<lparr>se_mallocs := Suc (se_mallocs (sv_env sv))\<rparr>\<rparr>)"

definition server_socket :: "udp_socket_config \<Rightarrow> juice_server \<Rightarrow> int \<times> juice_server" where
  "server_socket config sv =
     (se_socket (sv_env sv) (se_sockets (sv_env sv)) config,
      sv\<lparr>sv_env := (sv_env sv)\<lparr>se_sockets := Suc (se_sockets (sv_env sv))\<rparr>\<rparr>)"

definition udp_sendto :: "int \<Rightarrow> bytes \<Rightarrow> addr_record \<Rightarrow> juice_server \<Rightarrow> int \<times> juice_server" where
  "udp_sendto sock data dst sv =
     (se_send_result (sv_env sv) (se_sends (sv_env sv)),
      server_emit (Udp_sendto sock data dst) (sv\<lparr>sv_env := (sv_env sv)\<lparr>se_sends := Suc (se_sends (sv_env sv))\<rparr>\<rparr>))"

definition upd_alloc :: "nat \<Rightarrow> (server_turn_alloc \<Rightarrow> server_turn_alloc) \<Rightarrow> juice_server \<Rightarrow> juice_server" where
  "upd_alloc i f sv = sv\<lparr>sv_allocs := (sv_allocs sv)[i := f (sv_allocs sv ! i)]\<rparr>"

text \<open>The credentials behind a pointer, and an assignment through it.\<close>

definition cred_at :: "juice_server \<Rightarrow> nat \<Rightarrow> juice_credentials_list option" where
  "cred_at sv p = find (\<lambda>node. cl_addr node = p) (sv_credentials sv)"

definition upd_cred :: "nat \<Rightarrow> (juice_credentials_list \<Rightarrow> juice_credentials_list) \<Rightarrow> juice_server \<Rightarrow> juice_server" where
  "upd_cred p f sv = sv\<lparr>sv_credentials := map (\<lambda>node. if cl_addr node = p then f node else node) (sv_credentials sv)\<rparr>"

subsection \<open>The table of allocations\<close>

definition alloc_stops :: "addr_record \<Rightarrow> bool \<Rightarrow> server_turn_alloc \<Rightarrow> bool" where
  "alloc_stops record allow_deleted al \<longleftrightarrow>
     sa_state al = SERVER_TURN_ALLOC_EMPTY
     \<or> (allow_deleted \<and> sa_state al = SERVER_TURN_ALLOC_DELETED)
     \<or> addr_record_is_equal (sa_record al) record True"

text \<open>\<open>Some None\<close> is the \<^verbatim>\<open>NULL\<close> of a full table, \<open>None\<close> the remainder of a division by a size of zero.\<close>

definition find_allocation :: "server_turn_alloc list \<Rightarrow> addr_record \<Rightarrow> bool \<Rightarrow> nat option option" where
  "find_allocation allocs record allow_deleted =
     (if allocs = [] then None
      else let key = unat (addr_record_hash record True) mod length allocs
           in find_entry_loop allocs (alloc_stops record allow_deleted) key key)"

definition delete_allocation :: "nat \<Rightarrow> juice_server \<Rightarrow> juice_server option" where
  "delete_allocation i sv =
     (if sa_state (sv_allocs sv ! i) \<noteq> SERVER_TURN_ALLOC_FULL then Some sv
      else do { p \<leftarrow> sa_credentials (sv_allocs sv ! i);
                _ \<leftarrow> cred_at sv p;
                let sv1 = upd_cred p (\<lambda>node. node\<lparr>cl_allocations_quota := cl_allocations_quota node + 1\<rparr>) sv;
                Some (server_emit (Udp_close (sa_sock (sv_allocs sv ! i)))
                  (upd_alloc i (\<lambda>al. al\<lparr>sa_state := SERVER_TURN_ALLOC_DELETED, sa_map := no_map,
                     sa_sock := INVALID_SOCKET, sa_credentials := None\<rparr>) sv1)) })"

subsection \<open>Credentials\<close>

text \<open>The copy of a string: the copy, whether an allocation has failed, and the state.\<close>

definition alloc_string_copy :: "bytes option \<Rightarrow> bool \<Rightarrow> juice_server \<Rightarrow> bytes option \<times> bool \<times> juice_server" where
  "alloc_string_copy orig alloc_failed sv =
     (case orig of
        None \<Rightarrow> (None, alloc_failed, sv)
      | Some s \<Rightarrow> (let (p, sv1) = server_malloc sv in
                   if p = None then (None, True, sv1) else (Some s, alloc_failed, sv1)))"

text \<open>The pointer to the new node, or \<open>None\<close> for \<^verbatim>\<open>NULL\<close>.\<close>

definition server_do_add_credentials :: "juice_server_credentials \<Rightarrow> int \<Rightarrow> juice_server \<Rightarrow> nat option \<times> juice_server" where
  "server_do_add_credentials cred lifetm sv =
     (case server_malloc sv of
        (None, sv1) \<Rightarrow> (None, sv1)
      | (Some p, sv1) \<Rightarrow>
          let (user, failed1, sv2) = alloc_string_copy (Some (case scr_username cred of None \<Rightarrow> [] | Some s \<Rightarrow> s)) False sv1;
              (pass, failed2, sv3) = alloc_string_copy (Some (case scr_password cred of None \<Rightarrow> [] | Some s \<Rightarrow> s)) failed1 sv2
          in case (user, pass) of
               (Some u, Some w) \<Rightarrow>
                 let (stamp, sv4) = (if lifetm > 0 then let (now, sv4) = server_now sv3 in (now + lifetm, sv4) else (0, sv3));
                     node = \<lparr>cl_addr = p, cl_username = u, cl_password = w, cl_allocations_quota = scr_allocations_quota cred,
                             cl_userhash = stun_compute_userhash u (sv_realm sv4), cl_timestamp = stamp\<rparr>
                 in (Some p, sv4\<lparr>sv_credentials := node # sv_credentials sv4\<rparr>)
             | _ \<Rightarrow> (None, sv3))"

text \<open>A quota of zero stands for no limit.\<close>

definition set_unlimited :: "juice_server \<Rightarrow> juice_credentials_list \<Rightarrow> juice_credentials_list" where
  "set_unlimited sv node =
     (if cl_allocations_quota node = 0 then node\<lparr>cl_allocations_quota := sv_max_allocations sv\<rparr> else node)"

definition raise_max_allocations :: "juice_server_credentials \<Rightarrow> juice_server \<Rightarrow> juice_server" where
  "raise_max_allocations cred sv =
     (if sv_max_allocations sv < scr_allocations_quota cred then sv\<lparr>sv_max_allocations := scr_allocations_quota cred\<rparr> else sv)"

text \<open>The table grown to \<^verbatim>\<open>max_allocations\<close>; \<open>None\<close> when \<^verbatim>\<open>realloc\<close> fails.\<close>

definition grow_allocs :: "juice_server \<Rightarrow> bool \<times> juice_server" where
  "grow_allocs sv =
     (if int (length (sv_allocs sv)) < sv_max_allocations sv
      then let (p, sv1) = server_malloc sv in
           if p = None then (False, sv1)
           else (True, sv1\<lparr>sv_allocs := sv_allocs sv1
                   @ replicate (nat (sv_max_allocations sv1) - length (sv_allocs sv1)) zero_alloc\<rparr>)
      else (True, sv))"

definition server_add_credentials :: "juice_server_credentials \<Rightarrow> int \<Rightarrow> juice_server \<Rightarrow> int \<times> juice_server" where
  "server_add_credentials cred lifetm sv =
     (let (grown, sv1) = grow_allocs (raise_max_allocations cred sv) in
      if \<not> grown then (-1, sv1)
      else case server_do_add_credentials cred lifetm sv1 of
             (None, sv2) \<Rightarrow> (-1, sv2)
           | (Some p, sv2) \<Rightarrow> (0, upd_cred p (set_unlimited sv2) sv2))"

subsection \<open>Creation and destruction\<close>

definition server_do_destroy :: "juice_server \<Rightarrow> server_env option" where
  "server_do_destroy sv =
     do { sv1 \<leftarrow> each [0..<length (sv_allocs sv)] delete_allocation (server_emit (Udp_close (sv_sock sv)) sv);
          Some (sv_env sv1) }"

fun add_all_credentials :: "juice_server_credentials list \<Rightarrow> juice_server \<Rightarrow> bool \<times> juice_server" where
  "add_all_credentials [] sv = (True, sv)"
| "add_all_credentials (cred # creds) sv =
     (case server_do_add_credentials cred 0 (raise_max_allocations cred sv) of
        (None, sv1) \<Rightarrow> (False, sv1)
      | (Some p, sv1) \<Rightarrow> add_all_credentials creds sv1)"

text \<open>The table and the list of credentials of a new server.\<close>

definition enable_turn :: "juice_server_config \<Rightarrow> juice_server \<Rightarrow> bool \<times> juice_server" where
  "enable_turn config sv =
     (if scfg_credentials config = [] then (True, sv)
      else case server_malloc sv of
             (None, sv1) \<Rightarrow> (False, sv1)
           | (Some p, sv1) \<Rightarrow>
               let (ok, sv2) = add_all_credentials (scfg_credentials config)
                                 (sv1\<lparr>sv_allocs := replicate (nat (sv_max_allocations sv1)) zero_alloc\<rparr>)
               in if \<not> ok then (False, sv2) else (True, sv2\<lparr>sv_credentials := map (set_unlimited sv2) (sv_credentials sv2)\<rparr>))"

text \<open>The server as \<^verbatim>\<open>calloc\<close> leaves it, with its socket.\<close>

definition blank_server :: "int \<Rightarrow> server_env \<Rightarrow> juice_server" where
  "blank_server sock env = \<lparr>sv_max_allocations = 0, sv_max_peers = 0, sv_bind_address = None, sv_external_address = None,
     sv_port = 0, sv_relay_port_range_begin = 0, sv_relay_port_range_end = 0, sv_realm = [], sv_credentials = [],
     sv_nonce_key = replicate SERVER_NONCE_KEY_SIZE 0, sv_nonce_key_timestamp = 0, sv_sock = sock, sv_thread_stopped = False,
     sv_allocs = [], sv_env = env\<rparr>"

definition copy_config :: "juice_server_config \<Rightarrow> juice_server \<Rightarrow> bool \<times> juice_server" where
  "copy_config config sv =
     (let (bind_addr, failed1, sv1) = alloc_string_copy (scfg_bind_address config) False sv;
          (external, failed2, sv2) = alloc_string_copy (scfg_external_address config) failed1 sv1;
          (rlm, failed3, sv3) = alloc_string_copy
             (Some (case scfg_realm config of None \<Rightarrow> SERVER_DEFAULT_REALM | Some r \<Rightarrow> if r = [] then SERVER_DEFAULT_REALM else r))
             failed2 sv2
      in (\<not> failed3,
          sv3\<lparr>sv_max_allocations := (if scfg_max_allocations config > 0 then scfg_max_allocations config
                                     else SERVER_DEFAULT_MAX_ALLOCATIONS),
              sv_max_peers := scfg_max_peers config, sv_bind_address := bind_addr, sv_external_address := external,
              sv_port := scfg_port config, sv_relay_port_range_begin := scfg_relay_port_range_begin config,
              sv_relay_port_range_end := scfg_relay_port_range_end config,
              sv_realm := (case rlm of None \<Rightarrow> [] | Some r \<Rightarrow> r)\<rparr>))"

definition server_create :: "juice_server_config \<Rightarrow> server_env \<Rightarrow> (juice_server option \<times> server_env) option" where
  "server_create config env =
     (let (p, sv0) = server_malloc (blank_server INVALID_SOCKET env) in
      if p = None then Some (None, sv_env sv0)
      else let (sock, sv1) = server_socket \<lparr>bind_address = scfg_bind_address config, port_begin = scfg_port config,
                                            port_end = scfg_port config\<rparr> sv0 in
           if sock = INVALID_SOCKET then Some (None, sv_env sv1)
           else let (copied, sv2) = copy_config config (sv1\<lparr>sv_sock := sock\<rparr>) in
                if \<not> copied then do { e \<leftarrow> server_do_destroy sv2; Some (None, e) }
                else let (enabled, sv3) = enable_turn config sv2 in
                     if \<not> enabled then do { e \<leftarrow> server_do_destroy sv3; Some (None, e) }
                     else let sv4 = sv3\<lparr>sv_port := udp_get_port (se_name (sv_env sv3) sock), sv_nonce_key_timestamp := 0,
                                        sv_max_peers := (if sv_max_peers sv3 = 0 then SERVER_DEFAULT_MAX_PEERS else sv_max_peers sv3)\<rparr>
                          in if se_thread (sv_env sv4) \<noteq> 0 then do { e \<leftarrow> server_do_destroy sv4; Some (None, e) }
                             else Some (Some sv4, sv_env sv4))"

definition server_get_port :: "juice_server \<Rightarrow> u16" where
  "server_get_port sv = sv_port sv"

definition server_interrupt :: "juice_server \<Rightarrow> int \<times> juice_server" where
  "server_interrupt sv =
     (if sv_sock sv = INVALID_SOCKET then (-1, sv)
      else let (ret, dsts) = udp_sendto_self (se_name (sv_env sv) (sv_sock sv)) (se_self_result (sv_env sv));
               sv1 = fold (\<lambda>dst. server_emit (Udp_sendto (sv_sock sv) [] dst)) dsts sv
           in if ret < 0 \<and> \<not> se_self_again (sv_env sv) then (-1, sv1) else (0, sv1))"

text \<open>\<open>join\<close> is the state that the server thread leaves when it ends.\<close>

definition server_destroy :: "(juice_server \<Rightarrow> juice_server option) \<Rightarrow> juice_server \<Rightarrow> server_env option" where
  "server_destroy join sv =
     do { sv1 \<leftarrow> join (snd (server_interrupt (sv\<lparr>sv_thread_stopped := True\<rparr>)));
          server_do_destroy sv1 }"

subsection \<open>Book-keeping\<close>

text \<open>One allocation; the state carries \<^verbatim>\<open>next_timestamp\<close>.\<close>

definition expire_alloc :: "int \<Rightarrow> nat \<Rightarrow> int \<times> juice_server \<Rightarrow> (int \<times> juice_server) option" where
  "expire_alloc now i s =
     (let al = sv_allocs (snd s) ! i in
      if sa_state al \<noteq> SERVER_TURN_ALLOC_FULL then Some s
      else if sa_timestamp al \<le> now then do { sv1 \<leftarrow> delete_allocation i (snd s); Some (fst s, sv1) }
      else Some (if sa_timestamp al < fst s then sa_timestamp al else fst s, snd s))"

definition expired_cred :: "int \<Rightarrow> juice_credentials_list \<Rightarrow> bool" where
  "expired_cred now node \<longleftrightarrow> cl_timestamp node \<noteq> 0 \<and> cl_timestamp node \<le> now"

definition server_bookkeeping :: "juice_server \<Rightarrow> (int \<times> juice_server) option" where
  "server_bookkeeping sv =
     (let (now, sv0) = server_now sv in
      do { (next_timestamp, sv1) \<leftarrow> each [0..<length (sv_allocs sv0)] (expire_alloc now) (now + 60000, sv0);
           Some (next_timestamp, sv1\<lparr>sv_credentials := filter (\<lambda>node. \<not> expired_cred now node) (sv_credentials sv1)\<rparr>) })"

subsection \<open>Answers\<close>

definition server_send :: "addr_record \<Rightarrow> bytes \<Rightarrow> juice_server \<Rightarrow> int \<times> juice_server" where
  "server_send dst data sv = udp_sendto (sv_sock sv) data dst sv"

definition server_stun_send :: "addr_record \<Rightarrow> stun_message \<Rightarrow> bytes option \<Rightarrow> juice_server \<Rightarrow> (int \<times> juice_server) option" where
  "server_stun_send dst msg password sv =
     do { (sz, buffer) \<leftarrow> stun_write (se_junk (sv_env sv)) (replicate SERVER_BUFFER_SIZE 0) msg password;
          if sz \<le> 0 then Some (-1, sv)
          else let (ret, sv1) = server_send dst (take (nat sz) buffer) sv
               in Some (if ret < 0 then -1 else 0, sv1) }"

text \<open>The bytes of an address in memory.\<close>

definition sockaddr_mem :: "sockaddr \<Rightarrow> bytes" where
  "sockaddr_mem sa =
     (case sa of
        Sin p a \<Rightarrow> mem16 AF_INET @ mem16 p @ take 4 a @ replicate 8 0
      | Sin6 p f a s \<Rightarrow> mem16 AF_INET6 @ mem16 p @ mem32 f @ take 16 a @ mem32 s
      | SaOther f \<Rightarrow> mem16 f)"

definition base64url_table :: bytes where
  "base64url_table = str_bytes ''ABCDEFGHIJKLMNOPQRSTUVWXYZabcdefghijklmnopqrstuvwxyz0123456789-_''"

definition refresh_nonce_key :: "juice_server \<Rightarrow> juice_server" where
  "refresh_nonce_key sv =
     (let (now, sv1) = server_now sv in
      if now \<ge> sv_nonce_key_timestamp sv1
      then let (key, sv2) = server_random SERVER_NONCE_KEY_SIZE sv1
           in sv2\<lparr>sv_nonce_key := key, sv_nonce_key_timestamp := now + SERVER_NONCE_KEY_LIFETIME\<rparr>
      else sv1)"

definition nonce_for :: "bytes \<Rightarrow> addr_record \<Rightarrow> bytes" where
  "nonce_for key src =
     (let digest = hmac_sha256 (take (ar_len src) (sockaddr_mem (ar_addr src))) key;
          len = (if HMAC_SHA256_SIZE > STUN_MAX_NONCE_LEN then STUN_MAX_NONCE_LEN else HMAC_SHA256_SIZE)
      in stun_prepend_nonce_cookie (map (\<lambda>d. base64url_table ! (unat d mod 64)) (take len digest)))"

definition server_get_nonce :: "addr_record \<Rightarrow> juice_server \<Rightarrow> bytes \<times> juice_server" where
  "server_get_nonce src sv = (let sv1 = refresh_nonce_key sv in (nonce_for (sv_nonce_key sv1) src, sv1))"

definition server_prepare_credentials ::
  "addr_record \<Rightarrow> nat option \<Rightarrow> stun_message \<Rightarrow> juice_server \<Rightarrow> (stun_message \<times> juice_server) option" where
  "server_prepare_credentials src cred msg sv =
     (let (nnc, sv1) = server_get_nonce src sv;
          c = (credentials msg)\<lparr>realm := take (STUN_MAX_REALM_LEN - 1) (sv_realm sv1), nonce := nnc\<rparr>
      in case cred of
           None \<Rightarrow> Some (msg\<lparr>credentials := c\<rparr>, sv1)
         | Some p \<Rightarrow> do { node \<leftarrow> cred_at sv1 p;
                          Some (msg\<lparr>credentials := c\<lparr>username := take (STUN_MAX_USERNAME_LEN - 1) (cl_username node)\<rparr>\<rparr>, sv1) })"

text \<open>The password behind a pointer that may be null.\<close>

definition password_at :: "juice_server \<Rightarrow> nat option \<Rightarrow> bytes option option" where
  "password_at sv cred = (case cred of None \<Rightarrow> Some None | Some p \<Rightarrow> map_option (Some \<circ> cl_password) (cred_at sv p))"

definition server_answer_stun_binding :: "bytes \<Rightarrow> addr_record \<Rightarrow> juice_server \<Rightarrow> (int \<times> juice_server) option" where
  "server_answer_stun_binding tid src sv =
     do { (sz, buffer) \<leftarrow> stun_write (se_junk (sv_env sv)) (replicate SERVER_BUFFER_SIZE 0)
            (zero_message\<lparr>msg_class := STUN_CLASS_RESP_SUCCESS, msg_method := STUN_METHOD_BINDING, mapped := src,
               transaction_id := tid\<rparr>) None;
          if sz \<le> 0 then Some (-1, sv)
          else let (ret, sv1) = server_send src (take (nat sz) buffer) sv
               in Some (if ret < 0 then -1 else 0, sv1) }"

definition server_answer_stun_error ::
  "bytes \<Rightarrow> addr_record \<Rightarrow> u16 \<Rightarrow> u32 \<Rightarrow> nat option \<Rightarrow> juice_server \<Rightarrow> (int \<times> juice_server) option" where
  "server_answer_stun_error tid src method code cred sv =
     (let ans = zero_message\<lparr>msg_class := STUN_CLASS_RESP_ERROR, msg_method := method, error_code := code, transaction_id := tid\<rparr>
      in do { (ans1, sv1) \<leftarrow> (if method \<noteq> STUN_METHOD_BINDING then server_prepare_credentials src cred ans sv else Some (ans, sv));
              password \<leftarrow> password_at sv1 cred;
              server_stun_send src ans1 password sv1 })"

definition server_process_stun_binding :: "stun_message \<Rightarrow> addr_record \<Rightarrow> juice_server \<Rightarrow> (int \<times> juice_server) option" where
  "server_process_stun_binding msg src sv = server_answer_stun_binding (transaction_id msg) src sv"

text \<open>A success response with the credentials of the client.\<close>

definition server_answer_success ::
  "stun_message \<Rightarrow> addr_record \<Rightarrow> nat \<Rightarrow> juice_server \<Rightarrow> (int \<times> juice_server) option" where
  "server_answer_success ans src cred sv =
     do { (ans1, sv1) \<leftarrow> server_prepare_credentials src (Some cred) ans sv;
          password \<leftarrow> password_at sv1 (Some cred);
          server_stun_send src ans1 password sv1 }"

end
