(* ===== verification/Server_Turn.thy ===== *)
theory Server_Turn
  imports Server
begin

text \<open>
  \<^verbatim>\<open>libjuice/src/server.c\<close>, second part: the requests of the clients, relaying in both directions, and the loop of the server
  thread.
\<close>

subsection \<open>Allocations\<close>

text \<open>A request that has no allocation: a new one in slot \<open>i\<close>.  The result is an error code to answer with, whether the
  caller returns -1 after the answer, or nothing.\<close>

definition server_new_allocation :: "nat \<Rightarrow> stun_message \<Rightarrow> addr_record \<Rightarrow> nat \<Rightarrow> juice_server \<Rightarrow> ((u32 \<times> bool) option \<times> juice_server) option" where
  "server_new_allocation i msg src cred sv =
     (if msg_method msg = STUN_METHOD_REFRESH then Some (Some (437, False), sv)
      else do { node \<leftarrow> cred_at sv cred;
                if cl_allocations_quota node \<le> 0 then Some (Some (486, False), sv)
                else let (sock, sv1) = server_socket \<lparr>bind_address = sv_bind_address sv, port_begin = sv_relay_port_range_begin sv,
                                                      port_end = sv_relay_port_range_end sv\<rparr> sv;
                         sv2 = upd_alloc i (\<lambda>al. al\<lparr>sa_sock := sock\<rparr>) sv1
                     in if sock = INVALID_SOCKET then Some (Some (500, True), sv2)
                        else let (p, sv3) = server_malloc sv2 in
                             if p = None \<or> sv_max_peers sv3 < 0
                             then Some (Some (500, True), server_emit (Udp_close sock)
                                    (upd_alloc i (\<lambda>al. al\<lparr>sa_map := no_map, sa_sock := INVALID_SOCKET\<rparr>) sv3))
                             else Some (None, upd_cred cred (\<lambda>node. node\<lparr>cl_allocations_quota := cl_allocations_quota node - 1\<rparr>)
                                    (upd_alloc i (\<lambda>al. al\<lparr>sa_map := turn_init_map (nat (sv_max_peers sv3)),
                                       sa_state := SERVER_TURN_ALLOC_FULL, sa_record := src, sa_credentials := Some cred\<rparr>) sv3)) })"

definition server_known_allocation :: "nat \<Rightarrow> stun_message \<Rightarrow> nat \<Rightarrow> juice_server \<Rightarrow> (u32 \<times> bool) option" where
  "server_known_allocation i msg cred sv =
     (let al = sv_allocs sv ! i in
      if msg_method msg = STUN_METHOD_ALLOCATE \<and> memcmp (sa_transaction_id al) (transaction_id msg) \<noteq> 0 then Some (437, False)
      else if sa_credentials al \<noteq> Some cred then Some (441, False)
      else None)"

text \<open>The first IPv4 address, or the first address.\<close>

fun select_relayed :: "addr_record list \<Rightarrow> addr_record option \<Rightarrow> addr_record option" where
  "select_relayed [] rel = rel"
| "select_relayed (r # rs) rel =
     (if sa_family (ar_addr r) = AF_INET then Some r
      else select_relayed rs (if rel = None then Some r else rel))"

definition relayed_records :: "nat \<Rightarrow> juice_server \<Rightarrow> int \<times> addr_record list" where
  "relayed_records i sv =
     (let sock = sa_sock (sv_allocs sv ! i); name = se_name (sv_env sv) sock in
      case sv_external_address sv of
        Some ext \<Rightarrow> addr_resolve (se_getaddrinfo (sv_env sv) ext (take 7 (dec (unat (udp_get_port name))))) SOCK_DGRAM MAX_RELAYED_RECORDS_COUNT
      | None \<Rightarrow> udp_get_addrs name (se_ifaddrs (sv_env sv)) MAX_RELAYED_RECORDS_COUNT)"

definition relayed_address :: "nat \<Rightarrow> juice_server \<Rightarrow> addr_record option" where
  "relayed_address i sv =
     (let (cnt, records) = relayed_records i sv in
      if cnt \<le> 0 then None
      else select_relayed (take (if nat cnt > MAX_RELAYED_RECORDS_COUNT then MAX_RELAYED_RECORDS_COUNT else nat cnt) records) None)"

text \<open>The lifetime granted: the default one or what the client asks for, if that is less.\<close>

definition granted_lifetime :: "stun_message \<Rightarrow> u32" where
  "granted_lifetime msg =
     (let lifetm = of_int (ALLOCATION_LIFETIME div 1000)
      in if lifetime_set msg \<and> lifetime msg < lifetm then lifetime msg else lifetm)"

text \<open>The rest of the request, on the allocation in slot \<open>i\<close>.\<close>

definition server_grant_allocation :: "nat \<Rightarrow> stun_message \<Rightarrow> addr_record \<Rightarrow> nat \<Rightarrow> juice_server \<Rightarrow> (int \<times> juice_server) option" where
  "server_grant_allocation i msg src cred sv =
     (let lifetm = granted_lifetime msg;
          (now, sv1) = server_now sv;
          sv2 = upd_alloc i (\<lambda>al. al\<lparr>sa_timestamp := now + uint lifetm * 1000, sa_transaction_id := transaction_id msg\<rparr>) sv1;
          ans = zero_message\<lparr>msg_class := STUN_CLASS_RESP_SUCCESS, msg_method := msg_method msg, lifetime := lifetm,
                  lifetime_set := True, mapped := src, transaction_id := transaction_id msg\<rparr>
      in if lifetm = 0
         then do { sv3 \<leftarrow> delete_allocation i sv2; server_answer_success ans src cred sv3 }
         else case relayed_address i sv2 of
                None \<Rightarrow> do { sv3 \<leftarrow> delete_allocation i sv2;
                             (_, sv4) \<leftarrow> server_answer_stun_error (transaction_id msg) src (msg_method msg) 500 (Some cred) sv3;
                             Some (-1, sv4) }
              | Some rel \<Rightarrow> server_answer_success (ans\<lparr>relayed := rel\<rparr>) src cred sv2)"

definition server_process_turn_allocate ::
  "stun_message \<Rightarrow> addr_record \<Rightarrow> nat \<Rightarrow> juice_server \<Rightarrow> (int \<times> juice_server) option" where
  "server_process_turn_allocate msg src cred sv =
     (let refuse = (\<lambda>(code, neg) sv. do { (r, sv1) \<leftarrow> server_answer_stun_error (transaction_id msg) src (msg_method msg) code (Some cred) sv;
                                        Some (if neg then -1 else r, sv1) }) in
      if msg_class msg \<noteq> STUN_CLASS_REQUEST then Some (-1, sv)
      else if msg_method msg \<noteq> STUN_METHOD_ALLOCATE \<and> msg_method msg \<noteq> STUN_METHOD_REFRESH then Some (-1, sv)
      else do { slot \<leftarrow> find_allocation (sv_allocs sv) src True;
                case slot of
                  None \<Rightarrow> refuse (486, False) sv
                | Some i \<Rightarrow>
                    if sa_state (sv_allocs sv ! i) = SERVER_TURN_ALLOC_FULL
                    then case server_known_allocation i msg cred sv of
                           Some e \<Rightarrow> refuse e sv
                         | None \<Rightarrow> server_grant_allocation i msg src cred sv
                    else do { (e, sv1) \<leftarrow> server_new_allocation i msg src cred sv;
                              case e of
                                Some e \<Rightarrow> refuse e sv1
                              | None \<Rightarrow> server_grant_allocation i msg src cred sv1 } })"

subsection \<open>Permissions and channels\<close>

text \<open>The allocation of a client, or the error code of a request for it.\<close>

definition server_own_allocation :: "addr_record \<Rightarrow> nat \<Rightarrow> juice_server \<Rightarrow> (u32 + nat) option" where
  "server_own_allocation src cred sv =
     do { slot \<leftarrow> find_allocation (sv_allocs sv) src False;
          Some (case slot of
                  None \<Rightarrow> Inl 437
                | Some i \<Rightarrow>
                    if sa_state (sv_allocs sv ! i) \<noteq> SERVER_TURN_ALLOC_FULL then Inl 437
                    else if sa_credentials (sv_allocs sv ! i) \<noteq> Some cred then Inl 441
                    else Inr i) }"

text \<open>The loop over the peers of a CreatePermission request, and whether it went through.\<close>

fun set_permissions :: "nat \<Rightarrow> bytes \<Rightarrow> addr_record list \<Rightarrow> juice_server \<Rightarrow> (bool \<times> juice_server) option" where
  "set_permissions i tid [] sv = Some (True, sv)"
| "set_permissions i tid (peer # ps) sv =
     (let (now, sv1) = server_now sv in
      do { (ok, m) \<leftarrow> turn_set_permission now (sa_map (sv_allocs sv1 ! i)) tid (Some peer) SERVER_PERMISSION_LIFETIME;
           let sv2 = upd_alloc i (\<lambda>al. al\<lparr>sa_map := m\<rparr>) sv1;
           if ok then set_permissions i tid ps sv2 else Some (False, sv2) })"

definition server_process_turn_create_permission ::
  "stun_message \<Rightarrow> addr_record \<Rightarrow> nat \<Rightarrow> juice_server \<Rightarrow> (int \<times> juice_server) option" where
  "server_process_turn_create_permission msg src cred sv =
     (let refuse = (\<lambda>code sv. server_answer_stun_error (transaction_id msg) src (msg_method msg) code (Some cred) sv) in
      if msg_class msg \<noteq> STUN_CLASS_REQUEST then Some (-1, sv)
      else if peers msg = [] then refuse 400 sv
      else do { own \<leftarrow> server_own_allocation src cred sv;
                case own of
                  Inl code \<Rightarrow> refuse code sv
                | Inr i \<Rightarrow>
                    do { (ok, sv1) \<leftarrow> set_permissions i (transaction_id msg) (peers msg) sv;
                         if \<not> ok then do { (_, sv2) \<leftarrow> refuse 500 sv1; Some (-1, sv2) }
                         else server_answer_success
                                (zero_message\<lparr>msg_class := STUN_CLASS_RESP_SUCCESS, msg_method := STUN_METHOD_CREATE_PERMISSION,
                                   transaction_id := transaction_id msg\<rparr>) src cred sv1 } })"

text \<open>Bind the channel, then set the permission; the second is not tried when the first fails.\<close>

definition bind_peer :: "nat \<Rightarrow> bytes \<Rightarrow> addr_record \<Rightarrow> u16 \<Rightarrow> juice_server \<Rightarrow> (bool \<times> juice_server) option" where
  "bind_peer i tid peer channel sv =
     (let (now, sv1) = server_now sv in
      do { (ok, m) \<leftarrow> turn_bind_channel now (sa_map (sv_allocs sv1 ! i)) (Some peer) (Some tid) channel SERVER_BIND_LIFETIME;
           let sv2 = upd_alloc i (\<lambda>al. al\<lparr>sa_map := m\<rparr>) sv1;
           if ok then set_permissions i tid [peer] sv2 else Some (False, sv2) })"

definition server_process_turn_channel_bind ::
  "stun_message \<Rightarrow> addr_record \<Rightarrow> nat \<Rightarrow> juice_server \<Rightarrow> (int \<times> juice_server) option" where
  "server_process_turn_channel_bind msg src cred sv =
     (let refuse = (\<lambda>code sv. server_answer_stun_error (transaction_id msg) src (msg_method msg) code (Some cred) sv) in
      if msg_class msg \<noteq> STUN_CLASS_REQUEST then Some (-1, sv)
      else case peers msg of
             [] \<Rightarrow> refuse 400 sv
           | peer # _ \<Rightarrow>
               if channel_number msg = 0 then refuse 400 sv
               else do { own \<leftarrow> server_own_allocation src cred sv;
                         case own of
                           Inl code \<Rightarrow> refuse code sv
                         | Inr i \<Rightarrow>
                             if \<not> is_valid_channel (channel_number msg) then refuse 400 sv
                             else do { (ok, sv1) \<leftarrow> bind_peer i (transaction_id msg) peer (channel_number msg) sv;
                                       if \<not> ok then do { (_, sv2) \<leftarrow> refuse 500 sv1; Some (-1, sv2) }
                                       else server_answer_success
                                              (zero_message\<lparr>msg_class := STUN_CLASS_RESP_SUCCESS, msg_method := STUN_METHOD_CHANNEL_BIND,
                                                 transaction_id := transaction_id msg\<rparr>) src cred sv1 } })"

subsection \<open>From the client to its peers\<close>

definition server_process_turn_send :: "stun_message \<Rightarrow> addr_record \<Rightarrow> juice_server \<Rightarrow> (int \<times> juice_server) option" where
  "server_process_turn_send msg src sv =
     (if msg_class msg \<noteq> STUN_CLASS_INDICATION then Some (-1, sv)
      else case (msg_data msg, peers msg) of
             (Some data, peer # _) \<Rightarrow>
               do { slot \<leftarrow> find_allocation (sv_allocs sv) src False;
                    case slot of
                      None \<Rightarrow> Some (-1, sv)
                    | Some i \<Rightarrow>
                        if sa_state (sv_allocs sv ! i) \<noteq> SERVER_TURN_ALLOC_FULL then Some (-1, sv)
                        else let (now, sv1) = server_now sv in
                             do { allowed \<leftarrow> turn_has_permission now (sa_map (sv_allocs sv ! i)) peer;
                                  Some (if \<not> allowed then (-1, sv1)
                                        else udp_sendto (sa_sock (sv_allocs sv ! i)) data peer sv1) } }
           | _ \<Rightarrow> Some (-1, sv))"

definition server_process_channel_data :: "bytes \<Rightarrow> addr_record \<Rightarrow> juice_server \<Rightarrow> (int \<times> juice_server) option" where
  "server_process_channel_data buf src sv =
     do { slot \<leftarrow> find_allocation (sv_allocs sv) src False;
          case slot of
            None \<Rightarrow> Some (-1, sv)
          | Some i \<Rightarrow>
              if sa_state (sv_allocs sv ! i) \<noteq> SERVER_TURN_ALLOC_FULL then Some (-1, sv)
              else if length buf < 4 then Some (-1, sv)
              else do { channel \<leftarrow> ld16 buf 0;
                        len16 \<leftarrow> ld16 buf 2;
                        let data = drop 4 buf;
                        if unat len16 > length data then Some (-1, sv)
                        else let (now, sv1) = server_now sv in
                             do { bound \<leftarrow> turn_find_bound_channel now (sa_map (sv_allocs sv ! i)) channel;
                                  Some (case bound of
                                          None \<Rightarrow> (-1, sv1)
                                        | Some record \<Rightarrow>
                                            (0, snd (udp_sendto (sa_sock (sv_allocs sv ! i)) (take (unat len16) data) record sv1))) } } }"

subsection \<open>From the peers to the client\<close>

text \<open>One datagram from the relay socket; every branch leaves the loop of the code.\<close>

definition server_forward :: "nat \<Rightarrow> recvfrom_result list \<Rightarrow> juice_server \<Rightarrow> (int \<times> juice_server) option" where
  "server_forward i rs sv =
     (case fst (udp_recvfrom SERVER_BUFFER_SIZE rs) of
        Again \<Rightarrow> Some (0, sv)
      | Failed \<Rightarrow> Some (-1, sv)
      | Received data src \<Rightarrow>
          let record = unmap_record src; al = sv_allocs sv ! i; (now, sv1) = server_now sv in
          do { allowed \<leftarrow> turn_has_permission now (sa_map al) record;
               if \<not> allowed then Some (-1, sv1)
               else let (now, sv2) = server_now sv1 in
                    do { bound \<leftarrow> turn_get_bound_channel now (sa_map al) record;
                         case bound of
                           Some channel \<Rightarrow>
                             let (len, buffer) = turn_wrap_channel_data (data @ replicate (SERVER_BUFFER_SIZE - length data) 0) data channel
                             in if len \<le> 0 then Some (-1, sv2)
                                else Some (udp_sendto (sv_sock sv) (take (nat len) buffer) (sa_record al) sv2)
                         | None \<Rightarrow>
                             let (tid, sv3) = server_random STUN_TRANSACTION_ID_SIZE sv2
                             in server_stun_send (sa_record al)
                                  (zero_message\<lparr>msg_class := STUN_CLASS_INDICATION, msg_method := STUN_METHOD_DATA, peers := [record],
                                     msg_data := Some data, transaction_id := tid\<rparr>) None sv3 } })"

subsection \<open>Dispatch\<close>

text \<open>The last node of the list that is not expired and matches; \<open>same\<close> is the constant-time comparison.\<close>

fun find_credentials :: "int \<Rightarrow> (juice_credentials_list \<Rightarrow> byte option) \<Rightarrow> juice_credentials_list list \<Rightarrow> nat option \<Rightarrow> nat option option" where
  "find_credentials now same [] cred = Some cred"
| "find_credentials now same (node # nodes) cred =
     (if cl_timestamp node = 0 \<or> cl_timestamp node > now
      then do { x \<leftarrow> same node; find_credentials now same nodes (if x = 0 then Some (cl_addr node) else cred) }
      else find_credentials now same nodes cred)"

datatype auth_result =
  Auth_granted nat
| Auth_refused u32 bool

text \<open>The credentials of a request, or the error code and whether the caller returns -1 after the answer.\<close>

definition server_authenticate :: "bytes \<Rightarrow> stun_message \<Rightarrow> addr_record \<Rightarrow> juice_server \<Rightarrow> (auth_result \<times> juice_server) option" where
  "server_authenticate buf msg src sv =
     (let c = credentials msg in
      if \<not> has_integrity msg \<or> realm c = [] \<or> nonce c = [] \<or> (username c = [] \<and> \<not> enable_userhash c)
      then Some (Auth_refused 401 False, sv)
      else let (nnc, sv1) = server_get_nonce src sv in
           if nonce c \<noteq> nnc \<or> realm c \<noteq> sv_realm sv1 then Some (Auth_refused 438 False, sv1)
           else let (now, sv2) = server_now sv1 in
                do { found \<leftarrow> find_credentials now
                       (\<lambda>node. if enable_userhash c then const_time_memcmp (cl_userhash node) (userhash c) USERHASH_SIZE
                               else const_time_strcmp (cl_username node @ [0]) (username c @ [0]))
                       (sv_credentials sv2) None;
                     case found of
                       None \<Rightarrow> Some (Auth_refused 401 True, sv2)
                     | Some p \<Rightarrow>
                         do { node \<leftarrow> cred_at sv2 p;
                              let msg1 = (if enable_userhash c
                                          then msg\<lparr>credentials := c\<lparr>username := take (STUN_MAX_USERNAME_LEN - 1) (cl_username node)\<rparr>\<rparr>
                                          else msg);
                              ok \<leftarrow> stun_check_integrity buf msg1 (Some (cl_password node));
                              Some (if ok then Auth_granted p else Auth_refused 401 True, sv2) } })"

definition server_serve_request :: "stun_message \<Rightarrow> addr_record \<Rightarrow> nat \<Rightarrow> juice_server \<Rightarrow> (int \<times> juice_server) option" where
  "server_serve_request msg src cred sv =
     (if msg_method msg = STUN_METHOD_ALLOCATE \<or> msg_method msg = STUN_METHOD_REFRESH
      then server_process_turn_allocate msg src cred sv
      else if msg_method msg = STUN_METHOD_CREATE_PERMISSION then server_process_turn_create_permission msg src cred sv
      else if msg_method msg = STUN_METHOD_CHANNEL_BIND then server_process_turn_channel_bind msg src cred sv
      else if msg_method msg = STUN_METHOD_SEND then server_process_turn_send msg src sv
      else Some (-1, sv))"

definition server_dispatch_stun :: "bytes \<Rightarrow> stun_message \<Rightarrow> addr_record \<Rightarrow> juice_server \<Rightarrow> (int \<times> juice_server) option" where
  "server_dispatch_stun buf msg src sv =
     (let refuse = (\<lambda>code sv. server_answer_stun_error (transaction_id msg) src (msg_method msg) code None sv) in
      if \<not> (msg_class msg = STUN_CLASS_REQUEST
             \<or> msg_class msg = STUN_CLASS_INDICATION \<and> (msg_method msg = STUN_METHOD_BINDING \<or> msg_method msg = STUN_METHOD_SEND))
      then Some (-1, sv)
      else if sv_allocs sv = [] \<and> msg_method msg \<noteq> STUN_METHOD_BINDING then refuse 400 sv
      else if error_code msg = STUN_ERROR_INTERNAL_VALIDATION_FAILED
      then if msg_class msg = STUN_CLASS_REQUEST then refuse 400 sv else Some (-1, sv)
      else if msg_method msg = STUN_METHOD_BINDING then server_process_stun_binding msg src sv
      else if msg_class msg = STUN_CLASS_INDICATION then server_process_turn_send msg src sv
      else do { (auth, sv1) \<leftarrow> server_authenticate buf msg src sv;
                case auth of
                  Auth_refused code neg \<Rightarrow> do { (r, sv2) \<leftarrow> refuse code sv1; Some (if neg then -1 else r, sv2) }
                | Auth_granted cred \<Rightarrow> server_serve_request msg src cred sv1 })"

definition server_input :: "bytes \<Rightarrow> addr_record \<Rightarrow> juice_server \<Rightarrow> (int \<times> juice_server) option" where
  "server_input buf src sv =
     do { stun \<leftarrow> is_stun_datagram buf;
          if stun
          then do { r \<leftarrow> stun_read buf;
                    case r of
                      None \<Rightarrow> Some (-1, sv)
                    | Some (_, msg) \<Rightarrow> server_dispatch_stun buf msg src sv }
          else if is_channel_data buf then server_process_channel_data buf src sv
          else Some (-1, sv) }"

subsection \<open>The server thread\<close>

function server_recv :: "recvfrom_result list \<Rightarrow> juice_server \<Rightarrow> (int \<times> juice_server) option" where
  "server_recv rs sv =
     (case udp_recvfrom SERVER_BUFFER_SIZE rs of
        (Again, _) \<Rightarrow> Some (0, sv)
      | (Failed, _) \<Rightarrow> Some (-1, sv)
      | (Received data src, rs') \<Rightarrow>
          if data = [] then server_recv rs' sv
          else do { (_, sv1) \<leftarrow> server_input data (unmap_record src) sv; server_recv rs' sv1 })"
  by pat_completeness auto
termination by (relation "measure (\<lambda>(rs, sv). length rs)") (auto dest: udp_recvfrom_shorter [OF sym])

declare server_recv.simps [simp del]

text \<open>An answer of \<^verbatim>\<open>poll\<close>, with what other threads did while the mutex was free: credentials that were added, and
  whether the server is to stop.  \<open>pe_main\<close> and \<open>pe_relay i\<close> are what the sockets then deliver if they are readable.\<close>

datatype poll_result = Poll_again | Poll_failed | Poll_ready

record poll_event =
  pe_added :: "(juice_server_credentials \<times> int) list"
  pe_stop :: bool
  pe_result :: poll_result
  pe_main_error :: bool
  pe_main :: "recvfrom_result list option"
  pe_relay :: "nat \<Rightarrow> recvfrom_result list option"

definition meanwhile :: "poll_event \<Rightarrow> juice_server \<Rightarrow> juice_server" where
  "meanwhile ev sv =
     (let sv1 = fold (\<lambda>(cred, lifetm) sv. snd (server_add_credentials cred lifetm sv)) (pe_added ev) sv
      in if pe_stop ev then sv1\<lparr>sv_thread_stopped := True\<rparr> else sv1)"

text \<open>The events of the relay sockets, as \<^verbatim>\<open>poll\<close> leaves them in the array of descriptors.\<close>

definition relay_events :: "poll_event \<Rightarrow> juice_server \<Rightarrow> recvfrom_result list option list" where
  "relay_events ev sv =
     map (\<lambda>i. if sa_state (sv_allocs sv ! i) = SERVER_TURN_ALLOC_FULL then pe_relay ev i else None) [0..<length (sv_allocs sv)]"

definition forward_relay :: "recvfrom_result list option list \<Rightarrow> nat \<Rightarrow> juice_server \<Rightarrow> juice_server option" where
  "forward_relay revents i sv =
     (if sa_state (sv_allocs sv ! i) \<noteq> SERVER_TURN_ALLOC_FULL then Some sv
      else if i < length revents
      then case revents ! i of None \<Rightarrow> Some sv | Some rs \<Rightarrow> map_option snd (server_forward i rs sv)
      else None)"

text \<open>One round of the loop: whether it goes on, the size of the array of descriptors, and the state.\<close>

definition server_round :: "poll_event \<Rightarrow> nat option \<Rightarrow> juice_server \<Rightarrow> (bool \<times> nat option \<times> juice_server) option" where
  "server_round ev nfd sv =
     do { (next_timestamp, sv1) \<leftarrow> server_bookkeeping sv;
          let sv2 = snd (server_now sv1);
          let (pfd, sv3) = (if nfd \<noteq> Some (1 + length (sv_allocs sv2)) then server_malloc sv2 else (Some 0, sv2));
          if pfd = None then Some (False, None, sv3)
          else do { let nfd1 = Some (1 + length (sv_allocs sv3));
                    let revents = relay_events ev sv3;
                    let sv4 = meanwhile ev sv3;
                    case pe_result ev of
                      Poll_again \<Rightarrow> Some (True, nfd1, sv4)
                    | Poll_failed \<Rightarrow> Some (False, nfd1, sv4)
                    | Poll_ready \<Rightarrow>
                        if sv_thread_stopped sv4 then Some (False, nfd1, sv4)
                        else if pe_main_error ev then Some (False, nfd1, sv4)
                        else do { (ret, sv5) \<leftarrow> (case pe_main ev of None \<Rightarrow> Some (0, sv4) | Some rs \<Rightarrow> server_recv rs sv4);
                                  if ret < 0 then Some (False, nfd1, sv5)
                                  else do { sv6 \<leftarrow> each [0..<length (sv_allocs sv5)] (forward_relay revents) sv5;
                                            Some (True, nfd1, sv6) } } } }"

text \<open>The loop, over the answers that \<^verbatim>\<open>poll\<close> gives.\<close>

fun server_loop :: "poll_event list \<Rightarrow> nat option \<Rightarrow> juice_server \<Rightarrow> juice_server option" where
  "server_loop [] nfd sv = Some sv"
| "server_loop (ev # evs) nfd sv =
     do { (go, nfd1, sv1) \<leftarrow> server_round ev nfd sv;
          if go then server_loop evs nfd1 sv1 else Some sv1 }"

definition server_run :: "poll_event list \<Rightarrow> juice_server \<Rightarrow> juice_server option" where
  "server_run evs sv = server_loop evs None sv"

end
