(* ===== verification/Server_Frame.thy ===== *)
theory Server_Frame
  imports Server_Turn Turn_Run
begin

text \<open>
  What the operations of the server do to its state.  A step either only answers (\<open>answers\<close>: it sends to the client
  from the server socket and touches neither allocations nor credentials), or is a step of an authenticated client
  (\<open>client_step\<close>): it opens an allocation against the quota, changes or deletes an allocation of its own.
\<close>

subsection \<open>Steps that only answer\<close>

text \<open>What a step that only answers leaves alone: everything but the counters of the world, the trace and the nonce key.\<close>

definition still :: "juice_server \<Rightarrow> juice_server" where
  "still sv = sv\<lparr>sv_nonce_key := [], sv_nonce_key_timestamp := 0,
     sv_env := (sv_env sv)\<lparr>se_draws := 0, se_ticks := 0, se_mallocs := 0, se_sockets := 0, se_sends := 0, se_out := []\<rparr>\<rparr>"

definition sent :: "server_output list \<Rightarrow> juice_server \<Rightarrow> juice_server \<Rightarrow> bool" where
  "sent new sv sv' \<longleftrightarrow> se_out (sv_env sv') = se_out (sv_env sv) @ new"

definition answers :: "addr_record \<Rightarrow> juice_server \<Rightarrow> juice_server \<Rightarrow> bool" where
  "answers src sv sv' \<longleftrightarrow> still sv' = still sv \<and> (\<exists>ds. sent (map (\<lambda>d. Udp_sendto (sv_sock sv) d src) ds) sv sv')"

lemma still_fields:
  assumes "still sv' = still sv"
  shows "sv_allocs sv' = sv_allocs sv" "sv_credentials sv' = sv_credentials sv" "sv_sock sv' = sv_sock sv"
    "sv_realm sv' = sv_realm sv" "sv_max_peers sv' = sv_max_peers sv" "se_clock (sv_env sv') = se_clock (sv_env sv)"
    "se_malloc (sv_env sv') = se_malloc (sv_env sv)" "sv_thread_stopped sv' = sv_thread_stopped sv"
proof -
  obtain e e' where "sv_env sv = e" "sv_env sv' = e'" by blast
  with assms show "sv_allocs sv' = sv_allocs sv" "sv_credentials sv' = sv_credentials sv" "sv_sock sv' = sv_sock sv"
    "sv_realm sv' = sv_realm sv" "sv_max_peers sv' = sv_max_peers sv" "se_clock (sv_env sv') = se_clock (sv_env sv)"
    "se_malloc (sv_env sv') = se_malloc (sv_env sv)" "sv_thread_stopped sv' = sv_thread_stopped sv"
    by (cases sv; cases sv'; cases e; cases e'; simp add: still_def)+
qed

lemma answers_refl [simp, intro]: "answers src sv sv"
  unfolding answers_def sent_def by (auto intro: exI [of _ "[]"])

lemma answers_trans: "answers src sv sv1 \<Longrightarrow> answers src sv1 sv2 \<Longrightarrow> answers src sv sv2"
proof -
  assume a: "answers src sv sv1" "answers src sv1 sv2"
  then have st: "still sv1 = still sv" "still sv2 = still sv1" by (simp_all add: answers_def)
  note sock = still_fields(3) [OF st(1)]
  obtain ds ds' where "se_out (sv_env sv1) = se_out (sv_env sv) @ map (\<lambda>d. Udp_sendto (sv_sock sv) d src) ds"
    "se_out (sv_env sv2) = se_out (sv_env sv1) @ map (\<lambda>d. Udp_sendto (sv_sock sv) d src) ds'"
    using a by (auto simp: answers_def sent_def sock)
  then show ?thesis unfolding answers_def sent_def using st by (auto intro!: exI [of _ "ds @ ds'"])
qed

lemma answers_silent: "still sv' = still sv \<Longrightarrow> se_out (sv_env sv') = se_out (sv_env sv) \<Longrightarrow> answers src sv sv'"
  unfolding answers_def sent_def by (auto intro: exI [of _ "[]"])

lemma answers_world [intro]:
  "answers src sv (snd (server_now sv))" "answers src sv (snd (server_random n sv))" "answers src sv (snd (server_malloc sv))"
  "answers src sv (snd (server_socket config sv))"
  by (rule answers_silent; simp add: server_now_def server_random_def server_malloc_def server_socket_def still_def)+

lemma answers_refresh [intro]: "answers src sv (refresh_nonce_key sv)"
  by (rule answers_silent; simp add: refresh_nonce_key_def server_now_def server_random_def still_def)

lemma answers_get_nonce [intro]: "answers dst sv (snd (server_get_nonce src sv))"
  by (auto simp: server_get_nonce_def Let_def)

lemma answers_send [intro]: "answers src sv (snd (server_send src data sv))"
  unfolding answers_def sent_def
  by (auto simp: server_send_def udp_sendto_def server_emit_def still_def intro: exI [of _ "[data]"])

lemma answers_stun_send: "server_stun_send src msg pw sv = Some (r, sv') \<Longrightarrow> answers src sv sv'"
  unfolding server_stun_send_def case_prod_unfold Let_def by (auto simp: bind_eq_Some_conv split: if_splits)

lemma answers_prepare: "server_prepare_credentials src cred msg sv = Some (m, sv') \<Longrightarrow> answers dst sv sv'"
  unfolding server_prepare_credentials_def case_prod_unfold Let_def
  by (auto simp: bind_eq_Some_conv split: option.splits)

lemma answers_error: "server_answer_stun_error tid src method code cred sv = Some (r, sv') \<Longrightarrow> answers src sv sv'"
  unfolding server_answer_stun_error_def case_prod_unfold Let_def
  by (auto simp: bind_eq_Some_conv split: if_splits intro: answers_trans dest: answers_stun_send answers_prepare)

lemma answers_success: "server_answer_success ans src cred sv = Some (r, sv') \<Longrightarrow> answers src sv sv'"
  unfolding server_answer_success_def case_prod_unfold
  by (auto simp: bind_eq_Some_conv intro: answers_trans dest: answers_stun_send answers_prepare)

lemma answers_binding: "server_answer_stun_binding tid src sv = Some (r, sv') \<Longrightarrow> answers src sv sv'"
  unfolding server_answer_stun_binding_def case_prod_unfold Let_def by (auto simp: bind_eq_Some_conv split: if_splits)


subsection \<open>Steps of an authenticated client\<close>

text \<open>The allocation in slot \<open>i\<close> belongs to the client at \<open>src\<close> with the credentials \<open>p\<close>.\<close>

definition own_alloc :: "addr_record \<Rightarrow> nat \<Rightarrow> server_turn_alloc \<Rightarrow> bool" where
  "own_alloc src p al \<longleftrightarrow> sa_state al = SERVER_TURN_ALLOC_FULL \<and> sa_credentials al = Some p
     \<and> (sa_record al = src \<or> addr_record_is_equal (sa_record al) src True)"

inductive client_step :: "addr_record \<Rightarrow> nat \<Rightarrow> juice_server \<Rightarrow> juice_server \<Rightarrow> bool" for src p where
  answer: "answers src sv sv' \<Longrightarrow> client_step src p sv sv'"
| close: "client_step src p sv (server_emit (Udp_close s) sv)"
| scratch: "i < length (sv_allocs sv) \<Longrightarrow> sa_state (sv_allocs sv ! i) \<noteq> SERVER_TURN_ALLOC_FULL \<Longrightarrow>
    sa_state (f (sv_allocs sv ! i)) = sa_state (sv_allocs sv ! i) \<Longrightarrow> client_step src p sv (upd_alloc i f sv)"
| open_alloc: "i < length (sv_allocs sv) \<Longrightarrow> sa_state (sv_allocs sv ! i) \<noteq> SERVER_TURN_ALLOC_FULL \<Longrightarrow>
    cred_at sv p = Some node \<Longrightarrow> 0 < cl_allocations_quota node \<Longrightarrow> own_alloc src p (f (sv_allocs sv ! i)) \<Longrightarrow>
    client_step src p sv (upd_cred p (\<lambda>node. node\<lparr>cl_allocations_quota := cl_allocations_quota node - 1\<rparr>) (upd_alloc i f sv))"
| touch: "i < length (sv_allocs sv) \<Longrightarrow> own_alloc src p (sv_allocs sv ! i) \<Longrightarrow> own_alloc src p (f (sv_allocs sv ! i)) \<Longrightarrow>
    client_step src p sv (upd_alloc i f sv)"
| delete: "i < length (sv_allocs sv) \<Longrightarrow> own_alloc src p (sv_allocs sv ! i) \<Longrightarrow> delete_allocation i sv = Some sv' \<Longrightarrow>
    client_step src p sv sv'"

abbreviation client_run :: "addr_record \<Rightarrow> nat \<Rightarrow> juice_server \<Rightarrow> juice_server \<Rightarrow> bool" where
  "client_run src p \<equiv> (client_step src p)\<^sup>*\<^sup>*"

lemma run_answer: "answers src sv sv' \<Longrightarrow> client_run src p sv sv'"
  by (blast intro: client_step.answer)

lemma run_trans: "client_run src p sv sv1 \<Longrightarrow> client_run src p sv1 sv2 \<Longrightarrow> client_run src p sv sv2"
  by (rule rtranclp_trans)

lemma upd_alloc_simps [simp]:
  "sv_allocs (upd_alloc i f sv) = (sv_allocs sv)[i := f (sv_allocs sv ! i)]" "sv_credentials (upd_alloc i f sv) = sv_credentials sv"
  "sv_sock (upd_alloc i f sv) = sv_sock sv" "sv_env (upd_alloc i f sv) = sv_env sv" "sv_realm (upd_alloc i f sv) = sv_realm sv"
  "cred_at (upd_alloc i f sv) = cred_at sv"
  by (auto simp: upd_alloc_def cred_at_def)

lemma upd_cred_simps [simp]:
  "sv_allocs (upd_cred q g sv) = sv_allocs sv" "sv_sock (upd_cred q g sv) = sv_sock sv" "sv_env (upd_cred q g sv) = sv_env sv"
  "sv_realm (upd_cred q g sv) = sv_realm sv"
  by (auto simp: upd_cred_def)

lemma server_emit_simps [simp]:
  "sv_allocs (server_emit x sv) = sv_allocs sv" "sv_credentials (server_emit x sv) = sv_credentials sv"
  "sv_sock (server_emit x sv) = sv_sock sv" "cred_at (server_emit x sv) = cred_at sv"
  "se_out (sv_env (server_emit x sv)) = se_out (sv_env sv) @ [x]" "sv_realm (server_emit x sv) = sv_realm sv"
  by (auto simp: server_emit_def cred_at_def)

lemma server_now_simps [simp]:
  "sv_allocs (snd (server_now sv)) = sv_allocs sv" "sv_credentials (snd (server_now sv)) = sv_credentials sv"
  "sv_sock (snd (server_now sv)) = sv_sock sv" "fst (server_now sv) = se_clock (sv_env sv) (se_ticks (sv_env sv))"
  "se_out (sv_env (snd (server_now sv))) = se_out (sv_env sv)" "cred_at (snd (server_now sv)) = cred_at sv"
  "sv_realm (snd (server_now sv)) = sv_realm sv"
  by (auto simp: server_now_def cred_at_def)

subsection \<open>The table\<close>

lemma find_allocation_cases:
  assumes "allocs \<noteq> []"
  shows "(\<exists>i<length allocs. find_allocation allocs r a = Some (Some i) \<and> alloc_stops r a (allocs ! i))
    \<or> find_allocation allocs r a = Some None \<and> (\<forall>al\<in>set allocs. \<not> alloc_stops r a al)"
proof -
  let ?n = "length allocs" let ?k = "unat (addr_record_hash r True) mod ?n"
  have k: "?k < ?n" "0 < ?n" using assms by auto
  consider i where "probe allocs (alloc_stops r a) ?k i"
      "find_entry_loop allocs (alloc_stops r a) ?k ((?k + 0) mod ?n) = Some (Some ((?k + i) mod ?n))"
    | "find_entry_loop allocs (alloc_stops r a) ?k ((?k + 0) mod ?n) = Some None"
      "\<forall>i<?n. \<not> alloc_stops r a (allocs ! ((?k + i) mod ?n))"
    using find_entry_loop_from [OF k, of "alloc_stops r a"] by blast
  then show ?thesis
  proof cases
    case 1
    then show ?thesis using assms k(2) by (auto simp: find_allocation_def Let_def probe_def)
  next
    case 2
    have "\<not> alloc_stops r a (allocs ! j)" if j: "j < ?n" for j
    proof -
      have "(k + (j + ?n - k) mod ?n) mod ?n = j" if "k < ?n" for k using j that by (simp add: mod_simps)
      note this [OF k(1)]
      then show ?thesis using 2(2) mod_less_divisor [OF k(2)] by metis
    qed
    then show ?thesis using assms 2(1) by (auto simp: find_allocation_def Let_def in_set_conv_nth)
  qed
qed

lemma find_allocation_Some:
  assumes "find_allocation allocs r a = Some (Some i)"
  shows "i < length allocs \<and> alloc_stops r a (allocs ! i)"
proof -
  have "allocs \<noteq> []" using assms by (auto simp: find_allocation_def)
  then show ?thesis using find_allocation_cases [of allocs r a] assms by auto
qed

lemma found_full:
  assumes "find_allocation allocs r a = Some (Some i)" and "sa_state (allocs ! i) = SERVER_TURN_ALLOC_FULL"
  shows "i < length allocs \<and> addr_record_is_equal (sa_record (allocs ! i)) r True"
  using find_allocation_Some [OF assms(1)] assms(2) by (auto simp: alloc_stops_def)

subsection \<open>The requests\<close>

lemma run_then_answer: "client_run src p sv sv1 \<Longrightarrow> answers src sv1 sv2 \<Longrightarrow> client_run src p sv sv2"
  by (blast intro: run_trans run_answer)

lemma own_alloc_keep:
  "own_alloc src p (al\<lparr>sa_map := m\<rparr>) = own_alloc src p al"
  "own_alloc src p (al\<lparr>sa_timestamp := t, sa_transaction_id := x\<rparr>) = own_alloc src p al"
  by (simp_all add: own_alloc_def)

lemma run_touch:
  assumes "client_run src p sv sv1" and "i < length (sv_allocs sv1)" and "own_alloc src p (sv_allocs sv1 ! i)"
    and "own_alloc src p (f (sv_allocs sv1 ! i))"
  shows "client_run src p sv (upd_alloc i f sv1)"
  using assms client_step.touch by (meson rtranclp.rtrancl_into_rtrancl)

lemma answers_allocs: "answers src sv sv' \<Longrightarrow> sv_allocs sv' = sv_allocs sv"
  by (auto simp: answers_def dest: still_fields)

lemma answers_cred_at: "answers src sv sv' \<Longrightarrow> cred_at sv' = cred_at sv"
  using still_fields(2) [of sv' sv] by (simp add: answers_def cred_at_def [abs_def])

lemma run_now: "client_run src p sv (snd (server_now sv))"
  by (intro run_answer answers_world)

lemma set_permissions_run:
  assumes "set_permissions i tid ps sv = Some (ok, sv')" and "i < length (sv_allocs sv)" and "own_alloc src p (sv_allocs sv ! i)"
  shows "client_run src p sv sv' \<and> i < length (sv_allocs sv') \<and> own_alloc src p (sv_allocs sv' ! i)"
  using assms
proof (induction i tid ps sv rule: set_permissions.induct)
  case (2 i tid peer ps sv)
  obtain now sv1 where n: "server_now sv = (now, sv1)" by fastforce
  have al: "sv_allocs sv1 = sv_allocs sv" using server_now_simps(1) [of sv] by (simp add: n)
  obtain b m where m: "turn_set_permission now (sa_map (sv_allocs sv1 ! i)) tid (Some peer) SERVER_PERMISSION_LIFETIME = Some (b, m)"
    and rest: "(if b then set_permissions i tid ps (upd_alloc i (\<lambda>al. al\<lparr>sa_map := m\<rparr>) sv1)
      else Some (False, upd_alloc i (\<lambda>al. al\<lparr>sa_map := m\<rparr>) sv1)) = Some (ok, sv')"
    using 2(2) by (auto simp: n bind_eq_Some_conv Let_def)
  let ?sv2 = "upd_alloc i (\<lambda>al. al\<lparr>sa_map := m\<rparr>) sv1"
  have run: "client_run src p sv ?sv2"
    using run_now [of src p sv] 2(3,4) by (intro run_touch) (simp_all add: n al own_alloc_keep)
  show ?case
  proof (cases b)
    case True
    have "client_run src p ?sv2 sv' \<and> i < length (sv_allocs sv') \<and> own_alloc src p (sv_allocs sv' ! i)"
      using rest True 2(3,4) by (intro 2(1) [OF n [symmetric] refl m refl]) (simp_all add: al own_alloc_keep)
    then show ?thesis using run by (meson run_trans)
  next
    case False
    then show ?thesis using rest run 2(3,4) by (auto simp: al own_alloc_keep)
  qed
qed simp

lemma bind_peer_run:
  assumes "bind_peer i tid peer ch sv = Some (ok, sv')" and "i < length (sv_allocs sv)" and "own_alloc src p (sv_allocs sv ! i)"
  shows "client_run src p sv sv'"
proof -
  obtain now sv1 where n: "server_now sv = (now, sv1)" by fastforce
  have al: "sv_allocs sv1 = sv_allocs sv" using server_now_simps(1) [of sv] by (simp add: n)
  obtain b m where rest: "(if b then set_permissions i tid [peer] (upd_alloc i (\<lambda>al. al\<lparr>sa_map := m\<rparr>) sv1)
      else Some (False, upd_alloc i (\<lambda>al. al\<lparr>sa_map := m\<rparr>) sv1)) = Some (ok, sv')"
    using assms(1) unfolding bind_peer_def by (auto simp: n bind_eq_Some_conv Let_def)
  let ?sv2 = "upd_alloc i (\<lambda>al. al\<lparr>sa_map := m\<rparr>) sv1"
  have run: "client_run src p sv ?sv2"
    using run_now [of src p sv] assms(2,3) by (intro run_touch) (simp_all add: n al own_alloc_keep)
  show ?thesis
  proof (cases b)
    case True
    have "client_run src p ?sv2 sv'"
      using rest True assms(2,3) set_permissions_run [of i tid "[peer]" ?sv2 ok sv' src p] by (simp add: al own_alloc_keep)
    then show ?thesis using run by (rule run_trans [rotated])
  qed (use rest run in simp)
qed

lemma own_allocation:
  assumes "server_own_allocation src p sv = Some (Inr i)"
  shows "i < length (sv_allocs sv) \<and> own_alloc src p (sv_allocs sv ! i)"
  using assms found_full [of "sv_allocs sv" src False i]
  by (auto simp: server_own_allocation_def bind_eq_Some_conv own_alloc_def split: option.splits if_splits)

lemma new_allocation_run:
  assumes "server_new_allocation i msg src p sv = Some (e, sv')" and "i < length (sv_allocs sv)"
    and "sa_state (sv_allocs sv ! i) \<noteq> SERVER_TURN_ALLOC_FULL"
  shows "client_run src p sv sv' \<and> (e = None \<longrightarrow> i < length (sv_allocs sv') \<and> own_alloc src p (sv_allocs sv' ! i))"
proof (cases "msg_method msg = STUN_METHOD_REFRESH")
  case True
  then show ?thesis using assms(1) by (auto simp: server_new_allocation_def)
next
  case False
  have "cred_at sv p \<noteq> None" using assms(1) False unfolding server_new_allocation_def by (metis bind.bind_lzero option.distinct(1))
  then obtain node where node: "cred_at sv p = Some node" by blast
  let ?cfg = "\<lparr>bind_address = sv_bind_address sv, port_begin = sv_relay_port_range_begin sv, port_end = sv_relay_port_range_end sv\<rparr>"
  obtain sock sv1 where s: "server_socket ?cfg sv = (sock, sv1)" by fastforce
  define sv2 where "sv2 = upd_alloc i (\<lambda>al. al\<lparr>sa_sock := sock\<rparr>) sv1"
  obtain q sv3 where q: "server_malloc sv2 = (q, sv3)" by fastforce
  have a1: "answers src sv sv1" using answers_world(4) [of src sv ?cfg] by (simp add: s)
  have a3: "answers src sv2 sv3" using answers_world(3) [of src sv2] by (simp add: q)
  have al: "sv_allocs sv1 = sv_allocs sv" "sv_allocs sv3 = sv_allocs sv2" using a1 a3 by (auto dest: answers_allocs)
  have cr: "cred_at sv1 = cred_at sv" "cred_at sv3 = cred_at sv2"
    using a1 a3 answers_cred_at by blast+
  have r2: "client_run src p sv sv2"
    unfolding sv2_def using assms(2,3)
    by (intro run_trans [OF run_answer [OF a1]] r_into_rtranclp client_step.scratch) (simp_all add: al)
  have st: "sa_state (sv_allocs sv3 ! i) \<noteq> SERVER_TURN_ALLOC_FULL" "i < length (sv_allocs sv3)" "cred_at sv3 p = Some node"
    using assms(2,3) node by (simp_all add: al sv2_def cr)
  have r3: "client_run src p sv sv3" by (rule run_trans [OF r2 run_answer [OF a3]])
  have e4: "client_run src p sv (upd_alloc i f sv3)" if "sa_state (f (sv_allocs sv3 ! i)) = sa_state (sv_allocs sv3 ! i)" for f
    using st that by (intro run_trans [OF r3] r_into_rtranclp client_step.scratch)
  have e5: "client_run src p sv (upd_cred p (\<lambda>node. node\<lparr>cl_allocations_quota := cl_allocations_quota node - 1\<rparr>) (upd_alloc i f sv3))"
    if "own_alloc src p (f (sv_allocs sv3 ! i))" "0 < cl_allocations_quota node" for f
    using st that by (intro run_trans [OF r3] r_into_rtranclp client_step.open_alloc)
  define opened where "opened = upd_cred p (\<lambda>node. node\<lparr>cl_allocations_quota := cl_allocations_quota node - 1\<rparr>)
      (upd_alloc i (\<lambda>al. al\<lparr>sa_map := turn_init_map (nat (sv_max_peers sv3)),
         sa_state := SERVER_TURN_ALLOC_FULL, sa_record := src, sa_credentials := Some p\<rparr>) sv3)"
  define closed where "closed = server_emit (Udp_close sock) (upd_alloc i (\<lambda>al. al\<lparr>sa_map := no_map, sa_sock := INVALID_SOCKET\<rparr>) sv3)"
  have "server_new_allocation i msg src p sv =
    (if cl_allocations_quota node \<le> 0 then Some (Some (486, False), sv)
     else if sock = INVALID_SOCKET then Some (Some (500, True), sv2)
     else if q = None \<or> sv_max_peers sv3 < 0 then Some (Some (500, True), closed) else Some (None, opened))"
    unfolding server_new_allocation_def node bind.bind_lunit s Let_def prod.case sv2_def [symmetric] q
    unfolding opened_def [symmetric] closed_def [symmetric] using False by simp
  with assms(1) consider "e = Some (486, False)" "sv' = sv" | "e = Some (500, True)" "sv' = sv2"
    | "e = Some (500, True)" "sv' = closed" | "0 < cl_allocations_quota node" "e = None" "sv' = opened"
    by (simp split: if_split_asm)
  then show ?thesis
  proof cases
    case 3
    have "client_run src p sv closed"
      unfolding closed_def by (rule rtranclp.rtrancl_into_rtrancl [OF e4 client_step.close]) simp
    then show ?thesis using 3 by simp
  next
    case 4
    then show ?thesis using e5 st(2) by (simp add: opened_def own_alloc_def)
  qed (use r2 in auto)
qed

lemma grant_run:
  assumes "server_grant_allocation i msg src p sv = Some (r, sv')" and "i < length (sv_allocs sv)" and "own_alloc src p (sv_allocs sv ! i)"
  shows "client_run src p sv sv'"
proof -
  obtain now sv1 where n: "server_now sv = (now, sv1)" by fastforce
  have al: "sv_allocs sv1 = sv_allocs sv" using server_now_simps(1) [of sv] by (simp add: n)
  define sv2 where "sv2 = upd_alloc i (\<lambda>al. al\<lparr>sa_timestamp := now + uint (granted_lifetime msg) * 1000, sa_transaction_id := transaction_id msg\<rparr>) sv1"
  have own: "i < length (sv_allocs sv2)" "own_alloc src p (sv_allocs sv2 ! i)"
    using assms(2,3) by (simp_all add: sv2_def al own_alloc_keep)
  have r2: "client_run src p sv sv2"
    unfolding sv2_def using run_now [of src p sv] assms(2,3) by (intro run_touch) (simp_all add: n al own_alloc_keep)
  have del: "client_run src p sv sv3" if "delete_allocation i sv2 = Some sv3" for sv3
    using that own by (intro run_trans [OF r2] r_into_rtranclp client_step.delete)
  show ?thesis
    using assms(1) unfolding server_grant_allocation_def n prod.case Let_def sv2_def [symmetric]
    by (auto simp: bind_eq_Some_conv split: if_splits option.splits
        dest!: answers_success answers_error intro: run_trans run_answer del r2)
qed

lemma allocate_run:
  assumes "server_process_turn_allocate msg src p sv = Some (r, sv')"
  shows "client_run src p sv sv'"
proof -
  define refuse where "refuse = (\<lambda>(code, neg) sv. do { (r, sv1) \<leftarrow> server_answer_stun_error (transaction_id msg) src (msg_method msg) code (Some p) sv;
                                        Some (if neg then -1 else r, sv1) })"
  have refused: "client_run src p sv1 sv2" if "refuse e sv1 = Some (x, sv2)" for e sv1 x sv2
    using that by (cases e) (auto simp: refuse_def bind_eq_Some_conv intro!: run_answer dest: answers_error)
  note unfolded = assms [unfolded server_process_turn_allocate_def Let_def, folded refuse_def]
  show ?thesis
  proof (cases "msg_class msg \<noteq> STUN_CLASS_REQUEST \<or> (msg_method msg \<noteq> STUN_METHOD_ALLOCATE \<and> msg_method msg \<noteq> STUN_METHOD_REFRESH)")
    case True
    then show ?thesis using unfolded by (auto split: if_splits)
  next
    case False
    then obtain slot where slot: "find_allocation (sv_allocs sv) src True = Some slot"
      using unfolded by (auto simp: bind_eq_Some_conv split: if_splits)
    note step = unfolded [unfolded slot bind.bind_lunit]
    show ?thesis
    proof (cases slot)
      case None
      then show ?thesis using step False refused by (auto split: if_splits)
    next
      case (Some i)
      note i = find_allocation_Some [OF slot [unfolded Some]]
      show ?thesis
      proof (cases "sa_state (sv_allocs sv ! i) = SERVER_TURN_ALLOC_FULL")
        case full: True
        note eq = found_full [OF slot [unfolded Some] full]
        show ?thesis
        proof (cases "server_known_allocation i msg p sv")
          case None
          then have "own_alloc src p (sv_allocs sv ! i)"
            using full eq by (auto simp: own_alloc_def server_known_allocation_def Let_def split: if_splits)
          then show ?thesis using step False Some full None i grant_run by (auto split: if_splits)
        qed (use step False Some full refused in \<open>auto split: if_splits\<close>)
      next
        case free: False
        then obtain e sv1 where e: "server_new_allocation i msg src p sv = Some (e, sv1)"
          "(case e of Some e \<Rightarrow> refuse e sv1 | None \<Rightarrow> server_grant_allocation i msg src p sv1) = Some (r, sv')"
          using step False Some by (auto simp: bind_eq_Some_conv split: if_splits)
        note new = new_allocation_run [OF e(1) conjunct1 [OF i] free]
        then have "client_run src p sv1 sv'" using e(2) refused grant_run by (auto split: option.splits)
        then show ?thesis using new run_trans by blast
      qed
    qed
  qed
qed

lemma create_permission_run:
  assumes "server_process_turn_create_permission msg src p sv = Some (r, sv')"
  shows "client_run src p sv sv'"
  using assms unfolding server_process_turn_create_permission_def Let_def
  by (auto elim!: bind_SomeE split: if_split_asm sum.split_asm
      dest!: own_allocation set_permissions_run [where src = src and p = p] answers_error answers_success)
    (erule run_answer | erule (1) run_then_answer)+

lemma channel_bind_run:
  assumes "server_process_turn_channel_bind msg src p sv = Some (r, sv')"
  shows "client_run src p sv sv'"
  using assms unfolding server_process_turn_channel_bind_def Let_def
  by (auto elim!: bind_SomeE split: if_split_asm sum.split_asm list.split_asm
      dest!: own_allocation bind_peer_run [where src = src and p = p] answers_error answers_success)
    (erule run_answer | erule (1) run_then_answer)+

lemma serve_request_run:
  assumes "server_serve_request msg src p sv = Some (r, sv')" and "msg_class msg = STUN_CLASS_REQUEST"
  shows "client_run src p sv sv'"
  using assms allocate_run create_permission_run channel_bind_run
  by (auto simp: server_serve_request_def server_process_turn_send_def stun_consts split: if_splits)

end
