(* ===== verification/Server_Auth.thy ===== *)
theory Server_Auth
  imports Server_Frame
begin

text \<open>
  What a datagram can do to the server: be answered, be relayed to a peer the client has a permission for, or, when it is
  authenticated, change the allocations of its sender.
\<close>

subsection \<open>Authentication\<close>

text \<open>The node is in force at some time the server reads from its clock, and the message names it.\<close>

definition in_force :: "juice_server \<Rightarrow> juice_credentials_list \<Rightarrow> bool" where
  "in_force sv node \<longleftrightarrow> cl_timestamp node = 0 \<or> (\<exists>k. cl_timestamp node > se_clock (sv_env sv) k)"

definition names_user :: "stun_credentials \<Rightarrow> juice_credentials_list \<Rightarrow> bool" where
  "names_user c node \<longleftrightarrow>
     (if enable_userhash c then const_time_memcmp (cl_userhash node) (userhash c) USERHASH_SIZE = Some 0
      else const_time_strcmp (cl_username node @ [0]) (username c @ [0]) = Some 0)"

text \<open>The message as it is checked: with a user hash, the server fills in the user name.\<close>

definition checked_message :: "stun_message \<Rightarrow> juice_credentials_list \<Rightarrow> stun_message" where
  "checked_message msg node =
     (if enable_userhash (credentials msg)
      then msg\<lparr>credentials := (credentials msg)\<lparr>username := take (STUN_MAX_USERNAME_LEN - 1) (cl_username node)\<rparr>\<rparr> else msg)"

definition authentic :: "bytes \<Rightarrow> stun_message \<Rightarrow> addr_record \<Rightarrow> juice_server \<Rightarrow> juice_credentials_list \<Rightarrow> bool" where
  "authentic buf msg src sv node \<longleftrightarrow>
     node \<in> set (sv_credentials sv) \<and> in_force sv node \<and> names_user (credentials msg) node
     \<and> realm (credentials msg) = sv_realm sv \<and> nonce (credentials msg) = fst (server_get_nonce src sv)
     \<and> stun_check_integrity buf (checked_message msg node) (Some (cl_password node)) = Some True"

lemma find_credentials_Some:
  assumes "find_credentials now same nodes cred = Some (Some p)" and "cred \<noteq> Some p"
  shows "\<exists>node\<in>set nodes. cl_addr node = p \<and> (cl_timestamp node = 0 \<or> cl_timestamp node > now) \<and> same node = Some 0"
  using assms
proof (induction now same nodes cred rule: find_credentials.induct)
  case (2 now same node nodes cred)
  show ?case
  proof (cases "cl_timestamp node = 0 \<or> cl_timestamp node > now")
    case True
    then obtain x where x: "same node = Some x" "find_credentials now same nodes (if x = 0 then Some (cl_addr node) else cred) = Some (Some p)"
      using "2.prems"(1) by (auto elim!: bind_SomeE)
    show ?thesis
    proof (cases "x = 0 \<and> cl_addr node = p")
      case True
      with x \<open>cl_timestamp node = 0 \<or> _\<close> show ?thesis by auto
    next
      case False
      then show ?thesis using "2.IH"(1) [OF True x] "2.prems"(2) by (auto split: if_splits)
    qed
  qed (use 2 in auto)
qed simp

lemma cred_at_unique:
  assumes "distinct (map cl_addr (sv_credentials sv))" and "node \<in> set (sv_credentials sv)"
  shows "cred_at sv (cl_addr node) = Some node"
proof -
  obtain i where i: "i < length (sv_credentials sv)" "sv_credentials sv ! i = node" using assms(2) by (auto simp: in_set_conv_nth)
  moreover have "cl_addr (sv_credentials sv ! j) \<noteq> cl_addr node" if "j < i" for j
    using assms(1) i that by (auto simp: distinct_conv_nth)
  ultimately show ?thesis by (auto simp: cred_at_def find_Some_iff)
qed

lemma authenticate_sound:
  assumes "server_authenticate buf msg src sv = Some (auth, sv')"
  shows "answers dst sv sv' \<and> (\<forall>p. auth = Auth_granted p \<and> distinct (map cl_addr (sv_credentials sv)) \<longrightarrow> (\<exists>node. cl_addr node = p \<and> authentic buf msg src sv node))"
proof -
  define c where "c = credentials msg"
  define same where "same = (\<lambda>node :: juice_credentials_list. if enable_userhash c then const_time_memcmp (cl_userhash node) (userhash c) USERHASH_SIZE
                               else const_time_strcmp (cl_username node @ [0]) (username c @ [0]))"
  obtain nnc sv1 where g: "server_get_nonce src sv = (nnc, sv1)" by fastforce
  obtain now sv2 where n: "server_now sv1 = (now, sv2)" by fastforce
  have a1: "answers dst sv sv1" using answers_get_nonce [of dst sv src] by (simp add: g)
  have a2: "answers dst sv sv2" using answers_trans [OF a1] answers_world(1) [of dst sv1] by (simp add: n)
  have st: "still sv2 = still sv" "still sv1 = still sv" using a1 a2 by (auto simp: answers_def)
  have now: "now = se_clock (sv_env sv) (se_ticks (sv_env sv1))" using n still_fields(6) [OF st(2)] by (auto simp: server_now_def)
  note f = still_fields(2,4) [OF st(1)] still_fields(4) [OF st(2)]
  have cm: "(if enable_userhash c then msg\<lparr>credentials := c\<lparr>username := take (STUN_MAX_USERNAME_LEN - 1) (cl_username node)\<rparr>\<rparr> else msg)
      = checked_message msg node" for node by (simp add: checked_message_def c_def)
  note res = assms(1) [unfolded server_authenticate_def Let_def g n prod.case, folded c_def, folded same_def, unfolded cm]
  show ?thesis
  proof (cases "(\<not> has_integrity msg \<or> realm c = [] \<or> nonce c = [] \<or> (username c = [] \<and> \<not> enable_userhash c))")
    case True
    then show ?thesis using res by auto
  next
    case ok1: False
    show ?thesis
    proof (cases "nonce c \<noteq> nnc \<or> realm c \<noteq> sv_realm sv1")
      case True
      then show ?thesis using res ok1 a1 by auto
    next
      case ok2: False
      obtain found where found: "find_credentials now same (sv_credentials sv2) None = Some found"
        and rest: "(case found of None \<Rightarrow> Some (Auth_refused 401 True, sv2)
          | Some p \<Rightarrow> do { node \<leftarrow> cred_at sv2 p; ok \<leftarrow> stun_check_integrity buf (checked_message msg node) (Some (cl_password node));
                           Some (if ok then Auth_granted p else Auth_refused 401 True, sv2) }) = Some (auth, sv')"
        using res ok1 ok2 by (auto elim!: bind_SomeE)
      show ?thesis
      proof (cases found)
        case None
        then show ?thesis using rest a2 by auto
      next
        case (Some p)
        obtain node where node: "node \<in> set (sv_credentials sv)" "cl_addr node = p" "cl_timestamp node = 0 \<or> cl_timestamp node > now"
          "same node = Some 0" using find_credentials_Some [OF found [unfolded Some]] f by auto
        have sv': "sv' = sv2" using rest Some by (auto elim!: bind_SomeE)
        have "authentic buf msg src sv node" if auth: "auth = Auth_granted p" and "distinct (map cl_addr (sv_credentials sv))"
        proof -
          have "cred_at sv2 p = Some node" using cred_at_unique [OF that(2) node(1)] node(2) f(1) by (simp add: cred_at_def)
          then have "stun_check_integrity buf (checked_message msg node) (Some (cl_password node)) = Some True"
            using rest Some auth by (auto elim!: bind_SomeE split: if_splits)
          then show ?thesis
            using node ok2 f now by (auto simp: authentic_def in_force_def names_user_def same_def c_def g split: if_splits)
        qed
        moreover have "auth = Auth_granted p \<or> auth = Auth_refused 401 True"
          using rest Some by (auto elim!: bind_SomeE split: if_splits)
        ultimately show ?thesis using sv' a2 node(2) by auto
      qed
    qed
  qed
qed

subsection \<open>What a datagram can do\<close>

text \<open>The client at \<open>src\<close> has an allocation with the socket \<open>sock\<close> and a permission for \<open>dst\<close>, or a channel bound to it, at some time
  the server reads from its clock.\<close>

definition relays_to :: "juice_server \<Rightarrow> addr_record \<Rightarrow> int \<Rightarrow> addr_record \<Rightarrow> bool" where
  "relays_to sv src sock dst \<longleftrightarrow>
     (\<exists>i k. i < length (sv_allocs sv) \<and> sa_state (sv_allocs sv ! i) = SERVER_TURN_ALLOC_FULL
        \<and> addr_record_is_equal (sa_record (sv_allocs sv ! i)) src True \<and> sa_sock (sv_allocs sv ! i) = sock
        \<and> (turn_has_permission (se_clock (sv_env sv) k) (sa_map (sv_allocs sv ! i)) dst = Some True
           \<or> (\<exists>c. turn_find_bound_channel (se_clock (sv_env sv) k) (sa_map (sv_allocs sv ! i)) c = Some (Some dst))))"

definition relays :: "addr_record \<Rightarrow> juice_server \<Rightarrow> juice_server \<Rightarrow> bool" where
  "relays src sv sv' \<longleftrightarrow> still sv' = still sv
     \<and> (sent [] sv sv' \<or> (\<exists>sock data dst. sent [Udp_sendto sock data dst] sv sv' \<and> relays_to sv src sock dst))"

lemma relays_refl [simp]: "relays src sv sv" "relays src sv (snd (server_now sv))"
  by (auto simp: relays_def sent_def still_def server_now_def)

lemma relays_send:
  assumes "relays_to sv src sock dst"
  shows "relays src sv (snd (udp_sendto sock data dst (snd (server_now sv))))"
  using assms unfolding relays_def sent_def
  by (auto simp: still_def server_now_def udp_sendto_def server_emit_def)

lemma turn_send_relays:
  assumes "server_process_turn_send msg src sv = Some (r, sv')"
  shows "relays src sv sv'"
proof -
  obtain now sv1 where n: "server_now sv = (now, sv1)" by fastforce
  have now: "now = se_clock (sv_env sv) (se_ticks (sv_env sv))" "sv1 = snd (server_now sv)" using n by (auto simp: server_now_def)
  show ?thesis
    using assms found_full [of "sv_allocs sv" src False] relays_refl [of src sv] unfolding server_process_turn_send_def n prod.case Let_def
    by (auto elim!: bind_SomeE split: if_split_asm option.split_asm list.split_asm simp: now prod_eq_iff
        intro!: relays_send simp: relays_to_def) blast
qed

lemma channel_data_relays:
  assumes "server_process_channel_data buf src sv = Some (r, sv')"
  shows "relays src sv sv'"
proof -
  obtain now sv1 where n: "server_now sv = (now, sv1)" by fastforce
  have now: "now = se_clock (sv_env sv) (se_ticks (sv_env sv))" "sv1 = snd (server_now sv)" using n by (auto simp: server_now_def)
  show ?thesis
    using assms found_full [of "sv_allocs sv" src False] relays_refl [of src sv] unfolding server_process_channel_data_def n prod.case Let_def
    by (auto elim!: bind_SomeE split: if_split_asm option.split_asm simp: now prod_eq_iff
        intro!: relays_send simp: relays_to_def) blast
qed

text \<open>The three things a datagram can lead to.\<close>

lemma dispatch_cases:
  assumes "server_dispatch_stun buf msg src sv = Some (r, sv')"
  shows "answers src sv sv' \<or> relays src sv sv'
    \<or> (\<exists>p sv1. msg_class msg = STUN_CLASS_REQUEST \<and> answers src sv sv1 \<and> client_run src p sv1 sv'
         \<and> (distinct (map cl_addr (sv_credentials sv)) \<longrightarrow> (\<exists>node. cl_addr node = p \<and> authentic buf msg src sv node)))"
proof -
  have req: "msg_class msg = STUN_CLASS_REQUEST" if "msg_class msg = STUN_CLASS_REQUEST \<or> msg_class msg = STUN_CLASS_INDICATION \<and> X"
    "msg_class msg \<noteq> STUN_CLASS_INDICATION" for X using that by blast
  show ?thesis
    using assms unfolding server_dispatch_stun_def Let_def server_process_stun_binding_def
    by (auto elim!: bind_SomeE split: if_split_asm auth_result.split_asm
        dest!: answers_error answers_binding turn_send_relays serve_request_run authenticate_sound [where dst = src]
        dest: answers_trans)
qed

lemma input_cases:
  assumes "server_input buf src sv = Some (r, sv')"
  shows "answers src sv sv' \<or> relays src sv sv'
    \<or> (\<exists>n msg p sv1. stun_read buf = Some (Some (n, msg)) \<and> msg_class msg = STUN_CLASS_REQUEST
         \<and> answers src sv sv1 \<and> client_run src p sv1 sv'
         \<and> (distinct (map cl_addr (sv_credentials sv)) \<longrightarrow> (\<exists>node. cl_addr node = p \<and> authentic buf msg src sv node)))"
  using assms unfolding server_input_def
  by (auto elim!: bind_SomeE split: if_split_asm option.split_asm
      dest!: channel_data_relays dispatch_cases)

subsection \<open>Isolation of the clients\<close>

lemma answers_still: "answers src sv sv' \<Longrightarrow> still sv' = still sv"
  by (simp add: answers_def)

lemma client_step_foreign:
  assumes "client_step src p sv sv'" and "i < length (sv_allocs sv)" and "sa_state (sv_allocs sv ! i) = SERVER_TURN_ALLOC_FULL"
    and "\<not> own_alloc src p (sv_allocs sv ! i)"
  shows "sv_allocs sv' ! i = sv_allocs sv ! i"
  using assms
  by (cases rule: client_step.cases) (auto simp: nth_list_update delete_allocation_def elim!: bind_SomeE dest: answers_allocs split: if_split_asm)

lemma client_step_length: "client_step src p sv sv' \<Longrightarrow> length (sv_allocs sv') = length (sv_allocs sv)"
  by (cases rule: client_step.cases) (auto simp: delete_allocation_def elim!: bind_SomeE dest: answers_allocs split: if_split_asm)

lemma client_run_foreign:
  assumes "client_run src p sv sv'"
  shows "length (sv_allocs sv') = length (sv_allocs sv) \<and>
    (\<forall>i<length (sv_allocs sv). sa_state (sv_allocs sv ! i) = SERVER_TURN_ALLOC_FULL \<longrightarrow>
       own_alloc src p (sv_allocs sv ! i) \<or> sv_allocs sv' ! i = sv_allocs sv ! i)"
  using assms
proof (induction rule: rtranclp_induct)
  case (step sv1 sv2)
  note len = client_step_length [OF step.hyps(2)]
  have "sv_allocs sv2 ! i = sv_allocs sv ! i"
    if "i < length (sv_allocs sv)" "sa_state (sv_allocs sv ! i) = SERVER_TURN_ALLOC_FULL" "\<not> own_alloc src p (sv_allocs sv ! i)" for i
    using that step.IH client_step_foreign [OF step.hyps(2), of i] by auto
  then show ?case using step.IH len by auto
qed simp

lemma client_step_out:
  assumes "client_step src p sv sv'"
  shows "sv_sock sv' = sv_sock sv \<and> (\<exists>new. sent new sv sv' \<and>
    (\<forall>x\<in>set new. (\<exists>d. x = Udp_sendto (sv_sock sv) d src) \<or> (\<exists>s. x = Udp_close s)))"
  using assms
  by (cases rule: client_step.cases)
    (auto simp: delete_allocation_def sent_def answers_def elim!: bind_SomeE dest: still_fields(3) split: if_split_asm)

lemma client_run_out:
  assumes "client_run src p sv sv'"
  shows "sv_sock sv' = sv_sock sv \<and> (\<exists>new. sent new sv sv' \<and>
    (\<forall>x\<in>set new. (\<exists>d. x = Udp_sendto (sv_sock sv) d src) \<or> (\<exists>s. x = Udp_close s)))"
  using assms
proof (induction rule: rtranclp_induct)
  case (step sv1 sv2)
  from step.IH obtain new where n: "sv_sock sv1 = sv_sock sv" "sent new sv sv1"
    "\<forall>x\<in>set new. (\<exists>d. x = Udp_sendto (sv_sock sv) d src) \<or> (\<exists>s. x = Udp_close s)" by blast
  from client_step_out [OF step.hyps(2)] obtain new' where n': "sv_sock sv2 = sv_sock sv1" "sent new' sv1 sv2"
    "\<forall>x\<in>set new'. (\<exists>d. x = Udp_sendto (sv_sock sv1) d src) \<or> (\<exists>s. x = Udp_close s)" by blast
  have "sent (new @ new') sv sv2" using n(2) n'(2) by (simp add: sent_def)
  with n n' show ?case by (intro conjI exI [of _ "new @ new'"]) auto
qed (auto simp: sent_def intro: exI [of _ "[]"])

subsection \<open>A small server\<close>

text \<open>A server with one slot, held by a client that has bound channel 0x4000 to a peer.\<close>

definition demo_env :: server_env where
  "demo_env = \<lparr>se_random = (\<lambda>k i. 0), se_draws = 0, se_clock = (\<lambda>k. 1000), se_ticks = 0, se_malloc = (\<lambda>k. Some (100 + k)), se_mallocs = 0,
     se_socket = (\<lambda>k c. 10 + int k), se_sockets = 0, se_send_result = (\<lambda>k. 1), se_sends = 0, se_self_result = (\<lambda>d. 0),
     se_self_again = False, se_name = (\<lambda>s. None), se_ifaddrs = None, se_getaddrinfo = (\<lambda>h s. None), se_thread = 0, se_junk = 0, se_out = []\<rparr>"

definition demo_client :: addr_record where
  "demo_client = \<lparr>ar_addr = Sin 80 [10, 0, 0, 1], ar_len = 16, ar_socktype = SOCK_DGRAM\<rparr>"

definition demo_map :: turn_map where
  "demo_map = \<lparr>tm_map = [zero_entry\<lparr>te_type := TURN_ENTRY_TYPE_CHANNEL, te_timestamp := 600000, te_record := some_peer 80,
       te_channel := 0x4000\<rparr>], tm_ordered_channels = [0], tm_ordered_transaction_ids = []\<rparr>"

definition demo_node :: juice_credentials_list where
  "demo_node = \<lparr>cl_addr = 7, cl_username = [117], cl_password = [112], cl_allocations_quota = 1, cl_userhash = replicate 32 0, cl_timestamp = 0\<rparr>"

definition demo_server :: juice_server where
  "demo_server = (blank_server 3 demo_env)\<lparr>sv_max_allocations := 1, sv_max_peers := 1, sv_realm := [114], sv_credentials := [demo_node],
     sv_allocs := [zero_alloc\<lparr>sa_state := SERVER_TURN_ALLOC_FULL, sa_record := demo_client, sa_credentials := Some 7,
       sa_timestamp := 600000, sa_sock := 5, sa_map := demo_map\<rparr>]\<rparr>"

lemma demo_find: "find_allocation (sv_allocs demo_server) demo_client b = Some (Some 0)"
  by (simp add: find_allocation_def demo_server_def find_entry_loop.simps alloc_stops_def demo_client_def addr_record_is_equal_def)

lemma demo_bound: "turn_find_bound_channel 1000 demo_map 0x4000 = Some (Some (some_peer 80))"
  by (simp add: turn_find_bound_channel_def is_valid_channel_def find_ordered_channel_def demo_map_def
      find_ordered_channel_rec.simps [of _ _ _ _ "Suc 0"] deref_def)

lemma demo_relay: "server_input [0x40, 0, 0, 1, 65] demo_client demo_server
   = Some (0, snd (udp_sendto 5 [65] (some_peer 80) (snd (server_now demo_server))))"
proof -
  have "is_stun_datagram [0x40, 0, 0, 1, 65] = Some False" by code_simp
  moreover have "is_channel_data [0x40, 0, 0, 1, 65]" by code_simp
  moreover have "ld16 [0x40, 0, 0, 1, 65] 0 = Some 0x4000" "ld16 [0x40, 0, 0, 1, 65] 2 = Some 1" by code_simp+
  moreover have "sv_allocs demo_server ! 0 = zero_alloc\<lparr>sa_state := SERVER_TURN_ALLOC_FULL, sa_record := demo_client,
      sa_credentials := Some 7, sa_timestamp := 600000, sa_sock := 5, sa_map := demo_map\<rparr>" by (simp add: demo_server_def)
  moreover have "fst (server_now demo_server) = 1000" by (simp add: demo_server_def blank_server_def demo_env_def)
  ultimately show ?thesis
    by (simp add: server_input_def server_process_channel_data_def demo_find case_prod_unfold demo_bound)
qed

text \<open>(C28) Authentication and isolation of the clients of the TURN server: a datagram changes no allocation and no credentials
  unless it is a request that names credentials of the server that are in force, carries the realm and the nonce the server
  has for the sender, and passes the integrity check with the password of these credentials; and then it changes no active
  allocation of another client address or of other credentials.\<close>

theorem server_input_isolated:
  assumes "server_input buf src sv = Some (r, sv')" and "distinct (map cl_addr (sv_credentials sv))"
  shows "(sv_allocs sv' = sv_allocs sv \<and> sv_credentials sv' = sv_credentials sv)
    \<or> (\<exists>n msg node. stun_read buf = Some (Some (n, msg)) \<and> msg_class msg = STUN_CLASS_REQUEST \<and> authentic buf msg src sv node
         \<and> length (sv_allocs sv') = length (sv_allocs sv)
         \<and> (\<forall>i<length (sv_allocs sv). sa_state (sv_allocs sv ! i) = SERVER_TURN_ALLOC_FULL \<longrightarrow>
              sv_allocs sv' ! i = sv_allocs sv ! i \<or> own_alloc src (cl_addr node) (sv_allocs sv ! i)))"
proof -
  consider "still sv' = still sv"
    | n msg node sv1 where "stun_read buf = Some (Some (n, msg))" "msg_class msg = STUN_CLASS_REQUEST" "answers src sv sv1"
      "client_run src (cl_addr node) sv1 sv'" "authentic buf msg src sv node"
    using input_cases [OF assms(1)] assms(2) by (auto simp: relays_def dest: answers_still)
  then show ?thesis
  proof cases
    case 1
    then show ?thesis using still_fields(1,2) by blast
  next
    case 2
    then show ?thesis using client_run_foreign [OF 2(4)] answers_allocs [OF 2(3)] by auto
  qed
qed

theorem server_input_isolated_witness:
  "\<exists>r sv'. server_input [0x40, 0, 0, 1, 65] demo_client demo_server = Some (r, sv') \<and> sv_allocs sv' = sv_allocs demo_server"
proof -
  have "stun_read [0x40, 0, 0, 1, 65] = Some None" by code_simp
  moreover have "distinct (map cl_addr (sv_credentials demo_server))" by (simp add: demo_server_def)
  ultimately show ?thesis using server_input_isolated [OF demo_relay] demo_relay by auto
qed

text \<open>The peer of a relayed datagram has a permission, and what it sends is for the client.\<close>

definition relays_from :: "juice_server \<Rightarrow> nat \<Rightarrow> addr_record \<Rightarrow> bool" where
  "relays_from sv i peer \<longleftrightarrow> (\<exists>k. turn_has_permission (se_clock (sv_env sv) k) (sa_map (sv_allocs sv ! i)) peer = Some True)"

lemma sent_trans: "sent xs sv sv1 \<Longrightarrow> sent ys sv1 sv2 \<Longrightarrow> sent (xs @ ys) sv sv2"
  by (simp add: sent_def)

lemma forward_out:
  assumes "server_forward i rs sv = Some (r, sv')"
  shows "still sv' = still sv \<and> (sent [] sv sv' \<or>
    (\<exists>data src rest d. udp_recvfrom SERVER_BUFFER_SIZE rs = (Received data src, rest) \<and> relays_from sv i (unmap_record src)
       \<and> sent [Udp_sendto (sv_sock sv) d (sa_record (sv_allocs sv ! i))] sv sv'))"
proof (cases "udp_recvfrom SERVER_BUFFER_SIZE rs")
  case (Pair x rest)
  show ?thesis
  proof (cases x)
    case (Received data src)
    define al where "al = sv_allocs sv ! i"
    define peer where "peer = unmap_record src"
    define now where "now = se_clock (sv_env sv) (se_ticks (sv_env sv))"
    obtain sv1 where n1: "server_now sv = (now, sv1)" by (auto simp: server_now_def now_def)
    obtain now2 sv2 where n2: "server_now sv1 = (now2, sv2)" by fastforce
    obtain tid sv3 where r3: "server_random STUN_TRANSACTION_ID_SIZE sv2 = (tid, sv3)" by fastforce
    have st: "still sv1 = still sv" "sent [] sv sv1" "still sv2 = still sv" "sent [] sv sv2" "still sv3 = still sv" "sent [] sv sv3"
      "sv_sock sv1 = sv_sock sv" "sv_sock sv2 = sv_sock sv" "sv_sock sv3 = sv_sock sv"
      using n1 n2 r3 by (auto simp: server_now_def server_random_def still_def sent_def)
    obtain allowed where a: "turn_has_permission now (sa_map al) peer = Some allowed"
      and rest: "(if \<not> allowed then Some (-1, sv1)
          else do { bound \<leftarrow> turn_get_bound_channel now2 (sa_map al) peer;
               case bound of
                 Some channel \<Rightarrow>
                   (case turn_wrap_channel_data (data @ replicate (SERVER_BUFFER_SIZE - length data) 0) data channel of
                      (len, buffer) \<Rightarrow> if len \<le> 0 then Some (-1, sv2) else Some (udp_sendto (sv_sock sv) (take (nat len) buffer) (sa_record al) sv2))
               | None \<Rightarrow>
                   server_stun_send (sa_record al)
                        (zero_message\<lparr>msg_class := STUN_CLASS_INDICATION, msg_method := STUN_METHOD_DATA, peers := [peer],
                           msg_data := Some data, transaction_id := tid\<rparr>) None sv3 }) = Some (r, sv')"
      using assms unfolding server_forward_def Pair fst_conv Received udp_received.case Let_def n1 prod.case n2 r3
        al_def [symmetric] peer_def [symmetric] by (elim bind_SomeE) (rule that)
    show ?thesis
    proof (cases allowed)
      case True
      have perm: "relays_from sv i (unmap_record src)" using a True by (auto simp: relays_from_def now_def al_def peer_def)
      obtain bound where b: "(case bound of
                 Some channel \<Rightarrow>
                   (case turn_wrap_channel_data (data @ replicate (SERVER_BUFFER_SIZE - length data) 0) data channel of
                      (len, buffer) \<Rightarrow> if len \<le> 0 then Some (-1, sv2) else Some (udp_sendto (sv_sock sv) (take (nat len) buffer) (sa_record al) sv2))
               | None \<Rightarrow>
                   server_stun_send (sa_record al)
                        (zero_message\<lparr>msg_class := STUN_CLASS_INDICATION, msg_method := STUN_METHOD_DATA, peers := [peer],
                           msg_data := Some data, transaction_id := tid\<rparr>) None sv3) = Some (r, sv')"
        using rest True by (auto elim!: bind_SomeE)
      have "still sv' = still sv \<and> (sent [] sv sv' \<or> (\<exists>d. sent [Udp_sendto (sv_sock sv) d (sa_record al)] sv sv'))"
      proof (cases bound)
        case None
        then show ?thesis using b st
          by (auto simp: server_stun_send_def server_send_def udp_sendto_def server_emit_def still_def sent_def case_prod_unfold Let_def
              elim!: bind_SomeE split: if_split_asm)
      next
        case (Some channel)
        then show ?thesis using b st
          by (auto simp: udp_sendto_def server_emit_def still_def sent_def case_prod_unfold Let_def split: if_split_asm)
      qed
      then show ?thesis using perm Pair Received by (auto simp: al_def)
    qed (use rest st in auto)
  qed (use assms in \<open>auto simp: server_forward_def Pair sent_def\<close>)
qed

text \<open>(C27) The server is no open relay.  Whatever datagram a client sends, the server answers only to the address it came from, and
  relays it only from the socket of an active allocation of that very address to a peer that this allocation has a permission for,
  or has bound to a channel, at a time the server reads from its clock.  In the other direction, what arrives at the socket of an
  allocation is sent on only to the client of the allocation, and only when its source has a permission.\<close>

theorem server_relays_permitted:
  "(server_input buf src sv = Some (r, sv') \<longrightarrow>
      (\<exists>new. sent new sv sv' \<and> (\<forall>sock data dst. Udp_sendto sock data dst \<in> set new \<longrightarrow>
        (sock = sv_sock sv \<and> dst = src) \<or> relays_to sv src sock dst)))
   \<and> (server_forward i rs sv = Some (r, sv') \<longrightarrow>
      (\<exists>new. sent new sv sv' \<and> (\<forall>x\<in>set new. \<exists>d. x = Udp_sendto (sv_sock sv) d (sa_record (sv_allocs sv ! i)))
        \<and> (new \<noteq> [] \<longrightarrow> (\<exists>data peer rest. udp_recvfrom SERVER_BUFFER_SIZE rs = (Received data peer, rest)
              \<and> relays_from sv i (unmap_record peer)))))"
proof (intro conjI impI)
  assume inp: "server_input buf src sv = Some (r, sv')"
  show "\<exists>new. sent new sv sv' \<and> (\<forall>sock data dst. Udp_sendto sock data dst \<in> set new \<longrightarrow>
        (sock = sv_sock sv \<and> dst = src) \<or> relays_to sv src sock dst)"
    using input_cases [OF inp]
  proof (elim disjE exE conjE)
    assume "answers src sv sv'"
    then show ?thesis by (auto simp: answers_def)
  next
    assume "relays src sv sv'"
    then show ?thesis by (auto simp: relays_def)
  next
    fix p sv1
    assume "answers src sv sv1" and run: "client_run src p sv1 sv'"
    then obtain ds where ds: "sv_sock sv1 = sv_sock sv" "sent (map (\<lambda>d. Udp_sendto (sv_sock sv) d src) ds) sv sv1"
      by (auto simp: answers_def dest: still_fields(3))
    obtain new where "sent new sv1 sv'" "\<forall>x\<in>set new. (\<exists>d. x = Udp_sendto (sv_sock sv1) d src) \<or> (\<exists>s. x = Udp_close s)"
      using client_run_out [OF run] by blast
    with ds sent_trans [OF ds(2)] show ?thesis
      by (intro exI [of _ "map (\<lambda>d. Udp_sendto (sv_sock sv) d src) ds @ new"]) auto
  qed
next
  assume fwd: "server_forward i rs sv = Some (r, sv')"
  show "\<exists>new. sent new sv sv' \<and> (\<forall>x\<in>set new. \<exists>d. x = Udp_sendto (sv_sock sv) d (sa_record (sv_allocs sv ! i)))
        \<and> (new \<noteq> [] \<longrightarrow> (\<exists>data peer rest. udp_recvfrom SERVER_BUFFER_SIZE rs = (Received data peer, rest)
              \<and> relays_from sv i (unmap_record peer)))"
    using forward_out [OF fwd] by (auto intro: exI [of _ "[]"])
qed

theorem server_relays_permitted_witness: "relays_to demo_server demo_client 5 (some_peer 80)"
proof -
  obtain new where new: "sent new demo_server (snd (udp_sendto 5 [65] (some_peer 80) (snd (server_now demo_server))))"
    "\<forall>sock data dst. Udp_sendto sock data dst \<in> set new \<longrightarrow> (sock = sv_sock demo_server \<and> dst = demo_client) \<or> relays_to demo_server demo_client sock dst"
    using server_relays_permitted demo_relay by meson
  have "new = [Udp_sendto 5 [65] (some_peer 80)]" using new(1) by (simp add: sent_def udp_sendto_def server_now_def)
  moreover have "sv_sock demo_server \<noteq> 5" by (simp add: demo_server_def blank_server_def)
  ultimately show ?thesis using new(2) by auto
qed

end
