(* ===== verification/Server_Run.thy ===== *)
theory Server_Run
  imports Server_Auth
begin

text \<open>
  Runs of the server: the accounting of quotas over all events (relation \<open>accounts\<close>, carried through the loops by the
  locale \<open>step_frame\<close>), and the states in which the server has no defined behaviour.
\<close>

subsection \<open>Accounting of quotas\<close>

definition holds :: "nat \<Rightarrow> server_turn_alloc \<Rightarrow> bool" where
  "holds p al \<longleftrightarrow> sa_state al = SERVER_TURN_ALLOC_FULL \<and> sa_credentials al = Some p"

text \<open>The number of active allocations of the credentials at \<open>p\<close>.\<close>

definition held :: "nat \<Rightarrow> juice_server \<Rightarrow> nat" where
  "held p sv = length (filter (holds p) (sv_allocs sv))"

definition ledger :: "nat \<Rightarrow> juice_server \<Rightarrow> (int \<times> int) option" where
  "ledger p sv = map_option (\<lambda>node. (cl_timestamp node, cl_allocations_quota node + int (held p sv))) (cred_at sv p)"

definition solvent :: "nat \<Rightarrow> juice_server \<Rightarrow> bool" where
  "solvent p sv \<longleftrightarrow> (\<forall>node. cred_at sv p = Some node \<longrightarrow> 0 \<le> cl_allocations_quota node)"

text \<open>The account of credentials that never expire is kept, when \<^verbatim>\<open>malloc\<close> does not hand out their address again.\<close>

definition accounts :: "nat \<Rightarrow> juice_server \<Rightarrow> juice_server \<Rightarrow> bool" where
  "accounts p sv sv' \<longleftrightarrow> se_malloc (sv_env sv') = se_malloc (sv_env sv) \<and>
     ((\<forall>k. se_malloc (sv_env sv) k \<noteq> Some p) \<longrightarrow> (\<exists>t. ledger p sv = Some (0, t)) \<longrightarrow>
        ledger p sv' = ledger p sv \<and> (solvent p sv \<longrightarrow> solvent p sv'))"

interpretation accounts: step_frame "accounts p"
  for p
  by unfold_locales (auto simp: accounts_def)

lemma accounts_same:
  assumes "se_malloc (sv_env sv') = se_malloc (sv_env sv)" and "sv_allocs sv' = sv_allocs sv" and "sv_credentials sv' = sv_credentials sv"
  shows "accounts p sv sv'"
  using assms by (simp add: accounts_def ledger_def solvent_def held_def cred_at_def)

lemma accounts_still: "still sv' = still sv \<Longrightarrow> accounts p sv sv'"
  by (intro accounts_same still_fields)

lemma filter_update_count:
  assumes "i < length xs"
  shows "int (length (filter P (xs[i := x]))) =
    int (length (filter P xs)) - (if P (xs ! i) then 1 else 0) + (if P x then 1 else 0)"
  using assms
proof (induction xs arbitrary: i)
  case (Cons y ys)
  show ?case
  proof (cases i)
    case (Suc n)
    have "int (length (filter P (ys[n := x]))) = int (length (filter P ys)) - (if P (ys ! n) then 1 else 0) + (if P x then 1 else 0)"
      using Cons.prems Suc by (intro Cons.IH) simp
    then show ?thesis by (simp add: Suc split: if_split_asm)
  qed simp
qed simp

lemma held_upd_alloc:
  assumes "i < length (sv_allocs sv)"
  shows "int (held p (upd_alloc i f sv)) =
    int (held p sv) - (if holds p (sv_allocs sv ! i) then 1 else 0) + (if holds p (f (sv_allocs sv ! i)) then 1 else 0)"
  unfolding held_def upd_alloc_simps by (rule filter_update_count [OF assms])

lemma held_simps [simp]: "held p (upd_cred q g sv) = held p sv" "held p (server_emit x sv) = held p sv"
  by (simp_all add: held_def)

lemma cred_at_upd_cred:
  assumes "\<And>node. cl_addr (g node) = cl_addr node"
  shows "cred_at (upd_cred q g sv) p = (if p = q then map_option g (cred_at sv p) else cred_at sv p)"
proof -
  have "find (\<lambda>node. cl_addr node = p) (map (\<lambda>node. if cl_addr node = q then g node else node) nodes)
      = (if p = q then map_option g (find (\<lambda>node. cl_addr node = p) nodes) else find (\<lambda>node. cl_addr node = p) nodes)" for nodes
    by (induction nodes) (auto simp: assms)
  then show ?thesis by (simp add: cred_at_def upd_cred_def)
qed

lemma accounts_touch:
  assumes "i < length (sv_allocs sv)" and "holds p (f (sv_allocs sv ! i)) = holds p (sv_allocs sv ! i)"
  shows "accounts p sv (upd_alloc i f sv)"
  using assms held_upd_alloc [OF assms(1), of p f] by (simp add: accounts_def ledger_def solvent_def)

lemma accounts_emit: "accounts p sv (server_emit x sv)"
  by (rule accounts_same) (simp_all add: server_emit_def)

lemma accounts_delete:
  assumes "delete_allocation i sv = Some sv'" and "i < length (sv_allocs sv)"
  shows "accounts p sv sv'"
proof (cases "sa_state (sv_allocs sv ! i) = SERVER_TURN_ALLOC_FULL")
  case False
  then show ?thesis using assms accounts.frame_refl by (simp add: delete_allocation_def)
next
  case full: True
  define g where "g = (\<lambda>node :: juice_credentials_list. node\<lparr>cl_allocations_quota := cl_allocations_quota node + 1\<rparr>)"
  define f where "f = (\<lambda>al :: server_turn_alloc. al\<lparr>sa_state := SERVER_TURN_ALLOC_DELETED, sa_map := no_map,
                     sa_sock := INVALID_SOCKET, sa_credentials := None\<rparr>)"
  obtain q where q: "sa_credentials (sv_allocs sv ! i) = Some q"
    and sv': "sv' = server_emit (Udp_close (sa_sock (sv_allocs sv ! i))) (upd_alloc i f (upd_cred q g sv))"
    using assms(1) full by (auto simp: delete_allocation_def g_def f_def elim!: bind_SomeE)
  have h: "int (held p sv') = int (held p sv) - (if q = p then 1 else 0)"
    using held_upd_alloc [of i "upd_cred q g sv" p f] assms(2) full q by (simp add: sv' holds_def f_def)
  have c: "cred_at sv' p = (if p = q then map_option g (cred_at sv p) else cred_at sv p)"
    by (simp add: sv' cred_at_upd_cred g_def)
  have "se_malloc (sv_env sv') = se_malloc (sv_env sv)" by (simp add: sv' server_emit_def)
  then show ?thesis by (auto simp: accounts_def ledger_def solvent_def c h g_def)
qed

lemma accounts_open:
  assumes "i < length (sv_allocs sv)" and "sa_state (sv_allocs sv ! i) \<noteq> SERVER_TURN_ALLOC_FULL"
    and "cred_at sv q = Some node" and "0 < cl_allocations_quota node" and "own_alloc src q (f (sv_allocs sv ! i))"
  shows "accounts p sv (upd_cred q (\<lambda>node. node\<lparr>cl_allocations_quota := cl_allocations_quota node - 1\<rparr>) (upd_alloc i f sv))"
proof -
  define g where "g = (\<lambda>node :: juice_credentials_list. node\<lparr>cl_allocations_quota := cl_allocations_quota node - 1\<rparr>)"
  define sv' where "sv' = upd_cred q g (upd_alloc i f sv)"
  have h: "int (held p sv') = int (held p sv) + (if q = p then 1 else 0)"
    using held_upd_alloc [OF assms(1), of p f] assms(2,5) by (simp add: sv'_def holds_def own_alloc_def)
  have c: "cred_at sv' p = (if p = q then map_option g (cred_at sv p) else cred_at sv p)"
    by (simp add: sv'_def cred_at_upd_cred g_def)
  have "se_malloc (sv_env sv') = se_malloc (sv_env sv)" by (simp add: sv'_def)
  then have "accounts p sv sv'" using assms(3,4) by (auto simp: accounts_def ledger_def solvent_def c h g_def)
  then show ?thesis by (simp add: sv'_def g_def)
qed

lemma accounts_client_step: "client_step src q sv sv' \<Longrightarrow> accounts p sv sv'"
proof (induction rule: client_step.induct)
  case (answer sv sv')
  then show ?case by (auto simp: answers_def intro: accounts_still)
next
  case (scratch i sv f)
  then show ?case by (intro accounts_touch) (auto simp: holds_def)
next
  case (touch i sv f)
  then show ?case by (intro accounts_touch) (auto simp: holds_def own_alloc_def)
qed (auto intro: accounts_emit accounts_open accounts_delete)

lemma accounts_client_run: "client_run src q sv sv' \<Longrightarrow> accounts p sv sv'"
  by (induction rule: rtranclp_induct) (auto intro: accounts.frame_refl accounts.frame_trans accounts_client_step)

lemma accounts_input: "server_input buf src sv = Some (r, sv') \<Longrightarrow> accounts p sv sv'"
  using input_cases [of buf src sv r sv']
  by (auto simp: answers_def relays_def intro: accounts_still accounts_client_run accounts.frame_trans)

lemma accounts_recv: "server_recv rs sv = Some (r, sv') \<Longrightarrow> accounts p sv sv'"
proof (induction rs sv arbitrary: r rule: server_recv.induct)
  case (1 rs sv)
  obtain x rest where x: "udp_recvfrom SERVER_BUFFER_SIZE rs = (x, rest)" by fastforce
  show ?case
  proof (cases x)
    case (Received data src)
    note step = "1.prems" [unfolded server_recv.simps [of rs sv] x prod.case Received udp_received.case]
    show ?thesis
    proof (cases "data = []")
      case True
      then show ?thesis using "1.IH"(1) [OF x [symmetric] Received True] step by simp
    next
      case False
      then obtain y where y: "server_input data (unmap_record src) sv = Some y" "server_recv rest (snd y) = Some (r, sv')"
        using step by (auto elim!: bind_SomeE)
      then have "accounts p (snd y) sv'"
        using "1.IH"(2) [OF x [symmetric] Received False y(1)] by (simp add: prod_eq_iff)
      moreover have "accounts p sv (snd y)" using accounts_input [of data _ sv "fst y"] y(1) by simp
      ultimately show ?thesis by (rule accounts.frame_trans [rotated])
    qed
  qed (use "1.prems" accounts.frame_refl in \<open>auto simp: server_recv.simps [of rs] x\<close>)
qed

lemma accounts_forward: "server_forward i rs sv = Some (r, sv') \<Longrightarrow> accounts p sv sv'"
  by (rule accounts_still) (rule conjunct1 [OF forward_out])

lemma delete_length: "delete_allocation i sv = Some sv' \<Longrightarrow> length (sv_allocs sv') = length (sv_allocs sv)"
  by (auto simp: delete_allocation_def elim!: bind_SomeE split: if_splits)

lemma accounts_expire:
  assumes "expire_alloc now i s = Some s'" and "i < length (sv_allocs (snd s))"
  shows "accounts p (snd s) (snd s') \<and> length (sv_allocs (snd s')) = length (sv_allocs (snd s))"
  using assms accounts.frame_refl accounts_delete delete_length
  by (auto simp: expire_alloc_def Let_def elim!: bind_SomeE split: if_split_asm)

lemma find_filter: "find P xs = Some x \<Longrightarrow> Q x \<Longrightarrow> find P (filter Q xs) = Some x"
  by (induction xs) (auto split: if_splits)

lemma accounts_bookkeeping:
  assumes "server_bookkeeping sv = Some (t, sv')"
  shows "accounts p sv sv'"
proof -
  obtain now sv0 where n: "server_now sv = (now, sv0)" by fastforce
  obtain s1 where s1: "each [0..<length (sv_allocs sv0)] (expire_alloc now) (now + 60000, sv0) = Some s1"
    and sv': "sv' = (snd s1)\<lparr>sv_credentials := filter (\<lambda>node. \<not> expired_cred now node) (sv_credentials (snd s1))\<rparr>"
    using assms unfolding server_bookkeeping_def n prod.case by (auto elim!: bind_SomeE)
  have "accounts p sv0 (snd s1) \<and> length (sv_allocs (snd s1)) = length (sv_allocs sv0)"
    by (rule each_inv [OF s1, where I = "\<lambda>s. accounts p sv0 (snd s) \<and> length (sv_allocs (snd s)) = length (sv_allocs sv0)"])
      (auto simp: accounts.frame_refl intro: accounts.frame_trans dest: accounts_expire)
  moreover have "accounts p sv sv0"
    using n by (intro accounts_still) (auto simp: server_now_def still_def)
  moreover have "accounts p (snd s1) sv'"
  proof -
    have "cred_at sv' p = cred_at (snd s1) p" if "ledger p (snd s1) = Some (0, x)" for x
      using that find_filter [of _ "sv_credentials (snd s1)" _ "\<lambda>node. \<not> expired_cred now node"]
      by (auto simp: ledger_def cred_at_def sv' expired_cred_def)
    then show ?thesis by (auto simp: accounts_def ledger_def solvent_def held_def sv')
  qed
  ultimately show ?thesis using accounts.frame_trans by blast
qed

lemma accounts_other:
  assumes "se_malloc (sv_env sv) k = Some q" and "\<And>node. cl_addr (g node) = cl_addr node"
  shows "accounts p sv (upd_cred q g sv)"
  using assms cred_at_upd_cred [of g q sv p] by (auto simp: accounts_def ledger_def solvent_def)

lemma accounts_copy: "alloc_string_copy orig failed sv = (x, y, sv') \<Longrightarrow> still sv' = still sv"
  by (auto simp: alloc_string_copy_def server_malloc_def still_def split: option.splits if_splits)

lemma accounts_do_add:
  assumes "server_do_add_credentials cred lt sv = (x, sv')"
  shows "accounts p sv sv' \<and> (\<forall>q. x = Some q \<longrightarrow> (\<exists>k. se_malloc (sv_env sv') k = Some q))"
proof -
  obtain x1 sv1 where m: "server_malloc sv = (x1, sv1)" by fastforce
  obtain u f1 sv2 where c1: "alloc_string_copy (Some (case scr_username cred of None \<Rightarrow> [] | Some s \<Rightarrow> s)) False sv1 = (u, f1, sv2)"
    using prod_cases3 by blast
  obtain w f2 sv3 where c2: "alloc_string_copy (Some (case scr_password cred of None \<Rightarrow> [] | Some s \<Rightarrow> s)) f1 sv2 = (w, f2, sv3)"
    using prod_cases3 by blast
  define r4 where "r4 = (if lt > 0 then let (now, sv4) = server_now sv3 in (now + lt, sv4) else (0, sv3))"
  have st: "still sv1 = still sv" "still sv3 = still sv" "still (snd r4) = still sv"
    using m accounts_copy [OF c1] accounts_copy [OF c2] by (auto simp: server_malloc_def still_def r4_def server_now_def)
  have mal: "x1 = se_malloc (sv_env sv) (se_mallocs (sv_env sv))" using m by (auto simp: server_malloc_def)
  show ?thesis
  proof (cases "x1 = None \<or> u = None \<or> w = None")
    case True
    then have "x = None \<and> (sv' = sv1 \<or> sv' = sv3)"
      using assms unfolding server_do_add_credentials_def m by (auto simp: c1 c2 Let_def split: option.splits)
    then show ?thesis using st accounts_still by auto
  next
    case False
    then obtain q uu ww where some: "x1 = Some q" "u = Some uu" "w = Some ww" by auto
    define node where "node = \<lparr>cl_addr = q, cl_username = uu, cl_password = ww, cl_allocations_quota = scr_allocations_quota cred,
                             cl_userhash = stun_compute_userhash uu (sv_realm (snd r4)), cl_timestamp = fst r4\<rparr>"
    have sv': "x = Some q" "sv' = (snd r4)\<lparr>sv_credentials := node # sv_credentials (snd r4)\<rparr>"
      using assms unfolding server_do_add_credentials_def m some prod.case option.case c1 c2 Let_def
      by (auto simp: node_def r4_def Let_def split: prod.splits if_splits)
    have "accounts p (snd r4) sv'"
      using still_fields(7) [OF st(3)] mal some(1)
      by (auto simp: accounts_def ledger_def solvent_def held_def cred_at_def sv'(2) node_def)
    then have "accounts p sv sv'" using accounts_still [OF st(3)] accounts.frame_trans by blast
    then show ?thesis using sv' still_fields(7) [OF st(3)] mal some(1) by auto
  qed
qed

lemma accounts_grow:
  assumes "grow_allocs sv = (b, sv')"
  shows "accounts p sv sv'"
proof -
  have "held p (sv\<lparr>sv_allocs := sv_allocs sv @ replicate n zero_alloc\<rparr>) = held p sv" for n and sv :: juice_server
    by (auto simp: held_def holds_def zero_alloc_def filter_empty_conv)
  then show ?thesis
    using assms by (auto simp: grow_allocs_def server_malloc_def Let_def accounts_def ledger_def solvent_def cred_at_def held_def
        split: if_split_asm)
qed

lemma accounts_add: "accounts p sv (snd (server_add_credentials cred lt sv))"
proof -
  obtain b sv1 where g: "grow_allocs (raise_max_allocations cred sv) = (b, sv1)" by fastforce
  obtain x sv2 where d: "server_do_add_credentials cred lt sv1 = (x, sv2)" by fastforce
  have "accounts p sv (raise_max_allocations cred sv)" by (rule accounts_same) (simp_all add: raise_max_allocations_def)
  then have a1: "accounts p sv sv1" using accounts_grow [OF g] accounts.frame_trans by blast
  have a2: "accounts p sv sv2" using a1 accounts_do_add [OF d] accounts.frame_trans by blast
  show ?thesis
  proof (cases "b \<and> x \<noteq> None")
    case True
    then obtain q k where q: "x = Some q" "se_malloc (sv_env sv2) k = Some q" using accounts_do_add [OF d, of p] by auto
    have "accounts p sv2 (upd_cred q (set_unlimited sv2) sv2)"
      using q(2) by (rule accounts_other) (simp add: set_unlimited_def)
    then have "accounts p sv (upd_cred q (set_unlimited sv2) sv2)" using a2 accounts.frame_trans by blast
    then show ?thesis using True q(1) by (simp add: server_add_credentials_def g d)
  qed (use a1 a2 in \<open>auto simp: server_add_credentials_def g d\<close>)
qed

lemma accounts_meanwhile: "accounts p sv (meanwhile ev sv)"
proof -
  have "accounts p sv (fold (\<lambda>(cred, lifetm) sv. snd (server_add_credentials cred lifetm sv)) (pe_added ev) sv)"
    by (rule accounts.fold_frame) (auto simp: accounts_add split: prod.splits)
  then show ?thesis
    using accounts_same accounts.frame_trans by (auto simp: meanwhile_def Let_def intro: accounts.frame_trans [OF _ accounts_same])
qed

lemma accounts_forward_relay: "forward_relay revents i sv = Some sv' \<Longrightarrow> accounts p sv sv'"
  using accounts.frame_refl by (auto simp: forward_relay_def dest: accounts_forward split: if_split_asm option.split_asm)

lemma accounts_round:
  assumes "server_round ev nfd sv = Some (go, nfd', sv')"
  shows "accounts p sv sv'"
proof -
  obtain t sv1 where b: "server_bookkeeping sv = Some (t, sv1)"
    using assms unfolding server_round_def by (auto elim!: bind_SomeE)
  define sv2 where "sv2 = snd (server_now sv1)"
  obtain pfd sv3 where r3: "(if nfd \<noteq> Some (1 + length (sv_allocs sv2)) then server_malloc sv2 else (Some 0, sv2)) = (pfd, sv3)"
    by fastforce
  define sv4 where "sv4 = meanwhile ev sv3"
  have "still sv3 = still sv2"
    using r3 unfolding server_malloc_def by (cases "nfd \<noteq> Some (1 + length (sv_allocs sv2))") (auto simp: still_def)
  moreover have "still sv2 = still sv1" by (simp add: sv2_def server_now_def still_def)
  ultimately have "still sv3 = still sv1" by simp
  then have a3: "accounts p sv sv3" using accounts_bookkeeping [OF b] accounts_still accounts.frame_trans by blast
  then have a4: "accounts p sv sv4" using accounts_meanwhile accounts.frame_trans by (auto simp: sv4_def)
  consider "sv' = sv3" | "sv' = sv4" | ret sv5 where "(case pe_main ev of None \<Rightarrow> Some (0, sv4) | Some rs \<Rightarrow> server_recv rs sv4) = Some (ret, sv5)"
    "sv' = sv5 \<or> each [0..<length (sv_allocs sv5)] (forward_relay (relay_events ev sv3)) sv5 = Some sv'"
    using assms unfolding server_round_def b bind.bind_lunit prod.case Let_def
    unfolding sv2_def [symmetric]
    unfolding r3 prod.case
    unfolding sv4_def [symmetric]
    by (auto elim!: bind_SomeE split: if_split_asm poll_result.split_asm)
  then show ?thesis
  proof cases
    case 3
    then have a5: "accounts p sv sv5" using a4 accounts_recv accounts.frame_trans by (fastforce split: option.splits)
    from 3(2) show ?thesis
    proof
      assume "each [0..<length (sv_allocs sv5)] (forward_relay (relay_events ev sv3)) sv5 = Some sv'"
      then have "accounts p sv5 sv'" by (rule accounts.each_frame [rotated]) (rule accounts_forward_relay)
      then show ?thesis using a5 accounts.frame_trans by blast
    qed (use a5 in simp)
  qed (use a3 a4 in auto)
qed

lemma accounts_loop: "server_loop evs nfd sv = Some sv' \<Longrightarrow> accounts p sv sv'"
proof (induction evs nfd sv rule: server_loop.induct)
  case (2 ev evs nfd sv)
  then obtain go nfd1 sv1 where r: "server_round ev nfd sv = Some (go, nfd1, sv1)"
    "(if go then server_loop evs nfd1 sv1 else Some sv1) = Some sv'" by (auto elim!: bind_SomeE)
  note a = accounts_round [OF r(1)]
  show ?case
  proof (cases go)
    case True
    then show ?thesis using 2 r a accounts.frame_trans by fastforce
  qed (use r a in simp)
qed (simp add: accounts.frame_refl)

text \<open>(C29) Quotas: in every run of the server, whatever arrives and whoever adds credentials meanwhile, the quota that credentials
  without expiry have left plus the number of their active allocations stays the same, and the quota left never becomes negative;
  so they never have more active allocations than they were granted.  The hypothesis on \<^verbatim>\<open>malloc\<close> is that it does not
  hand out the address of a live node.\<close>

theorem quotas_respected:
  assumes "server_run evs sv = Some sv'" and "cred_at sv p = Some node" and "cl_timestamp node = 0" and "0 \<le> cl_allocations_quota node"
    and "\<forall>k. se_malloc (sv_env sv) k \<noteq> Some p"
  shows "\<exists>node'. cred_at sv' p = Some node' \<and> 0 \<le> cl_allocations_quota node'
    \<and> cl_allocations_quota node' + int (held p sv') = cl_allocations_quota node + int (held p sv)"
proof -
  have "accounts p sv sv'" using assms(1) by (simp add: server_run_def accounts_loop)
  then show ?thesis using assms(2-5) by (auto simp: accounts_def ledger_def solvent_def)
qed

definition quiet_round :: poll_event where
  "quiet_round = \<lparr>pe_added = [], pe_stop = False, pe_result = Poll_again, pe_main_error = False, pe_main = None, pe_relay = (\<lambda>i. None)\<rparr>"

definition late_server :: juice_server where
  "late_server = demo_server\<lparr>sv_env := demo_env\<lparr>se_clock := (\<lambda>k. 700000)\<rparr>\<rparr>"

lemma late_run: "\<exists>sv'. server_run [quiet_round] late_server = Some sv' \<and> held 7 sv' = 0"
  by (simp add: server_run_def server_round_def server_bookkeeping_def late_server_def demo_server_def server_now_def expire_alloc_def
      delete_allocation_def cred_at_def demo_node_def blank_server_def demo_env_def server_emit_def upd_alloc_def upd_cred_def
      server_malloc_def quiet_round_def meanwhile_def held_def holds_def)

theorem quotas_respected_witness:
  "\<exists>sv' node'. server_run [quiet_round] late_server = Some sv' \<and> cred_at sv' 7 = Some node' \<and> cl_allocations_quota node' = 2"
proof -
  obtain sv' where sv': "server_run [quiet_round] late_server = Some sv'" "held 7 sv' = 0" using late_run by blast
  have c: "cred_at late_server 7 = Some demo_node" by (simp add: late_server_def demo_server_def cred_at_def demo_node_def)
  have m: "\<forall>k. se_malloc (sv_env late_server) k \<noteq> Some 7" by (simp add: late_server_def demo_env_def)
  have h: "held 7 late_server = 1" by (simp add: held_def holds_def late_server_def demo_server_def)
  have n: "cl_timestamp demo_node = 0" "0 \<le> cl_allocations_quota demo_node" "cl_allocations_quota demo_node = 1" by (simp_all add: demo_node_def)
  obtain node' where "cred_at sv' 7 = Some node'" "cl_allocations_quota node' + int (held 7 sv') = cl_allocations_quota demo_node + int (held 7 late_server)"
    using quotas_respected [OF sv'(1) c n(1,2) m] by blast
  then show ?thesis using sv' h n(3) by auto
qed

subsection \<open>Where the server goes wrong\<close>

lemma channel_data_not_stun:
  assumes "is_channel_data buf"
  shows "is_stun_datagram buf = Some False"
proof -
  obtain b bs where b: "buf = b # bs" "64 \<le> b" "b \<le> 79" using assms by (auto simp: is_channel_data_def split: list.splits)
  have "list_all (\<lambda>n. (of_nat n :: byte) AND 0xC0 \<noteq> 0) [64..<80]" by code_simp
  moreover have "unat b \<in> set [64..<80]" unfolding set_upt using b(2,3) by (simp add: word_le_nat_alt)
  ultimately have "b AND 0xC0 \<noteq> 0" unfolding list_all_iff by (metis of_nat_unat ucast_id)
  then show ?thesis by (simp add: is_stun_datagram_def b(1) ld8_def)
qed

lemma create_without_credentials:
  assumes "server_create config env = Some (Some sv, env')" and "scfg_credentials config = []"
  shows "sv_allocs sv = []"
  using assms
  by (auto simp: server_create_def server_malloc_def server_socket_def copy_config_def enable_turn_def blank_server_def Let_def alloc_string_copy_def
      elim!: bind_SomeE split: if_split_asm prod.split_asm option.split_asm)

text \<open>(C30) A server without credentials offers STUN only and has no table of allocations.  A datagram that starts like
  ChannelData is nevertheless looked up in it, with the hash of the sender taken modulo the size zero: the server has no
  defined behaviour on any such datagram, from whomever it comes.\<close>

theorem stun_only_server_crashes:
  assumes "server_create config env = Some (Some sv, env')" and "scfg_credentials config = []" and "is_channel_data buf"
  shows "server_input buf src sv = None"
  using channel_data_not_stun [OF assms(3)] create_without_credentials [OF assms(1,2)] assms(3)
  by (simp add: server_input_def server_process_channel_data_def find_allocation_def)

definition stun_only :: juice_server_config where
  "stun_only = \<lparr>scfg_credentials = [], scfg_max_allocations = 0, scfg_max_peers = 0, scfg_bind_address = None, scfg_external_address = None,
     scfg_port = 3478, scfg_relay_port_range_begin = 0, scfg_relay_port_range_end = 0, scfg_realm = None\<rparr>"

theorem stun_only_server_crashes_witness:
  "\<exists>sv env'. server_create stun_only demo_env = Some (Some sv, env') \<and> server_input [0x40] demo_client sv = None"
proof -
  have "\<exists>sv env'. server_create stun_only demo_env = Some (Some sv, env')"
    by (simp add: server_create_def server_malloc_def server_socket_def copy_config_def enable_turn_def blank_server_def Let_def
        alloc_string_copy_def stun_only_def demo_env_def INVALID_SOCKET_def)
  moreover have "is_channel_data [0x40]" by (simp add: is_channel_data_def)
  moreover have "scfg_credentials stun_only = []" by (simp add: stun_only_def)
  ultimately show ?thesis using stun_only_server_crashes by blast
qed

text \<open>Slot \<open>i\<close> has an allocation whose credentials are gone.\<close>

definition dangling :: "nat \<Rightarrow> nat \<Rightarrow> int \<Rightarrow> juice_server \<Rightarrow> bool" where
  "dangling i p t sv \<longleftrightarrow> holds p (sv_allocs sv ! i) \<and> sa_timestamp (sv_allocs sv ! i) = t \<and> cred_at sv p = None"

lemma delete_dangling:
  assumes "dangling i p t sv"
  shows "delete_allocation i sv = None" and "delete_allocation j sv = Some sv' \<Longrightarrow> dangling i p t sv'"
proof -
  show none: "delete_allocation i sv = None" using assms by (simp add: dangling_def holds_def delete_allocation_def)
  show "dangling i p t sv'" if del: "delete_allocation j sv = Some sv'"
  proof (cases "sa_state (sv_allocs sv ! j) = SERVER_TURN_ALLOC_FULL")
    case True
    have "i \<noteq> j" using del none by auto
    then show ?thesis
      using assms del True
      by (auto simp: dangling_def delete_allocation_def cred_at_upd_cred nth_list_update elim!: bind_SomeE split: if_splits)
  qed (use assms del in \<open>simp add: delete_allocation_def\<close>)
qed

lemma cred_at_None: "cred_at sv p = None \<longleftrightarrow> (\<forall>node\<in>set (sv_credentials sv). cl_addr node \<noteq> p)"
  by (auto simp: cred_at_def find_None_iff)

lemma dangling_bookkeeping:
  assumes "dangling i p t sv" and "i < length (sv_allocs sv)" and "t \<le> se_clock (sv_env sv) (se_ticks (sv_env sv))"
  shows "server_bookkeeping sv = None"
proof -
  obtain now sv0 where n: "server_now sv = (now, sv0)" by fastforce
  then have now: "t \<le> now" "dangling i p t sv0" "i < length (sv_allocs sv0)"
    using assms by (auto simp: server_now_def dangling_def cred_at_def)
  have "each [0..<length (sv_allocs sv0)] (expire_alloc now) (now + 60000, sv0) = None"
  proof (rule each_fails [where i = i and I = "\<lambda>s. dangling i p t (snd s)"])
    show "dangling i p t (snd s')" if "dangling i p t (snd s)" "expire_alloc now j s = Some s'" for j s s'
      using that delete_dangling(2) [OF that(1)] by (auto simp: expire_alloc_def Let_def elim!: bind_SomeE split: if_split_asm)
    show "expire_alloc now i s = None" if "dangling i p t (snd s)" for s
      using that delete_dangling(1) [OF that] now(1) by (auto simp: expire_alloc_def dangling_def holds_def)
  qed (use now in auto)
  then show ?thesis by (simp add: server_bookkeeping_def n)
qed

lemma expire_keeps:
  assumes "expire_alloc now j s = Some s'" and "now < sa_timestamp (sv_allocs (snd s) ! i)"
  shows "sv_allocs (snd s') ! i = sv_allocs (snd s) ! i"
  using assms
  by (cases "i = j") (auto simp: expire_alloc_def delete_allocation_def Let_def elim!: bind_SomeE split: if_split_asm)

lemma expire_nodes:
  assumes "expire_alloc now j s = Some s'"
  shows "map (\<lambda>node. (cl_addr node, cl_timestamp node)) (sv_credentials (snd s')) = map (\<lambda>node. (cl_addr node, cl_timestamp node)) (sv_credentials (snd s))"
  using assms
  by (auto simp: expire_alloc_def delete_allocation_def Let_def upd_cred_def elim!: bind_SomeE split: if_split_asm)

lemma bookkeeping_dangles:
  assumes "server_bookkeeping sv = Some (t, sv')" and "i < length (sv_allocs sv)" and "holds p (sv_allocs sv ! i)"
    and "se_clock (sv_env sv) (se_ticks (sv_env sv)) < sa_timestamp (sv_allocs sv ! i)"
    and "\<forall>node\<in>set (sv_credentials sv). cl_addr node = p \<longrightarrow> expired_cred (se_clock (sv_env sv) (se_ticks (sv_env sv))) node"
  shows "dangling i p (sa_timestamp (sv_allocs sv ! i)) sv' \<and> length (sv_allocs sv') = length (sv_allocs sv)"
proof -
  define now where "now = se_clock (sv_env sv) (se_ticks (sv_env sv))"
  obtain sv0 where n: "server_now sv = (now, sv0)" by (auto simp: server_now_def now_def)
  then have sv0: "sv_allocs sv0 = sv_allocs sv" "sv_credentials sv0 = sv_credentials sv" by (auto simp: server_now_def)
  obtain s1 where s1: "each [0..<length (sv_allocs sv0)] (expire_alloc now) (now + 60000, sv0) = Some s1"
    and sv': "sv' = (snd s1)\<lparr>sv_credentials := filter (\<lambda>node. \<not> expired_cred now node) (sv_credentials (snd s1))\<rparr>"
    using assms(1) unfolding server_bookkeeping_def n prod.case by (auto elim!: bind_SomeE)
  let ?key = "map (\<lambda>node. (cl_addr node, cl_timestamp node))"
  have inv: "sv_allocs (snd s1) ! i = sv_allocs sv ! i \<and> length (sv_allocs (snd s1)) = length (sv_allocs sv)
      \<and> ?key (sv_credentials (snd s1)) = ?key (sv_credentials sv)"
  proof (rule each_inv [OF s1, where I = "\<lambda>s. sv_allocs (snd s) ! i = sv_allocs sv ! i \<and> length (sv_allocs (snd s)) = length (sv_allocs sv)
      \<and> ?key (sv_credentials (snd s)) = ?key (sv_credentials sv)"])
    fix j s s'
    assume j: "j \<in> set [0..<length (sv_allocs sv0)]" and s: "sv_allocs (snd s) ! i = sv_allocs sv ! i
      \<and> length (sv_allocs (snd s)) = length (sv_allocs sv) \<and> ?key (sv_credentials (snd s)) = ?key (sv_credentials sv)"
      and e: "expire_alloc now j s = Some s'"
    show "sv_allocs (snd s') ! i = sv_allocs sv ! i \<and> length (sv_allocs (snd s')) = length (sv_allocs sv)
      \<and> ?key (sv_credentials (snd s')) = ?key (sv_credentials sv)"
      using expire_keeps [OF e, of i] expire_nodes [OF e] accounts_expire [OF e] j s assms(4) sv0(1) now_def by simp
  qed (simp add: sv0)
  have "expired_cred now node" if node: "node \<in> set (sv_credentials (snd s1))" "cl_addr node = p" for node
  proof -
    have "(cl_addr node, cl_timestamp node) \<in> set (?key (sv_credentials (snd s1)))" using node(1) by auto
    also have "\<dots> = set (?key (sv_credentials sv))" using inv by simp
    finally obtain node0 where "node0 \<in> set (sv_credentials sv)" "cl_addr node0 = cl_addr node" "cl_timestamp node0 = cl_timestamp node" by auto
    then show ?thesis using assms(5) node(2) now_def by (auto simp: expired_cred_def)
  qed
  then have "cred_at sv' p = None" by (auto simp: cred_at_None sv')
  then show ?thesis using inv assms(3) by (simp add: dangling_def sv')
qed

lemma dangling_destroy:
  assumes "dangling i p t sv" and "i < length (sv_allocs sv)"
  shows "server_do_destroy sv = None"
proof -
  have "each [0..<length (sv_allocs sv)] delete_allocation (server_emit (Udp_close (sv_sock sv)) sv) = None"
  proof (rule each_fails [where i = i and I = "dangling i p t"])
    show "dangling i p t (server_emit (Udp_close (sv_sock sv)) sv)" using assms(1) by (simp add: dangling_def)
    show "dangling i p t s'" if "dangling i p t s" "delete_allocation j s = Some s'" for j s s' using that by (rule delete_dangling(2))
    show "delete_allocation i s = None" if "dangling i p t s" for s using that by (rule delete_dangling(1))
    show "i \<in> set [0..<length (sv_allocs sv)]" using assms(2) by simp
  qed
  then show ?thesis by (simp add: server_do_destroy_def)
qed

text \<open>(C31) Credentials that expire before an allocation made with them leave a dangling pointer: book-keeping frees the node
  while the allocation keeps its address, so that destroying the server, and the next book-keeping after the allocation has
  timed out, write through the freed pointer.\<close>

theorem expired_credentials_dangle:
  assumes "server_bookkeeping sv = Some (t, sv')" and "i < length (sv_allocs sv)" and "holds p (sv_allocs sv ! i)"
    and "se_clock (sv_env sv) (se_ticks (sv_env sv)) < sa_timestamp (sv_allocs sv ! i)"
    and "\<forall>node\<in>set (sv_credentials sv). cl_addr node = p \<longrightarrow> expired_cred (se_clock (sv_env sv) (se_ticks (sv_env sv))) node"
  shows "server_do_destroy sv' = None
    \<and> (sa_timestamp (sv_allocs sv ! i) \<le> se_clock (sv_env sv') (se_ticks (sv_env sv')) \<longrightarrow> server_bookkeeping sv' = None)"
proof -
  have d: "dangling i p (sa_timestamp (sv_allocs sv ! i)) sv'" "i < length (sv_allocs sv')"
    using bookkeeping_dangles [OF assms] assms(2) by auto
  show ?thesis using dangling_destroy [OF d] dangling_bookkeeping [OF d] by blast
qed

definition expiring_server :: juice_server where
  "expiring_server = demo_server\<lparr>sv_credentials := [demo_node\<lparr>cl_timestamp := 500\<rparr>]\<rparr>"

theorem expired_credentials_dangle_witness:
  "\<exists>t sv'. server_bookkeeping expiring_server = Some (t, sv') \<and> server_do_destroy sv' = None"
proof -
  have "\<exists>t sv'. server_bookkeeping expiring_server = Some (t, sv')"
    by (simp add: server_bookkeeping_def expiring_server_def demo_server_def server_now_def expire_alloc_def blank_server_def demo_env_def)
  then obtain t sv' where b: "server_bookkeeping expiring_server = Some (t, sv')" by blast
  have "server_do_destroy sv' = None \<and> (sa_timestamp (sv_allocs expiring_server ! 0) \<le> se_clock (sv_env sv') (se_ticks (sv_env sv'))
      \<longrightarrow> server_bookkeeping sv' = None)"
    by (rule expired_credentials_dangle [OF b, of 0 7])
      (simp_all add: expiring_server_def demo_server_def holds_def blank_server_def demo_env_def expired_cred_def demo_node_def)
  then show ?thesis using b by blast
qed

text \<open>A client whose allocation is not in the first slot of its probe sequence cannot refresh it once the allocation before it is
  deleted: the search for a Refresh stops at the deleted slot, while the other requests still find the allocation.\<close>

lemma refresh_after_deletion:
  assumes "msg_class msg = STUN_CLASS_REQUEST" and "msg_method msg = STUN_METHOD_REFRESH"
    and key: "unat (addr_record_hash src True) mod length (sv_allocs sv) = key" and n: "key + 1 < length (sv_allocs sv)"
    and del: "sa_state (sv_allocs sv ! key) = SERVER_TURN_ALLOC_DELETED" "\<not> addr_record_is_equal (sa_record (sv_allocs sv ! key)) src True"
    and own: "sa_state (sv_allocs sv ! (key + 1)) = SERVER_TURN_ALLOC_FULL" "sa_credentials (sv_allocs sv ! (key + 1)) = Some p"
      "addr_record_is_equal (sa_record (sv_allocs sv ! (key + 1))) src True"
  shows "server_process_turn_allocate msg src p sv
      = server_answer_stun_error (transaction_id msg) src STUN_METHOD_REFRESH 437 (Some p) sv"
    and "server_own_allocation src p sv = Some (Inr (key + 1))"
proof -
  have ne: "sv_allocs sv \<noteq> []" using n by auto
  have "find_allocation (sv_allocs sv) src True = Some (Some key)"
    using ne n del(1) unfolding find_allocation_def Let_def key by (subst find_entry_loop.simps) (simp add: alloc_stops_def)
  then show "server_process_turn_allocate msg src p sv
      = server_answer_stun_error (transaction_id msg) src STUN_METHOD_REFRESH 437 (Some p) sv"
    using assms(1,2) del(1)
    by (cases "server_answer_stun_error (transaction_id msg) src STUN_METHOD_REFRESH 437 (Some p) sv")
      (auto simp: server_process_turn_allocate_def server_new_allocation_def)
  have "find_allocation (sv_allocs sv) src False = Some (Some (key + 1))"
    using ne n del own(1,3) unfolding find_allocation_def Let_def key
    by (subst find_entry_loop.simps, subst find_entry_loop.simps) (simp add: alloc_stops_def Let_def)
  then show "server_own_allocation src p sv = Some (Inr (key + 1))" using own by (simp add: server_own_allocation_def)
qed

text \<open>The array of descriptors is made before the wait: an allocation in a slot added meanwhile is looked up past its end.\<close>

lemma forward_past_descriptors:
  assumes "sa_state (sv_allocs sv ! i) = SERVER_TURN_ALLOC_FULL" and "length revents \<le> i"
  shows "forward_relay revents i sv = None"
  using assms by (simp add: forward_relay_def)

end
