(* ===== verification/Tcp.thy ===== *)
theory Tcp
  imports Udp
begin

text \<open>
  \<^verbatim>\<open>libjuice/src/tcp.c\<close>: ICE over TCP.  Datagrams are framed with a length of two bytes in front (RFC 4571) and written
  and read through contexts that survive partial transfers.  What \<^verbatim>\<open>send\<close> and \<^verbatim>\<open>recv\<close> answer is a parameter.
\<close>

definition TCP_ICE_BUFFER_SIZE :: nat where "TCP_ICE_BUFFER_SIZE = 2048"
definition TCP_BUFFER_SIZE :: nat where "TCP_BUFFER_SIZE = 1024"

text \<open>Opening a socket: the answers of \<^verbatim>\<open>socket\<close> and \<^verbatim>\<open>ioctl\<close>, and whether \<^verbatim>\<open>connect\<close> succeeds or is in progress.\<close>

definition tcp_create_socket :: "int \<Rightarrow> bool \<Rightarrow> bool \<Rightarrow> int" where
  "tcp_create_socket sock nonblocking connecting =
     (if sock = INVALID_SOCKET then INVALID_SOCKET
      else if \<not> nonblocking then INVALID_SOCKET
      else if \<not> connecting then INVALID_SOCKET
      else sock)"

subsection \<open>Writing\<close>

record tcp_ice_write_context =
  tw_buffer :: bytes
  tw_length :: u16
  tw_bytes_written :: u16
  tw_pending :: bool

definition zero_write_context :: tcp_ice_write_context where
  "zero_write_context = \<lparr>tw_buffer = replicate TCP_ICE_BUFFER_SIZE 0, tw_length = 0, tw_bytes_written = 0, tw_pending = False\<rparr>"

text \<open>An answer of \<^verbatim>\<open>send\<close>: how many of the bytes the system takes, or a failure.  A socket with no answer left is full.\<close>

datatype send_result = Send_takes nat | Send_fails

text \<open>The bytes that the next \<^verbatim>\<open>send\<close> offers.\<close>

definition tcp_offer :: "tcp_ice_write_context \<Rightarrow> bytes" where
  "tcp_offer c =
     (let w = unat (tw_bytes_written c) in
      if w < 2 then drop w (mem16 (htons (tw_length c)))
      else take (unat (tw_length c) - (w - 2)) (drop (w - 2) (tw_buffer c)))"

text \<open>The loop: the result, the context, what went out, and the answers left.\<close>

fun tcp_write_loop :: "send_result list \<Rightarrow> tcp_ice_write_context \<Rightarrow> int \<times> tcp_ice_write_context \<times> bytes \<times> send_result list" where
  "tcp_write_loop sends c =
     (if tw_pending c \<and> uint (tw_bytes_written c) < 2 + uint (tw_length c)
      then case sends of
             [] \<Rightarrow> (-1, c, [], [])
           | Send_fails # rest \<Rightarrow> (-1, c, [], rest)
           | Send_takes n # rest \<Rightarrow>
               let out = take n (tcp_offer c);
                   (r, c1, outs, rest1) = tcp_write_loop rest (c\<lparr>tw_bytes_written := tw_bytes_written c + of_nat (length out)\<rparr>)
               in (r, c1, out @ outs, rest1)
      else (int (unat (tw_length c)), c\<lparr>tw_pending := False\<rparr>, [], sends))"

declare tcp_write_loop.simps [simp del]

text \<open>\<open>None\<close> for the data is the null pointer with which a pending write is continued.\<close>

definition tcp_ice_write ::
  "send_result list \<Rightarrow> bytes option \<Rightarrow> tcp_ice_write_context \<Rightarrow> int \<times> tcp_ice_write_context \<times> bytes \<times> send_result list" where
  "tcp_ice_write sends data c =
     (case data of
        None \<Rightarrow> tcp_write_loop sends c
      | Some d \<Rightarrow>
          if tw_pending c then (- SEAGAIN, c, [], sends)
          else if length d > TCP_ICE_BUFFER_SIZE then (- SEMSGSIZE, c, [], sends)
          else tcp_write_loop sends (c\<lparr>tw_buffer := buf_write (tw_buffer c) 0 d, tw_length := of_nat (length d),
                 tw_bytes_written := 0, tw_pending := True\<rparr>))"

subsection \<open>Reading\<close>

text \<open>The header is kept as the two bytes it has in memory.\<close>

record tcp_ice_read_context =
  tr_buffer :: bytes
  tr_length :: u16
  tr_bytes_read :: u16
  tr_header :: bytes
  tr_pending :: bool

definition zero_read_context :: tcp_ice_read_context where
  "zero_read_context = \<lparr>tr_buffer = replicate TCP_ICE_BUFFER_SIZE 0, tr_length = 0, tr_bytes_read = 0, tr_header = [0, 0], tr_pending = False\<rparr>"

text \<open>What arrives on the connection: bytes, nothing for now, an error, or its end.\<close>

datatype stream_event = Segment bytes | Stream_blocked | Stream_error int | Stream_closed

text \<open>\<^verbatim>\<open>recv\<close> with room for \<open>n\<close> bytes: an error number or the bytes, none at the end of the stream.  What does not fit stays.\<close>

definition tcp_recv :: "nat \<Rightarrow> stream_event list \<Rightarrow> (int + bytes) \<times> stream_event list" where
  "tcp_recv n evs =
     (case evs of
        [] \<Rightarrow> (Inl SEAGAIN, [])
      | Segment bs # rest \<Rightarrow>
          if bs = [] then (Inl SEAGAIN, rest)
          else (Inr (take n bs), if length bs \<le> n then rest else Segment (drop n bs) # rest)
      | Stream_blocked # rest \<Rightarrow> (Inl SEAGAIN, rest)
      | Stream_error e # rest \<Rightarrow> (Inl e, rest)
      | Stream_closed # rest \<Rightarrow> (Inr [], evs))"

text \<open>The size the next \<^verbatim>\<open>recv\<close> asks for: the rest of the header, of the part of the datagram that fits, or of what is dropped.\<close>

definition tcp_request :: "tcp_ice_read_context \<Rightarrow> nat" where
  "tcp_request c =
     (let b = unat (tr_bytes_read c); len = unat (tr_length c) in
      if b < 2 then 2 - b
      else if b < 2 + TCP_ICE_BUFFER_SIZE then min len TCP_ICE_BUFFER_SIZE - (b - 2)
      else min (len - (b - 2)) TCP_BUFFER_SIZE)"

text \<open>What the loop does with the bytes it got.\<close>

definition tcp_consume :: "bytes \<Rightarrow> tcp_ice_read_context \<Rightarrow> tcp_ice_read_context" where
  "tcp_consume bs c =
     (let b = unat (tr_bytes_read c);
          c1 = (if b < 2 then c\<lparr>tr_header := buf_write (tr_header c) b bs\<rparr>
                else if b < 2 + TCP_ICE_BUFFER_SIZE then c\<lparr>tr_buffer := buf_write (tr_buffer c) (b - 2) bs\<rparr>
                else c);
          c2 = c1\<lparr>tr_bytes_read := tr_bytes_read c1 + of_nat (length bs)\<rparr>;
          c3 = (if tr_bytes_read c2 = 2 then c2\<lparr>tr_length := rd16 (tr_header c2)\<rparr> else c2)
      in if tr_length c3 = 0 then c3\<lparr>tr_bytes_read := 0\<rparr> else c3)"

text \<open>The number of bytes still to come, which every round of the loop lowers.\<close>

primrec stream_left :: "stream_event list \<Rightarrow> nat" where
  "stream_left [] = 0"
| "stream_left (ev # evs) = (case ev of Segment bs \<Rightarrow> length bs | _ \<Rightarrow> 0) + stream_left evs"

lemma tcp_recv_left: "tcp_recv n evs = (Inr bs, evs') \<Longrightarrow> stream_left evs = stream_left evs' + length bs"
  by (auto simp: tcp_recv_def split: list.split_asm stream_event.split_asm if_split_asm)

function tcp_read_loop :: "stream_event list \<Rightarrow> tcp_ice_read_context \<Rightarrow> int \<times> tcp_ice_read_context \<times> stream_event list" where
  "tcp_read_loop evs c =
     (if uint (tr_bytes_read c) < 2 + uint (tr_length c)
      then case tcp_recv (tcp_request c) evs of
             (Inl e, evs') \<Rightarrow> (- e, c, evs')
           | (Inr bs, evs') \<Rightarrow> if bs = [] then (0, c, evs') else tcp_read_loop evs' (tcp_consume bs c)
      else (int (unat (tr_length c)), c\<lparr>tr_pending := False\<rparr>, evs))"
  by pat_completeness auto
termination by (relation "measure (\<lambda>(evs, c). stream_left evs)") (auto dest: tcp_recv_left [OF sym])

declare tcp_read_loop.simps [simp del]

definition tcp_ice_read :: "stream_event list \<Rightarrow> tcp_ice_read_context \<Rightarrow> int \<times> tcp_ice_read_context \<times> stream_event list" where
  "tcp_ice_read evs c =
     tcp_read_loop evs (if \<not> tr_pending c then c\<lparr>tr_length := 0, tr_bytes_read := 0, tr_pending := True\<rparr> else c)"

end
