(* ===== verification/Tcp_Props.thy ===== *)
theory Tcp_Props
  imports Tcp "HOL-Library.Sublist"
begin

text \<open>
  ICE over TCP: what the writer puts on the connection whatever the system takes at a time, what the reader makes of it
  however it is cut, and where the framing breaks.
\<close>

definition tcp_frame :: "bytes \<Rightarrow> bytes" where
  "tcp_frame d = net16 (of_nat (length d)) @ d"

lemma length_tcp_frame [simp]: "length (tcp_frame d) = 2 + length d"
  by (simp add: tcp_frame_def)

lemma unat_of_nat_u16 [simp]: "n < 65536 \<Longrightarrow> unat (of_nat n :: u16) = n"
  by (simp add: unat_of_nat)

lemma unat_advance: "unat (x :: u16) + n < 65536 \<Longrightarrow> unat (x + of_nat n) = unat x + n"
  by (simp add: unat_word_ariths unat_of_nat)

text \<open>The guard of both loops, over the natural numbers.\<close>

lemma tcp_guard: "uint (x :: u16) < 2 + uint (y :: u16) \<longleftrightarrow> unat x < 2 + unat y"
  unfolding uint_nat by linarith

subsection \<open>Writing\<close>

text \<open>What a context still has to write.\<close>

definition tcp_owed :: "tcp_ice_write_context \<Rightarrow> bytes" where
  "tcp_owed c = (if tw_pending c
     then drop (unat (tw_bytes_written c)) (net16 (tw_length c) @ take (unat (tw_length c)) (tw_buffer c)) else [])"

definition writer_ok :: "tcp_ice_write_context \<Rightarrow> bool" where
  "writer_ok c \<longleftrightarrow> length (tw_buffer c) = TCP_ICE_BUFFER_SIZE \<and> unat (tw_length c) \<le> TCP_ICE_BUFFER_SIZE
     \<and> unat (tw_bytes_written c) \<le> 2 + unat (tw_length c)"

lemma tcp_offer_owed:
  assumes "writer_ok c" and "tw_pending c"
  shows "prefix (tcp_offer c) (tcp_owed c)"
  using assms
  by (auto simp: tcp_offer_def tcp_owed_def writer_ok_def Let_def mem16_htons drop_take)

lemma tcp_owed_advance:
  assumes "writer_ok c" and "tw_pending c" and "prefix out (tcp_owed c)"
  shows "tcp_owed c = out @ tcp_owed (c\<lparr>tw_bytes_written := tw_bytes_written c + of_nat (length out)\<rparr>)
    \<and> writer_ok (c\<lparr>tw_bytes_written := tw_bytes_written c + of_nat (length out)\<rparr>)"
proof -
  let ?f = "net16 (tw_length c) @ take (unat (tw_length c)) (tw_buffer c)"
  obtain rest where rest: "tcp_owed c = out @ rest" using assms(3) by (auto simp: prefix_def)
  have "length out \<le> length (tcp_owed c)" using rest by simp
  then have le: "unat (tw_bytes_written c) + length out \<le> 2 + unat (tw_length c)"
    using assms(1,2) by (auto simp: tcp_owed_def writer_ok_def)
  then have u: "unat (tw_bytes_written c + of_nat (length out)) = unat (tw_bytes_written c) + length out"
    using assms(1) by (subst unat_advance) (simp_all add: writer_ok_def TCP_ICE_BUFFER_SIZE_def)
  have "drop (unat (tw_bytes_written c)) ?f = out @ rest" using rest assms(2) by (simp add: tcp_owed_def)
  then have "drop (unat (tw_bytes_written c) + length out) ?f = rest"
    by (metis append_eq_conv_conj drop_drop add.commute)
  then show ?thesis using u le assms(1,2) rest by (simp add: tcp_owed_def writer_ok_def)
qed

lemma tcp_write_loop_owed:
  assumes "writer_ok c" and "tcp_write_loop sends c = (r, c', out, rest)"
  shows "tcp_owed c = out @ tcp_owed c' \<and> writer_ok c' \<and> (r < 0 \<longleftrightarrow> tw_pending c') \<and> r \<ge> -1"
  using assms
proof (induction sends c arbitrary: r c' out rest rule: tcp_write_loop.induct)
  case (1 sends c)
  note unf = 1(3) [unfolded tcp_write_loop.simps [of sends c]]
  show ?case
  proof (cases "tw_pending c \<and> uint (tw_bytes_written c) < 2 + uint (tw_length c)")
    case False
    then have "tcp_owed c = []" using 1(2) by (auto simp: tcp_owed_def writer_ok_def tcp_guard)
    then show ?thesis using False 1(2) unf order_trans [OF _ uint_ge_0, of "-1" "tw_length c"]
      by (auto simp: tcp_owed_def writer_ok_def)
  next
    case True
    consider "sends = []" | rest' where "sends = Send_fails # rest'" | n rest' where "sends = Send_takes n # rest'"
      by (metis neq_Nil_conv send_result.exhaust)
    then show ?thesis
    proof cases
      case (3 n rest')
      let ?out = "take n (tcp_offer c)"
      let ?c = "c\<lparr>tw_bytes_written := tw_bytes_written c + of_nat (length ?out)\<rparr>"
      have "prefix ?out (tcp_owed c)"
        using tcp_offer_owed [of c] True 1(2) by (meson prefix_order.trans take_is_prefix)
      then have adv: "tcp_owed c = ?out @ tcp_owed ?c" "writer_ok ?c" using tcp_owed_advance 1(2) True by blast+
      obtain outs where rec: "tcp_write_loop rest' ?c = (r, c', outs, rest)" "out = ?out @ outs"
        using unf True unfolding 3 by (simp add: Let_def split: prod.split_asm)
      from 1(1) [OF True 3 refl refl adv(2) rec(1)] adv(1) rec(2) show ?thesis by simp
    next
      case 1
      show ?thesis using unf True \<open>writer_ok c\<close> unfolding 1 by auto
    next
      case (2 rest')
      show ?thesis using unf True \<open>writer_ok c\<close> unfolding 2 by auto
    qed
  qed
qed

lemma tcp_ice_write_owed:
  assumes "writer_ok c" and "tcp_ice_write sends data c = (r, c', out, rest)"
  shows "writer_ok c' \<and> tcp_owed c @ concat (map tcp_frame (case data of Some d \<Rightarrow> if r = - SEAGAIN \<or> r = - SEMSGSIZE then [] else [d] | None \<Rightarrow> []))
    = out @ tcp_owed c'"
proof (cases data)
  case None
  then show ?thesis using assms tcp_write_loop_owed [of c] by (simp add: tcp_ice_write_def)
next
  case (Some d)
  show ?thesis
  proof (cases "tw_pending c \<or> length d > TCP_ICE_BUFFER_SIZE")
    case True
    then show ?thesis using assms Some by (auto simp: tcp_ice_write_def split: if_split_asm)
  next
    case False
    let ?c = "c\<lparr>tw_buffer := buf_write (tw_buffer c) 0 d, tw_length := of_nat (length d), tw_bytes_written := 0, tw_pending := True\<rparr>"
    have len: "length d < 65536" using False by (simp add: TCP_ICE_BUFFER_SIZE_def)
    have "tcp_owed ?c = tcp_frame d" "writer_ok ?c"
      using False assms(1) len take_buf_write [of 0 d "tw_buffer c"] by (auto simp: tcp_owed_def writer_ok_def tcp_frame_def)
    moreover have "tcp_write_loop sends ?c = (r, c', out, rest)" using assms(2) Some False by (simp add: tcp_ice_write_def)
    ultimately have "tcp_frame d = out @ tcp_owed c'" "writer_ok c'" "r \<ge> -1" using tcp_write_loop_owed [of ?c] by auto
    moreover have "tcp_owed c = []" using False by (simp add: tcp_owed_def)
    ultimately show ?thesis using Some by (auto simp: SEAGAIN_def SEMSGSIZE_def)
  qed
qed

text \<open>A sequence of calls, each with the answers of \<^verbatim>\<open>send\<close> it meets: what went out and the datagrams that were not refused.\<close>

fun tcp_writes :: "(bytes option \<times> send_result list) list \<Rightarrow> tcp_ice_write_context \<Rightarrow> bytes \<times> bytes list \<times> tcp_ice_write_context" where
  "tcp_writes [] c = ([], [], c)"
| "tcp_writes ((data, sends) # ops) c =
     (let (r, c1, out, _) = tcp_ice_write sends data c;
          (outs, ds, c2) = tcp_writes ops c1
      in (out @ outs, (case data of Some d \<Rightarrow> if r = - SEAGAIN \<or> r = - SEMSGSIZE then [] else [d] | None \<Rightarrow> []) @ ds, c2))"

lemma tcp_writes_owed:
  "writer_ok c \<Longrightarrow> tcp_writes ops c = (out, ds, c') \<Longrightarrow> tcp_owed c @ concat (map tcp_frame ds) = out @ tcp_owed c'"
proof (induction ops c arbitrary: out ds c' rule: tcp_writes.induct)
  case (2 data sends ops c)
  obtain r c1 o1 rest where w: "tcp_ice_write sends data c = (r, c1, o1, rest)" by (metis prod_cases4)
  obtain o2 ds2 where ws: "tcp_writes ops c1 = (o2, ds2, c')" "out = o1 @ o2"
    "ds = (case data of Some d \<Rightarrow> if r = - SEAGAIN \<or> r = - SEMSGSIZE then [] else [d] | None \<Rightarrow> []) @ ds2"
    using 2(3) w by (auto split: prod.split_asm)
  have "writer_ok c1" using tcp_ice_write_owed [OF 2(2) w] by blast
  with 2(1) [OF w [symmetric] refl refl refl this ws(1)] tcp_ice_write_owed [OF 2(2) w] show ?case
    unfolding ws(2,3) map_append concat_append by (metis append.assoc)
qed simp

subsection \<open>Reading\<close>

primrec arrived :: "stream_event list \<Rightarrow> bytes" where
  "arrived [] = []"
| "arrived (ev # evs) = (case ev of Segment bs \<Rightarrow> bs | _ \<Rightarrow> []) @ arrived evs"

text \<open>A connection that stays open.\<close>

definition healthy :: "stream_event list \<Rightarrow> bool" where
  "healthy evs \<longleftrightarrow> list_all (\<lambda>ev. case ev of Segment _ \<Rightarrow> True | Stream_blocked \<Rightarrow> True | _ \<Rightarrow> False) evs"

text \<open>No segment ends between the two bytes of a header, when \<open>p\<close> of the first frame has been read.\<close>

definition unsplit :: "bytes \<Rightarrow> bytes list \<Rightarrow> stream_event list \<Rightarrow> bool" where
  "unsplit p ds evs \<longleftrightarrow> (\<forall>i j. length p + length (arrived (take i evs)) \<noteq> length (concat (map tcp_frame (take j ds))) + 1)"

text \<open>The context has read the part \<open>p\<close> of the first of the frames of \<open>ds\<close>.\<close>

definition reader_at :: "tcp_ice_read_context \<Rightarrow> bytes \<Rightarrow> bytes list \<Rightarrow> bool" where
  "reader_at c p ds \<longleftrightarrow> length (tr_header c) = 2 \<and> length (tr_buffer c) = TCP_ICE_BUFFER_SIZE \<and> unat (tr_bytes_read c) = length p
     \<and> (if p = [] then tr_length c = 0
        else 2 \<le> length p \<and> ds \<noteq> [] \<and> hd ds \<noteq> [] \<and> prefix p (tcp_frame (hd ds)) \<and> tr_length c = of_nat (length (hd ds))
             \<and> take (length p - 2) (tr_buffer c) = drop 2 p)"

definition small :: "bytes list \<Rightarrow> bool" where
  "small ds \<longleftrightarrow> list_all (\<lambda>d. length d \<le> TCP_ICE_BUFFER_SIZE) ds"

lemma tcp_recv_healthy:
  assumes "healthy evs" and "tcp_recv n evs = (x, evs')"
  shows "healthy evs'"
    and "x = Inl e \<Longrightarrow> e = SEAGAIN \<and> arrived evs' = arrived evs \<and> length evs' \<le> length evs \<and> (evs \<noteq> [] \<longrightarrow> length evs' < length evs)
      \<and> (\<forall>i. \<exists>k. arrived (take i evs') = arrived (take k evs))"
    and "x = Inr bs \<Longrightarrow> bs = take n (arrived (take 1 evs)) \<and> arrived (take 1 evs) \<noteq> [] \<and> arrived evs = bs @ arrived evs' \<and> length evs' \<le> length evs
      \<and> (\<forall>i. i \<noteq> 0 \<longrightarrow> (\<exists>k. length bs + length (arrived (take i evs')) = length (arrived (take k evs))))"
proof -
  show "healthy evs'" using assms
    by (auto simp: healthy_def tcp_recv_def split: list.split_asm stream_event.split_asm if_split_asm)
  show "e = SEAGAIN \<and> arrived evs' = arrived evs \<and> length evs' \<le> length evs \<and> (evs \<noteq> [] \<longrightarrow> length evs' < length evs)
      \<and> (\<forall>i. \<exists>k. arrived (take i evs') = arrived (take k evs))" if "x = Inl e"
    using assms that
    by (auto simp: healthy_def tcp_recv_def split: list.split_asm stream_event.split_asm if_split_asm
        intro: exI [of _ "Suc _"])
  show "bs = take n (arrived (take 1 evs)) \<and> arrived (take 1 evs) \<noteq> [] \<and> arrived evs = bs @ arrived evs' \<and> length evs' \<le> length evs
      \<and> (\<forall>i. i \<noteq> 0 \<longrightarrow> (\<exists>k. length bs + length (arrived (take i evs')) = length (arrived (take k evs))))" if xr: "x = Inr bs"
  proof -
    obtain b rest where e: "evs = Segment b # rest" "b \<noteq> []" "bs = take n b"
      "evs' = (if length b \<le> n then rest else Segment (drop n b) # rest)"
      using assms xr by (auto simp: healthy_def tcp_recv_def split: list.split_asm stream_event.split_asm if_split_asm)
    have "\<exists>k. length bs + length (arrived (take i evs')) = length (arrived (take k evs))" if "i \<noteq> 0" for i
    proof (cases "length b \<le> n")
      case True
      then show ?thesis using e by (intro exI [of _ "Suc i"]) simp
    next
      case False
      then show ?thesis using e that by (intro exI [of _ i]) (cases i; simp)
    qed
    then show ?thesis using e by auto
  qed
qed

lemma small_simps [simp]: "small (d # ds) \<longleftrightarrow> length d \<le> TCP_ICE_BUFFER_SIZE \<and> small ds"
  by (simp add: small_def)

lemma unsplit_blocked:
  assumes "unsplit p ds evs" and "\<forall>i. \<exists>k. arrived (take i evs') = arrived (take k evs)"
  shows "unsplit p ds evs'"
  unfolding unsplit_def
proof (intro allI)
  fix i j
  obtain k where "arrived (take i evs') = arrived (take k evs)" using assms(2) by blast
  then show "length p + length (arrived (take i evs')) \<noteq> length (concat (map tcp_frame (take j ds))) + 1"
    using assms(1) by (simp add: unsplit_def)
qed

lemma unsplit_advance:
  assumes "unsplit p ds evs" and "prefix (p @ bs) (tcp_frame (hd ds))" and "length (p @ bs) \<noteq> 1" and "ds \<noteq> []"
    and "\<forall>i. i \<noteq> 0 \<longrightarrow> (\<exists>k. length bs + length (arrived (take i evs')) = length (arrived (take k evs)))"
  shows "unsplit (p @ bs) ds evs'"
  unfolding unsplit_def
proof (intro allI)
  fix i j
  show "length (p @ bs) + length (arrived (take i evs')) \<noteq> length (concat (map tcp_frame (take j ds))) + 1"
  proof (cases "i = 0")
    case True
    have "length (p @ bs) \<le> length (tcp_frame (hd ds))" using assms(2) by (rule prefix_length_le)
    then show ?thesis using True assms(3,4) by (cases ds; cases j) auto
  next
    case False
    then obtain k where "length bs + length (arrived (take i evs')) = length (arrived (take k evs))" using assms(5) by blast
    moreover have "length p + length (arrived (take k evs)) \<noteq> length (concat (map tcp_frame (take j ds))) + 1"
      using assms(1) by (simp add: unsplit_def)
    ultimately show ?thesis by simp
  qed
qed

lemma unsplit_next: "unsplit (tcp_frame d) (d # ds) evs \<Longrightarrow> unsplit [] ds evs"
  unfolding unsplit_def
proof (intro allI)
  fix i j
  assume *: "\<forall>i j. length (tcp_frame d) + length (arrived (take i evs)) \<noteq> length (concat (map tcp_frame (take j (d # ds)))) + 1"
  show "length ([] :: bytes) + length (arrived (take i evs)) \<noteq> length (concat (map tcp_frame (take j ds))) + 1"
    using spec [OF spec [OF *, of i], of "Suc j"] by simp
qed

text \<open>A header and a piece of a datagram.\<close>

lemma consume_header:
  assumes "reader_at c [] ds0" and "small (d # ds)"
  shows "reader_at (tcp_consume (net16 (of_nat (length d))) c) (if d = [] then [] else net16 (of_nat (length d))) (if d = [] then ds else d # ds)"
proof -
  have len: "length d < 65536" using assms(2) by (simp add: TCP_ICE_BUFFER_SIZE_def)
  have h: "buf_write (tr_header c) 0 (net16 (of_nat (length d))) = net16 (of_nat (length d))" "unat (tr_bytes_read c) = 0"
    using assms(1) by (auto simp: reader_at_def buf_write_def)
  then have z: "tr_bytes_read c = 0" by (simp add: unat_eq_0)
  have n: "of_nat (length d) = (0 :: u16) \<longleftrightarrow> d = []" using len by (simp flip: unat_eq_0)
  show ?thesis using assms(1) len h z n
    by (auto simp: reader_at_def tcp_consume_def Let_def tcp_frame_def)
qed

lemma consume_body:
  assumes "reader_at c p ds" and "p \<noteq> []" and "small ds" and "bs \<noteq> []" and "prefix (p @ bs) (tcp_frame (hd ds))"
  shows "reader_at (tcp_consume bs c) (p @ bs) ds"
proof -
  obtain d ds' where ds: "ds = d # ds'" using assms(1,2) by (cases ds) (auto simp: reader_at_def)
  have le: "length p + length bs \<le> 2 + length d" using prefix_length_le [OF assms(5)] ds by simp
  have d: "length d \<le> TCP_ICE_BUFFER_SIZE" "d \<noteq> []" "2 \<le> length p" using assms(1-3) ds by (auto simp: reader_at_def)
  have b: "unat (tr_bytes_read c) = length p" using assms(1) by (simp add: reader_at_def)
  have lt: "length p < 2 + TCP_ICE_BUFFER_SIZE" using le d assms(4) by (cases bs) auto
  have u: "unat (tr_bytes_read c + of_nat (length bs)) = length p + length bs"
    using b le d(1) by (subst unat_advance) (simp_all add: TCP_ICE_BUFFER_SIZE_def)
  have ne: "tr_bytes_read c + of_nat (length bs) \<noteq> 2"
  proof
    assume "tr_bytes_read c + of_nat (length bs) = 2"
    then have "length p + length bs = 2" using u by simp
    then show False using d(3) assms(4) by (cases bs) auto
  qed
  have len: "tr_length c = of_nat (length d)" "tr_length c \<noteq> 0"
  proof -
    show "tr_length c = of_nat (length d)" using assms(1,2) ds by (simp add: reader_at_def)
    then have "unat (tr_length c) = length d" using d(1) by (simp add: TCP_ICE_BUFFER_SIZE_def)
    then show "tr_length c \<noteq> 0" using d(2) by auto
  qed
  have w: "take (length p - 2 + length bs) (buf_write (tr_buffer c) (length p - 2) bs) = drop 2 (p @ bs)"
    using take_buf_write [of "length p - 2" bs "tr_buffer c"] assms(1,2) le d by (simp add: reader_at_def)
  have sz: "length (buf_write (tr_buffer c) (length p - 2) bs) = TCP_ICE_BUFFER_SIZE"
    using assms(1) le d by (subst length_buf_write) (auto simp: reader_at_def)
  have eq: "length p + length bs - 2 = length p - 2 + length bs" using d(3) by simp
  have con: "tcp_consume bs c = c\<lparr>tr_buffer := buf_write (tr_buffer c) (length p - 2) bs, tr_bytes_read := tr_bytes_read c + of_nat (length bs)\<rparr>"
    using b d(3) lt ne len(2) by (simp add: tcp_consume_def Let_def)
  have hdr: "length (tr_header c) = 2" using assms(1) by (simp add: reader_at_def)
  have nonempty: "p @ bs \<noteq> []" using assms(2) by simp
  show ?thesis unfolding reader_at_def if_not_P [OF nonempty]
  proof (intro conjI)
    show "take (length (p @ bs) - 2) (tr_buffer (tcp_consume bs c)) = drop 2 (p @ bs)" using w eq by (simp add: con)
  qed (use u sz hdr len(1) ds d assms(5) in \<open>simp_all add: con\<close>)
qed

text \<open>The context as a call of \<^verbatim>\<open>tcp_ice_read\<close> starts with it, and the state between calls: \<open>p\<close> is read, \<open>ds\<close> is to be delivered.\<close>

definition tcp_start :: "tcp_ice_read_context \<Rightarrow> tcp_ice_read_context" where
  "tcp_start c = (if \<not> tr_pending c then c\<lparr>tr_length := 0, tr_bytes_read := 0, tr_pending := True\<rparr> else c)"

lemma tcp_ice_read_start: "tcp_ice_read evs c = tcp_read_loop evs (tcp_start c)"
  by (simp add: tcp_ice_read_def tcp_start_def)

definition reading :: "tcp_ice_read_context \<Rightarrow> bytes \<Rightarrow> bytes list \<Rightarrow> stream_event list \<Rightarrow> bool" where
  "reading c p ds evs \<longleftrightarrow> reader_at c p ds \<and> tr_pending c \<and> small ds \<and> healthy evs
     \<and> p @ arrived evs = concat (map tcp_frame ds) \<and> unsplit p ds evs"

text \<open>A call goes on to the end of the next datagram that is not empty, or to the end of what has arrived.\<close>

definition read_outcome :: "bytes list \<Rightarrow> stream_event list \<Rightarrow> int \<times> tcp_ice_read_context \<times> stream_event list \<Rightarrow> bool" where
  "read_outcome ds evs res \<longleftrightarrow> (case res of (r, c', evs') \<Rightarrow>
     (\<exists>es d ds'. ds = es @ d # ds' \<and> set es \<subseteq> {[]} \<and> d \<noteq> [] \<and> r = int (length d) \<and> ld (tr_buffer c') 0 (length d) = Some d
        \<and> reading (tcp_start c') [] ds' evs' \<and> length evs' \<le> length evs)
     \<or> (\<exists>es ds' p'. ds = es @ ds' \<and> set es \<subseteq> {[]} \<and> r = - SEAGAIN \<and> reading (tcp_start c') p' ds' evs'
        \<and> (length evs' < length evs \<or> evs = [] \<and> evs' = [] \<and> ds' = [])))"

lemma read_outcome_later:
  assumes "read_outcome ds' evs' res" and "ds = es @ ds'" and "set es \<subseteq> {[]}" and "length evs' \<le> length evs" and "evs \<noteq> []"
  shows "read_outcome ds evs res"
proof -
  obtain r c' ev where res: "res = (r, c', ev)" by (metis prod_cases3)
  consider (got) fs d ds2 where "ds' = fs @ d # ds2" "set fs \<subseteq> {[]}" "d \<noteq> []" "r = int (length d)" "ld (tr_buffer c') 0 (length d) = Some d"
      "reading (tcp_start c') [] ds2 ev" "length ev \<le> length evs'"
    | (blocked) fs ds2 p' where "ds' = fs @ ds2" "set fs \<subseteq> {[]}" "r = - SEAGAIN" "reading (tcp_start c') p' ds2 ev"
      "length ev < length evs' \<or> evs' = [] \<and> ev = [] \<and> ds2 = []"
    using assms(1) unfolding res read_outcome_def by auto
  then show ?thesis
  proof cases
    case got
    then have "ds = (es @ fs) @ d # ds2 \<and> set (es @ fs) \<subseteq> {[]} \<and> length ev \<le> length evs" using assms by auto
    with got show ?thesis unfolding res read_outcome_def by blast
  next
    case blocked
    then have "ds = (es @ fs) @ ds2 \<and> set (es @ fs) \<subseteq> {[]} \<and> length ev < length evs" using assms by auto
    with blocked show ?thesis unfolding res read_outcome_def by blast
  qed
qed

text \<open>What the next \<^verbatim>\<open>recv\<close> brings.\<close>

lemma reading_request:
  assumes "reading c p ds evs" and "p \<noteq> []"
  shows "tcp_request c = 2 + length (hd ds) - length p" and "unat (tr_length c) = length (hd ds)" and "2 \<le> length p" and "length (hd ds) \<le> TCP_ICE_BUFFER_SIZE"
proof -
  obtain d ds' where ds: "ds = d # ds'" using assms by (cases ds) (auto simp: reading_def reader_at_def)
  show *: "length (hd ds) \<le> TCP_ICE_BUFFER_SIZE" "2 \<le> length p" using assms ds by (auto simp: reading_def reader_at_def)
  then show len: "unat (tr_length c) = length (hd ds)" using assms ds by (simp add: reading_def reader_at_def TCP_ICE_BUFFER_SIZE_def)
  have "length p \<le> 2 + length (hd ds)" "unat (tr_bytes_read c) = length p"
    using assms prefix_length_le [of p "tcp_frame (hd ds)"] by (auto simp: reading_def reader_at_def)
  then show "tcp_request c = 2 + length (hd ds) - length p" using * len
    by (auto simp: tcp_request_def Let_def TCP_BUFFER_SIZE_def)
qed

lemma reading_start_request: "reading c [] ds evs \<Longrightarrow> tcp_request c = 2"
  by (simp add: tcp_request_def reading_def reader_at_def)

lemma request_positive:
  assumes "reading c p ds evs" and "unat (tr_bytes_read c) < 2 + unat (tr_length c)"
  shows "tcp_request c \<noteq> 0"
proof (cases "p = []")
  case True
  then show ?thesis using reading_start_request [of c ds evs] assms(1) by simp
next
  case False
  then show ?thesis using reading_request(1,2) [OF assms(1) False] assms by (simp add: reading_def reader_at_def)
qed

lemma reading_next:
  assumes "reading c p ds evs" and "ds = d # ds'" and "bs = take (tcp_request c) (arrived (take 1 evs))" and "arrived (take 1 evs) \<noteq> []"
    and "bs \<noteq> []" and "p @ bs @ rest = concat (map tcp_frame ds)"
  shows "prefix (p @ bs) (tcp_frame d) \<and> length (p @ bs) \<noteq> 1 \<and> (p = [] \<longrightarrow> length bs = 2)"
proof -
  have two: "length bs = 2" if "p = []"
  proof -
    have "unsplit p ds evs" using assms(1) by (simp add: reading_def)
    then have "length p + length (arrived (take 1 evs)) \<noteq> length (concat (map tcp_frame (take 0 ds))) + 1" unfolding unsplit_def by blast
    then have "length (arrived (take 1 evs)) \<noteq> 1" using that by simp
    then have "2 \<le> length (arrived (take 1 evs))" using assms(4) by (cases "arrived (take 1 evs)"; cases "tl (arrived (take 1 evs))") auto
    then show ?thesis using assms(1,3) that reading_start_request by simp
  qed
  have "length (p @ bs) \<le> 2 + length d"
  proof (cases "p = []")
    case False
    have "length bs \<le> 2 + length d - length p" using assms(2,3) reading_request(1) [OF assms(1) False] by simp
    moreover have "length p \<le> 2 + length d"
      using assms(1,2) False prefix_length_le [of p "tcp_frame d"] by (simp add: reading_def reader_at_def)
    ultimately show ?thesis by simp
  qed (use two in simp)
  moreover have "p @ bs @ rest = tcp_frame d @ concat (map tcp_frame ds')" using assms(2,6) by simp
  ultimately have "prefix (p @ bs) (tcp_frame d)"
    by (metis append.assoc length_tcp_frame prefixI prefix_length_prefix)
  moreover have "length (p @ bs) \<noteq> 1" using two reading_request(3) [OF assms(1)] by (cases "p = []") auto
  ultimately show ?thesis using two by blast
qed

lemma header_bytes:
  assumes "prefix bs (tcp_frame d)" and "length bs = 2"
  shows "bs = net16 (of_nat (length d))"
  using assms by (auto simp: tcp_frame_def prefix_def append_eq_append_conv2 net16_def Cons_eq_append_conv append_eq_Cons_conv)

lemma reading_recv:
  assumes "reading c p ds evs" and "unat (tr_bytes_read c) < 2 + unat (tr_length c)" and "tcp_recv (tcp_request c) evs = (x, evs')"
  shows "(x = Inl SEAGAIN \<and> reading c p ds evs' \<and> (length evs' < length evs \<or> evs = [] \<and> evs' = [] \<and> ds = []))
    \<or> (\<exists>bs es ds' p'. x = Inr bs \<and> bs \<noteq> [] \<and> ds = es @ ds' \<and> set es \<subseteq> {[]} \<and> reading (tcp_consume bs c) p' ds' evs'
         \<and> length evs' \<le> length evs \<and> evs \<noteq> [])"
proof (cases x)
  case (Inl e)
  note rcv = tcp_recv_healthy(1) [OF _ assms(3)] tcp_recv_healthy(2) [OF _ assms(3) Inl]
  have "ds = []" if "evs = []"
  proof (rule ccontr)
    assume "ds \<noteq> []"
    then obtain d ds' where ds: "ds = d # ds'" by (cases ds) auto
    have "p = concat (map tcp_frame ds)" using assms(1) that by (simp add: reading_def)
    then have p: "p = tcp_frame d @ concat (map tcp_frame ds')" using ds by simp
    then have "p \<noteq> []" by (metis append_is_Nil_conv length_tcp_frame list.size(3) add_is_0 zero_neq_numeral)
    then have "prefix p (tcp_frame d)" "tr_length c = of_nat (length d)" "unat (tr_bytes_read c) = length p"
      using assms(1) ds by (auto simp: reading_def reader_at_def)
    moreover have "length d < 65536" using assms(1) ds by (simp add: reading_def TCP_ICE_BUFFER_SIZE_def)
    ultimately have "length p < 2 + length d" using assms(2) by simp
    then show False using p by simp
  qed
  moreover have "reading c p ds evs'"
    using assms(1) rcv unsplit_blocked [of p ds evs evs'] by (simp add: reading_def)
  moreover have "e = SEAGAIN" "length evs' \<le> length evs" "evs \<noteq> [] \<Longrightarrow> length evs' < length evs"
    using rcv assms(1) by (auto simp: reading_def)
  ultimately show ?thesis using Inl by (cases "evs = []") auto
next
  case (Inr bs)
  have h: "healthy evs" using assms(1) by (simp add: reading_def)
  note rcv = tcp_recv_healthy(1) [OF h assms(3)] tcp_recv_healthy(3) [OF h assms(3) Inr]
  then have evs: "evs \<noteq> []" and bs: "bs = take (tcp_request c) (arrived (take 1 evs))" "arrived (take 1 evs) \<noteq> []"
    and arr: "arrived evs = bs @ arrived evs'" by auto
  have all: "p @ bs @ arrived evs' = concat (map tcp_frame ds)" using assms(1) arr by (simp add: reading_def)
  have sz: "tcp_request c \<noteq> 0" using assms(1,2) by (rule request_positive)
  then have ne: "bs \<noteq> []" using bs by simp
  then obtain d ds' where ds: "ds = d # ds'" using all by (cases ds) auto
  have pre: "prefix (p @ bs) (tcp_frame d)" and l1: "length (p @ bs) \<noteq> 1" and two: "p = [] \<Longrightarrow> length bs = 2"
    using reading_next [OF assms(1) ds bs ne all] by auto
  have "unsplit p ds evs" "prefix (p @ bs) (tcp_frame (hd ds))" "ds \<noteq> []" using assms(1) pre ds by (auto simp: reading_def)
  then have us: "unsplit (p @ bs) ds evs'" using unsplit_advance l1 rcv(2) by blast
  have keep: "tr_pending (tcp_consume bs c)" using assms(1) by (simp add: reading_def tcp_consume_def Let_def)
  have "\<exists>es ds2 p'. ds = es @ ds2 \<and> set es \<subseteq> {[]} \<and> reading (tcp_consume bs c) p' ds2 evs'"
  proof (cases "p = [] \<and> d = []")
    case True
    then have b: "bs = net16 (of_nat (length d))" using pre two header_bytes [of bs d] by simp
    have "reader_at (tcp_consume bs c) [] ds'"
      using consume_header [of c ds d ds'] assms(1) True b ds by (simp add: reading_def)
    moreover have "unsplit [] ds' evs'" using us True b ds unsplit_next [of "[]" ds' evs'] by (simp add: tcp_frame_def)
    ultimately have "reading (tcp_consume bs c) [] ds' evs'"
      using assms(1) True b ds all keep rcv(1) by (simp add: reading_def tcp_frame_def)
    then show ?thesis using True ds by (intro exI [of _ "[[]]"] exI [of _ ds'] exI [of _ "[]"]) simp
  next
    case False
    have "reader_at (tcp_consume bs c) (p @ bs) ds"
    proof (cases "p = []")
      case True
      then have "bs = net16 (of_nat (length d))" using pre two header_bytes [of bs d] by simp
      then show ?thesis using consume_header [of c ds d ds'] assms(1) True False ds by (simp add: reading_def)
    next
      case False
      then show ?thesis using consume_body [of c p ds bs] assms(1) ne pre ds by (simp add: reading_def)
    qed
    then have "reading (tcp_consume bs c) (p @ bs) ds evs'" using us all keep assms(1) rcv(1) by (simp add: reading_def)
    then show ?thesis by (intro exI [of _ "[]"] exI [of _ ds] exI [of _ "p @ bs"]) simp
  qed
  then show ?thesis using Inr ne rcv evs by blast
qed

lemma tcp_read_loop_outcome: "reading c p ds evs \<Longrightarrow> read_outcome ds evs (tcp_read_loop evs c)"
proof (induction evs c arbitrary: p ds rule: tcp_read_loop.induct)
  case (1 evs c)
  show ?case
  proof (cases "unat (tr_bytes_read c) < 2 + unat (tr_length c)")
    case False
    then have fin: "tcp_read_loop evs c = (int (unat (tr_length c)), c\<lparr>tr_pending := False\<rparr>, evs)"
      by (simp add: tcp_read_loop.simps [of evs c] tcp_guard)
    have p: "p \<noteq> []" using False 1(2) by (auto simp: reading_def reader_at_def)
    obtain d ds' where ds: "ds = d # ds'" using 1(2) p by (cases ds) (auto simp: reading_def reader_at_def)
    have len: "unat (tr_length c) = length d" "length d \<le> TCP_ICE_BUFFER_SIZE" using reading_request(2,4) [OF 1(2) p] ds by auto
    have at: "prefix p (tcp_frame d)" "unat (tr_bytes_read c) = length p" "d \<noteq> []" "length (tr_buffer c) = TCP_ICE_BUFFER_SIZE"
      "length (tr_header c) = 2" "take (length p - 2) (tr_buffer c) = drop 2 p"
      using 1(2) p ds by (auto simp: reading_def reader_at_def)
    then have whole: "p = tcp_frame d" using False len
      by (metis length_tcp_frame not_less prefix_length_le prefix_order.antisym_conv2 prefix_length_less)
    have "take (length d) (tr_buffer c) = d" using at(6) whole by (simp add: tcp_frame_def)
    then have "ld (tr_buffer c) 0 (length d) = Some d" using at(4) len(2) by (simp add: ld_in)
    moreover have "reading (tcp_start (c\<lparr>tr_pending := False\<rparr>)) [] ds' evs"
      using 1(2) ds whole unsplit_next [of d ds' evs] at(4,5) by (simp add: reading_def reader_at_def tcp_start_def)
    ultimately show ?thesis unfolding fin read_outcome_def prod.case using ds at(3) len
      by (intro disjI1 exI [of _ "[]"] exI [of _ d] exI [of _ ds']) simp
  next
    case True
    then have go: "uint (tr_bytes_read c) < 2 + uint (tr_length c)" by (simp add: tcp_guard)
    obtain x evs1 where rcv: "tcp_recv (tcp_request c) evs = (x, evs1)" by (metis surj_pair)
    from reading_recv [OF 1(2) True rcv]
    consider (blocked) "x = Inl SEAGAIN" "reading c p ds evs1" "length evs1 < length evs \<or> evs = [] \<and> evs1 = [] \<and> ds = []"
      | (got) bs es ds' p' where "x = Inr bs" "bs \<noteq> []" "ds = es @ ds'" "set es \<subseteq> {[]}" "reading (tcp_consume bs c) p' ds' evs1"
          "length evs1 \<le> length evs" "evs \<noteq> []"
      by blast
    then show ?thesis
    proof cases
      case blocked
      then have res: "tcp_read_loop evs c = (- SEAGAIN, c, evs1)" using go rcv by (simp add: tcp_read_loop.simps [of evs c])
      have "tcp_start c = c" using blocked(2) by (simp add: tcp_start_def reading_def)
      then show ?thesis unfolding res read_outcome_def prod.case using blocked
        by (intro disjI2 exI [of _ "[]"] exI [of _ ds] exI [of _ p]) simp
    next
      case got
      have res: "tcp_read_loop evs c = tcp_read_loop evs1 (tcp_consume bs c)" using go rcv got(1,2) by (simp add: tcp_read_loop.simps [of evs c])
      have "read_outcome ds' evs1 (tcp_read_loop evs1 (tcp_consume bs c))"
        using 1(1) [OF go rcv [symmetric] got(1) got(2) got(5)] .
      then show ?thesis unfolding res using read_outcome_later got(3,4,6,7) by blast
    qed
  qed
qed

text \<open>\<open>n\<close> calls of the reader and the datagrams they give; the caller takes them from the buffer of the context, and
  gives the connection up at its end or at an error.\<close>

primrec tcp_reads :: "nat \<Rightarrow> stream_event list \<Rightarrow> tcp_ice_read_context \<Rightarrow> bytes list option" where
  "tcp_reads 0 evs c = Some []"
| "tcp_reads (Suc n) evs c =
     (case tcp_ice_read evs c of
        (r, c1, evs1) \<Rightarrow>
          if r > 0 then do { d \<leftarrow> ld (tr_buffer c1) 0 (nat r); ds \<leftarrow> tcp_reads n evs1 c1; Some (d # ds) }
          else if r = - SEAGAIN then tcp_reads n evs1 c1
          else Some [])"

lemma filter_empty: "set es \<subseteq> {[]} \<Longrightarrow> filter (\<lambda>d. d \<noteq> []) es = []"
  by (auto simp: filter_empty_conv)

lemma tcp_reads_frames:
  "reading (tcp_start c) p ds evs \<Longrightarrow> length ds + length evs \<le> n \<Longrightarrow> tcp_reads n evs c = Some (filter (\<lambda>d. d \<noteq> []) ds)"
proof (induction n arbitrary: c p ds evs)
  case (Suc n)
  obtain r c1 evs1 where res: "tcp_ice_read evs c = (r, c1, evs1)" by (metis prod_cases3)
  have "read_outcome ds evs (r, c1, evs1)"
    using tcp_read_loop_outcome [OF Suc(2)] res by (simp add: tcp_ice_read_start)
  then consider (got) es d ds' where "ds = es @ d # ds'" "set es \<subseteq> {[]}" "d \<noteq> []" "r = int (length d)" "ld (tr_buffer c1) 0 (length d) = Some d"
      "reading (tcp_start c1) [] ds' evs1" "length evs1 \<le> length evs"
    | (blocked) es ds' p' where "ds = es @ ds'" "set es \<subseteq> {[]}" "r = - SEAGAIN" "reading (tcp_start c1) p' ds' evs1"
      "length evs1 < length evs \<or> evs = [] \<and> evs1 = [] \<and> ds' = []"
    unfolding read_outcome_def by auto
  then show ?case
  proof cases
    case got
    then have "tcp_reads n evs1 c1 = Some (filter (\<lambda>d. d \<noteq> []) ds')" using Suc by (intro Suc(1)) auto
    then show ?thesis using got res filter_empty [of es] by simp
  next
    case blocked
    then have "tcp_reads n evs1 c1 = Some (filter (\<lambda>d. d \<noteq> []) ds')" using Suc by (intro Suc(1)) auto
    then show ?thesis using blocked res filter_empty [of es] by (simp add: SEAGAIN_def)
  qed
qed (simp add: reading_def)

lemma reading_fresh:
  assumes "small ds" and "healthy evs" and "arrived evs = concat (map tcp_frame ds)" and "unsplit [] ds evs"
  shows "reading (tcp_start zero_read_context) [] ds evs"
  using assms by (simp add: reading_def reader_at_def tcp_start_def zero_read_context_def)

subsection \<open>Round trip\<close>

lemma tcp_writes_small: "tcp_writes ops c = (out, ds, c') \<Longrightarrow> small ds"
proof (induction ops c arbitrary: out ds c' rule: tcp_writes.induct)
  case (2 data sends ops c)
  obtain r c1 o1 rest where w: "tcp_ice_write sends data c = (r, c1, o1, rest)" by (metis prod_cases4)
  obtain o2 ds2 where ws: "tcp_writes ops c1 = (o2, ds2, c')"
    "ds = (case data of Some d \<Rightarrow> if r = - SEAGAIN \<or> r = - SEMSGSIZE then [] else [d] | None \<Rightarrow> []) @ ds2"
    using 2(2) w by (auto split: prod.split_asm)
  have "small ds2" using 2(1) [OF w [symmetric] refl refl refl ws(1)] .
  then show ?case using ws(2) w by (auto simp: tcp_ice_write_def split: option.splits if_split_asm)
qed (simp add: small_def)

text \<open>The condition on the cuts, over the indices that matter.\<close>

lemma unsplit_check:
  "unsplit p ds evs \<longleftrightarrow> list_all (\<lambda>i. list_all (\<lambda>j.
     length p + length (arrived (take i evs)) \<noteq> length (concat (map tcp_frame (take j ds))) + 1) [0..<Suc (length ds)]) [0..<Suc (length evs)]"
  (is "?l \<longleftrightarrow> ?r")
proof
  assume r: ?r
  have "length p + length (arrived (take i evs)) \<noteq> length (concat (map tcp_frame (take j ds))) + 1" for i j
  proof -
    have "min i (length evs) \<in> set [0..<Suc (length evs)]" "min j (length ds) \<in> set [0..<Suc (length ds)]" by auto
    then have "length p + length (arrived (take (min i (length evs)) evs)) \<noteq> length (concat (map tcp_frame (take (min j (length ds)) ds))) + 1"
      using r unfolding list_all_iff by blast
    moreover have "take (min i (length evs)) evs = take i evs" "take (min j (length ds)) ds = take j ds" by (auto simp: min_def)
    ultimately show ?thesis by simp
  qed
  then show ?l by (simp add: unsplit_def)
qed (simp add: unsplit_def list_all_iff)

text \<open>(C40) ICE over TCP: whatever parts of a datagram \<^verbatim>\<open>send\<close> takes at a time, with a pending write continued later, and however
  the bytes are cut on their way, the reader gets exactly the datagrams that the writer accepted, in order and
  without the empty ones, once all is written and no header is cut in two; and it gets them in at most as many calls as there are datagrams and
  segments.\<close>

theorem tcp_roundtrip:
  assumes "tcp_writes ops zero_write_context = (out, ds, c')" and "\<not> tw_pending c'"
    and "healthy evs" and "arrived evs = out" and "unsplit [] ds evs" and "length ds + length evs \<le> n"
  shows "tcp_reads n evs zero_read_context = Some (filter (\<lambda>d. d \<noteq> []) ds)"
proof -
  have "writer_ok zero_write_context" "tcp_owed zero_write_context = []" by (auto simp: writer_ok_def zero_write_context_def tcp_owed_def)
  then have "concat (map tcp_frame ds) = out" using tcp_writes_owed [OF _ assms(1)] assms(2) by (simp add: tcp_owed_def)
  then have "reading (tcp_start zero_read_context) [] ds evs"
    using reading_fresh [OF tcp_writes_small [OF assms(1)] assms(3)] assms(4,5) by simp
  then show ?thesis using assms(6) by (rule tcp_reads_frames)
qed

definition demo_writes :: "(bytes option \<times> send_result list) list" where
  "demo_writes = [(Some [1, 2, 3], [Send_takes 1, Send_fails]), (Some [9], []), (None, [Send_takes 5, Send_takes 9]),
     (Some [], [Send_takes 2]), (Some [7], [Send_takes 3, Send_takes 1])]"

definition demo_stream :: "stream_event list" where
  "demo_stream = [Segment [0, 3, 1], Stream_blocked, Segment [2, 3, 0, 0, 0, 1], Segment [7]]"

theorem tcp_roundtrip_witness: "tcp_reads 7 demo_stream zero_read_context = Some [[1, 2, 3], [7]]"
proof -
  have w: "\<exists>c'. tcp_writes demo_writes zero_write_context = ([0, 3, 1, 2, 3, 0, 0, 0, 1, 7], [[1, 2, 3], [], [7]], c') \<and> \<not> tw_pending c'"
    by (simp add: demo_writes_def zero_write_context_def tcp_ice_write_def tcp_write_loop.simps tcp_offer_def SEAGAIN_def SEMSGSIZE_def
        TCP_ICE_BUFFER_SIZE_def mem16_htons net16_def buf_write_def Let_def)
  have "unsplit [] [[1, 2, 3], [], [7]] demo_stream" unfolding unsplit_check by code_simp
  moreover have "healthy demo_stream" "arrived demo_stream = [0, 3, 1, 2, 3, 0, 0, 0, 1, 7]"
    by (simp_all add: healthy_def demo_stream_def)
  ultimately show ?thesis using w tcp_roundtrip [of demo_writes _ "[[1, 2, 3], [], [7]]" _ demo_stream 7]
    by (auto simp: demo_stream_def)
qed

subsection \<open>Where the framing breaks\<close>

lemma split_header_forgotten:
  assumes "\<not> tr_pending c"
  shows "\<exists>h. tcp_ice_read (Segment [x] # evs) c = tcp_ice_read evs (c\<lparr>tr_header := h\<rparr>)"
proof -
  let ?c = "c\<lparr>tr_length := 0, tr_bytes_read := 0, tr_pending := True\<rparr>"
  have "tcp_recv (tcp_request ?c) (Segment [x] # evs) = (Inr [x], evs)" by (simp add: tcp_recv_def tcp_request_def)
  then have "tcp_read_loop (Segment [x] # evs) ?c = tcp_read_loop evs (tcp_consume [x] ?c)"
    by (simp add: tcp_read_loop.simps [of "Segment [x] # evs" ?c])
  moreover have "tcp_consume [x] ?c = ?c\<lparr>tr_header := buf_write (tr_header c) 0 [x]\<rparr>" by (simp add: tcp_consume_def)
  moreover have "?c\<lparr>tr_header := h\<rparr> = c\<lparr>tr_header := h, tr_length := 0, tr_bytes_read := 0, tr_pending := True\<rparr>" for h by (cases c) simp
  ultimately show ?thesis using assms by (auto simp: tcp_ice_read_def intro!: exI [of _ "buf_write (tr_header c) 0 [x]"])
qed

text \<open>The rest of a datagram of any length, in one segment.\<close>

lemma long_frame_loop:
  assumes "2 \<le> unat (tr_bytes_read c)" and "unat (tr_bytes_read c) + length rest = 2 + unat (tr_length c)" and "2 + unat (tr_length c) < 65536"
    and "length (tr_buffer c) = TCP_ICE_BUFFER_SIZE" and "tr_length c \<noteq> 0"
  shows "\<exists>c'. tcp_read_loop (if rest = [] then [] else [Segment rest]) c = (int (unat (tr_length c)), c', []) \<and> length (tr_buffer c') = TCP_ICE_BUFFER_SIZE"
  using assms
proof (induction "length rest" arbitrary: rest c rule: less_induct)
  case less
  show ?case
  proof (cases "rest = []")
    case True
    then have "\<not> uint (tr_bytes_read c) < 2 + uint (tr_length c)" using less(3) by (simp add: tcp_guard)
    then show ?thesis using True less(5) by (simp add: tcp_read_loop.simps [of "[]" c])
  next
    case False
    define n where "n = tcp_request c"
    define bs where "bs = take n rest"
    have go: "uint (tr_bytes_read c) < 2 + uint (tr_length c)" using False less(3) by (cases rest) (simp_all add: tcp_guard)
    have n: "0 < n" "n \<le> unat (tr_length c) - (unat (tr_bytes_read c) - 2)"
      "unat (tr_bytes_read c) < 2 + TCP_ICE_BUFFER_SIZE \<Longrightarrow> unat (tr_bytes_read c) - 2 + n \<le> TCP_ICE_BUFFER_SIZE"
      using less(2) go by (auto simp: n_def tcp_request_def Let_def TCP_BUFFER_SIZE_def TCP_ICE_BUFFER_SIZE_def tcp_guard)
    have bs: "bs \<noteq> []" "length bs \<le> n" "length bs + length (drop n rest) = length rest" using False n(1) by (auto simp: bs_def)
    have rcv: "tcp_recv n [Segment rest] = (Inr bs, if drop n rest = [] then [] else [Segment (drop n rest)])"
      using False by (simp add: tcp_recv_def bs_def)
    have adv: "unat (tr_bytes_read c + of_nat (length bs)) = unat (tr_bytes_read c) + length bs"
      using less(3,4) bs(3) by (subst unat_advance) auto
    moreover have "1 \<le> length bs" using bs(1) by (cases bs) auto
    ultimately have "unat (tr_bytes_read c + of_nat (length bs)) \<noteq> unat (2 :: u16)" using less(2) by (simp del: One_nat_def)
    then have "tr_bytes_read c + of_nat (length bs) \<noteq> 2" by metis
    then have con: "tr_bytes_read (tcp_consume bs c) = tr_bytes_read c + of_nat (length bs)" "tr_length (tcp_consume bs c) = tr_length c"
      "length (tr_buffer (tcp_consume bs c)) = TCP_ICE_BUFFER_SIZE"
      using less(2,5,6) n(3) bs(2) by (auto simp: tcp_consume_def Let_def)
    have step: "tcp_read_loop [Segment rest] c = tcp_read_loop (if drop n rest = [] then [] else [Segment (drop n rest)]) (tcp_consume bs c)"
      using go rcv bs(1) by (simp add: tcp_read_loop.simps [of "[Segment rest]" c] n_def)
    have "length (drop n rest) < length rest" using False n(1) by simp
    from less(1) [OF this, of "tcp_consume bs c"] show ?thesis
      using con adv less(2-6) bs(3) False step by simp
  qed
qed

lemma long_frame_read:
  assumes "d \<noteq> []" and "length d \<le> 65533"
  shows "\<exists>c'. tcp_ice_read [Segment (tcp_frame d)] zero_read_context = (int (length d), c', []) \<and> length (tr_buffer c') = TCP_ICE_BUFFER_SIZE"
proof -
  let ?c = "zero_read_context\<lparr>tr_length := 0, tr_bytes_read := 0, tr_pending := True\<rparr>"
  let ?h = "net16 (of_nat (length d))" and ?c1 = "tcp_consume (net16 (of_nat (length d))) (zero_read_context\<lparr>tr_length := 0, tr_bytes_read := 0, tr_pending := True\<rparr>)"
  have n: "of_nat (length d) \<noteq> (0 :: u16)" using assms by (simp flip: unat_eq_0)
  have c1: "tr_bytes_read ?c1 = 2" "tr_length ?c1 = of_nat (length d)" "length (tr_buffer ?c1) = TCP_ICE_BUFFER_SIZE"
    using n by (auto simp: tcp_consume_def zero_read_context_def buf_write_def)
  have "tcp_recv (tcp_request ?c) [Segment (tcp_frame d)] = (Inr ?h, [Segment d])"
    using assms(1) by (simp add: tcp_recv_def tcp_request_def tcp_frame_def)
  then have step: "tcp_read_loop [Segment (tcp_frame d)] ?c = tcp_read_loop [Segment d] ?c1"
    by (simp add: tcp_read_loop.simps [of "[Segment (tcp_frame d)]" ?c])
  have "\<exists>c'. tcp_read_loop (if d = [] then [] else [Segment d]) ?c1 = (int (unat (tr_length ?c1)), c', []) \<and> length (tr_buffer c') = TCP_ICE_BUFFER_SIZE"
    by (rule long_frame_loop) (use c1 n assms in simp_all)
  moreover have "int (unat (tr_length ?c1)) = int (length d)" unfolding c1(2) using assms(2) by (subst unat_of_nat_u16) auto
  ultimately show ?thesis using assms(1) step by (simp add: tcp_ice_read_def zero_read_context_def)
qed

text \<open>The framing of ICE over TCP breaks in two ways.  When a segment ends after the first byte of a header, that byte is
  forgotten: the reader goes on as if the stream began after it.  And a datagram longer than the buffer is reported with its
  full length although only what fits was stored, so that whoever takes the datagram from the buffer reads past its end.\<close>

theorem tcp_framing_breaks:
  "(\<not> tr_pending c \<longrightarrow> (\<exists>h. tcp_ice_read (Segment [x] # evs) c = tcp_ice_read evs (c\<lparr>tr_header := h\<rparr>)))
   \<and> (TCP_ICE_BUFFER_SIZE < length d \<and> length d \<le> 65533 \<longrightarrow> tcp_reads (Suc n) [Segment (tcp_frame d)] zero_read_context = None)"
proof (intro conjI impI)
  assume "\<not> tr_pending c"
  then show "\<exists>h. tcp_ice_read (Segment [x] # evs) c = tcp_ice_read evs (c\<lparr>tr_header := h\<rparr>)" by (rule split_header_forgotten)
next
  assume d: "TCP_ICE_BUFFER_SIZE < length d \<and> length d \<le> 65533"
  then obtain c' where "tcp_ice_read [Segment (tcp_frame d)] zero_read_context = (int (length d), c', [])" "length (tr_buffer c') = TCP_ICE_BUFFER_SIZE"
    using long_frame_read [of d] by (cases "d = []") auto
  then show "tcp_reads (Suc n) [Segment (tcp_frame d)] zero_read_context = None" using d by (auto simp: ld_def)
qed

theorem tcp_framing_breaks_witness:
  "(\<exists>h. tcp_ice_read [Segment [0], Segment [2, 5, 6]] zero_read_context = tcp_ice_read [Segment [2, 5, 6]] (zero_read_context\<lparr>tr_header := h\<rparr>))
   \<and> tcp_reads 1 [Segment (tcp_frame (replicate 2049 0))] zero_read_context = None"
  using tcp_framing_breaks [of zero_read_context 0 "[Segment [2, 5, 6]]" "replicate 2049 0" 0]
  by (simp add: zero_read_context_def TCP_ICE_BUFFER_SIZE_def del: tcp_reads.simps)

end
