(* ===== verification/Conn.thy ===== *)
theory Conn
  imports Agent_Api Tcp
begin

text \<open>
  \<^verbatim>\<open>libjuice/src/conn.h\<close> and the data of the connection backends \<^verbatim>\<open>conn_poll.c\<close>, \<^verbatim>\<open>conn_mux.c\<close>,
  \<^verbatim>\<open>conn_thread.c\<close>: the agents with their connections, the registries, and the world they act on.

  A pointer to an agent or a registry is an address in one of two heaps; \<open>None\<close> as a result is an access through a null or
  dangling pointer, outside an array, or a failed \<^verbatim>\<open>assert\<close>.  A function is what one thread does while it holds the mutexes of
  the mode and of the registry.
\<close>

subsection \<open>Data\<close>

definition CONN_BUFFER_SIZE :: nat where "CONN_BUFFER_SIZE = 4096"
definition INITIAL_REGISTRY_SIZE :: nat where "INITIAL_REGISTRY_SIZE = 16"
definition INITIAL_MAP_SIZE :: nat where "INITIAL_MAP_SIZE = 16"

datatype conn_state = CONN_STATE_NEW | CONN_STATE_READY | CONN_STATE_FINISHED

record poll_conn =
  pc_registry :: nat
  pc_state :: conn_state
  pc_udp_sock :: int
  pc_tcp_sock :: int
  pc_write :: tcp_ice_write_context
  pc_read :: tcp_ice_read_context
  pc_tcp_dst :: addr_record
  pc_tcp_state :: tcp_state
  pc_send_ds :: int
  pc_next_timestamp :: int

record mux_conn =
  mc_registry :: nat
  mc_next_timestamp :: int
  mc_finished :: bool

record thread_conn =
  tc_sock :: int
  tc_send_ds :: int
  tc_next_timestamp :: int
  tc_stopped :: bool

text \<open>The three \<^verbatim>\<open>conn_impl_t\<close>.\<close>

datatype conn_impl = Poll_conn poll_conn | Mux_conn mux_conn | Thread_conn thread_conn

text \<open>The map of the multiplexed backend from addresses to agents.\<close>

datatype map_entry_type = MAP_ENTRY_TYPE_EMPTY | MAP_ENTRY_TYPE_DELETED | MAP_ENTRY_TYPE_FULL

record map_entry =
  me_type :: map_entry_type
  me_agent :: "nat option"
  me_record :: addr_record

definition zero_map_entry :: map_entry where
  "zero_map_entry = \<lparr>me_type = MAP_ENTRY_TYPE_EMPTY, me_agent = None, me_record = zero_record\<rparr>"

text \<open>The two \<^verbatim>\<open>registry_impl_t\<close>; of the callback for incoming requests only whether it is set matters.\<close>

record poll_registry =
  rp_interrupt_pipe_out :: int
  rp_interrupt_pipe_in :: int

record mux_registry =
  mr_index :: int
  mr_port :: u16
  mr_sock :: int
  mr_send_ds :: int
  mr_map :: "map_entry list"
  mr_map_count :: int
  mr_cb_mux_incoming :: bool

datatype registry_impl = Poll_registry poll_registry | Mux_registry mux_registry

record conn_registry =
  cr_impl :: "registry_impl option"
  cr_agents :: "nat option list"
  cr_agents_count :: int

text \<open>An agent with the fields that belong to its connection.\<close>

record conn_agent =
  ca_agent :: juice_agent
  ca_registry :: "nat option"
  ca_index :: int
  ca_impl :: "conn_impl option"

subsection \<open>The world\<close>

datatype conn_output =
  Out_close int
| Out_sendto int bytes addr_record
| Out_stream int bytes
| Out_pipe int
| Out_join
| Out_incoming bytes bytes bytes u16

text \<open>The results of system calls, by the number of the call: \<^verbatim>\<open>malloc\<close>, \<^verbatim>\<open>udp_create_socket\<close>, the three calls of
  \<^verbatim>\<open>tcp_create_socket\<close>, \<^verbatim>\<open>pipe\<close>, \<^verbatim>\<open>thread_init\<close>, the clock, \<^verbatim>\<open>sendto\<close> (the size or the negated error number), \<^verbatim>\<open>send\<close>, and by
  argument: the name of a socket, a datagram to oneself, name services.\<close>

record conn_env =
  ce_malloc :: "nat \<Rightarrow> nat option"
  ce_mallocs :: nat
  ce_socket :: "nat \<Rightarrow> udp_socket_config \<Rightarrow> int"
  ce_sockets :: nat
  ce_tcp :: "nat \<Rightarrow> int \<times> bool \<times> bool"
  ce_tcps :: nat
  ce_pipe :: "nat \<Rightarrow> (int \<times> int) option"
  ce_thread :: "nat \<Rightarrow> int"
  ce_threads :: nat
  ce_clock :: "nat \<Rightarrow> int"
  ce_ticks :: nat
  ce_send :: "nat \<Rightarrow> int"
  ce_stream :: "nat \<Rightarrow> send_result list"
  ce_sends :: nat
  ce_name :: "int \<Rightarrow> (sockaddr \<times> nat) option"
  ce_self :: "int \<Rightarrow> addr_record \<Rightarrow> int"
  ce_diffserv :: "int \<Rightarrow> bool \<times> bool"
  ce_ifaddrs :: "ifaddr list option"
  ce_getnameinfo :: "sockaddr \<Rightarrow> bytes option"
  ce_out :: "conn_output list"

record conn_world =
  cw_agents :: "nat \<Rightarrow> conn_agent option"
  cw_registries :: "nat \<Rightarrow> conn_registry option"
  cw_entry :: "juice_concurrency_mode \<Rightarrow> nat option"
  cw_mux :: "nat option list"
  cw_mux_count :: int
  cw_env :: conn_env

definition conn_emit :: "conn_output \<Rightarrow> conn_world \<Rightarrow> conn_world" where
  "conn_emit x w = w\<lparr>cw_env := (cw_env w)\<lparr>ce_out := ce_out (cw_env w) @ [x]\<rparr>\<rparr>"

definition conn_now :: "conn_world \<Rightarrow> int \<times> conn_world" where
  "conn_now w = (ce_clock (cw_env w) (ce_ticks (cw_env w)), w\<lparr>cw_env := (cw_env w)\<lparr>ce_ticks := Suc (ce_ticks (cw_env w))\<rparr>\<rparr>)"

definition conn_malloc :: "conn_world \<Rightarrow> nat option \<times> conn_world" where
  "conn_malloc w =
     (ce_malloc (cw_env w) (ce_mallocs (cw_env w)), w\<lparr>cw_env := (cw_env w)\<lparr>ce_mallocs := Suc (ce_mallocs (cw_env w))\<rparr>\<rparr>)"

definition conn_socket :: "udp_socket_config \<Rightarrow> conn_world \<Rightarrow> int \<times> conn_world" where
  "conn_socket config w =
     (ce_socket (cw_env w) (ce_sockets (cw_env w)) config, w\<lparr>cw_env := (cw_env w)\<lparr>ce_sockets := Suc (ce_sockets (cw_env w))\<rparr>\<rparr>)"

definition conn_thread_start :: "conn_world \<Rightarrow> int \<times> conn_world" where
  "conn_thread_start w =
     (ce_thread (cw_env w) (ce_threads (cw_env w)), w\<lparr>cw_env := (cw_env w)\<lparr>ce_threads := Suc (ce_threads (cw_env w))\<rparr>\<rparr>)"

definition conn_sendto :: "int \<Rightarrow> bytes \<Rightarrow> addr_record \<Rightarrow> conn_world \<Rightarrow> int \<times> conn_world" where
  "conn_sendto sock data dst w =
     (ce_send (cw_env w) (ce_sends (cw_env w)),
      conn_emit (Out_sendto sock data dst) (w\<lparr>cw_env := (cw_env w)\<lparr>ce_sends := Suc (ce_sends (cw_env w))\<rparr>\<rparr>))"

text \<open>A datagram to the own socket; the result is negative when it could not be sent.\<close>

definition conn_sendto_self :: "int \<Rightarrow> conn_world \<Rightarrow> int \<times> conn_world" where
  "conn_sendto_self sock w =
     (let (ret, dsts) = udp_sendto_self (ce_name (cw_env w) sock) (ce_self (cw_env w) sock)
      in (ret, fold (\<lambda>dst. conn_emit (Out_sendto sock [] dst)) dsts w))"

definition conn_diffserv :: "int \<Rightarrow> conn_world \<Rightarrow> int" where
  "conn_diffserv sock w =
     (let (ip_tos, ipv6_tclass) = ce_diffserv (cw_env w) sock in udp_set_diffserv (ce_name (cw_env w) sock) ip_tos ipv6_tclass)"

definition upd_agent :: "nat \<Rightarrow> (conn_agent \<Rightarrow> conn_agent) \<Rightarrow> conn_world \<Rightarrow> conn_world" where
  "upd_agent p f w = w\<lparr>cw_agents := (cw_agents w)(p := map_option f (cw_agents w p))\<rparr>"

definition upd_registry :: "nat \<Rightarrow> (conn_registry \<Rightarrow> conn_registry) \<Rightarrow> conn_world \<Rightarrow> conn_world" where
  "upd_registry r f w = w\<lparr>cw_registries := (cw_registries w)(r := map_option f (cw_registries w r))\<rparr>"

text \<open>The assignment to \<^verbatim>\<open>agent->conn_impl\<close>; the agent itself tests that pointer.\<close>

definition set_impl :: "conn_impl option \<Rightarrow> conn_agent \<Rightarrow> conn_agent" where
  "set_impl c ag = ag\<lparr>ca_impl := c, ca_agent := (ca_agent ag)\<lparr>ag_conn_impl := c \<noteq> None\<rparr>\<rparr>"

text \<open>The implementation behind a pointer, with the type the backend expects there.\<close>

definition poll_conn_of :: "conn_world \<Rightarrow> nat \<Rightarrow> poll_conn option" where
  "poll_conn_of w p = do { ag \<leftarrow> cw_agents w p; c \<leftarrow> ca_impl ag; case c of Poll_conn pc \<Rightarrow> Some pc | _ \<Rightarrow> None }"

definition mux_conn_of :: "conn_world \<Rightarrow> nat \<Rightarrow> mux_conn option" where
  "mux_conn_of w p = do { ag \<leftarrow> cw_agents w p; c \<leftarrow> ca_impl ag; case c of Mux_conn mc \<Rightarrow> Some mc | _ \<Rightarrow> None }"

definition thread_conn_of :: "conn_world \<Rightarrow> nat \<Rightarrow> thread_conn option" where
  "thread_conn_of w p = do { ag \<leftarrow> cw_agents w p; c \<leftarrow> ca_impl ag; case c of Thread_conn tc \<Rightarrow> Some tc | _ \<Rightarrow> None }"

definition mux_registry_of :: "conn_world \<Rightarrow> nat \<Rightarrow> mux_registry option" where
  "mux_registry_of w r = do { reg \<leftarrow> cw_registries w r; i \<leftarrow> cr_impl reg; case i of Mux_registry mr \<Rightarrow> Some mr | _ \<Rightarrow> None }"

definition upd_poll :: "nat \<Rightarrow> (poll_conn \<Rightarrow> poll_conn) \<Rightarrow> conn_world \<Rightarrow> conn_world" where
  "upd_poll p f w = upd_agent p (\<lambda>ag. case ca_impl ag of Some (Poll_conn c) \<Rightarrow> ag\<lparr>ca_impl := Some (Poll_conn (f c))\<rparr> | _ \<Rightarrow> ag) w"

definition upd_mux :: "nat \<Rightarrow> (mux_conn \<Rightarrow> mux_conn) \<Rightarrow> conn_world \<Rightarrow> conn_world" where
  "upd_mux p f w = upd_agent p (\<lambda>ag. case ca_impl ag of Some (Mux_conn c) \<Rightarrow> ag\<lparr>ca_impl := Some (Mux_conn (f c))\<rparr> | _ \<Rightarrow> ag) w"

definition upd_thread :: "nat \<Rightarrow> (thread_conn \<Rightarrow> thread_conn) \<Rightarrow> conn_world \<Rightarrow> conn_world" where
  "upd_thread p f w = upd_agent p (\<lambda>ag. case ca_impl ag of Some (Thread_conn c) \<Rightarrow> ag\<lparr>ca_impl := Some (Thread_conn (f c))\<rparr> | _ \<Rightarrow> ag) w"

definition upd_mux_registry :: "nat \<Rightarrow> (mux_registry \<Rightarrow> mux_registry) \<Rightarrow> conn_world \<Rightarrow> conn_world" where
  "upd_mux_registry r f w =
     upd_registry r (\<lambda>reg. case cr_impl reg of Some (Mux_registry m) \<Rightarrow> reg\<lparr>cr_impl := Some (Mux_registry (f m))\<rparr> | _ \<Rightarrow> reg) w"

subsection \<open>Receiving\<close>

text \<open>The next datagram that is not empty; the three backends have the same loop.\<close>

function conn_recv :: "recvfrom_result list \<Rightarrow> udp_received \<times> recvfrom_result list" where
  "conn_recv rs =
     (case udp_recvfrom CONN_BUFFER_SIZE rs of
        (Received data src, rs') \<Rightarrow> if data = [] then conn_recv rs' else (Received data (unmap_record src), rs')
      | other \<Rightarrow> other)"
  by pat_completeness auto
termination by (relation "measure length") (auto dest: udp_recvfrom_shorter [OF sym])

declare conn_recv.simps [simp del]

end
