(* ===== verification/Conn_Mux.thy ===== *)
theory Conn_Mux
  imports Conn
begin

text \<open>
  \<^verbatim>\<open>libjuice/src/conn_mux.c\<close>: many agents on one socket.  Datagrams go to the agent that their source address is mapped to,
  or that a STUN message in them names.
\<close>

subsection \<open>The registries\<close>

fun conn_mux_get_registry :: "conn_world \<Rightarrow> udp_socket_config \<Rightarrow> nat option list \<Rightarrow> nat option option" where
  "conn_mux_get_registry w config [] = Some None"
| "conn_mux_get_registry w config (None # rs) = conn_mux_get_registry w config rs"
| "conn_mux_get_registry w config (Some r # rs) =
     do { impl \<leftarrow> mux_registry_of w r;
          if mr_port impl \<ge> port_begin config \<and> (port_end config = 0 \<or> mr_port impl \<le> port_end config) then Some (Some r)
          else conn_mux_get_registry w config rs }"

text \<open>The first free slot, with the array doubled when there is none; \<open>None\<close> when the memory for that is missing.
  \<^verbatim>\<open>conn_create\<close> does the same to the array of agents.\<close>

definition free_slot :: "nat option list \<Rightarrow> nat \<Rightarrow> conn_world \<Rightarrow> (nat \<times> nat option list) option \<times> conn_world" where
  "free_slot slots new_size w =
     (let i = length (takeWhile (\<lambda>s. s \<noteq> None) slots) in
      if i < length slots then (Some (i, slots), w)
      else let (p, w1) = conn_malloc w
           in if p = None then (None, w1) else (Some (i, slots @ replicate (new_size - i) None), w1))"

definition conn_mux_add_registry :: "nat \<Rightarrow> conn_world \<Rightarrow> int \<times> conn_world" where
  "conn_mux_add_registry r w =
     (let n = length (cw_mux w) in
      case free_slot (cw_mux w) (if n * 2 = 0 then 1 else n * 2) w of
        (None, w1) \<Rightarrow> (-1, w1)
      | (Some (i, slots), w1) \<Rightarrow>
          (0, upd_mux_registry r (\<lambda>m. m\<lparr>mr_index := int i\<rparr>)
                (w1\<lparr>cw_mux := slots[i := Some r], cw_mux_count := cw_mux_count w1 + 1\<rparr>)))"

definition is_ready :: "conn_world \<Rightarrow> nat option \<Rightarrow> bool option" where
  "is_ready w agent =
     (case agent of
        None \<Rightarrow> Some False
      | Some p \<Rightarrow>
          do { ag \<leftarrow> cw_agents w p;
               case ca_impl ag of
                 None \<Rightarrow> Some False
               | Some (Mux_conn c) \<Rightarrow> Some (\<not> mc_finished c)
               | Some _ \<Rightarrow> None })"

subsection \<open>The map\<close>

definition map_stops :: "addr_record \<Rightarrow> bool \<Rightarrow> map_entry \<Rightarrow> bool" where
  "map_stops record allow_deleted e \<longleftrightarrow>
     me_type e = MAP_ENTRY_TYPE_EMPTY \<or> addr_record_is_equal (me_record e) record True
     \<or> (me_type e = MAP_ENTRY_TYPE_DELETED \<and> allow_deleted)"

text \<open>\<open>Some None\<close> is the \<^verbatim>\<open>NULL\<close> of a full map, \<open>None\<close> the remainder of a division by zero.\<close>

definition find_map_entry :: "mux_registry \<Rightarrow> addr_record \<Rightarrow> bool \<Rightarrow> nat option option" where
  "find_map_entry impl record allow_deleted =
     (if mr_map impl = [] then None
      else let key = unat (addr_record_hash record False) mod length (mr_map impl)
           in find_entry_loop (mr_map impl) (map_stops record allow_deleted) key key)"

text \<open>The agent an address is mapped to, as \<^verbatim>\<open>lookup_agent\<close> looks it up.\<close>

definition mapped_agent :: "mux_registry \<Rightarrow> addr_record \<Rightarrow> nat option option" where
  "mapped_agent impl src =
     do { pos \<leftarrow> find_map_entry impl src False;
          Some (case pos of
                  None \<Rightarrow> None
                | Some i \<Rightarrow> if me_type (mr_map impl ! i) = MAP_ENTRY_TYPE_FULL then me_agent (mr_map impl ! i) else None) }"

text \<open>\<open>ins\<close> inserts; \<open>memory\<close> is whether \<^verbatim>\<open>calloc\<close> succeeds.\<close>

definition grow_map :: "(addr_record \<Rightarrow> nat option \<Rightarrow> mux_registry \<Rightarrow> mux_registry option) \<Rightarrow> bool \<Rightarrow> nat \<Rightarrow> mux_registry \<Rightarrow> mux_registry option" where
  "grow_map ins memory new_size impl =
     (if new_size \<le> length (mr_map impl) then Some impl
      else if \<not> memory then Some impl
      else let old_map = mr_map impl
           in each [0..<length old_map]
                (\<lambda>i m. if me_type (old_map ! i) = MAP_ENTRY_TYPE_FULL then ins (me_record (old_map ! i)) (me_agent (old_map ! i)) m else Some m)
                (impl\<lparr>mr_map := replicate new_size zero_map_entry, mr_map_count := 0\<rparr>))"

text \<open>The code calls itself again after growing the map; the first argument bounds the depth of these calls.\<close>

primrec insert_map_entry :: "nat \<Rightarrow> bool \<Rightarrow> addr_record \<Rightarrow> nat option \<Rightarrow> mux_registry \<Rightarrow> mux_registry option" where
  "insert_map_entry 0 memory record agent impl = None"
| "insert_map_entry (Suc depth) memory record agent impl =
     do { pos \<leftarrow> find_map_entry impl record True;
          let grow = do { impl1 \<leftarrow> grow_map (insert_map_entry depth memory) memory (length (mr_map impl) * 2) impl;
                          insert_map_entry depth memory record agent impl1 };
          case pos of
            None \<Rightarrow> grow
          | Some i \<Rightarrow>
              let full = (me_type (mr_map impl ! i) = MAP_ENTRY_TYPE_FULL) in
              if \<not> full \<and> mr_map_count impl * 2 \<ge> int (length (mr_map impl)) then grow
              else Some (impl\<lparr>mr_map_count := (if full then mr_map_count impl else mr_map_count impl + 1),
                     mr_map := (mr_map impl)[i := \<lparr>me_type = MAP_ENTRY_TYPE_FULL, me_agent = agent, me_record = record\<rparr>]\<rparr>) }"

text \<open>The \<^verbatim>\<open>assert\<close> on the count is a \<open>None\<close>.\<close>

definition owned_by :: "nat \<Rightarrow> map_entry \<Rightarrow> bool" where
  "owned_by p e \<longleftrightarrow> me_type e = MAP_ENTRY_TYPE_FULL \<and> me_agent e = Some p"

definition remove_map_entries :: "nat \<Rightarrow> mux_registry \<Rightarrow> mux_registry option" where
  "remove_map_entries p impl =
     (let cnt = int (length (filter (owned_by p) (mr_map impl))) in
      if mr_map_count impl < cnt then None
      else Some (impl\<lparr>mr_map := map (\<lambda>e. if owned_by p e then e\<lparr>me_type := MAP_ENTRY_TYPE_DELETED, me_agent := None\<rparr> else e) (mr_map impl),
                      mr_map_count := mr_map_count impl - cnt\<rparr>))"

subsection \<open>Registries come and go\<close>

definition conn_mux_registry_init :: "nat \<Rightarrow> udp_socket_config \<Rightarrow> conn_world \<Rightarrow> (int \<times> conn_world) option" where
  "conn_mux_registry_init r config w =
     (let (p, w1) = conn_malloc w in
      if p = None then Some (-1, w1)
      else let (q, w2) = conn_malloc w1 in
           if q = None then Some (-1, w2)
           else let (sock, w3) = conn_socket config w2 in
                if sock = INVALID_SOCKET then Some (-1, w3)
                else let impl = \<lparr>mr_index = 0, mr_port = udp_get_port (ce_name (cw_env w3) sock), mr_sock = sock, mr_send_ds = 0,
                                 mr_map = replicate INITIAL_MAP_SIZE zero_map_entry, mr_map_count = 0, mr_cb_mux_incoming = False\<rparr>;
                         (ret, w4) = conn_thread_start (upd_registry r (\<lambda>reg. reg\<lparr>cr_impl := Some (Mux_registry impl)\<rparr>) w3)
                     in if ret \<noteq> 0
                        then Some (-1, conn_emit (Out_close sock) (upd_registry r (\<lambda>reg. reg\<lparr>cr_impl := None\<rparr>) w4))
                        else let (added, w5) = conn_mux_add_registry r w4
                             in if added \<noteq> 0 then Some (-1, upd_registry r (\<lambda>reg. reg\<lparr>cr_impl := None\<rparr>) w5)
                                else Some (0, w5))"

definition conn_mux_registry_cleanup :: "nat \<Rightarrow> conn_world \<Rightarrow> conn_world option" where
  "conn_mux_registry_cleanup r w =
     do { impl \<leftarrow> mux_registry_of w r;
          let w1 = conn_emit Out_join w;
          w2 \<leftarrow> (if mr_index impl > -1
                  then if nat (mr_index impl) < length (cw_mux w1) \<and> cw_mux w1 ! nat (mr_index impl) = Some r
                       then Some (w1\<lparr>cw_mux := (cw_mux w1)[nat (mr_index impl) := None]\<rparr>) else None
                  else Some w1);
          if cw_mux_count w2 \<le> 0 then None
          else Some (conn_emit (Out_close (mr_sock impl))
                 (upd_registry r (\<lambda>reg. reg\<lparr>cr_impl := None\<rparr>) (w2\<lparr>cw_mux_count := cw_mux_count w2 - 1\<rparr>))) }"

subsection \<open>Polling\<close>

text \<open>The next time stamp over the agents that are ready.\<close>

fun mux_next_timestamp :: "conn_world \<Rightarrow> nat option list \<Rightarrow> int \<Rightarrow> int option" where
  "mux_next_timestamp w [] next_timestamp = Some next_timestamp"
| "mux_next_timestamp w (s # ss) next_timestamp =
     do { rdy \<leftarrow> is_ready w s;
          if \<not> rdy then mux_next_timestamp w ss next_timestamp
          else do { p \<leftarrow> s; c \<leftarrow> mux_conn_of w p;
                    mux_next_timestamp w ss (if next_timestamp > mc_next_timestamp c then mc_next_timestamp c else next_timestamp) } }"

text \<open>The number of users of the registry and the time to wake up.\<close>

definition conn_mux_prepare :: "nat \<Rightarrow> conn_world \<Rightarrow> (int \<times> int \<times> conn_world) option" where
  "conn_mux_prepare r w =
     (let (now, w1) = conn_now w in
      do { reg \<leftarrow> cw_registries w1 r;
           impl \<leftarrow> mux_registry_of w1 r;
           t \<leftarrow> mux_next_timestamp w1 (cr_agents reg) (now + 60000);
           Some (cr_agents_count reg + (if mr_cb_mux_incoming impl then 1 else 0), t, w1) })"

text \<open>The first ready agent for which the test holds; the test may change the agent.\<close>

fun find_agent :: "(juice_agent \<Rightarrow> (bool \<times> juice_agent) option) \<Rightarrow> nat option list \<Rightarrow> conn_world \<Rightarrow> (nat option \<times> conn_world) option" where
  "find_agent test [] w = Some (None, w)"
| "find_agent test (s # ss) w =
     do { rdy \<leftarrow> is_ready w s;
          if \<not> rdy then find_agent test ss w
          else do { p \<leftarrow> s; ag \<leftarrow> cw_agents w p;
                    (found, a) \<leftarrow> test (ca_agent ag);
                    let w1 = upd_agent p (\<lambda>ag. ag\<lparr>ca_agent := a\<rparr>) w;
                    if found then Some (Some p, w1) else find_agent test ss w1 } }"

definition find_by_ufrag :: "bytes \<Rightarrow> juice_agent \<Rightarrow> (bool \<times> juice_agent) option" where
  "find_by_ufrag local_ufrag a = Some (local_ufrag = ice_ufrag (ag_local a), a)"

definition find_by_transaction :: "bytes \<Rightarrow> juice_agent \<Rightarrow> (bool \<times> juice_agent) option" where
  "find_by_transaction tid a = do { (e, a1) \<leftarrow> agent_find_entry_from_transaction_id tid a; Some (e \<noteq> None, a1) }"

text \<open>The depth of \<open>insert_map_entry\<close> that is always enough, see \<open>Mux_Map\<close>.\<close>

definition map_depth :: nat where "map_depth = 2"

definition insert_for :: "nat \<Rightarrow> addr_record \<Rightarrow> nat \<Rightarrow> conn_world \<Rightarrow> conn_world option" where
  "insert_for r src p w =
     (let (mem, w1) = conn_malloc w in
      do { impl \<leftarrow> mux_registry_of w1 r;
           impl1 \<leftarrow> insert_map_entry map_depth (mem \<noteq> None) src (Some p) impl;
           Some (upd_mux_registry r (\<lambda>_. impl1) w1) })"

text \<open>A binding request from an unknown address.\<close>

definition lookup_request :: "nat \<Rightarrow> stun_message \<Rightarrow> addr_record \<Rightarrow> conn_world \<Rightarrow> (nat option \<times> conn_world) option" where
  "lookup_request r msg src w =
     (let user = username (credentials msg); local_ufrag = takeWhile (\<lambda>c. c \<noteq> 0x3A) user in
      if 0x3A \<notin> set user then Some (None, w)
      else do { reg \<leftarrow> cw_registries w r;
                (found, w1) \<leftarrow> find_agent (find_by_ufrag local_ufrag) (cr_agents reg) w;
                case found of
                  Some p \<Rightarrow> do { w2 \<leftarrow> insert_for r src p w1; Some (Some p, w2) }
                | None \<Rightarrow>
                    do { impl \<leftarrow> mux_registry_of w1 r;
                         Some (None, if \<not> mr_cb_mux_incoming impl then w1
                                     else case ce_getnameinfo (cw_env w1) (ar_addr src) of
                                            None \<Rightarrow> w1
                                          | Some host \<Rightarrow> conn_emit (Out_incoming local_ufrag (drop (length local_ufrag + 1) user) host
                                                            (addr_get_port (ar_addr src))) w1) } })"

definition lookup_stun :: "nat \<Rightarrow> stun_message \<Rightarrow> addr_record \<Rightarrow> conn_world \<Rightarrow> (nat option \<times> conn_world) option" where
  "lookup_stun r msg src w =
     (if msg_class msg = STUN_CLASS_REQUEST \<and> msg_method msg = STUN_METHOD_BINDING \<and> has_integrity msg
      then lookup_request r msg src w
      else if \<not> STUN_IS_RESPONSE (msg_class msg) then Some (None, w)
      else do { reg \<leftarrow> cw_registries w r; find_agent (find_by_transaction (transaction_id msg)) (cr_agents reg) w })"

definition lookup_agent :: "nat \<Rightarrow> bytes \<Rightarrow> addr_record \<Rightarrow> conn_world \<Rightarrow> (nat option \<times> conn_world) option" where
  "lookup_agent r buf src w =
     do { impl \<leftarrow> mux_registry_of w r;
          agent \<leftarrow> mapped_agent impl src;
          if agent \<noteq> None then Some (agent, w)
          else do { stun \<leftarrow> is_stun_datagram buf;
                    if \<not> stun then Some (None, w)
                    else do { m \<leftarrow> stun_read buf;
                              case m of None \<Rightarrow> Some (None, w) | Some (_, msg) \<Rightarrow> lookup_stun r msg src w } } }"

text \<open>One datagram, then up to \<open>left\<close> of them.  The result is what the last receive returned, by its sign.\<close>

definition mux_dispatch :: "nat \<Rightarrow> bytes \<Rightarrow> addr_record \<Rightarrow> conn_world \<Rightarrow> conn_world option" where
  "mux_dispatch r buf src w =
     do { (agent, w1) \<leftarrow> lookup_agent r buf src w;
          rdy \<leftarrow> is_ready w1 agent;
          if \<not> rdy then Some w1
          else do { p \<leftarrow> agent; ag \<leftarrow> cw_agents w1 p;
                    (ret, a) \<leftarrow> agent_conn_recv buf src (ca_agent ag);
                    let w2 = upd_agent p (\<lambda>ag. ag\<lparr>ca_agent := a\<rparr>) w1;
                    if ret \<noteq> 0 then Some (upd_mux p (\<lambda>c. c\<lparr>mc_finished := True\<rparr>) w2)
                    else let (now, w3) = conn_now w2 in Some (upd_mux p (\<lambda>c. c\<lparr>mc_next_timestamp := now\<rparr>) w3) } }"

definition conn_mux_recv :: "recvfrom_result list \<Rightarrow> udp_received \<times> recvfrom_result list" where
  "conn_mux_recv rs = conn_recv rs"

fun mux_receive :: "nat \<Rightarrow> recvfrom_result list \<Rightarrow> nat \<Rightarrow> conn_world \<Rightarrow> (int \<times> conn_world) option" where
  "mux_receive 0 rs r w = Some (1, w)"
| "mux_receive (Suc left) rs r w =
     (case conn_mux_recv rs of
        (Again, _) \<Rightarrow> Some (0, w)
      | (Failed, _) \<Rightarrow> Some (-1, w)
      | (Received data src, rs') \<Rightarrow> do { w1 \<leftarrow> mux_dispatch r data src w; mux_receive left rs' r w1 })"

text \<open>An agent whose time has come; \<^verbatim>\<open>agent_conn_update\<close> does not fail.\<close>

definition mux_update :: "nat \<Rightarrow> nat \<Rightarrow> conn_world \<Rightarrow> conn_world option" where
  "mux_update r i w =
     do { reg \<leftarrow> cw_registries w r;
          let s = cr_agents reg ! i;
          rdy \<leftarrow> is_ready w s;
          if \<not> rdy then Some w
          else do { p \<leftarrow> s; ag \<leftarrow> cw_agents w p; c \<leftarrow> mux_conn_of w p;
                    let (now, w1) = conn_now w;
                    if mc_next_timestamp c > now then Some w1
                    else do { (t, a) \<leftarrow> agent_conn_update (ca_agent ag);
                              Some (upd_mux p (\<lambda>c. c\<lparr>mc_next_timestamp := t\<rparr>) (upd_agent p (\<lambda>ag. ag\<lparr>ca_agent := a\<rparr>) w1)) } } }"

definition mux_fail_agent :: "nat \<Rightarrow> nat \<Rightarrow> conn_world \<Rightarrow> conn_world option" where
  "mux_fail_agent r i w =
     do { reg \<leftarrow> cw_registries w r;
          let s = cr_agents reg ! i;
          rdy \<leftarrow> is_ready w s;
          if \<not> rdy then Some w
          else do { p \<leftarrow> s;
                    Some (upd_mux p (\<lambda>c. c\<lparr>mc_finished := True\<rparr>) (upd_agent p (\<lambda>ag. ag\<lparr>ca_agent := agent_conn_fail (ca_agent ag)\<rparr>) w)) } }"

definition conn_mux_fail :: "nat \<Rightarrow> conn_world \<Rightarrow> conn_world option" where
  "conn_mux_fail r w = do { reg \<leftarrow> cw_registries w r; each [0..<length (cr_agents reg)] (mux_fail_agent r) w }"

text \<open>The answer of \<^verbatim>\<open>poll\<close> for the socket: an error, or what it then delivers.\<close>

record mux_event =
  mev_error :: bool
  mev_in :: "recvfrom_result list option"

definition conn_mux_process :: "nat \<Rightarrow> mux_event \<Rightarrow> conn_world \<Rightarrow> (int \<times> conn_world) option" where
  "conn_mux_process r ev w =
     (if mev_error ev then do { w1 \<leftarrow> conn_mux_fail r w; Some (-1, w1) }
      else do { (ret, w1) \<leftarrow> (case mev_in ev of None \<Rightarrow> Some (0, w) | Some rs \<Rightarrow> mux_receive 1000 rs r w);
                if ret < 0 then do { w2 \<leftarrow> conn_mux_fail r w1; Some (-1, w2) }
                else do { reg \<leftarrow> cw_registries w1 r;
                          w2 \<leftarrow> each [0..<length (cr_agents reg)] (mux_update r) w1;
                          Some (0, w2) } })"

text \<open>The thread, over the answers of \<^verbatim>\<open>poll\<close>: \<open>Inl\<close> whether a failed call is to be repeated, and what other threads did to the
  world while no mutex was held.\<close>

fun conn_mux_run :: "((bool + mux_event) \<times> (conn_world \<Rightarrow> conn_world)) list \<Rightarrow> nat \<Rightarrow> conn_world \<Rightarrow> conn_world option" where
  "conn_mux_run [] r w = Some w"
| "conn_mux_run ((answer, meanwhile) # evs) r w =
     do { (cnt, t, w1) \<leftarrow> conn_mux_prepare r w;
          if cnt \<le> 0 then Some w1
          else let w2 = meanwhile (snd (conn_now w1)) in
               case answer of
                 Inl again \<Rightarrow> if again then conn_mux_run evs r w2 else Some w2
               | Inr ev \<Rightarrow> do { (ret, w3) \<leftarrow> conn_mux_process r ev w2; if ret < 0 then Some w3 else conn_mux_run evs r w3 } }"

subsection \<open>Connections\<close>

definition conn_mux_init :: "nat \<Rightarrow> nat option \<Rightarrow> udp_socket_config \<Rightarrow> conn_world \<Rightarrow> (int \<times> conn_world) option" where
  "conn_mux_init p registry config w =
     (let (q, w1) = conn_malloc w in
      if q = None then Some (-1, w1)
      else do { r \<leftarrow> registry;
                Some (0, upd_agent p (set_impl (Some (Mux_conn \<lparr>mc_registry = r, mc_next_timestamp = 0, mc_finished = False\<rparr>))) w1) })"

definition conn_mux_interrupt_registry :: "nat \<Rightarrow> conn_world \<Rightarrow> (int \<times> conn_world) option" where
  "conn_mux_interrupt_registry r w =
     do { impl \<leftarrow> mux_registry_of w r;
          let (ret, w1) = conn_sendto_self (mr_sock impl) w;
          Some (if ret < 0 then -1 else 0, w1) }"

definition conn_mux_interrupt :: "nat \<Rightarrow> conn_world \<Rightarrow> (int \<times> conn_world) option" where
  "conn_mux_interrupt p w =
     do { c \<leftarrow> mux_conn_of w p;
          let (now, w1) = conn_now w;
          conn_mux_interrupt_registry (mc_registry c) (upd_mux p (\<lambda>c. c\<lparr>mc_next_timestamp := now\<rparr>) w1) }"

definition conn_mux_cleanup :: "nat \<Rightarrow> conn_world \<Rightarrow> conn_world option" where
  "conn_mux_cleanup p w =
     do { c \<leftarrow> mux_conn_of w p;
          impl \<leftarrow> mux_registry_of w (mc_registry c);
          impl1 \<leftarrow> remove_map_entries p impl;
          (_, w1) \<leftarrow> conn_mux_interrupt p (upd_mux_registry (mc_registry c) (\<lambda>_. impl1) w);
          Some (upd_agent p (set_impl None) w1) }"

definition conn_mux_send :: "nat \<Rightarrow> addr_record \<Rightarrow> bytes \<Rightarrow> int \<Rightarrow> conn_world \<Rightarrow> (int \<times> conn_world) option" where
  "conn_mux_send p dst data ds w =
     do { c \<leftarrow> mux_conn_of w p;
          impl \<leftarrow> mux_registry_of w (mc_registry c);
          let w1 = (if mr_send_ds impl \<ge> 0 \<and> mr_send_ds impl \<noteq> ds
                    then upd_mux_registry (mc_registry c) (\<lambda>m. m\<lparr>mr_send_ds := if conn_diffserv (mr_sock impl) w = 0 then ds else -1\<rparr>) w
                    else w);
          Some (conn_sendto (mr_sock impl) data dst w1) }"

definition conn_mux_get_addrs :: "nat \<Rightarrow> nat \<Rightarrow> conn_world \<Rightarrow> (int \<times> addr_record list) option" where
  "conn_mux_get_addrs p sz w =
     do { c \<leftarrow> mux_conn_of w p;
          impl \<leftarrow> mux_registry_of w (mc_registry c);
          Some (udp_get_addrs (ce_name (cw_env w) (mr_sock impl)) (ce_ifaddrs (cw_env w)) sz) }"

subsection \<open>Listening for unknown agents\<close>

definition conn_mux_stop_listen :: "nat \<Rightarrow> conn_world \<Rightarrow> (int \<times> conn_world) option" where
  "conn_mux_stop_listen r w =
     do { reg \<leftarrow> cw_registries w r;
          if cr_impl reg = None then Some (-1, w)
          else conn_mux_interrupt_registry r (upd_mux_registry r (\<lambda>m. m\<lparr>mr_cb_mux_incoming := False\<rparr>) w) }"

definition conn_mux_listen :: "nat \<Rightarrow> bool \<Rightarrow> conn_world \<Rightarrow> (int \<times> conn_world) option" where
  "conn_mux_listen r cb w =
     (if \<not> cb then conn_mux_stop_listen r w
      else do { reg \<leftarrow> cw_registries w r;
                if cr_impl reg = None then Some (-1, w)
                else do { impl \<leftarrow> mux_registry_of w r;
                          if mr_cb_mux_incoming impl then Some (-1, w)
                          else Some (0, upd_mux_registry r (\<lambda>m. m\<lparr>mr_cb_mux_incoming := True\<rparr>) w) } })"

definition conn_mux_can_release_registry :: "nat \<Rightarrow> conn_world \<Rightarrow> bool option" where
  "conn_mux_can_release_registry r w =
     do { reg \<leftarrow> cw_registries w r;
          if cr_impl reg = None then Some True
          else do { impl \<leftarrow> mux_registry_of w r; Some (\<not> mr_cb_mux_incoming impl) } }"

end
