(* ===== verification/Conn_Poll.thy ===== *)
theory Conn_Poll
  imports Conn
begin

text \<open>\<^verbatim>\<open>libjuice/src/conn_poll.c\<close>, as built for Linux: one thread polls the sockets of all agents, and carries ICE over TCP.\<close>

subsection \<open>The registry\<close>

definition conn_poll_registry_init :: "nat \<Rightarrow> udp_socket_config \<Rightarrow> conn_world \<Rightarrow> (int \<times> conn_world) option" where
  "conn_poll_registry_init r config w =
     (let (p, w1) = conn_malloc w in
      if p = None then Some (-1, w1)
      else case ce_pipe (cw_env w1) (ce_threads (cw_env w1)) of
             None \<Rightarrow> Some (-1, w1)
           | Some (rd, wr) \<Rightarrow>
               let impl = \<lparr>rp_interrupt_pipe_out = wr, rp_interrupt_pipe_in = rd\<rparr>;
                   (ret, w2) = conn_thread_start (upd_registry r (\<lambda>reg. reg\<lparr>cr_impl := Some (Poll_registry impl)\<rparr>) w1)
               in if ret \<noteq> 0
                  then Some (-1, upd_registry r (\<lambda>reg. reg\<lparr>cr_impl := None\<rparr>) (conn_emit (Out_close rd) (conn_emit (Out_close wr) w2)))
                  else Some (0, w2))"

definition poll_registry_of :: "conn_world \<Rightarrow> nat \<Rightarrow> poll_registry option" where
  "poll_registry_of w r = do { reg \<leftarrow> cw_registries w r; i \<leftarrow> cr_impl reg; case i of Poll_registry rp \<Rightarrow> Some rp | _ \<Rightarrow> None }"

definition conn_poll_registry_cleanup :: "nat \<Rightarrow> conn_world \<Rightarrow> conn_world option" where
  "conn_poll_registry_cleanup r w =
     do { impl \<leftarrow> poll_registry_of w r;
          Some (upd_registry r (\<lambda>reg. reg\<lparr>cr_impl := None\<rparr>)
            (conn_emit (Out_close (rp_interrupt_pipe_in impl)) (conn_emit (Out_close (rp_interrupt_pipe_out impl)) (conn_emit Out_join w)))) }"

subsection \<open>Polling\<close>

text \<open>The descriptors of the agents: the UDP socket, and the TCP socket of an agent that has one.  A new connection becomes ready.  Which
  events the thread asks for is left open: the answers of \<^verbatim>\<open>poll\<close> are arbitrary.\<close>

fun poll_fds :: "nat option list \<Rightarrow> int \<Rightarrow> conn_world \<Rightarrow> (int list \<times> int \<times> conn_world) option" where
  "poll_fds [] next_timestamp w = Some ([], next_timestamp, w)"
| "poll_fds (None # ss) next_timestamp w = poll_fds ss next_timestamp w"
| "poll_fds (Some p # ss) next_timestamp w =
     do { ag \<leftarrow> cw_agents w p;
          case ca_impl ag of
            None \<Rightarrow> poll_fds ss next_timestamp w
          | Some (Poll_conn c) \<Rightarrow>
              if pc_state c = CONN_STATE_FINISHED then poll_fds ss next_timestamp w
              else do { (fds, t, w1) \<leftarrow> poll_fds ss (if next_timestamp > pc_next_timestamp c then pc_next_timestamp c else next_timestamp)
                                         (upd_poll p (\<lambda>c. c\<lparr>pc_state := CONN_STATE_READY\<rparr>) w);
                        Some (pc_udp_sock c # (if pc_tcp_sock c \<noteq> INVALID_SOCKET then [pc_tcp_sock c] else []) @ fds, t, w1) }
          | Some _ \<Rightarrow> None }"

text \<open>The number of sockets, or -1 without memory for them, the time to wake up, and the array, which the pipe of the registry
  begins.  \<open>sz\<close> is the size the array had.\<close>

definition conn_poll_prepare :: "nat \<Rightarrow> nat \<Rightarrow> conn_world \<Rightarrow> (int \<times> int \<times> int list \<times> conn_world) option" where
  "conn_poll_prepare r sz w =
     (let (now, w1) = conn_now w in
      do { reg \<leftarrow> cw_registries w1 r;
           impl \<leftarrow> poll_registry_of w1 r;
           (fds, t, w2) \<leftarrow> poll_fds (cr_agents reg) (now + 60000) w1;
           let (q, w3) = (if sz \<noteq> Suc (length fds) then conn_malloc w2 else (Some 0, w2));
           if q = None then Some (-1, now + 60000, [], snd (conn_malloc w1))
           else Some (int (length fds), t, rp_interrupt_pipe_in impl # fds, w3) })"

text \<open>What \<^verbatim>\<open>poll\<close> reports for a descriptor, with what the socket then delivers and the pending error of a TCP socket.\<close>

record poll_revents =
  rv_nval :: bool
  rv_err :: bool
  rv_hup :: bool
  rv_in :: bool
  rv_out :: bool
  rv_datagrams :: "recvfrom_result list"
  rv_stream :: "stream_event list"
  rv_so_error :: "int option"

text \<open>The agent asks for TCP connections while it is updated; the first one finds the slot free.  The agent's side of a connection that
  begins is in \<open>Agent_Loop.conn_tcp_connect\<close>.\<close>

definition open_tcp :: "nat \<Rightarrow> addr_record \<Rightarrow> conn_world \<Rightarrow> conn_world option" where
  "open_tcp p dst w =
     do { c \<leftarrow> poll_conn_of w p;
          if pc_tcp_sock c \<noteq> INVALID_SOCKET then Some w
          else let (sock, nonblocking, connecting) = ce_tcp (cw_env w) (ce_tcps (cw_env w));
                   w1 = w\<lparr>cw_env := (cw_env w)\<lparr>ce_tcps := Suc (ce_tcps (cw_env w))\<rparr>\<rparr>
               in Some (upd_poll p (\<lambda>c. c\<lparr>pc_tcp_sock := tcp_create_socket sock nonblocking connecting, pc_tcp_dst := dst\<rparr>) w1) }"

fun open_requested :: "nat \<Rightarrow> agent_output list \<Rightarrow> conn_world \<Rightarrow> conn_world option" where
  "open_requested p [] w = Some w"
| "open_requested p (Conn_tcp_connect dst # xs) w =
     do { w1 \<leftarrow> open_tcp p dst w; open_requested p xs (upd_poll p (\<lambda>c. c\<lparr>pc_tcp_state := TCP_STATE_CONNECTING\<rparr>) w1) }"
| "open_requested p (x # xs) w = open_requested p xs w"

definition poll_update :: "nat \<Rightarrow> conn_world \<Rightarrow> conn_world option" where
  "poll_update p w =
     do { ag \<leftarrow> cw_agents w p;
          c \<leftarrow> poll_conn_of w p;
          let free = (pc_tcp_sock c = INVALID_SOCKET);
          let a0 = (ca_agent ag)\<lparr>ag_env := (ag_env (ca_agent ag))\<lparr>env_tcp_connecting := free\<rparr>\<rparr>;
          (t, a) \<leftarrow> agent_conn_update a0;
          w1 \<leftarrow> (if free then open_requested p (drop (length (env_out (ag_env a0))) (env_out (ag_env a)))
                           (upd_agent p (\<lambda>ag. ag\<lparr>ca_agent := a\<rparr>) w)
                  else Some (upd_agent p (\<lambda>ag. ag\<lparr>ca_agent := a\<rparr>) w));
          Some (upd_poll p (\<lambda>c. c\<lparr>pc_next_timestamp := t\<rparr>) w1) }"

definition poll_finish :: "nat \<Rightarrow> conn_world \<Rightarrow> conn_world" where
  "poll_finish p w = upd_poll p (\<lambda>c. c\<lparr>pc_state := CONN_STATE_FINISHED\<rparr>) w"

definition poll_fail :: "nat \<Rightarrow> conn_world \<Rightarrow> conn_world" where
  "poll_fail p w = poll_finish p (upd_agent p (\<lambda>ag. ag\<lparr>ca_agent := agent_conn_fail (ca_agent ag)\<rparr>) w)"

definition update_when_due :: "nat \<Rightarrow> conn_world \<Rightarrow> conn_world option" where
  "update_when_due p w =
     do { c \<leftarrow> poll_conn_of w p;
          let (now, w1) = conn_now w;
          if pc_next_timestamp c \<le> now then poll_update p w1 else Some w1 }"

text \<open>A failed receive is any error number but \<^verbatim>\<open>EAGAIN\<close>.\<close>

definition conn_poll_recv_udp :: "recvfrom_result list \<Rightarrow> udp_received \<times> recvfrom_result list" where
  "conn_poll_recv_udp rs = conn_recv rs"

fun poll_receive_udp :: "nat \<Rightarrow> recvfrom_result list \<Rightarrow> nat \<Rightarrow> conn_world \<Rightarrow> (int \<times> conn_world) option" where
  "poll_receive_udp 0 rs p w = Some (1, w)"
| "poll_receive_udp (Suc left) rs p w =
     (case conn_poll_recv_udp rs of
        (Again, _) \<Rightarrow> Some (- SEAGAIN, w)
      | (Failed, _) \<Rightarrow> Some (-1, w)
      | (Received data src, rs') \<Rightarrow>
          do { ag \<leftarrow> cw_agents w p;
               (ret, a) \<leftarrow> agent_conn_recv data src (ca_agent ag);
               let w1 = upd_agent p (\<lambda>ag. ag\<lparr>ca_agent := a\<rparr>) w;
               if ret \<noteq> 0 then Some (1, poll_finish p w1) else poll_receive_udp left rs' p w1 })"

definition conn_poll_process_udp :: "nat \<Rightarrow> poll_revents \<Rightarrow> conn_world \<Rightarrow> conn_world option" where
  "conn_poll_process_udp p rv w =
     (if rv_nval rv then Some w
      else let w1 = (if rv_err rv then poll_fail p w else w) in
           if \<not> rv_in rv then update_when_due p w1
           else do { (ret, w2) \<leftarrow> poll_receive_udp 1000 (rv_datagrams rv) p w1;
                     c \<leftarrow> poll_conn_of w2 p;
                     if pc_state c = CONN_STATE_FINISHED then Some w2
                     else if ret > 0 \<or> ret = - SEAGAIN then poll_update p w2
                     else Some (poll_fail p w2) })"

subsection \<open>TCP\<close>

definition close_tcp :: "nat \<Rightarrow> conn_world \<Rightarrow> conn_world option" where
  "close_tcp p w =
     do { c \<leftarrow> poll_conn_of w p;
          Some (if pc_tcp_sock c \<noteq> INVALID_SOCKET
                then conn_emit (Out_close (pc_tcp_sock c)) (upd_poll p (\<lambda>c. c\<lparr>pc_tcp_sock := INVALID_SOCKET\<rparr>) w) else w) }"

definition conn_poll_change_tcp_state :: "nat \<Rightarrow> tcp_state \<Rightarrow> conn_world \<Rightarrow> conn_world option" where
  "conn_poll_change_tcp_state p st w =
     do { ag \<leftarrow> cw_agents w p;
          c \<leftarrow> poll_conn_of w p;
          if pc_tcp_state c = st then Some w
          else do { (ret, a) \<leftarrow> agent_conn_tcp_state (pc_tcp_dst c) st (ca_agent ag);
                    let w1 = upd_poll p (\<lambda>c. c\<lparr>pc_tcp_state := st\<rparr>) (upd_agent p (\<lambda>ag. ag\<lparr>ca_agent := a\<rparr>) w);
                    if ret = 0 then Some w1
                    else do { w2 \<leftarrow> close_tcp p w1; Some (upd_poll p (\<lambda>c. c\<lparr>pc_tcp_state := TCP_STATE_DISCONNECTED\<rparr>) w2) } } }"

definition conn_poll_change_tcp_fail :: "nat \<Rightarrow> conn_world \<Rightarrow> conn_world option" where
  "conn_poll_change_tcp_fail p w =
     do { w1 \<leftarrow> close_tcp p w;
          conn_poll_change_tcp_state p TCP_STATE_FAILED
            (upd_poll p (\<lambda>c. c\<lparr>pc_write := zero_write_context, pc_read := zero_read_context\<rparr>) w1) }"

text \<open>A writable TCP socket; \<open>Inl\<close> when the function returns at once.\<close>

definition poll_writable :: "nat \<Rightarrow> poll_revents \<Rightarrow> conn_world \<Rightarrow> (conn_world + conn_world) option" where
  "poll_writable p rv w =
     do { c \<leftarrow> poll_conn_of w p;
          if pc_tcp_state c = TCP_STATE_CONNECTING
          then if rv_so_error rv \<noteq> Some 0 then do { w1 \<leftarrow> conn_poll_change_tcp_fail p w; Some (Inl w1) }
               else do { w1 \<leftarrow> conn_poll_change_tcp_state p TCP_STATE_CONNECTED w; Some (Inr w1) }
          else if \<not> tw_pending (pc_write c) then Some (Inr w)
          else let (ret, ctx, out, _) = tcp_ice_write (ce_stream (cw_env w) (ce_sends (cw_env w))) None (pc_write c);
                   w1 = w\<lparr>cw_env := (cw_env w)\<lparr>ce_sends := Suc (ce_sends (cw_env w))\<rparr>\<rparr>;
                   w2 = conn_emit (Out_stream (pc_tcp_sock c) out) (upd_poll p (\<lambda>c. c\<lparr>pc_write := ctx\<rparr>) w1)
               in if ret = - SEAGAIN then do { w3 \<leftarrow> conn_poll_change_tcp_fail p w2; Some (Inl w3) }
                  else Some (Inr w2) }"

text \<open>The datagrams are taken from the buffer of the context with the length that \<^verbatim>\<open>tcp_ice_read\<close> reports.\<close>

fun poll_receive_tcp :: "nat \<Rightarrow> stream_event list \<Rightarrow> nat \<Rightarrow> conn_world \<Rightarrow> (int \<times> conn_world) option" where
  "poll_receive_tcp 0 evs p w = Some (1, w)"
| "poll_receive_tcp (Suc left) evs p w =
     do { ag \<leftarrow> cw_agents w p;
          c \<leftarrow> poll_conn_of w p;
          let (r, ctx, evs') = tcp_ice_read evs (pc_read c);
          let w1 = upd_poll p (\<lambda>c. c\<lparr>pc_read := ctx\<rparr>) w;
          if r \<le> 0 then Some (r, w1)
          else do { data \<leftarrow> ld (tr_buffer ctx) 0 (nat r);
                    (ret, a) \<leftarrow> agent_conn_recv data (pc_tcp_dst c) (ca_agent ag);
                    let w2 = upd_agent p (\<lambda>ag. ag\<lparr>ca_agent := a\<rparr>) w1;
                    if ret \<noteq> 0 then Some (r, poll_finish p w2) else poll_receive_tcp left evs' p w2 } }"

definition conn_poll_process_tcp :: "nat \<Rightarrow> poll_revents \<Rightarrow> conn_world \<Rightarrow> conn_world option" where
  "conn_poll_process_tcp p rv w =
     (if rv_nval rv then Some w
      else if rv_err rv \<or> (rv_hup rv \<and> \<not> rv_in rv) then conn_poll_change_tcp_fail p w
      else do { x \<leftarrow> (if rv_out rv then poll_writable p rv w else Some (Inr w));
                case x of
                  Inl w1 \<Rightarrow> Some w1
                | Inr w1 \<Rightarrow>
                    if \<not> rv_in rv then update_when_due p w1
                    else do { (ret, w2) \<leftarrow> poll_receive_tcp 1000 (rv_stream rv) p w1;
                              c \<leftarrow> poll_conn_of w2 p;
                              if pc_state c = CONN_STATE_FINISHED then Some w2
                              else if ret > 0 \<or> ret = - SEAGAIN then poll_update p w2
                              else conn_poll_change_tcp_fail p w2 } })"

subsection \<open>The thread\<close>

text \<open>The loop over the agents; \<open>i\<close> is the index into the array of descriptors.  A descriptor past the end of the array is read only for
  a TCP socket.\<close>

fun poll_loop :: "nat option list \<Rightarrow> nat \<Rightarrow> (int \<times> poll_revents) list \<Rightarrow> conn_world \<Rightarrow> conn_world option" where
  "poll_loop [] i pfds w = Some w"
| "poll_loop (None # ss) i pfds w = poll_loop ss i pfds w"
| "poll_loop (Some p # ss) i pfds w =
     do { ag \<leftarrow> cw_agents w p;
          case ca_impl ag of
            None \<Rightarrow> poll_loop ss i pfds w
          | Some (Poll_conn c) \<Rightarrow>
              if pc_state c = CONN_STATE_FINISHED then poll_loop ss i pfds w
              else if i \<ge> length pfds then Some w
              else if fst (pfds ! i) \<noteq> pc_udp_sock c then Some w
              else do { w1 \<leftarrow> conn_poll_process_udp p (snd (pfds ! i)) w;
                        c1 \<leftarrow> poll_conn_of w1 p;
                        if pc_tcp_sock c1 = INVALID_SOCKET then poll_loop ss (i + 1) pfds w1
                        else if i + 1 \<ge> length pfds then None
                        else if fst (pfds ! (i + 1)) \<noteq> pc_tcp_sock c1 then Some w1
                        else do { w2 \<leftarrow> conn_poll_process_tcp p (snd (pfds ! (i + 1))) w1; poll_loop ss (i + 2) pfds w2 } }
          | Some _ \<Rightarrow> None }"

definition conn_poll_process :: "nat \<Rightarrow> (int \<times> poll_revents) list \<Rightarrow> conn_world \<Rightarrow> (int \<times> conn_world) option" where
  "conn_poll_process r pfds w =
     do { reg \<leftarrow> cw_registries w r; w1 \<leftarrow> poll_loop (cr_agents reg) 1 pfds w; Some (0, w1) }"

text \<open>The thread, over the answers of \<^verbatim>\<open>poll\<close>: \<open>Inl\<close> whether a failed call is to be repeated, and what other threads did meanwhile.
  \<open>sz\<close> is the size of the array of descriptors.\<close>

fun conn_poll_run :: "((bool + poll_revents list) \<times> (conn_world \<Rightarrow> conn_world)) list \<Rightarrow> nat \<Rightarrow> nat \<Rightarrow> conn_world \<Rightarrow> conn_world option" where
  "conn_poll_run [] sz r w = Some w"
| "conn_poll_run ((answer, meanwhile) # evs) sz r w =
     do { (cnt, t, fds, w1) \<leftarrow> conn_poll_prepare r sz w;
          if cnt \<le> 0 then Some w1
          else let w2 = meanwhile (snd (conn_now w1)) in
               case answer of
                 Inl again \<Rightarrow> if again then conn_poll_run evs (length fds) r w2 else Some w2
               | Inr rvs \<Rightarrow> do { (ret, w3) \<leftarrow> conn_poll_process r (zip fds rvs) w2;
                                 if ret < 0 then Some w3 else conn_poll_run evs (length fds) r w3 } }"

subsection \<open>Connections\<close>

definition conn_poll_init :: "nat \<Rightarrow> nat option \<Rightarrow> udp_socket_config \<Rightarrow> conn_world \<Rightarrow> (int \<times> conn_world) option" where
  "conn_poll_init p registry config w =
     (let (q, w1) = conn_malloc w in
      if q = None then Some (-1, w1)
      else let (sock, w2) = conn_socket config w1 in
           if sock = INVALID_SOCKET then Some (-1, w2)
           else do { r \<leftarrow> registry;
                     Some (0, upd_agent p (set_impl (Some (Poll_conn \<lparr>pc_registry = r, pc_state = CONN_STATE_NEW, pc_udp_sock = sock,
                       pc_tcp_sock = INVALID_SOCKET, pc_write = zero_write_context, pc_read = zero_read_context, pc_tcp_dst = zero_record,
                       pc_tcp_state = TCP_STATE_DISCONNECTED, pc_send_ds = 0, pc_next_timestamp = 0\<rparr>))) w2) })"

definition conn_poll_interrupt :: "nat \<Rightarrow> conn_world \<Rightarrow> (int \<times> conn_world) option" where
  "conn_poll_interrupt p w =
     do { c \<leftarrow> poll_conn_of w p;
          impl \<leftarrow> poll_registry_of w (pc_registry c);
          let (now, w1) = conn_now w;
          Some (0, conn_emit (Out_pipe (rp_interrupt_pipe_out impl)) (upd_poll p (\<lambda>c. c\<lparr>pc_next_timestamp := now\<rparr>) w1)) }"

definition conn_poll_cleanup :: "nat \<Rightarrow> conn_world \<Rightarrow> conn_world option" where
  "conn_poll_cleanup p w =
     do { c \<leftarrow> poll_conn_of w p;
          (_, w1) \<leftarrow> conn_poll_interrupt p w;
          Some (upd_agent p (set_impl None) (conn_emit (Out_close (pc_tcp_sock c)) (conn_emit (Out_close (pc_udp_sock c)) w1))) }"

text \<open>Over TCP the result of a write that is buffered is compared with the positive error number.\<close>

definition conn_poll_send :: "nat \<Rightarrow> addr_record \<Rightarrow> bytes \<Rightarrow> int \<Rightarrow> conn_world \<Rightarrow> (int \<times> conn_world) option" where
  "conn_poll_send p dst data ds w =
     do { c \<leftarrow> poll_conn_of w p;
          if ar_socktype dst = SOCK_STREAM
          then if tw_pending (pc_write c) then Some (- SEAGAIN, w)
               else let (ret, ctx, out, _) = tcp_ice_write (ce_stream (cw_env w) (ce_sends (cw_env w))) (Some data) (pc_write c);
                        w1 = w\<lparr>cw_env := (cw_env w)\<lparr>ce_sends := Suc (ce_sends (cw_env w))\<rparr>\<rparr>
                    in Some (if tw_pending ctx \<and> ret = SEAGAIN then int (length data) else ret,
                             conn_emit (Out_stream (pc_tcp_sock c) out) (upd_poll p (\<lambda>c. c\<lparr>pc_write := ctx\<rparr>) w1))
          else let w1 = (if pc_send_ds c \<ge> 0 \<and> pc_send_ds c \<noteq> ds
                         then upd_poll p (\<lambda>c. c\<lparr>pc_send_ds := if conn_diffserv (pc_udp_sock c) w = 0 then ds else -1\<rparr>) w else w)
               in Some (conn_sendto (pc_udp_sock c) data dst w1) }"

definition conn_poll_tcp_connect :: "nat \<Rightarrow> addr_record \<Rightarrow> conn_world \<Rightarrow> conn_world option" where
  "conn_poll_tcp_connect p dst w =
     do { c \<leftarrow> poll_conn_of w p;
          if pc_tcp_sock c \<noteq> INVALID_SOCKET then Some w
          else do { w1 \<leftarrow> open_tcp p dst w; conn_poll_change_tcp_state p TCP_STATE_CONNECTING w1 } }"

definition conn_poll_get_addrs :: "nat \<Rightarrow> nat \<Rightarrow> conn_world \<Rightarrow> (int \<times> addr_record list) option" where
  "conn_poll_get_addrs p sz w =
     do { c \<leftarrow> poll_conn_of w p; Some (udp_get_addrs (ce_name (cw_env w) (pc_udp_sock c)) (ce_ifaddrs (cw_env w)) sz) }"

end
