(* ===== verification/Conn_Thread.thy ===== *)
theory Conn_Thread
  imports Conn
begin

text \<open>\<^verbatim>\<open>libjuice/src/conn_thread.c\<close>: a thread and a socket for each agent.\<close>

text \<open>Whether the thread goes on, and the time to wake up.\<close>

definition conn_thread_prepare :: "nat \<Rightarrow> conn_world \<Rightarrow> (int \<times> int) option" where
  "conn_thread_prepare p w =
     do { c \<leftarrow> thread_conn_of w p; Some (if tc_stopped c then (0, 0) else (1, tc_next_timestamp c)) }"

definition conn_thread_recv :: "recvfrom_result list \<Rightarrow> udp_received \<times> recvfrom_result list" where
  "conn_thread_recv rs = conn_recv rs"

lemma conn_recv_shorter: "conn_recv rs = (Received data src, rs') \<Longrightarrow> length rs' < length rs"
proof (induction rs rule: conn_recv.induct)
  case (1 rs)
  obtain x rs1 where u: "udp_recvfrom CONN_BUFFER_SIZE rs = (x, rs1)" by (metis surj_pair)
  then show ?case using 1 udp_recvfrom_shorter [of CONN_BUFFER_SIZE rs]
    by (cases x) (auto simp: conn_recv.simps [of rs] split: if_split_asm intro: less_trans)
qed

text \<open>The loop over the datagrams: 1 when the agent failed, otherwise what the last receive returned.\<close>

function thread_receive :: "recvfrom_result list \<Rightarrow> nat \<Rightarrow> conn_world \<Rightarrow> (int \<times> conn_world) option" where
  "thread_receive rs p w =
     (case conn_thread_recv rs of
        (Again, _) \<Rightarrow> Some (0, w)
      | (Failed, _) \<Rightarrow> Some (-1, w)
      | (Received data src, rs') \<Rightarrow>
          do { ag \<leftarrow> cw_agents w p;
               (ret, a) \<leftarrow> agent_conn_recv data src (ca_agent ag);
               let w1 = upd_agent p (\<lambda>ag. ag\<lparr>ca_agent := a\<rparr>) w;
               if ret \<noteq> 0 then Some (1, w1) else thread_receive rs' p w1 })"
  by pat_completeness auto
termination by (relation "measure (\<lambda>(rs, p, w). length rs)") (auto simp: conn_thread_recv_def dest: conn_recv_shorter [OF sym])

declare thread_receive.simps [simp del]

definition thread_update :: "nat \<Rightarrow> conn_world \<Rightarrow> conn_world option" where
  "thread_update p w =
     do { ag \<leftarrow> cw_agents w p;
          (t, a) \<leftarrow> agent_conn_update (ca_agent ag);
          Some (upd_thread p (\<lambda>c. c\<lparr>tc_next_timestamp := t\<rparr>) (upd_agent p (\<lambda>ag. ag\<lparr>ca_agent := a\<rparr>) w)) }"

definition thread_fail :: "nat \<Rightarrow> conn_world \<Rightarrow> conn_world" where
  "thread_fail p w = upd_agent p (\<lambda>ag. ag\<lparr>ca_agent := agent_conn_fail (ca_agent ag)\<rparr>) w"

text \<open>The answer of \<^verbatim>\<open>poll\<close>: an error, or what the socket then delivers.\<close>

record thread_event =
  tev_error :: bool
  tev_in :: "recvfrom_result list option"

definition conn_thread_process :: "nat \<Rightarrow> thread_event \<Rightarrow> conn_world \<Rightarrow> (int \<times> conn_world) option" where
  "conn_thread_process p ev w =
     do { c \<leftarrow> thread_conn_of w p;
          if tc_stopped c then Some (-1, w)
          else if tev_error ev then Some (-1, thread_fail p w)
          else case tev_in ev of
                 Some rs \<Rightarrow>
                   do { (ret, w1) \<leftarrow> thread_receive rs p w;
                        if ret > 0 then Some (-1, w1)
                        else if ret < 0 then Some (-1, thread_fail p w1)
                        else do { w2 \<leftarrow> thread_update p w1; Some (0, w2) } }
               | None \<Rightarrow>
                   let (now, w1) = conn_now w in
                   if tc_next_timestamp c \<le> now then do { w2 \<leftarrow> thread_update p w1; Some (0, w2) } else Some (0, w1) }"

text \<open>The thread, over the answers of \<^verbatim>\<open>poll\<close> and what other threads do meanwhile.\<close>

fun conn_thread_run :: "((bool + thread_event) \<times> (conn_world \<Rightarrow> conn_world)) list \<Rightarrow> nat \<Rightarrow> conn_world \<Rightarrow> conn_world option" where
  "conn_thread_run [] p w = Some w"
| "conn_thread_run ((answer, meanwhile) # evs) p w =
     do { (go, t) \<leftarrow> conn_thread_prepare p w;
          if go \<le> 0 then Some w
          else let w1 = meanwhile (snd (conn_now w)) in
               case answer of
                 Inl again \<Rightarrow> if again then conn_thread_run evs p w1 else Some w1
               | Inr ev \<Rightarrow> do { (ret, w2) \<leftarrow> conn_thread_process p ev w1; if ret < 0 then Some w2 else conn_thread_run evs p w2 } }"

definition conn_thread_init :: "nat \<Rightarrow> nat option \<Rightarrow> udp_socket_config \<Rightarrow> conn_world \<Rightarrow> (int \<times> conn_world) option" where
  "conn_thread_init p registry config w =
     (let (q, w1) = conn_malloc w in
      if q = None then Some (-1, w1)
      else let (sock, w2) = conn_socket config w1 in
           if sock = INVALID_SOCKET then Some (-1, w2)
           else let impl = Thread_conn \<lparr>tc_sock = sock, tc_send_ds = 0, tc_next_timestamp = 0, tc_stopped = False\<rparr>;
                    (ret, w3) = conn_thread_start (upd_agent p (set_impl (Some impl)) w2)
                in if ret \<noteq> 0 then Some (-1, upd_agent p (set_impl None) w3) else Some (0, w3))"

definition conn_thread_interrupt :: "nat \<Rightarrow> conn_world \<Rightarrow> (int \<times> conn_world) option" where
  "conn_thread_interrupt p w =
     do { c \<leftarrow> thread_conn_of w p;
          let (now, w1) = conn_now w;
          let (ret, w2) = conn_sendto_self (tc_sock c) (upd_thread p (\<lambda>c. c\<lparr>tc_next_timestamp := now\<rparr>) w1);
          Some (if ret < 0 then -1 else 0, w2) }"

definition conn_thread_cleanup :: "nat \<Rightarrow> conn_world \<Rightarrow> conn_world option" where
  "conn_thread_cleanup p w =
     do { c \<leftarrow> thread_conn_of w p;
          (_, w1) \<leftarrow> conn_thread_interrupt p (upd_thread p (\<lambda>c. c\<lparr>tc_stopped := True\<rparr>) w);
          Some (upd_agent p (set_impl None) (conn_emit (Out_close (tc_sock c)) (conn_emit Out_join w1))) }"

definition conn_thread_send :: "nat \<Rightarrow> addr_record \<Rightarrow> bytes \<Rightarrow> int \<Rightarrow> conn_world \<Rightarrow> (int \<times> conn_world) option" where
  "conn_thread_send p dst data ds w =
     do { c \<leftarrow> thread_conn_of w p;
          let w1 = (if tc_send_ds c \<ge> 0 \<and> tc_send_ds c \<noteq> ds
                    then upd_thread p (\<lambda>c. c\<lparr>tc_send_ds := if conn_diffserv (tc_sock c) w = 0 then ds else -1\<rparr>) w else w);
          Some (conn_sendto (tc_sock c) data dst w1) }"

definition conn_thread_get_addrs :: "nat \<Rightarrow> nat \<Rightarrow> conn_world \<Rightarrow> (int \<times> addr_record list) option" where
  "conn_thread_get_addrs p sz w =
     do { c \<leftarrow> thread_conn_of w p; Some (udp_get_addrs (ce_name (cw_env w) (tc_sock c)) (ce_ifaddrs (cw_env w)) sz) }"

end
