(* ===== verification/Conn_Mode.thy ===== *)
theory Conn_Mode
  imports Conn_Mux Conn_Poll Conn_Thread
begin

text \<open>
  \<^verbatim>\<open>libjuice/src/conn.c\<close>: the table of the three concurrency modes, the registries the agents of a mode share, and the
  connection of an agent.  The mutexes are not part of the state: a function is what a thread does while it holds them.
\<close>

subsection \<open>The modes\<close>

text \<open>A function pointer that may be \<^verbatim>\<open>NULL\<close> is an option; the registry of an entry is in \<open>cw_entry\<close>.\<close>

record conn_mode_entry =
  registry_init_func :: "(nat \<Rightarrow> udp_socket_config \<Rightarrow> conn_world \<Rightarrow> (int \<times> conn_world) option) option"
  registry_cleanup_func :: "(nat \<Rightarrow> conn_world \<Rightarrow> conn_world option) option"
  init_func :: "nat \<Rightarrow> nat option \<Rightarrow> udp_socket_config \<Rightarrow> conn_world \<Rightarrow> (int \<times> conn_world) option"
  cleanup_func :: "nat \<Rightarrow> conn_world \<Rightarrow> conn_world option"
  interrupt_func :: "nat \<Rightarrow> conn_world \<Rightarrow> (int \<times> conn_world) option"
  send_func :: "nat \<Rightarrow> addr_record \<Rightarrow> bytes \<Rightarrow> int \<Rightarrow> conn_world \<Rightarrow> (int \<times> conn_world) option"
  tcp_connect_func :: "(nat \<Rightarrow> addr_record \<Rightarrow> conn_world \<Rightarrow> conn_world option) option"
  get_addrs_func :: "nat \<Rightarrow> nat \<Rightarrow> conn_world \<Rightarrow> (int \<times> addr_record list) option"
  mux_listen_func :: "(nat \<Rightarrow> bool \<Rightarrow> conn_world \<Rightarrow> (int \<times> conn_world) option) option"
  get_registry_func :: "(udp_socket_config \<Rightarrow> conn_world \<Rightarrow> nat option option) option"
  can_release_registry_func :: "(nat \<Rightarrow> conn_world \<Rightarrow> bool option) option"

fun mode_entries :: "juice_concurrency_mode \<Rightarrow> conn_mode_entry" where
  "mode_entries JUICE_CONCURRENCY_MODE_POLL =
     \<lparr>registry_init_func = Some conn_poll_registry_init, registry_cleanup_func = Some conn_poll_registry_cleanup,
      init_func = conn_poll_init, cleanup_func = conn_poll_cleanup, interrupt_func = conn_poll_interrupt, send_func = conn_poll_send,
      tcp_connect_func = Some conn_poll_tcp_connect, get_addrs_func = conn_poll_get_addrs,
      mux_listen_func = None, get_registry_func = None, can_release_registry_func = None\<rparr>"
| "mode_entries JUICE_CONCURRENCY_MODE_MUX =
     \<lparr>registry_init_func = Some conn_mux_registry_init, registry_cleanup_func = Some conn_mux_registry_cleanup,
      init_func = conn_mux_init, cleanup_func = conn_mux_cleanup, interrupt_func = conn_mux_interrupt, send_func = conn_mux_send,
      tcp_connect_func = None, get_addrs_func = conn_mux_get_addrs,
      mux_listen_func = Some conn_mux_listen, get_registry_func = Some (\<lambda>config w. conn_mux_get_registry w config (cw_mux w)),
      can_release_registry_func = Some conn_mux_can_release_registry\<rparr>"
| "mode_entries JUICE_CONCURRENCY_MODE_THREAD =
     \<lparr>registry_init_func = None, registry_cleanup_func = None,
      init_func = conn_thread_init, cleanup_func = conn_thread_cleanup, interrupt_func = conn_thread_interrupt, send_func = conn_thread_send,
      tcp_connect_func = None, get_addrs_func = conn_thread_get_addrs,
      mux_listen_func = None, get_registry_func = None, can_release_registry_func = None\<rparr>"

definition get_agent_mode :: "conn_world \<Rightarrow> nat \<Rightarrow> juice_concurrency_mode option" where
  "get_agent_mode w p = map_option (\<lambda>ag. cfg_concurrency_mode (ag_config (ca_agent ag))) (cw_agents w p)"

subsection \<open>Registries\<close>

definition free_registry :: "nat \<Rightarrow> conn_world \<Rightarrow> conn_world" where
  "free_registry r w = w\<lparr>cw_registries := (cw_registries w)(r := None)\<rparr>"

definition create_registry ::
  "juice_concurrency_mode \<Rightarrow> (nat \<Rightarrow> udp_socket_config \<Rightarrow> conn_world \<Rightarrow> (int \<times> conn_world) option) \<Rightarrow> udp_socket_config
   \<Rightarrow> conn_world \<Rightarrow> (nat option option \<times> conn_world) option" where
  "create_registry mode init config w =
     (case conn_malloc w of
        (None, w1) \<Rightarrow> Some (None, w1)
      | (Some r, w1) \<Rightarrow>
          let (agents, w2) = conn_malloc w1 in
          if agents = None then Some (None, w2)
          else do { (ret, w3) \<leftarrow> init r config (w2\<lparr>cw_registries := (cw_registries w2)(r \<mapsto>
                      \<lparr>cr_impl = None, cr_agents = replicate INITIAL_REGISTRY_SIZE None, cr_agents_count = 0\<rparr>)\<rparr>);
                    if ret \<noteq> 0 then Some (None, free_registry r w3)
                    else Some (Some (Some r), w3\<lparr>cw_entry := (cw_entry w3)(mode := Some r)\<rparr>) })"

text \<open>The result is \<open>None\<close> for -1, and else the registry acquired, which may be \<^verbatim>\<open>NULL\<close>.\<close>

definition acquire_registry ::
  "juice_concurrency_mode \<Rightarrow> udp_socket_config \<Rightarrow> conn_world \<Rightarrow> (nat option option \<times> conn_world) option" where
  "acquire_registry mode config w =
     do { registry \<leftarrow> (case get_registry_func (mode_entries mode) of Some f \<Rightarrow> f config w | None \<Rightarrow> Some (cw_entry w mode));
          case registry of
            Some r \<Rightarrow> do { _ \<leftarrow> cw_registries w r; Some (Some (Some r), w) }
          | None \<Rightarrow>
              (case registry_init_func (mode_entries mode) of
                 None \<Rightarrow> Some (Some None, w)
               | Some init \<Rightarrow> create_registry mode init config w) }"

definition release_registry :: "juice_concurrency_mode \<Rightarrow> nat option \<Rightarrow> conn_world \<Rightarrow> conn_world option" where
  "release_registry mode registry w =
     (case registry of
        None \<Rightarrow> Some w
      | Some r \<Rightarrow>
          do { can_release \<leftarrow> (case can_release_registry_func (mode_entries mode) of Some f \<Rightarrow> f r w | None \<Rightarrow> Some True);
               reg \<leftarrow> cw_registries w r;
               if cr_agents_count reg = 0 \<and> can_release
               then do { w1 \<leftarrow> (case registry_cleanup_func (mode_entries mode) of Some f \<Rightarrow> f r w | None \<Rightarrow> Some w);
                         Some (free_registry r (w1\<lparr>cw_entry := (cw_entry w1)(mode := None)\<rparr>)) }
               else Some w })"

subsection \<open>Connections\<close>

text \<open>The entry points that dispatch on the mode; an agent without a connection is answered at once.\<close>

definition dispatch :: "nat \<Rightarrow> 'a \<Rightarrow> (conn_mode_entry \<Rightarrow> 'a option) \<Rightarrow> conn_world \<Rightarrow> 'a option" where
  "dispatch p absent f w =
     do { ag \<leftarrow> cw_agents w p;
          if ca_impl ag = None then Some absent else do { mode \<leftarrow> get_agent_mode w p; f (mode_entries mode) } }"

definition conn_interrupt_world :: "nat \<Rightarrow> conn_world \<Rightarrow> (int \<times> conn_world) option" where
  "conn_interrupt_world p w = dispatch p (-1, w) (\<lambda>entry. interrupt_func entry p w) w"

definition conn_send_world :: "nat \<Rightarrow> addr_record \<Rightarrow> bytes \<Rightarrow> int \<Rightarrow> conn_world \<Rightarrow> (int \<times> conn_world) option" where
  "conn_send_world p dst data ds w = dispatch p (-1, w) (\<lambda>entry. send_func entry p dst data ds w) w"

definition conn_tcp_connect_world :: "nat \<Rightarrow> addr_record \<Rightarrow> conn_world \<Rightarrow> conn_world option" where
  "conn_tcp_connect_world p dst w =
     dispatch p w (\<lambda>entry. case tcp_connect_func entry of Some f \<Rightarrow> f p dst w | None \<Rightarrow> Some w) w"

definition conn_get_addrs :: "nat \<Rightarrow> nat \<Rightarrow> conn_world \<Rightarrow> (int \<times> addr_record list) option" where
  "conn_get_addrs p sz w = dispatch p (-1, []) (\<lambda>entry. get_addrs_func entry p sz w) w"

text \<open>\<^verbatim>\<open>conn_create\<close> when the mode has a registry: a slot, the connection, then the entry in the slot.\<close>

definition join_registry ::
  "juice_concurrency_mode \<Rightarrow> nat \<Rightarrow> nat \<Rightarrow> udp_socket_config \<Rightarrow> conn_world \<Rightarrow> (int \<times> conn_world) option" where
  "join_registry mode p r config w =
     do { reg \<leftarrow> cw_registries w r;
          if cr_agents reg = [] then None
          else case free_slot (cr_agents reg) (length (cr_agents reg) * 2) w of
                 (None, w1) \<Rightarrow> Some (-1, w1)
               | (Some (i, agents), w1) \<Rightarrow>
                   do { (ret, w2) \<leftarrow> init_func (mode_entries mode) p (Some r) config (upd_registry r (\<lambda>reg. reg\<lparr>cr_agents := agents\<rparr>) w1);
                        if ret \<noteq> 0 then do { w3 \<leftarrow> release_registry mode (Some r) w2; Some (-1, w3) }
                        else Some (0, upd_agent p (\<lambda>ag. ag\<lparr>ca_index := int i\<rparr>)
                               (upd_registry r (\<lambda>reg. reg\<lparr>cr_agents := (cr_agents reg)[i := Some p], cr_agents_count := cr_agents_count reg + 1\<rparr>) w2)) } }"

definition conn_create :: "nat \<Rightarrow> udp_socket_config \<Rightarrow> conn_world \<Rightarrow> (int \<times> conn_world) option" where
  "conn_create p config w =
     do { mode \<leftarrow> get_agent_mode w p;
          (acquired, w1) \<leftarrow> acquire_registry mode config w;
          case acquired of
            None \<Rightarrow> Some (-1, w1)
          | Some registry \<Rightarrow>
              let w2 = upd_agent p (\<lambda>ag. ag\<lparr>ca_registry := registry\<rparr>) w1 in
              do { (ret, w3) \<leftarrow> (case registry of
                      Some r \<Rightarrow> join_registry mode p r config w2
                    | None \<Rightarrow> do { (ret, w3) \<leftarrow> init_func (mode_entries mode) p None config w2;
                                   if ret \<noteq> 0 then Some (-1, w3) else Some (0, upd_agent p (\<lambda>ag. ag\<lparr>ca_index := -1\<rparr>) w3) });
                   if ret \<noteq> 0 then Some (-1, w3)
                   else do { (_, w4) \<leftarrow> conn_interrupt_world p w3; Some (0, w4) } } }"

text \<open>\<^verbatim>\<open>conn_destroy\<close> from the clearing of the slot on.\<close>

definition leave_registry :: "juice_concurrency_mode \<Rightarrow> nat \<Rightarrow> nat \<Rightarrow> conn_world \<Rightarrow> conn_world option" where
  "leave_registry mode p r w =
     do { ag \<leftarrow> cw_agents w p;
          reg \<leftarrow> cw_registries w r;
          w1 \<leftarrow> (if ca_index ag \<ge> 0
                  then if nat (ca_index ag) < length (cr_agents reg) \<and> cr_agents reg ! nat (ca_index ag) = Some p
                       then Some (upd_agent p (\<lambda>ag. ag\<lparr>ca_index := -1\<rparr>)
                              (upd_registry r (\<lambda>reg. reg\<lparr>cr_agents := (cr_agents reg)[nat (ca_index ag) := None]\<rparr>) w))
                       else None
                  else Some w);
          if cr_agents_count reg \<le> 0 then None
          else release_registry mode (Some r) (upd_agent p (\<lambda>ag. ag\<lparr>ca_registry := None\<rparr>)
                 (upd_registry r (\<lambda>reg. reg\<lparr>cr_agents_count := cr_agents_count reg - 1\<rparr>) w1)) }"

definition conn_destroy :: "nat \<Rightarrow> conn_world \<Rightarrow> conn_world option" where
  "conn_destroy p w =
     do { mode \<leftarrow> get_agent_mode w p;
          ag \<leftarrow> cw_agents w p;
          w1 \<leftarrow> cleanup_func (mode_entries mode) p w;
          case ca_registry ag of
            Some r \<Rightarrow> leave_registry mode p r w1
          | None \<Rightarrow> do { ag1 \<leftarrow> cw_agents w1 p; if ca_index ag1 < 0 then Some w1 else None } }"

text \<open>\<^verbatim>\<open>agent_destroy\<close>; what else it frees belongs to the agent alone.\<close>

definition agent_destroy :: "nat \<Rightarrow> conn_world \<Rightarrow> conn_world option" where
  "agent_destroy p w =
     do { ag \<leftarrow> cw_agents w p;
          w1 \<leftarrow> (if ca_impl ag \<noteq> None then conn_destroy p w else Some w);
          Some (w1\<lparr>cw_agents := (cw_agents w1)(p := None)\<rparr>) }"

definition juice_mux_listen :: "bytes option \<Rightarrow> u16 \<Rightarrow> bool \<Rightarrow> conn_world \<Rightarrow> (int \<times> conn_world) option" where
  "juice_mux_listen bind_addr local_port cb w =
     (let mode = JUICE_CONCURRENCY_MODE_MUX in
      case mux_listen_func (mode_entries mode) of
        None \<Rightarrow> Some (-1, w)
      | Some listen \<Rightarrow>
          if get_registry_func (mode_entries mode) = None then Some (-1, w)
          else do { (acquired, w1) \<leftarrow> acquire_registry mode \<lparr>bind_address = bind_addr, port_begin = local_port, port_end = local_port\<rparr> w;
                    case acquired of
                      None \<Rightarrow> Some (-1, w1)
                    | Some None \<Rightarrow> Some (-1, w1)
                    | Some (Some r) \<Rightarrow>
                        do { (ret, w2) \<leftarrow> listen r cb w1;
                             w3 \<leftarrow> release_registry mode (Some r) w2;
                             Some (if ret \<noteq> 0 then -1 else 0, w3) } })"

end
