(* ===== verification/Mux_Map.thy ===== *)
theory Mux_Map
  imports Conn_Mux Turn_Props
begin

text \<open>
  The map of \<^verbatim>\<open>conn_mux.c\<close>: an open addressing table with deleted entries that grows by rehashing.  It implements a partial
  function from addresses to agents.
\<close>

subsection \<open>The probing loop\<close>

lemma loop_cases:
  assumes "key < length es"
  obtains (hit) j where "probe es stops key j" "find_entry_loop es stops key key = Some (Some ((key + j) mod length es))"
    | (full) "find_entry_loop es stops key key = Some None" "\<And>e. e \<in> set es \<Longrightarrow> \<not> stops e"
proof -
  let ?n = "length es"
  have n: "0 < ?n" using assms by linarith
  have all: "\<exists>i<?n. (key + i) mod ?n = l" if "l < ?n" for l
  proof (cases "key \<le> l")
    case True
    then show ?thesis using that by (intro exI [of _ "l - key"]) auto
  next
    case False
    then have "key + (?n - key + l) = ?n + l" using assms by simp
    then show ?thesis using False that assms by (intro exI [of _ "?n - key + l"]) auto
  qed
  have "(\<exists>i. probe es stops key i \<and> find_entry_loop es stops key ((key + 0) mod ?n) = Some (Some ((key + i) mod ?n)))
    \<or> (find_entry_loop es stops key ((key + 0) mod ?n) = Some None \<and> (\<forall>i<?n. \<not> stops (es ! ((key + i) mod ?n))))"
    by (rule find_entry_loop_from [OF assms n]) simp
  then show thesis
  proof (elim disjE exE conjE)
    fix i
    assume "probe es stops key i" "find_entry_loop es stops key ((key + 0) mod ?n) = Some (Some ((key + i) mod ?n))"
    then show thesis using hit assms by simp
  next
    assume f: "find_entry_loop es stops key ((key + 0) mod ?n) = Some None" and none: "\<forall>i<?n. \<not> stops (es ! ((key + i) mod ?n))"
    have "\<not> stops e" if "e \<in> set es" for e
      using that none all by (metis in_set_conv_nth)
    then show thesis using full f assms by simp
  qed
qed

lemma loop_hit_at:
  assumes "find_entry_loop es stops key key = Some (Some i)" and "key < length es"
  shows "i < length es" and "stops (es ! i)"
proof -
  obtain j where "probe es stops key j" "i = (key + j) mod length es"
    using assms(2) by (cases rule: loop_cases [where stops = stops]) (use assms(1) in auto)
  moreover have "(key + j) mod length es < length es" for j using assms(2) by (intro mod_less_divisor) linarith
  ultimately show "i < length es" "stops (es ! i)" by (auto simp: probe_def)
qed

text \<open>A search ends at the same slot after a change that opens no earlier one.\<close>

lemma loop_hit_kept:
  assumes "find_entry_loop es stops key key = Some (Some l)" and "key < length es" and "length es' = length es"
    and "stops' (es' ! l)" and "\<And>i. i < length es \<Longrightarrow> i \<noteq> l \<Longrightarrow> \<not> stops (es ! i) \<Longrightarrow> \<not> stops' (es' ! i)"
  shows "find_entry_loop es' stops' key key = Some (Some l)"
proof -
  let ?n = "length es"
  obtain j where j: "probe es stops key j" "l = (key + j) mod ?n"
    using assms(2) by (cases rule: loop_cases [where stops = stops]) (use assms(1) in auto)
  have "\<not> stops' (es' ! ((key + j') mod ?n))" if "j' < j" for j'
  proof -
    have ns: "\<not> stops (es ! ((key + j') mod ?n))" using j(1) that by (simp add: probe_def)
    have "stops (es ! l)" using j by (simp add: probe_def)
    then have "(key + j') mod ?n \<noteq> l" using ns by auto
    moreover have "(key + j') mod ?n < ?n" using assms(2) by (intro mod_less_divisor) linarith
    ultimately show ?thesis using assms(5) ns by blast
  qed
  then have p: "probe es' stops' key j" using j assms(3,4) by (simp add: probe_def)
  have k: "key < length es'" using assms(2,3) by simp
  from k show ?thesis
  proof (cases rule: loop_cases [where stops = stops'])
    case (hit j')
    then show ?thesis using probe_unique [OF p, of j'] j(2) assms(3) by simp
  next
    case full
    have "l < length es'" using j(2) assms(2,3) by (metis mod_less_divisor less_nat_zero_code neq0_conv)
    then show ?thesis using full(2) assms(4) nth_mem by blast
  qed
qed

subsection \<open>The invariant\<close>

definition full_at :: "mux_registry \<Rightarrow> nat \<Rightarrow> bool" where
  "full_at m i \<longleftrightarrow> i < length (mr_map m) \<and> me_type (mr_map m ! i) = MAP_ENTRY_TYPE_FULL"

definition is_full :: "map_entry \<Rightarrow> bool" where
  "is_full e \<longleftrightarrow> me_type e = MAP_ENTRY_TYPE_FULL"

definition mux_ok :: "mux_registry \<Rightarrow> bool" where
  "mux_ok m \<longleftrightarrow> 2 \<le> length (mr_map m)
     \<and> (\<forall>e\<in>set (mr_map m). is_full e \<longrightarrow> inet_family (ar_addr (me_record e)) \<and> me_agent e \<noteq> None)
     \<and> mr_map_count m = int (length (filter is_full (mr_map m))) \<and> mr_map_count m * 2 \<le> int (length (mr_map m)) + 1
     \<and> (\<forall>i. full_at m i \<longrightarrow> find_map_entry m (me_record (mr_map m ! i)) False = Some (Some i))"

text \<open>The mappings a table holds.\<close>

definition mux_maps :: "mux_registry \<Rightarrow> addr_record \<Rightarrow> nat \<Rightarrow> bool" where
  "mux_maps m k p \<longleftrightarrow> (\<exists>i. full_at m i \<and> me_agent (mr_map m ! i) = Some p \<and> addr_record_is_equal (me_record (mr_map m ! i)) k True)"

lemma equal_hash: "addr_record_is_equal a b True \<Longrightarrow> addr_record_hash a False = addr_record_hash b False"
  by (rule record_key.eq_hash) (auto simp: addr_record_is_equal_def addr_is_equal_iff)

lemma find_map_entry_equal:
  assumes "addr_record_is_equal a b True"
  shows "find_map_entry m a d = find_map_entry m b d"
  unfolding find_map_entry_def equal_hash [OF assms] Let_def
  using record_key.eq_trans [of _ a True b] record_key.eq_trans [of _ b True a] assms record_key.eq_sym [OF assms]
  by (auto intro!: find_entry_loop_cong simp: map_stops_def)

lemma hash_below: "mr_map m \<noteq> [] \<Longrightarrow> unat (addr_record_hash k False) mod length (mr_map m) < length (mr_map m)"
  by (intro mod_less_divisor) simp

lemma find_map_entry_total:
  assumes "mr_map m \<noteq> []"
  shows "\<exists>x. find_map_entry m k d = Some x"
  using hash_below [OF assms, of k]
  by (cases rule: loop_cases [where stops = "map_stops k d"]) (use assms in \<open>auto simp: find_map_entry_def Let_def\<close>)

lemma find_map_entry_at:
  assumes "find_map_entry m k d = Some (Some i)"
  shows "i < length (mr_map m)" and "map_stops k d (mr_map m ! i)"
  using assms loop_hit_at [of "mr_map m" "map_stops k d" "unat (addr_record_hash k False) mod length (mr_map m)" i] hash_below [of m k]
  by (auto simp: find_map_entry_def Let_def split: if_split_asm)

lemma find_map_entry_full:
  assumes "find_map_entry m k d = Some None" and "e \<in> set (mr_map m)"
  shows "\<not> map_stops k d e"
proof -
  have ne: "mr_map m \<noteq> []" using assms(2) by auto
  from hash_below [OF ne, of k] show ?thesis
    by (cases rule: loop_cases [where stops = "map_stops k d"])
      (use assms ne in \<open>auto simp: find_map_entry_def Let_def\<close>)
qed

lemma find_map_entry_kept:
  assumes "find_map_entry m k d = Some (Some l)" and "length (mr_map m') = length (mr_map m)" and "map_stops k d' (mr_map m' ! l)"
    and "\<And>i. i < length (mr_map m) \<Longrightarrow> i \<noteq> l \<Longrightarrow> \<not> map_stops k d (mr_map m ! i) \<Longrightarrow> \<not> map_stops k d' (mr_map m' ! i)"
  shows "find_map_entry m' k d' = Some (Some l)"
proof -
  have ne: "mr_map m \<noteq> []" using assms(1) by (auto simp: find_map_entry_def)
  then have ne': "mr_map m' \<noteq> []" using assms(2) by auto
  show ?thesis using loop_hit_kept [of "mr_map m" "map_stops k d" _ l "mr_map m'" "map_stops k d'"] assms hash_below [OF ne] ne ne'
    by (simp add: find_map_entry_def Let_def)
qed

lemma mux_ok_nonempty: "mux_ok m \<Longrightarrow> mr_map m \<noteq> []"
  by (auto simp: mux_ok_def)

lemma full_unique:
  assumes "mux_ok m" and "full_at m i" and "full_at m j" and "addr_record_is_equal (me_record (mr_map m ! i)) (me_record (mr_map m ! j)) True"
  shows "i = j"
  using assms find_map_entry_equal [OF assms(4), of m False] by (auto simp: mux_ok_def)

text \<open>The look-up finds the mappings.\<close>

lemma mapped_agent_iff:
  assumes "mux_ok m"
  shows "mapped_agent m k = Some (Some p) \<longleftrightarrow> mux_maps m k p"
proof
  assume "mapped_agent m k = Some (Some p)"
  then obtain i where i: "find_map_entry m k False = Some (Some i)" "me_type (mr_map m ! i) = MAP_ENTRY_TYPE_FULL" "me_agent (mr_map m ! i) = Some p"
    by (auto simp: mapped_agent_def bind_eq_Some_conv split: option.split_asm if_split_asm)
  then show "mux_maps m k p" using find_map_entry_at [OF i(1)] by (auto simp: mux_maps_def full_at_def map_stops_def)
next
  assume "mux_maps m k p"
  then obtain i where i: "full_at m i" "me_agent (mr_map m ! i) = Some p" "addr_record_is_equal (me_record (mr_map m ! i)) k True"
    by (auto simp: mux_maps_def)
  then have "find_map_entry m k False = Some (Some i)"
    using assms find_map_entry_equal [OF i(3), of m False] by (auto simp: mux_ok_def)
  then show "mapped_agent m k = Some (Some p)" using i by (simp add: mapped_agent_def full_at_def)
qed

lemma mapped_agent_total: "mux_ok m \<Longrightarrow> \<exists>x. mapped_agent m k = Some x"
  using find_map_entry_total [OF mux_ok_nonempty, of m k False] by (auto simp: mapped_agent_def)

subsection \<open>Inserting\<close>

definition set_entry :: "nat \<Rightarrow> addr_record \<Rightarrow> nat option \<Rightarrow> mux_registry \<Rightarrow> mux_registry" where
  "set_entry i k agent m = m\<lparr>mr_map_count := mr_map_count m + 1,
     mr_map := (mr_map m)[i := \<lparr>me_type = MAP_ENTRY_TYPE_FULL, me_agent = agent, me_record = k\<rparr>]\<rparr>"

lemma filter_update_length:
  "i < length xs \<Longrightarrow> \<not> P (xs ! i) \<Longrightarrow> P y \<Longrightarrow> length (filter P (xs[i := y])) = Suc (length (filter P xs))"
  by (induction xs arbitrary: i) (auto split: nat.split)

text \<open>There is always a place for a new address, and it is not one in use.\<close>

lemma place_for_new:
  assumes "mux_ok m" and "\<And>p. \<not> mux_maps m k p"
  obtains i where "find_map_entry m k True = Some (Some i)" and "i < length (mr_map m)" and "\<not> is_full (mr_map m ! i)"
proof -
  obtain x where x: "find_map_entry m k True = Some x" using find_map_entry_total [OF mux_ok_nonempty [OF assms(1)]] by blast
  have "x \<noteq> None"
  proof
    assume "x = None"
    then have "is_full e" if "e \<in> set (mr_map m)" for e
      using find_map_entry_full [of m k True e] x that by (cases "me_type e") (auto simp: map_stops_def is_full_def)
    then have "filter is_full (mr_map m) = mr_map m" by simp
    then show False using assms(1) by (auto simp: mux_ok_def)
  qed
  then obtain i where i: "find_map_entry m k True = Some (Some i)" using x by auto
  note at = find_map_entry_at [OF i]
  have "\<not> is_full (mr_map m ! i)"
  proof
    assume f: "is_full (mr_map m ! i)"
    then obtain p where "me_agent (mr_map m ! i) = Some p" using assms(1) at(1) nth_mem by (fastforce simp: mux_ok_def)
    then have "mux_maps m k p" using f at by (auto simp: mux_maps_def full_at_def is_full_def map_stops_def)
    then show False using assms(2) by blast
  qed
  then show thesis using that i at(1) by blast
qed

lemma set_entry_ok:
  assumes "mux_ok m" and "\<And>q. \<not> mux_maps m k q" and "find_map_entry m k True = Some (Some i)" and "i < length (mr_map m)"
    and "\<not> is_full (mr_map m ! i)" and "mr_map_count m * 2 < int (length (mr_map m))" and "inet_family (ar_addr k)"
  shows "mux_ok (set_entry i k (Some p) m)"
    and "mux_maps (set_entry i k (Some p) m) k' q \<longleftrightarrow> mux_maps m k' q \<or> q = p \<and> addr_record_is_equal k k' True"
proof -
  let ?m = "set_entry i k (Some p) m"
  have at: "mr_map ?m ! i = \<lparr>me_type = MAP_ENTRY_TYPE_FULL, me_agent = Some p, me_record = k\<rparr>" "length (mr_map ?m) = length (mr_map m)"
    and other: "j \<noteq> i \<Longrightarrow> mr_map ?m ! j = mr_map m ! j" for j
    using assms(4) by (auto simp: set_entry_def)
  have new: "find_map_entry ?m k False = Some (Some i)"
    by (rule find_map_entry_kept [OF assms(3)])
      (use at other record_key.eq_refl [OF assms(7)] in \<open>auto simp: map_stops_def\<close>)
  have old: "find_map_entry ?m (me_record (mr_map m ! j)) False = Some (Some j)" if j: "full_at m j" for j
  proof -
    have ji: "j \<noteq> i" using j assms(5) by (auto simp: full_at_def is_full_def)
    obtain q where q: "me_agent (mr_map m ! j) = Some q" "inet_family (ar_addr (me_record (mr_map m ! j)))"
      using j assms(1) nth_mem by (fastforce simp: full_at_def mux_ok_def is_full_def)
    have "\<not> addr_record_is_equal (me_record (mr_map m ! j)) k True"
      using assms(2) [of q] j q by (auto simp: mux_maps_def)
    then have ne: "\<not> addr_record_is_equal k (me_record (mr_map m ! j)) True" using record_key.eq_sym by blast
    have "find_map_entry m (me_record (mr_map m ! j)) False = Some (Some j)" using assms(1) j by (simp add: mux_ok_def)
    then show ?thesis
    proof (rule find_map_entry_kept)
      show "map_stops (me_record (mr_map m ! j)) False (mr_map ?m ! j)" using other ji record_key.eq_refl [OF q(2)] by (simp add: map_stops_def)
      show "\<not> map_stops (me_record (mr_map m ! j)) False (mr_map ?m ! x)" if "\<not> map_stops (me_record (mr_map m ! j)) False (mr_map m ! x)" for x
        using that at other ne by (cases "x = i") (simp_all add: map_stops_def)
    qed (rule at(2))
  qed
  have full: "full_at ?m j \<longleftrightarrow> full_at m j \<or> j = i" for j
    using at other [of j] assms(4) by (cases "j = i") (auto simp: full_at_def)
  have "int (length (filter is_full (mr_map ?m))) = int (length (filter is_full (mr_map m))) + 1"
    using filter_update_length [of i "mr_map m" is_full] assms(4,5) by (simp add: set_entry_def is_full_def)
  moreover have "\<forall>e\<in>set (mr_map ?m). is_full e \<longrightarrow> inet_family (ar_addr (me_record e)) \<and> me_agent e \<noteq> None"
    using assms(1,7) set_update_subset_insert by (fastforce simp: set_entry_def mux_ok_def)
  moreover have "find_map_entry ?m (me_record (mr_map ?m ! j)) False = Some (Some j)" if "full_at ?m j" for j
    using that full new old at other by (cases "j = i") auto
  ultimately show "mux_ok ?m" using assms(1,6) at(2) by (auto simp: mux_ok_def set_entry_def)
  show "mux_maps ?m k' q \<longleftrightarrow> mux_maps m k' q \<or> q = p \<and> addr_record_is_equal k k' True"
    using full at(1) other assms(5) by (fastforce simp: mux_maps_def full_at_def is_full_def)
qed

lemma insert_without_growth:
  assumes "mux_ok m" and "\<And>q. \<not> mux_maps m k q" and "mr_map_count m * 2 < int (length (mr_map m))" and "inet_family (ar_addr k)"
  obtains m' where "insert_map_entry (Suc d) mem k (Some p) m = Some m'" and "mux_ok m'"
    and "\<And>k' q. mux_maps m' k' q \<longleftrightarrow> mux_maps m k' q \<or> q = p \<and> addr_record_is_equal k k' True"
    and "mr_map_count m' = mr_map_count m + 1" and "length (mr_map m') = length (mr_map m)"
proof -
  obtain i where i: "find_map_entry m k True = Some (Some i)" "i < length (mr_map m)" "\<not> is_full (mr_map m ! i)"
    using place_for_new [OF assms(1,2)] by blast
  note ok = set_entry_ok [OF assms(1,2) i assms(3,4), of p]
  have "insert_map_entry (Suc d) mem k (Some p) m = Some (set_entry i k (Some p) m)"
    using i assms(3) by (simp add: set_entry_def is_full_def Let_def)
  then show thesis using that ok by (simp add: set_entry_def)
qed

subsection \<open>Growing\<close>

definition empty_map :: "nat \<Rightarrow> mux_registry \<Rightarrow> mux_registry" where
  "empty_map n m = m\<lparr>mr_map := replicate n zero_map_entry, mr_map_count := 0\<rparr>"

lemma empty_map_ok: "2 \<le> n \<Longrightarrow> mux_ok (empty_map n m)" and empty_map_maps: "\<not> mux_maps (empty_map n m) k p"
  by (auto simp: mux_ok_def empty_map_def is_full_def zero_map_entry_def full_at_def mux_maps_def)

text \<open>What the loop of \<^verbatim>\<open>grow_map\<close> has moved after the first \<open>i\<close> slots.\<close>

definition moved :: "mux_registry \<Rightarrow> nat \<Rightarrow> mux_registry \<Rightarrow> bool" where
  "moved m i m' \<longleftrightarrow> mux_ok m' \<and> length (mr_map m') = 2 * length (mr_map m) \<and> mr_map_count m' = int (length (filter is_full (take i (mr_map m))))
     \<and> (\<forall>k p. mux_maps m' k p \<longleftrightarrow> (\<exists>j<i. full_at m j \<and> me_agent (mr_map m ! j) = Some p \<and> addr_record_is_equal (me_record (mr_map m ! j)) k True))"

lemma moved_step:
  assumes "mux_ok m" and "i < length (mr_map m)" and "moved m i m'"
  shows "\<exists>m''. (if me_type (mr_map m ! i) = MAP_ENTRY_TYPE_FULL
      then insert_map_entry (Suc d) mem (me_record (mr_map m ! i)) (me_agent (mr_map m ! i)) m' else Some m') = Some m'' \<and> moved m (Suc i) m''"
proof (cases "is_full (mr_map m ! i)")
  case False
  then have "length (filter is_full (take (Suc i) (mr_map m))) = length (filter is_full (take i (mr_map m)))"
    using assms(2) by (simp add: take_Suc_conv_app_nth)
  moreover have "(\<exists>j<Suc i. full_at m j \<and> P j) \<longleftrightarrow> (\<exists>j<i. full_at m j \<and> P j)" for P
    using False by (auto simp: less_Suc_eq full_at_def is_full_def)
  ultimately show ?thesis using False assms(3) by (simp add: moved_def is_full_def)
next
  case True
  then have fi: "full_at m i" using assms(2) by (simp add: full_at_def is_full_def)
  have "inet_family (ar_addr (me_record (mr_map m ! i))) \<and> me_agent (mr_map m ! i) \<noteq> None"
    using assms(1) True nth_mem [OF assms(2)] unfolding mux_ok_def by blast
  then obtain p where p: "me_agent (mr_map m ! i) = Some p" "inet_family (ar_addr (me_record (mr_map m ! i)))" by blast
  have ok': "mux_ok m'" using assms(3) by (simp add: moved_def)
  have split: "filter is_full (mr_map m) = filter is_full (take i (mr_map m)) @ mr_map m ! i # filter is_full (drop (Suc i) (mr_map m))"
    using True arg_cong [OF id_take_nth_drop [OF assms(2)], of "filter is_full"] by simp
  then have cnt: "mr_map_count m' * 2 < int (length (mr_map m'))"
    using assms(1,3) by (simp add: moved_def mux_ok_def)
  have new: "\<not> mux_maps m' (me_record (mr_map m ! i)) q" for q
  proof
    assume "mux_maps m' (me_record (mr_map m ! i)) q"
    then obtain j where "j < i" "full_at m j" "addr_record_is_equal (me_record (mr_map m ! j)) (me_record (mr_map m ! i)) True"
      using assms(3) by (auto simp: moved_def)
    then show False using full_unique [OF assms(1) _ fi, of j] by simp
  qed
  obtain m'' where m'': "insert_map_entry (Suc d) mem (me_record (mr_map m ! i)) (Some p) m' = Some m''" "mux_ok m''"
    "\<And>k' q. mux_maps m'' k' q \<longleftrightarrow> mux_maps m' k' q \<or> q = p \<and> addr_record_is_equal (me_record (mr_map m ! i)) k' True"
    "mr_map_count m'' = mr_map_count m' + 1" "length (mr_map m'') = length (mr_map m')"
    by (rule insert_without_growth [OF ok' new cnt p(2), of d mem p]) blast
  have "int (length (filter is_full (take (Suc i) (mr_map m)))) = int (length (filter is_full (take i (mr_map m)))) + 1"
    using True assms(2) by (simp add: take_Suc_conv_app_nth)
  moreover have "mux_maps m'' k q \<longleftrightarrow> (\<exists>j<Suc i. full_at m j \<and> me_agent (mr_map m ! j) = Some q \<and> addr_record_is_equal (me_record (mr_map m ! j)) k True)" for k q
    using m''(3) [of k q] assms(3) fi p(1) by (auto simp: moved_def less_Suc_eq)
  ultimately have "moved m (Suc i) m''" using m''(2,4,5) assms(3) by (simp add: moved_def)
  then show ?thesis using m''(1) True p(1) by (simp add: is_full_def)
qed

lemma grow_map_moves:
  assumes "mux_ok m"
  obtains m' where "grow_map (insert_map_entry (Suc d) True) True (length (mr_map m) * 2) m = Some m'" and "moved m (length (mr_map m)) m'"
proof -
  let ?step = "\<lambda>i m'. if me_type (mr_map m ! i) = MAP_ENTRY_TYPE_FULL
      then insert_map_entry (Suc d) True (me_record (mr_map m ! i)) (me_agent (mr_map m ! i)) m' else Some m'"
  have size: "2 \<le> length (mr_map m)" using assms by (simp add: mux_ok_def)
  have "\<exists>m'. each [i..<length (mr_map m)] ?step m1 = Some m' \<and> moved m (length (mr_map m)) m'" if "moved m i m1" "i \<le> length (mr_map m)" for i m1
    using that
  proof (induction "length (mr_map m) - i" arbitrary: i m1)
    case (Suc n)
    then have i: "i < length (mr_map m)" by simp
    obtain m2 where "?step i m1 = Some m2" "moved m (Suc i) m2" using moved_step [OF assms i Suc(3), of d True] by blast
    moreover have "[i..<length (mr_map m)] = i # [Suc i..<length (mr_map m)]" using i by (simp add: upt_rec)
    ultimately show ?case using Suc(1) [of "Suc i" m2] Suc(2) i by simp
  qed simp
  moreover have "moved m 0 (empty_map (2 * length (mr_map m)) m)"
    using empty_map_ok [of "2 * length (mr_map m)" m] empty_map_maps size by (simp add: moved_def empty_map_def)
  ultimately obtain m' where "each [0..<length (mr_map m)] ?step (empty_map (2 * length (mr_map m)) m) = Some m'" "moved m (length (mr_map m)) m'"
    by blast
  moreover have "grow_map (insert_map_entry (Suc d) True) True (length (mr_map m) * 2) m
      = each [0..<length (mr_map m)] ?step (empty_map (2 * length (mr_map m)) m)"
    using size unfolding grow_map_def empty_map_def Let_def by (cases "mr_map m = []") (auto simp: mult.commute)
  ultimately show thesis using that by presburger
qed

lemma insert_map_entry_ok:
  assumes "mux_ok m" and "\<And>q. \<not> mux_maps m k q" and "inet_family (ar_addr k)"
  obtains m' where "insert_map_entry (Suc (Suc d)) True k (Some p) m = Some m'" and "mux_ok m'"
    and "\<And>k' q. mux_maps m' k' q \<longleftrightarrow> mux_maps m k' q \<or> q = p \<and> addr_record_is_equal k k' True"
proof (cases "mr_map_count m * 2 < int (length (mr_map m))")
  case True
  then show thesis using insert_without_growth [OF assms(1,2) True assms(3), of "Suc d" True p] that by metis
next
  case False
  obtain i where i: "find_map_entry m k True = Some (Some i)" "\<not> is_full (mr_map m ! i)" using place_for_new [OF assms(1,2)] by blast
  obtain m1 where g: "grow_map (insert_map_entry (Suc d) True) True (length (mr_map m) * 2) m = Some m1" "moved m (length (mr_map m)) m1"
    using grow_map_moves [OF assms(1)] by blast
  have maps: "mux_maps m1 k' q \<longleftrightarrow> mux_maps m k' q" for k' q
  proof -
    have "mux_maps m1 k' q \<longleftrightarrow> (\<exists>j<length (mr_map m). full_at m j \<and> me_agent (mr_map m ! j) = Some q
        \<and> addr_record_is_equal (me_record (mr_map m ! j)) k' True)" using g(2) by (simp add: moved_def)
    then show ?thesis unfolding mux_maps_def [of m] by (auto simp: full_at_def)
  qed
  have "mr_map_count m1 * 2 < int (length (mr_map m1))" using g(2) assms(1) by (simp add: moved_def mux_ok_def)
  moreover have "mux_ok m1" using g(2) by (simp add: moved_def)
  ultimately obtain m' where "insert_map_entry (Suc d) True k (Some p) m1 = Some m'" "mux_ok m'"
    "\<And>k' q. mux_maps m' k' q \<longleftrightarrow> mux_maps m1 k' q \<or> q = p \<and> addr_record_is_equal k k' True"
    using insert_without_growth [of m1 k d True p] assms(2,3) maps by metis
  moreover have "insert_map_entry (Suc (Suc d)) True k (Some p) m = insert_map_entry (Suc d) True k (Some p) m1"
    using i False g(1) by (simp add: is_full_def Let_def del: insert_map_entry.simps(2) add: insert_map_entry.simps(2) [of "Suc d"])
  ultimately show thesis using that maps by metis
qed

text \<open>Without memory for a larger table the code calls itself for ever.\<close>

lemma insert_without_memory:
  assumes "mux_ok m" and "\<And>q. \<not> mux_maps m k q" and "int (length (mr_map m)) \<le> mr_map_count m * 2"
  shows "insert_map_entry d False k agent m = None"
proof (induction d)
  case (Suc d)
  obtain i where "find_map_entry m k True = Some (Some i)" "\<not> is_full (mr_map m ! i)" using place_for_new [OF assms(1,2)] by blast
  then show ?case using Suc assms(3) by (simp add: is_full_def grow_map_def Let_def)
qed simp

subsection \<open>Removing\<close>

lemma remove_map_entries_ok:
  assumes "mux_ok m"
  obtains m' where "remove_map_entries p m = Some m'" and "mux_ok m'" and "\<And>k q. mux_maps m' k q \<longleftrightarrow> mux_maps m k q \<and> q \<noteq> p"
proof -
  let ?f = "\<lambda>e. if owned_by p e then e\<lparr>me_type := MAP_ENTRY_TYPE_DELETED, me_agent := None\<rparr> else e"
  let ?own = "filter (owned_by p) (mr_map m)"
  define m' where "m' = m\<lparr>mr_map := map ?f (mr_map m), mr_map_count := mr_map_count m - int (length ?own)\<rparr>"
  have "length (filter is_full es) = length (filter is_full (map ?f es)) + length (filter (owned_by p) es)" for es
    by (induction es) (auto simp: is_full_def owned_by_def)
  then have count: "length (filter is_full (mr_map m)) = length (filter is_full (map ?f (mr_map m))) + length ?own" .
  have at: "mr_map m' ! i = ?f (mr_map m ! i)" if "i < length (mr_map m)" for i using that by (simp add: m'_def)
  have full: "full_at m' i \<longleftrightarrow> full_at m i \<and> me_agent (mr_map m ! i) \<noteq> Some p" for i
    using at by (auto simp: full_at_def owned_by_def m'_def split: if_split_asm)
  have same: "find_map_entry m' k False = find_map_entry m k False" for k
    unfolding find_map_entry_def Let_def by (auto simp: m'_def map_stops_def owned_by_def intro!: find_entry_loop_cong split: if_split_asm)
  have "find_map_entry m' (me_record (mr_map m' ! i)) False = Some (Some i)" if "full_at m' i" for i
    using that full [of i] assms at [of i] same by (auto simp: mux_ok_def full_at_def)
  then have "mux_ok m'" using assms count by (auto simp: mux_ok_def m'_def is_full_def owned_by_def)
  moreover have "mux_maps m' k q \<longleftrightarrow> mux_maps m k q \<and> q \<noteq> p" for k q
    using full at unfolding mux_maps_def by (auto simp: owned_by_def full_at_def)
  moreover have "remove_map_entries p m = Some m'"
    using assms count by (simp add: remove_map_entries_def m'_def mux_ok_def)
  ultimately show thesis using that by blast
qed

subsection \<open>Refinement\<close>

text \<open>What happens to the map: an agent claims the address of a request, when the address belongs to nobody, and an agent leaves.\<close>

datatype map_op = Claim addr_record nat | Leave nat

fun map_step :: "('m \<Rightarrow> addr_record \<Rightarrow> nat option option) \<Rightarrow> (addr_record \<Rightarrow> nat \<Rightarrow> 'm \<Rightarrow> 'm option) \<Rightarrow> (nat \<Rightarrow> 'm \<Rightarrow> 'm option) \<Rightarrow> map_op \<Rightarrow> 'm \<Rightarrow> 'm option" where
  "map_step look add leave (Claim k p) m = do { x \<leftarrow> look m k; if x = None then add k p m else Some m }"
| "map_step look add leave (Leave p) m = leave p m"

fun map_run :: "('m \<Rightarrow> addr_record \<Rightarrow> nat option option) \<Rightarrow> (addr_record \<Rightarrow> nat \<Rightarrow> 'm \<Rightarrow> 'm option) \<Rightarrow> (nat \<Rightarrow> 'm \<Rightarrow> 'm option) \<Rightarrow> map_op list \<Rightarrow> 'm \<Rightarrow> 'm option" where
  "map_run look add leave [] m = Some m"
| "map_run look add leave (x # xs) m = do { m1 \<leftarrow> map_step look add leave x m; map_run look add leave xs m1 }"

text \<open>The specification: a partial function.\<close>

fun spec_step :: "map_op \<Rightarrow> (addr_record \<Rightarrow> nat option) \<Rightarrow> addr_record \<Rightarrow> nat option" where
  "spec_step (Claim k p) s = (if s k = None then (\<lambda>k'. if addr_record_is_equal k k' True then Some p else s k') else s)"
| "spec_step (Leave p) s = (\<lambda>k. if s k = Some p then None else s k)"

fun inet_op :: "map_op \<Rightarrow> bool" where
  "inet_op (Claim k p) = inet_family (ar_addr k)"
| "inet_op (Leave p) = True"

locale address_map =
  fixes inv :: "'m \<Rightarrow> bool"
    and look :: "'m \<Rightarrow> addr_record \<Rightarrow> nat option option"
    and add :: "addr_record \<Rightarrow> nat \<Rightarrow> 'm \<Rightarrow> 'm option"
    and leave :: "nat \<Rightarrow> 'm \<Rightarrow> 'm option"
  assumes look_total: "inv m \<Longrightarrow> \<exists>x. look m k = Some x"
    and look_add: "inv m \<Longrightarrow> inet_family (ar_addr k) \<Longrightarrow> look m k = Some None \<Longrightarrow>
      \<exists>m'. add k p m = Some m' \<and> inv m' \<and> (\<forall>k'. look m' k' = (if addr_record_is_equal k k' True then Some (Some p) else look m k'))"
    and look_leave: "inv m \<Longrightarrow> \<exists>m'. leave p m = Some m' \<and> inv m' \<and> (\<forall>k. look m' k = (if look m k = Some (Some p) then Some None else look m k))"
begin

lemma step_refines:
  assumes "inv m" and "inet_op x" and "\<And>k. look m k = Some (s k)"
  shows "\<exists>m'. map_step look add leave x m = Some m' \<and> inv m' \<and> (\<forall>k. look m' k = Some (spec_step x s k))"
proof (cases x)
  case (Claim k p)
  show ?thesis
  proof (cases "s k")
    case None
    then have "look m k = Some None" using assms(3) by simp
    then obtain m' where "add k p m = Some m'" "inv m'" "\<forall>k'. look m' k' = (if addr_record_is_equal k k' True then Some (Some p) else look m k')"
      using look_add [OF assms(1), of k p] assms(2) Claim by auto
    then show ?thesis using Claim None assms(3) by auto
  qed (use Claim assms in auto)
next
  case (Leave p)
  then show ?thesis using look_leave [OF assms(1), of p] assms(3) by fastforce
qed

lemma run_refines:
  "inv m \<Longrightarrow> list_all inet_op xs \<Longrightarrow> (\<And>k. look m k = Some (s k)) \<Longrightarrow>
     \<exists>m'. map_run look add leave xs m = Some m' \<and> inv m' \<and> (\<forall>k. look m' k = Some (fold spec_step xs s k))"
proof (induction xs arbitrary: m s)
  case (Cons x xs)
  then obtain m1 where m1: "map_step look add leave x m = Some m1" "inv m1" "\<forall>k. look m1 k = Some (spec_step x s k)"
    using step_refines [of m x s] by auto
  then show ?case using Cons.IH [of m1 "spec_step x s"] Cons.prems by auto
qed auto

text \<open>An agent that has left is not found again unless it claims an address anew.\<close>

lemma left_not_found:
  assumes "inv m" and "list_all inet_op xs" and "\<And>k. look m k = Some (s k)" and "\<And>k. Claim k p \<notin> set xs"
  shows "\<exists>m'. map_run look add leave (Leave p # xs) m = Some m' \<and> (\<forall>k. look m' k \<noteq> Some (Some p))"
proof -
  have "fold spec_step ys t k \<noteq> Some p" if "\<And>k. Claim k p \<notin> set ys" "\<And>k. t k \<noteq> Some p" for ys t k
    using that
  proof (induction ys arbitrary: t)
    case (Cons y ys)
    have "spec_step y t k \<noteq> Some p" for k using Cons.prems by (cases y) auto
    then show ?case using Cons by auto
  qed simp
  from this [of xs "spec_step (Leave p) s"] show ?thesis
    using run_refines [of m "Leave p # xs" s] assms by fastforce
qed

end

lemma mapped_agent_eq:
  assumes "mux_ok m" and "mux_ok m'" and "\<And>q. mux_maps m' k q \<longleftrightarrow> mux_maps m k q"
  shows "mapped_agent m' k = mapped_agent m k"
  using assms mapped_agent_iff [OF assms(1), of k] mapped_agent_iff [OF assms(2), of k] mapped_agent_total [OF assms(1), of k] mapped_agent_total [OF assms(2), of k]
  by (metis option.exhaust)

lemma mapped_agent_None: "mux_ok m \<Longrightarrow> mapped_agent m k = Some None \<longleftrightarrow> (\<forall>q. \<not> mux_maps m k q)"
  using mapped_agent_iff [of m k] mapped_agent_total [of m k] by (metis not_None_eq option.inject)

interpretation mux: address_map mux_ok mapped_agent "\<lambda>k p. insert_map_entry map_depth True k (Some p)" remove_map_entries
proof
  fix m k p
  assume ok: "mux_ok m"
  show "\<exists>x. mapped_agent m k = Some x" using ok by (rule mapped_agent_total)
  obtain m' where m': "remove_map_entries p m = Some m'" "mux_ok m'" "\<And>k q. mux_maps m' k q \<longleftrightarrow> mux_maps m k q \<and> q \<noteq> p"
    using remove_map_entries_ok [OF ok] by blast
  have "mapped_agent m' k = (if mapped_agent m k = Some (Some p) then Some None else mapped_agent m k)" for k
  proof (cases "mux_maps m k p")
    case True
    then have only: "mapped_agent m k = Some (Some p)" using mapped_agent_iff [OF ok] by blast
    then have "\<not> mux_maps m' k q" for q using m'(3) mapped_agent_iff [OF ok, of k q] by auto
    then show ?thesis using only mapped_agent_None [OF m'(2)] by auto
  next
    case False
    then show ?thesis using mapped_agent_eq [OF ok m'(2), of k] m'(3) mapped_agent_iff [OF ok, of k p] by auto
  qed
  then show "\<exists>m'. remove_map_entries p m = Some m' \<and> mux_ok m' \<and> (\<forall>k. mapped_agent m' k = (if mapped_agent m k = Some (Some p) then Some None else mapped_agent m k))"
    using m' by blast
next
  fix m k p
  assume ok: "mux_ok m" and inet: "inet_family (ar_addr k)" and none: "mapped_agent m k = Some None"
  have new: "\<not> mux_maps m k q" for q using none mapped_agent_None [OF ok] by blast
  obtain m' where m': "insert_map_entry (Suc (Suc 0)) True k (Some p) m = Some m'" "mux_ok m'"
    "\<And>k' q. mux_maps m' k' q \<longleftrightarrow> mux_maps m k' q \<or> q = p \<and> addr_record_is_equal k k' True"
    by (rule insert_map_entry_ok [OF ok new inet, of 0 p]) blast
  have "mapped_agent m' k' = (if addr_record_is_equal k k' True then Some (Some p) else mapped_agent m k')" for k'
    using mapped_agent_iff [OF m'(2), of k' p] mapped_agent_eq [OF ok m'(2), of k'] m'(3) by auto
  then show "\<exists>m'. insert_map_entry map_depth True k (Some p) m = Some m' \<and> mux_ok m'
      \<and> (\<forall>k'. mapped_agent m' k' = (if addr_record_is_equal k k' True then Some (Some p) else mapped_agent m k'))"
    using m'(1,2) unfolding map_depth_def numeral_2_eq_2 by blast
qed

text \<open>(C39) The map of the multiplexed backend, an open addressing table with deletion marks that grows by rehashing, refines a
  partial function from addresses to agents.  From a fresh map, over any sequence of claims and departures, with memory for
  the tables, the code returns, and looking an address up then gives what the partial function gives: the agent that claimed it, until that
  agent leaves.\<close>

theorem mux_map_refines:
  assumes "list_all inet_op xs"
  shows "\<exists>m. map_run mapped_agent (\<lambda>k p. insert_map_entry map_depth True k (Some p)) remove_map_entries xs (empty_map INITIAL_MAP_SIZE impl) = Some m
    \<and> (\<forall>k. mapped_agent m k = Some (fold spec_step xs (\<lambda>_. None) k))"
proof -
  have ok: "mux_ok (empty_map INITIAL_MAP_SIZE impl)" by (rule empty_map_ok) (simp add: INITIAL_MAP_SIZE_def)
  moreover have "mapped_agent (empty_map INITIAL_MAP_SIZE impl) k = Some None" for k
    using mapped_agent_None [OF ok, of k] empty_map_maps by blast
  ultimately show ?thesis using mux.run_refines [of "empty_map INITIAL_MAP_SIZE impl" xs "\<lambda>_. None"] assms by blast
qed

definition demo_address :: "byte \<Rightarrow> addr_record" where
  "demo_address b = \<lparr>ar_addr = Sin 0x1234 [192, 0, 2, b], ar_len = 16, ar_socktype = SOCK_DGRAM\<rparr>"

definition demo_mux :: mux_registry where
  "demo_mux = \<lparr>mr_index = 0, mr_port = 5000, mr_sock = 3, mr_send_ds = 0, mr_map = [], mr_map_count = 0, mr_cb_mux_incoming = False\<rparr>"

theorem mux_map_refines_witness:
  "\<exists>m. map_run mapped_agent (\<lambda>k p. insert_map_entry map_depth True k (Some p)) remove_map_entries
       [Claim (demo_address 1) 7, Claim (demo_address 2) 8, Leave 7, Claim (demo_address 1) 8] (empty_map INITIAL_MAP_SIZE demo_mux) = Some m
     \<and> mapped_agent m (demo_address 1) = Some (Some 8) \<and> mapped_agent m (demo_address 3) = Some None"
proof -
  have "list_all inet_op [Claim (demo_address 1) 7, Claim (demo_address 2) 8, Leave 7, Claim (demo_address 1) 8]"
    by (simp add: demo_address_def inet_family_def)
  from mux_map_refines [OF this, of demo_mux] show ?thesis
    by (auto simp: demo_address_def addr_record_is_equal_def)
qed

end
