(* ===== verification/Conn_Inv.thy ===== *)
theory Conn_Inv
  imports Conn_Mode Mux_Map
begin

text \<open>
  The invariant of the connections (\<open>conn_ok\<close>): agents and registries refer to each other consistently, so that no pointer between
  them dangles.  The locale \<open>concurrency_mode\<close> states what \<^verbatim>\<open>conn.c\<close> needs from a mode.
\<close>

subsection \<open>The invariant\<close>

definition used_slots :: "'a option list \<Rightarrow> nat" where
  "used_slots slots = length (filter (\<lambda>s. s \<noteq> None) slots)"

definition seat :: "conn_world \<Rightarrow> nat \<Rightarrow> nat \<Rightarrow> nat \<Rightarrow> bool" where
  "seat w r i p \<longleftrightarrow> (case cw_registries w r of None \<Rightarrow> False | Some reg \<Rightarrow> i < length (cr_agents reg) \<and> cr_agents reg ! i = Some p)"

text \<open>The mode and the registry an implementation belongs to, and the mode of a registry.\<close>

fun impl_mode :: "conn_impl \<Rightarrow> juice_concurrency_mode" where
  "impl_mode (Poll_conn c) = JUICE_CONCURRENCY_MODE_POLL"
| "impl_mode (Mux_conn c) = JUICE_CONCURRENCY_MODE_MUX"
| "impl_mode (Thread_conn c) = JUICE_CONCURRENCY_MODE_THREAD"

fun impl_home :: "conn_impl \<Rightarrow> nat option" where
  "impl_home (Poll_conn c) = Some (pc_registry c)"
| "impl_home (Mux_conn c) = Some (mc_registry c)"
| "impl_home (Thread_conn c) = None"

fun registry_mode :: "registry_impl option \<Rightarrow> juice_concurrency_mode option" where
  "registry_mode None = None"
| "registry_mode (Some (Poll_registry i)) = Some JUICE_CONCURRENCY_MODE_POLL"
| "registry_mode (Some (Mux_registry i)) = Some JUICE_CONCURRENCY_MODE_MUX"

definition hosts :: "conn_world \<Rightarrow> nat \<Rightarrow> juice_concurrency_mode \<Rightarrow> bool" where
  "hosts w r m \<longleftrightarrow> (case cw_registries w r of None \<Rightarrow> False | Some reg \<Rightarrow> registry_mode (cr_impl reg) = Some m)"

text \<open>An agent with a connection sits in the slot it remembers, in the registry its implementation remembers.\<close>

definition agent_placed :: "conn_world \<Rightarrow> nat \<Rightarrow> conn_agent \<Rightarrow> bool" where
  "agent_placed w p ag \<longleftrightarrow>
     (\<forall>c. ca_impl ag = Some c \<longrightarrow>
        cfg_concurrency_mode (ag_config (ca_agent ag)) = impl_mode c \<and> ca_registry ag = impl_home c
        \<and> (impl_home c = None \<longrightarrow> ca_index ag < 0)
        \<and> (\<forall>r. impl_home c = Some r \<longrightarrow> 0 \<le> ca_index ag \<and> seat w r (nat (ca_index ag)) p \<and> hosts w r (impl_mode c)))"

definition seats_ok :: "conn_world \<Rightarrow> nat \<Rightarrow> conn_registry \<Rightarrow> bool" where
  "seats_ok w r reg \<longleftrightarrow>
     cr_agents reg \<noteq> [] \<and> cr_agents_count reg = int (used_slots (cr_agents reg))
     \<and> (\<forall>i p. i < length (cr_agents reg) \<longrightarrow> cr_agents reg ! i = Some p \<longrightarrow>
          (\<exists>ag. cw_agents w p = Some ag \<and> ca_impl ag \<noteq> None \<and> ca_registry ag = Some r \<and> ca_index ag = int i))"

text \<open>A multiplexing registry is in the table of these, and maps addresses to agents that sit in it.\<close>

fun impl_ok :: "conn_world \<Rightarrow> nat \<Rightarrow> nat option list \<Rightarrow> registry_impl option \<Rightarrow> bool" where
  "impl_ok w r agents None = False"
| "impl_ok w r agents (Some (Poll_registry i)) = (cw_entry w JUICE_CONCURRENCY_MODE_POLL = Some r)"
| "impl_ok w r agents (Some (Mux_registry m)) =
     (0 \<le> mr_index m \<and> nat (mr_index m) < length (cw_mux w) \<and> cw_mux w ! nat (mr_index m) = Some r
      \<and> mux_ok m \<and> (\<forall>k q. mux_maps m k q \<longrightarrow> Some q \<in> set agents))"

definition entries_valid :: "conn_world \<Rightarrow> bool" where
  "entries_valid w \<longleftrightarrow>
     cw_entry w JUICE_CONCURRENCY_MODE_THREAD = None
     \<and> (\<forall>r. cw_entry w JUICE_CONCURRENCY_MODE_POLL = Some r \<longrightarrow> hosts w r JUICE_CONCURRENCY_MODE_POLL)
     \<and> (\<forall>i r. i < length (cw_mux w) \<longrightarrow> cw_mux w ! i = Some r \<longrightarrow> (\<exists>m. mux_registry_of w r = Some m \<and> mr_index m = int i))
     \<and> cw_mux_count w = int (used_slots (cw_mux w))"

definition conn_ok :: "conn_world \<Rightarrow> bool" where
  "conn_ok w \<longleftrightarrow>
     (\<forall>p ag. cw_agents w p = Some ag \<longrightarrow> agent_placed w p ag)
     \<and> (\<forall>r reg. cw_registries w r = Some reg \<longrightarrow> seats_ok w r reg \<and> impl_ok w r (cr_agents reg) (cr_impl reg))
     \<and> entries_valid w"

lemma mux_registry_of_iff:
  "mux_registry_of w r = Some m \<longleftrightarrow> (\<exists>reg. cw_registries w r = Some reg \<and> cr_impl reg = Some (Mux_registry m))"
proof -
  have "(case i of Poll_registry _ \<Rightarrow> None | Mux_registry mr \<Rightarrow> Some mr) = Some m \<longleftrightarrow> i = Mux_registry m" for i by (cases i) auto
  then show ?thesis by (simp add: mux_registry_of_def bind_eq_Some_conv)
qed

lemma poll_registry_of_iff:
  "poll_registry_of w r = Some m \<longleftrightarrow> (\<exists>reg. cw_registries w r = Some reg \<and> cr_impl reg = Some (Poll_registry m))"
proof -
  have "(case i of Poll_registry rp \<Rightarrow> Some rp | Mux_registry _ \<Rightarrow> None) = Some m \<longleftrightarrow> i = Poll_registry m" for i by (cases i) auto
  then show ?thesis by (simp add: poll_registry_of_def bind_eq_Some_conv)
qed

lemma hosts_poll: "hosts w r JUICE_CONCURRENCY_MODE_POLL \<longleftrightarrow> (\<exists>i. poll_registry_of w r = Some i)"
  and hosts_mux: "hosts w r JUICE_CONCURRENCY_MODE_MUX \<longleftrightarrow> (\<exists>i. mux_registry_of w r = Some i)"
  and hosts_thread: "\<not> hosts w r JUICE_CONCURRENCY_MODE_THREAD"
  by (auto simp: hosts_def poll_registry_of_iff mux_registry_of_iff elim!: registry_mode.elims split: option.split_asm)

subsection \<open>Slots\<close>

lemma used_update:
  assumes "i < length xs"
  shows "used_slots (xs[i := x]) + (if xs ! i = None then 0 else 1) = used_slots xs + (if x = None then 0 else 1)"
proof -
  have "xs = take i xs @ xs ! i # drop (Suc i) xs" using assms by (simp add: id_take_nth_drop)
  then have "used_slots xs = used_slots (take i xs @ xs ! i # drop (Suc i) xs)" by simp
  moreover have "xs[i := x] = take i xs @ x # drop (Suc i) xs" using assms by (simp add: upd_conv_take_nth_drop)
  ultimately show ?thesis by (auto simp: used_slots_def)
qed

lemma used_append_None [simp]: "used_slots (xs @ replicate n None) = used_slots xs" and used_replicate [simp]: "used_slots (replicate n None) = 0"
  by (induction n) (auto simp: used_slots_def)

lemma used_zero: "used_slots xs = 0 \<Longrightarrow> i < length xs \<Longrightarrow> xs ! i = None"
  using nth_mem [of i xs] by (auto simp: used_slots_def filter_empty_conv)

text \<open>A free slot of the old or the longer array.\<close>

lemma free_slot_ok:
  assumes "length slots < n"
  shows "(case free_slot slots n w of
            (None, w1) \<Rightarrow> w1 = snd (conn_malloc w)
          | (Some (i, slots'), w1) \<Rightarrow> (w1 = w \<or> w1 = snd (conn_malloc w)) \<and> i < length slots' \<and> slots' ! i = None
              \<and> (\<exists>k. slots' = slots @ replicate k None))"
proof -
  let ?i = "length (takeWhile (\<lambda>s. s \<noteq> None) slots)"
  have le: "?i \<le> length slots" by (rule length_takeWhile_le)
  show ?thesis
  proof (cases "?i < length slots")
    case True
    then have "slots ! ?i = None" using nth_length_takeWhile by blast
    then show ?thesis using True by (auto simp: free_slot_def Let_def intro: exI [of _ 0])
  next
    case False
    then have "?i = length slots" using le by simp
    then show ?thesis using assms by (auto simp: free_slot_def Let_def nth_append split: prod.split)
  qed
qed

end
