(* ===== verification/Conn_Frame.thy ===== *)
theory Conn_Frame
  imports Conn_Inv
begin

text \<open>What the operations of the three modes leave alone, and the invariant \<open>conn_ok\<close> under the changes that remain.\<close>

subsection \<open>Frames\<close>

text \<open>Only the agent \<open>p\<close> changes, by \<open>f\<close>; system calls are not part of the comparison.\<close>

definition acts :: "nat \<Rightarrow> (conn_agent \<Rightarrow> conn_agent) \<Rightarrow> conn_world \<Rightarrow> conn_world \<Rightarrow> bool" where
  "acts p f w w' \<longleftrightarrow>
     cw_agents w' = (cw_agents w)(p := map_option f (cw_agents w p)) \<and> cw_registries w' = cw_registries w
     \<and> cw_entry w' = cw_entry w \<and> cw_mux w' = cw_mux w \<and> cw_mux_count w' = cw_mux_count w"

definition same :: "conn_world \<Rightarrow> conn_world \<Rightarrow> bool" where
  "same w w' \<longleftrightarrow> w' = w\<lparr>cw_env := cw_env w'\<rparr>"

lemma same_fields:
  assumes "same w w'"
  shows "cw_agents w' = cw_agents w" "cw_registries w' = cw_registries w" "cw_entry w' = cw_entry w" "cw_mux w' = cw_mux w"
    "cw_mux_count w' = cw_mux_count w"
  using assms by (metis same_def conn_world.simps(1-5) conn_world.surjective conn_world.update_convs(6))+

lemma same_refl [simp]: "same w w" and same_trans: "same u v \<Longrightarrow> same v w \<Longrightarrow> same u w"
  by (cases u, cases v, cases w, simp add: same_def)+

lemma same_env [simp]: "same w (w\<lparr>cw_env := e\<rparr>)"
  by (simp add: same_def)

lemma same_emit [simp]: "same w (conn_emit x w)" and same_now [simp]: "same w (snd (conn_now w))" and same_malloc [simp]: "same w (snd (conn_malloc w))"
  and same_socket [simp]: "same w (snd (conn_socket config w))" and same_thread_start [simp]: "same w (snd (conn_thread_start w))"
  by (simp_all add: conn_emit_def conn_now_def conn_malloc_def conn_socket_def conn_thread_start_def)

lemma same_emits: "same w (fold (\<lambda>dst. conn_emit (g dst)) dsts w)"
  by (induction dsts arbitrary: w) (auto intro: same_trans [OF same_emit])

lemma same_sendto_self [simp]: "same w (snd (conn_sendto_self sock w))"
  by (simp add: conn_sendto_self_def same_emits split: prod.split)

lemma same_sendto [simp]: "same w (snd (conn_sendto sock data dst w))"
  by (simp add: conn_sendto_def conn_emit_def)

lemma same_results:
  "conn_now w = (t, w') \<Longrightarrow> same w w'" "conn_malloc w = (q, w') \<Longrightarrow> same w w'" "conn_socket config w = (s, w') \<Longrightarrow> same w w'"
  "conn_thread_start w = (ret, w') \<Longrightarrow> same w w'" "conn_sendto_self sock w = (ret, w') \<Longrightarrow> same w w'"
  by (metis same_now snd_conv, metis same_malloc snd_conv, metis same_socket snd_conv, metis same_thread_start snd_conv, metis same_sendto_self snd_conv)

lemma same_ok: "same w w' \<Longrightarrow> conn_ok w' = conn_ok w"
proof -
  have env: "conn_ok (w\<lparr>cw_env := e\<rparr>) = conn_ok w" for e
  proof -
    have "impl_ok (w\<lparr>cw_env := e\<rparr>) r as i = impl_ok w r as i" for r as i by (cases "(w, r, as, i)" rule: impl_ok.cases) simp_all
    moreover have "seat (w\<lparr>cw_env := e\<rparr>) r i p = seat w r i p" "hosts (w\<lparr>cw_env := e\<rparr>) r m = hosts w r m" for r i p m
      by (simp_all add: seat_def hosts_def)
    ultimately show ?thesis
      by (simp add: conn_ok_def agent_placed_def seats_ok_def entries_valid_def mux_registry_of_def)
  qed
  assume "same w w'"
  then obtain e where "w' = w\<lparr>cw_env := e\<rparr>" by (auto simp: same_def)
  then show ?thesis using env by simp
qed

lemma acts_same: "acts p f w w' \<Longrightarrow> same w' w'' \<Longrightarrow> acts p f w w''"
  using same_fields by (simp add: acts_def)

lemma same_acts: "same w w' \<Longrightarrow> acts p f w' w'' \<Longrightarrow> acts p f w w''"
  using same_fields by (simp add: acts_def)

lemma acts_acts: "acts p f w w' \<Longrightarrow> acts p g w' w'' \<Longrightarrow> acts p (\<lambda>ag. g (f ag)) w w''"
  by (simp add: acts_def option.map_comp comp_def)

lemma acts_upd_agent [simp]: "acts p f w (upd_agent p f w)"
  by (simp add: acts_def upd_agent_def)

lemma same_is_acts: "same w w' \<Longrightarrow> acts p (\<lambda>ag. ag) w w'"
  using same_fields by (simp add: acts_def option.map_ident fun_upd_idem)

subsection \<open>Registries come and go\<close>

lemma agent_placed_mono:
  assumes "agent_placed w p ag"
    and "\<And>r reg. ca_registry ag = Some r \<Longrightarrow> cw_registries w r = Some reg \<Longrightarrow>
      \<exists>reg'. cw_registries w' r = Some reg' \<and> registry_mode (cr_impl reg') = registry_mode (cr_impl reg)
        \<and> (\<forall>i. i < length (cr_agents reg) \<longrightarrow> cr_agents reg ! i = Some p \<longrightarrow> i < length (cr_agents reg') \<and> cr_agents reg' ! i = Some p)"
  shows "agent_placed w' p ag"
  unfolding agent_placed_def
proof (intro allI impI, goal_cases)
  case (1 c)
  note a = assms(1) [unfolded agent_placed_def, rule_format, OF 1]
  show ?case
  proof (cases "impl_home c")
    case None then show ?thesis using a by simp
  next
    case (Some r)
    then obtain reg where reg: "cw_registries w r = Some reg" using a by (auto simp: seat_def split: option.split_asm)
    obtain reg' where "cw_registries w' r = Some reg'" "registry_mode (cr_impl reg') = registry_mode (cr_impl reg)"
      "\<forall>i. i < length (cr_agents reg) \<longrightarrow> cr_agents reg ! i = Some p \<longrightarrow> i < length (cr_agents reg') \<and> cr_agents reg' ! i = Some p"
      using assms(2) [OF _ reg] a Some by auto
    then show ?thesis using a Some reg by (simp add: seat_def hosts_def)
  qed
qed

definition empty_registry :: "registry_impl option \<Rightarrow> conn_registry" where
  "empty_registry i = \<lparr>cr_impl = i, cr_agents = replicate INITIAL_REGISTRY_SIZE None, cr_agents_count = 0\<rparr>"

lemma hosts_upd: "hosts w q m \<Longrightarrow> q \<noteq> r \<Longrightarrow> hosts (w\<lparr>cw_registries := (cw_registries w)(r := x)\<rparr>) q m"
  by (simp add: hosts_def)

lemma new_poll_registry_ok:
  assumes "conn_ok w" "cw_registries w r = None" "cw_entry w JUICE_CONCURRENCY_MODE_POLL = None"
  shows "conn_ok (w\<lparr>cw_registries := (cw_registries w)(r \<mapsto> empty_registry (Some (Poll_registry i))),
                     cw_entry := (cw_entry w)(JUICE_CONCURRENCY_MODE_POLL := Some r)\<rparr>)" (is "conn_ok ?w")
proof -
  have old: "cw_registries w q = Some reg \<Longrightarrow> q \<noteq> r" for q reg using assms(2) by auto
  have agents: "agent_placed ?w p ag" if "cw_agents w p = Some ag" for p ag
  proof -
    have "agent_placed w p ag" using assms(1) that by (simp add: conn_ok_def)
    then show ?thesis by (rule agent_placed_mono) (use old in auto)
  qed
  have regs: "seats_ok ?w q reg \<and> impl_ok ?w q (cr_agents reg) (cr_impl reg)" if "cw_registries w q = Some reg" for q reg
  proof -
    have "seats_ok w q reg" "impl_ok w q (cr_agents reg) (cr_impl reg)" using assms(1) that by (auto simp: conn_ok_def)
    then show ?thesis using assms(3)
      by (cases "(w, q, cr_agents reg, cr_impl reg)" rule: impl_ok.cases) (auto simp: seats_ok_def)
  qed
  have "entries_valid ?w" using assms old
    by (auto simp: conn_ok_def entries_valid_def hosts_def mux_registry_of_def empty_registry_def)
  moreover have "seats_ok ?w r (empty_registry (Some (Poll_registry i)))"
    by (simp add: seats_ok_def empty_registry_def INITIAL_REGISTRY_SIZE_def used_slots_def)
  ultimately show ?thesis using agents regs by (auto simp: conn_ok_def empty_registry_def)
qed

lemma new_mux_registry_ok:
  assumes "conn_ok w" "cw_registries w r = None" "mux_ok m" "\<And>k q. \<not> mux_maps m k q"
    and "cw_mux w1 = slots[i := Some r]" "mr_index m = int i" "i < length slots" "slots ! i = None" "slots = cw_mux w @ replicate k None"
    and "cw_agents w1 = cw_agents w" "cw_registries w1 = (cw_registries w)(r \<mapsto> empty_registry (Some (Mux_registry m)))"
    and "cw_mux_count w1 = cw_mux_count w + 1" "cw_entry w1 = (cw_entry w)(JUICE_CONCURRENCY_MODE_MUX := x)"
  shows "conn_ok w1"
proof -
  have old: "cw_registries w q = Some reg \<Longrightarrow> q \<noteq> r" for q reg using assms(2) by auto
  have keep: "cw_mux w1 ! j = Some q" "j < length (cw_mux w1)" if "j < length (cw_mux w)" "cw_mux w ! j = Some q" for j q
    using that assms(5,7,8,9) by (auto simp: nth_append nth_list_update)
  have came: "j < length (cw_mux w) \<and> cw_mux w ! j = Some q \<or> j = i \<and> q = r" if "j < length (cw_mux w1)" "cw_mux w1 ! j = Some q" for j q
    using that assms(5,7,9) by (auto simp: nth_append nth_list_update split: if_split_asm)
  have agents: "agent_placed w1 p ag" if "cw_agents w p = Some ag" for p ag
  proof -
    have "agent_placed w p ag" using assms(1) that by (simp add: conn_ok_def)
    then show ?thesis by (rule agent_placed_mono) (use old assms(11) in auto)
  qed
  have regs: "seats_ok w1 q reg \<and> impl_ok w1 q (cr_agents reg) (cr_impl reg)" if "cw_registries w q = Some reg" for q reg
  proof -
    have "seats_ok w q reg" "impl_ok w q (cr_agents reg) (cr_impl reg)" using assms(1) that by (auto simp: conn_ok_def)
    then show ?thesis using assms(10,13) keep
      by (cases "(w, q, cr_agents reg, cr_impl reg)" rule: impl_ok.cases) (auto simp: seats_ok_def)
  qed
  have "used_slots (cw_mux w1) = used_slots (cw_mux w) + 1" using used_update [OF assms(7), of "Some r"] assms(5,8,9) by simp
  then have "entries_valid w1" using assms(1,2,6,11,12,13) old
    by (auto simp: conn_ok_def entries_valid_def hosts_def mux_registry_of_def empty_registry_def dest!: came)
  moreover have "seats_ok w1 r (empty_registry (Some (Mux_registry m)))"
    by (simp add: seats_ok_def empty_registry_def INITIAL_REGISTRY_SIZE_def used_slots_def)
  ultimately show ?thesis using agents regs assms(3-11) by (auto simp: conn_ok_def empty_registry_def split: if_split_asm)
qed

text \<open>A registry without agents goes.\<close>

definition empty_seats :: "conn_world \<Rightarrow> nat \<Rightarrow> bool" where
  "empty_seats w r \<longleftrightarrow> (\<forall>i p. \<not> seat w r i p)"

lemma free_registry_ok:
  assumes "conn_ok w" "empty_seats w r" "cw_agents w1 = cw_agents w" "cw_registries w1 = (cw_registries w)(r := None)"
    and "hosts w r JUICE_CONCURRENCY_MODE_POLL \<and> cw_entry w1 = (cw_entry w)(JUICE_CONCURRENCY_MODE_POLL := None) \<and> cw_mux w1 = cw_mux w
           \<and> cw_mux_count w1 = cw_mux_count w
      \<or> (\<exists>m. mux_registry_of w r = Some m \<and> cw_entry w1 = (cw_entry w)(JUICE_CONCURRENCY_MODE_MUX := None)
           \<and> cw_mux w1 = (cw_mux w)[nat (mr_index m) := None] \<and> cw_mux_count w1 = cw_mux_count w - 1)"
  shows "conn_ok w1"
proof -
  have agents: "agent_placed w1 p ag" if p: "cw_agents w p = Some ag" for p ag
  proof (cases "ca_impl ag")
    case None then show ?thesis by (simp add: agent_placed_def)
  next
    case (Some c)
    have a: "agent_placed w p ag" using assms(1) p by (simp add: conn_ok_def)
    then have "ca_registry ag \<noteq> Some r" using Some assms(2) by (auto simp: agent_placed_def empty_seats_def)
    then show ?thesis using a assms(4) by (auto intro: agent_placed_mono)
  qed
  have old: "seats_ok w q reg" "impl_ok w q (cr_agents reg) (cr_impl reg)" if "cw_registries w q = Some reg" for q reg
    using assms(1) that by (auto simp: conn_ok_def)
  have seats: "seats_ok w1 q reg" if "cw_registries w q = Some reg" for q reg
    using old [OF that] assms(3) by (simp add: seats_ok_def)
  have ent: "entries_valid w" using assms(1) by (simp add: conn_ok_def)
  consider (poll) "hosts w r JUICE_CONCURRENCY_MODE_POLL" "cw_entry w1 = (cw_entry w)(JUICE_CONCURRENCY_MODE_POLL := None)"
      "cw_mux w1 = cw_mux w" "cw_mux_count w1 = cw_mux_count w"
    | (mux) m where "mux_registry_of w r = Some m" "cw_entry w1 = (cw_entry w)(JUICE_CONCURRENCY_MODE_MUX := None)"
      "cw_mux w1 = (cw_mux w)[nat (mr_index m) := None]" "cw_mux_count w1 = cw_mux_count w - 1"
    using assms(5) by blast
  then have "(\<forall>q reg. q \<noteq> r \<longrightarrow> cw_registries w q = Some reg \<longrightarrow> impl_ok w1 q (cr_agents reg) (cr_impl reg)) \<and> entries_valid w1"
  proof cases
    case poll
    obtain reg i where r: "cw_registries w r = Some reg" "cr_impl reg = Some (Poll_registry i)"
      using poll(1) by (auto simp: hosts_def split: option.split_asm elim!: registry_mode.elims)
    then have e: "cw_entry w JUICE_CONCURRENCY_MODE_POLL = Some r" using old(2) [OF r(1)] by simp
    have none: "mux_registry_of w r = None" using r by (simp add: mux_registry_of_def)
    have "impl_ok w1 q (cr_agents reg) (cr_impl reg)" if "q \<noteq> r" "cw_registries w q = Some reg" for q reg
      using old(2) [OF that(2)] poll that(1) e by (cases "(w, q, cr_agents reg, cr_impl reg)" rule: impl_ok.cases) auto
    moreover have "mux_registry_of w1 q = mux_registry_of w q" if "q \<noteq> r" for q using that assms(4) by (simp add: mux_registry_of_def)
    then have "entries_valid w1" using ent poll none by (auto simp: entries_valid_def) (metis option.distinct(1))
    ultimately show ?thesis by blast
  next
    case mux
    obtain reg where r: "cw_registries w r = Some reg" "cr_impl reg = Some (Mux_registry m)"
      using mux(1) by (auto simp: mux_registry_of_iff)
    have m: "0 \<le> mr_index m" "nat (mr_index m) < length (cw_mux w)" "cw_mux w ! nat (mr_index m) = Some r"
      using old(2) [OF r(1)] r(2) by auto
    have impl: "impl_ok w1 q (cr_agents reg) (cr_impl reg)" if "q \<noteq> r" "cw_registries w q = Some reg" for q reg
      using old(2) [OF that(2)] mux that(1) m
      by (cases "(w, q, cr_agents reg, cr_impl reg)" rule: impl_ok.cases) (auto simp: nth_list_update)
    have "mux_registry_of w1 q = mux_registry_of w q" "hosts w1 q x = hosts w q x" if "q \<noteq> r" for q x
      using that assms(4) by (simp_all add: mux_registry_of_def hosts_def)
    moreover have "\<not> hosts w r JUICE_CONCURRENCY_MODE_POLL" using r by (simp add: hosts_def)
    moreover have "used_slots (cw_mux w1) + 1 = used_slots (cw_mux w)" using used_update [OF m(2), of None] m(3) mux(3) by simp
    ultimately have "entries_valid w1" using ent mux m
      by (auto simp: entries_valid_def nth_list_update split: if_split_asm) (metis mux(1) nat_int option.inject)+
    with impl show ?thesis by blast
  qed
  then show ?thesis using agents seats assms(3,4) by (auto simp: conn_ok_def split: if_split_asm)
qed

end
