(* ===== verification/Conn_Modes.thy ===== *)
theory Conn_Modes
  imports Conn_Frame
begin

text \<open>
  The interface between \<^verbatim>\<open>conn.c\<close> and the modes, as a locale, and its three interpretations: what each backend does to the agents and
  registries when a connection begins and ends, under the invariant \<open>conn_ok\<close>.
\<close>

subsection \<open>The interface\<close>

text \<open>The memory for the next registry is not that of another one.\<close>

definition fresh_memory :: "conn_world \<Rightarrow> bool" where
  "fresh_memory w \<longleftrightarrow> (case fst (conn_malloc w) of None \<Rightarrow> True | Some r \<Rightarrow> cw_registries w r = None)"

definition listening :: "conn_registry \<Rightarrow> bool" where
  "listening reg \<longleftrightarrow> (case cr_impl reg of Some (Mux_registry m) \<Rightarrow> mr_cb_mux_incoming m | _ \<Rightarrow> False)"

text \<open>A registry after its agent \<open>p\<close> left: a map has lost the addresses of \<open>p\<close>.\<close>

fun purged :: "nat \<Rightarrow> registry_impl option \<Rightarrow> registry_impl option \<Rightarrow> bool" where
  "purged p (Some (Mux_registry m)) (Some (Mux_registry m')) =
     (mr_index m' = mr_index m \<and> mr_cb_mux_incoming m' = mr_cb_mux_incoming m \<and> mux_ok m'
      \<and> (\<forall>k q. mux_maps m' k q \<longleftrightarrow> mux_maps m k q \<and> q \<noteq> p))"
| "purged p i i' = (i' = i)"

definition left :: "nat \<Rightarrow> nat option \<Rightarrow> conn_world \<Rightarrow> conn_world \<Rightarrow> bool" where
  "left p home w w' \<longleftrightarrow>
     cw_agents w' = (cw_agents w)(p := map_option (set_impl None) (cw_agents w p))
     \<and> cw_entry w' = cw_entry w \<and> cw_mux w' = cw_mux w \<and> cw_mux_count w' = cw_mux_count w
     \<and> (\<forall>r. home \<noteq> Some r \<longrightarrow> cw_registries w' r = cw_registries w r)
     \<and> (\<forall>r reg. home = Some r \<longrightarrow> cw_registries w r = Some reg \<longrightarrow>
          (\<exists>i. cw_registries w' r = Some (reg\<lparr>cr_impl := i\<rparr>) \<and> purged p (cr_impl reg) i))"

locale concurrency_mode =
  fixes mode :: juice_concurrency_mode
    and homed :: bool
  assumes acquire: "conn_ok w \<Longrightarrow> fresh_memory w \<Longrightarrow>
      \<exists>acquired w1. acquire_registry mode config w = Some (acquired, w1) \<and> conn_ok w1 \<and> cw_agents w1 = cw_agents w
        \<and> (acquired = Some None \<longrightarrow> \<not> homed) \<and> (\<forall>r. acquired = Some (Some r) \<longrightarrow> homed \<and> hosts w1 r mode)"
    and release: "conn_ok w \<Longrightarrow> cw_registries w r = Some reg \<Longrightarrow> hosts w r mode \<Longrightarrow>
      \<exists>w'. release_registry mode (Some r) w = Some w' \<and> conn_ok w' \<and> cw_agents w' = cw_agents w
        \<and> cw_registries w' = (if cr_agents_count reg = 0 \<and> \<not> listening reg then (cw_registries w)(r := None) else cw_registries w)"
    and init: "homed = (home \<noteq> None) \<Longrightarrow>
      \<exists>ret w'. init_func (mode_entries mode) p home config w = Some (ret, w')
        \<and> (if ret = 0 then \<exists>c. impl_mode c = mode \<and> impl_home c = home \<and> acts p (set_impl (Some c)) w w'
           else acts p (\<lambda>ag. ag) w w' \<or> acts p (set_impl None) w w')"
    and interrupt: "cw_agents w p = Some ag \<Longrightarrow> ca_impl ag = Some c \<Longrightarrow> impl_mode c = mode \<Longrightarrow>
      (\<forall>r. impl_home c = Some r \<longrightarrow> hosts w r mode) \<Longrightarrow>
      \<exists>ret w' c'. interrupt_func (mode_entries mode) p w = Some (ret, w') \<and> impl_mode c' = mode \<and> impl_home c' = impl_home c
        \<and> acts p (\<lambda>ag. ag\<lparr>ca_impl := Some c'\<rparr>) w w'"
    and cleanup: "conn_ok w \<Longrightarrow> cw_agents w p = Some ag \<Longrightarrow> ca_impl ag = Some c \<Longrightarrow> impl_mode c = mode \<Longrightarrow>
      (\<forall>r. impl_home c = Some r \<longrightarrow> hosts w r mode) \<Longrightarrow>
      \<exists>w'. cleanup_func (mode_entries mode) p w = Some w' \<and> left p (impl_home c) w w'"
    and home: "impl_mode c = mode \<Longrightarrow> homed = (impl_home c \<noteq> None)"
    and modes: "hosts w r mode \<Longrightarrow> homed"

subsection \<open>Connections of the three kinds\<close>

lemma conn_of_iff:
  "poll_conn_of w p = Some pc \<longleftrightarrow> (\<exists>ag. cw_agents w p = Some ag \<and> ca_impl ag = Some (Poll_conn pc))"
  "mux_conn_of w p = Some mc \<longleftrightarrow> (\<exists>ag. cw_agents w p = Some ag \<and> ca_impl ag = Some (Mux_conn mc))"
  "thread_conn_of w p = Some tc \<longleftrightarrow> (\<exists>ag. cw_agents w p = Some ag \<and> ca_impl ag = Some (Thread_conn tc))"
proof -
  have "(case c of Poll_conn pc \<Rightarrow> Some pc | _ \<Rightarrow> None) = Some pc \<longleftrightarrow> c = Poll_conn pc"
    "(case c of Mux_conn mc \<Rightarrow> Some mc | _ \<Rightarrow> None) = Some mc \<longleftrightarrow> c = Mux_conn mc"
    "(case c of Thread_conn tc \<Rightarrow> Some tc | _ \<Rightarrow> None) = Some tc \<longleftrightarrow> c = Thread_conn tc" for c by (cases c; auto)+
  then show "poll_conn_of w p = Some pc \<longleftrightarrow> (\<exists>ag. cw_agents w p = Some ag \<and> ca_impl ag = Some (Poll_conn pc))"
    "mux_conn_of w p = Some mc \<longleftrightarrow> (\<exists>ag. cw_agents w p = Some ag \<and> ca_impl ag = Some (Mux_conn mc))"
    "thread_conn_of w p = Some tc \<longleftrightarrow> (\<exists>ag. cw_agents w p = Some ag \<and> ca_impl ag = Some (Thread_conn tc))"
    by (simp_all add: poll_conn_of_def mux_conn_of_def thread_conn_of_def bind_eq_Some_conv)
qed

lemma acts_upd_conn:
  assumes "cw_agents w p = Some ag"
  shows "ca_impl ag = Some (Poll_conn pc) \<Longrightarrow> acts p (\<lambda>ag. ag\<lparr>ca_impl := Some (Poll_conn (f pc))\<rparr>) w (upd_poll p f w)"
    and "ca_impl ag = Some (Mux_conn mc) \<Longrightarrow> acts p (\<lambda>ag. ag\<lparr>ca_impl := Some (Mux_conn (g mc))\<rparr>) w (upd_mux p g w)"
    and "ca_impl ag = Some (Thread_conn tc) \<Longrightarrow> acts p (\<lambda>ag. ag\<lparr>ca_impl := Some (Thread_conn (h tc))\<rparr>) w (upd_thread p h w)"
  using assms by (simp_all add: acts_def upd_poll_def upd_mux_def upd_thread_def upd_agent_def)

lemma set_impl_again [simp]: "set_impl i (ag\<lparr>ca_impl := c\<rparr>) = set_impl i ag" "set_impl i (set_impl c ag) = set_impl i ag"
  by (cases ag, simp add: set_impl_def)+

lemma left_acts: "acts p (set_impl None) w w' \<Longrightarrow> mux_registry_of w r = None \<Longrightarrow> left p (Some r) w w'"
  and left_acts_none: "acts p (set_impl None) w w' \<Longrightarrow> left p None w w'"
proof -
  assume a: "acts p (set_impl None) w w'" and n: "mux_registry_of w r = None"
  have "purged p (cr_impl reg) (cr_impl reg)" if "cw_registries w r = Some reg" for reg
    using n that by (cases "(p, cr_impl reg, cr_impl reg)" rule: purged.cases) (auto simp: mux_registry_of_def)
  then have "\<exists>i. reg = reg\<lparr>cr_impl := i\<rparr> \<and> purged p (cr_impl reg) i" if "cw_registries w r = Some reg" for reg
    using that by (intro exI [of _ "cr_impl reg"]) simp
  then show "left p (Some r) w w'" using a by (simp add: left_def acts_def)
qed (simp add: left_def acts_def)

lemma create_registry_ok:
  assumes "conn_ok w" "fresh_memory w"
    and "\<And>w2 r. same w w2 \<Longrightarrow> cw_registries w r = None \<Longrightarrow>
      \<exists>ret w3. init r config (w2\<lparr>cw_registries := (cw_registries w2)(r \<mapsto> empty_registry None)\<rparr>) = Some (ret, w3) \<and> cw_agents w3 = cw_agents w
        \<and> (if ret = 0 then conn_ok (w3\<lparr>cw_entry := (cw_entry w3)(mode := Some r)\<rparr>) \<and> hosts w3 r mode
           else same w (free_registry r w3))"
  shows "\<exists>acquired w1. create_registry mode init config w = Some (acquired, w1) \<and> conn_ok w1 \<and> cw_agents w1 = cw_agents w
    \<and> acquired \<noteq> Some None \<and> (\<forall>r. acquired = Some (Some r) \<longrightarrow> hosts w1 r mode)"
proof -
  obtain q w1 where m: "conn_malloc w = (q, w1)" by fastforce
  then have s1: "same w w1" by (rule same_results)
  show ?thesis
  proof (cases q)
    case None
    then show ?thesis using m same_ok [OF s1] same_fields [OF s1] assms(1) by (simp add: create_registry_def)
  next
    case (Some r)
    obtain q2 w2 where m2: "conn_malloc w1 = (q2, w2)" by fastforce
    then have s2: "same w w2" using same_trans [OF s1] same_results(2) by blast
    show ?thesis
    proof (cases q2)
      case None
      then show ?thesis using m m2 Some same_ok [OF s2] same_fields [OF s2] assms(1) by (simp add: create_registry_def)
    next
      case (Some x)
      have "cw_registries w r = None" using assms(2) m \<open>q = Some r\<close> by (simp add: fresh_memory_def)
      from assms(3) [OF s2 this] obtain ret w3 where i:
        "init r config (w2\<lparr>cw_registries := (cw_registries w2)(r \<mapsto> empty_registry None)\<rparr>) = Some (ret, w3)" "cw_agents w3 = cw_agents w"
        "if ret = 0 then conn_ok (w3\<lparr>cw_entry := (cw_entry w3)(mode := Some r)\<rparr>) \<and> hosts w3 r mode else same w (free_registry r w3)" by blast
      have e: "create_registry mode init config w =
          Some (if ret \<noteq> 0 then (None, free_registry r w3) else (Some (Some r), w3\<lparr>cw_entry := (cw_entry w3)(mode := Some r)\<rparr>))"
        using m m2 Some \<open>q = Some r\<close> i(1) by (simp add: create_registry_def empty_registry_def)
      show ?thesis
      proof (cases "ret = 0")
        case True
        then show ?thesis using e i by (simp add: hosts_def)
      next
        case False
        then show ?thesis using e i same_ok [of w "free_registry r w3"] assms(1) by (simp add: free_registry_def)
      qed
    qed
  qed
qed

end
