(* ===== verification/Conn_Backends.thy ===== *)
theory Conn_Backends
  imports Conn_Modes
begin

text \<open>The three modes provide the interface \<open>concurrency_mode\<close>.\<close>

lemma sameI:
  "cw_agents w' = cw_agents w \<Longrightarrow> cw_registries w' = cw_registries w \<Longrightarrow> cw_entry w' = cw_entry w \<Longrightarrow> cw_mux w' = cw_mux w \<Longrightarrow>
   cw_mux_count w' = cw_mux_count w \<Longrightarrow> same w w'"
  by (cases w, cases w', simp add: same_def)

lemma freed_same:
  assumes "cw_registries w r = None" "same w w2" "cw_registries w3 = (cw_registries w2)(r := x)" "cw_agents w3 = cw_agents w2"
    "cw_entry w3 = cw_entry w2" "cw_mux w3 = cw_mux w2" "cw_mux_count w3 = cw_mux_count w2"
  shows "same w (free_registry r w3)"
  using assms(1,3-) same_fields [OF assms(2)] by (intro sameI) (simp_all add: free_registry_def fun_upd_idem)

lemma registered_fields:
  "cw_registries (upd_registry r f w) = (cw_registries w)(r := map_option f (cw_registries w r))"
  "cw_agents (upd_registry r f w) = cw_agents w" "cw_entry (upd_registry r f w) = cw_entry w" "cw_mux (upd_registry r f w) = cw_mux w"
  "cw_mux_count (upd_registry r f w) = cw_mux_count w"
  by (simp_all add: upd_registry_def)

lemma emit_fields [simp]:
  "cw_registries (conn_emit x w) = cw_registries w" "cw_agents (conn_emit x w) = cw_agents w" "cw_entry (conn_emit x w) = cw_entry w"
  "cw_mux (conn_emit x w) = cw_mux w" "cw_mux_count (conn_emit x w) = cw_mux_count w"
  using same_fields [OF same_emit] by auto

lemma conn_ok_registry:
  "conn_ok w \<Longrightarrow> cw_registries w r = Some reg \<Longrightarrow> seats_ok w r reg \<and> impl_ok w r (cr_agents reg) (cr_impl reg)"
  by (simp add: conn_ok_def)

lemma count_zero_empty: "seats_ok w r reg \<Longrightarrow> cw_registries w r = Some reg \<Longrightarrow> cr_agents_count reg = 0 \<Longrightarrow> empty_seats w r"
  using used_zero [of "cr_agents reg"] by (auto simp: seats_ok_def empty_seats_def seat_def)

subsection \<open>Polling\<close>

lemma poll_registry_init_ok:
  assumes "conn_ok w" "cw_entry w JUICE_CONCURRENCY_MODE_POLL = None" "same w w2" "cw_registries w r = None"
  shows "\<exists>ret w3. conn_poll_registry_init r config (w2\<lparr>cw_registries := (cw_registries w2)(r \<mapsto> empty_registry None)\<rparr>) = Some (ret, w3)
    \<and> cw_agents w3 = cw_agents w
    \<and> (if ret = 0 then conn_ok (w3\<lparr>cw_entry := (cw_entry w3)(JUICE_CONCURRENCY_MODE_POLL := Some r)\<rparr>) \<and> hosts w3 r JUICE_CONCURRENCY_MODE_POLL
       else same w (free_registry r w3))"
proof -
  let ?w = "w2\<lparr>cw_registries := (cw_registries w2)(r \<mapsto> empty_registry None)\<rparr>"
  obtain q w3 where m: "conn_malloc ?w = (q, w3)" by fastforce
  note f3 = same_fields [OF same_results(2) [OF m]]
  note f = same_fields [OF assms(3)]
  have fail: "same w (free_registry r w3)" by (rule freed_same [OF assms(4,3)]) (simp_all add: f3)
  show ?thesis
  proof (cases "q = None \<or> ce_pipe (cw_env w3) (ce_threads (cw_env w3)) = None")
    case True
    then have "conn_poll_registry_init r config ?w = Some (-1, w3)" using m by (auto simp: conn_poll_registry_init_def)
    then show ?thesis using fail f f3 by (intro exI [of _ "-1"] exI [of _ w3]) simp
  next
    case False
    then obtain rd wr where pipe: "ce_pipe (cw_env w3) (ce_threads (cw_env w3)) = Some (rd, wr)" "q \<noteq> None" by auto
    define i where "i = \<lparr>rp_interrupt_pipe_out = wr, rp_interrupt_pipe_in = rd\<rparr>"
    define u where "u = upd_registry r (\<lambda>reg. reg\<lparr>cr_impl := Some (Poll_registry i)\<rparr>) w3"
    obtain ret w4 where t: "conn_thread_start u = (ret, w4)" by fastforce
    note f4 = same_fields [OF same_results(4) [OF t]]
    have u: "cw_registries u = (cw_registries w2)(r \<mapsto> empty_registry (Some (Poll_registry i)))" "cw_agents u = cw_agents w2"
      "cw_entry u = cw_entry w2" "cw_mux u = cw_mux w2" "cw_mux_count u = cw_mux_count w2"
      by (simp_all add: u_def registered_fields f3 empty_registry_def)
    define z where "z = upd_registry r (\<lambda>reg. reg\<lparr>cr_impl := None\<rparr>) (conn_emit (Out_close rd) (conn_emit (Out_close wr) w4))"
    have e: "conn_poll_registry_init r config ?w = Some (if ret \<noteq> 0 then (-1, z) else (0, w4))"
      using m pipe t by (auto simp: conn_poll_registry_init_def z_def u_def i_def)
    show ?thesis
    proof (cases "ret = 0")
      case True
      let ?n = "w\<lparr>cw_registries := (cw_registries w)(r \<mapsto> empty_registry (Some (Poll_registry i))),
          cw_entry := (cw_entry w)(JUICE_CONCURRENCY_MODE_POLL := Some r)\<rparr>"
      have "conn_ok ?n" by (rule new_poll_registry_ok [OF assms(1,4,2)])
      moreover have "same ?n (w4\<lparr>cw_entry := (cw_entry w4)(JUICE_CONCURRENCY_MODE_POLL := Some r)\<rparr>)"
        by (rule sameI) (simp_all add: f4 u f)
      ultimately have "conn_ok (w4\<lparr>cw_entry := (cw_entry w4)(JUICE_CONCURRENCY_MODE_POLL := Some r)\<rparr>)" using same_ok by blast
      moreover have "hosts w4 r JUICE_CONCURRENCY_MODE_POLL" by (simp add: hosts_def f4 u empty_registry_def)
      ultimately show ?thesis using e True f4(1) u(2) f(1) by auto
    next
      case False
      have "same w (free_registry r z)" by (rule freed_same [OF assms(4,3)]) (simp_all add: z_def registered_fields f4 u)
      moreover have "cw_agents z = cw_agents w" by (simp add: z_def registered_fields f4 u f)
      ultimately show ?thesis using e False by auto
    qed
  qed
qed

lemma poll_acquire:
  assumes "conn_ok w" "fresh_memory w"
  shows "\<exists>acquired w1. acquire_registry JUICE_CONCURRENCY_MODE_POLL config w = Some (acquired, w1) \<and> conn_ok w1 \<and> cw_agents w1 = cw_agents w
        \<and> (acquired = Some None \<longrightarrow> \<not> True) \<and> (\<forall>r. acquired = Some (Some r) \<longrightarrow> True \<and> hosts w1 r JUICE_CONCURRENCY_MODE_POLL)"
proof (cases "cw_entry w JUICE_CONCURRENCY_MODE_POLL")
  case None
  have "\<exists>acquired w1. create_registry JUICE_CONCURRENCY_MODE_POLL conn_poll_registry_init config w = Some (acquired, w1) \<and> conn_ok w1
      \<and> cw_agents w1 = cw_agents w \<and> acquired \<noteq> Some None \<and> (\<forall>r. acquired = Some (Some r) \<longrightarrow> hosts w1 r JUICE_CONCURRENCY_MODE_POLL)"
    by (rule create_registry_ok [OF assms]) (rule poll_registry_init_ok [OF assms(1) None])
  then show ?thesis using None by (auto simp: acquire_registry_def)
next
  case (Some r)
  then have "hosts w r JUICE_CONCURRENCY_MODE_POLL" using assms(1) by (simp add: conn_ok_def entries_valid_def)
  then show ?thesis using Some assms(1) by (auto simp: acquire_registry_def hosts_def split: option.split_asm)
qed

lemma poll_release:
  assumes "conn_ok w" "cw_registries w r = Some reg" "hosts w r JUICE_CONCURRENCY_MODE_POLL"
  shows "\<exists>w'. release_registry JUICE_CONCURRENCY_MODE_POLL (Some r) w = Some w' \<and> conn_ok w' \<and> cw_agents w' = cw_agents w
        \<and> cw_registries w' = (if cr_agents_count reg = 0 \<and> \<not> listening reg then (cw_registries w)(r := None) else cw_registries w)"
proof -
  obtain i where i: "poll_registry_of w r = Some i" "cr_impl reg = Some (Poll_registry i)"
    using assms(2,3) by (auto simp: hosts_poll poll_registry_of_iff)
  show ?thesis
  proof (cases "cr_agents_count reg = 0")
    case True
    then have "empty_seats w r" using count_zero_empty conn_ok_registry [OF assms(1,2)] assms(2) by blast
    then have "conn_ok w1" if "cw_agents w1 = cw_agents w" "cw_registries w1 = (cw_registries w)(r := None)"
      "cw_entry w1 = (cw_entry w)(JUICE_CONCURRENCY_MODE_POLL := None)" "cw_mux w1 = cw_mux w" "cw_mux_count w1 = cw_mux_count w" for w1
      using free_registry_ok [OF assms(1) _ that(1,2)] that assms(3) by simp
    then show ?thesis using assms(2) i True
      by (simp add: release_registry_def conn_poll_registry_cleanup_def free_registry_def registered_fields listening_def)
  next
    case False
    then show ?thesis using assms(1,2) i by (simp add: release_registry_def)
  qed
qed

lemma poll_init:
  assumes "True = (home \<noteq> None)"
  shows "\<exists>ret w'. conn_poll_init p home config w = Some (ret, w')
    \<and> (if ret = 0 then \<exists>c. impl_mode c = JUICE_CONCURRENCY_MODE_POLL \<and> impl_home c = home \<and> acts p (set_impl (Some c)) w w'
       else acts p (\<lambda>ag. ag) w w' \<or> acts p (set_impl None) w w')"
proof -
  obtain r where r: "home = Some r" using assms by auto
  obtain q w1 where m: "conn_malloc w = (q, w1)" by fastforce
  obtain s w2 where k: "conn_socket config w1 = (s, w2)" by fastforce
  have s1: "same w w1" and s2: "same w w2" using same_results m k same_trans by blast+
  show ?thesis
  proof (cases "q = None \<or> s = INVALID_SOCKET")
    case True
    then show ?thesis using m k same_is_acts [OF s1] same_is_acts [OF s2] by (auto simp: conn_poll_init_def)
  next
    case False
    let ?c = "Poll_conn \<lparr>pc_registry = r, pc_state = CONN_STATE_NEW, pc_udp_sock = s,
                       pc_tcp_sock = INVALID_SOCKET, pc_write = zero_write_context, pc_read = zero_read_context, pc_tcp_dst = zero_record,
                       pc_tcp_state = TCP_STATE_DISCONNECTED, pc_send_ds = 0, pc_next_timestamp = 0\<rparr>"
    have "acts p (set_impl (Some ?c)) w (upd_agent p (set_impl (Some ?c)) w2)" by (rule same_acts [OF s2 acts_upd_agent])
    moreover have "conn_poll_init p home config w = Some (0, upd_agent p (set_impl (Some ?c)) w2)"
      using False m k r by (simp add: conn_poll_init_def)
    ultimately show ?thesis using r by (intro exI conjI) (auto intro!: exI [of _ ?c])
  qed
qed

lemma poll_interrupt:
  assumes "cw_agents w p = Some ag" "ca_impl ag = Some c" "impl_mode c = JUICE_CONCURRENCY_MODE_POLL"
    "\<forall>r. impl_home c = Some r \<longrightarrow> hosts w r JUICE_CONCURRENCY_MODE_POLL"
  shows "\<exists>ret w' c'. conn_poll_interrupt p w = Some (ret, w') \<and> impl_mode c' = JUICE_CONCURRENCY_MODE_POLL \<and> impl_home c' = impl_home c
        \<and> acts p (\<lambda>ag. ag\<lparr>ca_impl := Some c'\<rparr>) w w'"
proof -
  obtain pc where pc: "c = Poll_conn pc" using assms(3) by (cases c) auto
  obtain i where i: "poll_registry_of w (pc_registry pc) = Some i" using assms(4) pc by (auto simp: hosts_poll)
  obtain t w1 where n: "conn_now w = (t, w1)" by fastforce
  note s = same_results(1) [OF n]
  let ?c = "pc\<lparr>pc_next_timestamp := t\<rparr>"
  define w2 where "w2 = upd_poll p (\<lambda>c. c\<lparr>pc_next_timestamp := t\<rparr>) w1"
  have "acts p (\<lambda>ag. ag\<lparr>ca_impl := Some (Poll_conn ?c)\<rparr>) w w2"
    unfolding w2_def by (rule same_acts [OF s acts_upd_conn(1)]) (use assms pc same_fields [OF s] in auto)
  then have "acts p (\<lambda>ag. ag\<lparr>ca_impl := Some (Poll_conn ?c)\<rparr>) w (conn_emit (Out_pipe (rp_interrupt_pipe_out i)) w2)"
    by (rule acts_same) simp
  moreover have "poll_conn_of w p = Some pc" using assms pc by (simp add: conn_of_iff)
  ultimately show ?thesis using i n pc unfolding conn_poll_interrupt_def w2_def [symmetric]
    by (intro exI [of _ 0] exI [of _ "conn_emit (Out_pipe (rp_interrupt_pipe_out i)) w2"] exI [of _ "Poll_conn ?c"]) (simp add: w2_def)
qed

lemma poll_cleanup:
  assumes "cw_agents w p = Some ag" "ca_impl ag = Some c" "impl_mode c = JUICE_CONCURRENCY_MODE_POLL"
    "\<forall>r. impl_home c = Some r \<longrightarrow> hosts w r JUICE_CONCURRENCY_MODE_POLL"
  shows "\<exists>w'. conn_poll_cleanup p w = Some w' \<and> left p (impl_home c) w w'"
proof -
  obtain pc where pc: "c = Poll_conn pc" using assms(3) by (cases c) auto
  obtain ret w1 c' where i: "conn_poll_interrupt p w = Some (ret, w1)" "acts p (\<lambda>ag. ag\<lparr>ca_impl := Some c'\<rparr>) w w1"
    using poll_interrupt [OF assms] by blast
  define w2 where "w2 = conn_emit (Out_close (pc_tcp_sock pc)) (conn_emit (Out_close (pc_udp_sock pc)) w1)"
  have "same w1 w2" unfolding w2_def by (rule same_trans [OF same_emit same_emit])
  then have "acts p (\<lambda>ag. set_impl None (ag\<lparr>ca_impl := Some c'\<rparr>)) w (upd_agent p (set_impl None) w2)"
    using i(2) acts_same acts_acts acts_upd_agent by blast
  then have "acts p (set_impl None) w (upd_agent p (set_impl None) w2)" by simp
  moreover have "mux_registry_of w (pc_registry pc) = None"
    using assms(4) pc by (auto simp: hosts_poll poll_registry_of_iff mux_registry_of_def)
  ultimately have "left p (impl_home c) w (upd_agent p (set_impl None) w2)" using pc left_acts by simp
  moreover have "conn_poll_cleanup p w = Some (upd_agent p (set_impl None) w2)"
    using i conn_of_iff(1) [of w p pc] assms pc by (simp add: conn_poll_cleanup_def w2_def)
  ultimately show ?thesis by blast
qed

interpretation poll_mode: concurrency_mode JUICE_CONCURRENCY_MODE_POLL True
proof (unfold_locales, goal_cases)
  case (1 w config) then show ?case by (rule poll_acquire)
next
  case (2 w r reg) then show ?case by (rule poll_release)
next
  case (3 home p config w) then show ?case using poll_init by simp
next
  case (4 w p ag c) then show ?case using poll_interrupt by simp
next
  case (5 w p ag c) then show ?case using poll_cleanup [of w p ag c] by simp
next
  case (6 c) then show ?case by (cases c) auto
qed simp

subsection \<open>Threads\<close>

lemma thread_init:
  assumes "False = (home \<noteq> None)"
  shows "\<exists>ret w'. conn_thread_init p home config w = Some (ret, w')
    \<and> (if ret = 0 then \<exists>c. impl_mode c = JUICE_CONCURRENCY_MODE_THREAD \<and> impl_home c = home \<and> acts p (set_impl (Some c)) w w'
       else acts p (\<lambda>ag. ag) w w' \<or> acts p (set_impl None) w w')"
proof -
  obtain q w1 where m: "conn_malloc w = (q, w1)" by fastforce
  obtain s w2 where k: "conn_socket config w1 = (s, w2)" by fastforce
  have s1: "same w w1" and s2: "same w w2" using same_results m k same_trans by blast+
  show ?thesis
  proof (cases "q = None \<or> s = INVALID_SOCKET")
    case True
    then show ?thesis using m k same_is_acts [OF s1] same_is_acts [OF s2] by (auto simp: conn_thread_init_def)
  next
    case False
    define c where "c = Thread_conn \<lparr>tc_sock = s, tc_send_ds = 0, tc_next_timestamp = 0, tc_stopped = False\<rparr>"
    obtain ret w3 where t: "conn_thread_start (upd_agent p (set_impl (Some c)) w2) = (ret, w3)" by fastforce
    have a: "acts p (set_impl (Some c)) w w3"
      using same_acts [OF s2 acts_upd_agent] same_results(4) [OF t] acts_same by blast
    have "acts p (\<lambda>ag. set_impl None (set_impl (Some c) ag)) w (upd_agent p (set_impl None) w3)" by (rule acts_acts [OF a acts_upd_agent])
    then have b: "acts p (set_impl None) w (upd_agent p (set_impl None) w3)" by simp
    have e: "conn_thread_init p home config w = Some (if ret \<noteq> 0 then (-1, upd_agent p (set_impl None) w3) else (0, w3))"
      using m k False t by (auto simp: conn_thread_init_def c_def)
    have "impl_mode c = JUICE_CONCURRENCY_MODE_THREAD" "impl_home c = home" using assms by (simp_all add: c_def)
    then show ?thesis using e a b by (cases "ret = 0") auto
  qed
qed

lemma thread_interrupt:
  assumes "cw_agents w p = Some ag" "ca_impl ag = Some c" "impl_mode c = JUICE_CONCURRENCY_MODE_THREAD"
  shows "\<exists>ret w' c'. conn_thread_interrupt p w = Some (ret, w') \<and> impl_mode c' = JUICE_CONCURRENCY_MODE_THREAD \<and> impl_home c' = impl_home c
        \<and> acts p (\<lambda>ag. ag\<lparr>ca_impl := Some c'\<rparr>) w w'"
proof -
  obtain tc where tc: "c = Thread_conn tc" using assms(3) by (cases c) auto
  obtain t w1 where n: "conn_now w = (t, w1)" by fastforce
  note s = same_results(1) [OF n]
  let ?c = "tc\<lparr>tc_next_timestamp := t\<rparr>"
  define w2 where "w2 = upd_thread p (\<lambda>c. c\<lparr>tc_next_timestamp := t\<rparr>) w1"
  obtain ret w3 where z: "conn_sendto_self (tc_sock tc) w2 = (ret, w3)" by fastforce
  have "acts p (\<lambda>ag. ag\<lparr>ca_impl := Some (Thread_conn ?c)\<rparr>) w w2"
    unfolding w2_def by (rule same_acts [OF s acts_upd_conn(3)]) (use assms tc same_fields [OF s] in auto)
  then have "acts p (\<lambda>ag. ag\<lparr>ca_impl := Some (Thread_conn ?c)\<rparr>) w w3" using acts_same same_results(5) [OF z] by blast
  moreover have "thread_conn_of w p = Some tc" using assms tc by (simp add: conn_of_iff)
  ultimately show ?thesis using n z tc unfolding conn_thread_interrupt_def w2_def
    by (intro exI [of _ "if ret < 0 then -1 else 0"] exI [of _ w3] exI [of _ "Thread_conn ?c"]) simp
qed

lemma thread_cleanup:
  assumes "cw_agents w p = Some ag" "ca_impl ag = Some c" "impl_mode c = JUICE_CONCURRENCY_MODE_THREAD"
  shows "\<exists>w'. conn_thread_cleanup p w = Some w' \<and> left p (impl_home c) w w'"
proof -
  obtain tc where tc: "c = Thread_conn tc" using assms(3) by (cases c) auto
  define w1 where "w1 = upd_thread p (\<lambda>c. c\<lparr>tc_stopped := True\<rparr>) w"
  have a1: "acts p (\<lambda>ag. ag\<lparr>ca_impl := Some (Thread_conn (tc\<lparr>tc_stopped := True\<rparr>))\<rparr>) w w1"
    unfolding w1_def using acts_upd_conn(3) [OF assms(1)] assms(2) tc by simp
  have "cw_agents w1 p = Some (ag\<lparr>ca_impl := Some (Thread_conn (tc\<lparr>tc_stopped := True\<rparr>))\<rparr>)" using a1 assms(1) by (simp add: acts_def)
  then obtain ret w2 c' where i: "conn_thread_interrupt p w1 = Some (ret, w2)" "acts p (\<lambda>ag. ag\<lparr>ca_impl := Some c'\<rparr>) w1 w2"
    using thread_interrupt [of w1 p] by fastforce
  define w3 where "w3 = conn_emit (Out_close (tc_sock tc)) (conn_emit Out_join w2)"
  have "same w2 w3" unfolding w3_def by (rule same_trans [OF same_emit same_emit])
  then have a3: "acts p (\<lambda>ag. ag\<lparr>ca_impl := Some c'\<rparr>) w1 w3" using i(2) acts_same by blast
  from acts_acts [OF acts_acts [OF a1 a3] acts_upd_agent]
  have "acts p (\<lambda>ag. set_impl None (ag\<lparr>ca_impl := Some (Thread_conn (tc\<lparr>tc_stopped := True\<rparr>)), ca_impl := Some c'\<rparr>)) w (upd_agent p (set_impl None) w3)" .
  then have "left p (impl_home c) w (upd_agent p (set_impl None) w3)" using tc left_acts_none by simp
  moreover have "conn_thread_cleanup p w = Some (upd_agent p (set_impl None) w3)"
    using i conn_of_iff(3) [of w p tc] assms tc by (simp add: conn_thread_cleanup_def w3_def w1_def)
  ultimately show ?thesis by blast
qed

interpretation thread_mode: concurrency_mode JUICE_CONCURRENCY_MODE_THREAD False
proof (unfold_locales, goal_cases)
  case (1 w config)
  then have "cw_entry w JUICE_CONCURRENCY_MODE_THREAD = None" by (simp add: conn_ok_def entries_valid_def)
  then show ?case using 1 by (simp add: acquire_registry_def)
next
  case (2 w r reg) then show ?case by (simp add: hosts_thread)
next
  case (3 home p config w) then show ?case using thread_init by simp
next
  case (4 w p ag c) then show ?case using thread_interrupt by simp
next
  case (5 w p ag c) then show ?case using thread_cleanup [of w p ag c] by simp
next
  case (6 c) then show ?case by (cases c) auto
qed (simp add: hosts_thread)

subsection \<open>Multiplexing\<close>

lemma mux_fields:
  "cw_registries (upd_mux_registry r f w) = (cw_registries w)(r := map_option (\<lambda>reg. case cr_impl reg of
      Some (Mux_registry m) \<Rightarrow> reg\<lparr>cr_impl := Some (Mux_registry (f m))\<rparr> | _ \<Rightarrow> reg) (cw_registries w r))"
  "cw_agents (upd_mux_registry r f w) = cw_agents w" "cw_entry (upd_mux_registry r f w) = cw_entry w"
  "cw_mux (upd_mux_registry r f w) = cw_mux w" "cw_mux_count (upd_mux_registry r f w) = cw_mux_count w"
  by (simp_all add: upd_mux_registry_def upd_registry_def)

lemma mux_index_ok [simp]: "mux_ok (m\<lparr>mr_index := i\<rparr>) = mux_ok m" "mux_maps (m\<lparr>mr_index := i\<rparr>) k q = mux_maps m k q"
  by (simp_all add: mux_ok_def mux_maps_def full_at_def find_map_entry_def)

lemma fresh_map_ok:
  assumes "mr_map m = replicate INITIAL_MAP_SIZE zero_map_entry" "mr_map_count m = 0"
  shows "mux_ok m" "\<not> mux_maps m k q"
proof -
  have "m = empty_map INITIAL_MAP_SIZE m" using assms by (cases m) (simp add: empty_map_def)
  then show "mux_ok m" "\<not> mux_maps m k q" using empty_map_ok [of INITIAL_MAP_SIZE m] empty_map_maps [of INITIAL_MAP_SIZE m k q]
    by (simp_all add: INITIAL_MAP_SIZE_def)
qed

lemma add_registry_ok:
  obtains w1 where "conn_mux_add_registry r w = (-1, w1)" "same w w1"
  | i slots k w1 where "conn_mux_add_registry r w = (0, upd_mux_registry r (\<lambda>m. m\<lparr>mr_index := int i\<rparr>) w1)"
      "cw_agents w1 = cw_agents w" "cw_registries w1 = cw_registries w" "cw_entry w1 = cw_entry w" "cw_mux_count w1 = cw_mux_count w + 1"
      "cw_mux w1 = slots[i := Some r]" "i < length slots" "slots ! i = None" "slots = cw_mux w @ replicate k None"
proof -
  define n where "n = (if length (cw_mux w) * 2 = 0 then 1 else length (cw_mux w) * 2)"
  have n: "length (cw_mux w) < n" by (simp add: n_def)
  obtain x w1 where f: "free_slot (cw_mux w) n w = (x, w1)" by fastforce
  note ok = free_slot_ok [OF n, of w, unfolded f]
  have e: "conn_mux_add_registry r w = (case (x, w1) of (None, w1) \<Rightarrow> (-1, w1) | (Some (i, slots), w1) \<Rightarrow>
          (0, upd_mux_registry r (\<lambda>m. m\<lparr>mr_index := int i\<rparr>) (w1\<lparr>cw_mux := slots[i := Some r], cw_mux_count := cw_mux_count w1 + 1\<rparr>)))"
    by (simp only: conn_mux_add_registry_def Let_def n_def [symmetric] f)
  show thesis
  proof (cases x)
    case None
    then show thesis using that(1) e ok by simp
  next
    case (Some y)
    obtain i slots where y: "y = (i, slots)" by fastforce
    have s: "same w w1" using ok Some y by auto
    obtain k where k: "i < length slots" "slots ! i = None" "slots = cw_mux w @ replicate k None" using ok Some y by auto
    show thesis by (rule that(2) [of i "w1\<lparr>cw_mux := slots[i := Some r], cw_mux_count := cw_mux_count w1 + 1\<rparr>" slots k])
      (use e Some y k same_fields [OF s] in simp_all)
  qed
qed

lemma mux_registry_init_ok:
  assumes "conn_ok w" "same w w2" "cw_registries w r = None"
  shows "\<exists>ret w3. conn_mux_registry_init r config (w2\<lparr>cw_registries := (cw_registries w2)(r \<mapsto> empty_registry None)\<rparr>) = Some (ret, w3)
    \<and> cw_agents w3 = cw_agents w
    \<and> (if ret = 0 then conn_ok (w3\<lparr>cw_entry := (cw_entry w3)(JUICE_CONCURRENCY_MODE_MUX := Some r)\<rparr>) \<and> hosts w3 r JUICE_CONCURRENCY_MODE_MUX
       else same w (free_registry r w3))"
proof -
  let ?w = "w2\<lparr>cw_registries := (cw_registries w2)(r \<mapsto> empty_registry None)\<rparr>"
  obtain q u1 where m1: "conn_malloc ?w = (q, u1)" by fastforce
  obtain q' u2 where m2: "conn_malloc u1 = (q', u2)" by fastforce
  obtain sock u3 where m3: "conn_socket config u2 = (sock, u3)" by fastforce
  note f = same_fields [OF assms(2)]
  note early = same_results(2) [OF m1] same_trans [OF same_results(2) [OF m1] same_results(2) [OF m2]]
    same_trans [OF same_trans [OF same_results(2) [OF m1] same_results(2) [OF m2]] same_results(3) [OF m3]]
  have fail: ?thesis if "conn_mux_registry_init r config ?w = Some (-1, u)" "cw_registries u = (cw_registries w2)(r := x)"
    "cw_agents u = cw_agents w2" "cw_entry u = cw_entry w2" "cw_mux u = cw_mux w2" "cw_mux_count u = cw_mux_count w2" for u x
  proof -
    have "same w (free_registry r u)" by (rule freed_same [OF assms(3,2)]) (simp_all add: that(2-))
    then show ?thesis using that f by (intro exI [of _ "-1"] exI [of _ u]) simp
  qed
  consider "q = None" | "q \<noteq> None" "q' = None" | "q \<noteq> None" "q' \<noteq> None" "sock = INVALID_SOCKET"
    | "q \<noteq> None" "q' \<noteq> None" "sock \<noteq> INVALID_SOCKET" by blast
  then show ?thesis
  proof cases
    case 1
    then show ?thesis using m1 same_fields [OF early(1)] by (intro fail [of u1]) (simp_all add: conn_mux_registry_init_def)
  next
    case 2
    then show ?thesis using m1 m2 same_fields [OF early(2)] by (intro fail [of u2]) (auto simp: conn_mux_registry_init_def)
  next
    case 3
    then show ?thesis using m1 m2 m3 same_fields [OF early(3)] by (intro fail [of u3]) (auto simp: conn_mux_registry_init_def)
  next
    case 4
    define m where "m = \<lparr>mr_index = 0, mr_port = udp_get_port (ce_name (cw_env u3) sock), mr_sock = sock, mr_send_ds = 0,
                                 mr_map = replicate INITIAL_MAP_SIZE zero_map_entry, mr_map_count = 0, mr_cb_mux_incoming = False\<rparr>"
    have fm: "mux_ok m" "\<And>k q. \<not> mux_maps m k q" using fresh_map_ok [of m] by (simp_all add: m_def)
    define u4 where "u4 = upd_registry r (\<lambda>reg. reg\<lparr>cr_impl := Some (Mux_registry m)\<rparr>) u3"
    obtain ret u5 where t: "conn_thread_start u4 = (ret, u5)" by fastforce
    note f3 = same_fields [OF early(3)] and f5 = same_fields [OF same_results(4) [OF t]]
    have u4: "cw_registries u4 = (cw_registries w2)(r \<mapsto> empty_registry (Some (Mux_registry m)))" "cw_agents u4 = cw_agents w2"
      "cw_entry u4 = cw_entry w2" "cw_mux u4 = cw_mux w2" "cw_mux_count u4 = cw_mux_count w2"
      by (simp_all add: u4_def registered_fields f3 empty_registry_def)
    obtain added u6 where a: "conn_mux_add_registry r u5 = (added, u6)" by fastforce
    let ?none = "upd_registry r (\<lambda>reg. reg\<lparr>cr_impl := None\<rparr>)"
    have e: "conn_mux_registry_init r config ?w = Some (if ret \<noteq> 0 then (-1, conn_emit (Out_close sock) (?none u5))
        else if added \<noteq> 0 then (-1, ?none u6) else (0, u6))"
      using m1 m2 m3 4 t a by (auto simp: conn_mux_registry_init_def m_def u4_def)
    show ?thesis
    proof (cases "ret = 0")
      case False
      then show ?thesis using e by (intro fail [of "conn_emit (Out_close sock) (?none u5)"]) (simp_all add: registered_fields f5 u4)
    next
      case True
      show ?thesis using add_registry_ok [of r u5]
      proof cases
        case (1 w1)
        then show ?thesis using e True a same_fields [OF 1(2)] by (intro fail [of "?none u6"]) (simp_all add: registered_fields f5 u4)
      next
        case (2 i slots k w1)
        have u6: "u6 = upd_mux_registry r (\<lambda>m. m\<lparr>mr_index := int i\<rparr>) w1" and ret: "added = 0" using a 2(1) by auto
        have reg: "cw_registries u6 = (cw_registries w)(r \<mapsto> empty_registry (Some (Mux_registry (m\<lparr>mr_index := int i\<rparr>))))"
          by (simp add: u6 mux_fields 2 f5 u4 f empty_registry_def)
        have "conn_ok (u6\<lparr>cw_entry := (cw_entry u6)(JUICE_CONCURRENCY_MODE_MUX := Some r)\<rparr>)"
          by (rule new_mux_registry_ok [OF assms(1,3), of "m\<lparr>mr_index := int i\<rparr>" _ slots i k])
            (use fm 2 reg in \<open>simp_all add: u6 mux_fields f5 u4 f\<close>)
        moreover have "hosts u6 r JUICE_CONCURRENCY_MODE_MUX" by (simp add: hosts_def reg empty_registry_def)
        moreover have "cw_agents u6 = cw_agents w" by (simp add: u6 mux_fields 2 f5 u4 f)
        ultimately show ?thesis using e True ret by auto
      qed
    qed
  qed
qed

lemma get_registry_total:
  "(\<And>r. Some r \<in> set rs \<Longrightarrow> mux_registry_of w r \<noteq> None) \<Longrightarrow>
   \<exists>x. conn_mux_get_registry w config rs = Some x \<and> (\<forall>r. x = Some r \<longrightarrow> Some r \<in> set rs)"
  by (induction w config rs rule: conn_mux_get_registry.induct) fastforce+

lemma mux_acquire:
  assumes "conn_ok w" "fresh_memory w"
  shows "\<exists>acquired w1. acquire_registry JUICE_CONCURRENCY_MODE_MUX config w = Some (acquired, w1) \<and> conn_ok w1 \<and> cw_agents w1 = cw_agents w
        \<and> (acquired = Some None \<longrightarrow> \<not> True) \<and> (\<forall>r. acquired = Some (Some r) \<longrightarrow> True \<and> hosts w1 r JUICE_CONCURRENCY_MODE_MUX)"
proof -
  have reg: "mux_registry_of w r \<noteq> None" if "Some r \<in> set (cw_mux w)" for r
    using assms(1) that by (fastforce simp: conn_ok_def entries_valid_def in_set_conv_nth)
  obtain x where x: "conn_mux_get_registry w config (cw_mux w) = Some x" "\<And>r. x = Some r \<Longrightarrow> Some r \<in> set (cw_mux w)"
    using get_registry_total [of "cw_mux w" w config] reg by blast
  show ?thesis
  proof (cases x)
    case None
    have "\<exists>acquired w1. create_registry JUICE_CONCURRENCY_MODE_MUX conn_mux_registry_init config w = Some (acquired, w1) \<and> conn_ok w1
        \<and> cw_agents w1 = cw_agents w \<and> acquired \<noteq> Some None \<and> (\<forall>r. acquired = Some (Some r) \<longrightarrow> hosts w1 r JUICE_CONCURRENCY_MODE_MUX)"
      by (rule create_registry_ok [OF assms]) (rule mux_registry_init_ok [OF assms(1)])
    then show ?thesis using None x by (auto simp: acquire_registry_def)
  next
    case (Some r)
    then obtain m where m: "mux_registry_of w r = Some m" using reg x(2) by blast
    then obtain reg where "cw_registries w r = Some reg" by (auto simp: mux_registry_of_iff)
    then show ?thesis using Some x(1) m assms(1) by (simp add: acquire_registry_def hosts_mux)
  qed
qed

lemma used_positive: "i < length xs \<Longrightarrow> xs ! i \<noteq> None \<Longrightarrow> 0 < used_slots xs"
  using used_zero by fastforce

lemma mux_release:
  assumes "conn_ok w" "cw_registries w r = Some reg" "hosts w r JUICE_CONCURRENCY_MODE_MUX"
  shows "\<exists>w'. release_registry JUICE_CONCURRENCY_MODE_MUX (Some r) w = Some w' \<and> conn_ok w' \<and> cw_agents w' = cw_agents w
        \<and> cw_registries w' = (if cr_agents_count reg = 0 \<and> \<not> listening reg then (cw_registries w)(r := None) else cw_registries w)"
proof -
  obtain m where m: "mux_registry_of w r = Some m" "cr_impl reg = Some (Mux_registry m)"
    using assms(2,3) by (auto simp: hosts_mux mux_registry_of_iff)
  have can: "conn_mux_can_release_registry r w = Some (\<not> listening reg)"
    using assms(2) m by (simp add: conn_mux_can_release_registry_def listening_def)
  show ?thesis
  proof (cases "cr_agents_count reg = 0 \<and> \<not> listening reg")
    case True
    note ok = conn_ok_registry [OF assms(1,2)]
    have i: "0 \<le> mr_index m" "nat (mr_index m) < length (cw_mux w)" "cw_mux w ! nat (mr_index m) = Some r" using ok m(2) by simp_all
    have "0 < cw_mux_count w" using used_positive [OF i(2)] i(3) assms(1) by (simp add: conn_ok_def entries_valid_def)
    then have clean: "conn_mux_registry_cleanup r w = Some (conn_emit (Out_close (mr_sock m)) (upd_registry r (\<lambda>reg. reg\<lparr>cr_impl := None\<rparr>)
        ((conn_emit Out_join w)\<lparr>cw_mux := (cw_mux w)[nat (mr_index m) := None], cw_mux_count := cw_mux_count w - 1\<rparr>)))"
      using m(1) i by (simp add: conn_mux_registry_cleanup_def)
    have "empty_seats w r" using ok True assms(2) count_zero_empty by blast
    then have "conn_ok w1" if "cw_agents w1 = cw_agents w" "cw_registries w1 = (cw_registries w)(r := None)"
      "cw_entry w1 = (cw_entry w)(JUICE_CONCURRENCY_MODE_MUX := None)" "cw_mux w1 = (cw_mux w)[nat (mr_index m) := None]"
      "cw_mux_count w1 = cw_mux_count w - 1" for w1
      using free_registry_ok [OF assms(1) _ that(1,2)] that m(1) by simp
    then show ?thesis using assms(2) can True clean
      by (simp add: release_registry_def free_registry_def registered_fields)
  next
    case False
    then show ?thesis using assms(1,2) can by (auto simp: release_registry_def)
  qed
qed

lemma mux_init:
  assumes "True = (home \<noteq> None)"
  shows "\<exists>ret w'. conn_mux_init p home config w = Some (ret, w')
    \<and> (if ret = 0 then \<exists>c. impl_mode c = JUICE_CONCURRENCY_MODE_MUX \<and> impl_home c = home \<and> acts p (set_impl (Some c)) w w'
       else acts p (\<lambda>ag. ag) w w' \<or> acts p (set_impl None) w w')"
proof -
  obtain r where r: "home = Some r" using assms by auto
  obtain q w1 where m: "conn_malloc w = (q, w1)" by fastforce
  note s = same_results(2) [OF m]
  let ?c = "Mux_conn \<lparr>mc_registry = r, mc_next_timestamp = 0, mc_finished = False\<rparr>"
  have "acts p (set_impl (Some ?c)) w (upd_agent p (set_impl (Some ?c)) w1)" by (rule same_acts [OF s acts_upd_agent])
  then show ?thesis using m r same_is_acts [OF s] by (cases "q = None") (auto simp: conn_mux_init_def intro!: exI [of _ ?c])
qed

lemma mux_interrupt:
  assumes "cw_agents w p = Some ag" "ca_impl ag = Some c" "impl_mode c = JUICE_CONCURRENCY_MODE_MUX"
    "\<forall>r. impl_home c = Some r \<longrightarrow> hosts w r JUICE_CONCURRENCY_MODE_MUX"
  shows "\<exists>ret w' c'. conn_mux_interrupt p w = Some (ret, w') \<and> impl_mode c' = JUICE_CONCURRENCY_MODE_MUX \<and> impl_home c' = impl_home c
        \<and> acts p (\<lambda>ag. ag\<lparr>ca_impl := Some c'\<rparr>) w w'"
proof -
  obtain mc where mc: "c = Mux_conn mc" using assms(3) by (cases c) auto
  obtain m where m: "mux_registry_of w (mc_registry mc) = Some m" using assms(4) mc by (auto simp: hosts_mux)
  obtain t w1 where n: "conn_now w = (t, w1)" by fastforce
  note s = same_results(1) [OF n]
  let ?c = "mc\<lparr>mc_next_timestamp := t\<rparr>"
  define w2 where "w2 = upd_mux p (\<lambda>c. c\<lparr>mc_next_timestamp := t\<rparr>) w1"
  obtain ret w3 where z: "conn_sendto_self (mr_sock m) w2 = (ret, w3)" by fastforce
  have a: "acts p (\<lambda>ag. ag\<lparr>ca_impl := Some (Mux_conn ?c)\<rparr>) w w2"
    unfolding w2_def by (rule same_acts [OF s acts_upd_conn(2)]) (use assms mc same_fields [OF s] in auto)
  then have "acts p (\<lambda>ag. ag\<lparr>ca_impl := Some (Mux_conn ?c)\<rparr>) w w3" using acts_same same_results(5) [OF z] by blast
  moreover have "mux_conn_of w p = Some mc" using assms mc by (simp add: conn_of_iff)
  moreover have "mux_registry_of w2 (mc_registry mc) = Some m" using a m by (simp add: acts_def mux_registry_of_def)
  ultimately show ?thesis using n z mc unfolding conn_mux_interrupt_def conn_mux_interrupt_registry_def w2_def
    by (intro exI [of _ "if ret < 0 then -1 else 0"] exI [of _ w3] exI [of _ "Mux_conn ?c"]) simp
qed

lemma mux_cleanup:
  assumes "conn_ok w" "cw_agents w p = Some ag" "ca_impl ag = Some c" "impl_mode c = JUICE_CONCURRENCY_MODE_MUX"
    "\<forall>r. impl_home c = Some r \<longrightarrow> hosts w r JUICE_CONCURRENCY_MODE_MUX"
  shows "\<exists>w'. conn_mux_cleanup p w = Some w' \<and> left p (impl_home c) w w'"
proof -
  obtain mc where mc: "c = Mux_conn mc" using assms(4) by (cases c) auto
  define r where "r = mc_registry mc"
  obtain m where m: "mux_registry_of w r = Some m" using assms(5) mc by (auto simp: hosts_mux r_def)
  then obtain reg where reg: "cw_registries w r = Some reg" "cr_impl reg = Some (Mux_registry m)" by (auto simp: mux_registry_of_iff)
  then have "mux_ok m" using conn_ok_registry [OF assms(1)] by fastforce
  then obtain m' where m': "remove_map_entries p m = Some m'" "mux_ok m'" "\<And>k q. mux_maps m' k q \<longleftrightarrow> mux_maps m k q \<and> q \<noteq> p"
    using remove_map_entries_ok by blast
  then have kept: "mr_index m' = mr_index m" "mr_cb_mux_incoming m' = mr_cb_mux_incoming m"
    by (auto simp: remove_map_entries_def Let_def split: if_split_asm)
  define w1 where "w1 = upd_mux_registry r (\<lambda>_. m') w"
  have r1: "cw_registries w1 = (cw_registries w)(r \<mapsto> reg\<lparr>cr_impl := Some (Mux_registry m')\<rparr>)" "cw_agents w1 = cw_agents w"
    "cw_entry w1 = cw_entry w" "cw_mux w1 = cw_mux w" "cw_mux_count w1 = cw_mux_count w"
    by (simp_all add: w1_def mux_fields reg)
  have "\<forall>x. impl_home c = Some x \<longrightarrow> hosts w1 x JUICE_CONCURRENCY_MODE_MUX" using mc r1 by (simp add: r_def hosts_def)
  then obtain ret w2 c' where i: "conn_mux_interrupt p w1 = Some (ret, w2)" "acts p (\<lambda>ag. ag\<lparr>ca_impl := Some c'\<rparr>) w1 w2"
    using mux_interrupt [of w1 p ag c] assms(2-4) r1(2) by auto
  have "acts p (\<lambda>ag. set_impl None (ag\<lparr>ca_impl := Some c'\<rparr>)) w1 (upd_agent p (set_impl None) w2)" by (rule acts_acts [OF i(2) acts_upd_agent])
  then have a: "acts p (set_impl None) w1 (upd_agent p (set_impl None) w2)" by simp
  have "purged p (cr_impl reg) (Some (Mux_registry m'))" using reg(2) m' kept by simp
  then have "left p (Some r) w (upd_agent p (set_impl None) w2)" using a r1 reg(1) by (auto simp: left_def acts_def)
  moreover have "conn_mux_cleanup p w = Some (upd_agent p (set_impl None) w2)"
    using conn_of_iff(2) [of w p mc] assms(2,3) mc m m'(1) i(1) by (simp add: conn_mux_cleanup_def w1_def r_def)
  ultimately show ?thesis using mc by (auto simp: r_def)
qed

interpretation mux_mode: concurrency_mode JUICE_CONCURRENCY_MODE_MUX True
proof (unfold_locales, goal_cases)
  case (1 w config) then show ?case by (rule mux_acquire)
next
  case (2 w r reg) then show ?case by (rule mux_release)
next
  case (3 home p config w) then show ?case using mux_init by simp
next
  case (4 w p ag c) then show ?case using mux_interrupt by simp
next
  case (5 w p ag c) then show ?case using mux_cleanup [of w p ag c] by simp
next
  case (6 c) then show ?case by (cases c) auto
qed simp

end
