(* ===== verification/Conn_Client.thy ===== *)
theory Conn_Client
  imports Conn_Backends
begin

text \<open>\<^verbatim>\<open>conn_create\<close>, \<^verbatim>\<open>conn_destroy\<close> and \<^verbatim>\<open>juice_mux_listen\<close> over the interface \<open>concurrency_mode\<close>.\<close>

subsection \<open>The invariant under the assignments of \<^verbatim>\<open>conn.c\<close>\<close>

lemma conn_ok_agent: "conn_ok w \<Longrightarrow> cw_agents w p = Some ag \<Longrightarrow> agent_placed w p ag"
  by (simp add: conn_ok_def)

lemma impl_ok_cong:
  "cw_entry w' = cw_entry w \<Longrightarrow> cw_mux w' = cw_mux w \<Longrightarrow> impl_ok w' r agents i = impl_ok w r agents i"
  by (cases "(w, r, agents, i)" rule: impl_ok.cases) simp_all

lemma entries_valid_cong:
  assumes "cw_entry w' = cw_entry w" "cw_mux w' = cw_mux w" "cw_mux_count w' = cw_mux_count w"
    and "\<And>r m. hosts w r m \<Longrightarrow> hosts w' r m" and "\<And>r m. mux_registry_of w r = Some m \<Longrightarrow> \<exists>m'. mux_registry_of w' r = Some m' \<and> mr_index m' = mr_index m"
    and "entries_valid w"
  shows "entries_valid w'"
  using assms unfolding entries_valid_def by metis

text \<open>The agent \<open>p\<close> changes, but not where its connection belongs.\<close>

lemma conn_ok_act:
  assumes "conn_ok w" "cw_agents w p = Some ag" "acts p f w w'"
    and "map_option (\<lambda>c. (impl_mode c, impl_home c)) (ca_impl (f ag)) = map_option (\<lambda>c. (impl_mode c, impl_home c)) (ca_impl ag)"
    and "ca_impl ag \<noteq> None \<Longrightarrow> ca_registry (f ag) = ca_registry ag \<and> ca_index (f ag) = ca_index ag
           \<and> cfg_concurrency_mode (ag_config (ca_agent (f ag))) = cfg_concurrency_mode (ag_config (ca_agent ag))"
  shows "conn_ok w'"
proof -
  note a = assms(3) [unfolded acts_def]
  have none: "ca_impl (f ag) = None \<longleftrightarrow> ca_impl ag = None" using assms(4) by (cases "ca_impl ag"; cases "ca_impl (f ag)"; simp)
  have same: "seat w' = seat w" "hosts w' = hosts w" "mux_registry_of w' = mux_registry_of w"
    using a by (simp_all add: fun_eq_iff seat_def hosts_def mux_registry_of_def)
  have "agent_placed w' p (f ag)"
    using conn_ok_agent [OF assms(1,2)] assms(4,5) same by (cases "ca_impl ag") (auto simp: agent_placed_def)
  then have "\<forall>q x. cw_agents w' q = Some x \<longrightarrow> agent_placed w' q x"
    using conn_ok_agent [OF assms(1)] a assms(2) same by (simp add: agent_placed_def)
  moreover have "seats_ok w' r reg" if "cw_registries w r = Some reg" for r reg
    using conn_ok_registry [OF assms(1) that] a assms(2,5) none unfolding seats_ok_def by (metis fun_upd_apply option.map(2) option.sel)
  moreover have "entries_valid w'" using assms(1) a same by (simp add: conn_ok_def entries_valid_def)
  ultimately show ?thesis using a conn_ok_registry [OF assms(1)] impl_ok_cong [of w' w] by (simp add: conn_ok_def)
qed

lemma registry_change:
  assumes "conn_ok w" "cw_registries w r = Some reg" "cw_registries w' = (cw_registries w)(r \<mapsto> reg')"
    and "registry_mode (cr_impl reg') = registry_mode (cr_impl reg)"
    and "\<And>m. cr_impl reg = Some (Mux_registry m) \<Longrightarrow> \<exists>m'. cr_impl reg' = Some (Mux_registry m') \<and> mr_index m' = mr_index m"
    and "cw_entry w' = cw_entry w" "cw_mux w' = cw_mux w" "cw_mux_count w' = cw_mux_count w"
  shows "entries_valid w'" "hosts w' q m = hosts w q m"
proof -
  show h: "hosts w' q m = hosts w q m" for q m using assms(2,3,4) by (simp add: hosts_def)
  show "entries_valid w'"
    by (rule entries_valid_cong [of w' w]) (use assms h in \<open>auto simp: mux_registry_of_iff conn_ok_def\<close>)
qed

lemma conn_ok_grow:
  assumes "conn_ok w" "cw_registries w r = Some reg"
  shows "conn_ok (upd_registry r (\<lambda>reg. reg\<lparr>cr_agents := cr_agents reg @ replicate k None\<rparr>) w)" (is "conn_ok ?w")
proof -
  let ?reg = "reg\<lparr>cr_agents := cr_agents reg @ replicate k None\<rparr>"
  have regs: "cw_registries ?w = (cw_registries w)(r \<mapsto> ?reg)" by (simp add: registered_fields assms(2))
  have agents: "agent_placed ?w p ag" if "cw_agents w p = Some ag" for p ag
    using conn_ok_agent [OF assms(1) that] by (rule agent_placed_mono) (auto simp: regs nth_append assms(2))
  note old = conn_ok_registry [OF assms(1)]
  have "seats_ok ?w r ?reg" using old [OF assms(2)] by (auto simp: seats_ok_def registered_fields nth_append)
  moreover have "impl_ok ?w r (cr_agents ?reg) (cr_impl ?reg)" using old [OF assms(2)]
    by (cases "(w, r, cr_agents reg, cr_impl reg)" rule: impl_ok.cases) (auto simp: registered_fields)
  moreover have "seats_ok ?w q x \<and> impl_ok ?w q (cr_agents x) (cr_impl x)" if "cw_registries w q = Some x" for q x
    using old [OF that] impl_ok_cong [of ?w w] by (simp add: seats_ok_def registered_fields)
  moreover have "entries_valid ?w" by (rule registry_change [OF assms regs]) (simp_all add: registered_fields)
  ultimately show ?thesis using agents assms(2) by (auto simp: conn_ok_def registered_fields)
qed

text \<open>The agent takes its seat.\<close>

lemma conn_ok_join:
  assumes "conn_ok w" "cw_registries w r = Some reg" "hosts w r m" "cw_agents w p = Some ag" "ca_impl ag = None" "ca_registry ag = Some r"
    and "cfg_concurrency_mode (ag_config (ca_agent ag)) = m" "i < length (cr_agents reg)" "cr_agents reg ! i = None"
    and "impl_mode c = m" "impl_home c = Some r"
    and "cw_agents w' = (cw_agents w)(p \<mapsto> (set_impl (Some c) ag)\<lparr>ca_index := int i\<rparr>)"
    and "cw_registries w' = (cw_registries w)(r \<mapsto> reg\<lparr>cr_agents := (cr_agents reg)[i := Some p], cr_agents_count := cr_agents_count reg + 1\<rparr>)"
      (is "_ = (cw_registries w)(r \<mapsto> ?reg)")
    and "cw_entry w' = cw_entry w" "cw_mux w' = cw_mux w" "cw_mux_count w' = cw_mux_count w"
  shows "conn_ok w'"
proof -
  note old = conn_ok_registry [OF assms(1)]
  have change: "entries_valid w'" "\<And>q x. hosts w' q x = hosts w q x"
    by (rule registry_change [OF assms(1,2,13)]; use assms in simp)+
  have unseated: "cr_agents x ! j \<noteq> Some p" if "cw_registries w q = Some x" "j < length (cr_agents x)" for q x j
    using old [OF that(1)] that(2) assms(4,5) by (auto simp: seats_ok_def)
  have "agent_placed w' q x" if q: "cw_agents w' q = Some x" for q x
  proof (cases "q = p")
    case True
    then show ?thesis using q assms(3,6,7,8,10-13) change(2) by (auto simp: agent_placed_def seat_def set_impl_def)
  next
    case False
    then have "agent_placed w q x" using conn_ok_agent [OF assms(1)] q assms(12) by simp
    then show ?thesis by (rule agent_placed_mono) (use assms(2,8,9,13) in \<open>auto simp: nth_list_update\<close>)
  qed
  moreover have "seats_ok w' q x" if "cw_registries w q = Some x" "q \<noteq> r" for q x
    using old [OF that(1)] unseated [OF that(1)] assms(4,5,12) by (auto simp: seats_ok_def)
  moreover have "seats_ok w' r ?reg"
    using old [OF assms(2)] unseated [OF assms(2)] assms(4,5,6,8,9,12) used_update [OF assms(8), of "Some p"]
    by (auto simp: seats_ok_def nth_list_update set_impl_def)
  moreover have "impl_ok w' q (cr_agents x) (cr_impl x)" if "cw_registries w q = Some x" for q x
    using old [OF that] impl_ok_cong [of w' w] assms(14,15) by simp
  moreover have "Some q \<in> set ((cr_agents reg)[i := Some p])" if "Some q \<in> set (cr_agents reg)" for q
    using that assms(8,9) by (auto simp: in_set_conv_nth) (metis length_list_update nth_list_update option.distinct(1))
  then have "impl_ok w' r (cr_agents ?reg) (cr_impl ?reg)" using old [OF assms(2)] assms(14,15)
    by (cases "(w, r, cr_agents reg, cr_impl reg)" rule: impl_ok.cases) auto
  ultimately show ?thesis using change(1) assms(13) by (auto simp: conn_ok_def)
qed

text \<open>The agent leaves its seat, and the map its addresses.\<close>

lemma conn_ok_leave:
  assumes "conn_ok w" "cw_agents w p = Some ag" "ca_impl ag = Some c" "impl_home c = Some r" "cw_registries w r = Some reg"
    and "purged p (cr_impl reg) i"
    and "cw_agents w' = (cw_agents w)(p \<mapsto> ag')" "ca_impl ag' = None"
    and "cw_registries w' = (cw_registries w)(r \<mapsto> reg\<lparr>cr_impl := i, cr_agents := (cr_agents reg)[nat (ca_index ag) := None],
            cr_agents_count := cr_agents_count reg - 1\<rparr>)" (is "_ = (cw_registries w)(r \<mapsto> ?reg)")
    and "cw_entry w' = cw_entry w" "cw_mux w' = cw_mux w" "cw_mux_count w' = cw_mux_count w"
  shows "conn_ok w'" and "\<And>q x. cw_registries w' q = Some x \<Longrightarrow> Some p \<notin> set (cr_agents x)"
    and "\<And>q m k. mux_registry_of w' q = Some m \<Longrightarrow> \<not> mux_maps m k p"
proof -
  note old = conn_ok_registry [OF assms(1)]
  let ?i = "nat (ca_index ag)"
  have at: "?i < length (cr_agents reg)" "cr_agents reg ! ?i = Some p" "0 \<le> ca_index ag" "ca_registry ag = Some r"
    using conn_ok_agent [OF assms(1,2)] assms(3-5) by (auto simp: agent_placed_def seat_def)
  have mode: "registry_mode i = registry_mode (cr_impl reg)" and index: "\<And>m. cr_impl reg = Some (Mux_registry m) \<Longrightarrow> \<exists>m'. i = Some (Mux_registry m') \<and> mr_index m' = mr_index m"
    using assms(6) by (cases "(p, cr_impl reg, i)" rule: purged.cases; auto)+
  have change: "entries_valid w'" "\<And>q x. hosts w' q x = hosts w q x"
    by (rule registry_change [OF assms(1,5,9)]; use assms mode index in simp)+
  have only: "q = r \<and> j = ?i" if "cw_registries w q = Some x" "j < length (cr_agents x)" "cr_agents x ! j = Some p" for q x j
    using old [OF that(1)] that(2,3) assms(2) at by (auto simp: seats_ok_def)
  show gone: "Some p \<notin> set (cr_agents x)" if "cw_registries w' q = Some x" for q x
  proof
    assume "Some p \<in> set (cr_agents x)"
    then obtain j where j: "j < length (cr_agents x)" "cr_agents x ! j = Some p" by (auto simp: in_set_conv_nth)
    show False
    proof (cases "q = r")
      case True
      then have "x = ?reg" using that assms(9) by simp
      then show False using j only [OF assms(5), of j] at(1) by (auto simp: nth_list_update split: if_split_asm)
    next
      case False
      then show False using that assms(9) j only [of q x j] by simp
    qed
  qed
  have placed: "agent_placed w' q x" if q: "cw_agents w' q = Some x" for q x
  proof (cases "q = p")
    case True
    then show ?thesis using q assms(7,8) by (simp add: agent_placed_def)
  next
    case False
    then have "agent_placed w q x" using conn_ok_agent [OF assms(1)] q assms(7) by simp
    then show ?thesis by (rule agent_placed_mono) (use assms(5,9) mode at False in \<open>auto simp: nth_list_update\<close>)
  qed
  have seats: "seats_ok w' q x" if "cw_registries w q = Some x" "q \<noteq> r" for q x
  proof -
    have "cr_agents x ! j \<noteq> Some p" if "j < length (cr_agents x)" for j using only [OF \<open>cw_registries w q = Some x\<close> that] \<open>q \<noteq> r\<close> by blast
    then show ?thesis using old [OF that(1)] assms(7) by (auto simp: seats_ok_def)
  qed
  have count: "used_slots (cr_agents ?reg) + 1 = used_slots (cr_agents reg)" using used_update [OF at(1), of None] at(2) by simp
  have kept: "j \<noteq> ?i \<and> cr_agents reg ! j = Some s" if "j < length (cr_agents reg)" "cr_agents ?reg ! j = Some s" for j s
    using that at(1) by (auto simp: nth_list_update split: if_split_asm)
  have "\<exists>x. cw_agents w' s = Some x \<and> ca_impl x \<noteq> None \<and> ca_registry x = Some r \<and> ca_index x = int j"
    if "j < length (cr_agents ?reg)" "cr_agents ?reg ! j = Some s" for j s
  proof -
    have j: "j < length (cr_agents reg)" "j \<noteq> ?i" "cr_agents reg ! j = Some s" using that kept [of j s] by simp_all
    then have "s \<noteq> p" using only [OF assms(5), of j] by blast
    moreover obtain x where "cw_agents w s = Some x" "ca_impl x \<noteq> None" "ca_registry x = Some r" "ca_index x = int j"
      using old [OF assms(5)] j unfolding seats_ok_def by blast
    ultimately show ?thesis using assms(7) by simp
  qed
  then have seats_r: "seats_ok w' r ?reg" using old [OF assms(5)] count by (simp add: seats_ok_def)
  have impl: "impl_ok w' q (cr_agents x) (cr_impl x)" if "cw_registries w q = Some x" for q x
    using old [OF that] impl_ok_cong [of w' w] assms(10,11) by simp
  have "Some q \<in> set ((cr_agents reg)[?i := None])" if "Some q \<in> set (cr_agents reg)" "q \<noteq> p" for q
    using that at by (auto simp: in_set_conv_nth) (metis length_list_update nth_list_update option.sel)
  then have impl_r: "impl_ok w' r (cr_agents ?reg) (cr_impl ?reg)" using old [OF assms(5)] assms(6,10,11)
    by (cases "cr_impl reg" rule: registry_mode.cases; cases i rule: registry_mode.cases) auto
  show ok: "conn_ok w'" unfolding conn_ok_def
  proof (intro conjI allI impI)
    show "seats_ok w' q x" "impl_ok w' q (cr_agents x) (cr_impl x)" if "cw_registries w' q = Some x" for q x
      using that assms(9) seats seats_r impl impl_r by (cases "q = r"; simp)+
  qed (use placed change(1) in simp_all)
  show "\<not> mux_maps m k p" if m: "mux_registry_of w' q = Some m" for q m k
  proof -
    obtain x where x: "cw_registries w' q = Some x" "cr_impl x = Some (Mux_registry m)" using m by (auto simp: mux_registry_of_iff)
    then show ?thesis using conn_ok_registry [OF ok x(1)] gone [OF x(1)] by auto
  qed
qed

text \<open>An agent without a registry ends its connection.\<close>

lemma conn_ok_homeless:
  assumes "conn_ok w" "cw_agents w p = Some ag" "ca_impl ag = Some c" "impl_home c = None" "acts p (set_impl None) w w'"
  shows "conn_ok w'" and "\<And>q x. cw_registries w' q = Some x \<Longrightarrow> Some p \<notin> set (cr_agents x)"
    and "\<And>q m k. mux_registry_of w' q = Some m \<Longrightarrow> \<not> mux_maps m k p"
proof -
  note a = assms(5) [unfolded acts_def]
  note old = conn_ok_registry [OF assms(1)]
  have "ca_registry ag = None" using conn_ok_agent [OF assms(1,2)] assms(3,4) by (simp add: agent_placed_def)
  then have unseated: "cr_agents x ! j \<noteq> Some p" if "cw_registries w q = Some x" "j < length (cr_agents x)" for q x j
    using old [OF that(1)] that(2) assms(2) by (auto simp: seats_ok_def)
  then show gone: "Some p \<notin> set (cr_agents x)" if "cw_registries w' q = Some x" for q x
    using that a by (auto simp: in_set_conv_nth)
  have same: "seat w' = seat w" "hosts w' = hosts w" "mux_registry_of w' = mux_registry_of w"
    using a by (simp_all add: fun_eq_iff seat_def hosts_def mux_registry_of_def)
  have "agent_placed w' q x" if "cw_agents w' q = Some x" for q x
  proof (cases "q = p")
    case True
    then show ?thesis using that a assms(2) by (auto simp: agent_placed_def set_impl_def)
  next
    case False
    then show ?thesis using that a conn_ok_agent [OF assms(1)] same by (simp add: agent_placed_def)
  qed
  moreover have "seats_ok w' q x" if "cw_registries w q = Some x" for q x
    using old [OF that] unseated [OF that] a by (auto simp: seats_ok_def)
  moreover have "entries_valid w'" using assms(1) a same by (simp add: conn_ok_def entries_valid_def)
  ultimately show ok: "conn_ok w'" using a old impl_ok_cong [of w' w] by (simp add: conn_ok_def)
  show "\<not> mux_maps m k p" if m: "mux_registry_of w' q = Some m" for q m k
  proof -
    obtain x where x: "cw_registries w' q = Some x" "cr_impl x = Some (Mux_registry m)" using m by (auto simp: mux_registry_of_iff)
    then show ?thesis using conn_ok_registry [OF ok x(1)] gone [OF x(1)] by auto
  qed
qed

lemma conn_ok_start:
  assumes "conn_ok w" "cw_agents w p = Some ag" "ca_impl ag = None" "acts p (\<lambda>ag. (set_impl (Some c) ag)\<lparr>ca_index := -1\<rparr>) w w'"
    and "cfg_concurrency_mode (ag_config (ca_agent ag)) = impl_mode c" "ca_registry ag = None" "impl_home c = None"
  shows "conn_ok w'"
proof -
  note a = assms(4) [unfolded acts_def]
  note old = conn_ok_registry [OF assms(1)]
  have unseated: "cr_agents x ! j \<noteq> Some p" if "cw_registries w q = Some x" "j < length (cr_agents x)" for q x j
    using old [OF that(1)] that(2) assms(2,3) by (auto simp: seats_ok_def)
  have same: "seat w' = seat w" "hosts w' = hosts w" "mux_registry_of w' = mux_registry_of w"
    using a by (simp_all add: fun_eq_iff seat_def hosts_def mux_registry_of_def)
  have "agent_placed w' q x" if "cw_agents w' q = Some x" for q x
  proof (cases "q = p")
    case True
    then show ?thesis using that a assms(2,5-7) by (auto simp: agent_placed_def set_impl_def)
  next
    case False
    then show ?thesis using that a conn_ok_agent [OF assms(1)] same by (simp add: agent_placed_def)
  qed
  moreover have "seats_ok w' q x" if "cw_registries w q = Some x" for q x
    using old [OF that] unseated [OF that] a by (auto simp: seats_ok_def)
  moreover have "entries_valid w'" using assms(1) a same by (simp add: conn_ok_def entries_valid_def)
  ultimately show "conn_ok w'" using a old impl_ok_cong [of w' w] by (simp add: conn_ok_def)
qed

subsection \<open>Creating and destroying\<close>

text \<open>After the end of the connection of \<open>p\<close> nothing refers to \<open>p\<close>, and its registry is freed with its last agent.\<close>

definition forgotten :: "nat \<Rightarrow> conn_world \<Rightarrow> bool" where
  "forgotten p w \<longleftrightarrow>
     (\<exists>ag. cw_agents w p = Some ag \<and> ca_impl ag = None)
     \<and> (\<forall>r reg. cw_registries w r = Some reg \<longrightarrow> Some p \<notin> set (cr_agents reg))
     \<and> (\<forall>r m k. mux_registry_of w r = Some m \<longrightarrow> \<not> mux_maps m k p)"

definition last_one :: "conn_world \<Rightarrow> nat \<Rightarrow> bool" where
  "last_one w r \<longleftrightarrow> (case cw_registries w r of None \<Rightarrow> False | Some reg \<Rightarrow> used_slots (cr_agents reg) = 1 \<and> \<not> listening reg)"

lemma listening_purged: "purged p (cr_impl reg) i \<Longrightarrow> listening (reg'\<lparr>cr_impl := i\<rparr>) = listening reg"
  by (cases "(p, cr_impl reg, i)" rule: purged.cases) (auto simp: listening_def split: option.split registry_impl.split)

context concurrency_mode begin

lemma destroy_ok:
  assumes "conn_ok w" "cw_agents w p = Some ag" "ca_impl ag = Some c" "impl_mode c = mode"
  shows "\<exists>w'. conn_destroy p w = Some w' \<and> conn_ok w' \<and> forgotten p w' \<and> (\<forall>q. q \<noteq> p \<longrightarrow> cw_agents w' q = cw_agents w q)
    \<and> (\<forall>r. ca_registry ag = Some r \<longrightarrow> (cw_registries w' r = None \<longleftrightarrow> last_one w r))"
proof -
  note placed = conn_ok_agent [OF assms(1,2), unfolded agent_placed_def, rule_format, OF assms(3)]
  have m: "get_agent_mode w p = Some mode" using placed assms(2,4) by (simp add: get_agent_mode_def)
  have "\<forall>r. impl_home c = Some r \<longrightarrow> hosts w r mode" using placed assms(4) by blast
  then obtain w1 where w1: "cleanup_func (mode_entries mode) p w = Some w1" "left p (impl_home c) w w1"
    using cleanup [OF assms] by blast
  have a1: "cw_agents w1 p = Some (set_impl None ag)" using w1(2) assms(2) by (simp add: left_def)
  show ?thesis
  proof (cases "impl_home c")
    case None
    have act: "acts p (set_impl None) w w1" using w1(2) None by (simp add: left_def acts_def fun_eq_iff)
    have "conn_destroy p w = Some w1"
      using m assms(2) w1(1) placed None a1 by (simp add: conn_destroy_def set_impl_def)
    moreover have "forgotten p w1" using conn_ok_homeless [OF assms(1-3) None act] a1 by (auto simp: forgotten_def set_impl_def)
    ultimately show ?thesis using conn_ok_homeless(1) [OF assms(1-3) None act] w1(2) placed None by (simp add: left_def)
  next
    case (Some r)
    have at: "0 \<le> ca_index ag" "seat w r (nat (ca_index ag)) p" "hosts w r mode" "ca_registry ag = Some r"
      using placed Some assms(4) by auto
    then obtain reg where reg: "cw_registries w r = Some reg" "nat (ca_index ag) < length (cr_agents reg)" "cr_agents reg ! nat (ca_index ag) = Some p"
      by (auto simp: seat_def split: option.split_asm)
    obtain i where i: "cw_registries w1 r = Some (reg\<lparr>cr_impl := i\<rparr>)" "purged p (cr_impl reg) i"
      using w1(2) Some reg(1) by (auto simp: left_def)
    define reg' where "reg' = reg\<lparr>cr_impl := i, cr_agents := (cr_agents reg)[nat (ca_index ag) := None], cr_agents_count := cr_agents_count reg - 1\<rparr>"
    define ag' where "ag' = (set_impl None ag)\<lparr>ca_index := -1, ca_registry := None\<rparr>"
    define w3 where "w3 = upd_agent p (\<lambda>ag. ag\<lparr>ca_registry := None\<rparr>) (upd_registry r (\<lambda>reg. reg\<lparr>cr_agents_count := cr_agents_count reg - 1\<rparr>)
        (upd_agent p (\<lambda>ag. ag\<lparr>ca_index := -1\<rparr>) (upd_registry r (\<lambda>reg. reg\<lparr>cr_agents := (cr_agents reg)[nat (ca_index ag) := None]\<rparr>) w1)))"
    have w3: "cw_agents w3 = (cw_agents w)(p \<mapsto> ag')" "cw_registries w3 = (cw_registries w)(r \<mapsto> reg')"
      "cw_entry w3 = cw_entry w" "cw_mux w3 = cw_mux w" "cw_mux_count w3 = cw_mux_count w"
      using w1(2) a1 i Some assms(2) by (auto simp: w3_def upd_agent_def upd_registry_def left_def ag'_def reg'_def fun_eq_iff set_impl_def)
    have "ca_impl ag' = None" by (simp add: ag'_def set_impl_def)
    note leave = conn_ok_leave [OF assms(1-3) Some reg(1) i(2) w3(1) this w3(2) [unfolded reg'_def] w3(3-5)]
    have count: "cr_agents_count reg = int (used_slots (cr_agents reg))" using conn_ok_registry [OF assms(1) reg(1)] by (simp add: seats_ok_def)
    then have pos: "cr_agents_count reg > 0" using used_positive [OF reg(2)] reg(3) by simp
    have "registry_mode i = registry_mode (cr_impl reg)" using i(2) by (cases "(p, cr_impl reg, i)" rule: purged.cases) auto
    then have "hosts w3 r mode" using at(3) reg(1) w3(2) by (simp add: hosts_def reg'_def)
    then obtain w' where w': "release_registry mode (Some r) w3 = Some w'" "conn_ok w'" "cw_agents w' = cw_agents w3"
      "cw_registries w' = (if cr_agents_count reg' = 0 \<and> \<not> listening reg' then (cw_registries w3)(r := None) else cw_registries w3)"
      using release [OF leave(1), of r reg'] w3(2) by auto
    have "conn_destroy p w = Some w'"
      using m assms(2) w1(1) at(1,4) a1 i(1) reg(2,3) pos w'(1) by (simp add: conn_destroy_def leave_registry_def set_impl_def w3_def)
    moreover have "forgotten p w'"
      using leave(2,3) w'(3,4) w3(1) by (auto simp: forgotten_def mux_registry_of_iff ag'_def set_impl_def split: if_split_asm)
    moreover have "listening reg' = listening reg" using listening_purged [OF i(2), of reg]
      by (simp add: reg'_def listening_def)
    then have "cw_registries w' r = None \<longleftrightarrow> last_one w r" using w'(4) w3(2) reg(1) count by (simp add: last_one_def reg'_def)
    ultimately show ?thesis using w'(2,3) w3(1) at(4) by auto
  qed
qed

text \<open>The last step of \<^verbatim>\<open>conn_create\<close>.\<close>

lemma interrupt_ok:
  assumes "conn_ok w" "cw_agents w p = Some ag" "ca_impl ag = Some c" "impl_mode c = mode"
  shows "\<exists>ret w' c'. conn_interrupt_world p w = Some (ret, w') \<and> conn_ok w' \<and> impl_mode c' = mode \<and> acts p (\<lambda>ag. ag\<lparr>ca_impl := Some c'\<rparr>) w w'"
proof -
  note placed = conn_ok_agent [OF assms(1,2), unfolded agent_placed_def, rule_format, OF assms(3)]
  have "\<forall>r. impl_home c = Some r \<longrightarrow> hosts w r mode" using placed assms(4) by blast
  then obtain ret w' c' where i: "interrupt_func (mode_entries mode) p w = Some (ret, w')" "impl_mode c' = mode" "impl_home c' = impl_home c"
    "acts p (\<lambda>ag. ag\<lparr>ca_impl := Some c'\<rparr>) w w'" using interrupt [OF assms(2-4)] by blast
  have "conn_interrupt_world p w = Some (ret, w')"
    using i(1) placed assms by (simp add: conn_interrupt_world_def dispatch_def get_agent_mode_def)
  moreover have "conn_ok w'" by (rule conn_ok_act [OF assms(1,2) i(4)]) (use assms(3,4) i(2,3) in simp_all)
  ultimately show ?thesis using i(2,4) by blast
qed

lemma join_ok:
  assumes "conn_ok w" "hosts w r mode" "cw_agents w p = Some ag" "ca_impl ag = None" "ca_registry ag = Some r"
    and "cfg_concurrency_mode (ag_config (ca_agent ag)) = mode"
  shows "\<exists>ret w'. join_registry mode p r config w = Some (ret, w') \<and> conn_ok w' \<and> (ret = 0 \<or> ret = -1) \<and> (\<forall>q. q \<noteq> p \<longrightarrow> cw_agents w' q = cw_agents w q)
    \<and> (\<exists>ag'. cw_agents w' p = Some ag' \<and> (if ret = 0 then \<exists>c. ca_impl ag' = Some c \<and> impl_mode c = mode else ca_impl ag' = None))"
proof -
  obtain reg where reg: "cw_registries w r = Some reg" using assms(2) by (auto simp: hosts_def split: option.split_asm)
  have ne: "cr_agents reg \<noteq> []" using conn_ok_registry [OF assms(1) reg] by (simp add: seats_ok_def)
  then have n: "length (cr_agents reg) < length (cr_agents reg) * 2" by simp
  obtain x w1 where f: "free_slot (cr_agents reg) (length (cr_agents reg) * 2) w = (x, w1)" by fastforce
  note slot = free_slot_ok [OF n, of w, unfolded f]
  show ?thesis
  proof (cases x)
    case None
    then have s: "same w w1" using slot by simp
    have "join_registry mode p r config w = Some (-1, w1)" using reg ne f None by (simp add: join_registry_def)
    then show ?thesis using same_ok [OF s] assms(1,3,4) same_fields [OF s] by auto
  next
    case (Some y)
    obtain i agents where y: "y = (i, agents)" by fastforce
    have s: "same w w1" using slot Some y by auto
    obtain k where k: "i < length agents" "agents ! i = None" "agents = cr_agents reg @ replicate k None" using slot Some y by auto
    define w2 where "w2 = upd_registry r (\<lambda>reg. reg\<lparr>cr_agents := cr_agents reg @ replicate k None\<rparr>) w1"
    have regs: "cw_registries w2 = (cw_registries w)(r \<mapsto> reg\<lparr>cr_agents := agents\<rparr>)" "cw_agents w2 = cw_agents w"
      by (simp_all add: w2_def registered_fields same_fields [OF s] reg k(3))
    have ok2: "conn_ok w2" unfolding w2_def by (rule conn_ok_grow [of _ _ reg]) (use same_ok [OF s] assms(1) same_fields [OF s] reg in simp_all)
    have h2: "hosts w2 r mode" using assms(2) regs(1) reg by (simp add: hosts_def)
    have w2: "upd_registry r (\<lambda>reg. reg\<lparr>cr_agents := agents\<rparr>) w1 = w2"
      unfolding w2_def upd_registry_def using same_fields [OF s] reg k(3) by simp
    have "homed = (Some r \<noteq> None)" using modes [OF assms(2)] by simp
    then obtain ret w3 where i: "init_func (mode_entries mode) p (Some r) config w2 = Some (ret, w3)"
      "if ret = 0 then \<exists>c. impl_mode c = mode \<and> impl_home c = Some r \<and> acts p (set_impl (Some c)) w2 w3
           else acts p (\<lambda>ag. ag) w2 w3 \<or> acts p (set_impl None) w2 w3" using init by blast
    let ?in = "\<lambda>w. upd_agent p (\<lambda>ag. ag\<lparr>ca_index := int i\<rparr>)
        (upd_registry r (\<lambda>reg. reg\<lparr>cr_agents := (cr_agents reg)[i := Some p], cr_agents_count := cr_agents_count reg + 1\<rparr>) w)"
    have join: "join_registry mode p r config w = (if ret \<noteq> 0 then do { w4 \<leftarrow> release_registry mode (Some r) w3; Some (-1, w4) } else Some (0, ?in w3))"
      using reg ne f Some y i(1) w2 by (simp add: join_registry_def)
    show ?thesis
    proof (cases "ret = 0")
      case True
      then obtain c where c: "impl_mode c = mode" "impl_home c = Some r" "acts p (set_impl (Some c)) w2 w3" using i(2) by auto
      note a = c(3) [unfolded acts_def]
      have "conn_ok (?in w3)"
        by (rule conn_ok_join [OF ok2, of r "reg\<lparr>cr_agents := agents\<rparr>" mode p ag i c])
          (use regs h2 assms k(1,2) c(1,2) a in \<open>simp_all add: upd_agent_def upd_registry_def\<close>)
      moreover have "cw_agents (?in w3) = (cw_agents w)(p \<mapsto> (set_impl (Some c) ag)\<lparr>ca_index := int i\<rparr>)"
        using a regs(2) assms(3) by (simp add: upd_agent_def upd_registry_def)
      ultimately show ?thesis using join True c(1) by (simp add: set_impl_def)
    next
      case False
      then obtain g where g: "acts p g w2 w3" "g = (\<lambda>ag. ag) \<or> g = set_impl None" using i(2) by auto
      note a = g(1) [unfolded acts_def]
      have none: "ca_impl (g ag) = None" using g(2) assms(4) by (auto simp: set_impl_def)
      have ok3: "conn_ok w3" by (rule conn_ok_act [OF ok2 _ g(1), of ag]) (use assms(3,4) regs(2) none in simp_all)
      have "hosts w3 r mode" using h2 a by (simp add: hosts_def)
      then obtain w4 where w4: "release_registry mode (Some r) w3 = Some w4" "conn_ok w4" "cw_agents w4 = cw_agents w3"
        using release [OF ok3, of r] a regs(1) by (metis fun_upd_same)
      then show ?thesis using join False a regs(2) assms(3) none by simp
    qed
  qed
qed

lemma create_ok:
  assumes "conn_ok w" "fresh_memory w" "cw_agents w p = Some ag" "ca_impl ag = None" "cfg_concurrency_mode (ag_config (ca_agent ag)) = mode"
  shows "\<exists>ret w'. conn_create p config w = Some (ret, w') \<and> conn_ok w' \<and> (ret = 0 \<or> ret = -1) \<and> (\<forall>q. q \<noteq> p \<longrightarrow> cw_agents w' q = cw_agents w q)
    \<and> (\<exists>ag'. cw_agents w' p = Some ag' \<and> (ret = 0 \<longleftrightarrow> ca_impl ag' \<noteq> None))"
proof -
  obtain acquired w1 where a: "acquire_registry mode config w = Some (acquired, w1)" "conn_ok w1" "cw_agents w1 = cw_agents w"
    "acquired = Some None \<longrightarrow> \<not> homed" "\<And>r. acquired = Some (Some r) \<Longrightarrow> homed \<and> hosts w1 r mode" using acquire [OF assms(1,2)] by blast
  have m: "get_agent_mode w p = Some mode" using assms(3,5) by (simp add: get_agent_mode_def)
  show ?thesis
  proof (cases acquired)
    case None
    then show ?thesis using a m assms(3,4) by (auto simp: conn_create_def)
  next
    case (Some home)
    define ag2 where "ag2 = ag\<lparr>ca_registry := home\<rparr>"
    define w2 where "w2 = upd_agent p (\<lambda>ag. ag\<lparr>ca_registry := home\<rparr>) w1"
    have w2: "cw_agents w2 = (cw_agents w)(p \<mapsto> ag2)" using a(3) assms(3) by (simp add: w2_def upd_agent_def ag2_def)
    have p1: "cw_agents w1 p = Some ag" using a(3) assms(3) by simp
    have ok2: "conn_ok w2" unfolding w2_def by (rule conn_ok_act [OF a(2) p1 acts_upd_agent]) (use assms(4) in simp_all)
    have ag2: "ca_impl ag2 = None" "ca_registry ag2 = home" "cfg_concurrency_mode (ag_config (ca_agent ag2)) = mode"
      using assms(4,5) by (simp_all add: ag2_def)
    define rest where "rest = (case home of
                      Some r \<Rightarrow> join_registry mode p r config w2
                    | None \<Rightarrow> do { (ret, w3) \<leftarrow> init_func (mode_entries mode) p None config w2;
                                   if ret \<noteq> 0 then Some (-1, w3) else Some (0, upd_agent p (\<lambda>ag. ag\<lparr>ca_index := -1\<rparr>) w3) })"
    have "\<exists>ret w3. rest = Some (ret, w3) \<and> conn_ok w3 \<and> (ret = 0 \<or> ret = -1) \<and> (\<forall>q. q \<noteq> p \<longrightarrow> cw_agents w3 q = cw_agents w q)
      \<and> (\<exists>ag'. cw_agents w3 p = Some ag' \<and> (if ret = 0 then \<exists>c. ca_impl ag' = Some c \<and> impl_mode c = mode else ca_impl ag' = None))"
    proof (cases home)
      case (Some r)
      have "hosts w2 r mode" using a(5) \<open>acquired = Some home\<close> Some by (simp add: w2_def upd_agent_def hosts_def)
      then show ?thesis using join_ok [OF ok2 _ _ ag2(1), of r p config] ag2 w2 Some by (simp add: rest_def)
    next
      case None
      then have "homed = (None \<noteq> (None :: nat option))" using a(4) \<open>acquired = Some home\<close> by simp
      then obtain ret w3 where i: "init_func (mode_entries mode) p None config w2 = Some (ret, w3)"
        "if ret = 0 then \<exists>c. impl_mode c = mode \<and> impl_home c = None \<and> acts p (set_impl (Some c)) w2 w3
           else acts p (\<lambda>ag. ag) w2 w3 \<or> acts p (set_impl None) w2 w3" using init by blast
      show ?thesis
      proof (cases "ret = 0")
        case False
        then obtain g where g: "acts p g w2 w3" "g = (\<lambda>ag. ag) \<or> g = set_impl None" using i(2) by auto
        have none: "ca_impl (g ag2) = None" using g(2) ag2(1) by (auto simp: set_impl_def)
        have "conn_ok w3" by (rule conn_ok_act [OF ok2 _ g(1), of ag2]) (use w2 ag2(1) none in simp_all)
        then show ?thesis using None i(1) False g(1) none w2 by (simp add: rest_def acts_def)
      next
        case True
        then obtain c where c: "impl_mode c = mode" "impl_home c = None" "acts p (set_impl (Some c)) w2 w3" using i(2) by auto
        let ?ag = "(set_impl (Some c) ag2)\<lparr>ca_index := -1\<rparr>"
        define w4 where "w4 = upd_agent p (\<lambda>ag. ag\<lparr>ca_index := -1\<rparr>) w3"
        have act: "acts p (\<lambda>ag. (set_impl (Some c) ag)\<lparr>ca_index := -1\<rparr>) w2 w4" unfolding w4_def by (rule acts_acts [OF c(3) acts_upd_agent])
        have "conn_ok w4" using conn_ok_start [OF ok2 _ ag2(1) act] w2 ag2 None c(1,2) by simp
        then show ?thesis using None i(1) True act w2 c(1) by (simp add: rest_def acts_def w4_def set_impl_def)
      qed
    qed
    then obtain ret w3 where r: "rest = Some (ret, w3)" "conn_ok w3" "ret = 0 \<or> ret = -1" "\<forall>q. q \<noteq> p \<longrightarrow> cw_agents w3 q = cw_agents w q"
      "\<exists>ag'. cw_agents w3 p = Some ag' \<and> (if ret = 0 then \<exists>c. ca_impl ag' = Some c \<and> impl_mode c = mode else ca_impl ag' = None)" by blast
    have e: "conn_create p config w = (if ret \<noteq> 0 then Some (-1, w3) else do { (_, w4) \<leftarrow> conn_interrupt_world p w3; Some (0, w4) })"
      using m a(1) Some r(1) [unfolded rest_def w2_def] by (simp add: conn_create_def Let_def)
    show ?thesis
    proof (cases "ret = 0")
      case False
      then show ?thesis using e r by auto
    next
      case True
      then obtain ag3 c where p3: "cw_agents w3 p = Some ag3" "ca_impl ag3 = Some c" "impl_mode c = mode" using r(5) by auto
      obtain ret' w4 c' where w4: "conn_interrupt_world p w3 = Some (ret', w4)" "conn_ok w4" "acts p (\<lambda>ag. ag\<lparr>ca_impl := Some c'\<rparr>) w3 w4"
        using interrupt_ok [OF r(2) p3] by blast
      then show ?thesis using e True r(4) p3(1) by (simp add: acts_def)
    qed
  qed
qed

end

end
