(* ===== verification/Conn_Reach.thy ===== *)
theory Conn_Reach
  imports Conn_Client
begin

text \<open>
  The connections over the life of the program: datagrams for the multiplexed registries, listening, and what agents do by themselves
  keep \<open>conn_ok\<close>; the worlds that can be reached.
\<close>

subsection \<open>Registries of the multiplexed backend\<close>

lemma conn_ok_mux_registry:
  assumes "conn_ok w" "cw_registries w r = Some reg" "cr_impl reg = Some (Mux_registry m)"
    and "mux_ok m'" "mr_index m' = mr_index m" "\<And>k q. mux_maps m' k q \<Longrightarrow> Some q \<in> set (cr_agents reg)"
    and "same w1 (upd_mux_registry r (\<lambda>_. m') w) \<or> same (upd_mux_registry r (\<lambda>_. m') w) w1"
  shows "conn_ok w1"
proof -
  let ?w = "upd_mux_registry r (\<lambda>_. m') w"
  let ?reg = "reg\<lparr>cr_impl := Some (Mux_registry m')\<rparr>"
  have regs: "cw_registries ?w = (cw_registries w)(r \<mapsto> ?reg)" by (simp add: mux_fields assms(2,3))
  note old = conn_ok_registry [OF assms(1)]
  have "entries_valid ?w"
    by (rule registry_change [OF assms(1,2) regs]) (use assms(3,5) in \<open>simp_all add: mux_fields\<close>)
  moreover have "agent_placed ?w p ag" if "cw_agents w p = Some ag" for p ag
    using conn_ok_agent [OF assms(1) that] by (rule agent_placed_mono) (auto simp: regs assms(2,3))
  moreover have "seats_ok ?w q x \<and> impl_ok ?w q (cr_agents x) (cr_impl x)" if "cw_registries w q = Some x" for q x
    using old [OF that] impl_ok_cong [of ?w w] by (simp add: seats_ok_def mux_fields)
  moreover have "seats_ok ?w r ?reg" using old [OF assms(2)] by (simp add: seats_ok_def mux_fields)
  moreover have "impl_ok ?w r (cr_agents ?reg) (cr_impl ?reg)" using old [OF assms(2)] assms(3-6) by (auto simp: mux_fields)
  ultimately have "conn_ok ?w" using assms(2,3) by (auto simp: conn_ok_def mux_fields)
  then show ?thesis using assms(7) same_ok by blast
qed

lemma insert_keeps_index:
  "insert_map_entry d mem k x m = Some m' \<Longrightarrow> mr_index m' = mr_index m \<and> mr_cb_mux_incoming m' = mr_cb_mux_incoming m"
proof (induction d arbitrary: k x m m')
  case (Suc d)
  have grow: "mr_index m2 = mr_index m1 \<and> mr_cb_mux_incoming m2 = mr_cb_mux_incoming m1"
    if "grow_map (insert_map_entry d mem) mem n m1 = Some m2" for n m1 m2
  proof -
    have "mr_index t = mr_index m1 \<and> mr_cb_mux_incoming t = mr_cb_mux_incoming m1"
      if "each [0..<length (mr_map m1)] (\<lambda>i m. if me_type (mr_map m1 ! i) = MAP_ENTRY_TYPE_FULL
            then insert_map_entry d mem (me_record (mr_map m1 ! i)) (me_agent (mr_map m1 ! i)) m else Some m)
          (m1\<lparr>mr_map := replicate n zero_map_entry, mr_map_count := 0\<rparr>) = Some t" for t
      by (rule each_inv [OF that]) (use Suc.IH in \<open>auto split: if_split_asm\<close>)
    then show ?thesis using that by (auto simp: grow_map_def Let_def split: if_split_asm)
  qed
  show ?case using Suc.prems Suc.IH grow
    by (auto simp: bind_eq_Some_conv Let_def split: option.split_asm if_split_asm)
qed simp

text \<open>However much memory there is, an insertion that returns has inserted.\<close>

lemma insert_result:
  assumes "mux_ok m" "\<And>q. \<not> mux_maps m k q" "inet_family (ar_addr k)" "insert_map_entry map_depth mem k (Some p) m = Some m'"
  shows "mux_ok m'" "mux_maps m' k' q \<Longrightarrow> mux_maps m k' q \<or> q = p"
proof -
  have "mux_ok m' \<and> (\<forall>k' q. mux_maps m' k' q \<longrightarrow> mux_maps m k' q \<or> q = p)"
  proof (cases mem)
    case True
    obtain m2 where "insert_map_entry (Suc (Suc 0)) True k (Some p) m = Some m2" "mux_ok m2"
      "\<And>k' q. mux_maps m2 k' q \<longleftrightarrow> mux_maps m k' q \<or> q = p \<and> addr_record_is_equal k k' True"
      using insert_map_entry_ok [OF assms(1-3)] by blast
    then show ?thesis using assms(4) True by (simp add: map_depth_def numeral_2_eq_2 del: insert_map_entry.simps)
  next
    case False
    show ?thesis
    proof (cases "mr_map_count m * 2 < int (length (mr_map m))")
      case True
      obtain m2 where "insert_map_entry (Suc 1) False k (Some p) m = Some m2" "mux_ok m2"
        "\<And>k' q. mux_maps m2 k' q \<longleftrightarrow> mux_maps m k' q \<or> q = p \<and> addr_record_is_equal k k' True"
        using insert_without_growth [OF assms(1,2) True assms(3)] by blast
      then show ?thesis using assms(4) False by (simp add: map_depth_def numeral_2_eq_2 del: insert_map_entry.simps)
    next
      case nogrow: False
      then show ?thesis using insert_without_memory [OF assms(1,2), of map_depth "Some p"] assms(4) False by simp
    qed
  qed
  then show "mux_ok m'" "mux_maps m' k' q \<Longrightarrow> mux_maps m k' q \<or> q = p" by blast+
qed

subsection \<open>Datagrams\<close>

lemma find_by_id_config: "find_by_id is tid a = Some (r, b) \<Longrightarrow> ag_config b = ag_config a"
  by (induction "is" tid a rule: find_by_id.induct)
    (auto simp: bind_eq_Some_conv upd_turn_def upd_ent_def Let_def split: if_split_asm option.split_asm)

text \<open>The search among the agents of a registry changes no connection.\<close>

lemma conn_ok_agent_data:
  assumes "conn_ok w" "cw_agents w p = Some ag" "ag_config a = ag_config (ca_agent ag)"
  shows "conn_ok (upd_agent p (\<lambda>ag. ag\<lparr>ca_agent := a\<rparr>) w)"
  by (rule conn_ok_act [OF assms(1,2) acts_upd_agent]) (use assms(3) in simp_all)

lemma find_agent_ok:
  assumes "\<And>a b a'. test a = Some (b, a') \<Longrightarrow> ag_config a' = ag_config a"
  shows "find_agent test ss w = Some (found, w') \<Longrightarrow> conn_ok w \<Longrightarrow>
    conn_ok w' \<and> cw_registries w' = cw_registries w \<and> (\<forall>p. found = Some p \<longrightarrow> Some p \<in> set ss)"
proof (induction ss arbitrary: w)
  case (Cons s ss)
  obtain rdy where rdy: "is_ready w s = Some rdy" using Cons.prems(1) by (auto simp: bind_eq_Some_conv)
  show ?case
  proof (cases rdy)
    case False
    then show ?thesis using Cons.IH [of w] Cons.prems rdy by auto
  next
    case True
    then obtain p ag b a where s: "s = Some p" "cw_agents w p = Some ag" "test (ca_agent ag) = Some (b, a)"
      and rest: "(if b then Some (Some p, upd_agent p (\<lambda>ag. ag\<lparr>ca_agent := a\<rparr>) w)
          else find_agent test ss (upd_agent p (\<lambda>ag. ag\<lparr>ca_agent := a\<rparr>) w)) = Some (found, w')"
      using Cons.prems(1) rdy by (auto simp: bind_eq_Some_conv Let_def)
    have "conn_ok (upd_agent p (\<lambda>ag. ag\<lparr>ca_agent := a\<rparr>) w)" by (rule conn_ok_agent_data [OF Cons.prems(2) s(2) assms [OF s(3)]])
    moreover have "cw_registries (upd_agent p (\<lambda>ag. ag\<lparr>ca_agent := a\<rparr>) w) = cw_registries w" by (simp add: upd_agent_def)
    ultimately show ?thesis using rest s(1) Cons.IH by (auto split: if_split_asm)
  qed
qed simp

lemma insert_for_ok:
  assumes "conn_ok w" "insert_for r src p w = Some w'" "inet_family (ar_addr src)" "\<And>q m. mux_registry_of w r = Some m \<Longrightarrow> \<not> mux_maps m src q"
    and "cw_registries w r = Some reg" "Some p \<in> set (cr_agents reg)"
  shows "conn_ok w'" and "\<exists>m'. cw_registries w' r = Some (reg\<lparr>cr_impl := Some (Mux_registry m')\<rparr>)"
proof -
  obtain mem w1 where m1: "conn_malloc w = (mem, w1)" by fastforce
  note s = same_results(2) [OF m1]
  obtain m m' where m: "mux_registry_of w1 r = Some m" "insert_map_entry map_depth (mem \<noteq> None) src (Some p) m = Some m'"
    "w' = upd_mux_registry r (\<lambda>_. m') w1" using assms(2) m1 by (auto simp: insert_for_def bind_eq_Some_conv)
  have reg: "cw_registries w1 r = Some reg" "cr_impl reg = Some (Mux_registry m)" using m(1) assms(5) same_fields [OF s] by (auto simp: mux_registry_of_iff)
  then have old: "mux_ok m" "\<And>k q. mux_maps m k q \<Longrightarrow> Some q \<in> set (cr_agents reg)"
    using conn_ok_registry [OF assms(1,5)] by auto
  have "mux_registry_of w r = Some m" using reg assms(5) by (simp add: mux_registry_of_iff)
  then have new: "\<And>q. \<not> mux_maps m src q" using assms(4) by blast
  note res = insert_result [OF old(1) new assms(3) m(2)]
  have ok1: "conn_ok w1" using same_ok [OF s] assms(1) by blast
  show "conn_ok w'"
    by (rule conn_ok_mux_registry [OF ok1 reg res(1)])
      (use insert_keeps_index [OF m(2)] res(2) old(2) assms(6) m(3) in auto)
  show "\<exists>m'. cw_registries w' r = Some (reg\<lparr>cr_impl := Some (Mux_registry m')\<rparr>)" using m(3) reg by (auto simp: mux_fields)
qed

lemma seat_of: "Some p \<in> set (cr_agents reg) \<Longrightarrow> cw_registries v r = Some (reg\<lparr>cr_impl := j\<rparr>) \<Longrightarrow> \<exists>i. seat v r i p"
  by (auto simp: in_set_conv_nth seat_def)

lemma seat_here: "Some p \<in> set (cr_agents reg) \<Longrightarrow> cw_registries v r = Some reg \<Longrightarrow> \<exists>i. seat v r i p"
  by (auto simp: in_set_conv_nth seat_def)

lemma lookup_request_cases:
  assumes "lookup_request r msg src w = Some (found, w')" "cw_registries w r = Some reg"
  obtains "found = None" "w' = w"
  | u w1 where "find_agent (find_by_ufrag u) (cr_agents reg) w = Some (None, w1)" "found = None" "same w1 w'"
  | u p w1 where "find_agent (find_by_ufrag u) (cr_agents reg) w = Some (Some p, w1)" "found = Some p" "insert_for r src p w1 = Some w'"
proof -
  define user where "user = username (credentials msg)"
  define u where "u = takeWhile (\<lambda>c. c \<noteq> 0x3A) user"
  note def = lookup_request_def [of r msg src w, folded user_def, unfolded Let_def, folded u_def]
  show thesis
  proof (cases "0x3A \<in> set user")
    case False
    then show thesis using assms(1) that(1) by (simp add: def)
  next
    case True
    then obtain f w1 where f: "find_agent (find_by_ufrag u) (cr_agents reg) w = Some (f, w1)"
      using assms by (auto simp: def bind_eq_Some_conv)
    show thesis
    proof (cases f)
      case (Some p)
      then show thesis using assms True f that(3) by (auto simp: def bind_eq_Some_conv)
    next
      case None
      then obtain m :: mux_registry where "found = None" "w' = (if \<not> mr_cb_mux_incoming m then w1
                                     else case ce_getnameinfo (cw_env w1) (ar_addr src) of
                                            None \<Rightarrow> w1
                                          | Some host \<Rightarrow> conn_emit (Out_incoming u (drop (length u + 1) user) host (addr_get_port (ar_addr src))) w1)"
        using assms True f by (auto simp: def bind_eq_Some_conv)
      moreover have "same w1 w'" unfolding calculation(2) by (simp split: option.split)
      ultimately show thesis using f None that(2) by blast
    qed
  qed
qed

lemma lookup_request_ok:
  assumes "lookup_request r msg src w = Some (found, w')" "cw_registries w r = Some reg" "conn_ok w" "inet_family (ar_addr src)"
    and "mux_registry_of w r = Some m" "\<And>q. \<not> mux_maps m src q"
  shows "conn_ok w' \<and> hosts w' r JUICE_CONCURRENCY_MODE_MUX \<and> (\<forall>p. found = Some p \<longrightarrow> (\<exists>i. seat w' r i p))"
proof -
  have host: "hosts v r JUICE_CONCURRENCY_MODE_MUX" if "cw_registries v = cw_registries w" for v
    using assms(5) that by (auto simp: hosts_mux mux_registry_of_def)
  have keep: "conn_ok w1 \<and> cw_registries w1 = cw_registries w \<and> (\<forall>p. f = Some p \<longrightarrow> Some p \<in> set (cr_agents reg))"
    if "find_agent (find_by_ufrag u) (cr_agents reg) w = Some (f, w1)" for u f w1
    by (rule find_agent_ok [OF _ that assms(3)]) (auto simp: find_by_ufrag_def)
  from assms(1,2) show ?thesis
  proof (cases rule: lookup_request_cases)
    case 1
    then show ?thesis using assms(3) host [of w] by simp
  next
    case (2 u w1)
    then show ?thesis using keep [OF 2(1)] same_ok [OF 2(3)] same_fields [OF 2(3)] host [of w'] by simp
  next
    case (3 u p w1)
    note k = keep [OF 3(1)]
    have reg1: "cw_registries w1 r = Some reg" using k assms(2) by simp
    have "\<not> mux_maps m2 src q" if "mux_registry_of w1 r = Some m2" for q m2
    proof -
      have "mux_registry_of w1 r = mux_registry_of w r" using k by (simp add: mux_registry_of_def)
      then show ?thesis using that assms(5,6) by simp
    qed
    note ins = insert_for_ok [OF _ 3(3) assms(4) this reg1]
    have p: "Some p \<in> set (cr_agents reg)" using k by blast
    obtain m' where m': "cw_registries w' r = Some (reg\<lparr>cr_impl := Some (Mux_registry m')\<rparr>)" using ins(2) k p by blast
    then have "hosts w' r JUICE_CONCURRENCY_MODE_MUX" by (simp add: hosts_def)
    then show ?thesis using ins(1) k p seat_of [OF p m'] 3(2) by blast
  qed
qed

text \<open>The agent a datagram goes to sits in the registry of the socket.\<close>

lemma lookup_agent_ok:
  assumes "conn_ok w" "hosts w r JUICE_CONCURRENCY_MODE_MUX" "inet_family (ar_addr src)" "lookup_agent r buf src w = Some (found, w')"
  shows "conn_ok w' \<and> hosts w' r JUICE_CONCURRENCY_MODE_MUX \<and> (\<forall>p. found = Some p \<longrightarrow> (\<exists>i. seat w' r i p))"
proof -
  obtain reg m where reg: "cw_registries w r = Some reg" "cr_impl reg = Some (Mux_registry m)" "mux_registry_of w r = Some m"
    using assms(2) by (auto simp: hosts_mux mux_registry_of_iff)
  have ok: "mux_ok m" and inside: "\<And>k q. mux_maps m k q \<Longrightarrow> Some q \<in> set (cr_agents reg)"
    using conn_ok_registry [OF assms(1) reg(1)] reg(2) by auto
  obtain x where x: "mapped_agent m src = Some x" using mapped_agent_total [OF ok] by blast
  show ?thesis
  proof (cases x)
    case (Some p)
    then have "Some p \<in> set (cr_agents reg)" using x mapped_agent_iff [OF ok] inside by blast
    moreover have "found = Some p" "w' = w" using assms(4) reg(3) x Some by (simp_all add: lookup_agent_def)
    ultimately show ?thesis using assms(1,2) seat_here reg(1) by simp
  next
    case None
    then have new: "\<not> mux_maps m src q" for q using x mapped_agent_iff [OF ok, of src q] by simp
    have "(found = None \<and> w' = w) \<or> (\<exists>msg. lookup_stun r msg src w = Some (found, w'))"
      using assms(4) reg(3) x None by (auto simp: lookup_agent_def bind_eq_Some_conv split: if_split_asm option.split_asm)
    then consider "found = None" "w' = w" | (request) msg where "lookup_request r msg src w = Some (found, w')"
      | (answer) tid where "find_agent (find_by_transaction tid) (cr_agents reg) w = Some (found, w')"
      using reg(1) by (auto simp: lookup_stun_def split: if_split_asm)
    then show ?thesis
    proof cases
      case 1
      then show ?thesis using assms(1,2) by simp
    next
      case request
      show ?thesis by (rule lookup_request_ok [OF request reg(1) assms(1,3) reg(3) new])
    next
      case answer
      have f: "conn_ok w' \<and> cw_registries w' = cw_registries w \<and> (\<forall>p. found = Some p \<longrightarrow> Some p \<in> set (cr_agents reg))"
        by (rule find_agent_ok [OF _ answer assms(1)])
          (use find_by_id_config in \<open>auto simp: find_by_transaction_def agent_find_entry_from_transaction_id_def bind_eq_Some_conv\<close>)
      have "cw_registries w' r = Some reg" using f reg(1) by simp
      moreover have "hosts w' r JUICE_CONCURRENCY_MODE_MUX" using f assms(2) by (simp add: hosts_def)
      ultimately show ?thesis using f seat_here by blast
    qed
  qed
qed

end
