(* ===== verification/Conn_Props.thy ===== *)
theory Conn_Props
  imports Conn_Reach Stun_Roundtrip
begin

text \<open>The worlds of agents, registries and connections that can be reached, and what \<^verbatim>\<open>conn.c\<close> guarantees in them.\<close>

subsection \<open>Listening\<close>

lemma mux_cb_ok [simp]: "mux_ok (m\<lparr>mr_cb_mux_incoming := b\<rparr>) = mux_ok m" "mux_maps (m\<lparr>mr_cb_mux_incoming := b\<rparr>) k q = mux_maps m k q"
  by (simp_all add: mux_ok_def mux_maps_def full_at_def find_map_entry_def)

lemma conn_mux_listen_ok:
  assumes "conn_ok w" "hosts w r JUICE_CONCURRENCY_MODE_MUX"
  shows "\<exists>ret w'. conn_mux_listen r cb w = Some (ret, w') \<and> conn_ok w' \<and> hosts w' r JUICE_CONCURRENCY_MODE_MUX \<and> cw_agents w' = cw_agents w"
proof -
  obtain reg m where reg: "cw_registries w r = Some reg" "cr_impl reg = Some (Mux_registry m)" "mux_registry_of w r = Some m"
    using assms(2) by (auto simp: hosts_mux mux_registry_of_iff)
  have old: "mux_ok m" "\<And>k q. mux_maps m k q \<Longrightarrow> Some q \<in> set (cr_agents reg)" using conn_ok_registry [OF assms(1) reg(1)] reg(2) by auto
  define w1 where "w1 = (\<lambda>b. upd_mux_registry r (\<lambda>m. m\<lparr>mr_cb_mux_incoming := b\<rparr>) w)"
  have fields: "cw_registries (w1 b) = (cw_registries w)(r \<mapsto> reg\<lparr>cr_impl := Some (Mux_registry (m\<lparr>mr_cb_mux_incoming := b\<rparr>))\<rparr>)"
    "cw_agents (w1 b) = cw_agents w" for b by (simp_all add: w1_def mux_fields reg)
  have ok: "conn_ok (w1 b)" for b
    by (rule conn_ok_mux_registry [OF assms(1) reg(1,2), of "m\<lparr>mr_cb_mux_incoming := b\<rparr>"])
      (use old in \<open>auto simp: w1_def upd_mux_registry_def upd_registry_def reg\<close>)
  have host: "mux_registry_of (w1 b) r = Some (m\<lparr>mr_cb_mux_incoming := b\<rparr>)" for b by (simp add: mux_registry_of_iff fields)
  obtain ret w2 where z: "conn_sendto_self (mr_sock m) (w1 False) = (ret, w2)" by fastforce
  note s = same_results(5) [OF z]
  have "conn_ok w2" using same_ok [OF s] ok by simp
  moreover have "hosts w2 r JUICE_CONCURRENCY_MODE_MUX" using host [of False] same_fields [OF s] by (auto simp: hosts_mux mux_registry_of_def)
  moreover have "conn_mux_stop_listen r w = Some (if ret < 0 then -1 else 0, w2)"
    using reg host [of False] z by (simp add: conn_mux_stop_listen_def conn_mux_interrupt_registry_def w1_def)
  moreover have "hosts (w1 True) r JUICE_CONCURRENCY_MODE_MUX" using host [of True] by (auto simp: hosts_mux)
  ultimately show ?thesis
    using reg ok [of True] assms same_fields(1) [OF s] fields(2)
    by (cases cb) (auto simp: conn_mux_listen_def w1_def)
qed

lemma juice_mux_listen_ok:
  assumes "conn_ok w" "fresh_memory w"
  shows "\<exists>ret w'. juice_mux_listen addr port cb w = Some (ret, w') \<and> conn_ok w' \<and> cw_agents w' = cw_agents w"
proof -
  obtain acquired w1 where a: "acquire_registry JUICE_CONCURRENCY_MODE_MUX \<lparr>bind_address = addr, port_begin = port, port_end = port\<rparr> w = Some (acquired, w1)"
    "conn_ok w1" "cw_agents w1 = cw_agents w" "\<And>r. acquired = Some (Some r) \<Longrightarrow> hosts w1 r JUICE_CONCURRENCY_MODE_MUX"
    using mux_mode.acquire [OF assms] by metis
  show ?thesis
  proof (cases "\<exists>r. acquired = Some (Some r)")
    case False
    then show ?thesis using a by (cases acquired; cases "the acquired") (auto simp: juice_mux_listen_def)
  next
    case True
    then obtain r where r: "acquired = Some (Some r)" by blast
    obtain ret w2 where l: "conn_mux_listen r cb w1 = Some (ret, w2)" "conn_ok w2" "hosts w2 r JUICE_CONCURRENCY_MODE_MUX" "cw_agents w2 = cw_agents w1"
      using conn_mux_listen_ok [OF a(2) a(4) [OF r]] by blast
    then obtain reg where "cw_registries w2 r = Some reg" by (auto simp: hosts_mux mux_registry_of_iff)
    then obtain w3 where "release_registry JUICE_CONCURRENCY_MODE_MUX (Some r) w2 = Some w3" "conn_ok w3" "cw_agents w3 = cw_agents w2"
      using mux_mode.release [OF l(2) _ l(3)] by blast
    then show ?thesis using a r l by (simp add: juice_mux_listen_def)
  qed
qed

subsection \<open>Reachable worlds\<close>

text \<open>The program starts without registries.  Agents come and go, connect and disconnect, the program listens, datagrams arrive at
  multiplexed sockets, and agents and backends do their own work, which changes neither the configuration of an agent nor where its
  connection belongs.  System calls may answer anything.\<close>

inductive conn_reach :: "conn_world \<Rightarrow> bool" where
  start: "conn_reach w" if "cw_agents w = (\<lambda>p. None)" "cw_registries w = (\<lambda>r. None)" "cw_entry w = (\<lambda>m. None)" "cw_mux w = []" "cw_mux_count w = 0"
| allocate: "conn_reach (w\<lparr>cw_agents := (cw_agents w)(p \<mapsto> ag)\<rparr>)" if "conn_reach w" "cw_agents w p = None" "ca_impl ag = None"
| deallocate: "conn_reach w'" if "conn_reach w" "agent_destroy p w = Some w'"
| create: "conn_reach w'" if "conn_reach w" "fresh_memory w" "cw_agents w p = Some ag" "ca_impl ag = None" "conn_create p config w = Some (ret, w')"
| destroy: "conn_reach w'" if "conn_reach w" "cw_agents w p = Some ag" "ca_impl ag \<noteq> None" "conn_destroy p w = Some w'"
| listen: "conn_reach w'" if "conn_reach w" "fresh_memory w" "juice_mux_listen addr port cb w = Some (ret, w')"
| incoming: "conn_reach w'" if "conn_reach w" "hosts w r JUICE_CONCURRENCY_MODE_MUX" "inet_family (ar_addr src)"
    "lookup_agent r buf src w = Some (found, w')"
| work: "conn_reach w'" if "conn_reach w" "cw_agents w p = Some ag" "ca_impl ag = Some c" "impl_mode c' = impl_mode c" "impl_home c' = impl_home c"
    "ag_config a = ag_config (ca_agent ag)" "acts p (\<lambda>ag. ag\<lparr>ca_agent := a, ca_impl := Some c'\<rparr>) w w'"
| system: "conn_reach w'" if "conn_reach w" "same w w'"

lemma conn_ok_unconnected:
  assumes "conn_ok w" "\<And>ag. cw_agents w p = Some ag \<Longrightarrow> ca_impl ag = None" "\<And>ag. x = Some ag \<Longrightarrow> ca_impl ag = None"
  shows "conn_ok (w\<lparr>cw_agents := (cw_agents w)(p := x)\<rparr>)" (is "conn_ok ?w")
proof -
  have same: "seat ?w = seat w" "hosts ?w = hosts w" "mux_registry_of ?w = mux_registry_of w"
    by (simp_all add: fun_eq_iff seat_def hosts_def mux_registry_of_def)
  have "agent_placed ?w q ag" if "cw_agents ?w q = Some ag" for q ag
    using that assms(3) conn_ok_agent [OF assms(1), of q ag] same by (auto simp: agent_placed_def split: if_split_asm)
  moreover have "seats_ok ?w r reg" if "cw_registries w r = Some reg" for r reg
    using conn_ok_registry [OF assms(1) that] assms(2) by (fastforce simp: seats_ok_def)
  moreover have "entries_valid ?w" using assms(1) same by (simp add: conn_ok_def entries_valid_def)
  ultimately show ?thesis using conn_ok_registry [OF assms(1)] impl_ok_cong [of ?w w] by (simp add: conn_ok_def)
qed

text \<open>The two operations in the mode of the agent.\<close>

lemma create_in_mode:
  assumes "conn_ok w" "fresh_memory w" "cw_agents w p = Some ag" "ca_impl ag = None"
  shows "\<exists>ret w'. conn_create p config w = Some (ret, w') \<and> conn_ok w' \<and> (ret = 0 \<or> ret = -1) \<and> (\<forall>q. q \<noteq> p \<longrightarrow> cw_agents w' q = cw_agents w q)
    \<and> (\<exists>ag'. cw_agents w' p = Some ag' \<and> (ret = 0 \<longleftrightarrow> ca_impl ag' \<noteq> None))"
  using poll_mode.create_ok [OF assms] mux_mode.create_ok [OF assms] thread_mode.create_ok [OF assms]
  by (cases "cfg_concurrency_mode (ag_config (ca_agent ag))") blast+

lemma destroy_in_mode:
  assumes "conn_ok w" "cw_agents w p = Some ag" "ca_impl ag \<noteq> None"
  shows "\<exists>w'. conn_destroy p w = Some w' \<and> conn_ok w' \<and> forgotten p w' \<and> (\<forall>q. q \<noteq> p \<longrightarrow> cw_agents w' q = cw_agents w q)
    \<and> (\<forall>r. ca_registry ag = Some r \<longrightarrow> (cw_registries w' r = None \<longleftrightarrow> last_one w r))"
proof -
  obtain c where c: "ca_impl ag = Some c" using assms(3) by blast
  note a = assms(1,2) c
  show ?thesis using poll_mode.destroy_ok [OF a] mux_mode.destroy_ok [OF a] thread_mode.destroy_ok [OF a]
    by (cases c) simp_all
qed

lemma agent_destroy_ok:
  assumes "conn_ok w" "agent_destroy p w = Some w'"
  shows "conn_ok w'"
proof -
  obtain ag w1 where a: "cw_agents w p = Some ag" "(if ca_impl ag \<noteq> None then conn_destroy p w else Some w) = Some w1"
    and w': "w' = w1\<lparr>cw_agents := (cw_agents w1)(p := None)\<rparr>" using assms(2) by (auto simp: agent_destroy_def bind_eq_Some_conv)
  have "conn_ok w1 \<and> (\<forall>x. cw_agents w1 p = Some x \<longrightarrow> ca_impl x = None)"
  proof (cases "ca_impl ag = None")
    case True
    then show ?thesis using a assms(1) by simp
  next
    case False
    then show ?thesis using a destroy_in_mode [OF assms(1) a(1)] by (auto simp: forgotten_def)
  qed
  then show ?thesis using conn_ok_unconnected [of w1 p None] w' by simp
qed

lemma reach_ok: "conn_reach w \<Longrightarrow> conn_ok w"
proof (induction rule: conn_reach.induct)
  case (start w)
  then show ?case by (simp add: conn_ok_def entries_valid_def used_slots_def)
next
  case (allocate w p ag)
  then show ?case using conn_ok_unconnected [of w p "Some ag"] by simp
next
  case (deallocate w p w')
  then show ?case using agent_destroy_ok [of w p w'] by blast
next
  case (create w p ag config ret w')
  then show ?case using create_in_mode [of w p ag config] by auto
next
  case (destroy w p ag w')
  then show ?case using destroy_in_mode [of w p ag] by auto
next
  case (listen w addr port cb ret w')
  then show ?case using juice_mux_listen_ok [of w addr port cb] by auto
next
  case (incoming w r src buf found w')
  then show ?case using lookup_agent_ok [of w r src buf found w'] by blast
next
  case (work w p ag c c' a w')
  then show ?case using conn_ok_act [OF _ work(2,7)] by simp
next
  case (system w w')
  then show ?case using same_ok by blast
qed

lemma connected_home:
  assumes "conn_ok w" "cw_agents w p = Some ag" "ca_impl ag = Some c"
  shows "get_agent_mode w p = Some (impl_mode c)" and "impl_home c = Some r \<Longrightarrow> hosts w r (impl_mode c)"
  using conn_ok_agent [OF assms(1,2)] assms(2,3) by (auto simp: agent_placed_def get_agent_mode_def)

lemma send_total:
  assumes "conn_ok w" "cw_agents w p = Some ag" "ca_impl ag = Some c"
  shows "send_func (mode_entries (impl_mode c)) p dst data ds w \<noteq> None" and "get_addrs_func (mode_entries (impl_mode c)) p sz w \<noteq> None"
    and "interrupt_func (mode_entries (impl_mode c)) p w \<noteq> None"
proof -
  have "send_func (mode_entries (impl_mode c)) p dst data ds w \<noteq> None \<and> get_addrs_func (mode_entries (impl_mode c)) p sz w \<noteq> None
    \<and> interrupt_func (mode_entries (impl_mode c)) p w \<noteq> None"
  proof (cases c)
    case (Poll_conn pc)
    then have "poll_conn_of w p = Some pc" using assms by (simp add: conn_of_iff)
    moreover have "\<forall>r. impl_home c = Some r \<longrightarrow> hosts w r JUICE_CONCURRENCY_MODE_POLL" using connected_home(2) [OF assms] Poll_conn by auto
    ultimately show ?thesis using poll_interrupt [OF assms(2,3)] Poll_conn
      by (auto simp: conn_poll_send_def conn_poll_get_addrs_def Let_def split: prod.split)
  next
    case (Mux_conn mc)
    then have "mux_conn_of w p = Some mc" using assms by (simp add: conn_of_iff)
    moreover have h: "\<forall>r. impl_home c = Some r \<longrightarrow> hosts w r JUICE_CONCURRENCY_MODE_MUX" using connected_home(2) [OF assms] Mux_conn by auto
    moreover obtain m where "mux_registry_of w (mc_registry mc) = Some m" using h Mux_conn by (auto simp: hosts_mux)
    ultimately show ?thesis using mux_interrupt [OF assms(2,3)] Mux_conn
      by (auto simp: conn_mux_send_def conn_mux_get_addrs_def Let_def)
  next
    case (Thread_conn tc)
    then have "thread_conn_of w p = Some tc" using assms by (simp add: conn_of_iff)
    then show ?thesis using thread_interrupt [OF assms(2,3)] Thread_conn
      by (auto simp: conn_thread_send_def conn_thread_get_addrs_def Let_def)
  qed
  then show "send_func (mode_entries (impl_mode c)) p dst data ds w \<noteq> None" "get_addrs_func (mode_entries (impl_mode c)) p sz w \<noteq> None"
    "interrupt_func (mode_entries (impl_mode c)) p w \<noteq> None" by blast+
qed

subsection \<open>A program with one agent\<close>

text \<open>An agent in the multiplexed mode; every system call succeeds.\<close>

definition demo_agent :: conn_agent where
  "demo_agent =
     (let a = zero_agent (plain_config\<lparr>cfg_concurrency_mode := JUICE_CONCURRENCY_MODE_MUX\<rparr>) still_world
      in \<lparr>ca_agent = a\<lparr>ag_local := (ag_local a)\<lparr>ice_ufrag := [0x61]\<rparr>\<rparr>, ca_registry = None, ca_index = 0, ca_impl = None\<rparr>)"

definition demo_env :: conn_env where
  "demo_env = \<lparr>ce_malloc = (\<lambda>n. Some (100 + n)), ce_mallocs = 0, ce_socket = (\<lambda>n config. 7), ce_sockets = 0, ce_tcp = (\<lambda>n. (8, True, True)),
     ce_tcps = 0, ce_pipe = (\<lambda>n. Some (3, 4)), ce_thread = (\<lambda>n. 0), ce_threads = 0, ce_clock = (\<lambda>n. 1000), ce_ticks = 0, ce_send = (\<lambda>n. 1),
     ce_stream = (\<lambda>n. []), ce_sends = 0, ce_name = (\<lambda>s. None), ce_self = (\<lambda>s r. 0), ce_diffserv = (\<lambda>s. (True, True)), ce_ifaddrs = None,
     ce_getnameinfo = (\<lambda>s. None), ce_out = []\<rparr>"

definition demo_world :: conn_world where
  "demo_world = \<lparr>cw_agents = (\<lambda>p. None)(1 \<mapsto> demo_agent), cw_registries = (\<lambda>r. None), cw_entry = (\<lambda>m. None), cw_mux = [], cw_mux_count = 0,
     cw_env = demo_env\<rparr>"

definition demo_config :: udp_socket_config where
  "demo_config = \<lparr>bind_address = None, port_begin = 0, port_end = 0\<rparr>"

lemma demo_facts:
  "conn_reach demo_world" "fresh_memory demo_world" "cw_agents demo_world 1 = Some demo_agent" "ca_impl demo_agent = None"
proof -
  let ?w = "demo_world\<lparr>cw_agents := (\<lambda>p. None)\<rparr>"
  have "conn_reach (?w\<lparr>cw_agents := (cw_agents ?w)(1 \<mapsto> demo_agent)\<rparr>)"
    by (rule allocate) (auto intro!: start simp: demo_world_def demo_agent_def Let_def)
  then show "conn_reach demo_world" by (simp add: demo_world_def)
qed (simp_all add: fresh_memory_def conn_malloc_def demo_world_def demo_agent_def Let_def split: option.split)

text \<open>The agent connects, in the registry 100.\<close>

lemma demo_connected:
  obtains w ag where "conn_create 1 demo_config demo_world = Some (0, w)" "conn_reach w" "cw_agents w 1 = Some ag" "ca_impl ag \<noteq> None"
    "hosts w 100 JUICE_CONCURRENCY_MODE_MUX"
proof -
  obtain ret w ag where c: "conn_create 1 demo_config demo_world = Some (ret, w)" "cw_agents w 1 = Some ag" "ret = 0 \<longleftrightarrow> ca_impl ag \<noteq> None"
    using create_in_mode [OF reach_ok [OF demo_facts(1)] demo_facts(2-4)] by blast
  have "map_option (\<lambda>(ret, w). (ret, hosts w 100 JUICE_CONCURRENCY_MODE_MUX)) (conn_create 1 demo_config demo_world) = Some (0, True)" by code_simp
  then show thesis using c create [OF demo_facts c(1)] that by auto
qed

text \<open>A signed binding request to the user name fragment of the agent.\<close>

definition demo_request :: stun_message where
  "demo_request = zero_message\<lparr>msg_class := STUN_CLASS_REQUEST, msg_method := STUN_METHOD_BINDING,
     credentials := zero_credentials\<lparr>username := [0x61, 0x3A, 0x62, 0x62]\<rparr>\<rparr>"

definition demo_datagram :: bytes where "demo_datagram = wire 0 demo_request (Some [1])"

lemma demo_request_read:
  "is_stun_datagram demo_datagram = Some True" "\<exists>n. stun_read demo_datagram = Some (Some (n, received demo_request (Some [1])))"
proof -
  have ok: "message_ok demo_request"
    by (simp add: message_ok_def demo_request_def zero_message_def stun_consts STUN_CLASS_MASK_def
        zero_credentials_def credentials_ok_def stun_sizes)
  have "length (encs (body_attrs 0 demo_request)) = 20"
    by (simp add: demo_request_def body_attrs_def attrs_error_code_def attrs_address_def attrs_ice_def
        attrs_channel_lifetime_def attrs_peers_def attrs_turn_def attrs_software_def attrs_user_def attrs_realm_def
        attrs_nonce_def zero_message_def zero_credentials_def zero_record_def stun_consts length_enc align32_id str_bytes_def)
  moreover have "length (transaction_id demo_request) = 12" "msg_class demo_request \<noteq> STUN_CLASS_INDICATION"
    "password_algorithm (credentials demo_request) = STUN_PASSWORD_ALGORITHM_UNSET"
    by (simp_all add: demo_request_def zero_message_def zero_credentials_def stun_consts)
  ultimately have "length (wire 0 demo_request (Some [1])) < 65536 + 20"
    by (simp add: wire_def signed_body_def mac_attrs_def Let_def length_hdr length_enc fingerprint_attr_def align32_id)
  then show "is_stun_datagram demo_datagram = Some True" "\<exists>n. stun_read demo_datagram = Some (Some (n, received demo_request (Some [1])))"
    using wire_datagram [OF ok] stun_read_wire [OF ok] by (auto simp: demo_datagram_def)
qed

lemma demo_request_received:
  "username (credentials (received demo_request pw)) = [0x61, 0x3A, 0x62, 0x62]" "msg_class (received demo_request pw) = STUN_CLASS_REQUEST"
  "msg_method (received demo_request pw) = STUN_METHOD_BINDING" "has_integrity (received demo_request (Some k))"
  by (simp_all add: demo_request_def zero_message_def zero_credentials_def stun_consts received_def received_credentials_def is_request_def Let_def)

lemma demo_lookup:
  assumes "conn_create 1 demo_config demo_world = Some (0, w)"
  shows "\<exists>w'. lookup_agent 100 demo_datagram (demo_address 2) w = Some (Some 1, w')"
proof -
  have ok: "conn_ok w" using reach_ok [OF create [OF demo_facts assms]] .
  have "map_option fst (do { (ret, w) \<leftarrow> conn_create 1 demo_config demo_world; reg \<leftarrow> cw_registries w 100;
          (found, w1) \<leftarrow> find_agent (find_by_ufrag [0x61]) (cr_agents reg) w; Some ((found, fst (conn_malloc w1) \<noteq> None), w1) }) = Some (Some 1, True)"
    by code_simp
  then obtain reg w1 where f: "cw_registries w 100 = Some reg" "find_agent (find_by_ufrag [0x61]) (cr_agents reg) w = Some (Some 1, w1)"
    "fst (conn_malloc w1) \<noteq> None" using assms by (auto simp: bind_eq_Some_conv)
  have keep: "conn_ok w1 \<and> cw_registries w1 = cw_registries w \<and> (\<forall>p. Some 1 = Some p \<longrightarrow> Some p \<in> set (cr_agents reg))"
    by (rule find_agent_ok [OF _ f(2) ok]) (auto simp: find_by_ufrag_def)
  have "map_option (\<lambda>m. list_all (\<lambda>e. me_type e = MAP_ENTRY_TYPE_EMPTY) (mr_map m))
      (do { (ret, w) \<leftarrow> conn_create 1 demo_config demo_world; mux_registry_of w 100 }) = Some True" by code_simp
  then obtain m where m: "mux_registry_of w 100 = Some m" "list_all (\<lambda>e. me_type e = MAP_ENTRY_TYPE_EMPTY) (mr_map m)"
    using assms by auto
  then have mok: "mux_ok m" using conn_ok_registry [OF ok f(1)] f(1) by (auto simp: mux_registry_of_iff)
  have new: "\<not> mux_maps m k p" for k p using m(2) by (auto simp: mux_maps_def full_at_def list_all_length)
  obtain q w2 where q: "conn_malloc w1 = (Some q, w2)" using f(3) by (cases "conn_malloc w1") auto
  have m2: "mux_registry_of w2 100 = Some m" using m(1) keep same_fields [OF same_results(2) [OF q]] by (simp add: mux_registry_of_def)
  have inet: "inet_family (ar_addr (demo_address 2))" by (simp add: demo_address_def inet_family_def)
  obtain m' where "insert_map_entry (Suc (Suc 0)) True (demo_address 2) (Some 1) m = Some m'" using insert_map_entry_ok [OF mok new inet] by blast
  then have "insert_for 100 (demo_address 2) 1 w1 = Some (upd_mux_registry 100 (\<lambda>_. m') w2)"
    using q m2 by (simp add: insert_for_def map_depth_def numeral_2_eq_2 del: insert_map_entry.simps)
  then have "lookup_request 100 (received demo_request (Some [1])) (demo_address 2) w = Some (Some 1, upd_mux_registry 100 (\<lambda>_. m') w2)"
    using f by (simp add: lookup_request_def demo_request_received)
  moreover have "mapped_agent m (demo_address 2) = Some None"
    using mapped_agent_total [OF mok, of "demo_address 2"] mapped_agent_iff [OF mok, of "demo_address 2"] new by (metis option.exhaust)
  ultimately show ?thesis using m demo_request_read
    by (auto simp: lookup_agent_def lookup_stun_def demo_request_received)
qed

subsection \<open>What \<^verbatim>\<open>conn.c\<close> guarantees\<close>

text \<open>(C34) In every world the program can reach, however creations, destructions, listening, datagrams and the work of the agents are
  interleaved and whichever system calls fail, agents and registries refer to each other consistently: an agent with a connection sits in
  exactly the slot it remembers, in a live registry of its mode; the counts are those of the slots; the tables of the modes only hold live
  registries; and every address map is a valid hash table that only names agents sitting in its registry.\<close>

theorem connections_never_dangle:
  assumes "conn_reach w"
  shows "conn_ok w"
  using assms by (rule reach_ok)

theorem connections_never_dangle_witness:
  "\<exists>w. conn_create 1 demo_config demo_world = Some (0, w) \<and> conn_ok w \<and> hosts w 100 JUICE_CONCURRENCY_MODE_MUX"
proof -
  obtain w where w: "conn_create 1 demo_config demo_world = Some (0, w)" "conn_reach w" "hosts w 100 JUICE_CONCURRENCY_MODE_MUX"
    by (rule demo_connected)
  show ?thesis using w connections_never_dangle [OF w(2)] by blast
qed

text \<open>(C38) \<^verbatim>\<open>conn_create\<close> on an agent without a connection always returns: 0 with the agent in its place in a registry of its mode, or -1 with
  an agent that has no connection, whichever allocation, socket or thread failed on the way.  No other agent changes.\<close>

theorem conn_create_all_or_nothing:
  assumes "conn_reach w" "fresh_memory w" "cw_agents w p = Some ag" "ca_impl ag = None"
  shows "\<exists>ret w' ag'. conn_create p config w = Some (ret, w') \<and> cw_agents w' p = Some ag'
    \<and> (ret = 0 \<and> ca_impl ag' \<noteq> None \<and> agent_placed w' p ag' \<or> ret = -1 \<and> ca_impl ag' = None)
    \<and> (\<forall>q. q \<noteq> p \<longrightarrow> cw_agents w' q = cw_agents w q)"
proof -
  obtain ret w' ag' where c: "conn_create p config w = Some (ret, w')" "conn_ok w'" "ret = 0 \<or> ret = -1"
    "\<forall>q. q \<noteq> p \<longrightarrow> cw_agents w' q = cw_agents w q" "cw_agents w' p = Some ag'" "ret = 0 \<longleftrightarrow> ca_impl ag' \<noteq> None"
    using create_in_mode [OF reach_ok [OF assms(1)] assms(2-4), of config] by (elim exE conjE)
  have placed: "agent_placed w' p ag'" by (rule conn_ok_agent [OF c(2,5)])
  have "ret = 0 \<and> ca_impl ag' \<noteq> None \<and> agent_placed w' p ag' \<or> ret = -1 \<and> ca_impl ag' = None"
    using c(3,6) placed by (cases "ret = 0") simp_all
  then show ?thesis using c(1,4,5) by (intro exI [of _ ret] exI [of _ w'] exI [of _ ag'] conjI)
qed

theorem conn_create_all_or_nothing_witness:
  "\<exists>ret w' ag'. conn_create 1 demo_config demo_world = Some (ret, w') \<and> cw_agents w' 1 = Some ag'
    \<and> (ret = 0 \<and> ca_impl ag' \<noteq> None \<and> agent_placed w' 1 ag' \<or> ret = -1 \<and> ca_impl ag' = None)
    \<and> (\<forall>q. q \<noteq> 1 \<longrightarrow> cw_agents w' q = cw_agents demo_world q)"
  by (rule conn_create_all_or_nothing [OF demo_facts])

text \<open>(C35) \<^verbatim>\<open>conn_destroy\<close> of a connected agent always succeeds, with none of its assertions failing.  Afterwards no registry slot and no
  entry of an address map refers to the agent, and its registry is freed exactly when it was the last agent there and nobody listens.
  No other agent changes.  So \<^verbatim>\<open>agent_destroy\<close> leaves no pointer to the memory it frees.\<close>

theorem conn_destroy_forgets:
  assumes "conn_reach w" "cw_agents w p = Some ag" "ca_impl ag \<noteq> None"
  shows "\<exists>w'. conn_destroy p w = Some w' \<and> forgotten p w' \<and> (\<forall>q. q \<noteq> p \<longrightarrow> cw_agents w' q = cw_agents w q)
    \<and> (\<forall>r. ca_registry ag = Some r \<longrightarrow> (cw_registries w' r = None \<longleftrightarrow> last_one w r))
    \<and> agent_destroy p w = Some (w'\<lparr>cw_agents := (cw_agents w')(p := None)\<rparr>)"
proof -
  obtain w' where w': "conn_destroy p w = Some w'" "forgotten p w'" "\<forall>q. q \<noteq> p \<longrightarrow> cw_agents w' q = cw_agents w q"
    "\<forall>r. ca_registry ag = Some r \<longrightarrow> (cw_registries w' r = None \<longleftrightarrow> last_one w r)"
    using destroy_in_mode [OF reach_ok [OF assms(1)] assms(2,3)] by blast
  moreover have "agent_destroy p w = Some (w'\<lparr>cw_agents := (cw_agents w')(p := None)\<rparr>)"
    using assms(2,3) w'(1) by (simp add: agent_destroy_def)
  ultimately show ?thesis by blast
qed

theorem conn_destroy_forgets_witness:
  "\<exists>w w'. conn_create 1 demo_config demo_world = Some (0, w) \<and> conn_destroy 1 w = Some w' \<and> forgotten 1 w'"
proof -
  obtain w ag where w: "conn_create 1 demo_config demo_world = Some (0, w)" "conn_reach w" "cw_agents w 1 = Some ag" "ca_impl ag \<noteq> None"
    by (rule demo_connected)
  show ?thesis using w(1) conn_destroy_forgets [OF w(2-4)] by blast
qed

text \<open>(C36) An agent that a datagram on a multiplexed socket is handed to is alive, has a connection of the multiplexed backend, and sits in
  the registry of that socket, whether the address was mapped, a STUN request named the agent, or it answers a transaction.\<close>

theorem mux_datagrams_reach_live_agents:
  assumes "conn_reach w" "hosts w r JUICE_CONCURRENCY_MODE_MUX" "inet_family (ar_addr src)" "lookup_agent r buf src w = Some (Some p, w')"
  shows "\<exists>ag c. cw_agents w' p = Some ag \<and> ca_impl ag = Some (Mux_conn c) \<and> mc_registry c = r \<and> ca_registry ag = Some r
    \<and> seat w' r (nat (ca_index ag)) p"
proof -
  have l: "conn_ok w'" "\<exists>i. seat w' r i p" "hosts w' r JUICE_CONCURRENCY_MODE_MUX" using lookup_agent_ok [OF reach_ok [OF assms(1)] assms(2-4)] by auto
  then obtain i reg where reg: "cw_registries w' r = Some reg" "i < length (cr_agents reg)" "cr_agents reg ! i = Some p"
    by (auto simp: seat_def split: option.split_asm)
  then obtain ag c where ag: "cw_agents w' p = Some ag" "ca_impl ag = Some c" "ca_registry ag = Some r"
    using conn_ok_registry [OF l(1) reg(1)] unfolding seats_ok_def by blast
  have "hosts w' r (impl_mode c)" "impl_home c = Some r" "seat w' r (nat (ca_index ag)) p"
    using conn_ok_agent [OF l(1) ag(1)] ag(2,3) by (auto simp: agent_placed_def)
  then show ?thesis using ag l(3) by (cases c) (auto simp: hosts_def split: option.split_asm)
qed

theorem mux_datagrams_reach_live_agents_witness:
  "\<exists>w w'. conn_create 1 demo_config demo_world = Some (0, w) \<and> lookup_agent 100 demo_datagram (demo_address 2) w = Some (Some 1, w')
    \<and> seat w' 100 (nat (ca_index (the (cw_agents w' 1)))) 1"
proof -
  obtain w where w: "conn_create 1 demo_config demo_world = Some (0, w)" "conn_reach w" "hosts w 100 JUICE_CONCURRENCY_MODE_MUX"
    by (rule demo_connected)
  obtain w' where w': "lookup_agent 100 demo_datagram (demo_address 2) w = Some (Some 1, w')" using demo_lookup [OF w(1)] by blast
  have "inet_family (ar_addr (demo_address 2))" by (simp add: demo_address_def inet_family_def)
  from mux_datagrams_reach_live_agents [OF w(2,3) this w'] show ?thesis using w(1) w' by auto
qed

text \<open>(C37) The \<^verbatim>\<open>void\<close> pointers behind an agent always have the type of its mode: in every reachable world sending, listing addresses,
  interrupting and destroying go to the functions of the mode the agent is configured with, find the connection and the registry those
  functions cast to, and return.\<close>

theorem conn_impl_well_typed:
  assumes "conn_reach w" "cw_agents w p = Some ag" "ca_impl ag = Some c"
  shows "get_agent_mode w p = Some (impl_mode c)
    \<and> conn_send_world p dst data ds w = send_func (mode_entries (impl_mode c)) p dst data ds w \<and> conn_send_world p dst data ds w \<noteq> None
    \<and> conn_get_addrs p sz w = get_addrs_func (mode_entries (impl_mode c)) p sz w \<and> conn_get_addrs p sz w \<noteq> None
    \<and> conn_interrupt_world p w = interrupt_func (mode_entries (impl_mode c)) p w \<and> conn_interrupt_world p w \<noteq> None
    \<and> conn_destroy p w \<noteq> None"
proof -
  note ok = reach_ok [OF assms(1)]
  have m: "get_agent_mode w p = Some (impl_mode c)" by (rule connected_home [OF ok assms(2,3)])
  have "conn_send_world p dst data ds w = send_func (mode_entries (impl_mode c)) p dst data ds w"
    "conn_get_addrs p sz w = get_addrs_func (mode_entries (impl_mode c)) p sz w"
    "conn_interrupt_world p w = interrupt_func (mode_entries (impl_mode c)) p w"
    using assms(2,3) m by (simp_all add: conn_send_world_def conn_get_addrs_def conn_interrupt_world_def dispatch_def)
  moreover have "conn_destroy p w \<noteq> None" using destroy_in_mode [OF ok assms(2)] assms(3) by auto
  ultimately show ?thesis using m send_total [OF ok assms(2,3)] by simp
qed

theorem conn_impl_well_typed_witness:
  "\<exists>w. conn_create 1 demo_config demo_world = Some (0, w) \<and> conn_send_world 1 (demo_address 2) [1, 2] 0 w \<noteq> None \<and> conn_get_addrs 1 4 w \<noteq> None"
proof -
  obtain w ag where w: "conn_create 1 demo_config demo_world = Some (0, w)" "conn_reach w" "cw_agents w 1 = Some ag" "ca_impl ag \<noteq> None"
    by (rule demo_connected)
  then obtain c where "ca_impl ag = Some c" by blast
  from conn_impl_well_typed [OF w(2,3) this] show ?thesis using w(1) by blast
qed

subsection \<open>Where the poll thread goes wrong\<close>

text \<open>When the update of the last agent opens a TCP connection, the thread reads a descriptor past the end of its array.\<close>

lemma poll_reads_past_end:
  assumes "cw_agents w p = Some ag" "ca_impl ag = Some (Poll_conn c)" "pc_state c \<noteq> CONN_STATE_FINISHED"
    and "length pfds = Suc i" "fst (pfds ! i) = pc_udp_sock c"
    and "conn_poll_process_udp p (snd (pfds ! i)) w = Some w1" "poll_conn_of w1 p = Some c1" "pc_tcp_sock c1 \<noteq> INVALID_SOCKET"
  shows "poll_loop (Some p # ss) i pfds w = None"
  using assms by simp

end
