(* ===== verification/Juice_Api.thy ===== *)
theory Juice_Api
  imports Agent_Api Server
begin

text \<open>
  \<^verbatim>\<open>libjuice/src/juice.c\<close>, the public C interface: the tests of the pointers that the application passes, and the error codes.
  A pointer is an option, \<open>None\<close> is \<^verbatim>\<open>NULL\<close>; a buffer comes with its size.  The result \<open>None\<close> is an access through a null pointer
  (or one of the failures inside the agent).
\<close>

text \<open>A buffer of the application: a null pointer is allowed when its size is zero.\<close>

definition bad_buffer :: "bytes option \<Rightarrow> nat \<Rightarrow> bool" where
  "bad_buffer buffer sz \<longleftrightarrow> buffer = None \<and> sz \<noteq> 0"

definition juice_result :: "int \<Rightarrow> int" where
  "juice_result ret = (if ret < 0 then JUICE_ERR_FAILED else JUICE_ERR_SUCCESS)"

subsection \<open>Agents\<close>

definition juice_create :: "juice_config option \<Rightarrow> agent_env \<Rightarrow> juice_agent option" where
  "juice_create config env = (case config of None \<Rightarrow> None | Some c \<Rightarrow> Some (agent_create c env))"

definition juice_gather_candidates ::
  "bool \<Rightarrow> addr_record list option \<Rightarrow> (bytes \<Rightarrow> bool) \<Rightarrow> bool \<Rightarrow> (bytes \<Rightarrow> u16 \<Rightarrow> addr_record list) \<Rightarrow> juice_agent option
   \<Rightarrow> (int \<times> juice_agent option) option" where
  "juice_gather_candidates created addrs numeric thread_ok resolve agent =
     (case agent of
        None \<Rightarrow> Some (JUICE_ERR_INVALID, None)
      | Some a \<Rightarrow> do { (ret, a1) \<leftarrow> agent_gather_candidates created addrs numeric thread_ok resolve a; Some (juice_result ret, Some a1) })"

text \<open>The second result is the buffer.\<close>

definition juice_get_local_description :: "bytes option \<Rightarrow> nat \<Rightarrow> juice_agent option \<Rightarrow> int \<times> bytes option \<times> juice_agent option" where
  "juice_get_local_description buffer sz agent =
     (case agent of
        None \<Rightarrow> (JUICE_ERR_INVALID, buffer, None)
      | Some a \<Rightarrow>
          if bad_buffer buffer sz then (JUICE_ERR_INVALID, buffer, agent)
          else let (ret, out, a1) = agent_get_local_description (case buffer of None \<Rightarrow> [] | Some b \<Rightarrow> take sz b) a
               in (juice_result ret, map_option (\<lambda>b. out @ drop sz b) buffer, Some a1))"

definition juice_set_remote_description :: "bytes option \<Rightarrow> juice_agent option \<Rightarrow> (int \<times> juice_agent option) option" where
  "juice_set_remote_description sdp agent =
     (case (agent, sdp) of
        (Some a, Some s) \<Rightarrow> do { (ret, a1) \<leftarrow> agent_set_remote_description s a; Some (ret, Some a1) }
      | _ \<Rightarrow> Some (JUICE_ERR_INVALID, agent))"

definition juice_add_remote_candidate :: "bytes option \<Rightarrow> juice_agent option \<Rightarrow> (int \<times> juice_agent option) option" where
  "juice_add_remote_candidate sdp agent =
     (case (agent, sdp) of
        (Some a, Some s) \<Rightarrow> do { (ret, a1) \<leftarrow> agent_add_remote_candidate s a; Some (ret, Some a1) }
      | _ \<Rightarrow> Some (JUICE_ERR_INVALID, agent))"

definition juice_add_turn_server :: "juice_turn_server option \<Rightarrow> juice_agent option \<Rightarrow> int \<times> juice_agent option" where
  "juice_add_turn_server server agent =
     (case (agent, server) of
        (Some a, Some s) \<Rightarrow> let (ret, a1) = agent_add_turn_server s a in (juice_result ret, Some a1)
      | _ \<Rightarrow> (JUICE_ERR_INVALID, agent))"

definition juice_set_remote_gathering_done :: "juice_agent option \<Rightarrow> int \<times> juice_agent option" where
  "juice_set_remote_gathering_done agent =
     (case agent of
        None \<Rightarrow> (JUICE_ERR_INVALID, None)
      | Some a \<Rightarrow> let (ret, a1) = agent_set_remote_gathering_done a in (juice_result ret, Some a1))"

definition juice_send :: "bytes option \<Rightarrow> nat \<Rightarrow> juice_agent option \<Rightarrow> (int \<times> juice_agent option) option" where
  "juice_send data sz agent =
     (case agent of
        None \<Rightarrow> Some (JUICE_ERR_INVALID, None)
      | Some a \<Rightarrow>
          if bad_buffer data sz then Some (JUICE_ERR_INVALID, agent)
          else do { (ret, a1) \<leftarrow> juice_send_diffserv (case data of None \<Rightarrow> [] | Some d \<Rightarrow> take sz d) 0 a; Some (ret, Some a1) })"

text \<open>No test of the pointer.\<close>

definition juice_get_state :: "juice_agent option \<Rightarrow> juice_state option" where
  "juice_get_state agent = map_option agent_get_state agent"

text \<open>The strings are written to buffers of the given sizes.\<close>

definition juice_get_selected_addresses ::
  "(sockaddr \<Rightarrow> (bytes \<times> bytes) option) \<Rightarrow> bytes option \<Rightarrow> nat \<Rightarrow> bytes option \<Rightarrow> nat \<Rightarrow> juice_agent option \<Rightarrow> int \<times> bytes \<times> bytes" where
  "juice_get_selected_addresses getnameinfo local local_size remote remote_size agent =
     (case agent of
        None \<Rightarrow> (JUICE_ERR_INVALID, [], [])
      | Some a \<Rightarrow>
          if bad_buffer local local_size \<or> bad_buffer remote remote_size then (JUICE_ERR_INVALID, [], [])
          else case agent_get_selected_candidate_pair a of
                 None \<Rightarrow> (JUICE_ERR_NOT_AVAIL, [], [])
               | Some (l, r) \<Rightarrow>
                   let (ret, lout) = (if local_size = 0 then (0, []) else addr_record_to_string getnameinfo (cand_resolved l) local_size) in
                   if ret < 0 then (JUICE_ERR_FAILED, [], [])
                   else let (ret', rout) = (if remote_size = 0 then (0, []) else addr_record_to_string getnameinfo (cand_resolved r) remote_size) in
                        if ret' < 0 then (JUICE_ERR_FAILED, lout, []) else (JUICE_ERR_SUCCESS, lout, rout))"

text \<open>The agent is not tested, the strings are.\<close>

definition juice_set_local_ice_attributes :: "bytes option \<Rightarrow> bytes option \<Rightarrow> juice_agent option \<Rightarrow> (int \<times> juice_agent option) option" where
  "juice_set_local_ice_attributes ufrag pwd agent =
     (case (ufrag, pwd) of
        (Some u, Some p) \<Rightarrow> do { a \<leftarrow> agent; let (ret, a1) = agent_set_local_ice_attributes u p a; Some (ret, Some a1) }
      | _ \<Rightarrow> Some (JUICE_ERR_INVALID, agent))"

definition juice_set_ice_tcp_mode :: "juice_ice_tcp_mode \<Rightarrow> juice_agent option \<Rightarrow> int \<times> juice_agent option" where
  "juice_set_ice_tcp_mode mode agent =
     (case agent of
        None \<Rightarrow> (JUICE_ERR_INVALID, None)
      | Some a \<Rightarrow> let (ret, a1) = agent_set_ice_tcp_mode mode a in (ret, Some a1))"

subsection \<open>Servers\<close>

definition juice_server_create :: "juice_server_config option \<Rightarrow> server_env \<Rightarrow> (juice_server option \<times> server_env) option" where
  "juice_server_create config env = (case config of None \<Rightarrow> Some (None, env) | Some c \<Rightarrow> server_create c env)"

definition juice_server_destroy :: "(juice_server \<Rightarrow> juice_server option) \<Rightarrow> juice_server option \<Rightarrow> server_env option option" where
  "juice_server_destroy join server = (case server of None \<Rightarrow> Some None | Some sv \<Rightarrow> map_option Some (server_destroy join sv))"

definition juice_server_get_port :: "juice_server option \<Rightarrow> u16" where
  "juice_server_get_port server = (case server of None \<Rightarrow> 0 | Some sv \<Rightarrow> server_get_port sv)"

definition juice_server_add_credentials ::
  "juice_server_credentials option \<Rightarrow> int \<Rightarrow> juice_server option \<Rightarrow> int \<times> juice_server option" where
  "juice_server_add_credentials cred lifetime_ms server =
     (case (server, cred) of
        (Some sv, Some c) \<Rightarrow> let (ret, sv1) = server_add_credentials c lifetime_ms sv in (juice_result ret, Some sv1)
      | _ \<Rightarrow> (JUICE_ERR_INVALID, server))"

subsection \<open>Null pointers\<close>

text \<open>A null agent is answered with an error by every function but two, which follow the pointer.\<close>

lemma null_agent:
  "juice_gather_candidates created addrs numeric thread_ok resolve None = Some (JUICE_ERR_INVALID, None)"
  "juice_get_local_description buffer sz None = (JUICE_ERR_INVALID, buffer, None)"
  "juice_set_remote_description sdp None = Some (JUICE_ERR_INVALID, None)" "juice_add_remote_candidate sdp None = Some (JUICE_ERR_INVALID, None)"
  "juice_add_turn_server server None = (JUICE_ERR_INVALID, None)" "juice_set_remote_gathering_done None = (JUICE_ERR_INVALID, None)"
  "juice_send data sz None = Some (JUICE_ERR_INVALID, None)" "juice_set_ice_tcp_mode mode None = (JUICE_ERR_INVALID, None)"
  "juice_get_selected_addresses getnameinfo local ls remote rs None = (JUICE_ERR_INVALID, [], [])"
  "juice_get_state None = None" "juice_set_local_ice_attributes (Some u) (Some p) None = None"
  by (simp_all add: juice_gather_candidates_def juice_get_local_description_def juice_set_remote_description_def juice_add_remote_candidate_def
      juice_add_turn_server_def juice_set_remote_gathering_done_def juice_send_def juice_set_ice_tcp_mode_def juice_get_selected_addresses_def
      juice_get_state_def juice_set_local_ice_attributes_def)

end
