(* ===== verification/Spec2Isabelle.thy ===== *)
theory Spec2Isabelle
  imports HL_Run Const_Time Stun_Security Turn_Run Ice_Roundtrip Agent_Timing Agent_Run Udp_Props Server_Run
    Tcp_Props Conn_Props Juice_Api
begin

text \<open>
  \<^bold>\<open>hxDatachannel\<close>: WebRTC data channels for Haxe on HashLink.

  \<^bold>\<open>The program.\<close>  A Haxe program calls the primitives of the HashLink extension \<^verbatim>\<open>src/cpp/src/datachannel.c\<close>, which calls the
  C API of libdatachannel.  Network events come back as callbacks on threads of libdatachannel; the extension queues
  them and hands them to Haxe closures when the program calls \<^verbatim>\<open>process_events\<close>.  Below libdatachannel, libjuice
  (\<^verbatim>\<open>src/cpp/libdatachannel/deps/libjuice\<close>) opens the path to the peer: its ICE agent gathers candidates, checks candidate pairs with
  STUN messages, allocates relays with TURN and carries the datagrams.  The library models these two C programs.

  \<^bold>\<open>The extension\<close> (\<^verbatim>\<open>datachannel.c\<close>).
  \<^item> \<open>Callback_Queue\<close>: the two linked queues on a heap of \<^verbatim>\<open>malloc\<close> blocks.  Locale \<open>event_queue\<close> is their contract; the linked queue is an
    interpretation of it, so that it refines a list.
  \<^item> \<open>HL_Binding\<close>: objects with their closure slots and GC roots, finalizers, the callbacks, every primitive and
    \<^verbatim>\<open>process_events\<close>, on one state record \<open>hl_state\<close> with the semaphore and the mutex; calls into libdatachannel are a log, their results arguments.
  \<^item> \<open>HL_Events\<close>: what \<^verbatim>\<open>process_events\<close> delivers.  Every queued event is delivered once and in order, messages arrive with their bytes, and
    the queues are FIFO whatever \<^verbatim>\<open>malloc\<close> leaves in a new block.
  \<^item> \<open>HL_Run\<close>: the primitives as a relation, and runs in which callbacks on other threads interleave with primitives, collections and the single
    steps of \<^verbatim>\<open>process_events\<close> (\<open>sys_step\<close>, with lemmas that the code's functions are sequences of its steps).  Tokens and queued results
    stay in balance, counting the tokens that \<^verbatim>\<open>finalize\<close> discards with its semaphore; what that means for events queued before a restart; and
    the roots are exactly the closure fields of the live objects.

  \<^bold>\<open>libjuice, primitives.\<close>
  \<^item> \<open>Const_Time\<close> (\<^verbatim>\<open>const_time.c\<close>), \<open>Crc32\<close> (\<^verbatim>\<open>crc32.c\<close>, equal to the bit-serial CRC), \<open>Base64\<close> (\<^verbatim>\<open>base64.c\<close>, round trip and the byte the decoder
    writes too much), \<open>Addr\<close> (\<^verbatim>\<open>addr.c\<close>, equality and hash as locale \<open>hashed_key\<close>, mapped addresses), \<open>Picohash\<close> (\<^verbatim>\<open>picohash.h\<close>, \<^verbatim>\<open>hash.c\<close>, \<^verbatim>\<open>hmac.c\<close>: MD5, SHA-1, SHA-256 and HMAC as streaming contexts).

  \<^bold>\<open>libjuice, STUN\<close> (\<^verbatim>\<open>stun.c\<close>).
  \<^item> \<open>Stun\<close> writes, \<open>Stun_Read\<close> reads and checks messages, byte by byte over explicit buffers with the widths of the code; \<open>None\<close> is
    an access outside a buffer.
  \<^item> \<open>Stun_Props\<close>: reading any datagram is safe.  \<open>Stun_Wire\<close>: the exact bytes written.  \<open>Stun_Roundtrip\<close>: reading gives back what was written.
    \<open>Stun_Security\<close>: the integrity check accepts exactly what carries the MAC, and errors of the writer.

  \<^bold>\<open>libjuice, TURN\<close> (\<^verbatim>\<open>turn.c\<close>).
  \<^item> \<open>Turn\<close>: the hash table of peers with its two ordered arrays, permissions, channels and transaction ids.  \<open>Turn_Props\<close>: the invariant of all operations;
    locale \<open>ordered_array\<close> has the binary searches, interpreted on channels and on transaction ids.  \<open>Turn_Map\<close>: the table as a map.
    \<open>Turn_Run\<close>: memory safety and when the random draws end, channels and peers one-to-one, permissions and bindings until their
    expiry.

  \<^bold>\<open>libjuice, ICE\<close> (\<^verbatim>\<open>ice.c\<close>).
  \<^item> \<open>Ice\<close>, \<open>Ice_Sdp\<close>: candidates, priorities, pairs, the SDP parser and printer.  \<open>Ice_Props\<close>, \<open>Ice_Roundtrip\<close>: the sort is stable,
    priorities keep the order of the preferences, both agents agree on the order of pairs, descriptions survive printing and parsing.

  \<^bold>\<open>libjuice, agent\<close> (\<^verbatim>\<open>agent.c\<close>).  The state is the record \<open>juice_agent\<close>, pointers into its arrays are indices.
  \<^item> \<open>Agent\<close>: timers, pairs, candidates and look-up; \<open>Agent_Msg\<close>: the messages sent; \<open>Agent_Recv\<close>: datagrams received; \<open>Agent_Loop\<close>: \<^verbatim>\<open>agent_bookkeeping\<close>;
    \<open>Agent_Api\<close>: what the application calls, gathering and server resolution.
  \<^item> \<open>Agent_Frame\<close>: what operations leave alone (relation \<open>keeps\<close>, an instance of \<open>step_frame\<close>).  \<open>Agent_Input\<close>: payloads are
    shorter than the datagrams that carry them, so that the recursion ends.  \<open>Agent_Verify\<close>: only an authenticated answer makes a pair
    valid; \<open>carries\<close> says what a datagram brings, and from whom, through the agent's relays.  \<open>Agent_Select\<close>: only entries of valid pairs are
    selected.  \<open>Agent_Run\<close>: all runs, and where application data go.  \<open>Agent_Meeting\<close>: a run evaluated, up to the selection of a pair.
  \<^item> \<open>Agent_Timing\<close>: the search for time slots ends with the first free one, how often the services of the book-keeping send a check and when
    they give it up, role conflicts.

  \<^bold>\<open>libjuice, sockets\<close> (\<^verbatim>\<open>udp.c\<close>, as built for Linux).
  \<^item> \<open>Udp\<close>: choosing a port, opening and binding a socket, receiving, the addresses of a socket and of the interfaces.  \<open>Udp_Props\<close>: a range of ports is
    searched to its end, and which addresses are advertised.

  \<^bold>\<open>libjuice, server\<close> (\<^verbatim>\<open>server.c\<close>).  The state is the record \<open>juice_server\<close> with its environment; credentials have addresses, so that a pointer to freed ones is seen.
  \<^item> \<open>Server\<close>: creation, credentials, the table of allocations, book-keeping, nonces and answers.  \<open>Server_Turn\<close>: authentication, the TURN requests, relaying
    in both directions and the loop of the thread, over what \<^verbatim>\<open>poll\<close> answers and what other threads do meanwhile.
  \<^item> \<open>Server_Frame\<close>: what each part of a handler leaves alone.  \<open>Server_Auth\<close>: clients are isolated and authenticated, and the server is no open relay.
    \<open>Server_Run\<close>: quotas over all runs (\<open>step_frame\<close> again), and where the server fails: without credentials, after credentials expired, after a deletion,
    and when its table grows during \<^verbatim>\<open>poll\<close>.

  \<^bold>\<open>libjuice, connections\<close> (\<^verbatim>\<open>conn.c\<close> and the three backends, as built for Linux).  The state is the record \<open>conn_world\<close>: heaps of agents and of
  registries, the tables of the modes, and the environment with the answers of system calls.
  \<^item> \<open>Tcp\<close> (\<^verbatim>\<open>tcp.c\<close>): ICE frames over a stream that takes and delivers any number of bytes at a time.  \<open>Tcp_Props\<close>: framed datagrams come back in order
    for every cut of the stream that splits no header, and how the framing breaks.
  \<^item> \<open>Conn\<close>: the data.  \<open>Conn_Mux\<close> (\<^verbatim>\<open>conn_mux.c\<close>), \<open>Conn_Poll\<close> (\<^verbatim>\<open>conn_poll.c\<close>), \<open>Conn_Thread\<close> (\<^verbatim>\<open>conn_thread.c\<close>): the operations of the backends and the loops
    of their threads over the answers of \<^verbatim>\<open>poll\<close>.  \<open>Conn_Mode\<close> (\<^verbatim>\<open>conn.c\<close>): the table of the modes, \<^verbatim>\<open>conn_create\<close>, \<^verbatim>\<open>conn_destroy\<close>, \<^verbatim>\<open>juice_mux_listen\<close>.
  \<^item> \<open>Mux_Map\<close>: the hash map from addresses to agents refines a partial function; locale \<open>address_map\<close> is the interface, interpreted on the code's map.
  \<^item> \<open>Conn_Inv\<close>: the invariant \<open>conn_ok\<close> that ties agents, registries, tables and maps together.  \<open>Conn_Frame\<close>: what operations leave alone, and registries
    that come and go.  \<open>Conn_Modes\<close>: what \<^verbatim>\<open>conn.c\<close> needs from a mode, as locale \<open>concurrency_mode\<close>; \<open>Conn_Backends\<close> interprets it on the three
    backends; \<open>Conn_Client\<close> proves creation and destruction once over the locale.  \<open>Conn_Reach\<close>: the agent a datagram belongs to.
    \<open>Conn_Props\<close>: all reachable worlds; no pointer between agents and registries dangles, and the untyped pointers have the type of the mode.

  \<^bold>\<open>libjuice, public interface\<close> (\<^verbatim>\<open>juice.c\<close>): \<open>Juice_Api\<close>, the tests of null pointers and the error codes.

  \<^bold>\<open>Shared.\<close>  \<open>Prelude\<close>: bytes, words on the wire, buffer accesses, loops over indices with what they leave alone (locale \<open>step_frame\<close>),
  generic lemmas.

  \<^bold>\<open>Conventions.\<close>  A result of option type is \<open>None\<close> when the C program accesses memory it must not, or when a loop does not end; errors that the code
  reports are values.  What comes from outside is an argument or is read from an environment (random bytes, the clock, name
  services, results of sends); what goes out is a trace.

  \<^bold>\<open>Bounds and fuel.\<close>  \<open>agent_input\<close> recurses to the depth of the length of the datagram, which is enough since payloads are shorter
  (\<open>agent_input_recursion\<close>).  The loops of \<^verbatim>\<open>turn.c\<close> that draw random values until one is new are given the draws as a list; the agent
  offers 64 draws to each, and a longer search has no result; \<open>agent_turn_map_safe\<close> says when these loops end.  The search for a time slot is a partial function,
  with a theorem that it returns.  The threads of the server and of the backends run over a list of answers of \<^verbatim>\<open>poll\<close>, any finite
  beginning of their run.  \<^verbatim>\<open>insert_map_entry\<close> calls itself after growing the map: depth 2 is enough when there is memory
  (\<open>insert_map_entry_ok\<close>), no depth is without (\<open>insert_without_memory\<close>).  All other loops are total functions.

  \<^bold>\<open>Not modelled.\<close>  Memory exhaustion except where the extension tests it; locks and threads as such (operations that run under one lock are
  atomic steps, and the steps may interleave in any order); callbacks that call back into the agent; logging; which events a thread asks \<^verbatim>\<open>poll\<close> for; in the reachable worlds of
  \<open>Conn_Props\<close> the work of an agent is any change that keeps its configuration and the place of its connection; libdatachannel itself, usrsctp, libsrtp and mbedtls, which are other projects in C++ and C; the Haxe classes.
\<close>

end
